(* ===== verification/Prelude.thy ===== *)
theory Prelude
  imports Main "HOL-Library.Multiset"
begin

text \<open>
  Generic material of the development: results that may be thrown errors, JavaScript
  string operations on char lists, table operations in the style of the SQL statements
  the services issue, JSON values, and the facts about them that every component uses.

  Conventions.  A JavaScript string is a char list; its elements are the UTF-16 code
  units below 256.  A timestamp is the number of milliseconds since the epoch: the
  program stores \<open>Date.toISOString()\<close> texts, all of one width, so comparing two of them
  as strings is comparing these numbers.  A SQLite table is the list of its rows in rowid
  order.
\<close>

section \<open>Collections of facts\<close>

named_theorems table_simps \<open>rewriting table operations\<close>
named_theorems table_intros \<open>introduction rules for keys and uniqueness\<close>
named_theorems inv_intros \<open>preservation of a component's invariant\<close>

section \<open>Results\<close>

text \<open>A thrown \<open>ServiceError\<close> carries an HTTP status; any other exception is \<open>Thrown\<close>.\<close>

datatype failure = ServiceError nat | Thrown string

type_synonym 'a result = "failure + 'a"
type_synonym time = int

abbreviation Ok :: "'a \<Rightarrow> 'a result" where "Ok x \<equiv> Inr x"
abbreviation Err :: "failure \<Rightarrow> 'a result" where "Err e \<equiv> Inl e"

definition bind_result :: "'a result \<Rightarrow> ('a \<Rightarrow> 'b result) \<Rightarrow> 'b result" where
  "bind_result r f = (case r of Inl e \<Rightarrow> Inl e | Inr x \<Rightarrow> f x)"

lemma bind_result_simps [simp]:
  "bind_result (Err e) f = Err e"
  "bind_result (Ok x) f = f x"
  by (simp_all add: bind_result_def)

lemma bind_result_Ok [simp]:
  "bind_result r f = Ok y \<longleftrightarrow> (\<exists>x. r = Ok x \<and> f x = Ok y)"
  by (cases r) auto

lemma bind_result_Err [simp]:
  "bind_result r f = Err e \<longleftrightarrow> r = Err e \<or> (\<exists>x. r = Ok x \<and> f x = Err e)"
  by (cases r) auto

definition require :: "bool \<Rightarrow> failure \<Rightarrow> unit result" where
  "require b e = (if b then Ok () else Err e)"

lemma require_simps [simp]:
  "require b e = Ok u \<longleftrightarrow> b"
  "require b e = Err e' \<longleftrightarrow> \<not> b \<and> e' = e"
  by (auto simp: require_def)

definition is_ok :: "'a result \<Rightarrow> bool" where
  "is_ok r = (case r of Inl _ \<Rightarrow> False | Inr _ \<Rightarrow> True)"

lemma is_ok_simps [simp]: "is_ok (Ok x)" "\<not> is_ok (Err e)"
  by (simp_all add: is_ok_def)

fun map_result :: "('a \<Rightarrow> 'b result) \<Rightarrow> 'a list \<Rightarrow> 'b list result" where
  "map_result f [] = Ok []"
| "map_result f (x # xs) =
     bind_result (f x) (\<lambda>y. bind_result (map_result f xs) (\<lambda>ys. Ok (y # ys)))"

lemma map_result_Ok_length: "map_result f xs = Ok ys \<Longrightarrow> length ys = length xs"
  by (induction xs arbitrary: ys) auto

lemma map_result_Ok_set: "map_result f xs = Ok ys \<Longrightarrow> y \<in> set ys \<Longrightarrow> \<exists>x\<in>set xs. f x = Ok y"
  by (induction xs arbitrary: ys) auto

lemma map_result_total:
  "(\<And>x. x \<in> set xs \<Longrightarrow> \<exists>y. f x = Ok y \<and> P x y) \<Longrightarrow> \<exists>ys. map_result f xs = Ok ys \<and> list_all2 P xs ys"
proof (induction xs)
  case (Cons x xs)
  then obtain y ys where "f x = Ok y" "P x y" "map_result f xs = Ok ys" "list_all2 P xs ys"
    by (metis list.set_intros(1,2))
  then show ?case by auto
qed simp

text \<open>A guard that throws.\<close>

lemma guard_Ok: "(if b then Err e else r) = Ok x \<longleftrightarrow> \<not> b \<and> r = Ok x"
  by simp

section \<open>Optional values\<close>

text \<open>\<open>COALESCE(a, b)\<close> and the JavaScript operator \<open>a ?? b\<close>.\<close>

definition coalesce :: "'a option \<Rightarrow> 'a \<Rightarrow> 'a" where
  "coalesce a b = (case a of None \<Rightarrow> b | Some x \<Rightarrow> x)"

lemma coalesce_simps [simp]: "coalesce None b = b" "coalesce (Some x) b = x"
  by (simp_all add: coalesce_def)

definition or_else :: "'a option \<Rightarrow> 'a option \<Rightarrow> 'a option" where
  "or_else a b = (case a of None \<Rightarrow> b | Some x \<Rightarrow> Some x)"

lemma or_else_simps [simp]: "or_else None b = b" "or_else (Some x) b = Some x"
  by (simp_all add: or_else_def)

section \<open>Strings\<close>

abbreviation code :: "char \<Rightarrow> nat" where "code c \<equiv> of_char c"

definition is_digit :: "char \<Rightarrow> bool" where
  "is_digit c \<longleftrightarrow> 48 \<le> code c \<and> code c \<le> 57"

definition is_upper :: "char \<Rightarrow> bool" where
  "is_upper c \<longleftrightarrow> 65 \<le> code c \<and> code c \<le> 90"

definition is_lower :: "char \<Rightarrow> bool" where
  "is_lower c \<longleftrightarrow> 97 \<le> code c \<and> code c \<le> 122"

definition is_alnum :: "char \<Rightarrow> bool" where
  "is_alnum c \<longleftrightarrow> is_digit c \<or> is_upper c \<or> is_lower c"

text \<open>White space of \<open>String.prototype.trim\<close> and of the class \<open>\s\<close>.\<close>

definition is_space :: "char \<Rightarrow> bool" where
  "is_space c \<longleftrightarrow> 9 \<le> code c \<and> code c \<le> 13 \<or> code c = 32 \<or> code c = 160"

lemmas char_class_defs = is_digit_def is_upper_def is_lower_def is_alnum_def is_space_def

text \<open>\<open>String.prototype.toLowerCase\<close> on one code unit below 256.\<close>

definition lower_char :: "char \<Rightarrow> char" where
  "lower_char c =
     (if is_upper c \<or> 192 \<le> code c \<and> code c \<le> 222 \<and> code c \<noteq> 215
      then char_of (code c + 32) else c)"

definition to_lower :: "string \<Rightarrow> string" where
  "to_lower = map lower_char"

definition trim :: "string \<Rightarrow> string" where
  "trim s = rev (dropWhile is_space (rev (dropWhile is_space s)))"

definition digit_value :: "char \<Rightarrow> nat" where
  "digit_value c = code c - 48"

text \<open>
  \<open>Number(s)\<close> of a digit string.  The program only keeps it when it is a safe integer, and
  rounding to a double never turns an integer above the bound into one below it.
\<close>

definition number_of :: "string \<Rightarrow> nat" where
  "number_of s = foldl (\<lambda>n c. 10 * n + digit_value c) 0 s"

text \<open>The decimal text of a number, as a template literal prints it.\<close>

fun show_nat :: "nat \<Rightarrow> string" where
  "show_nat n = (if n < 10 then [char_of (48 + n)] else show_nat (n div 10) @ [char_of (48 + n mod 10)])"

declare show_nat.simps [simp del]

fun split_on :: "char \<Rightarrow> string \<Rightarrow> string list" where
  "split_on c [] = [[]]"
| "split_on c (x # xs) =
     (if x = c then [] # split_on c xs
      else (case split_on c xs of [] \<Rightarrow> [[x]] | y # ys \<Rightarrow> (x # y) # ys))"

fun join_with :: "string \<Rightarrow> string list \<Rightarrow> string" where
  "join_with sep [] = []"
| "join_with sep [x] = x"
| "join_with sep (x # y # ys) = x @ sep @ join_with sep (y # ys)"

fun starts_with :: "string \<Rightarrow> string \<Rightarrow> bool" where
  "starts_with s [] = True"
| "starts_with [] (p # ps) = False"
| "starts_with (x # xs) (p # ps) = (x = p \<and> starts_with xs ps)"

definition ends_with :: "string \<Rightarrow> string \<Rightarrow> bool" where
  "ends_with s p = starts_with (rev s) (rev p)"

fun contains :: "string \<Rightarrow> string \<Rightarrow> bool" where
  "contains [] p = (p = [])"
| "contains (x # xs) p = (starts_with (x # xs) p \<or> contains xs p)"

text \<open>The order \<open><\<close> of JavaScript strings: lexicographic by code unit.\<close>

fun js_less :: "string \<Rightarrow> string \<Rightarrow> bool" where
  "js_less xs [] = False"
| "js_less [] (y # ys) = True"
| "js_less (x # xs) (y # ys) = (code x < code y \<or> x = y \<and> js_less xs ys)"

lemma code_eq [simp]: "code x = code y \<longleftrightarrow> x = y"
  by (metis char_of_char)

lemma js_less_irrefl [simp]: "\<not> js_less xs xs"
  by (induction xs) auto

lemma js_less_trans: "js_less xs ys \<Longrightarrow> js_less ys zs \<Longrightarrow> js_less xs zs"
proof (induction xs ys arbitrary: zs rule: js_less.induct)
  case (1 xs)
  then show ?case by simp
next
  case (2 y ys)
  then show ?case by (cases zs) auto
next
  case (3 x xs y ys)
  then show ?case by (cases zs) auto
qed

lemma js_less_linear: "xs \<noteq> ys \<Longrightarrow> js_less xs ys \<or> js_less ys xs"
proof (induction xs ys rule: js_less.induct)
  case (1 xs)
  then show ?case by (cases xs) auto
next
  case (2 y ys)
  then show ?case by simp
next
  case (3 x xs y ys)
  then show ?case using linorder_less_linear [of "code x" "code y"] by auto
qed

lemma js_less_asym: "js_less xs ys \<Longrightarrow> \<not> js_less ys xs"
  using js_less_trans js_less_irrefl by blast

lemma number_of_snoc: "number_of (s @ [c]) = 10 * number_of s + digit_value c"
  by (simp add: number_of_def)

lemma digit_value_char [simp]: "n < 10 \<Longrightarrow> digit_value (char_of (48 + n)) = n"
  by (simp add: digit_value_def take_bit_eq_mod)

lemma number_of_show_nat [simp]: "number_of (show_nat n) = n"
proof (induction n rule: show_nat.induct)
  case (1 n)
  show ?case
  proof (cases "n < 10")
    case True
    then show ?thesis by (subst show_nat.simps) (simp add: number_of_def)
  next
    case False
    with 1 show ?thesis by (subst show_nat.simps) (simp add: number_of_snoc)
  qed
qed

lemma show_nat_inj [simp]: "show_nat m = show_nat n \<longleftrightarrow> m = n"
  by (metis number_of_show_nat)

lemma show_nat_digits: "list_all is_digit (show_nat n)"
proof (induction n rule: show_nat.induct)
  case (1 n)
  have digit: "is_digit (char_of (48 + m))" if "m < 10" for m :: nat
    using that by (simp add: is_digit_def take_bit_eq_mod)
  show ?case
  proof (cases "n < 10")
    case True
    then show ?thesis by (subst show_nat.simps) (simp add: digit)
  next
    case False
    then have eq: "show_nat n = show_nat (n div 10) @ [char_of (48 + n mod 10)]"
      by (subst show_nat.simps) simp
    have "list_all is_digit [char_of (48 + n mod 10)]" using digit [of "n mod 10"] by simp
    with 1 False show ?thesis unfolding eq by (simp only: list_all_append) blast
  qed
qed

lemma split_last:
  assumes "c \<notin> set xs" and "c \<notin> set ys" and "as @ c # xs = bs @ c # ys"
  shows "as = bs \<and> xs = ys"
proof -
  have "rev xs @ c # rev as = rev ys @ c # rev bs"
    using arg_cong [OF assms(3), of rev] by simp
  moreover have "takeWhile (\<lambda>x. x \<noteq> c) (rev zs @ c # us) = rev zs" if "c \<notin> set zs" for zs us
    using that by (subst takeWhile_append2) auto
  ultimately have "rev xs = rev ys" using assms(1,2) by metis
  with assms(3) show ?thesis by auto
qed

lemma show_nat_no_colon: "CHR '':'' \<notin> set (show_nat n)"
proof -
  have "\<not> is_digit (CHR '':'')" by (simp add: is_digit_def)
  with show_nat_digits [of n] show ?thesis by (auto simp: list_all_iff)
qed

lemma show_nat_small: "n < 10 \<Longrightarrow> show_nat n = [char_of (48 + n)]"
  by (subst show_nat.simps) simp

lemma split_on_not_Nil [simp]: "split_on c s \<noteq> []"
  by (cases s) (auto split: list.splits)

lemma join_split [simp]: "join_with [c] (split_on c s) = s"
proof (induction s)
  case Nil
  show ?case by simp
next
  case (Cons x s)
  then obtain y ys where "split_on c s = y # ys"
    by (cases "split_on c s") auto
  with Cons show ?case by (cases ys) auto
qed

lemma split_on_fresh: "c \<notin> set s \<Longrightarrow> split_on c s = [s]"
  by (induction s) auto

lemma split_on_parts: "p \<in> set (split_on c s) \<Longrightarrow> c \<notin> set p"
proof (induction s arbitrary: p)
  case Nil
  then show ?case by simp
next
  case (Cons x s)
  obtain y ys where "split_on c s = y # ys"
    by (cases "split_on c s") auto
  with Cons show ?case by (auto split: if_splits)
qed

lemma split_on_subset: "p \<in> set (split_on c s) \<Longrightarrow> set p \<subseteq> set s"
proof (induction s arbitrary: p)
  case Nil
  then show ?case by simp
next
  case (Cons x s)
  obtain y ys where "split_on c s = y # ys"
    by (cases "split_on c s") auto
  with Cons show ?case by (fastforce split: if_splits)
qed

lemma starts_with_iff: "starts_with s p \<longleftrightarrow> (\<exists>t. s = p @ t)"
  by (induction s p rule: starts_with.induct) auto

lemma contains_iff: "contains s p \<longleftrightarrow> (\<exists>a b. s = a @ p @ b)"
proof (induction s)
  case Nil
  then show ?case by auto
next
  case (Cons x s)
  have "(\<exists>a b. x # s = a @ p @ b) \<longleftrightarrow> (\<exists>b. x # s = p @ b) \<or> (\<exists>a b. s = a @ p @ b)"
    by (metis append_Cons append_Nil append_eq_Cons_conv)
  with Cons show ?case by (simp add: starts_with_iff)
qed

lemma code_lower_char:
  "code (lower_char c) =
     (if is_upper c \<or> 192 \<le> code c \<and> code c \<le> 222 \<and> code c \<noteq> 215 then code c + 32 else code c)"
proof -
  have "code c + 32 < 256" if "is_upper c \<or> code c \<le> 222"
    using that by (auto simp: is_upper_def)
  then show ?thesis
    by (auto simp: lower_char_def take_bit_eq_mod is_upper_def)
qed

lemma lower_char_idem [simp]: "lower_char (lower_char c) = lower_char c"
proof -
  have "code (lower_char (lower_char c)) = code (lower_char c)"
    by (auto simp: code_lower_char is_upper_def)
  then show ?thesis by simp
qed

lemma is_space_lower [simp]: "is_space (lower_char c) = is_space c"
  by (auto simp: is_space_def code_lower_char is_upper_def)

lemma to_lower_idem [simp]: "to_lower (to_lower s) = to_lower s"
  by (simp add: to_lower_def)

lemma to_lower_Nil [simp]: "to_lower [] = []"
  by (simp add: to_lower_def)

lemma to_lower_eq_Nil [simp]: "to_lower s = [] \<longleftrightarrow> s = []"
  by (simp add: to_lower_def)

lemma trim_idem [simp]: "trim (trim s) = trim s"
proof -
  let ?u = "dropWhile is_space s"
  have "dropWhile is_space (rev (dropWhile is_space (rev ?u))) = rev (dropWhile is_space (rev ?u))"
  proof (cases "dropWhile is_space (rev ?u) = []")
    case True
    show ?thesis by (simp only: True rev.simps dropWhile.simps)
  next
    case False
    have eq: "rev ?u = takeWhile is_space (rev ?u) @ dropWhile is_space (rev ?u)" by simp
    have "?u = rev (dropWhile is_space (rev ?u)) @ rev (takeWhile is_space (rev ?u))"
      by (metis eq rev_append rev_rev_ident)
    moreover have "?u \<noteq> []" using False by (metis dropWhile.simps(1) rev.simps(1))
    ultimately have "hd (rev (dropWhile is_space (rev ?u))) = hd ?u"
      by (metis False hd_append2 rev_is_Nil_conv)
    moreover have "\<not> is_space (hd ?u)" using \<open>?u \<noteq> []\<close> by (rule hd_dropWhile)
    ultimately show ?thesis using False
      by (cases "rev (dropWhile is_space (rev ?u))") auto
  qed
  then show ?thesis by (simp add: trim_def)
qed

lemma trim_to_lower: "trim (to_lower s) = to_lower (trim s)"
  by (simp add: trim_def to_lower_def dropWhile_map rev_map comp_def)

section \<open>Tables\<close>

text \<open>
  \<open>UPDATE t SET .. WHERE p\<close>, \<open>DELETE FROM t WHERE p\<close>, the number of rows a statement
  changes, and \<open>SELECT .. WHERE p\<close> with \<open>get()\<close>: the first row.
\<close>

definition update_where :: "('r \<Rightarrow> bool) \<Rightarrow> ('r \<Rightarrow> 'r) \<Rightarrow> 'r list \<Rightarrow> 'r list" where
  "update_where p f rows = map (\<lambda>r. if p r then f r else r) rows"

definition delete_where :: "('r \<Rightarrow> bool) \<Rightarrow> 'r list \<Rightarrow> 'r list" where
  "delete_where p rows = filter (\<lambda>r. \<not> p r) rows"

definition changes :: "('r \<Rightarrow> bool) \<Rightarrow> 'r list \<Rightarrow> nat" where
  "changes p rows = length (filter p rows)"

definition select_one :: "('r \<Rightarrow> bool) \<Rightarrow> 'r list \<Rightarrow> 'r option" where
  "select_one p rows = find p rows"

text \<open>\<open>INSERT .. ON CONFLICT DO UPDATE\<close>: merge into the rows with the key, or append.\<close>

definition upsert :: "('r \<Rightarrow> bool) \<Rightarrow> ('r \<Rightarrow> 'r) \<Rightarrow> 'r \<Rightarrow> 'r list \<Rightarrow> 'r list" where
  "upsert p f new rows = (if \<exists>r\<in>set rows. p r then update_where p f rows else rows @ [new])"

text \<open>A (partial) unique index: the keys of the rows the index covers are distinct.\<close>

definition unique_on :: "('r \<Rightarrow> 'k) \<Rightarrow> ('r \<Rightarrow> bool) \<Rightarrow> 'r list \<Rightarrow> bool" where
  "unique_on key p rows = distinct (map key (filter p rows))"

lemma length_update_where [simp]: "length (update_where p f rows) = length rows"
  by (simp add: update_where_def)

lemma set_update_where: "set (update_where p f rows) = (\<lambda>r. if p r then f r else r) ` set rows"
  by (simp add: update_where_def)

lemma update_where_mem: "r \<in> set rows \<Longrightarrow> p r \<Longrightarrow> f r \<in> set (update_where p f rows)"
  by (force simp: set_update_where)

lemma update_where_cases:
  "r \<in> set (update_where p f rows) \<Longrightarrow> (\<exists>s\<in>set rows. p s \<and> r = f s) \<or> (r \<in> set rows \<and> \<not> p r)"
  by (auto simp: set_update_where)

lemma update_where_Nil [simp]: "update_where p f [] = []"
  by (simp add: update_where_def)

lemma update_where_Cons [simp]:
  "update_where p f (r # rows) = (if p r then f r else r) # update_where p f rows"
  by (simp add: update_where_def)

lemma update_where_append [simp]:
  "update_where p f (xs @ ys) = update_where p f xs @ update_where p f ys"
  by (simp add: update_where_def)

lemma delete_where_Nil [simp]: "delete_where p [] = []"
  by (simp add: delete_where_def)

lemma delete_where_Cons [simp]:
  "delete_where p (r # rows) = (if p r then delete_where p rows else r # delete_where p rows)"
  by (simp add: delete_where_def)

lemma set_delete_where [simp]: "set (delete_where p rows) = {r \<in> set rows. \<not> p r}"
  by (auto simp: delete_where_def)

lemma map_update_where [table_simps]:
  "(\<And>r. p r \<Longrightarrow> g (f r) = g r) \<Longrightarrow> map g (update_where p f rows) = map g rows"
  by (induction rows) auto

lemma changes_zero [simp]: "changes p rows = 0 \<longleftrightarrow> (\<forall>r\<in>set rows. \<not> p r)"
  by (simp add: changes_def filter_empty_conv)

lemma changes_pos: "0 < changes p rows \<longleftrightarrow> (\<exists>r\<in>set rows. p r)"
  by (metis changes_zero gr0I less_numeral_extra(3))

lemma select_one_Some: "select_one p rows = Some r \<Longrightarrow> r \<in> set rows \<and> p r"
  unfolding select_one_def by (metis find_Some_iff nth_mem)

lemma select_one_None [simp]: "select_one p rows = None \<longleftrightarrow> (\<forall>r\<in>set rows. \<not> p r)"
  by (auto simp: select_one_def find_None_iff)

lemma select_one_simps [simp]:
  "select_one p [] = None"
  "select_one p (r # rows) = (if p r then Some r else select_one p rows)"
  by (simp_all add: select_one_def)

lemma select_one_append:
  "select_one p (xs @ ys) =
     (case select_one p xs of None \<Rightarrow> select_one p ys | Some r \<Rightarrow> Some r)"
  by (induction xs) auto

lemma select_one_cong:
  "(\<And>r. r \<in> set rows \<Longrightarrow> p r = q r) \<Longrightarrow> select_one p rows = select_one q rows"
  by (induction rows) auto

lemma select_one_update_where:
  assumes "\<And>r. p r \<Longrightarrow> q (f r) = q r"
  shows "select_one q (update_where p f rows) =
         map_option (\<lambda>r. if p r then f r else r) (select_one q rows)"
  using assms by (induction rows) auto

lemma select_one_unique:
  assumes "distinct (map key rows)" and "r \<in> set rows" and "p r"
    and "\<And>s. s \<in> set rows \<Longrightarrow> p s \<Longrightarrow> key s = key r"
  shows "select_one p rows = Some r"
proof -
  from assms(2,3) have "select_one p rows \<noteq> None" by auto
  then obtain s where s: "select_one p rows = Some s" by blast
  from select_one_Some [OF s] assms(4) have "s \<in> set rows" and "key s = key r" by auto
  with assms(1,2) have "s = r" by (metis distinct_map inj_onD)
  with s show ?thesis by simp
qed

lemma distinct_key_unique:
  "distinct (map key rows) \<Longrightarrow> r \<in> set rows \<Longrightarrow> s \<in> set rows \<Longrightarrow> key r = key s \<Longrightarrow> r = s"
  by (metis distinct_map inj_onD)

lemma unique_onD:
  "unique_on key p rows \<Longrightarrow> r \<in> set rows \<Longrightarrow> s \<in> set rows \<Longrightarrow> p r \<Longrightarrow> p s \<Longrightarrow>
   key r = key s \<Longrightarrow> r = s"
  by (auto simp: unique_on_def distinct_map inj_on_def)

lemma unique_on_Nil [simp]: "unique_on key p []"
  by (simp add: unique_on_def)

lemma unique_on_Cons [simp]:
  "unique_on key p (r # rows) \<longleftrightarrow>
     (p r \<longrightarrow> key r \<notin> key ` {s \<in> set rows. p s}) \<and> unique_on key p rows"
  by (auto simp: unique_on_def)

lemma unique_on_snoc [simp]:
  "unique_on key p (rows @ [r]) \<longleftrightarrow>
     unique_on key p rows \<and> (p r \<longrightarrow> key r \<notin> key ` {s \<in> set rows. p s})"
  by (auto simp: unique_on_def)

lemma find_SomeD: "find p xs = Some x \<Longrightarrow> x \<in> set xs \<and> p x"
  by (induction xs) (auto split: if_splits)

lemma map_filter_total:
  "(\<And>x. x \<in> set xs \<Longrightarrow> f x = Some (g x)) \<Longrightarrow> List.map_filter f xs = map g xs"
  by (induction xs) (auto simp: List.map_filter_simps)

text \<open>A coarser key is unique when the rows of the index agree on the finer one.\<close>

lemma unique_on_from_key:
  assumes "distinct (map k rows)"
    and "\<And>r s. r \<in> set rows \<Longrightarrow> s \<in> set rows \<Longrightarrow> p r \<Longrightarrow> p s \<Longrightarrow> u r = u s \<Longrightarrow> k r = k s"
  shows "unique_on u p rows"
proof -
  have "inj_on u (set (filter p rows))"
  proof (rule inj_onI)
    fix r s assume "r \<in> set (filter p rows)" "s \<in> set (filter p rows)" "u r = u s"
    then have "r \<in> set rows" "s \<in> set rows" "k r = k s" using assms(2) by auto
    with assms(1) show "r = s" by (metis distinct_key_unique)
  qed
  moreover have "distinct (filter p rows)" using assms(1) by (simp add: distinct_map)
  ultimately show ?thesis by (simp add: unique_on_def distinct_map)
qed

text \<open>An update that never adds a row to the index keeps the index.\<close>

lemma unique_on_update_where [table_intros]:
  assumes "unique_on key p rows"
    and "\<And>r. q r \<Longrightarrow> p (f r) \<Longrightarrow> p r" and "\<And>r. q r \<Longrightarrow> key (f r) = key r"
  shows "unique_on key p (update_where q f rows)"
  using assms
proof (induction rows)
  case Nil
  then show ?case by simp
next
  case (Cons r rows)
  have sub: "key ` {s \<in> set (update_where q f rows). p s} \<subseteq> key ` {s \<in> set rows. p s}"
    using Cons.prems(2,3) by (auto simp: set_update_where split: if_splits)
  from Cons have "unique_on key p (update_where q f rows)" by simp
  with sub Cons.prems show ?case by auto
qed

lemma unique_on_delete_where [table_intros]:
  "unique_on key p rows \<Longrightarrow> unique_on key p (delete_where q rows)"
  by (induction rows) auto

lemma distinct_map_delete_where [table_intros]:
  "distinct (map key rows) \<Longrightarrow> distinct (map key (delete_where q rows))"
  by (induction rows) auto

text \<open>\<open>findIndex\<close>; \<open>None\<close> stands for -1.\<close>

fun find_index :: "('a \<Rightarrow> bool) \<Rightarrow> 'a list \<Rightarrow> nat option" where
  "find_index p [] = None"
| "find_index p (x # xs) = (if p x then Some 0 else map_option Suc (find_index p xs))"

lemma find_index_append:
  "(\<And>y. y \<in> set xs \<Longrightarrow> \<not> p y) \<Longrightarrow> p x \<Longrightarrow> find_index p (xs @ x # ys) = Some (length xs)"
  by (induction xs) auto

section \<open>Sorting\<close>

text \<open>
  \<open>Array.prototype.sort\<close> with a comparator and SQL's \<open>ORDER BY\<close> are stable sorts; a
  stable sort by a consistent comparator has one result, the one insertion gives.
\<close>

fun insert_by :: "('a \<Rightarrow> 'a \<Rightarrow> bool) \<Rightarrow> 'a \<Rightarrow> 'a list \<Rightarrow> 'a list" where
  "insert_by le x [] = [x]"
| "insert_by le x (y # ys) = (if le x y then x # y # ys else y # insert_by le x ys)"

definition sort_by :: "('a \<Rightarrow> 'a \<Rightarrow> bool) \<Rightarrow> 'a list \<Rightarrow> 'a list" where
  "sort_by le xs = foldr (insert_by le) xs []"

lemma sort_by_simps [simp]:
  "sort_by le [] = []"
  "sort_by le (x # xs) = insert_by le x (sort_by le xs)"
  by (simp_all add: sort_by_def)

lemma mset_insert_by [simp]: "mset (insert_by le x xs) = add_mset x (mset xs)"
  by (induction xs) auto

lemma mset_sort_by [simp]: "mset (sort_by le xs) = mset xs"
  by (induction xs) auto

lemma set_sort_by [simp]: "set (sort_by le xs) = set xs"
  by (metis mset_sort_by set_mset_mset)

lemma length_sort_by [simp]: "length (sort_by le xs) = length xs"
  by (metis mset_sort_by size_mset)

lemma distinct_sort_by [simp]: "distinct (map f (sort_by le xs)) = distinct (map f xs)"
  by (metis mset_map mset_sort_by mset_eq_imp_distinct_iff)

lemma sorted_wrt_insert_by:
  assumes total: "\<And>a b. a \<in> insert x (set xs) \<Longrightarrow> b \<in> insert x (set xs) \<Longrightarrow> le a b \<or> le b a"
    and trans: "\<And>a b c. le a b \<Longrightarrow> le b c \<Longrightarrow> le a c"
    and "sorted_wrt le xs"
  shows "sorted_wrt le (insert_by le x xs)"
  using assms
proof (induction xs)
  case Nil
  then show ?case by simp
next
  case (Cons y ys)
  have set: "set (insert_by le x ys) = insert x (set ys)"
    by (metis mset_insert_by set_mset_add_mset_insert set_mset_mset)
  show ?case
  proof (cases "le x y")
    case True
    with Cons.prems(2,3) show ?thesis by auto
  next
    case False
    with Cons.prems(1) [of x y] have "le y x" by auto
    moreover have "sorted_wrt le (insert_by le x ys)"
      using Cons by auto
    ultimately show ?thesis using False Cons.prems(3) set by auto
  qed
qed

lemma sorted_wrt_sort_by:
  assumes "\<And>a b. a \<in> set xs \<Longrightarrow> b \<in> set xs \<Longrightarrow> le a b \<or> le b a"
    and "\<And>a b c. le a b \<Longrightarrow> le b c \<Longrightarrow> le a c"
  shows "sorted_wrt le (sort_by le xs)"
  using assms
proof (induction xs)
  case (Cons x xs)
  have "sorted_wrt le (sort_by le xs)"
  proof (rule Cons.IH)
    show "le a b \<or> le b a" if "a \<in> set xs" "b \<in> set xs" for a b
      using Cons.prems(1) [of a b] that by simp
  qed (rule Cons.prems(2))
  moreover have "le a b \<or> le b a"
    if "a \<in> insert x (set (sort_by le xs))" "b \<in> insert x (set (sort_by le xs))" for a b
    using that Cons.prems(1) [of a b] by simp
  ultimately show ?case
    using sorted_wrt_insert_by [of x "sort_by le xs" le] Cons.prems(2) by simp
qed simp

section \<open>JSON values\<close>

datatype json =
    JNull
  | JBool bool
  | JNum int
  | JStr string
  | JArr "json list"
  | JObj "(string \<times> json) list"

text \<open>Reading a property of an object; \<open>None\<close> is \<open>undefined\<close>.\<close>

definition json_get :: "string \<Rightarrow> (string \<times> json) list \<Rightarrow> json option" where
  "json_get k kvs = map_of kvs k"

end
