(* ===== verification/Versions.thy ===== *)
theory Versions
  imports Prelude
begin

text \<open>
  Release versions (src/src/server/releases.ts): the parser of the version syntax and the
  comparison that orders updates.  The interface \<open>version_order\<close> is what the update
  services rely on; it is interpreted on \<open>compare_versions\<close> below.
\<close>

section \<open>The version syntax\<close>

datatype pre_ident = Num nat | Str string

record semver =
  v_major :: nat
  v_minor :: nat
  v_patch :: nat
  v_prerelease :: "pre_ident list"

definition max_safe_integer :: nat where
  "max_safe_integer = 9007199254740991"

definition safe_integer :: "nat \<Rightarrow> bool" where
  "safe_integer n \<longleftrightarrow> n \<le> max_safe_integer"

lemma safe_integer_code [code]: "safe_integer n \<longleftrightarrow> int n \<le> 9007199254740991"
  by (simp add: safe_integer_def max_safe_integer_def)

definition all_digits :: "string \<Rightarrow> bool" where
  "all_digits s \<longleftrightarrow> s \<noteq> [] \<and> list_all is_digit s"

text \<open>\<open>0|[1-9]\d*\<close>\<close>

definition core_number :: "string \<Rightarrow> bool" where
  "core_number s \<longleftrightarrow> all_digits s \<and> (length s > 1 \<longrightarrow> hd s \<noteq> CHR ''0'')"

text \<open>\<open>[0-9A-Za-z-]+\<close>\<close>

definition identifier_text :: "string \<Rightarrow> bool" where
  "identifier_text s \<longleftrightarrow> s \<noteq> [] \<and> list_all (\<lambda>c. is_alnum c \<or> c = CHR ''-'') s"

definition parse_identifier :: "string \<Rightarrow> pre_ident option" where
  "parse_identifier s =
     (if \<not> all_digits s then Some (Str s)
      else if length s > 1 \<and> hd s = CHR ''0'' then None
      else if \<not> safe_integer (number_of s) then None
      else Some (Num (number_of s)))"

fun parse_identifiers :: "string list \<Rightarrow> pre_ident list option" where
  "parse_identifiers [] = Some []"
| "parse_identifiers (s # ss) =
     (case parse_identifier s of None \<Rightarrow> None
      | Some i \<Rightarrow> map_option ((#) i) (parse_identifiers ss))"

text \<open>
  The pattern's core holds digits and dots only, so the first \<open>-\<close> of a matching text
  starts the prerelease.
\<close>

fun version_of_parts :: "string list \<Rightarrow> string list \<Rightarrow> semver option" where
  "version_of_parts [a, b, c] pre =
     (if list_all core_number [a, b, c] \<and> list_all identifier_text pre
         \<and> list_all (\<lambda>x. safe_integer (number_of x)) [a, b, c]
      then map_option
             (\<lambda>is. \<lparr>v_major = number_of a, v_minor = number_of b, v_patch = number_of c,
                     v_prerelease = is\<rparr>)
             (parse_identifiers pre)
      else None)"
| "version_of_parts _ pre = None"

definition core_text :: "string \<Rightarrow> string" where
  "core_text s = takeWhile (\<lambda>c. c \<noteq> CHR ''-'') s"

definition prerelease_texts :: "string \<Rightarrow> string list" where
  "prerelease_texts s =
     (case dropWhile (\<lambda>c. c \<noteq> CHR ''-'') s of [] \<Rightarrow> [] | _ # rest \<Rightarrow> split_on (CHR ''.'') rest)"

definition parse_version :: "string \<Rightarrow> semver option" where
  "parse_version s = version_of_parts (split_on (CHR ''.'') (core_text s)) (prerelease_texts s)"

fun_cases version_of_parts_SomeE: "version_of_parts ps pre = Some v"

section \<open>Comparison\<close>

definition compare_numbers :: "nat \<Rightarrow> nat \<Rightarrow> int" where
  "compare_numbers a b = (if a = b then 0 else if a > b then 1 else - 1)"

fun compare_identifier :: "pre_ident \<Rightarrow> pre_ident \<Rightarrow> int" where
  "compare_identifier (Num m) (Num n) = compare_numbers m n"
| "compare_identifier (Num m) (Str t) = - 1"
| "compare_identifier (Str s) (Num n) = 1"
| "compare_identifier (Str s) (Str t) = (if s = t then 0 else if js_less t s then 1 else - 1)"

text \<open>The loop over the longer of the two prerelease lists; a missing entry is smaller.\<close>

fun compare_prerelease :: "pre_ident list \<Rightarrow> pre_ident list \<Rightarrow> int" where
  "compare_prerelease [] [] = 0"
| "compare_prerelease [] (b # bs) = - 1"
| "compare_prerelease (a # as) [] = 1"
| "compare_prerelease (a # as) (b # bs) =
     (if a = b then compare_prerelease as bs else compare_identifier a b)"

definition compare_semver :: "semver \<Rightarrow> semver \<Rightarrow> int" where
  "compare_semver a b =
     (if v_major a \<noteq> v_major b then compare_numbers (v_major a) (v_major b)
      else if v_minor a \<noteq> v_minor b then compare_numbers (v_minor a) (v_minor b)
      else if v_patch a \<noteq> v_patch b then compare_numbers (v_patch a) (v_patch b)
      else if v_prerelease a = [] \<or> v_prerelease b = []
        then (if length (v_prerelease a) = length (v_prerelease b) then 0
              else if v_prerelease a \<noteq> [] then - 1 else 1)
      else compare_prerelease (v_prerelease a) (v_prerelease b))"

definition compare_versions :: "string \<Rightarrow> string \<Rightarrow> int result" where
  "compare_versions left right =
     (case (parse_version left, parse_version right) of
        (Some a, Some b) \<Rightarrow> Ok (compare_semver a b)
      | _ \<Rightarrow> Err (Thrown ''invalid version''))"

definition valid_version :: "string \<Rightarrow> bool" where
  "valid_version s \<longleftrightarrow> parse_version s \<noteq> None"

definition is_prerelease :: "string \<Rightarrow> bool" where
  "is_prerelease s =
     (case parse_version s of None \<Rightarrow> False | Some v \<Rightarrow> v_prerelease v \<noteq> [])"

lemmas version_eval =
  parse_version_def core_text_def prerelease_texts_def core_number_def all_digits_def
  identifier_text_def number_of_def digit_value_def safe_integer_def max_safe_integer_def parse_identifier_def
  compare_versions_def compare_semver_def compare_numbers_def valid_version_def char_class_defs

section \<open>The order\<close>

lemmas compare_defs = compare_semver_def compare_numbers_def

lemma compare_identifier_zero [simp]: "compare_identifier a b = 0 \<longleftrightarrow> a = b"
  by (cases a; cases b) (auto simp: compare_numbers_def)

lemma compare_identifier_flip: "compare_identifier b a = - compare_identifier a b"
  by (cases a; cases b) (auto simp: compare_numbers_def dest: js_less_asym js_less_linear)

lemma compare_identifier_trans:
  "compare_identifier a b = 1 \<Longrightarrow> compare_identifier b c = 1 \<Longrightarrow> compare_identifier a c = 1"
proof (cases a; cases b; cases c)
  fix s t u
  assume *: "a = Str s" "b = Str t" "c = Str u"
    and "compare_identifier a b = 1" and "compare_identifier b c = 1"
  then have "js_less t s" and "js_less u t" by (auto split: if_splits)
  then have "js_less u s" by (rule js_less_trans [rotated])
  with * show ?thesis by auto
qed (auto simp: compare_numbers_def split: if_splits)

lemma compare_identifier_same [simp]: "compare_identifier a a = 0"
  by simp

lemma compare_identifier_range: "compare_identifier a b \<in> {- 1, 0, 1}"
  by (cases a; cases b) (auto simp: compare_numbers_def)

lemma compare_prerelease_zero [simp]: "compare_prerelease as bs = 0 \<longleftrightarrow> as = bs"
  by (induction as bs rule: compare_prerelease.induct) auto

lemma compare_prerelease_flip: "compare_prerelease bs as = - compare_prerelease as bs"
proof (induction as bs rule: compare_prerelease.induct)
  case (4 a as b bs)
  then show ?case using compare_identifier_flip [of b a] by simp
qed simp_all

lemma compare_prerelease_range: "compare_prerelease as bs \<in> {- 1, 0, 1}"
  using compare_identifier_range
  by (induction as bs rule: compare_prerelease.induct) auto

lemma compare_prerelease_trans:
  "compare_prerelease as bs = 1 \<Longrightarrow> compare_prerelease bs cs = 1 \<Longrightarrow> compare_prerelease as cs = 1"
proof (induction as bs arbitrary: cs rule: compare_prerelease.induct)
  case 1
  then show ?case by simp
next
  case 2
  then show ?case by simp
next
  case 3
  then show ?case by (cases cs) auto
next
  case (4 a as b bs)
  show ?case
  proof (cases cs)
    case Nil
    then show ?thesis by simp
  next
    case (Cons c ds)
    have "compare_identifier a c = 1" if "compare_identifier a b = 1" "compare_identifier b c = 1"
      using that by (rule compare_identifier_trans)
    with 4 Cons show ?thesis by (auto split: if_splits)
  qed
qed

lemma compare_semver_zero: "compare_semver a b = 0 \<longleftrightarrow> a = b"
  by (cases a; cases b) (auto simp: compare_defs)

lemma compare_semver_flip: "compare_semver b a = - compare_semver a b"
  using compare_prerelease_flip [of "v_prerelease b" "v_prerelease a"]
  by (simp add: compare_defs)

lemma compare_semver_range: "compare_semver a b \<in> {- 1, 0, 1}"
  using compare_prerelease_range [of "v_prerelease a" "v_prerelease b"]
  by (auto simp: compare_defs)

lemma compare_semver_trans:
  "compare_semver a b = 1 \<Longrightarrow> compare_semver b c = 1 \<Longrightarrow> compare_semver a c = 1"
  using compare_prerelease_trans [of "v_prerelease a" "v_prerelease b" "v_prerelease c"]
  by (auto simp: compare_defs split: if_splits)

section \<open>The interface the update services use\<close>

text \<open>
  A comparison of version texts that is total on the valid ones.  The client facts: the
  relation "newer than" is a strict total order on any family of comparable versions, and
  sorting by decreasing version puts a newest one first.
\<close>

locale version_order =
  fixes valid :: "string \<Rightarrow> bool"
    and cmp :: "string \<Rightarrow> string \<Rightarrow> int result"
  assumes cmp_valid: "valid a \<Longrightarrow> valid b \<Longrightarrow> \<exists>i\<in>{- 1, 0, 1}. cmp a b = Ok i"
    and cmp_invalid: "\<not> valid a \<or> \<not> valid b \<Longrightarrow> \<exists>e. cmp a b = Err e"
    and cmp_same: "valid a \<Longrightarrow> cmp a a = Ok 0"
    and cmp_flip: "cmp a b = Ok i \<Longrightarrow> cmp b a = Ok (- i)"
    and cmp_trans: "cmp a b = Ok 1 \<Longrightarrow> cmp b c = Ok 1 \<Longrightarrow> cmp a c = Ok 1"
begin

lemma cmp_Ok_valid: "cmp a b = Ok i \<Longrightarrow> valid a \<and> valid b"
  using cmp_invalid [of a b] by auto

lemma newer_asym: "cmp a b = Ok 1 \<Longrightarrow> cmp b a \<noteq> Ok 1"
  using cmp_flip [of a b 1] by auto

lemma newer_irrefl: "cmp a a \<noteq> Ok 1"
  using cmp_same [of a] cmp_Ok_valid [of a a 1] by auto

lemma newer_acyclic: "cmp a b = Ok 1 \<Longrightarrow> cmp b c = Ok 1 \<Longrightarrow> a \<noteq> c"
  using newer_asym by blast

end

lemma compare_versions_Ok:
  "compare_versions a b = Ok i \<longleftrightarrow>
     (\<exists>v w. parse_version a = Some v \<and> parse_version b = Some w \<and> i = compare_semver v w)"
  by (auto simp: compare_versions_def split: option.splits)

interpretation release: version_order valid_version compare_versions
proof
  fix a b
  assume "valid_version a" "valid_version b"
  then obtain v w where "parse_version a = Some v" "parse_version b = Some w"
    by (auto simp: valid_version_def)
  then show "\<exists>i\<in>{- 1, 0, 1}. compare_versions a b = Ok i"
    using compare_semver_range [of v w] by (auto simp: compare_versions_def)
next
  fix a b
  assume "\<not> valid_version a \<or> \<not> valid_version b"
  then show "\<exists>e. compare_versions a b = Err e"
    by (auto simp: compare_versions_def valid_version_def split: option.splits)
next
  fix a assume "valid_version a"
  then show "compare_versions a a = Ok 0"
    by (auto simp: compare_versions_def valid_version_def compare_semver_zero)
next
  fix a b i assume "compare_versions a b = Ok i"
  then show "compare_versions b a = Ok (- i)"
    by (auto simp: compare_versions_Ok intro: compare_semver_flip [symmetric])
next
  fix a b c assume "compare_versions a b = Ok 1" "compare_versions b c = Ok 1"
  then show "compare_versions a c = Ok 1"
    by (auto simp: compare_versions_Ok) (metis compare_semver_trans)
qed

section \<open>The syntax determines the version\<close>

text \<open>
  Two texts that parse to the same version are equal: no leading zeros are accepted, in the
  core or in a numeric prerelease identifier.
\<close>

lemma digit_value_bound: "is_digit c \<Longrightarrow> digit_value c < 10"
  by (auto simp: is_digit_def digit_value_def)

lemma digit_value_inj: "is_digit c \<Longrightarrow> is_digit d \<Longrightarrow> digit_value c = digit_value d \<Longrightarrow> c = d"
proof -
  assume "is_digit c" "is_digit d" "digit_value c = digit_value d"
  then have "code c = code d" unfolding is_digit_def digit_value_def by linarith
  then show ?thesis by simp
qed

lemma number_of_less: "list_all is_digit s \<Longrightarrow> number_of s < 10 ^ length s"
proof (induction s rule: rev_induct)
  case Nil
  then show ?case by (simp add: number_of_def)
next
  case (snoc c s)
  then have "number_of s < 10 ^ length s" and "digit_value c < 10"
    by (auto simp: digit_value_bound)
  then show ?case by (simp add: number_of_snoc)
qed

lemma number_of_ge:
  "list_all is_digit s \<Longrightarrow> s \<noteq> [] \<Longrightarrow> hd s \<noteq> CHR ''0'' \<Longrightarrow> 10 ^ (length s - 1) \<le> number_of s"
proof (induction s rule: rev_induct)
  case Nil
  then show ?case by simp
next
  case (snoc c s)
  show ?case
  proof (cases "s = []")
    case True
    with snoc.prems have "code c \<noteq> code (CHR ''0'')" and "is_digit c" by (simp_all only: code_eq) auto
    moreover have "code (CHR ''0'') = 48" by simp
    ultimately have "1 \<le> digit_value c" unfolding is_digit_def digit_value_def by linarith
    with True show ?thesis by (simp add: number_of_def)
  next
    case False
    with snoc have "10 ^ (length s - 1) \<le> number_of s" by auto
    then have "10 * 10 ^ (length s - 1) \<le> 10 * number_of s" by simp
    moreover have "10 * 10 ^ (length s - 1) = (10 :: nat) ^ length s"
      using False by (cases s) auto
    ultimately show ?thesis by (simp add: number_of_snoc)
  qed
qed

lemma number_of_inj_length:
  "list_all is_digit s \<Longrightarrow> list_all is_digit t \<Longrightarrow> length s = length t \<Longrightarrow>
   number_of s = number_of t \<Longrightarrow> s = t"
proof (induction s arbitrary: t rule: rev_induct)
  case Nil
  then show ?case by simp
next
  case (snoc c s)
  from snoc.prems(3) obtain u d where t: "t = u @ [d]" by (cases t rule: rev_exhaust) auto
  have "digit_value c < 10" "digit_value d < 10" "10 * number_of s + digit_value c = 10 * number_of u + digit_value d"
    using snoc.prems t by (auto simp: number_of_snoc digit_value_bound)
  then have "number_of s = number_of u" and "digit_value c = digit_value d" by arith+
  with snoc t show ?case by (auto dest: digit_value_inj)
qed

lemma core_number_inj:
  assumes "core_number s" "core_number t" "number_of s = number_of t"
  shows "s = t"
proof -
  have bounds: "10 ^ (length u - 1) \<le> number_of u \<and> number_of u < 10 ^ length u"
    if "core_number u" "length u > 1" for u
    using that number_of_ge [of u] number_of_less [of u]
    by (simp add: core_number_def all_digits_def)
  have small: "number_of u < 10" if "core_number u" "\<not> length u > 1" for u
  proof -
    from that have "length u = 1" by (cases u) (auto simp: core_number_def all_digits_def)
    with that number_of_less [of u] show ?thesis by (auto simp: core_number_def all_digits_def)
  qed
  have len: "length u \<le> length w"
    if "core_number u" "core_number w" "number_of u = number_of w" for u w
  proof (rule ccontr)
    assume "\<not> length u \<le> length w"
    moreover have "w \<noteq> []" using that by (auto simp: core_number_def all_digits_def)
    ultimately have l: "length u > 1" and "length w \<le> length u - 1"
      by (cases w; auto)+
    then have "(10::nat) ^ length w \<le> 10 ^ (length u - 1)" by (simp add: power_increasing)
    also have "\<dots> \<le> number_of u" using bounds that(1) l by simp
    finally show False
      using that(2,3) number_of_less [of w] by (auto simp: core_number_def all_digits_def)
  qed
  from len assms have "length s = length t" by (metis le_antisym)
  with assms show ?thesis
    by (auto simp: core_number_def all_digits_def intro: number_of_inj_length)
qed

lemma parse_identifier_inj:
  "parse_identifier s = Some i \<Longrightarrow> parse_identifier t = Some i \<Longrightarrow> s = t"
proof (cases i)
  case (Num n)
  assume "parse_identifier s = Some i" "parse_identifier t = Some i"
  with Num have "core_number s" "core_number t" "number_of s = number_of t"
    by (auto simp: parse_identifier_def core_number_def split: if_splits)
  then show ?thesis by (rule core_number_inj)
qed (auto simp: parse_identifier_def split: if_splits)

lemma parse_identifiers_inj:
  "parse_identifiers ss = Some is \<Longrightarrow> parse_identifiers ts = Some is \<Longrightarrow> ss = ts"
proof (induction ss arbitrary: ts "is")
  case Nil
  then show ?case by (cases ts) (auto split: option.splits)
next
  case (Cons s ss)
  from Cons.prems(1) obtain i js where s: "parse_identifier s = Some i" "parse_identifiers ss = Some js"
    "is = i # js" by (auto split: option.splits)
  from Cons.prems(2) s(3) obtain t ts' where t: "ts = t # ts'" by (cases ts) auto
  from Cons.prems(2) s(3) t have "parse_identifier t = Some i" "parse_identifiers ts' = Some js"
    by (auto split: option.splits)
  with s t Cons.IH [of js ts'] parse_identifier_inj [of s i t] show ?case by simp
qed

text \<open>What a parsed text looks like.\<close>

lemma parse_version_shape:
  assumes "parse_version s = Some v"
  obtains a b c pre where
    "s = join_with ''.'' [a, b, c] @ (if pre = [] then [] else CHR ''-'' # join_with ''.'' pre)"
    "core_number a" "core_number b" "core_number c"
    "v_major v = number_of a" "v_minor v = number_of b" "v_patch v = number_of c"
    "parse_identifiers pre = Some (v_prerelease v)"
proof -
  let ?pre = "prerelease_texts s"
  from assms obtain a b c where abc: "split_on (CHR ''.'') (core_text s) = [a, b, c]"
    and facts: "core_number a" "core_number b" "core_number c"
      "v_major v = number_of a" "v_minor v = number_of b" "v_patch v = number_of c"
      "parse_identifiers ?pre = Some (v_prerelease v)"
    unfolding parse_version_def
    by (elim version_of_parts_SomeE) (auto simp: eq_commute [of "Some v"] split: if_split_asm)
  have core: "core_text s = join_with ''.'' [a, b, c]"
    using join_split [of "CHR ''.''" "core_text s"] abc by (simp del: join_split)
  have rest: "dropWhile (\<lambda>c. c \<noteq> CHR ''-'') s = (if ?pre = [] then [] else CHR ''-'' # join_with ''.'' ?pre)"
  proof -
    obtain r where r: "dropWhile (\<lambda>c. c \<noteq> CHR ''-'') s = r" by blast
    then have pt: "?pre = (case r of [] \<Rightarrow> [] | _ # rest \<Rightarrow> split_on (CHR ''.'') rest)"
      by (simp add: prerelease_texts_def)
    have "hd r = CHR ''-''" if "r \<noteq> []" using that hd_dropWhile [of "\<lambda>c. c \<noteq> CHR ''-''" s]
      by (simp only: r simp_thms)
    then show ?thesis unfolding r pt by (cases r) auto
  qed
  have "s = core_text s @ dropWhile (\<lambda>c. c \<noteq> CHR ''-'') s"
    by (simp only: core_text_def takeWhile_dropWhile_id)
  with core rest have "s = join_with ''.'' [a, b, c] @ (if ?pre = [] then [] else CHR ''-'' # join_with ''.'' ?pre)"
    by simp
  then show thesis using that facts by blast
qed

text \<open>
  The version syntax is unambiguous: two texts that parse to the same version are the
  same text, because neither the core nor a numeric prerelease identifier admits leading
  zeros.
\<close>

theorem parse_version_inj:
  assumes "parse_version s = Some v" and "parse_version t = Some v"
  shows "s = t"
proof -
  from assms(1) obtain a b c pre where s:
    "s = join_with ''.'' [a, b, c] @ (if pre = [] then [] else CHR ''-'' # join_with ''.'' pre)"
    "core_number a" "core_number b" "core_number c"
    "v_major v = number_of a" "v_minor v = number_of b" "v_patch v = number_of c"
    "parse_identifiers pre = Some (v_prerelease v)" by (rule parse_version_shape)
  from assms(2) obtain a' b' c' pre' where t:
    "t = join_with ''.'' [a', b', c'] @ (if pre' = [] then [] else CHR ''-'' # join_with ''.'' pre')"
    "core_number a'" "core_number b'" "core_number c'"
    "v_major v = number_of a'" "v_minor v = number_of b'" "v_patch v = number_of c'"
    "parse_identifiers pre' = Some (v_prerelease v)" by (rule parse_version_shape)
  have "a = a'" "b = b'" "c = c'"
    using core_number_inj [OF s(2) t(2)] core_number_inj [OF s(3) t(3)] core_number_inj [OF s(4) t(4)]
      s(5-7) t(5-7) by simp_all
  moreover have "pre = pre'" using s(8) t(8) by (rule parse_identifiers_inj)
  ultimately show ?thesis using s(1) t(1) by simp
qed

lemma parse_version_inj_witness:
  "parse_version ''0.2.0-beta.12'' =
     Some \<lparr>v_major = 0, v_minor = 2, v_patch = 0, v_prerelease = [Str ''beta'', Num 12]\<rparr> \<and>
   (\<forall>t. parse_version t = parse_version ''0.2.0-beta.12'' \<longleftrightarrow> t = ''0.2.0-beta.12'')"
proof -
  have p: "parse_version ''0.2.0-beta.12'' =
     Some \<lparr>v_major = 0, v_minor = 2, v_patch = 0, v_prerelease = [Str ''beta'', Num 12]\<rparr>"
    by (simp add: version_eval)
  have "t = ''0.2.0-beta.12''" if "parse_version t = parse_version ''0.2.0-beta.12''" for t
    by (rule parse_version_inj [OF that [unfolded p] p])
  with p show ?thesis by blast
qed

text \<open>
  C2. Comparing versions is a strict total order of the valid version texts: exactly one of
  "newer", "same text" and "older" holds, and "newer" is transitive.  An invalid text on
  either side is an error and never counts as newer.
\<close>

theorem compare_versions_total_order:
  "(valid_version a \<and> valid_version b \<longrightarrow>
      compare_versions a b = Ok (if a = b then 0 else if compare_versions a b = Ok 1 then 1 else - 1)) \<and>
   (compare_versions a b = Ok 1 \<longleftrightarrow> compare_versions b a = Ok (- 1)) \<and>
   (compare_versions a b = Ok 1 \<and> compare_versions b c = Ok 1 \<longrightarrow> compare_versions a c = Ok 1) \<and>
   (\<not> valid_version a \<or> \<not> valid_version b \<longrightarrow> (\<exists>e. compare_versions a b = Err e))"
proof (intro conjI impI)
  assume v: "valid_version a \<and> valid_version b"
  then obtain i where i: "i \<in> {- 1, 0, 1}" "compare_versions a b = Ok i"
    using release.cmp_valid [of a b] by blast
  have "compare_versions a b = Ok 0 \<longleftrightarrow> a = b"
    using v parse_version_inj [of a _ b] release.cmp_same [of a]
    by (auto simp: compare_versions_Ok compare_semver_zero)
  with i show "compare_versions a b = Ok (if a = b then 0 else if compare_versions a b = Ok 1 then 1 else - 1)"
    by auto
next
  show "compare_versions a b = Ok 1 \<longleftrightarrow> compare_versions b a = Ok (- 1)"
    using release.cmp_flip [of a b 1] release.cmp_flip [of b a "- 1"] by auto
next
  assume "compare_versions a b = Ok 1 \<and> compare_versions b c = Ok 1"
  then show "compare_versions a c = Ok 1" by (blast intro: release.cmp_trans)
next
  assume "\<not> valid_version a \<or> \<not> valid_version b"
  then show "\<exists>e. compare_versions a b = Err e" by (rule release.cmp_invalid)
qed

lemma compare_versions_total_order_witness:
  "compare_versions ''0.2.0'' ''0.2.0-beta.12'' = Ok 1 \<and>
   compare_versions ''0.2.0-beta.12'' ''0.2.0-beta.9'' = Ok 1 \<and>
   compare_versions ''0.2.0'' ''0.2.0-beta.9'' = Ok 1 \<and>
   \<not> valid_version ''01.2.0'' \<and> (\<exists>e. compare_versions ''01.2.0'' ''0.2.0'' = Err e)"
proof -
  have a: "compare_versions ''0.2.0'' ''0.2.0-beta.12'' = Ok 1" by (simp add: version_eval)
  have b: "compare_versions ''0.2.0-beta.12'' ''0.2.0-beta.9'' = Ok 1" by (simp add: version_eval)
  have i: "\<not> valid_version ''01.2.0''" by (simp add: version_eval)
  note total = compare_versions_total_order [THEN conjunct2, THEN conjunct2]
  have c: "compare_versions ''0.2.0'' ''0.2.0-beta.9'' = Ok 1"
    by (rule total [THEN conjunct1, THEN mp]) (rule conjI [OF a b])
  have d: "\<exists>e. compare_versions ''01.2.0'' ''0.2.0'' = Err e"
    by (rule total [THEN conjunct2, THEN mp]) (rule disjI1 [OF i])
  show ?thesis by (intro conjI a b c d i)
qed

end
