(* ===== verification/Engines.thy ===== *)
theory Engines
  imports Prelude
begin

text \<open>
  The engine and protocol catalogue (src/src/shared/engines.ts, protocols.ts and the data
  file src/agent/internal/policy/engines.json) and the capability and client-profile tables
  of connection methods (src/src/shared/connection-methods.ts).
\<close>

section \<open>Engines\<close>

datatype engine = Hysteria | Xray | Mihomo | SingBox | AmneziaWG

datatype network = UDP | TCP

datatype protocol = Hysteria2 | Xhttp | Grpc | AnyTLS | TrustTunnel | Naive | AmneziaWGProto

definition engine_ids :: "engine list" where
  "engine_ids = [Hysteria, Xray, Mihomo, SingBox, AmneziaWG]"

fun engine_key :: "engine \<Rightarrow> string" where
  "engine_key Hysteria = ''hysteria''"
| "engine_key Xray = ''xray''"
| "engine_key Mihomo = ''mihomo''"
| "engine_key SingBox = ''sing-box''"
| "engine_key AmneziaWG = ''amneziawg''"

fun engine_label :: "engine \<Rightarrow> string" where
  "engine_label Hysteria = ''Hysteria 2''"
| "engine_label Xray = ''Xray''"
| "engine_label Mihomo = ''Mihomo''"
| "engine_label SingBox = ''sing-box''"
| "engine_label AmneziaWG = ''AmneziaWG 3.1''"

fun engine_service :: "engine \<Rightarrow> string" where
  "engine_service Hysteria = ''hysteria-server''"
| "engine_service Xray = ''xray''"
| "engine_service Mihomo = ''outpost-mihomo''"
| "engine_service SingBox = ''outpost-sing-box''"
| "engine_service AmneziaWG = ''outpost-amneziawg''"

fun engine_optional :: "engine \<Rightarrow> bool" where
  "engine_optional Hysteria = False"
| "engine_optional Xray = False"
| "engine_optional Mihomo = True"
| "engine_optional SingBox = True"
| "engine_optional AmneziaWG = True"

fun engine_pin :: "engine \<Rightarrow> string" where
  "engine_pin Hysteria = ''2.13.0''"
| "engine_pin Xray = ''26.7.28''"
| "engine_pin Mihomo = ''1.19.32''"
| "engine_pin SingBox = ''1.14.3''"
| "engine_pin AmneziaWG = ''3.1.20260828''"

fun engine_sha256 :: "engine \<Rightarrow> string" where
  "engine_sha256 Hysteria = ''907ba8c9693edb104b20582681fb7dc15639d5b64a9cbb616a7b539190a86691''"
| "engine_sha256 Xray = ''8195d909f1109b8f3d99eefe401a3c451d7bf4af71f24d3815420f77e5dd2a40''"
| "engine_sha256 Mihomo = ''306f81e723e60ce6b828899a6fe83e1d00e9ecefb2dc8d4d849312a5bc00efdc''"
| "engine_sha256 SingBox = ''e2bdf179c15a3652955dc44867e33ca0965c9c9b91b34267dcc5a5d639a5feee''"
| "engine_sha256 AmneziaWG = ''10bf7458e090bf52f87df27adcd3904a60e4d17fab844d9415e46379147f1ab4''"

text \<open>The default protocols an engine declares: key, name, port and networks.\<close>

fun engine_protocols :: "engine \<Rightarrow> protocol list" where
  "engine_protocols Hysteria = [Hysteria2]"
| "engine_protocols Xray = [Xhttp, Grpc]"
| "engine_protocols Mihomo = [AnyTLS, TrustTunnel]"
| "engine_protocols SingBox = [Naive]"
| "engine_protocols AmneziaWG = [AmneziaWGProto]"

definition is_engine :: "string \<Rightarrow> engine option" where
  "is_engine s = find (\<lambda>e. engine_key e = s) engine_ids"

definition engine_services :: "string list" where
  "engine_services = map engine_service engine_ids"

definition service_names :: "string list" where
  "service_names = [''outpost'', ''nginx''] @ engine_services"

definition required_engine_ids :: "engine list" where
  "required_engine_ids = filter (\<lambda>e. \<not> engine_optional e) engine_ids"

definition telemetry_engines :: "engine list" where
  "telemetry_engines = engine_ids"

definition service_label :: "string \<Rightarrow> string" where
  "service_label s =
     coalesce (map_of ([(''outpost'', ''Outpost''), (''nginx'', ''Nginx''),
                        (''vless-xhttp'', ''VLESS XHTTP''), (''vless-grpc'', ''VLESS gRPC'')]
                       @ map (\<lambda>e. (engine_service e, engine_label e)) engine_ids) s) s"

section \<open>Protocols\<close>

fun protocol_key :: "protocol \<Rightarrow> string" where
  "protocol_key Hysteria2 = ''hysteria2''"
| "protocol_key Xhttp = ''xhttp''"
| "protocol_key Grpc = ''grpc''"
| "protocol_key AnyTLS = ''anytls''"
| "protocol_key TrustTunnel = ''trusttunnel''"
| "protocol_key Naive = ''naive''"
| "protocol_key AmneziaWGProto = ''amneziawg''"

fun protocol_name :: "protocol \<Rightarrow> string" where
  "protocol_name Hysteria2 = ''Hysteria 2''"
| "protocol_name Xhttp = ''VLESS XHTTP''"
| "protocol_name Grpc = ''VLESS gRPC''"
| "protocol_name AnyTLS = ''AnyTLS''"
| "protocol_name TrustTunnel = ''TrustTunnel''"
| "protocol_name Naive = ''Naive''"
| "protocol_name AmneziaWGProto = ''AmneziaWG 3.1''"

fun protocol_port :: "protocol \<Rightarrow> nat" where
  "protocol_port Hysteria2 = 443"
| "protocol_port Xhttp = 443"
| "protocol_port Grpc = 443"
| "protocol_port AnyTLS = 1443"
| "protocol_port TrustTunnel = 2443"
| "protocol_port Naive = 3443"
| "protocol_port AmneziaWGProto = 51820"

fun protocol_networks :: "protocol \<Rightarrow> network list" where
  "protocol_networks Hysteria2 = [UDP]"
| "protocol_networks AmneziaWGProto = [UDP]"
| "protocol_networks _ = [TCP]"

text \<open>The engine whose catalogue entry declares the protocol.\<close>

definition default_engine :: "protocol \<Rightarrow> engine" where
  "default_engine p = coalesce (find (\<lambda>e. p \<in> set (engine_protocols e)) engine_ids) Hysteria"

definition engine_ports :: "engine \<Rightarrow> (nat \<times> network) list" where
  "engine_ports e =
     rev (remdups (rev (concat (map (\<lambda>p. map (Pair (protocol_port p)) (protocol_networks p))
                                    (engine_protocols e)))))"

section \<open>Capabilities and settings of connection methods\<close>

record method_settings =
  ms_port :: nat
  ms_path :: "string option"
  ms_fingerprint :: "string option"

record conn_method =
  m_id :: string
  m_engine :: engine
  m_protocol :: protocol
  m_name :: string
  m_enabled :: bool
  m_settings :: method_settings
  m_updated_at :: time

fun engine_capabilities :: "engine \<Rightarrow> protocol list" where
  "engine_capabilities Hysteria = [Hysteria2]"
| "engine_capabilities Xray = [Xhttp, Grpc]"
| "engine_capabilities Mihomo = [Hysteria2, Xhttp, Grpc, AnyTLS, TrustTunnel]"
| "engine_capabilities SingBox = [Hysteria2, Grpc, AnyTLS, Naive]"
| "engine_capabilities AmneziaWG = [AmneziaWGProto]"

definition method_networks :: "conn_method \<Rightarrow> network list" where
  "method_networks m = protocol_networks (m_protocol m)"

definition singleton_engine :: "engine \<Rightarrow> bool" where
  "singleton_engine e \<longleftrightarrow> e = Hysteria \<or> e = AmneziaWG"

definition managed_edge :: "engine \<Rightarrow> bool" where
  "managed_edge e \<longleftrightarrow> e = Xray"

definition field_path :: "protocol \<Rightarrow> bool" where
  "field_path p \<longleftrightarrow> p = Xhttp \<or> p = Grpc"

definition field_fingerprint :: "protocol \<Rightarrow> bool" where
  "field_fingerprint p \<longleftrightarrow> p \<in> {Xhttp, Grpc, AnyTLS, TrustTunnel}"

text \<open>The configured XHTTP path and gRPC service name.\<close>

record path_config =
  xhttp_path :: string
  grpc_service :: string

fun path_for :: "path_config \<Rightarrow> protocol \<Rightarrow> string" where
  "path_for ps Xhttp = xhttp_path ps"
| "path_for ps _ = grpc_service ps"

fun index_of :: "'a \<Rightarrow> 'a list \<Rightarrow> nat" where
  "index_of x [] = 0"
| "index_of x (y # ys) = (if x = y then 0 else Suc (index_of x ys))"

definition method_settings_for :: "engine \<Rightarrow> protocol \<Rightarrow> path_config \<Rightarrow> method_settings" where
  "method_settings_for e p ps =
     \<lparr>ms_port = (if e = Xray then 443
                 else protocol_port p + (if default_engine p \<noteq> e then index_of e engine_ids * 1000 else 0)),
      ms_path = (if field_path p then Some (path_for ps p) else None),
      ms_fingerprint = (if field_fingerprint p then Some ''chrome'' else None)\<rparr>"

definition default_method :: "path_config \<Rightarrow> engine \<Rightarrow> protocol \<Rightarrow> conn_method" where
  "default_method ps e p =
     \<lparr>m_id = engine_key e @ ''-'' @ protocol_key p, m_engine = e, m_protocol = p,
      m_name = protocol_name p, m_enabled = True, m_settings = method_settings_for e p ps,
      m_updated_at = 0\<rparr>"

definition default_methods :: "engine list \<Rightarrow> path_config \<Rightarrow> conn_method list" where
  "default_methods order ps = concat (map (\<lambda>e. map (default_method ps e) (engine_protocols e)) order)"

section \<open>Client profiles\<close>

datatype client_profile =
  PMihomo | PMihomoModern | PSingBox | PSingBoxModern | PXrayJson | PLinks | PNaive | PAmneziaWG

datatype routing = Embedded | ByClient | NoRouting

definition client_profiles :: "client_profile list" where
  "client_profiles =
     [PMihomo, PMihomoModern, PSingBox, PSingBoxModern, PXrayJson, PLinks, PNaive, PAmneziaWG]"

fun profile_client :: "client_profile \<Rightarrow> string" where
  "profile_client PMihomo = ''Mihomo''"
| "profile_client PMihomoModern = ''Mihomo''"
| "profile_client PSingBox = ''sing-box''"
| "profile_client PSingBoxModern = ''sing-box''"
| "profile_client PXrayJson = ''Xray''"
| "profile_client PLinks = ''URI''"
| "profile_client PNaive = ''NaiveProxy''"
| "profile_client PAmneziaWG = ''AmneziaVPN''"

fun profile_routing :: "client_profile \<Rightarrow> routing" where
  "profile_routing PLinks = ByClient"
| "profile_routing PNaive = NoRouting"
| "profile_routing PAmneziaWG = NoRouting"
| "profile_routing _ = Embedded"

fun profile_protocols :: "client_profile \<Rightarrow> protocol list" where
  "profile_protocols PMihomo = [Hysteria2, Xhttp, Grpc]"
| "profile_protocols PMihomoModern = [Hysteria2, Xhttp, Grpc, AnyTLS, TrustTunnel, AmneziaWGProto]"
| "profile_protocols PSingBox = [Hysteria2, Grpc]"
| "profile_protocols PSingBoxModern = [Hysteria2, Grpc, AnyTLS, Naive]"
| "profile_protocols PXrayJson = [Xhttp, Grpc]"
| "profile_protocols PLinks = [Hysteria2, Xhttp, Grpc]"
| "profile_protocols PNaive = [Naive]"
| "profile_protocols PAmneziaWG = [AmneziaWGProto]"

definition method_client_profiles :: "conn_method \<Rightarrow> client_profile list" where
  "method_client_profiles m = filter (\<lambda>p. m_protocol m \<in> set (profile_protocols p)) client_profiles"

definition compatible_methods ::
  "conn_method list \<Rightarrow> client_profile \<Rightarrow> engine list \<Rightarrow> protocol list option \<Rightarrow> conn_method list" where
  "compatible_methods methods profile installed selected =
     filter (\<lambda>m. m_enabled m \<and> m_engine m \<in> set installed
                 \<and> m_protocol m \<in> set (profile_protocols profile)
                 \<and> (case selected of None \<Rightarrow> True | Some ps \<Rightarrow> m_protocol m \<in> set ps)) methods"

section \<open>Facts about the catalogue\<close>

lemma engine_ids_complete [simp]: "e \<in> set engine_ids"
  by (cases e) (auto simp: engine_ids_def)

lemma distinct_engine_ids [simp]: "distinct engine_ids"
  by (simp add: engine_ids_def)

lemma engine_key_inj [simp]: "engine_key a = engine_key b \<longleftrightarrow> a = b"
  by (cases a; cases b) auto

lemma protocol_key_inj [simp]: "protocol_key a = protocol_key b \<longleftrightarrow> a = b"
  by (cases a; cases b) auto

lemma engine_service_inj [simp]: "engine_service a = engine_service b \<longleftrightarrow> a = b"
  by (cases a; cases b) auto

lemma is_engine_key [simp]: "is_engine (engine_key e) = Some e"
  unfolding is_engine_def engine_ids_def by (cases e) simp_all

lemma is_engine_Some: "is_engine s = Some e \<longleftrightarrow> s = engine_key e"
proof
  assume "is_engine s = Some e"
  then show "s = engine_key e" unfolding is_engine_def find_Some_iff by auto
qed simp

lemma default_engine_simps [simp]:
  "default_engine Hysteria2 = Hysteria" "default_engine Xhttp = Xray" "default_engine Grpc = Xray"
  "default_engine AnyTLS = Mihomo" "default_engine TrustTunnel = Mihomo"
  "default_engine Naive = SingBox" "default_engine AmneziaWGProto = AmneziaWG"
  by (simp_all add: default_engine_def engine_ids_def)

lemma default_engine_capable: "p \<in> set (engine_capabilities (default_engine p))"
  by (cases p) auto

lemma protocol_networks_single: "length (protocol_networks p) = 1"
  by (cases p) auto

lemma client_profiles_complete [simp]: "c \<in> set client_profiles"
  by (cases c) (auto simp: client_profiles_def)

lemma distinct_client_profiles [simp]: "distinct client_profiles"
  by (simp add: client_profiles_def)

section \<open>Finite catalogues\<close>

text \<open>
  Engines, protocols and profiles are the values of closed lists, so statements about all of
  them can be evaluated.
\<close>

instantiation engine :: enum
begin

definition enum_engine :: "engine list" where
  "enum_engine = engine_ids"

definition enum_all_engine :: "(engine \<Rightarrow> bool) \<Rightarrow> bool" where
  "enum_all_engine P \<longleftrightarrow> list_all P engine_ids"

definition enum_ex_engine :: "(engine \<Rightarrow> bool) \<Rightarrow> bool" where
  "enum_ex_engine P \<longleftrightarrow> list_ex P engine_ids"

instance
  by standard (auto simp: enum_engine_def enum_all_engine_def enum_ex_engine_def list_all_iff list_ex_iff)

end

definition protocol_list :: "protocol list" where
  "protocol_list = [Hysteria2, Xhttp, Grpc, AnyTLS, TrustTunnel, Naive, AmneziaWGProto]"

lemma protocol_list_complete [simp]: "p \<in> set protocol_list" "distinct protocol_list"
  by (cases p, auto simp: protocol_list_def)

instantiation protocol :: enum
begin

definition enum_protocol :: "protocol list" where
  "enum_protocol = protocol_list"

definition enum_all_protocol :: "(protocol \<Rightarrow> bool) \<Rightarrow> bool" where
  "enum_all_protocol P \<longleftrightarrow> list_all P protocol_list"

definition enum_ex_protocol :: "(protocol \<Rightarrow> bool) \<Rightarrow> bool" where
  "enum_ex_protocol P \<longleftrightarrow> list_ex P protocol_list"

instance
  by standard (auto simp: enum_protocol_def enum_all_protocol_def enum_ex_protocol_def list_all_iff list_ex_iff)

end

instantiation client_profile :: enum
begin

definition enum_client_profile :: "client_profile list" where
  "enum_client_profile = client_profiles"

definition enum_all_client_profile :: "(client_profile \<Rightarrow> bool) \<Rightarrow> bool" where
  "enum_all_client_profile P \<longleftrightarrow> list_all P client_profiles"

definition enum_ex_client_profile :: "(client_profile \<Rightarrow> bool) \<Rightarrow> bool" where
  "enum_ex_client_profile P \<longleftrightarrow> list_ex P client_profiles"

instance
  by standard (auto simp: enum_client_profile_def enum_all_client_profile_def enum_ex_client_profile_def list_all_iff list_ex_iff)

end

text \<open>Every protocol has an engine and a profile; engines and profiles all have a protocol in common.\<close>

lemma protocols_reachable:
  "\<forall>p. (\<exists>e. p \<in> set (engine_capabilities e)) \<and> (\<exists>c. p \<in> set (profile_protocols c))"
  by code_simp

lemma engines_reachable:
  "\<forall>e. \<exists>c p. p \<in> set (engine_capabilities e) \<and> p \<in> set (profile_protocols c)"
  by code_simp

lemma profiles_reachable:
  "\<forall>c. \<exists>e. list_ex (\<lambda>p. p \<in> set (engine_capabilities e)) (profile_protocols c)"
  by code_simp

end
