(* ===== verification/Database.thy ===== *)
theory Database
  imports Engines
begin

text \<open>
  The SQLite database of the control plane: one record per table of
  src/src/server/db/schema.ts (after its last migration), the record \<open>db\<close> of all tables
  with the settings the modelled services read, and the two write helpers of
  src/src/server/db/database.ts, \<open>audit\<close> and \<open>event\<close>.  Columns of JSON text hold the value
  the text encodes.  An operation that the program runs in a transaction returns the new
  database or an error; an error leaves the database as it was.
\<close>

section \<open>Connections, credentials and synchronisation jobs\<close>

datatype conn_status = Provisioning | Active | Rotating | Archiving | Archived

record connection =
  c_id :: string
  c_serial :: nat
  c_name :: string
  c_color :: string
  c_avatar :: string
  c_status :: conn_status
  c_generation :: nat
  c_token_hash :: "string option"
  c_created_at :: time
  c_updated_at :: time
  c_activated_at :: "time option"
  c_first_used_at :: "time option"
  c_last_fetched_at :: "time option"
  c_first_seen_at :: "time option"
  c_last_seen_at :: "time option"
  c_absence_notified_at :: "time option"
  c_suspended_at :: "time option"
  c_archived_at :: "time option"

datatype cred_state = CredPending | CredActive | CredRevoked

record secret_box =
  b_ciphertext :: string
  b_iv :: string
  b_tag :: string

record credential =
  cr_id :: string
  cr_connection_id :: string
  cr_generation :: nat
  cr_engine :: engine
  cr_state :: cred_state
  cr_box :: secret_box
  cr_created_at :: time
  cr_activated_at :: "time option"
  cr_revoked_at :: "time option"

datatype sync_kind = KActivate | KRotate | KRevoke | KSuspend | KResume

datatype sync_status = JPending | JRunning | JFailed | JCompleted | JCancelled

record sync_job =
  j_id :: string
  j_connection_id :: string
  j_generation :: nat
  j_previous_generation :: "nat option"
  j_kind :: sync_kind
  j_status :: sync_status
  j_actor :: string
  j_attempts :: nat
  j_next_attempt_at :: time
  j_last_error :: "string option"
  j_created_at :: time
  j_updated_at :: time
  j_completed_at :: "time option"

section \<open>Owner, sessions and tokens\<close>

datatype locale_code = RU | EN | ZH_CN | FA

record owner_row =
  o_id :: string
  o_timezone :: string
  o_language :: locale_code
  o_created_at :: time
  o_updated_at :: time

record passkey =
  pk_id :: string
  pk_owner_id :: string
  pk_public_key :: string
  pk_counter :: nat
  pk_transports :: "string list"
  pk_device_type :: "string option"
  pk_backed_up :: bool
  pk_created_at :: time
  pk_last_used_at :: "time option"
  pk_label :: "string option"

record session_row =
  se_id :: string
  se_owner_id :: string
  se_token_hash :: string
  se_expires_at :: time
  se_created_at :: time
  se_last_seen_at :: time
  se_user_agent :: "string option"
  se_passkey_id :: "string option"

record api_token =
  at_id :: string
  at_name :: string
  at_token_hash :: string
  at_scopes :: "string list"
  at_expires_at :: "time option"
  at_created_at :: time
  at_last_used_at :: "time option"
  at_revoked_at :: "time option"

record invitation =
  iv_id :: string
  iv_name :: string
  iv_token_hash :: string
  iv_created_at :: time
  iv_expires_at :: time
  iv_consumed_at :: "time option"
  iv_revoked_at :: "time option"

datatype authority = AClaim | ARecovery | ASession | AInvite

record registration_context =
  rc_timezone :: string
  rc_language :: locale_code
  rc_owner_id :: string
  rc_authority :: authority
  rc_token_hash :: "string option"
  rc_invitation_id :: "string option"
  rc_session_hash :: "string option"

datatype challenge_context = RegistrationContext registration_context | OwnerContext string

datatype challenge_kind = ChRegistration | ChAuthentication

record challenge =
  ch_id :: string
  ch_kind :: challenge_kind
  ch_challenge :: string
  ch_context :: challenge_context
  ch_expires_at :: time
  ch_created_at :: time

record grant =
  g_hash :: string
  g_expires_at :: time

section \<open>Routes\<close>

datatype route_action = DIRECT | PROXY | BLOCK

datatype route_matcher = DOMAIN | SUFFIX | IP_CIDR | GEOSITE | GEOIP

datatype route_source = SystemRule | PresetRule | UserRule

record route_rule =
  r_id :: string
  r_position :: nat
  r_action :: route_action
  r_matcher :: route_matcher
  r_value :: string
  r_source :: route_source
  r_locked :: bool
  r_enabled :: bool
  r_created_at :: time
  r_updated_at :: time

record route_revision =
  rv_id :: string
  rv_version :: nat
  rv_rules :: "route_rule list"
  rv_note :: string
  rv_created_at :: time
  rv_actor :: string
  rv_ruleset_version :: "string option"

section \<open>Engines, traffic and presence\<close>

record engine_version_row =
  e_engine :: engine
  e_installed :: "string option"
  e_desired :: string
  e_checksum :: string

text \<open>The cached result of an upstream release check: latest version, version and checksum of its artifact.\<close>

record release_check =
  k_latest :: "string option"
  k_artifact :: "(string \<times> string) option"

record traffic_cursor =
  tc_connection_id :: string
  tc_engine :: engine
  tc_counter_id :: string
  tc_upload :: nat
  tc_download :: nat
  tc_observed_at :: time

datatype bucket = B5m | B1h | B1d

record traffic_sample =
  ts_bucket :: bucket
  ts_bucket_at :: time
  ts_connection_id :: string
  ts_engine :: engine
  ts_upload :: nat
  ts_download :: nat

datatype presence_status = Online | Offline | Unknown

datatype presence_signal = BySessions | ByTraffic

record presence_row =
  p_connection_id :: string
  p_engine :: engine
  p_status :: presence_status
  p_signal :: presence_signal
  p_connections :: "nat option"
  p_misses :: nat
  p_last_active_at :: "time option"
  p_observed_at :: time
  p_changed_at :: time

record monitor_row =
  mo_key :: string
  mo_status :: string
  mo_severity :: "string option"
  mo_failures :: nat
  mo_data :: "(string \<times> json) list"
  mo_observed_at :: time
  mo_changed_at :: time

section \<open>Operations, audit and events\<close>

record operation_row =
  op_id :: string
  op_kind :: string
  op_status :: string
  op_progress :: nat
  op_message :: string
  op_result :: "json option"
  op_error :: "string option"
  op_created_at :: time
  op_updated_at :: time

record confirmation =
  cf_id :: string
  cf_action :: string
  cf_payload_hash :: string
  cf_expires_at :: time
  cf_used_at :: "time option"
  cf_created_at :: time

text \<open>
  An audit row.  The \<open>before_json\<close> and \<open>after_json\<close> snapshots are kept as the JSON value
  where the program reads them back (the confirmation of an update) and are \<open>None\<close>
  elsewhere: no modelled behaviour depends on them.
\<close>

record audit_row =
  au_id :: nat
  au_actor :: string
  au_action :: string
  au_resource :: string
  au_resource_id :: "string option"
  au_after :: "json option"
  au_created_at :: time

record event_row =
  ev_id :: nat
  ev_type :: string
  ev_category :: string
  ev_kind :: string
  ev_severity :: string
  ev_outcome :: "string option"
  ev_important :: bool
  ev_source :: string
  ev_actor :: "string option"
  ev_subject_type :: "string option"
  ev_subject_id :: "string option"
  ev_operation_id :: "string option"
  ev_audit_id :: "nat option"
  ev_data :: "(string \<times> json) list"
  ev_occurred_at :: time

section \<open>The database\<close>

record db =
  t_owners :: "owner_row list"
  t_passkeys :: "passkey list"
  t_sessions :: "session_row list"
  t_api_tokens :: "api_token list"
  t_invitations :: "invitation list"
  t_challenges :: "challenge list"
  t_connections :: "connection list"
  t_credentials :: "credential list"
  t_jobs :: "sync_job list"
  t_route_drafts :: "route_rule list"
  t_route_revisions :: "route_revision list"
  t_engine_versions :: "engine_version_row list"
  t_cursors :: "traffic_cursor list"
  t_samples :: "traffic_sample list"
  t_presence :: "presence_row list"
  t_monitor :: "monitor_row list"
  t_operations :: "operation_row list"
  t_confirmations :: "confirmation list"
  t_audit :: "audit_row list"
  t_events :: "event_row list"
  q_audit :: nat
  q_events :: nat
  s_active_route_version :: nat
  s_claim :: "grant option"
  s_recovery :: "grant option"
  s_methods :: "conn_method list option"
  s_release_checks :: "(engine \<times> release_check) list"
  s_setup_monitoring :: bool

definition empty_db :: db where
  "empty_db =
     \<lparr>t_owners = [], t_passkeys = [], t_sessions = [], t_api_tokens = [], t_invitations = [],
      t_challenges = [], t_connections = [], t_credentials = [], t_jobs = [], t_route_drafts = [],
      t_route_revisions = [], t_engine_versions = [], t_cursors = [], t_samples = [],
      t_presence = [], t_monitor = [], t_operations = [], t_confirmations = [], t_audit = [],
      t_events = [], q_audit = 0, q_events = 0, s_active_route_version = 0, s_claim = None,
      s_recovery = None, s_methods = None, s_release_checks = [], s_setup_monitoring = False\<rparr>"

text \<open>\<open>OutpostDatabase.audit\<close>: the id of the new row and the database with it.\<close>

definition audit ::
  "string \<Rightarrow> string \<Rightarrow> string \<Rightarrow> string option \<Rightarrow> json option \<Rightarrow> time \<Rightarrow> db \<Rightarrow> nat \<times> db" where
  "audit actor action resource rid after now d =
     (let i = Suc (q_audit d)
      in (i, d\<lparr>q_audit := i,
               t_audit := t_audit d @ [\<lparr>au_id = i, au_actor = actor, au_action = action,
                 au_resource = resource, au_resource_id = rid, au_after = after,
                 au_created_at = now\<rparr>]\<rparr>))"

text \<open>\<open>OutpostDatabase.event\<close>: the row's id is assigned by the table's sequence.\<close>

definition event :: "event_row \<Rightarrow> db \<Rightarrow> db" where
  "event e d =
     (let i = Suc (q_events d)
      in d\<lparr>q_events := i, t_events := t_events d @ [e\<lparr>ev_id := i\<rparr>]\<rparr>)"

section \<open>The log tables do not interfere with the others\<close>

text \<open>
  Two databases agree up to the log when only audit rows, events and their sequences
  differ.  Every component's invariant speaks about the other tables only, so writing an
  audit row or an event keeps it.
\<close>

definition data_of :: "db \<Rightarrow> db" where
  "data_of d = d\<lparr>t_audit := [], t_events := [], q_audit := 0, q_events := 0\<rparr>"

lemma data_of_audit [simp]: "data_of (snd (audit a b c r x n d)) = data_of d"
  by (simp add: data_of_def audit_def Let_def)

lemma data_of_event [simp]: "data_of (event e d) = data_of d"
  by (simp add: data_of_def event_def Let_def)

lemma data_of_fields:
  "data_of d = data_of d' \<Longrightarrow>
     t_owners d = t_owners d' \<and> t_passkeys d = t_passkeys d' \<and> t_sessions d = t_sessions d' \<and>
     t_api_tokens d = t_api_tokens d' \<and> t_invitations d = t_invitations d' \<and>
     t_challenges d = t_challenges d' \<and> t_connections d = t_connections d' \<and>
     t_credentials d = t_credentials d' \<and> t_jobs d = t_jobs d' \<and>
     t_route_drafts d = t_route_drafts d' \<and> t_route_revisions d = t_route_revisions d' \<and>
     t_engine_versions d = t_engine_versions d' \<and> t_cursors d = t_cursors d' \<and>
     t_samples d = t_samples d' \<and> t_presence d = t_presence d' \<and> t_monitor d = t_monitor d' \<and>
     t_operations d = t_operations d' \<and> t_confirmations d = t_confirmations d' \<and>
     s_active_route_version d = s_active_route_version d' \<and> s_claim d = s_claim d' \<and>
     s_recovery d = s_recovery d' \<and> s_methods d = s_methods d' \<and>
     s_release_checks d = s_release_checks d' \<and>
     s_setup_monitoring d = s_setup_monitoring d'"
  by (cases d; cases d') (simp add: data_of_def)

lemma audit_fields [simp]:
  "t_owners (snd (audit a b c r x n d)) = t_owners d"
  "t_passkeys (snd (audit a b c r x n d)) = t_passkeys d"
  "t_sessions (snd (audit a b c r x n d)) = t_sessions d"
  "t_api_tokens (snd (audit a b c r x n d)) = t_api_tokens d"
  "t_invitations (snd (audit a b c r x n d)) = t_invitations d"
  "t_challenges (snd (audit a b c r x n d)) = t_challenges d"
  "t_connections (snd (audit a b c r x n d)) = t_connections d"
  "t_credentials (snd (audit a b c r x n d)) = t_credentials d"
  "t_jobs (snd (audit a b c r x n d)) = t_jobs d"
  "t_route_drafts (snd (audit a b c r x n d)) = t_route_drafts d"
  "t_route_revisions (snd (audit a b c r x n d)) = t_route_revisions d"
  "t_engine_versions (snd (audit a b c r x n d)) = t_engine_versions d"
  "t_cursors (snd (audit a b c r x n d)) = t_cursors d"
  "t_samples (snd (audit a b c r x n d)) = t_samples d"
  "t_presence (snd (audit a b c r x n d)) = t_presence d"
  "t_monitor (snd (audit a b c r x n d)) = t_monitor d"
  "t_operations (snd (audit a b c r x n d)) = t_operations d"
  "t_confirmations (snd (audit a b c r x n d)) = t_confirmations d"
  "t_events (snd (audit a b c r x n d)) = t_events d"
  "s_active_route_version (snd (audit a b c r x n d)) = s_active_route_version d"
  "s_claim (snd (audit a b c r x n d)) = s_claim d"
  "s_recovery (snd (audit a b c r x n d)) = s_recovery d"
  "s_methods (snd (audit a b c r x n d)) = s_methods d"
  "s_release_checks (snd (audit a b c r x n d)) = s_release_checks d"
  "s_setup_monitoring (snd (audit a b c r x n d)) = s_setup_monitoring d"
  by (simp_all add: audit_def Let_def)

lemma event_fields [simp]:
  "t_owners (event e d) = t_owners d"
  "t_passkeys (event e d) = t_passkeys d"
  "t_sessions (event e d) = t_sessions d"
  "t_api_tokens (event e d) = t_api_tokens d"
  "t_invitations (event e d) = t_invitations d"
  "t_challenges (event e d) = t_challenges d"
  "t_connections (event e d) = t_connections d"
  "t_credentials (event e d) = t_credentials d"
  "t_jobs (event e d) = t_jobs d"
  "t_route_drafts (event e d) = t_route_drafts d"
  "t_route_revisions (event e d) = t_route_revisions d"
  "t_engine_versions (event e d) = t_engine_versions d"
  "t_cursors (event e d) = t_cursors d"
  "t_samples (event e d) = t_samples d"
  "t_presence (event e d) = t_presence d"
  "t_monitor (event e d) = t_monitor d"
  "t_operations (event e d) = t_operations d"
  "t_confirmations (event e d) = t_confirmations d"
  "t_audit (event e d) = t_audit d"
  "s_active_route_version (event e d) = s_active_route_version d"
  "s_claim (event e d) = s_claim d"
  "s_recovery (event e d) = s_recovery d"
  "s_methods (event e d) = s_methods d"
  "s_release_checks (event e d) = s_release_checks d"
  "s_setup_monitoring (event e d) = s_setup_monitoring d"
  by (simp_all add: event_def Let_def)

end
