(* ===== verification/Journal.thy ===== *)
theory Journal
  imports Database
begin

text \<open>
  The journal (src/src/server/services/journal.ts): the table of event types, the writer
  that completes an entry from its type's definition and removes sensitive data, and the
  filtered, paginated reader.  The localised titles (journal-locales.ts) are presentation
  and appear only as the search text of an event, a parameter of the reader.
\<close>

section \<open>Event definitions\<close>

record event_def =
  d_category :: string
  d_kind :: string
  d_severity :: string
  d_outcome :: string
  d_important :: bool

definition def_change :: "string \<Rightarrow> bool \<Rightarrow> event_def" where
  "def_change cat imp = \<lparr>d_category = cat, d_kind = ''change'', d_severity = ''info'',
     d_outcome = ''succeeded'', d_important = imp\<rparr>"

definition def_activity :: "string \<Rightarrow> event_def" where
  "def_activity cat = \<lparr>d_category = cat, d_kind = ''activity'', d_severity = ''info'',
     d_outcome = ''succeeded'', d_important = False\<rparr>"

definition def_incident :: "string \<Rightarrow> string \<Rightarrow> bool \<Rightarrow> event_def" where
  "def_incident cat sev imp = \<lparr>d_category = cat, d_kind = ''incident'', d_severity = sev,
     d_outcome = ''failed'', d_important = imp\<rparr>"

definition def_recovered :: "string \<Rightarrow> event_def" where
  "def_recovered cat = \<lparr>d_category = cat, d_kind = ''incident'', d_severity = ''info'',
     d_outcome = ''recovered'', d_important = False\<rparr>"

definition def_started :: "string \<Rightarrow> event_def" where
  "def_started cat = \<lparr>d_category = cat, d_kind = ''activity'', d_severity = ''info'',
     d_outcome = ''started'', d_important = False\<rparr>"

definition def_succeeded :: "string \<Rightarrow> event_def" where
  "def_succeeded cat = \<lparr>d_category = cat, d_kind = ''activity'', d_severity = ''info'',
     d_outcome = ''succeeded'', d_important = False\<rparr>"

definition def_failed :: "string \<Rightarrow> event_def" where
  "def_failed cat = \<lparr>d_category = cat, d_kind = ''incident'', d_severity = ''error'',
     d_outcome = ''failed'', d_important = True\<rparr>"

definition definitions :: "(string \<times> event_def) list" where
  "definitions =
    [(''connection.created'', def_change ''connections'' False),
     (''connection.updated'', def_change ''connections'' False),
     (''connection.activated'', def_change ''connections'' False),
     (''connection.rotation_started'', def_started ''connections''),
     (''connection.rotated'', def_change ''connections'' True),
     (''connection.rotation_failed'', def_failed ''connections''),
     (''connection.suspended'', def_change ''connections'' True),
     (''connection.resumed'', def_change ''connections'' False),
     (''connection.archived'', def_change ''connections'' True),
     (''connection.first_used'', def_activity ''connections''),
     (''connection.first_seen'', def_activity ''connections''),
     (''connection.offline_long'', def_incident ''connections'' ''warning'' True),
     (''connection.returned'', def_recovered ''connections''),
     (''routes.published'', def_change ''routes'' False),
     (''routes.rolled_back'', def_change ''routes'' True),
     (''routes.neutralized'', def_change ''routes'' False),
     (''rulesets.updated'', def_change ''system'' False),
     (''rulesets.update_failed'', def_incident ''system'' ''warning'' True),
     (''engine.order_changed'', def_change ''engines'' False),
     (''method.configured'', def_change ''engines'' False),
     (''method.reordered'', def_change ''engines'' False),
     (''engine.config_applied'', def_change ''engines'' False),
     (''engine.config_rolled_back'', def_change ''engines'' True),
     (''engine.telemetry_unavailable'', def_incident ''engines'' ''warning'' True),
     (''engine.telemetry_restored'', def_recovered ''engines''),
     (''backup.started'', def_started ''maintenance''),
     (''backup.created'', def_succeeded ''maintenance''),
     (''backup.failed'', def_failed ''maintenance''),
     (''service.restart_started'', def_started ''maintenance''),
     (''service.restarted'', def_succeeded ''maintenance''),
     (''service.restart_failed'', def_failed ''maintenance''),
     (''service.start_started'', def_started ''maintenance''),
     (''service.started'', def_succeeded ''maintenance''),
     (''service.start_failed'', def_failed ''maintenance''),
     (''service.stop_started'', def_started ''maintenance''),
     (''service.stopped'', def_succeeded ''maintenance''),
     (''service.stop_failed'', def_failed ''maintenance''),
     (''nginx.reload_started'', def_started ''maintenance''),
     (''nginx.reloaded'', def_succeeded ''maintenance''),
     (''nginx.reload_failed'', def_failed ''maintenance''),
     (''engine.update_started'', def_started ''maintenance''),
     (''engine.updated'', def_succeeded ''maintenance''),
     (''engine.update_failed'', def_failed ''maintenance''),
     (''app.update_started'', def_started ''maintenance''),
     (''app.updated'', def_succeeded ''maintenance''),
     (''app.update_failed'', def_failed ''maintenance''),
     (''auth.login_succeeded'', def_activity ''security''),
     (''passkey.registered'', def_change ''security'' False),
     (''passkey.revoked'', def_change ''security'' True),
     (''session.revoked'', def_change ''security'' False),
     (''sessions.revoked_others'', def_change ''security'' False),
     (''token.created'', def_change ''security'' True),
     (''token.revoked'', def_change ''security'' True),
     (''bootstrap.reset'', def_incident ''security'' ''critical'' True),
     (''service.unavailable'', def_incident ''system'' ''error'' True),
     (''service.restored'', def_recovered ''system''),
     (''system.disk_warning'', def_incident ''system'' ''warning'' True),
     (''system.disk_critical'', def_incident ''system'' ''critical'' True),
     (''system.disk_restored'', def_recovered ''system''),
     (''system.tls_warning'', def_incident ''system'' ''warning'' True),
     (''system.tls_critical'', def_incident ''system'' ''critical'' True),
     (''system.tls_restored'', def_recovered ''system'')]"

section \<open>Removing sensitive data\<close>

definition sensitive_parts :: "string list" where
  "sensitive_parts =
     [''token'', ''password'', ''passphrase'', ''secret'', ''credential'', ''challenge'',
      ''authorization'', ''cookie'', ''ciphertext'', ''privatekey'', ''destination'', ''domain'',
      ''address'', ''url'', ''path'']"

definition sensitive_key :: "string \<Rightarrow> bool" where
  "sensitive_key key =
     (let n = to_lower (filter is_alnum key)
      in list_ex (contains n) sensitive_parts \<or> n = ''ip'' \<or> ends_with n ''ip'')"

fun sanitize :: "json \<Rightarrow> json"
  and sanitize_entries :: "(string \<times> json) list \<Rightarrow> (string \<times> json) list"
  and sanitize_list :: "json list \<Rightarrow> json list" where
  "sanitize (JArr xs) = JArr (sanitize_list xs)"
| "sanitize (JObj kvs) = JObj (sanitize_entries kvs)"
| "sanitize v = v"
| "sanitize_entries [] = []"
| "sanitize_entries ((k, v) # kvs) =
     (if sensitive_key k then sanitize_entries kvs
      else (k, sanitize v) # sanitize_entries kvs)"
| "sanitize_list [] = []"
| "sanitize_list (v # vs) = sanitize v # sanitize_list vs"

text \<open>All keys of a value, at every depth.\<close>

fun keys_of :: "json \<Rightarrow> string set"
  and entry_keys :: "(string \<times> json) list \<Rightarrow> string set"
  and list_keys :: "json list \<Rightarrow> string set" where
  "keys_of (JArr xs) = list_keys xs"
| "keys_of (JObj kvs) = entry_keys kvs"
| "keys_of v = {}"
| "entry_keys [] = {}"
| "entry_keys ((k, v) # kvs) = insert k (keys_of v \<union> entry_keys kvs)"
| "list_keys [] = {}"
| "list_keys (v # vs) = keys_of v \<union> list_keys vs"

lemma sanitize_keys:
  "keys_of (sanitize v) \<subseteq> {k \<in> keys_of v. \<not> sensitive_key k}"
  "entry_keys (sanitize_entries kvs) \<subseteq> {k \<in> entry_keys kvs. \<not> sensitive_key k}"
  "list_keys (sanitize_list vs) \<subseteq> {k \<in> list_keys vs. \<not> sensitive_key k}"
  by (induction v and kvs and vs rule: sanitize_sanitize_entries_sanitize_list.induct) auto

lemma sanitize_clean:
  "(\<forall>k\<in>keys_of v. \<not> sensitive_key k) \<Longrightarrow> sanitize v = v"
  "(\<forall>k\<in>entry_keys kvs. \<not> sensitive_key k) \<Longrightarrow> sanitize_entries kvs = kvs"
  "(\<forall>k\<in>list_keys vs. \<not> sensitive_key k) \<Longrightarrow> sanitize_list vs = vs"
  by (induction v and kvs and vs rule: sanitize_sanitize_entries_sanitize_list.induct) auto

section \<open>Writing\<close>

record journal_entry =
  je_severity :: "string option"
  je_outcome :: "string option option"
  je_important :: "bool option"
  je_source :: "string option"
  je_actor :: "string option"
  je_subject_type :: "string option"
  je_subject_id :: "string option"
  je_operation_id :: "string option"
  je_audit_id :: "nat option"
  je_data :: "(string \<times> json) list"
  je_occurred_at :: "time option"

definition entry :: journal_entry where
  "entry = \<lparr>je_severity = None, je_outcome = None, je_important = None, je_source = None,
     je_actor = None, je_subject_type = None, je_subject_id = None, je_operation_id = None,
     je_audit_id = None, je_data = [], je_occurred_at = None\<rparr>"

definition record_event :: "string \<Rightarrow> journal_entry \<Rightarrow> time \<Rightarrow> db \<Rightarrow> db result" where
  "record_event type e now d =
     (case map_of definitions type of
        None \<Rightarrow> Err (Thrown ''unknown event type'')
      | Some df \<Rightarrow> Ok (event
          \<lparr>ev_id = 0, ev_type = type, ev_category = d_category df, ev_kind = d_kind df,
           ev_severity = coalesce (je_severity e) (d_severity df),
           ev_outcome = coalesce (je_outcome e) (Some (d_outcome df)),
           ev_important = coalesce (je_important e) (d_important df),
           ev_source = coalesce (je_source e) (hd (split_on (CHR ''.'') type)),
           ev_actor = je_actor e, ev_subject_type = je_subject_type e,
           ev_subject_id = je_subject_id e, ev_operation_id = je_operation_id e,
           ev_audit_id = je_audit_id e, ev_data = sanitize_entries (je_data e),
           ev_occurred_at = coalesce (je_occurred_at e) now\<rparr> d))"

text \<open>
  \<open>JournalService.change\<close>: the mutation, its audit row and its event in one transaction.
\<close>

definition journal_change ::
  "string \<Rightarrow> (db \<Rightarrow> ('a \<times> db) result) \<Rightarrow> ('a \<Rightarrow> time \<Rightarrow> db \<Rightarrow> nat \<times> db) \<Rightarrow> ('a \<Rightarrow> journal_entry)
   \<Rightarrow> time \<Rightarrow> db \<Rightarrow> ('a \<times> db) result" where
  "journal_change type mutate aud ent now d =
     bind_result (mutate d) (\<lambda>(v, d1).
       (case aud v now d1 of (audit_id, d2) \<Rightarrow>
          bind_result (record_event type ((ent v)\<lparr>je_audit_id := Some audit_id\<rparr>) now d2)
            (\<lambda>d3. Ok (v, d3))))"

lemma record_event_data [simp]: "record_event ty e now d = Ok d' \<Longrightarrow> data_of d' = data_of d"
  by (auto simp: record_event_def split: option.splits)

lemma record_event_known:
  "ty \<in> fst ` set definitions \<Longrightarrow> \<exists>d'. record_event ty e now d = Ok d'"
  by (auto simp: record_event_def map_of_eq_None_iff split: option.splits)

definition journal_clean :: "db \<Rightarrow> bool" where
  "journal_clean d \<longleftrightarrow>
     (\<forall>e\<in>set (t_events d). \<forall>k\<in>entry_keys (ev_data e). \<not> sensitive_key k)"

lemma sanitize_entries_clean [simp]: "k \<in> entry_keys (sanitize_entries kvs) \<Longrightarrow> \<not> sensitive_key k"
  using sanitize_keys(2) by blast

lemma record_event_clean [inv_intros]:
  "record_event ty e now d = Ok d' \<Longrightarrow> journal_clean d \<Longrightarrow> journal_clean d'"
  by (auto simp: record_event_def journal_clean_def event_def Let_def split: option.splits)

section \<open>Reading\<close>

datatype journal_scope = ScAll | ScImportant | ScErrors | ScChanges

record journal_query =
  q_from :: "time option"
  q_to :: "time option"
  q_engine :: "string option"
  q_connection_id :: "string option"
  q_scope :: journal_scope
  q_categories :: "string list"
  q_term :: string
  q_before :: "nat option"
  q_limit :: int

text \<open>
  The \<open>WHERE\<close> clauses of the reader.  SQL compares a \<open>NULL\<close> subject with nothing, and an
  absent or empty filter adds no clause.
\<close>

definition journal_matches :: "journal_query \<Rightarrow> event_row \<Rightarrow> bool" where
  "journal_matches q e \<longleftrightarrow>
     (case q_from q of None \<Rightarrow> True | Some t \<Rightarrow> t \<le> ev_occurred_at e) \<and>
     (case q_to q of None \<Rightarrow> True | Some t \<Rightarrow> ev_occurred_at e \<le> t) \<and>
     (case q_engine q of None \<Rightarrow> True
      | Some g \<Rightarrow> g = [] \<or> ev_source e = g \<or>
                 ev_subject_type e = Some ''engine'' \<and> ev_subject_id e = Some g) \<and>
     (case q_connection_id q of None \<Rightarrow> True
      | Some c \<Rightarrow> c = [] \<or> ev_subject_type e = Some ''connection'' \<and> ev_subject_id e = Some c) \<and>
     (q_categories q = [] \<or> ev_category e \<in> set (q_categories q)) \<and>
     (case q_scope q of
        ScAll \<Rightarrow> True
      | ScImportant \<Rightarrow> ev_important e \<or> ev_severity e \<in> {''warning'', ''error'', ''critical''}
      | ScErrors \<Rightarrow> ev_severity e \<in> {''error'', ''critical''}
      | ScChanges \<Rightarrow> ev_kind e = ''change'')"

definition newest_first :: "event_row \<Rightarrow> event_row \<Rightarrow> bool" where
  "newest_first a b \<longleftrightarrow>
     ev_occurred_at b < ev_occurred_at a \<or>
     ev_occurred_at b = ev_occurred_at a \<and> ev_id b \<le> ev_id a"

text \<open>All events of a query, newest first; \<open>searchable\<close> is the rendered text of an event.\<close>

definition journal_searched ::
  "(event_row \<Rightarrow> string) \<Rightarrow> journal_query \<Rightarrow> db \<Rightarrow> event_row list" where
  "journal_searched searchable q d =
     (let rows = sort_by newest_first (filter (journal_matches q) (t_events d));
          needle = to_lower (trim (q_term q))
      in if needle = [] then rows
         else filter (\<lambda>e. contains (to_lower (searchable e)) needle) rows)"

record journal_page =
  jp_events :: "event_row list"
  jp_total :: nat
  jp_next :: "nat option"

definition journal_list ::
  "(event_row \<Rightarrow> string) \<Rightarrow> journal_query \<Rightarrow> db \<Rightarrow> journal_page" where
  "journal_list searchable q d =
     (let limit = nat (max 1 (min 100 (q_limit q)));
          searched = journal_searched searchable q d;
          before_index = (case q_before q of None \<Rightarrow> None
                          | Some b \<Rightarrow> if b = 0 then None
                                     else find_index (\<lambda>e. ev_id e = b) searched);
          available = (case before_index of None \<Rightarrow> searched | Some i \<Rightarrow> drop (Suc i) searched);
          events = take limit available
      in \<lparr>jp_events = events, jp_total = length searched,
          jp_next = (if length available > limit
                     then (if events = [] then None else Some (ev_id (last events))) else None)\<rparr>)"

text \<open>A client that follows \<open>next\<close> until it is null, at most \<open>n\<close> pages.\<close>

fun journal_walk :: "nat \<Rightarrow> (event_row \<Rightarrow> string) \<Rightarrow> journal_query \<Rightarrow> db \<Rightarrow> event_row list" where
  "journal_walk 0 searchable q d = []"
| "journal_walk (Suc n) searchable q d =
     (let page = journal_list searchable q d
      in jp_events page @
         (case jp_next page of None \<Rightarrow> []
          | Some b \<Rightarrow> journal_walk n searchable (q\<lparr>q_before := Some b\<rparr>) d))"

lemma journal_searched_before [simp]:
  "journal_searched f (q\<lparr>q_before := b\<rparr>) d = journal_searched f q d"
proof -
  have "journal_matches (q\<lparr>q_before := b\<rparr>) = journal_matches q"
    by (rule ext) (simp add: journal_matches_def)
  then show ?thesis by (simp add: journal_searched_def)
qed

definition event_ids_ok :: "db \<Rightarrow> bool" where
  "event_ids_ok d \<longleftrightarrow>
     distinct (map ev_id (t_events d)) \<and> (\<forall>e\<in>set (t_events d). 0 < ev_id e \<and> ev_id e \<le> q_events d)"

lemma event_ids_ok_event [inv_intros]: "event_ids_ok d \<Longrightarrow> event_ids_ok (event e d)"
  by (auto simp: event_ids_ok_def event_def Let_def)

lemma record_event_ids [inv_intros]:
  "record_event ty e now d = Ok d' \<Longrightarrow> event_ids_ok d \<Longrightarrow> event_ids_ok d'"
  by (auto simp: record_event_def intro: inv_intros split: option.splits)

lemma journal_searched_subset: "set (journal_searched f q d) \<subseteq> set (t_events d)"
  by (auto simp: journal_searched_def Let_def split: if_splits)

lemma journal_searched_distinct:
  assumes "event_ids_ok d"
  shows "distinct (map ev_id (journal_searched f q d))"
proof -
  have "distinct (map ev_id (filter (journal_matches q) (t_events d)))"
    using assms distinct_map_filter by (auto simp: event_ids_ok_def)
  then show ?thesis
    by (simp add: journal_searched_def Let_def distinct_map_filter)
qed

text \<open>Where a walk that has consumed a prefix of the events continues.\<close>

lemma journal_walk_from:
  assumes ids: "event_ids_ok d"
    and split: "journal_searched f q d = xs @ e # ys" and "length ys \<le> n"
    and before: "q_before q = Some (ev_id e)"
  shows "journal_walk n f q d = ys"
  using split before assms(3)
proof (induction n arbitrary: q xs e ys)
  case 0
  then show ?case by simp
next
  case (Suc n)
  let ?l = "nat (max 1 (min 100 (q_limit q)))"
  have l: "0 < ?l" by simp
  have dist: "distinct (map ev_id (xs @ e # ys))"
    using journal_searched_distinct [OF ids, of f q] Suc.prems(1) by simp
  have "e \<in> set (t_events d)"
    using journal_searched_subset [of f q d] Suc.prems(1) by auto
  then have pos: "ev_id e \<noteq> 0" using ids by (auto simp: event_ids_ok_def)
  have idx: "find_index (\<lambda>x. ev_id x = ev_id e) (xs @ e # ys) = Some (length xs)"
    by (rule find_index_append) (use dist in \<open>auto simp: image_iff\<close>)
  have page: "journal_list f q d =
      \<lparr>jp_events = take ?l ys, jp_total = length (xs @ e # ys),
       jp_next = (if length ys > ?l then Some (ev_id (last (take ?l ys))) else None)\<rparr>"
    using l pos by (auto simp: journal_list_def Let_def Suc.prems(1,2) idx)
  show ?case
  proof (cases "length ys > ?l")
    case False
    then show ?thesis by (simp add: page)
  next
    case True
    then obtain us g where us: "take ?l ys = us @ [g]"
      using l by (cases "take ?l ys" rule: rev_cases) auto
    have ys: "us @ g # drop ?l ys = ys"
      using append_take_drop_id [of ?l ys] us by simp
    then have cont: "journal_searched f (q\<lparr>q_before := Some (ev_id g)\<rparr>) d =
        (xs @ e # us) @ g # drop ?l ys"
      using Suc.prems(1) by (simp add: ys)
    have "length (drop ?l ys) \<le> n" using Suc.prems(3) l True by simp
    then have "journal_walk n f (q\<lparr>q_before := Some (ev_id g)\<rparr>) d = drop ?l ys"
      using Suc.IH [OF cont] by simp
    then show ?thesis using True us ys by (simp add: page)
  qed
qed

text \<open>
  C3. Following the \<open>next\<close> cursor from the first page yields every matching event exactly
  once and newest first, whatever the page size, and the walk ends: as many pages as there
  are matching events are always enough.
\<close>

theorem journal_walk_complete:
  assumes "event_ids_ok d" and "q_before q = None" and "length (journal_searched f q d) \<le> n" and "0 < n"
  shows "journal_walk n f q d = journal_searched f q d"
proof -
  let ?s = "journal_searched f q d" and ?l = "nat (max 1 (min 100 (q_limit q)))"
  have l: "0 < ?l" by simp
  obtain m where n: "n = Suc m" using assms(4) by (cases n) auto
  have page: "journal_list f q d =
      \<lparr>jp_events = take ?l ?s, jp_total = length ?s,
       jp_next = (if length ?s > ?l then Some (ev_id (last (take ?l ?s))) else None)\<rparr>"
    using assms(2) l by (auto simp: journal_list_def Let_def)
  show ?thesis
  proof (cases "length ?s > ?l")
    case False
    then show ?thesis by (simp add: n page)
  next
    case True
    then obtain us g where us: "take ?l ?s = us @ [g]"
      using l by (cases "take ?l ?s" rule: rev_cases) auto
    have s: "us @ g # drop ?l ?s = ?s"
      using append_take_drop_id [of ?l ?s] us by simp
    then have "journal_searched f (q\<lparr>q_before := Some (ev_id g)\<rparr>) d = us @ g # drop ?l ?s"
      by simp
    moreover have "length (drop ?l ?s) \<le> m" using assms(3) n l True by simp
    ultimately have "journal_walk m f (q\<lparr>q_before := Some (ev_id g)\<rparr>) d = drop ?l ?s"
      by (intro journal_walk_from [OF assms(1)]) auto
    then show ?thesis using True us s by (simp add: n page)
  qed
qed

definition sample_events :: db where
  "sample_events =
     (case record_event ''connection.created'' entry 5 empty_db of
        Inl _ \<Rightarrow> empty_db
      | Inr d \<Rightarrow> (case record_event ''auth.login_succeeded'' entry 7 d of Inl _ \<Rightarrow> d | Inr d2 \<Rightarrow> d2))"

definition sample_query :: journal_query where
  "sample_query = \<lparr>q_from = None, q_to = None, q_engine = None, q_connection_id = None,
     q_scope = ScAll, q_categories = [], q_term = [], q_before = None, q_limit = 1\<rparr>"

lemmas sample_eval =
  sample_events_def sample_query_def record_event_def definitions_def def_change_def
  def_activity_def event_def empty_db_def Let_def entry_def journal_searched_def journal_matches_def
  newest_first_def trim_def

lemma journal_walk_complete_witness:
  "map ev_type (journal_walk 2 (\<lambda>_. []) sample_query sample_events) =
     [''auth.login_succeeded'', ''connection.created'']"
proof -
  have ok: "event_ids_ok sample_events"
    by (simp add: sample_eval event_ids_ok_def)
  have s: "map ev_type (journal_searched (\<lambda>_. []) sample_query sample_events) =
     [''auth.login_succeeded'', ''connection.created'']"
    by (simp add: sample_eval)
  then have "length (journal_searched (\<lambda>_. []) sample_query sample_events) = 2"
    by (metis length_map length_Cons list.size(3) numeral_2_eq_2)
  then have "journal_walk 2 (\<lambda>_. []) sample_query sample_events =
      journal_searched (\<lambda>_. []) sample_query sample_events"
    by (intro journal_walk_complete [OF ok]) (simp_all add: sample_query_def)
  with s show ?thesis by simp
qed

text \<open>
  Whatever data a service hands to the journal, no stored event holds a key that names a
  secret, an address or a path, at any depth of its data; data with no such key is stored
  unchanged, under the id that follows every earlier id.
\<close>

theorem record_event_safe:
  assumes "journal_clean d" and "record_event ty e now d = Ok d'"
  shows "journal_clean d' \<and>
    (\<exists>r. t_events d' = t_events d @ [r] \<and> ev_id r = Suc (q_events d) \<and> ev_type r = ty \<and>
         ((\<forall>k\<in>entry_keys (je_data e). \<not> sensitive_key k) \<longrightarrow> ev_data r = je_data e))"
proof -
  have "\<exists>r. t_events d' = t_events d @ [r] \<and> ev_id r = Suc (q_events d) \<and> ev_type r = ty \<and>
      ev_data r = sanitize_entries (je_data e)"
    using assms(2) by (auto simp: record_event_def event_def Let_def split: option.splits)
  moreover have "journal_clean d'" using assms by (blast intro: inv_intros)
  ultimately show ?thesis using sanitize_clean(2) [of "je_data e"] by auto
qed

lemma record_event_safe_witness:
  "\<exists>d' r. record_event ''token.created''
       (entry\<lparr>je_data := [(''name'', JStr ''cli''), (''apiToken'', JStr ''abc''),
                          (''nested'', JObj [(''Client-IP'', JStr ''192.0.2.1'')])]\<rparr>) 5 empty_db = Ok d' \<and>
     t_events d' = [r] \<and> journal_clean d' \<and> ev_id r = 1 \<and>
     ev_data r = [(''name'', JStr ''cli''), (''nested'', JObj [])]"
proof -
  let ?e = "entry\<lparr>je_data := [(''name'', JStr ''cli''), (''apiToken'', JStr ''abc''),
                          (''nested'', JObj [(''Client-IP'', JStr ''192.0.2.1'')])]\<rparr>"
  have clean: "journal_clean empty_db" by (simp add: journal_clean_def empty_db_def)
  obtain d' where d': "record_event ''token.created'' ?e 5 empty_db = Ok d'"
    and data: "map ev_data (t_events d') = [[(''name'', JStr ''cli''), (''nested'', JObj [])]]"
    by (simp add: record_event_def definitions_def event_def empty_db_def Let_def entry_def
        sensitive_key_def sensitive_parts_def to_lower_def lower_char_def char_class_defs ends_with_def char_of_eq_iff)
  from record_event_safe [OF clean d'] data d' show ?thesis
    by (auto simp: empty_db_def)
qed

end
