(* ===== verification/Inventory.thy ===== *)
theory Inventory
  imports Database Versions
begin

text \<open>
  The inventory of engine runtimes (src/src/server/services/engine-inventory.ts): which
  version is pinned, which is installed, and which update is offered.  Whether a runtime's
  binary exists on the host is a parameter.
\<close>

record engine_version =
  n_engine :: engine
  n_installed :: "string option"
  n_desired :: string
  n_checksum :: string
  n_update_available :: bool

text \<open>\<open>INSERT .. ON CONFLICT\<close> of one pin: an existing row keeps its installed version.\<close>

definition reconcile_pin :: "bool \<Rightarrow> (engine \<Rightarrow> bool) \<Rightarrow> engine \<Rightarrow> db \<Rightarrow> db" where
  "reconcile_pin production binary_exists e d =
     (let rows = upsert (\<lambda>r. e_engine r = e)
                   (\<lambda>r. r\<lparr>e_desired := engine_pin e, e_checksum := engine_sha256 e\<rparr>)
                   \<lparr>e_engine = e, e_installed = (if engine_optional e then None else Some (engine_pin e)),
                    e_desired = engine_pin e, e_checksum = engine_sha256 e\<rparr>
                   (t_engine_versions d);
          rows2 = (if production \<and> engine_optional e \<and> \<not> binary_exists e
                   then update_where (\<lambda>r. e_engine r = e) (\<lambda>r. r\<lparr>e_installed := None\<rparr>) rows
                   else rows)
      in d\<lparr>t_engine_versions := rows2\<rparr>)"

definition reconcile_pins :: "bool \<Rightarrow> (engine \<Rightarrow> bool) \<Rightarrow> db \<Rightarrow> db" where
  "reconcile_pins production binary_exists d =
     foldl (\<lambda>s e. reconcile_pin production binary_exists e s) d engine_ids"

text \<open>\<open>/^[0-9][0-9A-Za-z.-]{0,39}$/\<close>\<close>

definition engine_version_text :: "string \<Rightarrow> bool" where
  "engine_version_text s \<longleftrightarrow>
     s \<noteq> [] \<and> length s \<le> 40 \<and> is_digit (hd s) \<and>
     list_all (\<lambda>c. is_alnum c \<or> c = CHR ''.'' \<or> c = CHR ''-'') (tl s)"

text \<open>
  \<open>recoverInstallations\<close>: \<open>found e\<close> is the name of the directory that the engine's current
  binary resolves to, when it exists.
\<close>

fun recover_installations :: "(engine \<Rightarrow> string option) \<Rightarrow> engine list \<Rightarrow> db \<Rightarrow> db result" where
  "recover_installations found [] d = Ok d"
| "recover_installations found (e # es) d =
     (if (case found e of None \<Rightarrow> False | Some v \<Rightarrow> \<not> engine_version_text v)
      then Err (Thrown ''unsupported managed installation'')
      else recover_installations found es
        (d\<lparr>t_engine_versions := update_where (\<lambda>r. e_engine r = e) (\<lambda>r. r\<lparr>e_installed := found e\<rparr>)
             (t_engine_versions d)\<rparr>))"

definition offered_version :: "db \<Rightarrow> engine_version_row \<Rightarrow> engine_version result" where
  "offered_version d r =
     bind_result
       (case map_of (s_release_checks d) (e_engine r) of
          None \<Rightarrow> Ok (e_desired r, e_checksum r)
        | Some k \<Rightarrow> (case k_artifact k of
            None \<Rightarrow> Ok (e_desired r, e_checksum r)
          | Some (v, sha) \<Rightarrow>
              bind_result (compare_versions v (e_desired r))
                (\<lambda>i. Ok (if i > 0 then (v, sha) else (e_desired r, e_checksum r)))))
       (\<lambda>(desired, checksum).
          bind_result
            (case e_installed r of
               None \<Rightarrow> Ok True
             | Some inst \<Rightarrow> bind_result (compare_versions desired inst) (\<lambda>i. Ok (i > 0)))
            (\<lambda>upd. Ok \<lparr>n_engine = e_engine r, n_installed = e_installed r, n_desired = desired,
                        n_checksum = checksum, n_update_available = upd\<rparr>))"

text \<open>\<open>ORDER BY engine\<close>: the table's keys in alphabetical order.\<close>

definition by_engine :: "engine_version_row \<Rightarrow> engine_version_row \<Rightarrow> bool" where
  "by_engine a b \<longleftrightarrow> \<not> js_less (engine_key (e_engine b)) (engine_key (e_engine a))"

definition versions :: "db \<Rightarrow> engine_version list result" where
  "versions d = map_result (offered_version d) (sort_by by_engine (t_engine_versions d))"

definition engine_version_of :: "engine \<Rightarrow> db \<Rightarrow> engine_version option result" where
  "engine_version_of e d = bind_result (versions d) (\<lambda>vs. Ok (find (\<lambda>v. n_engine v = e) vs))"

text \<open>
  \<open>has\<close>, \<open>installed\<close> and \<open>optionalInstalled\<close> read the installed column only, which
  \<open>versions()\<close> passes through unchanged; an empty text counts as not installed.
\<close>

definition row_installed :: "engine_version_row \<Rightarrow> bool" where
  "row_installed r \<longleftrightarrow> (case e_installed r of None \<Rightarrow> False | Some v \<Rightarrow> v \<noteq> [])"

definition has_engine :: "engine \<Rightarrow> db \<Rightarrow> bool" where
  "has_engine e d \<longleftrightarrow>
     (case select_one (\<lambda>r. e_engine r = e) (t_engine_versions d) of
        None \<Rightarrow> False | Some r \<Rightarrow> row_installed r)"

definition installed_engines :: "db \<Rightarrow> engine list" where
  "installed_engines d = map e_engine (filter row_installed (sort_by by_engine (t_engine_versions d)))"

definition optional_installed :: "db \<Rightarrow> engine list" where
  "optional_installed d = filter engine_optional (installed_engines d)"

definition record_installation :: "engine \<Rightarrow> string \<Rightarrow> db \<Rightarrow> db" where
  "record_installation e v d =
     d\<lparr>t_engine_versions := update_where (\<lambda>r. e_engine r = e) (\<lambda>r. r\<lparr>e_installed := Some v\<rparr>)
          (t_engine_versions d)\<rparr>"

definition missing_service :: "string \<Rightarrow> db \<Rightarrow> bool" where
  "missing_service s d \<longleftrightarrow>
     (case find (\<lambda>e. engine_service e = s) engine_ids of
        None \<Rightarrow> False | Some e \<Rightarrow> engine_optional e \<and> \<not> has_engine e d)"

definition service_states :: "(string \<times> string) list \<Rightarrow> db \<Rightarrow> (string \<times> string) list" where
  "service_states observed d =
     map (\<lambda>s. (s, if missing_service s d then ''not-installed''
                  else coalesce (map_of observed s) ''unknown'')) service_names"

section \<open>Facts\<close>

lemma find_service [simp]: "find (\<lambda>e. e = x) engine_ids = Some x"
  unfolding engine_ids_def by (cases x) simp_all

lemma missing_service_engine [simp]:
  "missing_service (engine_service e) d \<longleftrightarrow> engine_optional e \<and> \<not> has_engine e d"
  by (simp add: missing_service_def)

lemma reconcile_pin_installed:
  assumes "select_one (\<lambda>r. e_engine r = e) (t_engine_versions d) = Some r"
  shows "\<exists>r'. select_one (\<lambda>r. e_engine r = e) (t_engine_versions (reconcile_pin False bx x d)) = Some r' \<and>
              e_installed r' = e_installed r"
proof -
  have ex: "\<exists>s\<in>set (t_engine_versions d). e_engine s = e" using select_one_Some [OF assms] by blast
  show ?thesis
  proof (cases "\<exists>s\<in>set (t_engine_versions d). e_engine s = x")
    case True
    with assms show ?thesis
      by (simp add: reconcile_pin_def Let_def upsert_def select_one_update_where)
  next
    case False
    with assms show ?thesis
      by (simp add: reconcile_pin_def Let_def upsert_def select_one_append)
  qed
qed

text \<open>
  An update offer is never a downgrade: whatever upstream release check is cached, the
  version offered for an engine is the catalogue's pin or one strictly newer than it, its
  checksum belongs to it, and "update available" means the engine is not installed or the
  offered version is strictly newer than the installed one.
\<close>

theorem offered_version_no_downgrade:
  assumes "offered_version d r = Ok v"
  shows "n_engine v = e_engine r \<and> n_installed v = e_installed r \<and>
    (n_desired v = e_desired r \<and> n_checksum v = e_checksum r \<or>
     compare_versions (n_desired v) (e_desired r) = Ok 1 \<and>
     (\<exists>k. map_of (s_release_checks d) (e_engine r) = Some k \<and>
          k_artifact k = Some (n_desired v, n_checksum v))) \<and>
    (n_update_available v \<longleftrightarrow>
       (case e_installed r of None \<Rightarrow> True | Some i \<Rightarrow> compare_versions (n_desired v) i = Ok 1))"
proof -
  have pos: "i = 1" if "compare_versions a b = Ok i" "0 < i" for a b i
  proof -
    from that(1) have "valid_version a" "valid_version b" using release.cmp_Ok_valid by auto
    then obtain j where "j \<in> {- 1, 0, 1}" "compare_versions a b = Ok j"
      using release.cmp_valid by blast
    with that show ?thesis by auto
  qed
  have upd: "0 < i \<longleftrightarrow> compare_versions a b = Ok 1" if "compare_versions a b = Ok i" for a b i
    using pos [OF that] that by auto
  from assms show ?thesis
    by (auto simp: offered_version_def upd dest: pos split: option.splits if_splits)
qed

lemma offered_version_no_downgrade_witness:
  "\<exists>v. offered_version
        (empty_db\<lparr>s_release_checks := [(Mihomo, \<lparr>k_latest = Some ''1.20.0'', k_artifact = Some (''1.20.0'', ''ab'')\<rparr>)]\<rparr>)
        \<lparr>e_engine = Mihomo, e_installed = Some ''1.19.32'', e_desired = ''1.19.32'', e_checksum = ''cd''\<rparr> = Ok v \<and>
     n_desired v = ''1.20.0'' \<and> n_checksum v = ''ab'' \<and> n_update_available v"
proof -
  let ?d = "empty_db\<lparr>s_release_checks := [(Mihomo, \<lparr>k_latest = Some ''1.20.0'', k_artifact = Some (''1.20.0'', ''ab'')\<rparr>)]\<rparr>"
  let ?r = "\<lparr>e_engine = Mihomo, e_installed = Some ''1.19.32'', e_desired = ''1.19.32'', e_checksum = ''cd''\<rparr>"
  have c: "compare_versions ''1.20.0'' ''1.19.32'' = Ok 1" by (simp add: version_eval)
  obtain v where v: "offered_version ?d ?r = Ok v" and n: "n_desired v = ''1.20.0''" "n_checksum v = ''ab''"
    by (simp add: offered_version_def empty_db_def c)
  with offered_version_no_downgrade [OF v] c show ?thesis by auto
qed

end
