(* ===== verification/Connections.thy ===== *)
theory Connections
  imports Journal Inventory
begin

text \<open>
  Connections and their credentials (src/src/server/services/connections.ts and
  src/src/server/security.ts): creation, rotation, suspension and archival prepare a row
  and a synchronisation job in one transaction; the \<open>complete\<close> operations finish them.

  The cryptographic functions are Node's, and a parameter: \<open>x_hash\<close> is SHA-256 in hex,
  \<open>x_derive\<close> the HMAC of a purpose and an id, \<open>x_seal\<close> and \<open>x_open\<close> AES-256-GCM over the JSON
  text of a secret, with the initialisation vector as an argument.  The random draws an
  operation makes (UUIDs, tokens, initialisation vectors) are \<open>rnd 0, rnd 1, ..\<close> in the
  order the code makes them.  A synchronous operation reads the clock once, \<open>now\<close>.
\<close>

section \<open>Cryptography\<close>

datatype secret = HysteriaSecret string string | XraySecret string string

record crypto =
  x_hash :: "string \<Rightarrow> string"
  x_derive :: "string \<Rightarrow> string \<Rightarrow> string"
  x_seal :: "string \<Rightarrow> secret \<Rightarrow> secret_box"
  x_open :: "secret_box \<Rightarrow> secret option"

text \<open>
  What the code relies on: what is sealed opens again, distinct texts have distinct hashes,
  and distinct ids derive distinct tokens.
\<close>

definition crypto_ok :: "crypto \<Rightarrow> bool" where
  "crypto_ok X \<longleftrightarrow> (\<forall>iv s. x_open X (x_seal X iv s) = Some s) \<and> inj (x_hash X) \<and>
                  (\<forall>p. inj (x_derive X p))"

definition connection_token :: "crypto \<Rightarrow> string \<Rightarrow> nat \<Rightarrow> string" where
  "connection_token X i gen = x_derive X ''connection-subscription'' (i @ '':'' @ show_nat gen)"

section \<open>Input\<close>

abbreviation "zod_error \<equiv> Thrown ''ZodError''"
abbreviation "constraint_error \<equiv> Thrown ''SQLITE_CONSTRAINT''"

definition colors :: "string list" where
  "colors = [''blue'', ''green'', ''peach'', ''violet'', ''slate'']"

definition avatar_text :: "string \<Rightarrow> bool" where
  "avatar_text s \<longleftrightarrow>
     s = ''avatar-person'' \<or> s = ''avatar-group'' \<or> s = ''avatar-current'' \<or>
     starts_with s ''avatar-'' \<and> list_all is_digit (drop 7 s) \<and>
     1 \<le> length (drop 7 s) \<and> length (drop 7 s) \<le> 3"

definition parse_name :: "json option \<Rightarrow> string option result" where
  "parse_name v = (case v of
      None \<Rightarrow> Ok None
    | Some (JStr s) \<Rightarrow> (if 1 \<le> length (trim s) \<and> length (trim s) \<le> 80 then Ok (Some (trim s)) else Err zod_error)
    | Some _ \<Rightarrow> Err zod_error)"

definition parse_choice :: "(string \<Rightarrow> bool) \<Rightarrow> json option \<Rightarrow> string option result" where
  "parse_choice ok v = (case v of
      None \<Rightarrow> Ok None
    | Some (JStr s) \<Rightarrow> (if ok s then Ok (Some s) else Err zod_error)
    | Some _ \<Rightarrow> Err zod_error)"

text \<open>The fields of \<open>updateInput\<close>: a strict object of optional name, color and avatar.\<close>

fun parse_update :: "json \<Rightarrow> (string option \<times> string option \<times> string option) result" where
  "parse_update (JObj kvs) =
     (if list_all (\<lambda>(k, _). k \<in> {''name'', ''color'', ''avatar''}) kvs
      then bind_result (parse_name (json_get ''name'' kvs)) (\<lambda>n.
           bind_result (parse_choice (\<lambda>s. s \<in> set colors) (json_get ''color'' kvs)) (\<lambda>c.
           bind_result (parse_choice avatar_text (json_get ''avatar'' kvs)) (\<lambda>a. Ok (n, c, a))))
      else Err zod_error)"
| "parse_update _ = Err zod_error"

text \<open>\<open>createInput\<close>: the name is required, color and avatar have defaults.\<close>

definition parse_create :: "json \<Rightarrow> (string \<times> string \<times> string) result" where
  "parse_create v = bind_result (parse_update v) (\<lambda>(n, c, a).
     (case n of None \<Rightarrow> Err zod_error
      | Some name \<Rightarrow> Ok (name, coalesce c ''blue'', coalesce a ''avatar-person'')))"

section \<open>Rows\<close>

definition job_open :: "sync_job \<Rightarrow> bool" where
  "job_open j \<longleftrightarrow> j_status j \<in> {JPending, JRunning, JFailed}"

definition get_connection :: "string \<Rightarrow> bool \<Rightarrow> db \<Rightarrow> connection result" where
  "get_connection i include_archived d =
     (case select_one (\<lambda>c. c_id c = i \<and> (include_archived \<or> c_archived_at c = None)) (t_connections d) of
        None \<Rightarrow> Err (ServiceError 404)
      | Some c \<Rightarrow> Ok c)"

text \<open>\<open>list\<close>: in the order of creation, then serial.\<close>

definition created_before :: "connection \<Rightarrow> connection \<Rightarrow> bool" where
  "created_before a b \<longleftrightarrow>
     c_created_at a < c_created_at b \<or> c_created_at a = c_created_at b \<and> c_serial a \<le> c_serial b"

definition list_connections :: "bool \<Rightarrow> db \<Rightarrow> connection list" where
  "list_connections include_archived d =
     sort_by created_before (filter (\<lambda>c. include_archived \<or> c_archived_at c = None) (t_connections d))"

definition update_connection :: "string \<Rightarrow> (connection \<Rightarrow> connection) \<Rightarrow> db \<Rightarrow> db" where
  "update_connection i f d = d\<lparr>t_connections := update_where (\<lambda>c. c_id c = i) f (t_connections d)\<rparr>"

text \<open>The unique columns of the connections table.\<close>

definition insert_connection :: "connection \<Rightarrow> db \<Rightarrow> db result" where
  "insert_connection c d =
     (if \<exists>r\<in>set (t_connections d). c_id r = c_id c \<or> c_serial r = c_serial c \<or>
           (c_token_hash c \<noteq> None \<and> c_token_hash r = c_token_hash c)
      then Err constraint_error
      else Ok (d\<lparr>t_connections := t_connections d @ [c]\<rparr>))"

definition token_free :: "string \<Rightarrow> string \<Rightarrow> db \<Rightarrow> bool" where
  "token_free i h d \<longleftrightarrow> (\<forall>r\<in>set (t_connections d). c_id r \<noteq> i \<longrightarrow> c_token_hash r \<noteq> Some h)"

definition insert_credential :: "credential \<Rightarrow> db \<Rightarrow> db result" where
  "insert_credential c d =
     (if \<exists>r\<in>set (t_credentials d). cr_id r = cr_id c \<or>
           (cr_connection_id r = cr_connection_id c \<and> cr_generation r = cr_generation c
            \<and> cr_engine r = cr_engine c)
      then Err constraint_error
      else Ok (d\<lparr>t_credentials := t_credentials d @ [c]\<rparr>))"

text \<open>\<open>store\<close>: one sealed credential of an engine; draws the vector, then the row's id.\<close>

definition store_credential ::
  "crypto \<Rightarrow> string \<Rightarrow> string \<Rightarrow> time \<Rightarrow> string \<Rightarrow> nat \<Rightarrow> engine \<Rightarrow> cred_state \<Rightarrow> secret \<Rightarrow> db \<Rightarrow> db result" where
  "store_credential X iv new_id now i gen e st s d =
     insert_credential
       \<lparr>cr_id = new_id, cr_connection_id = i, cr_generation = gen, cr_engine = e, cr_state = st,
        cr_box = x_seal X iv s, cr_created_at = now, cr_activated_at = None, cr_revoked_at = None\<rparr> d"

text \<open>\<open>issue\<close>: six random draws, from \<open>rnd k\<close> on.\<close>

definition xray_email :: "string \<Rightarrow> nat \<Rightarrow> string" where
  "xray_email i gen = i @ ''.'' @ show_nat gen @ ''@outpost.local''"

definition issue ::
  "crypto \<Rightarrow> (nat \<Rightarrow> string) \<Rightarrow> nat \<Rightarrow> time \<Rightarrow> string \<Rightarrow> nat \<Rightarrow> cred_state \<Rightarrow> db \<Rightarrow> db result" where
  "issue X rnd k now i gen st d =
     bind_result (store_credential X (rnd (k + 2)) (rnd (k + 3)) now i gen Hysteria st
                    (HysteriaSecret i (rnd k)) d)
       (store_credential X (rnd (k + 4)) (rnd (k + 5)) now i gen Xray st
          (XraySecret (rnd (k + 1)) (xray_email i gen)))"

text \<open>\<open>createJob\<close>: the partial unique index admits one open job per connection.\<close>

definition create_job ::
  "string \<Rightarrow> time \<Rightarrow> string \<Rightarrow> nat \<Rightarrow> nat option \<Rightarrow> sync_kind \<Rightarrow> string \<Rightarrow> db \<Rightarrow> db result" where
  "create_job new_id now i gen prev kind actor d =
     (if \<exists>j\<in>set (t_jobs d). j_id j = new_id \<or> (j_connection_id j = i \<and> job_open j)
      then Err constraint_error
      else Ok (d\<lparr>t_jobs := t_jobs d @
             [\<lparr>j_id = new_id, j_connection_id = i, j_generation = gen, j_previous_generation = prev,
               j_kind = kind, j_status = JPending, j_actor = actor, j_attempts = 0,
               j_next_attempt_at = now, j_last_error = None, j_created_at = now,
               j_updated_at = now, j_completed_at = None\<rparr>]\<rparr>))"

definition cancel_jobs :: "string \<Rightarrow> time \<Rightarrow> db \<Rightarrow> db" where
  "cancel_jobs i now d =
     d\<lparr>t_jobs := update_where (\<lambda>j. j_connection_id j = i \<and> job_open j)
          (\<lambda>j. j\<lparr>j_status := JCancelled, j_completed_at := Some now, j_updated_at := now\<rparr>) (t_jobs d)\<rparr>"

definition connection_entry :: "string \<Rightarrow> nat option \<Rightarrow> string \<Rightarrow> string \<Rightarrow> (string \<times> json) list \<Rightarrow> journal_entry" where
  "connection_entry actor aud i name extra =
     entry\<lparr>je_actor := Some actor, je_audit_id := aud, je_subject_type := Some ''connection'',
           je_subject_id := Some i, je_data := (''connectionName'', JStr name) # extra\<rparr>"

text \<open>The audit row and the event that follow a change of a connection.\<close>

definition log_connection ::
  "string \<Rightarrow> string \<Rightarrow> string \<Rightarrow> string \<Rightarrow> string \<Rightarrow> (string \<times> json) list \<Rightarrow> time \<Rightarrow> db \<Rightarrow> db result" where
  "log_connection action type actor i name extra now d =
     (case audit actor action ''connection'' (Some i) None now d of
        (aid, d') \<Rightarrow> record_event type (connection_entry actor (Some aid) i name extra) now d')"

section \<open>Operations\<close>

definition max_serial :: "connection list \<Rightarrow> nat" where
  "max_serial cs = foldr max (map c_serial cs) 0"

definition new_connection :: "crypto \<Rightarrow> string \<Rightarrow> nat \<Rightarrow> string \<Rightarrow> string \<Rightarrow> string \<Rightarrow> time \<Rightarrow> connection" where
  "new_connection X i serial name color avatar now =
     \<lparr>c_id = i, c_serial = serial, c_name = name, c_color = color, c_avatar = avatar,
      c_status = Provisioning, c_generation = 1,
      c_token_hash = Some (x_hash X (connection_token X i 1)), c_created_at = now,
      c_updated_at = now, c_activated_at = None, c_first_used_at = None, c_last_fetched_at = None,
      c_first_seen_at = None, c_last_seen_at = None, c_absence_notified_at = None,
      c_suspended_at = None, c_archived_at = None\<rparr>"

definition create_connection ::
  "crypto \<Rightarrow> (nat \<Rightarrow> string) \<Rightarrow> time \<Rightarrow> json \<Rightarrow> string \<Rightarrow> db \<Rightarrow> (connection \<times> db) result" where
  "create_connection X rnd now input actor d =
     bind_result (parse_create input) (\<lambda>(name, color, avatar).
       (let i = rnd 0;
            c = new_connection X i (Suc (max_serial (t_connections d))) name color avatar now
        in bind_result (insert_connection c d) (\<lambda>d1.
           bind_result (issue X rnd 1 now i 1 CredPending d1) (\<lambda>d2.
           bind_result (create_job (rnd 7) now i 1 None KActivate actor d2) (\<lambda>d3.
           bind_result (log_connection ''connections.create'' ''connection.created'' actor i name [] now d3) (\<lambda>d4.
           bind_result (get_connection i False d4) (\<lambda>c'. Ok (c', d4))))))))"

definition update_connection_details ::
  "time \<Rightarrow> string \<Rightarrow> json \<Rightarrow> string \<Rightarrow> db \<Rightarrow> (connection \<times> db) result" where
  "update_connection_details now i input actor d =
     bind_result (get_connection i False d) (\<lambda>before.
     bind_result (parse_update input) (\<lambda>(n, c, a).
       (let name = coalesce n (c_name before)
        in bind_result
             (log_connection ''connections.update'' ''connection.updated'' actor i name [] now
               (update_connection i (\<lambda>r. r\<lparr>c_name := name, c_color := coalesce c (c_color before),
                  c_avatar := coalesce a (c_avatar before), c_updated_at := now\<rparr>) d)) (\<lambda>d2.
           bind_result (get_connection i False d2) (\<lambda>c'. Ok (c', d2))))))"

definition prepare_rotation ::
  "crypto \<Rightarrow> (nat \<Rightarrow> string) \<Rightarrow> time \<Rightarrow> string \<Rightarrow> string \<Rightarrow> db \<Rightarrow> db result" where
  "prepare_rotation X rnd now i actor d =
     bind_result (get_connection i False d) (\<lambda>c.
       if c_status c \<noteq> Active \<or> c_suspended_at c \<noteq> None then Err (ServiceError 409)
       else (let gen = Suc (c_generation c); h = x_hash X (connection_token X i gen)
             in if \<not> token_free i h d then Err constraint_error
                else bind_result
                  (issue X rnd 0 now i gen CredPending
                    (update_connection i (\<lambda>r. r\<lparr>c_status := Rotating, c_generation := gen,
                       c_token_hash := Some h, c_activated_at := None, c_first_used_at := None,
                       c_last_fetched_at := None, c_updated_at := now\<rparr>) d))
                  (create_job (rnd 6) now i gen (Some (c_generation c)) KRotate actor)))"

definition prepare_suspend ::
  "(nat \<Rightarrow> string) \<Rightarrow> time \<Rightarrow> string \<Rightarrow> string \<Rightarrow> db \<Rightarrow> db result" where
  "prepare_suspend rnd now i actor d =
     bind_result (get_connection i False d) (\<lambda>c.
       if c_status c \<noteq> Active then Err (ServiceError 409)
       else (let d1 = update_connection i (\<lambda>r. r\<lparr>c_suspended_at := Some (coalesce (c_suspended_at r) now),
                         c_updated_at := now\<rparr>) (cancel_jobs i now d);
                 d2 = d1\<lparr>t_presence := delete_where (\<lambda>p. p_connection_id p = i) (t_presence d1)\<rparr>
             in create_job (rnd 0) now i (c_generation c) None KSuspend actor d2))"

definition prepare_resume ::
  "(nat \<Rightarrow> string) \<Rightarrow> time \<Rightarrow> string \<Rightarrow> string \<Rightarrow> db \<Rightarrow> db result" where
  "prepare_resume rnd now i actor d =
     bind_result (get_connection i False d) (\<lambda>c.
       if c_status c \<noteq> Active then Err (ServiceError 409)
       else if c_suspended_at c = None then Ok d
       else create_job (rnd 0) now i (c_generation c) None KResume actor (cancel_jobs i now d))"

definition complete_suspend :: "time \<Rightarrow> string \<Rightarrow> string \<Rightarrow> db \<Rightarrow> db result" where
  "complete_suspend now i actor d =
     bind_result (get_connection i False d) (\<lambda>c.
       log_connection ''connections.suspend'' ''connection.suspended'' actor i (c_name c) [] now d)"

definition complete_resume :: "time \<Rightarrow> string \<Rightarrow> string \<Rightarrow> db \<Rightarrow> db result" where
  "complete_resume now i actor d =
     bind_result (get_connection i False d) (\<lambda>c.
       log_connection ''connections.resume'' ''connection.resumed'' actor i (c_name c) [] now
         (update_connection i (\<lambda>r. r\<lparr>c_suspended_at := None, c_updated_at := now\<rparr>) d))"

definition prepare_archive ::
  "(nat \<Rightarrow> string) \<Rightarrow> time \<Rightarrow> string \<Rightarrow> string \<Rightarrow> db \<Rightarrow> db result" where
  "prepare_archive rnd now i actor d =
     bind_result (get_connection i False d) (\<lambda>c.
     bind_result
       (create_job (rnd 0) now i (c_generation c) None KRevoke actor
         (update_connection i (\<lambda>r. r\<lparr>c_status := Archiving, c_token_hash := None,
            c_archived_at := Some now, c_updated_at := now\<rparr>) (cancel_jobs i now d)))
       (log_connection ''connections.archive'' ''connection.archived'' actor i (c_name c) [] now))"

definition revoke_other_generations :: "time \<Rightarrow> string \<Rightarrow> nat \<Rightarrow> credential list \<Rightarrow> credential list" where
  "revoke_other_generations now i gen =
     update_where (\<lambda>r. cr_connection_id r = i \<and> cr_generation r \<noteq> gen \<and> cr_state r = CredActive)
       (\<lambda>r. r\<lparr>cr_state := CredRevoked, cr_revoked_at := Some now\<rparr>)"

definition activate_generation :: "time \<Rightarrow> string \<Rightarrow> nat \<Rightarrow> credential list \<Rightarrow> credential list" where
  "activate_generation now i gen =
     update_where (\<lambda>r. cr_connection_id r = i \<and> cr_generation r = gen \<and> cr_state r = CredPending)
       (\<lambda>r. r\<lparr>cr_state := CredActive, cr_activated_at := Some now, cr_revoked_at := None\<rparr>)"

definition complete_activation :: "time \<Rightarrow> string \<Rightarrow> nat \<Rightarrow> string \<Rightarrow> db \<Rightarrow> db result" where
  "complete_activation now i gen actor d =
     bind_result (get_connection i True d) (\<lambda>c.
       (let d1 = update_connection i (\<lambda>r. r\<lparr>c_status := Active, c_activated_at := Some now, c_updated_at := now\<rparr>)
                   (d\<lparr>t_credentials := activate_generation now i gen
                        (revoke_other_generations now i gen (t_credentials d))\<rparr>)
        in log_connection
             (if c_status c = Rotating then ''connections.rotate'' else ''connections.activate'')
             (if c_status c = Rotating then ''connection.rotated'' else ''connection.activated'')
             actor i (c_name c) [(''generation'', JNum (int gen))] now d1))"

definition revoke_all :: "time \<Rightarrow> string \<Rightarrow> credential list \<Rightarrow> credential list" where
  "revoke_all now i =
     update_where (\<lambda>r. cr_connection_id r = i \<and> cr_state r \<noteq> CredRevoked)
       (\<lambda>r. r\<lparr>cr_state := CredRevoked, cr_revoked_at := Some (coalesce (cr_revoked_at r) now)\<rparr>)"

definition complete_archive :: "time \<Rightarrow> string \<Rightarrow> string \<Rightarrow> db \<Rightarrow> db result" where
  "complete_archive now i actor d =
     bind_result (get_connection i True d) (\<lambda>c.
       Ok (snd (audit actor ''connections.revoke'' ''connection'' (Some i) None now
         (update_connection i (\<lambda>r. r\<lparr>c_status := Archived, c_updated_at := now\<rparr>)
            (d\<lparr>t_credentials := revoke_all now i (t_credentials d)\<rparr>)))))"

section \<open>Using a connection\<close>

definition connection_usable :: "connection \<Rightarrow> bool" where
  "connection_usable c \<longleftrightarrow> c_status c = Active \<and> c_suspended_at c = None \<and> c_archived_at c = None"

definition by_subscription_token :: "crypto \<Rightarrow> string \<Rightarrow> db \<Rightarrow> connection result" where
  "by_subscription_token X token d =
     (case select_one (\<lambda>c. c_token_hash c = Some (x_hash X token) \<and> connection_usable c) (t_connections d) of
        None \<Rightarrow> Err (ServiceError 404)
      | Some c \<Rightarrow> Ok c)"

definition mark_fetched :: "time \<Rightarrow> string \<Rightarrow> db \<Rightarrow> db result" where
  "mark_fetched now i d =
     bind_result (get_connection i False d) (\<lambda>c.
       (let d1 = update_connection i (\<lambda>r. r\<lparr>c_first_used_at := Some (coalesce (c_first_used_at r) now),
                     c_last_fetched_at := Some now, c_updated_at := now\<rparr>) d
        in if c_first_used_at c = None
           then record_event ''connection.first_used'' (connection_entry ''connection'' None i (c_name c) []) now d1
           else Ok d1))"

record credential_set =
  cs_connection_id :: string
  cs_serial :: nat
  cs_generation :: nat
  cs_hysteria :: secret
  cs_xray :: secret

definition decrypt_secret :: "crypto \<Rightarrow> secret_box \<Rightarrow> secret result" where
  "decrypt_secret X b = (case x_open X b of None \<Rightarrow> Err (Thrown ''decrypt'') | Some s \<Rightarrow> Ok s)"

definition credentials_of :: "crypto \<Rightarrow> string \<Rightarrow> nat option \<Rightarrow> db \<Rightarrow> credential_set result" where
  "credentials_of X i generation d =
     bind_result (get_connection i True d) (\<lambda>c.
       (let gen = coalesce generation (c_generation c);
            rows = filter (\<lambda>r. cr_connection_id r = i \<and> cr_generation r = gen \<and> cr_state r \<noteq> CredRevoked)
                     (t_credentials d)
        in case (find (\<lambda>r. cr_engine r = Hysteria) rows, find (\<lambda>r. cr_engine r = Xray) rows) of
             (Some h, Some x) \<Rightarrow>
               bind_result (decrypt_secret X (cr_box h)) (\<lambda>hs.
               bind_result (decrypt_secret X (cr_box x)) (\<lambda>xs.
                 Ok \<lparr>cs_connection_id = i, cs_serial = c_serial c, cs_generation = gen,
                     cs_hysteria = hs, cs_xray = xs\<rparr>))
           | _ \<Rightarrow> Err (ServiceError 409)))"

definition active_credentials :: "crypto \<Rightarrow> db \<Rightarrow> credential_set list result" where
  "active_credentials X d =
     map_result (\<lambda>c. credentials_of X (c_id c) None d)
       (filter (\<lambda>c. c_status c = Active \<and> c_suspended_at c = None) (list_connections False d))"

text \<open>The rows of the join: active Hysteria credentials of usable connections.\<close>

definition hysteria_rows :: "db \<Rightarrow> credential list" where
  "hysteria_rows d =
     filter (\<lambda>r. cr_engine r = Hysteria \<and> cr_state r = CredActive \<and>
                 (\<exists>c\<in>set (t_connections d). c_id c = cr_connection_id r \<and> connection_usable c))
       (t_credentials d)"

fun match_password :: "crypto \<Rightarrow> string \<Rightarrow> credential list \<Rightarrow> string option result" where
  "match_password X auth [] = Ok None"
| "match_password X auth (r # rs) =
     bind_result (decrypt_secret X (cr_box r)) (\<lambda>s.
       (case s of HysteriaSecret _ pw \<Rightarrow>
          (if pw = auth then Ok (Some (cr_connection_id r)) else match_password X auth rs)
        | XraySecret _ _ \<Rightarrow> match_password X auth rs))"

definition authenticate_hysteria :: "crypto \<Rightarrow> string \<Rightarrow> db \<Rightarrow> string option result" where
  "authenticate_hysteria X auth d = match_password X auth (hysteria_rows d)"

text \<open>
  \<open>subscription\<close>: the permanent link of an active connection (its token; the URL is the
  configured origin followed by it); the stored hash is rewritten.
\<close>

definition subscription :: "crypto \<Rightarrow> string \<Rightarrow> db \<Rightarrow> (string option \<times> db) result" where
  "subscription X i d =
     bind_result (get_connection i False d) (\<lambda>c.
       if c_status c \<noteq> Active then Ok (None, d)
       else (let token = connection_token X i (c_generation c); h = x_hash X token
             in if \<not> token_free i h d then Err constraint_error
                else Ok (Some token, update_connection i (\<lambda>r. r\<lparr>c_token_hash := Some h\<rparr>) d)))"

text \<open>
  \<open>withPresence\<close>: online wins over unknown, unknown over offline, over the installed
  engines; a suspended connection is offline.
\<close>

definition engine_presence :: "db \<Rightarrow> string \<Rightarrow> engine \<Rightarrow> presence_row option" where
  "engine_presence d i e =
     (if e \<in> set (installed_engines d)
      then select_one (\<lambda>p. p_connection_id p = i \<and> p_engine p = e) (t_presence d) else None)"

definition presence_of :: "connection \<Rightarrow> db \<Rightarrow> presence_status" where
  "presence_of c d =
     (let statuses = map (\<lambda>e. case engine_presence d (c_id c) e of None \<Rightarrow> Unknown | Some p \<Rightarrow> p_status p)
                       (installed_engines d)
      in if c_suspended_at c \<noteq> None then Offline
         else if Online \<in> set statuses then Online
         else if Unknown \<in> set statuses \<or> statuses = [] then Unknown
         else Offline)"

end
