(* ===== verification/Methods.thy ===== *)
theory Methods
  imports Connections
begin

text \<open>
  Connection methods (src/src/server/services/connection-methods.ts): the stored list of
  listeners, its migration, the defaults offered for a new method, and the requests that
  save, remove and reorder methods, with the invariant that no two listeners collide.
  The agent that applies an engine's configuration is a parameter, \<open>apply\<close>: it answers or
  fails for an engine and the methods it is given.
\<close>

section \<open>The stored list\<close>

definition managed_method :: "path_config \<Rightarrow> conn_method \<Rightarrow> conn_method" where
  "managed_method ps m =
     (if managed_edge (m_engine m)
      then m\<lparr>m_settings := (m_settings m)\<lparr>ms_port := 443, ms_path := Some (path_for ps (m_protocol m))\<rparr>\<rparr>
      else m)"

definition method_list :: "path_config \<Rightarrow> db \<Rightarrow> conn_method list" where
  "method_list ps d = map (managed_method ps) (coalesce (s_methods d) [])"

text \<open>\<open>migrate\<close>: \<open>order\<close> is the legacy setting \<open>engine_order\<close>, the engine ids when it is absent.\<close>

definition migration_order :: "string list option \<Rightarrow> engine list" where
  "migration_order order =
     rev (remdups (rev (List.map_filter is_engine (coalesce order (map engine_key engine_ids)) @ engine_ids)))"

definition migrate_methods :: "path_config \<Rightarrow> string list option \<Rightarrow> db \<Rightarrow> db" where
  "migrate_methods ps order d =
     (case s_methods d of
        Some _ \<Rightarrow> d
      | None \<Rightarrow> d\<lparr>s_methods := Some (default_methods (filter (\<lambda>e. has_engine e d) (migration_order order)) ps)\<rparr>)"

text \<open>Ports of the services behind the edge and of the engines' local APIs.\<close>

definition reserved_ports :: "nat list" where
  "reserved_ports = [8181, 8443, 10000, 10001, 9999, 10085, 9097, 10086]"

section \<open>Defaults for a new method\<close>

definition shares_network :: "network list \<Rightarrow> network list \<Rightarrow> bool" where
  "shares_network xs ys \<longleftrightarrow> (\<exists>x\<in>set xs. x \<in> set ys)"

text \<open>The loop \<open>while (taken port) port++\<close>; the taken ports are finitely many.\<close>

function free_port :: "nat list \<Rightarrow> nat \<Rightarrow> nat" where
  "free_port taken p = (if p \<in> set taken then free_port taken (Suc p) else p)"
  by pat_completeness auto

termination
proof (relation "measure (\<lambda>(taken, p). card {q \<in> set taken. p \<le> q})")
  fix taken :: "nat list" and p assume "p \<in> set taken"
  then have "{q \<in> set taken. Suc p \<le> q} \<subset> {q \<in> set taken. p \<le> q}"
  proof (intro psubsetI notI)
    assume "{q \<in> set taken. Suc p \<le> q} = {q \<in> set taken. p \<le> q}"
    with \<open>p \<in> set taken\<close> have "p \<in> {q \<in> set taken. Suc p \<le> q}" by simp
    then show False by simp
  qed force
  then show "((taken, Suc p), (taken, p)) \<in> measure (\<lambda>(taken, p). card {q \<in> set taken. p \<le> q})"
    by (simp add: psubset_card_mono)
qed simp

declare free_port.simps [simp del]

definition default_settings :: "path_config \<Rightarrow> engine \<Rightarrow> protocol \<Rightarrow> db \<Rightarrow> method_settings" where
  "default_settings ps e p d =
     (let s = method_settings_for e p ps;
          taken = reserved_ports @ map (\<lambda>m. ms_port (m_settings m))
            (filter (\<lambda>m. shares_network (method_networks m) (protocol_networks p)) (method_list ps d))
      in if \<not> managed_edge e \<and> \<not> singleton_engine e then s\<lparr>ms_port := free_port taken (ms_port s)\<rparr> else s)"

lemma free_port_free: "free_port taken p \<notin> set taken \<and> p \<le> free_port taken p \<and>
    (\<forall>q. p \<le> q \<and> q < free_port taken p \<longrightarrow> q \<in> set taken)"
proof (induction taken p rule: free_port.induct)
  case (1 taken p)
  show ?case
  proof (cases "p \<in> set taken")
    case True
    from 1 [OF True] show ?thesis
      by (subst (1 2 3) free_port.simps) (metis (full_types) Suc_leD True le_antisym not_less_eq_eq)
  next
    case False
    then show ?thesis by (subst (1 2 3) free_port.simps) auto
  qed
qed

section \<open>Input\<close>

definition is_control :: "char \<Rightarrow> bool" where
  "is_control c \<longleftrightarrow> code c < 32 \<or> 127 \<le> code c \<and> code c < 160"

definition is_protocol :: "string \<Rightarrow> protocol option" where
  "is_protocol s = find (\<lambda>p. protocol_key p = s)
     [Hysteria2, Xhttp, Grpc, AnyTLS, TrustTunnel, Naive, AmneziaWGProto]"

fun parse_settings :: "json option \<Rightarrow> method_settings option" where
  "parse_settings (Some (JObj kvs)) =
     (if list_all (\<lambda>(k, _). k \<in> {''port'', ''path'', ''fingerprint''}) kvs then
       (case (json_get ''port'' kvs, json_get ''path'' kvs, json_get ''fingerprint'' kvs) of
          (Some (JNum n), path, fp) \<Rightarrow>
            (if 1 \<le> n \<and> n \<le> 65535 \<and>
                (case path of None \<Rightarrow> True | Some (JStr s) \<Rightarrow> length s \<le> 180 | _ \<Rightarrow> False) \<and>
                (case fp of None \<Rightarrow> True
                 | Some (JStr s) \<Rightarrow> s \<in> {''chrome'', ''firefox'', ''safari'', ''none''} | _ \<Rightarrow> False)
             then Some \<lparr>ms_port = nat n,
                        ms_path = (case path of Some (JStr s) \<Rightarrow> Some s | _ \<Rightarrow> None),
                        ms_fingerprint = (case fp of Some (JStr s) \<Rightarrow> Some s | _ \<Rightarrow> None)\<rparr>
             else None)
        | _ \<Rightarrow> None)
      else None)"
| "parse_settings _ = None"

text \<open>\<open>methodInputSchema\<close>: the id and the time of the update are the caller's.\<close>

fun parse_method :: "string \<Rightarrow> time \<Rightarrow> json \<Rightarrow> conn_method option" where
  "parse_method i now (JObj kvs) =
     (if list_all (\<lambda>(k, _). k \<in> {''engine'', ''protocol'', ''name'', ''enabled'', ''settings''}) kvs then
       (case (json_get ''engine'' kvs, json_get ''protocol'' kvs, json_get ''name'' kvs,
              json_get ''enabled'' kvs, parse_settings (json_get ''settings'' kvs)) of
          (Some (JStr e), Some (JStr p), Some (JStr n), Some (JBool b), Some s) \<Rightarrow>
            (case (is_engine e, is_protocol p) of
               (Some eng, Some prot) \<Rightarrow>
                 (if 1 \<le> length (trim n) \<and> length (trim n) \<le> 80 \<and> list_all (\<lambda>c. \<not> is_control c) (trim n)
                  then Some \<lparr>m_id = i, m_engine = eng, m_protocol = prot, m_name = trim n,
                             m_enabled = b, m_settings = s, m_updated_at = now\<rparr>
                  else None)
             | _ \<Rightarrow> None)
        | _ \<Rightarrow> None)
      else None)"
| "parse_method i now _ = None"

section \<open>Validation\<close>

definition path_char :: "char \<Rightarrow> bool" where
  "path_char c \<longleftrightarrow> is_alnum c \<or> c = CHR ''_'' \<or> c = CHR ''.'' \<or> c = CHR ''-''"

definition xhttp_path_ok :: "string option \<Rightarrow> bool" where
  "xhttp_path_ok p = (case p of
      Some (c # s) \<Rightarrow> c = CHR ''/'' \<and> s \<noteq> [] \<and> list_all (\<lambda>c. path_char c \<or> c = CHR ''/'') s
    | _ \<Rightarrow> False)"

definition grpc_path_ok :: "string option \<Rightarrow> bool" where
  "grpc_path_ok p = (case p of Some s \<Rightarrow> s \<noteq> [] \<and> list_all path_char s | None \<Rightarrow> False)"

definition reserved_name :: "string \<Rightarrow> bool" where
  "reserved_name n \<longleftrightarrow> to_lower n \<in> {''proxy'', ''direct'', ''reject'', ''global''}"

abbreviation "port_of m \<equiv> ms_port (m_settings m)"
abbreviation "path_of m \<equiv> ms_path (m_settings m)"

text \<open>The checks of \<open>validate\<close> in their order; \<open>methods\<close> is the list with the new method in it.\<close>

definition validate_method :: "path_config \<Rightarrow> conn_method list \<Rightarrow> conn_method \<Rightarrow> db \<Rightarrow> unit result" where
  "validate_method ps methods m d =
     (let peers = filter (\<lambda>q. m_id q \<noteq> m_id m) methods;
          expected = method_settings_for (m_engine m) (m_protocol m) ps;
          managed = managed_edge (m_engine m)
      in if \<not> has_engine (m_engine m) d then Err (ServiceError 409)
         else if m_protocol m \<notin> set (engine_capabilities (m_engine m)) then Err (ServiceError 400)
         else if reserved_name (m_name m) then Err (ServiceError 400)
         else if \<exists>q\<in>set peers. to_lower (m_name q) = to_lower (m_name m) then Err (ServiceError 409)
         else if singleton_engine (m_engine m) \<and> (\<exists>q\<in>set peers. m_engine q = m_engine m) \<or>
                 managed \<and> (\<exists>q\<in>set peers. m_engine q = m_engine m \<and> m_protocol q = m_protocol m)
              then Err (ServiceError 409)
         else if managed \<and> (port_of m \<noteq> ms_port expected \<or> path_of m \<noteq> ms_path expected)
              then Err (ServiceError 400)
         else if \<not> managed \<and> port_of m < 1024 \<and> \<not> (m_engine m = Hysteria \<and> port_of m = 443)
              then Err (ServiceError 400)
         else if port_of m \<in> set reserved_ports then Err (ServiceError 409)
         else if m_protocol m = Xhttp \<and> \<not> xhttp_path_ok (path_of m) then Err (ServiceError 400)
         else if m_protocol m = Grpc \<and> \<not> grpc_path_ok (path_of m) then Err (ServiceError 400)
         else if path_of m \<notin> {None, Some []} \<and> m_protocol m \<notin> {Xhttp, Grpc} then Err (ServiceError 400)
         else if m_enabled m \<and> (\<exists>q\<in>set peers. m_enabled q \<and> port_of q = port_of m \<and>
                   shares_network (method_networks q) (method_networks m) \<and>
                   \<not> (managed_edge (m_engine q) \<and> managed))
              then Err (ServiceError 409)
         else Ok ())"

section \<open>Requests\<close>

type_synonym applier = "engine \<Rightarrow> conn_method list \<Rightarrow> unit result"

text \<open>
  \<open>commit\<close>: the engine's new configuration is applied first; when the transaction that
  stores the list fails, the old configuration is applied again and the error is rethrown.
\<close>

definition store_methods ::
  "conn_method list \<Rightarrow> string \<Rightarrow> engine option \<Rightarrow> time \<Rightarrow> db \<Rightarrow> db result" where
  "store_methods next actor e now d =
     (case audit actor (if e = None then ''methods.reorder'' else ''methods.configure'')
             ''connection_methods'' None None now (d\<lparr>s_methods := Some next\<rparr>) of
        (aid, d') \<Rightarrow> record_event (if e = None then ''method.reordered'' else ''method.configured'')
          (entry\<lparr>je_actor := Some actor, je_audit_id := Some aid,
                 je_source := Some (case e of None \<Rightarrow> ''engines'' | Some g \<Rightarrow> engine_key g),
                 je_subject_type := Some ''connection_methods'',
                 je_data := (case e of None \<Rightarrow> [] | Some g \<Rightarrow> [(''engine'', JStr (engine_key g))])
                              @ [(''count'', JNum (int (length next)))]\<rparr>) now d')"

definition commit_methods ::
  "applier \<Rightarrow> conn_method list \<Rightarrow> conn_method list \<Rightarrow> string \<Rightarrow> engine option \<Rightarrow> time \<Rightarrow> db \<Rightarrow> db result" where
  "commit_methods apply before next actor e now d =
     bind_result (case e of None \<Rightarrow> Ok () | Some g \<Rightarrow> apply g next) (\<lambda>_.
       (case store_methods next actor e now d of
          Ok d' \<Rightarrow> Ok d'
        | Err x \<Rightarrow> bind_result (case e of None \<Rightarrow> Ok () | Some g \<Rightarrow> apply g before) (\<lambda>_. Err x)))"

text \<open>\<open>save\<close>: an empty id, like an absent one, makes a new method.\<close>

definition save_method ::
  "path_config \<Rightarrow> applier \<Rightarrow> string \<Rightarrow> time \<Rightarrow> json \<Rightarrow> string \<Rightarrow> string \<Rightarrow> db \<Rightarrow> (conn_method \<times> db) result" where
  "save_method ps apply uuid now value actor i d =
     (let before = method_list ps d;
          previous = (if i = [] then None else find (\<lambda>m. m_id m = i) before)
      in (case parse_method (case previous of None \<Rightarrow> uuid | Some q \<Rightarrow> m_id q) now value of
            None \<Rightarrow> Err (ServiceError 400)
          | Some m \<Rightarrow>
              if i \<noteq> [] \<and> previous = None then Err (ServiceError 404)
              else if (case previous of None \<Rightarrow> False
                       | Some q \<Rightarrow> m_engine q \<noteq> m_engine m \<or> m_protocol q \<noteq> m_protocol m)
                   then Err (ServiceError 400)
              else (let next = (case previous of None \<Rightarrow> before @ [m]
                                | Some q \<Rightarrow> map (\<lambda>r. if m_id r = m_id q then m else r) before)
                    in bind_result (validate_method ps next m d) (\<lambda>_.
                       bind_result (commit_methods apply before next actor (Some (m_engine m)) now d) (\<lambda>d'.
                         Ok (m, d'))))))"

definition remove_method :: "path_config \<Rightarrow> applier \<Rightarrow> time \<Rightarrow> string \<Rightarrow> string \<Rightarrow> db \<Rightarrow> db result" where
  "remove_method ps apply now i actor d =
     (let before = method_list ps d
      in (case find (\<lambda>m. m_id m = i) before of
            None \<Rightarrow> Err (ServiceError 404)
          | Some m \<Rightarrow> commit_methods apply before (filter (\<lambda>r. m_id r \<noteq> i) before) actor (Some (m_engine m)) now d))"

definition reorder_methods :: "path_config \<Rightarrow> applier \<Rightarrow> time \<Rightarrow> json \<Rightarrow> string \<Rightarrow> db \<Rightarrow> (conn_method list \<times> db) result" where
  "reorder_methods ps apply now value actor d =
     (let before = method_list ps d
      in case value of
           JArr vs \<Rightarrow>
             if length vs \<noteq> length before \<or> \<not> distinct vs \<or>
                (\<exists>v\<in>set vs. \<forall>m\<in>set before. v \<noteq> JStr (m_id m))
             then Err (ServiceError 400)
             else (let next = List.map_filter (\<lambda>v. find (\<lambda>m. v = JStr (m_id m)) before) vs
                   in bind_result (commit_methods apply before next actor None now d) (\<lambda>d'. Ok (next, d')))
         | _ \<Rightarrow> Err (ServiceError 400))"

section \<open>No two listeners collide\<close>

text \<open>Two methods of the list can run beside each other.\<close>

definition method_pair_ok :: "conn_method \<Rightarrow> conn_method \<Rightarrow> bool" where
  "method_pair_ok p q \<longleftrightarrow>
     to_lower (m_name p) \<noteq> to_lower (m_name q) \<and>
     (m_engine p = m_engine q \<longrightarrow> \<not> singleton_engine (m_engine p)) \<and>
     (m_engine p = m_engine q \<and> m_protocol p = m_protocol q \<longrightarrow> \<not> managed_edge (m_engine p)) \<and>
     (m_enabled p \<and> m_enabled q \<and> port_of p = port_of q \<and> shares_network (method_networks p) (method_networks q)
        \<longrightarrow> managed_edge (m_engine p) \<and> managed_edge (m_engine q))"

definition method_ok :: "path_config \<Rightarrow> conn_method \<Rightarrow> bool" where
  "method_ok ps m \<longleftrightarrow>
     m_protocol m \<in> set (engine_capabilities (m_engine m)) \<and> \<not> reserved_name (m_name m) \<and>
     port_of m \<notin> set reserved_ports \<and> managed_method ps m = m \<and>
     (port_of m \<ge> 1024 \<or> port_of m = 443 \<and> m_engine m \<in> {Hysteria, Xray})"

definition methods_ok :: "path_config \<Rightarrow> conn_method list \<Rightarrow> bool" where
  "methods_ok ps ms \<longleftrightarrow>
     distinct (map m_id ms) \<and> (\<forall>m\<in>set ms. method_ok ps m) \<and>
     (\<forall>p\<in>set ms. \<forall>q\<in>set ms. m_id p \<noteq> m_id q \<longrightarrow> method_pair_ok p q)"

lemma shares_network_sym: "shares_network xs ys = shares_network ys xs"
  by (auto simp: shares_network_def)

lemma method_pair_sym: "method_pair_ok p q = method_pair_ok q p"
  unfolding method_pair_ok_def shares_network_sym [of "method_networks p"] by metis

lemma methods_ok_list:
  assumes "methods_ok ps ms" and "s_methods d = Some ms"
  shows "method_list ps d = ms"
  using assms by (auto simp: method_list_def methods_ok_def method_ok_def intro: map_idI)

lemma methods_ok_subset:
  "methods_ok ps ms \<Longrightarrow> set ns \<subseteq> set ms \<Longrightarrow> distinct (map m_id ns) \<Longrightarrow> methods_ok ps ns"
  unfolding methods_ok_def by blast

text \<open>A validated method may join the others.\<close>

lemma validate_method_ok:
  assumes "validate_method ps ms m d = Ok u"
  shows "method_ok ps m \<and> (\<forall>q\<in>set ms. m_id q \<noteq> m_id m \<longrightarrow> method_pair_ok q m) \<and> has_engine (m_engine m) d"
proof -
  let ?peers = "filter (\<lambda>q. m_id q \<noteq> m_id m) ms"
  let ?e = "method_settings_for (m_engine m) (m_protocol m) ps"
  note v = assms [unfolded validate_method_def Let_def guard_Ok]
  have cap: "has_engine (m_engine m) d" "m_protocol m \<in> set (engine_capabilities (m_engine m))"
      "\<not> reserved_name (m_name m)" "port_of m \<notin> set reserved_ports" using v by blast+
  have names: "\<forall>q\<in>set ?peers. to_lower (m_name q) \<noteq> to_lower (m_name m)" using v by blast
  have single: "singleton_engine (m_engine m) \<longrightarrow> (\<forall>q\<in>set ?peers. m_engine q \<noteq> m_engine m)"
    and edge: "managed_edge (m_engine m) \<longrightarrow> (\<forall>q\<in>set ?peers. m_engine q = m_engine m \<longrightarrow> m_protocol q \<noteq> m_protocol m)"
    using v by blast+
  have managed: "managed_edge (m_engine m) \<Longrightarrow> port_of m = ms_port ?e \<and> path_of m = ms_path ?e" using v by blast
  have ports: "\<not> managed_edge (m_engine m) \<Longrightarrow> \<not> port_of m < 1024 \<or> m_engine m = Hysteria \<and> port_of m = 443"
    using v by blast
  have free: "m_enabled m \<longrightarrow> (\<forall>q\<in>set ?peers. m_enabled q \<and> port_of q = port_of m \<and>
        shares_network (method_networks q) (method_networks m) \<longrightarrow> managed_edge (m_engine q) \<and> managed_edge (m_engine m))"
    using v by blast
  have "managed_method ps m = m \<and> (port_of m \<ge> 1024 \<or> port_of m = 443 \<and> m_engine m \<in> {Hysteria, Xray})"
  proof (cases "managed_edge (m_engine m)")
    case True
    then have x: "m_engine m = Xray" by (simp add: managed_edge_def)
    with cap(2) have p: "m_protocol m = Xhttp \<or> m_protocol m = Grpc" by auto
    from managed [OF True] x p have "port_of m = 443" "path_of m = Some (path_for ps (m_protocol m))"
      by (auto simp: method_settings_for_def field_path_def)
    then have "(m_settings m)\<lparr>ms_port := 443, ms_path := Some (path_for ps (m_protocol m))\<rparr> = m_settings m" by simp
    with x \<open>port_of m = 443\<close> show ?thesis by (simp add: managed_method_def managed_edge_def)
  next
    case False
    with ports show ?thesis by (auto simp: managed_method_def)
  qed
  with cap have "method_ok ps m" by (simp add: method_ok_def)
  moreover have "method_pair_ok q m" if "q \<in> set ms" "m_id q \<noteq> m_id m" for q
    using that names single edge free unfolding method_pair_ok_def by auto
  ultimately show ?thesis using cap(1) by blast
qed

lemma store_methods_Ok:
  assumes "store_methods next actor e now d = Ok d'"
  shows "s_methods d' = Some next \<and> t_engine_versions d' = t_engine_versions d"
proof -
  from assms obtain a b c x ty ev where "record_event ty ev now (snd (audit a b c None None now (d\<lparr>s_methods := Some next\<rparr>))) = Ok d'"
    unfolding store_methods_def by (auto simp: case_prod_beta)
  from record_event_data [OF this] have "data_of d' = data_of (d\<lparr>s_methods := Some next\<rparr>)" by simp
  from data_of_fields [OF this] show ?thesis by simp
qed


lemma commit_methods_Ok:
  assumes "commit_methods apply before next actor e now d = Ok d'"
  shows "s_methods d' = Some next \<and> t_engine_versions d' = t_engine_versions d"
  using assms store_methods_Ok unfolding commit_methods_def by (auto split: sum.splits)

lemma map_replace_ids:
  assumes "m_id m = i" shows "map m_id (map (\<lambda>r. if m_id r = i then m else r) ms) = map m_id ms"
  using assms by auto

lemma save_method_Ok:
  assumes inv: "methods_ok ps (method_list ps d)" and fresh: "\<forall>m\<in>set (method_list ps d). m_id m \<noteq> uuid"
    and ok: "save_method ps apply uuid now value actor i d = Ok (m, d')"
  shows "methods_ok ps (method_list ps d') \<and> m \<in> set (method_list ps d') \<and>
         (\<forall>q. m_id q \<noteq> m_id m \<longrightarrow> q \<in> set (method_list ps d') \<longleftrightarrow> q \<in> set (method_list ps d))"
proof -
  let ?before = "method_list ps d"
  let ?prev = "if i = [] then None else find (\<lambda>m. m_id m = i) ?before"
  from ok obtain nx where nx: "nx = (case ?prev of None \<Rightarrow> ?before @ [m] | Some q \<Rightarrow> map (\<lambda>r. if m_id r = m_id q then m else r) ?before)"
    and parse: "parse_method (case ?prev of None \<Rightarrow> uuid | Some q \<Rightarrow> m_id q) now value = Some m"
    and val: "is_ok (validate_method ps nx m d)"
    and com: "commit_methods apply ?before nx actor (Some (m_engine m)) now d = Ok d'"
    unfolding save_method_def Let_def by (auto split: option.splits if_splits)
  have id: "m_id m = (case ?prev of None \<Rightarrow> uuid | Some q \<Rightarrow> m_id q)"
    using parse by (cases "value") (auto split: if_splits option.splits json.splits)
  from val obtain u where "validate_method ps nx m d = Ok u" by (cases "validate_method ps nx m d") auto
  note v = validate_method_ok [OF this]
  have mem: "m \<in> set nx"
  proof (cases "?prev")
    case (Some q)
    then have "q \<in> set ?before" "m_id q = i" by (auto split: if_splits dest!: find_SomeD)
    then show ?thesis unfolding nx Some by force
  qed (simp add: nx)
  have others: "q \<in> set nx \<longleftrightarrow> q \<in> set ?before" if "m_id q \<noteq> m_id m" for q
    using that id unfolding nx by (cases "?prev") auto
  have dist: "distinct (map m_id nx)"
  proof (cases "?prev")
    case None
    with id fresh inv show ?thesis unfolding nx by (auto simp: methods_ok_def)
  next
    case (Some q)
    then have "map m_id nx = map m_id ?before" using id map_replace_ids [of m "m_id q"] unfolding nx by simp
    with inv show ?thesis by (simp add: methods_ok_def)
  qed
  have only: "q = m" if "q \<in> set nx" "m_id q = m_id m" for q
    using dist that mem by (metis distinct_key_unique)
  have "methods_ok ps nx"
    unfolding methods_ok_def
  proof (intro conjI ballI impI)
    fix q assume q: "q \<in> set nx"
    show "method_ok ps q"
    proof (cases "m_id q = m_id m")
      case True with only q v show ?thesis by blast
    next
      case False with others q inv show ?thesis by (auto simp: methods_ok_def)
    qed
  next
    fix p q assume pq: "p \<in> set nx" "q \<in> set nx" "m_id p \<noteq> m_id q"
    consider "m_id p = m_id m" | "m_id q = m_id m" | "m_id p \<noteq> m_id m" "m_id q \<noteq> m_id m" by blast
    then show "method_pair_ok p q"
    proof cases
      case 1 with only pq v show ?thesis by (metis method_pair_sym)
    next
      case 2 with only pq v show ?thesis by metis
    next
      case 3 with others pq inv show ?thesis unfolding methods_ok_def by blast
    qed
  qed (rule dist)
  with commit_methods_Ok [OF com] methods_ok_list have "method_list ps d' = nx" "methods_ok ps nx" by blast+
  with mem others show ?thesis by simp
qed

lemma remove_method_Ok:
  assumes inv: "methods_ok ps (method_list ps d)" and ok: "remove_method ps apply now i actor d = Ok d'"
  shows "methods_ok ps (method_list ps d') \<and> method_list ps d' = filter (\<lambda>m. m_id m \<noteq> i) (method_list ps d)"
proof -
  from ok obtain m where "find (\<lambda>m. m_id m = i) (method_list ps d) = Some m"
    and com: "commit_methods apply (method_list ps d) (filter (\<lambda>r. m_id r \<noteq> i) (method_list ps d)) actor
      (Some (m_engine m)) now d = Ok d'"
    unfolding remove_method_def Let_def by (auto split: option.splits)
  have "methods_ok ps (filter (\<lambda>r. m_id r \<noteq> i) (method_list ps d))"
  proof (rule methods_ok_subset [OF inv])
    show "distinct (map m_id (filter (\<lambda>r. m_id r \<noteq> i) (method_list ps d)))"
      using inv unfolding methods_ok_def by (intro distinct_map_filter) blast
  qed simp
  moreover from this commit_methods_Ok [OF com] methods_ok_list
  have "method_list ps d' = filter (\<lambda>r. m_id r \<noteq> i) (method_list ps d)" by blast
  ultimately show ?thesis by simp
qed

lemma map_filter_find:
  assumes "distinct (map m_id ms)" and "distinct vs" and "length vs = length ms"
    and "\<forall>v\<in>set vs. \<exists>m\<in>set ms. v = JStr (m_id m)"
  shows "mset (List.map_filter (\<lambda>v. find (\<lambda>m. v = JStr (m_id m)) ms) vs) = mset ms"
proof -
  let ?f = "\<lambda>v. the (find (\<lambda>m. v = JStr (m_id m)) ms)"
  have f: "find (\<lambda>m. v = JStr (m_id m)) ms = Some (?f v) \<and> ?f v \<in> set ms \<and> v = JStr (m_id (?f v))" if "v \<in> set vs" for v
  proof -
    from assms(4) that have "find (\<lambda>m. v = JStr (m_id m)) ms \<noteq> None" by (auto simp: find_None_iff)
    then obtain m where "find (\<lambda>m. v = JStr (m_id m)) ms = Some m" by blast
    with select_one_Some [unfolded select_one_def, OF this] show ?thesis by simp
  qed
  then have eq: "List.map_filter (\<lambda>v. find (\<lambda>m. v = JStr (m_id m)) ms) vs = map ?f vs"
    by (intro map_filter_total) blast
  have "inj_on ?f (set vs)" using f by (intro inj_onI) metis
  with assms(2) have dist: "distinct (map ?f vs)" by (simp add: distinct_map)
  have sub: "set (map ?f vs) \<subseteq> set ms" using f by auto
  have "card (set (map ?f vs)) = length ms" using dist assms(3) by (simp add: distinct_card del: set_map)
  moreover have "card (set ms) = length ms" using assms(1) by (simp add: distinct_map distinct_card)
  ultimately have "set (map ?f vs) = set ms" using sub by (intro card_subset_eq) auto
  with dist assms(1) show ?thesis unfolding eq by (metis distinct_map set_eq_iff_mset_eq_distinct)
qed

lemma reorder_methods_Ok:
  assumes inv: "methods_ok ps (method_list ps d)" and ok: "reorder_methods ps apply now value actor d = Ok (ms, d')"
  shows "methods_ok ps (method_list ps d') \<and> method_list ps d' = ms \<and> mset ms = mset (method_list ps d) \<and>
         value = JArr (map (\<lambda>m. JStr (m_id m)) ms)"
proof -
  let ?before = "method_list ps d"
  from ok obtain vs where valq: "value = JArr vs"
    and vs: "length vs = length ?before" "distinct vs" "\<forall>v\<in>set vs. \<exists>m\<in>set ?before. v = JStr (m_id m)"
    and ms: "ms = List.map_filter (\<lambda>v. find (\<lambda>m. v = JStr (m_id m)) ?before) vs"
    and com: "commit_methods apply ?before ms actor None now d = Ok d'"
    unfolding reorder_methods_def Let_def by (auto split: json.splits if_splits)
  have mset: "mset ms = mset ?before"
    unfolding ms by (rule map_filter_find) (use inv vs in \<open>auto simp: methods_ok_def\<close>)
  have msok: "methods_ok ps ms"
  proof (rule methods_ok_subset [OF inv])
    show "set ms \<subseteq> set ?before" using mset_eq_setD [OF mset] by simp
    have "mset (map m_id ms) = mset (map m_id ?before)" using mset by simp
    from mset_eq_imp_distinct_iff [OF this] inv show "distinct (map m_id ms)" unfolding methods_ok_def by blast
  qed
  have "vs = map (\<lambda>m. JStr (m_id m)) ms"
    unfolding ms using vs(3)
  proof (induction vs)
    case (Cons v vs)
    then have "find (\<lambda>m. v = JStr (m_id m)) ?before \<noteq> None" by (auto simp: find_None_iff)
    then obtain m where m: "find (\<lambda>m. v = JStr (m_id m)) ?before = Some m" by blast
    with select_one_Some [unfolded select_one_def, OF m] Cons show ?case by (simp add: List.map_filter_simps)
  qed (simp add: List.map_filter_simps)
  moreover have "method_list ps d' = ms"
    using msok commit_methods_Ok [OF com] methods_ok_list by blast
  ultimately show ?thesis using msok mset valq by simp
qed


section \<open>The default methods\<close>

definition default_pairs :: "engine list \<Rightarrow> (engine \<times> protocol) list" where
  "default_pairs order = concat (map (\<lambda>e. map (Pair e) (engine_protocols e)) order)"

lemma default_methods_pairs: "default_methods order ps = map (\<lambda>(e, p). default_method ps e p) (default_pairs order)"
  by (simp add: default_methods_def default_pairs_def map_concat comp_def)

lemma default_pairs_in: "(e, p) \<in> set (default_pairs order) \<Longrightarrow> p \<in> set (engine_protocols e)"
  by (auto simp: default_pairs_def)

lemma distinct_default_pairs: "distinct order \<Longrightarrow> distinct (default_pairs order)"
proof (induction order)
  case (Cons e order)
  have "distinct (engine_protocols e)" by (cases e) auto
  with Cons show ?case by (auto simp: default_pairs_def distinct_map inj_on_def)
qed (simp add: default_pairs_def)

lemma protocol_engine_unique:
  "p \<in> set (engine_protocols e) \<Longrightarrow> e = default_engine p"
  by (cases e; cases p) auto

lemma default_method_simps [simp]:
  "m_engine (default_method ps e p) = e" "m_protocol (default_method ps e p) = p"
  "m_name (default_method ps e p) = protocol_name p" "m_settings (default_method ps e p) = method_settings_for e p ps"
  "m_enabled (default_method ps e p)"
  "m_id (default_method ps e p) = engine_key e @ ''-'' @ protocol_key p"
  by (simp_all add: default_method_def)

fun name_codes :: "protocol \<Rightarrow> nat list" where
  "name_codes Hysteria2 = [104,121,115,116,101,114,105,97,32,50]"
| "name_codes Xhttp = [118,108,101,115,115,32,120,104,116,116,112]"
| "name_codes Grpc = [118,108,101,115,115,32,103,114,112,99]"
| "name_codes AnyTLS = [97,110,121,116,108,115]"
| "name_codes TrustTunnel = [116,114,117,115,116,116,117,110,110,101,108]"
| "name_codes Naive = [110,97,105,118,101]"
| "name_codes AmneziaWGProto = [97,109,110,101,122,105,97,119,103,32,51,46,49]"

lemma name_codes: "map code (to_lower (protocol_name p)) = name_codes p"
  by (cases p) (simp_all add: to_lower_def code_lower_char is_upper_def)

lemma lower_names: "to_lower (protocol_name p) = to_lower (protocol_name q) \<longleftrightarrow> p = q"
proof
  assume "to_lower (protocol_name p) = to_lower (protocol_name q)"
  then have "name_codes p = name_codes q" by (metis name_codes)
  then show "p = q" by (cases p; cases q) simp_all
qed simp

lemma default_method_ok:
  assumes "p \<in> set (engine_protocols e)"
  shows "method_ok ps (default_method ps e p)"
proof -
  have e: "e = default_engine p" using protocol_engine_unique [OF assms] .
  have "\<not> reserved_name (protocol_name p)"
  proof
    assume "reserved_name (protocol_name p)"
    then have "map code (to_lower (protocol_name p)) \<in> (map code ` {''proxy'', ''direct'', ''reject'', ''global''})"
      unfolding reserved_name_def by (rule imageI)
    then show False unfolding name_codes by (cases p) simp_all
  qed
  moreover have "managed_method ps (default_method ps e p) = default_method ps e p"
    unfolding e by (cases p) (simp_all add: managed_method_def managed_edge_def method_settings_for_def field_path_def default_method_def)
  ultimately show ?thesis
    unfolding method_ok_def e by (cases p) (simp_all add: method_settings_for_def reserved_ports_def field_path_def)
qed

lemma default_pair_ok:
  assumes "p \<in> set (engine_protocols e)" and "q \<in> set (engine_protocols f)" and "p \<noteq> q"
  shows "method_pair_ok (default_method ps e p) (default_method ps f q)"
proof -
  have "e = default_engine p" "f = default_engine q" using protocol_engine_unique assms(1,2) by blast+
  moreover have "to_lower (protocol_name p) \<noteq> to_lower (protocol_name q)" using assms(3) lower_names by blast
  ultimately show ?thesis
    using assms(3) unfolding method_pair_ok_def
    by (cases p; cases q) (simp_all add: method_settings_for_def singleton_engine_def managed_edge_def
        method_networks_def shares_network_def)
qed

lemma default_methods_ok:
  assumes "distinct order"
  shows "methods_ok ps (default_methods order ps)"
proof -
  have id: "m_id (default_method ps e p) = m_id (default_method ps f q) \<longleftrightarrow> p = q"
    if "p \<in> set (engine_protocols e)" "q \<in> set (engine_protocols f)" for e f p q
  proof -
    have "e = default_engine p" "f = default_engine q" using protocol_engine_unique that by blast+
    then show ?thesis by (cases p; cases q) simp_all
  qed
  have "distinct (map m_id (default_methods order ps))"
    unfolding default_methods_pairs map_map distinct_map
  proof (intro conjI distinct_default_pairs assms inj_onI)
    fix x y assume xy: "x \<in> set (default_pairs order)" "y \<in> set (default_pairs order)"
      and eq: "(m_id \<circ> (\<lambda>(e, p). default_method ps e p)) x = (m_id \<circ> (\<lambda>(e, p). default_method ps e p)) y"
    obtain e p f q where "x = (e, p)" "y = (f, q)" by (cases x; cases y)
    with xy default_pairs_in have p: "x = (e, p)" "y = (f, q)" "p \<in> set (engine_protocols e)" "q \<in> set (engine_protocols f)" by blast+
    with eq id [OF p(3,4)] have "p = q" by (simp only: comp_apply prod.case)
    with p protocol_engine_unique show "x = y" by metis
  qed
  moreover have "\<forall>m\<in>set (default_methods order ps). method_ok ps m"
    unfolding default_methods_pairs using default_method_ok default_pairs_in by fastforce
  moreover have "method_pair_ok m n" if mn: "m \<in> set (default_methods order ps)" "n \<in> set (default_methods order ps)" "m_id m \<noteq> m_id n" for m n
  proof -
    from mn obtain x y where xy: "x \<in> set (default_pairs order)" "y \<in> set (default_pairs order)"
        "m = (\<lambda>(e, p). default_method ps e p) x" "n = (\<lambda>(e, p). default_method ps e p) y"
      unfolding default_methods_pairs set_map by blast
    obtain e p f q where "x = (e, p)" "y = (f, q)" by (cases x; cases y)
    with xy default_pairs_in have pq: "m = default_method ps e p" "n = default_method ps f q"
        "p \<in> set (engine_protocols e)" "q \<in> set (engine_protocols f)" by auto
    with mn(3) id [OF pq(3,4)] have "p \<noteq> q" by blast
    with pq default_pair_ok show ?thesis by blast
  qed
  ultimately show ?thesis unfolding methods_ok_def by blast
qed

section \<open>Every sequence of requests\<close>

inductive method_step :: "path_config \<Rightarrow> db \<Rightarrow> db \<Rightarrow> bool" for ps where
  save: "save_method ps ap uuid now v actor i d = Ok (m, d') \<Longrightarrow>
           \<forall>m\<in>set (method_list ps d). m_id m \<noteq> uuid \<Longrightarrow> method_step ps d d'"
| remove: "remove_method ps ap now i actor d = Ok d' \<Longrightarrow> method_step ps d d'"
| reorder: "reorder_methods ps ap now v actor d = Ok (ms, d') \<Longrightarrow> method_step ps d d'"
| other: "s_methods d' = s_methods d \<Longrightarrow> method_step ps d d'"

lemma method_step_ok: "method_step ps d d' \<Longrightarrow> methods_ok ps (method_list ps d) \<Longrightarrow> methods_ok ps (method_list ps d')"
proof (induction rule: method_step.induct)
  case (save ap uuid now v actor i d m d')
  then show ?case using save_method_Ok by blast
next
  case (remove ap now i actor d d')
  then show ?case using remove_method_Ok by blast
next
  case (reorder ap now v actor d ms d')
  then show ?case using reorder_methods_Ok by blast
next
  case (other d' d)
  then show ?case by (simp add: method_list_def)
qed

text \<open>
  C11.  From a fresh installation on, whatever methods are saved, removed and reordered and
  whatever the other services write, the listeners never collide: ids and names are unique,
  no two enabled methods listen on the same port and network except behind the shared HTTPS
  edge, Hysteria and AmneziaWG have one listener each, every method is one its engine
  supports, and none uses a reserved port or an unprivileged one.
\<close>

theorem methods_never_collide:
  assumes "s_methods d = None" and "(method_step ps)\<^sup>*\<^sup>* (migrate_methods ps order d) d'"
  shows "methods_ok ps (method_list ps d')"
  using assms(2)
proof (induction rule: rtranclp_induct)
  case base
  have ok: "methods_ok ps (default_methods (filter (\<lambda>e. has_engine e d) (migration_order order)) ps)"
    by (rule default_methods_ok) (simp add: migration_order_def)
  moreover have "s_methods (migrate_methods ps order d) = Some (default_methods (filter (\<lambda>e. has_engine e d) (migration_order order)) ps)"
    using assms(1) by (simp add: migrate_methods_def)
  ultimately show ?case using methods_ok_list by metis
next
  case (step d1 d2)
  then show ?case using method_step_ok by blast
qed

lemma methods_never_collide_witness:
  "\<exists>d'. reorder_methods \<lparr>xhttp_path = ''/x'', grpc_service = ''g''\<rparr> (\<lambda>e ms. Ok ()) 5 (JArr []) ''owner''
          (migrate_methods \<lparr>xhttp_path = ''/x'', grpc_service = ''g''\<rparr> None empty_db) = Ok ([], d') \<and>
        methods_ok \<lparr>xhttp_path = ''/x'', grpc_service = ''g''\<rparr> (method_list \<lparr>xhttp_path = ''/x'', grpc_service = ''g''\<rparr> d')"
proof -
  let ?ps = "\<lparr>xhttp_path = ''/x'', grpc_service = ''g''\<rparr>"
  let ?d = "migrate_methods ?ps None empty_db"
  have "\<not> has_engine e empty_db" for e by (simp add: has_engine_def engine_version_of_def versions_def empty_db_def)
  then have empty: "method_list ?ps ?d = []"
    by (simp add: method_list_def migrate_methods_def empty_db_def default_methods_def)
  have "''method.reordered'' \<in> fst ` set definitions"
    unfolding definitions_def list.set image_insert fst_conv by ((rule insertI1 | rule insertI2)+)
  then obtain d' where "store_methods [] ''owner'' None 5 ?d = Ok d'"
    using record_event_known unfolding store_methods_def case_prod_beta if_P [OF refl] by metis
  then have ok: "reorder_methods ?ps (\<lambda>e ms. Ok ()) 5 (JArr []) ''owner'' ?d = Ok ([], d')"
    by (simp add: reorder_methods_def empty commit_methods_def List.map_filter_simps)
  have "(method_step ?ps)\<^sup>*\<^sup>* ?d d'" using method_step.reorder [OF ok] by blast
  from methods_never_collide [OF _ this] ok show ?thesis by (auto simp: empty_db_def)
qed

text \<open>
  The port offered for a new method is the first free one from the engine's default on.
\<close>

lemma default_settings_port:
  "\<not> managed_edge e \<Longrightarrow> \<not> singleton_engine e \<Longrightarrow>
     ms_port (default_settings ps e p d) \<notin> set reserved_ports \<and>
     (\<forall>m\<in>set (method_list ps d). shares_network (method_networks m) (protocol_networks p) \<longrightarrow>
        port_of m \<noteq> ms_port (default_settings ps e p d))"
proof -
  assume e: "\<not> managed_edge e" "\<not> singleton_engine e"
  let ?taken = "reserved_ports @ map (\<lambda>m. ms_port (m_settings m))
            (filter (\<lambda>m. shares_network (method_networks m) (protocol_networks p)) (method_list ps d))"
  have "ms_port (default_settings ps e p d) = free_port ?taken (ms_port (method_settings_for e p ps))"
    using e by (simp add: default_settings_def Let_def)
  with free_port_free [of ?taken "ms_port (method_settings_for e p ps)"]
  have "ms_port (default_settings ps e p d) \<notin> set ?taken" by metis
  then have x: "ms_port (default_settings ps e p d) \<notin> set reserved_ports"
      "\<forall>m\<in>set (method_list ps d). shares_network (method_networks m) (protocol_networks p) \<longrightarrow>
        ms_port (default_settings ps e p d) \<noteq> port_of m"
    unfolding set_append set_map set_filter image_def by blast+
  from x(1) show ?thesis using x(2) by metis
qed

end
