(* ===== verification/Connection_Safety.thy ===== *)
theory Connection_Safety
  imports Connections
begin

text \<open>
  The invariant of connections, credentials and synchronisation jobs, its preservation by
  every operation of Connections, and what it gives: links and passwords open exactly the
  usable connection of the current generation, a rotation replaces everything, an archival
  is final, and the snapshot the engines are synchronised from is always available.
\<close>


section \<open>The invariant\<close>

text \<open>
  Rows of the connections table: ids are distinct; a stored token hash is the hash of the
  link of the current generation; an archived connection has no link.
\<close>

definition connection_ok :: "crypto \<Rightarrow> connection \<Rightarrow> bool" where
  "connection_ok X c \<longleftrightarrow>
     (c_token_hash c = None \<or>
      c_token_hash c = Some (x_hash X (connection_token X (c_id c) (c_generation c)))) \<and>
     (c_archived_at c \<noteq> None \<longrightarrow> c_token_hash c = None) \<and>
     (c_status c \<in> {Archiving, Archived} \<longrightarrow> c_archived_at c \<noteq> None)"

definition connections_ok :: "crypto \<Rightarrow> connection list \<Rightarrow> bool" where
  "connections_ok X cs \<longleftrightarrow>
     distinct (map c_id cs) \<and> distinct (map c_serial cs) \<and> (\<forall>c\<in>set cs. connection_ok X c)"

text \<open>The secret an engine's credential holds.\<close>

fun secret_of :: "credential \<Rightarrow> secret \<Rightarrow> bool" where
  "secret_of r (HysteriaSecret i pw) = (cr_engine r = Hysteria \<and> i = cr_connection_id r)"
| "secret_of r (XraySecret u mail) =
     (cr_engine r = Xray \<and> mail = xray_email (cr_connection_id r) (cr_generation r))"

definition credential_key :: "credential \<Rightarrow> string \<times> nat \<times> engine" where
  "credential_key r = (cr_connection_id r, cr_generation r, cr_engine r)"

definition credential_user :: "credential \<Rightarrow> string \<times> engine" where
  "credential_user r = (cr_connection_id r, cr_engine r)"

definition credentials_ok :: "crypto \<Rightarrow> credential list \<Rightarrow> bool" where
  "credentials_ok X rs \<longleftrightarrow>
     distinct (map credential_key rs) \<and>
     unique_on credential_user (\<lambda>r. cr_state r = CredActive) rs \<and>
     (\<forall>r\<in>set rs. \<exists>iv s. cr_box r = x_seal X iv s \<and> secret_of r s)"

definition jobs_ok :: "sync_job list \<Rightarrow> bool" where
  "jobs_ok js \<longleftrightarrow> distinct (map j_id js) \<and> unique_on j_connection_id job_open js"

text \<open>The state both credentials of the current generation have in a state of the connection.\<close>

fun current_state :: "conn_status \<Rightarrow> cred_state \<Rightarrow> bool" where
  "current_state Active st = (st = CredActive)"
| "current_state Provisioning st = (st = CredPending)"
| "current_state Rotating st = (st = CredPending)"
| "current_state Archiving st = (st \<noteq> CredRevoked)"
| "current_state Archived st = (st = CredRevoked)"

definition current_credential :: "credential list \<Rightarrow> connection \<Rightarrow> engine \<Rightarrow> bool" where
  "current_credential rs c e \<longleftrightarrow>
     (\<exists>r\<in>set rs. credential_key r = (c_id c, c_generation c, e) \<and> current_state (c_status c) (cr_state r))"

definition generations_ok :: "connection list \<Rightarrow> credential list \<Rightarrow> bool" where
  "generations_ok cs rs \<longleftrightarrow>
     (\<forall>r\<in>set rs. \<exists>c\<in>set cs. c_id c = cr_connection_id r \<and> cr_generation r \<le> c_generation c) \<and>
     (\<forall>c\<in>set cs. current_credential rs c Hysteria \<and> current_credential rs c Xray)"

definition conn_inv :: "crypto \<Rightarrow> db \<Rightarrow> bool" where
  "conn_inv X d \<longleftrightarrow>
     connections_ok X (t_connections d) \<and> credentials_ok X (t_credentials d) \<and>
     jobs_ok (t_jobs d) \<and> generations_ok (t_connections d) (t_credentials d)"

lemma conn_inv_empty [inv_intros]: "conn_inv X empty_db"
  by (simp add: conn_inv_def connections_ok_def credentials_ok_def jobs_ok_def generations_ok_def
      empty_db_def)

lemma conn_inv_cong:
  "t_connections d' = t_connections d \<Longrightarrow> t_credentials d' = t_credentials d \<Longrightarrow>
   t_jobs d' = t_jobs d \<Longrightarrow> conn_inv X d' = conn_inv X d"
  by (simp add: conn_inv_def)

section \<open>Tokens\<close>

lemma connection_token_inj:
  assumes "crypto_ok X" and "connection_token X i g = connection_token X j h"
  shows "i = j \<and> g = h"
proof -
  have "inj (x_derive X ''connection-subscription'')" using assms(1) unfolding crypto_ok_def by blast
  then have "i @ '':'' @ show_nat g = j @ '':'' @ show_nat h"
    by (rule injD) (use assms(2) in \<open>simp only: connection_token_def\<close>)
  with split_last [OF show_nat_no_colon show_nat_no_colon, of i g j h] show ?thesis by simp
qed

lemma token_hash_inj: "crypto_ok X \<Longrightarrow> x_hash X s = x_hash X t \<longleftrightarrow> s = t"
  unfolding crypto_ok_def inj_def by blast

lemma token_free_ok:
  assumes "crypto_ok X" and "connections_ok X (t_connections d)"
  shows "token_free i (x_hash X (connection_token X i g)) d"
  unfolding token_free_def
proof (intro ballI impI notI)
  fix r assume r: "r \<in> set (t_connections d)" "c_id r \<noteq> i"
    and eq: "c_token_hash r = Some (x_hash X (connection_token X i g))"
  from assms(2) r(1) eq have "x_hash X (connection_token X i g) = x_hash X (connection_token X (c_id r) (c_generation r))"
    unfolding connections_ok_def connection_ok_def by (metis option.distinct(1) option.inject)
  then have "connection_token X i g = connection_token X (c_id r) (c_generation r)"
    by (simp only: token_hash_inj [OF assms(1)])
  with connection_token_inj [OF assms(1)] r(2) show False by metis
qed


section \<open>What the primitives do\<close>

lemma record_event_tables:
  assumes "record_event ty e now d = Ok d'"
  shows "t_connections d' = t_connections d" "t_credentials d' = t_credentials d"
    "t_jobs d' = t_jobs d" "t_presence d' = t_presence d" "t_engine_versions d' = t_engine_versions d"
  using record_event_data [OF assms] data_of_fields by metis+

lemma log_connection_data:
  "log_connection a ty actor i n x now d = Ok d' \<Longrightarrow> data_of d' = data_of d"
  by (auto simp: log_connection_def split: prod.splits)
     (metis data_of_audit record_event_data snd_conv)

lemma log_connection_tables:
  assumes "log_connection a ty actor i n x now d = Ok d'"
  shows "t_connections d' = t_connections d" "t_credentials d' = t_credentials d"
    "t_jobs d' = t_jobs d" "t_presence d' = t_presence d" "t_engine_versions d' = t_engine_versions d"
  using log_connection_data [OF assms] data_of_fields by metis+

lemma log_connection_total:
  assumes "ty \<in> fst ` set definitions"
  shows "\<exists>d'. log_connection a ty actor i n x now d = Ok d'"
  using record_event_known [OF assms] by (simp add: log_connection_def split: prod.splits)

lemma get_connection_Ok:
  "get_connection i ia d = Ok c \<Longrightarrow>
     c \<in> set (t_connections d) \<and> c_id c = i \<and> (\<not> ia \<longrightarrow> c_archived_at c = None)"
  using select_one_Some by (fastforce simp: get_connection_def split: option.splits)

lemma get_connection_unique:
  assumes "distinct (map c_id (t_connections d))" and "c \<in> set (t_connections d)"
    and "ia \<or> c_archived_at c = None"
  shows "get_connection (c_id c) ia d = Ok c"
proof -
  have "select_one (\<lambda>r. c_id r = c_id c \<and> (ia \<or> c_archived_at r = None)) (t_connections d) = Some c"
    by (rule select_one_unique [OF assms(1,2)]) (use assms(3) in auto)
  then show ?thesis by (simp add: get_connection_def)
qed

lemma update_connection_fields [simp]:
  "t_connections (update_connection i f d) = update_where (\<lambda>c. c_id c = i) f (t_connections d)"
  "t_credentials (update_connection i f d) = t_credentials d"
  "t_jobs (update_connection i f d) = t_jobs d"
  "t_presence (update_connection i f d) = t_presence d"
  "t_engine_versions (update_connection i f d) = t_engine_versions d"
  by (simp_all add: update_connection_def)

lemma cancel_jobs_fields [simp]:
  "t_connections (cancel_jobs i now d) = t_connections d"
  "t_credentials (cancel_jobs i now d) = t_credentials d"
  "t_presence (cancel_jobs i now d) = t_presence d"
  "t_engine_versions (cancel_jobs i now d) = t_engine_versions d"
  by (simp_all add: cancel_jobs_def)

lemma insert_connection_Ok:
  "insert_connection c d = Ok d' \<Longrightarrow>
     d' = d\<lparr>t_connections := t_connections d @ [c]\<rparr> \<and>
     (\<forall>r\<in>set (t_connections d). c_id r \<noteq> c_id c \<and> c_serial r \<noteq> c_serial c)"
  unfolding insert_connection_def by (simp split: if_splits)

definition credential_row :: "crypto \<Rightarrow> string \<Rightarrow> string \<Rightarrow> time \<Rightarrow> string \<Rightarrow> nat \<Rightarrow> cred_state \<Rightarrow> secret \<Rightarrow> credential" where
  "credential_row X iv new_id now i gen st s =
     \<lparr>cr_id = new_id, cr_connection_id = i, cr_generation = gen,
      cr_engine = (case s of HysteriaSecret _ _ \<Rightarrow> Hysteria | XraySecret _ _ \<Rightarrow> Xray), cr_state = st,
      cr_box = x_seal X iv s, cr_created_at = now, cr_activated_at = None, cr_revoked_at = None\<rparr>"

definition issued :: "crypto \<Rightarrow> (nat \<Rightarrow> string) \<Rightarrow> nat \<Rightarrow> time \<Rightarrow> string \<Rightarrow> nat \<Rightarrow> cred_state \<Rightarrow> credential list" where
  "issued X rnd k now i gen st =
     [credential_row X (rnd (k + 2)) (rnd (k + 3)) now i gen st (HysteriaSecret i (rnd k)),
      credential_row X (rnd (k + 4)) (rnd (k + 5)) now i gen st (XraySecret (rnd (k + 1)) (xray_email i gen))]"

lemma insert_credential_Ok:
  "insert_credential r d = Ok d' \<longleftrightarrow>
     d' = d\<lparr>t_credentials := t_credentials d @ [r]\<rparr> \<and> cr_id r \<notin> cr_id ` set (t_credentials d) \<and>
     credential_key r \<notin> credential_key ` set (t_credentials d)"
proof -
  have "(\<exists>s\<in>set (t_credentials d). cr_id s = cr_id r \<or>
           (cr_connection_id s = cr_connection_id r \<and> cr_generation s = cr_generation r \<and> cr_engine s = cr_engine r))
        \<longleftrightarrow> cr_id r \<in> cr_id ` set (t_credentials d) \<or> credential_key r \<in> credential_key ` set (t_credentials d)"
  proof -
    have im: "y \<in> f ` S \<longleftrightarrow> (\<exists>s\<in>S. f s = y)" for y f and S :: "credential set" by blast
    show ?thesis unfolding im bex_disj_distrib by (simp add: credential_key_def)
  qed
  then show ?thesis by (simp add: insert_credential_def) (auto simp del: not_Some_eq)
qed

lemma issue_Ok:
  "issue X rnd k now i gen st d = Ok d' \<Longrightarrow>
     d' = d\<lparr>t_credentials := t_credentials d @ issued X rnd k now i gen st\<rparr> \<and>
     (i, gen, Hysteria) \<notin> credential_key ` set (t_credentials d) \<and>
     (i, gen, Xray) \<notin> credential_key ` set (t_credentials d)"
  unfolding issue_def store_credential_def bind_result_Ok insert_credential_Ok
  by (elim exE conjE) (simp add: issued_def credential_row_def credential_key_def)

definition new_job :: "string \<Rightarrow> time \<Rightarrow> string \<Rightarrow> nat \<Rightarrow> nat option \<Rightarrow> sync_kind \<Rightarrow> string \<Rightarrow> sync_job" where
  "new_job new_id now i gen prev kind actor =
     \<lparr>j_id = new_id, j_connection_id = i, j_generation = gen, j_previous_generation = prev,
      j_kind = kind, j_status = JPending, j_actor = actor, j_attempts = 0,
      j_next_attempt_at = now, j_last_error = None, j_created_at = now,
      j_updated_at = now, j_completed_at = None\<rparr>"

lemma create_job_Ok:
  "create_job new_id now i gen prev kind actor d = Ok d' \<longleftrightarrow>
     d' = d\<lparr>t_jobs := t_jobs d @ [new_job new_id now i gen prev kind actor]\<rparr> \<and>
     new_id \<notin> j_id ` set (t_jobs d) \<and>
     (\<forall>j\<in>set (t_jobs d). j_connection_id j = i \<longrightarrow> \<not> job_open j)"
  by (auto simp: create_job_def new_job_def image_iff)

section \<open>Every operation keeps the invariant\<close>

lemma jobs_ok_append:
  "jobs_ok js \<Longrightarrow> j_id j \<notin> j_id ` set js \<Longrightarrow>
   \<forall>k\<in>set js. j_connection_id k = j_connection_id j \<longrightarrow> \<not> job_open k \<Longrightarrow> jobs_ok (js @ [j])"
  by (auto simp: jobs_ok_def)

lemma jobs_ok_update [inv_intros]:
  assumes "jobs_ok js" and "\<And>j. p j \<Longrightarrow> j_id (f j) = j_id j \<and> j_connection_id (f j) = j_connection_id j"
    and "\<And>j. p j \<Longrightarrow> job_open (f j) \<Longrightarrow> job_open j"
  shows "jobs_ok (update_where p f js)"
  unfolding jobs_ok_def
proof
  show "distinct (map j_id (update_where p f js))"
    using assms by (subst map_update_where) (auto simp: jobs_ok_def)
  show "unique_on j_connection_id job_open (update_where p f js)"
    by (rule unique_on_update_where) (use assms in \<open>auto simp: jobs_ok_def\<close>)
qed

lemma jobs_ok_cancel [inv_intros]: "jobs_ok (t_jobs d) \<Longrightarrow> jobs_ok (t_jobs (cancel_jobs i now d))"
  unfolding cancel_jobs_def by (simp, rule jobs_ok_update) (auto simp: job_open_def)

lemma connections_ok_update:
  assumes "connections_ok X cs"
    and "\<And>c. c_id (f c) = c_id c \<and> c_serial (f c) = c_serial c"
    and "\<And>c. c \<in> set cs \<Longrightarrow> c_id c = i \<Longrightarrow> connection_ok X c \<Longrightarrow> connection_ok X (f c)"
  shows "connections_ok X (update_where (\<lambda>c. c_id c = i) f cs)"
  unfolding connections_ok_def
proof (intro conjI ballI)
  show "distinct (map c_id (update_where (\<lambda>c. c_id c = i) f cs))"
    using assms(1) by (subst map_update_where) (simp_all add: assms(2) connections_ok_def)
  show "distinct (map c_serial (update_where (\<lambda>c. c_id c = i) f cs))"
    using assms(1) by (subst map_update_where) (simp_all add: assms(2) connections_ok_def)
  fix c assume "c \<in> set (update_where (\<lambda>c. c_id c = i) f cs)"
  with assms(1,3) show "connection_ok X c"
    by (auto simp: set_update_where connections_ok_def)
qed

lemma current_credential_mono:
  assumes "current_credential rs c e" and "c_id c' = c_id c" and "c_generation c' = c_generation c"
    and "\<And>st. current_state (c_status c) st \<Longrightarrow> current_state (c_status c') st"
  shows "current_credential rs c' e"
  using assms unfolding current_credential_def by fastforce

lemma generations_ok_update:
  assumes "generations_ok cs rs"
    and "\<And>c. c_id (f c) = c_id c \<and> c_generation (f c) = c_generation c"
    and "\<And>c st. c \<in> set cs \<Longrightarrow> c_id c = i \<Longrightarrow>
           current_state (c_status c) st \<Longrightarrow> current_state (c_status (f c)) st"
  shows "generations_ok (update_where (\<lambda>c. c_id c = i) f cs) rs"
  unfolding generations_ok_def
proof (intro conjI ballI)
  fix r assume "r \<in> set rs"
  with assms(1) obtain c where c: "c \<in> set cs" "c_id c = cr_connection_id r" "cr_generation r \<le> c_generation c"
    unfolding generations_ok_def by blast
  let ?c = "if c_id c = i then f c else c"
  have "?c \<in> set (update_where (\<lambda>c. c_id c = i) f cs)" using c(1) by (simp add: set_update_where)
  moreover have "c_id ?c = cr_connection_id r" "cr_generation r \<le> c_generation ?c"
    using c assms(2) by auto
  ultimately show "\<exists>c\<in>set (update_where (\<lambda>c. c_id c = i) f cs).
      c_id c = cr_connection_id r \<and> cr_generation r \<le> c_generation c" by blast
next
  fix c' assume "c' \<in> set (update_where (\<lambda>c. c_id c = i) f cs)"
  then obtain c where c: "c \<in> set cs" "c' = (if c_id c = i then f c else c)"
    by (auto simp: set_update_where)
  have "current_credential rs c' e" if "current_credential rs c e" for e
    by (rule current_credential_mono [OF that]) (use c assms(2,3) in auto)
  with assms(1) c(1) show "current_credential rs c' Hysteria" "current_credential rs c' Xray"
    unfolding generations_ok_def by blast+
qed


lemma issued_sealed:
  "r \<in> set (issued X rnd k now i gen st) \<Longrightarrow> \<exists>iv s. cr_box r = x_seal X iv s \<and> secret_of r s"
proof -
  have row: "secret_of (credential_row X iv new now i gen st s) s \<Longrightarrow>
        \<exists>iv' s'. cr_box (credential_row X iv new now i gen st s) = x_seal X iv' s' \<and>
          secret_of (credential_row X iv new now i gen st s) s'" for iv new s
    by (intro exI conjI) (simp_all add: credential_row_def)
  assume "r \<in> set (issued X rnd k now i gen st)"
  then consider "r = credential_row X (rnd (k + 2)) (rnd (k + 3)) now i gen st (HysteriaSecret i (rnd k))"
    | "r = credential_row X (rnd (k + 4)) (rnd (k + 5)) now i gen st (XraySecret (rnd (k + 1)) (xray_email i gen))"
    by (auto simp: issued_def)
  then show ?thesis
  proof cases
    case 1
    show ?thesis unfolding 1 by (rule row) (simp add: credential_row_def)
  next
    case 2
    show ?thesis unfolding 2 by (rule row) (simp add: credential_row_def)
  qed
qed

lemma credentials_ok_append:
  assumes "credentials_ok X rs" and "(i, gen, Hysteria) \<notin> credential_key ` set rs"
    and "(i, gen, Xray) \<notin> credential_key ` set rs" and "st \<noteq> CredActive"
  shows "credentials_ok X (rs @ issued X rnd k now i gen st)"
proof -
  have keys: "map credential_key (issued X rnd k now i gen st) = [(i, gen, Hysteria), (i, gen, Xray)]"
    by (simp add: issued_def credential_row_def credential_key_def)
  have "distinct (map credential_key (rs @ issued X rnd k now i gen st))"
    using assms(1-3) unfolding map_append keys by (simp add: credentials_ok_def)
  moreover have "filter (\<lambda>r. cr_state r = CredActive) (issued X rnd k now i gen st) = []"
    using assms(4) by (simp add: issued_def credential_row_def)
  ultimately show ?thesis
    using assms(1) issued_sealed unfolding credentials_ok_def unique_on_def by fastforce
qed

lemma credential_key_issued:
  "r \<in> set (issued X rnd k now i gen st) \<Longrightarrow> cr_connection_id r = i \<and> cr_generation r = gen \<and> cr_state r = st"
  by (auto simp: issued_def credential_row_def)

lemma current_credential_issued:
  "c_id c = i \<Longrightarrow> c_generation c = gen \<Longrightarrow> current_state (c_status c) st \<Longrightarrow> e \<in> {Hysteria, Xray} \<Longrightarrow>
   current_credential (rs @ issued X rnd k now i gen st) c e"
proof -
  assume c: "c_id c = i" "c_generation c = gen" "current_state (c_status c) st" and e: "e \<in> {Hysteria, Xray}"
  have "map credential_key (issued X rnd k now i gen st) = [(i, gen, Hysteria), (i, gen, Xray)]"
    by (simp add: issued_def credential_row_def credential_key_def)
  with e have "(i, gen, e) \<in> credential_key ` set (issued X rnd k now i gen st)"
    by (metis empty_iff image_set insertE list.set_intros(1,2))
  then obtain r where r: "r \<in> set (issued X rnd k now i gen st)" "credential_key r = (i, gen, e)"
    by fastforce
  from c credential_key_issued [OF r(1)] have "current_state (c_status c) (cr_state r)" by simp
  with r c(1,2) show ?thesis unfolding current_credential_def by fastforce
qed

lemma current_credential_append:
  "current_credential rs c e \<Longrightarrow> current_credential (rs @ qs) c e"
  by (auto simp: current_credential_def)

lemma generations_ok_create:
  assumes "generations_ok cs rs" and "c_status c = Provisioning" and "\<forall>r\<in>set cs. c_id r \<noteq> c_id c"
  shows "generations_ok (cs @ [c]) (rs @ issued X rnd k now (c_id c) (c_generation c) CredPending)"
  unfolding generations_ok_def
proof (intro conjI ballI)
  fix r assume "r \<in> set (rs @ issued X rnd k now (c_id c) (c_generation c) CredPending)"
  then show "\<exists>c'\<in>set (cs @ [c]). c_id c' = cr_connection_id r \<and> cr_generation r \<le> c_generation c'"
    using assms(1) credential_key_issued by (fastforce simp: generations_ok_def)
next
  fix c' assume "c' \<in> set (cs @ [c])"
  then show "current_credential (rs @ issued X rnd k now (c_id c) (c_generation c) CredPending) c' Hysteria"
    "current_credential (rs @ issued X rnd k now (c_id c) (c_generation c) CredPending) c' Xray"
    using assms(1,2) by (auto simp: generations_ok_def intro: current_credential_append current_credential_issued)
qed

lemma generations_ok_rotate:
  assumes gen: "generations_ok cs rs" and dist: "distinct (map c_id cs)" and c: "c \<in> set cs"
    and f: "\<And>r. c_id (f r) = c_id r" "\<And>r. c_generation (f r) = Suc (c_generation c)" "\<And>r. c_status (f r) = Rotating"
  shows "generations_ok (update_where (\<lambda>r. c_id r = c_id c) f cs)
           (rs @ issued X rnd k now (c_id c) (Suc (c_generation c)) CredPending)"
  unfolding generations_ok_def
proof (intro conjI ballI)
  let ?cs = "update_where (\<lambda>r. c_id r = c_id c) f cs"
  have fc: "f c \<in> set ?cs" using c by (force simp: set_update_where)
  fix r assume "r \<in> set (rs @ issued X rnd k now (c_id c) (Suc (c_generation c)) CredPending)"
  then consider "r \<in> set rs" | "cr_connection_id r = c_id c" "cr_generation r = Suc (c_generation c)"
    using credential_key_issued by fastforce
  then show "\<exists>c\<in>set ?cs. c_id c = cr_connection_id r \<and> cr_generation r \<le> c_generation c"
  proof cases
    case 1
    with gen obtain c' where c': "c' \<in> set cs" "c_id c' = cr_connection_id r" "cr_generation r \<le> c_generation c'"
      unfolding generations_ok_def by blast
    show ?thesis
    proof (cases "c_id c' = c_id c")
      case True
      with dist c c'(1) have "c' = c" by (metis distinct_key_unique)
      with c' fc f show ?thesis by (metis le_SucI)
    next
      case False
      with c' show ?thesis by (force simp: set_update_where)
    qed
  next
    case 2
    with fc f show ?thesis by (metis order_refl)
  qed
next
  let ?rs = "rs @ issued X rnd k now (c_id c) (Suc (c_generation c)) CredPending"
  fix c' assume "c' \<in> set (update_where (\<lambda>r. c_id r = c_id c) f cs)"
  then obtain b where b: "b \<in> set cs" "c' = (if c_id b = c_id c then f b else b)"
    by (auto simp: set_update_where)
  have "current_credential ?rs c' e" if e: "e \<in> {Hysteria, Xray}" for e
  proof (cases "c_id b = c_id c")
    case True
    then show ?thesis using e b(2) f by (intro current_credential_issued) auto
  next
    case False
    with b gen e show ?thesis by (auto simp: generations_ok_def intro: current_credential_append)
  qed
  then show "current_credential ?rs c' Hysteria" "current_credential ?rs c' Xray" by simp_all
qed


text \<open>The credentials after an activation, row by row.\<close>

definition activate_row :: "time \<Rightarrow> string \<Rightarrow> nat \<Rightarrow> credential \<Rightarrow> credential" where
  "activate_row now i gen r =
     (if cr_connection_id r = i \<and> cr_generation r \<noteq> gen \<and> cr_state r = CredActive
      then r\<lparr>cr_state := CredRevoked, cr_revoked_at := Some now\<rparr>
      else if cr_connection_id r = i \<and> cr_generation r = gen \<and> cr_state r = CredPending
      then r\<lparr>cr_state := CredActive, cr_activated_at := Some now, cr_revoked_at := None\<rparr> else r)"

lemma activate_rows:
  "activate_generation now i gen (revoke_other_generations now i gen rs) = map (activate_row now i gen) rs"
  by (simp add: activate_generation_def revoke_other_generations_def update_where_def activate_row_def)

lemma activate_row_fields [simp]:
  "cr_connection_id (activate_row now i gen r) = cr_connection_id r"
  "cr_generation (activate_row now i gen r) = cr_generation r"
  "cr_engine (activate_row now i gen r) = cr_engine r"
  "cr_box (activate_row now i gen r) = cr_box r"
  "credential_key (activate_row now i gen r) = credential_key r"
  "credential_user (activate_row now i gen r) = credential_user r"
  by (simp_all add: activate_row_def credential_key_def credential_user_def)

lemma activate_row_active:
  "cr_state (activate_row now i gen r) = CredActive \<longleftrightarrow>
     (if cr_connection_id r = i then cr_generation r = gen \<and> cr_state r \<noteq> CredRevoked
      else cr_state r = CredActive)"
  by (cases "cr_state r") (auto simp: activate_row_def)

lemma secret_of_cong:
  "cr_engine r = cr_engine q \<Longrightarrow> cr_connection_id r = cr_connection_id q \<Longrightarrow>
   cr_generation r = cr_generation q \<Longrightarrow> secret_of r s = secret_of q s"
  by (cases s) auto

lemma credentials_ok_map:
  assumes "credentials_ok X rs"
    and same: "\<And>r. credential_key (f r) = credential_key r \<and> cr_box (f r) = cr_box r"
    and "unique_on credential_user (\<lambda>r. cr_state r = CredActive) (map f rs)"
  shows "credentials_ok X (map f rs)"
proof -
  have "map credential_key (map f rs) = map credential_key rs" using same by simp
  moreover have "secret_of (f r) s = secret_of r s" for r s
    by (rule secret_of_cong) (use same [of r] in \<open>auto simp: credential_key_def\<close>)
  ultimately show ?thesis
    using assms unfolding credentials_ok_def by (simp only: set_map ball_simps) (simp add: same)
qed

lemma credentials_ok_activate:
  assumes ok: "credentials_ok X rs"
  shows "credentials_ok X (map (activate_row now i gen) rs)"
proof (rule credentials_ok_map [OF ok])
  show "credential_key (activate_row now i gen r) = credential_key r \<and>
        cr_box (activate_row now i gen r) = cr_box r" for r by simp
  show "unique_on credential_user (\<lambda>r. cr_state r = CredActive) (map (activate_row now i gen) rs)"
  proof (rule unique_on_from_key [where k = credential_key])
    show "distinct (map credential_key (map (activate_row now i gen) rs))"
      using ok by (simp add: credentials_ok_def comp_def)
    fix r' s' assume mem: "r' \<in> set (map (activate_row now i gen) rs)" "s' \<in> set (map (activate_row now i gen) rs)"
      and act: "cr_state r' = CredActive" "cr_state s' = CredActive" and user: "credential_user r' = credential_user s'"
    from mem obtain r s where rs: "r \<in> set rs" "s \<in> set rs" "r' = activate_row now i gen r" "s' = activate_row now i gen s"
      by auto
    have same: "credential_user r = credential_user s" using user rs(3,4) by simp
    show "credential_key r' = credential_key s'"
    proof (cases "cr_connection_id r = i")
      case True
      then have "cr_generation r = gen" "cr_generation s = gen"
        using act rs(3,4) same by (auto simp: activate_row_active credential_user_def split: if_splits)
      with same rs(3,4) show ?thesis by (simp add: credential_key_def credential_user_def)
    next
      case False
      then have "cr_state r = CredActive" "cr_state s = CredActive"
        using act rs(3,4) same by (auto simp: activate_row_active credential_user_def split: if_splits)
      have "unique_on credential_user (\<lambda>r. cr_state r = CredActive) rs"
        using ok unfolding credentials_ok_def by blast
      from unique_onD [OF this rs(1,2) \<open>cr_state r = CredActive\<close> \<open>cr_state s = CredActive\<close> same]
      have "r = s" .
      with rs(3,4) show ?thesis by simp
    qed
  qed
qed


lemma credentials_ok_revoke:
  assumes ok: "credentials_ok X rs"
  shows "credentials_ok X (revoke_all now i rs)"
  unfolding revoke_all_def update_where_def
proof (rule credentials_ok_map [OF ok])
  let ?f = "\<lambda>r. if cr_connection_id r = i \<and> cr_state r \<noteq> CredRevoked
      then r\<lparr>cr_state := CredRevoked, cr_revoked_at := Some (coalesce (cr_revoked_at r) now)\<rparr> else r"
  show "credential_key (?f r) = credential_key r \<and> cr_box (?f r) = cr_box r" for r
    by (simp add: credential_key_def)
  have "unique_on credential_user (\<lambda>r. cr_state r = CredActive)
      (update_where (\<lambda>r. cr_connection_id r = i \<and> cr_state r \<noteq> CredRevoked)
        (\<lambda>r. r\<lparr>cr_state := CredRevoked, cr_revoked_at := Some (coalesce (cr_revoked_at r) now)\<rparr>) rs)"
    by (rule unique_on_update_where) (use ok in \<open>auto simp: credentials_ok_def credential_user_def\<close>)
  then show "unique_on credential_user (\<lambda>r. cr_state r = CredActive) (map ?f rs)"
    unfolding update_where_def .
qed

lemma generations_ok_map:
  assumes gen: "generations_ok cs rs"
    and f: "\<And>r. credential_key (f r) = credential_key r"
    and g: "\<And>c. c_id (g c) = c_id c \<and> c_generation (g c) = c_generation c"
    and other: "\<And>c r. c \<in> set cs \<Longrightarrow> c_id c \<noteq> i \<Longrightarrow> r \<in> set rs \<Longrightarrow> cr_connection_id r = c_id c \<Longrightarrow>
                  cr_state (f r) = cr_state r"
    and here: "\<And>c r. c \<in> set cs \<Longrightarrow> c_id c = i \<Longrightarrow> r \<in> set rs \<Longrightarrow> cr_connection_id r = i \<Longrightarrow>
                  cr_generation r = c_generation c \<Longrightarrow> current_state (c_status c) (cr_state r) \<Longrightarrow>
                  current_state (c_status (g c)) (cr_state (f r))"
  shows "generations_ok (update_where (\<lambda>c. c_id c = i) g cs) (map f rs)"
proof -
  let ?g = "\<lambda>c. if c_id c = i then g c else c"
  have cur: "current_credential (map f rs) (?g c) e" if c: "c \<in> set cs" and e: "current_credential rs c e" for c e
  proof -
    from e obtain r where r: "r \<in> set rs" "credential_key r = (c_id c, c_generation c, e)"
        "current_state (c_status c) (cr_state r)"
      unfolding current_credential_def by blast
    then have rc: "cr_connection_id r = c_id c" "cr_generation r = c_generation c"
      by (simp_all add: credential_key_def)
    have "current_state (c_status (?g c)) (cr_state (f r))"
      using here [OF c] other [OF c] r(1,3) rc by (cases "c_id c = i") auto
    moreover have "credential_key (f r) = (c_id (?g c), c_generation (?g c), e)" using r(2) f g by simp
    ultimately show ?thesis using r(1) unfolding current_credential_def by auto
  qed
  have key: "cr_connection_id (f r) = cr_connection_id r \<and> cr_generation (f r) = cr_generation r" for r
    using f [of r] by (simp add: credential_key_def)
  show ?thesis
    unfolding generations_ok_def
  proof (intro conjI ballI)
    fix r' assume "r' \<in> set (map f rs)"
    then obtain r where r: "r \<in> set rs" "r' = f r" by auto
    with gen obtain c where c: "c \<in> set cs" "c_id c = cr_connection_id r" "cr_generation r \<le> c_generation c"
      unfolding generations_ok_def by blast
    then have "?g c \<in> set (update_where (\<lambda>c. c_id c = i) g cs)" by (simp add: set_update_where)
    moreover have "c_id (?g c) = cr_connection_id r'" "cr_generation r' \<le> c_generation (?g c)"
      using c r(2) g key by auto
    ultimately show "\<exists>c\<in>set (update_where (\<lambda>c. c_id c = i) g cs). c_id c = cr_connection_id r' \<and> cr_generation r' \<le> c_generation c"
      by blast
  next
    fix c' assume "c' \<in> set (update_where (\<lambda>c. c_id c = i) g cs)"
    then obtain c where "c \<in> set cs" "c' = ?g c" by (auto simp: set_update_where)
    with gen cur show "current_credential (map f rs) c' Hysteria" "current_credential (map f rs) c' Xray"
      unfolding generations_ok_def by blast+
  qed
qed


text \<open>What a successful creation wrote.\<close>

lemma create_connection_effect:
  assumes "create_connection X rnd now input actor d = Ok (c', d')"
  shows "\<exists>n co a. parse_create input = Ok (n, co, a) \<and>
    (let c = new_connection X (rnd 0) (Suc (max_serial (t_connections d))) n co a now in
     t_connections d' = t_connections d @ [c] \<and> (\<forall>r\<in>set (t_connections d). c_id r \<noteq> rnd 0 \<and> c_serial r \<noteq> c_serial c) \<and>
     t_credentials d' = t_credentials d @ issued X rnd 1 now (rnd 0) 1 CredPending \<and>
     t_jobs d' = t_jobs d @ [new_job (rnd 7) now (rnd 0) 1 None KActivate actor] \<and>
     rnd 7 \<notin> j_id ` set (t_jobs d) \<and>
     (\<forall>j\<in>set (t_jobs d). j_connection_id j = rnd 0 \<longrightarrow> \<not> job_open j) \<and>
     (rnd 0, 1, Hysteria) \<notin> credential_key ` set (t_credentials d) \<and>
     (rnd 0, 1, Xray) \<notin> credential_key ` set (t_credentials d) \<and>
     get_connection (rnd 0) False d' = Ok c')"
proof -
  from assms obtain n co a d1 d2 d3 where
    p: "parse_create input = Ok (n, co, a)" and
    ins: "insert_connection (new_connection X (rnd 0) (Suc (max_serial (t_connections d))) n co a now) d = Ok d1" and
    iss: "issue X rnd 1 now (rnd 0) 1 CredPending d1 = Ok d2" and
    job: "create_job (rnd 7) now (rnd 0) 1 None KActivate actor d2 = Ok d3" and
    log: "log_connection ''connections.create'' ''connection.created'' actor (rnd 0) n [] now d3 = Ok d'" and
    got: "get_connection (rnd 0) False d' = Ok c'"
    unfolding create_connection_def Let_def by (auto simp del: not_Some_eq)
  note ins = insert_connection_Ok [OF ins] and iss = issue_Ok [OF iss]
  note job = job [unfolded create_job_Ok] and log = log_connection_tables [OF log]
  show ?thesis
    by (intro exI [of _ n] exI [of _ co] exI [of _ a])
       (use p ins iss job log got in \<open>simp add: Let_def new_connection_def\<close>)
qed

lemma create_connection_inv [inv_intros]:
  assumes inv: "conn_inv X d" and ok: "create_connection X rnd now input actor d = Ok (c', d')"
  shows "conn_inv X d'"
proof -
  from create_connection_effect [OF ok] obtain n co a c where
    c: "c = new_connection X (rnd 0) (Suc (max_serial (t_connections d))) n co a now" and
    eff: "t_connections d' = t_connections d @ [c]" "\<forall>r\<in>set (t_connections d). c_id r \<noteq> rnd 0 \<and> c_serial r \<noteq> c_serial c"
      "t_credentials d' = t_credentials d @ issued X rnd 1 now (rnd 0) 1 CredPending"
      "t_jobs d' = t_jobs d @ [new_job (rnd 7) now (rnd 0) 1 None KActivate actor]"
      "rnd 7 \<notin> j_id ` set (t_jobs d)" "\<forall>j\<in>set (t_jobs d). j_connection_id j = rnd 0 \<longrightarrow> \<not> job_open j"
      "(rnd 0, 1, Hysteria) \<notin> credential_key ` set (t_credentials d)"
      "(rnd 0, 1, Xray) \<notin> credential_key ` set (t_credentials d)"
    unfolding Let_def by blast
  have fields: "c_id c = rnd 0" "c_generation c = 1" "c_status c = Provisioning" "connection_ok X c"
    by (simp_all add: c new_connection_def connection_ok_def)
  have "connections_ok X (t_connections d')"
    using inv eff(1,2) fields by (auto simp: conn_inv_def connections_ok_def)
  moreover have "credentials_ok X (t_credentials d')"
    using inv unfolding eff(3) conn_inv_def by (intro credentials_ok_append eff(7,8)) simp_all
  moreover have "jobs_ok (t_jobs d')"
    unfolding eff(4) by (rule jobs_ok_append) (use inv eff(5,6) in \<open>simp_all add: conn_inv_def new_job_def\<close>)
  moreover have "generations_ok (t_connections d') (t_credentials d')"
    using generations_ok_create [of "t_connections d" "t_credentials d" c X rnd 1 now] inv eff(1-3) fields
    by (simp add: conn_inv_def)
  ultimately show ?thesis by (simp add: conn_inv_def)
qed

lemma update_connection_inv:
  assumes inv: "conn_inv X d"
    and "\<And>c. c_id (f c) = c_id c \<and> c_serial (f c) = c_serial c \<and> c_generation (f c) = c_generation c"
    and "\<And>c. c \<in> set (t_connections d) \<Longrightarrow> c_id c = i \<Longrightarrow> connection_ok X c \<Longrightarrow> connection_ok X (f c)"
    and "\<And>c st. c \<in> set (t_connections d) \<Longrightarrow> c_id c = i \<Longrightarrow>
           current_state (c_status c) st \<Longrightarrow> current_state (c_status (f c)) st"
  shows "conn_inv X (update_connection i f d)"
  using assms connections_ok_update [of X "t_connections d" f i]
    generations_ok_update [of "t_connections d" "t_credentials d" f i]
  by (simp add: conn_inv_def)

lemma update_connection_details_inv [inv_intros]:
  assumes inv: "conn_inv X d" and ok: "update_connection_details now i input actor d = Ok (c', d')"
  shows "conn_inv X d'"
proof -
  from ok obtain before n co a where get: "get_connection i False d = Ok before" and log: "log_connection ''connections.update'' ''connection.updated'' actor i
      (coalesce n (c_name before)) [] now (update_connection i (\<lambda>r. r\<lparr>c_name := coalesce n (c_name before),
        c_color := coalesce co (c_color before), c_avatar := coalesce a (c_avatar before), c_updated_at := now\<rparr>) d) = Ok d'"
    unfolding update_connection_details_def Let_def by (auto simp del: not_Some_eq)
  have "conn_inv X (update_connection i (\<lambda>r. r\<lparr>c_name := coalesce n (c_name before),
        c_color := coalesce co (c_color before), c_avatar := coalesce a (c_avatar before), c_updated_at := now\<rparr>) d)"
    by (rule update_connection_inv [OF inv]) (simp_all add: connection_ok_def)
  with log_connection_tables [OF log] show ?thesis by (simp add: conn_inv_def)
qed

lemma cancel_jobs_inv [inv_intros]: "conn_inv X d \<Longrightarrow> conn_inv X (cancel_jobs i now d)"
  using jobs_ok_cancel [of d i now] by (simp add: conn_inv_def)

lemma create_job_inv:
  assumes "conn_inv X d" and "create_job n now i gen prev kind actor d = Ok d'"
  shows "conn_inv X d'"
  using assms jobs_ok_append [of "t_jobs d" "new_job n now i gen prev kind actor"]
  unfolding create_job_Ok by (simp add: conn_inv_def new_job_def)

lemma log_connection_inv:
  assumes "conn_inv X d" and "log_connection a ty actor i n x now d = Ok d'"
  shows "conn_inv X d'"
  using assms(1) log_connection_tables [OF assms(2)] by (simp add: conn_inv_def)

lemma presence_inv: "conn_inv X d \<Longrightarrow> conn_inv X (d\<lparr>t_presence := p\<rparr>)"
  by (simp add: conn_inv_def)


definition rotate_row :: "crypto \<Rightarrow> time \<Rightarrow> string \<Rightarrow> nat \<Rightarrow> connection \<Rightarrow> connection" where
  "rotate_row X now i gen r =
     r\<lparr>c_status := Rotating, c_generation := gen, c_token_hash := Some (x_hash X (connection_token X i gen)),
       c_activated_at := None, c_first_used_at := None, c_last_fetched_at := None, c_updated_at := now\<rparr>"

lemma prepare_rotation_effect:
  assumes "prepare_rotation X rnd now i actor d = Ok d'"
  shows "\<exists>c. get_connection i False d = Ok c \<and> c_status c = Active \<and> c_suspended_at c = None \<and>
    t_connections d' = update_where (\<lambda>r. c_id r = i) (rotate_row X now i (Suc (c_generation c))) (t_connections d) \<and>
    t_credentials d' = t_credentials d @ issued X rnd 0 now i (Suc (c_generation c)) CredPending \<and>
    t_jobs d' = t_jobs d @ [new_job (rnd 6) now i (Suc (c_generation c)) (Some (c_generation c)) KRotate actor] \<and>
    rnd 6 \<notin> j_id ` set (t_jobs d) \<and>
    (\<forall>j\<in>set (t_jobs d). j_connection_id j = i \<longrightarrow> \<not> job_open j) \<and>
    (i, Suc (c_generation c), Hysteria) \<notin> credential_key ` set (t_credentials d) \<and>
    (i, Suc (c_generation c), Xray) \<notin> credential_key ` set (t_credentials d)"
proof -
  from assms obtain c d1 where c: "get_connection i False d = Ok c" "c_status c = Active" "c_suspended_at c = None"
    and iss: "issue X rnd 0 now i (Suc (c_generation c)) CredPending
      (update_connection i (rotate_row X now i (Suc (c_generation c))) d) = Ok d1"
    and job: "create_job (rnd 6) now i (Suc (c_generation c)) (Some (c_generation c)) KRotate actor d1 = Ok d'"
    unfolding prepare_rotation_def Let_def
    by (auto simp: rotate_row_def [abs_def] split: if_splits)
  show ?thesis
    by (rule exI [of _ c]) (use c issue_Ok [OF iss] job [unfolded create_job_Ok] in simp)
qed

lemma prepare_rotation_inv [inv_intros]:
  assumes inv: "conn_inv X d" and ok: "prepare_rotation X rnd now i actor d = Ok d'"
  shows "conn_inv X d'"
proof -
  from prepare_rotation_effect [OF ok] obtain c where
    c: "get_connection i False d = Ok c" and
    eff: "t_connections d' = update_where (\<lambda>r. c_id r = i) (rotate_row X now i (Suc (c_generation c))) (t_connections d)"
      "t_credentials d' = t_credentials d @ issued X rnd 0 now i (Suc (c_generation c)) CredPending"
      "t_jobs d' = t_jobs d @ [new_job (rnd 6) now i (Suc (c_generation c)) (Some (c_generation c)) KRotate actor]"
      "rnd 6 \<notin> j_id ` set (t_jobs d)" "\<forall>j\<in>set (t_jobs d). j_connection_id j = i \<longrightarrow> \<not> job_open j"
      "(i, Suc (c_generation c), Hysteria) \<notin> credential_key ` set (t_credentials d)"
      "(i, Suc (c_generation c), Xray) \<notin> credential_key ` set (t_credentials d)"
    by blast
  from get_connection_Ok [OF c] have mem: "c \<in> set (t_connections d)" "c_id c = i" "c_archived_at c = None" by auto
  have dist: "distinct (map c_id (t_connections d))" using inv by (simp add: conn_inv_def connections_ok_def)
  have "connections_ok X (t_connections d')"
    unfolding eff(1)
  proof (rule connections_ok_update)
    fix r assume r: "r \<in> set (t_connections d)" "c_id r = i"
    with dist mem have "r = c" by (metis distinct_key_unique)
    with mem(2,3) show "connection_ok X (rotate_row X now i (Suc (c_generation c)) r)"
      by (simp add: connection_ok_def rotate_row_def)
  qed (use inv in \<open>simp_all add: conn_inv_def rotate_row_def\<close>)
  moreover have "credentials_ok X (t_credentials d')"
    using inv unfolding eff(2) conn_inv_def by (intro credentials_ok_append eff(6,7)) simp_all
  moreover have "jobs_ok (t_jobs d')"
    unfolding eff(3) by (rule jobs_ok_append) (use inv eff(4,5) in \<open>simp_all add: conn_inv_def new_job_def\<close>)
  moreover have "generations_ok (t_connections d') (t_credentials d')"
    using generations_ok_rotate [OF _ dist mem(1), of "t_credentials d" "rotate_row X now i (Suc (c_generation c))" X rnd 0 now]
      inv mem(2) unfolding eff(1,2) by (simp add: conn_inv_def rotate_row_def)
  ultimately show ?thesis by (simp add: conn_inv_def)
qed

lemma prepare_suspend_inv [inv_intros]:
  assumes inv: "conn_inv X d" and ok: "prepare_suspend rnd now i actor d = Ok d'"
  shows "conn_inv X d'"
proof -
  let ?d1 = "update_connection i (\<lambda>r. r\<lparr>c_suspended_at := Some (coalesce (c_suspended_at r) now), c_updated_at := now\<rparr>)
               (cancel_jobs i now d)"
  from ok obtain c where "get_connection i False d = Ok c" and job: "create_job (rnd 0) now i (c_generation c) None KSuspend actor
      (?d1\<lparr>t_presence := delete_where (\<lambda>p. p_connection_id p = i) (t_presence ?d1)\<rparr>) = Ok d'"
    unfolding prepare_suspend_def Let_def by (auto split: if_splits)
  have "conn_inv X ?d1"
    by (rule update_connection_inv [OF cancel_jobs_inv [OF inv]]) (simp_all add: connection_ok_def)
  then show ?thesis by (rule create_job_inv [OF presence_inv job])
qed

lemma prepare_resume_inv [inv_intros]:
  assumes inv: "conn_inv X d" and ok: "prepare_resume rnd now i actor d = Ok d'"
  shows "conn_inv X d'"
  using ok create_job_inv [OF cancel_jobs_inv [OF inv]] inv
  by (auto simp: prepare_resume_def split: if_splits)

lemma complete_suspend_inv [inv_intros]:
  assumes "conn_inv X d" and "complete_suspend now i actor d = Ok d'"
  shows "conn_inv X d'"
  using assms log_connection_inv unfolding complete_suspend_def by (auto simp del: not_Some_eq)

lemma complete_resume_inv [inv_intros]:
  assumes inv: "conn_inv X d" and ok: "complete_resume now i actor d = Ok d'"
  shows "conn_inv X d'"
proof -
  have "conn_inv X (update_connection i (\<lambda>r. r\<lparr>c_suspended_at := None, c_updated_at := now\<rparr>) d)"
    by (rule update_connection_inv [OF inv]) (simp_all add: connection_ok_def)
  with ok log_connection_inv show ?thesis unfolding complete_resume_def by (auto simp del: not_Some_eq)
qed

text \<open>
  The status an archival starts from: the credentials of the current generation are not
  revoked, so the row may become archiving.
\<close>

lemma prepare_archive_inv [inv_intros]:
  assumes inv: "conn_inv X d" and ok: "prepare_archive rnd now i actor d = Ok d'"
  shows "conn_inv X d'"
proof -
  let ?f = "\<lambda>r. r\<lparr>c_status := Archiving, c_token_hash := None, c_archived_at := Some now, c_updated_at := now\<rparr>"
  from ok obtain c d1 where c: "get_connection i False d = Ok c"
    and job: "create_job (rnd 0) now i (c_generation c) None KRevoke actor (update_connection i ?f (cancel_jobs i now d)) = Ok d1"
    and log: "log_connection ''connections.archive'' ''connection.archived'' actor i (c_name c) [] now d1 = Ok d'"
    unfolding prepare_archive_def by (auto simp del: not_Some_eq)
  from get_connection_Ok [OF c] have mem: "c \<in> set (t_connections d)" "c_id c = i" "c_archived_at c = None" by auto
  have dist: "distinct (map c_id (t_connections d))" using inv by (simp add: conn_inv_def connections_ok_def)
  have "c_status c \<noteq> Archived" using inv mem by (auto simp: conn_inv_def connections_ok_def connection_ok_def)
  have "conn_inv X (update_connection i ?f (cancel_jobs i now d))"
  proof (rule update_connection_inv [OF cancel_jobs_inv [OF inv]])
    fix r st assume "r \<in> set (t_connections (cancel_jobs i now d))" "c_id r = i" "current_state (c_status r) st"
    with dist mem have "r = c" by (metis cancel_jobs_fields(1) distinct_key_unique)
    with \<open>c_status c \<noteq> Archived\<close> \<open>current_state (c_status r) st\<close> show "current_state (c_status (?f r)) st"
      by (cases "c_status r") auto
  qed (simp_all add: connection_ok_def)
  with job log show ?thesis using create_job_inv log_connection_inv by blast
qed

lemma complete_activation_effect:
  assumes "complete_activation now i gen actor d = Ok d'"
  shows "\<exists>c. get_connection i True d = Ok c \<and>
    t_connections d' = update_where (\<lambda>r. c_id r = i)
      (\<lambda>r. r\<lparr>c_status := Active, c_activated_at := Some now, c_updated_at := now\<rparr>) (t_connections d) \<and>
    t_credentials d' = map (activate_row now i gen) (t_credentials d) \<and> t_jobs d' = t_jobs d"
  using assms log_connection_tables unfolding complete_activation_def Let_def
  by (auto simp: activate_rows simp del: not_Some_eq)

lemma complete_activation_inv [inv_intros]:
  assumes inv: "conn_inv X d" and ok: "complete_activation now i gen actor d = Ok d'"
    and cur: "\<And>c. c \<in> set (t_connections d) \<Longrightarrow> c_id c = i \<Longrightarrow> c_generation c = gen \<and> c_status c \<noteq> Archived"
  shows "conn_inv X d'"
proof -
  let ?g = "\<lambda>r. r\<lparr>c_status := Active, c_activated_at := Some now, c_updated_at := now\<rparr>"
  from complete_activation_effect [OF ok] have eff:
    "t_connections d' = update_where (\<lambda>r. c_id r = i) ?g (t_connections d)"
    "t_credentials d' = map (activate_row now i gen) (t_credentials d)" "t_jobs d' = t_jobs d" by blast+
  have "connections_ok X (t_connections d')"
    unfolding eff(1) by (rule connections_ok_update) (use inv in \<open>simp_all add: conn_inv_def connection_ok_def\<close>)
  moreover have "credentials_ok X (t_credentials d')"
    unfolding eff(2) by (rule credentials_ok_activate) (use inv in \<open>simp add: conn_inv_def\<close>)
  moreover have "generations_ok (t_connections d') (t_credentials d')"
    unfolding eff(1,2)
  proof (rule generations_ok_map)
    show "generations_ok (t_connections d) (t_credentials d)" using inv by (simp add: conn_inv_def)
    fix c and r :: credential
    assume c: "c \<in> set (t_connections d)" "c_id c = i" and r: "cr_connection_id r = i"
      "cr_generation r = c_generation c" "current_state (c_status c) (cr_state r)"
    from cur [OF c] r show "current_state (c_status (?g c)) (cr_state (activate_row now i gen r))"
      by (cases "c_status c") (simp_all add: activate_row_active)
  qed (auto simp: activate_row_def credential_key_def)
  ultimately show ?thesis using inv eff(3) by (simp add: conn_inv_def)
qed


lemma complete_archive_effect:
  assumes "complete_archive now i actor d = Ok d'"
  shows "t_connections d' = update_where (\<lambda>r. c_id r = i) (\<lambda>r. r\<lparr>c_status := Archived, c_updated_at := now\<rparr>) (t_connections d)"
    and "t_credentials d' = revoke_all now i (t_credentials d)" and "t_jobs d' = t_jobs d"
  using assms unfolding complete_archive_def by auto

lemma revoke_all_state:
  assumes "r \<in> set (revoke_all now i rs)" and "cr_connection_id r = i"
  shows "cr_state r = CredRevoked"
proof -
  from update_where_cases [OF assms(1) [unfolded revoke_all_def]] assms(2)
  consider s where "r = s\<lparr>cr_state := CredRevoked, cr_revoked_at := Some (coalesce (cr_revoked_at s) now)\<rparr>"
    | "cr_state r = CredRevoked" by blast
  then show ?thesis by cases simp_all
qed

lemma complete_archive_inv [inv_intros]:
  assumes inv: "conn_inv X d" and ok: "complete_archive now i actor d = Ok d'"
    and arch: "\<And>c. c \<in> set (t_connections d) \<Longrightarrow> c_id c = i \<Longrightarrow> c_archived_at c \<noteq> None"
  shows "conn_inv X d'"
proof -
  note eff = complete_archive_effect [OF ok]
  let ?g = "\<lambda>r. r\<lparr>c_status := Archived, c_updated_at := now\<rparr>"
  have "connections_ok X (t_connections d')"
    unfolding eff(1) by (rule connections_ok_update) (use inv arch in \<open>auto simp: conn_inv_def connection_ok_def\<close>)
  moreover have "credentials_ok X (t_credentials d')"
    unfolding eff(2) by (rule credentials_ok_revoke) (use inv in \<open>simp add: conn_inv_def\<close>)
  moreover have "generations_ok (t_connections d') (t_credentials d')"
    unfolding eff(1,2) revoke_all_def update_where_def [where p = "\<lambda>r. cr_connection_id r = i \<and> cr_state r \<noteq> CredRevoked"]
    by (rule generations_ok_map) (use inv in \<open>auto simp: conn_inv_def credential_key_def\<close>)
  ultimately show ?thesis using inv eff(3) by (simp add: conn_inv_def)
qed

lemma record_event_inv [inv_intros]:
  assumes "conn_inv X d" and "record_event ty e now d = Ok d'"
  shows "conn_inv X d'"
  using assms(1) record_event_tables [OF assms(2)] by (simp add: conn_inv_def)

lemma mark_fetched_inv [inv_intros]:
  assumes inv: "conn_inv X d" and ok: "mark_fetched now i d = Ok d'"
  shows "conn_inv X d'"
proof -
  let ?d = "update_connection i (\<lambda>r. r\<lparr>c_first_used_at := Some (coalesce (c_first_used_at r) now),
              c_last_fetched_at := Some now, c_updated_at := now\<rparr>) d"
  have "conn_inv X ?d" by (rule update_connection_inv [OF inv]) (simp_all add: connection_ok_def)
  moreover from ok have "d' = ?d \<or> (\<exists>ty e. record_event ty e now ?d = Ok d')"
    unfolding mark_fetched_def Let_def by (auto simp del: not_Some_eq split: if_splits)
  ultimately show ?thesis using record_event_inv by blast
qed

lemma subscription_inv [inv_intros]:
  assumes inv: "conn_inv X d" and ok: "subscription X i d = Ok (u, d')"
  shows "conn_inv X d'"
proof (cases "d' = d")
  case False
  with ok obtain c where c: "get_connection i False d = Ok c"
    and d': "d' = update_connection i (\<lambda>r. r\<lparr>c_token_hash := Some (x_hash X (connection_token X i (c_generation c)))\<rparr>) d"
    unfolding subscription_def Let_def by (auto split: if_splits)
  from get_connection_Ok [OF c] have mem: "c \<in> set (t_connections d)" "c_id c = i" "c_archived_at c = None" by auto
  have dist: "distinct (map c_id (t_connections d))" using inv by (simp add: conn_inv_def connections_ok_def)
  show ?thesis unfolding d'
  proof (rule update_connection_inv [OF inv])
    fix r assume "r \<in> set (t_connections d)" "c_id r = i" "connection_ok X r"
    moreover with dist mem have "r = c" by (metis distinct_key_unique)
    ultimately show "connection_ok X (r\<lparr>c_token_hash := Some (x_hash X (connection_token X i (c_generation c)))\<rparr>)"
      using mem by (simp add: connection_ok_def)
  qed simp_all
qed (use inv in simp)

section \<open>Links and passwords\<close>

lemma conn_inv_distinct: "conn_inv X d \<Longrightarrow> distinct (map c_id (t_connections d))"
  by (simp add: conn_inv_def connections_ok_def)

lemma conn_inv_same:
  "conn_inv X d \<Longrightarrow> c \<in> set (t_connections d) \<Longrightarrow> c' \<in> set (t_connections d) \<Longrightarrow> c_id c = c_id c' \<Longrightarrow> c = c'"
  by (metis conn_inv_distinct distinct_key_unique)

text \<open>
  C6.  A subscription link opens exactly the usable connection whose current generation the
  token was derived for: any other token, and the token of an earlier generation, of a
  suspended or of an archived connection, is answered with 404.
\<close>

theorem by_subscription_token_exact:
  assumes "crypto_ok X" and "conn_inv X d"
  shows "(\<forall>c. by_subscription_token X t d = Ok c \<longleftrightarrow>
           c \<in> set (t_connections d) \<and> connection_usable c \<and> c_token_hash c \<noteq> None \<and>
           t = connection_token X (c_id c) (c_generation c)) \<and>
         (\<forall>e. by_subscription_token X t d = Err e \<longrightarrow> e = ServiceError 404)"
proof (intro conjI allI)
  have ok: "connection_ok X r" if "r \<in> set (t_connections d)" for r
    using assms(2) that by (simp add: conn_inv_def connections_ok_def)
  have hash: "c_token_hash r = Some (x_hash X t) \<longleftrightarrow>
      c_token_hash r \<noteq> None \<and> t = connection_token X (c_id r) (c_generation r)"
    if "r \<in> set (t_connections d)" for r
    using ok [OF that] token_hash_inj [OF assms(1)] by (auto simp: connection_ok_def)
  fix c
  show "by_subscription_token X t d = Ok c \<longleftrightarrow>
           c \<in> set (t_connections d) \<and> connection_usable c \<and> c_token_hash c \<noteq> None \<and>
           t = connection_token X (c_id c) (c_generation c)" (is "?l \<longleftrightarrow> ?r")
  proof
    assume ?l
    then have "select_one (\<lambda>c. c_token_hash c = Some (x_hash X t) \<and> connection_usable c) (t_connections d) = Some c"
      by (simp add: by_subscription_token_def split: option.splits)
    from select_one_Some [OF this] hash show ?r by blast
  next
    assume r: ?r
    have "select_one (\<lambda>c. c_token_hash c = Some (x_hash X t) \<and> connection_usable c) (t_connections d) = Some c"
    proof (rule select_one_unique [OF conn_inv_distinct [OF assms(2)]])
      fix s assume s: "s \<in> set (t_connections d)" "c_token_hash s = Some (x_hash X t) \<and> connection_usable s"
      with hash r have "connection_token X (c_id s) (c_generation s) = connection_token X (c_id c) (c_generation c)" by metis
      with connection_token_inj [OF assms(1)] show "c_id s = c_id c" by blast
    qed (use r hash in blast)+
    then show ?l by (simp add: by_subscription_token_def)
  qed
next
  fix e show "by_subscription_token X t d = Err e \<longrightarrow> e = ServiceError 404"
    by (auto simp: by_subscription_token_def split: option.splits)
qed

text \<open>A sample: transparent cryptography and one active connection.\<close>

definition sample_crypto :: crypto where
  "sample_crypto =
     \<lparr>x_hash = (\<lambda>s. s), x_derive = (\<lambda>p s. s),
      x_seal = (\<lambda>iv s. (case s of
          HysteriaSecret a b \<Rightarrow> \<lparr>b_ciphertext = a, b_iv = ''H'', b_tag = b\<rparr>
        | XraySecret a b \<Rightarrow> \<lparr>b_ciphertext = a, b_iv = ''X'', b_tag = b\<rparr>)),
      x_open = (\<lambda>b. if b_iv b = ''H'' then Some (HysteriaSecret (b_ciphertext b) (b_tag b))
                    else Some (XraySecret (b_ciphertext b) (b_tag b)))\<rparr>"

lemma sample_crypto_ok [simp]: "crypto_ok sample_crypto"
  by (auto simp: crypto_ok_def sample_crypto_def inj_def split: secret.splits)

definition sample_conn :: connection where
  "sample_conn =
     (new_connection sample_crypto ''a'' 1 ''Phone'' ''blue'' ''avatar-1'' 5)
       \<lparr>c_status := Active, c_activated_at := Some 6\<rparr>"

definition sample_conn_db :: db where
  "sample_conn_db = empty_db\<lparr>t_connections := [sample_conn],
     t_credentials := map (activate_row 6 ''a'' 1) (issued sample_crypto (\<lambda>n. replicate n (CHR ''r'')) 1 5 ''a'' 1 CredPending)\<rparr>"

lemma sample_conn_inv [simp]: "conn_inv sample_crypto sample_conn_db"
proof -
  have "credentials_ok sample_crypto (t_credentials sample_conn_db)"
    using credentials_ok_activate [OF credentials_ok_append [of sample_crypto "[]" "''a''" 1 CredPending]]
    by (simp add: sample_conn_db_def credentials_ok_def)
  moreover have "connections_ok sample_crypto (t_connections sample_conn_db)"
    by (simp add: sample_conn_db_def connections_ok_def connection_ok_def sample_conn_def new_connection_def)
  moreover have "generations_ok (t_connections sample_conn_db) (t_credentials sample_conn_db)"
    by (simp add: sample_conn_db_def generations_ok_def current_credential_def sample_conn_def new_connection_def
        issued_def credential_row_def activate_row_def credential_key_def)
  ultimately show ?thesis by (simp add: conn_inv_def jobs_ok_def sample_conn_db_def empty_db_def)
qed

lemma by_subscription_token_exact_witness:
  "by_subscription_token sample_crypto ''a:1'' sample_conn_db = Ok sample_conn"
proof -
  have "by_subscription_token sample_crypto ''a:1'' sample_conn_db = Ok sample_conn \<longleftrightarrow>
      sample_conn \<in> set (t_connections sample_conn_db) \<and> connection_usable sample_conn \<and>
      c_token_hash sample_conn \<noteq> None \<and> ''a:1'' = connection_token sample_crypto (c_id sample_conn) (c_generation sample_conn)"
    using by_subscription_token_exact [OF sample_crypto_ok sample_conn_inv, of "''a:1''"] by blast
  moreover have "char_of (49::nat) = CHR ''1''" by code_simp
  then have "''a:1'' = connection_token sample_crypto (c_id sample_conn) (c_generation sample_conn)"
    by (simp add: connection_token_def sample_crypto_def sample_conn_def new_connection_def show_nat_small)
  ultimately show ?thesis
    by (simp add: sample_conn_db_def connection_usable_def sample_conn_def new_connection_def)
qed


text \<open>Under the invariant a credential opens to a secret of its own engine.\<close>

lemma credential_opens:
  assumes "crypto_ok X" and "conn_inv X d" and "r \<in> set (t_credentials d)"
  shows "\<exists>s. decrypt_secret X (cr_box r) = Ok s \<and> secret_of r s"
proof -
  from assms(2,3) obtain iv s where "cr_box r = x_seal X iv s" "secret_of r s"
    unfolding conn_inv_def credentials_ok_def by blast
  moreover have "x_open X (x_seal X iv s) = Some s" using assms(1) by (simp add: crypto_ok_def)
  ultimately show ?thesis by (simp add: decrypt_secret_def)
qed

definition password_of :: "crypto \<Rightarrow> credential \<Rightarrow> string \<Rightarrow> bool" where
  "password_of X r pw \<longleftrightarrow> decrypt_secret X (cr_box r) = Ok (HysteriaSecret (cr_connection_id r) pw)"

lemma match_password_exact:
  assumes "\<And>r. r \<in> set rs \<Longrightarrow> \<exists>pw. password_of X r pw"
  shows "match_password X auth rs = Ok (map_option cr_connection_id (find (\<lambda>r. password_of X r auth) rs))"
  using assms
proof (induction rs)
  case (Cons r rs)
  then obtain pw where "password_of X r pw" by auto
  with Cons show ?case by (auto simp: password_of_def)
qed simp

lemma hysteria_rows_password:
  assumes "crypto_ok X" and "conn_inv X d" and "r \<in> set (hysteria_rows d)"
  shows "\<exists>pw. password_of X r pw"
proof -
  from assms(3) have r: "r \<in> set (t_credentials d)" "cr_engine r = Hysteria" by (auto simp: hysteria_rows_def)
  from credential_opens [OF assms(1,2) r(1)] obtain s where "decrypt_secret X (cr_box r) = Ok s" "secret_of r s" by blast
  with r(2) show ?thesis by (cases s) (auto simp: password_of_def)
qed

text \<open>The active credentials of a usable connection are those of its current generation.\<close>

lemma active_credential_current:
  assumes inv: "conn_inv X d" and r: "r \<in> set (t_credentials d)" "cr_state r = CredActive"
    and c: "c \<in> set (t_connections d)" "c_id c = cr_connection_id r" "c_status c = Active"
    and e: "cr_engine r \<in> {Hysteria, Xray}"
  shows "cr_generation r = c_generation c"
proof -
  from inv c(1) e have "current_credential (t_credentials d) c (cr_engine r)"
    by (auto simp: conn_inv_def generations_ok_def)
  then obtain s where s: "s \<in> set (t_credentials d)" "credential_key s = (c_id c, c_generation c, cr_engine r)"
      "cr_state s = CredActive"
    using c(3) by (auto simp: current_credential_def)
  then have "credential_user r = credential_user s" using c(2) by (simp add: credential_key_def credential_user_def)
  moreover have "unique_on credential_user (\<lambda>r. cr_state r = CredActive) (t_credentials d)"
    using inv by (simp add: conn_inv_def credentials_ok_def)
  ultimately have "r = s" using unique_onD [OF _ r(1) s(1) r(2) s(3)] by blast
  with s(2) show ?thesis by (simp add: credential_key_def)
qed

text \<open>The credentials a Hysteria password is checked against.\<close>

definition login_credential :: "crypto \<Rightarrow> string \<Rightarrow> string \<Rightarrow> db \<Rightarrow> bool" where
  "login_credential X auth i d \<longleftrightarrow>
     (\<exists>c\<in>set (t_connections d). \<exists>r\<in>set (t_credentials d).
        c_id c = i \<and> connection_usable c \<and>
        credential_key r = (i, c_generation c, Hysteria) \<and> cr_state r = CredActive \<and> password_of X r auth)"

lemma login_credential_rows:
  assumes "conn_inv X d"
  shows "login_credential X auth i d \<longleftrightarrow> (\<exists>r\<in>set (hysteria_rows d). cr_connection_id r = i \<and> password_of X r auth)"
proof
  assume "login_credential X auth i d"
  then show "\<exists>r\<in>set (hysteria_rows d). cr_connection_id r = i \<and> password_of X r auth"
    unfolding login_credential_def hysteria_rows_def by (force simp: credential_key_def)
next
  assume "\<exists>r\<in>set (hysteria_rows d). cr_connection_id r = i \<and> password_of X r auth"
  then obtain r c where r: "r \<in> set (t_credentials d)" "cr_state r = CredActive" "cr_engine r = Hysteria"
      "cr_connection_id r = i" "password_of X r auth"
    and c: "c \<in> set (t_connections d)" "c_id c = cr_connection_id r" "connection_usable c"
    by (auto simp: hysteria_rows_def)
  have "cr_generation r = c_generation c"
    by (rule active_credential_current [OF assms r(1,2) c(1,2)]) (use r(3) c(3) in \<open>simp_all add: connection_usable_def\<close>)
  with r c show "login_credential X auth i d"
    unfolding login_credential_def by (force simp: credential_key_def)
qed

text \<open>
  C7.  The Hysteria authentication callback answers every request: it admits a connection
  exactly when that connection is usable and the password is the one of its current
  generation's active credential, and refuses when no connection has that password.
\<close>

theorem authenticate_hysteria_exact:
  assumes "crypto_ok X" and "conn_inv X d"
  shows "\<exists>r. authenticate_hysteria X auth d = Ok r \<and>
           (r = None \<longleftrightarrow> (\<forall>i. \<not> login_credential X auth i d)) \<and>
           (\<forall>i. r = Some i \<longrightarrow> login_credential X auth i d)"
proof -
  let ?f = "find (\<lambda>r. password_of X r auth) (hysteria_rows d)"
  have "authenticate_hysteria X auth d = Ok (map_option cr_connection_id ?f)"
    unfolding authenticate_hysteria_def
    by (rule match_password_exact) (use hysteria_rows_password [OF assms] in blast)
  moreover have "?f = None \<longleftrightarrow> (\<forall>i. \<not> login_credential X auth i d)"
    unfolding login_credential_rows [OF assms(2)] by (auto simp: find_None_iff)
  moreover have "login_credential X auth (cr_connection_id r) d" if "?f = Some r" for r
    unfolding login_credential_rows [OF assms(2)] using that by (auto simp: find_Some_iff)
  ultimately show ?thesis by auto
qed

lemma authenticate_hysteria_exact_witness:
  "\<exists>r. authenticate_hysteria sample_crypto ''nope'' sample_conn_db = Ok r \<and>
           (r = None \<longleftrightarrow> (\<forall>i. \<not> login_credential sample_crypto ''nope'' i sample_conn_db)) \<and>
           (\<forall>i. r = Some i \<longrightarrow> login_credential sample_crypto ''nope'' i sample_conn_db)"
  by (rule authenticate_hysteria_exact [OF sample_crypto_ok sample_conn_inv])

section \<open>The credentials the engines are given\<close>

lemma credentials_of_current:
  assumes X: "crypto_ok X" and inv: "conn_inv X d" and c: "c \<in> set (t_connections d)" and "c_status c \<noteq> Archived"
  shows "\<exists>cs pw u. credentials_of X (c_id c) None d = Ok cs \<and> cs_connection_id cs = c_id c \<and> cs_serial cs = c_serial c \<and>
           cs_generation cs = c_generation c \<and> cs_hysteria cs = HysteriaSecret (c_id c) pw \<and>
           cs_xray cs = XraySecret u (xray_email (c_id c) (c_generation c))"
proof -
  let ?rows = "filter (\<lambda>r. cr_connection_id r = c_id c \<and> cr_generation r = c_generation c \<and> cr_state r \<noteq> CredRevoked) (t_credentials d)"
  have live: "\<exists>r s. find (\<lambda>r. cr_engine r = e) ?rows = Some r \<and> decrypt_secret X (cr_box r) = Ok s \<and> secret_of r s \<and>
        cr_engine r = e \<and> cr_connection_id r = c_id c \<and> cr_generation r = c_generation c"
    if e: "e \<in> {Hysteria, Xray}" for e
  proof -
    from inv c e have "current_credential (t_credentials d) c e" by (auto simp: conn_inv_def generations_ok_def)
    then obtain r0 where "r0 \<in> set (t_credentials d)" "credential_key r0 = (c_id c, c_generation c, e)"
        "current_state (c_status c) (cr_state r0)" unfolding current_credential_def by blast
    then have "r0 \<in> set ?rows" "cr_engine r0 = e"
      using \<open>c_status c \<noteq> Archived\<close> by (cases "c_status c"; auto simp: credential_key_def)+
    then have "find (\<lambda>r. cr_engine r = e) ?rows \<noteq> None" unfolding find_None_iff by blast
    then obtain r where r: "find (\<lambda>r. cr_engine r = e) ?rows = Some r" by blast
    from select_one_Some [unfolded select_one_def, OF r] have "r \<in> set ?rows" "cr_engine r = e" by blast+
    moreover from this credential_opens [OF X inv] obtain s where "decrypt_secret X (cr_box r) = Ok s" "secret_of r s" by auto
    ultimately show ?thesis using r by auto
  qed
  from live [of Hysteria] obtain h hs where h: "find (\<lambda>r. cr_engine r = Hysteria) ?rows = Some h"
      "decrypt_secret X (cr_box h) = Ok hs" "secret_of h hs" "cr_engine h = Hysteria" "cr_connection_id h = c_id c" by auto
  from live [of Xray] obtain x xs where x: "find (\<lambda>r. cr_engine r = Xray) ?rows = Some x"
      "decrypt_secret X (cr_box x) = Ok xs" "secret_of x xs" "cr_engine x = Xray" "cr_connection_id x = c_id c"
      "cr_generation x = c_generation c" by auto
  from h obtain pw where pw: "hs = HysteriaSecret (c_id c) pw" by (cases hs) auto
  from x obtain u where u: "xs = XraySecret u (xray_email (c_id c) (c_generation c))" by (cases xs) auto
  have "get_connection (c_id c) True d = Ok c"
    by (rule get_connection_unique [OF conn_inv_distinct [OF inv] c]) simp
  then have "credentials_of X (c_id c) None d = Ok \<lparr>cs_connection_id = c_id c, cs_serial = c_serial c,
      cs_generation = c_generation c, cs_hysteria = hs, cs_xray = xs\<rparr>"
    unfolding credentials_of_def Let_def by (simp add: h(1,2) x(1,2))
  with pw u show ?thesis by (intro exI conjI) (assumption | simp)+
qed


text \<open>Credentials that belong to a connection at its current generation.\<close>

definition current_set :: "connection \<Rightarrow> credential_set \<Rightarrow> bool" where
  "current_set c cs \<longleftrightarrow> cs_connection_id cs = c_id c \<and> cs_serial cs = c_serial c \<and> cs_generation cs = c_generation c \<and>
     (\<exists>pw. cs_hysteria cs = HysteriaSecret (c_id c) pw) \<and>
     (\<exists>u. cs_xray cs = XraySecret u (xray_email (c_id c) (c_generation c)))"

text \<open>
  C8.  The snapshot the engines are synchronised from is always available: one credential
  set per active, not suspended connection in the order of the list, every one of them the
  connection's own at its current generation; nothing of a suspended, archived, rotating or
  provisioning connection is in it.
\<close>

theorem active_credentials_exact:
  assumes "crypto_ok X" and "conn_inv X d"
  shows "\<exists>css. active_credentials X d = Ok css \<and>
           list_all2 current_set (filter connection_usable (list_connections False d)) css"
proof -
  have eq: "filter (\<lambda>c. c_status c = Active \<and> c_suspended_at c = None) (list_connections False d) =
        filter connection_usable (list_connections False d)"
    by (rule filter_cong) (auto simp: connection_usable_def list_connections_def)
  show ?thesis
    unfolding active_credentials_def eq
  proof (rule map_result_total)
    fix c assume "c \<in> set (filter connection_usable (list_connections False d))"
    then have "c \<in> set (t_connections d)" "c_status c \<noteq> Archived"
      by (auto simp: list_connections_def connection_usable_def)
    from credentials_of_current [OF assms this] show "\<exists>y. credentials_of X (c_id c) None d = Ok y \<and> current_set c y"
      by (auto simp: current_set_def)
  qed
qed

lemma active_credentials_exact_witness:
  "\<exists>css. active_credentials sample_crypto sample_conn_db = Ok css \<and>
           list_all2 current_set (filter connection_usable (list_connections False sample_conn_db)) css"
  by (rule active_credentials_exact [OF sample_crypto_ok sample_conn_inv])

section \<open>Rotation and archival\<close>

text \<open>
  C9.  A rotation that is prepared and completed replaces everything: the link that opened
  the connection before is refused from the preparation on, after the completion the link of
  the next generation opens it, and its only active credentials are the two of that
  generation, the new password among them.
\<close>

theorem rotation_replaces_credentials:
  assumes X: "crypto_ok X" and inv: "conn_inv X d"
    and prep: "prepare_rotation X rnd now i actor d = Ok d1"
    and comp: "complete_activation now' i gen actor' d1 = Ok d2"
    and old: "by_subscription_token X t d = Ok c" and ci: "c_id c = i" and gen: "gen = Suc (c_generation c)"
  shows "by_subscription_token X t d1 = Err (ServiceError 404) \<and>
         by_subscription_token X t d2 = Err (ServiceError 404) \<and>
         (\<exists>c'. by_subscription_token X (connection_token X i gen) d2 = Ok c' \<and> c_id c' = i \<and> c_generation c' = gen) \<and>
         (\<forall>r\<in>set (t_credentials d2). cr_connection_id r = i \<and> cr_state r = CredActive \<longrightarrow> cr_generation r = gen) \<and>
         login_credential X (rnd 0) i d2"
proof -
  note exact = by_subscription_token_exact [OF X]
  from exact [OF inv] old have c: "c \<in> set (t_connections d)" "connection_usable c" "t = connection_token X i (c_generation c)"
    unfolding ci [symmetric] by blast+
  from prepare_rotation_effect [OF prep] obtain c0 where get: "get_connection i False d = Ok c0" and
    eff1: "t_connections d1 = update_where (\<lambda>r. c_id r = i) (rotate_row X now i (Suc (c_generation c0))) (t_connections d)"
      "t_credentials d1 = t_credentials d @ issued X rnd 0 now i (Suc (c_generation c0)) CredPending" by blast
  from get_connection_Ok [OF get] conn_inv_same [OF inv c(1)] ci have c0: "c0 = c" by blast
  note inv1 = prepare_rotation_inv [OF inv prep]
  let ?c1 = "rotate_row X now i gen c"
  have rows1: "r = ?c1" if "r \<in> set (t_connections d1)" "c_id r = i" for r
    using that conn_inv_same [OF inv c(1)] ci gen c0 unfolding eff1 set_update_where by (auto simp: rotate_row_def)
  have c1: "?c1 \<in> set (t_connections d1)" using c(1) ci gen c0 unfolding eff1 set_update_where by auto
  have cur: "c_generation r = gen \<and> c_status r \<noteq> Archived" if "r \<in> set (t_connections d1)" "c_id r = i" for r
    using rows1 [OF that] by (simp add: rotate_row_def)
  note inv2 = complete_activation_inv [OF inv1 comp cur]
  from complete_activation_effect [OF comp] have
    eff2: "t_connections d2 = update_where (\<lambda>r. c_id r = i)
      (\<lambda>r. r\<lparr>c_status := Active, c_activated_at := Some now', c_updated_at := now'\<rparr>) (t_connections d1)"
      "t_credentials d2 = map (activate_row now' i gen) (t_credentials d1)" by blast+
  let ?c2 = "?c1\<lparr>c_status := Active, c_activated_at := Some now', c_updated_at := now'\<rparr>"
  have c2: "?c2 \<in> set (t_connections d2)" using ci unfolding eff2
    using update_where_mem [OF c1, of "\<lambda>r. c_id r = i"
      "\<lambda>r. r\<lparr>c_status := Active, c_activated_at := Some now', c_updated_at := now'\<rparr>"]
    by (simp add: rotate_row_def)
  have usable: "connection_usable ?c2" using c(2) by (simp add: connection_usable_def rotate_row_def)
  have id2: "c_id ?c2 = i" "c_generation ?c2 = gen" "c_token_hash ?c2 \<noteq> None" using ci by (simp_all add: rotate_row_def)
  have refused: "by_subscription_token X t d' = Err (ServiceError 404)"
    if inv': "conn_inv X d'" and g: "\<And>r. r \<in> set (t_connections d') \<Longrightarrow> c_id r = i \<Longrightarrow> c_generation r = gen" for d'
  proof (cases "by_subscription_token X t d'")
    case (Inl e)
    with exact [OF inv', of t] show ?thesis by auto
  next
    case (Inr r)
    with exact [OF inv', of t] have r: "r \<in> set (t_connections d')" "t = connection_token X (c_id r) (c_generation r)" by auto
    with c(3) connection_token_inj [OF X] have "c_id r = i" "c_generation r = c_generation c" by metis+
    with g [OF r(1)] gen show ?thesis by simp
  qed
  have "by_subscription_token X t d2 = Err (ServiceError 404)"
  proof (rule refused [OF inv2])
    fix r assume "r \<in> set (t_connections d2)" "c_id r = i"
    with conn_inv_same [OF inv2 c2] id2 show "c_generation r = gen" by metis
  qed
  moreover have "by_subscription_token X t d1 = Err (ServiceError 404)"
    by (rule refused [OF inv1]) (use cur in blast)
  moreover have "by_subscription_token X (connection_token X i gen) d2 = Ok ?c2"
    using exact [OF inv2, of "connection_token X i gen"] c2 usable id2 by simp
  moreover have "\<forall>r\<in>set (t_credentials d2). cr_connection_id r = i \<and> cr_state r = CredActive \<longrightarrow> cr_generation r = gen"
    unfolding eff2 by (auto simp: activate_row_active)
  moreover have "login_credential X (rnd 0) i d2"
  proof -
    let ?r = "credential_row X (rnd 2) (rnd 3) now i gen CredPending (HysteriaSecret i (rnd 0))"
    have "?r \<in> set (t_credentials d1)" unfolding eff1 c0 gen by (simp add: issued_def numeral_2_eq_2)
    then have "activate_row now' i gen ?r \<in> set (t_credentials d2)" unfolding eff2 by simp
    moreover have "credential_key (activate_row now' i gen ?r) = (i, c_generation ?c2, Hysteria)"
      using id2 by (simp add: credential_row_def credential_key_def)
    moreover have "cr_state (activate_row now' i gen ?r) = CredActive"
      by (simp add: activate_row_active credential_row_def)
    moreover have "password_of X (activate_row now' i gen ?r) (rnd 0)"
      using X by (simp add: password_of_def decrypt_secret_def credential_row_def crypto_ok_def)
    ultimately show ?thesis unfolding login_credential_def using c2 usable id2(1) by blast
  qed
  ultimately show ?thesis using id2 by auto
qed


lemma log_known [simp]:
  "''connection.rotated'' \<in> fst ` set definitions" "''connection.activated'' \<in> fst ` set definitions"
  "''connection.archived'' \<in> fst ` set definitions" "''connection.created'' \<in> fst ` set definitions"
  "''connection.suspended'' \<in> fst ` set definitions" "''connection.resumed'' \<in> fst ` set definitions"
  unfolding definitions_def list.set image_insert fst_conv def_change_def def_activity_def
  by ((rule insertI1 | rule insertI2)+)+

lemma complete_activation_total:
  assumes "conn_inv X d" and "c \<in> set (t_connections d)" and "c_id c = i"
  shows "\<exists>d'. complete_activation now i gen actor d = Ok d'"
proof -
  have "get_connection i True d = Ok c"
    using get_connection_unique [OF conn_inv_distinct [OF assms(1)] assms(2), of True] assms(3) by simp
  then show ?thesis
    using log_connection_total [OF log_known(1)] log_connection_total [OF log_known(2)]
    by (simp add: complete_activation_def Let_def)
qed

text \<open>
  A rotation of an active connection without an open job cannot fail for its link or its
  generation: only a collision of freshly drawn row ids can stop it.
\<close>

lemma prepare_rotation_total:
  assumes X: "crypto_ok X" and inv: "conn_inv X d"
    and c: "c \<in> set (t_connections d)" "c_id c = i" "connection_usable c"
    and jobs: "\<forall>j\<in>set (t_jobs d). j_connection_id j = i \<longrightarrow> \<not> job_open j"
    and fresh: "rnd 3 \<noteq> rnd 5" "\<forall>r\<in>set (t_credentials d). cr_id r \<noteq> rnd 3 \<and> cr_id r \<noteq> rnd 5"
      "\<forall>j\<in>set (t_jobs d). j_id j \<noteq> rnd 6"
  shows "\<exists>d'. prepare_rotation X rnd now i actor d = Ok d'"
proof -
  let ?g = "Suc (c_generation c)"
  have get: "get_connection i False d = Ok c"
    using get_connection_unique [OF conn_inv_distinct [OF inv] c(1), of False] c(2,3)
    by (simp add: connection_usable_def)
  have free: "token_free i (x_hash X (connection_token X i ?g)) d"
    by (rule token_free_ok [OF X]) (use inv in \<open>simp add: conn_inv_def\<close>)
  have key: "credential_key r \<noteq> (i, ?g, e)" if "r \<in> set (t_credentials d)" for r e
  proof
    assume "credential_key r = (i, ?g, e)"
    with that inv obtain c' where "c' \<in> set (t_connections d)" "c_id c' = i" "?g \<le> c_generation c'"
      unfolding conn_inv_def generations_ok_def credential_key_def by auto
    with conn_inv_same [OF inv c(1)] c(2) show False by force
  qed
  have "\<exists>d1. issue X rnd 0 now i ?g CredPending (update_connection i f d) = Ok d1" for f
    using fresh(1,2) key
    by (fastforce simp: issue_def store_credential_def insert_credential_def credential_key_def)
  then obtain d1 where iss: "issue X rnd 0 now i ?g CredPending
      (update_connection i (rotate_row X now i ?g) d) = Ok d1" by blast
  have "t_jobs d1 = t_jobs d" using issue_Ok [OF iss] by simp
  then have "\<exists>d'. create_job (rnd 6) now i ?g (Some (c_generation c)) KRotate actor d1 = Ok d'"
    using jobs fresh(3) by (auto simp: create_job_def)
  with iss get free c(3) show ?thesis
    by (simp add: prepare_rotation_def Let_def connection_usable_def rotate_row_def [abs_def])
qed

lemma rotation_replaces_credentials_witness:
  "\<exists>d1 d2. prepare_rotation sample_crypto (\<lambda>n. replicate (n + 10) (CHR ''q'')) 7 ''a'' ''owner'' sample_conn_db = Ok d1 \<and>
     complete_activation 8 ''a'' 2 ''owner'' d1 = Ok d2 \<and>
     by_subscription_token sample_crypto ''a:1'' d2 = Err (ServiceError 404)"
proof -
  let ?rnd = "\<lambda>n. replicate (n + 10) (CHR ''q'')"
  have c: "sample_conn \<in> set (t_connections sample_conn_db)" by (simp add: sample_conn_db_def)
  have f: "c_id sample_conn = ''a''" "c_generation sample_conn = 1" "connection_usable sample_conn"
    by (simp_all add: sample_conn_def new_connection_def connection_usable_def)
  have "\<exists>d1. prepare_rotation sample_crypto ?rnd 7 ''a'' ''owner'' sample_conn_db = Ok d1"
    by (rule prepare_rotation_total [OF sample_crypto_ok sample_conn_inv c f(1) f(3)])
       (simp_all add: sample_conn_db_def empty_db_def issued_def credential_row_def activate_row_def eval_nat_numeral)
  then obtain d1 where d1: "prepare_rotation sample_crypto ?rnd 7 ''a'' ''owner'' sample_conn_db = Ok d1" by blast
  from prepare_rotation_effect [OF d1] obtain g where
    eff: "t_connections d1 = update_where (\<lambda>r. c_id r = ''a'') (rotate_row sample_crypto 7 ''a'' g) (t_connections sample_conn_db)"
    by blast
  have "c_id (rotate_row sample_crypto 7 ''a'' g sample_conn) = ''a''" using f(1) by (simp add: rotate_row_def)
  with update_where_mem [OF c, of "\<lambda>r. c_id r = ''a''" "rotate_row sample_crypto 7 ''a'' g"] f(1)
  have "\<exists>r\<in>set (t_connections d1). c_id r = ''a''" unfolding eff by blast
  then obtain d2 where d2: "complete_activation 8 ''a'' 2 ''owner'' d1 = Ok d2"
    using complete_activation_total [OF prepare_rotation_inv [OF sample_conn_inv d1]] by blast
  have "2 = Suc (c_generation sample_conn)" using f by simp
  from rotation_replaces_credentials [OF sample_crypto_ok sample_conn_inv d1 d2
      by_subscription_token_exact_witness f(1) this]
  show ?thesis using d1 d2 by blast
qed


text \<open>
  C10.  Archival is final.  Once it is prepared, the connection is gone for every operation
  that does not ask for archived ones and its link is refused, whatever token is presented;
  once it is complete, none of its credentials is live and no password of it is admitted.
\<close>

theorem archive_is_final:
  assumes X: "crypto_ok X" and inv: "conn_inv X d"
    and prep: "prepare_archive rnd now i actor d = Ok d1" and comp: "complete_archive now' i actor' d1 = Ok d2"
  shows "get_connection i False d1 = Err (ServiceError 404) \<and>
         (\<forall>t c. by_subscription_token X t d1 = Ok c \<longrightarrow> c_id c \<noteq> i) \<and>
         (\<forall>t c. by_subscription_token X t d2 = Ok c \<longrightarrow> c_id c \<noteq> i) \<and>
         (\<forall>r\<in>set (t_credentials d2). cr_connection_id r = i \<longrightarrow> cr_state r = CredRevoked) \<and>
         (\<forall>pw. \<not> login_credential X pw i d1) \<and>
         credentials_of X i None d2 = Err (ServiceError 409)"
proof -
  let ?f = "\<lambda>r. r\<lparr>c_status := Archiving, c_token_hash := None, c_archived_at := Some now, c_updated_at := now\<rparr>"
  from prep obtain c e1 where c: "get_connection i False d = Ok c"
    and job: "create_job (rnd 0) now i (c_generation c) None KRevoke actor (update_connection i ?f (cancel_jobs i now d)) = Ok e1"
    and log: "log_connection ''connections.archive'' ''connection.archived'' actor i (c_name c) [] now e1 = Ok d1"
    unfolding prepare_archive_def by (auto simp del: not_Some_eq)
  have eff1: "t_connections d1 = update_where (\<lambda>r. c_id r = i) ?f (t_connections d)"
    using job log_connection_tables [OF log] unfolding create_job_Ok by simp
  note eff2 = complete_archive_effect [OF comp]
  note inv1 = prepare_archive_inv [OF inv prep]
  have gone1: "c_archived_at r \<noteq> None" if "r \<in> set (t_connections d1)" "c_id r = i" for r
  proof -
    from update_where_cases [OF that(1) [unfolded eff1]] that(2) obtain s where "r = ?f s" by blast
    then show ?thesis by simp
  qed
  have inv2: "conn_inv X d2" by (rule complete_archive_inv [OF inv1 comp gone1])
  have gone2: "c_archived_at r \<noteq> None" if "r \<in> set (t_connections d2)" "c_id r = i" for r
  proof -
    from update_where_cases [OF that(1) [unfolded eff2(1)]] that(2) obtain s where
      "s \<in> set (t_connections d1)" "c_id s = i" "r = s\<lparr>c_status := Archived, c_updated_at := now'\<rparr>" by blast
    with gone1 show ?thesis by simp
  qed
  have "get_connection i False d1 = Err (ServiceError 404)"
  proof -
    have "select_one (\<lambda>c. c_id c = i \<and> (False \<or> c_archived_at c = None)) (t_connections d1) = None"
      unfolding select_one_None using gone1 by blast
    then show ?thesis unfolding get_connection_def by (simp only: option.case)
  qed
  moreover have "\<forall>t c. by_subscription_token X t d1 = Ok c \<longrightarrow> c_id c \<noteq> i"
    using by_subscription_token_exact [OF X inv1] gone1 unfolding connection_usable_def by blast
  moreover have "\<forall>t c. by_subscription_token X t d2 = Ok c \<longrightarrow> c_id c \<noteq> i"
    using by_subscription_token_exact [OF X inv2] gone2 unfolding connection_usable_def by blast
  moreover have revoked: "\<forall>r\<in>set (t_credentials d2). cr_connection_id r = i \<longrightarrow> cr_state r = CredRevoked"
    unfolding eff2(2) using revoke_all_state by blast
  moreover have "\<forall>pw. \<not> login_credential X pw i d1"
    using gone1 unfolding login_credential_def connection_usable_def by blast
  moreover have "credentials_of X i None d2 = Err (ServiceError 409)"
  proof -
    from get_connection_Ok [OF c] have "c \<in> set (t_connections d)" "c_id c = i" by auto
    from update_where_mem [OF this(1), of "\<lambda>r. c_id r = i" ?f] this(2)
    have m1: "?f c \<in> set (t_connections d1)" "c_id (?f c) = i" unfolding eff1 by simp_all
    let ?g = "\<lambda>r. r\<lparr>c_status := Archived, c_updated_at := now'\<rparr>"
    from update_where_mem [OF m1(1), of "\<lambda>r. c_id r = i" ?g] m1(2)
    have "?g (?f c) \<in> set (t_connections d2)" "c_id (?g (?f c)) = i" unfolding eff2(1) by simp_all
    with get_connection_unique [OF conn_inv_distinct [OF inv2], of "?g (?f c)" True]
    have got: "get_connection i True d2 = Ok (?g (?f c))" by simp
    have "filter (\<lambda>r. cr_connection_id r = i \<and> cr_generation r = g \<and> cr_state r \<noteq> CredRevoked) (t_credentials d2) = []" for g
      using revoked by (auto simp: filter_empty_conv)
    with got show ?thesis by (simp add: credentials_of_def Let_def)
  qed
  ultimately show ?thesis by blast
qed

lemma archive_is_final_witness:
  "\<exists>d1 d2. prepare_archive (\<lambda>n. ''j'') 7 ''a'' ''owner'' sample_conn_db = Ok d1 \<and>
     complete_archive 8 ''a'' ''owner'' d1 = Ok d2 \<and> (\<forall>pw. \<not> login_credential sample_crypto pw ''a'' d1)"
proof -
  have c: "get_connection ''a'' False sample_conn_db = Ok sample_conn"
    by (simp add: get_connection_def sample_conn_db_def sample_conn_def new_connection_def)
  let ?d = "update_connection ''a'' (\<lambda>r. r\<lparr>c_status := Archiving, c_token_hash := None, c_archived_at := Some 7,
      c_updated_at := 7\<rparr>) (cancel_jobs ''a'' 7 sample_conn_db)"
  have "\<exists>d0. create_job ''j'' 7 ''a'' (c_generation sample_conn) None KRevoke ''owner'' ?d = Ok d0"
    by (simp add: create_job_def sample_conn_db_def empty_db_def cancel_jobs_def)
  then obtain d0 where d0: "create_job ''j'' 7 ''a'' (c_generation sample_conn) None KRevoke ''owner'' ?d = Ok d0" by blast
  obtain d1 where d1: "log_connection ''connections.archive'' ''connection.archived'' ''owner'' ''a'' (c_name sample_conn) [] 7 d0 = Ok d1"
    using log_connection_total [OF log_known(3)] by blast
  have prep: "prepare_archive (\<lambda>n. ''j'') 7 ''a'' ''owner'' sample_conn_db = Ok d1"
    using c d0 d1 by (simp add: prepare_archive_def)
  have "t_connections d1 = t_connections ?d"
    using d0 log_connection_tables [OF d1] unfolding create_job_Ok by simp
  then have "\<exists>c. get_connection ''a'' True d1 = Ok c"
    by (simp add: get_connection_def sample_conn_db_def sample_conn_def new_connection_def)
  then obtain d2 where d2: "complete_archive 8 ''a'' ''owner'' d1 = Ok d2" by (auto simp: complete_archive_def)
  from archive_is_final [OF sample_crypto_ok sample_conn_inv prep d2] prep d2 show ?thesis by blast
qed

end
