(* ===== verification/Engine_Runtime.thy ===== *)
theory Engine_Runtime
  imports Connection_Safety Methods
begin

text \<open>
  The engine runtime (src/src/server/services/engine-runtime.ts): which credentials an
  engine's snapshot holds, and the agent commands that add, rotate and revoke the users of a
  connection.  Rendering a snapshot into an engine's configuration text is left out: a
  command carries the credential sets the configuration is rendered from.  The demo mode,
  which calls no agent, is not modelled.
\<close>

section \<open>Snapshots\<close>

datatype selection = Include string nat | Exclude string | Everyone

fun other_connection :: "selection \<Rightarrow> connection \<Rightarrow> bool" where
  "other_connection (Include i g) c = (c_id c \<noteq> i)"
| "other_connection (Exclude i) c = (c_id c \<noteq> i)"
| "other_connection Everyone c = True"

text \<open>\<open>activeCredentials\<close>: usable connections in row order, the included one last.\<close>

definition snapshot :: "crypto \<Rightarrow> selection \<Rightarrow> db \<Rightarrow> credential_set list result" where
  "snapshot X sel d =
     bind_result (map_result (\<lambda>c. credentials_of X (c_id c) (Some (c_generation c)) d)
                    (filter (\<lambda>c. connection_usable c \<and> other_connection sel c) (t_connections d))) (\<lambda>others.
       (case sel of
          Include i g \<Rightarrow> bind_result (credentials_of X i (Some g) d) (\<lambda>cs. Ok (others @ [cs]))
        | _ \<Rightarrow> Ok others))"

section \<open>Commands of the agent\<close>

datatype command =
    UserAdd credential_set "credential_set list"
  | UserRevoke string "credential_set list"
  | SyncConfig engine "credential_set list"
  | ApplyConfig engine "credential_set list"

definition default_xray_listeners :: "path_config \<Rightarrow> db \<Rightarrow> bool" where
  "default_xray_listeners ps d \<longleftrightarrow>
     length (filter (\<lambda>m. m_engine m = Xray \<and> m_enabled m) (method_list ps d)) = 2"

fun xray_address :: "secret \<Rightarrow> string" where
  "xray_address (XraySecret u mail) = mail"
| "xray_address (HysteriaSecret i pw) = []"

text \<open>The first command of \<open>add\<close>, \<open>rotate\<close> and \<open>revoke\<close>.\<close>

definition add_command :: "crypto \<Rightarrow> path_config \<Rightarrow> string \<Rightarrow> nat \<Rightarrow> db \<Rightarrow> command result" where
  "add_command X ps i g d =
     bind_result (credentials_of X i (Some g) d) (\<lambda>cs.
     bind_result (snapshot X (Include i g) d) (\<lambda>all.
       Ok (if default_xray_listeners ps d then UserAdd cs all else SyncConfig Xray all)))"

definition rotate_command :: "crypto \<Rightarrow> string \<Rightarrow> nat \<Rightarrow> db \<Rightarrow> command result" where
  "rotate_command X i g d = bind_result (snapshot X (Include i g) d) (\<lambda>all. Ok (SyncConfig Xray all))"

definition revoke_command :: "crypto \<Rightarrow> path_config \<Rightarrow> string \<Rightarrow> nat \<Rightarrow> db \<Rightarrow> command result" where
  "revoke_command X ps i g d =
     (if default_xray_listeners ps d
      then bind_result (credentials_of X i (Some g) d) (\<lambda>cs.
           bind_result (snapshot X (Exclude i) d) (\<lambda>all. Ok (UserRevoke (xray_address (cs_xray cs)) all)))
      else bind_result (snapshot X (Exclude i) d) (\<lambda>all. Ok (SyncConfig Xray all)))"

text \<open>\<open>syncOptional\<close>: the database is read again after the agent has answered the first command.\<close>

definition optional_commands :: "crypto \<Rightarrow> selection \<Rightarrow> db \<Rightarrow> command list result" where
  "optional_commands X sel d =
     bind_result (snapshot X sel d) (\<lambda>all. Ok (map (\<lambda>e. SyncConfig e all) (optional_installed d)))"

definition recovery_commands :: "crypto \<Rightarrow> db \<Rightarrow> command list result" where
  "recovery_commands X d =
     bind_result (snapshot X Everyone d) (\<lambda>all. Ok (map (\<lambda>e. ApplyConfig e all) (installed_engines d)))"

definition reconcile_command :: "crypto \<Rightarrow> engine \<Rightarrow> db \<Rightarrow> command result" where
  "reconcile_command X e d = bind_result (snapshot X Everyone d) (\<lambda>all. Ok (SyncConfig e all))"

section \<open>The users the running engines admit\<close>

text \<open>
  What the agent (src/agent/cmd/outpost-agent/main.go) does with a command: a synchronised
  configuration replaces the users of the engine; a user is added or removed hot through
  Xray's API, and when that does not succeed (\<open>hot\<close> is false, or the user to remove is not
  there) the service restarts with the recovery configuration, the snapshot of the command.
  A configuration applied without a restart leaves the running engine alone.  A command that
  fails leaves the users as they were.
\<close>

type_synonym user = "string \<times> nat"
type_synonym host = "engine \<Rightarrow> user list"

definition user_of :: "credential_set \<Rightarrow> user" where
  "user_of cs = (cs_connection_id cs, cs_generation cs)"

definition address_of :: "user \<Rightarrow> string" where
  "address_of u = xray_email (fst u) (snd u)"

fun run_command :: "bool \<Rightarrow> command \<Rightarrow> host \<Rightarrow> host" where
  "run_command hot (UserAdd cs all) h =
     h(Xray := if hot then user_of cs # h Xray else map user_of all)"
| "run_command hot (UserRevoke mail all) h =
     h(Xray := if hot \<and> (\<exists>u\<in>set (h Xray). address_of u = mail)
               then filter (\<lambda>u. address_of u \<noteq> mail) (h Xray) else map user_of all)"
| "run_command hot (SyncConfig e all) h = h(e := map user_of all)"
| "run_command hot (ApplyConfig e all) h = h"

datatype outcome = Refused | Done bool

fun run_commands :: "command list \<Rightarrow> outcome list \<Rightarrow> host \<Rightarrow> bool \<times> host" where
  "run_commands [] os h = (True, h)"
| "run_commands (c # cs) (Done hot # os) h = run_commands cs os (run_command hot c h)"
| "run_commands (c # cs) _ h = (False, h)"

definition admits :: "host \<Rightarrow> engine \<Rightarrow> string \<Rightarrow> bool" where
  "admits h e i \<longleftrightarrow> (\<exists>g. (i, g) \<in> set (h e))"

section \<open>What a snapshot holds\<close>

lemma map_result_all2:
  "map_result f xs = Ok ys \<Longrightarrow> list_all2 (\<lambda>x y. f x = Ok y) xs ys"
  by (induction xs arbitrary: ys) auto

lemma credentials_of_user:
  "credentials_of X i (Some g) d = Ok cs \<Longrightarrow> user_of cs = (i, g)"
  unfolding credentials_of_def Let_def user_of_def
  by (cases "find (\<lambda>r. cr_engine r = Hysteria) (filter (\<lambda>r. cr_connection_id r = i \<and> cr_generation r = g
          \<and> cr_state r \<noteq> CredRevoked) (t_credentials d))";
      cases "find (\<lambda>r. cr_engine r = Xray) (filter (\<lambda>r. cr_connection_id r = i \<and> cr_generation r = g
          \<and> cr_state r \<noteq> CredRevoked) (t_credentials d))") auto

text \<open>The users of a snapshot: the usable connections it selects at their current generation.\<close>

definition selected_users :: "selection \<Rightarrow> db \<Rightarrow> user list" where
  "selected_users sel d =
     map (\<lambda>c. (c_id c, c_generation c)) (filter (\<lambda>c. connection_usable c \<and> other_connection sel c) (t_connections d)) @
     (case sel of Include i g \<Rightarrow> [(i, g)] | _ \<Rightarrow> [])"

lemma list_all2_map_eq: "list_all2 P xs ys \<Longrightarrow> (\<And>x y. P x y \<Longrightarrow> f x = g y) \<Longrightarrow> map f xs = map g ys"
  by (induction rule: list_all2_induct) auto

lemma snapshot_users:
  assumes "snapshot X sel d = Ok all"
  shows "map user_of all = selected_users sel d"
proof -
  let ?rows = "filter (\<lambda>c. connection_usable c \<and> other_connection sel c) (t_connections d)"
  from assms obtain others where oth: "map_result (\<lambda>c. credentials_of X (c_id c) (Some (c_generation c)) d) ?rows = Ok others"
    and all: "(case sel of Include i g \<Rightarrow> bind_result (credentials_of X i (Some g) d) (\<lambda>cs. Ok (others @ [cs]))
        | _ \<Rightarrow> Ok others) = Ok all"
    unfolding snapshot_def bind_result_Ok by blast
  have "map (\<lambda>c. (c_id c, c_generation c)) ?rows = map user_of others"
    by (rule list_all2_map_eq [OF map_result_all2 [OF oth]]) (use credentials_of_user in metis)
  with all show ?thesis
    by (cases sel) (auto simp: selected_users_def dest: credentials_of_user)
qed

lemma selected_usable:
  "(j, g) \<in> set (selected_users sel d) \<Longrightarrow>
     (\<exists>c\<in>set (t_connections d). c_id c = j \<and> c_generation c = g \<and> connection_usable c \<and> other_connection sel c) \<or>
     sel = Include j g"
  by (cases sel) (auto simp: selected_users_def)

text \<open>After the optional engines are synchronised, each of them admits exactly the selection.\<close>

lemma run_sync_commands:
  assumes "run_commands (map (\<lambda>e. SyncConfig e all) es) os h = (ok, h')"
  shows "(\<forall>e. h' e = h e \<or> (e \<in> set es \<and> h' e = map user_of all)) \<and> (ok \<longrightarrow> (\<forall>e\<in>set es. h' e = map user_of all))"
  using assms
proof (induction es arbitrary: os h)
  case (Cons e es)
  show ?case
  proof (cases os)
    case Nil
    with Cons.prems show ?thesis by simp
  next
    case (Cons out os')
    show ?thesis
    proof (cases out)
      case Refused
      with Cons \<open>os = out # os'\<close> Cons.prems show ?thesis by simp
    next
      case (Done hot)
      with Cons Cons.prems have "run_commands (map (\<lambda>e. SyncConfig e all) es) os' (h(e := map user_of all)) = (ok, h')" by simp
      from Cons.IH [OF this] show ?thesis by (auto split: if_splits)
    qed
  qed
qed simp

end
