(* ===== verification/Connection_Sync.thy ===== *)
theory Connection_Sync
  imports Engine_Runtime
begin

text \<open>
  The synchronisation of connections with the engines
  (src/src/server/services/connection-sync.ts).  A request prepares a job and claims it in
  one synchronous step; the claimed jobs then wait for the lock \<open>engine-snapshot\<close>, which
  serves them in the order of their claims, and the job that holds it calls the agent.

  The state is the database, the queue of claimed jobs (its head holds the lock) and the
  users the running engines admit.  A step is what happens between two points where the
  event loop may run something else: a request, the drain's claim of a due job, the first
  agent command of the head, its optional commands, its completion, the reconciliation of an
  engine under the same lock, a write of another service, or a restart of the process.
\<close>

section \<open>Jobs in the database\<close>

text \<open>\<open>ORDER BY created_at DESC, rowid DESC LIMIT 1\<close>.\<close>

definition newest_job :: "(sync_job \<Rightarrow> bool) \<Rightarrow> db \<Rightarrow> sync_job option" where
  "newest_job p d =
     (case sort_by (\<lambda>a b. j_created_at b \<le> j_created_at a) (rev (filter p (t_jobs d))) of
        [] \<Rightarrow> None | j # _ \<Rightarrow> Some j)"

definition latest_job :: "string \<Rightarrow> db \<Rightarrow> sync_job option" where
  "latest_job i = newest_job (\<lambda>j. j_connection_id j = i)"

definition open_job :: "string \<Rightarrow> db \<Rightarrow> sync_job option" where
  "open_job i = newest_job (\<lambda>j. j_connection_id j = i \<and> job_open j)"

definition update_jobs :: "(sync_job \<Rightarrow> bool) \<Rightarrow> (sync_job \<Rightarrow> sync_job) \<Rightarrow> db \<Rightarrow> db" where
  "update_jobs p f d = d\<lparr>t_jobs := update_where p f (t_jobs d)\<rparr>"

text \<open>
  The synchronous part of \<open>run\<close>: claim the open job of the connection, when it is due or
  \<open>force\<close> is set, and read it back.
\<close>

definition running_row :: "time \<Rightarrow> sync_job \<Rightarrow> sync_job" where
  "running_row now j = j\<lparr>j_status := JRunning, j_attempts := Suc (j_attempts j), j_updated_at := now\<rparr>"

definition claim_job :: "bool \<Rightarrow> time \<Rightarrow> string \<Rightarrow> db \<Rightarrow> sync_job option \<times> db" where
  "claim_job force now i d =
     (case open_job i d of
        None \<Rightarrow> (None, d)
      | Some job \<Rightarrow>
          (let p = (\<lambda>j. j_id j = j_id job \<and> j_status j \<in> {JPending, JFailed} \<and> (force \<or> j_next_attempt_at j \<le> now));
               d' = update_jobs p (running_row now) d
           in if changes p (t_jobs d) = 0 then (None, d)
              else (select_one (\<lambda>j. j_id j = j_id job) (t_jobs d'), d')))"

text \<open>The delay before the next attempt: five seconds, doubled, five minutes at most.\<close>

definition retry_seconds :: "nat \<Rightarrow> nat" where
  "retry_seconds attempts = min 300 (5 * 2 ^ (attempts - 1))"

definition next_retry :: "nat \<Rightarrow> time \<Rightarrow> time" where
  "next_retry attempts now = now + int (retry_seconds attempts * 1000)"

definition fail_job :: "time \<Rightarrow> sync_job \<Rightarrow> string \<Rightarrow> db \<Rightarrow> db" where
  "fail_job now job err =
     update_jobs (\<lambda>j. j_id j = j_id job \<and> j_status j = JRunning)
       (\<lambda>j. j\<lparr>j_status := JFailed, j_next_attempt_at := next_retry (j_attempts job) now,
              j_last_error := Some (take 500 err), j_updated_at := now\<rparr>)"

definition complete_job :: "time \<Rightarrow> string \<Rightarrow> db \<Rightarrow> db" where
  "complete_job now i =
     update_jobs (\<lambda>j. j_id j = i \<and> j_status j = JRunning)
       (\<lambda>j. j\<lparr>j_status := JCompleted, j_next_attempt_at := now, j_last_error := None,
              j_completed_at := Some now, j_updated_at := now\<rparr>)"

definition recover_interrupted :: "time \<Rightarrow> db \<Rightarrow> db" where
  "recover_interrupted now =
     update_jobs (\<lambda>j. j_status j = JRunning)
       (\<lambda>j. j\<lparr>j_status := JFailed, j_next_attempt_at := now, j_last_error := Some ''interrupted'',
              j_updated_at := now\<rparr>)"

text \<open>The connections whose open jobs a drain claims, oldest job first.\<close>

definition due_jobs :: "time \<Rightarrow> nat \<Rightarrow> db \<Rightarrow> string list" where
  "due_jobs now limit d =
     map j_connection_id (take limit (sort_by (\<lambda>a b. j_created_at a \<le> j_created_at b)
       (filter (\<lambda>j. j_status j \<in> {JPending, JFailed} \<and> j_next_attempt_at j \<le> now) (t_jobs d))))"

section \<open>Requests\<close>

datatype sync_request =
    ActivateReq string
  | RetryReq string
  | RotateReq string string
  | SuspendReq string string
  | ResumeReq string string
  | ArchiveReq string string

fun request_connection :: "sync_request \<Rightarrow> string" where
  "request_connection (ActivateReq i) = i"
| "request_connection (RetryReq i) = i"
| "request_connection (RotateReq i a) = i"
| "request_connection (SuspendReq i a) = i"
| "request_connection (ResumeReq i a) = i"
| "request_connection (ArchiveReq i a) = i"

text \<open>
  The synchronous start of a request: the job it claims, if any, and the database.  \<open>rnd\<close> are
  the random draws of the preparation.
\<close>

fun start_request ::
  "crypto \<Rightarrow> (nat \<Rightarrow> string) \<Rightarrow> time \<Rightarrow> sync_request \<Rightarrow> db \<Rightarrow> (sync_job option \<times> db) result" where
  "start_request X rnd now (ActivateReq i) d =
     bind_result (get_connection i False d) (\<lambda>c.
       if c_status c = Active then Ok (None, d)
       else if c_status c \<noteq> Provisioning then Err (ServiceError 409)
       else Ok (claim_job True now i d))"
| "start_request X rnd now (RetryReq i) d =
     bind_result (get_connection i True d) (\<lambda>c.
       (case open_job i d of
          None \<Rightarrow> if c_status c = Active \<or> c_status c = Archived then Ok (None, d) else Err (ServiceError 409)
        | Some job \<Rightarrow>
            Ok (claim_job True now i
              (update_jobs (\<lambda>j. j_id j = j_id job \<and> j_status j = JFailed)
                 (\<lambda>j. j\<lparr>j_status := JPending, j_next_attempt_at := now, j_last_error := None, j_updated_at := now\<rparr>) d))))"
| "start_request X rnd now (RotateReq i actor) d =
     bind_result (prepare_rotation X rnd now i actor d) (\<lambda>d'. Ok (claim_job True now i d'))"
| "start_request X rnd now (SuspendReq i actor) d =
     bind_result (get_connection i False d) (\<lambda>c.
       if c_status c \<noteq> Active then Err (ServiceError 409)
       else bind_result
         (if c_suspended_at c = None \<or> map_option j_kind (open_job i d) = Some KResume
          then prepare_suspend rnd now i actor d else Ok d) (\<lambda>d'.
         (case open_job i d' of
            Some j \<Rightarrow> Ok (if j_kind j = KSuspend then claim_job True now i d' else (None, d'))
          | None \<Rightarrow> Ok (None, d'))))"
| "start_request X rnd now (ResumeReq i actor) d =
     bind_result (get_connection i False d) (\<lambda>c.
       if c_status c \<noteq> Active then Err (ServiceError 409)
       else if c_suspended_at c = None then Ok (None, d)
       else bind_result
         (if map_option j_kind (open_job i d) = Some KResume then Ok d else prepare_resume rnd now i actor d)
         (\<lambda>d'. Ok (claim_job True now i d')))"
| "start_request X rnd now (ArchiveReq i actor) d =
     bind_result (prepare_archive rnd now i actor d) (\<lambda>d'. Ok (claim_job True now i d'))"

section \<open>What the owner sees\<close>

datatype view_state =
    VReady | VSuspended | VSuspending | VSuspensionRetry | VResuming | VResumeRetry
  | VProvisioning | VRetrying | VRotating | VRotationRetry | VArchiving | VArchiveRetry | VArchived

definition view_of :: "connection \<Rightarrow> sync_job option \<Rightarrow> view_state" where
  "view_of c job =
     (let failed = (map_option j_status job = Some JFailed);
          unfinished = (\<lambda>k. case job of None \<Rightarrow> False | Some j \<Rightarrow> j_kind j = k \<and> j_status j \<notin> {JCompleted, JCancelled})
      in case c_status c of
           Active \<Rightarrow>
             if c_suspended_at c \<noteq> None
             then if unfinished KResume then (if failed then VResumeRetry else VResuming)
                  else if unfinished KSuspend then (if failed then VSuspensionRetry else VSuspending)
                  else VSuspended
             else VReady
         | Archived \<Rightarrow> VArchived
         | Rotating \<Rightarrow> if failed then VRotationRetry else VRotating
         | Archiving \<Rightarrow> if failed then VArchiveRetry else VArchiving
         | Provisioning \<Rightarrow> if failed then VRetrying else VProvisioning)"

text \<open>\<open>connection\<close>: the state, and the link of a ready connection.\<close>

definition sync_view :: "crypto \<Rightarrow> string \<Rightarrow> bool \<Rightarrow> db \<Rightarrow> ((view_state \<times> string option) \<times> db) result" where
  "sync_view X i include_archived d =
     bind_result (get_connection i include_archived d) (\<lambda>c.
       (let v = view_of c (latest_job i d)
        in if v = VReady then bind_result (subscription X i d) (\<lambda>(link, d'). Ok ((v, link), d'))
           else Ok ((v, None), d)))"

section \<open>The job that holds the lock\<close>

datatype phase = Waiting | FirstDone | EnginesDone

record task =
  tk_job :: sync_job
  tk_phase :: phase

record sync_state =
  s_db :: db
  s_queue :: "task list"
  s_host :: host

text \<open>The first agent command of a job; none when there is no active credential to revoke.\<close>

definition active_generation :: "string \<Rightarrow> db \<Rightarrow> nat option" where
  "active_generation i d =
     map_option cr_generation (select_one (\<lambda>r. cr_connection_id r = i \<and> cr_state r = CredActive) (t_credentials d))"

definition first_command :: "crypto \<Rightarrow> path_config \<Rightarrow> sync_job \<Rightarrow> db \<Rightarrow> command option result" where
  "first_command X ps job d =
     (let i = j_connection_id job; g = j_generation job; some = (\<lambda>r. bind_result r (\<lambda>c. Ok (Some c)))
      in case j_kind job of
           KActivate \<Rightarrow> some (add_command X ps i g d)
         | KRotate \<Rightarrow> some (rotate_command X i g d)
         | KSuspend \<Rightarrow> some (revoke_command X ps i g d)
         | KResume \<Rightarrow> some (add_command X ps i g d)
         | KRevoke \<Rightarrow> (case active_generation i d of
               None \<Rightarrow> Ok None
             | Some a \<Rightarrow> some (revoke_command X ps i a d)))"

definition job_selection :: "sync_job \<Rightarrow> selection" where
  "job_selection job =
     (if j_kind job \<in> {KSuspend, KRevoke} then Exclude (j_connection_id job)
      else Include (j_connection_id job) (j_generation job))"

definition complete_task :: "time \<Rightarrow> sync_job \<Rightarrow> db \<Rightarrow> db result" where
  "complete_task now job d =
     bind_result
       (case j_kind job of
          KRevoke \<Rightarrow> complete_archive now (j_connection_id job) (j_actor job) d
        | KSuspend \<Rightarrow> complete_suspend now (j_connection_id job) (j_actor job) d
        | KResume \<Rightarrow> complete_resume now (j_connection_id job) (j_actor job) d
        | _ \<Rightarrow> complete_activation now (j_connection_id job) (j_generation job) (j_actor job) d)
       (\<lambda>d'. Ok (complete_job now (j_id job) d'))"

text \<open>What the traffic service and the owner's edits may change in a connection.\<close>

definition seen_only :: "(connection \<Rightarrow> connection) \<Rightarrow> bool" where
  "seen_only f \<longleftrightarrow> (\<forall>c. \<exists>a b e. f c = c\<lparr>c_first_seen_at := a, c_last_seen_at := b, c_absence_notified_at := e\<rparr>)"

definition claimed :: "sync_job option \<Rightarrow> task list" where
  "claimed j = (case j of None \<Rightarrow> [] | Some job \<Rightarrow> [\<lparr>tk_job = job, tk_phase = Waiting\<rparr>])"

text \<open>
  The optional engines installed on the host are \<open>es\<close> throughout: an installation or a
  removal of an engine goes through an update of its own.
\<close>

inductive sync_step :: "crypto \<Rightarrow> path_config \<Rightarrow> engine list \<Rightarrow> sync_state \<Rightarrow> sync_state \<Rightarrow> bool" for X ps es where
  Request: "start_request X rnd now req d = Ok (j, d') \<Longrightarrow>
     sync_step X ps es \<lparr>s_db = d, s_queue = q, s_host = h\<rparr> \<lparr>s_db = d', s_queue = q @ claimed j, s_host = h\<rparr>"
| Drain: "claim_job False now i d = (j, d') \<Longrightarrow>
     sync_step X ps es \<lparr>s_db = d, s_queue = q, s_host = h\<rparr> \<lparr>s_db = d', s_queue = q @ claimed j, s_host = h\<rparr>"
| First: "tk_phase t = Waiting \<Longrightarrow> first_command X ps (tk_job t) d = Ok (Some c) \<Longrightarrow>
     sync_step X ps es \<lparr>s_db = d, s_queue = t # q, s_host = h\<rparr>
       \<lparr>s_db = d, s_queue = t\<lparr>tk_phase := FirstDone\<rparr> # q, s_host = run_command hot c h\<rparr>"
| Skip: "tk_phase t = Waiting \<Longrightarrow> first_command X ps (tk_job t) d = Ok None \<Longrightarrow>
     sync_step X ps es \<lparr>s_db = d, s_queue = t # q, s_host = h\<rparr>
       \<lparr>s_db = d, s_queue = t\<lparr>tk_phase := EnginesDone\<rparr> # q, s_host = h\<rparr>"
| Optional: "tk_phase t = FirstDone \<Longrightarrow> optional_installed d = es \<Longrightarrow> optional_commands X (job_selection (tk_job t)) d = Ok cs \<Longrightarrow>
     run_commands cs os h = (True, h') \<Longrightarrow>
     sync_step X ps es \<lparr>s_db = d, s_queue = t # q, s_host = h\<rparr>
       \<lparr>s_db = d, s_queue = t\<lparr>tk_phase := EnginesDone\<rparr> # q, s_host = h'\<rparr>"
| Finish: "tk_phase t = EnginesDone \<Longrightarrow> complete_task now (tk_job t) d = Ok d' \<Longrightarrow>
     sync_step X ps es \<lparr>s_db = d, s_queue = t # q, s_host = h\<rparr> \<lparr>s_db = d', s_queue = q, s_host = h\<rparr>"
| FailFirst: "tk_phase t = Waiting \<Longrightarrow>
     (\<exists>e. first_command X ps (tk_job t) d = Err e) \<or> (\<exists>c. first_command X ps (tk_job t) d = Ok (Some c)) \<Longrightarrow>
     sync_step X ps es \<lparr>s_db = d, s_queue = t # q, s_host = h\<rparr>
       \<lparr>s_db = fail_job now (tk_job t) err d, s_queue = q, s_host = h\<rparr>"
| FailOptional: "tk_phase t = FirstDone \<Longrightarrow> optional_installed d = es \<Longrightarrow>
     (\<exists>e. optional_commands X (job_selection (tk_job t)) d = Err e) \<and> h' = h \<or>
     (\<exists>cs os. optional_commands X (job_selection (tk_job t)) d = Ok cs \<and> run_commands cs os h = (False, h')) \<Longrightarrow>
     sync_step X ps es \<lparr>s_db = d, s_queue = t # q, s_host = h\<rparr>
       \<lparr>s_db = fail_job now (tk_job t) err d, s_queue = q, s_host = h'\<rparr>"
| FailFinish: "tk_phase t = EnginesDone \<Longrightarrow> complete_task now (tk_job t) d = Err e \<Longrightarrow>
     sync_step X ps es \<lparr>s_db = d, s_queue = t # q, s_host = h\<rparr>
       \<lparr>s_db = fail_job now (tk_job t) err d, s_queue = q, s_host = h\<rparr>"
| Create: "create_connection X rnd now input actor d = Ok (c, d') \<Longrightarrow>
     sync_step X ps es \<lparr>s_db = d, s_queue = q, s_host = h\<rparr> \<lparr>s_db = d', s_queue = q, s_host = h\<rparr>"
| Update: "update_connection_details now i input actor d = Ok (c, d') \<Longrightarrow>
     sync_step X ps es \<lparr>s_db = d, s_queue = q, s_host = h\<rparr> \<lparr>s_db = d', s_queue = q, s_host = h\<rparr>"
| Fetch: "mark_fetched now i d = Ok d' \<Longrightarrow>
     sync_step X ps es \<lparr>s_db = d, s_queue = q, s_host = h\<rparr> \<lparr>s_db = d', s_queue = q, s_host = h\<rparr>"
| View: "sync_view X i ia d = Ok (v, d') \<Longrightarrow>
     sync_step X ps es \<lparr>s_db = d, s_queue = q, s_host = h\<rparr> \<lparr>s_db = d', s_queue = q, s_host = h\<rparr>"
| Other: "seen_only f \<Longrightarrow> t_connections d' = map f (t_connections d) \<Longrightarrow> t_credentials d' = t_credentials d \<Longrightarrow>
     t_jobs d' = t_jobs d \<Longrightarrow>
     sync_step X ps es \<lparr>s_db = d, s_queue = q, s_host = h\<rparr> \<lparr>s_db = d', s_queue = q, s_host = h\<rparr>"
| Reconcile: "q = [] \<or> tk_phase (hd q) = Waiting \<Longrightarrow> e = Xray \<or> e \<in> set es \<Longrightarrow> reconcile_command X e d = Ok c \<Longrightarrow>
     sync_step X ps es \<lparr>s_db = d, s_queue = q, s_host = h\<rparr> \<lparr>s_db = d, s_queue = q, s_host = run_command hot c h\<rparr>"
| Restart: "sync_step X ps es \<lparr>s_db = d, s_queue = q, s_host = h\<rparr>
     \<lparr>s_db = recover_interrupted now d, s_queue = [], s_host = h\<rparr>"

definition sync_initial :: "sync_state \<Rightarrow> bool" where
  "sync_initial s \<longleftrightarrow> t_connections (s_db s) = [] \<and> t_credentials (s_db s) = [] \<and> t_jobs (s_db s) = [] \<and>
     s_queue s = [] \<and> (\<forall>e. s_host s e = [])"

abbreviation sync_reachable :: "crypto \<Rightarrow> path_config \<Rightarrow> engine list \<Rightarrow> sync_state \<Rightarrow> bool" where
  "sync_reachable X ps es s \<equiv> \<exists>s0. sync_initial s0 \<and> (sync_step X ps es)\<^sup>*\<^sup>* s0 s"


section \<open>Jobs and the queue\<close>

abbreviation "job_id t \<equiv> j_id (tk_job t)"
abbreviation "job_conn t \<equiv> j_connection_id (tk_job t)"

text \<open>What never changes in a job.\<close>

definition job_core :: "sync_job \<Rightarrow> string \<times> string \<times> nat \<times> sync_kind" where
  "job_core j = (j_id j, j_connection_id j, j_generation j, j_kind j)"

lemma job_coreD:
  "job_core j = job_core k \<Longrightarrow> j_id j = j_id k \<and> j_connection_id j = j_connection_id k \<and>
     j_generation j = j_generation k \<and> j_kind j = j_kind k"
  by (simp add: job_core_def)

text \<open>
  Every claimed job is a row that is still running or was cancelled meanwhile; its connection
  has an open job; a running job is claimed, and no later claim is for its connection.
\<close>

definition queue_ok :: "sync_job list \<Rightarrow> task list \<Rightarrow> bool" where
  "queue_ok js q \<longleftrightarrow>
     jobs_ok js \<and> distinct (map job_id q) \<and>
     (\<forall>t\<in>set q. (\<exists>j\<in>set js. job_core j = job_core (tk_job t) \<and> j_status j \<in> {JRunning, JCancelled}) \<and>
                (\<exists>k\<in>set js. j_connection_id k = job_conn t \<and> job_open k)) \<and>
     (\<forall>j\<in>set js. j_status j = JRunning \<longrightarrow> (\<exists>t\<in>set q. job_id t = j_id j)) \<and>
     (\<forall>xs t ys. q = xs @ t # ys \<longrightarrow> (\<exists>j\<in>set js. j_id j = job_id t \<and> j_status j = JRunning) \<longrightarrow>
        (\<forall>u\<in>set ys. job_conn u \<noteq> job_conn t))"

lemma queue_okD:
  assumes "queue_ok js q"
  shows "jobs_ok js" and "distinct (map job_id q)"
    and "t \<in> set q \<Longrightarrow> \<exists>j\<in>set js. job_core j = job_core (tk_job t) \<and> j_status j \<in> {JRunning, JCancelled}"
    and "t \<in> set q \<Longrightarrow> \<exists>k\<in>set js. j_connection_id k = job_conn t \<and> job_open k"
    and "j \<in> set js \<Longrightarrow> j_status j = JRunning \<Longrightarrow> \<exists>t\<in>set q. job_id t = j_id j"
    and "q = xs @ t # ys \<Longrightarrow> j \<in> set js \<Longrightarrow> j_id j = job_id t \<Longrightarrow> j_status j = JRunning \<Longrightarrow> u \<in> set ys \<Longrightarrow>
           job_conn u \<noteq> job_conn t"
  using assms unfolding queue_ok_def by blast+

lemma queue_okI:
  assumes "jobs_ok js" and "distinct (map job_id q)"
    and "\<And>t. t \<in> set q \<Longrightarrow> \<exists>j\<in>set js. job_core j = job_core (tk_job t) \<and> j_status j \<in> {JRunning, JCancelled}"
    and "\<And>t. t \<in> set q \<Longrightarrow> \<exists>k\<in>set js. j_connection_id k = job_conn t \<and> job_open k"
    and "\<And>j. j \<in> set js \<Longrightarrow> j_status j = JRunning \<Longrightarrow> \<exists>t\<in>set q. job_id t = j_id j"
    and "\<And>xs t ys j u. q = xs @ t # ys \<Longrightarrow> j \<in> set js \<Longrightarrow> j_id j = job_id t \<Longrightarrow> j_status j = JRunning \<Longrightarrow>
           u \<in> set ys \<Longrightarrow> job_conn u \<noteq> job_conn t"
  shows "queue_ok js q"
  using assms unfolding queue_ok_def by blast

lemma jobs_ok_id: "jobs_ok js \<Longrightarrow> j \<in> set js \<Longrightarrow> k \<in> set js \<Longrightarrow> j_id j = j_id k \<Longrightarrow> j = k"
  unfolding jobs_ok_def by (metis distinct_key_unique)

lemma jobs_ok_open: "jobs_ok js \<Longrightarrow> j \<in> set js \<Longrightarrow> k \<in> set js \<Longrightarrow> job_open j \<Longrightarrow> job_open k \<Longrightarrow>
    j_connection_id j = j_connection_id k \<Longrightarrow> j = k"
  unfolding jobs_ok_def by (metis unique_onD)

text \<open>A new job, after the open jobs of its connection were cancelled.\<close>

definition cancels :: "string \<Rightarrow> (sync_job \<Rightarrow> sync_job) \<Rightarrow> sync_job list \<Rightarrow> bool" where
  "cancels i f js \<longleftrightarrow>
     (\<forall>j\<in>set js. job_core (f j) = job_core j \<and>
        j_status (f j) = (if j_connection_id j = i \<and> job_open j then JCancelled else j_status j))"

lemma queue_ok_new:
  assumes ok: "queue_ok js q" and f: "cancels i f js"
    and n: "j_id n \<notin> j_id ` set js" "j_connection_id n = i" "j_status n = JPending"
    and jobs: "jobs_ok (map f js @ [n])"
  shows "queue_ok (map f js @ [n]) q"
proof -
  have core: "job_core (f j) = job_core j" and st: "j_status (f j) = (if j_connection_id j = i \<and> job_open j then JCancelled else j_status j)"
    if "j \<in> set js" for j using f that unfolding cancels_def by blast+
  have n_open: "job_open n" using n(3) by (simp add: job_open_def)
  have "\<exists>j\<in>set (map f js @ [n]). job_core j = job_core (tk_job t) \<and> j_status j \<in> {JRunning, JCancelled}" if "t \<in> set q" for t
  proof -
    from queue_okD(3) [OF ok that] obtain j where j: "j \<in> set js" "job_core j = job_core (tk_job t)" "j_status j \<in> {JRunning, JCancelled}" by blast
    with core st have "job_core (f j) = job_core (tk_job t)" "j_status (f j) \<in> {JRunning, JCancelled}" by auto
    with j(1) show ?thesis by auto
  qed
  moreover have "\<exists>k\<in>set (map f js @ [n]). j_connection_id k = job_conn t \<and> job_open k" if "t \<in> set q" for t
  proof (cases "job_conn t = i")
    case True with n n_open show ?thesis by auto
  next
    case False
    from queue_okD(4) [OF ok that] obtain k where k: "k \<in> set js" "j_connection_id k = job_conn t" "job_open k" by blast
    with False core [OF k(1)] st [OF k(1)] have "j_connection_id (f k) = job_conn t" "job_open (f k)"
      by (auto simp: job_open_def dest: job_coreD)
    with k(1) show ?thesis by auto
  qed
  moreover have run: "\<exists>j\<in>set js. j_id j = j_id j' \<and> j_status j = JRunning"
    if "j' \<in> set (map f js @ [n])" "j_status j' = JRunning" for j'
  proof -
    from that n(3) obtain j where j: "j \<in> set js" "j' = f j" by auto
    from st [OF j(1)] that(2) j(2) have "j_status j = JRunning" by (simp split: if_splits)
    moreover from job_coreD [OF core [OF j(1)]] j(2) have "j_id j = j_id j'" by simp
    ultimately show ?thesis using j(1) by blast
  qed
  moreover have "job_conn u \<noteq> job_conn t"
    if "q = xs @ t # ys" "j' \<in> set (map f js @ [n])" "j_id j' = job_id t" "j_status j' = JRunning" "u \<in> set ys" for xs t ys j' u
  proof -
    from run [OF that(2,4)] that(3) obtain j where "j \<in> set js" "j_id j = job_id t" "j_status j = JRunning" by metis
    from queue_okD(6) [OF ok that(1) this that(5)] show ?thesis .
  qed
  moreover have "\<exists>t\<in>set q. job_id t = j_id j'" if "j' \<in> set (map f js @ [n])" "j_status j' = JRunning" for j'
  proof -
    from run [OF that] obtain j where "j \<in> set js" "j_id j = j_id j'" "j_status j = JRunning" by blast
    with queue_okD(5) [OF ok this(1,3)] show ?thesis by simp
  qed
  ultimately show ?thesis
    using jobs queue_okD(2) [OF ok] unfolding queue_ok_def by blast
qed


text \<open>A claim: a pending or failed job starts to run, its snapshot joins the queue.\<close>

lemma queue_ok_claim:
  assumes ok: "queue_ok js q" and j: "j \<in> set js" "j_status j \<in> {JPending, JFailed}"
    and f: "job_core (f j) = job_core j" "j_status (f j) = JRunning"
  shows "queue_ok (update_where (\<lambda>k. j_id k = j_id j) f js) (q @ [\<lparr>tk_job = f j, tk_phase = p\<rparr>])"
proof -
  let ?js = "update_where (\<lambda>k. j_id k = j_id j) f js"
  let ?t = "\<lparr>tk_job = f j, tk_phase = p\<rparr>"
  note jok = queue_okD(1) [OF ok]
  have upd: "?js = map (\<lambda>k. if k = j then f j else k) js"
    unfolding update_where_def using jobs_ok_id [OF jok _ j(1)] by (intro map_cong) auto
  have f': "j_id (f j) = j_id j" "j_connection_id (f j) = j_connection_id j" using job_coreD [OF f(1)] by auto
  have opens: "job_open j" "job_open (f j)" using j(2) f(2) by (auto simp: job_open_def)
  have fj: "f j \<in> set ?js" unfolding upd using j(1) by force
  have keep: "k \<in> set ?js" if "k \<in> set js" "k \<noteq> j" for k unfolding upd using that by force
  have prior: "k = f j \<or> (k \<in> set js \<and> k \<noteq> j)" if "k \<in> set ?js" for k using that unfolding upd by auto
  have fresh: "job_id t \<noteq> j_id j" if "t \<in> set q" for t
  proof
    assume eq: "job_id t = j_id j"
    from queue_okD(3) [OF ok that] obtain k where "k \<in> set js" "job_core k = job_core (tk_job t)" "j_status k \<in> {JRunning, JCancelled}" by blast
    moreover from this eq jobs_ok_id [OF jok _ j(1)] have "k = j" by (metis job_coreD)
    ultimately show False using j(2) by auto
  qed
  have others: "job_conn t \<noteq> j_connection_id j \<or> (\<exists>k\<in>set js. job_core k = job_core (tk_job t) \<and> j_status k = JCancelled)" if "t \<in> set q" for t
  proof -
    from queue_okD(3) [OF ok that] obtain k where k: "k \<in> set js" "job_core k = job_core (tk_job t)" "j_status k \<in> {JRunning, JCancelled}" by blast
    moreover have False if "j_status k = JRunning" "job_conn t = j_connection_id j"
    proof -
      have "job_open k" using that(1) by (simp add: job_open_def)
      moreover have "j_connection_id k = j_connection_id j" using job_coreD [OF k(2)] that(2) by simp
      ultimately have "k = j" using jobs_ok_open [OF jok k(1) j(1)] opens(1) by blast
      with that(1) j(2) show False by auto
    qed
    ultimately show ?thesis by auto
  qed
  have jobs: "jobs_ok ?js"
  proof -
    have "?js = update_where (\<lambda>k. k = j) f js" unfolding upd by (auto simp: update_where_def)
    moreover have "jobs_ok (update_where (\<lambda>k. k = j) f js)"
      by (rule jobs_ok_update [OF jok]) (use f' opens in auto)
    ultimately show ?thesis by simp
  qed
  show ?thesis
    unfolding queue_ok_def
  proof (intro conjI ballI allI impI)
    show "distinct (map job_id (q @ [?t]))" using queue_okD(2) [OF ok] fresh f'(1) by force
    fix t assume "t \<in> set (q @ [?t])"
    then consider "t \<in> set q" | "t = ?t" by auto
    then show "\<exists>k\<in>set ?js. job_core k = job_core (tk_job t) \<and> j_status k \<in> {JRunning, JCancelled}"
    proof cases
      case 1
      from queue_okD(3) [OF ok 1] obtain k where k: "k \<in> set js" "job_core k = job_core (tk_job t)" "j_status k \<in> {JRunning, JCancelled}" by blast
      with j(2) have "k \<noteq> j" by auto
      with k keep show ?thesis by blast
    next
      case 2 with fj f show ?thesis by auto
    qed
  next
    fix t assume "t \<in> set (q @ [?t])"
    then consider "t \<in> set q" | "t = ?t" by auto
    then show "\<exists>k\<in>set ?js. j_connection_id k = job_conn t \<and> job_open k"
    proof cases
      case 1
      from queue_okD(4) [OF ok 1] obtain k where k: "k \<in> set js" "j_connection_id k = job_conn t" "job_open k" by blast
      show ?thesis
      proof (cases "k = j")
        case True with k f' opens fj show ?thesis by metis
      next
        case False with k keep show ?thesis by blast
      qed
    next
      case 2 with fj f' opens show ?thesis by auto
    qed
  next
    fix k assume "k \<in> set ?js" "j_status k = JRunning"
    with prior consider "k = f j" | "k \<in> set js" by blast
    then show "\<exists>t\<in>set (q @ [?t]). job_id t = j_id k"
    proof cases
      case 2 with queue_okD(5) [OF ok] \<open>j_status k = JRunning\<close> show ?thesis by fastforce
    qed simp
  next
    fix xs t ys u
    assume split: "q @ [?t] = xs @ t # ys" and "\<exists>k\<in>set ?js. j_id k = job_id t \<and> j_status k = JRunning" and u: "u \<in> set ys"
    then obtain k where k: "k \<in> set ?js" "j_id k = job_id t" "j_status k = JRunning" by blast
    from split u obtain ys' where ys: "ys = ys' @ [?t]" "q = xs @ t # ys'"
      by (metis append_butlast_last_id append_is_Nil_conv butlast.simps(2) butlast_append butlast_snoc empty_iff last.simps last_appendR last_snoc list.distinct(1) list.set(1))
    have t: "t \<in> set q" using ys(2) by simp
    with k fresh f'(1) prior have kj: "k \<in> set js" by metis
    show "job_conn u \<noteq> job_conn t"
    proof (cases "u = ?t")
      case False
      with u ys have "u \<in> set ys'" by auto
      with queue_okD(6) [OF ok ys(2) kj k(2,3)] show ?thesis by blast
    next
      case True
      from others [OF t] show ?thesis
      proof
        assume "\<exists>m\<in>set js. job_core m = job_core (tk_job t) \<and> j_status m = JCancelled"
        then obtain m where m: "m \<in> set js" "job_core m = job_core (tk_job t)" "j_status m = JCancelled" by blast
        from job_coreD [OF m(2)] k(2) have "j_id m = j_id k" by simp
        from jobs_ok_id [OF jok m(1) kj this] m(3) k(3) show ?thesis by simp
      qed (use True f' in simp)
    qed
  qed (rule jobs)
qed


text \<open>The head leaves the queue; its job, if it still runs, becomes failed or completed.\<close>

lemma queue_ok_pop:
  assumes ok: "queue_ok js (t # q)" and st: "st \<in> {JFailed, JCompleted}"
    and f: "\<And>j. job_core (f j) = job_core j \<and> j_status (f j) = st"
  shows "queue_ok (update_where (\<lambda>j. j_id j = job_id t \<and> j_status j = JRunning) f js) q"
proof -
  let ?js = "update_where (\<lambda>j. j_id j = job_id t \<and> j_status j = JRunning) f js"
  note jok = queue_okD(1) [OF ok]
  have core: "j_id (f j) = j_id j" "j_connection_id (f j) = j_connection_id j" for j
    using job_coreD [OF conjunct1 [OF f [of j]]] by simp_all
  have jobs: "jobs_ok ?js"
    by (rule jobs_ok_update [OF jok]) (use core f st in \<open>auto simp: job_open_def\<close>)
  have keep: "j \<in> set ?js" if "j \<in> set js" "j_id j \<noteq> job_id t \<or> j_status j \<noteq> JRunning" for j
    using that by (force simp: set_update_where)
  have prior: "j \<in> set js" if "j \<in> set ?js" "j_status j = JRunning" for j
    using that f st by (auto simp: set_update_where split: if_splits)
  have "job_id t \<notin> job_id ` set q" using queue_okD(2) [OF ok] by simp
  then have other: "job_id u \<noteq> job_id t" if "u \<in> set q" for u using that by (metis image_eqI)
  show ?thesis
    unfolding queue_ok_def
  proof (intro conjI ballI allI impI)
    show "distinct (map job_id q)" using queue_okD(2) [OF ok] by simp
    fix u assume u: "u \<in> set q"
    from queue_okD(3) [OF ok, of u] u obtain j where "j \<in> set js" "job_core j = job_core (tk_job u)" "j_status j \<in> {JRunning, JCancelled}" by auto
    moreover from this other [OF u] job_coreD have "j_id j \<noteq> job_id t" by metis
    ultimately show "\<exists>j\<in>set ?js. job_core j = job_core (tk_job u) \<and> j_status j \<in> {JRunning, JCancelled}" using keep by blast
  next
    fix u assume u: "u \<in> set q"
    from queue_okD(4) [OF ok, of u] u obtain k where k: "k \<in> set js" "j_connection_id k = job_conn u" "job_open k" by auto
    show "\<exists>k\<in>set ?js. j_connection_id k = job_conn u \<and> job_open k"
    proof (cases "j_id k = job_id t \<and> j_status k = JRunning")
      case True
      then have "job_conn u \<noteq> job_conn t" using queue_okD(6) [OF ok, of "[]" t q k u] k(1) u by simp
      moreover from queue_okD(3) [OF ok, of t] obtain m where "m \<in> set js" "job_core m = job_core (tk_job t)" by auto
      moreover from this True have "m = k" using jobs_ok_id [OF jok _ k(1)] job_coreD by metis
      ultimately show ?thesis using k(2) job_coreD by metis
    next
      case False with k keep show ?thesis by blast
    qed
  next
    fix j assume j: "j \<in> set ?js" "j_status j = JRunning"
    have "j \<in> set js" by (rule prior [OF j])
    moreover have "j_id j \<noteq> job_id t"
    proof
      assume "j_id j = job_id t"
      from j(1) obtain j0 where j0: "j0 \<in> set js" "j = (if j_id j0 = job_id t \<and> j_status j0 = JRunning then f j0 else j0)"
        by (auto simp: set_update_where)
      with j(2) \<open>j_id j = job_id t\<close> f st show False by (auto split: if_splits)
    qed
    ultimately show "\<exists>u\<in>set q. job_id u = j_id j" using queue_okD(5) [OF ok _ j(2)] by fastforce
  next
    fix xs u ys v assume split: "q = xs @ u # ys" and "\<exists>j\<in>set ?js. j_id j = job_id u \<and> j_status j = JRunning" and v: "v \<in> set ys"
    then obtain j where j: "j \<in> set ?js" "j_id j = job_id u" "j_status j = JRunning" by blast
    show "job_conn v \<noteq> job_conn u"
      using queue_okD(6) [OF ok _ prior [OF j(1,3)] j(2,3) v, of "t # xs"] split by simp
  qed (rule jobs)
qed

text \<open>A restart: no job is claimed any more, the running ones have failed.\<close>

lemma queue_ok_restart:
  assumes ok: "queue_ok js q" and f: "\<And>j. job_core (f j) = job_core j \<and> j_status (f j) = JFailed"
  shows "queue_ok (update_where (\<lambda>j. j_status j = JRunning) f js) []"
proof -
  have core: "j_id (f j) = j_id j" "j_connection_id (f j) = j_connection_id j" for j
    using job_coreD [OF conjunct1 [OF f [of j]]] by simp_all
  have "jobs_ok (update_where (\<lambda>j. j_status j = JRunning) f js)"
    by (rule jobs_ok_update [OF queue_okD(1) [OF ok]]) (use core in \<open>auto simp: job_open_def\<close>)
  moreover have "j_status j \<noteq> JRunning" if "j \<in> set (update_where (\<lambda>j. j_status j = JRunning) f js)" for j
    using that f by (auto simp: set_update_where)
  ultimately show ?thesis by (simp add: queue_ok_def)
qed

text \<open>The phase of the head does not matter to the queue.\<close>

lemma queue_ok_phase: "queue_ok js (t # q) \<Longrightarrow> queue_ok js (t\<lparr>tk_phase := p\<rparr> # q)"
proof -
  assume ok: "queue_ok js (t # q)"
  let ?t = "t\<lparr>tk_phase := p\<rparr>"
  have same: "tk_job ?t = tk_job t" by simp
  have "job_conn u \<noteq> job_conn v"
    if split: "?t # q = xs @ v # ys" and j: "j \<in> set js" "j_id j = job_id v" "j_status j = JRunning" and u: "u \<in> set ys" for xs v ys j u
  proof (cases xs)
    case Nil
    with split have "v = ?t" "ys = q" by auto
    with queue_okD(6) [OF ok, of "[]" t q j u] j u show ?thesis by simp
  next
    case (Cons x xs')
    with split have "t # q = (t # xs') @ v # ys" by simp
    from queue_okD(6) [OF ok this j u] show ?thesis .
  qed
  note order = this
  show "queue_ok js (?t # q)"
  proof (rule queue_okI [OF queue_okD(1) [OF ok]])
    show "distinct (map job_id (?t # q))" using queue_okD(2) [OF ok] by simp
    fix u assume "u \<in> set (?t # q)"
    then have "u = ?t \<or> u \<in> set q" by simp
    then obtain v where "v \<in> set (t # q)" "tk_job u = tk_job v" using same by (metis list.set_intros(1,2))
    with queue_okD(3,4) [OF ok, of v]
    show "\<exists>j\<in>set js. job_core j = job_core (tk_job u) \<and> j_status j \<in> {JRunning, JCancelled}"
      "\<exists>k\<in>set js. j_connection_id k = job_conn u \<and> job_open k" by simp_all
  next
    fix j assume "j \<in> set js" "j_status j = JRunning"
    from queue_okD(5) [OF ok this] show "\<exists>u\<in>set (?t # q). job_id u = j_id j" by auto
  qed (rule order)
qed


section \<open>The life cycle of a connection\<close>

text \<open>What the open job of a kind says of its connection.\<close>

fun kind_fits :: "sync_kind \<Rightarrow> connection \<Rightarrow> bool" where
  "kind_fits KActivate c = (c_status c = Provisioning \<and> c_archived_at c = None)"
| "kind_fits KRotate c = (c_status c = Rotating \<and> c_archived_at c = None)"
| "kind_fits KSuspend c = (c_status c = Active \<and> c_archived_at c = None)"
| "kind_fits KResume c = (c_status c = Active \<and> c_archived_at c = None)"
| "kind_fits KRevoke c = (c_archived_at c \<noteq> None \<and> c_status c \<noteq> Archived)"

text \<open>States that only a job leads out of.\<close>

definition transitional :: "connection \<Rightarrow> bool" where
  "transitional c \<longleftrightarrow>
     c_status c \<in> {Provisioning, Rotating, Archiving} \<or> (c_status c = Active \<and> c_archived_at c \<noteq> None)"

definition issue_kind :: "sync_kind \<Rightarrow> bool" where
  "issue_kind k \<longleftrightarrow> k = KActivate \<or> k = KRotate"

definition job_fits :: "connection list \<Rightarrow> sync_job \<Rightarrow> bool" where
  "job_fits cs j \<longleftrightarrow>
     (\<exists>c\<in>set cs. c_id c = j_connection_id j \<and> c_generation c = j_generation j \<and> kind_fits (j_kind j) c)"

definition task_fits :: "connection list \<Rightarrow> sync_job list \<Rightarrow> task \<Rightarrow> bool" where
  "task_fits cs js t \<longleftrightarrow>
     (\<exists>c\<in>set cs. c_id c = job_conn t \<and> c_generation c = j_generation (tk_job t) \<and>
        (j_kind (tk_job t) = KRevoke \<longrightarrow> c_archived_at c \<noteq> None) \<and>
        (issue_kind (j_kind (tk_job t)) \<and> (\<exists>j\<in>set js. j_id j = job_id t \<and> j_status j = JCancelled) \<longrightarrow>
           c_archived_at c \<noteq> None))"

definition lifecycle_ok :: "connection list \<Rightarrow> sync_job list \<Rightarrow> task list \<Rightarrow> bool" where
  "lifecycle_ok cs js q \<longleftrightarrow>
     (\<forall>j\<in>set js. job_open j \<longrightarrow> job_fits cs j) \<and>
     (\<forall>c\<in>set cs. transitional c \<longrightarrow> (\<exists>j\<in>set js. j_connection_id j = c_id c \<and> job_open j)) \<and>
     (\<forall>t\<in>set q. task_fits cs js t) \<and>
     (\<forall>j\<in>set js. j_kind j = KRevoke \<longrightarrow> j_status j \<noteq> JCancelled)"

lemma lifecycle_okI:
  assumes "\<And>j. j \<in> set js \<Longrightarrow> job_open j \<Longrightarrow> job_fits cs j"
    and "\<And>c. c \<in> set cs \<Longrightarrow> transitional c \<Longrightarrow> \<exists>j\<in>set js. j_connection_id j = c_id c \<and> job_open j"
    and "\<And>t. t \<in> set q \<Longrightarrow> task_fits cs js t"
    and "\<And>j. j \<in> set js \<Longrightarrow> j_kind j = KRevoke \<Longrightarrow> j_status j \<noteq> JCancelled"
  shows "lifecycle_ok cs js q"
  using assms unfolding lifecycle_ok_def by blast

lemma lifecycle_okD:
  assumes "lifecycle_ok cs js q"
  shows "j \<in> set js \<Longrightarrow> job_open j \<Longrightarrow> job_fits cs j"
    and "c \<in> set cs \<Longrightarrow> transitional c \<Longrightarrow> \<exists>j\<in>set js. j_connection_id j = c_id c \<and> job_open j"
    and "t \<in> set q \<Longrightarrow> task_fits cs js t"
    and "j \<in> set js \<Longrightarrow> j_kind j = KRevoke \<Longrightarrow> j_status j \<noteq> JCancelled"
  using assms unfolding lifecycle_ok_def by blast+

text \<open>Only id, generation, status and archival of a connection matter.\<close>

definition same_stage :: "connection \<Rightarrow> connection \<Rightarrow> bool" where
  "same_stage b c \<longleftrightarrow> c_id b = c_id c \<and> c_generation b = c_generation c \<and> c_status b = c_status c \<and>
     c_archived_at b = c_archived_at c"

lemma same_stage_fits: "same_stage b c \<Longrightarrow> kind_fits k b = kind_fits k c"
  by (cases k) (auto simp: same_stage_def)

lemma same_stage_transitional: "same_stage b c \<Longrightarrow> transitional b = transitional c"
  by (simp add: same_stage_def transitional_def)

lemma lifecycle_map:
  assumes life: "lifecycle_ok cs js q" and f: "\<And>c. same_stage (f c) c"
  shows "lifecycle_ok (map f cs) js q"
proof (rule lifecycle_okI)
  have id: "c_id (f c) = c_id c" "c_generation (f c) = c_generation c" "c_archived_at (f c) = c_archived_at c" for c
    using f by (simp_all add: same_stage_def)
  fix j assume "j \<in> set js" "job_open j"
  from lifecycle_okD(1) [OF life this] show "job_fits (map f cs) j"
    unfolding job_fits_def using same_stage_fits [OF f] id by auto
next
  fix c assume "c \<in> set (map f cs)" "transitional c"
  then obtain b where "b \<in> set cs" "c = f b" "transitional b" using same_stage_transitional [OF f] by auto
  with lifecycle_okD(2) [OF life this(1,3)] f show "\<exists>j\<in>set js. j_connection_id j = c_id c \<and> job_open j"
    by (simp add: same_stage_def)
next
  have id: "c_id (f c) = c_id c" "c_generation (f c) = c_generation c" "c_archived_at (f c) = c_archived_at c" for c
    using f by (simp_all add: same_stage_def)
  fix t assume "t \<in> set q"
  from lifecycle_okD(3) [OF life this] show "task_fits (map f cs) js t"
    unfolding task_fits_def using id by auto
qed (use lifecycle_okD(4) [OF life] in blast)

text \<open>A job that changes its status but neither opens, closes nor is cancelled.\<close>

lemma lifecycle_status:
  assumes life: "lifecycle_ok cs js q"
    and f: "\<And>j. j \<in> set js \<Longrightarrow> job_core (f j) = job_core j \<and> (job_open (f j) \<longleftrightarrow> job_open j) \<and>
              (j_status (f j) = JCancelled \<longleftrightarrow> j_status j = JCancelled)"
    and q': "\<And>t. t \<in> set q' \<Longrightarrow> (\<exists>u\<in>set q. tk_job t = tk_job u) \<or>
              (\<exists>j\<in>set js. job_open j \<and> job_core j = job_core (tk_job t) \<and> (\<forall>k\<in>set js. j_id k = j_id j \<longrightarrow> k = j))"
  shows "lifecycle_ok cs (map f js) q'"
proof (rule lifecycle_okI)
  have core: "j_id (f j) = j_id j" "j_connection_id (f j) = j_connection_id j" "j_generation (f j) = j_generation j" "j_kind (f j) = j_kind j"
    if "j \<in> set js" for j using job_coreD [OF conjunct1 [OF f [OF that]]] by blast+
  {
    fix j' assume "j' \<in> set (map f js)" "job_open j'"
    then obtain j where "j \<in> set js" "j' = f j" "job_open j" using f by auto
    with lifecycle_okD(1) [OF life this(1,3)] core show "job_fits cs j'" by (simp add: job_fits_def)
  next
    fix c assume "c \<in> set cs" "transitional c"
    from lifecycle_okD(2) [OF life this] obtain j where "j \<in> set js" "j_connection_id j = c_id c" "job_open j" by blast
    with core f show "\<exists>j\<in>set (map f js). j_connection_id j = c_id c \<and> job_open j" by auto
  next
    fix t assume t: "t \<in> set q'"
    have canc: "(\<exists>j\<in>set (map f js). j_id j = i \<and> j_status j = JCancelled) \<longleftrightarrow> (\<exists>j\<in>set js. j_id j = i \<and> j_status j = JCancelled)" for i
      using core f by auto
    from q' [OF t] show "task_fits cs (map f js) t"
    proof
      assume "\<exists>u\<in>set q. tk_job t = tk_job u"
      with lifecycle_okD(3) [OF life] show ?thesis unfolding task_fits_def canc by metis
    next
      assume "\<exists>j\<in>set js. job_open j \<and> job_core j = job_core (tk_job t) \<and> (\<forall>k\<in>set js. j_id k = j_id j \<longrightarrow> k = j)"
      then obtain j where j: "j \<in> set js" "job_open j" "job_core j = job_core (tk_job t)" "\<forall>k\<in>set js. j_id k = j_id j \<longrightarrow> k = j" by blast
      from lifecycle_okD(1) [OF life j(1,2)] obtain c where c: "c \<in> set cs" "c_id c = j_connection_id j"
          "c_generation c = j_generation j" "kind_fits (j_kind j) c" unfolding job_fits_def by blast
      have "\<not> (\<exists>k\<in>set js. j_id k = job_id t \<and> j_status k = JCancelled)"
      proof
        assume "\<exists>k\<in>set js. j_id k = job_id t \<and> j_status k = JCancelled"
        then obtain k where "k \<in> set js" "j_id k = job_id t" "j_status k = JCancelled" by blast
        moreover from this j(4) job_coreD [OF j(3)] have "k = j" by simp
        ultimately show False using j(2) by (simp add: job_open_def)
      qed
      with c job_coreD [OF j(3)] show ?thesis unfolding task_fits_def canc by (intro bexI [of _ c]) auto
    qed
  next
    fix j' assume "j' \<in> set (map f js)" "j_kind j' = KRevoke"
    then obtain j where "j \<in> set js" "j' = f j" "j_kind j = KRevoke" using core by auto
    with lifecycle_okD(4) [OF life] f show "j_status j' \<noteq> JCancelled" by blast
  }
qed


text \<open>A new job of a connection, whose row may have moved on.\<close>

lemma queue_ok_row:
  assumes "queue_ok js q" and "t \<in> set q" and "j \<in> set js" and "j_id j = job_id t"
  shows "job_core j = job_core (tk_job t)"
proof -
  from queue_okD(3) [OF assms(1,2)] obtain k where k: "k \<in> set js" "job_core k = job_core (tk_job t)" by blast
  with job_coreD [OF k(2)] jobs_ok_id [OF queue_okD(1) [OF assms(1)] k(1) assms(3)] assms(4) show ?thesis by simp
qed

lemma lifecycle_new:
  assumes life: "lifecycle_ok cs js q" and queue: "queue_ok js q"
    and others: "\<And>c. c_id c \<noteq> i \<Longrightarrow> c \<in> set cs' \<longleftrightarrow> c \<in> set cs"
    and c': "c' \<in> set cs'" "c_id c' = i" "\<And>b. b \<in> set cs' \<Longrightarrow> c_id b = i \<Longrightarrow> b = c'"
    and n: "j_connection_id n = i" "j_status n = JPending" "j_generation n = c_generation c'" "kind_fits (j_kind n) c'"
    and f: "cancels i f js"
    and fresh: "\<And>t. t \<in> set q \<Longrightarrow> job_id t \<noteq> j_id n"
    and tasks: "\<And>t. t \<in> set q \<Longrightarrow> job_conn t = i \<Longrightarrow> task_fits cs' (map f js) t"
    and norev: "\<And>j. j \<in> set js \<Longrightarrow> job_open j \<Longrightarrow> j_connection_id j = i \<Longrightarrow> j_kind j \<noteq> KRevoke"
  shows "lifecycle_ok cs' (map f js @ [n]) q"
proof (rule lifecycle_okI)
  have fj: "job_core (f j) = job_core j" "j_status (f j) = (if j_connection_id j = i \<and> job_open j then JCancelled else j_status j)"
    if "j \<in> set js" for j using bspec [OF f [unfolded cancels_def] that] by simp_all
  note core = job_coreD [OF fj(1)]
  {
    fix j' assume j': "j' \<in> set (map f js @ [n])" "job_open j'"
    show "job_fits cs' j'"
    proof (cases "j' = n")
      case True
      from c'(1,2) n show ?thesis unfolding job_fits_def True by (intro bexI [of _ c']) simp_all
    next
      case False
      with j' obtain j where j: "j \<in> set js" "j' = f j" by auto
      with j'(2) fj(2) [OF j(1)] have jo: "j_connection_id j \<noteq> i" "job_open j" by (auto simp: job_open_def split: if_splits)
      from lifecycle_okD(1) [OF life j(1) jo(2)] obtain c where c: "c \<in> set cs" "c_id c = j_connection_id j"
          "c_generation c = j_generation j" "kind_fits (j_kind j) c" unfolding job_fits_def by blast
      with others jo(1) have "c \<in> set cs'" by metis
      with c core [OF j(1)] j(2) show ?thesis unfolding job_fits_def by auto
    qed
  next
    fix c assume c: "c \<in> set cs'" "transitional c"
    show "\<exists>j\<in>set (map f js @ [n]). j_connection_id j = c_id c \<and> job_open j"
    proof (cases "c_id c = i")
      case True with n show ?thesis by (auto simp: job_open_def)
    next
      case False
      with others c(1) have "c \<in> set cs" by blast
      from lifecycle_okD(2) [OF life this c(2)] obtain j where j: "j \<in> set js" "j_connection_id j = c_id c" "job_open j" by blast
      with False fj(2) [OF j(1)] core [OF j(1)] have "j_connection_id (f j) = c_id c" "job_open (f j)" by (auto simp: job_open_def)
      with j(1) show ?thesis by auto
    qed
  next
    fix t assume t: "t \<in> set q"
    have last: "(\<exists>j\<in>set (map f js @ [n]). j_id j = job_id t \<and> j_status j = JCancelled) \<longleftrightarrow>
        (\<exists>j\<in>set (map f js). j_id j = job_id t \<and> j_status j = JCancelled)" using n(2) by auto
    show "task_fits cs' (map f js @ [n]) t"
    proof (cases "job_conn t = i")
      case True
      from tasks [OF t True] show ?thesis unfolding task_fits_def last .
    next
      case False
      from lifecycle_okD(3) [OF life t] obtain c where c: "c \<in> set cs" "c_id c = job_conn t" "c_generation c = j_generation (tk_job t)"
          "j_kind (tk_job t) = KRevoke \<longrightarrow> c_archived_at c \<noteq> None"
          "issue_kind (j_kind (tk_job t)) \<and> (\<exists>j\<in>set js. j_id j = job_id t \<and> j_status j = JCancelled) \<longrightarrow> c_archived_at c \<noteq> None"
        unfolding task_fits_def by blast
      have "c \<in> set cs'" using others c(1,2) False by metis
      moreover have "\<exists>j\<in>set js. j_id j = job_id t \<and> j_status j = JCancelled"
        if canc: "\<exists>j\<in>set (map f js). j_id j = job_id t \<and> j_status j = JCancelled"
      proof -
        from canc obtain j where j: "j \<in> set js" "j_id (f j) = job_id t" "j_status (f j) = JCancelled" by auto
        then have id: "j_id j = job_id t" using core [OF j(1)] by simp
        with job_coreD [OF queue_ok_row [OF queue t j(1)]] have "j_connection_id j \<noteq> i" using False by simp
        with fj(2) [OF j(1)] j(3) have "j_status j = JCancelled" by simp
        with j(1) id show ?thesis by blast
      qed
      ultimately show ?thesis
        unfolding task_fits_def last using c by blast
    qed
  next
    fix j' assume j': "j' \<in> set (map f js @ [n])" "j_kind j' = KRevoke"
    show "j_status j' \<noteq> JCancelled"
    proof (cases "j' = n")
      case True with n(2) show ?thesis by simp
    next
      case False
      with j' obtain j where j: "j \<in> set js" "j' = f j" by auto
      with core [OF j(1)] j'(2) have "j_kind j = KRevoke" by simp
      with norev [OF j(1)] lifecycle_okD(4) [OF life j(1)] fj(2) [OF j(1)] j(2) show ?thesis by auto
    qed
  }
qed

text \<open>The head is done: its job is completed, its connection has moved on.\<close>

lemma lifecycle_finish:
  assumes life: "lifecycle_ok cs js (t # q)" and queue: "queue_ok js (t # q)"
    and dist: "distinct (map c_id cs)" and c: "c \<in> set cs" "c_id c = job_conn t"
    and g: "c_id (g c) = c_id c" "c_generation (g c) = c_generation c" "c_archived_at (g c) = c_archived_at c"
    and fin: "\<And>j. j \<in> set js \<Longrightarrow> j_id j = job_id t \<Longrightarrow> j_status j = JRunning \<Longrightarrow> kind_fits (j_kind j) c \<Longrightarrow> \<not> transitional (g c)"
    and more: "\<And>k. k \<in> set js \<Longrightarrow> job_open k \<Longrightarrow> j_connection_id k = job_conn t \<Longrightarrow> j_id k \<noteq> job_id t \<Longrightarrow>
                kind_fits (j_kind k) c \<Longrightarrow> kind_fits (j_kind k) (g c)"
    and f: "\<And>j. job_core (f j) = job_core j \<and> j_status (f j) = JCompleted"
  shows "lifecycle_ok (update_where (\<lambda>c. c_id c = job_conn t) g cs)
           (update_where (\<lambda>j. j_id j = job_id t \<and> j_status j = JRunning) f js) q"
proof (rule lifecycle_okI)
  let ?cs = "update_where (\<lambda>c. c_id c = job_conn t) g cs"
  let ?js = "update_where (\<lambda>j. j_id j = job_id t \<and> j_status j = JRunning) f js"
  have only: "b = c" if "b \<in> set cs" "c_id b = job_conn t" for b using dist that c by (metis distinct_key_unique)
  have gc: "g c \<in> set ?cs" using update_where_mem [OF c(1), of "\<lambda>c. c_id c = job_conn t" g] c(2) by simp
  have keep: "b \<in> set ?cs" if "b \<in> set cs" "c_id b \<noteq> job_conn t" for b using that by (force simp: set_update_where)
  have back_c: "b = g c \<or> (b \<in> set cs \<and> c_id b \<noteq> job_conn t)" if "b \<in> set ?cs" for b
    using update_where_cases [OF that] only by blast
  have back_j: "j \<in> set js \<and> \<not> (j_id j = job_id t \<and> j_status j = JRunning)" if "j \<in> set ?js" "j_status j \<noteq> JCompleted" for j
    using update_where_cases [OF that(1)] that(2) f by metis
  have keep_j: "j \<in> set ?js" if "j \<in> set js" "\<not> (j_id j = job_id t \<and> j_status j = JRunning)" for j
    using that by (force simp: set_update_where)
  have t: "t \<in> set (t # q)" by simp
  {
    fix j assume j: "j \<in> set ?js" "job_open j"
    then have "j_status j \<noteq> JCompleted" by (auto simp: job_open_def)
    from back_j [OF j(1) this] have jj: "j \<in> set js" "\<not> (j_id j = job_id t \<and> j_status j = JRunning)" by auto
    from lifecycle_okD(1) [OF life jj(1) j(2)] obtain b where b: "b \<in> set cs" "c_id b = j_connection_id j"
        "c_generation b = j_generation j" "kind_fits (j_kind j) b" unfolding job_fits_def by blast
    show "job_fits ?cs j"
    proof (cases "j_connection_id j = job_conn t")
      case False with b keep show ?thesis unfolding job_fits_def by metis
    next
      case True
      with b only have "b = c" by simp
      have "j_id j \<noteq> job_id t"
      proof
        assume id: "j_id j = job_id t"
        from queue_okD(3) [OF queue t] obtain k where k: "k \<in> set js" "job_core k = job_core (tk_job t)" "j_status k \<in> {JRunning, JCancelled}" by blast
        with job_coreD [OF k(2)] id jobs_ok_id [OF queue_okD(1) [OF queue] k(1) jj(1)] have "k = j" by simp
        with k(3) jj(2) id j(2) show False by (auto simp: job_open_def)
      qed
      with more [OF jj(1) j(2) True] b \<open>b = c\<close> have "kind_fits (j_kind j) (g c)" by simp
      with gc g b \<open>b = c\<close> show ?thesis unfolding job_fits_def by metis
    qed
  next
    fix b assume b: "b \<in> set ?cs" "transitional b"
    from back_c [OF b(1)] show "\<exists>j\<in>set ?js. j_connection_id j = c_id b \<and> job_open j"
    proof
      assume bb: "b \<in> set cs \<and> c_id b \<noteq> job_conn t"
      with lifecycle_okD(2) [OF life _ b(2)] obtain j where j: "j \<in> set js" "j_connection_id j = c_id b" "job_open j" by blast
      have "j_id j \<noteq> job_id t" using queue_ok_row [OF queue t j(1)] job_coreD bb j(2) by metis
      with keep_j j show ?thesis by blast
    next
      assume bg: "b = g c"
      from queue_okD(4) [OF queue t] obtain k where k: "k \<in> set js" "j_connection_id k = job_conn t" "job_open k" by blast
      have "\<not> (j_id k = job_id t \<and> j_status k = JRunning)"
      proof
        assume r: "j_id k = job_id t \<and> j_status k = JRunning"
        from lifecycle_okD(1) [OF life k(1,3)] k(2) only have "kind_fits (j_kind k) c" unfolding job_fits_def by auto
        with fin [OF k(1)] r b(2) bg show False by blast
      qed
      with keep_j k g(1) c(2) bg show ?thesis by metis
    qed
  next
    fix u assume u: "u \<in> set q"
    then have "u \<in> set (t # q)" by simp
    from lifecycle_okD(3) [OF life this] obtain b where b: "b \<in> set cs" "c_id b = job_conn u" "c_generation b = j_generation (tk_job u)"
        "j_kind (tk_job u) = KRevoke \<longrightarrow> c_archived_at b \<noteq> None"
        "issue_kind (j_kind (tk_job u)) \<and> (\<exists>j\<in>set js. j_id j = job_id u \<and> j_status j = JCancelled) \<longrightarrow> c_archived_at b \<noteq> None"
      unfolding task_fits_def by blast
    let ?b = "if c_id b = job_conn t then g b else b"
    have "?b \<in> set ?cs" using b(1) by (simp add: set_update_where)
    moreover have same: "c_id ?b = c_id b" "c_generation ?b = c_generation b" "c_archived_at ?b = c_archived_at b"
      using only [OF b(1)] g by auto
    moreover have canc: "\<exists>j\<in>set js. j_id j = job_id u \<and> j_status j = JCancelled"
      if that: "\<exists>j\<in>set ?js. j_id j = job_id u \<and> j_status j = JCancelled"
    proof -
      from that obtain j where j: "j \<in> set ?js" "j_id j = job_id u" "j_status j = JCancelled" by blast
      with back_j [OF j(1)] show ?thesis by auto
    qed
    ultimately show "task_fits ?cs ?js u"
      unfolding task_fits_def using b(2-4) b(5) canc by (intro bexI [of _ ?b]) (simp_all only: same, blast)
  next
    fix j assume j: "j \<in> set ?js" "j_kind j = KRevoke"
    show "j_status j \<noteq> JCancelled"
    proof
      assume "j_status j = JCancelled"
      with back_j [OF j(1)] lifecycle_okD(4) [OF life _ j(2)] show False by auto
    qed
  }
qed


section \<open>Every step keeps the invariant\<close>

definition sync_ok :: "crypto \<Rightarrow> db \<Rightarrow> task list \<Rightarrow> bool" where
  "sync_ok X d q \<longleftrightarrow> conn_inv X d \<and> queue_ok (t_jobs d) q \<and> lifecycle_ok (t_connections d) (t_jobs d) q"

lemma sync_okD:
  assumes "sync_ok X d q"
  shows "conn_inv X d" "queue_ok (t_jobs d) q" "lifecycle_ok (t_connections d) (t_jobs d) q"
  using assms unfolding sync_ok_def by blast+

lemma sync_ok_new:
  assumes ok: "sync_ok X d q" and inv': "conn_inv X d'"
    and jobs: "t_jobs d' = map f (t_jobs d) @ [n]" and f: "cancels i f (t_jobs d)"
    and n: "j_id n \<notin> j_id ` set (t_jobs d)" "j_connection_id n = i" "j_status n = JPending"
      "j_generation n = c_generation (g c)" "kind_fits (j_kind n) (g c)"
    and cs: "t_connections d' = update_where (\<lambda>c. c_id c = i) g (t_connections d)"
    and c: "c \<in> set (t_connections d)" "c_id c = i" "c_archived_at c = None" and g: "\<And>c. c_id (g c) = c_id c"
    and same: "c_generation (g c) = c_generation c \<or> (\<forall>j\<in>set (t_jobs d). j_connection_id j = i \<longrightarrow> \<not> job_open j)"
    and stop: "c_archived_at (g c) \<noteq> None \<or> c_status c = Active"
  shows "sync_ok X d' q"
proof -
  note queue = sync_okD(2) [OF ok] and life = sync_okD(3) [OF ok] and inv = sync_okD(1) [OF ok]
  note dist = conn_inv_distinct [OF inv]
  have only: "b = c" if "b \<in> set (t_connections d)" "c_id b = i" for b using dist that c by (metis distinct_key_unique)
  have cur: "c_generation c = j_generation j \<and> kind_fits (j_kind j) c" if "j \<in> set (t_jobs d)" "job_open j" "j_connection_id j = i" for j
    using lifecycle_okD(1) [OF life that(1,2)] only that(3) unfolding job_fits_def by metis
  have norev: "j_kind j \<noteq> KRevoke" if "j \<in> set (t_jobs d)" "job_open j" "j_connection_id j = i" for j
    using cur [OF that] c(3) by (cases "j_kind j") auto
  have gc: "g c \<in> set (t_connections d')" unfolding cs using update_where_mem [OF c(1), of "\<lambda>c. c_id c = i" g] c(2) by simp
  have fits: "task_fits (t_connections d') (map f (t_jobs d)) t" if t: "t \<in> set q" "job_conn t = i" for t
  proof -
    from lifecycle_okD(3) [OF life t(1)] only t(2) have tc: "c_generation c = j_generation (tk_job t)" "j_kind (tk_job t) \<noteq> KRevoke"
        "issue_kind (j_kind (tk_job t)) \<Longrightarrow> \<not> (\<exists>j\<in>set (t_jobs d). j_id j = job_id t \<and> j_status j = JCancelled)"
      using c(3) unfolding task_fits_def by metis+
    from queue_okD(4) [OF queue t(1)] t(2) same have gen: "c_generation (g c) = c_generation c" by metis
    have "c_archived_at (g c) \<noteq> None"
      if iss: "issue_kind (j_kind (tk_job t))" and canc: "\<exists>j\<in>set (map f (t_jobs d)). j_id j = job_id t \<and> j_status j = JCancelled"
    proof (rule ccontr)
      assume "\<not> c_archived_at (g c) \<noteq> None"
      with stop have act: "c_status c = Active" by blast
      from canc obtain j where j: "j \<in> set (t_jobs d)" "j_id (f j) = job_id t" "j_status (f j) = JCancelled" by auto
      from bspec [OF f [unfolded cancels_def] j(1)] have fj: "job_core (f j) = job_core j"
        "j_status (f j) = (if j_connection_id j = i \<and> job_open j then JCancelled else j_status j)" by auto
      with j(2) have id: "j_id j = job_id t" using job_coreD by metis
      note row = job_coreD [OF queue_ok_row [OF queue t(1) j(1) id]]
      from tc(3) [OF iss] j id have "j_status j \<noteq> JCancelled" by blast
      with fj(2) j(3) have "job_open j" "j_connection_id j = i" by (auto split: if_splits)
      from cur [OF j(1) this] act iss row show False unfolding issue_kind_def by auto
    qed
    with gc gen g tc(1,2) c(2) t(2) show ?thesis unfolding task_fits_def by (intro bexI [of _ "g c"]) auto
  qed
  have "jobs_ok (map f (t_jobs d) @ [n])" using inv' unfolding conn_inv_def jobs by blast
  from queue_ok_new [OF queue f n(1-3) this] have "queue_ok (t_jobs d') q" unfolding jobs .
  moreover have "lifecycle_ok (t_connections d') (t_jobs d') q"
    unfolding jobs
  proof (rule lifecycle_new [OF life queue _ gc _ _ n(2-5) f _ fits norev])
    show "b \<in> set (t_connections d') \<longleftrightarrow> b \<in> set (t_connections d)" if "c_id b \<noteq> i" for b
      unfolding cs set_update_where using that g by (auto simp: image_iff)
    show "c_id (g c) = i" using g c(2) by simp
    show "b = g c" if "b \<in> set (t_connections d')" "c_id b = i" for b
      using update_where_cases [OF that(1) [unfolded cs]] that(2) only by blast
    show "job_id t \<noteq> j_id n" if "t \<in> set q" for t
      using queue_okD(3) [OF queue that] n(1) job_coreD by (metis image_eqI)
  qed
  ultimately show ?thesis using inv' by (simp add: sync_ok_def)
qed


definition cancel_row :: "string \<Rightarrow> time \<Rightarrow> sync_job \<Rightarrow> sync_job" where
  "cancel_row i now j =
     (if j_connection_id j = i \<and> job_open j
      then j\<lparr>j_status := JCancelled, j_completed_at := Some now, j_updated_at := now\<rparr> else j)"

lemma cancel_jobs_rows: "t_jobs (cancel_jobs i now d) = map (cancel_row i now) (t_jobs d)"
  by (simp add: cancel_jobs_def update_where_def cancel_row_def)

lemma cancels_cancel_row: "cancels i (cancel_row i now) js"
  by (simp add: cancels_def cancel_row_def job_core_def)

lemma cancels_none: "\<forall>j\<in>set js. j_connection_id j = i \<longrightarrow> \<not> job_open j \<Longrightarrow> cancels i (\<lambda>j. j) js"
  by (auto simp: cancels_def)

lemma cancel_row_id [simp]: "j_id (cancel_row i now j) = j_id j"
  by (simp add: cancel_row_def)

lemma cancel_row_ids: "j_id ` set (map (cancel_row i now) js) = j_id ` set js"
  by (simp add: image_image)

lemma prepare_rotation_sync:
  assumes ok: "sync_ok X d q" and prep: "prepare_rotation X rnd now i actor d = Ok d'"
  shows "sync_ok X d' q"
proof -
  from prepare_rotation_effect [OF prep] obtain c where
    c: "get_connection i False d = Ok c" "c_status c = Active" "c_suspended_at c = None" and
    eff: "t_connections d' = update_where (\<lambda>r. c_id r = i) (rotate_row X now i (Suc (c_generation c))) (t_connections d)"
      "t_jobs d' = t_jobs d @ [new_job (rnd 6) now i (Suc (c_generation c)) (Some (c_generation c)) KRotate actor]"
      "rnd 6 \<notin> j_id ` set (t_jobs d)" "\<forall>j\<in>set (t_jobs d). j_connection_id j = i \<longrightarrow> \<not> job_open j"
    by blast
  from get_connection_Ok [OF c(1)] have mem: "c \<in> set (t_connections d)" "c_id c = i" "c_archived_at c = None" by auto
  have jobs: "t_jobs d' = map (\<lambda>j. j) (t_jobs d) @ [new_job (rnd 6) now i (Suc (c_generation c)) (Some (c_generation c)) KRotate actor]"
    using eff(2) by simp
  show ?thesis
    by (rule sync_ok_new [OF ok prepare_rotation_inv [OF sync_okD(1) [OF ok] prep] jobs cancels_none [OF eff(4)] _ _ _ _ _ eff(1) mem])
       (use eff(3,4) c mem in \<open>simp_all add: new_job_def rotate_row_def\<close>)
qed

lemma prepare_suspend_effect:
  assumes "prepare_suspend rnd now i actor d = Ok d'"
  shows "\<exists>c. get_connection i False d = Ok c \<and> c_status c = Active \<and>
    t_connections d' = update_where (\<lambda>r. c_id r = i)
      (\<lambda>r. r\<lparr>c_suspended_at := Some (coalesce (c_suspended_at r) now), c_updated_at := now\<rparr>) (t_connections d) \<and>
    t_credentials d' = t_credentials d \<and> t_engine_versions d' = t_engine_versions d \<and>
    t_jobs d' = map (cancel_row i now) (t_jobs d) @ [new_job (rnd 0) now i (c_generation c) None KSuspend actor] \<and>
    rnd 0 \<notin> j_id ` set (t_jobs d)"
  using assms unfolding prepare_suspend_def Let_def
  by (auto simp: create_job_Ok cancel_jobs_rows cancel_row_ids image_image split: if_splits)

lemma prepare_suspend_sync:
  assumes ok: "sync_ok X d q" and prep: "prepare_suspend rnd now i actor d = Ok d'"
  shows "sync_ok X d' q"
proof -
  from prepare_suspend_effect [OF prep] obtain c where
    c: "get_connection i False d = Ok c" "c_status c = Active" and
    eff: "t_connections d' = update_where (\<lambda>r. c_id r = i)
      (\<lambda>r. r\<lparr>c_suspended_at := Some (coalesce (c_suspended_at r) now), c_updated_at := now\<rparr>) (t_connections d)"
    "t_jobs d' = map (cancel_row i now) (t_jobs d) @ [new_job (rnd 0) now i (c_generation c) None KSuspend actor]"
    "rnd 0 \<notin> j_id ` set (t_jobs d)" by blast
  from get_connection_Ok [OF c(1)] have mem: "c \<in> set (t_connections d)" "c_id c = i" "c_archived_at c = None" by auto
  show ?thesis
    by (rule sync_ok_new [OF ok prepare_suspend_inv [OF sync_okD(1) [OF ok] prep] eff(2) cancels_cancel_row _ _ _ _ _ eff(1) mem])
       (use eff(3) c mem in \<open>simp_all add: new_job_def\<close>)
qed

lemma prepare_resume_effect:
  assumes "prepare_resume rnd now i actor d = Ok d'"
  shows "\<exists>c. get_connection i False d = Ok c \<and> c_status c = Active \<and>
    t_connections d' = t_connections d \<and> t_credentials d' = t_credentials d \<and> t_engine_versions d' = t_engine_versions d \<and>
    (d' = d \<or> t_jobs d' = map (cancel_row i now) (t_jobs d) @ [new_job (rnd 0) now i (c_generation c) None KResume actor] \<and>
      rnd 0 \<notin> j_id ` set (t_jobs d))"
  using assms unfolding prepare_resume_def Let_def
  by (auto simp: create_job_Ok cancel_jobs_rows cancel_row_ids image_image split: if_splits)

lemma update_where_same: "(\<And>r. p r \<Longrightarrow> f r = r) \<Longrightarrow> update_where p f rows = rows"
  by (induction rows) auto

lemma prepare_resume_sync:
  assumes ok: "sync_ok X d q" and prep: "prepare_resume rnd now i actor d = Ok d'"
  shows "sync_ok X d' q"
proof -
  from prepare_resume_effect [OF prep] obtain c where
    c: "get_connection i False d = Ok c" "c_status c = Active" and
    eff: "t_connections d' = t_connections d"
    "d' = d \<or> t_jobs d' = map (cancel_row i now) (t_jobs d) @ [new_job (rnd 0) now i (c_generation c) None KResume actor] \<and>
      rnd 0 \<notin> j_id ` set (t_jobs d)" by blast
  from get_connection_Ok [OF c(1)] have mem: "c \<in> set (t_connections d)" "c_id c = i" "c_archived_at c = None" by auto
  have cs: "t_connections d' = update_where (\<lambda>r. c_id r = i) (\<lambda>r. r) (t_connections d)"
    unfolding eff(1) by (rule update_where_same [symmetric]) simp
  from eff(2) show ?thesis
  proof
    assume e: "t_jobs d' = map (cancel_row i now) (t_jobs d) @ [new_job (rnd 0) now i (c_generation c) None KResume actor] \<and>
      rnd 0 \<notin> j_id ` set (t_jobs d)"
    show ?thesis
      by (rule sync_ok_new [OF ok prepare_resume_inv [OF sync_okD(1) [OF ok] prep] conjunct1 [OF e] cancels_cancel_row _ _ _ _ _ cs mem])
         (use e c mem in \<open>simp_all add: new_job_def\<close>)
  qed (use ok in simp)
qed

lemma prepare_archive_effect:
  assumes "prepare_archive rnd now i actor d = Ok d'"
  shows "\<exists>c. get_connection i False d = Ok c \<and>
    t_connections d' = update_where (\<lambda>r. c_id r = i) (\<lambda>r. r\<lparr>c_status := Archiving, c_token_hash := None,
      c_archived_at := Some now, c_updated_at := now\<rparr>) (t_connections d) \<and>
    t_credentials d' = t_credentials d \<and> t_engine_versions d' = t_engine_versions d \<and>
    t_jobs d' = map (cancel_row i now) (t_jobs d) @ [new_job (rnd 0) now i (c_generation c) None KRevoke actor] \<and>
    rnd 0 \<notin> j_id ` set (t_jobs d)"
proof -
  let ?f = "\<lambda>r. r\<lparr>c_status := Archiving, c_token_hash := None, c_archived_at := Some now, c_updated_at := now\<rparr>"
  from assms obtain c d1 where c: "get_connection i False d = Ok c"
    and job: "create_job (rnd 0) now i (c_generation c) None KRevoke actor (update_connection i ?f (cancel_jobs i now d)) = Ok d1"
    and log: "log_connection ''connections.archive'' ''connection.archived'' actor i (c_name c) [] now d1 = Ok d'"
    unfolding prepare_archive_def by (auto simp del: not_Some_eq)
  note t = log_connection_tables [OF log]
  show ?thesis
    by (rule exI [of _ c]) (use c job t in \<open>simp add: create_job_Ok cancel_jobs_rows cancel_row_ids image_image\<close>)
qed

lemma prepare_archive_sync:
  assumes ok: "sync_ok X d q" and prep: "prepare_archive rnd now i actor d = Ok d'"
  shows "sync_ok X d' q"
proof -
  from prepare_archive_effect [OF prep] obtain c where
    c: "get_connection i False d = Ok c" and
    eff: "t_connections d' = update_where (\<lambda>r. c_id r = i) (\<lambda>r. r\<lparr>c_status := Archiving, c_token_hash := None,
      c_archived_at := Some now, c_updated_at := now\<rparr>) (t_connections d)"
    "t_jobs d' = map (cancel_row i now) (t_jobs d) @ [new_job (rnd 0) now i (c_generation c) None KRevoke actor]"
    "rnd 0 \<notin> j_id ` set (t_jobs d)" by blast
  from get_connection_Ok [OF c(1)] have mem: "c \<in> set (t_connections d)" "c_id c = i" "c_archived_at c = None" by auto
  show ?thesis
    by (rule sync_ok_new [OF ok prepare_archive_inv [OF sync_okD(1) [OF ok] prep] eff(2) cancels_cancel_row _ _ _ _ _ eff(1) mem])
       (use eff(3) c mem in \<open>simp_all add: new_job_def\<close>)
qed


lemma newest_job_Some: "newest_job p d = Some j \<Longrightarrow> j \<in> set (t_jobs d) \<and> p j"
proof -
  let ?s = "sort_by (\<lambda>a b. j_created_at b \<le> j_created_at a) (rev (filter p (t_jobs d)))"
  assume "newest_job p d = Some j"
  then obtain xs where eq: "?s = j # xs" unfolding newest_job_def by (auto split: list.splits)
  have "j \<in> set ?s" by (simp only: eq list.set_intros)
  then show ?thesis by (simp only: set_sort_by set_rev set_filter mem_Collect_eq)
qed

lemma newest_job_None: "newest_job p d = None \<longleftrightarrow> (\<forall>j\<in>set (t_jobs d). \<not> p j)"
proof -
  let ?s = "sort_by (\<lambda>a b. j_created_at b \<le> j_created_at a) (rev (filter p (t_jobs d)))"
  have "newest_job p d = None \<longleftrightarrow> ?s = []" unfolding newest_job_def by (simp split: list.splits)
  also have "\<dots> \<longleftrightarrow> set ?s = {}" by (simp only: set_empty)
  also have "\<dots> \<longleftrightarrow> (\<forall>j\<in>set (t_jobs d). \<not> p j)" unfolding set_sort_by by auto
  finally show ?thesis .
qed

lemma update_where_cong: "(\<And>r. r \<in> set rows \<Longrightarrow> p r = q r) \<Longrightarrow> update_where p f rows = update_where q f rows"
  by (induction rows) auto

lemma update_jobs_fields [simp]:
  "t_connections (update_jobs p f d) = t_connections d" "t_credentials (update_jobs p f d) = t_credentials d"
  "t_jobs (update_jobs p f d) = update_where p f (t_jobs d)" "t_engine_versions (update_jobs p f d) = t_engine_versions d"
  by (simp_all add: update_jobs_def)

lemma claim_job_effect:
  assumes jok: "jobs_ok (t_jobs d)" and claim: "claim_job force now i d = (r, d')"
  shows "(r = None \<and> d' = d) \<or>
    (\<exists>j\<in>set (t_jobs d). j_connection_id j = i \<and> j_status j \<in> {JPending, JFailed} \<and> (force \<or> j_next_attempt_at j \<le> now) \<and>
       r = Some (running_row now j) \<and> d' = update_jobs (\<lambda>k. j_id k = j_id j) (running_row now) d)"
proof (cases "open_job i d")
  case None with claim show ?thesis by (simp add: claim_job_def)
next
  case (Some job)
  with newest_job_Some have job: "job \<in> set (t_jobs d)" "j_connection_id job = i" unfolding open_job_def by blast+
  let ?p = "\<lambda>j. j_id j = j_id job \<and> j_status j \<in> {JPending, JFailed} \<and> (force \<or> j_next_attempt_at j \<le> now)"
  show ?thesis
  proof (cases "changes ?p (t_jobs d) = 0")
    case True with Some claim show ?thesis by (simp add: claim_job_def Let_def)
  next
    case False
    then obtain k where k: "k \<in> set (t_jobs d)" "?p k" by auto
    with jobs_ok_id [OF jok _ job(1)] have "k = job" by blast
    with k have p: "?p job" by simp
    have "update_where ?p (running_row now) (t_jobs d) = update_where (\<lambda>k. j_id k = j_id job) (running_row now) (t_jobs d)"
      by (rule update_where_cong) (use p jobs_ok_id [OF jok _ job(1)] in blast)
    then have d': "update_jobs ?p (running_row now) d = update_jobs (\<lambda>k. j_id k = j_id job) (running_row now) d"
      by (simp add: update_jobs_def)
    have "select_one (\<lambda>j. j_id j = j_id job) (update_where (\<lambda>k. j_id k = j_id job) (running_row now) (t_jobs d)) = Some (running_row now job)"
    proof -
      have "select_one (\<lambda>j. j_id j = j_id job) (t_jobs d) = Some job"
        by (rule select_one_unique [where key = j_id]) (use jok job in \<open>auto simp: jobs_ok_def\<close>)
      then show ?thesis by (subst select_one_update_where) (simp_all add: running_row_def)
    qed
    moreover have "claim_job force now i d =
        (select_one (\<lambda>j. j_id j = j_id job) (t_jobs (update_jobs ?p (running_row now) d)), update_jobs ?p (running_row now) d)"
      unfolding claim_job_def Let_def Some option.case using False by (simp only: if_False)
    ultimately have "r = Some (running_row now job)" "d' = update_jobs (\<lambda>k. j_id k = j_id job) (running_row now) d"
      using claim unfolding d' by simp_all
    with job p show ?thesis by blast
  qed
qed

lemma claim_job_sync:
  assumes ok: "sync_ok X d q" and claim: "claim_job force now i d = (r, d')"
  shows "sync_ok X d' (q @ claimed r)"
  using claim_job_effect [OF queue_okD(1) [OF sync_okD(2) [OF ok]] claim]
proof
  assume "r = None \<and> d' = d" with ok show ?thesis by (simp add: claimed_def)
next
  note inv = sync_okD(1) [OF ok] and queue = sync_okD(2) [OF ok] and life = sync_okD(3) [OF ok]
  note jok = queue_okD(1) [OF queue]
  assume "\<exists>j\<in>set (t_jobs d). j_connection_id j = i \<and> j_status j \<in> {JPending, JFailed} \<and> (force \<or> j_next_attempt_at j \<le> now) \<and>
       r = Some (running_row now j) \<and> d' = update_jobs (\<lambda>k. j_id k = j_id j) (running_row now) d"
  then obtain j where j: "j \<in> set (t_jobs d)" "j_status j \<in> {JPending, JFailed}"
    and r: "r = Some (running_row now j)" and d': "d' = update_jobs (\<lambda>k. j_id k = j_id j) (running_row now) d" by blast
  have f: "job_core (running_row now k) = job_core k" "j_status (running_row now k) = JRunning" for k
    by (simp_all add: running_row_def job_core_def)
  have q': "q @ claimed r = q @ [\<lparr>tk_job = running_row now j, tk_phase = Waiting\<rparr>]" by (simp add: claimed_def r)
  have queue': "queue_ok (t_jobs d') (q @ claimed r)"
    unfolding q' d' update_jobs_fields by (rule queue_ok_claim [OF queue j]) (rule f)+
  have "lifecycle_ok (t_connections d') (t_jobs d') (q @ claimed r)"
    unfolding d' update_jobs_fields update_where_def
  proof (rule lifecycle_status [OF life])
    fix k assume "k \<in> set (t_jobs d)"
    then show "job_core (if j_id k = j_id j then running_row now k else k) = job_core k \<and>
        (job_open (if j_id k = j_id j then running_row now k else k) \<longleftrightarrow> job_open k) \<and>
        (j_status (if j_id k = j_id j then running_row now k else k) = JCancelled \<longleftrightarrow> j_status k = JCancelled)"
      using f [of k] jobs_ok_id [OF jok _ j(1), of k] j(2) by (auto simp: job_open_def)
  next
    fix t assume "t \<in> set (q @ claimed r)"
    then consider "t \<in> set q" | "t = \<lparr>tk_job = running_row now j, tk_phase = Waiting\<rparr>" unfolding q' by auto
    then show "(\<exists>u\<in>set q. tk_job t = tk_job u) \<or>
        (\<exists>j\<in>set (t_jobs d). job_open j \<and> job_core j = job_core (tk_job t) \<and> (\<forall>k\<in>set (t_jobs d). j_id k = j_id j \<longrightarrow> k = j))"
    proof cases
      case 2
      have "job_open j" using j(2) by (auto simp: job_open_def)
      with 2 f j(1) jobs_ok_id [OF jok _ j(1)] show ?thesis by auto
    qed blast
  qed
  moreover have "conn_inv X d'" using inv queue_okD(1) [OF queue'] unfolding d' by (simp add: conn_inv_def)
  ultimately show ?thesis using queue' by (simp add: sync_ok_def)
qed

text \<open>A change of status that keeps a job open and does not start it.\<close>

lemma sync_ok_status:
  assumes ok: "sync_ok X d q" and f: "\<And>j. job_core (f j) = job_core j"
    and p: "\<And>j. p j \<Longrightarrow> j_status j \<in> {JPending, JFailed} \<and> j_status (f j) \<in> {JPending, JFailed}"
  shows "sync_ok X (update_jobs p f d) q"
proof -
  note queue = sync_okD(2) [OF ok] and life = sync_okD(3) [OF ok]
  have core: "j_id (f j) = j_id j" "j_connection_id (f j) = j_connection_id j" for j using job_coreD [OF f [of j]] by simp_all
  let ?g = "\<lambda>j. if p j then f j else j"
  have g: "job_core (?g j) = job_core j" "job_open (?g j) = job_open j"
    "j_status (?g j) = JCancelled \<longleftrightarrow> j_status j = JCancelled" "j_status (?g j) = JRunning \<longleftrightarrow> j_status j = JRunning" for j
    using f p [of j] by (auto simp: job_open_def)
  have eq: "t_jobs (update_jobs p f d) = map ?g (t_jobs d)" by (simp add: update_where_def)
  have jok: "jobs_ok (map ?g (t_jobs d))"
    unfolding update_where_def [symmetric]
    by (rule jobs_ok_update [OF queue_okD(1) [OF queue]]) (use core p in \<open>auto simp: job_open_def\<close>)
  have run: "\<exists>j\<in>set (t_jobs d). j_id j = j_id j' \<and> j_status j = JRunning" if "j' \<in> set (map ?g (t_jobs d))" "j_status j' = JRunning" for j'
  proof -
    from that obtain j where j: "j \<in> set (t_jobs d)" "j' = ?g j" by auto
    with g(4) [of j] that(2) job_coreD [OF g(1) [of j]] show ?thesis by metis
  qed
  have "queue_ok (map ?g (t_jobs d)) q"
  proof (rule queue_okI [OF jok queue_okD(2) [OF queue]])
    fix t assume t: "t \<in> set q"
    from queue_okD(3) [OF queue t] obtain j where "j \<in> set (t_jobs d)" "job_core j = job_core (tk_job t)" "j_status j \<in> {JRunning, JCancelled}" by blast
    moreover from this have "?g j = j" using p [of j] by auto
    ultimately show "\<exists>j\<in>set (map ?g (t_jobs d)). job_core j = job_core (tk_job t) \<and> j_status j \<in> {JRunning, JCancelled}" by force
    from queue_okD(4) [OF queue t] obtain k where "k \<in> set (t_jobs d)" "j_connection_id k = job_conn t" "job_open k" by blast
    with g(2) [of k] job_coreD [OF g(1) [of k]]
    have "?g k \<in> set (map ?g (t_jobs d))" "j_connection_id (?g k) = job_conn t" "job_open (?g k)" by auto
    then show "\<exists>k\<in>set (map ?g (t_jobs d)). j_connection_id k = job_conn t \<and> job_open k" by blast
  next
    fix j assume "j \<in> set (map ?g (t_jobs d))" "j_status j = JRunning"
    from run [OF this] obtain k where "k \<in> set (t_jobs d)" "j_id k = j_id j" "j_status k = JRunning" by blast
    with queue_okD(5) [OF queue this(1,3)] show "\<exists>t\<in>set q. job_id t = j_id j" by simp
  next
    fix xs t ys j u assume split: "q = xs @ t # ys" and j: "j \<in> set (map ?g (t_jobs d))" "j_id j = job_id t" "j_status j = JRunning" and u: "u \<in> set ys"
    from run [OF j(1,3)] j(2) obtain k where "k \<in> set (t_jobs d)" "j_id k = job_id t" "j_status k = JRunning" by metis
    from queue_okD(6) [OF queue split this u] show "job_conn u \<noteq> job_conn t" .
  qed
  moreover have "lifecycle_ok (t_connections d) (map ?g (t_jobs d)) q"
    by (rule lifecycle_status [OF life]) (use g in blast)+
  moreover have "conn_inv X (update_jobs p f d)" using sync_okD(1) [OF ok] jok eq by (simp add: conn_inv_def)
  ultimately show ?thesis unfolding sync_ok_def eq by simp
qed


lemma record_event_versions:
  "record_event ty e now d = Ok d' \<Longrightarrow> t_engine_versions d' = t_engine_versions d \<and> s_release_checks d' = s_release_checks d"
  using record_event_data data_of_fields by metis

text \<open>What the completion of a job writes into its connection.\<close>

fun complete_row :: "sync_kind \<Rightarrow> time \<Rightarrow> connection \<Rightarrow> connection" where
  "complete_row KRevoke now c = c\<lparr>c_status := Archived, c_updated_at := now\<rparr>"
| "complete_row KSuspend now c = c"
| "complete_row KResume now c = c\<lparr>c_suspended_at := None, c_updated_at := now\<rparr>"
| "complete_row _ now c = c\<lparr>c_status := Active, c_activated_at := Some now, c_updated_at := now\<rparr>"

lemma complete_row_same [simp]:
  "c_id (complete_row k now c) = c_id c" "c_generation (complete_row k now c) = c_generation c"
  "c_archived_at (complete_row k now c) = c_archived_at c"
  by (cases k; simp)+

lemma complete_job_fields [simp]:
  "t_connections (complete_job now i d) = t_connections d" "t_credentials (complete_job now i d) = t_credentials d"
  "t_engine_versions (complete_job now i d) = t_engine_versions d"
  by (simp_all add: complete_job_def)

lemma complete_task_effect:
  assumes "complete_task now job d = Ok d'"
  shows "\<exists>c d1. get_connection (j_connection_id job) (j_kind job \<in> {KActivate, KRotate, KRevoke}) d = Ok c \<and>
    t_connections d1 = update_where (\<lambda>r. c_id r = j_connection_id job) (complete_row (j_kind job) now) (t_connections d) \<and>
    t_jobs d1 = t_jobs d \<and> d' = complete_job now (j_id job) d1 \<and>
    (case j_kind job of
       KRevoke \<Rightarrow> complete_archive now (j_connection_id job) (j_actor job) d = Ok d1
     | KSuspend \<Rightarrow> complete_suspend now (j_connection_id job) (j_actor job) d = Ok d1
     | KResume \<Rightarrow> complete_resume now (j_connection_id job) (j_actor job) d = Ok d1
     | _ \<Rightarrow> complete_activation now (j_connection_id job) (j_generation job) (j_actor job) d = Ok d1)"
proof -
  let ?i = "j_connection_id job"
  have act: ?thesis if k: "j_kind job = KActivate \<or> j_kind job = KRotate"
  proof -
    from k assms obtain d1 where d1: "complete_activation now ?i (j_generation job) (j_actor job) d = Ok d1" "d' = complete_job now (j_id job) d1"
      unfolding complete_task_def by auto
    from complete_activation_effect [OF d1(1)] obtain c where "get_connection ?i True d = Ok c"
      "t_connections d1 = update_where (\<lambda>r. c_id r = ?i) (\<lambda>r. r\<lparr>c_status := Active, c_activated_at := Some now, c_updated_at := now\<rparr>) (t_connections d)"
      "t_jobs d1 = t_jobs d" by blast
    with k d1 show ?thesis
      by (intro exI [of _ c] exI [of _ d1]) (auto simp: complete_row.simps(4) [abs_def] complete_row.simps(5) [abs_def])
  qed
  show ?thesis
  proof (cases "j_kind job")
    case KRevoke
    with assms obtain d1 where d1: "complete_archive now ?i (j_actor job) d = Ok d1" "d' = complete_job now (j_id job) d1"
      unfolding complete_task_def by auto
    from d1(1) obtain c where "get_connection ?i True d = Ok c" unfolding complete_archive_def by auto
    with KRevoke d1 complete_archive_effect [OF d1(1)] show ?thesis
      by (intro exI [of _ c] exI [of _ d1]) (simp add: complete_row.simps(1) [abs_def])
  next
    case KSuspend
    with assms obtain d1 where d1: "complete_suspend now ?i (j_actor job) d = Ok d1" "d' = complete_job now (j_id job) d1"
      unfolding complete_task_def by auto
    from d1(1) obtain c where c: "get_connection ?i False d = Ok c"
      and log: "log_connection ''connections.suspend'' ''connection.suspended'' (j_actor job) ?i (c_name c) [] now d = Ok d1"
      unfolding complete_suspend_def by (auto simp del: not_Some_eq)
    have "update_where (\<lambda>r. c_id r = ?i) (\<lambda>r. r) (t_connections d) = t_connections d" by (rule update_where_same) simp
    with KSuspend c d1 log_connection_tables [OF log] show ?thesis
      by (intro exI [of _ c] exI [of _ d1]) (simp add: complete_row.simps(2) [abs_def])
  next
    case KResume
    with assms obtain d1 where d1: "complete_resume now ?i (j_actor job) d = Ok d1" "d' = complete_job now (j_id job) d1"
      unfolding complete_task_def by auto
    from d1(1) obtain c where c: "get_connection ?i False d = Ok c"
      and log: "log_connection ''connections.resume'' ''connection.resumed'' (j_actor job) ?i (c_name c) [] now
        (update_connection ?i (\<lambda>r. r\<lparr>c_suspended_at := None, c_updated_at := now\<rparr>) d) = Ok d1"
      unfolding complete_resume_def by (auto simp del: not_Some_eq)
    with KResume d1 log_connection_tables [OF log] show ?thesis
      by (intro exI [of _ c] exI [of _ d1]) (simp add: complete_row.simps(3) [abs_def])
  qed (use act in auto)
qed

lemma transitional_complete:
  "kind_fits k c \<Longrightarrow> \<not> transitional (complete_row k now c)"
  by (cases k) (auto simp: transitional_def)

lemma kind_fits_complete:
  assumes "kind_fits k' c" and "k \<noteq> KRevoke" and "issue_kind k \<longrightarrow> c_archived_at c \<noteq> None"
  shows "kind_fits k' (complete_row k now c)"
  using assms by (cases k'; cases k) (auto simp: issue_kind_def)

lemma finish_sync:
  assumes ok: "sync_ok X d (t # q)" and fin: "complete_task now (tk_job t) d = Ok d'"
  shows "sync_ok X d' q"
proof -
  note inv = sync_okD(1) [OF ok] and queue = sync_okD(2) [OF ok] and life = sync_okD(3) [OF ok]
  note dist = conn_inv_distinct [OF inv]
  let ?k = "j_kind (tk_job t)"
  from complete_task_effect [OF fin] obtain d1 where
    eff: "t_connections d1 = update_where (\<lambda>r. c_id r = job_conn t) (complete_row ?k now) (t_connections d)"
      "t_jobs d1 = t_jobs d" "d' = complete_job now (job_id t) d1"
    and op: "case ?k of
       KRevoke \<Rightarrow> complete_archive now (job_conn t) (j_actor (tk_job t)) d = Ok d1
     | KSuspend \<Rightarrow> complete_suspend now (job_conn t) (j_actor (tk_job t)) d = Ok d1
     | KResume \<Rightarrow> complete_resume now (job_conn t) (j_actor (tk_job t)) d = Ok d1
     | _ \<Rightarrow> complete_activation now (job_conn t) (j_generation (tk_job t)) (j_actor (tk_job t)) d = Ok d1" by blast
  have t: "t \<in> set (t # q)" by simp
  from lifecycle_okD(3) [OF life t] obtain c where c: "c \<in> set (t_connections d)" "c_id c = job_conn t"
      "c_generation c = j_generation (tk_job t)" "?k = KRevoke \<longrightarrow> c_archived_at c \<noteq> None"
      "issue_kind ?k \<and> (\<exists>j\<in>set (t_jobs d). j_id j = job_id t \<and> j_status j = JCancelled) \<longrightarrow> c_archived_at c \<noteq> None"
    unfolding task_fits_def by blast
  have only: "b = c" if "b \<in> set (t_connections d)" "c_id b = job_conn t" for b using dist that c by (metis distinct_key_unique)
  from queue_okD(3) [OF queue t] obtain row where row: "row \<in> set (t_jobs d)" "job_core row = job_core (tk_job t)" "j_status row \<in> {JRunning, JCancelled}" by blast
  from queue_okD(4) [OF queue t] obtain o' where o': "o' \<in> set (t_jobs d)" "j_connection_id o' = job_conn t" "job_open o'" by blast
  from lifecycle_okD(1) [OF life o'(1,3)] only o'(2) have live: "kind_fits (j_kind o') c" unfolding job_fits_def by metis
  then have alive: "c_status c \<noteq> Archived" by (cases "j_kind o'") auto
  have inv1: "conn_inv X d1"
  proof (cases ?k)
    case KRevoke
    with op have "complete_archive now (job_conn t) (j_actor (tk_job t)) d = Ok d1" by simp
    from complete_archive_inv [OF inv this] only c(4) KRevoke show ?thesis by blast
  next
    case KSuspend with op show ?thesis using complete_suspend_inv [OF inv] by simp
  next
    case KResume with op show ?thesis using complete_resume_inv [OF inv] by simp
  next
    case KActivate
    with op have "complete_activation now (job_conn t) (j_generation (tk_job t)) (j_actor (tk_job t)) d = Ok d1" by simp
    from complete_activation_inv [OF inv this] only c(3) alive show ?thesis by blast
  next
    case KRotate
    with op have "complete_activation now (job_conn t) (j_generation (tk_job t)) (j_actor (tk_job t)) d = Ok d1" by simp
    from complete_activation_inv [OF inv this] only c(3) alive show ?thesis by blast
  qed
  let ?f = "\<lambda>j. j\<lparr>j_status := JCompleted, j_next_attempt_at := now, j_last_error := None, j_completed_at := Some now, j_updated_at := now\<rparr>"
  have f: "job_core (?f j) = job_core j \<and> j_status (?f j) = JCompleted" for j by (simp add: job_core_def)
  have jobs: "t_jobs d' = update_where (\<lambda>j. j_id j = job_id t \<and> j_status j = JRunning) ?f (t_jobs d)"
    unfolding eff(3) complete_job_def by (simp add: eff(2))
  have queue': "queue_ok (t_jobs d') q"
    unfolding jobs by (rule queue_ok_pop [OF queue _ f]) simp
  have cs: "t_connections d' = update_where (\<lambda>r. c_id r = job_conn t) (complete_row ?k now) (t_connections d)"
    unfolding eff(3) by (simp add: eff(1))
  have "lifecycle_ok (t_connections d') (t_jobs d') q"
    unfolding jobs cs
  proof (rule lifecycle_finish [OF life queue dist c(1,2) _ _ _ _ _ f])
    fix j assume j: "j \<in> set (t_jobs d)" "j_id j = job_id t" and fits: "kind_fits (j_kind j) c"
    from job_coreD [OF queue_ok_row [OF queue t j]] have "j_kind j = ?k" by simp
    with fits show "\<not> transitional (complete_row ?k now c)" using transitional_complete by metis
  next
    fix k assume k: "k \<in> set (t_jobs d)" "job_open k" "j_connection_id k = job_conn t" "j_id k \<noteq> job_id t"
      and fits: "kind_fits (j_kind k) c"
    have canc: "j_status row = JCancelled"
    proof (rule ccontr)
      assume "j_status row \<noteq> JCancelled"
      with row(3) have "job_open row" by (simp add: job_open_def)
      with jobs_ok_open [OF queue_okD(1) [OF queue] row(1) k(1) _ k(2)] k(3) job_coreD [OF row(2)] have "row = k" by simp
      with k(4) job_coreD [OF row(2)] show False by simp
    qed
    with lifecycle_okD(4) [OF life row(1)] job_coreD [OF row(2)] have "?k \<noteq> KRevoke" by auto
    moreover from c(5) row(1) canc job_coreD [OF row(2)] have "issue_kind ?k \<longrightarrow> c_archived_at c \<noteq> None" by blast
    ultimately show "kind_fits (j_kind k) (complete_row ?k now c)" by (rule kind_fits_complete [OF fits])
  qed simp_all
  moreover have "conn_inv X d'"
    using inv1 queue_okD(1) [OF queue'] unfolding conn_inv_def eff(3) by simp
  ultimately show ?thesis using queue' by (simp add: sync_ok_def)
qed


lemma fail_sync:
  assumes ok: "sync_ok X d (t # q)"
  shows "sync_ok X (fail_job now (tk_job t) err d) q"
proof -
  note inv = sync_okD(1) [OF ok] and queue = sync_okD(2) [OF ok] and life = sync_okD(3) [OF ok]
  let ?f = "\<lambda>j. j\<lparr>j_status := JFailed, j_next_attempt_at := next_retry (j_attempts (tk_job t)) now,
              j_last_error := Some (take 500 err), j_updated_at := now\<rparr>"
  have f: "job_core (?f j) = job_core j \<and> j_status (?f j) = JFailed" for j by (simp add: job_core_def)
  have jobs: "t_jobs (fail_job now (tk_job t) err d) = update_where (\<lambda>j. j_id j = job_id t \<and> j_status j = JRunning) ?f (t_jobs d)"
    by (simp add: fail_job_def)
  have queue': "queue_ok (t_jobs (fail_job now (tk_job t) err d)) q"
    unfolding jobs by (rule queue_ok_pop [OF queue _ f]) simp
  have "lifecycle_ok (t_connections d) (t_jobs (fail_job now (tk_job t) err d)) q"
    unfolding jobs update_where_def
    by (rule lifecycle_status [OF life]) (use f in \<open>auto simp: job_open_def job_core_def\<close>)
  with queue' show ?thesis
    using inv queue_okD(1) [OF queue'] unfolding sync_ok_def conn_inv_def by (simp add: fail_job_def)
qed

lemma restart_sync:
  assumes ok: "sync_ok X d q"
  shows "sync_ok X (recover_interrupted now d) []"
proof -
  note inv = sync_okD(1) [OF ok] and queue = sync_okD(2) [OF ok] and life = sync_okD(3) [OF ok]
  let ?f = "\<lambda>j. j\<lparr>j_status := JFailed, j_next_attempt_at := now, j_last_error := Some ''interrupted'', j_updated_at := now\<rparr>"
  have f: "job_core (?f j) = job_core j \<and> j_status (?f j) = JFailed" for j by (simp add: job_core_def)
  have jobs: "t_jobs (recover_interrupted now d) = update_where (\<lambda>j. j_status j = JRunning) ?f (t_jobs d)"
    by (simp add: recover_interrupted_def)
  have queue': "queue_ok (t_jobs (recover_interrupted now d)) []"
    unfolding jobs by (rule queue_ok_restart [OF queue f])
  have "lifecycle_ok (t_connections d) (t_jobs (recover_interrupted now d)) []"
    unfolding jobs update_where_def
    by (rule lifecycle_status [OF life]) (use f in \<open>auto simp: job_open_def job_core_def\<close>)
  with queue' show ?thesis
    using inv queue_okD(1) [OF queue'] unfolding sync_ok_def conn_inv_def by (simp add: recover_interrupted_def)
qed

lemma phase_sync: "sync_ok X d (t # q) \<Longrightarrow> sync_ok X d (t\<lparr>tk_phase := p\<rparr> # q)"
proof -
  assume ok: "sync_ok X d (t # q)"
  have "task_fits cs js (t\<lparr>tk_phase := p\<rparr>) = task_fits cs js t" for cs js by (simp add: task_fits_def)
  with ok queue_ok_phase show ?thesis by (auto simp: sync_ok_def lifecycle_ok_def)
qed

text \<open>Writes that leave id, generation, status and archival of every connection.\<close>

lemma stage_sync:
  assumes ok: "sync_ok X d q" and inv': "conn_inv X d'" and jobs: "t_jobs d' = t_jobs d"
    and cs: "t_connections d' = map f (t_connections d)" and f: "\<And>c. same_stage (f c) c"
  shows "sync_ok X d' q"
  using sync_okD [OF ok] lifecycle_map [OF sync_okD(3) [OF ok] f] inv' unfolding sync_ok_def jobs cs by blast

lemma update_connection_stage:
  assumes "\<And>c. same_stage (f c) c"
  shows "\<exists>g. t_connections (update_connection i f d) = map g (t_connections d) \<and> (\<forall>c. same_stage (g c) c)"
  by (rule exI [of _ "\<lambda>c. if c_id c = i then f c else c"])
     (use assms in \<open>auto simp: update_where_def same_stage_def\<close>)

lemma details_sync:
  assumes ok: "sync_ok X d q" and upd: "update_connection_details now i input actor d = Ok (c, d')"
  shows "sync_ok X d' q"
proof -
  from upd obtain before n co a where "get_connection i False d = Ok before"
    and log: "log_connection ''connections.update'' ''connection.updated'' actor i
      (coalesce n (c_name before)) [] now (update_connection i (\<lambda>r. r\<lparr>c_name := coalesce n (c_name before),
        c_color := coalesce co (c_color before), c_avatar := coalesce a (c_avatar before), c_updated_at := now\<rparr>) d) = Ok d'"
    unfolding update_connection_details_def Let_def by (auto simp del: not_Some_eq)
  let ?f = "\<lambda>r. r\<lparr>c_name := coalesce n (c_name before), c_color := coalesce co (c_color before),
      c_avatar := coalesce a (c_avatar before), c_updated_at := now\<rparr>"
  have "same_stage (?f c) c" for c by (simp add: same_stage_def)
  from update_connection_stage [of ?f i d, OF this] obtain g where
    "t_connections (update_connection i ?f d) = map g (t_connections d)" "\<And>c. same_stage (g c) c" by blast
  with log_connection_tables [OF log] show ?thesis
    by (intro stage_sync [where f = g, OF ok update_connection_details_inv [OF sync_okD(1) [OF ok] upd]]) simp_all
qed

lemma fetched_sync:
  assumes ok: "sync_ok X d q" and upd: "mark_fetched now i d = Ok d'"
  shows "sync_ok X d' q"
proof -
  let ?f = "\<lambda>r. r\<lparr>c_first_used_at := Some (coalesce (c_first_used_at r) now), c_last_fetched_at := Some now, c_updated_at := now\<rparr>"
  let ?d = "update_connection i ?f d"
  from upd have "d' = ?d \<or> (\<exists>ty e. record_event ty e now ?d = Ok d')"
    unfolding mark_fetched_def Let_def by (auto simp del: not_Some_eq split: if_splits)
  then have t: "t_connections d' = t_connections ?d" "t_jobs d' = t_jobs d"
    using record_event_tables(1,3) by fastforce+
  have "same_stage (?f c) c" for c by (simp add: same_stage_def)
  from update_connection_stage [of ?f i d, OF this] obtain g where
    "t_connections ?d = map g (t_connections d)" "\<And>c. same_stage (g c) c" by blast
  with t show ?thesis
    by (intro stage_sync [where f = g, OF ok mark_fetched_inv [OF sync_okD(1) [OF ok] upd]]) simp_all
qed

lemma subscription_sync:
  assumes ok: "sync_ok X d q" and sub: "subscription X i d = Ok (u, d')"
  shows "sync_ok X d' q"
proof (cases "d' = d")
  case False
  with sub obtain h where d': "d' = update_connection i (\<lambda>r. r\<lparr>c_token_hash := h\<rparr>) d"
    unfolding subscription_def Let_def by (auto split: if_splits)
  have "same_stage (c\<lparr>c_token_hash := h\<rparr>) c" for c by (simp add: same_stage_def)
  from update_connection_stage [of "\<lambda>r. r\<lparr>c_token_hash := h\<rparr>" i d, OF this] obtain g where
    "t_connections d' = map g (t_connections d)" "\<And>c. same_stage (g c) c" unfolding d' by blast
  with d' show ?thesis
    by (intro stage_sync [where f = g, OF ok subscription_inv [OF sync_okD(1) [OF ok] sub]]) simp_all
qed (use ok in simp)

lemma view_sync:
  assumes ok: "sync_ok X d q" and v: "sync_view X i ia d = Ok (v, d')"
  shows "sync_ok X d' q"
  using v subscription_sync [OF ok] ok unfolding sync_view_def Let_def by (auto split: if_splits prod.splits)


lemma create_sync:
  assumes ok: "sync_ok X d q" and create: "create_connection X rnd now input actor d = Ok (c0, d')"
  shows "sync_ok X d' q"
proof -
  note inv = sync_okD(1) [OF ok] and queue = sync_okD(2) [OF ok] and life = sync_okD(3) [OF ok]
  from create_connection_effect [OF create] obtain n co a c where
    c: "c = new_connection X (rnd 0) (Suc (max_serial (t_connections d))) n co a now" and
    eff: "t_connections d' = t_connections d @ [c]" "\<forall>r\<in>set (t_connections d). c_id r \<noteq> rnd 0"
      "t_jobs d' = t_jobs d @ [new_job (rnd 7) now (rnd 0) 1 None KActivate actor]"
      "rnd 7 \<notin> j_id ` set (t_jobs d)" "\<forall>j\<in>set (t_jobs d). j_connection_id j = rnd 0 \<longrightarrow> \<not> job_open j"
    unfolding Let_def by blast
  let ?n = "new_job (rnd 7) now (rnd 0) 1 None KActivate actor"
  have fields: "c_id c = rnd 0" "c_generation c = 1" "c_status c = Provisioning" "c_archived_at c = None"
    by (simp_all add: c new_connection_def)
  have inv': "conn_inv X d'" by (rule create_connection_inv [OF inv create])
  have jobs: "t_jobs d' = map (\<lambda>j. j) (t_jobs d) @ [?n]" using eff(3) by simp
  note f = cancels_none [OF eff(5)]
  have nf: "j_id ?n \<notin> j_id ` set (t_jobs d)" "j_connection_id ?n = rnd 0" "j_status ?n = JPending"
    using eff(4) by (simp_all add: new_job_def)
  have "jobs_ok (map (\<lambda>j. j) (t_jobs d) @ [?n])" using inv' unfolding conn_inv_def jobs by blast
  from queue_ok_new [OF queue f nf this] have "queue_ok (t_jobs d') q" unfolding jobs .
  moreover have "lifecycle_ok (t_connections d') (t_jobs d') q"
    unfolding jobs
  proof (rule lifecycle_new [OF life queue _ _ fields(1) _ nf(2,3) _ _ f])
    show "b \<in> set (t_connections d') \<longleftrightarrow> b \<in> set (t_connections d)" if "c_id b \<noteq> rnd 0" for b
      unfolding eff(1) using that fields(1) by auto
    show "c \<in> set (t_connections d')" by (simp add: eff(1))
    show "b = c" if "b \<in> set (t_connections d')" "c_id b = rnd 0" for b using that eff(2) unfolding eff(1) by auto
    show "j_generation ?n = c_generation c" "kind_fits (j_kind ?n) c" using fields by (simp_all add: new_job_def)
    show "job_id t \<noteq> j_id ?n" if "t \<in> set q" for t
      using queue_okD(3) [OF queue that] nf(1) job_coreD by (metis image_eqI)
    show "task_fits (t_connections d') (map (\<lambda>j. j) (t_jobs d)) t" if "t \<in> set q" "job_conn t = rnd 0" for t
      using lifecycle_okD(3) [OF life that(1)] that(2) eff(2) unfolding task_fits_def by metis
    show "j_kind j \<noteq> KRevoke" if "j \<in> set (t_jobs d)" "job_open j" "j_connection_id j = rnd 0" for j
      using that eff(5) by blast
  qed
  ultimately show ?thesis using inv' by (simp add: sync_ok_def)
qed

lemma seen_only_fields:
  assumes "seen_only f"
  shows "same_stage (f c) c" "c_serial (f c) = c_serial c" "c_token_hash (f c) = c_token_hash c"
    "c_suspended_at (f c) = c_suspended_at c"
proof -
  from assms obtain a b e where "f c = c\<lparr>c_first_seen_at := a, c_last_seen_at := b, c_absence_notified_at := e\<rparr>"
    unfolding seen_only_def by blast
  then show "same_stage (f c) c" "c_serial (f c) = c_serial c" "c_token_hash (f c) = c_token_hash c"
    "c_suspended_at (f c) = c_suspended_at c" by (simp_all add: same_stage_def)
qed

lemma seen_inv:
  assumes inv: "conn_inv X d" and f: "seen_only f" and cs: "t_connections d' = map f (t_connections d)"
    and rest: "t_credentials d' = t_credentials d" "t_jobs d' = t_jobs d"
  shows "conn_inv X d'"
proof -
  have same: "c_id (f c) = c_id c" "c_generation (f c) = c_generation c" "c_status (f c) = c_status c"
    "c_archived_at (f c) = c_archived_at c" "c_serial (f c) = c_serial c" "c_token_hash (f c) = c_token_hash c" for c
    using seen_only_fields [OF f, of c] by (simp_all add: same_stage_def)
  have "connections_ok X (map f (t_connections d))"
    using inv same by (simp add: conn_inv_def connections_ok_def connection_ok_def comp_def)
  moreover have "generations_ok (map f (t_connections d)) (t_credentials d)"
    using inv same by (simp add: conn_inv_def generations_ok_def current_credential_def)
  ultimately show ?thesis using inv by (simp add: conn_inv_def cs rest)
qed

lemma other_sync:
  assumes ok: "sync_ok X d q" and f: "seen_only f" and cs: "t_connections d' = map f (t_connections d)"
    and rest: "t_credentials d' = t_credentials d" "t_jobs d' = t_jobs d"
  shows "sync_ok X d' q"
  by (rule stage_sync [OF ok seen_inv [OF sync_okD(1) [OF ok] f cs rest] rest(2) cs])
     (rule seen_only_fields(1) [OF f])

lemma request_sync:
  assumes ok: "sync_ok X d q" and start: "start_request X rnd now req d = Ok (j, d')"
  shows "sync_ok X d' (q @ claimed j)"
proof (cases req)
  case (ActivateReq i)
  with start have "(j = None \<and> d' = d) \<or> claim_job True now i d = (j, d')"
    by (auto split: if_splits)
  with ok claim_job_sync [OF ok] show ?thesis by (auto simp: claimed_def)
next
  case (RetryReq i)
  with start have "(j = None \<and> d' = d) \<or> (\<exists>k::sync_job. claim_job True now i (update_jobs (\<lambda>j. j_id j = j_id k \<and> j_status j = JFailed)
      (\<lambda>j. j\<lparr>j_status := JPending, j_next_attempt_at := now, j_last_error := None, j_updated_at := now\<rparr>) d) = (j, d'))"
    by (auto split: if_splits option.splits)
  then show ?thesis
  proof (elim disjE exE)
    fix k :: sync_job assume claim: "claim_job True now i (update_jobs (\<lambda>j. j_id j = j_id k \<and> j_status j = JFailed)
      (\<lambda>j. j\<lparr>j_status := JPending, j_next_attempt_at := now, j_last_error := None, j_updated_at := now\<rparr>) d) = (j, d')"
    have "sync_ok X (update_jobs (\<lambda>j. j_id j = j_id k \<and> j_status j = JFailed)
      (\<lambda>j. j\<lparr>j_status := JPending, j_next_attempt_at := now, j_last_error := None, j_updated_at := now\<rparr>) d) q"
      by (rule sync_ok_status [OF ok]) (simp_all add: job_core_def)
    from claim_job_sync [OF this claim] show ?thesis .
  qed (use ok in \<open>simp add: claimed_def\<close>)
next
  case (RotateReq i actor)
  with start obtain d1 where "prepare_rotation X rnd now i actor d = Ok d1" "claim_job True now i d1 = (j, d')" by auto
  with claim_job_sync [OF prepare_rotation_sync [OF ok]] show ?thesis by blast
next
  case (SuspendReq i actor)
  with start obtain d1 where d1: "d1 = d \<or> prepare_suspend rnd now i actor d = Ok d1"
    and j: "claim_job True now i d1 = (j, d') \<or> (j = None \<and> d' = d1)"
    by (auto split: if_splits option.splits)
  have "sync_ok X d1 q" using d1 ok prepare_suspend_sync [OF ok] by blast
  with j claim_job_sync show ?thesis by (auto simp: claimed_def)
next
  case (ResumeReq i actor)
  with start have "(j = None \<and> d' = d) \<or> (\<exists>d1. (d1 = d \<or> prepare_resume rnd now i actor d = Ok d1) \<and> claim_job True now i d1 = (j, d'))"
    by (auto split: if_splits)
  then show ?thesis
  proof (elim disjE exE conjE)
    fix d1 assume "prepare_resume rnd now i actor d = Ok d1" "claim_job True now i d1 = (j, d')"
    with claim_job_sync [OF prepare_resume_sync [OF ok]] show ?thesis by blast
  next
    fix d1 assume "d1 = d" "claim_job True now i d1 = (j, d')"
    with claim_job_sync [OF ok] show ?thesis by blast
  qed (use ok in \<open>simp add: claimed_def\<close>)
next
  case (ArchiveReq i actor)
  with start obtain d1 where "prepare_archive rnd now i actor d = Ok d1" "claim_job True now i d1 = (j, d')" by auto
  with claim_job_sync [OF prepare_archive_sync [OF ok]] show ?thesis by blast
qed

lemma sync_step_ok: "sync_step X ps es s s' \<Longrightarrow> sync_ok X (s_db s) (s_queue s) \<Longrightarrow> sync_ok X (s_db s') (s_queue s')"
proof (induction rule: sync_step.induct)
  case (Request rnd now req d j d' q h)
  then show ?case using request_sync by simp
next
  case (Drain now i d j d' q h)
  then show ?case using claim_job_sync by simp
next
  case (Create rnd now input actor d c d' q h)
  then show ?case using create_sync by simp
next
  case (Update now i input actor d c d' q h)
  then show ?case using details_sync by simp
next
  case (Fetch now i d d' q h)
  then show ?case using fetched_sync by simp
next
  case (View i ia d v d' q h)
  then show ?case using view_sync by simp
next
  case (Other f d' d q h)
  then show ?case using other_sync by simp
next
  case (Finish t now d d' q h)
  then show ?case using finish_sync by simp
qed (auto intro: phase_sync fail_sync restart_sync)

lemma sync_reachable_ok:
  assumes "sync_reachable X ps es s"
  shows "sync_ok X (s_db s) (s_queue s)"
proof -
  from assms obtain s0 where s0: "sync_initial s0" and steps: "(sync_step X ps es)\<^sup>*\<^sup>* s0 s" by blast
  have "sync_ok X (s_db s0) (s_queue s0)"
    using s0 by (simp add: sync_initial_def sync_ok_def conn_inv_def connections_ok_def credentials_ok_def jobs_ok_def
        generations_ok_def queue_ok_def lifecycle_ok_def)
  with steps show ?thesis
    by (induction rule: rtranclp_induct) (auto intro: sync_step_ok)
qed

end
