(* ===== verification/Engine_Access.thy ===== *)
theory Engine_Access
  imports Connection_Sync
begin

text \<open>
  Which users the running engines admit while connections are created, rotated, suspended,
  resumed and archived (src/src/server/services/connection-sync.ts with engine-runtime.ts):
  an invariant that ties the users of the engines to the rows of the database, and the step
  relation of \<open>Connection_Sync\<close> keeping it.
\<close>

section \<open>The invariant\<close>

definition settled :: "connection \<Rightarrow> bool" where
  "settled c \<longleftrightarrow> c_status c = Active \<and> c_archived_at c = None"

definition moving :: "connection \<Rightarrow> bool" where
  "moving c \<longleftrightarrow> c_status c = Rotating \<or> c_archived_at c \<noteq> None"

text \<open>A suspension is in force when its job is done.\<close>

definition suspension_done :: "sync_job list \<Rightarrow> connection \<Rightarrow> bool" where
  "suspension_done js c \<longleftrightarrow> settled c \<and> c_suspended_at c \<noteq> None \<and>
     (\<forall>j\<in>set js. j_connection_id j = c_id c \<longrightarrow> \<not> job_open j)"

definition head_ok :: "engine list \<Rightarrow> connection list \<Rightarrow> host \<Rightarrow> task \<Rightarrow> bool" where
  "head_ok es cs h t \<longleftrightarrow> tk_phase t \<noteq> Waiting \<longrightarrow>
     (j_kind (tk_job t) = KRotate \<longrightarrow> (\<forall>g. (job_conn t, g) \<in> set (h Xray) \<longrightarrow> g = j_generation (tk_job t))) \<and>
     (j_kind (tk_job t) = KSuspend \<and> (\<exists>c\<in>set cs. c_id c = job_conn t \<and> settled c) \<longrightarrow>
        \<not> admits h Xray (job_conn t) \<and>
        (tk_phase t = EnginesDone \<longrightarrow> (\<forall>e\<in>set es. \<not> admits h e (job_conn t))))"

definition waiting_tail :: "task list \<Rightarrow> bool" where
  "waiting_tail q \<longleftrightarrow> (\<forall>t\<in>set (tl q). tk_phase t = Waiting)"

definition known_users :: "engine list \<Rightarrow> connection list \<Rightarrow> host \<Rightarrow> bool" where
  "known_users es cs h \<longleftrightarrow> (\<forall>e\<in>set (Xray # es). \<forall>i. admits h e i \<longrightarrow> (\<exists>c\<in>set cs. c_id c = i))"

definition user_ok :: "engine list \<Rightarrow> sync_job list \<Rightarrow> host \<Rightarrow> connection \<Rightarrow> bool" where
  "user_ok es js h c \<longleftrightarrow>
     (\<forall>g. (c_id c, g) \<in> set (h Xray) \<longrightarrow> g = c_generation c \<or> moving c) \<and>
     (suspension_done js c \<longrightarrow> (\<forall>e\<in>set (Xray # es). \<not> admits h e (c_id c))) \<and>
     (c_status c \<in> {Provisioning, Rotating} \<longrightarrow> c_suspended_at c = None)"

definition host_ok :: "engine list \<Rightarrow> db \<Rightarrow> task list \<Rightarrow> host \<Rightarrow> bool" where
  "host_ok es d q h \<longleftrightarrow>
     known_users es (t_connections d) h \<and>
     (\<forall>c\<in>set (t_connections d). user_ok es (t_jobs d) h c) \<and>
     (q \<noteq> [] \<longrightarrow> head_ok es (t_connections d) h (hd q)) \<and> waiting_tail q"

lemma host_okD:
  assumes "host_ok es d q h"
  shows "known_users es (t_connections d) h" "c \<in> set (t_connections d) \<Longrightarrow> user_ok es (t_jobs d) h c"
    "q \<noteq> [] \<Longrightarrow> head_ok es (t_connections d) h (hd q)" "waiting_tail q"
  using assms unfolding host_ok_def by blast+

text \<open>A write to the database under the same host.\<close>

definition follows :: "sync_job list \<Rightarrow> sync_job list \<Rightarrow> connection \<Rightarrow> connection \<Rightarrow> bool" where
  "follows js js' c c' \<longleftrightarrow>
     c_id c' = c_id c \<and> (c_generation c' = c_generation c \<and> (moving c \<longrightarrow> moving c') \<or> moving c') \<and>
     (settled c' \<longrightarrow> settled c) \<and> (suspension_done js' c' \<longrightarrow> suspension_done js c) \<and>
     (c_status c' \<in> {Provisioning, Rotating} \<longrightarrow> c_suspended_at c' = None)"

lemma user_ok_follows: "user_ok es js h c \<Longrightarrow> follows js js' c c' \<Longrightarrow> user_ok es js' h c'"
  unfolding user_ok_def follows_def by metis

lemma head_ok_mono:
  assumes "head_ok es cs h t" and "\<And>c'. c' \<in> set cs' \<Longrightarrow> c_id c' = job_conn t \<Longrightarrow> settled c' \<Longrightarrow> \<exists>c\<in>set cs. c_id c = job_conn t \<and> settled c"
  shows "head_ok es cs' h t"
  using assms unfolding head_ok_def by blast

lemma waiting_head: "tk_phase t = Waiting \<Longrightarrow> head_ok es cs h t"
  by (simp add: head_ok_def)

lemma host_ok_write:
  assumes ok: "host_ok es d q h"
    and old: "\<And>c. c \<in> set (t_connections d) \<Longrightarrow> \<exists>c'\<in>set (t_connections d'). c_id c' = c_id c"
    and new: "\<And>c'. c' \<in> set (t_connections d') \<Longrightarrow>
       (\<exists>c\<in>set (t_connections d). follows (t_jobs d) (t_jobs d') c c') \<or>
       (c_status c' = Provisioning \<and> c_suspended_at c' = None \<and> (\<forall>c\<in>set (t_connections d). c_id c \<noteq> c_id c'))"
    and q': "q' = q @ ys" "\<forall>t\<in>set ys. tk_phase t = Waiting"
  shows "host_ok es d' q' h"
proof -
  have "known_users es (t_connections d') h"
    using host_okD(1) [OF ok] old unfolding known_users_def by metis
  moreover have "user_ok es (t_jobs d') h c'" if c': "c' \<in> set (t_connections d')" for c'
    using new [OF c']
  proof (elim disjE bexE conjE)
    fix c assume "c \<in> set (t_connections d)" "follows (t_jobs d) (t_jobs d') c c'"
    with host_okD(2) [OF ok] user_ok_follows show ?thesis by blast
  next
    assume fresh: "c_status c' = Provisioning" "c_suspended_at c' = None" "\<forall>c\<in>set (t_connections d). c_id c \<noteq> c_id c'"
    then have "\<not> admits h Xray (c_id c')" using host_okD(1) [OF ok] unfolding known_users_def by auto
    with fresh show ?thesis by (auto simp: user_ok_def admits_def suspension_done_def)
  qed
  moreover have "head_ok es (t_connections d') h (hd q')" if "q' \<noteq> []"
  proof (cases q)
    case Nil
    with that q' show ?thesis by (cases ys) (auto intro: waiting_head)
  next
    case (Cons t q0)
    with host_okD(3) [OF ok] have "head_ok es (t_connections d) h t" by simp
    then have "head_ok es (t_connections d') h t"
    proof (rule head_ok_mono)
      fix c' assume c': "c' \<in> set (t_connections d')" "c_id c' = job_conn t" "settled c'"
      from new [OF c'(1)] c'(3) have "\<exists>c\<in>set (t_connections d). follows (t_jobs d) (t_jobs d') c c'"
        by (auto simp: settled_def)
      with c' show "\<exists>c\<in>set (t_connections d). c_id c = job_conn t \<and> settled c" unfolding follows_def by metis
    qed
    with Cons q' show ?thesis by simp
  qed
  moreover have "waiting_tail q'"
    using host_okD(4) [OF ok] q' unfolding waiting_tail_def by (cases q; cases ys) auto
  ultimately show ?thesis by (simp add: host_ok_def)
qed

text \<open>An open job of a connection stays one, or another takes its place.\<close>

definition opens_kept :: "sync_job list \<Rightarrow> sync_job list \<Rightarrow> string \<Rightarrow> bool" where
  "opens_kept js js' i \<longleftrightarrow> (\<exists>j\<in>set js. j_connection_id j = i \<and> job_open j) \<longrightarrow> (\<exists>j\<in>set js'. j_connection_id j = i \<and> job_open j)"

lemma opens_kept_refl [simp]: "opens_kept js js i"
  by (simp add: opens_kept_def)

lemma opens_kept_map:
  "(\<And>j. j \<in> set js \<Longrightarrow> j_connection_id j = i \<Longrightarrow> j_connection_id (f j) = i \<and> (job_open j \<longrightarrow> job_open (f j))) \<Longrightarrow>
   opens_kept js (map f js @ ns) i"
  unfolding opens_kept_def by fastforce

lemma opens_kept_update:
  assumes "\<And>j. p j \<Longrightarrow> j_connection_id (f j) = j_connection_id j \<and> job_open (f j)"
  shows "opens_kept js (update_where p f js) i"
  using opens_kept_map [of js i "\<lambda>j. if p j then f j else j" "[]"] assms by (simp add: update_where_def)

lemma follows_same:
  assumes "user_ok es js h c" and "same_stage (f c) c" "c_suspended_at (f c) = c_suspended_at c" and "opens_kept js js' (c_id c)"
  shows "follows js js' c (f c)"
  using assms unfolding follows_def same_stage_def user_ok_def opens_kept_def suspension_done_def settled_def moving_def by auto

lemma host_ok_map:
  assumes ok: "host_ok es d q h" and cs: "t_connections d' = map f (t_connections d)"
    and f: "\<And>c. same_stage (f c) c" "\<And>c. c_suspended_at (f c) = c_suspended_at c"
    and js: "\<And>i. opens_kept (t_jobs d) (t_jobs d') i" and ys: "\<forall>t\<in>set ys. tk_phase t = Waiting"
  shows "host_ok es d' (q @ ys) h"
proof (rule host_ok_write [OF ok _ _ refl ys])
  fix c assume c: "c \<in> set (t_connections d)"
  from c cs f(1) show "\<exists>c'\<in>set (t_connections d'). c_id c' = c_id c" by (auto simp: same_stage_def)
next
  fix c' assume "c' \<in> set (t_connections d')"
  then obtain c where c: "c \<in> set (t_connections d)" "c' = f c" unfolding cs by auto
  have "follows (t_jobs d) (t_jobs d') c (f c)"
    by (rule follows_same [of es "t_jobs d" h]) (rule host_okD(2) [OF ok c(1)] f js)+
  with c
  show "(\<exists>c\<in>set (t_connections d). follows (t_jobs d) (t_jobs d') c c') \<or>
       (c_status c' = Provisioning \<and> c_suspended_at c' = None \<and> (\<forall>c\<in>set (t_connections d). c_id c \<noteq> c_id c'))" by blast
qed

lemma host_ok_update:
  assumes ok: "host_ok es d q h" and cs: "t_connections d' = update_where (\<lambda>c. c_id c = i) g (t_connections d)"
    and g: "\<And>c. c \<in> set (t_connections d) \<Longrightarrow> c_id c = i \<Longrightarrow> follows (t_jobs d) (t_jobs d') c (g c)"
    and js: "\<And>k. k \<noteq> i \<Longrightarrow> opens_kept (t_jobs d) (t_jobs d') k"
  shows "host_ok es d' q h"
proof -
  have gid: "c_id (g c) = c_id c" if "c \<in> set (t_connections d)" "c_id c = i" for c
    using g [OF that] by (simp add: follows_def)
  have "host_ok es d' (q @ []) h"
  proof (rule host_ok_write [OF ok _ _ refl])
    fix c assume c: "c \<in> set (t_connections d)"
    show "\<exists>c'\<in>set (t_connections d'). c_id c' = c_id c"
    proof (cases "c_id c = i")
      case True
      with update_where_mem [OF c, of "\<lambda>c. c_id c = i" g] gid [OF c] show ?thesis unfolding cs by blast
    next
      case False
      with c show ?thesis unfolding cs set_update_where by force
    qed
  next
    fix c' assume "c' \<in> set (t_connections d')"
    from update_where_cases [OF this [unfolded cs]]
    have "\<exists>c\<in>set (t_connections d). follows (t_jobs d) (t_jobs d') c c'"
    proof (elim disjE bexE exE conjE)
      fix c assume "c \<in> set (t_connections d)" "c_id c = i" "c' = g c" with g show ?thesis by blast
    next
      assume c: "c' \<in> set (t_connections d)" "c_id c' \<noteq> i"
      have "follows (t_jobs d) (t_jobs d') c' c'"
        by (rule follows_same [where f = "\<lambda>c. c", of es "t_jobs d" h])
           (use host_okD(2) [OF ok c(1)] js [OF c(2)] in \<open>simp_all add: same_stage_def\<close>)
      with c(1) show ?thesis by blast
    qed
    then show "(\<exists>c\<in>set (t_connections d). follows (t_jobs d) (t_jobs d') c c') \<or>
       (c_status c' = Provisioning \<and> c_suspended_at c' = None \<and> (\<forall>c\<in>set (t_connections d). c_id c \<noteq> c_id c'))" by blast
  qed simp
  then show ?thesis by simp
qed

lemma host_ok_pop: "host_ok es d (t # q) h \<Longrightarrow> host_ok es d q h"
  by (cases q) (auto simp: host_ok_def waiting_tail_def intro: waiting_head)

section \<open>Requests and other writes\<close>

lemma fresh_open: "opens_kept js (xs @ [new_job n now i g prev k a]) i"
  by (auto simp: opens_kept_def job_open_def new_job_def)

lemma cancel_row_opens: "k \<noteq> i \<Longrightarrow> opens_kept js (map (cancel_row i now) js @ ns) k"
  by (rule opens_kept_map) (simp add: cancel_row_def)

lemma not_done_open: "j \<in> set js \<Longrightarrow> j_connection_id j = c_id c \<Longrightarrow> job_open j \<Longrightarrow> \<not> suspension_done js c"
  by (auto simp: suspension_done_def)

lemma new_not_done: "c_id c = i \<Longrightarrow> \<not> suspension_done (xs @ [new_job n now i g prev k a]) c"
  by (rule not_done_open [of "new_job n now i g prev k a"]) (simp_all add: new_job_def job_open_def)

lemma prepare_rotation_host:
  assumes ok: "host_ok es d q h" and inv: "conn_inv X d" and prep: "prepare_rotation X rnd now i actor d = Ok d'"
  shows "host_ok es d' q h"
proof -
  from prepare_rotation_effect [OF prep] obtain c where
    c: "get_connection i False d = Ok c" "c_status c = Active" "c_suspended_at c = None" and
    eff: "t_connections d' = update_where (\<lambda>r. c_id r = i) (rotate_row X now i (Suc (c_generation c))) (t_connections d)"
      "t_jobs d' = t_jobs d @ [new_job (rnd 6) now i (Suc (c_generation c)) (Some (c_generation c)) KRotate actor]"
    by blast
  from get_connection_Ok [OF c(1)] have mem: "c \<in> set (t_connections d)" "c_id c = i" by auto
  show ?thesis
  proof (rule host_ok_update [OF ok eff(1)])
    fix b assume "b \<in> set (t_connections d)" "c_id b = i"
    with mem conn_inv_distinct [OF inv] have "b = c" by (metis distinct_key_unique)
    with mem c(3) new_not_done show "follows (t_jobs d) (t_jobs d') b (rotate_row X now i (Suc (c_generation c)) b)"
      unfolding eff(2) by (simp add: follows_def rotate_row_def moving_def settled_def)
  next
    fix k :: string assume "k \<noteq> i"
    show "opens_kept (t_jobs d) (t_jobs d') k" unfolding eff(2) by (auto simp: opens_kept_def)
  qed
qed

lemma prepare_suspend_host:
  assumes ok: "host_ok es d q h" and inv: "conn_inv X d" and prep: "prepare_suspend rnd now i actor d = Ok d'"
  shows "host_ok es d' q h"
proof -
  let ?g = "\<lambda>r. r\<lparr>c_suspended_at := Some (coalesce (c_suspended_at r) now), c_updated_at := now\<rparr>"
  from prepare_suspend_effect [OF prep] obtain c where
    c: "get_connection i False d = Ok c" "c_status c = Active" and
    eff: "t_connections d' = update_where (\<lambda>r. c_id r = i) ?g (t_connections d)"
    "t_jobs d' = map (cancel_row i now) (t_jobs d) @ [new_job (rnd 0) now i (c_generation c) None KSuspend actor]" by blast
  from get_connection_Ok [OF c(1)] have mem: "c \<in> set (t_connections d)" "c_id c = i" by auto
  show ?thesis
  proof (rule host_ok_update [OF ok eff(1)])
    fix b assume "b \<in> set (t_connections d)" and b: "c_id b = i"
    with mem conn_inv_distinct [OF inv] have bc: "b = c" by (metis distinct_key_unique)
    from b have "\<not> suspension_done (t_jobs d') (?g b)" unfolding eff(2) by (intro new_not_done) simp
    with bc c(2) show "follows (t_jobs d) (t_jobs d') b (?g b)"
      by (simp add: follows_def moving_def settled_def)
  qed (simp add: eff(2) cancel_row_opens)
qed

lemma prepare_resume_host:
  assumes ok: "host_ok es d q h" and prep: "prepare_resume rnd now i actor d = Ok d'"
  shows "host_ok es d' q h"
proof -
  from prepare_resume_effect [OF prep] obtain c where c: "get_connection i False d = Ok c" and
    eff: "t_connections d' = t_connections d"
    "d' = d \<or> t_jobs d' = map (cancel_row i now) (t_jobs d) @ [new_job (rnd 0) now i (c_generation c) None KResume actor]" by blast
  have "opens_kept (t_jobs d) (t_jobs d') k" for k
    using eff(2) by (cases "k = i") (auto intro: fresh_open cancel_row_opens)
  with host_ok_map [where ys = "[]" and f = "\<lambda>c. c", OF ok] eff(1) show ?thesis by (simp add: same_stage_def)
qed

lemma prepare_archive_host:
  assumes ok: "host_ok es d q h" and prep: "prepare_archive rnd now i actor d = Ok d'"
  shows "host_ok es d' q h"
proof -
  let ?g = "\<lambda>r. r\<lparr>c_status := Archiving, c_token_hash := None, c_archived_at := Some now, c_updated_at := now\<rparr>"
  from prepare_archive_effect [OF prep] obtain c where c: "get_connection i False d = Ok c" and
    eff: "t_connections d' = update_where (\<lambda>r. c_id r = i) ?g (t_connections d)"
    "t_jobs d' = map (cancel_row i now) (t_jobs d) @ [new_job (rnd 0) now i (c_generation c) None KRevoke actor]" by blast
  show ?thesis
    by (rule host_ok_update [OF ok eff(1)])
       (simp_all add: eff(2) cancel_row_opens follows_def moving_def settled_def suspension_done_def)
qed

lemma claim_job_host:
  assumes ok: "host_ok es d q h" and jok: "jobs_ok (t_jobs d)" and claim: "claim_job force now i d = (r, d')"
  shows "host_ok es d' (q @ claimed r) h"
proof -
  have w: "\<forall>t\<in>set (claimed r). tk_phase t = Waiting" by (cases r) (simp_all add: claimed_def)
  from claim_job_effect [OF jok claim] have "t_connections d' = t_connections d \<and> (\<forall>k. opens_kept (t_jobs d) (t_jobs d') k)"
  proof
    assume "\<exists>j\<in>set (t_jobs d). j_connection_id j = i \<and> j_status j \<in> {JPending, JFailed} \<and> (force \<or> j_next_attempt_at j \<le> now) \<and>
       r = Some (running_row now j) \<and> d' = update_jobs (\<lambda>k. j_id k = j_id j) (running_row now) d"
    then obtain j :: sync_job where "d' = update_jobs (\<lambda>k. j_id k = j_id j) (running_row now) d" by blast
    then show ?thesis by (simp add: opens_kept_update running_row_def job_open_def)
  qed simp
  with host_ok_map [where f = "\<lambda>c. c", OF ok _ _ _ _ w] show ?thesis by (simp add: same_stage_def)
qed

lemma create_host:
  assumes ok: "host_ok es d q h" and create: "create_connection X rnd now input actor d = Ok (c0, d')"
  shows "host_ok es d' q h"
proof -
  from create_connection_effect [OF create] obtain n co a c where
    c: "c = new_connection X (rnd 0) (Suc (max_serial (t_connections d))) n co a now" and
    eff: "t_connections d' = t_connections d @ [c]" "\<forall>r\<in>set (t_connections d). c_id r \<noteq> rnd 0"
      "t_jobs d' = t_jobs d @ [new_job (rnd 7) now (rnd 0) 1 None KActivate actor]"
    unfolding Let_def by blast
  have "host_ok es d' (q @ []) h"
  proof (rule host_ok_write [OF ok _ _ refl])
    fix c' assume "c' \<in> set (t_connections d')"
    then consider "c' \<in> set (t_connections d)" | "c' = c" unfolding eff(1) by auto
    then show "(\<exists>c\<in>set (t_connections d). follows (t_jobs d) (t_jobs d') c c') \<or>
       (c_status c' = Provisioning \<and> c_suspended_at c' = None \<and> (\<forall>c\<in>set (t_connections d). c_id c \<noteq> c_id c'))"
    proof cases
      case 1
      have "follows (t_jobs d) (t_jobs d') c' c'"
        by (rule follows_same [where f = "\<lambda>c. c", of es "t_jobs d" h])
           (use host_okD(2) [OF ok 1] in \<open>auto simp: same_stage_def eff(3) opens_kept_def\<close>)
      with 1 show ?thesis by blast
    next
      case 2
      with c eff(2) show ?thesis by (simp add: new_connection_def)
    qed
  qed (auto simp: eff(1))
  then show ?thesis by simp
qed

text \<open>Writes that leave the stage and the suspension of every connection, and the jobs.\<close>

lemma stage_host:
  assumes "host_ok es d q h" and "t_connections d' = map f (t_connections d)" and "t_jobs d' = t_jobs d"
    and "\<And>c. same_stage (f c) c \<and> c_suspended_at (f c) = c_suspended_at c"
  shows "host_ok es d' q h"
  using host_ok_map [where ys = "[]" and f = f, OF assms(1,2)] assms(3,4) by simp

lemma update_stage_host:
  assumes ok: "host_ok es d q h" and cs: "t_connections d' = t_connections (update_connection i f d)" and js: "t_jobs d' = t_jobs d"
    and f: "\<And>c. same_stage (f c) c \<and> c_suspended_at (f c) = c_suspended_at c"
  shows "host_ok es d' q h"
  by (rule stage_host [where f = "\<lambda>c. if c_id c = i then f c else c", OF ok _ js])
     (use f in \<open>auto simp: cs update_where_def same_stage_def\<close>)

lemma details_host:
  assumes ok: "host_ok es d q h" and upd: "update_connection_details now i input actor d = Ok (c, d')"
  shows "host_ok es d' q h"
proof -
  from upd obtain before n co a where "get_connection i False d = Ok before" and
    log: "log_connection ''connections.update'' ''connection.updated'' actor i
      (coalesce n (c_name before)) [] now (update_connection i (\<lambda>r. r\<lparr>c_name := coalesce n (c_name before),
        c_color := coalesce co (c_color before), c_avatar := coalesce a (c_avatar before), c_updated_at := now\<rparr>) d) = Ok d'"
    unfolding update_connection_details_def Let_def by (auto simp del: not_Some_eq)
  note t = log_connection_tables [OF log]
  show ?thesis
    by (rule update_stage_host [OF ok, of _ i "\<lambda>r. r\<lparr>c_name := coalesce n (c_name before),
        c_color := coalesce co (c_color before), c_avatar := coalesce a (c_avatar before), c_updated_at := now\<rparr>"])
       (use t in \<open>simp_all add: same_stage_def\<close>)
qed

lemma fetched_host:
  assumes ok: "host_ok es d q h" and upd: "mark_fetched now i d = Ok d'"
  shows "host_ok es d' q h"
proof -
  let ?f = "\<lambda>r. r\<lparr>c_first_used_at := Some (coalesce (c_first_used_at r) now), c_last_fetched_at := Some now, c_updated_at := now\<rparr>"
  let ?d = "update_connection i ?f d"
  from upd have "d' = ?d \<or> (\<exists>ty e. record_event ty e now ?d = Ok d')"
    unfolding mark_fetched_def Let_def by (auto simp del: not_Some_eq split: if_splits)
  then have t: "t_connections d' = t_connections ?d" "t_jobs d' = t_jobs d"
    using record_event_tables(1,3) by fastforce+
  show ?thesis by (rule update_stage_host [OF ok t]) (simp add: same_stage_def)
qed

lemma view_host:
  assumes ok: "host_ok es d q h" and v: "sync_view X i ia d = Ok (v, d')"
  shows "host_ok es d' q h"
proof (cases "d' = d")
  case False
  with v obtain u where sub: "subscription X i d = Ok (u, d')"
    unfolding sync_view_def Let_def by (auto split: if_splits prod.splits)
  with False obtain hash where d': "d' = update_connection i (\<lambda>r. r\<lparr>c_token_hash := hash\<rparr>) d"
    unfolding subscription_def Let_def by (auto split: if_splits)
  show ?thesis
    by (rule update_stage_host [OF ok, of _ i "\<lambda>r. r\<lparr>c_token_hash := hash\<rparr>"]) (simp_all add: d' same_stage_def)
qed (use ok in simp)

section \<open>Commands\<close>

text \<open>
  Users that a command brings are usable connections at their generation, or the connection
  of a claimed job.
\<close>

definition sourced :: "db \<Rightarrow> task list \<Rightarrow> user \<Rightarrow> bool" where
  "sourced d q u \<longleftrightarrow>
     (\<exists>c\<in>set (t_connections d). c_id c = fst u \<and> c_generation c = snd u \<and> connection_usable c) \<or>
     (\<exists>t\<in>set q. fst u = job_conn t \<and> snd u = j_generation (tk_job t))"

lemma selected_sourced:
  assumes "u \<in> set (selected_users (job_selection (tk_job t)) d)" and "t \<in> set q"
  shows "sourced d q u"
proof -
  obtain i g where u: "u = (i, g)" by (cases u)
  from selected_usable [OF assms(1) [unfolded u]] show ?thesis
    using assms(2) by (auto simp: sourced_def u job_selection_def split: if_splits)
qed

lemma selected_head: "u \<in> set (selected_users (job_selection (tk_job t)) d) \<Longrightarrow> sourced d (t # q) u"
  by (erule selected_sourced) simp

lemma everyone_sourced: "u \<in> set (selected_users Everyone d) \<Longrightarrow> sourced d q u"
  by (cases u) (auto simp: sourced_def dest: selected_usable)

lemma host_change:
  assumes sync: "sync_ok X d q" and host: "host_ok es d q h"
    and new: "\<And>e u. u \<in> set (h' e) \<Longrightarrow> u \<in> set (h e) \<or> sourced d q u"
  shows "known_users es (t_connections d) h' \<and> (\<forall>c\<in>set (t_connections d). user_ok es (t_jobs d) h' c)"
proof -
  note queue = sync_okD(2) [OF sync] and life = sync_okD(3) [OF sync]
  note dist = conn_inv_distinct [OF sync_okD(1) [OF sync]]
  have row: "\<exists>c\<in>set (t_connections d). c_id c = i \<and> c_generation c = g \<and>
      (connection_usable c \<or> \<not> suspension_done (t_jobs d) c)" if src: "sourced d q (i, g)" for i g
    using src unfolding sourced_def
  proof (elim disjE bexE conjE)
    fix t assume t: "t \<in> set q" "fst (i, g) = job_conn t" "snd (i, g) = j_generation (tk_job t)"
    from lifecycle_okD(3) [OF life t(1)] t(2,3) obtain c where c: "c \<in> set (t_connections d)" "c_id c = i" "c_generation c = g"
      unfolding task_fits_def by auto
    from queue_okD(4) [OF queue t(1)] t(2) c(2) have "\<not> suspension_done (t_jobs d) c" by (auto simp: suspension_done_def)
    with c show ?thesis by blast
  qed auto
  have "known_users es (t_connections d) h'"
    unfolding known_users_def
  proof (intro ballI allI impI)
    fix e i assume e: "e \<in> set (Xray # es)" and "admits h' e i"
    then obtain g where "(i, g) \<in> set (h' e)" unfolding admits_def by blast
    with new consider "(i, g) \<in> set (h e)" | "sourced d q (i, g)" by blast
    then show "\<exists>c\<in>set (t_connections d). c_id c = i"
    proof cases
      case 1 with host_okD(1) [OF host] e show ?thesis unfolding known_users_def admits_def by blast
    next
      case 2 with row show ?thesis by blast
    qed
  qed
  moreover have "user_ok es (t_jobs d) h' c" if c: "c \<in> set (t_connections d)" for c
  proof -
    note old = host_okD(2) [OF host c]
    have src: "g = c_generation c \<and> (connection_usable c \<or> \<not> suspension_done (t_jobs d) c)" if s: "sourced d q (c_id c, g)" for g
    proof -
      from row [OF s] obtain b where b: "b \<in> set (t_connections d)" "c_id b = c_id c" "c_generation b = g"
        "connection_usable b \<or> \<not> suspension_done (t_jobs d) b" by blast
      with c dist have "b = c" by (metis distinct_key_unique)
      with b show ?thesis by blast
    qed
    have "g = c_generation c \<or> moving c" if "(c_id c, g) \<in> set (h' Xray)" for g
      using new [OF that] src [of g] old unfolding user_ok_def by blast
    moreover have "\<not> admits h' e (c_id c)" if sus: "suspension_done (t_jobs d) c" and e: "e \<in> set (Xray # es)" for e
    proof
      assume "admits h' e (c_id c)"
      then obtain g where "(c_id c, g) \<in> set (h' e)" unfolding admits_def by blast
      from new [OF this] show False
      proof
        assume "(c_id c, g) \<in> set (h e)" with old sus e show False unfolding user_ok_def admits_def by blast
      next
        assume "sourced d q (c_id c, g)"
        from src [OF this] sus show False by (auto simp: suspension_done_def connection_usable_def)
      qed
    qed
    ultimately show ?thesis using old unfolding user_ok_def by blast
  qed
  ultimately show ?thesis by blast
qed

fun command_all :: "command \<Rightarrow> credential_set list" where
  "command_all (UserAdd cs all) = all"
| "command_all (UserRevoke mail all) = all"
| "command_all (SyncConfig e all) = all"
| "command_all (ApplyConfig e all) = all"

lemma run_command_users:
  "u \<in> set (run_command hot c h e) \<Longrightarrow>
     u \<in> set (h e) \<or> u \<in> user_of ` set (command_all c) \<or> (\<exists>cs all. c = UserAdd cs all \<and> u = user_of cs)"
  by (cases c) (auto split: if_splits)

text \<open>The snapshot of the first command is the selection of its job; an added user is in it.\<close>

lemma first_command_snapshot:
  assumes "first_command X ps job d = Ok (Some c)" and "j_kind job \<noteq> KRevoke"
  shows "snapshot X (job_selection job) d = Ok (command_all c) \<and>
     (\<forall>cs all. c = UserAdd cs all \<longrightarrow> user_of cs = (j_connection_id job, j_generation job) \<and>
        job_selection job = Include (j_connection_id job) (j_generation job))"
  using assms
  by (cases "j_kind job")
     (auto simp: first_command_def Let_def add_command_def rotate_command_def revoke_command_def job_selection_def
       dest: credentials_of_user split: if_splits)

lemma revoke_command_snapshot:
  assumes "first_command X ps job d = Ok (Some c)" and "j_kind job = KRevoke"
  shows "snapshot X (job_selection job) d = Ok (command_all c) \<and> (\<forall>cs all. c \<noteq> UserAdd cs all)"
  using assms
  by (auto simp: first_command_def Let_def revoke_command_def job_selection_def split: option.splits if_splits)

lemma first_command_users:
  assumes first: "first_command X ps job d = Ok (Some c)" and u: "u \<in> set (run_command hot c h e)"
  shows "u \<in> set (h e) \<or> u \<in> set (selected_users (job_selection job) d)"
proof -
  have snap: "snapshot X (job_selection job) d = Ok (command_all c)"
    using first_command_snapshot [OF first] revoke_command_snapshot [OF first] by blast
  have users: "user_of ` set (command_all c) = set (selected_users (job_selection job) d)"
    using snapshot_users [OF snap] by (metis list.set_map)
  from run_command_users [OF u] show ?thesis
  proof (elim disjE exE conjE)
    fix cs all assume c: "c = UserAdd cs all" "u = user_of cs"
    with first_command_snapshot [OF first] revoke_command_snapshot [OF first]
    have "u = (j_connection_id job, j_generation job)" "job_selection job = Include (j_connection_id job) (j_generation job)"
      by blast+
    then show ?thesis by (simp add: selected_users_def)
  qed (simp_all add: users)
qed

lemma first_command_rotate:
  assumes first: "first_command X ps job d = Ok (Some c)" and k: "j_kind job = KRotate"
    and u: "(j_connection_id job, g) \<in> set (run_command hot c h Xray)"
  shows "g = j_generation job"
proof -
  let ?i = "j_connection_id job"
  from first k obtain all where c: "c = SyncConfig Xray all" and all: "snapshot X (Include ?i (j_generation job)) d = Ok all"
    by (auto simp: first_command_def Let_def rotate_command_def)
  from u c snapshot_users [OF all] have "(?i, g) \<in> set (selected_users (Include ?i (j_generation job)) d)" by simp
  then show ?thesis by (auto dest: selected_usable)
qed

lemma excluded_user: "(i, g) \<notin> set (selected_users (Exclude i) d)"
  by (auto dest: selected_usable)

text \<open>The address a revocation removes is the address of the connection's user.\<close>

lemma credentials_of_address:
  assumes inv: "conn_inv X d" and X: "crypto_ok X" and cs: "credentials_of X i (Some g) d = Ok cs"
  shows "xray_address (cs_xray cs) = xray_email i g"
proof -
  let ?rows = "filter (\<lambda>r. cr_connection_id r = i \<and> cr_generation r = g \<and> cr_state r \<noteq> CredRevoked) (t_credentials d)"
  obtain b where cs_x: "find (\<lambda>r. cr_engine r = Xray) ?rows = Some b" "decrypt_secret X (cr_box b) = Ok (cs_xray cs)"
  proof (cases "find (\<lambda>r. cr_engine r = Xray) ?rows")
    case None
    with cs show ?thesis unfolding credentials_of_def Let_def by (auto split: option.splits)
  next
    case (Some b)
    with cs have "decrypt_secret X (cr_box b) = Ok (cs_xray cs)"
      unfolding credentials_of_def Let_def by (cases "find (\<lambda>r. cr_engine r = Hysteria) ?rows") auto
    with Some that show ?thesis by blast
  qed
  from find_SomeD [OF cs_x(1)] have b: "b \<in> set (t_credentials d)" "cr_connection_id b = i" "cr_generation b = g" "cr_engine b = Xray"
    by auto
  from inv b(1) obtain iv s where s: "cr_box b = x_seal X iv s" "secret_of b s"
    unfolding conn_inv_def credentials_ok_def by blast
  from cs_x(2) X s(1) have "cs_xray cs = s" by (simp add: decrypt_secret_def crypto_ok_def)
  with s(2) b show ?thesis by (cases s) auto
qed

lemma first_command_suspend:
  assumes inv: "conn_inv X d" and X: "crypto_ok X" and first: "first_command X ps job d = Ok (Some c)" and k: "j_kind job = KSuspend"
    and old: "\<And>g. (j_connection_id job, g) \<in> set (h Xray) \<Longrightarrow> g = j_generation job"
  shows "\<not> admits (run_command hot c h) Xray (j_connection_id job)"
proof
  let ?i = "j_connection_id job"
  assume "admits (run_command hot c h) Xray ?i"
  then obtain g where u: "(?i, g) \<in> set (run_command hot c h Xray)" unfolding admits_def by blast
  from first k have rc: "revoke_command X ps ?i (j_generation job) d = Ok c" by (auto simp: first_command_def Let_def)
  have sel: "set (map user_of all) = set (selected_users (Exclude ?i) d)" if "snapshot X (Exclude ?i) d = Ok all" for all
    using snapshot_users [OF that] by simp
  show False
  proof (cases "default_xray_listeners ps d")
    case True
    with rc obtain cs all where cs: "credentials_of X ?i (Some (j_generation job)) d = Ok cs"
      and all: "snapshot X (Exclude ?i) d = Ok all" and c: "c = UserRevoke (xray_address (cs_xray cs)) all"
      by (auto simp: revoke_command_def)
    have addr: "xray_address (cs_xray cs) = address_of (?i, j_generation job)"
      using credentials_of_address [OF inv X cs] by (simp add: address_of_def)
    from u c sel [OF all] excluded_user old addr show False by (auto split: if_splits)
  next
    case False
    with rc obtain all where "snapshot X (Exclude ?i) d = Ok all" "c = SyncConfig Xray all" by (auto simp: revoke_command_def)
    with u sel excluded_user show False by auto
  qed
qed

section \<open>The job that holds the lock\<close>

lemma host_ok_head:
  assumes host: "host_ok es d (t # q) h"
    and new: "known_users es (t_connections d) h' \<and> (\<forall>c\<in>set (t_connections d). user_ok es (t_jobs d) h' c)"
    and head: "head_ok es (t_connections d) h' t'"
  shows "host_ok es d (t' # q) h'"
  using host new head by (simp add: host_ok_def waiting_tail_def)

lemma task_generation:
  assumes sync: "sync_ok X d (t # q)" and c: "c \<in> set (t_connections d)" "c_id c = job_conn t"
  shows "c_generation c = j_generation (tk_job t)"
proof -
  from lifecycle_okD(3) [OF sync_okD(3) [OF sync], of t] obtain b where
    "b \<in> set (t_connections d)" "c_id b = job_conn t" "c_generation b = j_generation (tk_job t)"
    unfolding task_fits_def by auto
  with c conn_inv_distinct [OF sync_okD(1) [OF sync]] show ?thesis by (metis distinct_key_unique)
qed

lemma first_host:
  assumes sync: "sync_ok X d (t # q)" and host: "host_ok es d (t # q) h" and X: "crypto_ok X"
    and first: "first_command X ps (tk_job t) d = Ok (Some c)"
  shows "host_ok es d (t\<lparr>tk_phase := FirstDone\<rparr> # q) (run_command hot c h)"
proof (rule host_ok_head [OF host host_change [OF sync host]])
  fix e u assume "u \<in> set (run_command hot c h e)"
  from first_command_users [OF first this] selected_head show "u \<in> set (h e) \<or> sourced d (t # q) u" by blast
next
  let ?h = "run_command hot c h"
  have "g = j_generation (tk_job t)" if "j_kind (tk_job t) = KRotate" "(job_conn t, g) \<in> set (?h Xray)" for g
    by (rule first_command_rotate [OF first that])
  moreover have "\<not> admits ?h Xray (job_conn t)"
    if k: "j_kind (tk_job t) = KSuspend" and b: "b \<in> set (t_connections d)" "c_id b = job_conn t" "settled b" for b
  proof (rule first_command_suspend [OF sync_okD(1) [OF sync] X first k])
    fix g assume "(job_conn t, g) \<in> set (h Xray)"
    with host_okD(2) [OF host b(1)] b have "g = c_generation b" by (auto simp: user_ok_def settled_def moving_def)
    with task_generation [OF sync b(1,2)] show "g = j_generation (tk_job t)" by simp
  qed
  ultimately show "head_ok es (t_connections d) ?h (t\<lparr>tk_phase := FirstDone\<rparr>)" by (auto simp: head_ok_def)
qed

lemma skip_host:
  assumes host: "host_ok es d (t # q) h" and first: "first_command X ps (tk_job t) d = Ok None"
  shows "host_ok es d (t\<lparr>tk_phase := EnginesDone\<rparr> # q) h"
proof -
  have "j_kind (tk_job t) = KRevoke"
    using first by (cases "j_kind (tk_job t)") (auto simp: first_command_def Let_def)
  then have "head_ok es (t_connections d) h (t\<lparr>tk_phase := EnginesDone\<rparr>)" by (simp add: head_ok_def)
  with host show ?thesis by (simp add: host_ok_def waiting_tail_def)
qed

text \<open>The optional commands, all of them or as many as the agent accepted.\<close>

lemma optional_users:
  assumes cs: "optional_commands X sel d = Ok cs" and run: "run_commands cs os h = (ok, h')"
  shows "(\<forall>e. h' e = h e \<or> h' e = selected_users sel d) \<and>
     (ok \<longrightarrow> (\<forall>e\<in>set (optional_installed d). h' e = selected_users sel d))"
proof -
  from cs obtain all where all: "snapshot X sel d = Ok all" and c: "cs = map (\<lambda>e. SyncConfig e all) (optional_installed d)"
    by (auto simp: optional_commands_def)
  from run_sync_commands [OF run [unfolded c]] show ?thesis unfolding snapshot_users [OF all] by blast
qed

lemma optional_change:
  assumes sync: "sync_ok X d (t # q)" and host: "host_ok es d (t # q) h"
    and cs: "optional_commands X (job_selection (tk_job t)) d = Ok cs" and run: "run_commands cs os h = (ok, h')"
  shows "known_users es (t_connections d) h' \<and> (\<forall>c\<in>set (t_connections d). user_ok es (t_jobs d) h' c)"
proof (rule host_change [OF sync host])
  fix e u assume "u \<in> set (h' e)"
  with optional_users [OF cs run] have "u \<in> set (h e) \<or> u \<in> set (selected_users (job_selection (tk_job t)) d)" by metis
  with selected_head show "u \<in> set (h e) \<or> sourced d (t # q) u" by blast
qed

lemma optional_host:
  assumes sync: "sync_ok X d (t # q)" and host: "host_ok es d (t # q) h" and ph: "tk_phase t = FirstDone"
    and es: "optional_installed d = es"
    and cs: "optional_commands X (job_selection (tk_job t)) d = Ok cs" and run: "run_commands cs os h = (True, h')"
  shows "host_ok es d (t\<lparr>tk_phase := EnginesDone\<rparr> # q) h'"
proof (rule host_ok_head [OF host optional_change [OF sync host cs run]])
  from host have head: "head_ok es (t_connections d) h t" by (simp add: host_ok_def)
  note users = optional_users [OF cs run]
  have "g = j_generation (tk_job t)" if k: "j_kind (tk_job t) = KRotate" and u: "(job_conn t, g) \<in> set (h' Xray)" for g
  proof -
    from users u consider "(job_conn t, g) \<in> set (h Xray)" | "(job_conn t, g) \<in> set (selected_users (job_selection (tk_job t)) d)"
      by metis
    then show ?thesis
    proof cases
      case 1 with head ph k show ?thesis by (simp add: head_ok_def)
    next
      case 2 with k show ?thesis by (auto simp: job_selection_def dest: selected_usable)
    qed
  qed
  moreover have "\<not> admits h' Xray (job_conn t) \<and> (\<forall>e\<in>set es. \<not> admits h' e (job_conn t))"
    if k: "j_kind (tk_job t) = KSuspend" and b: "b \<in> set (t_connections d)" "c_id b = job_conn t" "settled b" for b
  proof -
    have sel: "selected_users (job_selection (tk_job t)) d = selected_users (Exclude (job_conn t)) d"
      using k by (simp add: job_selection_def)
    from head ph k b have "\<not> admits h Xray (job_conn t)" by (auto simp: head_ok_def)
    with users [unfolded sel] excluded_user es show ?thesis unfolding admits_def by (metis (full_types))
  qed
  ultimately show "head_ok es (t_connections d) h' (t\<lparr>tk_phase := EnginesDone\<rparr>)" by (auto simp: head_ok_def)
qed

lemma opens_host:
  assumes "host_ok es d q h" and "t_connections d' = t_connections d" and "\<And>i. opens_kept (t_jobs d) (t_jobs d') i"
  shows "host_ok es d' q h"
  using host_ok_map [where ys = "[]" and f = "\<lambda>c. c", OF assms(1)] assms(2,3) by (simp add: same_stage_def)

lemma fail_host: "host_ok es d (t # q) h \<Longrightarrow> host_ok es (fail_job now (tk_job t) err d) q h"
  by (rule opens_host [OF host_ok_pop]) (auto simp: fail_job_def job_open_def intro!: opens_kept_update)

lemma restart_host: "host_ok es d q h \<Longrightarrow> host_ok es (recover_interrupted now d) [] h"
proof -
  assume "host_ok es d q h"
  then have "host_ok es d [] h" by (simp add: host_ok_def waiting_tail_def)
  then show ?thesis
    by (rule opens_host) (auto simp: recover_interrupted_def job_open_def intro!: opens_kept_update)
qed

lemma fail_optional_host:
  assumes sync: "sync_ok X d (t # q)" and host: "host_ok es d (t # q) h"
    and cs: "optional_commands X (job_selection (tk_job t)) d = Ok cs" and run: "run_commands cs os h = (False, h')"
  shows "host_ok es (fail_job now (tk_job t) err d) q h'"
proof -
  have "host_ok es d (t\<lparr>tk_phase := Waiting\<rparr> # q) h'"
    by (rule host_ok_head [OF host optional_change [OF sync host cs run] waiting_head]) simp
  from fail_host [OF this] show ?thesis by simp
qed

lemma reconcile_host:
  assumes sync: "sync_ok X d q" and host: "host_ok es d q h" and free: "q = [] \<or> tk_phase (hd q) = Waiting"
    and rec: "reconcile_command X e d = Ok c"
  shows "host_ok es d q (run_command hot c h)"
proof -
  from rec obtain all where all: "snapshot X Everyone d = Ok all" and c: "c = SyncConfig e all"
    by (auto simp: reconcile_command_def)
  have "u \<in> set (h e') \<or> sourced d q u" if "u \<in> set (run_command hot c h e')" for e' u
    using that everyone_sourced [of u d q] snapshot_users [OF all] unfolding c by (auto split: if_splits)
  from host_change [OF sync host, of "run_command hot c h", OF this] host free show ?thesis
    unfolding host_ok_def by (auto intro: waiting_head)
qed

text \<open>A claimed activation or rotation of a connection that is not archived is its open job.\<close>

lemma issue_task_fits:
  assumes sync: "sync_ok X d (t # q)" and c: "c \<in> set (t_connections d)" "c_id c = job_conn t" "c_archived_at c = None"
    and k: "issue_kind (j_kind (tk_job t))"
  shows "kind_fits (j_kind (tk_job t)) c"
proof -
  note queue = sync_okD(2) [OF sync] and life = sync_okD(3) [OF sync] and dist = conn_inv_distinct [OF sync_okD(1) [OF sync]]
  have t: "t \<in> set (t # q)" by simp
  have only: "b = c" if "b \<in> set (t_connections d)" "c_id b = job_conn t" for b using dist that c by (metis distinct_key_unique)
  from queue_okD(3) [OF queue t] obtain row where row: "row \<in> set (t_jobs d)" "job_core row = job_core (tk_job t)" "j_status row \<in> {JRunning, JCancelled}" by blast
  from lifecycle_okD(3) [OF life t] only c(3) k row have "j_status row \<noteq> JCancelled"
    unfolding task_fits_def by (metis job_coreD)
  with row(3) have "job_open row" by (simp add: job_open_def)
  from lifecycle_okD(1) [OF life row(1) this] obtain b where "b \<in> set (t_connections d)" "c_id b = j_connection_id row" "kind_fits (j_kind row) b"
    unfolding job_fits_def by blast
  with only job_coreD [OF row(2)] show ?thesis by auto
qed

lemma finish_user_ok:
  assumes sync: "sync_ok X d (t # q)" and host: "host_ok es d (t # q) h" and ph: "tk_phase t = EnginesDone"
    and c: "c \<in> set (t_connections d)" "c_id c = job_conn t"
  shows "user_ok es js' h (complete_row (j_kind (tk_job t)) now c)"
proof -
  let ?k = "j_kind (tk_job t)"
  let ?c = "complete_row ?k now c"
  note old = host_okD(2) [OF host c(1)]
  from host have head: "head_ok es (t_connections d) h t" by (simp add: host_ok_def)
  note fits = issue_task_fits [OF sync c]
  have gen: "g = c_generation ?c \<or> moving ?c" if g: "(c_id ?c, g) \<in> set (h Xray)" for g
  proof (cases "g = c_generation c \<or> c_archived_at c \<noteq> None")
    case True then show ?thesis by (auto simp: moving_def)
  next
    case False
    with old g have rot: "c_status c = Rotating" by (auto simp: user_ok_def moving_def)
    show ?thesis
    proof (cases ?k)
      case KActivate with fits False rot show ?thesis by (simp add: issue_kind_def)
    next
      case KRotate
      with head ph g c(2) task_generation [OF sync c] show ?thesis by (simp add: head_ok_def)
    next
      case KRevoke
      with lifecycle_okD(3) [OF sync_okD(3) [OF sync], of t] obtain b where
        "b \<in> set (t_connections d)" "c_id b = job_conn t" "c_archived_at b \<noteq> None" unfolding task_fits_def by auto
      with c conn_inv_distinct [OF sync_okD(1) [OF sync]] False show ?thesis by (metis distinct_key_unique)
    qed (use rot in \<open>simp_all add: moving_def\<close>)
  qed
  have quiet: "\<not> admits h e (c_id ?c)" if dn: "suspension_done js' ?c" and e: "e \<in> set (Xray # es)" for e
  proof (cases ?k)
    case KSuspend
    with dn c have "settled c" by (simp add: suspension_done_def)
    with head ph KSuspend c e show ?thesis by (auto simp: head_ok_def)
  next
    case KActivate
    with dn fits old show ?thesis by (auto simp: suspension_done_def settled_def issue_kind_def user_ok_def)
  next
    case KRotate
    with dn fits old show ?thesis by (auto simp: suspension_done_def settled_def issue_kind_def user_ok_def)
  qed (use dn in \<open>simp_all add: suspension_done_def settled_def\<close>)
  have "c_suspended_at ?c = None" if "c_status ?c \<in> {Provisioning, Rotating}"
    using that old by (cases ?k) (auto simp: user_ok_def)
  with gen quiet show ?thesis unfolding user_ok_def by blast
qed

lemma finish_host:
  assumes sync: "sync_ok X d (t # q)" and host: "host_ok es d (t # q) h" and ph: "tk_phase t = EnginesDone"
    and fin: "complete_task now (tk_job t) d = Ok d'"
  shows "host_ok es d' q h"
proof -
  note queue = sync_okD(2) [OF sync]
  let ?k = "j_kind (tk_job t)"
  let ?f = "\<lambda>j. j\<lparr>j_status := JCompleted, j_next_attempt_at := now, j_last_error := None, j_completed_at := Some now, j_updated_at := now\<rparr>"
  let ?p = "\<lambda>j. j_id j = job_id t \<and> j_status j = JRunning"
  from complete_task_effect [OF fin] obtain d1 where
    eff: "t_connections d1 = update_where (\<lambda>r. c_id r = job_conn t) (complete_row ?k now) (t_connections d)"
      "t_jobs d1 = t_jobs d" "d' = complete_job now (job_id t) d1" by blast
  have cs: "t_connections d' = update_where (\<lambda>r. c_id r = job_conn t) (complete_row ?k now) (t_connections d)"
    unfolding eff(3) by (simp add: eff(1))
  have jobs: "t_jobs d' = update_where ?p ?f (t_jobs d)"
    unfolding eff(3) complete_job_def by (simp add: eff(2))
  have keep: "opens_kept (t_jobs d) (t_jobs d') k" if k: "k \<noteq> job_conn t" for k
  proof -
    have row: "j_connection_id j = job_conn t" if "j \<in> set (t_jobs d)" "j_id j = job_id t" for j
      using job_coreD [OF queue_ok_row [OF queue _ that]] by simp
    have "opens_kept (t_jobs d) (map (\<lambda>j. if ?p j then ?f j else j) (t_jobs d) @ []) k"
      by (rule opens_kept_map) (use row k in auto)
    then show ?thesis unfolding jobs update_where_def by simp
  qed
  have "user_ok es (t_jobs d') h c'" if "c' \<in> set (t_connections d')" for c'
    using update_where_cases [OF that [unfolded cs]]
  proof
    assume "\<exists>s\<in>set (t_connections d). c_id s = job_conn t \<and> c' = complete_row ?k now s"
    with finish_user_ok [OF sync host ph] show ?thesis by blast
  next
    assume c: "c' \<in> set (t_connections d) \<and> c_id c' \<noteq> job_conn t"
    then have "user_ok es (t_jobs d) h c'" using host_okD(2) [OF host] by blast
    moreover from this have "follows (t_jobs d) (t_jobs d') c' c'"
      by (rule follows_same [where f = "\<lambda>c. c"]) (use keep c in \<open>simp_all add: same_stage_def\<close>)
    ultimately show ?thesis by (rule user_ok_follows)
  qed
  moreover have "known_users es (t_connections d') h"
  proof -
    have "c_id ` set (t_connections d') = c_id ` set (t_connections d)"
      unfolding cs set_update_where image_image by (rule image_cong) auto
    then have "(\<exists>c\<in>set (t_connections d'). c_id c = i) \<longleftrightarrow> (\<exists>c\<in>set (t_connections d). c_id c = i)" for i
      by (metis image_iff)
    with host_okD(1) [OF host] show ?thesis unfolding known_users_def by blast
  qed
  ultimately show ?thesis
    using host by (cases q) (auto simp: host_ok_def waiting_tail_def intro: waiting_head)
qed

section \<open>Every step keeps the invariant\<close>

lemma request_host:
  assumes sync: "sync_ok X d q" and host: "host_ok es d q h" and start: "start_request X rnd now req d = Ok (j, d')"
  shows "host_ok es d' (q @ claimed j) h"
proof -
  note claim = claim_job_host [OF _ queue_okD(1) [OF sync_okD(2)]]
  note inv = sync_okD(1) [OF sync]
  show ?thesis
  proof (cases req)
    case (ActivateReq i)
    with start have "(j = None \<and> d' = d) \<or> claim_job True now i d = (j, d')" by (auto split: if_splits)
    with host claim [OF host sync] show ?thesis by (auto simp: claimed_def)
  next
    case (RetryReq i)
    let ?g = "\<lambda>j. j\<lparr>j_status := JPending, j_next_attempt_at := now, j_last_error := None, j_updated_at := now\<rparr>"
    from RetryReq start have "(j = None \<and> d' = d) \<or> (\<exists>k::sync_job. claim_job True now i (update_jobs (\<lambda>j. j_id j = j_id k \<and> j_status j = JFailed) ?g d) = (j, d'))"
      by (auto split: if_splits option.splits)
    then show ?thesis
    proof (elim disjE exE)
      fix k :: sync_job assume c: "claim_job True now i (update_jobs (\<lambda>j. j_id j = j_id k \<and> j_status j = JFailed) ?g d) = (j, d')"
      have s: "sync_ok X (update_jobs (\<lambda>j. j_id j = j_id k \<and> j_status j = JFailed) ?g d) q"
        by (rule sync_ok_status [OF sync]) (simp_all add: job_core_def)
      have "host_ok es (update_jobs (\<lambda>j. j_id j = j_id k \<and> j_status j = JFailed) ?g d) q h"
        by (rule opens_host [OF host]) (auto simp: job_open_def intro!: opens_kept_update)
      from claim [OF this s c] show ?thesis .
    qed (use host in \<open>simp add: claimed_def\<close>)
  next
    case (RotateReq i actor)
    with start obtain d1 where d1: "prepare_rotation X rnd now i actor d = Ok d1" "claim_job True now i d1 = (j, d')" by auto
    from claim [OF prepare_rotation_host [OF host inv d1(1)] prepare_rotation_sync [OF sync d1(1)] d1(2)] show ?thesis .
  next
    case (SuspendReq i actor)
    with start obtain d1 where d1: "d1 = d \<or> prepare_suspend rnd now i actor d = Ok d1"
      and j: "claim_job True now i d1 = (j, d') \<or> (j = None \<and> d' = d1)" by (auto split: if_splits option.splits)
    have s: "sync_ok X d1 q" using d1 sync prepare_suspend_sync [OF sync] by blast
    have h1: "host_ok es d1 q h" using d1 host prepare_suspend_host [OF host inv] by blast
    from j claim [OF h1 s] h1 show ?thesis by (auto simp: claimed_def)
  next
    case (ResumeReq i actor)
    with start have "(j = None \<and> d' = d) \<or> (\<exists>d1. (d1 = d \<or> prepare_resume rnd now i actor d = Ok d1) \<and> claim_job True now i d1 = (j, d'))"
      by (auto split: if_splits)
    then show ?thesis
    proof (elim disjE exE conjE)
      fix d1 assume d1: "prepare_resume rnd now i actor d = Ok d1" "claim_job True now i d1 = (j, d')"
      from claim [OF prepare_resume_host [OF host d1(1)] prepare_resume_sync [OF sync d1(1)] d1(2)] show ?thesis .
    next
      fix d1 assume "d1 = d" "claim_job True now i d1 = (j, d')"
      with claim [OF host sync] show ?thesis by blast
    qed (use host in \<open>simp add: claimed_def\<close>)
  next
    case (ArchiveReq i actor)
    with start obtain d1 where d1: "prepare_archive rnd now i actor d = Ok d1" "claim_job True now i d1 = (j, d')" by auto
    from claim [OF prepare_archive_host [OF host d1(1)] prepare_archive_sync [OF sync d1(1)] d1(2)] show ?thesis .
  qed
qed

lemma seen_host:
  assumes "host_ok es d q h" and "seen_only f" and "t_connections d' = map f (t_connections d)" and "t_jobs d' = t_jobs d"
  shows "host_ok es d' q h"
  by (rule stage_host [OF assms(1,3,4)]) (use seen_only_fields [OF assms(2)] in blast)

lemma host_step:
  "sync_step X ps es s s' \<Longrightarrow> crypto_ok X \<Longrightarrow> sync_ok X (s_db s) (s_queue s) \<Longrightarrow> host_ok es (s_db s) (s_queue s) (s_host s) \<Longrightarrow>
     host_ok es (s_db s') (s_queue s') (s_host s')"
proof (induction rule: sync_step.induct)
  case (Drain now i d j d' q h)
  then show ?case using claim_job_host [OF _ queue_okD(1) [OF sync_okD(2)]] by simp
next
  case (FailOptional t d now err h h' q)
  then show ?case using fail_optional_host fail_host by (elim disjE exE conjE; simp; blast)
next
  case (Reconcile q e d c h hot)
  then show ?case using reconcile_host by simp
qed (simp; blast intro: request_host first_host skip_host optional_host finish_host fail_host create_host details_host
      fetched_host view_host seen_host restart_host)+

lemma sync_reachable_host:
  assumes "sync_reachable X ps es s" and X: "crypto_ok X"
  shows "host_ok es (s_db s) (s_queue s) (s_host s)"
proof -
  from assms(1) obtain s0 where s0: "sync_initial s0" and steps: "(sync_step X ps es)\<^sup>*\<^sup>* s0 s" by blast
  from steps show ?thesis
  proof (induction rule: rtranclp_induct)
    case base
    with s0 show ?case by (simp add: sync_initial_def host_ok_def known_users_def admits_def waiting_tail_def)
  next
    case (step s s')
    from s0 step.hyps(1) have "sync_reachable X ps es s" by blast
    from host_step [OF step.hyps(2) X sync_reachable_ok [OF this] step.IH] show ?case .
  qed
qed

end
