(* ===== verification/Sync_Properties.thy ===== *)
theory Sync_Properties
  imports Engine_Access
begin

text \<open>
  An executable form of the step relation of \<open>Connection_Sync\<close>, the properties of the
  reachable states, and runs that show what an overlapping request can undo.
\<close>

section \<open>Runs\<close>

datatype sync_action =
    DoCreate "nat \<Rightarrow> string" time json string
  | DoRequest "nat \<Rightarrow> string" time sync_request
  | DoDrain time string
  | DoFirst bool
  | DoOptional "outcome list"
  | DoFinish time
  | DoFail time string
  | DoReconcile engine bool
  | DoRestart time

fun result_option :: "'a result \<Rightarrow> 'a option" where
  "result_option (Ok x) = Some x"
| "result_option (Err e) = None"

lemma result_option_Some: "result_option r = Some x \<longleftrightarrow> r = Ok x"
  by (cases r) auto

text \<open>The job that holds the lock, and the phase it is in.\<close>

definition run_head :: "crypto \<Rightarrow> path_config \<Rightarrow> engine list \<Rightarrow> sync_action \<Rightarrow> db \<Rightarrow> task \<Rightarrow> task list \<Rightarrow> host \<Rightarrow> sync_state option" where
  "run_head X ps es a d t q h =
     (case (a, tk_phase t) of
        (DoFirst hot, Waiting) \<Rightarrow>
          (case first_command X ps (tk_job t) d of
             Err e \<Rightarrow> None
           | Ok None \<Rightarrow> Some \<lparr>s_db = d, s_queue = t\<lparr>tk_phase := EnginesDone\<rparr> # q, s_host = h\<rparr>
           | Ok (Some c) \<Rightarrow> Some \<lparr>s_db = d, s_queue = t\<lparr>tk_phase := FirstDone\<rparr> # q, s_host = run_command hot c h\<rparr>)
      | (DoOptional os, FirstDone) \<Rightarrow>
          (if optional_installed d = es
           then case optional_commands X (job_selection (tk_job t)) d of
               Err e \<Rightarrow> None
             | Ok cs \<Rightarrow> (case run_commands cs os h of
                 (True, h') \<Rightarrow> Some \<lparr>s_db = d, s_queue = t\<lparr>tk_phase := EnginesDone\<rparr> # q, s_host = h'\<rparr>
               | (False, h') \<Rightarrow> None)
           else None)
      | (DoFinish now, EnginesDone) \<Rightarrow>
          map_option (\<lambda>d'. \<lparr>s_db = d', s_queue = q, s_host = h\<rparr>) (result_option (complete_task now (tk_job t) d))
      | (DoFail now err, Waiting) \<Rightarrow>
          (if first_command X ps (tk_job t) d = Ok None then None
           else Some \<lparr>s_db = fail_job now (tk_job t) err d, s_queue = q, s_host = h\<rparr>)
      | _ \<Rightarrow> None)"

definition run_action :: "crypto \<Rightarrow> path_config \<Rightarrow> engine list \<Rightarrow> sync_action \<Rightarrow> sync_state \<Rightarrow> sync_state option" where
  "run_action X ps es a s =
     (let d = s_db s; q = s_queue s; h = s_host s in
      case a of
        DoCreate rnd now input actor \<Rightarrow>
          map_option (\<lambda>(c, d'). \<lparr>s_db = d', s_queue = q, s_host = h\<rparr>) (result_option (create_connection X rnd now input actor d))
      | DoRequest rnd now req \<Rightarrow>
          map_option (\<lambda>(j, d'). \<lparr>s_db = d', s_queue = q @ claimed j, s_host = h\<rparr>) (result_option (start_request X rnd now req d))
      | DoDrain now i \<Rightarrow>
          (case claim_job False now i d of (j, d') \<Rightarrow> Some \<lparr>s_db = d', s_queue = q @ claimed j, s_host = h\<rparr>)
      | DoReconcile e hot \<Rightarrow>
          (if (q = [] \<or> tk_phase (hd q) = Waiting) \<and> (e = Xray \<or> e \<in> set es)
           then map_option (\<lambda>c. \<lparr>s_db = d, s_queue = q, s_host = run_command hot c h\<rparr>) (result_option (reconcile_command X e d))
           else None)
      | DoRestart now \<Rightarrow> Some \<lparr>s_db = recover_interrupted now d, s_queue = [], s_host = h\<rparr>
      | _ \<Rightarrow> (case q of [] \<Rightarrow> None | t # q' \<Rightarrow> run_head X ps es a d t q' h))"

fun run_actions :: "crypto \<Rightarrow> path_config \<Rightarrow> engine list \<Rightarrow> sync_action list \<Rightarrow> sync_state \<Rightarrow> sync_state option" where
  "run_actions X ps es [] s = Some s"
| "run_actions X ps es (a # as) s =
     (case run_action X ps es a s of None \<Rightarrow> None | Some s' \<Rightarrow> run_actions X ps es as s')"

lemma run_head_step:
  assumes "run_head X ps es a d t q h = Some s'"
  shows "sync_step X ps es \<lparr>s_db = d, s_queue = t # q, s_host = h\<rparr> s'"
proof (cases "tk_phase t")
  case Waiting
  from assms Waiting show ?thesis
    unfolding run_head_def
    by (cases a; cases "first_command X ps (tk_job t) d")
       (auto split: option.splits if_splits intro: sync_step.First sync_step.Skip sync_step.FailFirst)
next
  case FirstDone
  with assms show ?thesis
    unfolding run_head_def
    by (cases a; cases "optional_commands X (job_selection (tk_job t)) d")
       (auto split: if_splits bool.splits prod.splits intro: sync_step.Optional)
next
  case EnginesDone
  with assms show ?thesis
    unfolding run_head_def by (cases a) (auto simp: result_option_Some intro: sync_step.Finish)
qed

lemma run_action_step:
  assumes "run_action X ps es a s = Some s'"
  shows "sync_step X ps es s s'"
proof -
  obtain d q h where s: "s = \<lparr>s_db = d, s_queue = q, s_host = h\<rparr>" by (cases s)
  have head: "\<exists>t q'. q = t # q' \<and> run_head X ps es a d t q' h = Some s'"
    if "(case q of [] \<Rightarrow> None | t # q' \<Rightarrow> run_head X ps es a d t q' h) = Some s'" for a
    using that by (cases q) auto
  from assms show ?thesis
    unfolding run_action_def s Let_def sync_state.select_convs
    by (cases a)
       (auto simp: result_option_Some split: prod.splits if_splits dest!: head
         intro: sync_step.Create sync_step.Request sync_step.Drain sync_step.Reconcile sync_step.Restart run_head_step)
qed

lemma run_actions_steps: "run_actions X ps es as s = Some s' \<Longrightarrow> (sync_step X ps es)\<^sup>*\<^sup>* s s'"
  by (induction as arbitrary: s)
     (auto split: option.splits dest!: run_action_step intro: converse_rtranclp_into_rtranclp)

definition empty_sync :: sync_state where
  "empty_sync = \<lparr>s_db = empty_db, s_queue = [], s_host = \<lambda>e. []\<rparr>"

lemma run_reachable:
  assumes "run_actions X ps es as empty_sync = Some s"
  shows "sync_reachable X ps es s"
proof -
  have "sync_initial empty_sync" by (simp add: sync_initial_def empty_sync_def empty_db_def)
  with run_actions_steps [OF assms] show ?thesis by blast
qed

lemma admits_code [code]: "admits h e i \<longleftrightarrow> i \<in> fst ` set (h e)"
  by (force simp: admits_def)

section \<open>A run\<close>

text \<open>A connection is created, activated, suspended; the draws of an action are strings of their own length.\<close>

definition draws :: "nat \<Rightarrow> nat \<Rightarrow> string" where
  "draws k n = replicate (k + n) (CHR ''r'')"

definition phone :: string where
  "phone = draws 1 0"

definition work :: "time \<Rightarrow> sync_action list" where
  "work now = [DoFirst True, DoOptional [], DoFinish now]"

definition created_run :: "sync_action list" where
  "created_run = [DoCreate (draws 1) 5 (JObj [(''name'', JStr ''Phone'')]) ''owner'']"

definition active_run :: "sync_action list" where
  "active_run = created_run @ DoRequest (draws 1) 6 (ActivateReq phone) # work 7"

definition suspended_run :: "sync_action list" where
  "suspended_run = active_run @ DoRequest (draws 20) 8 (SuspendReq phone ''owner'') # work 9"

definition rotated_run :: "sync_action list" where
  "rotated_run = active_run @ DoRequest (draws 20) 8 (RotateReq phone ''owner'') # work 9"

definition sample_paths :: path_config where
  "sample_paths = \<lparr>xhttp_path = ''/x'', grpc_service = ''g''\<rparr>"

definition sample_run :: "sync_action list \<Rightarrow> sync_state option" where
  "sample_run as = run_actions sample_crypto sample_paths [] as empty_sync"

lemma sample_run_reachable:
  "sample_run as = Some s \<Longrightarrow> sync_reachable sample_crypto sample_paths [] s"
  unfolding sample_run_def by (rule run_reachable)

text \<open>What a run ends in: the connection with that id.\<close>

definition run_connection :: "string \<Rightarrow> sync_state \<Rightarrow> connection option" where
  "run_connection i s = find (\<lambda>c. c_id c = i) (t_connections (s_db s))"

definition run_ends :: "sync_action list \<Rightarrow> (sync_state \<Rightarrow> connection \<Rightarrow> bool) \<Rightarrow> bool" where
  "run_ends as P =
     (case sample_run as of None \<Rightarrow> False
      | Some s \<Rightarrow> (case run_connection phone s of None \<Rightarrow> False | Some c \<Rightarrow> P s c))"

lemma run_endsE:
  assumes "run_ends as P"
  obtains s c where "sync_reachable sample_crypto sample_paths [] s" "c \<in> set (t_connections (s_db s))" "P s c"
proof -
  from assms obtain s c where s: "sample_run as = Some s" and c: "run_connection phone s = Some c" and p: "P s c"
    unfolding run_ends_def by (auto split: option.splits)
  from c have "c \<in> set (t_connections (s_db s))" by (auto simp: run_connection_def find_Some_iff)
  with sample_run_reachable [OF s] p that show ?thesis by blast
qed

lemma created_transitional: "run_ends created_run (\<lambda>s c. c_status c = Provisioning)"
  by code_simp

lemma suspended_ends: "run_ends suspended_run (\<lambda>s c. suspension_done (t_jobs (s_db s)) c)"
  by code_simp

lemma rotated_ends: "run_ends rotated_run (\<lambda>s c. settled c \<and> c_generation c = 2)"
  by code_simp

section \<open>Properties\<close>

lemma claim_due:
  assumes jok: "jobs_ok (t_jobs d)" and job: "open_job i d = Some j" "j_status j \<noteq> JRunning" "j_next_attempt_at j \<le> now"
  shows "\<exists>d'. claim_job False now i d = (Some (running_row now j), d')"
proof -
  from newest_job_Some job(1) have j: "j \<in> set (t_jobs d)" "j_connection_id j = i" "job_open j" unfolding open_job_def by blast+
  with job(2) have st: "j_status j \<in> {JPending, JFailed}" by (auto simp: job_open_def)
  let ?p = "\<lambda>k. j_id k = j_id j \<and> j_status k \<in> {JPending, JFailed} \<and> (False \<or> j_next_attempt_at k \<le> now)"
  let ?d = "update_jobs ?p (running_row now) d" and ?r = "\<lambda>rows. select_one (\<lambda>k. j_id k = j_id j) rows"
  have p: "?p j" using st job(3) by simp
  with j(1) have "\<exists>k\<in>set (t_jobs d). ?p k" by blast
  then have "changes ?p (t_jobs d) \<noteq> 0" by simp
  then have claim: "claim_job False now i d = (?r (t_jobs ?d), ?d)"
    unfolding claim_job_def Let_def job(1) option.case by (simp only: if_False)
  have "running_row now j \<in> set (t_jobs ?d)" using update_where_mem [where p = ?p, OF j(1) p] by simp
  moreover have "j_id (running_row now j) = j_id j" by (simp add: running_row_def)
  ultimately have some: "?r (t_jobs ?d) \<noteq> None" unfolding select_one_def find_None_iff by blast
  from claim_job_effect [OF jok claim] show ?thesis
  proof
    assume "?r (t_jobs ?d) = None \<and> ?d = d"
    then have "?r (t_jobs ?d) = None" by (rule conjunct1)
    with some show ?thesis by (rule notE)
  next
    assume "\<exists>k\<in>set (t_jobs d). j_connection_id k = i \<and> j_status k \<in> {JPending, JFailed} \<and> (False \<or> j_next_attempt_at k \<le> now) \<and>
       ?r (t_jobs ?d) = Some (running_row now k) \<and> ?d = update_jobs (\<lambda>l. j_id l = j_id k) (running_row now) d"
    then obtain k where k: "k \<in> set (t_jobs d)" "j_connection_id k = i" "j_status k \<in> {JPending, JFailed}"
      "?r (t_jobs ?d) = Some (running_row now k)" by blast
    then have "job_open k" by (auto simp: job_open_def)
    with jobs_ok_open [OF jok k(1) j(1)] j k(2) have "k = j" by simp
    with k(4) have "?r (t_jobs ?d) = Some (running_row now j)" by (simp only:)
    with claim have "claim_job False now i d = (Some (running_row now j), ?d)" by (simp only:)
    then show ?thesis by (rule exI)
  qed
qed

lemma due_jobs_complete:
  assumes "j \<in> set (t_jobs d)" "j_status j \<in> {JPending, JFailed}" "j_next_attempt_at j \<le> now" "length (t_jobs d) \<le> limit"
  shows "j_connection_id j \<in> set (due_jobs now limit d)"
proof -
  let ?s = "sort_by (\<lambda>a b. j_created_at a \<le> j_created_at b) (filter (\<lambda>j. j_status j \<in> {JPending, JFailed} \<and> j_next_attempt_at j \<le> now) (t_jobs d))"
  have "length ?s \<le> limit" using assms(4) by (simp add: order_trans [OF length_filter_le])
  moreover have "j \<in> set ?s" using assms(1-3) by (simp add: set_sort_by)
  ultimately show ?thesis unfolding due_jobs_def by simp
qed



text \<open>
  C13.  Suspension takes effect: whenever an active connection is suspended and its suspension
  has no open job left, no running engine, neither Xray nor any optional one, admits it - in
  every reachable state, whatever else was requested, failed or reconciled in between.
\<close>

theorem suspended_admitted_nowhere:
  assumes "sync_reachable X ps es s" and "crypto_ok X"
    and "c \<in> set (t_connections (s_db s))" and "suspension_done (t_jobs (s_db s)) c" and "e \<in> set (Xray # es)"
  shows "\<not> admits (s_host s) e (c_id c)"
  using host_okD(2) [OF sync_reachable_host [OF assms(1,2)] assms(3)] assms(4,5) unfolding user_ok_def by blast

lemma suspended_admitted_nowhere_witness:
  "\<exists>s c. sync_reachable sample_crypto sample_paths [] s \<and> suspension_done (t_jobs (s_db s)) c \<and>
     \<not> admits (s_host s) Xray (c_id c)"
proof -
  from suspended_ends obtain s c where s: "sync_reachable sample_crypto sample_paths [] s"
    "c \<in> set (t_connections (s_db s))" "suspension_done (t_jobs (s_db s)) c" by (rule run_endsE)
  from suspended_admitted_nowhere [OF s(1) sample_crypto_ok s(2,3), of Xray] s show ?thesis by auto
qed

text \<open>
  C14.  A rotation cuts off the superseded credentials: once a connection is settled again,
  the only user of it that Xray admits is the one of its current generation.
\<close>

theorem superseded_generation_gone:
  assumes "sync_reachable X ps es s" and "crypto_ok X"
    and "c \<in> set (t_connections (s_db s))" and "settled c" and "(c_id c, g) \<in> set (s_host s Xray)"
  shows "g = c_generation c"
  using host_okD(2) [OF sync_reachable_host [OF assms(1,2)] assms(3)] assms(4,5)
  by (auto simp: user_ok_def settled_def moving_def)

lemma rotated_admits: "run_ends rotated_run (\<lambda>s c. settled c \<and> c_generation c = 2 \<and> (c_id c, 2) \<in> set (s_host s Xray))"
  by code_simp

lemma superseded_generation_gone_witness:
  "\<exists>s c. sync_reachable sample_crypto sample_paths [] s \<and> settled c \<and> (c_id c, 2) \<in> set (s_host s Xray) \<and>
     (2::nat) = c_generation c \<and> (c_id c, 1) \<notin> set (s_host s Xray)"
proof -
  from rotated_admits obtain s c where s: "sync_reachable sample_crypto sample_paths [] s"
    "c \<in> set (t_connections (s_db s))" "settled c \<and> c_generation c = 2 \<and> (c_id c, 2) \<in> set (s_host s Xray)" by (rule run_endsE)
  note gone = superseded_generation_gone [OF s(1) sample_crypto_ok s(2)]
  from s(3) gone [of 2] gone [of 1] have "(2::nat) = c_generation c" "(c_id c, 1) \<notin> set (s_host s Xray)" by auto
  with s show ?thesis by blast
qed

section \<open>Runs in which requests overlap\<close>

definition resume_race :: "sync_action list" where
  "resume_race = suspended_run @
     [DoRequest (draws 40) 10 (ResumeReq phone ''owner''), DoFirst True,
      DoRequest (draws 60) 11 (SuspendReq phone ''owner''), DoOptional [], DoFinish 12] @ work 13"

lemma resume_race_ends:
  "run_ends resume_race (\<lambda>s c. connection_usable c \<and> s_queue s = [] \<and> open_job (c_id c) (s_db s) = None \<and>
     map_option j_kind (latest_job (c_id c) (s_db s)) = Some KSuspend)"
  by code_simp


definition archive_race :: "sync_action list" where
  "archive_race = created_run @
     [DoRequest (draws 1) 6 (ActivateReq phone), DoFirst True, DoRestart 7,
      DoRequest (draws 20) 8 (ArchiveReq phone ''owner''), DoFirst True, DoFinish 9]"

lemma archive_race_ends:
  "run_ends archive_race (\<lambda>s c. c_status c = Archived \<and> s_queue s = [] \<and> open_job (c_id c) (s_db s) = None \<and>
     admits (s_host s) Xray (c_id c))"
  by code_simp

text \<open>
  Archiving does not always reach the engines: a connection is archived after its
  activation has added the user to Xray and before the activation completes.  There is no
  active credential when the revocation starts, so it calls no engine.  A state is reached in
  which the connection is archived and nothing is left to do, and Xray still admits its user.
\<close>

theorem archive_leaves_half_activated_user:
  "\<exists>s c. sync_reachable sample_crypto sample_paths [] s \<and> c \<in> set (t_connections (s_db s)) \<and> c_status c = Archived \<and>
     s_queue s = [] \<and> open_job (c_id c) (s_db s) = None \<and> admits (s_host s) Xray (c_id c)"
proof -
  from archive_race_ends obtain s c where "sync_reachable sample_crypto sample_paths [] s" "c \<in> set (t_connections (s_db s))"
    "c_status c = Archived \<and> s_queue s = [] \<and> open_job (c_id c) (s_db s) = None \<and> admits (s_host s) Xray (c_id c)"
    by (rule run_endsE)
  then show ?thesis by blast
qed

end
