(* ===== verification/Js_Map.thy ===== *)
theory Js_Map
  imports Prelude
begin

text \<open>
  The \<open>Map\<close> and \<open>Set\<close> of JavaScript: association lists in the order of insertion.  Setting
  a key that is present keeps its place; iteration follows the order.
\<close>

type_synonym ('k, 'v) js_map = "('k \<times> 'v) list"

fun map_set :: "'k \<Rightarrow> 'v \<Rightarrow> ('k, 'v) js_map \<Rightarrow> ('k, 'v) js_map" where
  "map_set k v [] = [(k, v)]"
| "map_set k v ((k', v') # m) = (if k = k' then (k, v) # m else (k', v') # map_set k v m)"

definition map_get :: "'k \<Rightarrow> ('k, 'v) js_map \<Rightarrow> 'v option" where
  "map_get k m = map_of m k"

definition map_delete :: "'k \<Rightarrow> ('k, 'v) js_map \<Rightarrow> ('k, 'v) js_map" where
  "map_delete k m = filter (\<lambda>p. fst p \<noteq> k) m"

definition map_keys :: "('k, 'v) js_map \<Rightarrow> 'k list" where
  "map_keys m = map fst m"

definition has_key :: "'k \<Rightarrow> ('k, 'v) js_map \<Rightarrow> bool" where
  "has_key k m \<longleftrightarrow> k \<in> set (map_keys m)"

definition keep_keys :: "('k \<Rightarrow> bool) \<Rightarrow> ('k, 'v) js_map \<Rightarrow> ('k, 'v) js_map" where
  "keep_keys P m = filter (\<lambda>p. P (fst p)) m"

text \<open>\<open>[...new Set(xs)]\<close>: the first occurrences, in order.\<close>

fun distinct_from :: "'a list \<Rightarrow> 'a list \<Rightarrow> 'a list" where
  "distinct_from seen [] = []"
| "distinct_from seen (x # xs) =
     (if x \<in> set seen then distinct_from seen xs else x # distinct_from (x # seen) xs)"

definition js_distinct :: "'a list \<Rightarrow> 'a list" where
  "js_distinct xs = distinct_from [] xs"

section \<open>Lookup\<close>

lemma map_get_simps [simp]:
  "map_get k [] = None"
  "map_get k ((k', v) # m) = (if k = k' then Some v else map_get k m)"
  by (simp_all add: map_get_def)

lemma map_get_set [simp]: "map_get k (map_set k' v m) = (if k = k' then Some v else map_get k m)"
  by (induction m) auto

lemma map_get_delete [simp]: "map_get k (map_delete k' m) = (if k = k' then None else map_get k m)"
  by (induction m) (auto simp: map_delete_def)

lemma map_get_keep [simp]: "map_get k (keep_keys P m) = (if P k then map_get k m else None)"
  by (induction m) (auto simp: keep_keys_def)

lemma map_get_map [simp]: "map_get k (map (\<lambda>(k, v). (k, f v)) m) = map_option f (map_get k m)"
  by (induction m) auto

lemma set_keys_set [simp]: "set (map_keys (map_set k v m)) = insert k (set (map_keys m))"
proof (induction m)
  case (Cons p m)
  then show ?case by (cases p) (auto simp: map_keys_def)
qed (simp add: map_keys_def)

lemma set_keys_delete [simp]: "set (map_keys (map_delete k m)) = set (map_keys m) - {k}"
  by (auto simp: map_keys_def map_delete_def)

lemma set_keys_keep [simp]: "set (map_keys (keep_keys P m)) = {k \<in> set (map_keys m). P k}"
  by (auto simp: map_keys_def keep_keys_def)

lemma map_keys_Nil [simp]: "map_keys [] = []"
  by (simp add: map_keys_def)

lemma map_keys_Cons [simp]: "map_keys ((k, v) # m) = k # map_keys m"
  by (simp add: map_keys_def)

lemma map_keys_map [simp]: "map_keys (map (\<lambda>(k, v). (k, f v)) m) = map_keys m"
  by (simp add: map_keys_def split_beta comp_def)

lemma map_keys_keep: "map_keys (keep_keys P m) = filter P (map_keys m)"
  by (simp add: map_keys_def keep_keys_def filter_map comp_def)

lemma map_get_None: "map_get k m = None \<longleftrightarrow> k \<notin> set (map_keys m)"
  by (simp add: map_get_def map_keys_def map_of_eq_None_iff)

lemma map_get_key: "k \<in> set (map_keys m) \<longleftrightarrow> (\<exists>v. map_get k m = Some v)"
  using map_get_None [of k m] by auto

lemma distinct_map_set [simp]: "distinct (map_keys (map_set k v m)) = distinct (map_keys m)"
proof (induction m)
  case (Cons p m)
  obtain k' v' where p: "p = (k', v')" by (cases p)
  have "set (map fst (map_set k v m)) = insert k (set (map fst m))" using set_keys_set [of k v m] by (simp add: map_keys_def)
  with Cons p show ?case by (auto simp: map_keys_def)
qed (simp add: map_keys_def)

lemma distinct_map_delete [simp]: "distinct (map_keys m) \<Longrightarrow> distinct (map_keys (map_delete k m))"
  unfolding map_keys_def map_delete_def by (rule distinct_map_filter)

lemma distinct_map_keep [simp]: "distinct (map_keys m) \<Longrightarrow> distinct (map_keys (keep_keys P m))"
  by (simp add: map_keys_keep)

section \<open>Restricting a map to some keys\<close>

lemma keep_set: "keep_keys P (map_set k v m) = (if P k then map_set k v (keep_keys P m) else keep_keys P m)"
  by (induction m) (auto simp: keep_keys_def)

lemma keep_delete: "keep_keys P (map_delete k m) = map_delete k (keep_keys P m)"
  by (simp add: keep_keys_def map_delete_def filter_filter conj_commute)

lemma keep_keep: "keep_keys P (keep_keys Q m) = keep_keys (\<lambda>k. Q k \<and> P k) m"
  by (simp add: keep_keys_def filter_filter)

lemma keep_map: "keep_keys P (map (\<lambda>(k, v). (k, f v)) m) = map (\<lambda>(k, v). (k, f v)) (keep_keys P m)"
  by (induction m) (auto simp: keep_keys_def)

lemma delete_absent: "k \<notin> set (map_keys m) \<Longrightarrow> map_delete k m = m"
  by (induction m) (auto simp: map_delete_def map_keys_def)

section \<open>First occurrences\<close>

lemma set_distinct_from: "set (distinct_from seen xs) = set xs - set seen"
  by (induction xs arbitrary: seen) auto

lemma set_js_distinct [simp]: "set (js_distinct xs) = set xs"
  by (simp add: js_distinct_def set_distinct_from)

lemma distinct_js_distinct [simp]: "distinct (js_distinct xs)"
proof -
  have "distinct (distinct_from seen xs)" for seen
    by (induction xs arbitrary: seen) (auto simp: set_distinct_from)
  then show ?thesis by (simp add: js_distinct_def)
qed

lemma js_distinct_Nil [simp]: "js_distinct [] = []" "js_distinct xs = [] \<longleftrightarrow> xs = []"
proof -
  show "js_distinct [] = []" by (simp add: js_distinct_def)
  show "js_distinct xs = [] \<longleftrightarrow> xs = []" by (metis set_js_distinct set_empty)
qed

end
