(* ===== verification/Geosite.thy ===== *)
theory Geosite
  imports Js_Map "HOL-Library.Word"
begin

text \<open>
  The parser of the GeoSite database (src/src/server/adapters/geosite.ts): a protobuf reader
  over bytes, the messages of the format, and the categories made of them.

  A reader is the list of the bytes it has not read.  The text decoder is the platform's, and
  a parameter: \<open>dec\<close> gives the text of a byte sequence, or nothing when it is malformed.
  Every failure throws an error that the callers treat alike.
\<close>

unbundle bit_operations_syntax

type_synonym byte = "8 word"
type_synonym decoder = "byte list \<Rightarrow> string option"

abbreviation "geo_error \<equiv> Thrown ''GeoSite.dat''"

definition max_safe :: nat where
  "max_safe = 2 ^ 53 - 1"

definition maximum_database_size :: nat where
  "maximum_database_size = 64 * 1024 * 1024"

section \<open>The reader\<close>

text \<open>
  A variable-length integer of at most ten bytes.  The sum of doubles is exact below the
  bound, and stays above it once it is exceeded.
\<close>

fun varint_from :: "nat \<Rightarrow> nat \<Rightarrow> nat \<Rightarrow> byte list \<Rightarrow> (nat \<times> byte list) result" where
  "varint_from 0 result multiplier bs = Err geo_error"
| "varint_from (Suc n) result multiplier [] = Err geo_error"
| "varint_from (Suc n) result multiplier (b # bs) =
     (let result' = result + unat (b AND 127) * multiplier
      in if max_safe < result' then Err geo_error
         else if b AND 128 = 0 then Ok (result', bs)
         else varint_from n result' (multiplier * 128) bs)"

definition varint :: "byte list \<Rightarrow> (nat \<times> byte list) result" where
  "varint bs = varint_from 10 0 1 bs"

definition tag :: "byte list \<Rightarrow> (nat \<times> nat \<times> byte list) result" where
  "tag bs = bind_result (varint bs) (\<lambda>(t, bs').
     if t div 8 = 0 then Err geo_error else Ok (t div 8, t mod 8, bs'))"

definition advance :: "nat \<Rightarrow> byte list \<Rightarrow> byte list result" where
  "advance n bs = (if length bs < n then Err geo_error else Ok (drop n bs))"

definition bytes_field :: "byte list \<Rightarrow> (byte list \<times> byte list) result" where
  "bytes_field bs = bind_result (varint bs) (\<lambda>(n, bs').
     bind_result (advance n bs') (\<lambda>rest. Ok (take n bs', rest)))"

definition string_field :: "decoder \<Rightarrow> byte list \<Rightarrow> (string \<times> byte list) result" where
  "string_field dec bs = bind_result (bytes_field bs) (\<lambda>(m, rest).
     (case dec m of None \<Rightarrow> Err geo_error | Some s \<Rightarrow> Ok (s, rest)))"

definition skip_field :: "nat \<Rightarrow> byte list \<Rightarrow> byte list result" where
  "skip_field wire bs =
     (if wire = 0 then bind_result (varint bs) (\<lambda>(n, rest). Ok rest)
      else if wire = 1 then advance 8 bs
      else if wire = 2 then bind_result (varint bs) (\<lambda>(n, rest). advance n rest)
      else if wire = 5 then advance 4 bs
      else Err geo_error)"

text \<open>Every read consumes bytes and nothing but bytes of the reader.\<close>

lemma varint_from_shorter: "varint_from k r m bs = Ok (n, rest) \<Longrightarrow> length rest < length bs"
proof (induction k r m bs rule: varint_from.induct)
  case (3 k r m b bs)
  then show ?case by (auto simp: Let_def split: if_splits)
qed simp_all

lemma varint_shorter: "varint bs = Ok (n, rest) \<Longrightarrow> length rest < length bs"
  unfolding varint_def by (rule varint_from_shorter)

lemma tag_shorter: "tag bs = Ok (field, wire, rest) \<Longrightarrow> length rest < length bs"
  by (auto simp: tag_def dest: varint_shorter split: if_splits)

lemma advance_shorter: "advance n bs = Ok rest \<Longrightarrow> length rest \<le> length bs"
  by (auto simp: advance_def split: if_splits)

lemma bytes_field_shorter: "bytes_field bs = Ok (m, rest) \<Longrightarrow> length rest < length bs"
  by (auto simp: bytes_field_def dest!: varint_shorter advance_shorter)

lemma string_field_shorter: "string_field dec bs = Ok (s, rest) \<Longrightarrow> length rest < length bs"
  by (auto simp: string_field_def dest!: bytes_field_shorter split: option.splits)

lemma skip_field_shorter: "skip_field w bs = Ok rest \<Longrightarrow> length rest \<le> length bs"
  by (auto simp: skip_field_def dest!: varint_shorter advance_shorter split: if_splits)

lemmas reader_shorter = varint_shorter tag_shorter bytes_field_shorter string_field_shorter skip_field_shorter

lemma bind_result_cong [fundef_cong]:
  "r = r' \<Longrightarrow> (\<And>x. r' = Ok x \<Longrightarrow> f x = g x) \<Longrightarrow> bind_result r f = bind_result r' g"
  by (cases r) (auto simp: bind_result_def)

section \<open>Messages\<close>

record parsed_domain =
  pd_type :: nat
  pd_value :: string
  pd_attributes :: "string list"

function parse_attribute :: "decoder \<Rightarrow> string \<Rightarrow> byte list \<Rightarrow> string result" where
  "parse_attribute dec key bs =
     (if bs = [] then Ok key
      else bind_result (tag bs) (\<lambda>(field, wire, rest).
        if field = 1 \<and> wire = 2
        then bind_result (string_field dec rest) (\<lambda>(s, rest'). parse_attribute dec s rest')
        else bind_result (skip_field wire rest) (\<lambda>rest'. parse_attribute dec key rest')))"
  by pat_completeness auto
termination
  by (relation "measure (\<lambda>(dec, key, bs). length bs)") (auto dest!: reader_shorter)

declare parse_attribute.simps [simp del]

function parse_domain :: "decoder \<Rightarrow> parsed_domain \<Rightarrow> byte list \<Rightarrow> parsed_domain result" where
  "parse_domain dec p bs =
     (if bs = [] then Ok p
      else bind_result (tag bs) (\<lambda>(field, wire, rest).
        if field = 1 \<and> wire = 0
        then bind_result (varint rest) (\<lambda>(n, rest'). parse_domain dec (p\<lparr>pd_type := n\<rparr>) rest')
        else if field = 2 \<and> wire = 2
        then bind_result (string_field dec rest) (\<lambda>(s, rest'). parse_domain dec (p\<lparr>pd_value := s\<rparr>) rest')
        else if field = 3 \<and> wire = 2
        then bind_result (bytes_field rest) (\<lambda>(m, rest').
             bind_result (parse_attribute dec [] m) (\<lambda>a.
               parse_domain dec (if a \<noteq> [] then p\<lparr>pd_attributes := pd_attributes p @ [a]\<rparr> else p) rest'))
        else bind_result (skip_field wire rest) (\<lambda>rest'. parse_domain dec p rest')))"
  by pat_completeness auto
termination
  by (relation "measure (\<lambda>(dec, p, bs). length bs)") (auto dest!: reader_shorter)

declare parse_domain.simps [simp del]

definition empty_domain :: parsed_domain where
  "empty_domain = \<lparr>pd_type = 0, pd_value = [], pd_attributes = []\<rparr>"

text \<open>\<open>countryCode || code\<close> at the end of both loops.\<close>

definition either_code :: "string \<Rightarrow> string \<Rightarrow> string" where
  "either_code country c = (if country \<noteq> [] then country else c)"

function parse_site_code :: "decoder \<Rightarrow> string \<Rightarrow> string \<Rightarrow> byte list \<Rightarrow> string result" where
  "parse_site_code dec country c bs =
     (if bs = [] then Ok (either_code country c)
      else bind_result (tag bs) (\<lambda>(field, wire, rest).
        if field = 1 \<and> wire = 2
        then bind_result (string_field dec rest) (\<lambda>(s, rest'). parse_site_code dec s c rest')
        else if field = 4 \<and> wire = 2
        then bind_result (string_field dec rest) (\<lambda>(s, rest'). parse_site_code dec country s rest')
        else bind_result (skip_field wire rest) (\<lambda>rest'. parse_site_code dec country c rest')))"
  by pat_completeness auto
termination
  by (relation "measure (\<lambda>(dec, country, c, bs). length bs)") (auto dest!: reader_shorter)

declare parse_site_code.simps [simp del]

function parse_site ::
  "decoder \<Rightarrow> string \<Rightarrow> string \<Rightarrow> parsed_domain list \<Rightarrow> byte list \<Rightarrow> (string \<times> parsed_domain list) result" where
  "parse_site dec country c domains bs =
     (if bs = [] then Ok (either_code country c, domains)
      else bind_result (tag bs) (\<lambda>(field, wire, rest).
        if field = 1 \<and> wire = 2
        then bind_result (string_field dec rest) (\<lambda>(s, rest'). parse_site dec s c domains rest')
        else if field = 2 \<and> wire = 2
        then bind_result (bytes_field rest) (\<lambda>(m, rest').
             bind_result (parse_domain dec empty_domain m) (\<lambda>p. parse_site dec country c (domains @ [p]) rest'))
        else if field = 4 \<and> wire = 2
        then bind_result (string_field dec rest) (\<lambda>(s, rest'). parse_site dec country s domains rest')
        else bind_result (skip_field wire rest) (\<lambda>rest'. parse_site dec country c domains rest')))"
  by pat_completeness auto
termination
  by (relation "measure (\<lambda>(dec, country, c, ds, bs). length bs)") (auto dest!: reader_shorter)

declare parse_site.simps [simp del]

section \<open>Categories\<close>

datatype client_matcher = CDomain | CSuffix | CKeyword | CRegex | CCidr | CGeoip

record geo_domain =
  gd_matcher :: client_matcher
  gd_value :: string

definition code_char :: "char \<Rightarrow> bool" where
  "code_char c \<longleftrightarrow> is_lower c \<or> is_digit c \<or> c \<in> set ''_@.!+-''"

definition code_ok :: "string \<Rightarrow> bool" where
  "code_ok s \<longleftrightarrow> 1 \<le> length s \<and> length s \<le> 80 \<and> list_all code_char s"

definition normalize_code :: "string \<Rightarrow> string result" where
  "normalize_code s =
     (let c = to_lower (trim s) in if code_ok c then Ok c else Err geo_error)"

text \<open>The pattern \<open>[\0\r\n]\<close>.\<close>

definition breaks_line :: "char \<Rightarrow> bool" where
  "breaks_line c \<longleftrightarrow> code c = 0 \<or> code c = 10 \<or> code c = 13"

definition convert_domain :: "parsed_domain \<Rightarrow> geo_domain list result" where
  "convert_domain p =
     (let v = trim (pd_value p) in
      if v = [] \<or> list_ex breaks_line v then Err geo_error
      else if pd_type p = 0 then Ok [\<lparr>gd_matcher = CKeyword, gd_value = v\<rparr>]
      else if pd_type p = 1 then Ok [\<lparr>gd_matcher = CRegex, gd_value = v\<rparr>]
      else if pd_type p = 2 then
        Ok ((if CHR ''.'' \<in> set v then [\<lparr>gd_matcher = CDomain, gd_value = v\<rparr>] else []) @
            [\<lparr>gd_matcher = CSuffix, gd_value = CHR ''.'' # v\<rparr>])
      else if pd_type p = 3 then Ok [\<lparr>gd_matcher = CDomain, gd_value = v\<rparr>]
      else Err geo_error)"

text \<open>The key \<open>matcher\0value\<close> of an entry identifies it: no matcher contains a NUL.\<close>

abbreviation unique_domains :: "geo_domain list \<Rightarrow> geo_domain list" where
  "unique_domains \<equiv> js_distinct"

definition strip_dot :: "string \<Rightarrow> string" where
  "strip_dot s = (case s of c # cs \<Rightarrow> if c = CHR ''.'' then cs else s | [] \<Rightarrow> [])"

definition compile_domains :: "geo_domain list \<Rightarrow> geo_domain list" where
  "compile_domains values =
     (let domains = unique_domains values;
          suffixes = map (\<lambda>g. strip_dot (gd_value g)) (filter (\<lambda>g. gd_matcher g = CSuffix) domains)
      in filter (\<lambda>g. gd_matcher g \<noteq> CDomain \<or> gd_value g \<notin> set suffixes) domains)"

type_synonym sites = "(string, geo_domain list) js_map"

text \<open>A code and its attributes: \<open>split("@")\<close>; the last part of a name, \<open>split("-").at(-1) || base\<close>.\<close>

definition last_name :: "string \<Rightarrow> string" where
  "last_name base = (let l = last (split_on (CHR ''-'') base) in if l = [] then base else l)"

text \<open>What the tag \<open>attribute\<close> of \<open>base\<close> means: it is dropped, or excluded from its category.\<close>

definition own_tag :: "string \<Rightarrow> string \<Rightarrow> bool" where
  "own_tag base attribute \<longleftrightarrow> last_name base = attribute"

definition inverse_tag :: "string \<Rightarrow> string \<Rightarrow> bool" where
  "inverse_tag base attribute \<longleftrightarrow> CHR ''!'' # last_name base = attribute \<or> last_name base = CHR ''!'' # attribute"

fun tag_pass :: "string list \<Rightarrow> sites \<Rightarrow> sites \<times> (string \<times> string) list" where
  "tag_pass [] m = (m, [])"
| "tag_pass (c # cs) m =
     (case split_on (CHR ''@'') c of
        [base, attribute] \<Rightarrow>
          if own_tag base attribute then tag_pass cs (map_delete c m)
          else if inverse_tag base attribute
          then (case tag_pass cs m of (m', pairs) \<Rightarrow> (m', (base, c) # pairs))
          else tag_pass cs m
      | _ \<Rightarrow> tag_pass cs m)"

fun exclude_pass :: "(string \<times> string) list \<Rightarrow> sites \<Rightarrow> sites result" where
  "exclude_pass [] m = Ok m"
| "exclude_pass ((base, excluded) # pairs) m =
     (case map_get excluded m of
        None \<Rightarrow> Err geo_error
      | Some blocked \<Rightarrow>
          exclude_pass pairs (map_delete excluded
            (map_set base (filter (\<lambda>g. g \<notin> set blocked) (coalesce (map_get base m) [])) m)))"

definition filter_tags :: "sites \<Rightarrow> sites result" where
  "filter_tags m = (case tag_pass (map_keys m) m of (m', pairs) \<Rightarrow> exclude_pass pairs m')"

definition cn_code :: "string \<Rightarrow> bool" where
  "cn_code c =
     (case split_on (CHR ''@'') c of
        [base, attribute] \<Rightarrow> attribute = ''cn'' \<and> starts_with base ''category-'' \<and>
          \<not> ends_with base ''-cn'' \<and> \<not> ends_with base ''-!cn''
      | _ \<Rightarrow> starts_with c ''category-'' \<and> ends_with c ''-cn'')"

definition merge_chinese :: "sites \<Rightarrow> sites" where
  "merge_chinese m =
     (let merged = unique_domains (coalesce (map_get ''geolocation-cn'' m) [] @
            concat (map (\<lambda>c. coalesce (map_get c m) []) (filter cn_code (map_keys m))))
      in if merged = [] then m
         else map_set ''cn'' (unique_domains (merged @ [\<lparr>gd_matcher = CSuffix, gd_value = ''.cn''\<rparr>]))
                (map_set ''geolocation-cn'' merged m))"

definition relevant :: "string \<Rightarrow> string list \<Rightarrow> bool" where
  "relevant c requested \<longleftrightarrow>
     c \<in> set requested \<or> list_ex (\<lambda>i. starts_with i (c @ ''@'')) requested \<or>
     (''cn'' \<in> set requested \<or> ''geolocation-cn'' \<in> set requested) \<and>
     (c = ''geolocation-cn'' \<or> starts_with c ''category-'')"

text \<open>The entries of the domains of a site: all of them, and those of each attribute.\<close>

fun add_attributes :: "geo_domain list \<Rightarrow> string list \<Rightarrow> sites \<Rightarrow> sites result" where
  "add_attributes entries [] m = Ok m"
| "add_attributes entries (a # as) m =
     bind_result (normalize_code a) (\<lambda>attribute.
       add_attributes entries as (map_set attribute (coalesce (map_get attribute m) [] @ entries) m))"

fun site_entries :: "parsed_domain list \<Rightarrow> geo_domain list \<Rightarrow> sites \<Rightarrow> (geo_domain list \<times> sites) result" where
  "site_entries [] all attributes = Ok (all, attributes)"
| "site_entries (p # ps) all attributes =
     bind_result (convert_domain p) (\<lambda>entries.
     bind_result (add_attributes entries (pd_attributes p) attributes) (\<lambda>attributes'.
       site_entries ps (all @ entries) attributes'))"

fun set_attributes :: "string \<Rightarrow> sites \<Rightarrow> sites \<Rightarrow> sites" where
  "set_attributes c [] m = m"
| "set_attributes c ((a, domains) # as) m =
     set_attributes c as (map_set (c @ ''@'' @ a) (unique_domains domains) m)"

definition add_site :: "string \<Rightarrow> parsed_domain list \<Rightarrow> sites \<Rightarrow> sites result" where
  "add_site c domains m =
     bind_result (site_entries domains [] []) (\<lambda>(all, attributes).
       Ok (set_attributes c attributes (map_set c (unique_domains all) m)))"

function read_sites :: "decoder \<Rightarrow> string list option \<Rightarrow> sites \<Rightarrow> byte list \<Rightarrow> sites result" where
  "read_sites dec requested m bs =
     (if bs = [] then Ok m
      else bind_result (tag bs) (\<lambda>(field, wire, rest).
        if field = 1 \<and> wire = 2
        then bind_result (bytes_field rest) (\<lambda>(message, rest').
             bind_result (parse_site_code dec [] [] message) (\<lambda>raw_code.
               if raw_code = [] then read_sites dec requested m rest'
               else bind_result (normalize_code raw_code) (\<lambda>c.
                 if (case requested of None \<Rightarrow> False | Some r \<Rightarrow> \<not> relevant c r) then read_sites dec requested m rest'
                 else bind_result (parse_site dec [] [] [] message) (\<lambda>(site_code, domains).
                   if site_code = [] then read_sites dec requested m rest'
                   else bind_result (add_site c domains m) (\<lambda>m'. read_sites dec requested m' rest')))))
        else bind_result (skip_field wire rest) (\<lambda>rest'. read_sites dec requested m rest')))"
  by pat_completeness auto
termination
  by (relation "measure (\<lambda>(dec, r, m, bs). length bs)") (auto dest!: reader_shorter)

declare read_sites.simps [simp del]

definition size_ok :: "byte list \<Rightarrow> bool" where
  "size_ok bs \<longleftrightarrow> 0 < length bs \<and> length bs \<le> maximum_database_size"

definition finish_sites :: "sites \<Rightarrow> sites result" where
  "finish_sites m =
     bind_result (filter_tags m) (\<lambda>m'. Ok (map (\<lambda>(c, ds). (c, compile_domains ds)) (merge_chinese m')))"

definition parse_database :: "decoder \<Rightarrow> byte list \<Rightarrow> string list option \<Rightarrow> sites result" where
  "parse_database dec bs requested_codes =
     (if \<not> size_ok bs then Err geo_error
      else bind_result (case requested_codes of
             None \<Rightarrow> Ok None
           | Some rs \<Rightarrow> bind_result (map_result normalize_code rs) (\<lambda>cs. Ok (Some (js_distinct cs)))) (\<lambda>requested.
           bind_result (read_sites dec requested [] bs) (\<lambda>m.
           bind_result (finish_sites m) (\<lambda>sites.
             (case requested of
                Some r \<Rightarrow> Ok (keep_keys (\<lambda>c. c \<in> set r) sites)
              | None \<Rightarrow> if sites = [] then Err geo_error else Ok sites)))))"

text \<open>\<open>geoSiteCodes\<close>: the codes alone.\<close>

fun attribute_codes :: "string \<Rightarrow> string list \<Rightarrow> string list result" where
  "attribute_codes c [] = Ok []"
| "attribute_codes c (a # as) =
     bind_result (normalize_code a) (\<lambda>a'. bind_result (attribute_codes c as) (\<lambda>cs. Ok ((c @ ''@'' @ a') # cs)))"

function read_codes :: "decoder \<Rightarrow> string list \<Rightarrow> byte list \<Rightarrow> string list result" where
  "read_codes dec codes bs =
     (if bs = [] then Ok codes
      else bind_result (tag bs) (\<lambda>(field, wire, rest).
        if \<not> (field = 1 \<and> wire = 2)
        then bind_result (skip_field wire rest) (\<lambda>rest'. read_codes dec codes rest')
        else bind_result (bytes_field rest) (\<lambda>(message, rest').
             bind_result (parse_site dec [] [] [] message) (\<lambda>(site_code, domains).
               if site_code = [] then read_codes dec codes rest'
               else bind_result (normalize_code site_code) (\<lambda>c.
                 bind_result (attribute_codes c (concat (map pd_attributes domains))) (\<lambda>cs.
                   read_codes dec (codes @ c # cs) rest'))))))"
  by pat_completeness auto
termination
  by (relation "measure (\<lambda>(dec, codes, bs). length bs)") (auto dest!: reader_shorter)

declare read_codes.simps [simp del]

text \<open>\<open>filterCodeTags\<close> keeps a code unless its tag is the category's own or inverse.\<close>

definition code_kept :: "string \<Rightarrow> bool" where
  "code_kept c =
     (case split_on (CHR ''@'') c of
        [base, attribute] \<Rightarrow> \<not> own_tag base attribute \<and> \<not> inverse_tag base attribute
      | _ \<Rightarrow> True)"

definition geo_site_codes :: "decoder \<Rightarrow> byte list \<Rightarrow> string list result" where
  "geo_site_codes dec bs =
     (if \<not> size_ok bs then Err geo_error
      else bind_result (read_codes dec [] bs) (\<lambda>cs.
        (let kept = filter code_kept (js_distinct cs);
             codes = (if ''geolocation-cn'' \<in> set kept \<and> ''cn'' \<notin> set kept then kept @ [''cn''] else kept)
         in if codes = [] then Err geo_error else Ok codes)))"

end
