(* ===== verification/Geosite_Roundtrip.thy ===== *)
theory Geosite_Roundtrip
  imports Geosite
begin

text \<open>
  The reader of the GeoSite format inverts a writer of it: integers, texts and whole sites.
\<close>

declare One_nat_def [simp del]

section \<open>Writing the format\<close>

fun encode_varint :: "nat \<Rightarrow> byte list" where
  "encode_varint n =
     (if n < 128 then [word_of_nat n] else word_of_nat (128 + n mod 128) # encode_varint (n div 128))"

declare encode_varint.simps [simp del]

definition encode_bytes :: "nat \<Rightarrow> byte list \<Rightarrow> byte list" where
  "encode_bytes field bs = encode_varint (field * 8 + 2) @ encode_varint (length bs) @ bs"

definition encode_number :: "nat \<Rightarrow> nat \<Rightarrow> byte list" where
  "encode_number field n = encode_varint (field * 8) @ encode_varint n"

definition encode_domain :: "(string \<Rightarrow> byte list) \<Rightarrow> parsed_domain \<Rightarrow> byte list" where
  "encode_domain enc p =
     encode_number 1 (pd_type p) @ encode_bytes 2 (enc (pd_value p)) @
     concat (map (\<lambda>a. encode_bytes 3 (encode_bytes 1 (enc a))) (pd_attributes p))"

definition encode_site :: "(string \<Rightarrow> byte list) \<Rightarrow> string \<Rightarrow> parsed_domain list \<Rightarrow> byte list" where
  "encode_site enc c ps =
     encode_bytes 1 (enc c) @ concat (map (\<lambda>p. encode_bytes 2 (encode_domain enc p)) ps)"

section \<open>Reading what was written\<close>

lemma low_bits: "unat ((word_of_nat n :: byte) AND 127) = n mod 128"
proof -
  have "(127 :: byte) = mask 7" by (simp add: mask_eq_exp_minus_1)
  then have "(word_of_nat n :: byte) AND 127 = take_bit 7 (word_of_nat n)" by (simp add: take_bit_eq_mask)
  then have "unat ((word_of_nat n :: byte) AND 127) = take_bit 7 (unat (word_of_nat n :: byte))" by (simp add: unsigned_take_bit_eq)
  also have "\<dots> = take_bit 7 n" by (simp add: unsigned_of_nat)
  finally show ?thesis by (simp add: take_bit_eq_mod)
qed

lemma high_bit: "n < 256 \<Longrightarrow> ((word_of_nat n :: byte) AND 128 = 0) \<longleftrightarrow> n < 128"
proof -
  assume n: "n < 256"
  have "(128 :: byte) = push_bit 7 1" by simp
  then have "((word_of_nat n :: byte) AND 128 = 0) \<longleftrightarrow> \<not> bit (word_of_nat n :: byte) 7"
    by (metis and_exp_eq_0_iff_not_bit push_bit_of_1)
  also have "\<dots> \<longleftrightarrow> \<not> bit (unat (word_of_nat n :: byte)) 7" by (simp add: bit_unsigned_iff)
  also have "\<dots> \<longleftrightarrow> \<not> bit n 7" using n by (simp add: unsigned_of_nat take_bit_eq_mod)
  also have "\<dots> \<longleftrightarrow> n < 128"
  proof (cases "n < 128")
    case False
    with n have "n div 128 = 1" by (intro div_nat_eqI) auto
    with False show ?thesis by (simp add: bit_iff_odd)
  qed (simp add: bit_iff_odd)
  finally show ?thesis .
qed

lemma encode_varint_length: "n < 128 ^ k \<Longrightarrow> 0 < k \<Longrightarrow> length (encode_varint n) \<le> k"
proof (induction k arbitrary: n)
  case (Suc k)
  show ?case
  proof (cases "n < 128")
    case True then show ?thesis by (subst encode_varint.simps) simp
  next
    case False
    with Suc.prems have "n div 128 < 128 ^ k" "0 < k" by (auto simp: div_less_iff_less_mult mult.commute intro: gr0I)
    from Suc.IH [OF this] False show ?thesis by (subst encode_varint.simps) simp
  qed
qed simp

lemma varint_from_encode:
  "n < 128 ^ k \<Longrightarrow> 0 < k \<Longrightarrow> r + n * m \<le> max_safe \<Longrightarrow> varint_from k r m (encode_varint n @ rest) = Ok (r + n * m, rest)"
proof (induction k arbitrary: n r m)
  case (Suc k)
  show ?case
  proof (cases "n < 128")
    case True
    with Suc.prems show ?thesis by (subst encode_varint.simps) (simp add: Let_def low_bits high_bit)
  next
    case False
    let ?b = "word_of_nat (128 + n mod 128) :: byte"
    have low: "unat (?b AND 127) = n mod 128" by (simp add: low_bits del: of_nat_add of_nat_numeral)
    have high: "?b AND 128 \<noteq> 0" using high_bit [of "128 + n mod 128"] by (simp del: of_nat_add of_nat_numeral)
    from Suc.prems False have k: "n div 128 < 128 ^ k" "0 < k" by (auto simp: div_less_iff_less_mult mult.commute intro: gr0I)
    have total: "r + n mod 128 * m + n div 128 * (m * 128) = r + n * m"
    proof -
      have "n * m = (n div 128 * 128 + n mod 128) * m" by simp
      also have "\<dots> = n div 128 * (m * 128) + n mod 128 * m" by (simp only: add_mult_distrib mult.assoc mult.commute [of m 128])
      finally show ?thesis by simp
    qed
    then have le: "r + n mod 128 * m \<le> max_safe" using Suc.prems(3) by linarith
    have "varint_from k (r + n mod 128 * m) (m * 128) (encode_varint (n div 128) @ rest) = Ok (r + n * m, rest)"
      using Suc.IH [OF k, of "r + n mod 128 * m" "m * 128"] total Suc.prems(3) by simp
    with False low high le show ?thesis
      by (subst encode_varint.simps) (simp add: Let_def del: of_nat_add of_nat_numeral)
  qed
qed simp

text \<open>
  Reading inverts writing: every integer the reader accepts, up to the largest safe
  one, is read back from its encoding, and the reader stops exactly behind it.
\<close>

theorem varint_encode:
  assumes "n \<le> max_safe"
  shows "varint (encode_varint n @ rest) = Ok (n, rest)"
proof -
  have "n < 128 ^ 10" using assms by (simp add: max_safe_def)
  from varint_from_encode [OF this, of 0 1] assms show ?thesis by (simp add: varint_def)
qed

lemma varint_encode_witness: "varint (encode_varint 300 @ [7]) = Ok (300, [7])"
  by (rule varint_encode) (simp add: max_safe_def)

lemma varint_written: "n \<le> max_safe \<Longrightarrow> varint (encode_varint n @ rest) = Ok (n, rest)"
  using varint_from_encode [of n 10 0 1 rest] by (simp add: varint_def max_safe_def)

lemma encode_varint_not_Nil [simp]: "encode_varint n \<noteq> []"
  by (subst encode_varint.simps) simp

lemma tag_written:
  assumes "w < 8" and "0 < f" and "f < 16"
  shows "tag (encode_varint (f * 8 + w) @ rest) = Ok (f, w, rest)"
proof -
  have "f * 8 + w \<le> max_safe" using assms by (simp add: max_safe_def)
  with varint_written assms(1,2) show ?thesis by (simp add: tag_def div_mult_self3 mult.commute)
qed

lemma bytes_field_written:
  "length m \<le> max_safe \<Longrightarrow> bytes_field (encode_varint (length m) @ m @ rest) = Ok (m, rest)"
  by (simp add: bytes_field_def varint_written advance_def)

lemma string_field_written:
  "length (enc s) \<le> max_safe \<Longrightarrow> dec (enc s) = Some s \<Longrightarrow>
     string_field dec (encode_varint (length (enc s)) @ enc s @ rest) = Ok (s, rest)"
  by (simp add: string_field_def bytes_field_written)

text \<open>A decoder and an encoder of texts that fit, and lengths within the bound.\<close>

definition codec_ok :: "decoder \<Rightarrow> (string \<Rightarrow> byte list) \<Rightarrow> bool" where
  "codec_ok dec enc \<longleftrightarrow> (\<forall>s. dec (enc s) = Some s)"

lemma encode_bytes_length: "length bs \<le> length (encode_bytes f bs)"
  by (simp add: encode_bytes_def)

lemma parse_attribute_written:
  assumes "codec_ok dec enc" and "length (enc a) \<le> max_safe"
  shows "parse_attribute dec key (encode_bytes 1 (enc a)) = Ok a"
proof -
  have "parse_attribute dec a [] = Ok a" by (simp add: parse_attribute.simps)
  moreover have "tag (encode_varint (1 * 8 + 2) @ encode_varint (length (enc a)) @ enc a) = Ok (1, 2, encode_varint (length (enc a)) @ enc a)"
    by (rule tag_written) simp_all
  moreover have "string_field dec (encode_varint (length (enc a)) @ enc a) = Ok (a, [])"
    using string_field_written [of enc a dec "[]"] assms by (simp add: codec_ok_def)
  ultimately show ?thesis
    unfolding encode_bytes_def by (subst parse_attribute.simps) (simp del: encode_varint.simps)
qed

lemma parse_domain_number:
  assumes "n \<le> max_safe"
  shows "parse_domain dec p (encode_number 1 n @ rest) = parse_domain dec (p\<lparr>pd_type := n\<rparr>) rest"
proof -
  have "tag (encode_varint (1 * 8 + 0) @ encode_varint n @ rest) = Ok (1, 0, encode_varint n @ rest)"
    by (rule tag_written) simp_all
  then show ?thesis
    unfolding encode_number_def by (subst parse_domain.simps) (simp add: varint_written [OF assms])
qed

lemma parse_domain_value:
  assumes "codec_ok dec enc" and "length (enc v) \<le> max_safe"
  shows "parse_domain dec p (encode_bytes 2 (enc v) @ rest) = parse_domain dec (p\<lparr>pd_value := v\<rparr>) rest"
proof -
  have "tag (encode_varint (2 * 8 + 2) @ encode_varint (length (enc v)) @ enc v @ rest) =
      Ok (2, 2, encode_varint (length (enc v)) @ enc v @ rest)"
    by (rule tag_written) simp_all
  with string_field_written [of enc v dec rest] assms show ?thesis
    unfolding encode_bytes_def by (subst parse_domain.simps) (simp add: codec_ok_def)
qed

lemma parse_domain_attribute:
  assumes "codec_ok dec enc" and "length (encode_bytes 1 (enc a)) \<le> max_safe" and "a \<noteq> []"
  shows "parse_domain dec p (encode_bytes 3 (encode_bytes 1 (enc a)) @ rest) =
         parse_domain dec (p\<lparr>pd_attributes := pd_attributes p @ [a]\<rparr>) rest"
proof -
  let ?m = "encode_bytes 1 (enc a)"
  have "tag (encode_varint (3 * 8 + 2) @ encode_varint (length ?m) @ ?m @ rest) = Ok (3, 2, encode_varint (length ?m) @ ?m @ rest)"
    by (rule tag_written) simp_all
  moreover have "length (enc a) \<le> max_safe" using assms(2) encode_bytes_length [of "enc a" 1] by linarith
  ultimately show ?thesis
    unfolding encode_bytes_def [of 3]
    by (subst parse_domain.simps) (simp add: bytes_field_written [OF assms(2)] parse_attribute_written [OF assms(1)] assms(3))
qed

lemma parse_domain_attributes:
  assumes "codec_ok dec enc"
  shows "\<forall>a\<in>set as. a \<noteq> [] \<and> length (encode_bytes 1 (enc a)) \<le> max_safe \<Longrightarrow>
     parse_domain dec p (concat (map (\<lambda>a. encode_bytes 3 (encode_bytes 1 (enc a))) as)) =
     Ok (p\<lparr>pd_attributes := pd_attributes p @ as\<rparr>)"
proof (induction as arbitrary: p)
  case Nil
  then show ?case by (simp add: parse_domain.simps)
next
  case (Cons a as)
  then show ?case by (simp add: parse_domain_attribute [OF assms])
qed

text \<open>What fits into a file: no attribute is empty, and lengths and types are safe integers.\<close>

definition domain_fits :: "(string \<Rightarrow> byte list) \<Rightarrow> parsed_domain \<Rightarrow> bool" where
  "domain_fits enc p \<longleftrightarrow> pd_type p \<le> max_safe \<and> length (encode_domain enc p) \<le> max_safe \<and> [] \<notin> set (pd_attributes p)"

lemma concat_length: "x \<in> set xs \<Longrightarrow> length (f x) \<le> length (concat (map f xs))"
  by (induction xs) auto

lemma parse_domain_written:
  assumes dec: "codec_ok dec enc" and p: "domain_fits enc p"
  shows "parse_domain dec empty_domain (encode_domain enc p) = Ok p"
proof -
  have len: "length (encode_domain enc p) \<le> max_safe" and ty: "pd_type p \<le> max_safe" and ne: "[] \<notin> set (pd_attributes p)"
    using p by (auto simp: domain_fits_def)
  have "length (enc (pd_value p)) \<le> length (encode_domain enc p)"
    using encode_bytes_length [of "enc (pd_value p)" 2] by (simp add: encode_domain_def)
  with len have v: "length (enc (pd_value p)) \<le> max_safe" by linarith
  have "length (encode_bytes 1 (enc a)) \<le> max_safe" if "a \<in> set (pd_attributes p)" for a
    using concat_length [OF that, of "\<lambda>a. encode_bytes 3 (encode_bytes 1 (enc a))"]
      encode_bytes_length [of "encode_bytes 1 (enc a)" 3] len unfolding encode_domain_def length_append by linarith
  with ne have "\<forall>a\<in>set (pd_attributes p). a \<noteq> [] \<and> length (encode_bytes 1 (enc a)) \<le> max_safe" by auto
  from parse_domain_attributes [OF dec this] show ?thesis
    unfolding encode_domain_def by (simp add: parse_domain_number [OF ty] parse_domain_value [OF dec v] empty_domain_def)
qed

lemma parse_site_domains:
  assumes dec: "codec_ok dec enc" and fits: "\<forall>p\<in>set ps. domain_fits enc p"
  shows "parse_site dec country c ds (concat (map (\<lambda>p. encode_bytes 2 (encode_domain enc p)) ps)) = Ok (either_code country c, ds @ ps)"
  using fits
proof (induction ps arbitrary: ds)
  case Nil
  then show ?case by (simp add: parse_site.simps)
next
  case (Cons p ps)
  let ?m = "encode_domain enc p" and ?rest = "concat (map (\<lambda>p. encode_bytes 2 (encode_domain enc p)) ps)"
  have "tag (encode_varint (2 * 8 + 2) @ encode_varint (length ?m) @ ?m @ ?rest) = Ok (2, 2, encode_varint (length ?m) @ ?m @ ?rest)"
    by (rule tag_written) simp_all
  moreover have "length ?m \<le> max_safe" using Cons.prems by (simp add: domain_fits_def)
  moreover have "parse_domain dec empty_domain ?m = Ok p" using parse_domain_written [OF dec] Cons.prems by simp
  moreover have "parse_site dec country c (ds @ [p]) ?rest = Ok (either_code country c, ds @ p # ps)"
    using Cons.IH [of "ds @ [p]"] Cons.prems by simp
  ultimately show ?case
    by (simp add: encode_bytes_def) (subst parse_site.simps, simp add: bytes_field_written)
qed

definition ascii_encode :: "string \<Rightarrow> byte list" where
  "ascii_encode = map (\<lambda>c. word_of_nat (code c))"

definition ascii_decode :: "byte list \<Rightarrow> string option" where
  "ascii_decode bs = Some (map (\<lambda>b. char_of (unat b)) bs)"

lemma ascii_codec [simp]: "codec_ok ascii_decode ascii_encode"
  by (simp add: codec_ok_def ascii_decode_def ascii_encode_def comp_def unsigned_of_nat take_bit_eq_mod)

definition sample_domain :: parsed_domain where
  "sample_domain = \<lparr>pd_type = 2, pd_value = ''a.b'', pd_attributes = [''ads'']\<rparr>"

lemma encode_varint_small: "n < 128 \<Longrightarrow> encode_varint n = [word_of_nat n]"
  by (subst encode_varint.simps) simp

lemma sample_domain_fits: "domain_fits ascii_encode sample_domain"
proof -
  have "length (encode_domain ascii_encode sample_domain) = 14"
    by (simp add: encode_domain_def encode_number_def encode_bytes_def encode_varint_small ascii_encode_def sample_domain_def)
  then show ?thesis by (simp add: domain_fits_def sample_domain_def max_safe_def)
qed

lemma ascii_length [simp]: "length (ascii_encode s) = length s"
  by (simp add: ascii_encode_def)

section \<open>Whole databases\<close>

type_synonym written_site = "string \<times> parsed_domain list"

definition encode_database :: "(string \<Rightarrow> byte list) \<Rightarrow> written_site list \<Rightarrow> byte list" where
  "encode_database enc xs = concat (map (\<lambda>(c, ps). encode_bytes 1 (encode_site enc c ps)) xs)"

definition site_fits :: "(string \<Rightarrow> byte list) \<Rightarrow> written_site \<Rightarrow> bool" where
  "site_fits enc x \<longleftrightarrow> fst x \<noteq> [] \<and> length (encode_site enc (fst x) (snd x)) \<le> max_safe \<and> (\<forall>p\<in>set (snd x). domain_fits enc p)"

lemma parse_site_fits:
  assumes "codec_ok dec enc" and "site_fits enc (c, ps)"
  shows "parse_site dec [] [] [] (encode_site enc c ps) = Ok (c, ps)"
proof -
  have "length (enc c) \<le> length (encode_site enc c ps)"
    using encode_bytes_length [of "enc c" 1] by (simp add: encode_site_def)
  with assms have c: "c \<noteq> []" "length (enc c) \<le> max_safe" "\<forall>p\<in>set ps. domain_fits enc p" by (auto simp: site_fits_def)
  let ?rest = "concat (map (\<lambda>p. encode_bytes 2 (encode_domain enc p)) ps)"
  have "tag (encode_varint (1 * 8 + 2) @ encode_varint (length (enc c)) @ enc c @ ?rest) =
      Ok (1, 2, encode_varint (length (enc c)) @ enc c @ ?rest)"
    by (rule tag_written) simp_all
  with string_field_written [of enc c dec ?rest, OF c(2)] parse_site_domains [OF assms(1) c(3), of c "[]" "[]"] assms(1) c(1)
  show ?thesis
    unfolding encode_site_def encode_bytes_def [of 1]
    by (subst parse_site.simps) (simp add: codec_ok_def either_code_def)
qed

text \<open>
  C18.  A site is read back from the bytes of its message: its code, and its domains with
  their types, values and attributes, in order.
\<close>

theorem parse_site_encode:
  assumes "codec_ok dec enc" and "site_fits enc (c, ps)"
  shows "parse_site dec [] [] [] (encode_site enc c ps) = Ok (c, ps)"
  by (rule parse_site_fits [OF assms])

lemma sample_site_fits: "site_fits ascii_encode (''x'', [sample_domain])"
proof -
  have "length (encode_site ascii_encode ''x'' [sample_domain]) = 19"
    by (simp add: encode_site_def encode_domain_def encode_number_def encode_bytes_def encode_varint_small sample_domain_def)
  then show ?thesis by (simp add: site_fits_def sample_domain_fits max_safe_def)
qed

lemma parse_site_encode_witness:
  "parse_site ascii_decode [] [] [] (encode_site ascii_encode ''x'' [sample_domain]) = Ok (''x'', [sample_domain])"
  by (rule parse_site_encode [OF ascii_codec sample_site_fits])

text \<open>What a full read makes of a written database.\<close>

fun add_sites :: "written_site list \<Rightarrow> sites \<Rightarrow> sites result" where
  "add_sites [] m = Ok m"
| "add_sites ((c, ps) # xs) m =
     bind_result (normalize_code c) (\<lambda>c'. bind_result (add_site c' ps m) (add_sites xs))"

lemma parse_site_code_agrees:
  "parse_site dec country c ds bs = Ok (x, ds') \<Longrightarrow> parse_site_code dec country c bs = Ok x"
proof (induction dec country c ds bs rule: parse_site.induct)
  case (1 dec country c ds bs)
  show ?case
  proof (cases "bs = []")
    case True
    with "1.prems" show ?thesis by (simp add: parse_site.simps parse_site_code.simps)
  next
    case False
    with "1.prems" obtain field wire rest where t: "tag bs = Ok (field, wire, rest)"
      by (subst (asm) parse_site.simps) auto
    note step = "1.prems" [unfolded parse_site.simps [of dec country c ds bs], simplified False t, simplified]
    consider "field = 1 \<and> wire = 2" | "field = 2 \<and> wire = 2" | "field = 4 \<and> wire = 2"
      | "\<not> (field = 1 \<and> wire = 2) \<and> \<not> (field = 2 \<and> wire = 2) \<and> \<not> (field = 4 \<and> wire = 2)" by blast
    then show ?thesis
    proof cases
      case 1
      with step obtain s rest' where "string_field dec rest = Ok (s, rest')" "parse_site dec s c ds rest' = Ok (x, ds')" by auto
      with "1.IH"(1) [OF False t refl refl 1] 1 False t show ?thesis by (subst parse_site_code.simps) simp
    next
      case 2
      with step obtain m rest' p where m: "bytes_field rest = Ok (m, rest')" "parse_domain dec empty_domain m = Ok p"
        "parse_site dec country c (ds @ [p]) rest' = Ok (x, ds')" by auto
      have "skip_field 2 rest = Ok rest'"
        using m(1) by (auto simp: bytes_field_def skip_field_def)
      with "1.IH"(2) [OF False t refl refl _ 2 m(1) refl m(2,3)] 2 False t show ?thesis by (subst parse_site_code.simps) simp
    next
      case 3
      with step obtain s rest' where "string_field dec rest = Ok (s, rest')" "parse_site dec country s ds rest' = Ok (x, ds')" by auto
      with "1.IH"(3) [OF False t refl refl _ _ 3] 3 False t show ?thesis by (subst parse_site_code.simps) simp
    next
      case 4
      with step obtain rest' where "skip_field wire rest = Ok rest'" "parse_site dec country c ds rest' = Ok (x, ds')" by auto
      with "1.IH"(4) [OF False t refl refl] 4 False t show ?thesis by (subst parse_site_code.simps) auto
    qed
  qed
qed

text \<open>The first step of a read of a written database.\<close>

lemma written_site:
  assumes dec: "codec_ok dec enc" and fits: "site_fits enc (c, ps)"
  obtains tail where "encode_database enc ((c, ps) # xs) \<noteq> []"
    "tag (encode_database enc ((c, ps) # xs)) = Ok (1, 2, tail)"
    "bytes_field tail = Ok (encode_site enc c ps, encode_database enc xs)"
    "parse_site dec [] [] [] (encode_site enc c ps) = Ok (c, ps)"
    "parse_site_code dec [] [] (encode_site enc c ps) = Ok c" "c \<noteq> []"
proof -
  let ?m = "encode_site enc c ps" and ?rest = "encode_database enc xs"
  let ?tail = "encode_varint (length ?m) @ ?m @ ?rest"
  have len: "length ?m \<le> max_safe" and c: "c \<noteq> []" using fits by (auto simp: site_fits_def)
  have db: "encode_database enc ((c, ps) # xs) = encode_varint (1 * 8 + 2) @ ?tail"
    by (simp add: encode_database_def encode_bytes_def)
  have "tag (encode_database enc ((c, ps) # xs)) = Ok (1, 2, ?tail)" unfolding db by (rule tag_written) simp_all
  moreover have "encode_database enc ((c, ps) # xs) \<noteq> []" by (simp add: db)
  moreover note site = parse_site_fits [OF dec fits]
  ultimately show ?thesis
    using that [of ?tail] bytes_field_written [OF len, of ?rest] parse_site_code_agrees [OF site] c by blast
qed

lemma read_sites_written:
  assumes dec: "codec_ok dec enc" and "\<forall>x\<in>set xs. site_fits enc x"
  shows "read_sites dec None m (encode_database enc xs) = add_sites xs m"
  using assms(2)
proof (induction xs arbitrary: m)
  case Nil
  then show ?case by (simp add: encode_database_def read_sites.simps)
next
  case (Cons x xs)
  obtain c ps where x: "x = (c, ps)" by (cases x)
  from Cons.prems x have "site_fits enc (c, ps)" by simp
  with dec obtain tail where step: "encode_database enc ((c, ps) # xs) \<noteq> []"
    "tag (encode_database enc ((c, ps) # xs)) = Ok (1, 2, tail)"
    "bytes_field tail = Ok (encode_site enc c ps, encode_database enc xs)"
    "parse_site dec [] [] [] (encode_site enc c ps) = Ok (c, ps)"
    "parse_site_code dec [] [] (encode_site enc c ps) = Ok c" "c \<noteq> []" by (rule written_site)
  have "\<forall>x\<in>set xs. site_fits enc x" using Cons.prems by simp
  note IH = Cons.IH [OF this]
  show ?case unfolding x by (subst read_sites.simps) (simp add: step IH)
qed

end
