(* ===== verification/Geosite_Selection.thy ===== *)
theory Geosite_Selection
  imports Geosite_Roundtrip
begin

text \<open>
  A selective parse of the GeoSite database is the restriction of the full parse, and the
  codes listed without parsing the domains are the categories the full parse makes.
\<close>

abbreviation "at_sign \<equiv> CHR ''@''"

definition site_of :: "string \<Rightarrow> string" where
  "site_of c = takeWhile (\<lambda>x. x \<noteq> at_sign) c"

definition plain :: "string \<Rightarrow> bool" where
  "plain c \<longleftrightarrow> at_sign \<notin> set c"

lemma site_of_plain [simp]: "plain c \<Longrightarrow> site_of c = c"
  by (simp add: site_of_def plain_def takeWhile_eq_all_conv) metis

lemma site_of_attribute [simp]: "plain c \<Longrightarrow> site_of (c @ at_sign # a) = c"
  unfolding site_of_def plain_def by (subst takeWhile_append2) auto

lemma split_two:
  assumes "split_on at_sign c = [b, a]"
  shows "c = b @ at_sign # a" "plain b" "plain a" "site_of c = b" "site_of b = b"
proof -
  have "join_with [at_sign] [b, a] = c" using join_split [of at_sign c] assms by simp
  then show eq: "c = b @ at_sign # a" by simp
  have "b \<in> set (split_on at_sign c)" "a \<in> set (split_on at_sign c)" using assms by simp_all
  then show b: "plain b" and "plain a" using split_on_parts by (auto simp: plain_def)
  show "site_of c = b" using b by (simp add: eq)
  show "site_of b = b" using b by simp
qed

section \<open>The passes commute with a restriction to some sites\<close>

text \<open>A restriction keeps or drops a site with all its attributes.\<close>

definition site_pred :: "(string \<Rightarrow> bool) \<Rightarrow> string \<Rightarrow> bool" where
  "site_pred Q c \<longleftrightarrow> Q (site_of c)"

lemma site_pred_site [simp]:
  "plain c \<Longrightarrow> site_pred Q c = Q c" "plain c \<Longrightarrow> site_pred Q (c @ at_sign # a) = Q c"
  by (simp_all add: site_pred_def)

lemma tag_pass_cases:
  obtains (own) b a where "split_on at_sign c = [b, a]" "\<And>cs m. tag_pass (c # cs) m = tag_pass cs (map_delete c m)"
  | (inverse) b a where "split_on at_sign c = [b, a]" "inverse_tag b a"
      "\<And>cs m. tag_pass (c # cs) m = (fst (tag_pass cs m), (b, c) # snd (tag_pass cs m))"
  | (other) "\<And>cs m. tag_pass (c # cs) m = tag_pass cs m"
proof (cases "\<exists>b a. split_on at_sign c = [b, a]")
  case True
  then obtain b a where split: "split_on at_sign c = [b, a]" by blast
  show ?thesis
  proof (cases "own_tag b a")
    case True with split show ?thesis by (intro own) simp_all
  next
    case not_own: False
    show ?thesis
    proof (cases "inverse_tag b a")
      case True with split not_own show ?thesis by (intro inverse) (simp_all add: split_beta)
    next
      case False with split not_own show ?thesis by (intro other) simp
    qed
  qed
next
  case False
  then show ?thesis by (intro other) (auto split: list.splits)
qed

lemma tag_pass_pairs:
  "(b, c) \<in> set (snd (tag_pass cs m)) \<Longrightarrow> c \<in> set cs \<and> (\<exists>a. split_on at_sign c = [b, a] \<and> inverse_tag b a)"
proof (induction cs arbitrary: m)
  case (Cons x cs)
  show ?case by (cases rule: tag_pass_cases [of x]) (use Cons in auto)
qed simp

text \<open>Pairs name a site and one of its attributes, so a restriction keeps both or neither.\<close>

lemma tag_pass_restrict:
  "tag_pass (filter (site_pred Q) cs) (keep_keys (site_pred Q) m) =
     (keep_keys (site_pred Q) (fst (tag_pass cs m)), filter (\<lambda>(b, c). site_pred Q c) (snd (tag_pass cs m)))"
proof (induction cs arbitrary: m)
  case (Cons x cs)
  show ?case
  proof (cases rule: tag_pass_cases [of x])
    case (own b a)
    show ?thesis
    proof (cases "site_pred Q x")
      case True
      with own Cons [of "map_delete x m"] show ?thesis by (simp add: keep_delete)
    next
      case False
      have "keep_keys (site_pred Q) (map_delete x m) = keep_keys (site_pred Q) m"
        unfolding keep_delete by (rule delete_absent) (simp add: False)
      with own False Cons [of "map_delete x m"] show ?thesis by simp
    qed
  qed (use Cons [of m] in simp_all)
qed simp

lemma exclude_pass_restrict:
  assumes "exclude_pass pairs m = Ok m'" and "\<forall>(b, c)\<in>set pairs. \<exists>a. split_on at_sign c = [b, a]"
  shows "exclude_pass (filter (\<lambda>(b, c). site_pred Q c) pairs) (keep_keys (site_pred Q) m) = Ok (keep_keys (site_pred Q) m')"
  using assms
proof (induction pairs arbitrary: m)
  case (Cons p pairs)
  obtain b c where p: "p = (b, c)" by (cases p)
  from Cons.prems(2) p obtain a where "split_on at_sign c = [b, a]" by auto
  note same = split_two(4,5) [OF this]
  from Cons.prems(1) p obtain blocked where blocked: "map_get c m = Some blocked"
    and rest: "exclude_pass pairs (map_delete c (map_set b (filter (\<lambda>g. g \<notin> set blocked) (coalesce (map_get b m) [])) m)) = Ok m'"
    by (auto split: option.splits)
  from Cons.prems(2) have "\<forall>(b, c)\<in>set pairs. \<exists>a. split_on at_sign c = [b, a]" by simp
  note IH = Cons.IH [OF rest this]
  show ?case
  proof (cases "site_pred Q c")
    case True
    then have "site_pred Q b" by (simp add: site_pred_def same)
    with True IH p blocked show ?thesis by (simp add: keep_delete keep_set)
  next
    case False
    then have b: "\<not> site_pred Q b" by (simp add: site_pred_def same)
    have "map_delete c (keep_keys (site_pred Q) m) = keep_keys (site_pred Q) m" by (rule delete_absent) (simp add: False)
    with IH False b p show ?thesis by (simp add: keep_delete keep_set)
  qed
qed simp

lemma filter_tags_restrict:
  assumes "filter_tags m = Ok m'"
  shows "filter_tags (keep_keys (site_pred Q) m) = Ok (keep_keys (site_pred Q) m')"
proof -
  let ?t = "tag_pass (map_keys m) m"
  from assms have ex: "exclude_pass (snd ?t) (fst ?t) = Ok m'" by (simp add: filter_tags_def split_beta)
  have "\<forall>(b, c)\<in>set (snd ?t). \<exists>a. split_on at_sign c = [b, a]" using tag_pass_pairs by fast
  from exclude_pass_restrict [OF ex this, of Q] show ?thesis
    by (simp add: filter_tags_def map_keys_keep tag_pass_restrict)
qed

section \<open>Merging and compiling\<close>

abbreviation requested_site :: "string list \<Rightarrow> string \<Rightarrow> bool" where
  "requested_site r \<equiv> site_pred (\<lambda>c. relevant c r)"

lemma starts_with_takeWhile: "starts_with c p \<Longrightarrow> (\<And>x. x \<in> set p \<Longrightarrow> P x) \<Longrightarrow> starts_with (takeWhile P c) p"
  by (induction c p rule: starts_with.induct) auto

lemma starts_with_refl_append: "starts_with (p @ s) p"
  by (simp add: starts_with_iff)

lemma requested_relevant: "c \<in> set r \<Longrightarrow> requested_site r c"
proof -
  assume c: "c \<in> set r"
  show ?thesis
  proof (cases "plain c")
    case True with c show ?thesis by (simp add: site_pred_def relevant_def)
  next
    case False
    let ?rest = "dropWhile (\<lambda>x. x \<noteq> at_sign) c"
    have split: "c = site_of c @ ?rest" by (simp add: site_of_def)
    from False have "?rest \<noteq> []" by (auto simp: plain_def dropWhile_eq_Nil_conv)
    moreover from this have "hd ?rest = at_sign" using hd_dropWhile [of "\<lambda>x. x \<noteq> at_sign" c] by blast
    ultimately have "c = site_of c @ at_sign # tl ?rest" using split by (metis list.collapse)
    then have "starts_with c (site_of c @ [at_sign])" by (metis append.assoc append_Cons append_Nil starts_with_refl_append)
    with c show ?thesis unfolding site_pred_def relevant_def list_ex_iff by blast
  qed
qed

lemma category_site: "starts_with c ''category-'' \<Longrightarrow> starts_with (site_of c) ''category-''"
  unfolding site_of_def by (rule starts_with_takeWhile) auto

lemma cn_code_category: "cn_code c \<Longrightarrow> starts_with (site_of c) ''category-''"
proof (cases "\<exists>b a. split_on at_sign c = [b, a]")
  case True
  then obtain b a where "split_on at_sign c = [b, a]" by blast
  with split_two(4) [OF this] show "cn_code c \<Longrightarrow> ?thesis" by (simp add: cn_code_def)
next
  case False
  then have "cn_code c = (starts_with c ''category-'' \<and> ends_with c ''-cn'')"
    unfolding cn_code_def by (auto split: list.splits)
  then show "cn_code c \<Longrightarrow> ?thesis" using category_site by blast
qed

definition merged_cn :: "sites \<Rightarrow> geo_domain list" where
  "merged_cn m = unique_domains (coalesce (map_get ''geolocation-cn'' m) [] @
     concat (map (\<lambda>c. coalesce (map_get c m) []) (filter cn_code (map_keys m))))"

lemma merge_chinese_alt:
  "merge_chinese m =
     (if merged_cn m = [] then m
      else map_set ''cn'' (unique_domains (merged_cn m @ [\<lparr>gd_matcher = CSuffix, gd_value = ''.cn''\<rparr>]))
             (map_set ''geolocation-cn'' (merged_cn m) m))"
  unfolding merge_chinese_def merged_cn_def Let_def by (rule refl)

lemma merged_cn_restrict:
  assumes "''cn'' \<in> set r \<or> ''geolocation-cn'' \<in> set r"
  shows "merged_cn (keep_keys (requested_site r) m) = merged_cn m"
proof -
  have geo: "requested_site r ''geolocation-cn''" using assms by (auto simp: site_pred_def site_of_def relevant_def)
  have cn: "requested_site r c" if "cn_code c" for c
    using cn_code_category [OF that] assms by (auto simp: site_pred_def relevant_def)
  then have f: "filter cn_code (filter (requested_site r) (map_keys m)) = filter cn_code (map_keys m)"
    unfolding filter_filter by (intro filter_cong) auto
  have g: "map (\<lambda>c. coalesce (map_get c (keep_keys (requested_site r) m)) []) (filter cn_code (map_keys m)) =
      map (\<lambda>c. coalesce (map_get c m) []) (filter cn_code (map_keys m))"
    by (rule map_cong) (use cn in auto)
  show ?thesis unfolding merged_cn_def map_keys_keep f g by (simp only: map_get_keep geo if_True)
qed

lemma merge_chinese_restrict:
  "keep_keys (\<lambda>c. c \<in> set r) (merge_chinese (keep_keys (requested_site r) m)) = keep_keys (\<lambda>c. c \<in> set r) (merge_chinese m)"
proof -
  have sub: "keep_keys (\<lambda>c. c \<in> set r) (keep_keys (requested_site r) m) = keep_keys (\<lambda>c. c \<in> set r) m"
    unfolding keep_keep by (rule arg_cong [where f = "\<lambda>P. keep_keys P m"]) (use requested_relevant in blast)
  show ?thesis
  proof (cases "''cn'' \<in> set r \<or> ''geolocation-cn'' \<in> set r")
    case True
    then show ?thesis unfolding merge_chinese_alt by (simp add: merged_cn_restrict [OF True] keep_set sub)
  next
    case False
    then show ?thesis by (simp add: merge_chinese_alt keep_set sub)
  qed
qed

lemma finish_sites_restrict:
  assumes "finish_sites m = Ok sites"
  shows "\<exists>sites'. finish_sites (keep_keys (requested_site r) m) = Ok sites' \<and>
     keep_keys (\<lambda>c. c \<in> set r) sites' = keep_keys (\<lambda>c. c \<in> set r) sites"
proof -
  from assms obtain m' where tags: "filter_tags m = Ok m'" and sites: "sites = map (\<lambda>(c, ds). (c, compile_domains ds)) (merge_chinese m')"
    by (auto simp: finish_sites_def)
  from filter_tags_restrict [OF tags] show ?thesis
    by (simp add: finish_sites_def sites keep_map merge_chinese_restrict)
qed

section \<open>Reading the sites\<close>

text \<open>The codes of the sites of a database, as they are written in it.\<close>

function site_codes :: "decoder \<Rightarrow> byte list \<Rightarrow> string list result" where
  "site_codes dec bs =
     (if bs = [] then Ok []
      else bind_result (tag bs) (\<lambda>(field, wire, rest).
        if field = 1 \<and> wire = 2
        then bind_result (bytes_field rest) (\<lambda>(message, rest').
             bind_result (parse_site_code dec [] [] message) (\<lambda>raw_code.
               if raw_code = [] then site_codes dec rest'
               else bind_result (normalize_code raw_code) (\<lambda>c.
                 bind_result (site_codes dec rest') (\<lambda>cs. Ok (c # cs)))))
        else bind_result (skip_field wire rest) (\<lambda>rest'. site_codes dec rest')))"
  by pat_completeness auto
termination
  by (relation "measure (\<lambda>(dec, bs). length bs)") (auto dest!: reader_shorter)

declare site_codes.simps [simp del]

lemma set_attributes_restrict:
  assumes "plain c"
  shows "keep_keys (site_pred Q) (set_attributes c as m) =
     (if Q c then set_attributes c as (keep_keys (site_pred Q) m) else keep_keys (site_pred Q) m)"
  using assms
proof (induction as arbitrary: m)
  case (Cons p as)
  then show ?case by (cases p) (simp add: keep_set)
qed simp

lemma add_site_restrict:
  assumes "plain c" and "add_site c domains m = Ok m'"
  shows "if Q c then add_site c domains (keep_keys (site_pred Q) m) = Ok (keep_keys (site_pred Q) m')
         else keep_keys (site_pred Q) m' = keep_keys (site_pred Q) m"
proof -
  from assms(2) obtain all attributes where "site_entries domains [] [] = Ok (all, attributes)"
    and "m' = set_attributes c attributes (map_set c (unique_domains all) m)"
    by (auto simp: add_site_def)
  with assms(1) show ?thesis
    by (simp add: add_site_def set_attributes_restrict keep_set)
qed

lemma read_sites_restrict:
  "read_sites dec None m bs = Ok m' \<Longrightarrow> site_codes dec bs = Ok cs \<Longrightarrow> \<forall>c\<in>set cs. plain c \<Longrightarrow>
     read_sites dec (Some r) (keep_keys (requested_site r) m) bs = Ok (keep_keys (requested_site r) m')"
proof (induction bs arbitrary: m cs rule: length_induct)
  case (1 bs)
  show ?case
  proof (cases "bs = []")
    case True
    with "1.prems"(1) show ?thesis by (simp add: read_sites.simps)
  next
    case False
    note read = "1.prems"(1) [unfolded read_sites.simps [of dec None m bs]]
    note codes = "1.prems"(2) [unfolded site_codes.simps [of dec bs]]
    from read False obtain field wire rest where t: "tag bs = Ok (field, wire, rest)" by auto
    show ?thesis
    proof (cases "field = 1 \<and> wire = 2")
      case site: True
      from read False t site obtain message rest' raw where
        msg: "bytes_field rest = Ok (message, rest')" "parse_site_code dec [] [] message = Ok raw" by auto
      have shorter: "length rest' < length bs" using tag_shorter [OF t] bytes_field_shorter [OF msg(1)] by linarith
      show ?thesis
      proof (cases "raw = []")
        case True
        with read codes False t site msg have "read_sites dec None m rest' = Ok m'" "site_codes dec rest' = Ok cs" by auto
        with "1.IH" shorter "1.prems"(3) True False t site msg show ?thesis by (subst read_sites.simps) simp
      next
        case raw: False
        with read codes False t site msg obtain c cs' name domains where
          c: "normalize_code raw = Ok c" "site_codes dec rest' = Ok cs'" "cs = c # cs'"
          and site': "parse_site dec [] [] [] message = Ok (name, domains)" by auto
        from parse_site_code_agrees [OF site'] msg(2) have name: "name = raw" by simp
        from read False t site msg raw c site' name obtain m1 where
          m1: "add_site c domains m = Ok m1" "read_sites dec None m1 rest' = Ok m'" by auto
        have plain: "plain c" "\<forall>c\<in>set cs'. plain c" using "1.prems"(3) c(3) by simp_all
        from "1.IH" shorter m1(2) c(2) plain(2)
        have IH: "read_sites dec (Some r) (keep_keys (requested_site r) m1) rest' = Ok (keep_keys (requested_site r) m')" by blast
        note restrict = add_site_restrict [OF plain(1) m1(1), of "\<lambda>c. relevant c r"]
        show ?thesis
          by (subst read_sites.simps) (use False t site msg raw c(1) site' name IH restrict in \<open>auto split: if_splits\<close>)
      qed
    next
      case other: False
      with read codes False t obtain rest' where
        skip: "skip_field wire rest = Ok rest'" "read_sites dec None m rest' = Ok m'" "site_codes dec rest' = Ok cs" by auto
      have "length rest' < length bs" using tag_shorter [OF t] skip_field_shorter [OF skip(1)] by linarith
      with "1.IH" skip(2,3) "1.prems"(3)
      have "read_sites dec (Some r) (keep_keys (requested_site r) m) rest' = Ok (keep_keys (requested_site r) m')" by blast
      with False t other skip(1) show ?thesis by (subst read_sites.simps) auto
    qed
  qed
qed


definition sample_sites :: "written_site list" where
  "sample_sites = [(''x'', [sample_domain]), (''category-y-cn'', [sample_domain])]"

definition sample_database :: "byte list" where
  "sample_database = encode_database ascii_encode sample_sites"

lemma sample_sites_fit: "\<forall>x\<in>set sample_sites. site_fits ascii_encode x"
proof -
  have "length (encode_site ascii_encode ''category-y-cn'' [sample_domain]) = 31"
    by (simp add: encode_site_def encode_domain_def encode_number_def encode_bytes_def encode_varint_small sample_domain_def)
  then show ?thesis using sample_site_fits by (simp add: sample_sites_def site_fits_def sample_domain_fits max_safe_def)
qed

lemma site_codes_written:
  assumes dec: "codec_ok dec enc" and "\<forall>x\<in>set xs. site_fits enc x"
  shows "site_codes dec (encode_database enc xs) = map_result normalize_code (map fst xs)"
  using assms(2)
proof (induction xs)
  case Nil
  then show ?case by (simp add: encode_database_def site_codes.simps)
next
  case (Cons x xs)
  obtain c ps where x: "x = (c, ps)" by (cases x)
  from Cons.prems x have "site_fits enc (c, ps)" by simp
  with dec obtain tail where step: "encode_database enc ((c, ps) # xs) \<noteq> []"
    "tag (encode_database enc ((c, ps) # xs)) = Ok (1, 2, tail)"
    "bytes_field tail = Ok (encode_site enc c ps, encode_database enc xs)"
    "parse_site dec [] [] [] (encode_site enc c ps) = Ok (c, ps)"
    "parse_site_code dec [] [] (encode_site enc c ps) = Ok c" "c \<noteq> []" by (rule written_site)
  have "\<forall>x\<in>set xs. site_fits enc x" using Cons.prems by simp
  note IH = Cons.IH [OF this]
  show ?case unfolding x by (subst site_codes.simps) (simp add: step IH)
qed

lemma sample_database_parses:
  "\<exists>sites. parse_database ascii_decode sample_database None = Ok sites \<and> has_key ''cn'' sites \<and> has_key ''x'' sites"
proof -
  have "case bind_result (add_sites sample_sites []) finish_sites of Err e \<Rightarrow> False | Ok s \<Rightarrow> has_key ''cn'' s \<and> has_key ''x'' s"
    by code_simp
  then obtain m sites where m: "add_sites sample_sites [] = Ok m" "finish_sites m = Ok sites" "has_key ''cn'' sites \<and> has_key ''x'' sites"
    by (cases "add_sites sample_sites []") (auto split: sum.splits)
  have "length sample_database = 54"
    by (simp add: sample_database_def sample_sites_def encode_database_def encode_site_def encode_domain_def
        encode_number_def encode_bytes_def encode_varint_small sample_domain_def)
  then have "size_ok sample_database" by (simp add: size_ok_def maximum_database_size_def)
  moreover have "sites \<noteq> []" using m(3) by (auto simp: has_key_def)
  ultimately show ?thesis
    using m read_sites_written [OF ascii_codec sample_sites_fit, of "[]"] by (simp add: parse_database_def sample_database_def)
qed


section \<open>The listed codes\<close>

lemma add_attributes_keys:
  "add_attributes entries as m = Ok m' \<Longrightarrow> attribute_codes c as = Ok cs \<Longrightarrow>
     set cs = (\<lambda>a. c @ at_sign # a) ` (set (map_keys m') - set (map_keys m)) \<union> set cs \<and>
     (\<lambda>a. c @ at_sign # a) ` set (map_keys m') = (\<lambda>a. c @ at_sign # a) ` set (map_keys m) \<union> set cs"
  by (induction as arbitrary: m m' cs) fastforce+

lemma attribute_codes_append:
  "attribute_codes c (as @ bs) =
     bind_result (attribute_codes c as) (\<lambda>xs. bind_result (attribute_codes c bs) (\<lambda>ys. Ok (xs @ ys)))"
  by (induction as) (simp_all add: bind_result_def split: sum.splits)

lemma site_entries_keys:
  "site_entries ps all m = Ok (all', m') \<Longrightarrow> attribute_codes c (concat (map pd_attributes ps)) = Ok cs \<Longrightarrow>
     (\<lambda>a. c @ at_sign # a) ` set (map_keys m') = (\<lambda>a. c @ at_sign # a) ` set (map_keys m) \<union> set cs"
proof (induction ps arbitrary: all m cs)
  case (Cons p ps)
  from Cons.prems(1) obtain entries m1 where m1: "add_attributes entries (pd_attributes p) m = Ok m1"
    and rest: "site_entries ps (all @ entries) m1 = Ok (all', m')" by auto
  from Cons.prems(2) obtain xs ys where cs: "attribute_codes c (pd_attributes p) = Ok xs"
    "attribute_codes c (concat (map pd_attributes ps)) = Ok ys" "cs = xs @ ys" by (auto simp: attribute_codes_append)
  from Cons.IH [OF rest cs(2)] add_attributes_keys [OF m1 cs(1)] show ?case by (simp add: cs(3) Un_assoc)
qed simp

lemma set_attributes_keys:
  "set (map_keys (set_attributes c as m)) = set (map_keys m) \<union> (\<lambda>a. c @ at_sign # a) ` set (map_keys as)"
proof (induction as arbitrary: m)
  case (Cons p as)
  then show ?case by (cases p) auto
qed simp

lemma add_site_keys:
  assumes "add_site c ps m = Ok m'" and "attribute_codes c (concat (map pd_attributes ps)) = Ok cs"
  shows "set (map_keys m') = set (map_keys m) \<union> insert c (set cs)"
proof -
  from assms(1) obtain all as where as: "site_entries ps [] [] = Ok (all, as)" "m' = set_attributes c as (map_set c (unique_domains all) m)"
    by (auto simp: add_site_def)
  from site_entries_keys [OF as(1) assms(2)] show ?thesis by (auto simp: as(2) set_attributes_keys)
qed

lemma read_codes_keys:
  "read_sites dec None m bs = Ok m' \<Longrightarrow> read_codes dec ks bs = Ok ks' \<Longrightarrow> set ks = set (map_keys m) \<Longrightarrow>
     set ks' = set (map_keys m')"
proof (induction bs arbitrary: m ks rule: length_induct)
  case (1 bs)
  show ?case
  proof (cases "bs = []")
    case True
    with "1.prems" show ?thesis by (simp add: read_sites.simps read_codes.simps)
  next
    case False
    note read = "1.prems"(1) [unfolded read_sites.simps [of dec None m bs]]
    note codes = "1.prems"(2) [unfolded read_codes.simps [of dec ks bs]]
    from read False obtain field wire rest where t: "tag bs = Ok (field, wire, rest)" by auto
    show ?thesis
    proof (cases "field = 1 \<and> wire = 2")
      case site: True
      from codes False t site obtain message rest' raw ps where
        msg: "bytes_field rest = Ok (message, rest')" "parse_site dec [] [] [] message = Ok (raw, ps)" by auto
      have shorter: "length rest' < length bs" using tag_shorter [OF t] bytes_field_shorter [OF msg(1)] by linarith
      note code = parse_site_code_agrees [OF msg(2)]
      show ?thesis
      proof (cases "raw = []")
        case True
        with read codes False t site msg code have "read_sites dec None m rest' = Ok m'" "read_codes dec ks rest' = Ok ks'" by auto
        with "1.IH" shorter "1.prems"(3) show ?thesis by blast
      next
        case raw: False
        with read codes False t site msg code obtain c m1 cs where
          c: "normalize_code raw = Ok c" "add_site c ps m = Ok m1" "attribute_codes c (concat (map pd_attributes ps)) = Ok cs"
          and next1: "read_sites dec None m1 rest' = Ok m'" "read_codes dec (ks @ c # cs) rest' = Ok ks'" by auto
        have "set (ks @ c # cs) = set (map_keys m1)" using add_site_keys [OF c(2,3)] "1.prems"(3) by auto
        with "1.IH" shorter next1 show ?thesis by blast
      qed
    next
      case other: False
      with read codes False t obtain rest' where
        skip: "skip_field wire rest = Ok rest'" "read_sites dec None m rest' = Ok m'" "read_codes dec ks rest' = Ok ks'"
        by auto
      have "length rest' < length bs" using tag_shorter [OF t] skip_field_shorter [OF skip(1)] by linarith
      with "1.IH" skip(2,3) "1.prems"(3) show ?thesis by blast
    qed
  qed
qed

lemma tag_pass_keeps: "c \<in> set (map_keys m) \<Longrightarrow> code_kept c \<Longrightarrow> c \<in> set (map_keys (fst (tag_pass cs m)))"
proof (induction cs arbitrary: m)
  case (Cons x cs)
  show ?case
  proof (cases "\<exists>b a. split_on at_sign x = [b, a]")
    case True
    then obtain b a where split: "split_on at_sign x = [b, a]" by blast
    show ?thesis
    proof (cases "own_tag b a")
      case True
      with Cons.prems split have "c \<noteq> x" by (auto simp: code_kept_def)
      with Cons split True show ?thesis by simp
    qed (use Cons split in \<open>simp add: split_beta\<close>)
  next
    case False
    then have "tag_pass (x # cs) m = tag_pass cs m" by (auto split: list.splits)
    with Cons show ?thesis by simp
  qed
qed simp

lemma exclude_pass_keeps:
  "exclude_pass pairs m = Ok m' \<Longrightarrow> c \<in> set (map_keys m) \<Longrightarrow> c \<notin> snd ` set pairs \<Longrightarrow> c \<in> set (map_keys m')"
proof (induction pairs arbitrary: m)
  case (Cons p pairs)
  then show ?case by (cases p) (auto split: option.splits)
qed simp

lemma filter_tags_keeps:
  assumes "filter_tags m = Ok m'" and "c \<in> set (map_keys m)" and "code_kept c"
  shows "c \<in> set (map_keys m')"
proof -
  let ?t = "tag_pass (map_keys m) m"
  from assms(1) have ex: "exclude_pass (snd ?t) (fst ?t) = Ok m'" by (simp add: filter_tags_def split_beta)
  have "c \<notin> snd ` set (snd ?t)"
    using tag_pass_pairs [of _ c "map_keys m" m] assms(3) by (force simp: code_kept_def)
  with exclude_pass_keeps [OF ex] tag_pass_keeps [OF assms(2,3)] show ?thesis by blast
qed

lemma merge_chinese_keeps: "c \<in> set (map_keys m) \<Longrightarrow> c \<in> set (map_keys (merge_chinese m))"
  by (simp add: merge_chinese_alt)

text \<open>
  Listing the codes of a database and parsing it agree: every code that the listing
  gives, and that the index of a bundle may therefore name, is a category of the parsed
  database.  The only exception is the merged category \<open>cn\<close>, listed when there is a site
  \<open>geolocation-cn\<close> even if that site has no domains.
\<close>

theorem listed_codes_are_parsed:
  assumes "parse_database dec bs None = Ok sites" and "geo_site_codes dec bs = Ok codes"
    and "c \<in> set codes" and "c \<noteq> ''cn''"
  shows "has_key c sites"
proof -
  from assms(1) obtain m m' where m: "read_sites dec None [] bs = Ok m" "filter_tags m = Ok m'"
    and sites: "sites = map (\<lambda>(c, ds). (c, compile_domains ds)) (merge_chinese m')"
    by (auto simp: parse_database_def finish_sites_def split: if_splits)
  from assms(2) obtain ks where ks: "read_codes dec [] bs = Ok ks"
    and codes: "codes = (let kept = filter code_kept (js_distinct ks) in
      if ''geolocation-cn'' \<in> set kept \<and> ''cn'' \<notin> set kept then kept @ [''cn''] else kept)"
    by (auto simp: geo_site_codes_def Let_def split: if_splits)
  from codes assms(3,4) have c: "c \<in> set ks" "code_kept c" by (auto simp: Let_def split: if_splits)
  from read_codes_keys [OF m(1) ks] c(1) have "c \<in> set (map_keys m)" by simp
  from merge_chinese_keeps [OF filter_tags_keeps [OF m(2) this c(2)]] show ?thesis
    by (simp add: has_key_def sites)
qed

text \<open>What the listing makes of a written database.\<close>

fun add_codes :: "written_site list \<Rightarrow> string list \<Rightarrow> string list result" where
  "add_codes [] ks = Ok ks"
| "add_codes ((c, ps) # xs) ks =
     bind_result (normalize_code c) (\<lambda>c'.
     bind_result (attribute_codes c' (concat (map pd_attributes ps))) (\<lambda>cs. add_codes xs (ks @ c' # cs)))"

lemma read_codes_written:
  assumes dec: "codec_ok dec enc" and "\<forall>x\<in>set xs. site_fits enc x"
  shows "read_codes dec ks (encode_database enc xs) = add_codes xs ks"
  using assms(2)
proof (induction xs arbitrary: ks)
  case Nil
  then show ?case by (simp add: encode_database_def read_codes.simps)
next
  case (Cons x xs)
  obtain c ps where x: "x = (c, ps)" by (cases x)
  from Cons.prems x have "site_fits enc (c, ps)" by simp
  with dec obtain tail where step: "encode_database enc ((c, ps) # xs) \<noteq> []"
    "tag (encode_database enc ((c, ps) # xs)) = Ok (1, 2, tail)"
    "bytes_field tail = Ok (encode_site enc c ps, encode_database enc xs)"
    "parse_site dec [] [] [] (encode_site enc c ps) = Ok (c, ps)"
    "parse_site_code dec [] [] (encode_site enc c ps) = Ok c" "c \<noteq> []" by (rule written_site)
  have "\<forall>x\<in>set xs. site_fits enc x" using Cons.prems by simp
  note IH = Cons.IH [OF this]
  show ?case unfolding x by (subst read_codes.simps) (simp add: step IH)
qed

lemma listed_codes_are_parsed_witness:
  "\<exists>sites codes. parse_database ascii_decode sample_database None = Ok sites \<and>
     geo_site_codes ascii_decode sample_database = Ok codes \<and> ''x@ads'' \<in> set codes \<and> has_key ''x@ads'' sites"
proof -
  from sample_database_parses obtain sites where full: "parse_database ascii_decode sample_database None = Ok sites" by blast
  then have size: "size_ok sample_database" by (auto simp: parse_database_def split: if_splits)
  have "add_codes sample_sites [] = Ok [''x'', ''x@ads'', ''category-y-cn'', ''category-y-cn@ads'']" by code_simp
  then have read: "read_codes ascii_decode [] sample_database = Ok [''x'', ''x@ads'', ''category-y-cn'', ''category-y-cn@ads'']"
    unfolding sample_database_def read_codes_written [OF ascii_codec sample_sites_fit] .
  have "filter code_kept (js_distinct [''x'', ''x@ads'', ''category-y-cn'', ''category-y-cn@ads'']) =
      [''x'', ''x@ads'', ''category-y-cn'', ''category-y-cn@ads'']" by code_simp
  with read size have codes: "geo_site_codes ascii_decode sample_database = Ok [''x'', ''x@ads'', ''category-y-cn'', ''category-y-cn@ads'']"
    by (simp add: geo_site_codes_def Let_def)
  from listed_codes_are_parsed [OF full codes, of "''x@ads''"] full codes show ?thesis by auto
qed

section \<open>Compiling a category\<close>

text \<open>
  The hosts an entry matches once the clients' rules are rendered from it
  (src/src/server/adapters/subscriptions.ts): a suffix loses its leading dot and matches the
  domain and its subdomains; \<open>rx\<close> is the client's regular expression matcher.
\<close>

definition entry_matches :: "(string \<Rightarrow> string \<Rightarrow> bool) \<Rightarrow> geo_domain \<Rightarrow> string \<Rightarrow> bool" where
  "entry_matches rx g h =
     (let v = gd_value g in
      case gd_matcher g of
        CDomain \<Rightarrow> h = v
      | CSuffix \<Rightarrow> h = strip_dot v \<or> ends_with h (CHR ''.'' # strip_dot v)
      | CKeyword \<Rightarrow> contains h v
      | _ \<Rightarrow> rx v h)"

text \<open>
  C21.  Compiling a category removes repeated entries, and exact domains that a suffix of the
  category covers, without changing the set of hosts the category matches.
\<close>

theorem compile_keeps_hosts:
  "(\<exists>g\<in>set (compile_domains ds). entry_matches rx g h) = (\<exists>g\<in>set ds. entry_matches rx g h)"
proof
  assume "\<exists>g\<in>set (compile_domains ds). entry_matches rx g h"
  then show "\<exists>g\<in>set ds. entry_matches rx g h" by (auto simp: compile_domains_def Let_def)
next
  assume "\<exists>g\<in>set ds. entry_matches rx g h"
  then obtain g where g: "g \<in> set ds" "entry_matches rx g h" by blast
  show "\<exists>g\<in>set (compile_domains ds). entry_matches rx g h"
  proof (cases "g \<in> set (compile_domains ds)")
    case False
    with g(1) obtain s where s: "s \<in> set ds" "gd_matcher s = CSuffix" "gd_value g = strip_dot (gd_value s)" "gd_matcher g = CDomain"
      by (auto simp: compile_domains_def Let_def)
    with g(2) have "entry_matches rx s h" by (simp add: entry_matches_def)
    moreover from s have "s \<in> set (compile_domains ds)" by (auto simp: compile_domains_def Let_def)
    ultimately show ?thesis by blast
  qed (use g in blast)
qed

end
