(* ===== verification/Route_Values.thy ===== *)
theory Route_Values
  imports Database Geosite
begin

text \<open>
  The values of routing rules (src/src/server/services/routes.ts): what \<open>node:net\<close>'s
  \<open>isIP\<close> accepts, the domain patterns, and the canonical form \<open>validateValue\<close> gives a value
  before it is stored.  Letters are the Latin-1 part of \<open>\p{L}\<close>.
\<close>

section \<open>IP addresses\<close>

definition v4_octet :: "string \<Rightarrow> bool" where
  "v4_octet s \<longleftrightarrow> s \<noteq> [] \<and> length s \<le> 3 \<and> list_all is_digit s \<and>
     (hd s = CHR ''0'' \<longrightarrow> length s = 1) \<and> number_of s \<le> 255"

definition is_v4 :: "string \<Rightarrow> bool" where
  "is_v4 s = (let ps = split_on (CHR ''.'') s in length ps = 4 \<and> list_all v4_octet ps)"

definition hex_digit :: "char \<Rightarrow> bool" where
  "hex_digit c \<longleftrightarrow> is_digit c \<or> 97 \<le> code c \<and> code c \<le> 102 \<or> 65 \<le> code c \<and> code c \<le> 70"

definition v6_group :: "string \<Rightarrow> bool" where
  "v6_group s \<longleftrightarrow> s \<noteq> [] \<and> length s \<le> 4 \<and> list_all hex_digit s"

text \<open>The first \<open>::\<close> of an address.\<close>

fun split_double :: "string \<Rightarrow> (string \<times> string) option" where
  "split_double (a # b # s) =
     (if a = CHR '':'' \<and> b = CHR '':'' then Some ([], s)
      else map_option (\<lambda>(l, r). (a # l, r)) (split_double (b # s)))"
| "split_double _ = None"

text \<open>The number of 16-bit groups a run of groups stands for; only its end may be an IPv4 address.\<close>

definition hex_groups :: "string \<Rightarrow> nat option" where
  "hex_groups s =
     (if s = [] then Some 0
      else let ps = split_on (CHR '':'') s in if list_all v6_group ps then Some (length ps) else None)"

definition tail_groups :: "string \<Rightarrow> nat option" where
  "tail_groups s =
     (if s = [] then Some 0
      else let ps = split_on (CHR '':'') s
           in if \<not> list_all v6_group (butlast ps) then None
              else if v6_group (last ps) then Some (length ps)
              else if is_v4 (last ps) then Some (Suc (length ps)) else None)"

definition v6_body :: "string \<Rightarrow> bool" where
  "v6_body s =
     (case split_double s of
        None \<Rightarrow> s \<noteq> [] \<and> tail_groups s = Some 8
      | Some (l, r) \<Rightarrow>
          (case (hex_groups l, tail_groups r) of (Some m, Some n) \<Rightarrow> m + n \<le> 7 | _ \<Rightarrow> False))"

definition zone_char :: "char \<Rightarrow> bool" where
  "zone_char c \<longleftrightarrow> is_alnum c \<or> c \<in> set ''-.:''"

definition is_v6 :: "string \<Rightarrow> bool" where
  "is_v6 s =
     (let body = takeWhile (\<lambda>c. c \<noteq> CHR ''%'') s; zone = dropWhile (\<lambda>c. c \<noteq> CHR ''%'') s
      in v6_body body \<and> (zone = [] \<or> tl zone \<noteq> [] \<and> list_all zone_char (tl zone)))"

definition is_ip :: "string \<Rightarrow> nat" where
  "is_ip s = (if is_v4 s then 4 else if is_v6 s then 6 else 0)"

section \<open>Domain patterns\<close>

definition is_letter :: "char \<Rightarrow> bool" where
  "is_letter c \<longleftrightarrow> is_upper c \<or> is_lower c \<or> code c \<in> {170, 181, 186} \<or>
     192 \<le> code c \<and> code c \<noteq> 215 \<and> code c \<noteq> 247"

definition label_edge :: "char \<Rightarrow> bool" where
  "label_edge c \<longleftrightarrow> is_letter c \<or> is_digit c"

definition dns_label :: "string \<Rightarrow> bool" where
  "dns_label s \<longleftrightarrow> s \<noteq> [] \<and> length s \<le> 63 \<and> label_edge (hd s) \<and> label_edge (last s) \<and>
     list_all (\<lambda>c. label_edge c \<or> c = CHR ''-'') s"

definition domain_pattern :: "string \<Rightarrow> bool" where
  "domain_pattern s = (let ls = split_on (CHR ''.'') s in 2 \<le> length ls \<and> list_all dns_label ls)"

definition suffix_pattern :: "string \<Rightarrow> bool" where
  "suffix_pattern s = list_all dns_label (split_on (CHR ''.'') s)"

section \<open>Canonical values\<close>

definition normalize_value :: "route_matcher \<Rightarrow> string \<Rightarrow> string" where
  "normalize_value m raw =
     (let v = trim raw;
          v = (if m = SUFFIX \<and> v \<noteq> ''*'' then strip_dot v else v)
      in to_lower v)"

definition prefix_ok :: "string \<Rightarrow> string \<Rightarrow> bool" where
  "prefix_ok address raw \<longleftrightarrow>
     is_ip address \<noteq> 0 \<and> raw \<noteq> [] \<and> length raw \<le> 3 \<and> list_all is_digit raw \<and>
     number_of raw \<le> (if is_ip address = 4 then 32 else 128)"

definition validate_value :: "route_matcher \<Rightarrow> string \<Rightarrow> string result" where
  "validate_value m raw =
     (let v = normalize_value m raw
      in case m of
           IP_CIDR \<Rightarrow>
             if is_ip v \<noteq> 0 then Ok (v @ (if is_ip v = 4 then ''/32'' else ''/128''))
             else (case split_on (CHR ''/'') v of
                     [address, prefix] \<Rightarrow> if prefix_ok address prefix then Ok v else Err (ServiceError 400)
                   | _ \<Rightarrow> Err (ServiceError 400))
         | DOMAIN \<Rightarrow> if domain_pattern v then Ok v else Err (ServiceError 400)
         | SUFFIX \<Rightarrow> if v = ''*'' \<or> suffix_pattern v then Ok v else Err (ServiceError 400)
         | GEOSITE \<Rightarrow> if code_ok v then Ok v else Err (ServiceError 400)
         | GEOIP \<Rightarrow> if code_ok v then Ok v else Err (ServiceError 400))"


section \<open>Canonical values stay as they are\<close>

lemma trim_id: "s \<noteq> [] \<Longrightarrow> \<not> is_space (hd s) \<Longrightarrow> \<not> is_space (last s) \<Longrightarrow> trim s = s"
proof -
  assume s: "s \<noteq> []" "\<not> is_space (hd s)" "\<not> is_space (last s)"
  from s(1,2) have "dropWhile is_space s = s" by (cases s) auto
  moreover from s(1,3) have "dropWhile is_space (rev s) = rev s" by (cases s rule: rev_cases) auto
  ultimately show ?thesis by (simp add: trim_def)
qed

lemma trim_edges:
  assumes "trim s = s" "s \<noteq> []"
  shows "\<not> is_space (hd s)" "\<not> is_space (last s)"
proof -
  let ?u = "dropWhile is_space s"
  from assms have s: "s = rev (dropWhile is_space (rev ?u))" by (simp add: trim_def)
  with assms(2) have ne: "dropWhile is_space (rev ?u) \<noteq> []" by (metis rev.simps(1))
  from hd_dropWhile [OF ne] have "\<not> is_space (last (rev (dropWhile is_space (rev ?u))))"
    by (simp add: last_rev)
  then show "\<not> is_space (last s)" using s by simp
  have "length s \<le> length ?u" using s length_dropWhile_le [of is_space "rev ?u"] by (metis length_rev)
  moreover have "length (takeWhile is_space s) + length ?u = length s"
    by (metis length_append takeWhile_dropWhile_id)
  ultimately have "length (takeWhile is_space s) = 0" by linarith
  then have "takeWhile is_space s = []" by simp
  then have "?u = s" by (metis append_Nil takeWhile_dropWhile_id)
  with assms(2) show "\<not> is_space (hd s)" using hd_dropWhile [of is_space s] by simp
qed

lemma set_split_on: "set s \<subseteq> insert c (\<Union>p\<in>set (split_on c s). set p)"
proof (induction s)
  case (Cons x s)
  then show ?case by (cases "split_on c s") (auto split: if_splits)
qed simp

lemma split_on_chars: "x \<in> set s \<Longrightarrow> x \<noteq> c \<Longrightarrow> \<exists>p\<in>set (split_on c s). x \<in> set p"
  using set_split_on [of s c] by auto

abbreviation "slash \<equiv> CHR ''/''"

lemma slash_class: "\<not> is_digit slash" "\<not> hex_digit slash" "\<not> zone_char slash" "\<not> is_alnum slash"
  by (simp_all add: hex_digit_def zone_char_def char_class_defs)

text \<open>A character that occurs in no address but for the zone of an IPv6 address.\<close>

definition stray :: "char \<Rightarrow> bool" where
  "stray c \<longleftrightarrow> \<not> hex_digit c \<and> c \<noteq> CHR '':'' \<and> c \<noteq> CHR ''.''"

lemma strayD: "stray x \<Longrightarrow> \<not> is_digit x" "stray x \<Longrightarrow> \<not> hex_digit x" "stray x \<Longrightarrow> x \<noteq> CHR '':''" "stray x \<Longrightarrow> x \<noteq> CHR ''.''"
  by (auto simp: stray_def hex_digit_def)

lemma slash_stray: "stray slash"
  by (simp add: stray_def slash_class)

lemma v4_stray: "is_v4 s \<Longrightarrow> stray x \<Longrightarrow> x \<notin> set s"
proof -
  assume "is_v4 s" and x: "stray x"
  then have "\<forall>p\<in>set (split_on (CHR ''.'') s). v4_octet p" by (simp add: is_v4_def list_all_iff Let_def)
  moreover have "x \<notin> set p" if "v4_octet p" for p
    using that strayD(1) [OF x] by (auto simp: v4_octet_def list_all_iff)
  ultimately show ?thesis using split_on_chars [of x s "CHR ''.''"] strayD(4) [OF x] by auto
qed

lemma v6_group_stray: "v6_group s \<Longrightarrow> stray x \<Longrightarrow> x \<notin> set s"
  using strayD(2) by (auto simp: v6_group_def list_all_iff)

lemma hex_groups_stray:
  assumes "hex_groups s = Some n" "stray x"
  shows "x \<notin> set s"
proof
  assume x: "x \<in> set s"
  then have "\<forall>p\<in>set (split_on (CHR '':'') s). v6_group p"
    using assms(1) by (auto simp: hex_groups_def list_all_iff Let_def split: if_splits)
  moreover obtain p where "p \<in> set (split_on (CHR '':'') s)" "x \<in> set p"
    using split_on_chars [OF x, of "CHR '':''"] strayD(3) [OF assms(2)] by auto
  ultimately show False using v6_group_stray assms(2) by blast
qed

lemma tail_groups_stray:
  assumes "tail_groups s = Some n" "stray x"
  shows "x \<notin> set s"
proof
  assume x: "x \<in> set s"
  obtain p where p: "p \<in> set (split_on (CHR '':'') s)" "x \<in> set p"
    using split_on_chars [OF x, of "CHR '':''"] strayD(3) [OF assms(2)] by auto
  have "butlast (split_on (CHR '':'') s) @ [last (split_on (CHR '':'') s)] = split_on (CHR '':'') s" by simp
  then have "p \<in> set (butlast (split_on (CHR '':'') s)) \<or> p = last (split_on (CHR '':'') s)"
    using p(1) by (metis Un_iff empty_iff empty_set set_ConsD set_append)
  moreover from assms have "\<forall>q\<in>set (butlast (split_on (CHR '':'') s)). v6_group q"
    "v6_group (last (split_on (CHR '':'') s)) \<or> is_v4 (last (split_on (CHR '':'') s))"
    using x by (auto simp: tail_groups_def Let_def list_all_iff split: if_splits)
  ultimately show False using p(2) v6_group_stray v4_stray assms(2) by blast
qed

lemma split_double_set: "split_double s = Some (l, r) \<Longrightarrow> set s \<subseteq> insert (CHR '':'') (set l \<union> set r)"
proof (induction s arbitrary: l r rule: split_double.induct)
  case (1 a b s)
  show ?case
  proof (cases "a = CHR '':'' \<and> b = CHR '':''")
    case True
    with 1 show ?thesis by auto
  next
    case False
    with 1 show ?thesis by (auto split: if_splits)
  qed
qed simp_all

lemma v6_body_stray:
  assumes "v6_body s" "stray x"
  shows "x \<notin> set s"
proof (cases "split_double s")
  case None
  with assms show ?thesis using tail_groups_stray by (auto simp: v6_body_def)
next
  case (Some lr)
  obtain l r where lr: "lr = (l, r)" by (cases lr)
  with Some assms obtain m n where "hex_groups l = Some m" "tail_groups r = Some n"
    by (auto simp: v6_body_def split: option.splits)
  then have "x \<notin> set l" "x \<notin> set r" using hex_groups_stray tail_groups_stray assms(2) by blast+
  with split_double_set [of s l r] Some lr strayD(3) [OF assms(2)] show ?thesis by auto
qed

lemma ip_stray:
  assumes "is_ip (x # s) \<noteq> 0" "stray x" "x \<noteq> CHR ''%''"
  shows False
proof (cases "is_v4 (x # s)")
  case True
  from v4_stray [OF this assms(2)] show False by simp
next
  case False
  with assms(1,3) have "v6_body (x # takeWhile (\<lambda>c. c \<noteq> CHR ''%'') s)" by (simp add: is_ip_def is_v6_def Let_def split: if_splits)
  from v6_body_stray [OF this assms(2)] show False by simp
qed

lemma v6_no_slash:
  assumes "is_v6 s"
  shows "slash \<notin> set s"
proof
  assume "slash \<in> set s"
  then have "slash \<in> set (takeWhile (\<lambda>c. c \<noteq> CHR ''%'') s) \<or> slash \<in> set (dropWhile (\<lambda>c. c \<noteq> CHR ''%'') s)"
    by (metis Un_iff set_append takeWhile_dropWhile_id)
  then show False
  proof
    assume "slash \<in> set (takeWhile (\<lambda>c. c \<noteq> CHR ''%'') s)" (is "slash \<in> set ?b")
    moreover from assms have "v6_body ?b" by (simp add: is_v6_def Let_def)
    ultimately show False using v6_body_stray slash_stray by blast
  next
    let ?z = "dropWhile (\<lambda>c. c \<noteq> CHR ''%'') s"
    assume mem: "slash \<in> set ?z"
    then obtain x xs where z: "?z = x # xs" by (cases ?z) simp_all
    with hd_dropWhile [of "\<lambda>c. c \<noteq> CHR ''%''" s] have "x = CHR ''%''" by (metis list.discI list.sel(1))
    with mem have "slash \<in> set xs" unfolding z by simp
    moreover from assms have "list_all zone_char xs" by (simp add: is_v6_def Let_def z)
    ultimately show False using slash_class(3) by (auto simp: list_all_iff)
  qed
qed

lemma ip_no_slash: "is_ip s \<noteq> 0 \<Longrightarrow> slash \<notin> set s"
  using v4_stray [OF _ slash_stray] v6_no_slash by (auto simp: is_ip_def split: if_splits)

lemma split_on_two: "c \<notin> set a \<Longrightarrow> c \<notin> set b \<Longrightarrow> split_on c (a @ c # b) = [a, b]"
  by (induction a) (auto simp: split_on_fresh)

lemma label_edge_class: "label_edge c \<Longrightarrow> \<not> is_space c \<and> c \<noteq> CHR ''.''"
  by (auto simp: label_edge_def is_letter_def char_class_defs)

lemma normalize_suffix:
  assumes "suffix_pattern v" "to_lower v = v"
  shows "normalize_value SUFFIX v = v"
proof -
  obtain p ps where ps: "split_on (CHR ''.'') v = p # ps" by (cases "split_on (CHR ''.'') v") auto
  then have v: "v = join_with ''.'' (p # ps)" by (metis join_split)
  from assms(1) ps have lab: "\<forall>q\<in>set (p # ps). dns_label q" by (simp add: suffix_pattern_def list_all_iff)
  have "q \<noteq> [] \<and> label_edge (hd q) \<and> label_edge (last q)" if "dns_label q" for q
    using that by (simp add: dns_label_def)
  with lab have edges: "v \<noteq> [] \<and> label_edge (hd v) \<and> label_edge (last v)" unfolding v
  proof (induction ps arbitrary: p)
    case (Cons q ps)
    then have "join_with ''.'' (q # ps) \<noteq> [] \<and> label_edge (last (join_with ''.'' (q # ps)))" by auto
    with Cons show ?case by auto
  qed auto
  then have "trim v = v" using trim_id label_edge_class by blast
  moreover from edges have "strip_dot v = v" using label_edge_class by (cases v) (auto simp: strip_dot_def)
  ultimately show ?thesis using assms(2) by (auto simp: normalize_value_def Let_def)
qed

lemma normalize_other: "m \<noteq> SUFFIX \<Longrightarrow> normalize_value m (normalize_value m raw) = normalize_value m raw"
  by (simp add: normalize_value_def trim_to_lower)

lemma normalize_lower: "to_lower (normalize_value m raw) = normalize_value m raw"
  by (simp add: normalize_value_def Let_def)

text \<open>
  Validating a stored value accepts it and leaves it as it is, whatever was typed first:
  the text that is compared, published and rendered is the canonical one.
\<close>

theorem validate_value_stable:
  assumes "validate_value m raw = Ok w"
  shows "validate_value m w = Ok w"
proof (cases m)
  case DOMAIN
  with assms normalize_other [of m raw] show ?thesis by (auto simp: validate_value_def Let_def split: if_splits)
next
  case GEOSITE
  with assms normalize_other [of m raw] show ?thesis by (auto simp: validate_value_def Let_def split: if_splits)
next
  case GEOIP
  with assms normalize_other [of m raw] show ?thesis by (auto simp: validate_value_def Let_def split: if_splits)
next
  case SUFFIX
  have "normalize_value SUFFIX ''*'' = ''*''" by code_simp
  with SUFFIX assms normalize_lower [of m raw] normalize_suffix [of "normalize_value m raw"] show ?thesis
    by (auto simp: validate_value_def Let_def split: if_splits)
next
  case IP_CIDR
  let ?v = "normalize_value IP_CIDR raw"
  have v: "normalize_value IP_CIDR ?v = ?v" using normalize_other by simp
  show ?thesis
  proof (cases "is_ip ?v = 0")
    case True
    with IP_CIDR assms v show ?thesis by (auto simp: validate_value_def Let_def split: list.splits if_splits)
  next
    case False
    then have no: "slash \<notin> set ?v" by (rule ip_no_slash)
    let ?p = "if is_ip ?v = 4 then ''32'' else ''128''"
    from False IP_CIDR assms have w: "w = ?v @ slash # ?p" by (auto simp: validate_value_def)
    have "\<not> is_v4 []" "\<not> is_v6 []" by code_simp+
    with False have ne: "?v \<noteq> []" by (auto simp: is_ip_def)
    have tr: "trim ?v = ?v" by (simp add: normalize_value_def trim_to_lower)
    have "trim w = w" unfolding w using ne trim_edges [OF tr ne] by (intro trim_id) (auto simp: is_space_def)
    moreover have "to_lower w = w" unfolding w using normalize_lower [of IP_CIDR raw]
      by (simp add: to_lower_def lower_char_def is_upper_def)
    ultimately have nw: "normalize_value IP_CIDR w = w" by (simp add: normalize_value_def)
    have "slash \<in> set w" by (simp add: w)
    then have ip: "is_ip w = 0" using ip_no_slash by blast
    have split: "split_on slash w = [?v, ?p]" unfolding w using no by (intro split_on_two) auto
    have "number_of ''32'' = 32" "number_of ''128'' = 128" by code_simp+
    moreover have "is_ip ?v = 4 \<or> is_ip ?v = 6" using False by (auto simp: is_ip_def split: if_splits)
    ultimately have "prefix_ok ?v ?p" using False by (auto simp: prefix_ok_def is_digit_def)
    with IP_CIDR nw ip split show ?thesis by (simp add: validate_value_def)
  qed
qed

lemma validate_value_stable_witness:
  "validate_value IP_CIDR ''2001:db8::1/128'' = Ok ''2001:db8::1/128''"
  by (rule validate_value_stable [where raw = "'' 2001:DB8::1''"]) code_simp

lemma cidr_start:
  assumes "validate_value IP_CIDR (x # v) = Ok (x # v)" "stray x" "x \<noteq> CHR ''%''"
  shows False
proof -
  let ?n = "normalize_value IP_CIDR (x # v)"
  show False
  proof (cases "is_ip ?n = 0")
    case True
    then obtain address prefix where p: "split_on slash ?n = [address, prefix]" "prefix_ok address prefix" "?n = x # v"
      using assms(1) by (auto simp: validate_value_def Let_def split: list.splits if_splits)
    then have "address = x # tl address"
      using assms(2) slash_stray by (cases address) (auto simp: prefix_ok_def is_ip_def is_v4_def is_v6_def v6_body_def split: if_splits list.splits)
    with p(2) ip_stray [of x "tl address"] assms(2,3) show False by (simp add: prefix_ok_def)
  next
    case False
    then have "x # v = ?n @ (if is_ip ?n = 4 then ''/32'' else ''/128'')" using assms(1) by (simp add: validate_value_def Let_def)
    then have "?n = [] \<or> (\<exists>s. ?n = x # s)" by (cases ?n) auto
    moreover have "?n \<noteq> []" using False by (auto simp: is_ip_def is_v4_def is_v6_def v6_body_def)
    ultimately show False using False ip_stray assms(2,3) by metis
  qed
qed

end
