(* ===== verification/Routes.thy ===== *)
theory Routes
  imports Route_Values Journal
begin

text \<open>
  The routing rules (src/src/server/services/routes.ts): an ordered draft the owner edits,
  published as numbered revisions, and the seed of a new database
  (src/src/server/db/database.ts).  The catalogue of GeoIP and GeoSite codes is an interface,
  the locale \<open>rule_catalog\<close>; the operations take its functions as arguments.
\<close>

section \<open>Requests\<close>

record route_input =
  ri_action :: route_action
  ri_matcher :: route_matcher
  ri_value :: string
  ri_enabled :: bool

record route_patch =
  rp_action :: "route_action option"
  rp_matcher :: "route_matcher option"
  rp_value :: "string option"
  rp_enabled :: "bool option"

abbreviation "zod_error \<equiv> Thrown ''ZodError''"

definition action_of :: "json \<Rightarrow> route_action result" where
  "action_of j =
     (case j of
        JStr s \<Rightarrow> if s = ''DIRECT'' then Ok DIRECT else if s = ''PROXY'' then Ok PROXY
                  else if s = ''BLOCK'' then Ok BLOCK else Err zod_error
      | _ \<Rightarrow> Err zod_error)"

definition matcher_of :: "json \<Rightarrow> route_matcher result" where
  "matcher_of j =
     (case j of
        JStr s \<Rightarrow> if s = ''DOMAIN'' then Ok DOMAIN else if s = ''SUFFIX'' then Ok SUFFIX
                  else if s = ''IP_CIDR'' then Ok IP_CIDR else if s = ''GEOSITE'' then Ok GEOSITE
                  else if s = ''GEOIP'' then Ok GEOIP else Err zod_error
      | _ \<Rightarrow> Err zod_error)"

definition value_of :: "json \<Rightarrow> string result" where
  "value_of j =
     (case j of
        JStr s \<Rightarrow> let v = trim s in if 1 \<le> length v \<and> length v \<le> 255 then Ok v else Err zod_error
      | _ \<Rightarrow> Err zod_error)"

definition bool_of :: "json \<Rightarrow> bool result" where
  "bool_of j = (case j of JBool b \<Rightarrow> Ok b | _ \<Rightarrow> Err zod_error)"

definition field :: "(json \<Rightarrow> 'a result) \<Rightarrow> string \<Rightarrow> (string \<times> json) list \<Rightarrow> 'a result" where
  "field f k kvs = (case json_get k kvs of None \<Rightarrow> Err zod_error | Some j \<Rightarrow> f j)"

definition optional_field :: "(json \<Rightarrow> 'a result) \<Rightarrow> string \<Rightarrow> (string \<times> json) list \<Rightarrow> 'a option result" where
  "optional_field f k kvs =
     (case json_get k kvs of None \<Rightarrow> Ok None | Some j \<Rightarrow> bind_result (f j) (\<lambda>x. Ok (Some x)))"

definition parse_route :: "json \<Rightarrow> route_input result" where
  "parse_route j =
     (case j of
        JObj kvs \<Rightarrow>
          bind_result (field action_of ''action'' kvs) (\<lambda>a.
          bind_result (field matcher_of ''matcher'' kvs) (\<lambda>m.
          bind_result (field value_of ''value'' kvs) (\<lambda>v.
          bind_result (optional_field bool_of ''enabled'' kvs) (\<lambda>e.
          Ok \<lparr>ri_action = a, ri_matcher = m, ri_value = v, ri_enabled = coalesce e True\<rparr>))))
      | _ \<Rightarrow> Err zod_error)"

definition parse_patch :: "json \<Rightarrow> route_patch result" where
  "parse_patch j =
     (case j of
        JObj kvs \<Rightarrow>
          bind_result (optional_field action_of ''action'' kvs) (\<lambda>a.
          bind_result (optional_field matcher_of ''matcher'' kvs) (\<lambda>m.
          bind_result (optional_field value_of ''value'' kvs) (\<lambda>v.
          bind_result (optional_field bool_of ''enabled'' kvs) (\<lambda>e.
          Ok \<lparr>rp_action = a, rp_matcher = m, rp_value = v, rp_enabled = e\<rparr>))))
      | _ \<Rightarrow> Err zod_error)"

section \<open>Rules\<close>

text \<open>What the catalogue looks at in a rule: matcher, value and whether it is enabled.\<close>

type_synonym rule_use = "route_matcher \<times> string \<times> bool"

definition use_of :: "route_rule \<Rightarrow> rule_use" where
  "use_of r = (r_matcher r, r_value r, r_enabled r)"

definition local_networks :: "string list" where
  "local_networks = [''10.0.0.0/8'', ''172.16.0.0/12'', ''192.168.0.0/16'']"

definition terminal :: "route_matcher \<Rightarrow> string \<Rightarrow> bool" where
  "terminal m v \<longleftrightarrow> m = SUFFIX \<and> v = ''*''"

definition is_local :: "route_rule \<Rightarrow> bool" where
  "is_local r \<longleftrightarrow> r_source r = SystemRule \<and> r_matcher r = IP_CIDR \<and> r_value r \<in> set local_networks"

definition identity :: "route_rule \<Rightarrow> route_matcher \<times> string" where
  "identity r = (r_matcher r, normalize_value (r_matcher r) (r_value r))"

definition ordered :: "route_rule list \<Rightarrow> route_rule list" where
  "ordered = sort_by (\<lambda>a b. r_position a \<le> r_position b)"

definition draft :: "db \<Rightarrow> route_rule list" where
  "draft d = ordered (t_route_drafts d)"

definition duplicate :: "route_matcher \<Rightarrow> string \<Rightarrow> string option \<Rightarrow> db \<Rightarrow> bool" where
  "duplicate m v except d \<longleftrightarrow>
     (\<exists>r\<in>set (draft d). Some (r_id r) \<noteq> except \<and> identity r = (m, normalize_value m v))"

definition find_rule :: "string \<Rightarrow> db \<Rightarrow> route_rule result" where
  "find_rule i d =
     (case select_one (\<lambda>r. r_id r = i) (t_route_drafts d) of
        None \<Rightarrow> Err (ServiceError 404) | Some r \<Rightarrow> Ok r)"

definition revision :: "nat \<Rightarrow> db \<Rightarrow> route_revision result" where
  "revision v d =
     (case select_one (\<lambda>r. rv_version r = v) (t_route_revisions d) of
        None \<Rightarrow> Err (ServiceError 404) | Some r \<Rightarrow> Ok r)"

definition published :: "db \<Rightarrow> route_rule list result" where
  "published d =
     (if 0 < s_active_route_version d then map_sum id rv_rules (revision (s_active_route_version d) d)
      else Ok (draft d))"

text \<open>What \<open>normalize\<close> keeps of a rule when the draft is compared with the published rules.\<close>

definition content :: "route_rule \<Rightarrow> nat \<times> route_action \<times> route_matcher \<times> string \<times> route_source \<times> bool \<times> bool" where
  "content r = (r_position r, r_action r, r_matcher r, r_value r, r_source r, r_locked r, r_enabled r)"

record route_state =
  rs_draft :: "route_rule list"
  rs_published :: "route_revision option"
  rs_version :: nat
  rs_dirty :: bool

definition route_state :: "db \<Rightarrow> route_state result" where
  "route_state d =
     (let v = s_active_route_version d
      in bind_result (if 0 < v then bind_result (revision v d) (\<lambda>r. Ok (Some r)) else Ok None) (\<lambda>p.
         Ok \<lparr>rs_draft = draft d, rs_published = p, rs_version = v,
             rs_dirty = (case p of None \<Rightarrow> True
                         | Some r \<Rightarrow> map content (draft d) \<noteq> map content (rv_rules r))\<rparr>))"

section \<open>Writing positions under the unique index\<close>

abbreviation "unique_error \<equiv> Thrown ''UNIQUE constraint failed''"

text \<open>\<open>UPDATE route_drafts SET position = position + 10000\<close>: SQLite checks the index row by row.\<close>

fun bump_positions :: "route_rule list \<Rightarrow> route_rule list \<Rightarrow> route_rule list result" where
  "bump_positions done_rows [] = Ok done_rows"
| "bump_positions done_rows (r # rows) =
     (if r_position r + 10000 \<in> r_position ` set (done_rows @ rows) then Err unique_error
      else bump_positions (done_rows @ [r\<lparr>r_position := r_position r + 10000\<rparr>]) rows)"

definition insert_draft :: "route_rule \<Rightarrow> route_rule list \<Rightarrow> route_rule list result" where
  "insert_draft r rows =
     (if r_id r \<in> r_id ` set rows \<or> r_position r \<in> r_position ` set rows then Err unique_error
      else Ok (rows @ [r]))"

definition touch :: "time option \<Rightarrow> route_rule \<Rightarrow> route_rule" where
  "touch t r = (case t of None \<Rightarrow> r | Some n \<Rightarrow> r\<lparr>r_updated_at := n\<rparr>)"

definition move_rule :: "time option \<Rightarrow> nat \<Rightarrow> string \<Rightarrow> route_rule list \<Rightarrow> route_rule list result" where
  "move_rule t p i rows =
     (if (\<exists>r\<in>set rows. r_id r = i) \<and> (\<exists>r\<in>set rows. r_id r \<noteq> i \<and> r_position r = p) then Err unique_error
      else Ok (update_where (\<lambda>r. r_id r = i) (\<lambda>r. touch t (r\<lparr>r_position := p\<rparr>)) rows))"

fun move_rules :: "time option \<Rightarrow> nat \<Rightarrow> string list \<Rightarrow> route_rule list \<Rightarrow> route_rule list result" where
  "move_rules t p [] rows = Ok rows"
| "move_rules t p (i # is) rows = bind_result (move_rule t p i rows) (move_rules t (Suc p) is)"

definition reindex :: "route_rule list \<Rightarrow> route_rule list result" where
  "reindex rows =
     bind_result (bump_positions [] rows) (move_rules None 0 (map r_id (ordered rows)))"

section \<open>Editing the draft\<close>

definition route_audit :: "string \<Rightarrow> string \<Rightarrow> string \<Rightarrow> string option \<Rightarrow> time \<Rightarrow> db \<Rightarrow> db" where
  "route_audit actor action resource rid now d = snd (audit actor action resource rid None now d)"

definition add_route ::
  "(rule_use list \<Rightarrow> unit result) \<Rightarrow> json \<Rightarrow> string \<Rightarrow> string \<Rightarrow> time \<Rightarrow> db \<Rightarrow> db result" where
  "add_route check input actor new_id now d =
     bind_result (parse_route input) (\<lambda>data.
     bind_result (validate_value (ri_matcher data) (ri_value data)) (\<lambda>v.
     bind_result (check [(ri_matcher data, v, ri_enabled data)]) (\<lambda>_.
     if terminal (ri_matcher data) v then Err (ServiceError 409)
     else if duplicate (ri_matcher data) v None d then Err (ServiceError 409)
     else
       let current = draft d;
           locals = filter is_local current;
           others = filter (\<lambda>r. \<not> is_local r) current;
           rule = \<lparr>r_id = new_id, r_position = length current + 20000, r_action = ri_action data,
             r_matcher = ri_matcher data, r_value = v, r_source = UserRule, r_locked = False,
             r_enabled = ri_enabled data, r_created_at = now, r_updated_at = now\<rparr>
       in bind_result (bump_positions [] (t_route_drafts d)) (\<lambda>rows.
          bind_result (insert_draft rule rows) (\<lambda>rows.
          bind_result (move_rules (Some now) 0 (map r_id (locals @ rule # others)) rows) (\<lambda>rows.
          Ok (route_audit actor ''routes.create'' ''route'' (Some new_id) now
                (d\<lparr>t_route_drafts := rows\<rparr>))))))))"

definition update_local :: "route_action \<Rightarrow> string \<Rightarrow> time \<Rightarrow> db \<Rightarrow> db" where
  "update_local action actor now d =
     (let ids = map r_id (filter is_local (draft d))
      in route_audit actor ''routes.update'' ''route_group'' (Some ''local-network'') now
           (d\<lparr>t_route_drafts := update_where (\<lambda>r. r_id r \<in> set ids)
              (\<lambda>r. r\<lparr>r_action := action, r_updated_at := now\<rparr>) (t_route_drafts d)\<rparr>))"

definition update_route ::
  "(rule_use list \<Rightarrow> unit result) \<Rightarrow> string \<Rightarrow> json \<Rightarrow> string \<Rightarrow> time \<Rightarrow> db \<Rightarrow> db result" where
  "update_route check i input actor now d =
     bind_result (find_rule i d) (\<lambda>before.
     bind_result (parse_patch input) (\<lambda>data.
     if r_locked before \<and> (rp_matcher data \<noteq> None \<or> rp_value data \<noteq> None \<or> rp_enabled data \<noteq> None)
     then Err (ServiceError 409)
     else if is_local before \<and> rp_action data \<noteq> None
     then Ok (update_local (the (rp_action data)) actor now d)
     else
       let m = coalesce (rp_matcher data) (r_matcher before)
       in bind_result (validate_value m (coalesce (rp_value data) (r_value before))) (\<lambda>v.
          if \<not> terminal (r_matcher before) (r_value before) \<and> terminal m v then Err (ServiceError 409)
          else if (m \<noteq> r_matcher before \<or> v \<noteq> normalize_value (r_matcher before) (r_value before))
                  \<and> duplicate m v (Some i) d then Err (ServiceError 409)
          else
            let action = coalesce (rp_action data) (r_action before);
                enabled = coalesce (rp_enabled data) (r_enabled before)
            in bind_result (check [(m, v, enabled)]) (\<lambda>_.
               Ok (route_audit actor ''routes.update'' ''route'' (Some i) now
                 (d\<lparr>t_route_drafts := update_where (\<lambda>r. r_id r = i)
                    (\<lambda>r. r\<lparr>r_action := action, r_matcher := m, r_value := v, r_enabled := enabled,
                           r_updated_at := now\<rparr>) (t_route_drafts d)\<rparr>))))))"

definition remove_route :: "string \<Rightarrow> string \<Rightarrow> time \<Rightarrow> db \<Rightarrow> db result" where
  "remove_route i actor now d =
     bind_result (find_rule i d) (\<lambda>before.
     if r_locked before then Err (ServiceError 409)
     else bind_result (reindex (delete_where (\<lambda>r. r_id r = i) (t_route_drafts d))) (\<lambda>rows.
       Ok (route_audit actor ''routes.delete'' ''route'' (Some i) now (d\<lparr>t_route_drafts := rows\<rparr>))))"

text \<open>\<open>ids[index] !== rule.id\<close> for the local rules, in the order of \<open>localNetworks\<close>.\<close>

definition locals_of :: "route_rule list \<Rightarrow> route_rule list" where
  "locals_of current = List.map_filter (\<lambda>v. find (\<lambda>r. is_local r \<and> r_value r = v) current) local_networks"

definition locals_first :: "string list \<Rightarrow> route_rule list \<Rightarrow> bool" where
  "locals_first ids ls \<longleftrightarrow> length ls \<le> length ids \<and> take (length ls) ids = map r_id ls"

definition reorder_routes :: "string list \<Rightarrow> string \<Rightarrow> time \<Rightarrow> db \<Rightarrow> db result" where
  "reorder_routes ids actor now d =
     (let current = draft d
      in if length ids \<noteq> length current \<or> \<not> set ids \<subseteq> r_id ` set current then Err (ServiceError 400)
         else if (case find (\<lambda>r. terminal (r_matcher r) (r_value r)) current of
                    None \<Rightarrow> False | Some r \<Rightarrow> ids = [] \<or> last ids \<noteq> r_id r) then Err (ServiceError 409)
         else if \<not> locals_first ids (locals_of current) then Err (ServiceError 409)
         else bind_result (bump_positions [] (t_route_drafts d)) (\<lambda>rows.
              bind_result (move_rules (Some now) 0 ids rows) (\<lambda>rows.
              Ok (route_audit actor ''routes.reorder'' ''routes'' None now (d\<lparr>t_route_drafts := rows\<rparr>)))))"

section \<open>Revisions\<close>

text \<open>
  \<open>writeDraft\<close>: the draft is deleted and the rules are inserted one by one, with fresh ids
  unless they are preserved; \<open>fresh n\<close> is the n-th id drawn.
\<close>

fun insert_rules :: "bool \<Rightarrow> (nat \<Rightarrow> string) \<Rightarrow> time \<Rightarrow> nat \<Rightarrow> route_rule list \<Rightarrow> route_rule list \<Rightarrow> route_rule list result" where
  "insert_rules preserve fresh now p [] rows = Ok rows"
| "insert_rules preserve fresh now p (r # rules) rows =
     bind_result (insert_draft (r\<lparr>r_id := (if preserve then r_id r else fresh p), r_position := p,
                                  r_created_at := now, r_updated_at := now\<rparr>) rows)
       (insert_rules preserve fresh now (Suc p) rules)"

definition write_draft :: "route_rule list \<Rightarrow> bool \<Rightarrow> (nat \<Rightarrow> string) \<Rightarrow> time \<Rightarrow> db \<Rightarrow> db result" where
  "write_draft rules preserve fresh now d =
     bind_result (insert_rules preserve fresh now 0 rules []) (\<lambda>rows. Ok (d\<lparr>t_route_drafts := rows\<rparr>))"

definition max_version :: "db \<Rightarrow> nat" where
  "max_version d = foldr max (map rv_version (t_route_revisions d)) 0"

definition insert_revision :: "route_revision \<Rightarrow> db \<Rightarrow> db result" where
  "insert_revision rv d =
     (if rv_id rv \<in> rv_id ` set (t_route_revisions d) \<or> rv_version rv \<in> rv_version ` set (t_route_revisions d)
      then Err unique_error else Ok (d\<lparr>t_route_revisions := t_route_revisions d @ [rv]\<rparr>))"

definition publish_entry ::
  "string \<Rightarrow> nat \<Rightarrow> string \<Rightarrow> nat \<Rightarrow> string option \<Rightarrow> string \<Rightarrow> (string \<times> json) list \<Rightarrow> journal_entry" where
  "publish_entry actor version rid rules_count ruleset_version note extra =
     entry\<lparr>je_actor := Some actor, je_subject_type := Some ''route_revision'', je_subject_id := Some rid,
           je_data := [(''version'', JNum (int version)), (''newVersion'', JNum (int version)),
             (''rulesCount'', JNum (int rules_count)),
             (''rulesetVersion'', case ruleset_version of None \<Rightarrow> JNull | Some v \<Rightarrow> JStr v),
             (''note'', JStr note)] @ extra\<rparr>"

text \<open>
  \<open>publish\<close>: the rules are the draft, or the replacement of a rollback.  The id of the revision
  is drawn first, then the ids of the rewritten draft.  The value \<open>prepare\<close> returned is the
  cache to activate once the transaction has succeeded.
\<close>

definition publish_rules ::
  "(route_rule list \<Rightarrow> 'c result) \<Rightarrow> (route_rule list \<Rightarrow> string option) \<Rightarrow> string \<Rightarrow> string \<Rightarrow> string
   \<Rightarrow> string \<Rightarrow> (string \<times> json) list \<Rightarrow> route_rule list option \<Rightarrow> (nat \<Rightarrow> string) \<Rightarrow> time \<Rightarrow> db \<Rightarrow> ('c \<times> db) result" where
  "publish_rules prepare version_of note actor type audit_action extra replacement rnd now d =
     (let rules = coalesce replacement (draft d)
      in if rules = [] then Err (ServiceError 409)
         else bind_result (map_result (\<lambda>r. validate_value (r_matcher r) (r_value r)) rules) (\<lambda>_.
           if \<not> distinct (map identity rules) then Err (ServiceError 409)
           else bind_result (prepare rules) (\<lambda>cache.
             let ruleset_version = version_of rules; version = Suc (max_version d); i = rnd 0
             in bind_result (journal_change type
                  (\<lambda>d. bind_result (case replacement of None \<Rightarrow> Ok d
                                     | Some rs \<Rightarrow> write_draft rs False (\<lambda>n. rnd (Suc n)) now d) (\<lambda>d.
                       bind_result (insert_revision \<lparr>rv_id = i, rv_version = version, rv_rules = rules,
                         rv_note = trim note, rv_created_at = now, rv_actor = actor,
                         rv_ruleset_version = ruleset_version\<rparr> d) (\<lambda>d.
                       Ok ((), d\<lparr>s_active_route_version := version\<rparr>))))
                  (\<lambda>_ now d. audit actor audit_action ''route_revision'' (Some i) None now d)
                  (\<lambda>_. publish_entry actor version i (length rules) ruleset_version (trim note) extra)
                  now d) (\<lambda>(_, d'). Ok (cache, d')))))"

definition publish_routes ::
  "(route_rule list \<Rightarrow> 'c result) \<Rightarrow> (route_rule list \<Rightarrow> string option) \<Rightarrow> string \<Rightarrow> string
   \<Rightarrow> (nat \<Rightarrow> string) \<Rightarrow> time \<Rightarrow> db \<Rightarrow> ('c \<times> db) result" where
  "publish_routes prepare version_of note actor rnd now d =
     publish_rules prepare version_of note actor ''routes.published'' ''routes.publish'' [] None rnd now d"

text \<open>The note of a rollback names the revision; its Russian words are left out.\<close>

definition rollback_routes ::
  "(route_rule list \<Rightarrow> 'c result) \<Rightarrow> (route_rule list \<Rightarrow> string option) \<Rightarrow> nat \<Rightarrow> string
   \<Rightarrow> (nat \<Rightarrow> string) \<Rightarrow> time \<Rightarrow> db \<Rightarrow> ('c \<times> db) result" where
  "rollback_routes prepare version_of v actor rnd now d =
     bind_result (revision v d) (\<lambda>target.
       publish_rules prepare version_of (show_nat v) actor ''routes.rolled_back'' ''routes.rollback''
         [(''fromVersion'', JNum (int (s_active_route_version d))), (''targetVersion'', JNum (int v))]
         (Some (rv_rules target)) rnd now d)"

definition discard_routes :: "string \<Rightarrow> time \<Rightarrow> db \<Rightarrow> db result" where
  "discard_routes actor now d =
     (if s_active_route_version d = 0 then Err (ServiceError 409)
      else bind_result (revision (s_active_route_version d) d) (\<lambda>target.
           bind_result (write_draft (rv_rules target) True (\<lambda>_. []) now d) (\<lambda>d.
           Ok (route_audit actor ''routes.discard'' ''routes'' None now d))))"

section \<open>The seed of a new database\<close>

definition default_routes :: "(route_action \<times> route_matcher \<times> string) list" where
  "default_routes = [(DIRECT, IP_CIDR, ''10.0.0.0/8''), (DIRECT, IP_CIDR, ''172.16.0.0/12''),
     (DIRECT, IP_CIDR, ''192.168.0.0/16''), (PROXY, SUFFIX, ''*'')]"

definition default_rule :: "(nat \<Rightarrow> string) \<Rightarrow> time \<Rightarrow> nat \<Rightarrow> route_action \<times> route_matcher \<times> string \<Rightarrow> route_rule" where
  "default_rule rnd now p x =
     \<lparr>r_id = rnd p, r_position = p, r_action = fst x, r_matcher = fst (snd x), r_value = snd (snd x),
      r_source = SystemRule, r_locked = True, r_enabled = True, r_created_at = now, r_updated_at = now\<rparr>"

fun insert_all :: "route_rule list \<Rightarrow> route_rule list \<Rightarrow> route_rule list result" where
  "insert_all [] rows = Ok rows"
| "insert_all (r # rs) rows = bind_result (insert_draft r rows) (insert_all rs)"

definition is_default :: "route_action \<times> route_matcher \<times> string \<Rightarrow> route_rule \<Rightarrow> bool" where
  "is_default x r \<longleftrightarrow> r_action r = fst x \<and> r_matcher r = fst (snd x) \<and> r_value r = snd (snd x) \<and>
     r_source r = SystemRule \<and> r_locked r \<and> r_enabled r"

definition publish_initial :: "string \<Rightarrow> time \<Rightarrow> db \<Rightarrow> db result" where
  "publish_initial i now d =
     (if s_active_route_version d \<noteq> 0 \<or> t_route_revisions d \<noteq> [] then Ok d
      else if \<not> list_all2 is_default default_routes (draft d) then Ok d
      else bind_result (insert_revision \<lparr>rv_id = i, rv_version = 1, rv_rules = draft d,
             rv_note = [], rv_created_at = now, rv_actor = ''system'', rv_ruleset_version = None\<rparr> d)
           (\<lambda>d. Ok (d\<lparr>s_active_route_version := 1\<rparr>)))"

definition seed_routes :: "(nat \<Rightarrow> string) \<Rightarrow> time \<Rightarrow> db \<Rightarrow> db result" where
  "seed_routes rnd now d =
     bind_result
       (if t_route_drafts d = []
        then insert_all (map (\<lambda>(p, x). default_rule rnd now p x) (enumerate 0 default_routes)) []
        else Ok (t_route_drafts d)) (\<lambda>rows.
     publish_initial (rnd (length default_routes)) now (d\<lparr>t_route_drafts := rows\<rparr>))"

end
