(* ===== verification/Rulesets.thy ===== *)
theory Rulesets
  imports Routes Geosite
begin

text \<open>
  The sets of GeoSite and GeoIP rules (src/src/server/services/rulesets.ts): the catalogue of
  codes the routes are checked against, the cache of compiled categories, the expansion of
  routes for the clients, and the update from a signed index.  The network, minisign and tar
  are parameters: what they delivered is the input of an update.  The installed directories
  are a map from versions to their files; the state is the setting \<open>rulesets\<close>.
\<close>

section \<open>State\<close>

datatype family = FGeosite | FGeoip

datatype rules_status = RIdle | RReady | RError

record code_lists =
  cl_geosite :: "string list"
  cl_geoip :: "string list"

definition codes_of :: "family \<Rightarrow> code_lists \<Rightarrow> string list" where
  "codes_of f c = (case f of FGeosite \<Rightarrow> cl_geosite c | FGeoip \<Rightarrow> cl_geoip c)"

record ruleset_state =
  us_status :: rules_status
  us_active :: "string option"
  us_checked_at :: "time option"
  us_updated_at :: "time option"
  us_last_error :: "string option"
  us_codes :: code_lists

definition empty_state :: ruleset_state where
  "empty_state = \<lparr>us_status = RIdle, us_active = None, us_checked_at = None, us_updated_at = None,
     us_last_error = None, us_codes = \<lparr>cl_geosite = [], cl_geoip = []\<rparr>\<rparr>"

record geo_cache =
  gc_version :: string
  gc_sites :: sites

text \<open>An installed or unpacked directory: its database and its \<open>.srs\<close> files.\<close>

record rules_dir =
  rd_mtime :: time
  rd_database :: "byte list option"
  rd_files :: "(family \<times> string) \<Rightarrow> byte list option"

record rules_world =
  w_state :: ruleset_state
  w_cache :: "geo_cache option"
  w_dirs :: "(string, rules_dir) js_map"

section \<open>The catalogue\<close>

definition normalize_rule_code :: "string \<Rightarrow> string result" where
  "normalize_rule_code s =
     (let c = to_lower (trim s) in if code_ok c then Ok c else Err (ServiceError 400))"

definition family_of :: "route_matcher \<Rightarrow> family option" where
  "family_of m = (case m of GEOSITE \<Rightarrow> Some FGeosite | GEOIP \<Rightarrow> Some FGeoip | _ \<Rightarrow> None)"

text \<open>The codes the enabled rules need, each once, in the order of their first use.\<close>

fun required_raw :: "rule_use list \<Rightarrow> (family \<times> string) list result" where
  "required_raw [] = Ok []"
| "required_raw ((m, v, b) # us) =
     (case (if b then family_of m else None) of
        None \<Rightarrow> required_raw us
      | Some f \<Rightarrow> bind_result (normalize_rule_code v) (\<lambda>c.
                  bind_result (required_raw us) (\<lambda>xs. Ok ((f, c) # xs))))"

definition required_codes :: "rule_use list \<Rightarrow> (family \<times> string) list result" where
  "required_codes us = map_sum id js_distinct (required_raw us)"

definition assert_codes :: "rule_use list \<Rightarrow> code_lists \<Rightarrow> unit result" where
  "assert_codes us codes =
     bind_result (required_codes us) (\<lambda>req.
       if filter (\<lambda>(f, c). c \<notin> set (codes_of f codes)) req \<noteq> [] then Err (ServiceError 400) else Ok ())"

definition assert_rules :: "ruleset_state \<Rightarrow> rule_use list \<Rightarrow> unit result" where
  "assert_rules st us =
     bind_result (required_codes us) (\<lambda>req.
       if req = [] then Ok ()
       else if us_status st \<noteq> RReady \<or> us_active st = None then Err (ServiceError 409)
       else assert_codes us (us_codes st))"

text \<open>
  \<open>version\<close> is called on rules that \<open>prepare\<close> accepted, so their codes are valid and
  \<open>required\<close> does not throw.
\<close>

definition rules_version :: "ruleset_state \<Rightarrow> route_rule list \<Rightarrow> string option" where
  "rules_version st rules =
     (case required_codes (map use_of rules) of
        Inl _ \<Rightarrow> None | Inr req \<Rightarrow> if req = [] then None else us_active st)"

section \<open>Compiled categories\<close>

definition wants_site :: "rule_use \<Rightarrow> bool" where
  "wants_site u = (case u of (m, v, b) \<Rightarrow> b \<and> m = GEOSITE)"

definition requested_sites :: "rule_use list \<Rightarrow> string list result" where
  "requested_sites us =
     map_sum id js_distinct (map_result (\<lambda>(m, v, b). normalize_rule_code v) (filter wants_site us))"

text \<open>\<open>for (const code of missing)\<close>: every missing category must have domains.\<close>

fun load_sites :: "sites \<Rightarrow> string list \<Rightarrow> sites \<Rightarrow> sites result" where
  "load_sites loaded [] sites = Ok sites"
| "load_sites loaded (c # cs) sites =
     (case map_get c loaded of
        None \<Rightarrow> Err (ServiceError 503)
      | Some ds \<Rightarrow> if ds = [] then Err (ServiceError 503) else load_sites loaded cs (map_set c ds sites))"

definition prepare_geo_sites ::
  "decoder \<Rightarrow> string \<Rightarrow> byte list option \<Rightarrow> rule_use list \<Rightarrow> geo_cache option \<Rightarrow> geo_cache result" where
  "prepare_geo_sites dec version database us previous =
     bind_result (requested_sites us) (\<lambda>requested.
       let old = (case previous of None \<Rightarrow> [] | Some c \<Rightarrow> if gc_version c = version then gc_sites c else []);
           kept = keep_keys (\<lambda>c. c \<in> set requested) old;
           missing = filter (\<lambda>c. \<not> has_key c kept) requested
       in if missing = [] then Ok \<lparr>gc_version = version, gc_sites = kept\<rparr>
          else (case database of
                  None \<Rightarrow> Err (ServiceError 503)
                | Some bytes \<Rightarrow>
                    (case parse_database dec bytes (Some missing) of
                       Inl _ \<Rightarrow> Err (ServiceError 503)
                     | Inr loaded \<Rightarrow> map_sum id (\<lambda>s. \<lparr>gc_version = version, gc_sites = s\<rparr>)
                                       (load_sites loaded missing kept))))"

definition database_of :: "string \<Rightarrow> rules_world \<Rightarrow> byte list option" where
  "database_of v w = (case map_get v (w_dirs w) of None \<Rightarrow> None | Some d \<Rightarrow> rd_database d)"

text \<open>\<open>prepare\<close> returns the cache its caller activates; \<open>None\<close> is the closure that does nothing.\<close>

definition prepare_rules :: "decoder \<Rightarrow> rules_world \<Rightarrow> route_rule list \<Rightarrow> geo_cache option result" where
  "prepare_rules dec w rules =
     bind_result (assert_rules (w_state w) (map use_of rules)) (\<lambda>_.
       case us_active (w_state w) of
         None \<Rightarrow> Ok None
       | Some v \<Rightarrow> map_sum id Some (prepare_geo_sites dec v (database_of v w) (map use_of rules) (w_cache w)))"

definition activate_cache :: "geo_cache option \<Rightarrow> rules_world \<Rightarrow> rules_world" where
  "activate_cache c w =
     (case c of None \<Rightarrow> w
      | Some g \<Rightarrow> if us_active (w_state w) = Some (gc_version g) then w\<lparr>w_cache := Some g\<rparr> else w)"

section \<open>Routes as the clients get them\<close>

record client_rule =
  k_rule :: route_rule
  k_id :: string
  k_matcher :: client_matcher
  k_value :: string

definition client_matcher_of :: "route_matcher \<Rightarrow> client_matcher" where
  "client_matcher_of m =
     (case m of DOMAIN \<Rightarrow> CDomain | SUFFIX \<Rightarrow> CSuffix | IP_CIDR \<Rightarrow> CCidr | GEOIP \<Rightarrow> CGeoip | GEOSITE \<Rightarrow> CDomain)"

definition client_rule :: "route_rule \<Rightarrow> client_rule" where
  "client_rule r = \<lparr>k_rule = r, k_id = r_id r, k_matcher = client_matcher_of (r_matcher r), k_value = r_value r\<rparr>"

definition site_rules :: "route_rule \<Rightarrow> geo_domain list \<Rightarrow> client_rule list" where
  "site_rules r ds =
     map (\<lambda>(n, g). \<lparr>k_rule = r, k_id = r_id r @ '':geosite:'' @ show_nat n, k_matcher = gd_matcher g, k_value = gd_value g\<rparr>)
         (enumerate 0 ds)"

fun expand_rules :: "sites \<Rightarrow> route_rule list \<Rightarrow> client_rule list result" where
  "expand_rules sites [] = Ok []"
| "expand_rules sites (r # rs) =
     bind_result
       (if r_matcher r \<noteq> GEOSITE then Ok [client_rule r]
        else if \<not> r_enabled r then Ok []
        else bind_result (normalize_rule_code (r_value r)) (\<lambda>c.
               case map_get c sites of
                 None \<Rightarrow> Err (ServiceError 503)
               | Some ds \<Rightarrow> if ds = [] then Err (ServiceError 503) else Ok (site_rules r ds)))
       (\<lambda>ks. bind_result (expand_rules sites rs) (\<lambda>more. Ok (ks @ more)))"

definition materialize :: "decoder \<Rightarrow> route_rule list \<Rightarrow> rules_world \<Rightarrow> (client_rule list \<times> rules_world) result" where
  "materialize dec rules w =
     (if \<not> (\<exists>r\<in>set rules. wants_site (use_of r))
      then Ok (map client_rule (filter (\<lambda>r. r_matcher r \<noteq> GEOSITE) rules), w)
      else bind_result (prepare_rules dec w rules) (\<lambda>c.
             let w' = activate_cache c w
             in (case w_cache w' of
                   None \<Rightarrow> Err (Thrown ''TypeError'')
                 | Some g \<Rightarrow> map_sum id (\<lambda>ks. (ks, w')) (expand_rules (gc_sites g) rules))))"

section \<open>The index and the archive\<close>

record manifest =
  mf_version :: string
  mf_url :: string
  mf_sha256 :: string
  mf_codes :: code_lists

abbreviation "manifest_error \<equiv> Thrown ''manifest''"

definition version_ok :: "string \<Rightarrow> bool" where
  "version_ok s \<longleftrightarrow> s \<noteq> [] \<and> length s \<le> 80 \<and> list_all (\<lambda>c. is_alnum c \<or> c \<in> set ''._-'') s"

definition sha256_ok :: "string \<Rightarrow> bool" where
  "sha256_ok s \<longleftrightarrow> length s = 64 \<and> list_all (\<lambda>c. is_digit c \<or> 97 \<le> code c \<and> code c \<le> 102) s"

definition string_of :: "json option \<Rightarrow> string result" where
  "string_of j = (case j of Some (JStr s) \<Rightarrow> Ok s | _ \<Rightarrow> Err manifest_error)"

definition code_list_of :: "json option \<Rightarrow> string list result" where
  "code_list_of j =
     (case j of
        Some (JArr xs) \<Rightarrow>
          map_sum id (\<lambda>cs. sort_by (\<lambda>a b. \<not> js_less b a) (js_distinct cs))
            (map_result (\<lambda>x. bind_result (string_of (Some x)) normalize_rule_code) xs)
      | _ \<Rightarrow> Err manifest_error)"

definition object_of :: "json option \<Rightarrow> (string \<times> json) list result" where
  "object_of j = (case j of Some (JObj kvs) \<Rightarrow> Ok kvs | _ \<Rightarrow> Err manifest_error)"

definition parse_manifest :: "json option \<Rightarrow> manifest result" where
  "parse_manifest j =
     bind_result (object_of j) (\<lambda>kvs.
     bind_result (string_of (json_get ''version'' kvs)) (\<lambda>v.
     if \<not> version_ok v then Err manifest_error
     else bind_result (object_of (json_get ''bundle'' kvs)) (\<lambda>b.
     bind_result (string_of (json_get ''url'' b)) (\<lambda>url.
     bind_result (string_of (json_get ''sha256'' b)) (\<lambda>sha.
     if \<not> starts_with url ''https://'' \<or> \<not> sha256_ok sha then Err manifest_error
     else bind_result (object_of (json_get ''codes'' kvs)) (\<lambda>cs.
     bind_result (code_list_of (json_get ''geosite'' cs)) (\<lambda>sites.
     bind_result (code_list_of (json_get ''geoip'' cs)) (\<lambda>ips.
     Ok \<lparr>mf_version = v, mf_url = url, mf_sha256 = sha, mf_codes = \<lparr>cl_geosite = sites, cl_geoip = ips\<rparr>\<rparr>))))))))"

text \<open>The entries of the archive that may be unpacked.\<close>

definition strip_here :: "string \<Rightarrow> string" where
  "strip_here s = (if starts_with s ''./'' then drop 2 s else s)"

definition srs_name :: "string \<Rightarrow> bool" where
  "srs_name s \<longleftrightarrow> ends_with s ''.srs'' \<and> 4 < length s \<and>
     list_all (\<lambda>c. is_alnum c \<or> c \<in> set ''_@.!+-'') s"

definition allowed_entry :: "string \<Rightarrow> bool" where
  "allowed_entry s \<longleftrightarrow>
     s \<in> {''geosite'', ''geosite/'', ''geoip'', ''geoip/'', ''licenses'', ''licenses/'',
          ''licenses/sing-geosite.txt'', ''licenses/sing-geoip.txt'', ''licenses/domain-list-community.txt'',
          ''geosite.dat'', ''sources.json'', ''THIRD_PARTY_NOTICES.md''} \<or>
     (\<exists>d\<in>{''geosite/'', ''geoip/''}. starts_with s d \<and> srs_name (drop (length d) s))"

definition unsafe_entry :: "string \<Rightarrow> bool" where
  "unsafe_entry s \<longleftrightarrow>
     starts_with s ''/'' \<or> ''..'' \<in> set (split_on (CHR ''/'') (strip_here s)) \<or> \<not> allowed_entry (strip_here s)"

definition srs_ok :: "byte list option \<Rightarrow> bool" where
  "srs_ok b =
     (case b of None \<Rightarrow> False
      | Some bs \<Rightarrow> 8 \<le> length bs \<and> take 3 bs = [0x53, 0x52, 0x53] \<and> bs ! 3 \<noteq> 0)"

definition validate_files :: "decoder \<Rightarrow> rules_dir option \<Rightarrow> manifest \<Rightarrow> unit result" where
  "validate_files dec dir m =
     (case dir of
        None \<Rightarrow> Err (Thrown ''geosite.dat'')
      | Some d \<Rightarrow>
          (case rd_database d of
             None \<Rightarrow> Err (Thrown ''geosite.dat'')
           | Some bytes \<Rightarrow>
               bind_result (geo_site_codes dec bytes) (\<lambda>cs.
               if \<not> set (cl_geosite (mf_codes m)) \<subseteq> set cs then Err (Thrown ''categories'')
               else if \<not> (list_all (\<lambda>c. srs_ok (rd_files d (FGeosite, c))) (cl_geosite (mf_codes m)) \<and>
                          list_all (\<lambda>c. srs_ok (rd_files d (FGeoip, c))) (cl_geoip (mf_codes m)))
               then Err (Thrown ''srs'') else Ok ())))"

section \<open>Updating\<close>

text \<open>What the network, minisign and tar delivered; \<open>None\<close> is a failure.\<close>

record update_input =
  ui_index_ok :: bool
  ui_verified :: bool
  ui_manifest :: "json option"
  ui_bundle_ok :: bool
  ui_bundle_sha256 :: string
  ui_entries :: "string list option"
  ui_unpacked :: "rules_dir option"

definition read_index :: "update_input \<Rightarrow> manifest result" where
  "read_index i =
     (if \<not> ui_index_ok i then Err (Thrown ''index'')
      else if \<not> ui_verified i then Err (Thrown ''minisign'')
      else parse_manifest (ui_manifest i))"

text \<open>The installed version is already current: warm the cache from its files.\<close>

definition keep_version ::
  "decoder \<Rightarrow> manifest \<Rightarrow> route_rule list \<Rightarrow> time \<Rightarrow> rules_world \<Rightarrow> rules_world option" where
  "keep_version dec m routes checked_at w =
     (if us_active (w_state w) = Some (mf_version m) \<and>
         is_ok (validate_files dec (map_get (mf_version m) (w_dirs w)) m)
      then (case bind_result (assert_codes (map use_of routes) (mf_codes m)) (\<lambda>_.
                   prepare_geo_sites dec (mf_version m) (database_of (mf_version m) w) (map use_of routes) (w_cache w)) of
              Inl _ \<Rightarrow> None
            | Inr g \<Rightarrow> Some (w\<lparr>w_state := (w_state w)\<lparr>us_status := RReady, us_checked_at := Some checked_at,
                                                        us_last_error := None\<rparr>,
                              w_cache := Some g\<rparr>))
      else None)"

definition read_bundle :: "decoder \<Rightarrow> update_input \<Rightarrow> manifest \<Rightarrow> rules_dir result" where
  "read_bundle dec i m =
     (if \<not> ui_bundle_ok i then Err (Thrown ''bundle'')
      else if ui_bundle_sha256 i \<noteq> mf_sha256 m then Err (Thrown ''checksum'')
      else (case ui_entries i of
              None \<Rightarrow> Err (Thrown ''tar'')
            | Some es \<Rightarrow>
                if es = [] \<or> list_ex unsafe_entry es then Err (Thrown ''entries'')
                else (case ui_unpacked i of
                        None \<Rightarrow> Err (Thrown ''tar'')
                      | Some d \<Rightarrow> bind_result (validate_files dec (Some d) m) (\<lambda>_. Ok d))))"

text \<open>\<open>cleanup\<close>: the active version and the two newest others stay.\<close>

definition cleanup_dirs :: "string \<Rightarrow> (string, rules_dir) js_map \<Rightarrow> (string, rules_dir) js_map" where
  "cleanup_dirs active dirs =
     (let others = sort_by (\<lambda>a b. rd_mtime (snd b) \<le> rd_mtime (snd a)) (filter (\<lambda>x. fst x \<noteq> active) dirs);
          stale = map fst (drop 2 others)
      in keep_keys (\<lambda>v. v \<notin> set stale) dirs)"

definition install_version ::
  "decoder \<Rightarrow> update_input \<Rightarrow> manifest \<Rightarrow> route_rule list \<Rightarrow> time \<Rightarrow> rules_world \<Rightarrow> rules_world result" where
  "install_version dec i m routes checked_at w =
     bind_result (read_bundle dec i m) (\<lambda>d.
     bind_result (assert_codes (map use_of routes) (mf_codes m)) (\<lambda>_.
     bind_result (prepare_geo_sites dec (mf_version m) (rd_database d) (map use_of routes) None) (\<lambda>g.
     Ok \<lparr>w_state = \<lparr>us_status = RReady, us_active = Some (mf_version m), us_checked_at = Some checked_at,
           us_updated_at = Some checked_at, us_last_error = None, us_codes = mf_codes m\<rparr>,
         w_cache = Some g,
         w_dirs = cleanup_dirs (mf_version m) (map_set (mf_version m) d (map_delete (mf_version m) (w_dirs w)))\<rparr>)))"

text \<open>
  \<open>update\<close>: \<open>say\<close> is the text of an error.  The published routes are read in the same
  synchronous section that stores the new state, so the update is one step.  The flag tells
  whether a failure or a new version is written to the journal.
\<close>

definition failed_update :: "(failure \<Rightarrow> string) \<Rightarrow> failure \<Rightarrow> time \<Rightarrow> rules_world \<Rightarrow> rules_world \<times> bool" where
  "failed_update say e checked_at w =
     (let st = w_state w
      in (w\<lparr>w_state := st\<lparr>us_status := (if us_active st = None then RError else RReady),
                           us_checked_at := Some checked_at, us_last_error := Some (say e)\<rparr>\<rparr>,
          us_last_error st \<noteq> Some (say e)))"

definition update_rules ::
  "decoder \<Rightarrow> (failure \<Rightarrow> string) \<Rightarrow> update_input \<Rightarrow> route_rule list \<Rightarrow> time \<Rightarrow> rules_world \<Rightarrow> rules_world \<times> bool" where
  "update_rules dec say i routes checked_at w =
     (case read_index i of
        Inl e \<Rightarrow> failed_update say e checked_at w
      | Inr m \<Rightarrow>
          (case keep_version dec m routes checked_at w of
             Some w' \<Rightarrow> (w', False)
           | None \<Rightarrow>
               (case install_version dec i m routes checked_at w of
                  Inl e \<Rightarrow> failed_update say e checked_at w
                | Inr w' \<Rightarrow> (w', True))))"

text \<open>\<open>installedComplete\<close> and the check of \<open>refresh\<close> that avoids an update.\<close>

definition installed_complete :: "decoder \<Rightarrow> rules_world \<Rightarrow> bool" where
  "installed_complete dec w =
     (case us_active (w_state w) of
        None \<Rightarrow> False
      | Some v \<Rightarrow>
          (case database_of v w of
             None \<Rightarrow> False
           | Some bytes \<Rightarrow>
               (case geo_site_codes dec bytes of
                  Inl _ \<Rightarrow> False
                | Inr cs \<Rightarrow> set (cl_geosite (us_codes (w_state w))) \<subseteq> set cs)))"

definition refresh_rules ::
  "decoder \<Rightarrow> (failure \<Rightarrow> string) \<Rightarrow> int \<Rightarrow> bool \<Rightarrow> update_input \<Rightarrow> route_rule list \<Rightarrow> time \<Rightarrow> rules_world \<Rightarrow> rules_world \<times> bool" where
  "refresh_rules dec say check_hours force i routes now w =
     (let fresh = (case us_checked_at (w_state w) of
                     None \<Rightarrow> False
                   | Some t \<Rightarrow> now - t < check_hours * 60 * 60 * 1000 \<and>
                              (us_active (w_state w) = None \<or> installed_complete dec w))
      in case (if \<not> force \<and> fresh then map_sum id Some (prepare_rules dec w routes) else Ok None) of
           Inr (Some c) \<Rightarrow> (activate_cache c w, False)
         | _ \<Rightarrow> update_rules dec say i routes now w)"

text \<open>\<open>file\<close>: the \<open>.srs\<close> file of a code of the active version.\<close>

definition drop_srs :: "string \<Rightarrow> string" where
  "drop_srs s = (if ends_with s ''.srs'' then take (length s - 4) s else s)"

definition rules_file :: "string \<Rightarrow> string \<Rightarrow> rules_world \<Rightarrow> (byte list \<times> string) result" where
  "rules_file family raw w =
     (case (if family = ''geosite'' then Some FGeosite else if family = ''geoip'' then Some FGeoip else None) of
        None \<Rightarrow> Err (ServiceError 404)
      | Some f \<Rightarrow>
          bind_result (normalize_rule_code (drop_srs raw)) (\<lambda>c.
            case (us_status (w_state w), us_active (w_state w)) of
              (RReady, Some v) \<Rightarrow>
                if c \<notin> set (codes_of f (us_codes (w_state w))) then Err (ServiceError 404)
                else (case map_get v (w_dirs w) of
                        None \<Rightarrow> Err (ServiceError 404)
                      | Some d \<Rightarrow> (case rd_files d (f, c) of None \<Rightarrow> Err (ServiceError 404) | Some bs \<Rightarrow> Ok (bs, v)))
            | _ \<Rightarrow> Err (ServiceError 404)))"

end
