(* ===== verification/Route_Safety.thy ===== *)
theory Route_Safety
  imports Routes
begin

text \<open>
  The routing rules stay in order: the lemmas that turn the moves under the unique index into
  list operations, the invariant of the draft and of the revisions, and its preservation by
  every request.
\<close>

section \<open>Ordering a table\<close>

lemma sort_by_key: "sort_by (\<lambda>a b. f a \<le> f b) xs = sort_key (f :: 'a \<Rightarrow> nat) xs"
proof -
  have "insert_by (\<lambda>a b. f a \<le> f b) x ys = insort_key f x ys" for x ys by (induction ys) auto
  then show ?thesis by (induction xs) simp_all
qed

lemma ordered_key: "ordered rows = sort_key r_position rows"
  by (simp add: ordered_def sort_by_key)

lemma ordered_mset [simp]: "mset (ordered rows) = mset rows"
  by (simp add: ordered_def)

lemma set_ordered [simp]: "set (ordered rows) = set rows"
  by (simp add: ordered_def)

lemma set_draft: "set (draft d) = set (t_route_drafts d)"
  by (simp add: draft_def)

lemma length_draft: "length (draft d) = length (t_route_drafts d)"
  by (simp add: draft_def ordered_def)

lemma distinct_draft: "distinct (map f (draft d)) = distinct (map f (t_route_drafts d))"
  by (simp add: draft_def ordered_def)

lemma ordered_unique:
  assumes "mset ys = mset rows" "sorted (map r_position ys)" "distinct (map r_position ys)"
  shows "ordered rows = ys"
proof -
  have "inj_on r_position (set rows)" using assms(1,3) by (metis distinct_map set_mset_mset)
  then show ?thesis unfolding ordered_key
    using assms(1,2) by (metis distinct_map assms(3) sort_key_inj_key_eq sorted_sort_id)
qed

lemma ordered_map: "(\<And>r. r_position (f r) = r_position r) \<Longrightarrow> ordered (map f rows) = map f (ordered rows)"
proof -
  assume f: "\<And>r. r_position (f r) = r_position r"
  have "insert_by (\<lambda>a b. r_position a \<le> r_position b) (f x) (map f ys) =
        map f (insert_by (\<lambda>a b. r_position a \<le> r_position b) x ys)" for x ys
    by (induction ys) (simp_all add: f)
  then show ?thesis unfolding ordered_def by (induction rows) simp_all
qed

section \<open>Moving rows\<close>

definition unpos :: "route_rule \<Rightarrow> route_rule" where
  "unpos r = r\<lparr>r_position := 0\<rparr>"

lemma unpos_simps [simp]: "r_id (unpos r) = r_id r" "unpos (r\<lparr>r_position := p\<rparr>) = unpos r"
  "(unpos r)\<lparr>r_position := p\<rparr> = r\<lparr>r_position := p\<rparr>"
  by (simp_all add: unpos_def)

lemma touch_simps [simp]: "r_id (touch t r) = r_id r" "r_position (touch t r) = r_position r"
  "r_action (touch t r) = r_action r" "r_matcher (touch t r) = r_matcher r" "r_value (touch t r) = r_value r"
  "r_source (touch t r) = r_source r" "r_locked (touch t r) = r_locked r" "r_enabled (touch t r) = r_enabled r"
  by (simp_all add: touch_def split: option.split)

fun renumber :: "time option \<Rightarrow> nat \<Rightarrow> route_rule list \<Rightarrow> route_rule list" where
  "renumber t p [] = []"
| "renumber t p (r # rs) = touch t (r\<lparr>r_position := p\<rparr>) # renumber t (Suc p) rs"

lemma upt_head: "[p..<p + length (x # xs)] = p # [Suc p..<Suc p + length xs]"
  using upt_conv_Cons [of p "p + length (x # xs)"] by (simp del: upt_Suc)

lemma renumber_positions: "map r_position (renumber t p rs) = [p..<p + length rs]"
proof (induction rs arbitrary: p)
  case (Cons r rs)
  show ?case unfolding upt_head using Cons [of "Suc p"] by simp
qed simp

lemma renumber_map: "(\<And>t p r. f (touch t (r\<lparr>r_position := p\<rparr>)) = f r) \<Longrightarrow> map f (renumber t p rs) = map f rs"
  by (induction rs arbitrary: p) auto

lemma renumber_append: "renumber t p (xs @ ys) = renumber t p xs @ renumber t (p + length xs) ys"
  by (induction xs arbitrary: p) auto

lemma length_renumber [simp]: "length (renumber t p rs) = length rs"
  by (induction rs arbitrary: p) auto

text \<open>Where a rule goes: to the place of its id.\<close>

definition placed :: "time option \<Rightarrow> nat \<Rightarrow> string list \<Rightarrow> route_rule \<Rightarrow> route_rule" where
  "placed t p ids r =
     (case find_index (\<lambda>i. i = r_id r) ids of
        None \<Rightarrow> r | Some k \<Rightarrow> touch t (r\<lparr>r_position := p + k\<rparr>))"

lemma find_index_None: "find_index P xs = None \<longleftrightarrow> (\<forall>x\<in>set xs. \<not> P x)"
  by (induction xs) auto

lemma move_rules_placed:
  "distinct ids \<Longrightarrow> move_rules t p ids rows = Ok rows' \<Longrightarrow> rows' = map (placed t p ids) rows"
proof (induction ids arbitrary: p rows)
  case Nil
  then show ?case by (simp add: placed_def map_idI)
next
  case (Cons i ids)
  then obtain rows1 where m: "move_rule t p i rows = Ok rows1" "move_rules t (Suc p) ids rows1 = Ok rows'" by auto
  from m(1) have r1: "rows1 = update_where (\<lambda>r. r_id r = i) (\<lambda>r. touch t (r\<lparr>r_position := p\<rparr>)) rows"
    by (simp add: move_rule_def split: if_splits)
  have "rows' = map (placed t (Suc p) ids) rows1" using Cons m(2) by simp
  moreover have "placed t (Suc p) ids (if r_id r = i then touch t (r\<lparr>r_position := p\<rparr>) else r) =
      placed t p (i # ids) r" for r
  proof (cases "r_id r = i")
    case True
    with Cons.prems(1) have "find_index (\<lambda>j. j = i) ids = None" by (auto simp: find_index_None)
    with True show ?thesis by (simp add: placed_def)
  next
    case False
    then show ?thesis by (auto simp: placed_def split: option.splits)
  qed
  ultimately show ?case by (simp add: r1 update_where_def)
qed

lemma map_placed:
  assumes "distinct (map r_id rs)"
  shows "map (placed t p (map r_id rs)) rs = renumber t p rs"
proof -
  have "map (placed t p (map r_id (pre @ rs))) rs = renumber t (p + length pre) rs"
    if "distinct (map r_id (pre @ rs))" for pre
    using that
  proof (induction rs arbitrary: pre)
    case (Cons r rs)
    have "find_index (\<lambda>i. i = r_id r) (map r_id pre @ r_id r # map r_id rs) = Some (length (map r_id pre))"
      using Cons.prems by (intro find_index_append) (auto simp: image_iff)
    then have "placed t p (map r_id (pre @ r # rs)) r = touch t (r\<lparr>r_position := p + length pre\<rparr>)"
      by (simp add: placed_def)
    moreover from Cons.IH [of "pre @ [r]"] Cons.prems
    have "map (placed t p (map r_id (pre @ r # rs))) rs = renumber t (Suc (p + length pre)) rs" by simp
    ultimately show ?case by simp
  qed simp
  from this [of "[]"] assms show ?thesis by simp
qed

lemma arrange:
  assumes ids: "distinct (map r_id rs)" and same: "mset (map unpos rs) = mset (map unpos rows)"
    and moved: "move_rules t 0 (map r_id rs) rows = Ok rows'"
  shows "ordered rows' = renumber t 0 rs"
proof -
  let ?g = "placed t 0 (map r_id rs)"
  have g: "?g r = ?g (unpos r)" if "r_id r \<in> r_id ` set rs" for r
    using that find_index_None [of "\<lambda>i. i = r_id r" "map r_id rs"]
    by (auto simp: placed_def split: option.splits)
  have "set (map unpos rows) = set (map unpos rs)" using same by (metis set_mset_mset)
  then have ids_rows: "r_id r \<in> r_id ` set rs" if "r \<in> set rows" for r
  proof -
    from that have "unpos r \<in> set (map unpos rs)" unfolding \<open>set (map unpos rows) = set (map unpos rs)\<close> [symmetric] by simp
    then obtain s where "s \<in> set rs" "unpos s = unpos r" by auto
    then show ?thesis by (metis image_eqI unpos_simps(1))
  qed
  have "mset (map ?g rows) = image_mset (\<lambda>r. ?g (unpos r)) (mset rows)"
    unfolding mset_map by (rule image_mset_cong) (simp, rule g, rule ids_rows)
  also have "\<dots> = image_mset ?g (mset (map unpos rows))" by (simp add: image_mset.compositionality comp_def)
  also have "\<dots> = image_mset (\<lambda>r. ?g (unpos r)) (mset rs)"
    unfolding same [symmetric] by (simp add: image_mset.compositionality comp_def)
  also have "\<dots> = mset (map ?g rs)"
    unfolding mset_map by (rule image_mset_cong) (simp, rule g [symmetric], simp)
  also have "\<dots> = mset (renumber t 0 rs)" by (simp only: map_placed [OF ids])
  finally have "mset (renumber t 0 rs) = mset rows'" using move_rules_placed [OF ids moved] by simp
  then show ?thesis by (rule ordered_unique) (simp_all add: renumber_positions)
qed

lemma bump_unpos: "bump_positions acc rows = Ok rows' \<Longrightarrow> map unpos rows' = map unpos (acc @ rows)"
  by (induction acc rows rule: bump_positions.induct) (auto split: if_splits)

lemma insert_draft_Ok: "insert_draft r rows = Ok rows' \<longleftrightarrow> r_id r \<notin> r_id ` set rows \<and> r_position r \<notin> r_position ` set rows \<and> rows' = rows @ [r]"
  by (auto simp: insert_draft_def)

lemma unpos_ids: "map unpos xs = map unpos ys \<Longrightarrow> map r_id xs = map r_id ys"
  by (metis (no_types, lifting) map_eq_conv map_map comp_def unpos_simps(1))

section \<open>Inserting a list of rules\<close>

fun inserted :: "bool \<Rightarrow> (nat \<Rightarrow> string) \<Rightarrow> time \<Rightarrow> nat \<Rightarrow> route_rule list \<Rightarrow> route_rule list" where
  "inserted preserve fresh now p [] = []"
| "inserted preserve fresh now p (r # rs) =
     r\<lparr>r_id := (if preserve then r_id r else fresh p), r_position := p, r_created_at := now, r_updated_at := now\<rparr>
     # inserted preserve fresh now (Suc p) rs"

lemma insert_rules_rows:
  "insert_rules preserve fresh now p rs rows = Ok rows' \<Longrightarrow>
     rows' = rows @ inserted preserve fresh now p rs \<and>
     (distinct (map r_id rows) \<longrightarrow> distinct (map r_id rows'))"
proof (induction rs arbitrary: p rows)
  case (Cons r rs)
  let ?r = "r\<lparr>r_id := (if preserve then r_id r else fresh p), r_position := p, r_created_at := now, r_updated_at := now\<rparr>"
  from Cons.prems have "r_id ?r \<notin> r_id ` set rows" "insert_rules preserve fresh now (Suc p) rs (rows @ [?r]) = Ok rows'"
    by (auto simp: insert_draft_Ok simp del: select_convs)
  note IH = Cons.IH [OF this(2)]
  have "distinct (map r_id rows) \<Longrightarrow> distinct (map r_id (rows @ [?r]))"
    using \<open>r_id ?r \<notin> r_id ` set rows\<close> by simp
  with IH show ?case by (simp only: inserted.simps append_assoc append_Cons append_Nil) blast
qed simp

lemma inserted_positions: "map r_position (inserted preserve fresh now p rs) = [p..<p + length rs]"
proof (induction rs arbitrary: p)
  case (Cons r rs)
  show ?case unfolding upt_head using Cons [of "Suc p"] by simp
qed simp

lemma inserted_map:
  "(\<And>r i p n m. f (r\<lparr>r_id := i, r_position := p, r_created_at := n, r_updated_at := m\<rparr>) = f r) \<Longrightarrow>
   map f (inserted preserve fresh now p rs) = map f rs"
  by (induction rs arbitrary: p) auto

lemma inserted_ids: "map r_id (inserted True fresh now p rs) = map r_id rs"
  by (induction rs arbitrary: p) auto

lemma write_draft_rows:
  assumes "write_draft rs preserve fresh now d = Ok d'"
  shows "draft d' = inserted preserve fresh now 0 rs" "distinct (map r_id (draft d'))"
    "d' = d\<lparr>t_route_drafts := inserted preserve fresh now 0 rs\<rparr>"
proof -
  from assms obtain rows where r: "insert_rules preserve fresh now 0 rs [] = Ok rows" "d' = d\<lparr>t_route_drafts := rows\<rparr>"
    by (auto simp: write_draft_def)
  from insert_rules_rows [OF r(1)] have rows: "rows = inserted preserve fresh now 0 rs" "distinct (map r_id rows)" by auto
  from rows(1) r(2) show "d' = d\<lparr>t_route_drafts := inserted preserve fresh now 0 rs\<rparr>" by simp
  have "ordered rows = rows" by (rule ordered_unique) (simp_all add: rows(1) inserted_positions)
  with rows r(2) show "draft d' = inserted preserve fresh now 0 rs" "distinct (map r_id (draft d'))"
    by (simp_all add: draft_def)
qed


section \<open>What each request does to the draft\<close>

lemma route_audit_fields [simp]:
  "t_route_drafts (route_audit a b c r n d) = t_route_drafts d"
  "t_route_revisions (route_audit a b c r n d) = t_route_revisions d"
  "s_active_route_version (route_audit a b c r n d) = s_active_route_version d"
  "draft (route_audit a b c r n d) = draft d"
  by (simp_all add: route_audit_def draft_def)

definition same_revisions :: "db \<Rightarrow> db \<Rightarrow> bool" where
  "same_revisions d d' \<longleftrightarrow>
     t_route_revisions d' = t_route_revisions d \<and> s_active_route_version d' = s_active_route_version d"

lemma add_route_effect:
  assumes ids: "distinct (map r_id (draft d))"
    and ok: "add_route check input actor i now d = Ok d'"
  obtains data v where "parse_route input = Ok data" "validate_value (ri_matcher data) (ri_value data) = Ok v"
    "check [(ri_matcher data, v, ri_enabled data)] = Ok ()"
    "\<not> terminal (ri_matcher data) v" "\<not> duplicate (ri_matcher data) v None d" "i \<notin> r_id ` set (draft d)"
    "same_revisions d d'"
    "draft d' = renumber (Some now) 0 (filter is_local (draft d) @
       \<lparr>r_id = i, r_position = 0, r_action = ri_action data, r_matcher = ri_matcher data, r_value = v,
        r_source = UserRule, r_locked = False, r_enabled = ri_enabled data, r_created_at = now,
        r_updated_at = now\<rparr> # filter (\<lambda>r. \<not> is_local r) (draft d))"
proof -
  let ?rule = "\<lambda>p data v. \<lparr>r_id = i, r_position = p, r_action = ri_action data, r_matcher = ri_matcher data, r_value = v,
        r_source = UserRule, r_locked = False, r_enabled = ri_enabled data, r_created_at = now, r_updated_at = now\<rparr>"
  let ?ls = "filter is_local (draft d)" and ?os = "filter (\<lambda>r. \<not> is_local r) (draft d)"
  from ok obtain data v rows1 rows2 rows3 where data: "parse_route input = Ok data"
    "validate_value (ri_matcher data) (ri_value data) = Ok v" "check [(ri_matcher data, v, ri_enabled data)] = Ok ()"
    "\<not> terminal (ri_matcher data) v" "\<not> duplicate (ri_matcher data) v None d"
    and rows: "bump_positions [] (t_route_drafts d) = Ok rows1"
    "insert_draft (?rule (length (draft d) + 20000) data v) rows1 = Ok rows2"
    "move_rules (Some now) 0 (map r_id (?ls @ ?rule (length (draft d) + 20000) data v # ?os)) rows2 = Ok rows3"
    "d' = route_audit actor ''routes.create'' ''route'' (Some i) now (d\<lparr>t_route_drafts := rows3\<rparr>)"
    by (auto simp: add_route_def Let_def split: if_splits)
  let ?rs = "?ls @ ?rule 0 data v # ?os"
  from bump_unpos [OF rows(1)] have u1: "map unpos rows1 = map unpos (t_route_drafts d)" by simp
  from rows(2) have r2: "rows2 = rows1 @ [?rule (length (draft d) + 20000) data v]" and new: "i \<notin> r_id ` set rows1"
    by (auto simp: insert_draft_Ok)
  have "r_id ` set rows1 = r_id ` set (draft d)"
    using unpos_ids [OF u1] by (metis list.set_map set_draft)
  with new have fresh: "i \<notin> r_id ` set (draft d)" by simp
  have "mset (map unpos (?ls @ ?os)) = mset (map unpos (draft d))"
    by (metis mset_map mset_append multiset_partition mset_filter)
  then have "mset (map unpos ?rs) = mset (map unpos rows2)"
    by (simp add: r2 u1 draft_def unpos_def)
  moreover have "distinct (map r_id ?rs)" using ids fresh by (auto simp: distinct_map inj_on_def)
  moreover have "move_rules (Some now) 0 (map r_id ?rs) rows2 = Ok rows3" using rows(3) by simp
  ultimately have "ordered rows3 = renumber (Some now) 0 ?rs" by (intro arrange)
  with rows(4) have "draft d' = renumber (Some now) 0 ?rs" "same_revisions d d'"
    by (simp_all add: draft_def same_revisions_def)
  with data fresh show ?thesis by (rule_tac that)
qed

lemma remove_route_effect:
  assumes ids: "distinct (map r_id (draft d))" and ok: "remove_route i actor now d = Ok d'"
  obtains before where "find_rule i d = Ok before" "\<not> r_locked before" "same_revisions d d'"
    "draft d' = renumber None 0 (filter (\<lambda>r. r_id r \<noteq> i) (draft d))"
proof -
  let ?rows = "delete_where (\<lambda>r. r_id r = i) (t_route_drafts d)"
  from ok obtain before rows1 rows2 where b: "find_rule i d = Ok before" "\<not> r_locked before"
    and rows: "bump_positions [] ?rows = Ok rows1" "move_rules None 0 (map r_id (ordered ?rows)) rows1 = Ok rows2"
    "d' = route_audit actor ''routes.delete'' ''route'' (Some i) now (d\<lparr>t_route_drafts := rows2\<rparr>)"
    by (auto simp: remove_route_def reindex_def split: if_splits)
  have "ordered ?rows = filter (\<lambda>r. r_id r \<noteq> i) (draft d)"
    unfolding draft_def ordered_key delete_where_def by (simp add: filter_sort)
  moreover have "ordered rows2 = renumber None 0 (ordered ?rows)"
  proof (rule arrange [OF _ _ rows(2)])
    show "distinct (map r_id (ordered ?rows))"
      using ids by (simp add: ordered_def draft_def distinct_map_delete_where)
    show "mset (map unpos (ordered ?rows)) = mset (map unpos rows1)"
      using bump_unpos [OF rows(1)] by (simp add: mset_map [symmetric] del: mset_map) (simp only: mset_map ordered_mset)
  qed
  ultimately have "draft d' = renumber None 0 (filter (\<lambda>r. r_id r \<noteq> i) (draft d))" "same_revisions d d'"
    using rows(3) by (simp_all add: draft_def same_revisions_def)
  with b show ?thesis by (rule_tac that)
qed

definition row_with :: "route_rule list \<Rightarrow> string \<Rightarrow> route_rule" where
  "row_with rows i = the (select_one (\<lambda>r. r_id r = i) rows)"

lemma row_with_id: "distinct (map r_id rows) \<Longrightarrow> r \<in> set rows \<Longrightarrow> row_with rows (r_id r) = r"
  by (simp add: row_with_def select_one_unique [of r_id])

lemma reorder_effect:
  assumes ids: "distinct (map r_id (draft d))" and dist: "distinct order"
    and ok: "reorder_routes order actor now d = Ok d'"
  shows "mset (map (row_with (draft d)) order) = mset (draft d)" "same_revisions d d'"
    "draft d' = renumber (Some now) 0 (map (row_with (draft d)) order)"
proof -
  from ok obtain rows1 rows2 where guard: "length order = length (draft d)" "set order \<subseteq> r_id ` set (draft d)"
    and rows: "bump_positions [] (t_route_drafts d) = Ok rows1" "move_rules (Some now) 0 order rows1 = Ok rows2"
    "d' = route_audit actor ''routes.reorder'' ''routes'' None now (d\<lparr>t_route_drafts := rows2\<rparr>)"
    by (auto simp: reorder_routes_def Let_def split: if_splits)
  have "r_id (row_with (draft d) i) = i" if "i \<in> set order" for i
  proof -
    from that guard(2) obtain r where "r \<in> set (draft d)" "i = r_id r" by blast
    with row_with_id [OF ids] show ?thesis by metis
  qed
  then have same_ids: "map r_id (map (row_with (draft d)) order) = order" by (simp add: map_idI)
  have "card (set order) = card (r_id ` set (draft d))"
    using dist ids guard(1) by (metis distinct_card length_map list.set_map)
  then have "set order = r_id ` set (draft d)" using guard(2) by (simp add: card_subset_eq)
  then have "set (map (row_with (draft d)) order) = set (draft d)"
    using row_with_id [OF ids] by (force simp: image_iff)
  moreover have "distinct (map (row_with (draft d)) order)" using dist same_ids by (metis distinct_map)
  moreover have "distinct (draft d)" using ids by (simp add: distinct_map)
  ultimately show perm: "mset (map (row_with (draft d)) order) = mset (draft d)" using set_eq_iff_mset_eq_distinct by blast
  have "ordered rows2 = renumber (Some now) 0 (map (row_with (draft d)) order)"
  proof (rule arrange)
    show "distinct (map r_id (map (row_with (draft d)) order))" using dist by (simp only: same_ids)
    show "move_rules (Some now) 0 (map r_id (map (row_with (draft d)) order)) rows1 = Ok rows2" using rows(2) by (simp only: same_ids)
    have "map unpos rows1 = map unpos (t_route_drafts d)" using bump_unpos [OF rows(1)] by simp
    then show "mset (map unpos (map (row_with (draft d)) order)) = mset (map unpos rows1)"
      by (metis (no_types) perm mset_map draft_def ordered_mset)
  qed
  with rows(3) show "draft d' = renumber (Some now) 0 (map (row_with (draft d)) order)" "same_revisions d d'"
    by (simp_all add: draft_def same_revisions_def)
qed

lemma draft_update_where:
  "(\<And>r. r_position (f r) = r_position r) \<Longrightarrow>
   draft (d\<lparr>t_route_drafts := update_where p f (t_route_drafts d)\<rparr>) = update_where p f (draft d)"
  unfolding draft_def update_where_def by (simp add: ordered_map)


section \<open>The invariant\<close>

type_synonym essence = "route_matcher \<times> string \<times> route_source \<times> bool \<times> bool"

definition essence :: "route_rule \<Rightarrow> essence" where
  "essence r = (r_matcher r, r_value r, r_source r, r_locked r, r_enabled r)"

definition local_essence :: "string \<Rightarrow> essence" where
  "local_essence v = (IP_CIDR, v, SystemRule, True, True)"

definition final_essence :: essence where
  "final_essence = (SUFFIX, ''*'', SystemRule, True, True)"

definition rule_key :: "essence \<Rightarrow> route_matcher \<times> string" where
  "rule_key e = (fst e, fst (snd e))"

definition own_rule :: "essence \<Rightarrow> bool" where
  "own_rule e = (case e of (m, v, s, l, b) \<Rightarrow> s \<noteq> SystemRule \<and> \<not> l \<and> validate_value m v = Ok v)"

text \<open>
  The local networks come first and the catch-all last, both locked and enabled; every rule
  in between is the owner's, canonical, and no condition occurs twice.
\<close>

definition well_formed :: "essence list \<Rightarrow> bool" where
  "well_formed es \<longleftrightarrow>
     (\<exists>mid. es = map local_essence local_networks @ mid @ [final_essence] \<and> list_all own_rule mid) \<and>
     distinct (map rule_key es)"

definition rules_ok :: "route_rule list \<Rightarrow> bool" where
  "rules_ok rs \<longleftrightarrow> distinct (map r_id rs) \<and> map r_position rs = [0..<length rs] \<and> well_formed (map essence rs)"

definition routes_inv :: "db \<Rightarrow> bool" where
  "routes_inv d \<longleftrightarrow>
     rules_ok (draft d) \<and> (\<forall>rv\<in>set (t_route_revisions d). rules_ok (rv_rules rv)) \<and>
     distinct (map rv_version (t_route_revisions d)) \<and>
     0 < s_active_route_version d \<and> s_active_route_version d \<in> rv_version ` set (t_route_revisions d)"

lemma essence_touch [simp]: "essence (touch t (r\<lparr>r_position := p\<rparr>)) = essence r"
  by (simp add: essence_def)

lemma dropWhile_keeps: "x \<in> set s \<Longrightarrow> \<not> P x \<Longrightarrow> x \<in> set (dropWhile P s)"
  by (induction s) auto

lemma trim_keeps: "c \<in> set s \<Longrightarrow> \<not> is_space c \<Longrightarrow> c \<in> set (trim s)"
  by (simp add: trim_def dropWhile_keeps)

lemma valid_normal: "validate_value m v = Ok v \<Longrightarrow> normalize_value m v = v"
proof (cases m)
  case IP_CIDR
  assume v: "validate_value m v = Ok v"
  show ?thesis
  proof (cases "is_ip (normalize_value IP_CIDR v) = 0")
    case True
    with v IP_CIDR show ?thesis by (auto simp: validate_value_def Let_def split: list.splits if_splits)
  next
    case False
    let ?n = "normalize_value IP_CIDR v"
    from False v IP_CIDR have "v = ?n @ slash # (if is_ip ?n = 4 then ''32'' else ''128'')" by (auto simp: validate_value_def)
    then have "slash \<in> set v" by (metis Un_iff list.set_intros(1) set_append)
    then have "slash \<in> set (trim v)" by (rule trim_keeps) (simp add: is_space_def)
    then have "lower_char slash \<in> set ?n" by (auto simp: normalize_value_def Let_def to_lower_def)
    then have "slash \<in> set ?n" by (simp add: lower_char_def is_upper_def)
    with ip_no_slash [OF False] have False ..
    then show ?thesis ..
  qed
qed (auto simp: validate_value_def Let_def split: if_splits)

lemma local_valid: "v \<in> set local_networks \<Longrightarrow> validate_value IP_CIDR v = Ok v"
proof -
  have "map (validate_value IP_CIDR) local_networks = map Ok local_networks" by code_simp
  then show "v \<in> set local_networks \<Longrightarrow> ?thesis" by simp
qed

lemma final_valid: "validate_value SUFFIX ''*'' = Ok ''*''"
  by code_simp

lemma well_formed_valid:
  assumes "well_formed (map essence rs)" "r \<in> set rs"
  shows "validate_value (r_matcher r) (r_value r) = Ok (r_value r)"
proof -
  from assms obtain mid where "essence r \<in> set (map local_essence local_networks @ mid @ [final_essence])" "list_all own_rule mid"
    unfolding well_formed_def by (metis image_eqI list.set_map)
  then show ?thesis using local_valid final_valid
    by (auto simp: essence_def own_rule_def local_essence_def final_essence_def list_all_iff)
qed

lemma well_formed_identity:
  "well_formed (map essence rs) \<Longrightarrow> r \<in> set rs \<Longrightarrow> identity r = rule_key (essence r)"
  using valid_normal [OF well_formed_valid] by (simp add: identity_def rule_key_def essence_def)

lemma local_iff: "is_local r \<longleftrightarrow> (\<exists>v\<in>set local_networks. fst (essence r) = IP_CIDR \<and> fst (snd (essence r)) = v \<and> fst (snd (snd (essence r))) = SystemRule)"
  by (auto simp: is_local_def essence_def)

text \<open>The draft as its three parts.\<close>

lemma distinct_parts:
  assumes "distinct (map f (ls @ mid @ [t]))"
  shows "f ` set ls \<inter> f ` set mid = {}" "f t \<notin> f ` set mid" "f t \<notin> f ` set ls" "distinct (map f mid)"
  using assms by auto

definition parts_of :: "route_rule list \<Rightarrow> route_rule list \<Rightarrow> route_rule list \<Rightarrow> route_rule \<Rightarrow> bool" where
  "parts_of rs ls mid t \<longleftrightarrow>
     rs = ls @ mid @ [t] \<and> map essence ls = map local_essence local_networks \<and>
     (\<forall>r\<in>set mid. own_rule (essence r)) \<and> essence t = final_essence \<and>
     filter is_local rs = ls \<and> filter (\<lambda>r. \<not> is_local r) rs = mid @ [t] \<and>
     (\<forall>l\<in>set ls. is_local l \<and> r_locked l) \<and> (\<forall>r\<in>set mid. \<not> is_local r \<and> \<not> r_locked r) \<and>
     \<not> is_local t \<and> r_locked t"

lemma parts_ofD:
  assumes "parts_of rs ls mid t"
  shows "rs = ls @ mid @ [t]" "map essence ls = map local_essence local_networks"
    "\<forall>r\<in>set mid. own_rule (essence r)" "essence t = final_essence"
    "filter is_local rs = ls" "filter (\<lambda>r. \<not> is_local r) rs = mid @ [t]"
    "\<forall>l\<in>set ls. is_local l \<and> r_locked l" "\<forall>r\<in>set mid. \<not> is_local r \<and> \<not> r_locked r"
    "\<not> is_local t" "r_locked t"
  using assms by (simp_all add: parts_of_def)

lemma parts:
  assumes "well_formed (map essence rs)"
  obtains ls mid t where "parts_of rs ls mid t"
proof -
  from assms obtain m where m: "map essence rs = map local_essence local_networks @ m @ [final_essence]" "list_all own_rule m"
    by (auto simp: well_formed_def)
  from m(1) [unfolded map_eq_append_conv] obtain ls rest where
    ls: "rs = ls @ rest" "map local_essence local_networks = map essence ls" "m @ [final_essence] = map essence rest"
    by (elim exE conjE) (rule that)
  from ls(3) [symmetric, unfolded map_eq_append_conv] obtain mid ts where
    mid: "rest = mid @ ts" "m = map essence mid" "[final_essence] = map essence ts"
    by (elim exE conjE) (rule that)
  then obtain t where t: "ts = [t]" "essence t = final_essence" by auto
  have own: "\<forall>r\<in>set mid. own_rule (essence r)" using m(2) mid(2) by (auto simp: list_all_iff)
  have loc: "is_local l \<and> r_locked l" if "l \<in> set ls" for l
  proof -
    from that ls(2) have "essence l \<in> local_essence ` set local_networks" by (metis image_eqI list.set_map)
    then show ?thesis by (auto simp: local_essence_def essence_def is_local_def)
  qed
  have no: "\<not> is_local r \<and> \<not> r_locked r" if "r \<in> set mid" for r
    using own that by (auto simp: own_rule_def essence_def is_local_def)
  have tt: "\<not> is_local t" "r_locked t" using t(2) by (auto simp: final_essence_def essence_def is_local_def)
  have "filter is_local rs = ls" "filter (\<lambda>r. \<not> is_local r) rs = mid @ [t]"
    using loc no tt by (simp_all add: ls mid t filter_empty_conv)
  moreover have "rs = ls @ mid @ [t]" by (simp only: ls(1) mid(1) t(1))
  ultimately have "parts_of rs ls mid t"
    unfolding parts_of_def using own loc no tt t(2) ls(2) [symmetric] by (intro conjI) blast+
  then show ?thesis by (rule that)
qed

lemma local_keys: "distinct (map rule_key (map local_essence local_networks))"
  by code_simp

lemma parts_formed:
  assumes "map essence ls = map local_essence local_networks" "\<forall>r\<in>set mid. own_rule (essence r)" "essence t = final_essence"
    "distinct (map (rule_key \<circ> essence) (ls @ mid @ [t]))"
  shows "well_formed (map essence (ls @ mid @ [t]))"
proof -
  have "map essence (ls @ mid @ [t]) = map local_essence local_networks @ map essence mid @ [final_essence]"
    using assms(1,3) by simp
  moreover have "list_all own_rule (map essence mid)" using assms(2) by (simp add: list_all_iff)
  ultimately show ?thesis using assms(4) unfolding well_formed_def by (metis map_map)
qed

lemma rules_ok_renumber:
  assumes "distinct (map r_id rs)" "well_formed (map essence rs)"
  shows "rules_ok (renumber t 0 rs)"
  using assms by (simp add: rules_ok_def renumber_positions renumber_map)

lemma rules_ok_inserted:
  assumes "well_formed (map essence rs)" "distinct (map r_id (inserted preserve fresh now 0 rs))"
  shows "rules_ok (inserted preserve fresh now 0 rs)"
proof -
  have "map essence (inserted preserve fresh now 0 rs) = map essence rs" by (rule inserted_map) (simp add: essence_def)
  moreover have "length (inserted preserve fresh now 0 rs) = length rs" by (metis calculation length_map)
  ultimately show ?thesis using assms by (simp add: rules_ok_def inserted_positions)
qed


section \<open>Every request keeps the invariant\<close>

lemma routes_inv_data:
  "draft d' = draft d \<Longrightarrow> same_revisions d d' \<Longrightarrow> routes_inv d \<Longrightarrow> routes_inv d'"
  by (simp add: routes_inv_def same_revisions_def)

lemma routes_inv_draft:
  "same_revisions d d' \<Longrightarrow> routes_inv d \<Longrightarrow> rules_ok (draft d') \<Longrightarrow> routes_inv d'"
  by (simp add: routes_inv_def same_revisions_def)

lemma routes_invD:
  assumes "routes_inv d"
  shows "distinct (map r_id (draft d))" "well_formed (map essence (draft d))"
    "map r_position (draft d) = [0..<length (draft d)]" "distinct (map (rule_key \<circ> essence) (draft d))"
  using assms by (simp_all add: routes_inv_def rules_ok_def well_formed_def comp_def)

lemma duplicate_key:
  assumes "routes_inv d" "validate_value m v = Ok v"
  shows "duplicate m v except d \<longleftrightarrow> (\<exists>r\<in>set (draft d). Some (r_id r) \<noteq> except \<and> rule_key (essence r) = (m, v))"
  using well_formed_identity [OF routes_invD(2) [OF assms(1)]] valid_normal [OF assms(2)]
  by (auto simp: duplicate_def)

lemma add_route_inv [inv_intros]:
  assumes inv: "routes_inv d" and ok: "add_route check input actor i now d = Ok d'"
  shows "routes_inv d'"
proof -
  note D = routes_invD [OF inv]
  obtain data v where "parse_route input = Ok data" and a: "validate_value (ri_matcher data) (ri_value data) = Ok v"
    and "check [(ri_matcher data, v, ri_enabled data)] = Ok ()" "\<not> terminal (ri_matcher data) v"
    and b: "\<not> duplicate (ri_matcher data) v None d" "i \<notin> r_id ` set (draft d)" "same_revisions d d'"
    and eff: "draft d' = renumber (Some now) 0 (filter is_local (draft d) @
       \<lparr>r_id = i, r_position = 0, r_action = ri_action data, r_matcher = ri_matcher data, r_value = v,
        r_source = UserRule, r_locked = False, r_enabled = ri_enabled data, r_created_at = now,
        r_updated_at = now\<rparr> # filter (\<lambda>r. \<not> is_local r) (draft d))" (is "_ = renumber _ _ (_ @ ?new # _)")
    by (rule add_route_effect [OF D(1) ok])
  obtain ls mid t where "parts_of (draft d) ls mid t" by (rule parts [OF D(2)])
  note p = parts_ofD [OF this]
  have v: "validate_value (ri_matcher data) v = Ok v" using a by (rule validate_value_stable)
  have "rule_key (essence ?new) \<notin> (rule_key \<circ> essence) ` set (draft d)"
    using b(1) duplicate_key [OF inv v, of None] by (auto simp: rule_key_def essence_def)
  with D(4) have keys: "distinct (map (rule_key \<circ> essence) (ls @ (?new # mid) @ [t]))" by (auto simp: p(1))
  have "own_rule (essence ?new)" using v by (simp add: own_rule_def essence_def)
  with p(3) have "\<forall>r\<in>set (?new # mid). own_rule (essence r)" by simp
  from parts_formed [OF p(2) this p(4) keys] have "well_formed (map essence (ls @ (?new # mid) @ [t]))" .
  moreover have "distinct (map r_id (ls @ (?new # mid) @ [t]))" using D(1) b(2) by (auto simp: p(1))
  ultimately have "rules_ok (renumber (Some now) 0 (ls @ (?new # mid) @ [t]))" by (intro rules_ok_renumber)
  then have "rules_ok (draft d')" unfolding eff p(5,6) by (simp only: append_Cons)
  with b(3) inv show ?thesis by (rule routes_inv_draft)
qed

lemma find_rule_row:
  assumes "find_rule i d = Ok r"
  shows "r \<in> set (draft d)" "r_id r = i"
  using assms by (auto simp: find_rule_def set_draft dest: select_one_Some split: option.splits)

lemma remove_route_inv [inv_intros]:
  assumes inv: "routes_inv d" and ok: "remove_route i actor now d = Ok d'"
  shows "routes_inv d'"
proof -
  note D = routes_invD [OF inv]
  obtain before where b: "find_rule i d = Ok before" "\<not> r_locked before" "same_revisions d d'"
    and eff: "draft d' = renumber None 0 (filter (\<lambda>r. r_id r \<noteq> i) (draft d))"
    by (rule remove_route_effect [OF D(1) ok])
  obtain ls mid t where "parts_of (draft d) ls mid t" by (rule parts [OF D(2)])
  note p = parts_ofD [OF this]
  from find_rule_row [OF b(1)] have "before \<in> set (ls @ mid @ [t])" "r_id before = i" unfolding p(1) by blast+
  with b(2) p(7,10) have "i \<in> r_id ` set mid" by auto
  moreover from D(1) [unfolded p(1)] have "r_id ` set ls \<inter> r_id ` set mid = {}" "r_id t \<notin> r_id ` set mid"
    by (rule distinct_parts)+
  ultimately have "\<forall>r\<in>set ls. r_id r \<noteq> i" "r_id t \<noteq> i" by auto
  then have eq: "filter (\<lambda>r. r_id r \<noteq> i) (draft d) = ls @ filter (\<lambda>r. r_id r \<noteq> i) mid @ [t]"
    by (simp add: p(1))
  have "distinct (map (rule_key \<circ> essence) (filter (\<lambda>r. r_id r \<noteq> i) (draft d)))" using D(4) by (rule distinct_map_filter)
  moreover from p(3) have "\<forall>r\<in>set (filter (\<lambda>r. r_id r \<noteq> i) mid). own_rule (essence r)" by simp
  ultimately have "well_formed (map essence (filter (\<lambda>r. r_id r \<noteq> i) (draft d)))"
    unfolding eq by (intro parts_formed p(2,4))
  moreover have "distinct (map r_id (filter (\<lambda>r. r_id r \<noteq> i) (draft d)))" using D(1) by (rule distinct_map_filter)
  ultimately have "rules_ok (draft d')" unfolding eff by (intro rules_ok_renumber)
  with b(3) inv show ?thesis by (rule routes_inv_draft)
qed


lemma rules_ok_same:
  assumes "rules_ok rs" "map r_id rs' = map r_id rs" "map r_position rs' = map r_position rs"
    "map essence rs' = map essence rs"
  shows "rules_ok rs'"
proof -
  have "length rs' = length rs" using assms(2) by (metis length_map)
  with assms show ?thesis by (simp add: rules_ok_def)
qed

lemma rules_ok_split:
  assumes "rules_ok rs" "parts_of rs ls mid t" "map r_id rs' = map r_id rs" "map r_position rs' = map r_position rs"
    "rs' = ls @ mid' @ [t]" "\<forall>r\<in>set mid'. own_rule (essence r)" "distinct (map (rule_key \<circ> essence) rs')"
  shows "rules_ok rs'"
proof -
  have "well_formed (map essence rs')" unfolding assms(5)
    by (rule parts_formed) (use assms(5-7) parts_ofD [OF assms(2)] in simp_all)
  moreover have "length rs' = length rs" using assms(3) by (metis length_map)
  ultimately show ?thesis using assms(1,3,4) by (simp add: rules_ok_def)
qed

lemma update_where_one:
  assumes "distinct (map r_id (as @ x # bs))"
  shows "update_where (\<lambda>r. r_id r = r_id x) f (as @ x # bs) = as @ f x # bs"
proof -
  have "update_where (\<lambda>r. r_id r = r_id x) f cs = cs" if "r_id x \<notin> r_id ` set cs" for cs
    using that by (induction cs) auto
  moreover from assms have "r_id x \<notin> r_id ` set as" "r_id x \<notin> r_id ` set bs" by auto
  ultimately show ?thesis by simp
qed

text \<open>The row \<open>update\<close> writes.\<close>

definition patched :: "route_action \<Rightarrow> route_matcher \<Rightarrow> string \<Rightarrow> bool \<Rightarrow> time \<Rightarrow> route_rule \<Rightarrow> route_rule" where
  "patched a m v b now r =
     r\<lparr>r_action := a, r_matcher := m, r_value := v, r_enabled := b, r_updated_at := now\<rparr>"

lemma update_route_cases:
  assumes ok: "update_route check i input actor now d = Ok d'"
  obtains (group) a where "d' = update_local a actor now d"
  | (row) before m v a b where "find_rule i d = Ok before" "validate_value m v = Ok v"
      "r_locked before \<Longrightarrow> m = r_matcher before \<and> b = r_enabled before \<and>
         (validate_value m (r_value before) = Ok (r_value before) \<longrightarrow> v = r_value before)"
      "(m, v) \<noteq> (r_matcher before, normalize_value (r_matcher before) (r_value before)) \<Longrightarrow> \<not> duplicate m v (Some i) d"
      "same_revisions d d'" "draft d' = update_where (\<lambda>r. r_id r = i) (patched a m v b now) (draft d)"
      "check [(m, v, b)] = Ok ()"
proof -
  from ok obtain before data where b: "find_rule i d = Ok before" "parse_patch input = Ok data"
    by (auto simp: update_route_def)
  from ok b have lk: "\<not> (r_locked before \<and> (rp_matcher data \<noteq> None \<or> rp_value data \<noteq> None \<or> rp_enabled data \<noteq> None))"
    by (simp add: update_route_def split: if_splits)
  note ok = ok [unfolded update_route_def b bind_result_simps if_not_P [OF lk]]
  show ?thesis
  proof (cases "is_local before \<and> rp_action data \<noteq> None")
    case True
    from ok [unfolded if_P [OF True]] show ?thesis by (intro group [of "the (rp_action data)"]) simp
  next
    case False
    let ?m = "coalesce (rp_matcher data) (r_matcher before)" and ?b = "coalesce (rp_enabled data) (r_enabled before)"
      and ?a = "coalesce (rp_action data) (r_action before)"
    note ok = ok [unfolded if_not_P [OF False] Let_def]
    from ok obtain v where v: "validate_value ?m (coalesce (rp_value data) (r_value before)) = Ok v"
      by auto
    from ok v have g: "\<not> ((?m \<noteq> r_matcher before \<or> v \<noteq> normalize_value (r_matcher before) (r_value before)) \<and> duplicate ?m v (Some i) d)"
      "check [(?m, v, ?b)] = Ok ()"
      "d' = route_audit actor ''routes.update'' ''route'' (Some i) now
         (d\<lparr>t_route_drafts := update_where (\<lambda>r. r_id r = i) (patched ?a ?m v ?b now) (t_route_drafts d)\<rparr>)"
      by (simp_all add: patched_def [abs_def] split: if_splits)
    show ?thesis
    proof (rule row [OF b(1) validate_value_stable [OF v]])
      show "r_locked before \<Longrightarrow> ?m = r_matcher before \<and> ?b = r_enabled before \<and>
         (validate_value ?m (r_value before) = Ok (r_value before) \<longrightarrow> v = r_value before)" using lk v by auto
      show "(?m, v) \<noteq> (r_matcher before, normalize_value (r_matcher before) (r_value before)) \<Longrightarrow> \<not> duplicate ?m v (Some i) d"
        using g(1) by auto
      show "same_revisions d d'" by (simp add: g(3) same_revisions_def)
      show "draft d' = update_where (\<lambda>r. r_id r = i) (patched ?a ?m v ?b now) (draft d)"
        unfolding g(3) by (simp add: draft_update_where patched_def)
    qed (rule g(2))
  qed
qed

lemma patched_simps [simp]: "r_id (patched a m v b now r) = r_id r" "r_position (patched a m v b now r) = r_position r"
  "essence (patched a m v b now r) = (m, v, r_source r, r_locked r, b)"
  by (simp_all add: patched_def essence_def)

lemma update_local_inv:
  assumes inv: "routes_inv d"
  shows "routes_inv (update_local a actor now d)"
proof -
  let ?f = "\<lambda>r. r\<lparr>r_action := a, r_updated_at := now\<rparr>"
  let ?p = "\<lambda>r. r_id r \<in> set (map r_id (filter is_local (draft d)))"
  have eff: "draft (update_local a actor now d) = update_where ?p ?f (draft d)"
    using draft_update_where [of ?f ?p d] by (simp add: update_local_def Let_def)
  have "rules_ok (draft d)" using inv by (simp add: routes_inv_def)
  then have "rules_ok (update_where ?p ?f (draft d))"
    by (rule rules_ok_same) (rule map_update_where, simp add: essence_def)+
  moreover have "same_revisions d (update_local a actor now d)" by (simp add: update_local_def Let_def same_revisions_def)
  ultimately show ?thesis using inv by (simp add: eff routes_inv_draft)
qed

lemma update_route_inv [inv_intros]:
  assumes inv: "routes_inv d" and ok: "update_route check i input actor now d = Ok d'"
  shows "routes_inv d'"
  using ok
proof (cases rule: update_route_cases)
  case (group a)
  then show ?thesis using update_local_inv [OF inv] by simp
next
  case (row before m v a b)
  note D = routes_invD [OF inv]
  have ok: "rules_ok (draft d)" using inv by (simp add: routes_inv_def)
  note bef = find_rule_row [OF row(1)]
  let ?f = "patched a m v b now"
  have ids: "map r_id (draft d') = map r_id (draft d)" "map r_position (draft d') = map r_position (draft d)"
    unfolding row(6) by (rule map_update_where, simp)+
  have "rules_ok (draft d')"
  proof (cases "r_locked before")
    case True
    with row(3) well_formed_valid [OF D(2) bef(1)] have "m = r_matcher before" "b = r_enabled before" "v = r_value before"
      by auto
    then have same: "essence (?f before) = essence before" by (simp add: essence_def patched_def)
    have "essence (?f r) = essence r" if "r \<in> set (draft d)" "r_id r = i" for r
      using that bef D(1) same by (metis distinct_key_unique)
    then have "map essence (draft d') = map essence (draft d)" unfolding row(6) update_where_def by simp
    from rules_ok_same [OF ok ids this] show ?thesis .
  next
    case False
    obtain ls mid t where parts: "parts_of (draft d) ls mid t" by (rule parts [OF D(2)])
    note p = parts_ofD [OF parts]
    from bef(1) have "before \<in> set (ls @ mid @ [t])" unfolding p(1) .
    with False p(7,10) have "before \<in> set mid" by auto
    then obtain m1 m2 where mid: "mid = m1 @ before # m2" by (auto dest: split_list)
    have dr: "draft d = (ls @ m1) @ before # (m2 @ [t])" by (simp add: p(1) mid)
    have new: "draft d' = ls @ (m1 @ ?f before # m2) @ [t]"
      unfolding row(6) bef(2) [symmetric] dr using update_where_one [OF D(1) [unfolded dr], of ?f] by simp
    have "own_rule (essence before)" using p(3) mid by simp
    then have "r_source before \<noteq> SystemRule" "\<not> r_locked before" by (simp_all add: own_rule_def essence_def)
    then have "own_rule (essence (?f before))" using row(2) by (simp add: own_rule_def)
    then have own: "\<forall>r\<in>set (m1 @ ?f before # m2). own_rule (essence r)" using p(3) mid by auto
    have key: "(m, v) \<notin> (rule_key \<circ> essence) ` set (ls @ m1 @ m2 @ [t])"
    proof (cases "(m, v) = (r_matcher before, normalize_value (r_matcher before) (r_value before))")
      case True
      with well_formed_valid [OF D(2) bef(1)] valid_normal have "(m, v) = rule_key (essence before)"
        by (simp add: rule_key_def essence_def)
      then show ?thesis using D(4) unfolding dr by auto
    next
      case ne: False
      show ?thesis
      proof
        assume "(m, v) \<in> (rule_key \<circ> essence) ` set (ls @ m1 @ m2 @ [t])"
        then obtain r where r: "r \<in> set (ls @ m1 @ m2 @ [t])" "rule_key (essence r) = (m, v)"
          by (metis comp_apply imageE)
        moreover from r(1) D(1) [unfolded dr] have "r_id r \<noteq> r_id before" by (auto simp: image_iff)
        moreover from r(1) have "r \<in> set (draft d)" unfolding dr by auto
        ultimately have "duplicate m v (Some i) d" using duplicate_key [OF inv row(2)] bef(2) by auto
        with row(4) [OF ne] show False ..
      qed
    qed
    have "distinct (map (rule_key \<circ> essence) (ls @ m1 @ m2 @ [t]))" using D(4) unfolding dr by auto
    with key have "distinct (map (rule_key \<circ> essence) (draft d'))" unfolding new by (auto simp: rule_key_def)
    with rules_ok_split [OF ok parts ids new own] show ?thesis .
  qed
  with row(5) inv show ?thesis by (metis routes_inv_draft)
qed


text \<open>Sorting requests that name every rule once.\<close>

lemma essence_fields:
  "essence r = local_essence v \<longleftrightarrow> r_matcher r = IP_CIDR \<and> r_value r = v \<and> r_source r = SystemRule \<and> r_locked r \<and> r_enabled r"
  "essence r = final_essence \<longleftrightarrow> r_matcher r = SUFFIX \<and> r_value r = ''*'' \<and> r_source r = SystemRule \<and> r_locked r \<and> r_enabled r"
  by (auto simp: essence_def local_essence_def final_essence_def)

lemma locals_of_parts:
  assumes "parts_of rs ls mid t"
  shows "locals_of rs = ls" "length ls = 3"
proof -
  note p = parts_ofD [OF assms]
  from p(2) have "map essence ls = [local_essence ''10.0.0.0/8'', local_essence ''172.16.0.0/12'', local_essence ''192.168.0.0/16'']"
    by (simp add: local_networks_def)
  then obtain a b c where ls: "ls = [a, b, c]" and e: "essence a = local_essence ''10.0.0.0/8''"
    "essence b = local_essence ''172.16.0.0/12''" "essence c = local_essence ''192.168.0.0/16''"
    by (auto simp: map_eq_Cons_conv)
  then show "length ls = 3" by simp
  from e have v: "r_value a = ''10.0.0.0/8''" "r_value b = ''172.16.0.0/12''" "r_value c = ''192.168.0.0/16''"
    "is_local a" "is_local b" "is_local c"
    by (auto simp: essence_fields is_local_def local_networks_def)
  show "locals_of rs = ls"
    by (simp add: locals_of_def local_networks_def p(1) ls v List.map_filter_simps)
qed

lemma find_terminal:
  assumes "parts_of rs ls mid t" "distinct (map (rule_key \<circ> essence) rs)"
  shows "find (\<lambda>r. terminal (r_matcher r) (r_value r)) rs = Some t"
proof -
  note p = parts_ofD [OF assms(1)]
  have key: "terminal (r_matcher r) (r_value r) \<longleftrightarrow> rule_key (essence r) = (SUFFIX, ''*'')" for r
    by (auto simp: terminal_def rule_key_def essence_def)
  from p(4) have t: "rule_key (essence t) = (SUFFIX, ''*'')" by (simp add: rule_key_def final_essence_def)
  with assms(2) have "(SUFFIX, ''*'') \<notin> (rule_key \<circ> essence) ` set (ls @ mid)" unfolding p(1) by auto
  then have "\<forall>r\<in>set (ls @ mid). \<not> terminal (r_matcher r) (r_value r)" unfolding key by (metis comp_apply image_eqI)
  then have "find (\<lambda>r. terminal (r_matcher r) (r_value r)) (ls @ mid) = None" unfolding find_None_iff by blast
  moreover have "find P (xs @ [t]) = Some t" if "find P xs = None" "P t" for P xs
    using that by (induction xs) (auto split: if_splits)
  ultimately have "find (\<lambda>r. terminal (r_matcher r) (r_value r)) ((ls @ mid) @ [t]) = Some t" using t key by blast
  then show ?thesis by (simp add: p(1))
qed

lemma reorder_inv [inv_intros]:
  assumes inv: "routes_inv d" and dist: "distinct order" and ok: "reorder_routes order actor now d = Ok d'"
  shows "routes_inv d'"
proof -
  note D = routes_invD [OF inv]
  note eff = reorder_effect [OF D(1) dist ok]
  obtain ls mid t where parts: "parts_of (draft d) ls mid t" by (rule parts [OF D(2)])
  note p = parts_ofD [OF parts]
  from ok have "length order = length (draft d)" "order \<noteq> [] \<and> last order = r_id t" "locals_first order ls"
    by (auto simp: reorder_routes_def Let_def find_terminal [OF parts D(4)] locals_of_parts [OF parts] split: if_splits)
  then have len: "length order = length ls + length mid + 1" and last: "order \<noteq> []" "last order = r_id t"
    and first: "take (length ls) order = map r_id ls" by (auto simp: p(1) locals_first_def)
  define x where "x = butlast (drop (length ls) order)"
  have "drop (length ls) order \<noteq> []" using len by simp
  then have "order = take (length ls) order @ x @ [last (drop (length ls) order)]"
    unfolding x_def by (metis append_butlast_last_id append_take_drop_id)
  moreover have "last (drop (length ls) order) = r_id t" using last len by (simp add: last_drop)
  ultimately have order: "order = map r_id ls @ x @ [r_id t]" using first by metis
  have row: "map (row_with (draft d)) (map r_id rs) = rs" if "\<forall>r\<in>set rs. r \<in> set (draft d)" for rs
    using that row_with_id [OF D(1)] by (auto intro!: map_idI)
  have rs: "map (row_with (draft d)) order = ls @ map (row_with (draft d)) x @ [t]"
    unfolding order map_append using row [of ls] row [of "[t]"] p(1) by simp
  from eff(1) have "mset (map (row_with (draft d)) x) = mset mid" unfolding rs unfolding p(1) by simp
  then have mid: "set (map (row_with (draft d)) x) = set mid" by (metis set_mset_mset)
  have "distinct (map (rule_key \<circ> essence) (map (row_with (draft d)) order))"
    using D(4) eff(1) by (metis mset_map mset_eq_imp_distinct_iff)
  then have "well_formed (map essence (map (row_with (draft d)) order))"
    unfolding rs using p(2-4) mid by (intro parts_formed) simp_all
  moreover have "distinct (map r_id (map (row_with (draft d)) order))"
    using D(1) eff(1) by (metis mset_map mset_eq_imp_distinct_iff)
  ultimately have "rules_ok (draft d')" unfolding eff(3) by (intro rules_ok_renumber)
  from routes_inv_draft [OF eff(2) inv this] show ?thesis .
qed

section \<open>Publishing, rolling back, discarding\<close>

lemma write_draft_ok:
  assumes "write_draft rs preserve fresh now d = Ok d'" "rules_ok rs"
  shows "rules_ok (draft d')" "same_revisions d d'"
proof -
  note w = write_draft_rows [OF assms(1)]
  show "rules_ok (draft d')" using w(1,2) assms(2) rules_ok_inserted [of rs preserve fresh now] by (simp add: rules_ok_def)
  show "same_revisions d d'" by (simp add: w(3) same_revisions_def)
qed

lemma journal_change_routes:
  assumes "journal_change ty mutate (\<lambda>_ now d. audit a b c r after now d) ent now d = Ok (x, d')"
  obtains d1 where "mutate d = Ok (x, d1)" "draft d' = draft d1" "same_revisions d1 d'"
proof -
  from assms obtain d1 where m: "mutate d = Ok (x, d1)"
    "record_event ty ((ent x)\<lparr>je_audit_id := Some (fst (audit a b c r after now d1))\<rparr>) now (snd (audit a b c r after now d1)) = Ok d'"
    by (auto simp: journal_change_def case_prod_beta)
  from data_of_fields [OF record_event_data [OF m(2)]] have
    "t_route_drafts d' = t_route_drafts d1" "same_revisions d1 d'" by (simp_all add: same_revisions_def)
  with m(1) show ?thesis by (intro that) (simp_all add: draft_def)
qed

lemma publish_rules_effect:
  assumes "publish_rules prepare version_of note actor ty aa extra replacement rnd now d = Ok (cache, d')"
  obtains d1 where
    "prepare (coalesce replacement (draft d)) = Ok cache"
    "(case replacement of None \<Rightarrow> Ok d | Some rs \<Rightarrow> write_draft rs False (\<lambda>n. rnd (Suc n)) now d) = Ok d1"
    "draft d' = draft d1"
    "t_route_revisions d' = t_route_revisions d1 @ [\<lparr>rv_id = rnd 0, rv_version = Suc (max_version d),
       rv_rules = coalesce replacement (draft d), rv_note = trim note, rv_created_at = now, rv_actor = actor,
       rv_ruleset_version = version_of (coalesce replacement (draft d))\<rparr>]"
    "s_active_route_version d' = Suc (max_version d)"
    "Suc (max_version d) \<notin> rv_version ` set (t_route_revisions d1)"
proof -
  let ?rules = "coalesce replacement (draft d)"
  let ?mut = "\<lambda>d0. bind_result (case replacement of None \<Rightarrow> Ok d0
                       | Some rs \<Rightarrow> write_draft rs False (\<lambda>n. rnd (Suc n)) now d0) (\<lambda>d0.
         bind_result (insert_revision \<lparr>rv_id = rnd 0, rv_version = Suc (max_version d), rv_rules = ?rules,
           rv_note = trim note, rv_created_at = now, rv_actor = actor,
           rv_ruleset_version = version_of ?rules\<rparr> d0) (\<lambda>d0.
         Ok ((), d0\<lparr>s_active_route_version := Suc (max_version d)\<rparr>)))"
  from assms obtain y where prep: "prepare ?rules = Ok cache"
    and ch: "journal_change ty ?mut (\<lambda>_ now d. audit actor aa ''route_revision'' (Some (rnd 0)) None now d)
       (\<lambda>_. publish_entry actor (Suc (max_version d)) (rnd 0) (length ?rules) (version_of ?rules) (trim note) extra) now d = Ok (y, d')"
    by (auto simp: publish_rules_def Let_def split: if_splits)
  from ch obtain d2 where m: "?mut d = Ok (y, d2)" "draft d' = draft d2" "same_revisions d2 d'"
    by (rule journal_change_routes)
  from m(1) obtain d1 where d1: "(case replacement of None \<Rightarrow> Ok d | Some rs \<Rightarrow> write_draft rs False (\<lambda>n. rnd (Suc n)) now d) = Ok d1"
    and ins: "Suc (max_version d) \<notin> rv_version ` set (t_route_revisions d1)"
    "d2 = d1\<lparr>t_route_revisions := t_route_revisions d1 @ [\<lparr>rv_id = rnd 0, rv_version = Suc (max_version d),
       rv_rules = ?rules, rv_note = trim note, rv_created_at = now, rv_actor = actor,
       rv_ruleset_version = version_of ?rules\<rparr>], s_active_route_version := Suc (max_version d)\<rparr>"
    by (auto simp: insert_revision_def split: if_splits)
  show ?thesis
  proof (rule that [OF prep d1])
    show "draft d' = draft d1" using m(2) by (simp add: ins(2) draft_def)
  qed (use m(3) ins in \<open>simp_all add: same_revisions_def\<close>)
qed

lemma publish_rules_inv:
  assumes inv: "routes_inv d" and ok: "publish_rules prepare version_of note actor ty aa extra replacement rnd now d = Ok (cache, d')"
    and rep: "\<And>rs. replacement = Some rs \<Longrightarrow> rules_ok rs"
  shows "routes_inv d'"
proof -
  obtain d1 where e: "prepare (coalesce replacement (draft d)) = Ok cache"
    "(case replacement of None \<Rightarrow> Ok d | Some rs \<Rightarrow> write_draft rs False (\<lambda>n. rnd (Suc n)) now d) = Ok d1"
    "draft d' = draft d1"
    "t_route_revisions d' = t_route_revisions d1 @ [\<lparr>rv_id = rnd 0, rv_version = Suc (max_version d),
       rv_rules = coalesce replacement (draft d), rv_note = trim note, rv_created_at = now, rv_actor = actor,
       rv_ruleset_version = version_of (coalesce replacement (draft d))\<rparr>]"
    "s_active_route_version d' = Suc (max_version d)"
    "Suc (max_version d) \<notin> rv_version ` set (t_route_revisions d1)"
    by (rule publish_rules_effect [OF ok])
  have old: "rules_ok (draft d)" using inv by (simp add: routes_inv_def)
  have rules: "rules_ok (coalesce replacement (draft d))" using rep old by (cases replacement) auto
  have d1: "rules_ok (draft d1)" "same_revisions d d1"
    using e(2) rep old write_draft_ok by (auto simp: same_revisions_def split: option.splits)
  show ?thesis using inv rules d1 e(3-6) by (auto simp: routes_inv_def same_revisions_def)
qed

lemma publish_routes_inv [inv_intros]:
  "routes_inv d \<Longrightarrow> publish_routes prepare version_of note actor rnd now d = Ok (cache, d') \<Longrightarrow> routes_inv d'"
  unfolding publish_routes_def by (rule publish_rules_inv) auto

lemma revision_row: "revision v d = Ok rv \<Longrightarrow> rv \<in> set (t_route_revisions d) \<and> rv_version rv = v"
  by (auto simp: revision_def dest: select_one_Some split: option.splits)

lemma revision_ok: "routes_inv d \<Longrightarrow> revision v d = Ok rv \<Longrightarrow> rules_ok (rv_rules rv)"
  using revision_row by (auto simp: routes_inv_def)

lemma rollback_routes_inv [inv_intros]:
  assumes "routes_inv d" "rollback_routes prepare version_of v actor rnd now d = Ok (cache, d')"
  shows "routes_inv d'"
proof -
  from assms(2) obtain rv where rv: "revision v d = Ok rv" by (auto simp: rollback_routes_def)
  from assms(2) rv show ?thesis unfolding rollback_routes_def bind_result_simps
    using revision_ok [OF assms(1) rv] by (intro publish_rules_inv [OF assms(1)]) auto
qed

lemma discard_routes_effect:
  assumes "discard_routes actor now d = Ok d'"
  obtains rv where "revision (s_active_route_version d) d = Ok rv"
    "draft d' = inserted True (\<lambda>_. []) now 0 (rv_rules rv)" "same_revisions d d'" "distinct (map r_id (draft d'))"
proof -
  from assms obtain rv d1 where rv: "revision (s_active_route_version d) d = Ok rv"
    and w: "write_draft (rv_rules rv) True (\<lambda>_. []) now d = Ok d1"
    and d': "d' = route_audit actor ''routes.discard'' ''routes'' None now d1"
    by (auto simp: discard_routes_def split: if_splits)
  show ?thesis
    by (rule that [OF rv]) (use write_draft_rows [OF w] in \<open>simp_all add: d' same_revisions_def\<close>)
qed

lemma discard_routes_inv [inv_intros]:
  assumes "routes_inv d" "discard_routes actor now d = Ok d'"
  shows "routes_inv d'"
proof -
  obtain rv where e: "revision (s_active_route_version d) d = Ok rv"
    "draft d' = inserted True (\<lambda>_. []) now 0 (rv_rules rv)" "same_revisions d d'" "distinct (map r_id (draft d'))"
    by (rule discard_routes_effect [OF assms(2)])
  from revision_ok [OF assms(1) e(1)] e(2,4) have "rules_ok (draft d')"
    using rules_ok_inserted [of "rv_rules rv" True "\<lambda>_. []" now] by (simp add: rules_ok_def)
  from routes_inv_draft [OF e(3) assms(1) this] show ?thesis .
qed


section \<open>The seed\<close>

lemma insert_all_rows:
  "insert_all rs rows = Ok rows' \<Longrightarrow>
     rows' = rows @ rs \<and> (distinct (map r_id rows) \<longrightarrow> distinct (map r_id rows'))"
proof (induction rs arbitrary: rows)
  case (Cons r rs)
  from Cons.prems have new: "r_id r \<notin> r_id ` set rows" and "insert_all rs (rows @ [r]) = Ok rows'"
    by (auto simp: insert_draft_Ok)
  note IH = Cons.IH [OF this(2)]
  from IH have "rows' = rows @ r # rs" by simp
  moreover from new have "distinct (map r_id rows) \<Longrightarrow> distinct (map r_id (rows @ [r]))" by simp
  ultimately show ?case using IH by blast
qed simp

lemma default_essence: "essence (default_rule rnd now p x) = (fst (snd x), snd (snd x), SystemRule, True, True)"
  by (simp add: default_rule_def essence_def)

lemma seed_routes_db:
  assumes "seed_routes rnd now d0 = Ok d" "t_route_drafts d0 = []" "t_route_revisions d0 = []"
    "s_active_route_version d0 = 0"
  obtains rows where "distinct (map r_id rows)" "map r_position rows = [0..<length rows]" "ordered rows = rows"
    "map essence rows = map local_essence local_networks @ [final_essence]"
    "d = d0\<lparr>t_route_drafts := rows, t_route_revisions :=
      [\<lparr>rv_id = rnd (length default_routes), rv_version = 1, rv_rules = rows, rv_note = [], rv_created_at = now,
        rv_actor = ''system'', rv_ruleset_version = None\<rparr>], s_active_route_version := 1\<rparr>"
proof -
  let ?rows = "map (\<lambda>(p, x). default_rule rnd now p x) (enumerate 0 default_routes)"
  from assms(1,2) obtain rows where rows: "insert_all ?rows [] = Ok rows"
    and pub: "publish_initial (rnd (length default_routes)) now (d0\<lparr>t_route_drafts := rows\<rparr>) = Ok d"
    by (auto simp: seed_routes_def)
  from insert_all_rows [OF rows] have r: "rows = ?rows" "distinct (map r_id rows)" by auto
  have pos: "map r_position rows = [0..<length rows]"
    by (simp add: r(1) default_routes_def default_rule_def upt_rec)
  have ordered: "ordered rows = rows" by (rule ordered_unique) (simp_all add: pos)
  have ess: "map essence rows = map local_essence local_networks @ [final_essence]"
    by (simp add: r(1) default_routes_def default_essence local_networks_def local_essence_def final_essence_def)
  have "list_all2 is_default default_routes rows"
    by (simp add: r(1) default_routes_def is_default_def default_rule_def)
  with pub assms(3,4) ordered have "d = d0\<lparr>t_route_drafts := rows, t_route_revisions :=
      [\<lparr>rv_id = rnd (length default_routes), rv_version = 1, rv_rules = rows, rv_note = [], rv_created_at = now,
        rv_actor = ''system'', rv_ruleset_version = None\<rparr>], s_active_route_version := 1\<rparr>"
    by (simp add: publish_initial_def draft_def insert_revision_def)
  with r(2) pos ordered ess show ?thesis by (rule that)
qed

lemma seed_routes_inv:
  assumes "seed_routes rnd now d0 = Ok d" "t_route_drafts d0 = []" "t_route_revisions d0 = []"
    "s_active_route_version d0 = 0"
  shows "routes_inv d"
proof -
  obtain rows where r: "distinct (map r_id rows)" "map r_position rows = [0..<length rows]" "ordered rows = rows"
    "map essence rows = map local_essence local_networks @ [final_essence]"
    "d = d0\<lparr>t_route_drafts := rows, t_route_revisions :=
      [\<lparr>rv_id = rnd (length default_routes), rv_version = 1, rv_rules = rows, rv_note = [], rv_created_at = now,
        rv_actor = ''system'', rv_ruleset_version = None\<rparr>], s_active_route_version := 1\<rparr>"
    by (rule seed_routes_db [OF assms])
  have "distinct (map rule_key (map local_essence local_networks @ [final_essence]))" by code_simp
  then have "well_formed (map essence rows)" unfolding well_formed_def r(4) by auto
  with r show ?thesis by (simp add: routes_inv_def rules_ok_def draft_def)
qed

end
