(* ===== verification/Route_Properties.thy ===== *)
theory Route_Properties
  imports Route_Safety "HOL-Library.Code_Target_Nat"
begin

text \<open>
  What the owner can rely on when editing routes: the order of the rules after any sequence of
  requests, which additions are accepted, what discarding and rolling back restore, and the
  one request that breaks the order.
\<close>

section \<open>Sequences of requests\<close>

datatype route_request =
    RAdd json string
  | RUpdate string json
  | RRemove string
  | RReorder "string list"
  | RPublish string "nat \<Rightarrow> string"
  | RDiscard
  | RRollback nat "nat \<Rightarrow> string"

text \<open>
  One request of the owner at a time; a request that fails changes nothing.  The catalogue is
  the one of that time.
\<close>

definition route_call ::
  "(time \<Rightarrow> rule_use list \<Rightarrow> unit result) \<Rightarrow> (time \<Rightarrow> route_rule list \<Rightarrow> 'c result)
   \<Rightarrow> (time \<Rightarrow> route_rule list \<Rightarrow> string option) \<Rightarrow> time \<times> route_request \<Rightarrow> db \<Rightarrow> db result" where
  "route_call check prepare version_of c d =
     (case c of (now, req) \<Rightarrow>
        (case req of
           RAdd input i \<Rightarrow> add_route (check now) input ''owner'' i now d
         | RUpdate i input \<Rightarrow> update_route (check now) i input ''owner'' now d
         | RRemove i \<Rightarrow> remove_route i ''owner'' now d
         | RReorder ids \<Rightarrow> reorder_routes ids ''owner'' now d
         | RPublish note rnd \<Rightarrow> map_sum id snd (publish_routes (prepare now) (version_of now) note ''owner'' rnd now d)
         | RDiscard \<Rightarrow> discard_routes ''owner'' now d
         | RRollback v rnd \<Rightarrow> map_sum id snd (rollback_routes (prepare now) (version_of now) v ''owner'' rnd now d)))"

fun run_routes ::
  "(time \<Rightarrow> rule_use list \<Rightarrow> unit result) \<Rightarrow> (time \<Rightarrow> route_rule list \<Rightarrow> 'c result)
   \<Rightarrow> (time \<Rightarrow> route_rule list \<Rightarrow> string option) \<Rightarrow> (time \<times> route_request) list \<Rightarrow> db \<Rightarrow> db" where
  "run_routes check prepare version_of [] d = d"
| "run_routes check prepare version_of (c # cs) d =
     run_routes check prepare version_of cs
       (case route_call check prepare version_of c d of Inl _ \<Rightarrow> d | Inr d' \<Rightarrow> d')"

definition sorts_each_once :: "route_request \<Rightarrow> bool" where
  "sorts_each_once req = (case req of RReorder ids \<Rightarrow> distinct ids | _ \<Rightarrow> True)"

lemma route_call_inv:
  assumes "routes_inv d" "sorts_each_once (snd c)" "route_call check prepare version_of c d = Ok d'"
  shows "routes_inv d'"
proof -
  obtain now req where c: "c = (now, req)" by (cases c)
  have snd_Ok: "map_sum id snd r = Ok d' \<Longrightarrow> \<exists>x. r = Ok (x, d')" for r :: "('c \<times> db) result"
    by (cases r) auto
  from assms(2,3) c show ?thesis
    by (cases req) (auto simp: route_call_def sorts_each_once_def dest!: snd_Ok intro: inv_intros assms(1))
qed

lemma run_routes_inv:
  "routes_inv d \<Longrightarrow> \<forall>c\<in>set cs. sorts_each_once (snd c) \<Longrightarrow> routes_inv (run_routes check prepare version_of cs d)"
proof (induction cs arbitrary: d)
  case (Cons c cs)
  have "routes_inv (case route_call check prepare version_of c d of Inl _ \<Rightarrow> d | Inr d' \<Rightarrow> d')"
  proof (cases "route_call check prepare version_of c d")
    case (Inr d')
    with Cons.prems route_call_inv [of d c] show ?thesis by simp
  qed (use Cons.prems in simp)
  with Cons show ?case by simp
qed simp

lemma published_revision:
  assumes "routes_inv d"
  obtains rv where "revision (s_active_route_version d) d = Ok rv" "published d = Ok (rv_rules rv)" "rules_ok (rv_rules rv)"
proof -
  from assms have a: "0 < s_active_route_version d" "\<exists>r\<in>set (t_route_revisions d). rv_version r = s_active_route_version d"
    by (auto simp: routes_inv_def)
  then obtain rv where "revision (s_active_route_version d) d = Ok rv"
    by (cases "select_one (\<lambda>r. rv_version r = s_active_route_version d) (t_route_revisions d)")
       (auto simp: revision_def)
  with a(1) revision_ok [OF assms] show ?thesis by (intro that) (auto simp: published_def)
qed

definition sample_ids :: "nat \<Rightarrow> string" where
  "sample_ids n = show_nat n"

definition sample_routes :: db where
  "sample_routes = (case seed_routes sample_ids 0 empty_db of Inl _ \<Rightarrow> empty_db | Inr d \<Rightarrow> d)"

lemma sample_seeded: "seed_routes sample_ids 0 empty_db = Ok sample_routes"
  by code_simp

definition any_rule :: "'a \<Rightarrow> 'b \<Rightarrow> unit result" where
  "any_rule _ _ = Ok ()"

definition no_version :: "'a \<Rightarrow> 'b \<Rightarrow> string option" where
  "no_version _ _ = None"

definition rule_json :: "string \<Rightarrow> string \<Rightarrow> string \<Rightarrow> json" where
  "rule_json a m v = JObj [(''action'', JStr a), (''matcher'', JStr m), (''value'', JStr v)]"



section \<open>Which rules are accepted\<close>

lemma bump_positions_total:
  assumes "\<forall>r\<in>set rows. r_position r < 10000" "distinct (map r_position rows)"
    "\<forall>a\<in>set acc. 10000 \<le> r_position a \<and> (\<forall>r\<in>set rows. r_position a \<noteq> r_position r + 10000)"
  shows "\<exists>rows'. bump_positions acc rows = Ok rows' \<and>
     map r_position rows' = map r_position acc @ map (\<lambda>r. r_position r + 10000) rows"
  using assms
proof (induction acc rows rule: bump_positions.induct)
  case (2 acc r rows)
  have free: "r_position r + 10000 \<notin> r_position ` set (acc @ rows)" using 2(2-4) by fastforce
  have "\<exists>rows'. bump_positions (acc @ [r\<lparr>r_position := r_position r + 10000\<rparr>]) rows = Ok rows' \<and>
     map r_position rows' = map r_position (acc @ [r\<lparr>r_position := r_position r + 10000\<rparr>]) @ map (\<lambda>r. r_position r + 10000) rows"
    using 2(2-4) by (intro 2(1) [OF free]) auto
  with free show ?case by auto
qed simp

lemma move_rules_total:
  assumes "distinct ids" "\<forall>r\<in>set rows. r_position r < p \<or> p + length ids \<le> r_position r"
  shows "\<exists>rows'. move_rules t p ids rows = Ok rows'"
  using assms
proof (induction ids arbitrary: p rows)
  case (Cons i ids)
  let ?rows = "update_where (\<lambda>r. r_id r = i) (\<lambda>r. touch t (r\<lparr>r_position := p\<rparr>)) rows"
  have "move_rule t p i rows = Ok ?rows" using Cons.prems(2) by (fastforce simp: move_rule_def)
  moreover have "\<exists>rows'. move_rules t (Suc p) ids ?rows = Ok rows'"
    using Cons.prems by (intro Cons.IH) (fastforce simp: set_update_where)+
  ultimately show ?case by auto
qed simp




section \<open>Discarding and rolling back\<close>

lemma insert_rules_total:
  assumes "distinct (map r_id (rows @ rs))" "\<forall>r\<in>set rows. r_position r < p"
  shows "\<exists>rows'. insert_rules True fresh now p rs rows = Ok rows'"
  using assms
proof (induction rs arbitrary: p rows)
  case (Cons r rs)
  let ?r = "r\<lparr>r_position := p, r_created_at := now, r_updated_at := now\<rparr>"
  have "insert_draft ?r rows = Ok (rows @ [?r])" using Cons.prems by (auto simp: insert_draft_Ok)
  moreover have "\<exists>rows'. insert_rules True fresh now (Suc p) rs (rows @ [?r]) = Ok rows'"
    using Cons.prems by (intro Cons.IH) auto
  ultimately show ?case by auto
qed simp

lemma content_inserted:
  assumes "map r_position rs = [0..<length rs]"
  shows "map content (inserted preserve fresh now 0 rs) = map content rs"
proof -
  let ?c = "\<lambda>r. (r_action r, r_matcher r, r_value r, r_source r, r_locked r, r_enabled r)"
  let ?is = "inserted preserve fresh now 0 rs"
  have c: "map ?c ?is = map ?c rs" by (rule inserted_map) simp
  have len: "length ?is = length rs" using arg_cong [OF c, of length] by simp
  have p: "map r_position ?is = map r_position rs" by (simp add: inserted_positions assms)
  show ?thesis
  proof (rule nth_equalityI)
    fix k assume "k < length (map content ?is)"
    then have k: "k < length ?is" "k < length rs" by (simp_all add: len)
    from k c have "?c (?is ! k) = ?c (rs ! k)" by (metis (no_types, lifting) nth_map)
    moreover from k p have "r_position (?is ! k) = r_position (rs ! k)" by (metis nth_map)
    ultimately show "map content ?is ! k = map content rs ! k" using k by (simp add: content_def)
  qed (simp add: len)
qed

lemma revision_unique:
  assumes "distinct (map rv_version (t_route_revisions d))" "rv \<in> set (t_route_revisions d)"
  shows "revision (rv_version rv) d = Ok rv"
  using select_one_unique [of rv_version "t_route_revisions d" rv "\<lambda>r. rv_version r = rv_version rv"] assms
  by (simp add: revision_def)

lemma clean_state:
  assumes "routes_inv d" "published d = Ok rs" "map content (draft d) = map content rs"
  shows "\<exists>s. route_state d = Ok s \<and> rs_draft s = draft d \<and> \<not> rs_dirty s"
proof -
  obtain rv where rv: "revision (s_active_route_version d) d = Ok rv" "published d = Ok (rv_rules rv)" "rules_ok (rv_rules rv)"
    by (rule published_revision [OF assms(1)])
  moreover from assms(1) have "0 < s_active_route_version d" by (simp add: routes_inv_def)
  ultimately show ?thesis using assms(2,3) by (simp add: route_state_def Let_def)
qed

text \<open>
  Discarding always succeeds once rules have been published, and makes the draft equal to
  them: the same ids in the same order with the same fields, so the state reports no
  unpublished changes; the published rules themselves do not change.
\<close>

theorem discard_restores:
  assumes inv: "routes_inv d"
  shows "\<exists>d' rs s. discard_routes actor now d = Ok d' \<and> published d = Ok rs \<and> published d' = Ok rs \<and>
     map r_id (draft d') = map r_id rs \<and> map content (draft d') = map content rs \<and>
     route_state d' = Ok s \<and> \<not> rs_dirty s"
proof -
  obtain rv where rv: "revision (s_active_route_version d) d = Ok rv" "published d = Ok (rv_rules rv)" "rules_ok (rv_rules rv)"
    by (rule published_revision [OF inv])
  have act: "s_active_route_version d \<noteq> 0" using inv by (simp add: routes_inv_def)
  have "\<exists>rows. insert_rules True (\<lambda>_. []) now 0 (rv_rules rv) [] = Ok rows"
    by (rule insert_rules_total) (use rv(3) in \<open>simp_all add: rules_ok_def\<close>)
  then obtain d' where ok: "discard_routes actor now d = Ok d'"
    using rv(1) act by (auto simp: discard_routes_def write_draft_def)
  obtain rv' where e: "revision (s_active_route_version d) d = Ok rv'"
    "draft d' = inserted True (\<lambda>_. []) now 0 (rv_rules rv')" "same_revisions d d'" "distinct (map r_id (draft d'))"
    by (rule discard_routes_effect [OF ok])
  with rv(1) have dr: "draft d' = inserted True (\<lambda>_. []) now 0 (rv_rules rv)" by simp
  have ids: "map r_id (draft d') = map r_id (rv_rules rv)" unfolding dr by (rule inserted_ids)
  have cont: "map content (draft d') = map content (rv_rules rv)"
    unfolding dr by (rule content_inserted) (use rv(3) in \<open>simp add: rules_ok_def\<close>)
  have pub: "published d' = Ok (rv_rules rv)" using rv(1) act e(3) by (simp add: published_def revision_def same_revisions_def)
  from clean_state [OF discard_routes_inv [OF inv ok] pub cont] ok rv(2) pub ids cont show ?thesis by blast
qed

lemma discard_restores_witness:
  "\<exists>d'. discard_routes ''owner'' 9 (run_routes any_rule any_rule no_version
      [(1, RUpdate ''3'' (JObj [(''action'', JStr ''BLOCK'')]))] sample_routes) = Ok d' \<and>
     map r_action (draft d') = [DIRECT, DIRECT, DIRECT, PROXY]"
proof -
  let ?cs = "[(1, RUpdate ''3'' (JObj [(''action'', JStr ''BLOCK'')]))]"
  let ?d = "run_routes any_rule any_rule no_version ?cs sample_routes"
  have seed: "routes_inv sample_routes"
    by (rule seed_routes_inv [OF sample_seeded]) (simp_all add: empty_db_def)
  have "routes_inv ?d" by (rule run_routes_inv [OF seed]) (simp add: sorts_each_once_def)
  from discard_restores [OF this, of "''owner''" 9] obtain d' rs where d: "discard_routes ''owner'' 9 ?d = Ok d'"
    "published ?d = Ok rs" "map content (draft d') = map content rs" by blast
  have "map_sum id (map r_action) (published ?d) = Ok [DIRECT, DIRECT, DIRECT, PROXY]" by code_simp
  with d(2) have "map r_action rs = [DIRECT, DIRECT, DIRECT, PROXY]" by simp
  moreover have "map r_action (draft d') = map r_action rs"
    using arg_cong [OF d(3), of "map (fst \<circ> snd)"] by (simp add: content_def comp_def)
  ultimately have "map r_action (draft d') = [DIRECT, DIRECT, DIRECT, PROXY]" by simp
  with d(1) show ?thesis by (intro exI [of _ d'] conjI)
qed

text \<open>
   Rolling back to a revision publishes exactly its rules as a new, higher version: the
  draft has the same fields, every older revision can still be read, and nothing is left
  unpublished.
\<close>

theorem rollback_restores:
  assumes inv: "routes_inv d" and target: "revision v d = Ok rv"
    and ok: "rollback_routes prepare version_of v actor rnd now d = Ok (cache, d')"
  shows "published d' = Ok (rv_rules rv) \<and> map content (draft d') = map content (rv_rules rv) \<and>
     (\<forall>w r. revision w d = Ok r \<longrightarrow> w < s_active_route_version d' \<and> revision w d' = Ok r) \<and>
     (\<exists>s. route_state d' = Ok s \<and> \<not> rs_dirty s)"
proof -
  note inv' = rollback_routes_inv [OF inv ok]
  have rules: "rules_ok (rv_rules rv)" by (rule revision_ok [OF inv target])
  from ok [unfolded rollback_routes_def target bind_result_simps] obtain d1 where
    "prepare (coalesce (Some (rv_rules rv)) (draft d)) = Ok cache"
    and w: "(case Some (rv_rules rv) of None \<Rightarrow> Ok d | Some rs \<Rightarrow> write_draft rs False (\<lambda>n. rnd (Suc n)) now d) = Ok d1"
    and e: "draft d' = draft d1"
    "t_route_revisions d' = t_route_revisions d1 @ [\<lparr>rv_id = rnd 0, rv_version = Suc (max_version d),
       rv_rules = coalesce (Some (rv_rules rv)) (draft d), rv_note = trim (show_nat v), rv_created_at = now, rv_actor = actor,
       rv_ruleset_version = version_of (coalesce (Some (rv_rules rv)) (draft d))\<rparr>]"
    "s_active_route_version d' = Suc (max_version d)"
    "Suc (max_version d) \<notin> rv_version ` set (t_route_revisions d1)"
    by (rule publish_rules_effect)
  from w have wr: "write_draft (rv_rules rv) False (\<lambda>n. rnd (Suc n)) now d = Ok d1" by simp
  have d1: "t_route_revisions d1 = t_route_revisions d"
    using write_draft_rows(3) [OF wr] by simp
  have "draft d' = inserted False (\<lambda>n. rnd (Suc n)) now 0 (rv_rules rv)"
    using e(1) write_draft_rows(1) [OF wr] by simp
  then have cont: "map content (draft d') = map content (rv_rules rv)"
    using content_inserted [of "rv_rules rv"] rules by (simp add: rules_ok_def)
  have dist: "distinct (map rv_version (t_route_revisions d'))" using inv' by (simp add: routes_inv_def)
  have new: "revision (Suc (max_version d)) d' = Ok \<lparr>rv_id = rnd 0, rv_version = Suc (max_version d),
       rv_rules = rv_rules rv, rv_note = trim (show_nat v), rv_created_at = now, rv_actor = actor,
       rv_ruleset_version = version_of (rv_rules rv)\<rparr>"
    using revision_unique [OF dist, of "\<lparr>rv_id = rnd 0, rv_version = Suc (max_version d),
       rv_rules = rv_rules rv, rv_note = trim (show_nat v), rv_created_at = now, rv_actor = actor,
       rv_ruleset_version = version_of (rv_rules rv)\<rparr>"] by (simp add: e(2))
  then have pub: "published d' = Ok (rv_rules rv)" by (simp add: published_def e(3))
  have old: "w < s_active_route_version d' \<and> revision w d' = Ok r" if r: "revision w d = Ok r" for w r
  proof -
    from revision_row [OF r] have "r \<in> set (t_route_revisions d')" "rv_version r = w" "r \<in> set (t_route_revisions d)"
      by (simp_all add: e(2) d1)
    then have "revision w d' = Ok r" using revision_unique [OF dist, of r] by simp
    moreover have "foldr max (map rv_version rs) 0 \<ge> rv_version r" if "r \<in> set rs" for rs
      using that by (induction rs) auto
    then have "w \<le> max_version d" using \<open>r \<in> set (t_route_revisions d)\<close> \<open>rv_version r = w\<close>
      by (auto simp: max_version_def)
    ultimately show ?thesis by (simp add: e(3))
  qed
  from clean_state [OF inv' pub cont] pub cont old show ?thesis by blast
qed

definition two_revisions :: db where
  "two_revisions = run_routes any_rule any_rule no_version
     [(1, RUpdate ''3'' (JObj [(''action'', JStr ''BLOCK'')])), (2, RPublish ''n'' (\<lambda>n. ''p'' @ show_nat n))] sample_routes"

lemma rollback_restores_witness:
  "\<exists>d'. rollback_routes (any_rule (0 :: int)) (no_version (0 :: int)) 1 ''owner'' (\<lambda>n. ''b'' @ show_nat n) 3 two_revisions = Ok ((), d') \<and>
     map r_action (draft d') = [DIRECT, DIRECT, DIRECT, PROXY]"
proof -
  let ?rb = "rollback_routes (any_rule (0 :: int)) (no_version (0 :: int)) 1 ''owner'' (\<lambda>n. ''b'' @ show_nat n) 3 two_revisions"
  have seed: "routes_inv sample_routes"
    by (rule seed_routes_inv [OF sample_seeded]) (simp_all add: empty_db_def)
  have inv: "routes_inv two_revisions" unfolding two_revisions_def
    by (rule run_routes_inv [OF seed]) (simp add: sorts_each_once_def)
  have "is_ok ?rb" by code_simp
  then obtain d' where ok: "?rb = Ok ((), d')" by (auto simp: is_ok_def split: sum.splits)
  have "map_sum id (map r_action \<circ> rv_rules) (revision 1 two_revisions) = Ok [DIRECT, DIRECT, DIRECT, PROXY]" by code_simp
  then obtain rv where rv: "revision 1 two_revisions = Ok rv" "map r_action (rv_rules rv) = [DIRECT, DIRECT, DIRECT, PROXY]"
    by (cases "revision 1 two_revisions") auto
  from rollback_restores [OF inv rv(1) ok] have "map content (draft d') = map content (rv_rules rv)" by blast
  from arg_cong [OF this, of "map (fst \<circ> snd)"] rv(2)
  have "map r_action (draft d') = [DIRECT, DIRECT, DIRECT, PROXY]" by (simp add: content_def comp_def)
  with ok show ?thesis by (intro exI [of _ d'] conjI)
qed

section \<open>A sorting request that names a rule twice\<close>

text \<open>
  The check of a sorting request compares only its length and membership: a list that
  names one rule twice and leaves another out is accepted, and the omitted rule is left
  behind the catch-all, where no traffic reaches it.
\<close>

theorem repeated_id_breaks_order:
  "\<exists>d'. reorder_routes [''0'', ''1'', ''2'', ''x'', ''x'', ''3''] ''owner'' 3
          (run_routes any_rule any_rule no_version
            [(1, RAdd (rule_json ''BLOCK'' ''SUFFIX'' ''ads.example'') ''x''),
             (2, RAdd (rule_json ''DIRECT'' ''SUFFIX'' ''bank.example'') ''y'')] sample_routes) = Ok d' \<and>
        map (\<lambda>r. (r_id r, r_position r)) (draft d') =
          [(''0'', 0), (''1'', 1), (''2'', 2), (''x'', 4), (''3'', 5), (''y'', 10003)]"
proof -
  let ?r = "reorder_routes [''0'', ''1'', ''2'', ''x'', ''x'', ''3''] ''owner'' 3
          (run_routes any_rule any_rule no_version
            [(1, RAdd (rule_json ''BLOCK'' ''SUFFIX'' ''ads.example'') ''x''),
             (2, RAdd (rule_json ''DIRECT'' ''SUFFIX'' ''bank.example'') ''y'')] sample_routes)"
  have "map_sum id (\<lambda>d'. map (\<lambda>r. (r_id r, r_position r)) (draft d')) ?r =
     Ok [(''0'', 0), (''1'', 1), (''2'', 2), (''x'', 4), (''3'', 5), (''y'', 10003)]" by code_simp
  then show ?thesis by (cases ?r) auto
qed

end
