(* ===== verification/Site_Suffixes.thy ===== *)
theory Site_Suffixes
  imports Geosite Js_Map
begin

text \<open>
  Every suffix of a GeoSite database begins with a dot, so that no category can hold the
  condition \<open>*\<close> of the catch-all route, and no entry is an address.
\<close>

definition dotted :: "geo_domain list \<Rightarrow> bool" where
  "dotted ds \<longleftrightarrow> (\<forall>g\<in>set ds. gd_matcher g \<notin> {CCidr, CGeoip} \<and> (gd_matcher g = CSuffix \<longrightarrow> gd_value g \<noteq> [] \<and> hd (gd_value g) = CHR ''.''))"

definition dotted_sites :: "sites \<Rightarrow> bool" where
  "dotted_sites m \<longleftrightarrow> (\<forall>x\<in>set m. dotted (snd x))"

lemma dotted_simps [simp]:
  "dotted []" "dotted (xs @ ys) \<longleftrightarrow> dotted xs \<and> dotted ys" "dotted (js_distinct xs) \<longleftrightarrow> dotted xs"
  by (auto simp: dotted_def)

lemma dotted_filter: "dotted xs \<Longrightarrow> dotted (filter P xs)"
  by (simp add: dotted_def)

lemma dotted_concat: "(\<And>x. x \<in> set xs \<Longrightarrow> dotted (f x)) \<Longrightarrow> dotted (concat (map f xs))"
  by (auto simp: dotted_def)

lemma dotted_sites_simps [simp]: "dotted_sites []" "dotted_sites (x # m) \<longleftrightarrow> dotted (snd x) \<and> dotted_sites m"
  by (simp_all add: dotted_sites_def)

lemma dotted_set: "dotted_sites m \<Longrightarrow> dotted v \<Longrightarrow> dotted_sites (map_set k v m)"
  by (induction m) (auto split: if_splits)

lemma dotted_at: "dotted_sites m \<Longrightarrow> map_get k m = Some ds \<Longrightarrow> dotted ds"
  by (induction m) (auto split: if_splits)

lemma dotted_get: "dotted_sites m \<Longrightarrow> dotted (coalesce (map_get k m) [])"
  using dotted_at [of m k] by (cases "map_get k m") auto

lemma dotted_sub: "set m' \<subseteq> set m \<Longrightarrow> dotted_sites m \<Longrightarrow> dotted_sites m'"
  by (auto simp: dotted_sites_def)

lemma dotted_delete: "dotted_sites m \<Longrightarrow> dotted_sites (map_delete k m)"
  by (rule dotted_sub [of _ m]) (auto simp: map_delete_def)

lemma dotted_keep: "dotted_sites m \<Longrightarrow> dotted_sites (keep_keys P m)"
  by (rule dotted_sub [of _ m]) (auto simp: keep_keys_def)

section \<open>Through the parser\<close>

lemma convert_dotted: "convert_domain p = Ok gs \<Longrightarrow> dotted gs"
  by (auto simp: convert_domain_def dotted_def Let_def split: if_splits)

lemma add_attributes_dotted:
  "add_attributes es as m = Ok m' \<Longrightarrow> dotted es \<Longrightarrow> dotted_sites m \<Longrightarrow> dotted_sites m'"
  by (induction as arbitrary: m) (auto simp: dotted_set dotted_get)

lemma site_entries_dotted:
  "site_entries ps all attrs = Ok (all', attrs') \<Longrightarrow> dotted all \<Longrightarrow> dotted_sites attrs \<Longrightarrow> dotted all' \<and> dotted_sites attrs'"
proof (induction ps arbitrary: all attrs)
  case (Cons p ps)
  then obtain es as where "convert_domain p = Ok es" "add_attributes es (pd_attributes p) attrs = Ok as"
    "site_entries ps (all @ es) as = Ok (all', attrs')" by auto
  with Cons convert_dotted add_attributes_dotted show ?case by fastforce
qed simp

lemma set_attributes_dotted: "dotted_sites as \<Longrightarrow> dotted_sites m \<Longrightarrow> dotted_sites (set_attributes c as m)"
  by (induction as arbitrary: m) (auto simp: dotted_set)

lemma add_site_dotted: "add_site c ds m = Ok m' \<Longrightarrow> dotted_sites m \<Longrightarrow> dotted_sites m'"
  by (auto simp: add_site_def dest!: site_entries_dotted intro!: set_attributes_dotted dotted_set)

lemma read_sites_dotted: "read_sites dec req m bs = Ok m' \<Longrightarrow> dotted_sites m \<Longrightarrow> dotted_sites m'"
proof (induction bs arbitrary: m rule: length_induct)
  case (1 bs)
  show ?case
  proof (cases "bs = []")
    case True
    with "1.prems" show ?thesis by (simp add: read_sites.simps)
  next
    case False
    note read = "1.prems"(1) [unfolded read_sites.simps [of dec req m bs]]
    from read False obtain field wire rest where t: "tag bs = Ok (field, wire, rest)" by auto
    have "\<exists>m1 rest'. dotted_sites m1 \<and> length rest' < length bs \<and> read_sites dec req m1 rest' = Ok m'"
    proof (cases "field = 1 \<and> wire = 2")
      case site: True
      from read False t site obtain message rest' raw where
        msg: "bytes_field rest = Ok (message, rest')" "parse_site_code dec [] [] message = Ok raw" by auto
      have "length rest' < length bs" using tag_shorter [OF t] bytes_field_shorter [OF msg(1)] by linarith
      moreover have "\<exists>m1. dotted_sites m1 \<and> read_sites dec req m1 rest' = Ok m'"
        using read False t site msg "1.prems"(2) by (auto split: if_splits dest: add_site_dotted)
      ultimately show ?thesis by blast
    next
      case other: False
      with read False t obtain rest' where
        skip: "skip_field wire rest = Ok rest'" "read_sites dec req m rest' = Ok m'" by auto
      have "length rest' < length bs" using tag_shorter [OF t] skip_field_shorter [OF skip(1)] by linarith
      with skip "1.prems"(2) show ?thesis by blast
    qed
    with "1.IH" show ?thesis by blast
  qed
qed

lemma tag_pass_dotted: "dotted_sites m \<Longrightarrow> dotted_sites (fst (tag_pass cs m))"
  by (induction cs m rule: tag_pass.induct) (auto simp: dotted_delete split: list.splits prod.splits)

lemma exclude_pass_dotted: "exclude_pass ps m = Ok m' \<Longrightarrow> dotted_sites m \<Longrightarrow> dotted_sites m'"
  by (induction ps m rule: exclude_pass.induct)
     (auto intro!: dotted_delete dotted_set dotted_filter dotted_get split: option.splits)

lemma merge_chinese_dotted: "dotted_sites m \<Longrightarrow> dotted_sites (merge_chinese m)"
proof -
  assume m: "dotted_sites m"
  have "dotted (concat (map (\<lambda>c. coalesce (map_get c m) []) cs))" for cs
    using m by (intro dotted_concat dotted_get)
  moreover have "dotted [\<lparr>gd_matcher = CSuffix, gd_value = ''.cn''\<rparr>]" by (simp add: dotted_def)
  ultimately show ?thesis using m by (simp add: merge_chinese_def Let_def dotted_set dotted_get)
qed

lemma compile_dotted: "dotted ds \<Longrightarrow> dotted (compile_domains ds)"
  by (simp add: compile_domains_def Let_def dotted_filter)

lemma finish_sites_dotted: "finish_sites m = Ok m' \<Longrightarrow> dotted_sites m \<Longrightarrow> dotted_sites m'"
proof -
  assume "finish_sites m = Ok m'" and m: "dotted_sites m"
  then obtain n where n: "filter_tags m = Ok n" "m' = map (\<lambda>(c, ds). (c, compile_domains ds)) (merge_chinese n)"
    by (auto simp: finish_sites_def)
  have "dotted_sites n" using n(1) exclude_pass_dotted tag_pass_dotted [OF m, of "map_keys m"]
    by (cases "tag_pass (map_keys m) m") (simp add: filter_tags_def)
  then have "dotted_sites (merge_chinese n)" by (rule merge_chinese_dotted)
  with n(2) show ?thesis by (auto simp: dotted_sites_def compile_dotted)
qed

lemma parse_database_dotted: "parse_database dec bs req = Ok m \<Longrightarrow> dotted_sites m"
  by (auto simp: parse_database_def dotted_keep split: if_splits option.splits dest!: finish_sites_dotted read_sites_dotted)

end
