(* ===== verification/Ruleset_Safety.thy ===== *)
theory Ruleset_Safety
  imports Rulesets Route_Properties Geosite_Roundtrip Site_Suffixes
begin

text \<open>
  The routes and the sets of rules together: the interface the routes expect of a catalogue,
  its interpretation on the model of the rule sets, and the invariant of both services - the
  published routes can be expanded at any time.
\<close>

section \<open>The interface of a catalogue\<close>

locale rule_catalog =
  fixes check :: "rule_use list \<Rightarrow> unit result"
    and prepare :: "route_rule list \<Rightarrow> 'c result"
  assumes check_each: "check us = Ok () \<longleftrightarrow> (\<forall>u\<in>set us. check [u] = Ok ())"
    and check_off: "\<not> b \<or> m \<notin> {GEOSITE, GEOIP} \<Longrightarrow> check [(m, v, b)] = Ok ()"
    and prepare_checks: "prepare rs = Ok c \<Longrightarrow> check (map use_of rs) = Ok ()"
begin

lemma published_checked:
  assumes "routes_inv d" "publish_rules prepare version_of note actor ty aa extra rep rnd now d = Ok (c, d')"
    and "\<And>rs. rep = Some rs \<Longrightarrow> rules_ok rs"
  obtains rs where "published d' = Ok rs" "prepare rs = Ok c" "\<forall>r\<in>set rs. check [use_of r] = Ok ()"
proof -
  have inv': "routes_inv d'" by (rule publish_rules_inv [OF assms])
  obtain d1 where e: "prepare (coalesce rep (draft d)) = Ok c"
    "(case rep of None \<Rightarrow> Ok d | Some rs \<Rightarrow> write_draft rs False (\<lambda>n. rnd (Suc n)) now d) = Ok d1"
    "draft d' = draft d1"
    "t_route_revisions d' = t_route_revisions d1 @ [\<lparr>rv_id = rnd 0, rv_version = Suc (max_version d),
       rv_rules = coalesce rep (draft d), rv_note = trim note, rv_created_at = now, rv_actor = actor,
       rv_ruleset_version = version_of (coalesce rep (draft d))\<rparr>]"
    "s_active_route_version d' = Suc (max_version d)"
    "Suc (max_version d) \<notin> rv_version ` set (t_route_revisions d1)"
    by (rule publish_rules_effect [OF assms(2)])
  have "distinct (map rv_version (t_route_revisions d'))" using inv' by (simp add: routes_inv_def)
  from revision_unique [OF this, of "last (t_route_revisions d')"] have
    "published d' = Ok (coalesce rep (draft d))" by (simp add: e(4,5) published_def)
  moreover have "\<forall>r\<in>set (coalesce rep (draft d)). check [use_of r] = Ok ()"
    using prepare_checks [OF e(1)] check_each [of "map use_of (coalesce rep (draft d))"] by simp
  ultimately show ?thesis using e(1) that by blast
qed

text \<open>Switching a rule off is never refused for its code.\<close>

lemma disable_allowed: "check [(m, v, False)] = Ok ()"
  by (rule check_off) simp

end

section \<open>What the catalogue checks\<close>

definition needed :: "rule_use \<Rightarrow> family option" where
  "needed u = (case u of (m, v, b) \<Rightarrow> if b then family_of m else None)"

definition code_listed :: "code_lists \<Rightarrow> rule_use \<Rightarrow> bool" where
  "code_listed codes u =
     (case needed u of None \<Rightarrow> True
      | Some f \<Rightarrow> (\<exists>c. normalize_rule_code (fst (snd u)) = Ok c \<and> c \<in> set (codes_of f codes)))"

lemma required_raw_Ok:
  "required_raw us = Ok xs \<Longrightarrow>
     set xs = {(f, c). \<exists>u\<in>set us. needed u = Some f \<and> normalize_rule_code (fst (snd u)) = Ok c} \<and>
     (\<forall>u\<in>set us. needed u \<noteq> None \<longrightarrow> (\<exists>c. normalize_rule_code (fst (snd u)) = Ok c))"
proof (induction us arbitrary: xs rule: required_raw.induct)
  case (2 m v b us)
  show ?case
  proof (cases "needed (m, v, b)")
    case None
    then have "required_raw us = Ok xs" using 2(3) by (simp add: needed_def)
    from 2(1) [OF _ this] None show ?thesis by (auto simp: needed_def)
  next
    case (Some f)
    then obtain c ys where c: "normalize_rule_code v = Ok c" "required_raw us = Ok ys" "xs = (f, c) # ys"
      using 2(3) by (auto simp: needed_def)
    from 2(2) [OF _ c(1) c(2)] Some c show ?thesis by (auto simp: needed_def)
  qed
qed simp

lemma required_raw_Err:
  "required_raw us = Err e \<Longrightarrow> \<exists>u\<in>set us. needed u \<noteq> None \<and> (\<exists>e. normalize_rule_code (fst (snd u)) = Err e)"
  by (induction us arbitrary: e rule: required_raw.induct) (auto simp: needed_def split: option.splits if_splits)

lemma assert_codes_iff: "assert_codes us codes = Ok () \<longleftrightarrow> (\<forall>u\<in>set us. code_listed codes u)"
proof (cases "required_raw us")
  case (Inl e)
  then obtain u f e' where u: "u \<in> set us" "needed u = Some f" "normalize_rule_code (fst (snd u)) = Err e'"
    using required_raw_Err [of us e] by blast
  then have "\<not> code_listed codes u" by (simp add: code_listed_def)
  with u(1) have "\<not> (\<forall>u\<in>set us. code_listed codes u)" by blast
  moreover from Inl have "assert_codes us codes \<noteq> Ok ()" by (simp add: assert_codes_def required_codes_def)
  ultimately show ?thesis by simp
next
  case (Inr xs)
  note R = required_raw_Ok [OF Inr]
  have "assert_codes us codes = Ok () \<longleftrightarrow> (\<forall>(f, c)\<in>set xs. c \<in> set (codes_of f codes))"
    using Inr by (auto simp: assert_codes_def required_codes_def filter_empty_conv)
  also have "\<dots> \<longleftrightarrow> (\<forall>u\<in>set us. code_listed codes u)"
    using R by (fastforce simp: code_listed_def split: option.splits)
  finally show ?thesis .
qed

definition available :: "ruleset_state \<Rightarrow> rule_use \<Rightarrow> bool" where
  "available st u \<longleftrightarrow>
     needed u = None \<or> us_status st = RReady \<and> us_active st \<noteq> None \<and> code_listed (us_codes st) u"

lemma assert_rules_iff: "assert_rules st us = Ok () \<longleftrightarrow> (\<forall>u\<in>set us. available st u)"
proof (cases "required_raw us")
  case (Inl e)
  then obtain u f e' where u: "u \<in> set us" "needed u = Some f" "normalize_rule_code (fst (snd u)) = Err e'"
    using required_raw_Err [of us e] by blast
  then have "\<not> available st u" by (simp add: code_listed_def available_def)
  with u(1) have "\<not> (\<forall>u\<in>set us. available st u)" by blast
  moreover from Inl have "assert_rules st us \<noteq> Ok ()" by (simp add: assert_rules_def required_codes_def)
  ultimately show ?thesis by simp
next
  case (Inr xs)
  note R = required_raw_Ok [OF Inr]
  have empty: "xs = [] \<longleftrightarrow> (\<forall>u\<in>set us. needed u = None)"
  proof
    assume nil: "xs = []"
    show "\<forall>u\<in>set us. needed u = None"
    proof (rule ballI, rule ccontr)
      fix u assume u: "u \<in> set us" "needed u \<noteq> None"
      then obtain f c where "needed u = Some f" "normalize_rule_code (fst (snd u)) = Ok c" using R by blast
      with u(1) R have "(f, c) \<in> set xs" by blast
      with nil show False by simp
    qed
  next
    assume "\<forall>u\<in>set us. needed u = None"
    with R have "set xs = {}" by simp
    then show "xs = []" by simp
  qed
  have "js_distinct xs = [] \<longleftrightarrow> xs = []" by simp
  then show ?thesis
    using Inr empty assert_codes_iff [of us "us_codes st"]
    by (auto simp: assert_rules_def required_codes_def available_def code_listed_def)
qed

interpretation rules: rule_catalog "assert_rules (w_state w)" "prepare_rules dec w" for dec w
proof
  show "assert_rules (w_state w) us = Ok () \<longleftrightarrow> (\<forall>u\<in>set us. assert_rules (w_state w) [u] = Ok ())" for us
    by (simp add: assert_rules_iff)
  show "\<not> b \<or> m \<notin> {GEOSITE, GEOIP} \<Longrightarrow> assert_rules (w_state w) [(m, v, b)] = Ok ()" for b m v
    by (cases m) (auto simp: assert_rules_iff available_def needed_def family_of_def)
  show "prepare_rules dec w rs = Ok c \<Longrightarrow> assert_rules (w_state w) (map use_of rs) = Ok ()" for rs c
    by (auto simp: prepare_rules_def)
qed

section \<open>What a prepared cache holds\<close>

definition filled :: "sites \<Rightarrow> bool" where
  "filled m \<longleftrightarrow> (\<forall>c ds. map_get c m = Some ds \<longrightarrow> ds \<noteq> [] \<and> dotted ds)"

definition covers :: "sites \<Rightarrow> rule_use list \<Rightarrow> bool" where
  "covers m us \<longleftrightarrow>
     (\<forall>u\<in>set us. wants_site u \<longrightarrow>
        (\<exists>c ds. normalize_rule_code (fst (snd u)) = Ok c \<and> map_get c m = Some ds \<and> ds \<noteq> []))"

lemma map_result_values:
  "map_result f xs = Ok ys \<Longrightarrow> set ys = {y. \<exists>x\<in>set xs. f x = Ok y} \<and> (\<forall>x\<in>set xs. \<exists>y. f x = Ok y)"
  by (induction xs arbitrary: ys) auto

lemma requested_sites_Ok:
  assumes "requested_sites us = Ok cs"
  shows "set cs = {c. \<exists>u\<in>set us. wants_site u \<and> normalize_rule_code (fst (snd u)) = Ok c}"
    "\<forall>u\<in>set us. wants_site u \<longrightarrow> (\<exists>c. normalize_rule_code (fst (snd u)) = Ok c)"
proof -
  have eq: "(\<lambda>(m, v, b). normalize_rule_code v) = (\<lambda>u :: rule_use. normalize_rule_code (fst (snd u)))" by auto
  from assms obtain ys where "map_result (\<lambda>u. normalize_rule_code (fst (snd u))) (filter wants_site us) = Ok ys" "cs = js_distinct ys"
    by (cases "map_result (\<lambda>u. normalize_rule_code (fst (snd u))) (filter wants_site us)") (auto simp: requested_sites_def eq)
  note v = map_result_values [OF this(1)] and cs = this(2)
  show "set cs = {c. \<exists>u\<in>set us. wants_site u \<and> normalize_rule_code (fst (snd u)) = Ok c}"
    unfolding cs set_js_distinct using v by (simp only: set_filter) blast
  show "\<forall>u\<in>set us. wants_site u \<longrightarrow> (\<exists>c. normalize_rule_code (fst (snd u)) = Ok c)"
    using v by (simp only: set_filter) blast
qed

lemma load_sites_Ok:
  "load_sites loaded cs m = Ok m' \<Longrightarrow> dotted_sites loaded \<Longrightarrow> filled m \<Longrightarrow>
     filled m' \<and> (\<forall>c\<in>set cs. has_key c m') \<and> (\<forall>c. has_key c m \<longrightarrow> has_key c m')"
proof (induction cs arbitrary: m)
  case (Cons c cs)
  then obtain ds where ds: "map_get c loaded = Some ds" "ds \<noteq> []" "load_sites loaded cs (map_set c ds m) = Ok m'"
    by (auto split: option.splits if_splits)
  have "filled (map_set c ds m)" using Cons.prems(2,3) ds(1,2) dotted_at by (fastforce simp: filled_def)
  from Cons.IH [OF ds(3) Cons.prems(2) this] show ?case by (auto simp: has_key_def)
qed simp

lemma filled_keep: "filled m \<Longrightarrow> filled (keep_keys P m)"
  by (auto simp: filled_def split: if_splits)

lemma prepare_geo_sites_Ok:
  assumes "prepare_geo_sites dec v db us prev = Ok g" "\<And>p. prev = Some p \<Longrightarrow> filled (gc_sites p)"
  shows "gc_version g = v" "filled (gc_sites g)" "covers (gc_sites g) us"
proof -
  from assms(1) obtain req where req: "requested_sites us = Ok req" by (auto simp: prepare_geo_sites_def)
  let ?old = "case prev of None \<Rightarrow> [] | Some c \<Rightarrow> if gc_version c = v then gc_sites c else []"
  let ?kept = "keep_keys (\<lambda>c. c \<in> set req) ?old"
  let ?missing = "filter (\<lambda>c. \<not> has_key c ?kept) req"
  have "filled ?old" using assms(2) by (auto simp: filled_def split: option.splits)
  then have kept: "filled ?kept" by (rule filled_keep)
  have g: "gc_version g = v \<and> filled (gc_sites g) \<and> (\<forall>c\<in>set req. has_key c (gc_sites g))"
  proof (cases "?missing = []")
    case True
    then have "g = \<lparr>gc_version = v, gc_sites = ?kept\<rparr>" using assms(1) req by (simp add: prepare_geo_sites_def Let_def)
    with kept True show ?thesis by (auto simp: filter_empty_conv)
  next
    case False
    then obtain bytes loaded m where l: "load_sites loaded ?missing ?kept = Ok m" "g = \<lparr>gc_version = v, gc_sites = m\<rparr>"
      and parsed: "parse_database dec bytes (Some ?missing) = Ok loaded"
      using assms(1) req
      by (auto simp: prepare_geo_sites_def Let_def map_sum_def split: option.splits sum.splits)
    from load_sites_Ok [OF l(1) parse_database_dotted [OF parsed] kept] show ?thesis using l(2) by auto
  qed
  then show "gc_version g = v" "filled (gc_sites g)" by auto
  from g requested_sites_Ok [OF req] show "covers (gc_sites g) us"
    by (fastforce simp: covers_def filled_def has_key_def map_get_key)
qed

lemma prepare_geo_sites_cached:
  assumes "covers (gc_sites g) us"
  shows "\<exists>g'. prepare_geo_sites dec (gc_version g) db us (Some g) = Ok g' \<and> gc_version g' = gc_version g \<and>
     gc_sites g' = keep_keys (\<lambda>c. \<exists>u\<in>set us. wants_site u \<and> normalize_rule_code (fst (snd u)) = Ok c) (gc_sites g)"
proof -
  have "\<exists>req. requested_sites us = Ok req"
  proof -
    have "\<exists>ys. map_result (\<lambda>(m, v, b). normalize_rule_code v) vs = Ok ys" if "\<forall>u\<in>set vs. \<exists>c. normalize_rule_code (fst (snd u)) = Ok c"
      for vs :: "rule_use list"
      using that by (induction vs) (auto simp: case_prod_beta)
    moreover have "\<forall>u\<in>set (filter wants_site us). \<exists>c. normalize_rule_code (fst (snd u)) = Ok c"
      using assms by (auto simp: covers_def)
    ultimately show ?thesis by (fastforce simp: requested_sites_def)
  qed
  then obtain req where req: "requested_sites us = Ok req" ..
  note R = requested_sites_Ok [OF req]
  have "\<forall>c\<in>set req. has_key c (gc_sites g)"
    using assms R by (fastforce simp: covers_def has_key_def map_get_key)
  then have "filter (\<lambda>c. \<not> has_key c (keep_keys (\<lambda>c. c \<in> set req) (gc_sites g))) req = []"
    by (auto simp: filter_empty_conv has_key_def)
  then show ?thesis using req R(1) by (simp add: prepare_geo_sites_def Let_def)
qed

lemma expand_rules_total:
  "covers m (map use_of rs) \<Longrightarrow> \<exists>ks. expand_rules m rs = Ok ks"
proof (induction rs)
  case (Cons r rs)
  from Cons.prems have "covers m (map use_of rs)" by (simp add: covers_def)
  with Cons.IH obtain ks where ks: "expand_rules m rs = Ok ks" by blast
  show ?case
  proof (cases "wants_site (use_of r)")
    case True
    with Cons.prems obtain c ds where "normalize_rule_code (r_value r) = Ok c" "map_get c m = Some ds" "ds \<noteq> []"
      by (auto simp: covers_def use_of_def)
    with True ks show ?thesis by (auto simp: wants_site_def use_of_def)
  next
    case False
    with ks show ?thesis by (auto simp: wants_site_def use_of_def)
  qed
qed simp


section \<open>Both services together\<close>

datatype world_action =
    ARoutes "time \<times> route_request"
  | AUpdate update_input time
  | ARefresh int bool update_input time
  | AServe

text \<open>
  One synchronous step of the server: a request of the owner with the current catalogue, an
  update of the rule sets, or a client's request for the published routes.  The update reads
  the published routes, which always exist here.
\<close>

definition world_step :: "decoder \<Rightarrow> (failure \<Rightarrow> string) \<Rightarrow> world_action \<Rightarrow> db \<times> rules_world \<Rightarrow> db \<times> rules_world" where
  "world_step dec say a s =
     (case s of (d, w) \<Rightarrow>
        (case a of
           ARoutes (now, RPublish note rnd) \<Rightarrow>
             (case publish_routes (prepare_rules dec w) (rules_version (w_state w)) note ''owner'' rnd now d of
                Inl _ \<Rightarrow> (d, w) | Inr (c, d') \<Rightarrow> (d', activate_cache c w))
         | ARoutes (now, RRollback v rnd) \<Rightarrow>
             (case rollback_routes (prepare_rules dec w) (rules_version (w_state w)) v ''owner'' rnd now d of
                Inl _ \<Rightarrow> (d, w) | Inr (c, d') \<Rightarrow> (d', activate_cache c w))
         | ARoutes c \<Rightarrow>
             (case route_call (\<lambda>_. assert_rules (w_state w)) (\<lambda>_. prepare_rules dec w) (\<lambda>_. rules_version (w_state w)) c d of
                Inl _ \<Rightarrow> (d, w) | Inr d' \<Rightarrow> (d', w))
         | AUpdate i now \<Rightarrow>
             (case published d of Inl _ \<Rightarrow> (d, w) | Inr rs \<Rightarrow> (d, fst (update_rules dec say i rs now w)))
         | ARefresh hours force i now \<Rightarrow>
             (case published d of Inl _ \<Rightarrow> (d, w) | Inr rs \<Rightarrow> (d, fst (refresh_rules dec say hours force i rs now w)))
         | AServe \<Rightarrow>
             (case published d of Inl _ \<Rightarrow> (d, w)
              | Inr rs \<Rightarrow> (case materialize dec rs w of Inl _ \<Rightarrow> (d, w) | Inr (_, w') \<Rightarrow> (d, w')))))"

definition sorts_ok :: "world_action \<Rightarrow> bool" where
  "sorts_ok a = (case a of ARoutes c \<Rightarrow> sorts_each_once (snd c) | _ \<Rightarrow> True)"

definition run_world :: "decoder \<Rightarrow> (failure \<Rightarrow> string) \<Rightarrow> world_action list \<Rightarrow> db \<times> rules_world \<Rightarrow> db \<times> rules_world" where
  "run_world dec say as s = foldl (\<lambda>s a. world_step dec say a s) s as"

text \<open>The rules can be served: every code is available and the cache holds every category.\<close>

definition served :: "rules_world \<Rightarrow> route_rule list \<Rightarrow> bool" where
  "served w rs \<longleftrightarrow>
     (\<forall>r\<in>set rs. available (w_state w) (use_of r)) \<and>
     ((\<exists>r\<in>set rs. wants_site (use_of r)) \<longrightarrow>
        (\<exists>g. w_cache w = Some g \<and> us_active (w_state w) = Some (gc_version g) \<and> covers (gc_sites g) (map use_of rs)))"

definition cache_ok :: "rules_world \<Rightarrow> bool" where
  "cache_ok w \<longleftrightarrow> (\<forall>g. w_cache w = Some g \<longrightarrow> filled (gc_sites g))"

definition world_ok :: "db \<times> rules_world \<Rightarrow> bool" where
  "world_ok s \<longleftrightarrow> routes_inv (fst s) \<and> cache_ok (snd s) \<and> (\<forall>rs. published (fst s) = Ok rs \<longrightarrow> served (snd s) rs)"

lemma covers_none: "\<not> (\<exists>r\<in>set rs. wants_site (use_of r)) \<Longrightarrow> covers m (map use_of rs)"
  by (auto simp: covers_def)

lemma wants_needed: "wants_site u \<Longrightarrow> needed u = Some FGeosite"
  by (auto simp: wants_site_def needed_def family_of_def split: prod.splits)

lemma prepare_served:
  assumes "prepare_rules dec w rs = Ok c" "cache_ok w"
  shows "served (activate_cache c w) rs" "cache_ok (activate_cache c w)" "w_state (activate_cache c w) = w_state w"
proof -
  from assms(1) have ok: "assert_rules (w_state w) (map use_of rs) = Ok ()" by (auto simp: prepare_rules_def)
  then have av: "\<forall>r\<in>set rs. available (w_state w) (use_of r)" by (simp add: assert_rules_iff)
  show state: "w_state (activate_cache c w) = w_state w" by (simp add: activate_cache_def split: option.split)
  have "served (activate_cache c w) rs \<and> cache_ok (activate_cache c w)"
  proof (cases "us_active (w_state w)")
    case None
    with av have "\<not> (\<exists>r\<in>set rs. wants_site (use_of r))" by (auto simp: available_def dest: wants_needed)
    moreover from None assms(1) ok have "c = None" by (simp add: prepare_rules_def)
    ultimately show ?thesis using av assms(2) by (simp add: served_def activate_cache_def)
  next
    case (Some v)
    with assms(1) ok obtain g where g: "c = Some g"
      "prepare_geo_sites dec v (database_of v w) (map use_of rs) (w_cache w) = Ok g"
      by (cases "prepare_geo_sites dec v (database_of v w) (map use_of rs) (w_cache w)") (auto simp: prepare_rules_def)
    have "\<And>p. w_cache w = Some p \<Longrightarrow> filled (gc_sites p)" using assms(2) by (simp add: cache_ok_def)
    note p = prepare_geo_sites_Ok [OF g(2) this]
    from p Some g(1) av show ?thesis by (simp add: served_def cache_ok_def activate_cache_def)
  qed
  then show "served (activate_cache c w) rs" "cache_ok (activate_cache c w)" by auto
qed

lemma available_more:
  assumes "available st u" "us_active st \<noteq> None \<Longrightarrow> us_status st' = RReady" "us_active st' = us_active st" "us_codes st' = us_codes st"
  shows "available st' u"
  using assms by (auto simp: available_def)

lemma served_state:
  assumes "served w rs" "us_active (w_state w) \<noteq> None \<Longrightarrow> us_status st = RReady"
    "us_active st = us_active (w_state w)" "us_codes st = us_codes (w_state w)"
  shows "served (w\<lparr>w_state := st\<rparr>) rs"
  using assms available_more [OF _ assms(2-4)] by (auto simp: served_def)

lemma failed_update_served:
  assumes "served w rs"
  shows "served (fst (failed_update say e t w)) rs" "cache_ok w \<Longrightarrow> cache_ok (fst (failed_update say e t w))"
  using served_state [OF assms] by (auto simp: failed_update_def Let_def cache_ok_def)

lemma keep_version_served:
  assumes "served w rs" "cache_ok w" "keep_version dec m rs t w = Some w'"
  shows "served w' rs" "cache_ok w'"
proof -
  let ?p = "prepare_geo_sites dec (mf_version m) (database_of (mf_version m) w) (map use_of rs) (w_cache w)"
  let ?st = "(w_state w)\<lparr>us_status := RReady, us_checked_at := Some t, us_last_error := None\<rparr>"
  from assms(3) obtain g where g: "us_active (w_state w) = Some (mf_version m)" "?p = Ok g"
    "w' = w\<lparr>w_state := ?st, w_cache := Some g\<rparr>"
    by (auto simp: keep_version_def bind_result_def split: if_splits sum.splits)
  have "\<And>p. w_cache w = Some p \<Longrightarrow> filled (gc_sites p)" using assms(2) by (simp add: cache_ok_def)
  note p = prepare_geo_sites_Ok [OF g(2) this]
  have "available ?st (use_of r)" if "r \<in> set rs" for r
    by (rule available_more [of "w_state w"]) (use assms(1) that in \<open>simp_all add: served_def\<close>)
  then show "served w' rs" using p g(1) by (simp add: served_def g(3))
  show "cache_ok w'" using p by (simp add: cache_ok_def g(3))
qed

lemma install_version_served:
  assumes "install_version dec i m rs t w = Ok w'"
  shows "served w' rs" "cache_ok w'"
proof -
  from assms obtain d g where g: "assert_codes (map use_of rs) (mf_codes m) = Ok ()"
    "prepare_geo_sites dec (mf_version m) (rd_database d) (map use_of rs) None = Ok g"
    and w': "w' = \<lparr>w_state = \<lparr>us_status = RReady, us_active = Some (mf_version m), us_checked_at = Some t,
           us_updated_at = Some t, us_last_error = None, us_codes = mf_codes m\<rparr>, w_cache = Some g,
         w_dirs = cleanup_dirs (mf_version m) (map_set (mf_version m) d (map_delete (mf_version m) (w_dirs w)))\<rparr>"
    unfolding install_version_def by auto
  have p: "gc_version g = mf_version m" "filled (gc_sites g)" "covers (gc_sites g) (map use_of rs)"
    by (rule prepare_geo_sites_Ok [OF g(2)], simp)+
  show "served w' rs" using p g(1) by (simp add: served_def w' available_def assert_codes_iff)
  show "cache_ok w'" using p by (simp add: cache_ok_def w')
qed

lemma update_rules_served:
  assumes "served w rs" "cache_ok w"
  shows "served (fst (update_rules dec say i rs t w)) rs" "cache_ok (fst (update_rules dec say i rs t w))"
  using assms failed_update_served [OF assms(1)] keep_version_served [OF assms] install_version_served
  by (auto simp: update_rules_def split: sum.splits option.splits)

lemma refresh_rules_served:
  assumes "served w rs" "cache_ok w"
  shows "served (fst (refresh_rules dec say h force i rs t w)) rs" "cache_ok (fst (refresh_rules dec say h force i rs t w))"
proof -
  note up = update_rules_served [OF assms, of dec say i t]
  have pr: "served (activate_cache c w) rs \<and> cache_ok (activate_cache c w)"
    if "map_sum id Some (prepare_rules dec w rs) = Ok (Some c)" for c
    using that prepare_served [OF _ assms(2)] by (cases "prepare_rules dec w rs") auto
  have "served (fst (refresh_rules dec say h force i rs t w)) rs \<and> cache_ok (fst (refresh_rules dec say h force i rs t w))"
    using up pr unfolding refresh_rules_def Let_def
    by (simp split: sum.split option.split del: map_sum.simps)
  then show "served (fst (refresh_rules dec say h force i rs t w)) rs" "cache_ok (fst (refresh_rules dec say h force i rs t w))"
    by auto
qed

lemma materialize_total:
  assumes "served w rs" "cache_ok w"
  shows "\<exists>ks w'. materialize dec rs w = Ok (ks, w') \<and> served w' rs \<and> cache_ok w'"
proof (cases "\<exists>r\<in>set rs. wants_site (use_of r)")
  case False
  with assms show ?thesis by (auto simp: materialize_def)
next
  case True
  with assms(1) obtain g where g: "w_cache w = Some g" "us_active (w_state w) = Some (gc_version g)"
    "covers (gc_sites g) (map use_of rs)" by (auto simp: served_def)
  from prepare_geo_sites_cached [OF g(3)] obtain g' where
    g': "prepare_geo_sites dec (gc_version g) (database_of (gc_version g) w) (map use_of rs) (Some g) = Ok g'" "gc_version g' = gc_version g"
    by blast
  have "assert_rules (w_state w) (map use_of rs) = Ok ()" using assms(1) by (simp add: assert_rules_iff served_def)
  with g g' have prep: "prepare_rules dec w rs = Ok (Some g')" by (simp add: prepare_rules_def)
  note ps = prepare_served [OF prep assms(2)]
  have cache: "w_cache (activate_cache (Some g') w) = Some g'" using g(2) g'(2) by (simp add: activate_cache_def)
  with ps(1) True have "covers (gc_sites g') (map use_of rs)" by (auto simp: served_def)
  from expand_rules_total [OF this] obtain ks where "expand_rules (gc_sites g') rs = Ok ks" ..
  with True prep cache ps show ?thesis by (simp add: materialize_def Let_def)
qed


lemma published_same: "routes_inv d \<Longrightarrow> same_revisions d d' \<Longrightarrow> published d' = published d"
  by (auto simp: published_def same_revisions_def revision_def routes_inv_def)

lemma edit_same_revisions:
  assumes inv: "routes_inv d" and edit: "\<And>n r. req \<noteq> RPublish n r" "\<And>v r. req \<noteq> RRollback v r"
    and once: "sorts_each_once req" and ok: "route_call check prepare version_of (now, req) d = Ok d'"
  shows "same_revisions d d'"
proof -
  note D = routes_invD [OF inv]
  show ?thesis
  proof (cases req)
    case (RAdd input i)
    with ok have "add_route (check now) input ''owner'' i now d = Ok d'" by (simp add: route_call_def)
    from add_route_effect [OF D(1) this] show ?thesis by metis
  next
    case (RUpdate i input)
    with ok have "update_route (check now) i input ''owner'' now d = Ok d'" by (simp add: route_call_def)
    then show ?thesis
      by (cases rule: update_route_cases) (simp_all add: update_local_def Let_def same_revisions_def)
  next
    case (RRemove i)
    with ok have "remove_route i ''owner'' now d = Ok d'" by (simp add: route_call_def)
    from remove_route_effect [OF D(1) this] show ?thesis by metis
  next
    case (RReorder ids)
    with ok once have "reorder_routes ids ''owner'' now d = Ok d'" "distinct ids"
      by (simp_all add: route_call_def sorts_each_once_def)
    from reorder_effect(2) [OF D(1) this(2,1)] show ?thesis .
  next
    case RDiscard
    with ok have "discard_routes ''owner'' now d = Ok d'" by (simp add: route_call_def)
    from discard_routes_effect [OF this] show ?thesis by metis
  qed (use edit in blast)+
qed

lemma publish_world:
  assumes ok: "world_ok (d, w)" and inv': "routes_inv d'"
    and pub: "published d' = Ok rs" "prepare_rules dec w rs = Ok c"
  shows "world_ok (d', activate_cache c w)"
  using prepare_served [OF pub(2)] ok inv' pub(1) by (simp add: world_ok_def)

lemma world_step_ok:
  assumes ok: "world_ok s" and once: "sorts_ok a"
  shows "world_ok (world_step dec say a s)"
proof -
  obtain d w where s: "s = (d, w)" by (cases s)
  from ok s have inv: "routes_inv d" and cache: "cache_ok w" and serve: "\<And>rs. published d = Ok rs \<Longrightarrow> served w rs"
    by (simp_all add: world_ok_def)
  show ?thesis
  proof (cases a)
    case (ARoutes call)
    obtain now req where call: "call = (now, req)" by (cases call)
    show ?thesis
    proof (cases "\<exists>n r. req = RPublish n r \<or> (\<exists>v. req = RRollback v r)")
      case False
      show ?thesis
      proof (cases "route_call (\<lambda>_. assert_rules (w_state w)) (\<lambda>_. prepare_rules dec w) (\<lambda>_. rules_version (w_state w)) (now, req) d")
        case (Inl e)
        with False ok show ?thesis by (cases req) (simp_all add: world_step_def s ARoutes call)
      next
        case (Inr d')
        have once: "sorts_each_once req" using once by (simp add: sorts_ok_def ARoutes call)
        have "routes_inv d'" by (rule route_call_inv [OF inv _ Inr]) (simp add: once)
        moreover have "published d' = published d"
          by (rule published_same [OF inv edit_same_revisions [OF inv _ _ once Inr]]) (use False in blast)+
        ultimately have "world_ok (d', w)" using ok by (simp add: world_ok_def s)
        with Inr False show ?thesis by (cases req) (simp_all add: world_step_def s ARoutes call)
      qed
    next
      case True
      then consider n r where "req = RPublish n r" | v r where "req = RRollback v r" by blast
      then show ?thesis
      proof cases
        case (1 n r)
        show ?thesis
        proof (cases "publish_routes (prepare_rules dec w) (rules_version (w_state w)) n ''owner'' r now d")
          case (Inr x)
          then obtain c d' where p: "publish_routes (prepare_rules dec w) (rules_version (w_state w)) n ''owner'' r now d = Ok (c, d')"
            by (cases x) auto
          obtain rs where "published d' = Ok rs" "prepare_rules dec w rs = Ok c"
            using rules.published_checked [OF inv p [unfolded publish_routes_def]] by auto
          from publish_world [OF ok [unfolded s] publish_routes_inv [OF inv p] this] p
          show ?thesis by (simp add: world_step_def s ARoutes call 1)
        qed (use ok in \<open>simp add: world_step_def s ARoutes call 1\<close>)
      next
        case (2 v r)
        show ?thesis
        proof (cases "rollback_routes (prepare_rules dec w) (rules_version (w_state w)) v ''owner'' r now d")
          case (Inr x)
          then obtain c d' where p: "rollback_routes (prepare_rules dec w) (rules_version (w_state w)) v ''owner'' r now d = Ok (c, d')"
            by (cases x) auto
          then obtain rv where rv: "revision v d = Ok rv" by (auto simp: rollback_routes_def)
          obtain rs where "published d' = Ok rs" "prepare_rules dec w rs = Ok c"
            using rules.published_checked [OF inv p [unfolded rollback_routes_def rv bind_result_simps]] revision_ok [OF inv rv] by auto
          from publish_world [OF ok [unfolded s] rollback_routes_inv [OF inv p] this] p
          show ?thesis by (simp add: world_step_def s ARoutes call 2)
        qed (use ok in \<open>simp add: world_step_def s ARoutes call 2\<close>)
      qed
    qed
  next
    case (AUpdate i now)
    with ok inv cache serve update_rules_served [OF serve cache] show ?thesis
      by (auto simp: world_step_def s world_ok_def split: sum.split)
  next
    case (ARefresh h force i now)
    with ok inv cache serve refresh_rules_served [OF serve cache] show ?thesis
      by (auto simp: world_step_def s world_ok_def split: sum.split)
  next
    case AServe
    show ?thesis
    proof (cases "published d")
      case (Inr rs)
      from materialize_total [OF serve [OF Inr] cache, of dec] obtain ks w' where
        "materialize dec rs w = Ok (ks, w')" "served w' rs" "cache_ok w'" by blast
      with Inr inv show ?thesis by (simp add: world_step_def s AServe world_ok_def)
    qed (use ok in \<open>simp add: world_step_def s AServe\<close>)
  qed
qed

lemma run_world_ok: "world_ok s \<Longrightarrow> \<forall>a\<in>set as. sorts_ok a \<Longrightarrow> world_ok (run_world dec say as s)"
  unfolding run_world_def by (induction as arbitrary: s) (simp_all add: world_step_ok)

definition fresh_rules :: rules_world where
  "fresh_rules = \<lparr>w_state = empty_state, w_cache = None, w_dirs = []\<rparr>"

lemma seeded_world_ok:
  assumes "seed_routes rnd t0 d0 = Ok d" "t_route_drafts d0 = []" "t_route_revisions d0 = []" "s_active_route_version d0 = 0"
  shows "world_ok (d, fresh_rules)"
proof -
  obtain rows where r: "distinct (map r_id rows)" "map r_position rows = [0..<length rows]" "ordered rows = rows"
    "map essence rows = map local_essence local_networks @ [final_essence]"
    "d = d0\<lparr>t_route_drafts := rows, t_route_revisions :=
      [\<lparr>rv_id = rnd (length default_routes), rv_version = 1, rv_rules = rows, rv_note = [], rv_created_at = t0,
        rv_actor = ''system'', rv_ruleset_version = None\<rparr>], s_active_route_version := 1\<rparr>"
    by (rule seed_routes_db [OF assms])
  have pub: "published d = Ok rows" by (simp add: r(5) published_def revision_def)
  have "r_matcher x \<in> {IP_CIDR, SUFFIX}" if "x \<in> set rows" for x
  proof -
    from that r(4) have "essence x \<in> set (map local_essence local_networks @ [final_essence])" by (metis image_eqI list.set_map)
    then show ?thesis by (auto simp: essence_fields)
  qed
  then have plain: "needed (use_of x) = None" if "x \<in> set rows" for x
    using that by (fastforce simp: needed_def use_of_def family_of_def)
  then have "\<not> wants_site (use_of x)" if "x \<in> set rows" for x
    using that wants_needed by fastforce
  with plain have "served fresh_rules rows" by (auto simp: served_def available_def)
  with pub seed_routes_inv [OF assms] show ?thesis by (simp add: world_ok_def cache_ok_def fresh_rules_def)
qed

text \<open>How one rule is expanded for the clients.\<close>

definition expansion :: "sites \<Rightarrow> route_rule \<Rightarrow> client_rule list" where
  "expansion sites r =
     (if r_matcher r \<noteq> GEOSITE then [client_rule r]
      else if \<not> r_enabled r then []
      else site_rules r (coalesce (map_get (to_lower (trim (r_value r))) sites) []))"

lemma expand_rules_spec: "expand_rules sites rs = Ok ks \<Longrightarrow> ks = concat (map (expansion sites) rs)"
proof (induction rs arbitrary: ks)
  case (Cons r rs)
  then show ?case
    by (auto simp: expansion_def normalize_rule_code_def Let_def split: if_splits option.splits)
qed simp

lemma expansion_plain:
  "\<not> (\<exists>r\<in>set rs. wants_site (use_of r)) \<Longrightarrow>
   map client_rule (filter (\<lambda>r. r_matcher r \<noteq> GEOSITE) rs) = concat (map (expansion sites) rs)"
  by (induction rs) (auto simp: expansion_def wants_site_def use_of_def)

lemma materialize_spec:
  assumes "materialize dec rs w = Ok (ks, w')"
  shows "\<exists>sites. ks = concat (map (expansion sites) rs) \<and>
     ((\<exists>r\<in>set rs. wants_site (use_of r)) \<longrightarrow> (\<exists>g. w_cache w' = Some g \<and> sites = gc_sites g))"
proof (cases "\<exists>r\<in>set rs. wants_site (use_of r)")
  case False
  then have "ks = map client_rule (filter (\<lambda>r. r_matcher r \<noteq> GEOSITE) rs)" using assms by (simp add: materialize_def)
  with expansion_plain [OF False] False show ?thesis by blast
next
  case True
  with assms obtain c where c: "prepare_rules dec w rs = Ok c"
    "(case w_cache (activate_cache c w) of None \<Rightarrow> Err (Thrown ''TypeError'')
      | Some g \<Rightarrow> map_sum id (\<lambda>ks. (ks, activate_cache c w)) (expand_rules (gc_sites g) rs)) = Ok (ks, w')"
    by (auto simp: materialize_def Let_def)
  then obtain g where g: "w_cache (activate_cache c w) = Some g"
    "map_sum id (\<lambda>ks. (ks, activate_cache c w)) (expand_rules (gc_sites g) rs) = Ok (ks, w')"
    by (auto split: option.splits)
  then have "w_cache w' = Some g" "expand_rules (gc_sites g) rs = Ok ks"
    by (cases "expand_rules (gc_sites g) rs"; simp)+
  with expand_rules_spec show ?thesis by blast
qed

lemma world_ok_expansion:
  assumes ok: "world_ok (d', w)"
  shows "\<exists>rs ks w' sites. published d' = Ok rs \<and> rules_ok rs \<and> materialize dec rs w = Ok (ks, w') \<and>
     ks = concat (map (expansion sites) rs) \<and> filled sites \<and>
     (\<forall>r\<in>set rs. r_enabled r \<and> r_matcher r = GEOSITE \<longrightarrow>
        (\<exists>ds. map_get (to_lower (trim (r_value r))) sites = Some ds \<and> ds \<noteq> []))"
proof -
  from ok have "routes_inv d'" by (simp add: world_ok_def)
  then obtain rv where "revision (s_active_route_version d') d' = Ok rv" and pub: "published d' = Ok (rv_rules rv)"
    and rules: "rules_ok (rv_rules rv)" by (rule published_revision)
  with ok have "served w (rv_rules rv)" "cache_ok w" by (simp_all add: world_ok_def)
  from materialize_total [OF this, of dec] obtain ks w' where
    m: "materialize dec (rv_rules rv) w = Ok (ks, w')" "served w' (rv_rules rv)" "cache_ok w'" by blast
  show ?thesis
  proof (cases "\<exists>r\<in>set (rv_rules rv). wants_site (use_of r)")
    case False
    then have "ks = concat (map (expansion []) (rv_rules rv))" using m(1) expansion_plain [OF False, of "[]"] by (simp add: materialize_def)
    moreover have "filled []" by (simp add: filled_def)
    moreover have "\<not> (r_enabled r \<and> r_matcher r = GEOSITE)" if "r \<in> set (rv_rules rv)" for r
      using False that by (auto simp: wants_site_def use_of_def)
    ultimately show ?thesis using pub rules m(1) by blast
  next
    case True
    with materialize_spec [OF m(1)] obtain sites g where ks: "ks = concat (map (expansion sites) (rv_rules rv))"
      and g: "w_cache w' = Some g" "sites = gc_sites g" by blast
    with m(2) True have "covers sites (map use_of (rv_rules rv))" by (auto simp: served_def)
    then have "\<exists>ds. map_get (to_lower (trim (r_value r))) sites = Some ds \<and> ds \<noteq> []"
      if "r \<in> set (rv_rules rv)" "r_enabled r" "r_matcher r = GEOSITE" for r
      using that by (fastforce simp: covers_def wants_site_def use_of_def normalize_rule_code_def Let_def split: if_splits)
    moreover have "filled sites" using m(3) g by (simp add: cache_ok_def)
    ultimately show ?thesis using pub rules m(1) ks by blast
  qed
qed



section \<open>Only verified archives are installed\<close>

lemma safe_entry:
  assumes "\<not> unsafe_entry e"
  shows "CHR ''/'' \<noteq> hd e \<and> ''..'' \<notin> set (split_on (CHR ''/'') e)"
proof
  have ne: "e \<noteq> []"
  proof
    assume "e = []"
    moreover have "unsafe_entry []" by code_simp
    ultimately show False using assms by simp
  qed
  with assms show "CHR ''/'' \<noteq> hd e" by (cases e) (auto simp: unsafe_entry_def)
  show "''..'' \<notin> set (split_on (CHR ''/'') e)"
  proof (cases "starts_with e ''./''")
    case True
    then obtain t where t: "e = ''./'' @ t" by (auto simp: starts_with_iff)
    then have "strip_here e = t" by (simp add: strip_here_def)
    with assms t show ?thesis by (auto simp: unsafe_entry_def)
  next
    case False
    with assms show ?thesis by (simp add: unsafe_entry_def strip_here_def)
  qed
qed

text \<open>
  C29.  An update changes the active version, its codes and the installed files only when the
  index was delivered and its signature verified, the archive has the checksum of the
  index, none of its entries leaves the directory it is unpacked in, and every file the
  index promises is there; in every other case all three stay as they were.
\<close>

theorem update_only_verified:
  "(let w' = fst (update_rules dec say i routes now w)
    in us_active (w_state w') = us_active (w_state w) \<and> us_codes (w_state w') = us_codes (w_state w) \<and> w_dirs w' = w_dirs w \<or>
       (\<exists>m es dir. ui_index_ok i \<and> ui_verified i \<and> parse_manifest (ui_manifest i) = Ok m \<and>
          ui_bundle_sha256 i = mf_sha256 m \<and> ui_entries i = Some es \<and>
          list_all (\<lambda>e. CHR ''/'' \<noteq> hd e \<and> ''..'' \<notin> set (split_on (CHR ''/'') e)) es \<and>
          ui_unpacked i = Some dir \<and> validate_files dec (Some dir) m = Ok () \<and>
          us_active (w_state w') = Some (mf_version m) \<and> us_codes (w_state w') = mf_codes m \<and>
          map_get (mf_version m) (w_dirs w') = Some dir))"
proof (cases "read_index i")
  case (Inl e)
  then show ?thesis by (simp add: update_rules_def failed_update_def Let_def)
next
  case (Inr m)
  show ?thesis
  proof (cases "keep_version dec m routes now w")
    case (Some w')
    then show ?thesis using Inr
      by (auto simp: update_rules_def keep_version_def Let_def bind_result_def split: if_splits sum.splits)
  next
    case None
    show ?thesis
    proof (cases "install_version dec i m routes now w")
      case (Inl e)
      with None Inr show ?thesis by (simp add: update_rules_def failed_update_def Let_def)
    next
      case inst: (Inr w')
      then obtain dir where dir: "read_bundle dec i m = Ok dir" and st: "us_active (w_state w') = Some (mf_version m)"
        "us_codes (w_state w') = mf_codes m"
        "w_dirs w' = cleanup_dirs (mf_version m) (map_set (mf_version m) dir (map_delete (mf_version m) (w_dirs w)))"
        unfolding install_version_def by auto
      from dir obtain es where es: "ui_bundle_sha256 i = mf_sha256 m" "ui_entries i = Some es" "\<not> list_ex unsafe_entry es"
        "ui_unpacked i = Some dir" "validate_files dec (Some dir) m = Ok ()"
        by (auto simp: read_bundle_def split: if_splits option.splits)
      have idx: "ui_index_ok i" "ui_verified i" "parse_manifest (ui_manifest i) = Ok m"
        using Inr by (auto simp: read_index_def split: if_splits)
      have "map_get (mf_version m) (w_dirs w') = Some dir"
        unfolding st(3) cleanup_dirs_def Let_def by (auto dest!: in_set_dropD)
      moreover have "list_all (\<lambda>e. CHR ''/'' \<noteq> hd e \<and> ''..'' \<notin> set (split_on (CHR ''/'') e)) es"
        using es(3) safe_entry by (auto simp: list_all_iff list_ex_iff)
      ultimately show ?thesis using inst None Inr es idx st(1,2)
        by (auto simp: update_rules_def Let_def)
    qed
  qed
qed

end
