(* ===== verification/Traffic.thy ===== *)
theory Traffic
  imports Connections Journal Js_Map
begin

text \<open>
  Traffic and presence (src/src/server/services/traffic.ts): cumulative counters of the engines
  turned into samples, their compaction, the overview with its series, the presence of the
  connections, and the events about activity and telemetry.  A collector is a parameter: it
  answers with a snapshot or fails.  All clock values of one collection are the reference
  time.  The collectors run concurrently, but what follows an answer is synchronous; the model
  takes the answers in the order of the collectors.
\<close>

section \<open>Times\<close>

text \<open>\<open>floorDate\<close>: to the minute, then down to a multiple of the minutes of the hour, then of the hours.\<close>

definition floor_date :: "int \<Rightarrow> time \<Rightarrow> time" where
  "floor_date minutes t =
     (let t1 = t - t mod 60000;
          m = (t1 div 60000) mod 60;
          t2 = t1 - (m - m div minutes * minutes) * 60000
      in if minutes < 60 then t2
         else (let hours = minutes div 60;
                   h = (t2 div 3600000) mod 24;
                   t3 = t2 - (h - h div hours * hours) * 3600000
               in t3 - ((t3 div 60000) mod 60) * 60000))"

record date_parts =
  dp_year :: int
  dp_month :: int
  dp_day :: int
  dp_hour :: int
  dp_minute :: int
  dp_second :: int

text \<open>\<open>Date.UTC\<close>: the days before a month of the proleptic Gregorian calendar, months carrying into years.\<close>

definition days_before_year :: "int \<Rightarrow> int" where
  "days_before_year y = 365 * (y - 1970) + ((y - 1) div 4 - 492) - ((y - 1) div 100 - 19) + ((y - 1) div 400 - 4)"

definition leap_year :: "int \<Rightarrow> bool" where
  "leap_year y \<longleftrightarrow> y mod 4 = 0 \<and> (y mod 100 \<noteq> 0 \<or> y mod 400 = 0)"

definition days_before_month :: "int \<Rightarrow> int \<Rightarrow> int" where
  "days_before_month y m =
     [0, 31, 59, 90, 120, 151, 181, 212, 243, 273, 304, 334] ! nat (m - 1) + (if 2 < m \<and> leap_year y then 1 else 0)"

definition utc_days :: "int \<Rightarrow> int \<Rightarrow> int \<Rightarrow> int" where
  "utc_days y m d = days_before_year y + days_before_month y m + (d - 1)"

definition date_utc :: "date_parts \<Rightarrow> time" where
  "date_utc p = utc_days (dp_year p) (dp_month p) (dp_day p) * 86400000 + dp_hour p * 3600000 +
     dp_minute p * 60000 + dp_second p * 1000"

text \<open>
  \<open>dateParts\<close> is the standard \<open>Intl.DateTimeFormat\<close> of a time zone, the parameter \<open>zone\<close>.
  \<open>zonedDate\<close> corrects its guess twice.
\<close>

definition zoned_step :: "(time \<Rightarrow> date_parts) \<Rightarrow> time \<Rightarrow> time \<Rightarrow> time" where
  "zoned_step zone wanted v = v + (wanted - date_utc (zone v))"

definition zoned_date :: "(time \<Rightarrow> date_parts) \<Rightarrow> date_parts \<Rightarrow> time" where
  "zoned_date zone p = (let wanted = date_utc p in zoned_step zone wanted (zoned_step zone wanted wanted))"

datatype period = Today | Last24h | Week | Last7d | Month | Last30d | Year | Last365d | AllTime

definition midnight :: "date_parts \<Rightarrow> date_parts" where
  "midnight p = p\<lparr>dp_hour := 0, dp_minute := 0, dp_second := 0\<rparr>"

text \<open>
  The Monday of a week is \<open>Date.UTC(year, month - 1, day - (weekday + 6) mod 7)\<close>, whose UTC
  fields are read back; only its days enter \<open>zonedDate\<close>, through \<open>Date.UTC\<close> again.
\<close>

definition weekday :: "int \<Rightarrow> int" where
  "weekday days = (days + 4) mod 7"

definition period_start :: "(time \<Rightarrow> date_parts) \<Rightarrow> period \<Rightarrow> time \<Rightarrow> time option" where
  "period_start zone p reference =
     (let local = zone reference; day = 24 * 60 * 60 * 1000
      in case p of
           Last24h \<Rightarrow> Some (reference - 1 * day)
         | Last7d \<Rightarrow> Some (reference - 7 * day)
         | Last30d \<Rightarrow> Some (reference - 30 * day)
         | Last365d \<Rightarrow> Some (reference - 365 * day)
         | AllTime \<Rightarrow> None
         | Today \<Rightarrow> Some (zoned_date zone (midnight local))
         | Month \<Rightarrow> Some (zoned_date zone (midnight (local\<lparr>dp_day := 1\<rparr>)))
         | Year \<Rightarrow> Some (zoned_date zone (midnight (local\<lparr>dp_month := 1, dp_day := 1\<rparr>)))
         | Week \<Rightarrow>
             (let days = utc_days (dp_year local) (dp_month local) (dp_day local);
                  monday = (days - (weekday days + 6) mod 7) * day
              in Some (zoned_step zone monday (zoned_step zone monday monday))))"

section \<open>Counters and samples\<close>

record traffic_point =
  tp_connection :: string
  tp_counter :: "string option"
  tp_upload :: int
  tp_download :: int

record traffic_delta =
  td_upload :: nat
  td_download :: nat
  td_activity :: bool
  td_reset :: bool

definition safe_counter :: "int \<Rightarrow> bool" where
  "safe_counter n \<longleftrightarrow> 0 \<le> n \<and> n \<le> 9007199254740991"

definition delta_of :: "nat option \<Rightarrow> nat \<Rightarrow> nat" where
  "delta_of previous n = (case previous of None \<Rightarrow> n | Some p \<Rightarrow> if p \<le> n then n - p else n)"

text \<open>\<open>INSERT INTO traffic_samples .. ON CONFLICT DO UPDATE SET upload = upload + ..\<close>\<close>

definition add_sample :: "bucket \<Rightarrow> time \<Rightarrow> string \<Rightarrow> engine \<Rightarrow> nat \<Rightarrow> nat \<Rightarrow> traffic_sample list \<Rightarrow> traffic_sample list" where
  "add_sample b at i e up down samples =
     upsert (\<lambda>s. ts_bucket s = b \<and> ts_bucket_at s = at \<and> ts_connection_id s = i \<and> ts_engine s = e)
       (\<lambda>s. s\<lparr>ts_upload := ts_upload s + up, ts_download := ts_download s + down\<rparr>)
       \<lparr>ts_bucket = b, ts_bucket_at = at, ts_connection_id = i, ts_engine = e, ts_upload = up, ts_download = down\<rparr>
       samples"

definition find_cursor :: "string \<Rightarrow> engine \<Rightarrow> string \<Rightarrow> db \<Rightarrow> traffic_cursor option" where
  "find_cursor i e c d =
     select_one (\<lambda>r. tc_connection_id r = i \<and> tc_engine r = e \<and> tc_counter_id r = c) (t_cursors d)"

definition save_cursor :: "string \<Rightarrow> engine \<Rightarrow> string \<Rightarrow> nat \<Rightarrow> nat \<Rightarrow> time \<Rightarrow> db \<Rightarrow> db" where
  "save_cursor i e c up down now d =
     d\<lparr>t_cursors := upsert (\<lambda>r. tc_connection_id r = i \<and> tc_engine r = e \<and> tc_counter_id r = c)
        (\<lambda>r. r\<lparr>tc_upload := up, tc_download := down, tc_observed_at := now\<rparr>)
        \<lparr>tc_connection_id = i, tc_engine = e, tc_counter_id = c, tc_upload = up, tc_download = down, tc_observed_at = now\<rparr>
        (t_cursors d)\<rparr>"

definition record_cumulative :: "engine \<Rightarrow> traffic_point \<Rightarrow> time \<Rightarrow> db \<Rightarrow> (traffic_delta \<times> db) result" where
  "record_cumulative e p now d =
     (if \<not> (safe_counter (tp_upload p) \<and> safe_counter (tp_download p)) then Err (Thrown ''Invalid traffic counters'')
      else if \<not> (\<exists>c\<in>set (t_connections d). c_id c = tp_connection p)
      then Ok (\<lparr>td_upload = 0, td_download = 0, td_activity = False, td_reset = False\<rparr>, d)
      else
        let i = tp_connection p; counter = coalesce (tp_counter p) [];
            up = nat (tp_upload p); down = nat (tp_download p);
            cursor = find_cursor i e counter d;
            reset = (case cursor of None \<Rightarrow> False | Some c \<Rightarrow> up < tc_upload c \<or> down < tc_download c);
            upload = delta_of (map_option tc_upload cursor) up;
            download = delta_of (map_option tc_download cursor) down;
            d1 = save_cursor i e counter up down now d;
            d2 = (if upload \<noteq> 0 \<or> download \<noteq> 0
                  then d1\<lparr>t_samples := add_sample B5m (floor_date 5 now) i e upload download (t_samples d1)\<rparr>
                  else d1)
        in Ok (\<lparr>td_upload = upload, td_download = download,
                td_activity = (cursor \<noteq> None \<and> \<not> reset \<and> (upload > 0 \<or> download > 0)), td_reset = reset\<rparr>, d2))"

section \<open>Compaction\<close>

definition rollup :: "bucket \<Rightarrow> bucket \<Rightarrow> time \<Rightarrow> int \<Rightarrow> traffic_sample list \<Rightarrow> traffic_sample list" where
  "rollup source target before minutes samples =
     foldl (\<lambda>acc s. add_sample target (floor_date minutes (ts_bucket_at s)) (ts_connection_id s) (ts_engine s)
                      (ts_upload s) (ts_download s) acc)
       samples (filter (\<lambda>s. ts_bucket s = source \<and> ts_bucket_at s < before) samples)"

definition delete_samples :: "bucket \<Rightarrow> time \<Rightarrow> traffic_sample list \<Rightarrow> traffic_sample list" where
  "delete_samples b before = delete_where (\<lambda>s. ts_bucket s = b \<and> ts_bucket_at s < before)"

definition compact :: "time \<Rightarrow> db \<Rightarrow> db" where
  "compact reference d =
     (let five = reference - 48 * 60 * 60 * 1000;
          hourly = reference - 90 * 24 * 60 * 60 * 1000;
          s1 = rollup B5m B1h five 60 (t_samples d);
          s2 = rollup B1h B1d hourly (24 * 60) s1
      in d\<lparr>t_samples := delete_samples B1h hourly (delete_samples B5m five s2),
           t_cursors := delete_where (\<lambda>c. tc_engine c \<in> {Mihomo, SingBox} \<and> tc_observed_at c < five) (t_cursors d)\<rparr>)"

section \<open>The overview\<close>

record traffic_query =
  tq_since :: "time option"
  tq_until :: time
  tq_connection :: "string option"
  tq_series :: bool
  tq_resolution :: "int option"
  tq_max_points :: "int option"

text \<open>The range and the connection of a query; its times are in the format of the stored ones.\<close>

definition in_query :: "traffic_query \<Rightarrow> traffic_sample \<Rightarrow> bool" where
  "in_query q s \<longleftrightarrow>
     ts_bucket_at s \<le> tq_until q \<and>
     (case tq_since q of None \<Rightarrow> True | Some t \<Rightarrow> t \<le> ts_bucket_at s) \<and>
     (case tq_connection q of None \<Rightarrow> True | Some i \<Rightarrow> i = [] \<or> ts_connection_id s = i)"

definition total_of :: "traffic_sample list \<Rightarrow> nat \<times> nat" where
  "total_of ss = (sum_list (map ts_upload ss), sum_list (map ts_download ss))"

definition earliest :: "traffic_query \<Rightarrow> traffic_sample list \<Rightarrow> time" where
  "earliest q ss =
     (case tq_since q of
        Some t \<Rightarrow> t
      | None \<Rightarrow> (case map ts_bucket_at ss of [] \<Rightarrow> tq_until q | t # ts \<Rightarrow> foldl min t ts))"

definition max_points :: "traffic_query \<Rightarrow> int" where
  "max_points q = max 1 (min 1000 (coalesce (tq_max_points q) 200))"

definition ceil_div :: "int \<Rightarrow> int \<Rightarrow> int" where
  "ceil_div a b = - ((- a) div b)"

text \<open>
  The origin and the width of the series' intervals.  The quotients of the code are doubles;
  they are far from the next integer when they are not one, so \<open>Math.ceil\<close> is exact.
\<close>

definition series_grid :: "traffic_query \<Rightarrow> traffic_sample list \<Rightarrow> int \<times> int" where
  "series_grid q ss =
     (case tq_resolution q of
        Some r \<Rightarrow> (0, r)
      | None \<Rightarrow> (let origin = earliest q ss div 300000 * 300000
                 in (origin, max 300000 (ceil_div (tq_until q - origin + 1) (max_points q * 300000) * 300000))))"

text \<open>SQL's integer division truncates.\<close>

definition sql_div :: "int \<Rightarrow> int \<Rightarrow> int" where
  "sql_div a b = (if 0 \<le> a then a div b else - ((- a) div b))"

definition slot_of :: "int \<times> int \<Rightarrow> traffic_sample \<Rightarrow> int" where
  "slot_of g s =
     (case g of (origin, width) \<Rightarrow> sql_div (ts_bucket_at s div 1000 * 1000 - origin) width * width + origin)"

text \<open>\<open>GROUP BY connection_id, at ORDER BY at\<close>\<close>

definition series_rows :: "traffic_query \<Rightarrow> traffic_sample list \<Rightarrow> (string \<times> int \<times> nat \<times> nat) list" where
  "series_rows q ss =
     (let g = series_grid q ss; key = (\<lambda>s. (ts_connection_id s, slot_of g s))
      in if \<not> tq_series q then []
         else sort_by (\<lambda>a b. fst (snd a) \<le> fst (snd b))
                (map (\<lambda>k. (fst k, snd k, total_of (filter (\<lambda>s. key s = k) ss))) (js_distinct (map key ss))))"

definition add_point :: "int \<times> nat \<times> nat \<Rightarrow> (int, nat \<times> nat) js_map \<Rightarrow> (int, nat \<times> nat) js_map" where
  "add_point r m =
     (let old = coalesce (map_get (fst r) m) (0, 0)
      in map_set (fst r) (fst old + fst (snd r), snd old + snd (snd r)) m)"

definition series_for ::
  "string option \<Rightarrow> traffic_query \<Rightarrow> (string \<times> int \<times> nat \<times> nat) list \<Rightarrow> (int, nat \<times> nat) js_map result" where
  "series_for i q rows =
     (let picked = filter (\<lambda>r. case i of None \<Rightarrow> True | Some c \<Rightarrow> c = [] \<or> fst r = c) rows;
          points = foldl (\<lambda>m r. add_point (snd r) m) [] picked
      in if int (length points) > max_points q \<and> tq_resolution q \<noteq> None then Err (ServiceError 400) else Ok points)"

definition connection_traffic ::
  "traffic_query \<Rightarrow> traffic_sample list \<Rightarrow> connection \<Rightarrow> (string \<times> string \<times> (nat \<times> nat) \<times> (int, nat \<times> nat) js_map) result" where
  "connection_traffic q ss c =
     bind_result (series_for (Some (c_id c)) q (series_rows q ss)) (\<lambda>s.
       Ok (c_id c, c_name c, total_of (filter (\<lambda>x. ts_connection_id x = c_id c) ss), s))"

record traffic_overview =
  ov_totals :: "nat \<times> nat"
  ov_connections :: "(string \<times> string \<times> (nat \<times> nat) \<times> (int, nat \<times> nat) js_map) list"
  ov_series :: "(int, nat \<times> nat) js_map"
  ov_resolution :: int

definition traffic_overview :: "traffic_query \<Rightarrow> db \<Rightarrow> traffic_overview result" where
  "traffic_overview q d =
     (if (case tq_since q of None \<Rightarrow> False | Some t \<Rightarrow> tq_until q < t) then Err (ServiceError 400)
      else
        let ss = filter (in_query q) (t_samples d);
            listed = filter (\<lambda>c. c_archived_at c = None \<and>
                       (case tq_connection q of None \<Rightarrow> True | Some i \<Rightarrow> i = [] \<or> c_id c = i)) (list_connections False d);
            volume = (\<lambda>c. case fst (snd (snd c)) of (up, down) \<Rightarrow> up + down)
        in bind_result (map_result (connection_traffic q ss) listed) (\<lambda>cs.
           bind_result (series_for None q (series_rows q ss)) (\<lambda>series.
           Ok \<lparr>ov_totals = total_of ss, ov_connections = sort_by (\<lambda>a b. volume b \<le> volume a) cs,
               ov_series = series, ov_resolution = snd (series_grid q ss)\<rparr>)))"

section \<open>Presence\<close>

definition active_connections :: "db \<Rightarrow> connection list" where
  "active_connections d = filter (\<lambda>c. c_status c = Active \<and> c_suspended_at c = None) (list_connections False d)"

definition find_presence :: "string \<Rightarrow> engine \<Rightarrow> db \<Rightarrow> presence_row option" where
  "find_presence i e d = select_one (\<lambda>p. p_connection_id p = i \<and> p_engine p = e) (t_presence d)"

definition save_presence ::
  "string \<Rightarrow> engine \<Rightarrow> presence_status \<Rightarrow> presence_signal \<Rightarrow> time \<Rightarrow> nat option \<Rightarrow> nat \<Rightarrow> time option \<Rightarrow> db \<Rightarrow> db" where
  "save_presence i e status signal now conns misses last_active d =
     (let changed = (case find_presence i e d of None \<Rightarrow> now
                     | Some p \<Rightarrow> if p_status p = status then p_changed_at p else now);
          new = \<lparr>p_connection_id = i, p_engine = e, p_status = status, p_signal = signal, p_connections = conns,
                 p_misses = misses, p_last_active_at = last_active, p_observed_at = now, p_changed_at = changed\<rparr>
      in d\<lparr>t_presence := upsert (\<lambda>p. p_connection_id p = i \<and> p_engine p = e) (\<lambda>_. new) new (t_presence d)\<rparr>)"

definition observe_presence ::
  "engine \<Rightarrow> (string \<times> int) list option \<Rightarrow> string list \<Rightarrow> time \<Rightarrow> connection \<Rightarrow> db \<Rightarrow> db" where
  "observe_presence e online active now c d =
     (let previous = find_presence (c_id c) e d
      in case online of
           Some counts \<Rightarrow>
             (let n = nat (max 0 (coalesce (map_of counts (c_id c)) 0));
                  misses = (if n \<noteq> 0 then 0 else (case previous of None \<Rightarrow> 0 | Some p \<Rightarrow> p_misses p) + 1);
                  status = (if n \<noteq> 0 then Online else if 2 \<le> misses then Offline
                            else (case previous of None \<Rightarrow> Unknown | Some p \<Rightarrow> p_status p));
                  last = (if n \<noteq> 0 then Some now else Option.bind previous p_last_active_at)
              in save_presence (c_id c) e status BySessions now (Some n) misses last d)
         | None \<Rightarrow>
             (let last = (if c_id c \<in> set active then Some now else Option.bind previous p_last_active_at);
                  recent = (case last of None \<Rightarrow> False | Some t \<Rightarrow> now - t \<le> 2 * 60 * 1000)
              in save_presence (c_id c) e (if recent then Online else Offline) ByTraffic now None 0 last d))"

definition update_presence :: "engine \<Rightarrow> (string \<times> int) list option \<Rightarrow> string list \<Rightarrow> time \<Rightarrow> db \<Rightarrow> db" where
  "update_presence e online active now d =
     foldl (\<lambda>d c. observe_presence e online active now c d) d (active_connections d)"

definition mark_unknown :: "engine \<Rightarrow> time \<Rightarrow> db \<Rightarrow> db" where
  "mark_unknown e now d =
     foldl (\<lambda>d c. let previous = find_presence (c_id c) e d
                  in save_presence (c_id c) e Unknown (if e = Hysteria then BySessions else ByTraffic) now
                       (Option.bind previous p_connections) (case previous of None \<Rightarrow> 0 | Some p \<Rightarrow> p_misses p)
                       (Option.bind previous p_last_active_at) d)
       d (active_connections d)"

section \<open>Activity and telemetry events\<close>

definition activity_entry :: "string \<Rightarrow> string \<Rightarrow> time \<Rightarrow> (string \<times> json) list \<Rightarrow> journal_entry" where
  "activity_entry i name at extra =
     entry\<lparr>je_actor := Some ''telemetry'', je_subject_type := Some ''connection'', je_subject_id := Some i,
           je_occurred_at := Some at, je_data := (''connectionName'', JStr name) # extra\<rparr>"

text \<open>The last of the sorted activity times of the engines the connection is online on.\<close>

definition seen_at :: "time \<Rightarrow> presence_row list \<Rightarrow> time" where
  "seen_at now online =
     (case List.map_filter p_last_active_at online of [] \<Rightarrow> now | t # ts \<Rightarrow> foldl max t ts)"

definition activity_facts :: "time \<Rightarrow> connection \<Rightarrow> db \<Rightarrow> db result" where
  "activity_facts now c d =
     (let rows = List.map_filter (engine_presence d (c_id c)) (installed_engines d);
          online = filter (\<lambda>p. p_status p = Online) rows
      in if online \<noteq> []
         then let seen = seen_at now online;
                  d1 = d\<lparr>t_connections := update_where (\<lambda>r. c_id r = c_id c)
                     (\<lambda>r. r\<lparr>c_first_seen_at := Some (coalesce (c_first_seen_at r) seen),
                            c_last_seen_at := Some seen, c_absence_notified_at := None\<rparr>) (t_connections d)\<rparr>
              in if c_first_seen_at c = None
                 then record_event ''connection.first_seen'' (activity_entry (c_id c) (c_name c) now []) now d1
                 else (case c_absence_notified_at c of
                         None \<Rightarrow> Ok d1
                       | Some t \<Rightarrow> record_event ''connection.returned''
                                    (activity_entry (c_id c) (c_name c) now [(''absentSince'', JNum t)]) now d1)
         else (case (c_last_seen_at c, c_absence_notified_at c) of
                 (Some t, None) \<Rightarrow>
                   if presence_of c d \<noteq> Unknown \<and> now - t \<ge> 24 * 60 * 60 * 1000
                   then record_event ''connection.offline_long''
                          (activity_entry (c_id c) (c_name c) now [(''lastSeenAt'', JNum t)]) now
                          (d\<lparr>t_connections := update_where (\<lambda>r. c_id r = c_id c)
                               (\<lambda>r. r\<lparr>c_absence_notified_at := Some now\<rparr>) (t_connections d)\<rparr>)
                   else Ok d
               | _ \<Rightarrow> Ok d))"

fun fold_result :: "('a \<Rightarrow> 'b \<Rightarrow> 'b result) \<Rightarrow> 'a list \<Rightarrow> 'b \<Rightarrow> 'b result" where
  "fold_result f [] s = Ok s"
| "fold_result f (x # xs) s = bind_result (f x s) (fold_result f xs)"

definition update_activity_facts :: "time \<Rightarrow> db \<Rightarrow> db result" where
  "update_activity_facts now d = fold_result (activity_facts now) (active_connections d) d"

definition find_monitor :: "string \<Rightarrow> db \<Rightarrow> monitor_row option" where
  "find_monitor k d = select_one (\<lambda>m. mo_key m = k) (t_monitor d)"

text \<open>\<open>saveMonitor\<close> leaves the severity of an existing row.\<close>

definition save_monitor :: "string \<Rightarrow> string \<Rightarrow> nat \<Rightarrow> time \<Rightarrow> (string \<times> json) list \<Rightarrow> db \<Rightarrow> db" where
  "save_monitor k status failures now data d =
     (let changed = (case find_monitor k d of None \<Rightarrow> now | Some m \<Rightarrow> if mo_status m = status then mo_changed_at m else now)
      in d\<lparr>t_monitor := upsert (\<lambda>m. mo_key m = k)
           (\<lambda>m. m\<lparr>mo_status := status, mo_failures := failures, mo_data := data, mo_observed_at := now, mo_changed_at := changed\<rparr>)
           \<lparr>mo_key = k, mo_status = status, mo_severity = None, mo_failures = failures, mo_data = data,
            mo_observed_at = now, mo_changed_at = changed\<rparr> (t_monitor d)\<rparr>)"

definition telemetry_key :: "engine \<Rightarrow> string" where
  "telemetry_key e = ''telemetry:'' @ engine_key e"

definition telemetry_entry :: "engine \<Rightarrow> time \<Rightarrow> journal_entry" where
  "telemetry_entry e at =
     entry\<lparr>je_actor := Some ''monitor'', je_source := Some (engine_key e), je_subject_type := Some ''engine'',
           je_subject_id := Some (engine_key e), je_occurred_at := Some at, je_data := [(''engine'', JStr (engine_key e))]\<rparr>"

definition telemetry_failure :: "engine \<Rightarrow> string \<Rightarrow> time \<Rightarrow> db \<Rightarrow> db result" where
  "telemetry_failure e message now d =
     (let k = telemetry_key e; previous = find_monitor k d;
          failures = (case previous of None \<Rightarrow> 0 | Some m \<Rightarrow> mo_failures m) + 1;
          status = map_option mo_status previous
      in bind_result (if 2 \<le> failures \<and> status \<noteq> Some ''unavailable''
                      then record_event ''engine.telemetry_unavailable'' (telemetry_entry e now) now d else Ok d) (\<lambda>d.
         Ok (save_monitor k (if 2 \<le> failures then ''unavailable'' else coalesce status ''baseline'') failures now
               [(''error'', JStr (take 500 message))] d)))"

definition telemetry_success :: "engine \<Rightarrow> time \<Rightarrow> db \<Rightarrow> db result" where
  "telemetry_success e now d =
     (let k = telemetry_key e
      in bind_result (if map_option mo_status (find_monitor k d) = Some ''unavailable''
                      then record_event ''engine.telemetry_restored'' (telemetry_entry e now) now d else Ok d) (\<lambda>d.
         Ok (save_monitor k ''available'' 0 now [] d)))"

section \<open>One collection\<close>

record telemetry_snapshot =
  sn_traffic :: "traffic_point list"
  sn_online :: "(string \<times> int) list option"

text \<open>
  The points of a snapshot, each in its own transaction: a bad counter stops the loop and
  leaves the points before it recorded.
\<close>

fun record_points :: "engine \<Rightarrow> time \<Rightarrow> traffic_point list \<Rightarrow> string list \<Rightarrow> db \<Rightarrow> string list result \<times> db" where
  "record_points e now [] active d = (Ok active, d)"
| "record_points e now (p # ps) active d =
     (case record_cumulative e p now d of
        Inl x \<Rightarrow> (Err x, d)
      | Inr (delta, d') \<Rightarrow> record_points e now ps (if td_activity delta then tp_connection p # active else active) d')"

definition collect_engine :: "(failure \<Rightarrow> string) \<Rightarrow> engine \<Rightarrow> telemetry_snapshot result \<Rightarrow> time \<Rightarrow> db \<Rightarrow> db result" where
  "collect_engine say e snapshot now d =
     (case (case snapshot of
              Inl x \<Rightarrow> (Err x, d)
            | Inr s \<Rightarrow> (case record_points e now (sn_traffic s) [] d of
                          (Inl x, d1) \<Rightarrow> (Err x, d1)
                        | (Inr active, d1) \<Rightarrow> (Ok (), update_presence e (sn_online s) active now d1))) of
        (Inr _, d1) \<Rightarrow> telemetry_success e now d1
      | (Inl x, d1) \<Rightarrow> telemetry_failure e (say x) now (mark_unknown e now d1))"

record collector_memory =
  cm_sampled :: "(engine \<times> time) list"
  cm_compacted :: time

definition due_collectors :: "(engine \<times> int) list \<Rightarrow> time \<Rightarrow> collector_memory \<Rightarrow> db \<Rightarrow> engine list" where
  "due_collectors collectors now m d =
     map fst (filter (\<lambda>(e, interval). has_engine e d \<and>
        (case map_of (cm_sampled m) e of None \<Rightarrow> True | Some t \<Rightarrow> \<not> now - t < interval)) collectors)"

definition collect :: 
  "(failure \<Rightarrow> string) \<Rightarrow> (engine \<times> int) list \<Rightarrow> (engine \<Rightarrow> telemetry_snapshot result) \<Rightarrow> time
   \<Rightarrow> collector_memory \<times> db \<Rightarrow> (collector_memory \<times> db) result" where
  "collect say collectors answers now s =
     (case s of (m, d) \<Rightarrow>
        (let due = due_collectors collectors now m d;
             m1 = m\<lparr>cm_sampled := map (\<lambda>e. (e, now)) due @ cm_sampled m\<rparr>
         in bind_result (fold_result (\<lambda>e d. collect_engine say e (answers e) now d) due d) (\<lambda>d1.
            bind_result (update_activity_facts now d1) (\<lambda>d2.
            if now - cm_compacted m \<ge> 5 * 60000 then Ok (m1\<lparr>cm_compacted := now\<rparr>, compact now d2) else Ok (m1, d2)))))"

end
