(* ===== verification/Traffic_Properties.thy ===== *)
theory Traffic_Properties
  imports Traffic Connection_Safety
begin

text \<open>
  What the traffic figures mean: compaction changes no total, the samples of a connection add
  up to what its counters counted across resets, the series of the overview adds up to its
  totals within the requested number of points, and the telemetry events of an engine
  alternate.
\<close>

section \<open>Volumes\<close>

type_synonym sample_key = "bucket \<times> time \<times> string \<times> engine"

definition sample_key :: "traffic_sample \<Rightarrow> sample_key" where
  "sample_key s = (ts_bucket s, ts_bucket_at s, ts_connection_id s, ts_engine s)"

text \<open>The unique constraint of the table of samples.\<close>

definition samples_ok :: "traffic_sample list \<Rightarrow> bool" where
  "samples_ok ss \<longleftrightarrow> distinct (map sample_key ss)"

text \<open>A linear measure of the samples of one connection and engine.\<close>

definition weight :: "nat \<Rightarrow> nat \<Rightarrow> string \<Rightarrow> engine \<Rightarrow> traffic_sample \<Rightarrow> nat" where
  "weight a b i e s =
     (if ts_connection_id s = i \<and> ts_engine s = e then a * ts_upload s + b * ts_download s else 0)"

definition measured :: "nat \<Rightarrow> nat \<Rightarrow> string \<Rightarrow> engine \<Rightarrow> traffic_sample list \<Rightarrow> nat" where
  "measured a b i e ss = sum_list (map (weight a b i e) ss)"

definition volume :: "string \<Rightarrow> engine \<Rightarrow> traffic_sample list \<Rightarrow> nat \<times> nat" where
  "volume i e ss = total_of (filter (\<lambda>s. ts_connection_id s = i \<and> ts_engine s = e) ss)"

lemma volume_measured: "volume i e ss = (measured 1 0 i e ss, measured 0 1 i e ss)"
  by (induction ss) (auto simp: volume_def total_of_def measured_def weight_def)

lemma measured_simps [simp]:
  "measured a b i e [] = 0"
  "measured a b i e (s # ss) = weight a b i e s + measured a b i e ss"
  "measured a b i e (xs @ ys) = measured a b i e xs + measured a b i e ys"
  by (simp_all add: measured_def)

lemma measured_partition: "measured a b i e (filter P ss) + measured a b i e (filter (\<lambda>s. \<not> P s) ss) = measured a b i e ss"
  by (induction ss) auto

lemma sample_match:
  "ts_bucket s = b \<and> ts_bucket_at s = at \<and> ts_connection_id s = i \<and> ts_engine s = e \<longleftrightarrow> sample_key s = (b, at, i, e)"
  by (auto simp: sample_key_def)

definition grow :: "nat \<Rightarrow> nat \<Rightarrow> traffic_sample \<Rightarrow> traffic_sample" where
  "grow up down s = s\<lparr>ts_upload := ts_upload s + up, ts_download := ts_download s + down\<rparr>"

lemma add_sample_cases:
  "add_sample b at i e up down ss =
     (if (b, at, i, e) \<in> sample_key ` set ss then update_where (\<lambda>s. sample_key s = (b, at, i, e)) (grow up down) ss
      else ss @ [\<lparr>ts_bucket = b, ts_bucket_at = at, ts_connection_id = i, ts_engine = e, ts_upload = up, ts_download = down\<rparr>])"
  unfolding add_sample_def upsert_def sample_match grow_def [abs_def] by (auto simp: image_iff)

lemma grow_simps [simp]: "sample_key (grow up down s) = sample_key s" "ts_bucket (grow up down s) = ts_bucket s"
  "ts_bucket_at (grow up down s) = ts_bucket_at s"
  by (simp_all add: grow_def sample_key_def)

lemma update_where_absent: "\<forall>s\<in>set ss. \<not> P s \<Longrightarrow> update_where P f ss = ss"
  by (induction ss) auto

lemma weight_grow:
  "weight a b i e (grow up down s) =
     weight a b i e s + (if ts_connection_id s = i \<and> ts_engine s = e then a * up + b * down else 0)"
  by (simp add: weight_def grow_def algebra_simps)

lemma measured_grow:
  assumes "distinct (map sample_key ss)" "k \<in> sample_key ` set ss" "k = (b', at, i', e')"
  shows "measured a b i e (update_where (\<lambda>s. sample_key s = k) (grow up down) ss) =
     measured a b i e ss + (if i' = i \<and> e' = e then a * up + b * down else 0)"
  using assms(1,2)
proof (induction ss)
  case (Cons s ss)
  show ?case
  proof (cases "sample_key s = k")
    case True
    with Cons.prems(1) have "k \<notin> sample_key ` set ss" by simp
    then have "\<forall>x\<in>set ss. sample_key x \<noteq> k" by blast
    then have "update_where (\<lambda>s. sample_key s = k) (grow up down) ss = ss" by (rule update_where_absent)
    moreover have "ts_connection_id s = i'" "ts_engine s = e'" using True assms(3) by (simp_all add: sample_key_def)
    ultimately show ?thesis using True by (simp add: weight_grow)
  next
    case False
    with Cons show ?thesis by auto
  qed
qed simp

lemma add_sample_measured:
  assumes "samples_ok ss"
  shows "measured a b i e (add_sample bk at i' e' up down ss) =
     measured a b i e ss + (if i' = i \<and> e' = e then a * up + b * down else 0)"
proof (cases "(bk, at, i', e') \<in> sample_key ` set ss")
  case True
  with measured_grow [OF assms [unfolded samples_ok_def] True refl, of a b i e up down] show ?thesis
    by (simp only: add_sample_cases if_True)
next
  case False
  then show ?thesis by (simp add: add_sample_cases weight_def)
qed

lemma add_sample_ok: "samples_ok ss \<Longrightarrow> samples_ok (add_sample bk at i e up down ss)"
  unfolding samples_ok_def add_sample_cases
  by (auto simp: map_update_where sample_key_def [of "\<lparr>ts_bucket = _, ts_bucket_at = _, ts_connection_id = _, ts_engine = _, ts_upload = _, ts_download = _\<rparr>"])

lemma add_sample_other:
  "b \<noteq> bk \<Longrightarrow> filter (\<lambda>s. ts_bucket s = b \<and> P s) (add_sample bk at i e up down ss) = filter (\<lambda>s. ts_bucket s = b \<and> P s) ss"
proof -
  assume ne: "b \<noteq> bk"
  have "filter (\<lambda>s. ts_bucket s = b \<and> P s) (update_where (\<lambda>s. sample_key s = (bk, at, i, e)) (grow up down) ss) =
      filter (\<lambda>s. ts_bucket s = b \<and> P s) ss"
    using ne by (induction ss) (auto simp: sample_key_def)
  with ne show ?thesis by (simp add: add_sample_cases)
qed

section \<open>Compaction\<close>

lemma rollup_fold:
  assumes "samples_ok ss"
  shows "samples_ok (foldl (\<lambda>acc s. add_sample t (f s) (ts_connection_id s) (ts_engine s) (ts_upload s) (ts_download s) acc) ss xs) \<and>
     measured a b i e (foldl (\<lambda>acc s. add_sample t (f s) (ts_connection_id s) (ts_engine s) (ts_upload s) (ts_download s) acc) ss xs) =
       measured a b i e ss + measured a b i e xs"
  using assms
proof (induction xs arbitrary: ss)
  case (Cons x xs)
  let ?ss = "add_sample t (f x) (ts_connection_id x) (ts_engine x) (ts_upload x) (ts_download x) ss"
  have "samples_ok ?ss" using Cons.prems by (rule add_sample_ok)
  from Cons.IH [OF this] add_sample_measured [OF Cons.prems] show ?case by (simp add: weight_def)
qed simp

lemma rollup_ok: "samples_ok ss \<Longrightarrow> samples_ok (rollup b t before m ss)"
  and rollup_measured: "samples_ok ss \<Longrightarrow> measured x y i e (rollup b t before m ss) =
     measured x y i e ss + measured x y i e (filter (\<lambda>s. ts_bucket s = b \<and> ts_bucket_at s < before) ss)"
  using rollup_fold by (auto simp: rollup_def)

lemma rollup_other:
  assumes "b \<noteq> t"
  shows "filter (\<lambda>s. ts_bucket s = b \<and> P s) (rollup src t before m ss) = filter (\<lambda>s. ts_bucket s = b \<and> P s) ss"
proof -
  have "filter (\<lambda>s. ts_bucket s = b \<and> P s)
      (foldl (\<lambda>acc s. add_sample t (f s) (ts_connection_id s) (ts_engine s) (ts_upload s) (ts_download s) acc) acc xs) =
    filter (\<lambda>s. ts_bucket s = b \<and> P s) acc" for f acc xs
    by (induction xs arbitrary: acc) (simp_all add: add_sample_other [OF assms])
  then show ?thesis by (simp add: rollup_def)
qed

lemma delete_samples_filter: "delete_samples b before ss = filter (\<lambda>s. \<not> (ts_bucket s = b \<and> ts_bucket_at s < before)) ss"
  by (simp add: delete_samples_def delete_where_def)

lemma measured_delete:
  "measured x y i e (delete_samples b before ss) + measured x y i e (filter (\<lambda>s. ts_bucket s = b \<and> ts_bucket_at s < before) ss) =
   measured x y i e ss"
  using measured_partition [of x y i e "\<lambda>s. ts_bucket s = b \<and> ts_bucket_at s < before" ss]
  by (simp add: delete_samples_filter)

lemma delete_samples_ok: "samples_ok ss \<Longrightarrow> samples_ok (delete_samples b before ss)"
  by (simp add: samples_ok_def delete_samples_filter distinct_map_filter)

lemma compact_measured:
  assumes "samples_ok (t_samples d)"
  shows "measured x y i e (t_samples (compact reference d)) = measured x y i e (t_samples d)"
    "samples_ok (t_samples (compact reference d))"
proof -
  let ?five = "reference - 48 * 60 * 60 * 1000" and ?hourly = "reference - 90 * 24 * 60 * 60 * 1000"
  let ?s0 = "t_samples d"
  let ?s1 = "rollup B5m B1h ?five 60 ?s0"
  let ?s2 = "rollup B1h B1d ?hourly (24 * 60) ?s1"
  let ?s3 = "delete_samples B5m ?five ?s2"
  let ?P5 = "\<lambda>s. ts_bucket s = B5m \<and> ts_bucket_at s < ?five" and ?P1 = "\<lambda>s. ts_bucket s = B1h \<and> ts_bucket_at s < ?hourly"
  have ok1: "samples_ok ?s1" using assms by (rule rollup_ok)
  have f5: "filter ?P5 ?s2 = filter ?P5 ?s0" using rollup_other [of B5m] by simp
  have f1: "filter ?P1 ?s2 = filter ?P1 ?s1" using rollup_other [of B1h B1d] by simp
  have "filter ?P1 ?s3 = filter ?P1 ?s2"
    by (auto simp: delete_samples_filter intro!: filter_cong)
  with f1 measured_delete [of x y i e B1h ?hourly ?s3] measured_delete [of x y i e B5m ?five ?s2]
    rollup_measured [OF assms, of x y i e B5m B1h ?five 60] rollup_measured [OF ok1, of x y i e B1h B1d ?hourly "24 * 60"] f5
  have "measured x y i e (delete_samples B1h ?hourly ?s3) = measured x y i e ?s0" by simp
  then show "measured x y i e (t_samples (compact reference d)) = measured x y i e (t_samples d)"
    by (simp add: compact_def Let_def)
  show "samples_ok (t_samples (compact reference d))"
    unfolding compact_def Let_def using rollup_ok [OF ok1] by (simp add: delete_samples_ok)
qed

text \<open>
  C30.  Compaction moves every sample older than 48 hours into hours and every hour older than 90
  days into days without changing the traffic of any connection on any engine, and keeps
  the unique constraint of the samples.
\<close>

theorem compact_keeps_totals:
  assumes "samples_ok (t_samples d)"
  shows "volume i e (t_samples (compact now d)) = volume i e (t_samples d) \<and>
     samples_ok (t_samples (compact now d)) \<and>
     (\<forall>s\<in>set (t_samples (compact now d)).
        (ts_bucket s = B5m \<longrightarrow> now - 48 * 60 * 60 * 1000 \<le> ts_bucket_at s) \<and>
        (ts_bucket s = B1h \<longrightarrow> now - 90 * 24 * 60 * 60 * 1000 \<le> ts_bucket_at s))"
  using compact_measured [OF assms]
  by (auto simp: volume_measured compact_def Let_def delete_samples_filter not_less)

lemma compact_keeps_totals_witness:
  "volume ''c'' Xray (t_samples (compact 400000000 (empty_db\<lparr>t_samples :=
      [\<lparr>ts_bucket = B5m, ts_bucket_at = 600000, ts_connection_id = ''c'', ts_engine = Xray, ts_upload = 5, ts_download = 7\<rparr>,
       \<lparr>ts_bucket = B5m, ts_bucket_at = 900000, ts_connection_id = ''c'', ts_engine = Xray, ts_upload = 1, ts_download = 2\<rparr>]\<rparr>))) = (6, 9)"
  (is "volume _ _ (t_samples (compact _ ?d)) = _")
proof -
  have "samples_ok (t_samples ?d)" by (simp add: samples_ok_def sample_key_def)
  from compact_keeps_totals [OF this, of "''c''" Xray 400000000] show ?thesis by (simp add: volume_def total_of_def)
qed


section \<open>What the counters counted\<close>

text \<open>
  The readings of a counter split where it decreased: each run counts up to its last reading.
\<close>

fun runs :: "nat list \<Rightarrow> nat list list" where
  "runs [] = []"
| "runs [x] = [[x]]"
| "runs (x # y # zs) =
     (if x \<le> y then (case runs (y # zs) of [] \<Rightarrow> [] | r # rs \<Rightarrow> (x # r) # rs) else [x] # runs (y # zs))"

definition counted :: "nat list \<Rightarrow> nat" where
  "counted xs = sum_list (map last (runs xs))"

lemma runs_not_Nil [simp]: "runs (x # xs) \<noteq> []"
  by (induction xs arbitrary: x) (auto split: list.splits)

lemma runs_heads: "[] \<notin> set (runs xs)"
proof (induction xs rule: runs.induct)
  case (3 x y zs)
  then show ?case by (cases "runs (y # zs)") auto
qed simp_all

lemma counted_simps [simp]: "counted [] = 0" "counted [x] = x"
  "counted (x # y # zs) = (if x \<le> y then counted (y # zs) else x + counted (y # zs))"
proof -
  show "counted (x # y # zs) = (if x \<le> y then counted (y # zs) else x + counted (y # zs))"
  proof (cases "x \<le> y")
    case True
    obtain r rs where r: "runs (y # zs) = r # rs" using runs_not_Nil by (cases "runs (y # zs)") blast+
    then have "r \<noteq> []" using runs_heads [of "y # zs"] by auto
    with True r show ?thesis by (simp add: counted_def)
  qed (simp add: counted_def)
qed (simp_all add: counted_def)

lemma counted_snoc:
  "counted (xs @ [x]) = counted xs + delta_of (if xs = [] then None else Some (last xs)) x"
  by (induction xs rule: runs.induct) (auto simp: delta_of_def)

datatype meter_action = Reading engine traffic_point time | Compaction time

definition meter_step :: "meter_action \<Rightarrow> db \<Rightarrow> db" where
  "meter_step a d =
     (case a of
        Reading e p now \<Rightarrow> (case record_cumulative e p now d of Inl _ \<Rightarrow> d | Inr (_, d') \<Rightarrow> d')
      | Compaction now \<Rightarrow> compact now d)"

definition run_meter :: "meter_action list \<Rightarrow> db \<Rightarrow> db" where
  "run_meter as d = foldl (\<lambda>d a. meter_step a d) d as"

text \<open>The accepted readings of one counter of a connection on an engine, in order.\<close>

definition reading_of :: "string \<Rightarrow> engine \<Rightarrow> string \<Rightarrow> meter_action \<Rightarrow> traffic_point option" where
  "reading_of i e c a =
     (case a of
        Reading e' p _ \<Rightarrow>
          if e' = e \<and> tp_connection p = i \<and> coalesce (tp_counter p) [] = c \<and>
             safe_counter (tp_upload p) \<and> safe_counter (tp_download p) then Some p else None
      | Compaction _ \<Rightarrow> None)"

definition readings :: "string \<Rightarrow> engine \<Rightarrow> meter_action list \<Rightarrow> string \<Rightarrow> traffic_point list" where
  "readings i e as c = List.map_filter (reading_of i e c) as"

definition counters :: "meter_action list \<Rightarrow> string set" where
  "counters as = set (List.map_filter
     (\<lambda>a. case a of Reading e p now \<Rightarrow> Some (coalesce (tp_counter p) []) | Compaction _ \<Rightarrow> None) as)"

lemma counters_simps [simp]: "counters [] = {}" "counters (as @ bs) = counters as \<union> counters bs"
  "counters (Reading e p now # as) = insert (coalesce (tp_counter p) []) (counters as)"
  "counters (Compaction now # as) = counters as"
  by (auto simp: counters_def map_filter_def)

lemma finite_counters [simp]: "finite (counters as)"
  by (simp add: counters_def)

definition up_of :: "traffic_point \<Rightarrow> nat" where "up_of p = nat (tp_upload p)"
definition down_of :: "traffic_point \<Rightarrow> nat" where "down_of p = nat (tp_download p)"

lemma select_one_upsert:
  assumes "\<And>r. k (f r) = k r" "k new = y"
  shows "select_one (\<lambda>r. k r = x) (upsert (\<lambda>r. k r = y) f new rows) =
     (if x = y then Some (case select_one (\<lambda>r. k r = x) rows of None \<Rightarrow> new | Some r \<Rightarrow> f r)
      else select_one (\<lambda>r. k r = x) rows)"
proof (cases "\<exists>r\<in>set rows. k r = y")
  case True
  have "select_one (\<lambda>r. k r = x) (update_where (\<lambda>r. k r = y) f rows) =
      map_option (\<lambda>r. if k r = y then f r else r) (select_one (\<lambda>r. k r = x) rows)"
    using assms(1) by (induction rows) auto
  moreover have "upsert (\<lambda>r. k r = y) f new rows = update_where (\<lambda>r. k r = y) f rows"
    using True by (simp add: upsert_def)
  moreover have "k r = x" if "select_one (\<lambda>r. k r = x) rows = Some r" for r
    using select_one_Some [OF that] by simp
  moreover have "select_one (\<lambda>r. k r = x) rows \<noteq> None" if "x = y"
    using True that by auto
  ultimately show ?thesis
    by (cases "x = y"; cases "select_one (\<lambda>r. k r = x) rows") (auto simp del: select_one_None)
next
  case False
  moreover have "select_one (\<lambda>r. k r = x) rows = None" if "x = y" using False that by auto
  moreover have "upsert (\<lambda>r. k r = y) f new rows = rows @ [new]"
    using False by (simp add: upsert_def)
  ultimately show ?thesis using assms(2)
    by (cases "x = y"; cases "select_one (\<lambda>r. k r = x) rows") (auto simp: select_one_append simp del: select_one_None)
qed

definition cursor_key :: "traffic_cursor \<Rightarrow> string \<times> engine \<times> string" where
  "cursor_key r = (tc_connection_id r, tc_engine r, tc_counter_id r)"

lemma cursor_match:
  "tc_connection_id r = i \<and> tc_engine r = e \<and> tc_counter_id r = c \<longleftrightarrow> cursor_key r = (i, e, c)"
  by (simp add: cursor_key_def)

lemma find_cursor_save:
  "find_cursor i e c (save_cursor i' e' c' up down now d) =
     (if (i, e, c) = (i', e', c')
      then Some (case find_cursor i e c d of
                   None \<Rightarrow> \<lparr>tc_connection_id = i', tc_engine = e', tc_counter_id = c', tc_upload = up, tc_download = down, tc_observed_at = now\<rparr>
                 | Some r \<Rightarrow> r\<lparr>tc_upload := up, tc_download := down, tc_observed_at := now\<rparr>)
      else find_cursor i e c d)"
  unfolding find_cursor_def save_cursor_def cursor_match
  by (subst select_one_upsert [of cursor_key, symmetric]) (simp_all add: cursor_key_def)

section \<open>Samples add up to the counters\<close>

definition cursor_follows :: "string \<Rightarrow> engine \<Rightarrow> (string \<Rightarrow> traffic_point list) \<Rightarrow> db \<Rightarrow> bool" where
  "cursor_follows i e rd d \<longleftrightarrow>
     (\<forall>c. map_option (\<lambda>r. (tc_upload r, tc_download r)) (find_cursor i e c d) =
          (if rd c = [] then None else Some (up_of (last (rd c)), down_of (last (rd c)))))"

definition adds_up :: "string \<Rightarrow> engine \<Rightarrow> string set \<Rightarrow> nat \<Rightarrow> nat \<Rightarrow> nat \<Rightarrow> (string \<Rightarrow> traffic_point list) \<Rightarrow> db \<Rightarrow> bool" where
  "adds_up i e C a b start rd d \<longleftrightarrow>
     measured a b i e (t_samples d) = start + (\<Sum>c\<in>C. a * counted (map up_of (rd c)) + b * counted (map down_of (rd c)))"

lemma readings_snoc:
  "readings i e (as @ [a]) c = readings i e as c @ (case reading_of i e c a of None \<Rightarrow> [] | Some p \<Rightarrow> [p])"
  by (simp add: readings_def map_filter_def split: option.split)

lemma select_one_delete:
  assumes "\<And>r. q r \<Longrightarrow> \<not> p r"
  shows "select_one q (delete_where p rows) = select_one q rows"
  using assms by (induction rows) auto

lemma compact_cursor:
  assumes "e \<noteq> Mihomo" "e \<noteq> SingBox"
  shows "find_cursor i e c (compact now d) = find_cursor i e c d"
  unfolding find_cursor_def compact_def Let_def
  by (simp, rule select_one_delete) (use assms in auto)

lemma compact_connections: "t_connections (compact now d) = t_connections d"
  by (simp add: compact_def Let_def)

lemma record_cumulative_step:
  assumes ok: "record_cumulative e' p now d = Ok (delta, d')" and samples: "samples_ok (t_samples d)"
    and conn: "\<exists>r\<in>set (t_connections d). c_id r = i"
  shows "t_connections d' = t_connections d" "samples_ok (t_samples d')"
    "find_cursor i e c d' =
      (if e' = e \<and> tp_connection p = i \<and> coalesce (tp_counter p) [] = c
       then Some (case find_cursor i e c d of
              None \<Rightarrow> \<lparr>tc_connection_id = i, tc_engine = e, tc_counter_id = c, tc_upload = up_of p, tc_download = down_of p, tc_observed_at = now\<rparr>
            | Some r \<Rightarrow> r\<lparr>tc_upload := up_of p, tc_download := down_of p, tc_observed_at := now\<rparr>)
       else find_cursor i e c d)"
    "measured a b i e (t_samples d') = measured a b i e (t_samples d) +
      (if e' = e \<and> tp_connection p = i
       then a * delta_of (map_option tc_upload (find_cursor i e (coalesce (tp_counter p) []) d)) (up_of p) +
            b * delta_of (map_option tc_download (find_cursor i e (coalesce (tp_counter p) []) d)) (down_of p)
       else 0)"
proof -
  from ok have safe: "safe_counter (tp_upload p) \<and> safe_counter (tp_download p)"
    by (auto simp: record_cumulative_def split: if_splits)
  let ?i = "tp_connection p" and ?c = "coalesce (tp_counter p) []"
  let ?up = "delta_of (map_option tc_upload (find_cursor ?i e' ?c d)) (up_of p)"
  let ?down = "delta_of (map_option tc_download (find_cursor ?i e' ?c d)) (down_of p)"
  let ?d1 = "save_cursor ?i e' ?c (up_of p) (down_of p) now d"
  have "t_connections d' = t_connections d \<and> samples_ok (t_samples d') \<and>
    find_cursor i e c d' =
      (if e' = e \<and> ?i = i \<and> ?c = c
       then Some (case find_cursor i e c d of
              None \<Rightarrow> \<lparr>tc_connection_id = i, tc_engine = e, tc_counter_id = c, tc_upload = up_of p, tc_download = down_of p, tc_observed_at = now\<rparr>
            | Some r \<Rightarrow> r\<lparr>tc_upload := up_of p, tc_download := down_of p, tc_observed_at := now\<rparr>)
       else find_cursor i e c d) \<and>
    measured a b i e (t_samples d') = measured a b i e (t_samples d) +
      (if e' = e \<and> ?i = i then a * ?up + b * ?down else 0)"
  proof (cases "\<exists>r\<in>set (t_connections d). c_id r = ?i")
    case False
    with ok safe have "d' = d" by (simp add: record_cumulative_def)
    moreover from False conn have "?i \<noteq> i" by auto
    ultimately show ?thesis using samples by simp
  next
    case True
    with ok safe have d': "d' = (if ?up \<noteq> 0 \<or> ?down \<noteq> 0
        then ?d1\<lparr>t_samples := add_sample B5m (floor_date 5 now) ?i e' ?up ?down (t_samples ?d1)\<rparr> else ?d1)"
      by (auto simp: record_cumulative_def Let_def up_of_def down_of_def)
    have same: "t_samples ?d1 = t_samples d" "t_connections ?d1 = t_connections d" by (simp_all add: save_cursor_def)
    have cur: "find_cursor i e c d' = find_cursor i e c ?d1" unfolding d' by (simp add: find_cursor_def)
    have "measured a b i e (t_samples d') = measured a b i e (t_samples d) + (if e' = e \<and> ?i = i then a * ?up + b * ?down else 0)"
    proof (cases "?up \<noteq> 0 \<or> ?down \<noteq> 0")
      case True
      then have "t_samples d' = add_sample B5m (floor_date 5 now) ?i e' ?up ?down (t_samples d)" by (simp add: d' same)
      then have "measured a b i e (t_samples d') = measured a b i e (t_samples d) + (if ?i = i \<and> e' = e then a * ?up + b * ?down else 0)"
        using add_sample_measured [OF samples] by simp
      then show ?thesis by (simp only: conj_commute)
    next
      case False
      then have zero: "?up = 0" "?down = 0" by simp_all
      then have "t_samples d' = t_samples d" by (simp add: d' same)
      with zero show ?thesis by auto
    qed
    moreover have "samples_ok (t_samples d')" unfolding d' using add_sample_ok [OF samples] samples by (simp add: same)
    moreover have "t_connections d' = t_connections d" unfolding d' by (simp add: same)
    ultimately show ?thesis unfolding cur find_cursor_save by auto
  qed
  then show "t_connections d' = t_connections d" "samples_ok (t_samples d')"
    "find_cursor i e c d' =
      (if e' = e \<and> tp_connection p = i \<and> coalesce (tp_counter p) [] = c
       then Some (case find_cursor i e c d of
              None \<Rightarrow> \<lparr>tc_connection_id = i, tc_engine = e, tc_counter_id = c, tc_upload = up_of p, tc_download = down_of p, tc_observed_at = now\<rparr>
            | Some r \<Rightarrow> r\<lparr>tc_upload := up_of p, tc_download := down_of p, tc_observed_at := now\<rparr>)
       else find_cursor i e c d)"
    "measured a b i e (t_samples d') = measured a b i e (t_samples d) +
      (if e' = e \<and> tp_connection p = i
       then a * delta_of (map_option tc_upload (find_cursor i e (coalesce (tp_counter p) []) d)) (up_of p) +
            b * delta_of (map_option tc_download (find_cursor i e (coalesce (tp_counter p) []) d)) (down_of p)
       else 0)"
    by (auto split: if_splits)
qed

lemma cursor_deltas:
  assumes "cursor_follows i e rd d"
  shows "delta_of (map_option tc_upload (find_cursor i e c d)) u = counted (map up_of (rd c) @ [u]) - counted (map up_of (rd c))"
    "delta_of (map_option tc_download (find_cursor i e c d)) u = counted (map down_of (rd c) @ [u]) - counted (map down_of (rd c))"
proof -
  from assms have c: "map_option (\<lambda>r. (tc_upload r, tc_download r)) (find_cursor i e c d) =
      (if rd c = [] then None else Some (up_of (last (rd c)), down_of (last (rd c))))"
    by (simp add: cursor_follows_def)
  then have "map_option tc_upload (find_cursor i e c d) = (if rd c = [] then None else Some (up_of (last (rd c))))"
    "map_option tc_download (find_cursor i e c d) = (if rd c = [] then None else Some (down_of (last (rd c))))"
    by (cases "find_cursor i e c d"; auto split: if_splits)+
  then show "delta_of (map_option tc_upload (find_cursor i e c d)) u = counted (map up_of (rd c) @ [u]) - counted (map up_of (rd c))"
    "delta_of (map_option tc_download (find_cursor i e c d)) u = counted (map down_of (rd c) @ [u]) - counted (map down_of (rd c))"
    by (simp_all add: counted_snoc last_map)
qed

lemma counted_mono: "counted xs \<le> counted (xs @ [x])"
  by (simp add: counted_snoc)

lemma sum_one_more:
  fixes f :: "'c \<Rightarrow> nat"
  assumes "finite C" "c0 \<in> C" "\<And>c. c \<in> C \<Longrightarrow> c \<noteq> c0 \<Longrightarrow> g c = f c" "g c0 = f c0 + n"
  shows "(\<Sum>c\<in>C. g c) = (\<Sum>c\<in>C. f c) + n"
proof -
  have "(\<Sum>c\<in>C - {c0}. g c) = (\<Sum>c\<in>C - {c0}. f c)" using assms(3) by (intro sum.cong) auto
  then show ?thesis using assms(4) by (simp add: sum.remove [OF assms(1,2)])
qed

definition metered :: "string \<Rightarrow> engine \<Rightarrow> string set \<Rightarrow> nat \<Rightarrow> nat \<Rightarrow> nat \<Rightarrow> (string \<Rightarrow> traffic_point list) \<Rightarrow> db \<Rightarrow> bool" where
  "metered i e C a b start rd d \<longleftrightarrow>
     (\<exists>r\<in>set (t_connections d). c_id r = i) \<and> samples_ok (t_samples d) \<and> cursor_follows i e rd d \<and> adds_up i e C a b start rd d"

lemma metered_reading:
  assumes m: "metered i e C a b start rd d" and C: "finite C" "coalesce (tp_counter p) [] \<in> C"
    and ok: "record_cumulative e' p now d = Ok (delta, d')"
    and rd': "\<And>c. rd' c = rd c @ (case reading_of i e c (Reading e' p now) of None \<Rightarrow> [] | Some p \<Rightarrow> [p])"
  shows "metered i e C a b start rd' d'"
proof -
  let ?c0 = "coalesce (tp_counter p) []"
  from m have conn: "\<exists>r\<in>set (t_connections d). c_id r = i" and s: "samples_ok (t_samples d)"
    and cur: "cursor_follows i e rd d" and add: "adds_up i e C a b start rd d" by (auto simp: metered_def)
  from ok have safe: "safe_counter (tp_upload p) \<and> safe_counter (tp_download p)"
    by (auto simp: record_cumulative_def split: if_splits)
  note step = record_cumulative_step [OF ok s conn]
  show ?thesis
  proof (cases "e' = e \<and> tp_connection p = i")
    case False
    then have "rd' = rd" by (intro ext) (auto simp: rd' reading_of_def)
    moreover from False have "find_cursor i e c d' = find_cursor i e c d" for c using step(3) [of e c] by auto
    moreover from False have "measured a b i e (t_samples d') = measured a b i e (t_samples d)" using step(4) [of a b e] by auto
    ultimately show ?thesis using conn cur add step(1,2) by (simp add: metered_def cursor_follows_def adds_up_def)
  next
    case True
    then have here: "e' = e" "tp_connection p = i" by simp_all
    have rd1: "rd' c = (if c = ?c0 then rd c @ [p] else rd c)" for c
      using here safe by (simp add: rd' reading_of_def)
    have "cursor_follows i e rd' d'"
    proof -
      have "map_option (\<lambda>r. (tc_upload r, tc_download r)) (find_cursor i e c d') =
          (if rd' c = [] then None else Some (up_of (last (rd' c)), down_of (last (rd' c))))" for c
      proof (cases "c = ?c0")
        case True
        then show ?thesis using here step(3) [of e c] by (cases "find_cursor i e c d") (simp_all add: rd1)
      next
        case False
        then show ?thesis using here step(3) [of e c] cur by (simp add: rd1 cursor_follows_def)
      qed
      then show ?thesis by (simp add: cursor_follows_def)
    qed
    moreover have "adds_up i e C a b start rd' d'"
    proof -
      let ?up = "delta_of (map_option tc_upload (find_cursor i e ?c0 d)) (up_of p)"
      let ?down = "delta_of (map_option tc_download (find_cursor i e ?c0 d)) (down_of p)"
      have "counted (map up_of (rd ?c0 @ [p])) = counted (map up_of (rd ?c0)) + ?up"
        "counted (map down_of (rd ?c0 @ [p])) = counted (map down_of (rd ?c0)) + ?down"
        using cursor_deltas [OF cur] counted_mono by simp_all
      then have "(\<Sum>c\<in>C. a * counted (map up_of (rd' c)) + b * counted (map down_of (rd' c))) =
          (\<Sum>c\<in>C. a * counted (map up_of (rd c)) + b * counted (map down_of (rd c))) + (a * ?up + b * ?down)"
        by (intro sum_one_more [OF C]) (simp_all add: rd1 algebra_simps)
      then show ?thesis using step(4) [of a b e] here add by (simp add: adds_up_def)
    qed
    ultimately show ?thesis using conn step(1,2) by (simp add: metered_def)
  qed
qed

lemma metered_step:
  assumes m: "metered i e C a b start (readings i e as) d" and e: "e \<noteq> Mihomo" "e \<noteq> SingBox"
    and C: "finite C" "counters (as @ [x]) \<subseteq> C"
  shows "metered i e C a b start (readings i e (as @ [x])) (meter_step x d)"
proof (cases x)
  case (Compaction now)
  then have "readings i e (as @ [x]) = readings i e as" by (intro ext) (simp add: readings_snoc reading_of_def)
  then show ?thesis using m Compaction compact_measured [of d] e
    by (simp add: metered_def meter_step_def cursor_follows_def adds_up_def compact_cursor compact_connections)
next
  case (Reading e' p now)
  show ?thesis
  proof (cases "record_cumulative e' p now d")
    case (Inl x')
    then have "\<not> (safe_counter (tp_upload p) \<and> safe_counter (tp_download p))"
      by (auto simp: record_cumulative_def Let_def split: if_splits)
    then have "readings i e (as @ [x]) = readings i e as"
      by (intro ext) (auto simp: readings_snoc reading_of_def Reading)
    then show ?thesis using m Inl by (simp add: meter_step_def Reading)
  next
    case (Inr r)
    obtain delta d' where r: "r = (delta, d')" by (cases r)
    have "coalesce (tp_counter p) [] \<in> C" using C(2) Reading by simp
    from metered_reading [OF m C(1) this Inr [unfolded r]] show ?thesis
      by (simp add: meter_step_def Reading Inr r readings_snoc)
  qed
qed

lemma metered_run:
  assumes "metered i e C a b start (\<lambda>_. []) d" and e: "e \<noteq> Mihomo" "e \<noteq> SingBox"
    and C: "finite C" "counters as \<subseteq> C"
  shows "metered i e C a b start (readings i e as) (run_meter as d)"
  using C(2)
proof (induction as rule: rev_induct)
  case Nil
  then show ?case using assms(1) by (simp add: run_meter_def readings_def List.map_filter_def)
next
  case (snoc x as)
  then have "metered i e C a b start (readings i e as) (run_meter as d)" by simp
  from metered_step [OF this e C(1) snoc.prems] show ?case by (simp add: run_meter_def)
qed


definition sample_traffic :: db where
  "sample_traffic = empty_db\<lparr>t_connections := [sample_conn]\<rparr>"

definition sample_point :: "int \<Rightarrow> int \<Rightarrow> traffic_point" where
  "sample_point u v = \<lparr>tp_connection = ''a'', tp_counter = None, tp_upload = u, tp_download = v\<rparr>"


section \<open>The series of the overview\<close>

definition point_total :: "(int, nat \<times> nat) js_map \<Rightarrow> nat \<times> nat" where
  "point_total m = (sum_list (map (fst \<circ> snd) m), sum_list (map (snd \<circ> snd) m))"

definition row_total :: "(string \<times> int \<times> nat \<times> nat) list \<Rightarrow> nat \<times> nat" where
  "row_total rs = point_total (map snd rs)"

lemma sum_map_set:
  fixes f :: "'v \<Rightarrow> nat"
  shows "sum_list (map (f \<circ> snd) (map_set k v m)) + (case map_get k m of None \<Rightarrow> 0 | Some w \<Rightarrow> f w) =
     sum_list (map (f \<circ> snd) m) + f v"
  by (induction m) (auto simp: map_get_def split: option.splits)

lemma add_point_total:
  "point_total (add_point r m) = (fst (point_total m) + fst (snd r), snd (point_total m) + snd (snd r))"
proof -
  let ?old = "coalesce (map_get (fst r) m) (0, 0)"
  let ?new = "(fst ?old + fst (snd r), snd ?old + snd (snd r))"
  from sum_map_set [of fst "fst r" ?new m] sum_map_set [of snd "fst r" ?new m] show ?thesis
    by (cases "map_get (fst r) m") (auto simp: point_total_def add_point_def Let_def)
qed

lemma fold_points_total:
  "point_total (foldl (\<lambda>m r. add_point (snd r) m) m rs) =
     (fst (point_total m) + fst (row_total rs), snd (point_total m) + snd (row_total rs))"
proof (induction rs arbitrary: m)
  case (Cons r rs)
  have "row_total (r # rs) = (fst (snd (snd r)) + fst (row_total rs), snd (snd (snd r)) + snd (row_total rs))"
    by (simp add: row_total_def point_total_def)
  with Cons.IH [of "add_point (snd r) m"] show ?case by (simp add: add_point_total)
qed (simp add: row_total_def point_total_def)

lemma sum_list_key:
  fixes f :: "'a \<Rightarrow> nat"
  assumes "distinct ks" "key ` set xs \<subseteq> set ks"
  shows "sum_list (map (\<lambda>k. sum_list (map f (filter (\<lambda>x. key x = k) xs))) ks) = sum_list (map f xs)"
  using assms(2)
proof (induction xs)
  case (Cons x xs)
  have "sum_list (map (\<lambda>k. sum_list (map f (filter (\<lambda>y. key y = k) (x # xs)))) ks) =
      sum_list (map (\<lambda>k. (if key x = k then f x else 0) + sum_list (map f (filter (\<lambda>y. key y = k) xs))) ks)"
    by (intro arg_cong [where f = sum_list] map_cong) auto
  also have "\<dots> = sum_list (map (\<lambda>k. if key x = k then f x else 0) ks) + sum_list (map f xs)"
    using Cons by (simp add: sum_list_addf)
  also have "sum_list (map (\<lambda>k. if key x = k then f x else 0) ks) = f x"
    using assms(1) Cons.prems by (simp add: sum_list_distinct_conv_sum_set)
  finally show ?case by simp
qed simp

text \<open>The rows picked by a condition on the connection add up to its samples.\<close>

lemma total_of_filter: "total_of (filter P ss) = (sum_list (map ts_upload (filter P ss)), sum_list (map ts_download (filter P ss)))"
  by (simp add: total_of_def)

lemma grouped_total:
  fixes key :: "traffic_sample \<Rightarrow> string \<times> int" and f :: "traffic_sample \<Rightarrow> nat"
  shows "sum_list (map (\<lambda>k. sum_list (map f (filter (\<lambda>s. key s = k) ss))) (filter (\<lambda>k. P (fst k)) (js_distinct (map key ss)))) =
     sum_list (map f (filter (\<lambda>s. P (fst (key s))) ss))"
proof -
  let ?ks = "filter (\<lambda>k. P (fst k)) (js_distinct (map key ss))" and ?ss = "filter (\<lambda>s. P (fst (key s))) ss"
  have "sum_list (map (\<lambda>k. sum_list (map f (filter (\<lambda>s. key s = k) ss))) ?ks) =
      sum_list (map (\<lambda>k. sum_list (map f (filter (\<lambda>s. key s = k) ?ss))) ?ks)"
    by (intro arg_cong [where f = sum_list] map_cong refl arg_cong [where f = "map f"]) (auto simp: filter_filter intro!: filter_cong)
  also have "\<dots> = sum_list (map f ?ss)" by (rule sum_list_key) auto
  finally show ?thesis .
qed

lemma sum_list_sorted:
  fixes f :: "'a \<Rightarrow> nat"
  shows "sum_list (map f (filter P (sort_by le xs))) = sum_list (map f (filter P xs))"
proof -
  have "mset (map f (filter P (sort_by le xs))) = mset (map f (filter P xs))" by simp
  then show ?thesis by (metis sum_mset_sum_list)
qed

lemma series_rows_total:
  assumes "tq_series q"
  shows "row_total (filter (\<lambda>r. P (fst r)) (series_rows q ss)) = total_of (filter (\<lambda>s. P (ts_connection_id s)) ss)"
proof -
  let ?key = "\<lambda>s. (ts_connection_id s, slot_of (series_grid q ss) s)"
  let ?row = "\<lambda>k. (fst k, snd k, total_of (filter (\<lambda>s. ?key s = k) ss))"
  have picked: "filter (\<lambda>r. P (fst r)) (map ?row ks) = map ?row (filter (\<lambda>k. P (fst k)) ks)" for ks
    by (induction ks) simp_all
  have "sum_list (map (g \<circ> (snd \<circ> snd)) (filter (\<lambda>r. P (fst r)) (series_rows q ss))) =
      sum_list (map (\<lambda>k. g (total_of (filter (\<lambda>s. ?key s = k) ss))) (filter (\<lambda>k. P (fst k)) (js_distinct (map ?key ss))))" for g :: "nat \<times> nat \<Rightarrow> nat"
    using assms by (simp add: series_rows_def Let_def sum_list_sorted picked comp_def)
  from this [of fst] this [of snd] show ?thesis
    using grouped_total [of ts_upload ?key ss P] grouped_total [of ts_download ?key ss P]
    by (simp add: row_total_def point_total_def total_of_def comp_def)
qed

lemma map_keys_set: "map_keys (map_set k v m) = (if k \<in> set (map_keys m) then map_keys m else map_keys m @ [k])"
proof (induction m)
  case (Cons p m)
  obtain k' v' where "p = (k', v')" by (cases p)
  with Cons show ?case by simp
qed (simp add: map_keys_def)

lemma add_point_keys:
  "map_keys (add_point r m) = (if fst r \<in> set (map_keys m) then map_keys m else map_keys m @ [fst r])"
  by (simp add: add_point_def Let_def map_keys_set)

lemma fold_points_keys:
  "sorted_wrt (\<lambda>a b. fst (snd a) \<le> fst (snd b)) rs \<Longrightarrow> sorted_wrt (<) (map_keys m) \<Longrightarrow>
   (\<And>r k. r \<in> set rs \<Longrightarrow> k \<in> set (map_keys m) \<Longrightarrow> k \<le> fst (snd r)) \<Longrightarrow>
   sorted_wrt (<) (map_keys (foldl (\<lambda>m r. add_point (snd r) m) m rs)) \<and>
   set (map_keys (foldl (\<lambda>m r. add_point (snd r) m) m rs)) \<subseteq> set (map_keys m) \<union> (fst \<circ> snd) ` set rs"
proof (induction rs arbitrary: m)
  case (Cons r rs)
  have "sorted_wrt (<) (map_keys (add_point (snd r) m))"
  proof (cases "fst (snd r) \<in> set (map_keys m)")
    case False
    then have "k < fst (snd r)" if "k \<in> set (map_keys m)" for k
      using that Cons.prems(3) [of r k] by (cases "k = fst (snd r)") auto
    with False show ?thesis using Cons.prems(2) by (simp add: add_point_keys sorted_wrt_append)
  qed (use Cons.prems(2) in \<open>simp add: add_point_keys\<close>)
  moreover have "k \<le> fst (snd r')" if "r' \<in> set rs" "k \<in> set (map_keys (add_point (snd r) m))" for r' k
  proof -
    from that(2) have "k \<in> set (map_keys m) \<or> k = fst (snd r)" by (auto simp: add_point_keys split: if_splits)
    then show ?thesis using Cons.prems(1) Cons.prems(3) [of r' k] that(1) by auto
  qed
  ultimately have "sorted_wrt (<) (map_keys (foldl (\<lambda>m r. add_point (snd r) m) (add_point (snd r) m) rs)) \<and>
      set (map_keys (foldl (\<lambda>m r. add_point (snd r) m) (add_point (snd r) m) rs)) \<subseteq>
        set (map_keys (add_point (snd r) m)) \<union> (fst \<circ> snd) ` set rs"
    using Cons.IH Cons.prems(1) by simp
  then show ?case by (auto simp: add_point_keys split: if_splits)
qed simp

text \<open>Every slot of the automatic resolution is one of at most \<open>max_points\<close>.\<close>

lemma earliest_bound:
  assumes "s \<in> set ss" "\<And>s. s \<in> set ss \<Longrightarrow> in_query q s"
  shows "earliest q ss \<le> ts_bucket_at s"
proof -
  have le: "foldl min t ts \<le> t \<and> (\<forall>x\<in>set ts. foldl min t ts \<le> x)" for t :: int and ts
  proof (induction ts arbitrary: t)
    case (Cons u ts)
    from Cons.IH [of "min t u"] show ?case by auto
  qed simp
  show ?thesis
  proof (cases "tq_since q")
    case None
    moreover obtain t ts where "map ts_bucket_at ss = t # ts" using assms(1) by (cases ss) auto
    moreover from this assms(1) have "ts_bucket_at s \<in> set (t # ts)" by (metis image_eqI set_map)
    ultimately show ?thesis using le [of t ts] by (auto simp: earliest_def)
  qed (use assms(2) [OF assms(1)] in \<open>simp add: earliest_def in_query_def\<close>)
qed

lemma floor_le: "0 < k \<Longrightarrow> x div k * k \<le> (x :: int)"
  by (simp add: minus_mod_eq_div_mult [symmetric])

lemma floor_greatest: "0 < k \<Longrightarrow> x * k \<le> a \<Longrightarrow> x \<le> a div (k :: int)"
  using zdiv_mono1 [of "x * k" a k] by simp

lemma slot_bound:
  assumes ss: "\<And>s. s \<in> set ss \<Longrightarrow> in_query q s" and s: "s \<in> set ss" and auto: "tq_resolution q = None"
    and g: "series_grid q ss = (origin, width)"
  shows "\<exists>j. 0 \<le> j \<and> j < max_points q \<and> slot_of (series_grid q ss) s = j * width + origin"
proof -
  let ?n = "max_points q" and ?at = "ts_bucket_at s div 1000 * 1000" and ?u = "tq_until q"
  have n: "1 \<le> ?n" by (simp add: max_points_def)
  have origin: "origin = earliest q ss div 300000 * 300000"
    and width: "width = max 300000 (ceil_div (?u - origin + 1) (?n * 300000) * 300000)"
    using g auto by (auto simp: series_grid_def Let_def)
  have early: "earliest q ss \<le> ts_bucket_at s" using earliest_bound [OF s ss] .
  have "earliest q ss div 300000 * 300000 \<le> earliest q ss" by (rule floor_le) simp
  with early have "(earliest q ss div 300000 * 300) * 1000 \<le> ts_bucket_at s" by linarith
  then have "earliest q ss div 300000 * 300 \<le> ts_bucket_at s div 1000" by (rule floor_greatest [rotated]) simp
  then have low: "origin \<le> ?at" unfolding origin by linarith
  have "?at \<le> ts_bucket_at s" by (rule floor_le) simp
  moreover have "ts_bucket_at s \<le> ?u" using ss [OF s] by (simp add: in_query_def)
  ultimately have high: "?at \<le> ?u" by (rule order.trans)
  have "?u - origin + 1 \<le> ceil_div (?u - origin + 1) (?n * 300000) * (?n * 300000)"
    using floor_le [of "?n * 300000" "- (?u - origin + 1)"] n by (simp add: ceil_div_def)
  also have "\<dots> = ceil_div (?u - origin + 1) (?n * 300000) * 300000 * ?n" by simp
  also have "\<dots> \<le> width * ?n" using n by (intro mult_right_mono) (simp_all add: width)
  finally have "?at - origin < width * ?n" using high by linarith
  moreover have "0 < width" by (simp add: width)
  moreover from this have "(?at - origin) div width * width \<le> ?at - origin" by (rule floor_le)
  ultimately have "(?at - origin) div width * width < width * ?n" by linarith
  then have "width * ((?at - origin) div width) < width * ?n" by (simp only: mult.commute)
  with \<open>0 < width\<close> have "(?at - origin) div width < ?n" by (simp only: mult_less_cancel_left_pos)
  moreover have "0 \<le> (?at - origin) div width"
    using low \<open>0 < width\<close> by (simp add: pos_imp_zdiv_nonneg_iff)
  ultimately show ?thesis using low by (intro exI [of _ "(?at - origin) div width"]) (simp add: slot_of_def g sql_div_def)
qed

lemma overview_values:
  "map_result f xs = Ok ys \<Longrightarrow> y \<in> set ys \<Longrightarrow> \<exists>x\<in>set xs. f x = Ok y"
  by (induction xs arbitrary: ys) auto

lemma series_rows_sorted: "sorted_wrt (\<lambda>a b. fst (snd a) \<le> fst (snd b)) (series_rows q ss)"
  unfolding series_rows_def Let_def by (auto intro!: sorted_wrt_sort_by)

lemma series_rows_slots: "r \<in> set (series_rows q ss) \<Longrightarrow> \<exists>s\<in>set ss. fst (snd r) = slot_of (series_grid q ss) s"
  by (auto simp: series_rows_def Let_def split: if_splits)

lemma series_for_Ok:
  assumes ok: "series_for i q (series_rows q ss) = Ok m" and ss: "\<And>s. s \<in> set ss \<Longrightarrow> in_query q s"
  shows "sorted_wrt (<) (map_keys m)" "int (length m) \<le> max_points q"
    "tq_series q \<Longrightarrow> point_total m = total_of (filter (\<lambda>s. case i of None \<Rightarrow> True | Some c \<Rightarrow> c = [] \<or> ts_connection_id s = c) ss)"
proof -
  let ?P = "\<lambda>x. case i of None \<Rightarrow> True | Some c \<Rightarrow> c = [] \<or> x = c"
  let ?rs = "filter (\<lambda>r. ?P (fst r)) (series_rows q ss)"
  have m: "m = foldl (\<lambda>m r. add_point (snd r) m) [] ?rs"
    and len: "\<not> (int (length m) > max_points q \<and> tq_resolution q \<noteq> None)"
    using ok by (auto simp: series_for_def Let_def split: if_splits)
  have "sorted_wrt (\<lambda>a b. fst (snd a) \<le> fst (snd b)) ?rs" by (intro sorted_wrt_filter series_rows_sorted)
  from fold_points_keys [OF this, of "[]"] have keys: "sorted_wrt (<) (map_keys m)" "set (map_keys m) \<subseteq> (fst \<circ> snd) ` set ?rs"
    by (simp_all add: m)
  show "sorted_wrt (<) (map_keys m)" by (rule keys(1))
  show "int (length m) \<le> max_points q"
  proof (cases "tq_resolution q")
    case None
    obtain origin width where g: "series_grid q ss = (origin, width)" by (cases "series_grid q ss")
    have "set (map_keys m) \<subseteq> (\<lambda>j. j * width + origin) ` {0..<max_points q}"
    proof
      fix k
      assume "k \<in> set (map_keys m)"
      then obtain r where "r \<in> set (series_rows q ss)" "k = fst (snd r)" using keys(2) by auto
      then obtain s where "s \<in> set ss" "k = slot_of (series_grid q ss) s" using series_rows_slots by blast
      with slot_bound [OF ss this(1) None g] show "k \<in> (\<lambda>j. j * width + origin) ` {0..<max_points q}" by auto
    qed
    then have "card (set (map_keys m)) \<le> card ((\<lambda>j. j * width + origin) ` {0..<max_points q})" by (intro card_mono) auto
    also have "\<dots> \<le> card {0..<max_points q}" by (rule card_image_le) simp
    finally have "card (set (map_keys m)) \<le> nat (max_points q)" by simp
    moreover have "distinct (map_keys m)" using keys(1) by (simp add: strict_sorted_iff)
    ultimately have "length (map_keys m) \<le> nat (max_points q)" by (simp add: distinct_card)
    moreover have "1 \<le> max_points q" by (simp add: max_points_def)
    ultimately show ?thesis by (simp add: map_keys_def)
  next
    case (Some r)
    then show ?thesis using len by simp
  qed
  show "point_total m = total_of (filter (\<lambda>s. ?P (ts_connection_id s)) ss)" if "tq_series q"
    using fold_points_total [of "[]" ?rs] series_rows_total [OF that, of ?P ss] by (simp add: m point_total_def)
qed

lemma series_for_auto: "tq_resolution q = None \<Longrightarrow> \<exists>m. series_for i q rows = Ok m"
  by (simp add: series_for_def Let_def)

text \<open>
  C32.  The series of the overview has strictly increasing times, at most \<open>maxPoints\<close> (and
  never more than 1000) points whatever resolution is asked for, and adds up to the totals;
  the same holds for the series of every connection and its own volume.  With the
  automatic resolution a valid range is never refused.
\<close>

theorem overview_adds_up:
  fixes q d
  defines "ss \<equiv> filter (in_query q) (t_samples d)"
  shows "(\<forall>ov. traffic_overview q d = Ok ov \<longrightarrow>
      sorted_wrt (<) (map_keys (ov_series ov)) \<and> int (length (ov_series ov)) \<le> max_points q \<and> max_points q \<le> 1000 \<and>
      (tq_series q \<longrightarrow> point_total (ov_series ov) = ov_totals ov) \<and> ov_totals ov = total_of ss \<and>
      (\<forall>(i, name, vol, series)\<in>set (ov_connections ov).
         sorted_wrt (<) (map_keys series) \<and> int (length series) \<le> max_points q \<and>
         vol = total_of (filter (\<lambda>s. ts_connection_id s = i) ss) \<and>
         (tq_series q \<and> i \<noteq> [] \<longrightarrow> point_total series = vol))) \<and>
    (tq_resolution q = None \<and> (\<forall>t. tq_since q = Some t \<longrightarrow> t \<le> tq_until q) \<longrightarrow> (\<exists>ov. traffic_overview q d = Ok ov))"
proof (intro conjI allI impI)
  fix ov
  assume ok: "traffic_overview q d = Ok ov"
  have ss: "in_query q s" if "s \<in> set ss" for s using that by (simp add: ss_def)
  let ?rows = "series_rows q ss"
  from ok obtain listed cs series where cs: "map_result (connection_traffic q ss) listed = Ok cs" and series: "series_for None q ?rows = Ok series"
    and ov: "ov_totals ov = total_of ss" "set (ov_connections ov) = set cs" "ov_series ov = series"
    unfolding traffic_overview_def Let_def ss_def by (auto split: if_splits simp del: map_result.simps)
  note s = series_for_Ok [OF series ss]
  show "sorted_wrt (<) (map_keys (ov_series ov))" "int (length (ov_series ov)) \<le> max_points q"
    using s(1,2) by (simp_all add: ov)
  show "max_points q \<le> 1000" by (simp add: max_points_def)
  show "ov_totals ov = total_of ss" by (rule ov(1))
  show "point_total (ov_series ov) = ov_totals ov" if "tq_series q" using series_for_Ok(3) [OF series ss that] by (simp add: ov)
  show "\<forall>(i, name, vol, series)\<in>set (ov_connections ov).
         sorted_wrt (<) (map_keys series) \<and> int (length series) \<le> max_points q \<and>
         vol = total_of (filter (\<lambda>s. ts_connection_id s = i) ss) \<and> (tq_series q \<and> i \<noteq> [] \<longrightarrow> point_total series = vol)"
  proof
    fix x
    assume "x \<in> set (ov_connections ov)"
    then obtain c where "connection_traffic q ss c = Ok x" using overview_values [OF cs, of x] by (auto simp: ov)
    then obtain m where m: "series_for (Some (c_id c)) q ?rows = Ok m"
      and x: "x = (c_id c, c_name c, total_of (filter (\<lambda>x. ts_connection_id x = c_id c) ss), m)"
      by (auto simp: connection_traffic_def)
    from series_for_Ok [OF m ss] show "case x of (i, name, vol, series) \<Rightarrow>
         sorted_wrt (<) (map_keys series) \<and> int (length series) \<le> max_points q \<and>
         vol = total_of (filter (\<lambda>s. ts_connection_id s = i) ss) \<and> (tq_series q \<and> i \<noteq> [] \<longrightarrow> point_total series = vol)"
      by (simp add: x)
  qed
next
  assume a: "tq_resolution q = None \<and> (\<forall>t. tq_since q = Some t \<longrightarrow> t \<le> tq_until q)"
  then have auto: "tq_resolution q = None" and ord: "\<not> (case tq_since q of None \<Rightarrow> False | Some t \<Rightarrow> tq_until q < t)"
    by (auto split: option.splits)
  let ?rows = "series_rows q ss"
  have "\<exists>y. connection_traffic q ss c = Ok y \<and> True" for c
    using series_for_auto [OF auto, of "Some (c_id c)" ?rows] by (auto simp: connection_traffic_def)
  then have "\<exists>ys. map_result (connection_traffic q ss) cs = Ok ys" for cs
    using map_result_total [of cs "connection_traffic q ss" "\<lambda>_ _. True"] by blast
  with series_for_auto [OF auto, of None ?rows] ord show "\<exists>ov. traffic_overview q d = Ok ov"
    unfolding traffic_overview_def Let_def ss_def by fastforce
qed

definition sample_traffic_query :: traffic_query where
  "sample_traffic_query = \<lparr>tq_since = None, tq_until = 90000000, tq_connection = None, tq_series = True,
     tq_resolution = None, tq_max_points = Some 2\<rparr>"

lemma overview_adds_up_witness:
  "\<exists>ov. traffic_overview sample_traffic_query (empty_db\<lparr>t_samples :=
      [\<lparr>ts_bucket = B5m, ts_bucket_at = 600000, ts_connection_id = ''c'', ts_engine = Xray, ts_upload = 5, ts_download = 7\<rparr>,
       \<lparr>ts_bucket = B5m, ts_bucket_at = 86400000, ts_connection_id = ''c'', ts_engine = Xray, ts_upload = 1, ts_download = 2\<rparr>]\<rparr>) = Ok ov \<and>
     length (ov_series ov) \<le> 2 \<and> point_total (ov_series ov) = (6, 9)"
  (is "\<exists>ov. traffic_overview ?q ?d = Ok ov \<and> _")
proof -
  note all = overview_adds_up [of ?q ?d]
  have "tq_resolution ?q = None \<and> (\<forall>t. tq_since ?q = Some t \<longrightarrow> t \<le> tq_until ?q)"
    by (simp add: sample_traffic_query_def)
  with all obtain ov where ov: "traffic_overview ?q ?d = Ok ov" by blast
  with all have "int (length (ov_series ov)) \<le> max_points ?q" "tq_series ?q \<longrightarrow> point_total (ov_series ov) = ov_totals ov"
    "ov_totals ov = total_of (filter (in_query ?q) (t_samples ?d))" by blast+
  with ov show ?thesis
    by (intro exI [of _ ov]) (simp add: sample_traffic_query_def max_points_def in_query_def total_of_def)
qed

section \<open>Telemetry events\<close>

text \<open>
  What the journal is to say about the telemetry of an engine, from the outcomes of its
  collections alone: an engine is reported unavailable after two failures in a row, once,
  and restored by the next success.
\<close>

fun telemetry_spec :: "nat \<times> bool \<Rightarrow> bool list \<Rightarrow> string list" where
  "telemetry_spec s [] = []"
| "telemetry_spec (n, down) (True # os) =
     (if down then [''engine.telemetry_restored''] else []) @ telemetry_spec (0, False) os"
| "telemetry_spec (n, down) (False # os) =
     (if 1 \<le> n \<and> \<not> down then [''engine.telemetry_unavailable''] else []) @ telemetry_spec (n + 1, down \<or> 1 \<le> n) os"

fun telemetry_after :: "nat \<times> bool \<Rightarrow> bool list \<Rightarrow> nat \<times> bool" where
  "telemetry_after s [] = s"
| "telemetry_after (n, down) (ok # os) = telemetry_after (if ok then (0, False) else (n + 1, down \<or> 1 \<le> n)) os"

definition telemetry_state :: "engine \<Rightarrow> db \<Rightarrow> nat \<times> bool" where
  "telemetry_state e d =
     (case find_monitor (telemetry_key e) d of None \<Rightarrow> (0, False) | Some m \<Rightarrow> (mo_failures m, mo_status m = ''unavailable''))"

definition is_telemetry :: "string \<Rightarrow> bool" where
  "is_telemetry ty \<longleftrightarrow> ty \<in> {''engine.telemetry_unavailable'', ''engine.telemetry_restored''}"

definition telemetry_events :: "engine \<Rightarrow> db \<Rightarrow> string list" where
  "telemetry_events e d =
     map ev_type (filter (\<lambda>r. is_telemetry (ev_type r) \<and> ev_subject_id r = Some (engine_key e)) (t_events d))"

definition answer_ok :: "telemetry_snapshot result \<Rightarrow> bool" where
  "answer_ok a = (case a of Inl _ \<Rightarrow> False
                  | Inr s \<Rightarrow> \<forall>p\<in>set (sn_traffic s). safe_counter (tp_upload p) \<and> safe_counter (tp_download p))"

fun run_collections ::
  "(failure \<Rightarrow> string) \<Rightarrow> (engine \<times> int) list \<Rightarrow> (time \<times> (engine \<Rightarrow> telemetry_snapshot result)) list
   \<Rightarrow> collector_memory \<times> db \<Rightarrow> (collector_memory \<times> db) result" where
  "run_collections say cs [] s = Ok s"
| "run_collections say cs ((now, answers) # rest) s =
     bind_result (collect say cs answers now s) (run_collections say cs rest)"

fun outcomes ::
  "engine \<Rightarrow> (failure \<Rightarrow> string) \<Rightarrow> (engine \<times> int) list \<Rightarrow> (time \<times> (engine \<Rightarrow> telemetry_snapshot result)) list
   \<Rightarrow> collector_memory \<times> db \<Rightarrow> bool list" where
  "outcomes e say cs [] s = []"
| "outcomes e say cs ((now, answers) # rest) s =
     (if e \<in> set (due_collectors cs now (fst s) (snd s)) then [answer_ok (answers e)] else []) @
     (case collect say cs answers now s of Inl _ \<Rightarrow> [] | Inr s' \<Rightarrow> outcomes e say cs rest s')"

definition telemetry_view :: "engine \<Rightarrow> db \<Rightarrow> (nat \<times> bool) \<times> string list" where
  "telemetry_view e d = (telemetry_state e d, telemetry_events e d)"

lemma telemetry_view_same:
  "t_monitor d' = t_monitor d \<Longrightarrow> t_events d' = t_events d \<Longrightarrow> telemetry_view e d' = telemetry_view e d"
  by (simp add: telemetry_view_def telemetry_state_def telemetry_events_def find_monitor_def)

lemma telemetry_record:
  assumes "record_event ty en now d = Ok d'"
  shows "telemetry_state e d' = telemetry_state e d"
    "telemetry_events e d' = telemetry_events e d @ (if is_telemetry ty \<and> je_subject_id en = Some (engine_key e) then [ty] else [])"
proof -
  from assms have "t_monitor d' = t_monitor d"
    by (auto simp: record_event_def event_def Let_def split: option.splits)
  then show "telemetry_state e d' = telemetry_state e d" by (simp add: telemetry_state_def find_monitor_def)
  from assms show "telemetry_events e d' = telemetry_events e d @ (if is_telemetry ty \<and> je_subject_id en = Some (engine_key e) then [ty] else [])"
    by (auto simp: record_event_def event_def telemetry_events_def Let_def split: option.splits)
qed

fun telemetry_step :: "bool \<Rightarrow> (nat \<times> bool) \<times> string list \<Rightarrow> (nat \<times> bool) \<times> string list" where
  "telemetry_step ok ((n, down), evs) =
     (telemetry_after (n, down) [ok], evs @ telemetry_spec (n, down) [ok])"

lemma telemetry_key_inj: "telemetry_key e = telemetry_key e' \<longleftrightarrow> e = e'"
  using engine_key_inj by (auto simp: telemetry_key_def)

lemma find_monitor_save:
  "find_monitor k (save_monitor k' status failures now data d) =
     (if k = k' then Some (case find_monitor k d of
         None \<Rightarrow> \<lparr>mo_key = k', mo_status = status, mo_severity = None, mo_failures = failures, mo_data = data,
                 mo_observed_at = now, mo_changed_at = now\<rparr>
       | Some m \<Rightarrow> m\<lparr>mo_status := status, mo_failures := failures, mo_data := data, mo_observed_at := now,
                    mo_changed_at := (if mo_status m = status then mo_changed_at m else now)\<rparr>)
      else find_monitor k d)"
proof -
  have "find_monitor k (save_monitor k' status failures now data d) =
     (let changed = (case find_monitor k' d of None \<Rightarrow> now | Some m \<Rightarrow> if mo_status m = status then mo_changed_at m else now)
      in if k = k' then Some (case find_monitor k d of
         None \<Rightarrow> \<lparr>mo_key = k', mo_status = status, mo_severity = None, mo_failures = failures, mo_data = data,
                 mo_observed_at = now, mo_changed_at = changed\<rparr>
       | Some m \<Rightarrow> m\<lparr>mo_status := status, mo_failures := failures, mo_data := data, mo_observed_at := now,
                    mo_changed_at := changed\<rparr>)
      else find_monitor k d)"
    unfolding find_monitor_def save_monitor_def Let_def
    by (subst select_one_upsert [of mo_key, symmetric]) simp_all
  then show ?thesis by (cases "find_monitor k d") (auto simp: Let_def)
qed

lemma save_monitor_view:
  "telemetry_state e (save_monitor (telemetry_key e') status failures now data d) =
     (if e = e' then (failures, status = ''unavailable'') else telemetry_state e d)"
  "telemetry_events e (save_monitor k status failures now data d) = telemetry_events e d"
  by (auto simp: telemetry_state_def find_monitor_save telemetry_key_inj split: option.splits)
    (simp add: telemetry_events_def save_monitor_def Let_def)

lemma telemetry_failure_view:
  assumes "telemetry_failure e' msg now d = Ok d'"
  shows "telemetry_view e d' = (if e = e' then telemetry_step False (telemetry_view e d) else telemetry_view e d)"
proof -
  let ?k = "telemetry_key e'"
  let ?failures = "(case find_monitor ?k d of None \<Rightarrow> 0 | Some m \<Rightarrow> mo_failures m) + 1"
  obtain status where status: "status = map_option mo_status (find_monitor ?k d)" by blast
  obtain d1 where d1: "(if 2 \<le> ?failures \<and> status \<noteq> Some ''unavailable''
        then record_event ''engine.telemetry_unavailable'' (telemetry_entry e' now) now d else Ok d) = Ok d1"
    and d': "d' = save_monitor ?k (if 2 \<le> ?failures then ''unavailable'' else coalesce status ''baseline'') ?failures now
               [(''error'', JStr (take 500 msg))] d1"
    using assms unfolding telemetry_failure_def Let_def status [symmetric] by (auto split: if_splits)
  have s1: "telemetry_state e d1 = telemetry_state e d"
    "telemetry_events e d1 = telemetry_events e d @
       (if 2 \<le> ?failures \<and> status \<noteq> Some ''unavailable'' \<and> e' = e then [''engine.telemetry_unavailable''] else [])"
    using d1 engine_key_inj by (auto simp: telemetry_record telemetry_entry_def is_telemetry_def split: if_splits)
  have st: "(case find_monitor ?k d of None \<Rightarrow> 0 | Some m \<Rightarrow> mo_failures m) = fst (telemetry_state e' d)"
    "status = Some ''unavailable'' \<longleftrightarrow> snd (telemetry_state e' d)"
    "coalesce status ''baseline'' = ''unavailable'' \<longleftrightarrow> snd (telemetry_state e' d)"
    by (auto simp: telemetry_state_def status split: option.splits)
  show ?thesis
  proof (cases "e = e'")
    case False
    then show ?thesis using s1 by (auto simp: d' telemetry_view_def save_monitor_view)
  next
    case True
    then show ?thesis using s1
      by (cases "telemetry_state e d") (auto simp: d' telemetry_view_def save_monitor_view st)
  qed
qed

lemma telemetry_success_view:
  assumes "telemetry_success e' now d = Ok d'"
  shows "telemetry_view e d' = (if e = e' then telemetry_step True (telemetry_view e d) else telemetry_view e d)"
proof -
  let ?k = "telemetry_key e'"
  obtain status where status: "status = map_option mo_status (find_monitor ?k d)" by blast
  obtain d1 where d1: "(if status = Some ''unavailable''
        then record_event ''engine.telemetry_restored'' (telemetry_entry e' now) now d else Ok d) = Ok d1"
    and d': "d' = save_monitor ?k ''available'' 0 now [] d1"
    using assms unfolding telemetry_success_def Let_def status [symmetric] by (auto split: if_splits)
  have s1: "telemetry_state e d1 = telemetry_state e d"
    "telemetry_events e d1 = telemetry_events e d @
       (if status = Some ''unavailable'' \<and> e' = e then [''engine.telemetry_restored''] else [])"
    using d1 engine_key_inj by (auto simp: telemetry_record telemetry_entry_def is_telemetry_def split: if_splits)
  have st: "(case find_monitor ?k d of None \<Rightarrow> 0 | Some m \<Rightarrow> mo_failures m) = fst (telemetry_state e' d)"
    "status = Some ''unavailable'' \<longleftrightarrow> snd (telemetry_state e' d)"
    "coalesce status ''baseline'' = ''unavailable'' \<longleftrightarrow> snd (telemetry_state e' d)"
    by (auto simp: telemetry_state_def status split: option.splits)
  show ?thesis
  proof (cases "e = e'")
    case False
    then show ?thesis using s1 by (auto simp: d' telemetry_view_def save_monitor_view)
  next
    case True
    then show ?thesis using s1
      by (cases "telemetry_state e d") (auto simp: d' telemetry_view_def save_monitor_view st)
  qed
qed

lemma record_points_logs:
  assumes "record_points e now ps active d = (r, d')"
  shows "t_monitor d' = t_monitor d" "t_events d' = t_events d"
    "is_ok r \<longleftrightarrow> (\<forall>p\<in>set ps. safe_counter (tp_upload p) \<and> safe_counter (tp_download p))"
proof -
  have "t_monitor d' = t_monitor d \<and> t_events d' = t_events d \<and>
      (is_ok r \<longleftrightarrow> (\<forall>p\<in>set ps. safe_counter (tp_upload p) \<and> safe_counter (tp_download p)))"
    using assms
  proof (induction e now ps active d rule: record_points.induct)
    case (2 e now p ps active d)
    show ?case
    proof (cases "record_cumulative e p now d")
      case (Inl x)
      moreover from this have "\<not> is_ok (record_cumulative e p now d)" by simp
      ultimately show ?thesis using 2(2) by (auto simp: record_cumulative_def Let_def split: if_splits)
    next
      case (Inr x)
      obtain delta d1 where x: "x = (delta, d1)" by (cases x)
      from Inr have "is_ok (record_cumulative e p now d)" by simp
      then have "safe_counter (tp_upload p) \<and> safe_counter (tp_download p)" by (simp add: record_cumulative_def Let_def split: if_splits)
      moreover have "t_monitor d1 = t_monitor d \<and> t_events d1 = t_events d"
        using Inr by (auto simp: x record_cumulative_def save_cursor_def Let_def split: if_splits)
      ultimately show ?thesis using 2 Inr by (simp add: x)
    qed
  qed auto
  then show "t_monitor d' = t_monitor d" "t_events d' = t_events d"
    "is_ok r \<longleftrightarrow> (\<forall>p\<in>set ps. safe_counter (tp_upload p) \<and> safe_counter (tp_download p))" by blast+
qed

lemma foldl_frame: "(\<And>d x. f (g d x) = f d) \<Longrightarrow> f (foldl g d xs) = f d"
  by (induction xs arbitrary: d) simp_all

lemma presence_logs:
  "t_monitor (update_presence e online active now d) = t_monitor d"
  "t_events (update_presence e online active now d) = t_events d"
  "t_monitor (mark_unknown e now d) = t_monitor d"
  "t_events (mark_unknown e now d) = t_events d"
  unfolding update_presence_def mark_unknown_def
  by (rule foldl_frame, simp add: observe_presence_def save_presence_def Let_def split: option.split)+

lemma collect_engine_view:
  assumes "collect_engine say e' a now d = Ok d'"
  shows "telemetry_view e d' = (if e = e' then telemetry_step (answer_ok a) (telemetry_view e d) else telemetry_view e d)"
proof (cases a)
  case (Inl x)
  with assms telemetry_failure_view [of e' "say x" now "mark_unknown e' now d" d' e] show ?thesis
    by (simp add: collect_engine_def answer_ok_def telemetry_view_same [OF presence_logs(3,4)])
next
  case (Inr s)
  obtain r d1 where rp: "record_points e' now (sn_traffic s) [] d = (r, d1)" by fastforce
  note logs = record_points_logs [OF rp]
  have same: "telemetry_view e (mark_unknown e' now d1) = telemetry_view e d"
    "telemetry_view e (update_presence e' (sn_online s) active now d1) = telemetry_view e d" for active
    by (rule telemetry_view_same; simp add: presence_logs logs)+
  show ?thesis
  proof (cases r)
    case (Inl x)
    with logs(3) have "\<not> answer_ok a" by (simp add: answer_ok_def Inr)
    with Inl Inr rp assms telemetry_failure_view [of e' "say x" now "mark_unknown e' now d1" d' e] show ?thesis
      using same(1) by (cases "e = e'") (auto simp: collect_engine_def)
  next
    case (Inr active)
    with logs(3) have "answer_ok a" by (simp add: answer_ok_def \<open>a = Ok s\<close>)
    with Inr \<open>a = Ok s\<close> rp assms telemetry_success_view [of e' now "update_presence e' (sn_online s) active now d1" d' e]
    show ?thesis using same(2) by (cases "e = e'") (auto simp: collect_engine_def)
  qed
qed

lemma activity_facts_view:
  assumes "activity_facts now c d = Ok d'"
  shows "telemetry_view e d' = telemetry_view e d"
proof -
  have rec: "telemetry_view e d2 = telemetry_view e d1" if "record_event ty en now d1 = Ok d2" "\<not> is_telemetry ty" for ty en d1 d2
    using telemetry_record [OF that(1), of e] that(2) by (simp add: telemetry_view_def)
  have conn: "telemetry_view e (d\<lparr>t_connections := cs\<rparr>) = telemetry_view e d" for cs
    by (rule telemetry_view_same) simp_all
  have other: "\<not> is_telemetry ''connection.first_seen''" "\<not> is_telemetry ''connection.returned''"
    "\<not> is_telemetry ''connection.offline_long''" by (simp_all add: is_telemetry_def)
  have "\<exists>cs ty en. \<not> is_telemetry ty \<and>
      (d' = d\<lparr>t_connections := cs\<rparr> \<or> d' = d \<or> record_event ty en now (d\<lparr>t_connections := cs\<rparr>) = Ok d')"
    using assms other unfolding activity_facts_def Let_def by (simp split: if_splits option.splits prod.splits) blast+
  then obtain cs ty en where "\<not> is_telemetry ty"
    and "d' = d\<lparr>t_connections := cs\<rparr> \<or> d' = d \<or> record_event ty en now (d\<lparr>t_connections := cs\<rparr>) = Ok d'" by blast
  then show ?thesis using conn rec by metis
qed

lemma fold_result_view:
  assumes "\<And>x d d'. f x d = Ok d' \<Longrightarrow> v d' = g x (v d)" "fold_result f xs d = Ok d'"
  shows "v d' = fold g xs (v d)"
  using assms(2) by (induction xs arbitrary: d) (auto simp: assms(1))

lemma fold_keep [simp]: "fold (\<lambda>_ v. v) xs v = v"
  by (induction xs) simp_all

lemma fold_one:
  "distinct xs \<Longrightarrow> fold (\<lambda>x v. if e = x then h v else v) xs v = (if e \<in> set xs then h v else v)"
  by (induction xs arbitrary: v) auto

lemma collect_view:
  assumes cs: "distinct (map fst cs)" and ok: "collect say cs answers now s = Ok s'"
  shows "telemetry_view e (snd s') =
    (if e \<in> set (due_collectors cs now (fst s) (snd s)) then telemetry_step (answer_ok (answers e)) (telemetry_view e (snd s))
     else telemetry_view e (snd s))"
proof -
  obtain m d where s: "s = (m, d)" by (cases s)
  let ?due = "due_collectors cs now m d"
  obtain d1 d2 where d1: "fold_result (\<lambda>e d. collect_engine say e (answers e) now d) ?due d = Ok d1"
    and d2: "update_activity_facts now d1 = Ok d2" and s': "snd s' = d2 \<or> snd s' = compact now d2"
    using ok unfolding collect_def s by (auto simp: Let_def split: if_splits)
  have "telemetry_view e (snd s') = telemetry_view e d2"
    using s' by (auto intro!: telemetry_view_same simp: compact_def Let_def)
  also have "\<dots> = telemetry_view e d1"
    using d2 fold_result_view [of "activity_facts now" "telemetry_view e" "\<lambda>_ v. v"] activity_facts_view
    unfolding update_activity_facts_def by (auto simp: fold_keep)
  also have "\<dots> = fold (\<lambda>x v. if e = x then telemetry_step (answer_ok (answers e)) v else v) ?due (telemetry_view e d)"
    by (rule fold_result_view [OF _ d1]) (use collect_engine_view in fastforce)
  also have "\<dots> = (if e \<in> set ?due then telemetry_step (answer_ok (answers e)) (telemetry_view e d) else telemetry_view e d)"
    by (rule fold_one) (simp add: due_collectors_def distinct_map_filter cs)
  finally show ?thesis by (simp add: s)
qed

lemma telemetry_spec_Cons: "telemetry_spec s (ok # os) = telemetry_spec s [ok] @ telemetry_spec (telemetry_after s [ok]) os"
  by (cases s; cases ok) simp_all

lemma telemetry_after_Cons: "telemetry_after s (ok # os) = telemetry_after (telemetry_after s [ok]) os"
  by (cases s) simp

text \<open>
  C33.  The telemetry events of an engine depend on the outcomes of its own collections only,
  and are those of \<open>telemetry_spec\<close>: unavailable once after two failures in a row (a failed
  collection or an invalid counter), restored by the next success; the monitor row
  holds the state the specification is in.
\<close>

theorem telemetry_refines:
  assumes "distinct (map fst cs)" "run_collections say cs rs s = Ok s'"
  shows "telemetry_events e (snd s') =
      telemetry_events e (snd s) @ telemetry_spec (telemetry_state e (snd s)) (outcomes e say cs rs s) \<and>
    telemetry_state e (snd s') = telemetry_after (telemetry_state e (snd s)) (outcomes e say cs rs s)"
  using assms(2)
proof (induction rs arbitrary: s)
  case (Cons r rs)
  obtain now answers where r: "r = (now, answers)" by (cases r)
  with Cons.prems obtain s1 where s1: "collect say cs answers now s = Ok s1" and rest: "run_collections say cs rs s1 = Ok s'"
    by auto
  obtain st where st: "telemetry_state e (snd s) = st" by blast
  from collect_view [OF assms(1) s1, of e] Cons.IH [OF rest] show ?case
    by (cases st) (auto simp: r s1 st telemetry_view_def telemetry_spec_Cons [of _ _ "outcomes e say cs rs s1"]
        telemetry_after_Cons [of _ _ "outcomes e say cs rs s1"] simp del: telemetry_spec.simps(2,3) telemetry_after.simps(2))
qed simp

definition sample_telemetry :: "collector_memory \<times> db" where
  "sample_telemetry = (\<lparr>cm_sampled = [], cm_compacted = 1000\<rparr>, empty_db\<lparr>t_engine_versions :=
     [\<lparr>e_engine = Xray, e_installed = Some ''1'', e_desired = ''1'', e_checksum = []\<rparr>]\<rparr>)"

definition sample_collections :: "(time \<times> (engine \<Rightarrow> telemetry_snapshot result)) list" where
  "sample_collections =
     [(1000, \<lambda>_. Err (Thrown ''timeout'')), (1005, \<lambda>_. Err (Thrown ''timeout'')), (1010, \<lambda>_. Err (Thrown ''timeout'')),
      (1020, \<lambda>_. Err (Thrown ''timeout'')), (1030, \<lambda>_. Ok \<lparr>sn_traffic = [], sn_online = None\<rparr>)]"

lemma telemetry_refines_witness:
  "\<exists>s'. run_collections (\<lambda>_. ''timeout'') [(Xray, 10)] sample_collections sample_telemetry = Ok s' \<and>
     telemetry_events Xray (snd s') = [''engine.telemetry_unavailable'', ''engine.telemetry_restored'']"
  (is "\<exists>s'. ?run = Ok s' \<and> _")
proof -
  have "is_ok ?run" by code_simp
  then obtain s' where s': "?run = Ok s'" by (cases ?run) auto
  have "outcomes Xray (\<lambda>_. ''timeout'') [(Xray, 10)] sample_collections sample_telemetry = [False, False, False, True]" by code_simp
  moreover have "telemetry_events Xray (snd sample_telemetry) = []" "telemetry_state Xray (snd sample_telemetry) = (0, False)" by code_simp+
  ultimately show ?thesis using telemetry_refines [OF _ s', of Xray] s' by simp
qed

end
