(* ===== verification/Auth.thy ===== *)
theory Auth
  imports Connections Journal Js_Map
begin

text \<open>
  The owner's access (src/src/server/auth/webauthn.ts and src/src/shared/api-scopes.ts): the
  grants of the first claim and of a recovery, invitations, passkey registration and login,
  sessions and API tokens.

  WebAuthn itself (@simplewebauthn/server) is a parameter: the challenge it generates and the
  outcome of a verification.  A verification is asynchronous, so finishing a registration or a
  login is two operations, before and after it, between which any other may run.  An
  operation that changes the database before it fails answers with a result and a database.
\<close>

section \<open>Settings of the panel\<close>

text \<open>The Russian placeholders of \<open>parseUserAgent\<close> are not Latin-1; the panel supplies them.\<close>

datatype agent_word = UnknownBrowser | OtherBrowser | UnknownSystem

record panel =
  pn_setup :: bool
  pn_session_hours :: int
  pn_word :: "agent_word \<Rightarrow> string"

definition parse_user_agent :: "panel \<Rightarrow> string option \<Rightarrow> (string \<times> json) list" where
  "parse_user_agent pn ua =
     (case ua of
        None \<Rightarrow> [(''browser'', JStr (pn_word pn UnknownBrowser)), (''os'', JStr (pn_word pn UnknownSystem))]
      | Some s \<Rightarrow>
          if s = [] then [(''browser'', JStr (pn_word pn UnknownBrowser)), (''os'', JStr (pn_word pn UnknownSystem))]
          else
            [(''browser'', JStr (if contains s ''Edg/'' then ''Edge''
                else if contains s ''Firefox/'' then ''Firefox''
                else if contains s ''CriOS/'' \<or> contains s ''Chrome/'' then ''Chrome''
                else if contains s ''Safari/'' then ''Safari'' else pn_word pn OtherBrowser)),
             (''os'', JStr (if contains s ''iPhone'' \<or> contains s ''iPad'' then ''iOS''
                else if contains s ''Mac OS X'' then ''macOS''
                else if contains s ''Android'' then ''Android''
                else if contains s ''Windows'' then ''Windows''
                else if contains s ''Linux'' then ''Linux'' else pn_word pn UnknownSystem))])"

definition hours :: "int \<Rightarrow> time" where
  "hours h = h * 60 * 60 * 1000"

text \<open>\<open>addHours(0.17)\<close>: 612000.0000000001 milliseconds, which \<open>Date\<close> truncates.\<close>

definition challenge_life :: time where
  "challenge_life = 612000"

definition challenge_limit :: nat where
  "challenge_limit = 100"

section \<open>Input\<close>

definition locale_of :: "string \<Rightarrow> locale_code option" where
  "locale_of s = map_of [(''ru'', RU), (''en'', EN), (''zh-CN'', ZH_CN), (''fa'', FA)] s"

definition parse_locale :: "json option \<Rightarrow> locale_code option result" where
  "parse_locale v =
     (case v of
        None \<Rightarrow> Ok None
      | Some (JStr s) \<Rightarrow> (case locale_of s of None \<Rightarrow> Err zod_error | Some l \<Rightarrow> Ok (Some l))
      | Some _ \<Rightarrow> Err zod_error)"

definition parse_text :: "json option \<Rightarrow> string option result" where
  "parse_text v = (case v of None \<Rightarrow> Ok None | Some (JStr s) \<Rightarrow> Ok (Some s) | Some _ \<Rightarrow> Err zod_error)"

record registration_input =
  rg_timezone :: "string option"
  rg_language :: "locale_code option"
  rg_claim :: "string option"
  rg_recovery :: "string option"
  rg_invite :: "string option"

text \<open>\<open>registrationContext\<close>; the time zone is a trimmed text of 1 to 80 characters, like a name.\<close>

fun parse_registration :: "json \<Rightarrow> registration_input result" where
  "parse_registration (JObj kvs) =
     bind_result (parse_name (json_get ''timezone'' kvs)) (\<lambda>tz.
     bind_result (parse_locale (json_get ''language'' kvs)) (\<lambda>l.
     bind_result (parse_text (json_get ''claimToken'' kvs)) (\<lambda>c.
     bind_result (parse_text (json_get ''recoveryToken'' kvs)) (\<lambda>r.
     bind_result (parse_text (json_get ''inviteToken'' kvs)) (\<lambda>i.
     Ok \<lparr>rg_timezone = tz, rg_language = l, rg_claim = c, rg_recovery = r, rg_invite = i\<rparr>)))))"
| "parse_registration _ = Err zod_error"

fun parse_owner_update :: "json \<Rightarrow> (string option \<times> locale_code option) result" where
  "parse_owner_update (JObj kvs) =
     (if list_all (\<lambda>(k, _). k \<in> {''timezone'', ''language''}) kvs
      then bind_result (parse_name (json_get ''timezone'' kvs)) (\<lambda>tz.
           bind_result (parse_locale (json_get ''language'' kvs)) (\<lambda>l.
           if tz = None \<and> l = None then Err zod_error else Ok (tz, l)))
      else Err zod_error)"
| "parse_owner_update _ = Err zod_error"

section \<open>The owner and the log\<close>

definition find_owner :: "db \<Rightarrow> owner_row option" where
  "find_owner d = (case t_owners d of [] \<Rightarrow> None | w # _ \<Rightarrow> Some w)"

definition require_owner :: "db \<Rightarrow> owner_row result" where
  "require_owner d = (case find_owner d of None \<Rightarrow> Err (ServiceError 404) | Some w \<Rightarrow> Ok w)"

text \<open>The audit row and the event that refers to it.\<close>

definition log_auth ::
  "string \<Rightarrow> string \<Rightarrow> string \<Rightarrow> string option \<Rightarrow> string \<Rightarrow> string \<Rightarrow> string option \<Rightarrow> (string \<times> json) list
   \<Rightarrow> time \<Rightarrow> db \<Rightarrow> db result" where
  "log_auth actor action resource i type subject subject_id extra now d =
     (case audit actor action resource i None now d of (a, d1) \<Rightarrow>
        record_event type (entry\<lparr>je_actor := Some actor, je_audit_id := Some a, je_subject_type := Some subject,
                                 je_subject_id := subject_id, je_data := extra\<rparr>) now d1)"

definition audit_only :: "string \<Rightarrow> string \<Rightarrow> string \<Rightarrow> string option \<Rightarrow> time \<Rightarrow> db \<Rightarrow> db" where
  "audit_only actor action resource i now d = snd (audit actor action resource i None now d)"

definition update_owner :: "time \<Rightarrow> json \<Rightarrow> string \<Rightarrow> db \<Rightarrow> db result" where
  "update_owner now input actor d =
     bind_result (require_owner d) (\<lambda>w.
     bind_result (parse_owner_update input) (\<lambda>(tz, l).
     Ok (audit_only actor ''owner.update'' ''owner'' (Some (o_id w)) now
           (d\<lparr>t_owners := update_where (\<lambda>r. o_id r = o_id w)
              (\<lambda>r. r\<lparr>o_timezone := coalesce tz (o_timezone w), o_language := coalesce l (o_language w), o_updated_at := now\<rparr>)
              (t_owners d)\<rparr>))))"

section \<open>Grants\<close>

datatype grant_kind = ClaimGrant | RecoveryGrant

definition grant_of :: "grant_kind \<Rightarrow> db \<Rightarrow> grant option" where
  "grant_of k d = (case k of ClaimGrant \<Rightarrow> s_claim d | RecoveryGrant \<Rightarrow> s_recovery d)"

definition set_grant :: "grant_kind \<Rightarrow> grant option \<Rightarrow> db \<Rightarrow> db" where
  "set_grant k g d = (case k of ClaimGrant \<Rightarrow> d\<lparr>s_claim := g\<rparr> | RecoveryGrant \<Rightarrow> d\<lparr>s_recovery := g\<rparr>)"

definition issue_grant :: "crypto \<Rightarrow> grant_kind \<Rightarrow> string \<Rightarrow> time \<Rightarrow> db \<Rightarrow> db" where
  "issue_grant X k token now d = set_grant k (Some \<lparr>g_hash = x_hash X token, g_expires_at = now + hours 1\<rparr>) d"

text \<open>A missing and an empty token are the same to the code.\<close>

definition given :: "string option \<Rightarrow> string option" where
  "given t = (case t of None \<Rightarrow> None | Some s \<Rightarrow> if s = [] then None else Some s)"

definition verify_grant_hash :: "grant_kind \<Rightarrow> string option \<Rightarrow> time \<Rightarrow> db \<Rightarrow> unit result" where
  "verify_grant_hash k h now d =
     (case (given h, grant_of k d) of
        (Some h, Some g) \<Rightarrow> if g_expires_at g \<le> now \<or> g_hash g \<noteq> h then Err (ServiceError 401) else Ok ()
      | _ \<Rightarrow> Err (ServiceError 401))"

definition verify_grant :: "crypto \<Rightarrow> grant_kind \<Rightarrow> string option \<Rightarrow> time \<Rightarrow> db \<Rightarrow> grant result" where
  "verify_grant X k token now d =
     (case (given token, grant_of k d) of
        (Some t, Some g) \<Rightarrow> if g_expires_at g \<le> now \<or> x_hash X t \<noteq> g_hash g then Err (ServiceError 401) else Ok g
      | _ \<Rightarrow> Err (ServiceError 401))"

text \<open>\<open>issueClaim\<close> also clears the setting \<open>bootstrap\<close>, which nothing reads.\<close>

definition issue_claim :: "crypto \<Rightarrow> string \<Rightarrow> time \<Rightarrow> db \<Rightarrow> db result" where
  "issue_claim X token now d =
     (if find_owner d \<noteq> None then Err (ServiceError 409) else Ok (issue_grant X ClaimGrant token now d))"

definition authorize_claim :: "crypto \<Rightarrow> string option \<Rightarrow> time \<Rightarrow> db \<Rightarrow> unit result" where
  "authorize_claim X token now d =
     (if find_owner d \<noteq> None then Err (ServiceError 409)
      else bind_result (verify_grant X ClaimGrant token now d) (\<lambda>_. Ok ()))"

text \<open>The link \<open>resetBootstrap\<close> prints carries the token; the kind says which parameter of it.\<close>

definition reset_bootstrap :: "crypto \<Rightarrow> string \<Rightarrow> time \<Rightarrow> db \<Rightarrow> (grant_kind \<times> db) result" where
  "reset_bootstrap X token now d =
     (case find_owner d of
        None \<Rightarrow> bind_result (issue_claim X token now d) (\<lambda>d'. Ok (ClaimGrant, d'))
      | Some w \<Rightarrow>
          (let d1 = d\<lparr>t_sessions := delete_where (\<lambda>s. se_owner_id s = o_id w) (t_sessions d)\<rparr>
           in bind_result (log_auth ''root-cli'' ''auth.bootstrap.reset'' ''owner'' (Some (o_id w)) ''bootstrap.reset'' ''owner''
                (Some (o_id w)) [] now (issue_grant X RecoveryGrant token now d1)) (\<lambda>d2. Ok (RecoveryGrant, d2))))"

section \<open>Invitations\<close>

definition open_invitation :: "invitation \<Rightarrow> bool" where
  "open_invitation v \<longleftrightarrow> iv_consumed_at v = None \<and> iv_revoked_at v = None"

definition verify_invitation :: "crypto \<Rightarrow> string \<Rightarrow> time \<Rightarrow> db \<Rightarrow> invitation result" where
  "verify_invitation X token now d =
     (case select_one (\<lambda>v. iv_token_hash v = x_hash X token \<and> open_invitation v) (t_invitations d) of
        None \<Rightarrow> Err (ServiceError 403)
      | Some v \<Rightarrow> if iv_expires_at v \<le> now then Err (ServiceError 403) else Ok v)"

definition verify_invitation_hash :: "string option \<Rightarrow> string option \<Rightarrow> time \<Rightarrow> db \<Rightarrow> invitation result" where
  "verify_invitation_hash i h now d =
     (case (given i, given h) of
        (Some i, Some h) \<Rightarrow>
          (case select_one (\<lambda>v. iv_id v = i \<and> iv_token_hash v = h \<and> open_invitation v) (t_invitations d) of
             None \<Rightarrow> Err (ServiceError 403)
           | Some v \<Rightarrow> if iv_expires_at v \<le> now then Err (ServiceError 403) else Ok v)
      | _ \<Rightarrow> Err (ServiceError 403))"

definition invitations :: "time \<Rightarrow> db \<Rightarrow> invitation list" where
  "invitations now d =
     sort_by (\<lambda>a b. iv_created_at b \<le> iv_created_at a)
       (filter (\<lambda>v. open_invitation v \<and> now < iv_expires_at v) (t_invitations d))"

definition create_invitation ::
  "crypto \<Rightarrow> (nat \<Rightarrow> string) \<Rightarrow> time \<Rightarrow> json \<Rightarrow> string \<Rightarrow> db \<Rightarrow> (invitation \<times> db) result" where
  "create_invitation X rnd now name actor d =
     bind_result (require_owner d) (\<lambda>_.
     bind_result (parse_name (Some name)) (\<lambda>n.
     if 20 \<le> length (invitations now d) then Err (ServiceError 429)
     else
       let v = \<lparr>iv_id = rnd 0, iv_name = coalesce n [], iv_token_hash = x_hash X (rnd 1), iv_created_at = now,
                iv_expires_at = now + hours 24, iv_consumed_at = None, iv_revoked_at = None\<rparr>
       in if \<exists>w\<in>set (t_invitations d). iv_id w = iv_id v \<or> iv_token_hash w = iv_token_hash v then Err constraint_error
          else Ok (v, audit_only actor ''auth.invitation.create'' ''owner_invitation'' (Some (iv_id v)) now
                        (d\<lparr>t_invitations := t_invitations d @ [v]\<rparr>))))"

definition revoke_invitation :: "string \<Rightarrow> string \<Rightarrow> time \<Rightarrow> db \<Rightarrow> db result" where
  "revoke_invitation i actor now d =
     (let p = (\<lambda>v. iv_id v = i \<and> open_invitation v)
      in if changes p (t_invitations d) = 0 then Err (ServiceError 404)
         else Ok (audit_only actor ''auth.invitation.revoke'' ''owner_invitation'' (Some i) now
                (d\<lparr>t_invitations := update_where p (\<lambda>v. v\<lparr>iv_revoked_at := Some now\<rparr>) (t_invitations d)\<rparr>)))"

section \<open>Challenges\<close>

definition prune_challenges :: "time \<Rightarrow> db \<Rightarrow> db" where
  "prune_challenges now d = d\<lparr>t_challenges := delete_where (\<lambda>c. ch_expires_at c \<le> now) (t_challenges d)\<rparr>"

definition store_challenge ::
  "challenge_kind \<Rightarrow> string \<Rightarrow> challenge_context \<Rightarrow> string \<Rightarrow> time \<Rightarrow> db \<Rightarrow> string result \<times> db" where
  "store_challenge kind text ctx i now d =
     (let d1 = prune_challenges now d
      in if challenge_limit \<le> changes (\<lambda>c. ch_kind c = kind) (t_challenges d1) then (Err (ServiceError 429), d1)
         else if i \<in> ch_id ` set (t_challenges d1) then (Err constraint_error, d1)
         else (Ok i, d1\<lparr>t_challenges := t_challenges d1 @
                [\<lparr>ch_id = i, ch_kind = kind, ch_challenge = text, ch_context = ctx,
                  ch_expires_at = now + challenge_life, ch_created_at = now\<rparr>]\<rparr>))"

definition challenge_of :: "string \<Rightarrow> challenge_kind \<Rightarrow> time \<Rightarrow> db \<Rightarrow> challenge result \<times> db" where
  "challenge_of i kind now d =
     (let d1 = prune_challenges now d
      in case select_one (\<lambda>c. ch_id c = i) (t_challenges d1) of
           None \<Rightarrow> (Err (ServiceError 400), d1)
         | Some c \<Rightarrow> if ch_kind c \<noteq> kind \<or> ch_expires_at c \<le> now then (Err (ServiceError 400), d1) else (Ok c, d1))"

definition consume_challenge :: "string \<Rightarrow> db \<Rightarrow> db" where
  "consume_challenge i d = d\<lparr>t_challenges := delete_where (\<lambda>c. ch_id c = i) (t_challenges d)\<rparr>"

section \<open>Sessions\<close>

text \<open>The id, the token and the expiry of a new session; its token is drawn before its id.\<close>

definition create_session ::
  "panel \<Rightarrow> crypto \<Rightarrow> (nat \<Rightarrow> string) \<Rightarrow> time \<Rightarrow> string \<Rightarrow> string option \<Rightarrow> string option \<Rightarrow> db
   \<Rightarrow> ((string \<times> string \<times> time) \<times> db) result" where
  "create_session pn X rnd now owner ua passkey d =
     (let s = \<lparr>se_id = rnd 1, se_owner_id = owner, se_token_hash = x_hash X (rnd 0), se_expires_at = now + hours (pn_session_hours pn),
               se_created_at = now, se_last_seen_at = now, se_user_agent = ua, se_passkey_id = passkey\<rparr>
      in if (\<exists>r\<in>set (t_sessions d). se_id r = se_id s \<or> se_token_hash r = se_token_hash s) \<or> owner \<notin> o_id ` set (t_owners d)
         then Err constraint_error
         else Ok ((se_id s, rnd 0, se_expires_at s), d\<lparr>t_sessions := t_sessions d @ [s]\<rparr>))"

section \<open>Registration\<close>

definition verify_authority :: "registration_context \<Rightarrow> time \<Rightarrow> db \<Rightarrow> invitation option result" where
  "verify_authority c now d =
     (case rc_authority c of
        AClaim \<Rightarrow>
          if find_owner d \<noteq> None then Err (ServiceError 409)
          else bind_result (verify_grant_hash ClaimGrant (rc_token_hash c) now d) (\<lambda>_. Ok None)
      | a \<Rightarrow>
          (case find_owner d of
             None \<Rightarrow> Err (ServiceError 401)
           | Some w \<Rightarrow>
               if o_id w \<noteq> rc_owner_id c then Err (ServiceError 401)
               else if a = ARecovery then bind_result (verify_grant_hash RecoveryGrant (rc_token_hash c) now d) (\<lambda>_. Ok None)
               else if a = AInvite
               then bind_result (verify_invitation_hash (rc_invitation_id c) (rc_token_hash c) now d) (\<lambda>v. Ok (Some v))
               else (case given (rc_session_hash c) of
                       None \<Rightarrow> Err (ServiceError 401)
                     | Some h \<Rightarrow>
                         if \<exists>s\<in>set (t_sessions d). se_owner_id s = o_id w \<and> se_token_hash s = h \<and> now < se_expires_at s
                         then Ok None else Err (ServiceError 401))))"

text \<open>Who asks, and with what: the authority and the grant or the invitation it rests on.\<close>

definition registration_authority ::
  "crypto \<Rightarrow> registration_input \<Rightarrow> string option \<Rightarrow> string option \<Rightarrow> time \<Rightarrow> db
   \<Rightarrow> (authority \<times> string option \<times> string option) result" where
  "registration_authority X g owner_id session now d =
     (case find_owner d of
        None \<Rightarrow> bind_result (verify_grant X ClaimGrant (rg_claim g) now d) (\<lambda>gr. Ok (AClaim, Some (g_hash gr), None))
      | Some w \<Rightarrow>
          (case given (rg_invite g) of
             Some t \<Rightarrow> bind_result (verify_invitation X t now d) (\<lambda>v. Ok (AInvite, Some (iv_token_hash v), Some (iv_id v)))
           | None \<Rightarrow>
               if owner_id = Some (o_id w)
               then (if given session = None then Err (ServiceError 401) else Ok (ASession, None, None))
               else bind_result (verify_grant X RecoveryGrant (rg_recovery g) now d) (\<lambda>gr. Ok (ARecovery, Some (g_hash gr), None))))"

definition registration_options ::
  "panel \<Rightarrow> crypto \<Rightarrow> (nat \<Rightarrow> string) \<Rightarrow> string \<Rightarrow> time \<Rightarrow> json \<Rightarrow> string option \<Rightarrow> string option \<Rightarrow> db
   \<Rightarrow> (string \<times> string list) result \<times> db" where
  "registration_options pn X rnd text now input owner_id session d =
     (let owner = find_owner d;
          context = (if pn_setup pn then Err (ServiceError 409)
            else bind_result (parse_registration input) (\<lambda>g.
                 bind_result (registration_authority X g owner_id session now d) (\<lambda>(a, h, v).
                 (let tz = (if a = AInvite then map_option o_timezone owner
                            else (case rg_timezone g of None \<Rightarrow> map_option o_timezone owner | Some z \<Rightarrow> Some z));
                      lang = (if a = AInvite then map_option o_language owner
                              else (case rg_language g of None \<Rightarrow> map_option o_language owner | Some l \<Rightarrow> Some l))
                  in case given tz of
                       None \<Rightarrow> Err (ServiceError 400)
                     | Some z \<Rightarrow> Ok \<lparr>rc_timezone = z, rc_language = coalesce lang EN,
                         rc_owner_id = (case owner of None \<Rightarrow> rnd 0 | Some w \<Rightarrow> o_id w), rc_authority = a,
                         rc_token_hash = h, rc_invitation_id = v,
                         rc_session_hash = (if a = ASession then map_option (x_hash X) (given session) else None)\<rparr>))));
          keys = (case owner of None \<Rightarrow> []
                  | Some w \<Rightarrow> map pk_id (filter (\<lambda>p. pk_owner_id p = o_id w) (t_passkeys d)))
      in case context of
           Inl x \<Rightarrow> (Err x, d)
         | Inr c \<Rightarrow>
             (case store_challenge ChRegistration text (RegistrationContext c) (rnd (if owner = None then 1 else 0)) now d of
                (Inl x, d1) \<Rightarrow> (Err x, d1)
              | (Inr i, d1) \<Rightarrow> (Ok (i, keys), d1)))"

text \<open>\<open>finishRegistration\<close> up to the verification: the expected challenge and the context.\<close>

definition begin_registration :: "string \<Rightarrow> time \<Rightarrow> db \<Rightarrow> (string \<times> registration_context) result \<times> db" where
  "begin_registration i now d =
     (case challenge_of i ChRegistration now d of
        (Inl x, d1) \<Rightarrow> (Err x, d1)
      | (Inr c, d1) \<Rightarrow>
          (case ch_context c of
             OwnerContext _ \<Rightarrow> (Err zod_error, d1)
           | RegistrationContext rc \<Rightarrow>
               (case verify_authority rc now d1 of Inl x \<Rightarrow> (Err x, d1) | Inr _ \<Rightarrow> (Ok (ch_challenge c, rc), d1))))"

record registration_info =
  ri_id :: string
  ri_public_key :: string
  ri_counter :: nat
  ri_transports :: "string list"
  ri_device_type :: string
  ri_backed_up :: bool

definition new_passkey :: "registration_info \<Rightarrow> string \<Rightarrow> time \<Rightarrow> invitation option \<Rightarrow> passkey" where
  "new_passkey ri owner now v =
     \<lparr>pk_id = ri_id ri, pk_owner_id = owner, pk_public_key = ri_public_key ri, pk_counter = ri_counter ri,
      pk_transports = ri_transports ri, pk_device_type = Some (ri_device_type ri), pk_backed_up = ri_backed_up ri,
      pk_created_at = now, pk_last_used_at = None, pk_label = map_option iv_name v\<rparr>"

definition claim_owner :: "registration_context \<Rightarrow> time \<Rightarrow> db \<Rightarrow> db result" where
  "claim_owner c now d =
     (if rc_authority c \<noteq> AClaim then Ok d
      else if rc_owner_id c \<in> o_id ` set (t_owners d) then Err constraint_error
      else Ok (d\<lparr>t_owners := t_owners d @ [\<lparr>o_id = rc_owner_id c, o_timezone = rc_timezone c, o_language = rc_language c,
                                             o_created_at = now, o_updated_at = now\<rparr>]\<rparr>))"

definition use_authority :: "registration_context \<Rightarrow> invitation option \<Rightarrow> time \<Rightarrow> db \<Rightarrow> db" where
  "use_authority c v now d =
     (let d1 = (if rc_authority c = AClaim then set_grant ClaimGrant None d else d);
          d2 = (if rc_authority c = ARecovery then set_grant RecoveryGrant None d1 else d1)
      in case v of None \<Rightarrow> d2
         | Some v \<Rightarrow> d2\<lparr>t_invitations := update_where (\<lambda>r. iv_id r = iv_id v) (\<lambda>r. r\<lparr>iv_consumed_at := Some now\<rparr>) (t_invitations d2)\<rparr>)"

text \<open>\<open>finishRegistration\<close> after the verification: one transaction, then the audit and the event.\<close>

definition complete_registration ::
  "panel \<Rightarrow> crypto \<Rightarrow> (nat \<Rightarrow> string) \<Rightarrow> time \<Rightarrow> string \<Rightarrow> registration_context \<Rightarrow> registration_info option \<Rightarrow> string option
   \<Rightarrow> db \<Rightarrow> ((string \<times> string \<times> time) \<times> db) result" where
  "complete_registration pn X rnd now i c answer ua d =
     (case answer of
        None \<Rightarrow> Err (ServiceError 400)
      | Some ri \<Rightarrow>
          bind_result (verify_authority c now d) (\<lambda>v.
          bind_result (claim_owner c now d) (\<lambda>d1.
          if ri_id ri \<in> pk_id ` set (t_passkeys d1) \<or> rc_owner_id c \<notin> o_id ` set (t_owners d1) then Err constraint_error
          else
            let d2 = d1\<lparr>t_passkeys := t_passkeys d1 @ [new_passkey ri (rc_owner_id c) now v]\<rparr>;
                d3 = use_authority c v now (consume_challenge i d2)
            in bind_result (create_session pn X rnd now (rc_owner_id c) ua (Some (ri_id ri)) d3) (\<lambda>(s, d4).
               bind_result (log_auth (rc_owner_id c) ''auth.passkey.register'' ''passkey'' (Some (ri_id ri)) ''passkey.registered'' ''passkey''
                 None (parse_user_agent pn ua) now d4) (\<lambda>d5. Ok (s, d5))))))"

section \<open>Login\<close>

definition authentication_options :: "string \<Rightarrow> string \<Rightarrow> time \<Rightarrow> db \<Rightarrow> (string \<times> string list) result \<times> db" where
  "authentication_options i text now d =
     (case find_owner d of
        None \<Rightarrow> (Err (ServiceError 409), d)
      | Some w \<Rightarrow>
          (case store_challenge ChAuthentication text (OwnerContext (o_id w)) i now d of
             (Inl x, d1) \<Rightarrow> (Err x, d1)
           | (Inr i, d1) \<Rightarrow> (Ok (i, map pk_id (filter (\<lambda>p. pk_owner_id p = o_id w) (t_passkeys d))), d1)))"

definition begin_authentication :: "string \<Rightarrow> string \<Rightarrow> time \<Rightarrow> db \<Rightarrow> (string \<times> passkey) result \<times> db" where
  "begin_authentication i credential now d =
     (case challenge_of i ChAuthentication now d of
        (Inl x, d1) \<Rightarrow> (Err x, d1)
      | (Inr c, d1) \<Rightarrow>
          (case select_one (\<lambda>p. pk_id p = credential) (t_passkeys d1) of
             None \<Rightarrow> (Err (ServiceError 401), d1)
           | Some p \<Rightarrow> (Ok (ch_challenge c, p), d1)))"

text \<open>The answer of the verification is the new counter of the authenticator, if it verified.\<close>

definition complete_authentication ::
  "panel \<Rightarrow> crypto \<Rightarrow> (nat \<Rightarrow> string) \<Rightarrow> time \<Rightarrow> string \<Rightarrow> passkey \<Rightarrow> nat option \<Rightarrow> string option
   \<Rightarrow> db \<Rightarrow> ((string \<times> string \<times> time) \<times> db) result" where
  "complete_authentication pn X rnd now i p answer ua d =
     (case answer of
        None \<Rightarrow> Err (ServiceError 401)
      | Some n \<Rightarrow>
          if changes (\<lambda>r. pk_id r = pk_id p) (t_passkeys d) = 0 then Err (ServiceError 401)
          else
            let d1 = d\<lparr>t_passkeys := update_where (\<lambda>r. pk_id r = pk_id p)
                         (\<lambda>r. r\<lparr>pk_counter := n, pk_last_used_at := Some now\<rparr>) (t_passkeys d)\<rparr>
            in bind_result (create_session pn X rnd now (pk_owner_id p) ua (Some (pk_id p)) (consume_challenge i d1)) (\<lambda>(s, d2).
               bind_result (log_auth (pk_owner_id p) ''auth.login'' ''session'' (Some (fst s)) ''auth.login_succeeded'' ''session''
                 None (parse_user_agent pn ua) now d2) (\<lambda>d3. Ok (s, d3))))"

section \<open>Requests\<close>

datatype principal = OwnerPrincipal string string locale_code | TokenPrincipal string "string list"

definition authenticate_api_token :: "crypto \<Rightarrow> string \<Rightarrow> time \<Rightarrow> db \<Rightarrow> principal option \<times> db" where
  "authenticate_api_token X token now d =
     (case select_one (\<lambda>t. at_token_hash t = x_hash X token \<and> at_revoked_at t = None) (t_api_tokens d) of
        None \<Rightarrow> (None, d)
      | Some t \<Rightarrow>
          if (case at_expires_at t of None \<Rightarrow> False | Some e \<Rightarrow> e \<le> now) then (None, d)
          else (Some (TokenPrincipal (''token:'' @ at_id t) (at_scopes t)),
                d\<lparr>t_api_tokens := update_where (\<lambda>r. at_id r = at_id t) (\<lambda>r. r\<lparr>at_last_used_at := Some now\<rparr>) (t_api_tokens d)\<rparr>))"

definition bearer :: "string option \<Rightarrow> string option" where
  "bearer authorization =
     (case authorization of None \<Rightarrow> None | Some s \<Rightarrow> if starts_with s ''Bearer '' then Some (drop 7 s) else None)"

definition authenticate_session :: "crypto \<Rightarrow> string \<Rightarrow> time \<Rightarrow> db \<Rightarrow> principal option \<times> db" where
  "authenticate_session X token now d =
     (case select_one (\<lambda>s. se_token_hash s = x_hash X token) (t_sessions d) of
        None \<Rightarrow> (None, d)
      | Some s \<Rightarrow>
          if se_expires_at s \<le> now then (None, d)
          else (map_option (\<lambda>w. OwnerPrincipal (o_id w) (o_timezone w) (o_language w)) (find_owner d),
                d\<lparr>t_sessions := update_where (\<lambda>r. se_id r = se_id s) (\<lambda>r. r\<lparr>se_last_seen_at := now\<rparr>) (t_sessions d)\<rparr>))"

definition authenticate :: "crypto \<Rightarrow> string option \<Rightarrow> string option \<Rightarrow> time \<Rightarrow> db \<Rightarrow> principal option \<times> db" where
  "authenticate X session authorization now d =
     (case given (case given session of None \<Rightarrow> bearer authorization | Some s \<Rightarrow> Some s) of
        None \<Rightarrow> (None, d)
      | Some token \<Rightarrow>
          (case (if bearer authorization \<noteq> None then authenticate_api_token X token now d else (None, d)) of
             (Some p, d1) \<Rightarrow> (Some p, d1)
           | (None, d1) \<Rightarrow> authenticate_session X token now d1))"

definition logout :: "crypto \<Rightarrow> string option \<Rightarrow> db \<Rightarrow> db" where
  "logout X token d =
     (case given token of None \<Rightarrow> d
      | Some t \<Rightarrow> d\<lparr>t_sessions := delete_where (\<lambda>s. se_token_hash s = x_hash X t) (t_sessions d)\<rparr>)"

section \<open>Security settings\<close>

record security_view =
  sv_passkeys :: "passkey list"
  sv_sessions :: "(session_row \<times> bool) list"
  sv_invitations :: "invitation list"
  sv_tokens :: "api_token list"

definition api_tokens :: "db \<Rightarrow> api_token list" where
  "api_tokens d = sort_by (\<lambda>a b. at_created_at b \<le> at_created_at a) (filter (\<lambda>t. at_revoked_at t = None) (t_api_tokens d))"

definition security :: "crypto \<Rightarrow> string option \<Rightarrow> time \<Rightarrow> db \<Rightarrow> security_view result" where
  "security X session now d =
     bind_result (require_owner d) (\<lambda>w.
     Ok \<lparr>sv_passkeys = sort_by (\<lambda>a b. pk_created_at b \<le> pk_created_at a) (filter (\<lambda>p. pk_owner_id p = o_id w) (t_passkeys d)),
         sv_sessions = map (\<lambda>s. (s, Some (se_token_hash s) = map_option (x_hash X) (given session)))
           (sort_by (\<lambda>a b. se_last_seen_at b \<le> se_last_seen_at a)
             (filter (\<lambda>s. se_owner_id s = o_id w \<and> now < se_expires_at s) (t_sessions d))),
         sv_invitations = invitations now d, sv_tokens = api_tokens d\<rparr>)"

definition revoke_passkey :: "string \<Rightarrow> string \<Rightarrow> time \<Rightarrow> db \<Rightarrow> db result" where
  "revoke_passkey i actor now d =
     bind_result (require_owner d) (\<lambda>w.
     if changes (\<lambda>p. pk_owner_id p = o_id w) (t_passkeys d) \<le> 1 then Err (ServiceError 409)
     else if changes (\<lambda>p. pk_id p = i \<and> pk_owner_id p = o_id w) (t_passkeys d) = 0 then Err (ServiceError 404)
     else log_auth actor ''auth.passkey.revoke'' ''passkey'' (Some i) ''passkey.revoked'' ''passkey'' None [] now
       (d\<lparr>t_passkeys := delete_where (\<lambda>p. pk_id p = i \<and> pk_owner_id p = o_id w) (t_passkeys d),
          t_sessions := delete_where (\<lambda>s. se_owner_id s = o_id w \<and> (se_passkey_id s = Some i \<or> se_passkey_id s = None)) (t_sessions d)\<rparr>))"

definition end_other_sessions :: "crypto \<Rightarrow> string option \<Rightarrow> string \<Rightarrow> time \<Rightarrow> db \<Rightarrow> (nat \<times> db) result" where
  "end_other_sessions X session actor now d =
     bind_result (require_owner d) (\<lambda>w.
     (case given session of
        None \<Rightarrow> Err (ServiceError 400)
      | Some t \<Rightarrow>
          (let p = (\<lambda>s. se_owner_id s = o_id w \<and> se_token_hash s \<noteq> x_hash X t); n = changes p (t_sessions d)
           in bind_result (log_auth actor ''auth.sessions.revoke_others'' ''session'' None ''sessions.revoked_others'' ''session'' None
                [(''revoked'', JNum (int n))] now (d\<lparr>t_sessions := delete_where p (t_sessions d)\<rparr>)) (\<lambda>d1. Ok (n, d1)))))"

definition revoke_session :: "crypto \<Rightarrow> string \<Rightarrow> string option \<Rightarrow> string \<Rightarrow> time \<Rightarrow> db \<Rightarrow> db result" where
  "revoke_session X i session actor now d =
     bind_result (require_owner d) (\<lambda>w.
     (case given session of
        None \<Rightarrow> Err (ServiceError 400)
      | Some t \<Rightarrow>
          (case select_one (\<lambda>s. se_id s = i \<and> se_owner_id s = o_id w) (t_sessions d) of
             None \<Rightarrow> Err (ServiceError 404)
           | Some s \<Rightarrow>
               if se_token_hash s = x_hash X t then Err (ServiceError 409)
               else log_auth actor ''auth.session.revoke'' ''session'' (Some i) ''session.revoked'' ''session'' None [] now
                 (d\<lparr>t_sessions := delete_where (\<lambda>s. se_id s = i \<and> se_owner_id s = o_id w) (t_sessions d)\<rparr>))))"

section \<open>API tokens\<close>

definition read_scopes :: "string list" where
  "read_scopes = [''status:read'', ''traffic:read'', ''connections:read'', ''routes:read'',
     ''operations:read'', ''system:read'', ''settings:read'', ''engines:read'', ''diagnostics:read'']"

definition manage_scopes :: "string list" where
  "manage_scopes = read_scopes @ [''connections:write'', ''connections:secret'', ''connections:rotate'',
     ''routes:write'', ''operations:write'', ''settings:write'', ''engines:write'', ''diagnostics:run'']"

definition allowed_scopes :: "string list" where
  "allowed_scopes = manage_scopes @ [''backups:read'']"

definition create_api_token ::
  "crypto \<Rightarrow> (nat \<Rightarrow> string) \<Rightarrow> time \<Rightarrow> string \<Rightarrow> string list \<Rightarrow> string \<Rightarrow> db \<Rightarrow> (api_token \<times> db) result" where
  "create_api_token X rnd now name scopes actor d =
     (let n = trim name; unique = js_distinct scopes
      in if n = [] \<or> 80 < length n then Err (ServiceError 400)
         else if unique = [] \<or> \<not> list_all (\<lambda>s. s \<in> set allowed_scopes) unique then Err (ServiceError 400)
         else
           let t = \<lparr>at_id = rnd 1, at_name = n, at_token_hash = x_hash X (rnd 0), at_scopes = unique, at_expires_at = None,
                    at_created_at = now, at_last_used_at = None, at_revoked_at = None\<rparr>
           in if \<exists>r\<in>set (t_api_tokens d). at_id r = at_id t \<or> at_token_hash r = at_token_hash t then Err constraint_error
              else bind_result (log_auth actor ''tokens.create'' ''api_token'' (Some (at_id t)) ''token.created'' ''api_token'' (Some (at_id t))
                     [(''name'', JStr n), (''scopes'', JArr (map JStr unique))] now (d\<lparr>t_api_tokens := t_api_tokens d @ [t]\<rparr>))
                     (\<lambda>d1. Ok (t, d1)))"

definition revoke_api_token :: "string \<Rightarrow> string \<Rightarrow> time \<Rightarrow> db \<Rightarrow> db result" where
  "revoke_api_token i actor now d =
     (let p = (\<lambda>t. at_id t = i \<and> at_revoked_at t = None)
      in if changes p (t_api_tokens d) = 0 then Err (ServiceError 404)
         else log_auth actor ''tokens.revoke'' ''api_token'' (Some i) ''token.revoked'' ''api_token'' (Some i)
                [(''name'', JStr (coalesce (map_option at_name (select_one p (t_api_tokens d))) ''API''))] now
                (d\<lparr>t_api_tokens := update_where p (\<lambda>t. t\<lparr>at_revoked_at := Some now\<rparr>) (t_api_tokens d)\<rparr>))"

end
