(* ===== verification/Services.thy ===== *)
theory Services
  imports Prelude
begin

text \<open>
  The contract of a stateful service: requests and events arrive in any order, each is one step,
  and what every step keeps holds after any sequence of them.  The services of the panel
  interpret these locales on their own steps, so that no induction over a run is repeated.
\<close>

text \<open>An invariant that every step keeps.\<close>

locale invariant_service =
  fixes step :: "'s \<Rightarrow> 'c \<Rightarrow> 's"
    and inv :: "'s \<Rightarrow> bool"
  assumes step_inv: "inv s \<Longrightarrow> inv (step s c)"
begin

lemma run_inv: "inv s \<Longrightarrow> inv (foldl step s cs)"
  by (induction cs arbitrary: s) (simp_all add: step_inv)

end

text \<open>A fact about a state that, once it holds, no step undoes.\<close>

locale settling_service = invariant_service +
  fixes settled :: "'s \<Rightarrow> bool"
  assumes step_settled: "inv s \<Longrightarrow> settled s \<Longrightarrow> settled (step s c)"
begin

lemma run_settled: "inv s \<Longrightarrow> settled s \<Longrightarrow> settled (foldl step s cs)"
  by (induction cs arbitrary: s) (simp_all add: step_inv step_settled)

end

text \<open>A state that only grows.\<close>

locale growing_service =
  fixes step :: "'s \<Rightarrow> 'c \<Rightarrow> 's"
    and le :: "'s \<Rightarrow> 's \<Rightarrow> bool"
  assumes le_refl: "le s s"
    and le_trans: "le s t \<Longrightarrow> le t u \<Longrightarrow> le s u"
    and step_le: "le s (step s c)"
begin

lemma run_le: "le s (foldl step s cs)"
proof (induction cs arbitrary: s)
  case (Cons c cs)
  from step_le Cons.IH [of "step s c"] show ?case by (auto intro: le_trans)
qed (simp add: le_refl)

end

end
