(* ===== verification/Auth_Safety.thy ===== *)
theory Auth_Safety
  imports Auth Connection_Safety Services
begin

text \<open>
  The owner's access over any sequence of requests: operations interleave freely with the
  verifications of registrations and logins that are under way.
\<close>

section \<open>Requests and verifications under way\<close>

datatype auth_call =
    GetRegistration json "string option" "string option" string
  | BeginRegistration string
  | EndRegistration nat "registration_info option" "string option"
  | GetLogin string
  | BeginLogin string string
  | EndLogin nat "nat option" "string option"
  | IssueClaim
  | ResetBootstrap
  | UpdateOwner json
  | CreateInvitation json
  | RevokeInvitation string
  | RevokePasskey string
  | EndOtherSessions "string option"
  | RevokeSession string "string option"
  | CreateApiToken string "string list"
  | RevokeApiToken string
  | Authenticate "string option" "string option"
  | Logout "string option"

text \<open>
  The verifications under way, the authorities completed registrations used, and the number
  of recovery grants issued.
\<close>

record auth_world =
  aw_db :: db
  aw_registrations :: "(string \<times> registration_context) list"
  aw_logins :: "(string \<times> passkey) list"
  aw_used :: "(authority \<times> string option) list"
  aw_recoveries :: nat

definition empty_world :: auth_world where
  "empty_world = \<lparr>aw_db = empty_db, aw_registrations = [], aw_logins = [], aw_used = [], aw_recoveries = 0\<rparr>"

definition keep_db :: "auth_world \<Rightarrow> db result \<Rightarrow> auth_world" where
  "keep_db w r = (case r of Inl _ \<Rightarrow> w | Inr d \<Rightarrow> w\<lparr>aw_db := d\<rparr>)"

definition auth_step :: "panel \<Rightarrow> crypto \<Rightarrow> time \<Rightarrow> (nat \<Rightarrow> string) \<Rightarrow> auth_call \<Rightarrow> auth_world \<Rightarrow> auth_world" where
  "auth_step pn X now rnd a w =
     (let d = aw_db w
      in case a of
           GetRegistration input owner session text \<Rightarrow>
             w\<lparr>aw_db := snd (registration_options pn X rnd text now input owner session d)\<rparr>
         | BeginRegistration i \<Rightarrow>
             (case begin_registration i now d of
                (Inl _, d') \<Rightarrow> w\<lparr>aw_db := d'\<rparr>
              | (Inr (_, c), d') \<Rightarrow> w\<lparr>aw_db := d', aw_registrations := aw_registrations w @ [(i, c)]\<rparr>)
         | EndRegistration k answer ua \<Rightarrow>
             (if length (aw_registrations w) \<le> k then w
              else case aw_registrations w ! k of (i, c) \<Rightarrow>
                (case complete_registration pn X rnd now i c answer ua d of
                   Inl _ \<Rightarrow> w
                 | Inr (_, d') \<Rightarrow> w\<lparr>aw_db := d', aw_used := (rc_authority c, rc_invitation_id c) # aw_used w\<rparr>))
         | GetLogin text \<Rightarrow> w\<lparr>aw_db := snd (authentication_options (rnd 0) text now d)\<rparr>
         | BeginLogin i credential \<Rightarrow>
             (case begin_authentication i credential now d of
                (Inl _, d') \<Rightarrow> w\<lparr>aw_db := d'\<rparr>
              | (Inr (_, p), d') \<Rightarrow> w\<lparr>aw_db := d', aw_logins := aw_logins w @ [(i, p)]\<rparr>)
         | EndLogin k answer ua \<Rightarrow>
             (if length (aw_logins w) \<le> k then w
              else case aw_logins w ! k of (i, p) \<Rightarrow>
                keep_db w (bind_result (complete_authentication pn X rnd now i p answer ua d) (\<lambda>(_, d'). Ok d')))
         | IssueClaim \<Rightarrow> keep_db w (issue_claim X (rnd 0) now d)
         | ResetBootstrap \<Rightarrow>
             (case reset_bootstrap X (rnd 0) now d of
                Inl _ \<Rightarrow> w
              | Inr (k, d') \<Rightarrow> w\<lparr>aw_db := d', aw_recoveries := (if k = RecoveryGrant then 1 else 0) + aw_recoveries w\<rparr>)
         | UpdateOwner input \<Rightarrow> keep_db w (update_owner now input ''owner'' d)
         | CreateInvitation name \<Rightarrow> keep_db w (bind_result (create_invitation X rnd now name ''owner'' d) (\<lambda>(_, d'). Ok d'))
         | RevokeInvitation i \<Rightarrow> keep_db w (revoke_invitation i ''owner'' now d)
         | RevokePasskey i \<Rightarrow> keep_db w (revoke_passkey i ''owner'' now d)
         | EndOtherSessions s \<Rightarrow> keep_db w (bind_result (end_other_sessions X s ''owner'' now d) (\<lambda>(_, d'). Ok d'))
         | RevokeSession i s \<Rightarrow> keep_db w (revoke_session X i s ''owner'' now d)
         | CreateApiToken n scopes \<Rightarrow> keep_db w (bind_result (create_api_token X rnd now n scopes ''owner'' d) (\<lambda>(_, d'). Ok d'))
         | RevokeApiToken i \<Rightarrow> keep_db w (revoke_api_token i ''owner'' now d)
         | Authenticate s b \<Rightarrow> w\<lparr>aw_db := snd (authenticate X s b now d)\<rparr>
         | Logout s \<Rightarrow> w\<lparr>aw_db := logout X s d\<rparr>)"

definition run_auth :: "panel \<Rightarrow> crypto \<Rightarrow> (time \<times> (nat \<Rightarrow> string) \<times> auth_call) list \<Rightarrow> auth_world \<Rightarrow> auth_world" where
  "run_auth pn X as w = foldl (\<lambda>w (now, rnd, a). auth_step pn X now rnd a w) w as"

section \<open>The invariant\<close>

definition owners_ok :: "db \<Rightarrow> bool" where
  "owners_ok d \<longleftrightarrow>
     length (t_owners d) \<le> 1 \<and>
     (t_owners d \<noteq> [] \<longrightarrow> t_passkeys d \<noteq> [] \<and> s_claim d = None) \<and>
     (\<forall>p\<in>set (t_passkeys d). pk_owner_id p \<in> o_id ` set (t_owners d)) \<and>
     distinct (map pk_id (t_passkeys d)) \<and>
     (\<forall>s\<in>set (t_sessions d). se_owner_id s \<in> o_id ` set (t_owners d) \<and>
        (\<forall>p. se_passkey_id s = Some p \<longrightarrow> p \<in> pk_id ` set (t_passkeys d))) \<and>
     distinct (map iv_id (t_invitations d))"

definition uses_ok :: "(authority \<times> string option) list \<Rightarrow> nat \<Rightarrow> db \<Rightarrow> bool" where
  "uses_ok u n d \<longleftrightarrow>
     length (filter (\<lambda>(a, _). a = AClaim) u) \<le> length (t_owners d) \<and>
     (\<forall>i. length (filter (\<lambda>x. x = (AInvite, Some i)) u) \<le>
          (if \<exists>v\<in>set (t_invitations d). iv_id v = i \<and> iv_consumed_at v \<noteq> None then 1 else 0)) \<and>
     length (filter (\<lambda>(a, _). a = ARecovery) u) + (if s_recovery d = None then 0 else 1) \<le> n"

definition auth_inv :: "auth_world \<Rightarrow> bool" where
  "auth_inv w \<longleftrightarrow> owners_ok (aw_db w) \<and> uses_ok (aw_used w) (aw_recoveries w) (aw_db w)"

lemma auth_same:
  assumes "t_owners d' = t_owners d" "t_passkeys d' = t_passkeys d" "t_sessions d' = t_sessions d"
    "t_invitations d' = t_invitations d" "s_claim d' = s_claim d" "s_recovery d' = s_recovery d"
  shows "owners_ok d' = owners_ok d" "uses_ok u n d' = uses_ok u n d"
  using assms by (simp_all add: owners_ok_def uses_ok_def)

lemma log_auth_tables:
  assumes "log_auth actor action res i ty sub sid x now d = Ok d'"
  shows "t_owners d' = t_owners d" "t_passkeys d' = t_passkeys d" "t_sessions d' = t_sessions d"
    "t_invitations d' = t_invitations d" "s_claim d' = s_claim d" "s_recovery d' = s_recovery d"
    "t_api_tokens d' = t_api_tokens d" "t_challenges d' = t_challenges d"
  using assms by (auto simp: log_auth_def audit_def record_event_def event_def Let_def split: option.splits prod.splits)

lemma audit_only_tables [simp]:
  "t_owners (audit_only a b c i now d) = t_owners d" "t_passkeys (audit_only a b c i now d) = t_passkeys d"
  "t_sessions (audit_only a b c i now d) = t_sessions d" "t_invitations (audit_only a b c i now d) = t_invitations d"
  "s_claim (audit_only a b c i now d) = s_claim d" "s_recovery (audit_only a b c i now d) = s_recovery d"
  "t_api_tokens (audit_only a b c i now d) = t_api_tokens d"
  by (simp_all add: audit_only_def audit_def Let_def)

definition same_access :: "db \<Rightarrow> db \<Rightarrow> bool" where
  "same_access d d' \<longleftrightarrow> t_owners d' = t_owners d \<and> t_passkeys d' = t_passkeys d \<and> t_sessions d' = t_sessions d \<and>
     t_invitations d' = t_invitations d \<and> s_claim d' = s_claim d \<and> s_recovery d' = s_recovery d \<and> t_api_tokens d' = t_api_tokens d"

lemma same_access_ok: "same_access d d' \<Longrightarrow> owners_ok d' = owners_ok d" "same_access d d' \<Longrightarrow> uses_ok u n d' = uses_ok u n d"
  unfolding same_access_def by (rule auth_same; simp)+

lemma log_auth_same: "log_auth actor action res i ty sub sid x now d = Ok d' \<Longrightarrow> same_access d d'"
  using log_auth_tables by (simp add: same_access_def)

lemma challenge_same:
  "same_access d (snd (store_challenge kind text ctx i now d))" "same_access d (snd (challenge_of i kind now d))"
  by (auto simp: same_access_def store_challenge_def challenge_of_def prune_challenges_def Let_def split: option.split)

lemma options_same:
  "same_access d (snd (registration_options pn X rnd text now input owner session d))"
  "same_access d (snd (authentication_options i text now d))"
  "same_access d (snd (begin_registration i now d))"
  "same_access d (snd (begin_authentication i credential now d))"
proof -
  have refl: "same_access d d" by (simp add: same_access_def)
  have store: "same_access d d1" if "store_challenge kind t ctx i now d = (r, d1)" for kind t ctx i r d1
    using challenge_same(1) [of d kind t ctx i now] that by simp
  have chal: "same_access d d1" if "challenge_of i kind now d = (r, d1)" for i kind r d1
    using challenge_same(2) [of d i kind now] that by simp
  have opts: "same_access d (snd (case ctx of Inl x \<Rightarrow> (Err x, d)
      | Inr c \<Rightarrow> (case store_challenge k t (f c) j now d of (Inl x, d1) \<Rightarrow> (Err x, d1) | (Inr i, d1) \<Rightarrow> (Ok (i, keys), d1))))"
    for ctx :: "registration_context result" and k t f j and keys :: "string list"
    using refl by (auto split: sum.split prod.split dest: store)
  show "same_access d (snd (registration_options pn X rnd text now input owner session d))"
    unfolding registration_options_def Let_def by (rule opts)
  show "same_access d (snd (authentication_options i text now d))"
    unfolding authentication_options_def using refl by (auto split: sum.split prod.split option.split dest: store)
  show "same_access d (snd (begin_registration i now d))"
    unfolding begin_registration_def by (auto split: sum.split prod.split challenge_context.split dest: chal)
  show "same_access d (snd (begin_authentication i credential now d))"
    unfolding begin_authentication_def by (auto split: sum.split prod.split option.split dest: chal)
qed

section \<open>Every operation keeps it\<close>

lemma find_owner_cases: "find_owner d = None \<longleftrightarrow> t_owners d = []" "find_owner d = Some w \<Longrightarrow> w \<in> set (t_owners d)"
  by (auto simp: find_owner_def split: list.splits)

lemma require_owner_Ok [simp]: "require_owner d = Ok w \<longleftrightarrow> find_owner d = Some w"
  by (auto simp: require_owner_def split: option.splits)

lemma bind_resultE: "bind_result r f = Ok y \<Longrightarrow> (\<And>x. r = Ok x \<Longrightarrow> f x = Ok y \<Longrightarrow> thesis) \<Longrightarrow> thesis"
  by auto

text \<open>Removing sessions, or touching them without their owner and passkey.\<close>

lemma sessions_removed:
  assumes "owners_ok d"
  shows "owners_ok (d\<lparr>t_sessions := delete_where p (t_sessions d)\<rparr>)"
  using assms by (auto simp: owners_ok_def set_delete_where)

lemma sessions_touched:
  assumes "owners_ok d" "\<And>s. se_owner_id (f s) = se_owner_id s \<and> se_passkey_id (f s) = se_passkey_id s"
  shows "owners_ok (d\<lparr>t_sessions := update_where p f (t_sessions d)\<rparr>)"
  using assms by (fastforce simp: owners_ok_def set_update_where)

lemma uses_frame:
  assumes "uses_ok u n d" "length (t_owners d) \<le> length (t_owners d')" "t_invitations d' = t_invitations d"
    "s_recovery d' = s_recovery d"
  shows "uses_ok u n d'"
  using assms by (auto simp: uses_ok_def)

lemma create_session_Ok:
  assumes "create_session pn X rnd now owner ua pk d = Ok (s, d')"
  shows "\<exists>r. d' = d\<lparr>t_sessions := t_sessions d @ [r]\<rparr> \<and> se_owner_id r = owner \<and> se_passkey_id r = pk \<and>
    owner \<in> o_id ` set (t_owners d)"
  using assms by (auto simp: create_session_def Let_def split: if_splits)

lemma session_added:
  assumes "owners_ok d" "se_owner_id r \<in> o_id ` set (t_owners d)"
    "\<And>p. se_passkey_id r = Some p \<Longrightarrow> p \<in> pk_id ` set (t_passkeys d)"
  shows "owners_ok (d\<lparr>t_sessions := t_sessions d @ [r]\<rparr>)"
  using assms by (auto simp: owners_ok_def)

lemma passkey_ids:
  assumes "\<And>p. pk_id (f p) = pk_id p"
  shows "map pk_id (update_where q f ps) = map pk_id ps" "pk_id ` set (update_where q f ps) = pk_id ` set ps"
proof -
  show "map pk_id (update_where q f ps) = map pk_id ps" using assms by (auto simp: update_where_def)
  then show "pk_id ` set (update_where q f ps) = pk_id ` set ps" by (metis set_map)
qed

lemma passkeys_touched:
  assumes "owners_ok d" "\<And>p. pk_id (f p) = pk_id p \<and> pk_owner_id (f p) = pk_owner_id p"
  shows "owners_ok (d\<lparr>t_passkeys := update_where q f (t_passkeys d)\<rparr>)"
proof -
  have "map pk_id (update_where q f (t_passkeys d)) = map pk_id (t_passkeys d)"
    "pk_id ` set (update_where q f (t_passkeys d)) = pk_id ` set (t_passkeys d)"
    using assms(2) by (simp_all add: passkey_ids)
  moreover have "update_where q f (t_passkeys d) = [] \<longleftrightarrow> t_passkeys d = []" by (simp add: update_where_def)
  moreover have "\<forall>p\<in>set (update_where q f (t_passkeys d)). \<exists>r\<in>set (t_passkeys d). pk_owner_id p = pk_owner_id r"
    using assms(2) by (auto simp: set_update_where)
  ultimately show ?thesis using assms(1) by (auto simp: owners_ok_def)
qed

lemma challenge_removed_ok: "owners_ok (consume_challenge i d) = owners_ok d" "uses_ok u n (consume_challenge i d) = uses_ok u n d"
  by (rule auth_same; simp add: consume_challenge_def)+

lemma end_login_ok:
  assumes inv: "owners_ok d" and ok: "complete_authentication pn X rnd now i p answer ua d = Ok (s, d')"
  shows "owners_ok d'" "uses_ok u n d' = uses_ok u n d"
proof -
  let ?f = "\<lambda>r m. r\<lparr>pk_counter := m, pk_last_used_at := Some now\<rparr>"
  obtain m d2 where some: "changes (\<lambda>r. pk_id r = pk_id p) (t_passkeys d) \<noteq> 0"
    and d2: "create_session pn X rnd now (pk_owner_id p) ua (Some (pk_id p)) (consume_challenge i
        (d\<lparr>t_passkeys := update_where (\<lambda>r. pk_id r = pk_id p) (\<lambda>r. ?f r m) (t_passkeys d)\<rparr>)) = Ok (s, d2)"
    and log: "log_auth (pk_owner_id p) ''auth.login'' ''session'' (Some (fst s)) ''auth.login_succeeded'' ''session'' None
        (parse_user_agent pn ua) now d2 = Ok d'"
    using ok by (auto simp: complete_authentication_def Let_def split: option.splits if_splits)
  let ?d1 = "d\<lparr>t_passkeys := update_where (\<lambda>r. pk_id r = pk_id p) (\<lambda>r. ?f r m) (t_passkeys d)\<rparr>"
  have d1: "owners_ok ?d1" using inv by (rule passkeys_touched) simp
  obtain r where r: "d2 = (consume_challenge i ?d1)\<lparr>t_sessions := t_sessions (consume_challenge i ?d1) @ [r]\<rparr>"
    "se_owner_id r = pk_owner_id p" "se_passkey_id r = Some (pk_id p)" "pk_owner_id p \<in> o_id ` set (t_owners (consume_challenge i ?d1))"
    using create_session_Ok [OF d2] by blast
  have "pk_id p \<in> pk_id ` set (t_passkeys ?d1)"
    using some by (auto simp: passkey_ids(2)) (metis image_eqI)
  then have "pk_id p \<in> pk_id ` set (t_passkeys (consume_challenge i ?d1))" by (simp add: consume_challenge_def)
  moreover have "owners_ok (consume_challenge i ?d1)" using d1 by (simp only: challenge_removed_ok)
  ultimately have "owners_ok d2" unfolding r(1) using r(2-4) by (intro session_added) simp_all
  with log_auth_same [OF log] show "owners_ok d'" by (simp add: same_access_ok)
  have "uses_ok u n d2 = uses_ok u n d" by (simp add: r(1) uses_ok_def consume_challenge_def)
  with log_auth_same [OF log] show "uses_ok u n d' = uses_ok u n d" by (simp add: same_access_ok)
qed

lemma owners_same:
  assumes "t_owners d' = t_owners d" "t_passkeys d' = t_passkeys d" "t_sessions d' = t_sessions d"
    "map iv_id (t_invitations d') = map iv_id (t_invitations d)" "t_owners d \<noteq> [] \<longrightarrow> s_claim d' = s_claim d"
  shows "owners_ok d' = owners_ok d"
  using assms by (auto simp: owners_ok_def)

lemma verify_authority_Ok:
  assumes "verify_authority c now d = Ok v"
  shows "rc_authority c = AClaim \<Longrightarrow> t_owners d = [] \<and> v = None"
    "rc_authority c \<noteq> AClaim \<Longrightarrow> \<exists>w. find_owner d = Some w \<and> o_id w = rc_owner_id c"
    "rc_authority c = ARecovery \<Longrightarrow> s_recovery d \<noteq> None \<and> v = None"
    "rc_authority c = ASession \<Longrightarrow> v = None"
    "rc_authority c = AInvite \<Longrightarrow> \<exists>w. v = Some w \<and> w \<in> set (t_invitations d) \<and> rc_invitation_id c = Some (iv_id w) \<and> open_invitation w"
proof -
  show "rc_authority c = AClaim \<Longrightarrow> t_owners d = [] \<and> v = None"
    using assms by (auto simp: verify_authority_def find_owner_cases split: if_splits)
  show "rc_authority c \<noteq> AClaim \<Longrightarrow> \<exists>w. find_owner d = Some w \<and> o_id w = rc_owner_id c"
    using assms by (cases "rc_authority c") (auto simp: verify_authority_def split: option.splits if_splits)
  show "rc_authority c = ARecovery \<Longrightarrow> s_recovery d \<noteq> None \<and> v = None"
    using assms by (auto simp: verify_authority_def verify_grant_hash_def grant_of_def split: option.splits if_splits)
  show "rc_authority c = ASession \<Longrightarrow> v = None"
    using assms by (auto simp: verify_authority_def split: option.splits if_splits)
  assume "rc_authority c = AInvite"
  with assms obtain w where v: "v = Some w" and w: "verify_invitation_hash (rc_invitation_id c) (rc_token_hash c) now d = Ok w"
    by (auto simp: verify_authority_def split: option.splits if_splits)
  from w obtain i h where "rc_invitation_id c = Some i"
    and "select_one (\<lambda>v. iv_id v = i \<and> iv_token_hash v = h \<and> open_invitation v) (t_invitations d) = Some w"
    by (auto simp: verify_invitation_hash_def given_def split: option.splits if_splits)
  with select_one_Some [OF this(2)] v
  show "\<exists>w. v = Some w \<and> w \<in> set (t_invitations d) \<and> rc_invitation_id c = Some (iv_id w) \<and> open_invitation w" by auto
qed

lemma claim_owner_Ok:
  assumes "claim_owner c now d = Ok d'"
  shows "\<exists>ws. d' = d\<lparr>t_owners := t_owners d @ ws\<rparr> \<and> length ws = (if rc_authority c = AClaim then 1 else 0)"
proof (cases "rc_authority c = AClaim")
  case True
  with assms show ?thesis
    by (intro exI [of _ "[\<lparr>o_id = rc_owner_id c, o_timezone = rc_timezone c, o_language = rc_language c,
                                             o_created_at = now, o_updated_at = now\<rparr>]"])
      (simp add: claim_owner_def split: if_splits)
next
  case False
  with assms show ?thesis by (intro exI [of _ "[]"]) (simp add: claim_owner_def)
qed

lemma consume_invitation:
  "map iv_id (update_where (\<lambda>r. iv_id r = i) (\<lambda>r. r\<lparr>iv_consumed_at := Some now\<rparr>) vs) = map iv_id vs"
  "(\<exists>v\<in>set (update_where (\<lambda>r. iv_id r = i) (\<lambda>r. r\<lparr>iv_consumed_at := Some now\<rparr>) vs). iv_id v = j \<and> iv_consumed_at v \<noteq> None) \<longleftrightarrow>
     (\<exists>v\<in>set vs. iv_id v = j \<and> (j = i \<or> iv_consumed_at v \<noteq> None))"
  by (induction vs) auto

lemma end_registration_cases:
  assumes ok: "complete_registration pn X rnd now i c answer ua d = Ok (s, d')"
  obtains v ws pk r d4 where "verify_authority c now d = Ok v"
    and "length ws = (if rc_authority c = AClaim then 1 else 0)"
    and "pk_owner_id pk = rc_owner_id c" "pk_id pk \<notin> pk_id ` set (t_passkeys d)"
    and "se_owner_id r = rc_owner_id c" "se_passkey_id r = Some (pk_id pk)" "rc_owner_id c \<in> o_id ` set (t_owners d @ ws)"
    and "t_owners d4 = t_owners d @ ws" "t_passkeys d4 = t_passkeys d @ [pk]" "t_sessions d4 = t_sessions d @ [r]"
    and "t_invitations d4 = (case v of None \<Rightarrow> t_invitations d
           | Some v \<Rightarrow> update_where (\<lambda>r. iv_id r = iv_id v) (\<lambda>r. r\<lparr>iv_consumed_at := Some now\<rparr>) (t_invitations d))"
    and "s_claim d4 = (if rc_authority c = AClaim then None else s_claim d)"
    and "s_recovery d4 = (if rc_authority c = ARecovery then None else s_recovery d)"
    and "same_access d4 d'"
proof -
  from ok obtain ri v d1 d4 where v: "verify_authority c now d = Ok v" and d1: "claim_owner c now d = Ok d1"
    and keys: "ri_id ri \<notin> pk_id ` set (t_passkeys d1)" "rc_owner_id c \<in> o_id ` set (t_owners d1)"
    and d4: "create_session pn X rnd now (rc_owner_id c) ua (Some (ri_id ri))
        (use_authority c v now (consume_challenge i (d1\<lparr>t_passkeys := t_passkeys d1 @ [new_passkey ri (rc_owner_id c) now v]\<rparr>))) = Ok (s, d4)"
    and log: "log_auth (rc_owner_id c) ''auth.passkey.register'' ''passkey'' (Some (ri_id ri)) ''passkey.registered'' ''passkey''
                 None (parse_user_agent pn ua) now d4 = Ok d'"
    by (auto simp: complete_registration_def Let_def split: option.splits if_splits)
  let ?d3 = "use_authority c v now (consume_challenge i (d1\<lparr>t_passkeys := t_passkeys d1 @ [new_passkey ri (rc_owner_id c) now v]\<rparr>))"
  obtain ws where ws: "d1 = d\<lparr>t_owners := t_owners d @ ws\<rparr>" "length ws = (if rc_authority c = AClaim then 1 else 0)"
    using claim_owner_Ok [OF d1] by blast
  obtain r where r: "d4 = ?d3\<lparr>t_sessions := t_sessions ?d3 @ [r]\<rparr>" "se_owner_id r = rc_owner_id c" "se_passkey_id r = Some (ri_id ri)"
    using create_session_Ok [OF d4] by blast
  have d3: "t_owners ?d3 = t_owners d @ ws" "t_passkeys ?d3 = t_passkeys d @ [new_passkey ri (rc_owner_id c) now v]"
    "t_sessions ?d3 = t_sessions d"
    "t_invitations ?d3 = (case v of None \<Rightarrow> t_invitations d
           | Some v \<Rightarrow> update_where (\<lambda>r. iv_id r = iv_id v) (\<lambda>r. r\<lparr>iv_consumed_at := Some now\<rparr>) (t_invitations d))"
    "s_claim ?d3 = (if rc_authority c = AClaim then None else s_claim d)"
    "s_recovery ?d3 = (if rc_authority c = ARecovery then None else s_recovery d)"
    by (auto simp: ws(1) use_authority_def consume_challenge_def set_grant_def Let_def split: option.split)
  show ?thesis
  proof (rule that [of v ws "new_passkey ri (rc_owner_id c) now v" r d4])
    show "verify_authority c now d = Ok v" by (rule v)
    show "length ws = (if rc_authority c = AClaim then 1 else 0)" by (rule ws(2))
    show "same_access d4 d'" using log by (rule log_auth_same)
  qed (use keys ws(1) d3 r in \<open>simp_all add: new_passkey_def\<close>)
qed

lemma end_registration_ok:
  assumes inv: "owners_ok d" "uses_ok u n d"
    and ok: "complete_registration pn X rnd now i c answer ua d = Ok (s, d')"
  shows "owners_ok d'" "uses_ok ((rc_authority c, rc_invitation_id c) # u) n d'"
proof -
  from ok obtain v ws pk r d4 where v: "verify_authority c now d = Ok v"
    and ws: "length ws = (if rc_authority c = AClaim then 1 else 0)"
    and pk: "pk_owner_id pk = rc_owner_id c" "pk_id pk \<notin> pk_id ` set (t_passkeys d)"
    and r: "se_owner_id r = rc_owner_id c" "se_passkey_id r = Some (pk_id pk)" "rc_owner_id c \<in> o_id ` set (t_owners d @ ws)"
    and d4: "t_owners d4 = t_owners d @ ws" "t_passkeys d4 = t_passkeys d @ [pk]" "t_sessions d4 = t_sessions d @ [r]"
      "t_invitations d4 = (case v of None \<Rightarrow> t_invitations d
           | Some v \<Rightarrow> update_where (\<lambda>r. iv_id r = iv_id v) (\<lambda>r. r\<lparr>iv_consumed_at := Some now\<rparr>) (t_invitations d))"
      "s_claim d4 = (if rc_authority c = AClaim then None else s_claim d)"
      "s_recovery d4 = (if rc_authority c = ARecovery then None else s_recovery d)"
    and same: "same_access d4 d'"
    by (rule end_registration_cases)
  note who = verify_authority_Ok [OF v]
  have ids: "map iv_id (t_invitations d4) = map iv_id (t_invitations d)"
    by (simp add: d4(4) consume_invitation split: option.split)
  have "length (t_owners d @ ws) \<le> 1" using inv(1) ws who(1) by (auto simp: owners_ok_def)
  moreover have "s_claim d4 = None"
    using inv(1) who(2) by (auto simp: d4(5) owners_ok_def find_owner_def split: list.splits)
  ultimately have "owners_ok d4" using inv(1) pk r by (auto simp: owners_ok_def d4(1-3) ids)
  with same show "owners_ok d'" by (simp add: same_access_ok)
  have "uses_ok ((rc_authority c, rc_invitation_id c) # u) n d4"
  proof (cases "rc_authority c")
    case AClaim
    with inv(2) ws who(1) show ?thesis by (simp add: uses_ok_def d4)
  next
    case ARecovery
    with inv(2) ws who(3) show ?thesis by (auto simp: uses_ok_def d4)
  next
    case ASession
    with inv(2) ws who(4) show ?thesis by (simp add: uses_ok_def d4)
  next
    case AInvite
    then obtain w where w: "v = Some w" "w \<in> set (t_invitations d)" "rc_invitation_id c = Some (iv_id w)" "open_invitation w"
      using who(5) by blast
    have "x = w" if "x \<in> set (t_invitations d)" "iv_id x = iv_id w" for x
      using inv(1) that w(2) by (auto simp: owners_ok_def distinct_map inj_on_def)
    then have "\<not> (\<exists>x\<in>set (t_invitations d). iv_id x = iv_id w \<and> iv_consumed_at x \<noteq> None)"
      using w(4) by (auto simp: open_invitation_def)
    moreover from inv(2) have "length (filter (\<lambda>x. x = (AInvite, Some (iv_id w))) u) \<le>
        (if \<exists>x\<in>set (t_invitations d). iv_id x = iv_id w \<and> iv_consumed_at x \<noteq> None then 1 else 0)"
      unfolding uses_ok_def by (elim conjE allE)
    ultimately have none: "length (filter (\<lambda>x. x = (AInvite, Some (iv_id w))) u) = 0"
      by (simp only: if_False le_zero_eq)
    have "length (filter (\<lambda>x. x = (AInvite, Some j)) ((AInvite, Some (iv_id w)) # u)) \<le>
        (if \<exists>x\<in>set (t_invitations d). iv_id x = j \<and> (j = iv_id w \<or> iv_consumed_at x \<noteq> None) then 1 else 0)" for j
    proof (cases "j = iv_id w")
      case True
      with none w(2) show ?thesis by auto
    next
      case False
      with inv(2) show ?thesis by (simp add: uses_ok_def)
    qed
    then have "length (filter (\<lambda>x. x = (AInvite, Some j)) ((AInvite, Some (iv_id w)) # u)) \<le>
        (if \<exists>x\<in>set (t_invitations d4). iv_id x = j \<and> iv_consumed_at x \<noteq> None then 1 else 0)" for j
      by (simp only: d4(4) w(1) option.case consume_invitation(2))
    moreover have "length (filter (\<lambda>(a, _). a = AClaim) ((AInvite, Some (iv_id w)) # u)) \<le> length (t_owners d4)"
      "length (filter (\<lambda>(a, _). a = ARecovery) ((AInvite, Some (iv_id w)) # u)) + (if s_recovery d4 = None then 0 else 1) \<le> n"
      using inv(2) AInvite by (simp_all add: uses_ok_def d4(1,6))
    ultimately show ?thesis unfolding AInvite w(3) uses_ok_def by blast
  qed
  with same show "uses_ok ((rc_authority c, rc_invitation_id c) # u) n d'" by (simp add: same_access_ok)
qed

definition access_ok :: "(authority \<times> string option) list \<Rightarrow> nat \<Rightarrow> db \<Rightarrow> bool" where
  "access_ok u n d \<longleftrightarrow> owners_ok d \<and> uses_ok u n d"

lemma access_same: "same_access d d' \<Longrightarrow> access_ok u n d' = access_ok u n d"
  by (simp add: access_ok_def same_access_ok)

lemma access_logged: "access_ok u n d \<Longrightarrow> log_auth actor action res i ty sub sid x now d = Ok d' \<Longrightarrow> access_ok u n d'"
  using access_same [OF log_auth_same] by simp

lemma access_audited: "access_ok u n d \<Longrightarrow> access_ok u n (audit_only a b c i now d)"
  using access_same [of d "audit_only a b c i now d" u n] by (simp add: same_access_def)

lemma access_sessions_removed: "access_ok u n d \<Longrightarrow> access_ok u n (d\<lparr>t_sessions := delete_where p (t_sessions d)\<rparr>)"
  unfolding access_ok_def by (auto intro: sessions_removed uses_frame)

lemma access_sessions_touched:
  "access_ok u n d \<Longrightarrow> (\<And>s. se_owner_id (f s) = se_owner_id s \<and> se_passkey_id (f s) = se_passkey_id s) \<Longrightarrow>
   access_ok u n (d\<lparr>t_sessions := update_where p f (t_sessions d)\<rparr>)"
  unfolding access_ok_def by (auto intro: sessions_touched uses_frame)

lemma access_tokens: "access_ok u n (d\<lparr>t_api_tokens := ts\<rparr>) = access_ok u n d"
proof -
  have "owners_ok (d\<lparr>t_api_tokens := ts\<rparr>) = owners_ok d" "uses_ok u n (d\<lparr>t_api_tokens := ts\<rparr>) = uses_ok u n d"
    by (rule auth_same; simp)+
  then show ?thesis by (simp add: access_ok_def)
qed

lemma access_frame:
  assumes "access_ok u n d" "t_owners d' = t_owners d" "t_passkeys d' = t_passkeys d" "t_sessions d' = t_sessions d"
    "map iv_id (t_invitations d') = map iv_id (t_invitations d)" "t_owners d \<noteq> [] \<longrightarrow> s_claim d' = s_claim d"
    "s_recovery d' = s_recovery d"
    "\<And>j. (\<exists>v\<in>set (t_invitations d'). iv_id v = j \<and> iv_consumed_at v \<noteq> None) \<longleftrightarrow>
         (\<exists>v\<in>set (t_invitations d). iv_id v = j \<and> iv_consumed_at v \<noteq> None)"
  shows "access_ok u n d'"
proof -
  have "owners_ok d' = owners_ok d" using assms(2-6) by (rule owners_same)
  moreover have "uses_ok u n d' = uses_ok u n d" unfolding uses_ok_def assms(2,7,8) ..
  ultimately show ?thesis using assms(1) by (simp add: access_ok_def)
qed

lemma issue_claim_ok:
  assumes "access_ok u n d" "issue_claim X t now d = Ok d'"
  shows "access_ok u n d'"
proof (rule access_frame [OF assms(1)])
  from assms(2) have "t_owners d = []" and d': "d' = issue_grant X ClaimGrant t now d"
    by (auto simp: issue_claim_def find_owner_cases split: if_splits)
  then show "t_owners d \<noteq> [] \<longrightarrow> s_claim d' = s_claim d" by simp
qed (use assms(2) in \<open>auto simp: issue_claim_def issue_grant_def set_grant_def split: if_splits\<close>)

lemma reset_bootstrap_ok:
  assumes "access_ok u n d" "reset_bootstrap X t now d = Ok (k, d')"
  shows "access_ok u ((if k = RecoveryGrant then 1 else 0) + n) d'"
proof (cases "find_owner d")
  case None
  with assms issue_claim_ok [OF assms(1)] show ?thesis by (auto simp: reset_bootstrap_def)
next
  case (Some w)
  let ?d1 = "d\<lparr>t_sessions := delete_where (\<lambda>s. se_owner_id s = o_id w) (t_sessions d)\<rparr>"
  from Some assms(2) have k: "k = RecoveryGrant"
    and log: "log_auth ''root-cli'' ''auth.bootstrap.reset'' ''owner'' (Some (o_id w)) ''bootstrap.reset'' ''owner''
                (Some (o_id w)) [] now (issue_grant X RecoveryGrant t now ?d1) = Ok d'"
    by (auto simp: reset_bootstrap_def Let_def)
  have "access_ok u n ?d1" using assms(1) by (rule access_sessions_removed)
  then have "access_ok u (1 + n) (issue_grant X RecoveryGrant t now ?d1)"
    by (auto simp: access_ok_def uses_ok_def owners_ok_def issue_grant_def set_grant_def split: if_splits)
  from access_logged [OF this log] show ?thesis by (simp add: k)
qed

lemma owners_touched:
  assumes "access_ok u n d" "\<And>r. o_id (f r) = o_id r"
  shows "access_ok u n (d\<lparr>t_owners := update_where q f (t_owners d)\<rparr>)"
proof -
  have "map o_id (update_where q f (t_owners d)) = map o_id (t_owners d)" using assms(2) by (simp add: update_where_def)
  then have "o_id ` set (update_where q f (t_owners d)) = o_id ` set (t_owners d)" by (metis set_map)
  moreover have "update_where q f (t_owners d) = [] \<longleftrightarrow> t_owners d = []" by (simp add: update_where_def)
  ultimately show ?thesis using assms(1) by (auto simp: access_ok_def owners_ok_def uses_ok_def)
qed

lemma update_owner_ok:
  assumes "access_ok u n d" "update_owner now input actor d = Ok d'"
  shows "access_ok u n d'"
proof -
  from assms(2) obtain w tz l where "find_owner d = Some w" "parse_owner_update input = Ok (tz, l)"
    by (auto simp: update_owner_def)
  with assms(2) show ?thesis using owners_touched [OF assms(1)] by (auto simp: update_owner_def intro: access_audited)
qed

lemma create_invitation_ok:
  assumes "access_ok u n d" "create_invitation X rnd now name actor d = Ok (v, d')"
  shows "access_ok u n d'"
proof -
  from assms(2) have fresh: "iv_id v \<notin> iv_id ` set (t_invitations d)" "iv_consumed_at v = None"
    and d': "d' = audit_only actor ''auth.invitation.create'' ''owner_invitation'' (Some (iv_id v)) now
        (d\<lparr>t_invitations := t_invitations d @ [v]\<rparr>)"
    by (auto simp: create_invitation_def Let_def split: if_splits)
  from assms(1) fresh have "access_ok u n (d\<lparr>t_invitations := t_invitations d @ [v]\<rparr>)"
    by (simp add: access_ok_def owners_ok_def uses_ok_def)
  then show ?thesis unfolding d' by (rule access_audited)
qed

lemma revoke_invitation_ok:
  assumes "access_ok u n d" "revoke_invitation i actor now d = Ok d'"
  shows "access_ok u n d'"
proof -
  let ?vs = "update_where (\<lambda>v. iv_id v = i \<and> open_invitation v) (\<lambda>v. v\<lparr>iv_revoked_at := Some now\<rparr>) (t_invitations d)"
  from assms(2) have d': "d' = audit_only actor ''auth.invitation.revoke'' ''owner_invitation'' (Some i) now (d\<lparr>t_invitations := ?vs\<rparr>)"
    by (auto simp: revoke_invitation_def Let_def split: if_splits)
  have ids: "map iv_id (update_where q (\<lambda>v. v\<lparr>iv_revoked_at := Some now\<rparr>) vs) = map iv_id vs" for q vs
    by (induction vs) auto
  have used: "(\<exists>v\<in>set (update_where q (\<lambda>v. v\<lparr>iv_revoked_at := Some now\<rparr>) vs). iv_id v = j \<and> iv_consumed_at v \<noteq> None) \<longleftrightarrow>
         (\<exists>v\<in>set vs. iv_id v = j \<and> iv_consumed_at v \<noteq> None)" for q vs j
    by (induction vs) auto
  have "access_ok u n (d\<lparr>t_invitations := ?vs\<rparr>)"
    by (rule access_frame [OF assms(1)]) (simp_all add: ids used del: not_None_eq)
  then show ?thesis unfolding d' by (rule access_audited)
qed

lemma revoke_passkey_ok:
  assumes inv: "access_ok u n d" and ok: "revoke_passkey i actor now d = Ok d'"
  shows "access_ok u n d'"
proof -
  from ok obtain w where w: "find_owner d = Some w" and many: "1 < changes (\<lambda>p. pk_owner_id p = o_id w) (t_passkeys d)"
    and log: "log_auth actor ''auth.passkey.revoke'' ''passkey'' (Some i) ''passkey.revoked'' ''passkey'' None [] now
       (d\<lparr>t_passkeys := delete_where (\<lambda>p. pk_id p = i \<and> pk_owner_id p = o_id w) (t_passkeys d),
          t_sessions := delete_where (\<lambda>s. se_owner_id s = o_id w \<and> (se_passkey_id s = Some i \<or> se_passkey_id s = None)) (t_sessions d)\<rparr>) = Ok d'"
    (is "log_auth _ _ _ _ _ _ _ _ _ ?d1 = _")
    by (auto simp: revoke_passkey_def split: if_splits)
  from inv w have own: "t_owners d = [w]" by (auto simp: access_ok_def owners_ok_def find_owner_def split: list.splits)
  have "delete_where (\<lambda>p. pk_id p = i \<and> pk_owner_id p = o_id w) (t_passkeys d) \<noteq> []"
  proof
    assume "delete_where (\<lambda>p. pk_id p = i \<and> pk_owner_id p = o_id w) (t_passkeys d) = []"
    then have all: "\<forall>p\<in>set (t_passkeys d). pk_id p = i" by (auto simp: delete_where_def filter_empty_conv)
    moreover have "distinct (map pk_id (t_passkeys d))" using inv by (simp add: access_ok_def owners_ok_def)
    ultimately have "length (t_passkeys d) \<le> 1"
      by (cases "t_passkeys d" rule: remdups_adj.cases) auto
    moreover have "changes (\<lambda>p. pk_owner_id p = o_id w) (t_passkeys d) \<le> length (t_passkeys d)" by (simp add: changes_def)
    ultimately show False using many by linarith
  qed
  moreover have "distinct (map pk_id (delete_where (\<lambda>p. pk_id p = i \<and> pk_owner_id p = o_id w) (t_passkeys d)))"
    using inv by (simp add: access_ok_def owners_ok_def distinct_map_delete_where)
  moreover have "p \<in> pk_id ` set (delete_where (\<lambda>p. pk_id p = i \<and> pk_owner_id p = o_id w) (t_passkeys d))"
    if "p \<in> pk_id ` set (t_passkeys d)" "p \<noteq> i" for p
    using that by (auto simp: set_delete_where)
  ultimately have "owners_ok ?d1" using inv own
    by (simp add: access_ok_def owners_ok_def set_delete_where) blast
  moreover have "uses_ok u n ?d1" using inv by (simp add: access_ok_def uses_ok_def)
  ultimately have "access_ok u n ?d1" by (simp add: access_ok_def)
  from access_logged [OF this log] show ?thesis .
qed

lemma authenticate_ok:
  assumes "access_ok u n d"
  shows "access_ok u n (snd (authenticate X s b now d))"
proof -
  have api: "access_ok u n (snd (authenticate_api_token X t now d))" for t
    using assms by (auto simp: authenticate_api_token_def access_tokens split: option.split)
  have ses: "access_ok u n d1 \<Longrightarrow> access_ok u n (snd (authenticate_session X t now d1))" for t d1
    by (auto simp: authenticate_session_def intro!: access_sessions_touched split: option.split)
  have api': "access_ok u n d1" if "authenticate_api_token X t now d = (p, d1)" for t p d1
    using api [of t] that by simp
  show ?thesis using assms ses api'
    by (auto simp: authenticate_def split: option.split prod.split)
qed

lemma revoke_session_Ok:
  assumes ok: "revoke_session X i s actor now d = Ok d'"
  shows "\<exists>w :: owner_row. log_auth actor ''auth.session.revoke'' ''session'' (Some i) ''session.revoked'' ''session'' None [] now
        (d\<lparr>t_sessions := delete_where (\<lambda>s. se_id s = i \<and> se_owner_id s = o_id w) (t_sessions d)\<rparr>) = Ok d'"
proof -
  from ok obtain w where w: "find_owner d = Some w" by (auto simp: revoke_session_def)
  with ok obtain t where t: "given s = Some t" by (auto simp: revoke_session_def split: option.splits)
  with ok w obtain r where r: "select_one (\<lambda>s. se_id s = i \<and> se_owner_id s = o_id w) (t_sessions d) = Some r"
    by (auto simp: revoke_session_def simp del: select_one_None split: option.splits)
  from ok show ?thesis by (intro exI [of _ w]) (simp add: revoke_session_def w t r split: if_splits)
qed

lemma security_ok:
  assumes inv: "access_ok u n d"
  shows "end_other_sessions X s actor now d = Ok (m, d') \<Longrightarrow> access_ok u n d'"
    "revoke_session X i s actor now d = Ok d' \<Longrightarrow> access_ok u n d'"
    "create_api_token X rnd now name scopes actor d = Ok (t, d') \<Longrightarrow> access_ok u n d'"
    "revoke_api_token i actor now d = Ok d' \<Longrightarrow> access_ok u n d'"
    "access_ok u n (logout X s d)"
proof -
  note removed = access_sessions_removed [OF inv]
  show "end_other_sessions X s actor now d = Ok (m, d') \<Longrightarrow> access_ok u n d'"
    by (auto simp: end_other_sessions_def Let_def split: option.splits intro: access_logged [OF removed])
  show "revoke_session X i s actor now d = Ok d' \<Longrightarrow> access_ok u n d'"
    using access_logged [OF removed] by (auto dest!: revoke_session_Ok)
  have tok: "access_ok u n (d\<lparr>t_api_tokens := ts\<rparr>)" for ts using inv by (simp add: access_tokens)
  show "create_api_token X rnd now name scopes actor d = Ok (t, d') \<Longrightarrow> access_ok u n d'"
    by (auto simp: create_api_token_def Let_def split: if_splits intro: access_logged [OF tok])
  show "revoke_api_token i actor now d = Ok d' \<Longrightarrow> access_ok u n d'"
    by (auto simp: revoke_api_token_def Let_def split: if_splits intro: access_logged [OF tok])
  show "access_ok u n (logout X s d)" using inv removed by (auto simp: logout_def split: option.split)
qed

section \<open>Any sequence of requests\<close>

lemma auth_inv_access: "auth_inv w \<longleftrightarrow> access_ok (aw_used w) (aw_recoveries w) (aw_db w)"
  by (simp add: auth_inv_def access_ok_def)

lemma keep_db_ok: "auth_inv w \<Longrightarrow> (\<And>d'. r = Ok d' \<Longrightarrow> access_ok (aw_used w) (aw_recoveries w) d') \<Longrightarrow> auth_inv (keep_db w r)"
  by (auto simp: auth_inv_access keep_db_def split: sum.split)

lemma auth_step_ok:
  assumes "auth_inv w"
  shows "auth_inv (auth_step pn X now rnd a w)"
proof -
  note inv = assms [unfolded auth_inv_access]
  note same = access_same [THEN iffD2, OF _ inv]
  have kept: "auth_inv (keep_db w r)" if "\<And>d'. r = Ok d' \<Longrightarrow> access_ok (aw_used w) (aw_recoveries w) d'" for r
    using assms that by (rule keep_db_ok)
  show ?thesis
  proof (cases a)
    case (GetRegistration input owner session t)
    then show ?thesis using same [OF options_same(1)] by (simp add: auth_step_def auth_inv_access)
  next
    case (BeginRegistration i)
    then show ?thesis using same [OF options_same(3) [of "aw_db w" i now]]
      by (auto simp: auth_step_def auth_inv_access split: prod.split sum.split)
  next
    case (EndRegistration k answer ua)
    then show ?thesis using assms end_registration_ok
      by (auto simp: auth_step_def auth_inv_def split: prod.split sum.split)
  next
    case (GetLogin t)
    then show ?thesis using same [OF options_same(2)] by (simp add: auth_step_def auth_inv_access)
  next
    case (BeginLogin i c)
    then show ?thesis using same [OF options_same(4) [of "aw_db w" i c now]]
      by (auto simp: auth_step_def auth_inv_access split: prod.split sum.split)
  next
    case (EndLogin k answer ua)
    have "access_ok (aw_used w) (aw_recoveries w) d'"
      if "complete_authentication pn X rnd now i p answer ua (aw_db w) = Ok (s, d')" for i p s d'
      using end_login_ok [OF _ that] inv by (simp add: access_ok_def)
    with EndLogin assms show ?thesis by (auto simp: auth_step_def intro!: kept split: prod.split)
  next
    case IssueClaim
    then show ?thesis using issue_claim_ok [OF inv] by (auto simp: auth_step_def intro!: kept)
  next
    case ResetBootstrap
    then show ?thesis using assms reset_bootstrap_ok [OF inv]
      by (auto simp: auth_step_def auth_inv_access split: prod.split sum.split)
  next
    case (UpdateOwner input)
    then show ?thesis using update_owner_ok [OF inv] by (auto simp: auth_step_def intro!: kept)
  next
    case (CreateInvitation name)
    then show ?thesis using create_invitation_ok [OF inv] by (auto simp: auth_step_def intro!: kept)
  next
    case (RevokeInvitation i)
    then show ?thesis using revoke_invitation_ok [OF inv] by (auto simp: auth_step_def intro!: kept)
  next
    case (RevokePasskey i)
    then show ?thesis using revoke_passkey_ok [OF inv] by (auto simp: auth_step_def intro!: kept)
  next
    case (EndOtherSessions s)
    then show ?thesis using security_ok(1) [OF inv] by (auto simp: auth_step_def intro!: kept)
  next
    case (RevokeSession i s)
    then show ?thesis using security_ok(2) [OF inv] by (auto simp: auth_step_def intro!: kept)
  next
    case (CreateApiToken n scopes)
    then show ?thesis using security_ok(3) [OF inv] by (auto simp: auth_step_def intro!: kept)
  next
    case (RevokeApiToken i)
    then show ?thesis using security_ok(4) [OF inv] by (auto simp: auth_step_def intro!: kept)
  next
    case (Authenticate s b)
    then show ?thesis using authenticate_ok [OF inv] by (simp add: auth_step_def auth_inv_access)
  next
    case (Logout s)
    then show ?thesis using security_ok(5) [OF inv] by (simp add: auth_step_def auth_inv_access)
  qed
qed

interpretation access: invariant_service "\<lambda>w (now, rnd, a). auth_step pn X now rnd a w" auth_inv for pn X
  by unfold_locales (auto simp: auth_step_ok)

lemma run_auth_ok: "auth_inv w \<Longrightarrow> auth_inv (run_auth pn X as w)"
  unfolding run_auth_def by (rule access.run_inv)

lemma empty_world_ok [simp]: "auth_inv empty_world"
  by (simp add: auth_inv_def owners_ok_def uses_ok_def empty_world_def empty_db_def)

text \<open>
  C34.  Whatever requests arrive and however the verifications interleave, the panel has one
  owner at most, an owner always keeps a passkey to log in with, every passkey belongs to the
  owner, and a session that names a passkey never outlives it.
\<close>

theorem owner_keeps_a_passkey:
  shows "let d = aw_db (run_auth pn X as empty_world) in
    length (t_owners d) \<le> 1 \<and>
    (\<forall>w\<in>set (t_owners d). \<exists>p\<in>set (t_passkeys d). pk_owner_id p = o_id w) \<and>
    (\<forall>s\<in>set (t_sessions d). \<forall>i. se_passkey_id s = Some i \<longrightarrow>
       (\<exists>p\<in>set (t_passkeys d). pk_id p = i \<and> pk_owner_id p = se_owner_id s))"
  unfolding Let_def
proof -
  let ?d = "aw_db (run_auth pn X as empty_world)"
  obtain d where d_def: "d = ?d" by blast
  have "auth_inv (run_auth pn X as empty_world)" by (rule run_auth_ok) simp
  then have inv: "owners_ok d" by (simp add: auth_inv_def d_def)
  then have one: "length (t_owners d) \<le> 1" by (simp add: owners_ok_def)
  have own: "o_id x = o_id y" if "x \<in> set (t_owners d)" "y \<in> set (t_owners d)" for x y
    using one that by (cases "t_owners d") auto
  have "\<exists>p\<in>set (t_passkeys d). pk_owner_id p = o_id w" if w: "w \<in> set (t_owners d)" for w
  proof -
    from inv w have "t_passkeys d \<noteq> []" by (auto simp: owners_ok_def)
    then have p: "hd (t_passkeys d) \<in> set (t_passkeys d)" by simp
    moreover have "pk_owner_id (hd (t_passkeys d)) \<in> o_id ` set (t_owners d)" using inv p by (simp add: owners_ok_def)
    ultimately show ?thesis using own w by (metis imageE)
  qed
  moreover have "\<exists>p\<in>set (t_passkeys d). pk_id p = i \<and> pk_owner_id p = se_owner_id s"
    if s: "s \<in> set (t_sessions d)" "se_passkey_id s = Some i" for s i
  proof -
    from inv s have "i \<in> pk_id ` set (t_passkeys d)" by (simp add: owners_ok_def)
    then obtain p where p: "p \<in> set (t_passkeys d)" "pk_id p = i" by blast
    moreover have "pk_owner_id p \<in> o_id ` set (t_owners d)" "se_owner_id s \<in> o_id ` set (t_owners d)"
      using inv p(1) s(1) by (auto simp: owners_ok_def)
    ultimately show ?thesis using own by (metis imageE)
  qed
  ultimately show "length (t_owners ?d) \<le> 1 \<and>
    (\<forall>w\<in>set (t_owners ?d). \<exists>p\<in>set (t_passkeys ?d). pk_owner_id p = o_id w) \<and>
    (\<forall>s\<in>set (t_sessions ?d). \<forall>i. se_passkey_id s = Some i \<longrightarrow>
       (\<exists>p\<in>set (t_passkeys ?d). pk_id p = i \<and> pk_owner_id p = se_owner_id s))"
    using one unfolding d_def by blast
qed

text \<open>A panel that is claimed.\<close>

definition sample_panel :: panel where
  "sample_panel = \<lparr>pn_setup = False, pn_session_hours = 720, pn_word = (\<lambda>_. ''?'')\<rparr>"

definition draws :: "char \<Rightarrow> nat \<Rightarrow> string" where
  "draws c n = [c, CHR ''0'', if n = 0 then CHR ''0'' else CHR ''1'']"

definition sample_passkey :: registration_info where
  "sample_passkey = \<lparr>ri_id = ''key'', ri_public_key = ''pub'', ri_counter = 0, ri_transports = [],
     ri_device_type = ''multiDevice'', ri_backed_up = True\<rparr>"

definition claim_calls :: "(time \<times> (nat \<Rightarrow> string) \<times> auth_call) list" where
  "claim_calls =
     [(1000, draws CHR ''a'', IssueClaim),
      (2000, draws CHR ''b'', GetRegistration (JObj [(''timezone'', JStr ''UTC''), (''claimToken'', JStr ''a00'')]) None None ''c''),
      (3000, draws CHR ''c'', BeginRegistration ''b01''),
      (4000, draws CHR ''d'', EndRegistration 0 (Some sample_passkey) None)]"

lemma owner_keeps_a_passkey_witness:
  "let d = aw_db (run_auth sample_panel sample_crypto claim_calls empty_world) in
   length (t_owners d) = 1 \<and> (\<exists>s\<in>set (t_sessions d). se_passkey_id s = Some ''key'') \<and>
   (\<exists>p\<in>set (t_passkeys d). pk_id p = ''key'')"
proof -
  let ?d = "aw_db (run_auth sample_panel sample_crypto claim_calls empty_world)"
  have "length (t_owners ?d) = 1" "\<exists>s\<in>set (t_sessions ?d). se_passkey_id s = Some ''key''" by code_simp+
  with owner_keeps_a_passkey [of sample_panel sample_crypto claim_calls, unfolded Let_def] show ?thesis
    unfolding Let_def by blast
qed

text \<open>
  C35.  Every authority to register is used once: over any sequence of requests at most one
  registration completes by a claim, at most one by each invitation, and no more by
  recovery than recovery grants were issued.
\<close>

theorem authorities_used_once:
  shows "let w = run_auth pn X as empty_world in
    length (filter (\<lambda>(a, _). a = AClaim) (aw_used w)) \<le> 1 \<and>
    (\<forall>i. length (filter (\<lambda>x. x = (AInvite, Some i)) (aw_used w)) \<le> 1) \<and>
    length (filter (\<lambda>(a, _). a = ARecovery) (aw_used w)) \<le> aw_recoveries w"
proof -
  obtain w where w_def: "w = run_auth pn X as empty_world" by blast
  have inv: "auth_inv w" unfolding w_def by (rule run_auth_ok) simp
  then have "length (filter (\<lambda>(a, _). a = AClaim) (aw_used w)) \<le> length (t_owners (aw_db w))" "length (t_owners (aw_db w)) \<le> 1"
    by (simp_all add: auth_inv_def uses_ok_def owners_ok_def)
  moreover have "length (filter (\<lambda>x. x = (AInvite, Some i)) (aw_used w)) \<le> 1" for i
  proof -
    have "length (filter (\<lambda>x. x = (AInvite, Some i)) (aw_used w)) \<le>
          (if \<exists>v\<in>set (t_invitations (aw_db w)). iv_id v = i \<and> iv_consumed_at v \<noteq> None then 1 else 0)"
      using inv unfolding auth_inv_def uses_ok_def by (elim conjE allE)
    then show ?thesis by (simp split: if_splits)
  qed
  moreover have "length (filter (\<lambda>(a, _). a = ARecovery) (aw_used w)) \<le> aw_recoveries w"
    using inv by (simp add: auth_inv_def uses_ok_def)
  ultimately show ?thesis unfolding w_def Let_def by auto
qed

end
