(* ===== verification/Auth_Properties.thy ===== *)
theory Auth_Properties
  imports Auth_Safety
begin

text \<open>
  Concrete runs of the owner's access, what becomes of a revoked API token, and the one
  assertion that can be used twice.
\<close>

section \<open>API tokens\<close>

definition tokens_ok :: "db \<Rightarrow> bool" where
  "tokens_ok d \<longleftrightarrow> distinct (map at_token_hash (t_api_tokens d))"

definition dead :: "string \<Rightarrow> db \<Rightarrow> bool" where
  "dead h d \<longleftrightarrow> (\<exists>t\<in>set (t_api_tokens d). at_token_hash t = h \<and> at_revoked_at t \<noteq> None)"

definition tokens_scoped :: "db \<Rightarrow> bool" where
  "tokens_scoped d \<longleftrightarrow> (\<forall>t\<in>set (t_api_tokens d). set (at_scopes t) \<subseteq> set allowed_scopes)"

definition tokens_grow :: "db \<Rightarrow> db \<Rightarrow> bool" where
  "tokens_grow d d' \<longleftrightarrow> (tokens_ok d \<longrightarrow> tokens_ok d') \<and> (tokens_scoped d \<longrightarrow> tokens_scoped d') \<and> (\<forall>h. dead h d \<longrightarrow> dead h d')"

lemma tokens_grow_refl [simp]: "tokens_grow d d"
  by (simp add: tokens_grow_def)

lemma tokens_grow_same: "t_api_tokens d' = t_api_tokens d \<Longrightarrow> tokens_grow d d'"
  by (simp add: tokens_grow_def tokens_ok_def tokens_scoped_def dead_def)

lemma tokens_grow_log:
  assumes "log_auth actor action res i ty sub sid x now d1 = Ok d'" "tokens_grow d d1"
  shows "tokens_grow d d'"
  using assms(2) log_auth_tables(7) [OF assms(1)] by (simp add: tokens_grow_def tokens_ok_def tokens_scoped_def dead_def)

lemma tokens_grow_touch:
  assumes "\<And>t. at_token_hash (f t) = at_token_hash t \<and> at_scopes (f t) = at_scopes t \<and> (at_revoked_at t \<noteq> None \<longrightarrow> at_revoked_at (f t) \<noteq> None)"
  shows "tokens_grow d (d\<lparr>t_api_tokens := update_where q f (t_api_tokens d)\<rparr>)"
proof -
  have "map at_token_hash (update_where q f (t_api_tokens d)) = map at_token_hash (t_api_tokens d)"
    using assms by (simp add: update_where_def)
  moreover have "dead h (d\<lparr>t_api_tokens := update_where q f (t_api_tokens d)\<rparr>)" if "dead h d" for h
  proof -
    from that obtain t where "t \<in> set (t_api_tokens d)" "at_token_hash t = h" "at_revoked_at t \<noteq> None" by (auto simp: dead_def)
    moreover from this have "(if q t then f t else t) \<in> set (update_where q f (t_api_tokens d))" by (auto simp: set_update_where)
    ultimately show ?thesis using assms [of t]
      unfolding dead_def by (intro bexI [of _ "if q t then f t else t"]) simp_all
  qed
  moreover have "tokens_scoped (d\<lparr>t_api_tokens := update_where q f (t_api_tokens d)\<rparr>)" if "tokens_scoped d"
  proof -
    have "at_scopes (f t) = at_scopes t" for t using assms by blast
    then show ?thesis using that by (auto simp: tokens_scoped_def set_update_where subset_iff)
  qed
  ultimately show ?thesis by (simp add: tokens_grow_def tokens_ok_def)
qed

lemma create_api_token_grow:
  assumes "create_api_token X rnd now name scopes actor d = Ok (t, d')"
  shows "tokens_grow d d'"
proof -
  from assms obtain x where fresh: "\<forall>r\<in>set (t_api_tokens d). at_token_hash r \<noteq> at_token_hash t"
    and log: "log_auth actor ''tokens.create'' ''api_token'' (Some (at_id t)) ''token.created'' ''api_token'' (Some (at_id t)) x now
        (d\<lparr>t_api_tokens := t_api_tokens d @ [t]\<rparr>) = Ok d'"
    by (auto simp: create_api_token_def Let_def split: if_splits)
  have "set (at_scopes t) \<subseteq> set allowed_scopes"
    using assms by (auto simp: create_api_token_def Let_def list_all_iff split: if_splits)
  with fresh have "tokens_grow d (d\<lparr>t_api_tokens := t_api_tokens d @ [t]\<rparr>)"
    by (auto simp: tokens_grow_def tokens_ok_def tokens_scoped_def dead_def)
  then show ?thesis by (rule tokens_grow_log [OF log])
qed

lemma authenticate_grow: "tokens_grow d (snd (authenticate X s b now d))"
proof -
  have api: "tokens_grow d (snd (authenticate_api_token X t now d))" for t
    by (auto simp: authenticate_api_token_def intro!: tokens_grow_touch split: option.split)
  have ses: "tokens_grow d1 (snd (authenticate_session X t now d1))" for t d1
    by (auto simp: authenticate_session_def intro!: tokens_grow_same split: option.split)
  have trans: "tokens_grow d d1 \<Longrightarrow> tokens_grow d1 d2 \<Longrightarrow> tokens_grow d d2" for d1 d2
    by (simp add: tokens_grow_def)
  have "tokens_grow d (snd (authenticate_session X t now d1))" if "authenticate_api_token X u now d = (p, d1)" for t u p d1
    using trans [OF _ ses] api [of u] that by simp
  then show ?thesis using ses api
    by (auto simp: authenticate_def split: option.split prod.split) (metis snd_conv)+
qed

lemma auth_step_grow: "tokens_grow (aw_db w) (aw_db (auth_step pn X now rnd a w))"
proof -
  let ?d = "aw_db w"
  have kept: "tokens_grow ?d (aw_db (keep_db w r))" if "\<And>d'. r = Ok d' \<Longrightarrow> tokens_grow ?d d'" for r
    using that by (auto simp: keep_db_def split: sum.split)
  have same: "same_access ?d d' \<Longrightarrow> tokens_grow ?d d'" for d'
    by (rule tokens_grow_same) (simp add: same_access_def)
  note options = options_same [THEN same]
  have logged: "tokens_grow ?d d'" if "log_auth actor action res i ty sub sid x now d1 = Ok d'" "t_api_tokens d1 = t_api_tokens ?d"
    for actor action res i ty sub sid x d1 d'
    using that by (intro tokens_grow_log [OF that(1)] tokens_grow_same)
  show ?thesis
  proof (cases a)
    case (GetRegistration input owner session t)
    then show ?thesis using options(1) by (simp add: auth_step_def)
  next
    case (BeginRegistration i)
    then show ?thesis using options(3) [of i now] by (auto simp: auth_step_def split: prod.split sum.split)
  next
    case (EndRegistration k answer ua)
    have "tokens_grow ?d d'" if ok: "complete_registration pn X rnd now i c answer ua ?d = Ok (s, d')" for i c s d'
    proof -
      from ok obtain ri v d1 d4 where d1: "claim_owner c now ?d = Ok d1"
        and d4: "create_session pn X rnd now (rc_owner_id c) ua (Some (ri_id ri))
            (use_authority c v now (consume_challenge i (d1\<lparr>t_passkeys := t_passkeys d1 @ [new_passkey ri (rc_owner_id c) now v]\<rparr>))) = Ok (s, d4)"
        and log: "log_auth (rc_owner_id c) ''auth.passkey.register'' ''passkey'' (Some (ri_id ri)) ''passkey.registered'' ''passkey''
                 None (parse_user_agent pn ua) now d4 = Ok d'"
        by (auto simp: complete_registration_def Let_def split: option.splits if_splits)
      have "t_api_tokens d4 = t_api_tokens ?d" using claim_owner_Ok [OF d1] create_session_Ok [OF d4]
        by (auto simp: use_authority_def consume_challenge_def set_grant_def Let_def split: option.split)
      with log show ?thesis by (rule logged)
    qed
    then show ?thesis using EndRegistration by (auto simp: auth_step_def split: prod.split sum.split)
  next
    case (GetLogin t)
    then show ?thesis using options(2) by (simp add: auth_step_def)
  next
    case (BeginLogin i c)
    then show ?thesis using options(4) [of i c now] by (auto simp: auth_step_def split: prod.split sum.split)
  next
    case (EndLogin k answer ua)
    have "tokens_grow ?d d'" if ok: "complete_authentication pn X rnd now i p answer ua ?d = Ok (s, d')" for i p s d'
    proof -
      from ok obtain ps d2 where d2: "create_session pn X rnd now (pk_owner_id p) ua (Some (pk_id p)) (consume_challenge i
          (?d\<lparr>t_passkeys := ps\<rparr>)) = Ok (s, d2)"
        and log: "log_auth (pk_owner_id p) ''auth.login'' ''session'' (Some (fst s)) ''auth.login_succeeded'' ''session'' None
          (parse_user_agent pn ua) now d2 = Ok d'"
        by (auto simp: complete_authentication_def Let_def split: option.splits if_splits)
      have "t_api_tokens d2 = t_api_tokens ?d" using create_session_Ok [OF d2] by (auto simp: consume_challenge_def)
      with log show ?thesis by (rule logged)
    qed
    then show ?thesis using EndLogin
      by (cases "aw_logins w ! k"; cases "length (aw_logins w) \<le> k") (simp_all add: auth_step_def, intro kept, auto)
  next
    case IssueClaim
    then show ?thesis
      by (simp add: auth_step_def, intro kept) (auto simp: issue_claim_def issue_grant_def set_grant_def intro!: tokens_grow_same split: if_splits)
  next
    case ResetBootstrap
    have "tokens_grow ?d d'" if "reset_bootstrap X (rnd 0) now ?d = Ok (k, d')" for k d'
      using that by (auto simp: reset_bootstrap_def issue_claim_def issue_grant_def set_grant_def Let_def
          intro: tokens_grow_same elim!: logged split: option.splits if_splits)
    with ResetBootstrap show ?thesis by (auto simp: auth_step_def split: prod.split sum.split)
  next
    case (UpdateOwner input)
    then show ?thesis by (simp add: auth_step_def, intro kept) (auto simp: update_owner_def intro!: tokens_grow_same)
  next
    case (CreateInvitation name)
    then show ?thesis by (simp add: auth_step_def, intro kept) (auto simp: create_invitation_def Let_def intro!: tokens_grow_same split: if_splits)
  next
    case (RevokeInvitation i)
    then show ?thesis by (simp add: auth_step_def, intro kept) (auto simp: revoke_invitation_def Let_def intro!: tokens_grow_same split: if_splits)
  next
    case (RevokePasskey i)
    then show ?thesis by (simp add: auth_step_def, intro kept) (auto simp: revoke_passkey_def elim!: logged split: if_splits)
  next
    case (EndOtherSessions s)
    then show ?thesis by (simp add: auth_step_def, intro kept) (auto simp: end_other_sessions_def Let_def elim!: logged split: option.splits)
  next
    case (RevokeSession i s)
    then show ?thesis by (simp add: auth_step_def, intro kept) (auto dest!: revoke_session_Ok elim!: logged)
  next
    case (CreateApiToken n scopes)
    then show ?thesis using create_api_token_grow by (simp add: auth_step_def, intro kept) auto
  next
    case (RevokeApiToken i)
    have "tokens_grow ?d d'" if ok: "revoke_api_token i ''owner'' now ?d = Ok d'" for d'
    proof -
      from ok obtain x where "log_auth ''owner'' ''tokens.revoke'' ''api_token'' (Some i) ''token.revoked'' ''api_token'' (Some i) x now
          (?d\<lparr>t_api_tokens := update_where (\<lambda>t. at_id t = i \<and> at_revoked_at t = None) (\<lambda>t. t\<lparr>at_revoked_at := Some now\<rparr>) (t_api_tokens ?d)\<rparr>) = Ok d'"
        by (auto simp: revoke_api_token_def Let_def split: if_splits)
      then show ?thesis by (rule tokens_grow_log) (rule tokens_grow_touch, simp)
    qed
    with RevokeApiToken show ?thesis by (simp add: auth_step_def, intro kept) auto
  next
    case (Authenticate s b)
    then show ?thesis using authenticate_grow by (simp add: auth_step_def)
  next
    case (Logout s)
    then show ?thesis by (simp add: auth_step_def, intro tokens_grow_same) (auto simp: logout_def split: option.split)
  qed
qed

interpretation tokens: growing_service "\<lambda>w (now, rnd, a). auth_step pn X now rnd a w" "\<lambda>v w. tokens_grow (aw_db v) (aw_db w)" for pn X
  by unfold_locales (auto simp: tokens_grow_same auth_step_grow, auto simp: tokens_grow_def)

lemma run_auth_grow: "tokens_grow (aw_db w) (aw_db (run_auth pn X as w))"
  unfolding run_auth_def by (rule tokens.run_le)

lemma run_auth_scoped: "tokens_scoped (aw_db (run_auth pn X as empty_world))"
  using run_auth_grow [of empty_world pn X as] by (simp add: tokens_grow_def tokens_scoped_def empty_world_def empty_db_def)

lemma dead_refused:
  assumes "tokens_ok d" "dead (x_hash X t) d"
  shows "authenticate_api_token X t now d = (None, d)"
proof -
  have "select_one (\<lambda>r. at_token_hash r = x_hash X t \<and> at_revoked_at r = None) (t_api_tokens d) = None"
    using assms by (auto simp: tokens_ok_def dead_def distinct_map inj_on_def)
  then show ?thesis by (simp add: authenticate_api_token_def del: select_one_None)
qed

text \<open>
   Once an API token is revoked it never authenticates again, as a bearer token of the panel
  or at the remote integrations, whatever requests follow.
\<close>

theorem revoked_token_stays_out:
  assumes w: "w = run_auth pn X as empty_world"
    and r: "r \<in> set (t_api_tokens (aw_db w))" "at_token_hash r = x_hash X t"
    and revoke: "revoke_api_token (at_id r) actor now (aw_db w) = Ok d"
    and ids: "distinct (map at_id (t_api_tokens (aw_db w)))"
    and later: "d' = aw_db (run_auth pn X bs (w\<lparr>aw_db := d\<rparr>))"
  shows "fst (authenticate_api_token X t now' d') = None \<and>
    fst (authenticate X None (Some (''Bearer '' @ t)) now' d') \<noteq> Some (TokenPrincipal i scopes)"
proof -
  let ?d = "aw_db w" and ?p = "\<lambda>x. at_id x = at_id r \<and> at_revoked_at x = None"
  have "tokens_grow empty_db ?d" using run_auth_grow [of empty_world] by (simp add: w empty_world_def)
  then have ok: "tokens_ok ?d" by (simp add: tokens_grow_def tokens_ok_def empty_db_def)
  from revoke obtain x where live: "\<exists>q\<in>set (t_api_tokens ?d). ?p q"
    and log: "log_auth actor ''tokens.revoke'' ''api_token'' (Some (at_id r)) ''token.revoked'' ''api_token'' (Some (at_id r)) x now
        (?d\<lparr>t_api_tokens := update_where ?p (\<lambda>t. t\<lparr>at_revoked_at := Some now\<rparr>) (t_api_tokens ?d)\<rparr>) = Ok d"
    by (auto simp: revoke_api_token_def Let_def split: if_splits)
  from live ids r(1) have "?p r" by (auto simp: distinct_map inj_on_def)
  then have "r\<lparr>at_revoked_at := Some now\<rparr> \<in> set (t_api_tokens d)"
    using r(1) log_auth_tables(7) [OF log] by (simp add: update_where_mem)
  then have "dead (x_hash X t) d" using r(2)
    unfolding dead_def by (intro bexI [of _ "r\<lparr>at_revoked_at := Some now\<rparr>"]) simp_all
  moreover have "tokens_ok d"
    using ok tokens_grow_log [OF log tokens_grow_touch] by (simp add: tokens_grow_def)
  moreover have "tokens_grow d d'" using run_auth_grow [of "w\<lparr>aw_db := d\<rparr>"] by (simp add: later)
  ultimately have out: "authenticate_api_token X t now' d' = (None, d')" by (intro dead_refused) (simp_all add: tokens_grow_def)
  have "authenticate X None (Some (''Bearer '' @ t)) now' d' = (if t = [] then (None, d') else authenticate_session X t now' d')"
    by (simp add: authenticate_def bearer_def given_def starts_with_iff out)
  moreover have "fst (authenticate_session X t now' d') \<noteq> Some (TokenPrincipal i scopes)"
    by (auto simp: authenticate_session_def split: option.split)
  ultimately show ?thesis by (simp add: out)
qed

definition token_calls :: "(time \<times> (nat \<Rightarrow> string) \<times> auth_call) list" where
  "token_calls = [(1000, draws CHR ''t'', CreateApiToken ''cli'' [''routes:read''])]"

lemma revoked_token_stays_out_witness:
  "\<exists>d. revoke_api_token ''t01'' ''owner'' 2000 (aw_db (run_auth sample_panel sample_crypto token_calls empty_world)) = Ok d \<and>
     fst (authenticate_api_token sample_crypto ''t00'' 1500 (aw_db (run_auth sample_panel sample_crypto token_calls empty_world))) =
       Some (TokenPrincipal ''token:t01'' [''routes:read'']) \<and>
     fst (authenticate_api_token sample_crypto ''t00'' 3000 d) = None"
proof -
  let ?w = "run_auth sample_panel sample_crypto token_calls empty_world"
  let ?r = "\<lparr>at_id = ''t01'', at_name = ''cli'', at_token_hash = ''t00'', at_scopes = [''routes:read''], at_expires_at = None,
     at_created_at = 1000, at_last_used_at = None, at_revoked_at = None\<rparr>"
  have rows: "t_api_tokens (aw_db ?w) = [?r]" by code_simp
  have "is_ok (revoke_api_token ''t01'' ''owner'' 2000 (aw_db ?w))" by code_simp
  then obtain d where d: "revoke_api_token ''t01'' ''owner'' 2000 (aw_db ?w) = Ok d"
    by (cases "revoke_api_token ''t01'' ''owner'' 2000 (aw_db ?w)") auto
  have "fst (authenticate_api_token sample_crypto ''t00'' 1500 (aw_db ?w)) = Some (TokenPrincipal ''token:t01'' [''routes:read''])"
    by code_simp
  moreover have "fst (authenticate_api_token sample_crypto ''t00'' 3000 d) = None"
  proof -
    have r: "?r \<in> set (t_api_tokens (aw_db ?w))" "distinct (map at_id (t_api_tokens (aw_db ?w)))" by (simp_all add: rows)
    have h: "at_token_hash ?r = x_hash sample_crypto ''t00''" by (simp add: sample_crypto_def)
    have revoke: "revoke_api_token (at_id ?r) ''owner'' 2000 (aw_db ?w) = Ok d" using d by simp
    have later: "d = aw_db (run_auth sample_panel sample_crypto [] (?w\<lparr>aw_db := d\<rparr>))" by (simp add: run_auth_def)
    show ?thesis using revoked_token_stays_out [OF refl r(1) h revoke r(2) later] by blast
  qed
  ultimately show ?thesis using d by blast
qed

section \<open>The same assertion twice\<close>

definition replay_calls :: "(time \<times> (nat \<Rightarrow> string) \<times> auth_call) list" where
  "replay_calls = claim_calls @
     [(5000, draws CHR ''e'', GetLogin ''challenge''),
      (6000, draws CHR ''f'', BeginLogin ''e00'' ''key''),
      (6001, draws CHR ''g'', BeginLogin ''e00'' ''key''),
      (6010, draws CHR ''h'', EndLogin 0 (Some 1) None),
      (6011, draws CHR ''i'', EndLogin 1 (Some 1) None)]"

text \<open>
  One assertion, two sessions: the same challenge answered by two requests whose
  verifications overlap starts a session for each, because consuming a challenge does not
  check that it is still there.
\<close>

theorem overlapping_logins_share_a_challenge:
  "let w = run_auth sample_panel sample_crypto replay_calls empty_world in
     map fst (aw_logins w) = [''e00'', ''e00''] \<and>
     map se_token_hash (t_sessions (aw_db w)) = [''d00'', ''h00'', ''i00''] \<and>
     t_challenges (aw_db w) = []"
  by code_simp

end
