(* ===== verification/Operations.thy ===== *)
theory Operations
  imports Inventory Connections Js_Map Rulesets Auth
begin

text \<open>
  Confirmed operations and diagnostics (src/src/server/services/operations.ts): a preview stores
  the hash of an action and its payload, a confirmation consumes it and starts the operation,
  and the root agent's answer finishes it.

  The texts shown to the owner are not modelled.  \<open>localeCompare\<close>, the version of the panel and
  the texts of an error are parameters.  An operation runs asynchronously, so confirming and
  finishing it are two operations; so are the start, the reports and the end of a diagnostic.
\<close>

section \<open>Actions and payloads\<close>

datatype action = ServiceRestart | ServiceStart | ServiceStop | EngineUpdate | NginxReload | UpdateApply
  | BackupExport | ConnectionRotate

definition action_key :: "action \<Rightarrow> string" where
  "action_key a = (case a of
      ServiceRestart \<Rightarrow> ''service.restart'' | ServiceStart \<Rightarrow> ''service.start'' | ServiceStop \<Rightarrow> ''service.stop''
    | EngineUpdate \<Rightarrow> ''engine.update'' | NginxReload \<Rightarrow> ''nginx.reload'' | UpdateApply \<Rightarrow> ''update.apply''
    | BackupExport \<Rightarrow> ''backup.export'' | ConnectionRotate \<Rightarrow> ''connection.rotate'')"

type_synonym payload = "(string \<times> json) list"

record op_config =
  oc_version :: string
  oc_before :: "string \<Rightarrow> string \<Rightarrow> bool"
  oc_text :: "failure \<Rightarrow> string"
  oc_message :: "failure \<Rightarrow> string"

definition show_int :: "int \<Rightarrow> string" where
  "show_int n = (if 0 \<le> n then show_nat (nat n) else ''-'' @ show_nat (nat (- n)))"

text \<open>\<open>String(value)\<close>\<close>

fun js_string :: "json \<Rightarrow> string" where
  "js_string JNull = ''null''"
| "js_string (JBool b) = (if b then ''true'' else ''false'')"
| "js_string (JNum n) = show_int n"
| "js_string (JStr s) = s"
| "js_string (JArr xs) = join_with '','' (map (\<lambda>x. if x = JNull then [] else js_string x) xs)"
| "js_string (JObj _) = ''[object Object]''"

text \<open>\<open>String(payload.key ?? "")\<close>\<close>

definition payload_field :: "string \<Rightarrow> payload \<Rightarrow> string" where
  "payload_field k p = (case json_get k p of None \<Rightarrow> [] | Some JNull \<Rightarrow> [] | Some v \<Rightarrow> js_string v)"

section \<open>The hash of a payload\<close>

definition json_hex_digit :: "nat \<Rightarrow> char" where
  "json_hex_digit n = (if n < 10 then char_of (48 + n) else char_of (87 + n))"

definition quote_char :: "char \<Rightarrow> string" where
  "quote_char c =
     (if code c = 34 then [char_of (92 :: nat), c]
      else if code c = 92 then [char_of (92 :: nat), c]
      else if code c = 8 then [char_of (92 :: nat), CHR ''b'']
      else if code c = 12 then [char_of (92 :: nat), CHR ''f'']
      else if code c = 10 then [char_of (92 :: nat), CHR ''n'']
      else if code c = 13 then [char_of (92 :: nat), CHR ''r'']
      else if code c = 9 then [char_of (92 :: nat), CHR ''t'']
      else if code c < 32 then char_of (92 :: nat) # ''u00'' @ [json_hex_digit (code c div 16), json_hex_digit (code c mod 16)]
      else [c])"

text \<open>\<open>JSON.stringify\<close> of a text.\<close>

definition json_quote :: "string \<Rightarrow> string" where
  "json_quote s = char_of (34 :: nat) # concat (map quote_char s) @ [char_of (34 :: nat)]"

fun stable_json :: "op_config \<Rightarrow> json \<Rightarrow> string" where
  "stable_json oc JNull = ''null''"
| "stable_json oc (JBool b) = (if b then ''true'' else ''false'')"
| "stable_json oc (JNum n) = show_int n"
| "stable_json oc (JStr s) = json_quote s"
| "stable_json oc (JArr xs) = ''['' @ join_with '','' (map (stable_json oc) xs) @ '']''"
| "stable_json oc (JObj kvs) =
     CHR 0x7B # join_with '','' (map (\<lambda>(k, t). json_quote k @ '':'' @ t)
       (sort_by (\<lambda>a b. oc_before oc (fst a) (fst b)) (map (\<lambda>(k, v). (k, stable_json oc v)) kvs))) @ [CHR 0x7D]"

definition payload_hash :: "op_config \<Rightarrow> crypto \<Rightarrow> action \<Rightarrow> payload \<Rightarrow> string" where
  "payload_hash oc X a p = x_hash X (action_key a @ [char_of (0 :: nat)] @ stable_json oc (JObj p))"

section \<open>What is recorded of an operation\<close>

definition redact_payload :: "action \<Rightarrow> payload \<Rightarrow> payload" where
  "redact_payload a p =
     (if a \<noteq> BackupExport then p
      else (let safe = filter (\<lambda>kv. fst kv \<noteq> ''passphrase'') p
            in if json_get ''passphrase'' p = None then safe else safe @ [(''passphrase'', JStr ''[REDACTED]'')]))"

datatype operation_phase = Started | Completed | FailedPhase

definition operation_event :: "action \<Rightarrow> operation_phase \<Rightarrow> string option" where
  "operation_event a p = (case a of
      BackupExport \<Rightarrow> Some (case p of Started \<Rightarrow> ''backup.started'' | Completed \<Rightarrow> ''backup.created'' | FailedPhase \<Rightarrow> ''backup.failed'')
    | ServiceRestart \<Rightarrow> Some (case p of Started \<Rightarrow> ''service.restart_started'' | Completed \<Rightarrow> ''service.restarted'' | FailedPhase \<Rightarrow> ''service.restart_failed'')
    | ServiceStart \<Rightarrow> Some (case p of Started \<Rightarrow> ''service.start_started'' | Completed \<Rightarrow> ''service.started'' | FailedPhase \<Rightarrow> ''service.start_failed'')
    | ServiceStop \<Rightarrow> Some (case p of Started \<Rightarrow> ''service.stop_started'' | Completed \<Rightarrow> ''service.stopped'' | FailedPhase \<Rightarrow> ''service.stop_failed'')
    | NginxReload \<Rightarrow> Some (case p of Started \<Rightarrow> ''nginx.reload_started'' | Completed \<Rightarrow> ''nginx.reloaded'' | FailedPhase \<Rightarrow> ''nginx.reload_failed'')
    | EngineUpdate \<Rightarrow> Some (case p of Started \<Rightarrow> ''engine.update_started'' | Completed \<Rightarrow> ''engine.updated'' | FailedPhase \<Rightarrow> ''engine.update_failed'')
    | UpdateApply \<Rightarrow> Some (case p of Started \<Rightarrow> ''app.update_started'' | Completed \<Rightarrow> ''app.updated'' | FailedPhase \<Rightarrow> ''app.update_failed'')
    | ConnectionRotate \<Rightarrow> (case p of Started \<Rightarrow> Some ''connection.rotation_started'' | Completed \<Rightarrow> None
                             | FailedPhase \<Rightarrow> Some ''connection.rotation_failed''))"

definition is_service :: "action \<Rightarrow> bool" where
  "is_service a \<longleftrightarrow> a \<in> {ServiceRestart, ServiceStart, ServiceStop}"

definition operation_data :: "action \<Rightarrow> payload \<Rightarrow> (string \<times> json) list" where
  "operation_data a p =
     (if is_service a then [(''service'', JStr (payload_field ''service'' p))]
      else if a = ConnectionRotate then [(''connectionId'', JStr (payload_field ''connectionId'' p))]
      else if a = EngineUpdate then [(''engine'', JStr (payload_field ''engine'' p)), (''version'', JStr (payload_field ''version'' p))]
      else if a = UpdateApply \<and> payload_field ''version'' p \<noteq> [] then [(''version'', JStr (payload_field ''version'' p))]
      else [])"

definition operation_result_data :: "action \<Rightarrow> payload \<Rightarrow> payload \<Rightarrow> (string \<times> json) list" where
  "operation_result_data a result p =
     (if a \<noteq> BackupExport then []
      else (case json_get ''size'' result of Some (JNum n) \<Rightarrow> [(''size'', JNum n)] | _ \<Rightarrow> []) @
           [(''encrypted'', JBool (case json_get ''passphrase'' p of Some (JStr _) \<Rightarrow> True | _ \<Rightarrow> False))])"

definition operation_subject :: "action \<Rightarrow> string" where
  "operation_subject a =
     (if is_service a then ''service'' else if a = ConnectionRotate then ''connection''
      else if a = EngineUpdate then ''engine'' else ''operation'')"

definition operation_subject_id :: "action \<Rightarrow> payload \<Rightarrow> string option" where
  "operation_subject_id a p =
     (if is_service a then given (Some (payload_field ''service'' p))
      else if a = ConnectionRotate then given (Some (payload_field ''connectionId'' p))
      else if a = EngineUpdate then given (Some (payload_field ''engine'' p)) else None)"

definition record_phase ::
  "action \<Rightarrow> operation_phase \<Rightarrow> string \<Rightarrow> string \<Rightarrow> payload \<Rightarrow> nat option \<Rightarrow> (string \<times> json) list \<Rightarrow> time \<Rightarrow> db \<Rightarrow> db result" where
  "record_phase a ph actor i p audit_id extra now d =
     (case operation_event a ph of
        None \<Rightarrow> Ok d
      | Some type \<Rightarrow> record_event type (entry\<lparr>je_actor := Some actor, je_audit_id := audit_id, je_operation_id := Some i,
                        je_subject_type := Some (operation_subject a), je_subject_id := operation_subject_id a p,
                        je_data := operation_data a p @ extra\<rparr>) now d)"

section \<open>What may be run\<close>

definition lower_hex :: "char \<Rightarrow> bool" where
  "lower_hex c \<longleftrightarrow> is_digit c \<or> 97 \<le> code c \<and> code c \<le> 102"

text \<open>The UUID pattern, whatever the case of its letters.\<close>

definition uuid_text :: "string \<Rightarrow> bool" where
  "uuid_text s \<longleftrightarrow>
     (case split_on (CHR ''-'') (to_lower s) of
        [a, b, c, d, e] \<Rightarrow>
          map length [a, b, c, d, e] = [8, 4, 4, 4, 12] \<and> list_all (list_all lower_hex) [a, b, c, d, e] \<and>
          hd c \<in> set ''12345678'' \<and> hd d \<in> set ''89ab''
      | _ \<Rightarrow> False)"

definition engine_release_text :: "string \<Rightarrow> bool" where
  "engine_release_text v \<longleftrightarrow>
     v \<noteq> [] \<and> length v \<le> 40 \<and> is_digit (hd v) \<and> list_all (\<lambda>c. is_alnum c \<or> c = CHR ''.'' \<or> c = CHR ''-'') v"

definition release_archive :: "string \<Rightarrow> string" where
  "release_archive v = ''/var/lib/outpost/incoming/outpost-'' @ v @ ''-linux-amd64.tar.gz''"

text \<open>The path pattern of a backup: a name of hexadecimal digits and dashes, \<open>.age\<close> or \<open>.tar\<close>.\<close>

definition backup_path :: "string \<Rightarrow> bool" where
  "backup_path s \<longleftrightarrow>
     (let prefix = ''/var/lib/outpost/backups/outpost-''; rest = drop (length prefix) s; name = take (length rest - 4) rest
      in starts_with s prefix \<and> drop (length rest - 4) rest \<in> {''.age'', ''.tar''} \<and> 4 \<le> length rest \<and>
         name \<noteq> [] \<and> list_all (\<lambda>c. lower_hex c \<or> c = CHR ''-'') name)"

definition validate_rotate :: "payload \<Rightarrow> db \<Rightarrow> unit result" where
  "validate_rotate p d =
     (let i = payload_field ''connectionId'' p
      in if \<not> uuid_text i then Err (ServiceError 400)
         else (case select_one (\<lambda>c. c_id c = i \<and> c_archived_at c = None) (t_connections d) of
                 None \<Rightarrow> Err (ServiceError 404)
               | Some c \<Rightarrow> if c_status c \<noteq> Active then Err (ServiceError 409) else Ok ()))"

definition validate_engine :: "payload \<Rightarrow> db \<Rightarrow> unit result" where
  "validate_engine p d =
     (let v = payload_field ''version'' p; checksum = payload_field ''checksum'' p
      in case is_engine (payload_field ''engine'' p) of
           None \<Rightarrow> Err (ServiceError 400)
         | Some e \<Rightarrow>
             if \<not> engine_release_text v then Err (ServiceError 400)
             else if \<not> sha256_ok checksum then Err (ServiceError 400)
             else bind_result (engine_version_of e d) (\<lambda>pinned.
               (case pinned of
                  None \<Rightarrow> Err (ServiceError 409)
                | Some n \<Rightarrow>
                    if n_desired n \<noteq> v \<or> n_checksum n \<noteq> checksum then Err (ServiceError 409)
                    else if n_installed n = Some v then Err (ServiceError 409)
                    else (case given (n_installed n) of
                            None \<Rightarrow> Ok ()
                          | Some installed \<Rightarrow>
                              bind_result (compare_versions v installed) (\<lambda>i. if i < 0 then Err (ServiceError 409) else Ok ())))))"

definition validate_update :: "op_config \<Rightarrow> payload \<Rightarrow> unit result" where
  "validate_update oc p =
     (let v = payload_field ''version'' p; bundle = payload_field ''bundle'' p
      in if parse_version v = None then Err (ServiceError 400)
         else bind_result (compare_versions v (oc_version oc)) (\<lambda>i.
           if i \<le> 0 then Err (ServiceError 409)
           else if bundle \<noteq> release_archive v then Err (ServiceError 400)
           else if payload_field ''signature'' p \<noteq> bundle @ ''.minisig'' then Err (ServiceError 400) else Ok ()))"

definition validate_backup :: "payload \<Rightarrow> unit result" where
  "validate_backup p =
     (if (case json_get ''passphrase'' p of
            None \<Rightarrow> False
          | Some (JStr s) \<Rightarrow> length s < 12 \<or> 200 < length s
          | Some _ \<Rightarrow> True) then Err (ServiceError 400)
      else if \<not> backup_path (payload_field ''output'' p) then Err (ServiceError 400) else Ok ())"

definition validate_action :: "op_config \<Rightarrow> action \<Rightarrow> payload \<Rightarrow> db \<Rightarrow> unit result" where
  "validate_action oc a p d =
     (case a of
        ConnectionRotate \<Rightarrow> validate_rotate p d
      | ServiceRestart \<Rightarrow> if payload_field ''service'' p \<in> set service_names then Ok () else Err (ServiceError 400)
      | ServiceStart \<Rightarrow>
          if payload_field ''service'' p \<notin> set engine_services then Err (ServiceError 400)
          else if missing_service (payload_field ''service'' p) d then Err (ServiceError 409) else Ok ()
      | ServiceStop \<Rightarrow> if payload_field ''service'' p \<in> set engine_services then Ok () else Err (ServiceError 400)
      | EngineUpdate \<Rightarrow> validate_engine p d
      | UpdateApply \<Rightarrow> validate_update oc p
      | BackupExport \<Rightarrow> validate_backup p
      | NginxReload \<Rightarrow> Ok ())"

section \<open>Preview and confirmation\<close>

definition preview_operation ::
  "op_config \<Rightarrow> crypto \<Rightarrow> (nat \<Rightarrow> string) \<Rightarrow> time \<Rightarrow> action \<Rightarrow> payload \<Rightarrow> string \<Rightarrow> db \<Rightarrow> (string \<times> db) result" where
  "preview_operation oc X rnd now a p actor d =
     bind_result (validate_action oc a p d) (\<lambda>_.
       (let c = \<lparr>cf_id = rnd 0, cf_action = action_key a, cf_payload_hash = payload_hash oc X a p,
                 cf_expires_at = now + challenge_life, cf_used_at = None, cf_created_at = now\<rparr>
        in if rnd 0 \<in> cf_id ` set (t_confirmations d) then Err constraint_error
           else Ok (rnd 0, snd (audit actor (action_key a @ ''.preview'') ''confirmation'' (Some (rnd 0)) None now
                                 (d\<lparr>t_confirmations := t_confirmations d @ [c]\<rparr>)))))"

definition enqueue :: "string \<Rightarrow> string \<Rightarrow> json option \<Rightarrow> time \<Rightarrow> db \<Rightarrow> db result" where
  "enqueue i kind result now d =
     (if i \<in> op_id ` set (t_operations d) then Err constraint_error
      else Ok (d\<lparr>t_operations := t_operations d @
        [\<lparr>op_id = i, op_kind = kind, op_status = ''queued'', op_progress = 0, op_message = ''operation.queued'',
          op_result = result, op_error = None, op_created_at = now, op_updated_at = now\<rparr>]\<rparr>))"

definition update_operation :: "string \<Rightarrow> string \<Rightarrow> nat \<Rightarrow> string \<Rightarrow> json option \<Rightarrow> time \<Rightarrow> db \<Rightarrow> db" where
  "update_operation i status progress message result now d =
     d\<lparr>t_operations := update_where (\<lambda>r. op_id r = i)
        (\<lambda>r. r\<lparr>op_status := status, op_progress := progress, op_message := message, op_result := result, op_updated_at := now\<rparr>)
        (t_operations d)\<rparr>"

definition fail_operation :: "string \<Rightarrow> string \<Rightarrow> time \<Rightarrow> db \<Rightarrow> db" where
  "fail_operation i error now d =
     d\<lparr>t_operations := update_where (\<lambda>r. op_id r = i)
        (\<lambda>r. r\<lparr>op_status := ''failed'', op_error := Some error, op_updated_at := now\<rparr>) (t_operations d)\<rparr>"

definition starting_message :: "action \<Rightarrow> string" where
  "starting_message a =
     (if a = ConnectionRotate then ''operation.credentials_rotating''
      else if a = UpdateApply then ''operation.update_verifying'' else ''operation.delegating'')"

definition confirmation_fits ::
  "op_config \<Rightarrow> crypto \<Rightarrow> time \<Rightarrow> action \<Rightarrow> payload \<Rightarrow> confirmation \<Rightarrow> bool" where
  "confirmation_fits oc X now a p c \<longleftrightarrow>
     cf_used_at c = None \<and> now < cf_expires_at c \<and> cf_action c = action_key a \<and> cf_payload_hash c = payload_hash oc X a p"

text \<open>
  \<open>confirm\<close>, with the synchronous start of \<open>execute\<close>: the operation is running when it
  answers.
\<close>

definition confirm_operation ::
  "op_config \<Rightarrow> crypto \<Rightarrow> (nat \<Rightarrow> string) \<Rightarrow> time \<Rightarrow> string \<Rightarrow> action \<Rightarrow> payload \<Rightarrow> string \<Rightarrow> db \<Rightarrow> (string \<times> db) result" where
  "confirm_operation oc X rnd now c a p actor d =
     (case select_one (\<lambda>r. cf_id r = c) (t_confirmations d) of
        None \<Rightarrow> Err (ServiceError 409)
      | Some row \<Rightarrow>
          if \<not> confirmation_fits oc X now a p row then Err (ServiceError 409)
          else
            bind_result (validate_action oc a p d) (\<lambda>_.
            bind_result (enqueue (rnd 0) (action_key a) None now
              (d\<lparr>t_confirmations := update_where (\<lambda>r. cf_id r = c) (\<lambda>r. r\<lparr>cf_used_at := Some now\<rparr>) (t_confirmations d)\<rparr>)) (\<lambda>d1.
            (case audit actor (action_key a @ ''.confirm'') ''operation'' (Some (rnd 0)) (Some (JObj (redact_payload a p))) now d1 of
               (i, d2) \<Rightarrow> bind_result (record_phase a Started actor (rnd 0) p (Some i) [] now d2) (\<lambda>d3.
                 Ok (rnd 0, update_operation (rnd 0) ''running'' 15 (starting_message a) None now d3))))))"

text \<open>The rest of \<open>execute\<close>, once the agent (or the rotation) answered.\<close>

definition payload_engine :: "payload \<Rightarrow> engine option" where
  "payload_engine p = (case json_get ''engine'' p of Some (JStr s) \<Rightarrow> is_engine s | _ \<Rightarrow> None)"

definition finish_operation ::
  "op_config \<Rightarrow> string \<Rightarrow> action \<Rightarrow> payload \<Rightarrow> string \<Rightarrow> payload result \<Rightarrow> time \<Rightarrow> db \<Rightarrow> db result" where
  "finish_operation oc i a p actor outcome now d =
     (case outcome of
        Inr result \<Rightarrow>
          (let d1 = (case (a, payload_engine p) of
                       (EngineUpdate, Some e) \<Rightarrow> record_installation e (js_string (coalesce (json_get ''version'' p) (JStr ''undefined''))) d
                     | _ \<Rightarrow> d);
               d2 = update_operation i ''completed'' 100 ''operation.completed'' (Some (JObj result)) now d1
           in record_phase a Completed actor i p None (operation_result_data a result p) now d2)
      | Inl x \<Rightarrow>
          record_phase a FailedPhase actor i p None [(''error'', JStr (take 500 (oc_message oc x)))] now
            (fail_operation i (oc_text oc x) now d))"

section \<open>Diagnostics\<close>

definition unfinished :: "operation_row \<Rightarrow> bool" where
  "unfinished r \<longleftrightarrow> op_status r \<in> {''queued'', ''running''}"

definition queue_diagnostic :: "string \<Rightarrow> json \<Rightarrow> string \<Rightarrow> time \<Rightarrow> db \<Rightarrow> db result" where
  "queue_diagnostic i input actor now d =
     bind_result (enqueue i ''diagnostic'' (Some (JObj [(''request'', input)])) now d) (\<lambda>d1.
       Ok (snd (audit actor ''diagnostic.run'' ''operation'' (Some i) (Some input) now d1)))"

text \<open>The answer is whether the run is to be aborted.\<close>

definition cancel_diagnostic :: "string \<Rightarrow> string \<Rightarrow> time \<Rightarrow> db \<Rightarrow> (bool \<times> db) result" where
  "cancel_diagnostic i actor now d =
     (case select_one (\<lambda>r. op_id r = i) (t_operations d) of
        None \<Rightarrow> Err (ServiceError 404)
      | Some r \<Rightarrow>
          if op_kind r \<noteq> ''diagnostic'' then Err (ServiceError 400)
          else if \<not> unfinished r then Ok (False, d)
          else Ok (True, snd (audit actor ''diagnostic.cancel'' ''operation'' (Some i) None now
                 (d\<lparr>t_operations := update_where (\<lambda>r. op_id r = i)
                      (\<lambda>r. r\<lparr>op_status := ''cancelled'', op_message := ''Diagnostic cancelled'', op_updated_at := now\<rparr>)
                      (t_operations d)\<rparr>))))"

section \<open>Reconciliation\<close>

text \<open>The newest audit row that confirmed an update, and the version of its payload.\<close>

definition confirmed_audit :: "string \<Rightarrow> db \<Rightarrow> audit_row option" where
  "confirmed_audit i d =
     select_one (\<lambda>r. au_resource_id r = Some i \<and> au_action r = ''update.apply.confirm'') (rev (t_audit d))"

definition version_data :: "audit_row option \<Rightarrow> (string \<times> json) list" where
  "version_data r =
     (case Option.bind r au_after of
        Some (JObj p) \<Rightarrow> if payload_field ''version'' p = [] then [] else [(''version'', JStr (payload_field ''version'' p))]
      | _ \<Rightarrow> [])"

text \<open>An update that the agent finished, or that was given up, gets its event once.\<close>

definition reconcile_row :: "time \<Rightarrow> operation_row \<Rightarrow> db \<Rightarrow> db result" where
  "reconcile_row now r d =
     (let type = (if op_status r = ''completed'' then ''app.updated'' else ''app.update_failed''); row = confirmed_audit (op_id r) d
      in if \<exists>e\<in>set (t_events d). ev_operation_id e = Some (op_id r) \<and> ev_type e = type then Ok d
         else record_event type (entry\<lparr>je_actor := Some (case row of None \<Rightarrow> ''system'' | Some u \<Rightarrow> au_actor u),
                je_operation_id := Some (op_id r), je_subject_type := Some ''operation'',
                je_data := version_data row @ (case op_error r of None \<Rightarrow> [] | Some x \<Rightarrow> [(''error'', JStr x)])\<rparr>) now d)"

fun reconcile_rows :: "time \<Rightarrow> operation_row list \<Rightarrow> db \<Rightarrow> db result" where
  "reconcile_rows now [] d = Ok d"
| "reconcile_rows now (r # rs) d = bind_result (reconcile_row now r d) (reconcile_rows now rs)"

text \<open>\<open>interrupted\<close> is the Russian error text of an update that was interrupted.\<close>

definition reconcile_updates :: "string \<Rightarrow> time \<Rightarrow> db \<Rightarrow> db result" where
  "reconcile_updates interrupted now d =
     (let d1 = d\<lparr>t_operations := update_where
            (\<lambda>r. op_kind r = ''update.apply'' \<and> unfinished r \<and> op_updated_at r < now - 30 * 60 * 1000)
            (\<lambda>r. r\<lparr>op_status := ''failed'', op_error := Some interrupted, op_updated_at := now\<rparr>) (t_operations d)\<rparr>
      in reconcile_rows now (filter (\<lambda>r. op_kind r = ''update.apply'' \<and> op_status r \<in> {''completed'', ''failed''}) (t_operations d1)) d1)"

text \<open>The constructor of \<open>OperationService\<close>: what a restart of the panel does.\<close>

definition start_operations :: "string \<Rightarrow> time \<Rightarrow> db \<Rightarrow> db result" where
  "start_operations interrupted now d =
     bind_result (reconcile_updates interrupted now d) (\<lambda>d1.
       Ok (d1\<lparr>t_operations := update_where (\<lambda>r. op_kind r = ''diagnostic'' \<and> unfinished r)
            (\<lambda>r. r\<lparr>op_status := ''failed'', op_error := Some ''Diagnostic interrupted by application restart'', op_updated_at := now\<rparr>)
            (t_operations d1)\<rparr>))"

text \<open>The resource samples of a diagnostic are left out unless they are asked for.\<close>

definition shown_operation :: "bool \<Rightarrow> operation_row \<Rightarrow> operation_row" where
  "shown_operation samples r =
     (if samples \<or> op_kind r \<noteq> ''diagnostic'' then r
      else r\<lparr>op_result := map_option (\<lambda>j. (case j of
             JObj kvs \<Rightarrow> JObj (filter (\<lambda>kv. fst kv \<noteq> ''resources'') kvs) | _ \<Rightarrow> j)) (op_result r)\<rparr>)"

definition get_operation :: "string \<Rightarrow> bool \<Rightarrow> db \<Rightarrow> operation_row result" where
  "get_operation i samples d =
     (case select_one (\<lambda>r. op_id r = i) (t_operations d) of
        None \<Rightarrow> Err (ServiceError 404) | Some r \<Rightarrow> Ok (shown_operation samples r))"

definition list_operations :: "string \<Rightarrow> time \<Rightarrow> db \<Rightarrow> (operation_row list \<times> db) result" where
  "list_operations interrupted now d =
     bind_result (reconcile_updates interrupted now d) (\<lambda>d1.
       Ok (map (shown_operation False) (take 50 (sort_by (\<lambda>a b. op_created_at b \<le> op_created_at a) (t_operations d1))), d1))"

end
