(* ===== verification/Operation_Safety.thy ===== *)
theory Operation_Safety
  imports Operations Auth_Safety Services
begin

text \<open>
  The life of operations over any sequence of requests, answers of the root agent, reports of
  diagnostics and restarts of the panel.
\<close>

section \<open>Steps\<close>

datatype op_call =
    Preview action payload
  | Confirm string action payload
  | Finish string "payload result"
  | RunDiagnostic string json
  | DiagnosticBegins string json
  | DiagnosticReports string json nat
  | DiagnosticEnds string "json result" bool
  | LateReport string json
  | CancelDiagnostic string string
  | ListOperations
  | RestartPanel

text \<open>
  The runs under way: a diagnostic with its abort flag, an operation with what it was confirmed
  for.  A diagnostic that ends while the timer's resource sample is still being taken reports
  once more when that sample arrives, after its task was forgotten: those runs are
  \<open>os_late\<close>.  The history holds the previews and the confirmations that were accepted.
\<close>

record op_state =
  os_db :: db
  os_tasks :: "(string \<times> bool) list"
  os_late :: "string list"
  os_executing :: "(string \<times> action \<times> payload) list"
  os_previewed :: "(string \<times> action \<times> payload) list"
  os_confirmed :: "(string \<times> action \<times> payload) list"

definition op_step :: "op_config \<Rightarrow> crypto \<Rightarrow> string \<Rightarrow> time \<Rightarrow> (nat \<Rightarrow> string) \<Rightarrow> op_call \<Rightarrow> op_state \<Rightarrow> op_state" where
  "op_step oc X interrupted now rnd call s =
     (let d = os_db s
      in case call of
           Preview a p \<Rightarrow>
             (case preview_operation oc X rnd now a p ''owner'' d of
                Inl _ \<Rightarrow> s | Inr (c, d') \<Rightarrow> s\<lparr>os_db := d', os_previewed := (c, a, p) # os_previewed s\<rparr>)
         | Confirm c a p \<Rightarrow>
             (case confirm_operation oc X rnd now c a p ''owner'' d of
                Inl _ \<Rightarrow> s
              | Inr (i, d') \<Rightarrow> s\<lparr>os_db := d', os_executing := (i, a, p) # os_executing s, os_confirmed := (c, a, p) # os_confirmed s\<rparr>)
         | Finish i outcome \<Rightarrow>
             (case map_of (os_executing s) i of
                None \<Rightarrow> s
              | Some (a, p) \<Rightarrow>
                  (case finish_operation oc i a p ''owner'' outcome now d of
                     Inl _ \<Rightarrow> s | Inr d' \<Rightarrow> s\<lparr>os_db := d', os_executing := map_delete i (os_executing s)\<rparr>))
         | RunDiagnostic actor input \<Rightarrow>
             (case queue_diagnostic (rnd 0) input actor now d of
                Inl _ \<Rightarrow> s | Inr d' \<Rightarrow> s\<lparr>os_db := d', os_tasks := (rnd 0, False) # os_tasks s\<rparr>)
         | DiagnosticBegins i input \<Rightarrow>
             (if map_of (os_tasks s) i = Some False
              then s\<lparr>os_db := update_operation i ''running'' 0 ''Diagnostic running'' (Some (JObj [(''request'', input)])) now d\<rparr>
              else s\<lparr>os_tasks := map_delete i (os_tasks s)\<rparr>)
         | DiagnosticReports i result n \<Rightarrow>
             (if map_of (os_tasks s) i = Some False
              then s\<lparr>os_db := update_operation i ''running'' n ''Diagnostic running'' (Some result) now d\<rparr> else s)
         | DiagnosticEnds i outcome sampling \<Rightarrow>
             (let s1 = s\<lparr>os_tasks := map_delete i (os_tasks s)\<rparr>
              in if map_of (os_tasks s) i = Some False
                 then s1\<lparr>os_late := (if sampling then i # os_late s else os_late s),
                         os_db := (case outcome of
                           Inr result \<Rightarrow> update_operation i ''completed'' 100 ''Diagnostic completed'' (Some result) now d
                         | Inl _ \<Rightarrow> fail_operation i ''Diagnostic failed; inspect recorded stages'' now d)\<rparr>
                 else s1)
         | LateReport i result \<Rightarrow>
             (if i \<in> set (os_late s)
              then s\<lparr>os_late := removeAll i (os_late s),
                     os_db := update_operation i ''running'' 0 ''Diagnostic running'' (Some result) now d\<rparr>
              else s)
         | CancelDiagnostic actor i \<Rightarrow>
             (case cancel_diagnostic i actor now d of
                Inl _ \<Rightarrow> s
              | Inr (abort, d') \<Rightarrow> s\<lparr>os_db := d', os_tasks := (if abort then map (\<lambda>(j, b). (j, j = i \<or> b)) (os_tasks s) else os_tasks s)\<rparr>)
         | ListOperations \<Rightarrow>
             (case list_operations interrupted now d of Inl _ \<Rightarrow> s | Inr (_, d') \<Rightarrow> s\<lparr>os_db := d'\<rparr>)
         | RestartPanel \<Rightarrow>
             (case start_operations interrupted now d of
                Inl _ \<Rightarrow> s | Inr d' \<Rightarrow> s\<lparr>os_db := d', os_tasks := [], os_late := [], os_executing := []\<rparr>))"

definition run_ops :: "op_config \<Rightarrow> crypto \<Rightarrow> string \<Rightarrow> (time \<times> (nat \<Rightarrow> string) \<times> op_call) list \<Rightarrow> op_state \<Rightarrow> op_state" where
  "run_ops oc X interrupted calls s = foldl (\<lambda>s (now, rnd, c). op_step oc X interrupted now rnd c s) s calls"

definition no_operations :: op_state where
  "no_operations = \<lparr>os_db = empty_db, os_tasks = [], os_late = [], os_executing = [], os_previewed = [], os_confirmed = []\<rparr>"

section \<open>The tables under each operation\<close>

lemma record_event_ops:
  assumes "record_event ty e now d = Ok d'"
  shows "t_operations d' = t_operations d" "t_confirmations d' = t_confirmations d" "t_audit d' = t_audit d"
  using assms by (auto simp: record_event_def event_def Let_def split: option.splits)

lemma record_phase_ops:
  assumes "record_phase a ph actor i p aid x now d = Ok d'"
  shows "t_operations d' = t_operations d" "t_confirmations d' = t_confirmations d"
  using assms record_event_ops by (auto simp: record_phase_def split: option.splits)

lemma audit_ops [simp]:
  "t_operations (snd (audit a b c r x n d)) = t_operations d" "t_confirmations (snd (audit a b c r x n d)) = t_confirmations d"
  by simp_all

lemma reconcile_rows_ops:
  "reconcile_rows now rs d = Ok d' \<Longrightarrow> t_operations d' = t_operations d \<and> t_confirmations d' = t_confirmations d"
proof (induction rs arbitrary: d)
  case (Cons r rs)
  from Cons.prems obtain d1 where d1: "reconcile_row now r d = Ok d1" and rest: "reconcile_rows now rs d1 = Ok d'" by auto
  from d1 have "t_operations d1 = t_operations d \<and> t_confirmations d1 = t_confirmations d"
    using record_event_ops by (auto simp: reconcile_row_def Let_def split: if_splits)
  with Cons.IH [OF rest] show ?case by simp
qed simp

lemma reconcile_updates_ops:
  assumes "reconcile_updates t now d = Ok d'"
  shows "t_operations d' = update_where
            (\<lambda>r. op_kind r = ''update.apply'' \<and> unfinished r \<and> op_updated_at r < now - 30 * 60 * 1000)
            (\<lambda>r. r\<lparr>op_status := ''failed'', op_error := Some t, op_updated_at := now\<rparr>) (t_operations d)"
    "t_confirmations d' = t_confirmations d"
  using reconcile_rows_ops [OF assms [unfolded reconcile_updates_def Let_def]] by simp_all

lemma enqueue_Ok:
  assumes "enqueue i kind result now d = Ok d'"
  shows "\<exists>r. d' = d\<lparr>t_operations := t_operations d @ [r]\<rparr> \<and> op_id r = i \<and> op_kind r = kind \<and> op_status r = ''queued'' \<and>
    i \<notin> op_id ` set (t_operations d)"
  using assms by (auto simp: enqueue_def split: if_splits)

lemma queue_diagnostic_Ok:
  assumes "queue_diagnostic i input actor now d = Ok d'"
  shows "\<exists>r. t_operations d' = t_operations d @ [r] \<and> op_id r = i \<and> op_kind r = ''diagnostic'' \<and> op_status r = ''queued'' \<and>
    i \<notin> op_id ` set (t_operations d)" "t_confirmations d' = t_confirmations d"
proof -
  from assms obtain d1 where d1: "enqueue i ''diagnostic'' (Some (JObj [(''request'', input)])) now d = Ok d1"
    and d': "d' = snd (audit actor ''diagnostic.run'' ''operation'' (Some i) (Some input) now d1)"
    by (auto simp: queue_diagnostic_def)
  from enqueue_Ok [OF d1] show "\<exists>r. t_operations d' = t_operations d @ [r] \<and> op_id r = i \<and> op_kind r = ''diagnostic'' \<and>
      op_status r = ''queued'' \<and> i \<notin> op_id ` set (t_operations d)" "t_confirmations d' = t_confirmations d"
    by (auto simp: d')
qed

lemma confirm_operation_Ok:
  assumes "confirm_operation oc X rnd now c a p actor d = Ok (i, d')"
  shows "i = rnd 0" "i \<notin> op_id ` set (t_operations d)"
    "\<exists>r. t_operations d' = t_operations d @ [r] \<and> op_id r = i \<and> op_kind r = action_key a \<and> op_status r = ''running''"
    "\<exists>row. select_one (\<lambda>r. cf_id r = c) (t_confirmations d) = Some row \<and> confirmation_fits oc X now a p row"
    "t_confirmations d' = update_where (\<lambda>r. cf_id r = c) (\<lambda>r. r\<lparr>cf_used_at := Some now\<rparr>) (t_confirmations d)"
proof -
  let ?d = "d\<lparr>t_confirmations := update_where (\<lambda>r. cf_id r = c) (\<lambda>r. r\<lparr>cf_used_at := Some now\<rparr>) (t_confirmations d)\<rparr>"
  let ?audit = "audit actor (action_key a @ ''.confirm'') ''operation'' (Some (rnd 0)) (Some (JObj (redact_payload a p))) now"
  from assms obtain row where row: "select_one (\<lambda>r. cf_id r = c) (t_confirmations d) = Some row" "confirmation_fits oc X now a p row"
    by (auto simp: confirm_operation_def simp del: select_one_None split: option.splits if_splits)
  with assms obtain d1 where d1: "enqueue (rnd 0) (action_key a) None now ?d = Ok d1"
    and rest: "(case ?audit d1 of (i, d2) \<Rightarrow> bind_result (record_phase a Started actor (rnd 0) p (Some i) [] now d2) (\<lambda>d3.
                 Ok (rnd 0, update_operation (rnd 0) ''running'' 15 (starting_message a) None now d3))) = Ok (i, d')"
    unfolding confirm_operation_def by (simp del: bind_result_Ok) (elim bind_resultE)
  obtain aid d2 where d2: "?audit d1 = (aid, d2)" by (cases "?audit d1")
  with rest obtain d3 where i: "i = rnd 0" and d3: "record_phase a Started actor (rnd 0) p (Some aid) [] now d2 = Ok d3"
    and d': "d' = update_operation (rnd 0) ''running'' 15 (starting_message a) None now d3" by auto
  from enqueue_Ok [OF d1] obtain r where r: "d1 = ?d\<lparr>t_operations := t_operations d @ [r]\<rparr>" "op_id r = rnd 0" "op_kind r = action_key a"
    "rnd 0 \<notin> op_id ` set (t_operations d)" by auto
  have ops: "t_operations d3 = t_operations d @ [r]" "t_confirmations d3 = t_confirmations ?d"
  proof -
    from d2 have "d2 = snd (?audit d1)" by simp
    then have "t_operations d2 = t_operations d1" "t_confirmations d2 = t_confirmations d1" by simp_all
    then show "t_operations d3 = t_operations d @ [r]" "t_confirmations d3 = t_confirmations ?d"
      using record_phase_ops [OF d3] r(1) by simp_all
  qed
  have same: "update_where (\<lambda>x. op_id x = rnd 0) f (t_operations d) = t_operations d" for f
    using r(4) unfolding update_where_def by (intro map_idI) (auto, metis image_eqI)
  show "i = rnd 0" "i \<notin> op_id ` set (t_operations d)" using i r(4) by simp_all
  show "\<exists>row. select_one (\<lambda>r. cf_id r = c) (t_confirmations d) = Some row \<and> confirmation_fits oc X now a p row" using row by blast
  show "\<exists>r. t_operations d' = t_operations d @ [r] \<and> op_id r = i \<and> op_kind r = action_key a \<and> op_status r = ''running''"
    using r by (simp add: d' update_operation_def ops same i)
  show "t_confirmations d' = update_where (\<lambda>r. cf_id r = c) (\<lambda>r. r\<lparr>cf_used_at := Some now\<rparr>) (t_confirmations d)"
    by (simp add: d' update_operation_def ops)
qed

lemma finish_operation_Ok:
  assumes "finish_operation oc i a p actor outcome now d = Ok d'"
  shows "\<exists>f. t_operations d' = update_where (\<lambda>r. op_id r = i) f (t_operations d) \<and>
      (\<forall>r. op_id (f r) = op_id r \<and> op_kind (f r) = op_kind r \<and> op_status (f r) \<in> {''completed'', ''failed''})"
    "t_confirmations d' = t_confirmations d"
proof -
  show "\<exists>f. t_operations d' = update_where (\<lambda>r. op_id r = i) f (t_operations d) \<and>
      (\<forall>r. op_id (f r) = op_id r \<and> op_kind (f r) = op_kind r \<and> op_status (f r) \<in> {''completed'', ''failed''})"
  proof (cases outcome)
    case (Inl x)
    with assms have "record_phase a FailedPhase actor i p None [(''error'', JStr (take 500 (oc_message oc x)))] now
            (fail_operation i (oc_text oc x) now d) = Ok d'" by (simp add: finish_operation_def)
    from record_phase_ops(1) [OF this] show ?thesis
      by (intro exI [of _ "\<lambda>r. r\<lparr>op_status := ''failed'', op_error := Some (oc_text oc x), op_updated_at := now\<rparr>"])
        (simp add: fail_operation_def)
  next
    case (Inr result)
    let ?d1 = "case (a, payload_engine p) of
        (EngineUpdate, Some e) \<Rightarrow> record_installation e (js_string (coalesce (json_get ''version'' p) (JStr ''undefined''))) d | _ \<Rightarrow> d"
    obtain d1 where d1: "d1 = ?d1" by blast
    have ops: "t_operations d1 = t_operations d"
      unfolding d1 by (simp add: record_installation_def split: action.split option.split)
    from Inr assms have "record_phase a Completed actor i p None (operation_result_data a result p) now
        (update_operation i ''completed'' 100 ''operation.completed'' (Some (JObj result)) now d1) = Ok d'"
      unfolding d1 by (simp add: finish_operation_def Let_def)
    from record_phase_ops(1) [OF this] show ?thesis
      by (intro exI [of _ "\<lambda>r. r\<lparr>op_status := ''completed'', op_progress := 100, op_message := ''operation.completed'',
          op_result := Some (JObj result), op_updated_at := now\<rparr>"]) (simp add: update_operation_def ops)
  qed
  show "t_confirmations d' = t_confirmations d"
    using assms record_phase_ops(2)
    by (auto simp: finish_operation_def update_operation_def fail_operation_def record_installation_def Let_def
        split: sum.splits action.splits option.splits)
qed

section \<open>The invariant\<close>

definition cancelled :: "operation_row \<Rightarrow> bool" where
  "cancelled r \<longleftrightarrow> op_status r = ''cancelled''"

definition rows_ok :: "operation_row list \<Rightarrow> (string \<times> bool) list \<Rightarrow> (string \<times> action \<times> payload) list \<Rightarrow> bool" where
  "rows_ok ops tasks ex \<longleftrightarrow>
     distinct (map op_id ops) \<and>
     (\<forall>(i, a, p)\<in>set ex. \<exists>r\<in>set ops. op_id r = i \<and> op_kind r = action_key a) \<and>
     (\<forall>(i, b)\<in>set tasks. \<exists>r\<in>set ops. op_id r = i \<and> op_kind r = ''diagnostic'') \<and>
     (\<forall>r\<in>set ops. cancelled r \<longrightarrow> op_kind r = ''diagnostic'' \<and> (op_id r, False) \<notin> set tasks)"

definition confirmations_ok ::
  "op_config \<Rightarrow> crypto \<Rightarrow> confirmation list \<Rightarrow> (string \<times> action \<times> payload) list \<Rightarrow> (string \<times> action \<times> payload) list \<Rightarrow> bool" where
  "confirmations_ok oc X cs pre con \<longleftrightarrow>
     distinct (map cf_id cs) \<and> distinct (map fst con) \<and>
     (\<forall>c\<in>set cs. \<exists>a p. (cf_id c, a, p) \<in> set pre \<and> cf_action c = action_key a \<and> cf_payload_hash c = payload_hash oc X a p) \<and>
     (\<forall>(c, a, p)\<in>set con. (\<exists>row\<in>set cs. cf_id row = c \<and> cf_used_at row \<noteq> None) \<and>
        (\<exists>p'. (c, a, p') \<in> set pre \<and> payload_hash oc X a p' = payload_hash oc X a p))"

definition op_inv :: "op_config \<Rightarrow> crypto \<Rightarrow> op_state \<Rightarrow> bool" where
  "op_inv oc X s \<longleftrightarrow> rows_ok (t_operations (os_db s)) (os_tasks s) (os_executing s) \<and>
     confirmations_ok oc X (t_confirmations (os_db s)) (os_previewed s) (os_confirmed s)"

lemma action_key_inj: "action_key a = action_key b \<longleftrightarrow> a = b"
  by (cases a; cases b) (simp_all add: action_key_def)

lemma action_not_diagnostic: "action_key a \<noteq> ''diagnostic''"
  by (cases a) (simp_all add: action_key_def)

lemma rows_okI:
  assumes "distinct (map op_id ops)"
    and "\<And>i a p. (i, a, p) \<in> set ex \<Longrightarrow> \<exists>r\<in>set ops. op_id r = i \<and> op_kind r = action_key a"
    and "\<And>i b. (i, b) \<in> set tasks \<Longrightarrow> \<exists>r\<in>set ops. op_id r = i \<and> op_kind r = ''diagnostic''"
    and "\<And>r. r \<in> set ops \<Longrightarrow> cancelled r \<Longrightarrow> op_kind r = ''diagnostic'' \<and> (op_id r, False) \<notin> set tasks"
  shows "rows_ok ops tasks ex"
  using assms unfolding rows_ok_def by blast

lemma rows_okD:
  assumes "rows_ok ops tasks ex"
  shows "distinct (map op_id ops)"
    and "(i, a, p) \<in> set ex \<Longrightarrow> \<exists>r\<in>set ops. op_id r = i \<and> op_kind r = action_key a"
    and "(i, b) \<in> set tasks \<Longrightarrow> \<exists>r\<in>set ops. op_id r = i \<and> op_kind r = ''diagnostic''"
    and "r \<in> set ops \<Longrightarrow> cancelled r \<Longrightarrow> op_kind r = ''diagnostic'' \<and> (op_id r, False) \<notin> set tasks"
  using assms unfolding rows_ok_def by blast+

lemma rows_touched:
  assumes "rows_ok ops tasks ex" "\<And>r. op_id (f r) = op_id r \<and> op_kind (f r) = op_kind r \<and> \<not> cancelled (f r)"
  shows "rows_ok (update_where q f ops) tasks ex"
proof -
  have ids: "map op_id (update_where q f ops) = map op_id ops" using assms(2) by (simp add: update_where_def)
  have kept: "(\<exists>r\<in>set ops. op_id r = i \<and> op_kind r = k) \<Longrightarrow> \<exists>r\<in>set (update_where q f ops). op_id r = i \<and> op_kind r = k" for i k
  proof -
    assume "\<exists>r\<in>set ops. op_id r = i \<and> op_kind r = k"
    then obtain r where "r \<in> set ops" "op_id r = i" "op_kind r = k" by blast
    with assms(2) show "\<exists>r\<in>set (update_where q f ops). op_id r = i \<and> op_kind r = k"
      by (intro bexI [of _ "if q r then f r else r"]) (auto simp: set_update_where)
  qed
  have "r \<in> set ops" if "r \<in> set (update_where q f ops)" "cancelled r" for r
    using that assms(2) by (auto simp: set_update_where)
  note cancelled = this
  show ?thesis
  proof (rule rows_okI)
    show "distinct (map op_id (update_where q f ops))" using rows_okD(1) [OF assms(1)] by (simp add: ids)
  next
    fix i a p
    assume "(i, a, p) \<in> set ex"
    then show "\<exists>r\<in>set (update_where q f ops). op_id r = i \<and> op_kind r = action_key a"
      by (rule kept [OF rows_okD(2) [OF assms(1)]])
  next
    fix i b
    assume "(i, b) \<in> set tasks"
    then show "\<exists>r\<in>set (update_where q f ops). op_id r = i \<and> op_kind r = ''diagnostic''"
      by (rule kept [OF rows_okD(3) [OF assms(1)]])
  next
    fix r
    assume "r \<in> set (update_where q f ops)" "cancelled r"
    then show "op_kind r = ''diagnostic'' \<and> (op_id r, False) \<notin> set tasks"
      using rows_okD(4) [OF assms(1) cancelled] by blast
  qed
qed

lemma rows_added:
  assumes "rows_ok ops tasks ex" "op_id r \<notin> op_id ` set ops" "\<not> cancelled r"
  shows "rows_ok (ops @ [r]) tasks ex"
    "op_kind r = action_key a \<Longrightarrow> rows_ok (ops @ [r]) tasks ((op_id r, a, p) # ex)"
    "op_kind r = ''diagnostic'' \<Longrightarrow> rows_ok (ops @ [r]) ((op_id r, b) # tasks) ex"
  using assms unfolding rows_ok_def by (fastforce simp: image_iff)+

lemma rows_fewer:
  assumes "rows_ok ops tasks ex" "set tasks' \<subseteq> set tasks" "set ex' \<subseteq> set ex"
  shows "rows_ok ops tasks' ex'"
  using assms unfolding rows_ok_def by blast

lemma map_delete_subset: "set (map_delete k m) \<subseteq> set m"
  by (auto simp: map_delete_def)

lemma rows_cancelled:
  assumes ok: "rows_ok ops tasks ex" and r: "r \<in> set ops" "op_id r = i" "op_kind r = ''diagnostic''"
  shows "rows_ok (update_where (\<lambda>r. op_id r = i) (\<lambda>r. r\<lparr>op_status := ''cancelled'', op_message := m, op_updated_at := now\<rparr>) ops)
    (map (\<lambda>(j, b). (j, j = i \<or> b)) tasks) ex"
proof -
  let ?f = "\<lambda>r. r\<lparr>op_status := ''cancelled'', op_message := m, op_updated_at := now\<rparr>"
  let ?ops = "update_where (\<lambda>r. op_id r = i) ?f ops"
  have ids: "map op_id ?ops = map op_id ops" by (simp add: update_where_def)
  have kept: "\<exists>x\<in>set ?ops. op_id x = j \<and> op_kind x = k" if "\<exists>x\<in>set ops. op_id x = j \<and> op_kind x = k" for j k
  proof -
    from that obtain x where "x \<in> set ops" "op_id x = j" "op_kind x = k" by blast
    then show ?thesis by (intro bexI [of _ "if op_id x = i then ?f x else x"]) (auto simp: set_update_where)
  qed
  have "op_kind x = ''diagnostic'' \<and> (op_id x, False) \<notin> set (map (\<lambda>(j, b). (j, j = i \<or> b)) tasks)"
    if x: "x \<in> set ?ops" "cancelled x" for x
  proof -
    from x(1) obtain y where y: "y \<in> set ops" "x = (if op_id y = i then ?f y else y)" by (auto simp: set_update_where)
    show ?thesis
    proof (cases "op_id y = i")
      case True
      then have "y = r" using ok r(1,2) y(1) by (auto simp: rows_ok_def distinct_map inj_on_def)
      with True y r show ?thesis by auto
    next
      case False
      with y x(2) ok show ?thesis by (auto simp: rows_ok_def)
    qed
  qed
  note aborted = this
  show ?thesis
  proof (rule rows_okI)
    show "distinct (map op_id ?ops)" using rows_okD(1) [OF ok] by (simp add: ids)
  next
    fix j a p
    assume "(j, a, p) \<in> set ex"
    then show "\<exists>x\<in>set ?ops. op_id x = j \<and> op_kind x = action_key a" by (rule kept [OF rows_okD(2) [OF ok]])
  next
    fix j b
    assume "(j, b) \<in> set (map (\<lambda>(j, b). (j, j = i \<or> b)) tasks)"
    then obtain b' where "(j, b') \<in> set tasks" by auto
    then show "\<exists>x\<in>set ?ops. op_id x = j \<and> op_kind x = ''diagnostic''" by (rule kept [OF rows_okD(3) [OF ok]])
  next
    fix x
    assume "x \<in> set ?ops" "cancelled x"
    then show "op_kind x = ''diagnostic'' \<and> (op_id x, False) \<notin> set (map (\<lambda>(j, b). (j, j = i \<or> b)) tasks)" by (rule aborted)
  qed
qed

lemma rows_updated:
  "rows_ok (t_operations d) tasks ex \<Longrightarrow> st \<noteq> ''cancelled'' \<Longrightarrow> rows_ok (t_operations (update_operation i st n m res now d)) tasks ex"
  "rows_ok (t_operations d) tasks ex \<Longrightarrow> rows_ok (t_operations (fail_operation i x now d)) tasks ex"
  unfolding update_operation_def fail_operation_def by (simp_all, (rule rows_touched; simp add: cancelled_def)+)

lemma confirmations_same [simp]:
  "t_confirmations (update_operation i st n m res now d) = t_confirmations d"
  "t_confirmations (fail_operation i x now d) = t_confirmations d"
  by (simp_all add: update_operation_def fail_operation_def)

lemma rows_reconciled:
  assumes "rows_ok (t_operations d) tasks ex" "reconcile_updates t now d = Ok d'"
  shows "rows_ok (t_operations d') tasks ex"
  unfolding reconcile_updates_ops(1) [OF assms(2)] using assms(1) by (rule rows_touched) (simp add: cancelled_def)

lemma preview_Ok:
  assumes "preview_operation oc X rnd now a p actor d = Ok (c, d')"
  shows "t_operations d' = t_operations d" "c \<notin> cf_id ` set (t_confirmations d)"
    "\<exists>row. t_confirmations d' = t_confirmations d @ [row] \<and> cf_id row = c \<and> cf_action row = action_key a \<and>
       cf_payload_hash row = payload_hash oc X a p"
  using assms by (auto simp: preview_operation_def Let_def split: if_splits)

lemma confirmations_previewed:
  assumes "confirmations_ok oc X cs pre con" "cf_id row = c" "cf_action row = action_key a"
    "cf_payload_hash row = payload_hash oc X a p" "c \<notin> cf_id ` set cs"
  shows "confirmations_ok oc X (cs @ [row]) ((c, a, p) # pre) con"
  using assms unfolding confirmations_ok_def by (auto 0 3)

lemma confirmations_confirmed:
  assumes ok: "confirmations_ok oc X cs pre con" and row: "select_one (\<lambda>r. cf_id r = c) cs = Some row"
    and fits: "confirmation_fits oc X now a p row"
  shows "confirmations_ok oc X (update_where (\<lambda>r. cf_id r = c) (\<lambda>r. r\<lparr>cf_used_at := Some now\<rparr>) cs) pre ((c, a, p) # con)"
proof -
  let ?cs = "update_where (\<lambda>r. cf_id r = c) (\<lambda>r. r\<lparr>cf_used_at := Some now\<rparr>) cs"
  have r: "row \<in> set cs" "cf_id row = c" using select_one_Some [OF row] by simp_all
  have d: "distinct (map cf_id cs)" "distinct (map fst con)"
    and pre: "\<And>x. x \<in> set cs \<Longrightarrow> \<exists>a p. (cf_id x, a, p) \<in> set pre \<and> cf_action x = action_key a \<and> cf_payload_hash x = payload_hash oc X a p"
    and used: "\<And>c a p. (c, a, p) \<in> set con \<Longrightarrow> (\<exists>row\<in>set cs. cf_id row = c \<and> cf_used_at row \<noteq> None)"
    and same: "\<And>c a p. (c, a, p) \<in> set con \<Longrightarrow> \<exists>p'. (c, a, p') \<in> set pre \<and> payload_hash oc X a p' = payload_hash oc X a p"
    using ok unfolding confirmations_ok_def by blast+
  have fresh: "c \<notin> fst ` set con"
  proof
    assume "c \<in> fst ` set con"
    then obtain x where x: "x \<in> set cs" "cf_id x = c" "cf_used_at x \<noteq> None" using used by fastforce
    with r d(1) have "x = row" by (auto simp: distinct_map inj_on_def)
    with x(3) fits show False by (simp add: confirmation_fits_def)
  qed
  have ids: "map cf_id ?cs = map cf_id cs" by (simp add: update_where_def)
  have pre': "\<exists>a p. (cf_id x, a, p) \<in> set pre \<and> cf_action x = action_key a \<and> cf_payload_hash x = payload_hash oc X a p"
    if x: "x \<in> set ?cs" for x
  proof -
    from x obtain y where "y \<in> set cs" "cf_id x = cf_id y" "cf_action x = cf_action y" "cf_payload_hash x = cf_payload_hash y"
      by (auto simp: set_update_where)
    with pre [of y] show ?thesis by simp
  qed
  have used': "\<exists>row\<in>set ?cs. cf_id row = c' \<and> cf_used_at row \<noteq> None" if "(c', a', p') \<in> set ((c, a, p) # con)" for c' a' p'
  proof -
    from that used [of c' a' p'] r obtain y where "y \<in> set cs" "cf_id y = c'" "c' = c \<or> cf_used_at y \<noteq> None" by auto
    then show ?thesis
      by (intro bexI [of _ "if cf_id y = c then y\<lparr>cf_used_at := Some now\<rparr> else y"]) (auto simp: set_update_where)
  qed
  obtain a0 p0 where "(c, a0, p0) \<in> set pre" "cf_action row = action_key a0" "cf_payload_hash row = payload_hash oc X a0 p0"
    using pre [OF r(1)] r(2) by auto
  with fits have "(c, a, p0) \<in> set pre \<and> payload_hash oc X a p0 = payload_hash oc X a p"
    by (auto simp: confirmation_fits_def action_key_inj)
  then have same': "\<exists>p''. (c', a', p'') \<in> set pre \<and> payload_hash oc X a' p'' = payload_hash oc X a' p'"
    if "(c', a', p') \<in> set ((c, a, p) # con)" for c' a' p'
    using that same [of c' a' p'] by auto
  have "distinct (map cf_id ?cs)" "distinct (map fst ((c, a, p) # con))" using d ids fresh by simp_all
  with pre' used' same' show ?thesis unfolding confirmations_ok_def by (intro conjI) blast+
qed

lemma op_step_inv:
  assumes inv: "op_inv oc X s"
  shows "op_inv oc X (op_step oc X t now rnd call s)"
proof -
  let ?d = "os_db s"
  from inv have rows: "rows_ok (t_operations ?d) (os_tasks s) (os_executing s)"
    and conf: "confirmations_ok oc X (t_confirmations ?d) (os_previewed s) (os_confirmed s)" by (simp_all add: op_inv_def)
  note fewer = rows_fewer [OF _ map_delete_subset order.refl] rows_fewer [OF _ order.refl map_delete_subset]
  show ?thesis
  proof (cases call)
    case (Preview a p)
    show ?thesis
    proof (cases "preview_operation oc X rnd now a p ''owner'' ?d")
      case (Inr x)
      obtain c d' where x: "x = (c, d')" by (cases x)
      note P = preview_Ok [OF Inr [unfolded x]]
      from P(3) obtain row where "t_confirmations d' = t_confirmations ?d @ [row]" "cf_id row = c" "cf_action row = action_key a"
        "cf_payload_hash row = payload_hash oc X a p" by blast
      with P(1,2) rows confirmations_previewed [OF conf] show ?thesis by (simp add: op_step_def Preview Inr x op_inv_def)
    qed (use inv in \<open>simp add: op_step_def Preview\<close>)
  next
    case (Confirm c a p)
    show ?thesis
    proof (cases "confirm_operation oc X rnd now c a p ''owner'' ?d")
      case (Inr x)
      obtain i d' where x: "x = (i, d')" by (cases x)
      note C = confirm_operation_Ok [OF Inr [unfolded x]]
      obtain r where r: "t_operations d' = t_operations ?d @ [r]" "op_id r = i" "op_kind r = action_key a" "\<not> cancelled r"
        using C(3) by (auto simp: cancelled_def)
      obtain row where row: "select_one (\<lambda>r. cf_id r = c) (t_confirmations ?d) = Some row" "confirmation_fits oc X now a p row"
        using C(4) by blast
      have "rows_ok (t_operations d') (os_tasks s) ((i, a, p) # os_executing s)"
        using rows_added(2) [OF rows _ r(4), of a p] C(2) r(1-3) by simp
      with confirmations_confirmed [OF conf row] C(5) show ?thesis by (simp add: op_step_def Confirm Inr x op_inv_def)
    qed (use inv in \<open>simp add: op_step_def Confirm\<close>)
  next
    case (Finish i outcome)
    show ?thesis
    proof (cases "map_of (os_executing s) i")
      case (Some ap)
      obtain a p where ap: "ap = (a, p)" by (cases ap)
      show ?thesis
      proof (cases "finish_operation oc i a p ''owner'' outcome now ?d")
        case (Inr d')
        note F = finish_operation_Ok [OF Inr]
        from F(1) obtain f where f: "t_operations d' = update_where (\<lambda>r. op_id r = i) f (t_operations ?d)"
          and raw: "\<forall>r. op_id (f r) = op_id r \<and> op_kind (f r) = op_kind r \<and> op_status (f r) \<in> {''completed'', ''failed''}" by blast
        from raw have keep: "op_id (f r) = op_id r \<and> op_kind (f r) = op_kind r \<and> \<not> cancelled (f r)" for r
          by (drule_tac x = r in spec) (auto simp: cancelled_def)
        have "rows_ok (t_operations d') (os_tasks s) (os_executing s)" unfolding f using rows keep by (rule rows_touched)
        with fewer(2) F(2) conf show ?thesis by (simp add: op_step_def Finish Some ap Inr op_inv_def)
      qed (use inv in \<open>simp add: op_step_def Finish Some ap\<close>)
    qed (use inv in \<open>simp add: op_step_def Finish\<close>)
  next
    case (RunDiagnostic actor input)
    show ?thesis
    proof (cases "queue_diagnostic (rnd 0) input actor now ?d")
      case (Inr d')
      note Q = queue_diagnostic_Ok [OF Inr]
      obtain r where r: "t_operations d' = t_operations ?d @ [r]" "op_id r = rnd 0" "op_kind r = ''diagnostic''" "\<not> cancelled r"
        "rnd 0 \<notin> op_id ` set (t_operations ?d)"
        using Q(1) by (auto simp: cancelled_def)
      have "rows_ok (t_operations d') ((rnd 0, False) # os_tasks s) (os_executing s)"
        using rows_added(3) [OF rows _ r(4), of False] r by simp
      with Q(2) conf show ?thesis by (simp add: op_step_def RunDiagnostic Inr op_inv_def)
    qed (use inv in \<open>simp add: op_step_def RunDiagnostic\<close>)
  next
    case (DiagnosticBegins i input)
    with rows conf rows_updated(1) fewer(1) [OF rows] show ?thesis by (simp add: op_step_def op_inv_def)
  next
    case (DiagnosticReports i result n)
    with rows conf rows_updated(1) show ?thesis by (simp add: op_step_def op_inv_def)
  next
    case (DiagnosticEnds i outcome sampling)
    with rows conf rows_updated fewer(1) show ?thesis by (cases outcome) (simp_all add: op_step_def op_inv_def Let_def)
  next
    case (LateReport i result)
    with rows conf rows_updated(1) show ?thesis by (simp add: op_step_def op_inv_def)
  next
    case (CancelDiagnostic actor i)
    show ?thesis
    proof (cases "cancel_diagnostic i actor now ?d")
      case (Inr x)
      obtain abort d' where x: "x = (abort, d')" by (cases x)
      from Inr obtain r where r: "select_one (\<lambda>r. op_id r = i) (t_operations ?d) = Some r" "op_kind r = ''diagnostic''"
        by (auto simp: cancel_diagnostic_def simp del: select_one_None split: option.splits if_splits)
      show ?thesis
      proof (cases "unfinished r")
        case True
        then have "abort" "t_operations d' = update_where (\<lambda>r. op_id r = i)
            (\<lambda>r. r\<lparr>op_status := ''cancelled'', op_message := ''Diagnostic cancelled'', op_updated_at := now\<rparr>) (t_operations ?d)"
          "t_confirmations d' = t_confirmations ?d"
          using Inr r by (auto simp: cancel_diagnostic_def x)
        with rows_cancelled [OF rows _ _ r(2), of i] select_one_Some [OF r(1)] conf show ?thesis
          by (simp add: op_step_def CancelDiagnostic Inr x op_inv_def)
      next
        case False
        with Inr r have "\<not> abort" "d' = ?d" by (auto simp: cancel_diagnostic_def x)
        with inv show ?thesis by (simp add: op_step_def CancelDiagnostic Inr x op_inv_def)
      qed
    qed (use inv in \<open>simp add: op_step_def CancelDiagnostic\<close>)
  next
    case ListOperations
    show ?thesis
    proof (cases "list_operations t now ?d")
      case (Inr x)
      obtain ops d' where x: "x = (ops, d')" by (cases x)
      with Inr have "reconcile_updates t now ?d = Ok d'" by (auto simp: list_operations_def)
      with rows_reconciled [OF rows this] reconcile_updates_ops(2) [OF this] conf show ?thesis
        by (simp add: op_step_def ListOperations Inr x op_inv_def)
    qed (use inv in \<open>simp add: op_step_def ListOperations\<close>)
  next
    case RestartPanel
    show ?thesis
    proof (cases "start_operations t now ?d")
      case (Inr d')
      then obtain d1 where d1: "reconcile_updates t now ?d = Ok d1" and d': "d' = d1\<lparr>t_operations := update_where (\<lambda>r. op_kind r = ''diagnostic'' \<and> unfinished r)
            (\<lambda>r. r\<lparr>op_status := ''failed'', op_error := Some ''Diagnostic interrupted by application restart'', op_updated_at := now\<rparr>)
            (t_operations d1)\<rparr>" by (auto simp: start_operations_def)
      have "rows_ok (t_operations d') (os_tasks s) (os_executing s)"
        unfolding d' using rows_reconciled [OF rows d1] by (simp, intro rows_touched) (simp_all add: cancelled_def)
      then have "rows_ok (t_operations d') [] []" by (rule rows_fewer) simp_all
      with conf reconcile_updates_ops(2) [OF d1] show ?thesis by (simp add: op_step_def RestartPanel Inr op_inv_def d')
    qed (use inv in \<open>simp add: op_step_def RestartPanel\<close>)
  qed
qed

interpretation ops: invariant_service "\<lambda>s (now, rnd, c). op_step oc X t now rnd c s" "op_inv oc X" for oc X t
  by unfold_locales (auto simp: op_step_inv)

lemma run_ops_inv: "op_inv oc X s \<Longrightarrow> op_inv oc X (run_ops oc X t calls s)"
  unfolding run_ops_def by (rule ops.run_inv)

lemma no_operations_inv [simp]: "op_inv oc X no_operations"
  by (simp add: op_inv_def rows_ok_def confirmations_ok_def no_operations_def empty_db_def)

section \<open>Rows nothing touches any more\<close>

definition row_quiet :: "op_state \<Rightarrow> operation_row \<Rightarrow> bool" where
  "row_quiet s r \<longleftrightarrow> r \<in> set (t_operations (os_db s)) \<and> op_id r \<notin> fst ` set (os_executing s) \<and> (op_id r, False) \<notin> set (os_tasks s) \<and>
     \<not> (unfinished r \<and> op_kind r \<in> {''diagnostic'', ''update.apply''})"

definition row_settled :: "op_state \<Rightarrow> operation_row \<Rightarrow> bool" where
  "row_settled s r \<longleftrightarrow> row_quiet s r \<and> op_id r \<notin> set (os_late s)"

lemma update_where_keeps: "r \<in> set rows \<Longrightarrow> \<not> q r \<Longrightarrow> r \<in> set (update_where q f rows)"
  by (auto simp: set_update_where)

lemma row_quiet_step:
  assumes inv: "op_inv oc X s" and r: "row_quiet s r" and late: "\<And>result. call \<noteq> LateReport (op_id r) result \<or> op_id r \<notin> set (os_late s)"
  shows "row_quiet (op_step oc X t now rnd call s) r"
proof -
  let ?d = "os_db s"
  from r have row: "r \<in> set (t_operations ?d)" and ex: "op_id r \<notin> fst ` set (os_executing s)"
    and task: "(op_id r, False) \<notin> set (os_tasks s)" and over: "\<not> (unfinished r \<and> op_kind r \<in> {''diagnostic'', ''update.apply''})"
    by (simp_all add: row_quiet_def)
  from inv have rows: "rows_ok (t_operations ?d) (os_tasks s) (os_executing s)" by (simp add: op_inv_def)
  have known: "op_id r \<in> op_id ` set (t_operations ?d)" using row by simp
  have other: "r \<in> set (update_where (\<lambda>x. op_id x = i) f (t_operations ?d))" if "op_id r \<noteq> i" for i f
    using row that by (simp add: update_where_keeps)
  have open_task: "op_id r \<noteq> i" if "map_of (os_tasks s) i = Some False" for i
    using task map_of_SomeD [OF that] by auto
  have reconciled: "r \<in> set (t_operations d')" if "reconcile_updates t now ?d = Ok d'" for d'
    unfolding reconcile_updates_ops(1) [OF that] using row over by (intro update_where_keeps) auto
  have fewer: "(op_id r, False) \<notin> set (map_delete i (os_tasks s))" "op_id r \<notin> fst ` set (map_delete i (os_executing s))" for i
    using task ex map_delete_subset by (auto simp: map_delete_def)
  show ?thesis
  proof (cases call)
    case (Preview a p)
    then show ?thesis using r by (auto simp: op_step_def row_quiet_def dest: preview_Ok(1) split: sum.split prod.split)
  next
    case (Confirm c a p)
    show ?thesis
    proof (cases "confirm_operation oc X rnd now c a p ''owner'' ?d")
      case (Inr x)
      obtain i d' where x: "x = (i, d')" by (cases x)
      note C = confirm_operation_Ok [OF Inr [unfolded x]]
      have "r \<in> set (t_operations d')" using C(3) row by auto
      moreover have "op_id r \<noteq> i" using C(2) known by auto
      ultimately show ?thesis using ex task over by (simp add: op_step_def Confirm Inr x row_quiet_def)
    qed (use r in \<open>simp add: op_step_def Confirm\<close>)
  next
    case (Finish i outcome)
    show ?thesis
    proof (cases "map_of (os_executing s) i")
      case (Some ap)
      obtain a p where ap: "ap = (a, p)" by (cases ap)
      have ne: "op_id r \<noteq> i" using ex map_of_SomeD [OF Some] by force
      show ?thesis
      proof (cases "finish_operation oc i a p ''owner'' outcome now ?d")
        case (Inr d')
        from finish_operation_Ok(1) [OF Inr] other [OF ne] have "r \<in> set (t_operations d')" by auto
        with fewer task over show ?thesis by (simp add: op_step_def Finish Some ap Inr row_quiet_def)
      qed (use r in \<open>simp add: op_step_def Finish Some ap\<close>)
    qed (use r in \<open>simp add: op_step_def Finish\<close>)
  next
    case (RunDiagnostic actor input)
    show ?thesis
    proof (cases "queue_diagnostic (rnd 0) input actor now ?d")
      case (Inr d')
      from queue_diagnostic_Ok(1) [OF Inr] row have "r \<in> set (t_operations d')" by auto
      moreover from queue_diagnostic_Ok(1) [OF Inr] known have "op_id r \<noteq> rnd 0" by metis
      ultimately show ?thesis using ex task over by (simp add: op_step_def RunDiagnostic Inr row_quiet_def)
    qed (use r in \<open>simp add: op_step_def RunDiagnostic\<close>)
  next
    case (DiagnosticBegins i input)
    then show ?thesis using ex task over other [OF open_task] row fewer(1)
      by (auto simp: op_step_def row_quiet_def update_operation_def)
  next
    case (DiagnosticReports i result n)
    then show ?thesis using ex task over other [OF open_task] row
      by (auto simp: op_step_def row_quiet_def update_operation_def)
  next
    case (DiagnosticEnds i outcome sampling)
    then show ?thesis using ex over other [OF open_task] row fewer(1)
      by (cases outcome) (auto simp: op_step_def row_quiet_def update_operation_def fail_operation_def Let_def)
  next
    case (LateReport i result)
    with late have "i \<in> set (os_late s) \<Longrightarrow> op_id r \<noteq> i" by auto
    with LateReport show ?thesis using ex task over other row
      by (auto simp: op_step_def row_quiet_def update_operation_def)
  next
    case (CancelDiagnostic actor i)
    show ?thesis
    proof (cases "cancel_diagnostic i actor now ?d")
      case (Inr x)
      obtain abort d' where x: "x = (abort, d')" by (cases x)
      from Inr obtain y where y: "select_one (\<lambda>r. op_id r = i) (t_operations ?d) = Some y" "op_kind y = ''diagnostic''"
        by (auto simp: cancel_diagnostic_def simp del: select_one_None split: option.splits if_splits)
      have "r \<in> set (t_operations d')"
      proof (cases "unfinished y")
        case True
        have "op_id r \<noteq> i"
        proof
          assume "op_id r = i"
          with select_one_Some [OF y(1)] row rows_okD(1) [OF rows] have "r = y" by (auto simp: distinct_map inj_on_def)
          with True y(2) over show False by simp
        qed
        with True Inr y other show ?thesis by (auto simp: cancel_diagnostic_def x)
      next
        case False
        with Inr y row show ?thesis by (auto simp: cancel_diagnostic_def x)
      qed
      moreover have "(op_id r, False) \<notin> set (map (\<lambda>(j, b). (j, j = i \<or> b)) (os_tasks s))" using task by auto
      ultimately show ?thesis using ex task over by (simp add: op_step_def CancelDiagnostic Inr x row_quiet_def)
    qed (use r in \<open>simp add: op_step_def CancelDiagnostic\<close>)
  next
    case ListOperations
    then show ?thesis using r reconciled
      by (auto simp: op_step_def row_quiet_def list_operations_def split: sum.split prod.split)
  next
    case RestartPanel
    show ?thesis
    proof (cases "start_operations t now ?d")
      case (Inr d')
      then obtain d1 where d1: "reconcile_updates t now ?d = Ok d1" and d': "t_operations d' = update_where (\<lambda>r. op_kind r = ''diagnostic'' \<and> unfinished r)
            (\<lambda>r. r\<lparr>op_status := ''failed'', op_error := Some ''Diagnostic interrupted by application restart'', op_updated_at := now\<rparr>)
            (t_operations d1)" by (auto simp: start_operations_def)
      have "r \<in> set (t_operations d')" unfolding d' using reconciled [OF d1] over by (intro update_where_keeps) auto
      with over show ?thesis by (simp add: op_step_def RestartPanel Inr row_quiet_def)
    qed (use r in \<open>simp add: op_step_def RestartPanel\<close>)
  qed
qed

lemma late_step:
  assumes "i \<in> set (os_late (op_step oc X t now rnd call s))"
  shows "(\<exists>outcome. call = DiagnosticEnds i outcome True \<and> map_of (os_tasks s) i = Some False) \<or>
    i \<in> set (os_late s) \<and> (\<forall>result. call \<noteq> LateReport i result)"
proof (cases call)
  case (DiagnosticEnds j outcome sampling)
  with assms show ?thesis by (cases sampling) (auto simp: op_step_def Let_def split: if_splits)
qed (use assms in \<open>auto simp: op_step_def Let_def split: sum.splits option.splits prod.splits if_splits\<close>)

lemma row_settled_step:
  assumes inv: "op_inv oc X s" and r: "row_settled s r"
  shows "row_settled (op_step oc X t now rnd call s) r"
proof -
  have "op_id r \<notin> set (os_late (op_step oc X t now rnd call s))"
    using late_step [of "op_id r" oc X t now rnd call s] r by (auto simp: row_settled_def row_quiet_def dest: map_of_SomeD)
  with row_quiet_step [OF inv] r show ?thesis by (simp add: row_settled_def)
qed

text \<open>A run that may report late has ended: its row is completed or failed.\<close>

definition late_ok :: "op_state \<Rightarrow> bool" where
  "late_ok s \<longleftrightarrow> (\<forall>i\<in>set (os_late s). \<exists>r. row_quiet s r \<and> op_id r = i \<and> op_status r \<in> {''completed'', ''failed''})"

lemma ended_quiet:
  assumes inv: "op_inv oc X s" and task: "map_of (os_tasks s) i = Some False"
  shows "\<exists>r. row_quiet (op_step oc X t now rnd (DiagnosticEnds i outcome sampling) s) r \<and> op_id r = i \<and> op_status r \<in> {''completed'', ''failed''}"
proof -
  let ?ops = "t_operations (os_db s)"
  from inv have rows: "rows_ok ?ops (os_tasks s) (os_executing s)" by (simp add: op_inv_def)
  from rows_okD(3) [OF rows map_of_SomeD [OF task]] obtain r where r: "r \<in> set ?ops" "op_id r = i" "op_kind r = ''diagnostic''" by blast
  have ex: "i \<notin> fst ` set (os_executing s)"
  proof
    assume "i \<in> fst ` set (os_executing s)"
    then obtain a p where "(i, a, p) \<in> set (os_executing s)" by auto
    from rows_okD(2) [OF rows this] obtain y where y: "y \<in> set ?ops" "op_id y = i" "op_kind y = action_key a" by blast
    with r rows_okD(1) [OF rows] have "y = r" by (auto simp: distinct_map inj_on_def)
    with y(3) r(3) show False by (metis action_not_diagnostic)
  qed
  define f :: "operation_row \<Rightarrow> operation_row" where "f = (case outcome of
      Inr result \<Rightarrow> (\<lambda>r. r\<lparr>op_status := ''completed'', op_progress := 100, op_message := ''Diagnostic completed'', op_result := Some result, op_updated_at := now\<rparr>)
    | Inl _ \<Rightarrow> (\<lambda>r. r\<lparr>op_status := ''failed'', op_error := Some ''Diagnostic failed; inspect recorded stages'', op_updated_at := now\<rparr>))"
  have ops: "t_operations (os_db (op_step oc X t now rnd (DiagnosticEnds i outcome sampling) s)) = update_where (\<lambda>r. op_id r = i) f ?ops"
    using task by (cases outcome) (simp_all add: op_step_def Let_def update_operation_def fail_operation_def f_def)
  have f: "op_id (f r) = i" "op_status (f r) \<in> {''completed'', ''failed''}" using r by (cases outcome; simp add: f_def)+
  have "f r \<in> set (update_where (\<lambda>r. op_id r = i) f ?ops)" using r by (auto simp: set_update_where)
  have "row_quiet (op_step oc X t now rnd (DiagnosticEnds i outcome sampling) s) (f r)"
  proof -
    let ?s1 = "op_step oc X t now rnd (DiagnosticEnds i outcome sampling) s"
    have "os_executing ?s1 = os_executing s" "(i, False) \<notin> set (os_tasks ?s1)"
      using task by (simp_all add: op_step_def Let_def map_delete_def)
    with \<open>f r \<in> _\<close> ex f show ?thesis by (simp add: row_quiet_def ops unfinished_def, elim conjE disjE, simp_all)
  qed
  with f show ?thesis by blast
qed

lemma late_ok_step:
  assumes inv: "op_inv oc X s" and late: "late_ok s"
  shows "late_ok (op_step oc X t now rnd call s)"
  unfolding late_ok_def
proof
  fix i
  assume "i \<in> set (os_late (op_step oc X t now rnd call s))"
  from late_step [OF this] show "\<exists>r. row_quiet (op_step oc X t now rnd call s) r \<and> op_id r = i \<and> op_status r \<in> {''completed'', ''failed''}"
  proof (elim disjE)
    assume "\<exists>outcome. call = DiagnosticEnds i outcome True \<and> map_of (os_tasks s) i = Some False"
    with ended_quiet [OF inv] show ?thesis by blast
  next
    assume old: "i \<in> set (os_late s) \<and> (\<forall>result. call \<noteq> LateReport i result)"
    with late obtain r where "row_quiet s r" "op_id r = i" "op_status r \<in> {''completed'', ''failed''}" unfolding late_ok_def by blast
    with row_quiet_step [OF inv, of r call] old show ?thesis by blast
  qed
qed

interpretation late: settling_service "\<lambda>s (now, rnd, c). op_step oc X t now rnd c s" "op_inv oc X" late_ok for oc X t
  by unfold_locales (auto simp: late_ok_step)

lemma run_ops_late: "op_inv oc X s \<Longrightarrow> late_ok s \<Longrightarrow> late_ok (run_ops oc X t calls s)"
  unfolding run_ops_def by (rule late.run_settled)

lemma no_operations_late [simp]: "late_ok no_operations"
  by (simp add: late_ok_def no_operations_def)

interpretation rows: settling_service "\<lambda>s (now, rnd, c). op_step oc X t now rnd c s" "op_inv oc X" "\<lambda>s. row_settled s r" for oc X t r
  by unfold_locales (auto simp: row_settled_step)

lemma row_settled_run: "op_inv oc X s \<Longrightarrow> row_settled s r \<Longrightarrow> row_settled (run_ops oc X t calls s) r"
  unfolding run_ops_def by (rule rows.run_settled)

section \<open>What an owner can rely on\<close>

text \<open>
  C38.  Only what was previewed is run: every accepted confirmation names a preview of the same
  action and of a payload whose canonical JSON text has the same hash, and no preview is
  confirmed twice.
\<close>

theorem confirmed_as_previewed:
  "let s = run_ops oc X t calls no_operations in
   distinct (map fst (os_confirmed s)) \<and>
   list_all (\<lambda>(c, a, p). \<exists>p'. (c, a, p') \<in> set (os_previewed s) \<and> payload_hash oc X a p' = payload_hash oc X a p) (os_confirmed s)"
proof -
  obtain s where s: "s = run_ops oc X t calls no_operations" by blast
  then have "op_inv oc X s" using run_ops_inv [OF no_operations_inv] by simp
  then have ok: "confirmations_ok oc X (t_confirmations (os_db s)) (os_previewed s) (os_confirmed s)" by (simp add: op_inv_def)
  have "distinct (map fst (os_confirmed s))" using ok unfolding confirmations_ok_def by blast
  moreover have "\<exists>p'. (c, a, p') \<in> set (os_previewed s) \<and> payload_hash oc X a p' = payload_hash oc X a p"
    if "(c, a, p) \<in> set (os_confirmed s)" for c a p
  proof -
    from ok that obtain p' where "(c, a, p') \<in> set (os_previewed s)" "payload_hash oc X a p' = payload_hash oc X a p"
      unfolding confirmations_ok_def by blast
    then show ?thesis by blast
  qed
  ultimately show ?thesis unfolding s [symmetric] Let_def list_all_iff by blast
qed

definition sample_ops :: op_config where
  "sample_ops = \<lparr>oc_version = ''1.0.0'', oc_before = (\<lambda>a b. \<not> js_less b a), oc_text = (\<lambda>_. ''Error''), oc_message = (\<lambda>_. ''error'')\<rparr>"

definition reload_calls :: "(time \<times> (nat \<Rightarrow> string) \<times> op_call) list" where
  "reload_calls = [(1000, draws CHR ''p'', Preview NginxReload []), (2000, draws CHR ''q'', Confirm ''p00'' NginxReload []),
     (3000, draws CHR ''r'', Confirm ''p00'' NginxReload [])]"

lemma reconcile_rows_total: "\<exists>d'. reconcile_rows now rs d = Ok d'"
proof (induction rs arbitrary: d)
  case (Cons r rs)
  have "\<exists>d1. reconcile_row now r d = Ok d1"
    unfolding reconcile_row_def Let_def using record_event_known [of _ _ now d] by (auto simp: definitions_def)
  with Cons.IH show ?case by fastforce
qed simp

lemma start_total: "\<exists>d'. start_operations t now d = Ok d'"
  using reconcile_rows_total by (fastforce simp: start_operations_def reconcile_updates_def Let_def)

text \<open>
  A restart loses an operation that runs: a service, engine, backup or rotation operation
  that is running when the panel restarts keeps its running row through any later requests
  and restarts; nothing ever completes or fails it.  (Updates of the panel and diagnostics
  are reconciled.)
\<close>

theorem interrupted_operation_stays_running:
  assumes "s = run_ops oc X t calls no_operations"
    and "r \<in> set (t_operations (os_db s))" "op_status r = ''running''" "op_kind r \<notin> {''diagnostic'', ''update.apply''}"
  shows "r \<in> set (t_operations (os_db (run_ops oc X t later (op_step oc X t now rnd RestartPanel s))))"
proof -
  let ?s1 = "op_step oc X t now rnd RestartPanel s"
  have inv: "op_inv oc X s" using run_ops_inv [OF no_operations_inv] assms(1) by simp
  obtain d' where d': "start_operations t now (os_db s) = Ok d'" using start_total by blast
  then obtain d1 where d1: "reconcile_updates t now (os_db s) = Ok d1" and ops: "t_operations d' = update_where (\<lambda>r. op_kind r = ''diagnostic'' \<and> unfinished r)
            (\<lambda>r. r\<lparr>op_status := ''failed'', op_error := Some ''Diagnostic interrupted by application restart'', op_updated_at := now\<rparr>)
            (t_operations d1)" by (auto simp: start_operations_def)
  have "r \<in> set (t_operations d1)" unfolding reconcile_updates_ops(1) [OF d1] using assms(2,4) by (intro update_where_keeps) auto
  then have "r \<in> set (t_operations d')" unfolding ops using assms(4) by (intro update_where_keeps) auto
  then have "row_settled ?s1 r" using assms(4) by (simp add: row_settled_def row_quiet_def op_step_def d')
  from row_settled_run [OF op_step_inv [OF inv] this] show ?thesis by (simp add: row_settled_def row_quiet_def)
qed

lemma interrupted_operation_stays_running_witness:
  "\<exists>r. op_status r = ''running'' \<and>
     r \<in> set (t_operations (os_db (run_ops sample_ops sample_crypto ''interrupted'' [(9000, draws CHR ''z'', ListOperations)]
       (op_step sample_ops sample_crypto ''interrupted'' 5000 (draws CHR ''y'') RestartPanel
         (run_ops sample_ops sample_crypto ''interrupted'' reload_calls no_operations)))))"
proof -
  let ?s = "run_ops sample_ops sample_crypto ''interrupted'' reload_calls no_operations"
  have "map (\<lambda>r. (op_kind r, op_status r)) (t_operations (os_db ?s)) = [(''nginx.reload'', ''running'')]" by code_simp
  then obtain r where r: "r \<in> set (t_operations (os_db ?s))" "op_status r = ''running''" "op_kind r \<notin> {''diagnostic'', ''update.apply''}"
    by auto
  from interrupted_operation_stays_running [OF refl this] r(2) show ?thesis by blast
qed

text \<open>
  C40.  A cancelled diagnostic stays cancelled: no report or result of its run that arrives
  later, and no other request or restart, changes its row.
\<close>

theorem cancelled_stays_cancelled:
  assumes "s = run_ops oc X t calls no_operations"
    and "r \<in> set (t_operations (os_db s))" "op_status r = ''cancelled''"
  shows "r \<in> set (t_operations (os_db (run_ops oc X t later s)))"
proof -
  have inv: "op_inv oc X s" using run_ops_inv [OF no_operations_inv] assms(1) by simp
  then have rows: "rows_ok (t_operations (os_db s)) (os_tasks s) (os_executing s)" by (simp add: op_inv_def)
  have c: "cancelled r" using assms(3) by (simp add: cancelled_def)
  from rows_okD(4) [OF rows assms(2) c] have kind: "op_kind r = ''diagnostic''" "(op_id r, False) \<notin> set (os_tasks s)" by simp_all
  have "op_id r \<notin> fst ` set (os_executing s)"
  proof
    assume "op_id r \<in> fst ` set (os_executing s)"
    then obtain a p where "(op_id r, a, p) \<in> set (os_executing s)" by auto
    from rows_okD(2) [OF rows this] obtain y where y: "y \<in> set (t_operations (os_db s))" "op_id y = op_id r" "op_kind y = action_key a" by blast
    with assms(2) rows_okD(1) [OF rows] have "y = r" by (auto simp: distinct_map inj_on_def)
    with y(3) kind(1) show False by (metis action_not_diagnostic)
  qed
  moreover have "op_id r \<notin> set (os_late s)"
  proof
    assume "op_id r \<in> set (os_late s)"
    with run_ops_late [OF no_operations_inv no_operations_late, of oc X t calls] assms(1)
    obtain y where y: "row_quiet s y" "op_id y = op_id r" "op_status y \<in> {''completed'', ''failed''}" unfolding late_ok_def by blast
    with assms(2) rows_okD(1) [OF rows] have "y = r" by (auto simp: row_quiet_def distinct_map inj_on_def)
    with y(3) assms(3) show False by simp
  qed
  ultimately have "row_settled s r" using kind assms(2,3) by (simp add: row_settled_def row_quiet_def unfinished_def)
  from row_settled_run [OF inv this] show ?thesis by (simp add: row_settled_def row_quiet_def)
qed

definition diagnostic_calls :: "(time \<times> (nat \<Rightarrow> string) \<times> op_call) list" where
  "diagnostic_calls = [(1000, draws CHR ''d'', RunDiagnostic ''owner'' JNull), (1001, draws CHR ''d'', DiagnosticBegins ''d00'' JNull),
     (2000, draws CHR ''e'', CancelDiagnostic ''owner'' ''d00'')]"

lemma cancelled_stays_cancelled_witness:
  "\<exists>r. op_status r = ''cancelled'' \<and>
     r \<in> set (t_operations (os_db (run_ops sample_ops sample_crypto ''interrupted''
       [(3000, draws CHR ''f'', DiagnosticEnds ''d00'' (Ok JNull) True)]
       (run_ops sample_ops sample_crypto ''interrupted'' diagnostic_calls no_operations))))"
proof -
  let ?s = "run_ops sample_ops sample_crypto ''interrupted'' diagnostic_calls no_operations"
  have "map op_status (t_operations (os_db ?s)) = [''cancelled'']" by code_simp
  then obtain r where r: "r \<in> set (t_operations (os_db ?s))" "op_status r = ''cancelled''" by auto
  from cancelled_stays_cancelled [OF refl this] r(2) show ?thesis by blast
qed

end
