(* ===== verification/Resources.thy ===== *)
theory Resources
  imports Complex_Main Engines Js_Map
begin

text \<open>
  The resources of the host (src/src/server/services/resources.ts): the parsers of the counters
  Linux shows under /proc and of \<open>systemctl show\<close>, and the sampler that turns two readings
  into rates and keeps a bounded history.

  A percentage is an integer number of hundredths, since \<open>percent\<close> rounds to hundredths; a rate
  that the code does not round is a rational.  Only decimal numerals are numbers
  (\<open>number_text\<close>), the only ones these files hold.  The files, the clock, the memory of a
  process, the disk and the constants of the host are parameters; the platform is Linux.
\<close>

section \<open>Text\<close>

text \<open>\<open>text.trim().split(/\s+/)\<close>\<close>

definition text_words :: "string \<Rightarrow> string list" where
  "text_words s =
     (case filter (\<lambda>w. w \<noteq> []) (split_on (CHR '' '') (map (\<lambda>c. if is_space c then CHR '' '' else c) s)) of
        [] \<Rightarrow> [[]] | w # ws \<Rightarrow> w # ws)"

definition text_lines :: "string \<Rightarrow> string list" where
  "text_lines s = split_on (CHR 0x0A) s"

definition digits_text :: "string \<Rightarrow> bool" where
  "digits_text s \<longleftrightarrow> s \<noteq> [] \<and> list_all is_digit s"

definition number_text :: "string \<Rightarrow> int option" where
  "number_text s =
     (if s = [] then Some 0
      else if digits_text s then Some (int (number_of s))
      else if hd s = CHR ''-'' \<and> digits_text (tl s) then Some (- int (number_of (tl s)))
      else None)"

fun all_some :: "'a option list \<Rightarrow> 'a list option" where
  "all_some [] = Some []"
| "all_some (None # xs) = None"
| "all_some (Some x # xs) = map_option ((#) x) (all_some xs)"

section \<open>Numbers\<close>

text \<open>\<open>Math.round(a / b)\<close> for a positive \<open>b\<close>.\<close>

definition round_div :: "int \<Rightarrow> int \<Rightarrow> int" where
  "round_div a b = (2 * a + b) div (2 * b)"

definition percent :: "int \<Rightarrow> int \<Rightarrow> int option" where
  "percent used whole = (if 0 < whole then Some (round_div (used * 10000) whole) else None)"

record disk_usage =
  du_total :: int
  du_used :: int
  du_percent :: "int option"

definition disk_usage :: "int \<Rightarrow> int \<Rightarrow> int \<Rightarrow> disk_usage" where
  "disk_usage blocks bsize bavail =
     (let whole = blocks * bsize; used = whole - bavail * bsize
      in \<lparr>du_total = whole, du_used = used, du_percent = percent used whole\<rparr>)"

section \<open>Parsers\<close>

record cpu_counters =
  cc_total :: int
  cc_idle :: int
  cc_steal :: int

definition cpu_line :: "string \<Rightarrow> bool" where
  "cpu_line l \<longleftrightarrow> starts_with l ''cpu'' \<and> 3 < length l \<and> is_space (l ! 3)"

definition parse_cpu :: "string \<Rightarrow> cpu_counters option" where
  "parse_cpu text =
     (case find cpu_line (text_lines text) of
        None \<Rightarrow> None
      | Some l \<Rightarrow>
          (case all_some (map number_text (tl (text_words l))) of
             None \<Rightarrow> None
           | Some v \<Rightarrow>
               if length v < 8 then None
               else Some \<lparr>cc_total = sum_list (take 8 v), cc_idle = v ! 3 + v ! 4, cc_steal = v ! 7\<rparr>))"

definition word_char :: "char \<Rightarrow> bool" where
  "word_char c \<longleftrightarrow> is_alnum c \<or> c = CHR ''_''"

text \<open>A line of /proc/meminfo: a name, a colon, white space, a number and \<open>kB\<close>.\<close>

definition memory_line :: "string \<Rightarrow> (string \<times> int) option" where
  "memory_line l =
     (let name = takeWhile word_char l; rest = drop (length name) l; spaces = takeWhile is_space (tl rest);
          body = drop (length spaces) (tl rest); digits = takeWhile is_digit body
      in if name \<noteq> [] \<and> rest \<noteq> [] \<and> hd rest = CHR '':'' \<and> spaces \<noteq> [] \<and> digits \<noteq> [] \<and>
            starts_with (drop (length digits) body) '' kB''
         then Some (name, int (number_of digits) * 1024) else None)"

record memory_state =
  me_total :: int
  me_available :: int
  me_used :: int
  me_percent :: "int option"
  me_swap_total :: "int option"
  me_swap_used :: "int option"

definition parse_memory :: "string \<Rightarrow> memory_state option" where
  "parse_memory text =
     (let values = rev (List.map_filter memory_line (text_lines text))
      in case (map_of values ''MemTotal'', map_of values ''MemAvailable'') of
           (Some whole, Some available) \<Rightarrow>
             if whole = 0 then None
             else let used = max 0 (whole - available)
                  in Some \<lparr>me_total = whole, me_available = available, me_used = used, me_percent = percent used whole,
                       me_swap_total = map_of values ''SwapTotal'',
                       me_swap_used = (case (map_of values ''SwapTotal'', map_of values ''SwapFree'') of
                           (Some t, Some f) \<Rightarrow> Some (t - f) | _ \<Rightarrow> None)\<rparr>
         | _ \<Rightarrow> None)"

record network_counters =
  nc_interfaces :: "(string, (string, int option) js_map) js_map"
  nc_counters :: "(string, int option) js_map"

text \<open>\<open>None\<close>: the whole parse is abandoned.\<close>

definition interface_line ::
  "string \<Rightarrow> (string, (string, int option) js_map) js_map \<Rightarrow> (string, (string, int option) js_map) js_map option" where
  "interface_line l m =
     (case split_on (CHR '':'') l of
        name # raw # _ \<Rightarrow>
          if name = [] \<or> raw = [] then Some m
          else (case all_some (map number_text (text_words raw)) of
                  None \<Rightarrow> None
                | Some v \<Rightarrow>
                    if length v < 16 then None
                    else Some (map_set (trim name)
                      [(''received'', Some (v ! 0)), (''rxPackets'', Some (v ! 1)), (''rxErrors'', Some (v ! 2)), (''rxDrops'', Some (v ! 3)),
                       (''transmitted'', Some (v ! 8)), (''txPackets'', Some (v ! 9)), (''txErrors'', Some (v ! 10)), (''txDrops'', Some (v ! 11))] m))
      | _ \<Rightarrow> Some m)"

fun interface_lines ::
  "string list \<Rightarrow> (string, (string, int option) js_map) js_map \<Rightarrow> (string, (string, int option) js_map) js_map option" where
  "interface_lines [] m = Some m"
| "interface_lines (l # ls) m = Option.bind (interface_line l m) (interface_lines ls)"

definition counted_names :: "string list" where
  "counted_names = [''RetransSegs'', ''OutSegs'', ''InErrors'', ''RcvbufErrors'', ''SndbufErrors'', ''InDatagrams'', ''OutDatagrams'']"

fun drop_colon :: "string \<Rightarrow> string" where
  "drop_colon [] = []"
| "drop_colon (c # cs) = (if c = CHR '':'' then cs else c # drop_colon cs)"

definition counter_pair :: "string \<Rightarrow> string \<Rightarrow> (string, int option) js_map \<Rightarrow> (string, int option) js_map" where
  "counter_pair l1 l2 m =
     (let names = text_words l1; values = text_words l2
      in if hd names \<noteq> hd values then m
         else fold (\<lambda>(i, name) m.
                if name \<in> set counted_names
                then map_set (drop_colon (hd names) @ ''.'' @ name)
                       (if Suc i < length values then number_text (values ! Suc i) else None) m
                else m) (enumerate 0 (tl names)) m)"

fun counter_lines :: "string list \<Rightarrow> (string, int option) js_map \<Rightarrow> (string, int option) js_map" where
  "counter_lines (l1 # l2 # ls) m = counter_lines ls (counter_pair l1 l2 m)"
| "counter_lines _ m = m"

definition parse_network :: "string \<Rightarrow> string \<Rightarrow> network_counters option" where
  "parse_network dev snmp =
     map_option (\<lambda>m. \<lparr>nc_interfaces = m, nc_counters = counter_lines (text_lines (trim snmp)) []\<rparr>)
       (interface_lines (drop 2 (text_lines dev)) [])"

section \<open>The services\<close>

record process_counter =
  pc_service :: string
  pc_pid :: "int option"
  pc_cpu_ns :: "nat option"
  pc_memory :: "int option"
  pc_rss :: "int option"

text \<open>The blocks between blank lines.\<close>

fun text_blocks :: "string list \<Rightarrow> string list \<Rightarrow> string list list" where
  "text_blocks acc [] = [rev acc]"
| "text_blocks acc (l # ls) =
     (if list_all is_space l then (if acc = [] then text_blocks [] ls else rev acc # text_blocks [] ls)
      else text_blocks (l # acc) ls)"

definition property_line :: "string \<Rightarrow> string \<times> string" where
  "property_line l =
     (let k = takeWhile (\<lambda>c. c \<noteq> CHR ''='') l
      in if length k < length l then (k, drop (Suc (length k)) l) else (butlast l, l))"

definition drop_service :: "string \<Rightarrow> string" where
  "drop_service s = (if ends_with s ''.service'' then take (length s - 8) s else s)"

definition process_row :: "(int option \<Rightarrow> int option) \<Rightarrow> string list \<Rightarrow> process_counter option" where
  "process_row rss_of ls =
     (let row = rev (map property_line ls); service = map_option drop_service (map_of row ''Id'');
          pid = number_text (coalesce (map_of row ''MainPID'') ''0'');
          cpu = coalesce (map_of row ''CPUUsageNSec'') [];
          memory = (case map_of row ''MemoryCurrent'' of None \<Rightarrow> None | Some t \<Rightarrow> number_text t)
      in case service of
           None \<Rightarrow> None
         | Some s \<Rightarrow>
             if s \<notin> set service_names then None
             else Some \<lparr>pc_service = s, pc_pid = pid,
                    pc_cpu_ns = (if digits_text cpu \<and> cpu \<noteq> ''18446744073709551615'' then Some (number_of cpu) else None),
                    pc_memory = (case memory of Some n \<Rightarrow> if 0 \<le> n \<and> n \<le> 9007199254740991 then Some n else None | None \<Rightarrow> None),
                    pc_rss = rss_of pid\<rparr>)"

text \<open>\<open>None\<close>: \<open>systemctl\<close> failed and printed nothing.\<close>

definition process_counters :: "(int option \<Rightarrow> int option) \<Rightarrow> bool \<Rightarrow> string \<Rightarrow> process_counter list option" where
  "process_counters rss_of succeeded text =
     (if \<not> succeeded \<and> trim text = [] then None
      else Some (List.map_filter (process_row rss_of) (text_blocks [] (text_lines (trim text)))))"

section \<open>The sampler\<close>

text \<open>What one sample reads: the files, by path, and the constants of the host.\<close>

record host_reading =
  hr_file :: "string \<Rightarrow> string option"
  hr_processes :: "process_counter list option"
  hr_disk :: "disk_usage option"

record interface_sample =
  is_name :: string
  is_counters :: "(string, int option) js_map"
  is_delta :: "(string, int option) js_map"

record network_sample =
  ns_primary :: "string option"
  ns_download :: "rat option"
  ns_upload :: "rat option"
  ns_interfaces :: "interface_sample list"
  ns_counters :: "(string, int option) js_map"
  ns_delta :: "(string, int option) js_map"

record service_sample =
  ss_service :: string
  ss_pid :: "int option"
  ss_rss :: "int option"
  ss_memory :: "int option"
  ss_cpu_percent :: "rat option"

record resource_sample =
  rs_sampled_at :: time
  rs_interval :: "time option"
  rs_cpu_percent :: "int option"
  rs_steal_percent :: "int option"
  rs_memory :: "memory_state option"
  rs_disk :: "disk_usage option"
  rs_network :: "network_sample option"
  rs_services :: "service_sample list"
  rs_errors :: "string list"

record reading =
  rd_at :: time
  rd_cpu :: "cpu_counters option"
  rd_network :: "network_counters option"
  rd_processes :: "process_counter list"

record history_point =
  hp_at :: time
  hp_cpu :: "int option"
  hp_memory :: "int option"
  hp_download :: "rat option"
  hp_upload :: "rat option"

record sampler =
  sa_previous :: "reading option"
  sa_latest :: "resource_sample option"
  sa_history :: "history_point list"

definition new_sampler :: sampler where
  "new_sampler = \<lparr>sa_previous = None, sa_latest = None, sa_history = []\<rparr>"

definition counter_deltas :: "(string, int option) js_map \<Rightarrow> (string, int option) js_map option \<Rightarrow> (string, int option) js_map" where
  "counter_deltas current old =
     map (\<lambda>(k, v). (k, (case (v, Option.bind old (map_get k)) of
        (Some n, Some (Some p)) \<Rightarrow> if p \<le> n then Some (n - p) else None | _ \<Rightarrow> None))) current"

fun hex_value :: "char \<Rightarrow> nat option" where
  "hex_value c =
     (if is_digit c then Some (code c - 48)
      else if 97 \<le> code (lower_char c) \<and> code (lower_char c) \<le> 102 then Some (code (lower_char c) - 87) else None)"

text \<open>\<open>Number.parseInt(s, 16) & 1\<close>: whether the last of the leading hexadecimal digits is odd.\<close>

definition hex_odd :: "string \<Rightarrow> bool" where
  "hex_odd s =
     (let body = (if starts_with s ''0x'' \<or> starts_with s ''0X'' then drop 2 s else s);
          digits = takeWhile (\<lambda>c. hex_value c \<noteq> None) body
      in digits \<noteq> [] \<and> odd (the (hex_value (last digits))))"

definition word_at :: "nat \<Rightarrow> string list \<Rightarrow> string \<Rightarrow> string" where
  "word_at i ws absent = (if i < length ws then ws ! i else absent)"

definition default_route :: "string \<Rightarrow> string option" where
  "default_route text =
     map_option hd (find (\<lambda>ws. word_at 1 ws [] = ''00000000'' \<and> hex_odd (word_at 3 ws ''0''))
       (map text_words (tl (text_lines text))))"

definition default_route6 :: "string \<Rightarrow> string option" where
  "default_route6 text =
     map_option last (find (\<lambda>ws. hd ws = replicate 32 (CHR ''0'') \<and> word_at 1 ws [] = ''00'' \<and> hex_odd (word_at 8 ws ''0''))
       (map text_words (text_lines text)))"

text \<open>The interface of the default route; \<open>None\<close> when a file could not be read.\<close>

definition primary_interface :: "(string \<Rightarrow> string option) \<Rightarrow> string option option" where
  "primary_interface file =
     (case file ''/proc/net/route'' of
        None \<Rightarrow> None
      | Some t \<Rightarrow>
          (case default_route t of
             Some i \<Rightarrow> Some (Some i)
           | None \<Rightarrow> map_option default_route6 (file ''/proc/net/ipv6_route'')))"

text \<open>\<open>rate\<close>: per second.\<close>

definition rate_of :: "int option \<Rightarrow> time option \<Rightarrow> rat option" where
  "rate_of v interval =
     (case (v, interval) of
        (Some n, Some ms) \<Rightarrow> if 0 < ms then Some (of_int (n * 1000) / of_int ms) else None
      | _ \<Rightarrow> None)"

definition service_sample :: "process_counter list \<Rightarrow> time option \<Rightarrow> process_counter \<Rightarrow> service_sample" where
  "service_sample olds interval row =
     (let old = find (\<lambda>p. pc_service p = pc_service row \<and> pc_pid p = pc_pid row \<and> pc_pid row \<noteq> None) olds;
          delta = (case (pc_cpu_ns row, Option.bind old pc_cpu_ns) of
                     (Some n, Some p) \<Rightarrow> Some (int n - int p) | _ \<Rightarrow> None)
      in \<lparr>ss_service = pc_service row, ss_pid = pc_pid row, ss_rss = pc_rss row, ss_memory = pc_memory row,
          ss_cpu_percent = (case (delta, interval) of
             (Some n, Some ms) \<Rightarrow> if 0 \<le> n \<and> 0 < ms then Some (of_int n / of_int (ms * 10000)) else None
           | _ \<Rightarrow> None)\<rparr>)"

text \<open>The share of the processor that was busy, and stolen, between two readings.\<close>

definition cpu_shares :: "cpu_counters option \<Rightarrow> cpu_counters option \<Rightarrow> int option \<times> int option" where
  "cpu_shares old current =
     (case (old, current) of
        (Some p, Some c) \<Rightarrow>
          (let whole = cc_total c - cc_total p
           in if 0 < whole \<and> cc_idle p \<le> cc_idle c \<and> cc_steal p \<le> cc_steal c
              then (percent (whole - (cc_idle c - cc_idle p) - (cc_steal c - cc_steal p)) whole,
                    percent (cc_steal c - cc_steal p) whole)
              else (None, None))
      | _ \<Rightarrow> (None, None))"

definition interface_samples :: "network_counters option \<Rightarrow> network_counters option \<Rightarrow> interface_sample list" where
  "interface_samples old current =
     (case current of
        None \<Rightarrow> []
      | Some n \<Rightarrow> map (\<lambda>(name, cs). \<lparr>is_name = name, is_counters = cs,
            is_delta = counter_deltas cs (Option.bind old (\<lambda>p. map_get name (nc_interfaces p)))\<rparr>) (nc_interfaces n))"

definition network_sample ::
  "network_counters option \<Rightarrow> network_counters \<Rightarrow> string option \<Rightarrow> time option \<Rightarrow> network_sample" where
  "network_sample old n primary interval =
     (let ifaces = interface_samples old (Some n);
          active = find (\<lambda>i. Some (is_name i) = primary) ifaces;
          delta_at = (\<lambda>k. Option.bind active (\<lambda>i. case map_get k (is_delta i) of Some v \<Rightarrow> v | None \<Rightarrow> None))
      in \<lparr>ns_primary = primary, ns_download = rate_of (delta_at ''received'') interval,
          ns_upload = rate_of (delta_at ''transmitted'') interval, ns_interfaces = ifaces, ns_counters = nc_counters n,
          ns_delta = counter_deltas (nc_counters n) (map_option nc_counters old)\<rparr>)"

definition failed_parts :: "(string \<times> bool) list \<Rightarrow> string list" where
  "failed_parts parts = map (\<lambda>(n, _). n @ '' unavailable'') (filter (\<lambda>(_, read). \<not> read) parts)"

text \<open>\<open>read\<close>: the sample, and what the next one is compared with.\<close>

definition read_resources :: "host_reading \<Rightarrow> time \<Rightarrow> sampler \<Rightarrow> resource_sample \<times> reading" where
  "read_resources h now s =
     (let processes = coalesce (hr_processes h) [];
          cpu = Option.bind (hr_file h ''/proc/stat'') parse_cpu;
          memory = Option.bind (hr_file h ''/proc/meminfo'') parse_memory;
          network = (case (hr_file h ''/proc/net/dev'', hr_file h ''/proc/net/snmp'') of
                       (Some dev, Some snmp) \<Rightarrow> parse_network dev snmp | _ \<Rightarrow> None);
          old = sa_previous s; interval = map_option (\<lambda>p. now - rd_at p) old;
          primary = primary_interface (hr_file h);
          shares = cpu_shares (Option.bind old rd_cpu) cpu
      in (\<lparr>rs_sampled_at = now, rs_interval = interval, rs_cpu_percent = fst shares, rs_steal_percent = snd shares,
           rs_memory = memory, rs_disk = hr_disk h,
           rs_network = map_option (\<lambda>n. network_sample (Option.bind old rd_network) n (coalesce primary None) interval) network,
           rs_services = map (service_sample (case old of None \<Rightarrow> [] | Some p \<Rightarrow> rd_processes p) interval) processes,
           rs_errors = failed_parts [(''Service metrics'', hr_processes h \<noteq> None), (''CPU'', cpu \<noteq> None),
             (''Memory'', memory \<noteq> None), (''Network'', network \<noteq> None), (''Disk'', hr_disk h \<noteq> None),
             (''Default interface'', primary \<noteq> None)]\<rparr>,
          \<lparr>rd_at = now, rd_cpu = cpu, rd_network = network, rd_processes = processes\<rparr>))"

definition history_point_of :: "resource_sample \<Rightarrow> history_point" where
  "history_point_of r =
     \<lparr>hp_at = rs_sampled_at r, hp_cpu = rs_cpu_percent r, hp_memory = map_option me_available (rs_memory r),
      hp_download = Option.bind (rs_network r) ns_download, hp_upload = Option.bind (rs_network r) ns_upload\<rparr>"

definition last_n :: "nat \<Rightarrow> 'a list \<Rightarrow> 'a list" where
  "last_n n xs = drop (length xs - n) xs"

definition sample_resources :: "host_reading \<Rightarrow> time \<Rightarrow> sampler \<Rightarrow> sampler" where
  "sample_resources h now s =
     (case read_resources h now s of
        (r, p) \<Rightarrow> \<lparr>sa_previous = Some p, sa_latest = Some r,
          sa_history = last_n 120 (filter (\<lambda>q. now - hp_at q \<le> 10 * 60000) (sa_history s @ [history_point_of r]))\<rparr>)"

definition stale :: "time \<Rightarrow> sampler \<Rightarrow> bool" where
  "stale now s \<longleftrightarrow> (case sa_latest s of None \<Rightarrow> True | Some r \<Rightarrow> 15000 < now - rs_sampled_at r)"

definition age :: "time \<Rightarrow> sampler \<Rightarrow> time option" where
  "age now s = map_option (\<lambda>r. max 0 (now - rs_sampled_at r)) (sa_latest s)"

text \<open>\<open>metrics\<close>: what the panel shows of the latest sample.\<close>

record resource_metrics =
  rm_sample :: resource_sample
  rm_history :: "(rat option \<times> rat option \<times> time) list"
  rm_stale :: bool

definition resource_metrics :: "time \<Rightarrow> sampler \<Rightarrow> resource_metrics option" where
  "resource_metrics now s =
     map_option (\<lambda>r. \<lparr>rm_sample = r, rm_history = map (\<lambda>q. (hp_download q, hp_upload q, hp_at q)) (sa_history s),
       rm_stale = stale now s\<rparr>) (sa_latest s)"

section \<open>The summary of a diagnostic\<close>

record summary =
  su_min :: "rat option"
  su_mean :: "rat option"
  su_max :: "rat option"

definition stats :: "rat option list \<Rightarrow> summary" where
  "stats values =
     (case List.map_filter id values of
        [] \<Rightarrow> \<lparr>su_min = None, su_mean = None, su_max = None\<rparr>
      | known \<Rightarrow> \<lparr>su_min = Some (Min (set known)), su_mean = Some (sum_list known / of_nat (length known)),
                  su_max = Some (Max (set known))\<rparr>)"

record resource_summary =
  ru_samples :: nat
  ru_from :: "time option"
  ru_to :: "time option"
  ru_cpu :: summary
  ru_steal :: summary
  ru_available :: summary
  ru_swap_used :: summary
  ru_services :: "(string \<times> summary \<times> summary) list"

definition hundredths :: "int option \<Rightarrow> rat option" where
  "hundredths p = map_option (\<lambda>n. of_int n / 100) p"

definition summarize_resources :: "resource_sample list \<Rightarrow> resource_summary" where
  "summarize_resources samples =
     (let row = (\<lambda>s r. find (\<lambda>q. ss_service q = s) (rs_services r))
      in \<lparr>ru_samples = length samples, ru_from = map_option rs_sampled_at (if samples = [] then None else Some (hd samples)),
          ru_to = map_option rs_sampled_at (if samples = [] then None else Some (last samples)),
          ru_cpu = stats (map (\<lambda>r. hundredths (rs_cpu_percent r)) samples),
          ru_steal = stats (map (\<lambda>r. hundredths (rs_steal_percent r)) samples),
          ru_available = stats (map (\<lambda>r. map_option (of_int \<circ> me_available) (rs_memory r)) samples),
          ru_swap_used = stats (map (\<lambda>r. map_option of_int (Option.bind (rs_memory r) me_swap_used)) samples),
          ru_services = map (\<lambda>s. (s, stats (map (\<lambda>r. Option.bind (row s r) ss_cpu_percent) samples),
                                    stats (map (\<lambda>r. map_option of_int (Option.bind (row s r) ss_rss)) samples)))
            (js_distinct (concat (map (\<lambda>r. map ss_service (rs_services r)) samples)))\<rparr>)"

end
