(* ===== verification/Resource_Bounds.thy ===== *)
theory Resource_Bounds
  imports Resources Services
begin

text \<open>The bounds of the percentages, the rates and the history of the sampler.\<close>

section \<open>Percentages and rates\<close>

lemma round_div_bounds:
  assumes "0 < b"
  shows "a \<le> n * b \<Longrightarrow> round_div a b \<le> n" and "0 \<le> a \<Longrightarrow> 0 \<le> round_div a b"
proof -
  assume "a \<le> n * b"
  then have "2 * a + b \<le> n * (2 * b) + b" by simp
  then have "round_div a b \<le> (n * (2 * b) + b) div (2 * b)" unfolding round_div_def by (rule zdiv_mono1) (use assms in simp)
  also have "\<dots> = n" using assms by (simp add: div_add1_eq)
  finally show "round_div a b \<le> n" .
next
  assume "0 \<le> a"
  then show "0 \<le> round_div a b" using assms unfolding round_div_def by (simp add: pos_imp_zdiv_nonneg_iff)
qed

lemma percent_bounds:
  assumes "percent used whole = Some p"
  shows "used \<le> whole \<Longrightarrow> p \<le> 10000" and "0 \<le> used \<Longrightarrow> 0 \<le> p"
  using assms round_div_bounds(1) [of whole "used * 10000" 10000] round_div_bounds(2) [of whole "used * 10000"]
  by (auto simp: percent_def split: if_splits)

lemma cpu_shares_bound: "cpu_shares old current = (Some p, t) \<Longrightarrow> p \<le> 10000"
  by (auto simp: cpu_shares_def Let_def split: option.splits if_splits elim!: percent_bounds(1))

lemma memory_line_nonneg: "memory_line l = Some (k, n) \<Longrightarrow> 0 \<le> n"
  by (auto simp: memory_line_def Let_def split: if_splits)

lemma parse_memory_bounds:
  assumes "parse_memory text = Some m" and "me_percent m = Some p"
  shows "0 \<le> p \<and> p \<le> 10000"
proof -
  let ?v = "rev (List.map_filter memory_line (text_lines text))"
  have nonneg: "0 \<le> n" if "map_of ?v k = Some n" for k n
    using map_of_SomeD [OF that] by (auto simp: List.map_filter_def) (metis memory_line_nonneg option.collapse)
  obtain whole available where v: "map_of ?v ''MemTotal'' = Some whole" "map_of ?v ''MemAvailable'' = Some available"
    and p: "percent (max 0 (whole - available)) whole = Some p"
    using assms by (auto simp: parse_memory_def Let_def split: option.splits if_splits)
  show ?thesis using percent_bounds [OF p] nonneg [OF v(1)] nonneg [OF v(2)] by auto
qed

lemma rate_nonneg: "rate_of v interval = Some r \<Longrightarrow> (\<And>n. v = Some n \<Longrightarrow> 0 \<le> n) \<Longrightarrow> 0 \<le> r"
  by (auto simp: rate_of_def split: option.splits if_splits)

lemma counter_deltas_nonneg: "map_get k (counter_deltas c old) = Some (Some n) \<Longrightarrow> 0 \<le> n"
  by (auto simp: counter_deltas_def map_get_def split: option.splits if_splits dest!: map_of_SomeD)

lemma network_rates:
  "ns_download (network_sample old n primary interval) = Some r \<Longrightarrow> 0 \<le> r"
  "ns_upload (network_sample old n primary interval) = Some r \<Longrightarrow> 0 \<le> r"
proof -
  have delta: "0 \<le> m" if "Option.bind (find (\<lambda>i. Some (is_name i) = primary) (interface_samples old (Some n)))
      (\<lambda>i. case map_get k (is_delta i) of Some v \<Rightarrow> v | None \<Rightarrow> None) = Some m" for k m
  proof -
    from that obtain i where i: "find (\<lambda>i. Some (is_name i) = primary) (interface_samples old (Some n)) = Some i"
      "map_get k (is_delta i) = Some (Some m)" by (auto split: Option.bind_splits option.splits)
    have "i \<in> set (interface_samples old (Some n))" using find_SomeD [OF i(1)] by simp
    with i(2) show "0 \<le> m" by (auto simp: interface_samples_def dest!: counter_deltas_nonneg)
  qed
  show "ns_download (network_sample old n primary interval) = Some r \<Longrightarrow> 0 \<le> r"
    "ns_upload (network_sample old n primary interval) = Some r \<Longrightarrow> 0 \<le> r"
    by (auto simp: network_sample_def Let_def elim!: rate_nonneg intro: delta)
qed

section \<open>The history\<close>

definition point_ok :: "history_point \<Rightarrow> bool" where
  "point_ok q \<longleftrightarrow>
     (case hp_cpu q of None \<Rightarrow> True | Some p \<Rightarrow> p \<le> 10000) \<and>
     (case hp_download q of None \<Rightarrow> True | Some r \<Rightarrow> 0 \<le> r) \<and> (case hp_upload q of None \<Rightarrow> True | Some r \<Rightarrow> 0 \<le> r)"

lemma cpu_point: "hp_cpu (history_point_of (fst (read_resources h now s))) = Some p \<Longrightarrow> p \<le> 10000"
  by (simp add: read_resources_def Let_def history_point_of_def) (metis cpu_shares_bound prod.collapse)

lemma rate_point:
  "hp_download (history_point_of (fst (read_resources h now s))) = Some r \<Longrightarrow> 0 \<le> r"
  "hp_upload (history_point_of (fst (read_resources h now s))) = Some r \<Longrightarrow> 0 \<le> r"
  by (auto simp: read_resources_def Let_def history_point_of_def split: Option.bind_splits intro: network_rates)

lemma read_point_ok: "point_ok (history_point_of (fst (read_resources h now s)))"
  unfolding point_ok_def using cpu_point rate_point by (auto split: option.splits)

lemma last_n_simps: "length (last_n n xs) \<le> n" "set (last_n n xs) \<subseteq> set xs"
  by (auto simp: last_n_def dest: in_set_dropD)

definition history_ok :: "sampler \<Rightarrow> bool" where
  "history_ok s \<longleftrightarrow>
     (case sa_latest s of
        None \<Rightarrow> sa_history s = []
      | Some r \<Rightarrow> length (sa_history s) \<le> 120 \<and> list_all (\<lambda>q. rs_sampled_at r - hp_at q \<le> 10 * 60000 \<and> point_ok q) (sa_history s) \<and>
          sa_history s \<noteq> [] \<and> last (sa_history s) = history_point_of r \<and>
          (case Option.bind (rs_memory r) me_percent of None \<Rightarrow> True | Some p \<Rightarrow> 0 \<le> p \<and> p \<le> 10000))"

lemma sample_memory: "Option.bind (rs_memory (fst (read_resources h now s))) me_percent = Some p \<Longrightarrow> 0 \<le> p \<and> p \<le> 10000"
  by (auto simp: read_resources_def Let_def split: Option.bind_splits dest: parse_memory_bounds)

lemma sampled_at: "rs_sampled_at (fst (read_resources h now s)) = now"
  by (simp add: read_resources_def Let_def)

lemma sample_history_ok:
  assumes "history_ok s"
  shows "history_ok (sample_resources h now s)"
proof -
  obtain r p where rp: "read_resources h now s = (r, p)" by fastforce
  have r: "r = fst (read_resources h now s)" using rp by simp
  have at: "rs_sampled_at r = now" "hp_at (history_point_of r) = now" using sampled_at [of h now s] rp by (simp_all add: history_point_of_def)
  have old: "list_all point_ok (sa_history s)"
    using assms by (auto simp: history_ok_def list_all_iff split: option.splits)
  let ?h = "last_n 120 (filter (\<lambda>q. now - hp_at q \<le> 10 * 60000) (sa_history s @ [history_point_of r]))"
  have "list_all (\<lambda>q. now - hp_at q \<le> 10 * 60000 \<and> point_ok q) ?h"
    using last_n_simps(2) [of 120 "filter (\<lambda>q. now - hp_at q \<le> 10 * 60000) (sa_history s @ [history_point_of r])"]
      old read_point_ok [of h now s] r by (auto simp: list_all_iff)
  moreover have "?h \<noteq> [] \<and> last ?h = history_point_of r" using at by (simp add: last_n_def)
  moreover have "(case Option.bind (rs_memory r) me_percent of None \<Rightarrow> True | Some p \<Rightarrow> 0 \<le> p \<and> p \<le> 10000)"
    using sample_memory [of h now s] r by (auto split: option.splits)
  ultimately show ?thesis using last_n_simps(1) [of 120] at by (simp add: sample_resources_def rp history_ok_def)
qed

section \<open>The summary\<close>

lemma stats_ordered:
  assumes "stats values = \<lparr>su_min = Some a, su_mean = Some m, su_max = Some b\<rparr>"
  shows "a \<le> m \<and> m \<le> b"
proof -
  obtain x xs where known: "List.map_filter id values = x # xs"
    and eqs: "a = Min (set (x # xs))" "m = sum_list (x # xs) / of_nat (length (x # xs))" "b = Max (set (x # xs))"
    using assms by (auto simp: stats_def split: list.splits)
  have "of_nat (length ys) * a \<le> sum_list ys \<and> sum_list ys \<le> of_nat (length ys) * b"
    if "set ys \<subseteq> set (x # xs)" for ys :: "rat list"
    using that
  proof (induction ys)
    case (Cons y ys)
    then have "a \<le> y" "y \<le> b" unfolding eqs by auto
    with Cons show ?case by (auto simp: algebra_simps)
  qed simp
  from this [of "x # xs"] show ?thesis unfolding eqs(2) by (simp add: field_simps)
qed

section \<open>Any run of the sampler\<close>

definition run_sampler :: "(host_reading \<times> time) list \<Rightarrow> sampler" where
  "run_sampler readings = foldl (\<lambda>s (h, now). sample_resources h now s) new_sampler readings"

interpretation sampler: invariant_service "\<lambda>s (h, now). sample_resources h now s" history_ok
  by unfold_locales (auto simp: sample_history_ok)

lemma run_sampler_ok: "history_ok (run_sampler readings)"
  unfolding run_sampler_def by (rule sampler.run_inv) (simp add: new_sampler_def history_ok_def)

text \<open>
  The bounds of the sampler hold whatever is read: at most 120 points, none older than ten minutes
  before the newest, no share above a hundred percent and no negative rate.
\<close>

theorem resource_bounds: "history_ok (run_sampler readings)"
  by (rule run_sampler_ok)

end
