(* ===== verification/Monitoring.thy ===== *)
theory Monitoring
  imports Resources Traffic Methods
begin

text \<open>
  Monitoring (src/src/server/services/monitoring.ts): each observation of a service, of the disk
  and of the certificate moves a row of \<open>monitor_states\<close> and may record an incident or its end;
  the snapshot the panel shows is the setting \<open>monitor_snapshot\<close>.

  The probes (systemctl, the TLS connection, the local ports) are parameters: what they found is
  the input of a collection.  A percentage is in hundredths.  The texts of an error are not
  modelled, nor the demo mode and a probe that measures the resources itself (only tests have
  one).
\<close>

section \<open>Rows\<close>

text \<open>\<open>save\<close> writes the severity too, unlike the collector of the traffic.\<close>

definition save_state :: "string \<Rightarrow> string \<Rightarrow> string option \<Rightarrow> nat \<Rightarrow> time \<Rightarrow> (string \<times> json) list \<Rightarrow> db \<Rightarrow> db" where
  "save_state k status severity failures now data d =
     (let changed = (case find_monitor k d of None \<Rightarrow> now | Some m \<Rightarrow> if mo_status m = status then mo_changed_at m else now)
      in d\<lparr>t_monitor := upsert (\<lambda>m. mo_key m = k)
           (\<lambda>m. m\<lparr>mo_status := status, mo_severity := severity, mo_failures := failures, mo_data := data,
                  mo_observed_at := now, mo_changed_at := changed\<rparr>)
           \<lparr>mo_key = k, mo_status = status, mo_severity = severity, mo_failures = failures, mo_data = data,
            mo_observed_at = now, mo_changed_at = changed\<rparr> (t_monitor d)\<rparr>)"

definition previous_status :: "string \<Rightarrow> db \<Rightarrow> string option" where
  "previous_status k d = map_option mo_status (find_monitor k d)"

definition previous_failures :: "string \<Rightarrow> db \<Rightarrow> nat" where
  "previous_failures k d = (case find_monitor k d of None \<Rightarrow> 0 | Some m \<Rightarrow> mo_failures m)"

section \<open>Services\<close>

definition service_key :: "string \<Rightarrow> string" where
  "service_key s = ''service:'' @ s"

definition service_entry :: "string \<Rightarrow> time \<Rightarrow> journal_entry" where
  "service_entry s seen =
     entry\<lparr>je_actor := Some ''monitor'', je_source := Some s, je_subject_type := Some ''service'', je_subject_id := Some s,
           je_occurred_at := Some seen, je_data := [(''service'', JStr s)]\<rparr>"

definition observe_service :: "time \<Rightarrow> string \<times> bool \<Rightarrow> db \<Rightarrow> db result" where
  "observe_service now p d =
     (case p of (s, healthy) \<Rightarrow>
       (let k = service_key s; status = previous_status k d; failures = previous_failures k d + 1
        in if healthy
           then bind_result (if status = Some ''unavailable'' then record_event ''service.restored'' (service_entry s now) now d else Ok d) (\<lambda>d.
                Ok (save_state k ''available'' None 0 now [] d))
           else bind_result (if 2 \<le> failures \<and> status \<noteq> Some ''unavailable''
                             then record_event ''service.unavailable'' (service_entry s now) now d else Ok d) (\<lambda>d.
                Ok (save_state k (if 2 \<le> failures then ''unavailable'' else coalesce status ''baseline'') (Some ''error'') failures now [] d))))"

definition setup_services :: "string list" where
  "setup_services = [''outpost'', ''nginx'']"

definition expected_services :: "bool \<Rightarrow> db \<Rightarrow> string list" where
  "expected_services setup d = (if setup then setup_services else filter (\<lambda>s. \<not> missing_service s d) service_names)"

section \<open>Thresholds\<close>

datatype level = LHealthy | LHold | LWarning | LCritical

fun level_text :: "level \<Rightarrow> string" where
  "level_text LHealthy = ''healthy''"
| "level_text LHold = ''hold''"
| "level_text LWarning = ''warning''"
| "level_text LCritical = ''critical''"

definition observe_threshold ::
  "string \<Rightarrow> string \<times> string \<times> string \<Rightarrow> (string \<times> json) list \<Rightarrow> time \<Rightarrow> level \<Rightarrow> db \<Rightarrow> db result" where
  "observe_threshold k events data now level d =
     (case events of (warning, critical, recovered) \<Rightarrow>
       (let status = previous_status k d; about = entry\<lparr>je_actor := Some ''monitor'', je_occurred_at := Some now, je_data := data\<rparr>
        in case level of
             LHold \<Rightarrow> Ok (save_state k (coalesce status ''healthy'') (Option.bind (find_monitor k d) mo_severity) (previous_failures k d) now data d)
           | LHealthy \<Rightarrow>
               bind_result (if status \<in> {Some ''warning'', Some ''critical''} then record_event recovered about now d else Ok d) (\<lambda>d.
               Ok (save_state k ''healthy'' None 0 now data d))
           | _ \<Rightarrow>
               (let target = (case find_monitor k d of None \<Rightarrow> None | Some m \<Rightarrow> json_get ''target'' (mo_data m));
                    failures = (if target = Some (JStr (level_text level)) then previous_failures k d + 1 else 1)
                in bind_result (if 2 \<le> failures \<and> status \<noteq> Some (level_text level)
                                then record_event (if level = LWarning then warning else critical)
                                       (about\<lparr>je_severity := Some (level_text level)\<rparr>) now d else Ok d) (\<lambda>d.
                   Ok (save_state k (if 2 \<le> failures then level_text level else coalesce status ''baseline'')
                         (Some (level_text level)) failures now (data @ [(''target'', JStr (level_text level))]) d)))))"

definition disk_level :: "int \<Rightarrow> level" where
  "disk_level p = (if 9500 \<le> p then LCritical else if 8500 \<le> p then LWarning else if p < 8000 then LHealthy else LHold)"

definition tls_level :: "int \<Rightarrow> bool \<Rightarrow> level" where
  "tls_level days setup =
     (if setup then (if days < 1 then LCritical else if days < 3 then LWarning else LHealthy)
      else if days < 7 then LCritical else if days < 30 then LWarning else LHealthy)"

definition disk_events :: "string \<times> string \<times> string" where
  "disk_events = (''system.disk_warning'', ''system.disk_critical'', ''system.disk_restored'')"

definition tls_events :: "string \<times> string \<times> string" where
  "tls_events = (''system.tls_warning'', ''system.tls_critical'', ''system.tls_restored'')"

section \<open>One collection\<close>

record monitor_probe =
  pr_services :: "(string \<times> bool) list"
  pr_disk_percent :: "int option"
  pr_tls_days :: "int option"
  pr_tls_expires_at :: "time option"
  pr_transports :: "(bool \<times> bool) option"

record shown_tls =
  st_status :: string
  st_expires_at :: "time option"
  st_failed :: bool

record monitor_snapshot =
  sh_services :: "(string \<times> string) list"
  sh_transports :: "(bool \<times> bool) option"
  sh_tls :: "shown_tls option"
  sh_metrics :: "resource_metrics option"
  sh_checked_at :: "time option"

record monitor_world =
  mw_db :: db
  mw_snapshot :: monitor_snapshot
  mw_sampler :: sampler

definition empty_snapshot :: monitor_snapshot where
  "empty_snapshot = \<lparr>sh_services = [], sh_transports = None, sh_tls = None, sh_metrics = None, sh_checked_at = None\<rparr>"

definition service_up :: "(string \<times> bool) list \<Rightarrow> string \<Rightarrow> bool" where
  "service_up found s = coalesce (map_of found s) False"

definition shown_services :: "(string \<times> bool) list \<Rightarrow> db \<Rightarrow> (string \<times> string) list" where
  "shown_services found d =
     map (\<lambda>s. (s, if missing_service s d then ''not-installed'' else if service_up found s then ''active'' else ''inactive'')) service_names"

text \<open>An XHTTP or gRPC transport that no enabled method of Xray uses counts as healthy.\<close>

definition transport_observed :: "path_config \<Rightarrow> bool \<times> bool \<Rightarrow> protocol \<Rightarrow> db \<Rightarrow> string \<times> bool" where
  "transport_observed ps t p d =
     (''vless-'' @ protocol_key p,
      (\<forall>m\<in>set (method_list ps d). \<not> (m_engine m = Xray \<and> m_protocol m = p \<and> m_enabled m)) \<or> (if p = Xhttp then fst t else snd t))"

definition tls_shown :: "bool \<Rightarrow> monitor_probe \<Rightarrow> time \<Rightarrow> shown_tls" where
  "tls_shown setup pr now =
     \<lparr>st_status = (case pr_tls_days pr of
          None \<Rightarrow> ''unknown''
        | Some n \<Rightarrow> if tls_level n setup = LHealthy then ''valid'' else level_text (tls_level n setup)),
      st_expires_at = (case pr_tls_expires_at pr of
          Some t \<Rightarrow> Some t
        | None \<Rightarrow> map_option (\<lambda>n. now + n * 24 * 60 * 60 * 1000) (pr_tls_days pr)),
      st_failed = (pr_tls_days pr = None)\<rparr>"

definition collect_monitor ::
  "path_config \<Rightarrow> bool \<Rightarrow> monitor_probe \<Rightarrow> host_reading \<Rightarrow> time \<Rightarrow> monitor_world \<Rightarrow> monitor_world result" where
  "collect_monitor ps setup pr h now w =
     (let sampler = sample_resources h now (mw_sampler w); d = mw_db w
      in bind_result (fold_result (observe_service now) (map (\<lambda>s. (s, service_up (pr_services pr) s)) (expected_services setup d)) d) (\<lambda>d.
         bind_result (case pr_transports pr of
             Some t \<Rightarrow> if setup then Ok d
               else fold_result (observe_service now) [transport_observed ps t Xhttp d, transport_observed ps t Grpc d] d
           | None \<Rightarrow> Ok d) (\<lambda>d.
         bind_result (case pr_disk_percent pr of
             None \<Rightarrow> Ok d
           | Some p \<Rightarrow> observe_threshold ''system:disk'' disk_events [(''percent'', JNum p)] now (disk_level p) d) (\<lambda>d.
         bind_result (case pr_tls_days pr of
             None \<Rightarrow> Ok d
           | Some n \<Rightarrow> observe_threshold ''system:tls'' tls_events [(''days'', JNum n)] now (tls_level n setup) d) (\<lambda>d.
         Ok \<lparr>mw_db = d, mw_snapshot = \<lparr>sh_services = shown_services (pr_services pr) d,
               sh_transports = or_else (pr_transports pr) (sh_transports (mw_snapshot w)), sh_tls = Some (tls_shown setup pr now),
               sh_metrics = resource_metrics now sampler, sh_checked_at = Some now\<rparr>, mw_sampler = sampler\<rparr>)))))"

text \<open>\<open>refreshServices\<close>: the services alone.\<close>

definition refresh_services :: "bool \<Rightarrow> (string \<times> bool) list \<Rightarrow> time \<Rightarrow> monitor_world \<Rightarrow> monitor_world result" where
  "refresh_services setup found now w =
     bind_result (fold_result (observe_service now) (map (\<lambda>s. (s, service_up found s)) (expected_services setup (mw_db w))) (mw_db w)) (\<lambda>d.
       Ok (w\<lparr>mw_db := d, mw_snapshot := (mw_snapshot w)\<lparr>sh_services := shown_services found d, sh_checked_at := Some now\<rparr>\<rparr>))"

section \<open>The end of the first setup\<close>

definition setup_monitor_keys :: "string list" where
  "setup_monitor_keys = [''service:hysteria-server'', ''service:xray'', ''service:vless-xhttp'', ''service:vless-grpc'',
     ''telemetry:hysteria'', ''telemetry:xray'', ''system:tls'']"

definition setup_noise :: "event_row \<Rightarrow> bool" where
  "setup_noise e \<longleftrightarrow>
     ev_actor e = Some ''monitor'' \<and>
     (ev_type e = ''engine.telemetry_unavailable'' \<and> ev_source e \<in> {''hysteria'', ''xray''} \<or>
      ev_type e = ''service.unavailable'' \<and> ev_source e \<in> {''hysteria-server'', ''xray'', ''vless-xhttp'', ''vless-grpc''} \<or>
      ev_type e \<in> {''system.tls_warning'', ''system.tls_critical''} \<and> ev_source e = ''system'')"

definition prepare_setup_monitoring :: "db \<Rightarrow> db" where
  "prepare_setup_monitoring d =
     (if s_setup_monitoring d then d
      else d\<lparr>t_monitor := delete_where (\<lambda>m. mo_key m \<in> set setup_monitor_keys) (t_monitor d),
             t_events := delete_where setup_noise (t_events d), s_setup_monitoring := True\<rparr>)"

section \<open>What the panel answers of its health\<close>

text \<open>\<open>SystemService.status\<close>, of services and transports and the certificate.\<close>

definition transport_status :: "bool option \<Rightarrow> string" where
  "transport_status b = (case b of Some True \<Rightarrow> ''active'' | Some False \<Rightarrow> ''inactive'' | None \<Rightarrow> ''unknown'')"

definition panel_healthy :: "monitor_snapshot \<Rightarrow> db \<Rightarrow> bool" where
  "panel_healthy m d \<longleftrightarrow>
     list_all (\<lambda>(_, status). status \<in> {''active'', ''not-installed''}) (service_states (sh_services m) d) \<and>
     list_all (\<lambda>status. status \<noteq> ''inactive'') [transport_status (map_option fst (sh_transports m)), transport_status (map_option snd (sh_transports m))] \<and>
     map_option st_status (sh_tls m) = Some ''valid''"

text \<open>The days a certificate has left, rounded down.\<close>

definition certificate_days :: "time \<Rightarrow> time \<Rightarrow> int" where
  "certificate_days expires now = (expires - now) div (24 * 60 * 60 * 1000)"

end
