(* ===== verification/Monitor_Properties.thy ===== *)
theory Monitor_Properties
  imports Monitoring Traffic_Properties
begin

text \<open>
  The incidents of the disk and of the certificate refine a small alarm machine over the levels
  that were observed, whatever else a collection observes.
\<close>

section \<open>The alarm\<close>

text \<open>
  The level that was reported last and the level seen last; \<open>LHealthy\<close> stands for none.  A
  level is reported when it is seen twice in a row; a reading between the thresholds is
  not counted for either.
\<close>

type_synonym alarm = "level \<times> level"

fun level_event :: "string \<times> string \<times> string \<Rightarrow> level \<Rightarrow> string" where
  "level_event (warning, critical, recovered) l =
     (if l = LWarning then warning else if l = LCritical then critical else recovered)"

fun alarm_step :: "string \<times> string \<times> string \<Rightarrow> level \<Rightarrow> alarm \<Rightarrow> alarm \<times> string list" where
  "alarm_step evs LHold (reported, seen) = ((reported, LHealthy), [])"
| "alarm_step evs LHealthy (reported, seen) =
     ((LHealthy, LHealthy), if reported = LHealthy then [] else [level_event evs LHealthy])"
| "alarm_step evs l (reported, seen) =
     ((if seen = l then l else reported, l), if seen = l \<and> reported \<noteq> l then [level_event evs l] else [])"

fun alarm_run :: "string \<times> string \<times> string \<Rightarrow> level list \<Rightarrow> alarm \<Rightarrow> alarm \<times> string list" where
  "alarm_run evs [] a = (a, [])"
| "alarm_run evs (l # ls) a =
     (case alarm_step evs l a of (b, es) \<Rightarrow> (case alarm_run evs ls b of (c, fs) \<Rightarrow> (c, es @ fs)))"

text \<open>The alarm a monitor row stands for, and the events of an alarm in the journal.\<close>

definition level_of :: "string \<Rightarrow> level" where
  "level_of s = (if s = ''warning'' then LWarning else if s = ''critical'' then LCritical else LHealthy)"

definition target_of :: "(string \<times> json) list \<Rightarrow> level" where
  "target_of data = (case json_get ''target'' data of Some (JStr s) \<Rightarrow> level_of s | _ \<Rightarrow> LHealthy)"

definition alarm_of :: "string \<Rightarrow> db \<Rightarrow> alarm" where
  "alarm_of k d =
     (case find_monitor k d of
        None \<Rightarrow> (LHealthy, LHealthy)
      | Some m \<Rightarrow> (level_of (mo_status m), if 1 \<le> mo_failures m then target_of (mo_data m) else LHealthy))"

definition is_alarm :: "string \<times> string \<times> string \<Rightarrow> string \<Rightarrow> bool" where
  "is_alarm evs ty \<longleftrightarrow> (case evs of (a, b, c) \<Rightarrow> ty \<in> {a, b, c})"

definition alarm_log :: "string \<times> string \<times> string \<Rightarrow> db \<Rightarrow> string list" where
  "alarm_log evs d = filter (is_alarm evs) (map ev_type (t_events d))"

section \<open>Rows and events\<close>

lemma find_monitor_save_state:
  "\<exists>m. find_monitor k (save_state k' status severity failures now data d) = (if k = k' then Some m else find_monitor k d) \<and>
     mo_status m = status \<and> mo_severity m = severity \<and> mo_failures m = failures \<and> mo_data m = data"
proof -
  let ?c = "case find_monitor k' d of None \<Rightarrow> now | Some m \<Rightarrow> if mo_status m = status then mo_changed_at m else now"
  let ?f = "\<lambda>m. m\<lparr>mo_status := status, mo_severity := severity, mo_failures := failures, mo_data := data,
                  mo_observed_at := now, mo_changed_at := ?c\<rparr>"
  let ?new = "\<lparr>mo_key = k', mo_status = status, mo_severity = severity, mo_failures = failures, mo_data = data,
            mo_observed_at = now, mo_changed_at = ?c\<rparr>"
  have "t_monitor (save_state k' status severity failures now data d) = upsert (\<lambda>m. mo_key m = k') ?f ?new (t_monitor d)"
    by (simp add: save_state_def Let_def)
  then have "find_monitor k (save_state k' status severity failures now data d) =
      (if k = k' then Some (case find_monitor k d of None \<Rightarrow> ?new | Some r \<Rightarrow> ?f r) else find_monitor k d)"
    using select_one_upsert [of mo_key ?f ?new k' k "t_monitor d"] by (simp add: find_monitor_def)
  moreover have "\<exists>m. x = Some m \<and> mo_status m = status \<and> mo_severity m = severity \<and> mo_failures m = failures \<and> mo_data m = data"
    if "x = Some (case find_monitor k d of None \<Rightarrow> ?new | Some r \<Rightarrow> ?f r)" for x
    using that by (cases "find_monitor k d") simp_all
  ultimately show ?thesis by (cases "k = k'") auto
qed

lemma find_monitor_other: "k \<noteq> k' \<Longrightarrow> find_monitor k (save_state k' status severity failures now data d) = find_monitor k d"
  using find_monitor_save_state [of k k' status severity failures now data d] by auto

lemma alarm_log_save [simp]: "alarm_log evs (save_state k status severity failures now data d) = alarm_log evs d"
  by (simp add: alarm_log_def save_state_def Let_def)

lemma alarm_record:
  assumes "record_event ty e now d = Ok d'"
  shows "find_monitor k d' = find_monitor k d"
    "alarm_log evs d' = alarm_log evs d @ (if is_alarm evs ty then [ty] else [])"
  using assms by (auto simp: record_event_def event_def find_monitor_def alarm_log_def Let_def split: option.splits)

lemma record_known: "ty \<in> set (map fst definitions) \<Longrightarrow> \<exists>d'. record_event ty e now d = Ok d'"
  by (cases "map_of definitions ty") (auto simp: record_event_def map_of_eq_None_iff)

lemma service_types: "''service.restored'' \<in> set (map fst definitions)" "''service.unavailable'' \<in> set (map fst definitions)"
  by code_simp+

lemma alarm_types:
  "level_event disk_events l \<in> set (map fst definitions)" "level_event tls_events l \<in> set (map fst definitions)"
  by (cases l; simp only:; code_simp)+

section \<open>What leaves an alarm alone\<close>

lemma observe_service_frame:
  assumes "\<not> is_alarm evs ''service.restored''" "\<not> is_alarm evs ''service.unavailable''" "\<And>s. k \<noteq> service_key s"
  shows "\<exists>d'. observe_service now p d = Ok d' \<and> find_monitor k d' = find_monitor k d \<and> alarm_log evs d' = alarm_log evs d"
proof -
  obtain s healthy where p: "p = (s, healthy)" by (cases p)
  obtain d1 where d1: "record_event ''service.restored'' (service_entry s now) now d = Ok d1"
    using record_known [OF service_types(1)] by blast
  obtain d2 where d2: "record_event ''service.unavailable'' (service_entry s now) now d = Ok d2"
    using record_known [OF service_types(2)] by blast
  show ?thesis using assms
    by (auto simp: p observe_service_def Let_def d1 d2 alarm_record [OF d1] alarm_record [OF d2] find_monitor_other)
qed

lemma observe_services_frame:
  assumes "\<not> is_alarm evs ''service.restored''" "\<not> is_alarm evs ''service.unavailable''" "\<And>s. k \<noteq> service_key s"
  shows "\<exists>d'. fold_result (observe_service now) ps d = Ok d' \<and> find_monitor k d' = find_monitor k d \<and> alarm_log evs d' = alarm_log evs d"
proof (induction ps arbitrary: d)
  case (Cons p ps)
  obtain d1 where "observe_service now p d = Ok d1" "find_monitor k d1 = find_monitor k d" "alarm_log evs d1 = alarm_log evs d"
    using observe_service_frame [OF assms] by blast
  with Cons [of d1] show ?case by auto
qed simp

section \<open>One observation\<close>

lemma target_of_append: "json_get ''target'' data = None \<Longrightarrow> target_of (data @ [(''target'', JStr s)]) = level_of s"
  by (induction data) (auto simp: target_of_def json_get_def split: if_splits)

lemma level_of_text [simp]: "level_of (level_text LWarning) = LWarning" "level_of (level_text LCritical) = LCritical"
  by (simp_all add: level_of_def)

lemma level_of_iff:
  "level_of s = LWarning \<longleftrightarrow> s = ''warning''" "level_of s = LCritical \<longleftrightarrow> s = ''critical''"
  "level_of s = LHealthy \<longleftrightarrow> s \<noteq> ''warning'' \<and> s \<noteq> ''critical''"
  by (simp_all add: level_of_def)

lemma target_of_iff:
  "target_of data = LWarning \<longleftrightarrow> json_get ''target'' data = Some (JStr ''warning'')"
  "target_of data = LCritical \<longleftrightarrow> json_get ''target'' data = Some (JStr ''critical'')"
  by (auto simp: target_of_def level_of_iff split: option.splits json.splits)

lemma save_alarm:
  "alarm_of k (save_state k status severity failures now data d) =
     (level_of status, if 1 \<le> failures then target_of data else LHealthy)"
  using find_monitor_save_state [of k k status severity failures now data d] by (auto simp: alarm_of_def)

lemma alarm_reported:
  "fst (alarm_of k d) = level_of (coalesce (previous_status k d) s)" if "s \<notin> {''warning'', ''critical''}" for s
  using that by (auto simp: alarm_of_def previous_status_def level_of_def split: option.splits)

text \<open>Whether the level that is observed is the one that was seen last.\<close>

definition seen_again :: "string \<Rightarrow> level \<Rightarrow> db \<Rightarrow> bool" where
  "seen_again k l d \<longleftrightarrow>
     1 \<le> previous_failures k d \<and>
     (case find_monitor k d of None \<Rightarrow> None | Some m \<Rightarrow> json_get ''target'' (mo_data m)) = Some (JStr (level_text l))"

lemma alarm_seen: "l \<in> {LWarning, LCritical} \<Longrightarrow> snd (alarm_of k d) = l \<longleftrightarrow> seen_again k l d"
  by (auto simp: alarm_of_def seen_again_def previous_failures_def target_of_iff split: option.splits)

lemma observe_level:
  assumes "l \<in> {LWarning, LCritical}"
  shows "observe_threshold k evs data now l d =
    bind_result (if seen_again k l d \<and> previous_status k d \<noteq> Some (level_text l)
                 then record_event (level_event evs l) (entry\<lparr>je_actor := Some ''monitor'', je_occurred_at := Some now, je_data := data,
                        je_severity := Some (level_text l)\<rparr>) now d else Ok d) (\<lambda>d'.
      Ok (save_state k (if seen_again k l d then level_text l else coalesce (previous_status k d) ''baseline'')
        (Some (level_text l)) (if (case find_monitor k d of None \<Rightarrow> None | Some m \<Rightarrow> json_get ''target'' (mo_data m)) = Some (JStr (level_text l))
          then previous_failures k d + 1 else 1) now (data @ [(''target'', JStr (level_text l))]) d'))"
  using assms by (cases evs) (auto simp: observe_threshold_def Let_def seen_again_def)

text \<open>What an alarm and its journal show together.\<close>

definition alarm_view :: "string \<Rightarrow> string \<times> string \<times> string \<Rightarrow> db \<Rightarrow> alarm \<times> string list" where
  "alarm_view k evs d = (alarm_of k d, alarm_log evs d)"

fun alarm_move :: "string \<times> string \<times> string \<Rightarrow> level \<Rightarrow> alarm \<times> string list \<Rightarrow> alarm \<times> string list" where
  "alarm_move evs l (a, logged) = (case alarm_step evs l a of (b, es) \<Rightarrow> (b, logged @ es))"

lemma is_alarm_event [simp]: "is_alarm evs (level_event evs l)"
  by (cases evs) (simp add: is_alarm_def)

lemma known_event:
  assumes "\<And>l. level_event evs l \<in> set (map fst definitions)"
  obtains d' where "record_event (level_event evs l) e now d = Ok d'"
    "alarm_log evs d' = alarm_log evs d @ [level_event evs l]" "\<And>k. find_monitor k d' = find_monitor k d"
proof -
  obtain d' where "record_event (level_event evs l) e now d = Ok d'" using record_known [OF assms] by blast
  then show ?thesis using that alarm_record [of "level_event evs l" e now d d'] by simp
qed

lemma observe_level_alarm:
  assumes "\<And>l. level_event evs l \<in> set (map fst definitions)" and "json_get ''target'' data = None" and l: "l \<in> {LWarning, LCritical}"
  shows "\<exists>d'. observe_threshold k evs data now l d = Ok d' \<and> alarm_view k evs d' = alarm_move evs l (alarm_view k evs d)"
proof -
  obtain reported seen where a: "alarm_of k d = (reported, seen)" by fastforce
  have again: "seen = l \<longleftrightarrow> seen_again k l d" using alarm_seen [OF l, of k d] a by simp
  have status: "reported = level_of (coalesce (previous_status k d) ''baseline'')" using alarm_reported [of "''baseline''" k d] a by simp
  have is_reported: "reported = l \<longleftrightarrow> previous_status k d = Some (level_text l)"
    using l unfolding status by (cases "previous_status k d") (auto simp: level_of_def)
  have one: "target_of (data @ [(''target'', JStr (level_text l))]) = l" using target_of_append [OF assms(2)] l by (auto simp: level_of_def)
  have spelled: "level_of (level_text l) = l" using l by (auto simp: level_of_def)
  have step: "alarm_step evs l (reported, seen) =
      ((if seen = l then l else reported, l), if seen = l \<and> reported \<noteq> l then [level_event evs l] else [])" using l by auto
  show ?thesis
  proof (cases "seen = l \<and> reported \<noteq> l")
    case True
    obtain d1 where d1: "record_event (level_event evs l) (entry\<lparr>je_actor := Some ''monitor'', je_occurred_at := Some now, je_data := data,
        je_severity := Some (level_text l)\<rparr>) now d = Ok d1" "alarm_log evs d1 = alarm_log evs d @ [level_event evs l]"
      using known_event [OF assms(1)] by metis
    show ?thesis using True
      by (simp add: observe_level [OF l] again [symmetric] is_reported [symmetric] d1 alarm_view_def a save_alarm one spelled)
        (use l in auto)
  next
    case False
    then show ?thesis
      by (simp add: observe_level [OF l] again [symmetric] is_reported [symmetric] alarm_view_def a save_alarm one step)
        (auto simp: spelled status)
  qed
qed

lemma observe_threshold_alarm:
  assumes "\<And>l. level_event evs l \<in> set (map fst definitions)" and "json_get ''target'' data = None"
  shows "\<exists>d'. observe_threshold k evs data now l d = Ok d' \<and> alarm_view k evs d' = alarm_move evs l (alarm_view k evs d)"
proof (cases l)
  case LHealthy
  obtain a b c where evs: "evs = (a, b, c)" by (cases evs)
  have c: "c = level_event evs LHealthy" by (simp add: evs)
  obtain d1 where d1: "record_event c (entry\<lparr>je_actor := Some ''monitor'', je_occurred_at := Some now, je_data := data\<rparr>) now d = Ok d1"
    "alarm_log evs d1 = alarm_log evs d @ [c]"
    unfolding c using known_event [OF assms(1)] by metis
  obtain reported seen where a: "alarm_of k d = (reported, seen)" by fastforce
  have "previous_status k d \<in> {Some ''warning'', Some ''critical''} \<longleftrightarrow> reported \<noteq> LHealthy"
    using alarm_reported [of "''baseline''" k d] a by (cases "previous_status k d") (auto simp: level_of_def)
  then show ?thesis using d1 by (auto simp: LHealthy observe_threshold_def Let_def alarm_view_def a evs save_alarm level_of_def)
next
  case LHold
  have "target_of data = LHealthy" using assms(2) by (simp add: target_of_def)
  moreover have "fst (alarm_of k d) = level_of (coalesce (previous_status k d) ''healthy'')" by (rule alarm_reported) simp
  ultimately show ?thesis
    by (cases evs; cases "alarm_of k d") (simp add: LHold observe_threshold_def Let_def alarm_view_def save_alarm)
qed (use observe_level_alarm [OF assms] in auto)

text \<open>Another alarm stays as it is.\<close>

lemma observe_threshold_other:
  assumes "observe_threshold k evs data now l d = Ok d'" and "k' \<noteq> k" and "\<And>l. \<not> is_alarm evs' (level_event evs l)"
  shows "alarm_view k' evs' d' = alarm_view k' evs' d"
proof -
  obtain a b c where evs: "evs = (a, b, c)" by (cases evs)
  have other: "\<not> is_alarm evs' a" "\<not> is_alarm evs' b" "\<not> is_alarm evs' c"
    using assms(3) [of LWarning] assms(3) [of LCritical] assms(3) [of LHealthy] by (simp_all add: evs)
  have frame: "alarm_view k' evs' (save_state k status severity failures now x d1) = alarm_view k' evs' d1"
    for status severity failures x d1
    using assms(2) by (simp add: alarm_view_def alarm_of_def find_monitor_other)
  have rec: "alarm_view k' evs' d1 = alarm_view k' evs' d" if "record_event ty e now d = Ok d1" "ty \<in> {a, b, c}" for ty e d1
    using alarm_record [OF that(1)] that(2) other by (auto simp: alarm_view_def alarm_of_def)
  show ?thesis using assms(1) by (cases l) (auto simp: observe_threshold_def Let_def evs frame split: if_splits dest!: rec)
qed

section \<open>A collection\<close>

definition disk_view :: "db \<Rightarrow> alarm \<times> string list" where
  "disk_view d = alarm_view ''system:disk'' disk_events d"

definition tls_view :: "db \<Rightarrow> alarm \<times> string list" where
  "tls_view d = alarm_view ''system:tls'' tls_events d"

lemma services_views:
  "\<exists>d'. fold_result (observe_service now) ps d = Ok d' \<and> disk_view d' = disk_view d \<and> tls_view d' = tls_view d"
proof -
  have disk: "\<not> is_alarm disk_events ''service.restored''" "\<not> is_alarm disk_events ''service.unavailable''" "''system:disk'' \<noteq> service_key s" for s
    by (simp_all add: is_alarm_def disk_events_def service_key_def)
  have tls: "\<not> is_alarm tls_events ''service.restored''" "\<not> is_alarm tls_events ''service.unavailable''" "''system:tls'' \<noteq> service_key s" for s
    by (simp_all add: is_alarm_def tls_events_def service_key_def)
  obtain d' where "fold_result (observe_service now) ps d = Ok d'" "disk_view d' = disk_view d"
    using observe_services_frame [OF disk, of now ps d] by (auto simp: disk_view_def alarm_view_def alarm_of_def)
  then show ?thesis
    using observe_services_frame [OF tls, of now ps d] by (auto simp: tls_view_def alarm_view_def alarm_of_def)
qed

lemma disk_observed:
  "\<exists>d'. observe_threshold ''system:disk'' disk_events [(''percent'', JNum p)] now l d = Ok d' \<and>
     disk_view d' = alarm_move disk_events l (disk_view d) \<and> tls_view d' = tls_view d"
proof -
  obtain d' where "observe_threshold ''system:disk'' disk_events [(''percent'', JNum p)] now l d = Ok d'"
    "disk_view d' = alarm_move disk_events l (disk_view d)"
    using observe_threshold_alarm [of disk_events "[(''percent'', JNum p)]" "''system:disk''" now l d] alarm_types(1)
    by (auto simp: disk_view_def json_get_def)
  moreover have "\<not> is_alarm tls_events (level_event disk_events l)" for l
    by (simp add: is_alarm_def tls_events_def disk_events_def)
  ultimately show ?thesis using observe_threshold_other [of "''system:disk''" disk_events _ now l d d' "''system:tls''" tls_events]
    by (auto simp: tls_view_def)
qed

lemma tls_observed:
  "\<exists>d'. observe_threshold ''system:tls'' tls_events [(''days'', JNum p)] now l d = Ok d' \<and>
     tls_view d' = alarm_move tls_events l (tls_view d) \<and> disk_view d' = disk_view d"
proof -
  obtain d' where "observe_threshold ''system:tls'' tls_events [(''days'', JNum p)] now l d = Ok d'"
    "tls_view d' = alarm_move tls_events l (tls_view d)"
    using observe_threshold_alarm [of tls_events "[(''days'', JNum p)]" "''system:tls''" now l d] alarm_types(2)
    by (auto simp: tls_view_def json_get_def)
  moreover have "\<not> is_alarm disk_events (level_event tls_events l)" for l
    by (simp add: is_alarm_def tls_events_def disk_events_def)
  ultimately show ?thesis using observe_threshold_other [of "''system:tls''" tls_events _ now l d d' "''system:disk''" disk_events]
    by (auto simp: disk_view_def)
qed

text \<open>The levels a probe shows, if it could measure them.\<close>

definition disk_seen :: "monitor_probe \<Rightarrow> level list" where
  "disk_seen pr = (case pr_disk_percent pr of None \<Rightarrow> [] | Some p \<Rightarrow> [disk_level p])"

definition tls_seen :: "bool \<Rightarrow> monitor_probe \<Rightarrow> level list" where
  "tls_seen setup pr = (case pr_tls_days pr of None \<Rightarrow> [] | Some n \<Rightarrow> [tls_level n setup])"

lemma collect_monitor_views:
  "\<exists>w'. collect_monitor ps setup pr h now w = Ok w' \<and>
     disk_view (mw_db w') = fold (alarm_move disk_events) (disk_seen pr) (disk_view (mw_db w)) \<and>
     tls_view (mw_db w') = fold (alarm_move tls_events) (tls_seen setup pr) (tls_view (mw_db w))"
proof -
  let ?d = "mw_db w"
  obtain d1 where d1: "fold_result (observe_service now) (map (\<lambda>s. (s, service_up (pr_services pr) s)) (expected_services setup ?d)) ?d = Ok d1"
    "disk_view d1 = disk_view ?d" "tls_view d1 = tls_view ?d" using services_views by blast
  obtain d2 where d2: "(case pr_transports pr of
      Some t \<Rightarrow> if setup then Ok d1
        else fold_result (observe_service now) [transport_observed ps t Xhttp d1, transport_observed ps t Grpc d1] d1
    | None \<Rightarrow> Ok d1) = Ok d2" "disk_view d2 = disk_view d1" "tls_view d2 = tls_view d1"
    using services_views [of now _ d1] that by (cases "pr_transports pr"; cases "setup") (simp_all del: fold_result.simps, metis)
  obtain d3 where d3: "(case pr_disk_percent pr of None \<Rightarrow> Ok d2
    | Some p \<Rightarrow> observe_threshold ''system:disk'' disk_events [(''percent'', JNum p)] now (disk_level p) d2) = Ok d3"
    "disk_view d3 = fold (alarm_move disk_events) (disk_seen pr) (disk_view d2)" "tls_view d3 = tls_view d2"
    using disk_observed [of _ now _ d2] that by (cases "pr_disk_percent pr") (simp_all add: disk_seen_def, metis)
  obtain d4 where d4: "(case pr_tls_days pr of None \<Rightarrow> Ok d3
    | Some n \<Rightarrow> observe_threshold ''system:tls'' tls_events [(''days'', JNum n)] now (tls_level n setup) d3) = Ok d4"
    "tls_view d4 = fold (alarm_move tls_events) (tls_seen setup pr) (tls_view d3)" "disk_view d4 = disk_view d3"
    using tls_observed [of _ now _ d3] that by (cases "pr_tls_days pr") (simp_all add: tls_seen_def, metis)
  show ?thesis
    by (simp add: collect_monitor_def Let_def d1(1) d2(1) d3(1) d4(1) del: fold_result.simps)
      (simp add: d1 d2 d3 d4)
qed

definition run_monitor ::
  "path_config \<Rightarrow> bool \<Rightarrow> (monitor_probe \<times> host_reading \<times> time) list \<Rightarrow> monitor_world \<Rightarrow> monitor_world result" where
  "run_monitor ps setup probes w = fold_result (\<lambda>(pr, h, now). collect_monitor ps setup pr h now) probes w"

lemma fold_alarm_move:
  "fold (alarm_move evs) ls (a, logged) = (case alarm_run evs ls a of (b, es) \<Rightarrow> (b, logged @ es))"
  by (induction ls arbitrary: a logged) (auto split: prod.splits)

lemma run_monitor_views:
  "\<exists>w'. run_monitor ps setup probes w = Ok w' \<and>
     disk_view (mw_db w') = fold (alarm_move disk_events) (concat (map (disk_seen \<circ> fst) probes)) (disk_view (mw_db w)) \<and>
     tls_view (mw_db w') = fold (alarm_move tls_events) (concat (map (tls_seen setup \<circ> fst) probes)) (tls_view (mw_db w))"
  unfolding run_monitor_def
proof (induction probes arbitrary: w)
  case (Cons p probes)
  obtain pr h now where p: "p = (pr, h, now)" by (cases p)
  obtain w1 where w1: "collect_monitor ps setup pr h now w = Ok w1"
    "disk_view (mw_db w1) = fold (alarm_move disk_events) (disk_seen pr) (disk_view (mw_db w))"
    "tls_view (mw_db w1) = fold (alarm_move tls_events) (tls_seen setup pr) (tls_view (mw_db w))"
    using collect_monitor_views by blast
  from Cons [of w1] show ?case by (simp add: p w1)
qed simp

text \<open>
  C24.  The incidents of the disk and of the certificate are those of the alarm machine: over any
  sequence of collections the journal gains exactly the events \<open>alarm_run\<close> reports for the
  levels the probes showed (a warning or critical level when it is seen twice in a row
  and was not reported already, the recovery when a reported level is healthy again), no matter what
  the other observations find; the monitor rows hold the state of the machine, and a
  collection never fails.
\<close>

theorem incidents_refine_alarms:
  "\<exists>w'. run_monitor ps setup probes w = Ok w' \<and>
     (let a = alarm_of ''system:disk'' (mw_db w); b = alarm_of ''system:tls'' (mw_db w);
          disk = alarm_run disk_events (concat (map (disk_seen \<circ> fst) probes)) a;
          tls = alarm_run tls_events (concat (map (tls_seen setup \<circ> fst) probes)) b
      in alarm_of ''system:disk'' (mw_db w') = fst disk \<and> alarm_log disk_events (mw_db w') = alarm_log disk_events (mw_db w) @ snd disk \<and>
         alarm_of ''system:tls'' (mw_db w') = fst tls \<and> alarm_log tls_events (mw_db w') = alarm_log tls_events (mw_db w) @ snd tls)"
proof -
  obtain w' where w': "run_monitor ps setup probes w = Ok w'"
    "disk_view (mw_db w') = fold (alarm_move disk_events) (concat (map (disk_seen \<circ> fst) probes)) (disk_view (mw_db w))"
    "tls_view (mw_db w') = fold (alarm_move tls_events) (concat (map (tls_seen setup \<circ> fst) probes)) (tls_view (mw_db w))"
    using run_monitor_views by blast
  then show ?thesis
    by (auto simp: disk_view_def tls_view_def alarm_view_def fold_alarm_move Let_def split: prod.splits)
qed

end
