(* ===== verification/Updates.thy ===== *)
theory Updates
  imports Versions Database
begin

text \<open>
  Updates of the panel (src/src/server/services/application-updates.ts): the releases GitHub
  lists are parsed and compared, the newest is stored, and its archive is downloaded, verified
  and kept for the root agent.

  The answers of GitHub are inputs, minisign is the parameter \<open>verify\<close> over the contents of an
  archive and its signature, and the texts of an error are inputs too.  The incoming
  directory is a map from names to contents, a character for a byte.  Checking and preparing are asynchronous: their
  beginning and their end are separate operations, and the process may die while it prepares.
\<close>

section \<open>Notes of a release\<close>

text \<open>A Markdown link \<open>[text](target)\<close> at the start of a text: the text and what follows it.\<close>

definition link_at :: "string \<Rightarrow> (string \<times> string) option" where
  "link_at s =
     (let label = takeWhile (\<lambda>c. c \<noteq> CHR '']'') (tl s); rest = drop (Suc (length label)) (tl s);
          target = takeWhile (\<lambda>c. c \<noteq> CHR '')'') (tl rest); after = drop (length target) (tl rest)
      in if s \<noteq> [] \<and> hd s = CHR ''['' \<and> label \<noteq> [] \<and> length label < length (tl s) \<and> rest \<noteq> [] \<and> hd rest = CHR ''('' \<and>
            target \<noteq> [] \<and> after \<noteq> []
         then Some (label, tl after) else None)"

lemma link_at_shorter: "link_at s = Some (label, rest) \<Longrightarrow> length rest < length s"
  by (cases s) (auto simp: link_at_def Let_def split: if_splits)

function strip_links :: "string \<Rightarrow> string" where
  "strip_links s =
     (case s of
        [] \<Rightarrow> []
      | c # cs \<Rightarrow> (case link_at s of Some (label, rest) \<Rightarrow> label @ strip_links rest | None \<Rightarrow> c # strip_links cs))"
  by auto
termination by (relation "measure length") (auto dest: link_at_shorter)

declare strip_links.simps [simp del]

definition handle_char :: "char \<Rightarrow> bool" where
  "handle_char c \<longleftrightarrow> is_alnum c \<or> c = CHR ''-''"

text \<open>White space, and what follows it.\<close>

definition after_space :: "string \<Rightarrow> string option" where
  "after_space s = (if s \<noteq> [] \<and> is_space (hd s) then Some (dropWhile is_space s) else None)"

definition after_word :: "string \<Rightarrow> string \<Rightarrow> string option" where
  "after_word w s = (if to_lower (take (length w) s) = w then Some (drop (length w) s) else None)"

text \<open>\<open>by @handle in https://...\<close> up to the end of the text, with the white space before it.\<close>

definition credit :: "string \<Rightarrow> bool" where
  "credit s \<longleftrightarrow>
     (case Option.bind (Option.bind (Option.bind (after_space s) (after_word ''by'')) after_space) (after_word ''@'') of
        None \<Rightarrow> False
      | Some t \<Rightarrow>
          (let handle = takeWhile handle_char t
           in handle \<noteq> [] \<and>
              (case Option.bind (Option.bind (Option.bind (after_space (drop (length handle) t)) (after_word ''in'')) after_space) (after_word ''http'') of
                 None \<Rightarrow> False
               | Some u \<Rightarrow>
                   (let v = (if u \<noteq> [] \<and> to_lower [hd u] = ''s'' then tl u else u)
                    in starts_with v ''://'' \<and> 3 < length v \<and> list_all (\<lambda>c. \<not> is_space c) (drop 3 v)))))"

fun drop_credit :: "string \<Rightarrow> string" where
  "drop_credit [] = []"
| "drop_credit (c # cs) = (if credit (c # cs) then [] else c # drop_credit cs)"

fun squeeze_space :: "string \<Rightarrow> string" where
  "squeeze_space [] = []"
| "squeeze_space (c # cs) =
     (if is_space c then (if cs \<noteq> [] \<and> is_space (hd cs) then squeeze_space cs else CHR '' '' # squeeze_space cs)
      else c # squeeze_space cs)"

definition clean_note :: "string \<Rightarrow> string" where
  "clean_note s =
     take 240 (trim (squeeze_space (filter (\<lambda>c. c \<notin> {CHR 0x60, CHR ''*'', CHR ''_''}) (drop_credit (strip_links s)))))"

text \<open>The text of a list item: a dash or a star and white space.\<close>

definition list_item :: "string \<Rightarrow> string option" where
  "list_item l =
     (let s = dropWhile is_space l
      in if s \<noteq> [] \<and> hd s \<in> {CHR ''-'', CHR ''*''} then after_space (tl s) else None)"

definition drop_return :: "string \<Rightarrow> string" where
  "drop_return l = (if l \<noteq> [] \<and> last l = CHR 0x0D then butlast l else l)"

text \<open>The lines of a text, ended by a line feed with or without a carriage return.\<close>

definition note_lines :: "string \<Rightarrow> string list" where
  "note_lines s = (let ls = split_on (CHR 0x0A) s in map drop_return (butlast ls) @ [last ls])"

definition shown_notes :: "string list \<Rightarrow> string list" where
  "shown_notes ns = take 8 (filter (\<lambda>n. n \<noteq> []) (map clean_note ns))"

definition release_notes :: "json option \<Rightarrow> string list" where
  "release_notes body = (case body of Some (JStr s) \<Rightarrow> shown_notes (List.map_filter list_item (note_lines s)) | _ \<Rightarrow> [])"

section \<open>Releases\<close>

datatype channel = Stable | Candidate

record release_asset =
  ra_name :: string
  ra_size :: int
  ra_url :: string

record release =
  re_version :: string
  re_tag :: string
  re_published_at :: "string option"
  re_notes :: "string list"
  re_archive :: release_asset
  re_signature :: release_asset

definition archive_limit :: int where
  "archive_limit = 256 * 1024 * 1024"

definition signature_limit :: int where
  "signature_limit = 16 * 1024"

text \<open>The products, computed once.\<close>

lemma limit_values [code]: "archive_limit = 268435456" "signature_limit = 16384"
  by (simp_all add: archive_limit_def signature_limit_def)

definition download_root :: string where
  "download_root = ''https://github.com/Outpost-VPN/outpost-vpn-server/releases/download''"

definition archive_name :: "string \<Rightarrow> string" where
  "archive_name v = ''outpost-'' @ v @ ''-linux-amd64.tar.gz''"

definition signature_name :: "string \<Rightarrow> string" where
  "signature_name v = archive_name v @ ''.minisig''"

text \<open>Whether a JSON value is true where the program tests it.\<close>

fun truthy :: "json option \<Rightarrow> bool" where
  "truthy None = False"
| "truthy (Some JNull) = False"
| "truthy (Some (JBool b)) = b"
| "truthy (Some (JNum n)) = (n \<noteq> 0)"
| "truthy (Some (JStr s)) = (s \<noteq> [])"
| "truthy (Some _) = True"

text \<open>The first asset of a name; its size and address are checked when it is used.\<close>

definition asset_named :: "string \<Rightarrow> json list \<Rightarrow> (string \<times> json) list option" where
  "asset_named n assets =
     Option.bind (find (\<lambda>a. case a of JObj kvs \<Rightarrow> json_get ''name'' kvs = Some (JStr n) | _ \<Rightarrow> False) assets)
       (\<lambda>a. case a of JObj kvs \<Rightarrow> Some kvs | _ \<Rightarrow> None)"

definition safe_size :: "int \<Rightarrow> (string \<times> json) list \<Rightarrow> int option" where
  "safe_size limit kvs =
     (case json_get ''size'' kvs of
        Some (JNum n) \<Rightarrow> if 1 \<le> n \<and> n \<le> limit then Some n else None
      | _ \<Rightarrow> None)"

definition parse_asset :: "string \<Rightarrow> string \<Rightarrow> int \<Rightarrow> json list \<Rightarrow> release_asset option" where
  "parse_asset n url limit assets =
     Option.bind (asset_named n assets) (\<lambda>kvs.
       if json_get ''browser_download_url'' kvs \<noteq> Some (JStr url) then None
       else map_option (\<lambda>s. \<lparr>ra_name = n, ra_size = s, ra_url = url\<rparr>) (safe_size limit kvs))"

definition parse_release :: "channel \<Rightarrow> json \<Rightarrow> release option" where
  "parse_release ch value =
     (case value of
        JObj kvs \<Rightarrow>
          if truthy (json_get ''draft'' kvs) then None
          else (case (json_get ''tag_name'' kvs, json_get ''assets'' kvs) of
            (Some (JStr tag), Some (JArr assets)) \<Rightarrow>
              (let v = (if starts_with tag ''v'' then tl tag else []); root = download_root @ ''/'' @ tag @ ''/''
               in if parse_version v = None then None
                  else if ch = Stable \<and> (truthy (json_get ''prerelease'' kvs) \<or> is_prerelease v) then None
                  else Option.bind (parse_asset (archive_name v) (root @ archive_name v) archive_limit assets) (\<lambda>archive.
                       map_option (\<lambda>signature.
                         \<lparr>re_version = v, re_tag = tag,
                          re_published_at = (case json_get ''published_at'' kvs of Some (JStr t) \<Rightarrow> Some t | _ \<Rightarrow> None),
                          re_notes = release_notes (json_get ''body'' kvs), re_archive = archive, re_signature = signature\<rparr>)
                       (parse_asset (signature_name v) (root @ archive_name v @ ''.minisig'') signature_limit assets)))
          | _ \<Rightarrow> None)
      | _ \<Rightarrow> None)"

definition asset_json :: "release_asset \<Rightarrow> json" where
  "asset_json a = JObj [(''name'', JStr (ra_name a)), (''size'', JNum (ra_size a)), (''browser_download_url'', JStr (ra_url a))]"

text \<open>A stored release is parsed again before it is used.\<close>

definition validate_stored_release :: "release \<Rightarrow> release result" where
  "validate_stored_release r =
     (case parse_release Candidate (JObj [(''tag_name'', JStr (re_tag r)), (''draft'', JBool False),
             (''prerelease'', JBool (is_prerelease (re_version r))),
             (''published_at'', case re_published_at r of Some t \<Rightarrow> JStr t | None \<Rightarrow> JNull),
             (''body'', JStr (join_with [CHR 0x0A] (map (\<lambda>n. ''* '' @ n) (shown_notes (re_notes r))))),
             (''assets'', JArr [asset_json (re_archive r), asset_json (re_signature r)])]) of
        None \<Rightarrow> Err (ServiceError 409)
      | Some p \<Rightarrow> if re_version p \<noteq> re_version r then Err (ServiceError 409) else Ok p)"

section \<open>State\<close>

datatype update_status = UIdle | UChecking | UCurrent | UAvailable | UPreparing | UReady | UFailed

record update_state =
  up_status :: update_status
  up_channel :: channel
  up_current :: string
  up_latest :: string
  up_available :: bool
  up_ready :: bool
  up_checked_at :: "time option"
  up_published_at :: "string option"
  up_size :: "int option"
  up_notes :: "string list"
  up_error :: "string option"
  up_release :: "release option"

definition empty_update :: "string \<Rightarrow> channel \<Rightarrow> update_state" where
  "empty_update current ch = \<lparr>up_status = UIdle, up_channel = ch, up_current = current, up_latest = current, up_available = False,
     up_ready = False, up_checked_at = None, up_published_at = None, up_size = None, up_notes = [], up_error = None, up_release = None\<rparr>"

text \<open>A preparation waits for a check (it may have started one itself), then downloads.\<close>

datatype preparing = NotPreparing | Waiting bool string | Downloading string update_state release

text \<open>
  The process (its version, the check and the preparation under way) and what outlives it: the
  settings, the files of the incoming directory and the audit log.
\<close>

record update_world =
  uw_current :: string
  uw_checking :: "(string \<times> channel \<times> time) option"
  uw_preparing :: preparing
  uw_stored :: "update_state option"
  uw_channel :: "string option"
  uw_channel_v2 :: bool
  uw_files :: "string \<Rightarrow> string option"
  uw_db :: db

definition the_channel :: "update_world \<Rightarrow> channel" where
  "the_channel w = (if uw_channel w = Some ''candidate'' then Candidate else Stable)"

definition stored :: "update_world \<Rightarrow> update_state" where
  "stored w = coalesce (uw_stored w) (empty_update (uw_current w) (the_channel w))"

definition outdated :: "update_world \<Rightarrow> bool" where
  "outdated w \<longleftrightarrow> up_current (stored w) \<noteq> uw_current w \<or> up_channel (stored w) \<noteq> the_channel w"

definition public_state :: "update_state \<Rightarrow> update_state" where
  "public_state s = s\<lparr>up_notes := shown_notes (up_notes s), up_release := None\<rparr>"

definition shown_update :: "update_world \<Rightarrow> update_state" where
  "shown_update w = (if outdated w then empty_update (uw_current w) (the_channel w) else public_state (stored w))"

definition initialize_channel :: "update_world \<Rightarrow> update_world" where
  "initialize_channel w =
     (if uw_channel_v2 w then w
      else w\<lparr>uw_channel := (if is_prerelease (uw_current w) \<and> uw_channel w \<noteq> Some ''candidate'' then Some ''candidate'' else uw_channel w),
             uw_channel_v2 := True\<rparr>)"

definition reset_update :: "update_world \<Rightarrow> update_world" where
  "reset_update w = w\<lparr>uw_stored := Some (empty_update (uw_current w) (the_channel w))\<rparr>"

text \<open>\<open>updateSettings\<close>, of the channel: a new channel forgets what was found on the old one.\<close>

definition set_channel :: "channel \<Rightarrow> update_world \<Rightarrow> update_world" where
  "set_channel ch w =
     (let w' = w\<lparr>uw_channel := Some (if ch = Candidate then ''candidate'' else ''stable'')\<rparr>
      in if ch \<noteq> the_channel w then reset_update w' else w')"

section \<open>Checking\<close>

definition audit_update :: "string \<Rightarrow> string \<Rightarrow> string option \<Rightarrow> time \<Rightarrow> update_world \<Rightarrow> update_world" where
  "audit_update actor action i now w = w\<lparr>uw_db := snd (audit actor action ''application_update'' i None now (uw_db w))\<rparr>"

definition begin_check :: "string \<Rightarrow> time \<Rightarrow> update_world \<Rightarrow> update_world" where
  "begin_check actor now w =
     (if uw_checking w \<noteq> None then w
      else w\<lparr>uw_stored := Some ((empty_update (uw_current w) (the_channel w))\<lparr>up_status := UChecking\<rparr>),
             uw_checking := Some (actor, the_channel w, now)\<rparr>)"

text \<open>How two valid versions compare; the order of the candidates, the newest first.\<close>

definition newer_first :: "release \<Rightarrow> release \<Rightarrow> bool" where
  "newer_first a b \<longleftrightarrow> (case compare_versions (re_version b) (re_version a) of Inr i \<Rightarrow> i \<le> 0 | Inl _ \<Rightarrow> True)"

definition candidates :: "string \<Rightarrow> channel \<Rightarrow> json list \<Rightarrow> release list result" where
  "candidates current ch releases =
     bind_result (map_result (\<lambda>r. bind_result (compare_versions (re_version r) current) (\<lambda>i. Ok (r, i)))
                   (List.map_filter (parse_release ch) releases))
       (\<lambda>rs. Ok (sort_by newer_first (map fst (filter (\<lambda>(r, i). i > 0) rs))))"

definition found_update :: "string \<Rightarrow> channel \<Rightarrow> time \<Rightarrow> release list \<Rightarrow> update_state" where
  "found_update current ch checked_at rs =
     (case rs of
        [] \<Rightarrow> (empty_update current ch)\<lparr>up_status := UCurrent, up_checked_at := Some checked_at\<rparr>
      | r # _ \<Rightarrow> \<lparr>up_status = UAvailable, up_channel = ch, up_current = current, up_latest = re_version r, up_available = True,
          up_ready = False, up_checked_at = Some checked_at, up_published_at = re_published_at r,
          up_size = Some (ra_size (re_archive r)), up_notes = re_notes r, up_error = None, up_release = Some r\<rparr>)"

text \<open>The end of a check: what GitHub answered, or the text of the error.\<close>

definition end_check :: "string + json \<Rightarrow> (failure \<Rightarrow> string) \<Rightarrow> time \<Rightarrow> update_world \<Rightarrow> update_world" where
  "end_check answer say now w =
     (case uw_checking w of
        None \<Rightarrow> w
      | Some (actor, ch, checked_at) \<Rightarrow>
          (let w1 = w\<lparr>uw_checking := None\<rparr>;
               failed = (\<lambda>message. audit_update actor ''updates.check_failed'' None now
                 (w1\<lparr>uw_stored := Some ((empty_update (uw_current w) ch)\<lparr>up_status := UFailed, up_checked_at := Some checked_at,
                       up_error := Some (take 500 message)\<rparr>)\<rparr>))
           in case answer of
                Inl message \<Rightarrow> failed message
              | Inr (JArr releases) \<Rightarrow>
                  (case candidates (uw_current w) ch releases of
                     Inl x \<Rightarrow> failed (say x)
                   | Inr rs \<Rightarrow> audit_update actor ''updates.check'' None now
                       (w1\<lparr>uw_stored := Some (found_update (uw_current w) ch checked_at rs)\<rparr>))
              | Inr _ \<Rightarrow> failed (say (Thrown ''invalid answer''))))"

text \<open>The periodic check of the panel, every six hours.\<close>

definition check_interval :: time where
  "check_interval = 6 * 60 * 60 * 1000"

definition refresh_update :: "string \<Rightarrow> time \<Rightarrow> update_world \<Rightarrow> update_world" where
  "refresh_update actor now w =
     (let s = shown_update w
      in if uw_preparing w \<noteq> NotPreparing \<or> up_status s = UPreparing \<or> up_ready s then w
         else (case up_checked_at s of
                 Some t \<Rightarrow> if now - t < check_interval then w else begin_check actor now w
               | None \<Rightarrow> begin_check actor now w))"

section \<open>Preparing\<close>

text \<open>
  \<open>fetchAsset\<close>: the chunks of the answer are written one by one, as long as they fit; \<open>None\<close> is an
  answer without a body, an error status or a broken connection.
\<close>

fun read_chunks :: "int \<Rightarrow> string list \<Rightarrow> string \<Rightarrow> string result" where
  "read_chunks most [] got = Ok got"
| "read_chunks most (c # cs) got =
     (if int (length (got @ c)) > most then Err (Thrown ''too large'') else read_chunks most cs (got @ c))"

definition fetch_asset :: "release_asset \<Rightarrow> int \<Rightarrow> string list option \<Rightarrow> string result" where
  "fetch_asset a limit answer =
     (if ra_size a < 1 \<or> ra_size a > limit then Err (Thrown ''size'')
      else (case answer of
              None \<Rightarrow> Err (Thrown ''download'')
            | Some chunks \<Rightarrow>
                bind_result (read_chunks (min limit (ra_size a)) chunks []) (\<lambda>got.
                  if int (length got) \<noteq> ra_size a then Err (Thrown ''size'') else Ok got)))"

type_synonym files = "string \<Rightarrow> string option"
type_synonym verifier = "string \<Rightarrow> string \<Rightarrow> bool"

text \<open>The archive and the signature of a release are there, whole, and verified.\<close>

definition cached :: "verifier \<Rightarrow> release \<Rightarrow> files \<Rightarrow> bool" where
  "cached verify r fs \<longleftrightarrow>
     (case (fs (ra_name (re_archive r)), fs (ra_name (re_signature r))) of
        (Some a, Some s) \<Rightarrow> int (length a) = ra_size (re_archive r) \<and> int (length s) = ra_size (re_signature r) \<and> verify a s
      | _ \<Rightarrow> False)"

text \<open>What is renamed into place: the signature first, then the archive.\<close>

definition put_files :: "nat \<Rightarrow> release \<Rightarrow> string \<times> string \<Rightarrow> files \<Rightarrow> files" where
  "put_files n r got fs =
     (let fs1 = (if 1 \<le> n then fs(ra_name (re_signature r) \<mapsto> snd got) else fs)
      in if 2 \<le> n then fs1(ra_name (re_archive r) \<mapsto> fst got) else fs1)"

definition fetch_release ::
  "verifier \<Rightarrow> release \<Rightarrow> string list option \<times> string list option \<Rightarrow> (string \<times> string) result" where
  "fetch_release verify r answers =
     bind_result (fetch_asset (re_archive r) archive_limit (fst answers)) (\<lambda>a.
     bind_result (fetch_asset (re_signature r) signature_limit (snd answers)) (\<lambda>s.
     if verify a s then Ok (a, s) else Err (Thrown ''signature'')))"

text \<open>The files after a preparation that renamed \<open>n\<close> of its two files, and whether it succeeded.\<close>

definition install_files ::
  "verifier \<Rightarrow> release \<Rightarrow> nat \<Rightarrow> string list option \<times> string list option \<Rightarrow> files \<Rightarrow> unit result \<times> files" where
  "install_files verify r n answers fs =
     (if cached verify r fs then (Ok (), fs)
      else (case fetch_release verify r answers of
              Inl x \<Rightarrow> (Err x, fs)
            | Inr got \<Rightarrow> (Ok (), put_files n r got fs)))"

text \<open>\<open>prepare\<close>: nothing while a preparation is under way; it waits for a check that is under way.\<close>

definition begin_prepare :: "string \<Rightarrow> update_world \<Rightarrow> update_world" where
  "begin_prepare actor w = (if uw_preparing w \<noteq> NotPreparing then w else w\<lparr>uw_preparing := Waiting False actor\<rparr>)"

text \<open>The release that would be prepared.\<close>

definition ready_release :: "update_world \<Rightarrow> release result" where
  "ready_release w =
     (case up_release (stored w) of
        None \<Rightarrow> Err (ServiceError 409)
      | Some r \<Rightarrow>
          if \<not> up_available (stored w) then Err (ServiceError 409)
          else bind_result (compare_versions (re_version r) (uw_current w)) (\<lambda>i.
            if i \<le> 0 then Err (ServiceError 409) else validate_stored_release r))"

text \<open>
  The preparation goes on once no check is under way: what is stored may be of another version or
  channel, then it checks first.
\<close>

definition begin_download :: "time \<Rightarrow> update_world \<Rightarrow> update_world" where
  "begin_download now w =
     (case uw_preparing w of
        Waiting checked actor \<Rightarrow>
          if uw_checking w \<noteq> None then w
          else if \<not> checked \<and> (outdated w \<or> up_release (stored w) = None)
          then (begin_check actor now w)\<lparr>uw_preparing := Waiting True actor\<rparr>
          else (case ready_release w of
                  Inl _ \<Rightarrow> w\<lparr>uw_preparing := NotPreparing\<rparr>
                | Inr r \<Rightarrow> w\<lparr>uw_preparing := Downloading actor (stored w) r,
                     uw_stored := Some ((stored w)\<lparr>up_status := UPreparing, up_ready := False, up_error := None\<rparr>)\<rparr>)
      | _ \<Rightarrow> w)"

definition end_download ::
  "verifier \<Rightarrow> (failure \<Rightarrow> string) \<Rightarrow> string list option \<times> string list option \<Rightarrow> time \<Rightarrow> update_world \<Rightarrow> update_world" where
  "end_download verify say answers now w =
     (case uw_preparing w of
        Downloading actor s r \<Rightarrow>
          (case install_files verify r 2 answers (uw_files w) of
             (outcome, fs) \<Rightarrow>
               (let w1 = w\<lparr>uw_preparing := NotPreparing, uw_files := fs\<rparr>
                in case outcome of
                     Inr _ \<Rightarrow> audit_update actor ''updates.prepare'' (Some (re_version r)) now
                       (w1\<lparr>uw_stored := Some (s\<lparr>up_status := UReady, up_ready := True, up_error := None\<rparr>)\<rparr>)
                   | Inl x \<Rightarrow> audit_update actor ''updates.prepare_failed'' (Some (re_version r)) now
                       (w1\<lparr>uw_stored := Some (s\<lparr>up_status := UFailed, up_ready := False, up_error := Some (take 500 (say x))\<rparr>)\<rparr>)))
      | _ \<Rightarrow> w)"

text \<open>
  The process dies, maybe while it prepares and after \<open>n\<close> renames, and starts again, maybe as
  another version.
\<close>

definition restart_update ::
  "verifier \<Rightarrow> string \<Rightarrow> nat \<Rightarrow> string list option \<times> string list option \<Rightarrow> update_world \<Rightarrow> update_world" where
  "restart_update verify v n answers w =
     initialize_channel (w\<lparr>uw_current := v, uw_checking := None, uw_preparing := NotPreparing,
       uw_files := (case uw_preparing w of
           Downloading _ _ r \<Rightarrow> snd (install_files verify r n answers (uw_files w)) | _ \<Rightarrow> uw_files w)\<rparr>)"

end
