(* ===== verification/Update_Safety.thy ===== *)
theory Update_Safety
  imports Updates Services
begin

text \<open>
  An update that the panel shows as ready is whole and verified, under any interleaving of checks,
  preparations, changes of the channel and deaths of the process.
\<close>

section \<open>Runs\<close>

datatype update_call =
    BeginCheck string
  | EndCheck "string + json"
  | Refresh string
  | ResetUpdate
  | SetChannel channel
  | BeginPrepare string
  | BeginDownload
  | EndDownload "string list option \<times> string list option"
  | Restart string nat "string list option \<times> string list option"

definition update_step :: "verifier \<Rightarrow> (failure \<Rightarrow> string) \<Rightarrow> time \<Rightarrow> update_call \<Rightarrow> update_world \<Rightarrow> update_world" where
  "update_step verify say now call w =
     (case call of
        BeginCheck actor \<Rightarrow> begin_check actor now w
      | EndCheck answer \<Rightarrow> end_check answer say now w
      | Refresh actor \<Rightarrow> refresh_update actor now w
      | ResetUpdate \<Rightarrow> reset_update w
      | SetChannel ch \<Rightarrow> set_channel ch w
      | BeginPrepare actor \<Rightarrow> begin_prepare actor w
      | BeginDownload \<Rightarrow> begin_download now w
      | EndDownload answers \<Rightarrow> end_download verify say answers now w
      | Restart v n answers \<Rightarrow> restart_update verify v n answers w)"

definition run_updates :: "verifier \<Rightarrow> (failure \<Rightarrow> string) \<Rightarrow> (time \<times> update_call) list \<Rightarrow> update_world \<Rightarrow> update_world" where
  "run_updates verify say calls w = foldl (\<lambda>w (now, c). update_step verify say now c w) w calls"

definition installed_panel :: "string \<Rightarrow> string option \<Rightarrow> files \<Rightarrow> update_world" where
  "installed_panel v ch fs = initialize_channel \<lparr>uw_current = v, uw_checking = None, uw_preparing = NotPreparing, uw_stored = None,
     uw_channel = ch, uw_channel_v2 = False, uw_files = fs, uw_db = empty_db\<rparr>"

section \<open>Releases\<close>

text \<open>A release names its own archive and signature, at their official addresses, of bounded sizes.\<close>

definition release_ok :: "release \<Rightarrow> bool" where
  "release_ok r \<longleftrightarrow>
     re_tag r = CHR ''v'' # re_version r \<and> parse_version (re_version r) \<noteq> None \<and>
     ra_name (re_archive r) = archive_name (re_version r) \<and> ra_name (re_signature r) = signature_name (re_version r) \<and>
     ra_url (re_archive r) = download_root @ ''/'' @ re_tag r @ ''/'' @ archive_name (re_version r) \<and>
     ra_url (re_signature r) = ra_url (re_archive r) @ ''.minisig'' \<and>
     1 \<le> ra_size (re_archive r) \<and> ra_size (re_archive r) \<le> archive_limit \<and>
     1 \<le> ra_size (re_signature r) \<and> ra_size (re_signature r) \<le> signature_limit"

lemma parse_asset_Some:
  assumes "parse_asset n url limit assets = Some a"
  shows "ra_name a = n" "ra_url a = url" "1 \<le> ra_size a" "ra_size a \<le> limit"
  using assms by (auto simp: parse_asset_def safe_size_def split: Option.bind_splits if_splits option.splits json.splits)

lemma starts_with_v: "starts_with s ''v'' \<Longrightarrow> s = CHR ''v'' # tl s"
  by (cases s) auto

lemma parse_version_Nil [simp]: "parse_version [] = None"
  by code_simp

lemma parse_release_ok:
  assumes "parse_release ch j = Some r"
  shows "release_ok r" and "ch = Stable \<Longrightarrow> \<not> is_prerelease (re_version r)"
proof -
  from assms obtain kvs where j: "j = JObj kvs" by (auto simp: parse_release_def split: json.splits)
  from assms j obtain s assets where tag: "json_get ''tag_name'' kvs = Some (JStr s)" "json_get ''assets'' kvs = Some (JArr assets)"
    by (auto simp: parse_release_def split: if_splits option.splits json.splits)
  let ?v = "if starts_with s ''v'' then tl s else []" and ?root = "download_root @ ''/'' @ s @ ''/''"
  have v: "parse_version ?v \<noteq> None" "\<not> (ch = Stable \<and> is_prerelease ?v)"
    using assms by (auto simp: parse_release_def j tag Let_def split: if_splits)
  then have sv: "starts_with s ''v''" by (auto split: if_splits)
  from assms v obtain a g where a: "parse_asset (archive_name ?v) (?root @ archive_name ?v) archive_limit assets = Some a"
    and g: "parse_asset (signature_name ?v) (?root @ archive_name ?v @ ''.minisig'') signature_limit assets = Some g"
    and r: "re_version r = ?v" "re_tag r = s" "re_archive r = a" "re_signature r = g"
    by (auto simp: parse_release_def j tag Let_def split: if_splits Option.bind_splits)
  show "release_ok r"
    using parse_asset_Some [OF a] parse_asset_Some [OF g] v(1) starts_with_v [OF sv] sv by (simp add: release_ok_def r)
  show "ch = Stable \<Longrightarrow> \<not> is_prerelease (re_version r)" using v(2) r by simp
qed

lemma asset_json_named [simp]: "asset_named n (asset_json a # rest) =
    (if ra_name a = n then Some [(''name'', JStr (ra_name a)), (''size'', JNum (ra_size a)), (''browser_download_url'', JStr (ra_url a))]
     else asset_named n rest)"
  unfolding asset_named_def asset_json_def json_get_def by simp

lemma signature_name_other: "signature_name v \<noteq> archive_name v"
  by (simp add: signature_name_def)

lemma parse_stored_asset:
  assumes "ra_name a = n" "ra_url a = url" "1 \<le> ra_size a" "ra_size a \<le> limit"
    and "as = a # rest \<or> (\<exists>b. as = b # a # rest \<and> ra_name b \<noteq> n)"
  shows "parse_asset n url limit (map asset_json as) = Some a"
  using assms by (auto simp: parse_asset_def safe_size_def json_get_def)

text \<open>A release that a check found is accepted again when it is prepared.\<close>

lemma stored_release_valid:
  assumes "release_ok r"
  shows "\<exists>p. validate_stored_release r = Ok p \<and> re_version p = re_version r \<and> re_archive p = re_archive r \<and> re_signature p = re_signature r"
proof -
  let ?v = "re_version r"
  let ?assets = "[asset_json (re_archive r), asset_json (re_signature r)]"
  have tag: "starts_with (re_tag r) ''v''" "tl (re_tag r) = ?v" using assms by (simp_all add: release_ok_def)
  have a: "parse_asset (archive_name ?v) (download_root @ ''/'' @ re_tag r @ ''/'' @ archive_name ?v) archive_limit ?assets = Some (re_archive r)"
    using parse_stored_asset [of "re_archive r" _ _ _ "[re_archive r, re_signature r]" "[re_signature r]"] assms by (simp add: release_ok_def)
  have s: "parse_asset (signature_name ?v) (download_root @ ''/'' @ re_tag r @ ''/'' @ archive_name ?v @ ''.minisig'') signature_limit ?assets
      = Some (re_signature r)"
    using parse_stored_asset [of "re_signature r" _ _ _ "[re_archive r, re_signature r]" "[]"] assms signature_name_other [of ?v]
    by (simp add: release_ok_def)
  have "parse_version ?v \<noteq> None" using assms by (simp add: release_ok_def)
  then show ?thesis by (auto simp: validate_stored_release_def parse_release_def json_get_def tag Let_def a [simplified] s [simplified])
qed

section \<open>The invariant\<close>

definition newer :: "release \<Rightarrow> string \<Rightarrow> bool" where
  "newer r v \<longleftrightarrow> (\<exists>i. compare_versions (re_version r) v = Ok i \<and> 0 < i)"

definition state_ok :: "verifier \<Rightarrow> files \<Rightarrow> bool \<Rightarrow> update_state \<Rightarrow> bool" where
  "state_ok verify fs downloading s \<longleftrightarrow>
     (case up_release s of None \<Rightarrow> \<not> up_ready s | Some r \<Rightarrow> release_ok r \<and> up_latest s = re_version r) \<and>
     (up_ready s \<longrightarrow> \<not> downloading \<and> (\<exists>r. up_release s = Some r \<and> cached verify r fs \<and> newer r (up_current s)))"

fun is_downloading :: "preparing \<Rightarrow> bool" where
  "is_downloading (Downloading _ _ _) = True"
| "is_downloading _ = False"

definition download_ok :: "update_state \<Rightarrow> release \<Rightarrow> bool" where
  "download_ok s p \<longleftrightarrow>
     (\<exists>r. up_release s = Some r \<and> release_ok r \<and> up_latest s = re_version r \<and> newer r (up_current s) \<and>
        re_archive p = re_archive r \<and> re_signature p = re_signature r)"

definition pending_ok :: "update_world \<Rightarrow> bool" where
  "pending_ok w \<longleftrightarrow>
     (case uw_preparing w of
        NotPreparing \<Rightarrow> True
      | Waiting checked _ \<Rightarrow> checked \<longrightarrow> up_current (stored w) = uw_current w
      | Downloading _ s p \<Rightarrow> download_ok s p)"

definition update_inv :: "verifier \<Rightarrow> update_world \<Rightarrow> bool" where
  "update_inv verify w \<longleftrightarrow>
     uw_channel_v2 w \<and> state_ok verify (uw_files w) (is_downloading (uw_preparing w)) (stored w) \<and> pending_ok w"

lemma stored_simps [simp]:
  "stored (w\<lparr>uw_stored := Some s\<rparr>) = s"
  "stored (w\<lparr>uw_checking := c\<rparr>) = stored w" "stored (w\<lparr>uw_preparing := p\<rparr>) = stored w" "stored (w\<lparr>uw_files := fs\<rparr>) = stored w"
  "stored (audit_update actor action i now w) = stored w"
  by (simp_all add: stored_def audit_update_def the_channel_def)

lemma audit_update_fields [simp]:
  "uw_current (audit_update a b i now w) = uw_current w" "uw_preparing (audit_update a b i now w) = uw_preparing w"
  "uw_files (audit_update a b i now w) = uw_files w" "uw_channel_v2 (audit_update a b i now w) = uw_channel_v2 w"
  by (simp_all add: audit_update_def)

text \<open>A state with nothing found is always right.\<close>

lemma state_ok_empty [simp]:
  "up_release s = None \<Longrightarrow> \<not> up_ready s \<Longrightarrow> state_ok verify fs b s"
  by (simp add: state_ok_def)

lemma empty_update_fields [simp]:
  "up_release (empty_update v ch) = None" "\<not> up_ready (empty_update v ch)" "up_current (empty_update v ch) = v"
  by (simp_all add: empty_update_def)

text \<open>Storing a state of this process.\<close>

lemma stored_inv:
  assumes "update_inv verify w" and "uw_preparing w' = uw_preparing w" "uw_files w' = uw_files w"
    "uw_channel_v2 w'" "uw_current w' = uw_current w" "up_current (stored w') = uw_current w" "state_ok verify (uw_files w) True (stored w')"
  shows "update_inv verify w'"
proof -
  have "state_ok verify (uw_files w) b (stored w')" for b using assms(7) by (auto simp: state_ok_def)
  then show ?thesis using assms by (auto simp: update_inv_def pending_ok_def split: preparing.splits)
qed

lemma inv_channel: "update_inv verify w \<Longrightarrow> uw_channel_v2 w"
  by (simp add: update_inv_def)

lemma begin_check_inv: "update_inv verify w \<Longrightarrow> update_inv verify (begin_check actor now w)"
  by (cases "uw_checking w") (auto simp: begin_check_def inv_channel intro!: stored_inv [of verify w])

lemma reset_inv: "update_inv verify w \<Longrightarrow> update_inv verify (reset_update w)"
  by (rule stored_inv [of verify w]) (auto simp: reset_update_def update_inv_def)

lemma candidates_ok:
  assumes "candidates v ch releases = Ok rs" and "r \<in> set rs"
  shows "release_ok r"
proof -
  from assms obtain ps i where ps: "map_result (\<lambda>r. bind_result (compare_versions (re_version r) v) (\<lambda>i. Ok (r, i)))
      (List.map_filter (parse_release ch) releases) = Ok ps" "(r, i) \<in> set ps"
    by (auto simp: candidates_def)
  from map_result_Ok_set [OF this] obtain j where "parse_release ch j = Some r"
    by (auto simp: List.map_filter_def)
  then show ?thesis by (rule parse_release_ok)
qed

lemma found_ok:
  assumes "candidates v ch releases = Ok rs"
  shows "state_ok verify fs b (found_update v ch t rs)" "up_current (found_update v ch t rs) = v"
  using candidates_ok [OF assms] by (auto simp: found_update_def state_ok_def empty_update_def split: list.splits)

lemma end_check_inv:
  assumes inv: "update_inv verify w"
  shows "update_inv verify (end_check answer say now w)"
proof (cases "uw_checking w")
  case (Some c)
  obtain actor ch t where c: "c = (actor, ch, t)" by (cases c)
  have failed: "update_inv verify (audit_update actor ''updates.check_failed'' None now
      (w\<lparr>uw_checking := None, uw_stored := Some ((empty_update (uw_current w) ch)\<lparr>up_status := UFailed, up_checked_at := Some t,
         up_error := Some (take 500 m)\<rparr>)\<rparr>))" for m
    by (rule stored_inv [OF inv]) (simp_all add: inv_channel [OF inv])
  have found: "update_inv verify (audit_update actor ''updates.check'' None now
      (w\<lparr>uw_checking := None, uw_stored := Some (found_update (uw_current w) ch t rs)\<rparr>))"
    if "candidates (uw_current w) ch releases = Ok rs" for releases rs
    by (rule stored_inv [OF inv]) (simp_all add: inv_channel [OF inv] found_ok [OF that])
  show ?thesis
    by (auto simp: end_check_def Some c Let_def failed found split: sum.splits json.splits)
qed (simp add: end_check_def inv)

lemma refresh_inv: "update_inv verify w \<Longrightarrow> update_inv verify (refresh_update actor now w)"
  by (auto simp: refresh_update_def Let_def begin_check_inv split: option.splits)

lemma set_channel_inv:
  assumes inv: "update_inv verify w"
  shows "update_inv verify (set_channel ch w)"
proof (cases "ch = the_channel w")
  case True
  then have "stored (w\<lparr>uw_channel := Some (if ch = Candidate then ''candidate'' else ''stable'')\<rparr>) = stored w"
    by (auto simp: stored_def the_channel_def)
  then show ?thesis using inv True by (auto simp: set_channel_def Let_def update_inv_def pending_ok_def split: preparing.splits)
next
  case False
  then show ?thesis
    by (intro stored_inv [OF inv]) (simp_all add: set_channel_def Let_def reset_update_def inv_channel [OF inv])
qed

lemma begin_prepare_inv: "update_inv verify w \<Longrightarrow> update_inv verify (begin_prepare actor w)"
  by (auto simp: begin_prepare_def update_inv_def pending_ok_def)

lemma ready_release_Ok:
  assumes "ready_release w = Ok p"
  obtains r where "up_release (stored w) = Some r" "newer r (uw_current w)" "validate_stored_release r = Ok p"
  using assms by (auto simp: ready_release_def newer_def split: option.splits if_splits)

lemma begin_download_inv:
  assumes inv: "update_inv verify w"
  shows "update_inv verify (begin_download now w)"
proof (cases "uw_preparing w")
  case (Waiting checked actor)
  have ok: "state_ok verify (uw_files w) False (stored w)" and ch: "uw_channel_v2 w"
    and pending: "checked \<longrightarrow> up_current (stored w) = uw_current w"
    using inv Waiting by (simp_all add: update_inv_def pending_ok_def)
  show ?thesis
  proof (cases "uw_checking w = None")
    case idle: True
    show ?thesis
    proof (cases "\<not> checked \<and> (outdated w \<or> up_release (stored w) = None)")
      case True
      then show ?thesis using idle ch
        by (simp add: begin_download_def Waiting begin_check_def update_inv_def pending_ok_def stored_def)
    next
      case False
      then have current: "up_current (stored w) = uw_current w" if "up_release (stored w) \<noteq> None"
        using pending that by (auto simp: outdated_def)
      show ?thesis
      proof (cases "ready_release w")
        case (Inl x)
        then show ?thesis using idle False ok ch by (auto simp: begin_download_def Waiting update_inv_def pending_ok_def)
      next
        case (Inr p)
        then obtain r where r: "up_release (stored w) = Some r" "newer r (uw_current w)" "validate_stored_release r = Ok p"
          by (rule ready_release_Ok)
        then have ok_r: "release_ok r" "up_latest (stored w) = re_version r" using ok by (simp_all add: state_ok_def)
        have "download_ok (stored w) p" using stored_release_valid [OF ok_r(1)] r current ok_r by (auto simp: download_ok_def)
        moreover have "state_ok verify (uw_files w) True ((stored w)\<lparr>up_status := UPreparing, up_ready := False, up_error := None\<rparr>)"
          using r ok_r by (simp add: state_ok_def)
        ultimately show ?thesis using idle False Inr ch
          by (auto simp: begin_download_def Waiting update_inv_def pending_ok_def)
      qed
    qed
  qed (simp add: begin_download_def Waiting inv)
qed (simp_all add: begin_download_def inv)

text \<open>What a preparation leaves in the incoming directory.\<close>

lemma fetch_asset_size: "fetch_asset a limit answer = Ok got \<Longrightarrow> int (length got) = ra_size a"
  by (auto simp: fetch_asset_def split: if_splits option.splits)

lemma fetched_cached:
  assumes "fetch_release verify r answers = Ok got" and "ra_name (re_signature r) \<noteq> ra_name (re_archive r)"
  shows "cached verify r (put_files 2 r got fs)"
proof -
  obtain a s where got: "got = (a, s)" by (cases got)
  with assms(1) have "int (length a) = ra_size (re_archive r)" "int (length s) = ra_size (re_signature r)" "verify a s"
    by (auto simp: fetch_release_def fetch_asset_size split: if_splits)
  with assms(2) show ?thesis by (simp add: cached_def put_files_def got)
qed

lemma installed_cached:
  assumes "install_files verify r 2 answers fs = (Ok (), fs')" and "ra_name (re_signature r) \<noteq> ra_name (re_archive r)"
  shows "cached verify r fs'"
  using assms(1) by (auto simp: install_files_def split: if_splits sum.splits intro: fetched_cached [OF _ assms(2)])

lemma cached_same: "re_archive p = re_archive r \<Longrightarrow> re_signature p = re_signature r \<Longrightarrow> cached verify p fs = cached verify r fs"
  by (simp add: cached_def split: option.splits)

lemma end_download_inv:
  assumes inv: "update_inv verify w"
  shows "update_inv verify (end_download verify say answers now w)"
proof (cases "uw_preparing w")
  case (Downloading actor s p)
  obtain r where r: "up_release s = Some r" "release_ok r" "up_latest s = re_version r" "newer r (up_current s)"
    and same: "re_archive p = re_archive r" "re_signature p = re_signature r"
    using inv Downloading by (auto simp: update_inv_def pending_ok_def download_ok_def)
  obtain outcome fs where fs: "install_files verify p 2 answers (uw_files w) = (outcome, fs)" by fastforce
  have names: "ra_name (re_signature p) \<noteq> ra_name (re_archive p)"
    using r(2) same by (simp add: release_ok_def signature_name_other)
  have "state_ok verify fs False (s\<lparr>up_status := UReady, up_ready := True, up_error := None\<rparr>)" if "outcome = Ok ()"
    using installed_cached [OF fs [unfolded that] names] cached_same [OF same] r by (simp add: state_ok_def)
  moreover have "state_ok verify fs False (s\<lparr>up_status := UFailed, up_ready := False, up_error := e\<rparr>)" for e
    using r by (simp add: state_ok_def)
  ultimately show ?thesis using inv
    by (cases outcome) (auto simp: end_download_def Downloading fs update_inv_def pending_ok_def Let_def)
qed (simp_all add: end_download_def inv)

lemma initialize_simps [simp]:
  "uw_channel_v2 (initialize_channel w)" "uw_files (initialize_channel w) = uw_files w"
  "uw_preparing (initialize_channel w) = uw_preparing w" "uw_stored (initialize_channel w) = uw_stored w"
  "uw_current (initialize_channel w) = uw_current w"
  by (simp_all add: initialize_channel_def)

lemma state_ok_stored:
  assumes "case uw_stored w of None \<Rightarrow> True | Some s \<Rightarrow> state_ok verify fs b s"
  shows "state_ok verify fs b (stored w)"
  using assms by (cases "uw_stored w") (simp_all add: stored_def)

lemma restart_inv:
  assumes inv: "update_inv verify w"
  shows "update_inv verify (restart_update verify v n answers w)"
proof -
  have "state_ok verify (uw_files (restart_update verify v n answers w)) False s" if "uw_stored w = Some s" for s
  proof (cases "is_downloading (uw_preparing w)")
    case True
    then have "\<not> up_ready s" using inv that by (simp add: update_inv_def state_ok_def stored_def)
    then show ?thesis using inv that by (simp add: update_inv_def state_ok_def stored_def)
  next
    case False
    then have "uw_files (restart_update verify v n answers w) = uw_files w"
      by (auto simp: restart_update_def split: preparing.splits)
    then show ?thesis using inv that False by (simp add: update_inv_def stored_def)
  qed
  moreover have "uw_stored (restart_update verify v n answers w) = uw_stored w" by (simp add: restart_update_def)
  ultimately have "state_ok verify (uw_files (restart_update verify v n answers w)) False (stored (restart_update verify v n answers w))"
    by (intro state_ok_stored) (auto split: option.splits)
  then show ?thesis by (simp add: update_inv_def pending_ok_def restart_update_def)
qed

lemma update_step_inv: "update_inv verify w \<Longrightarrow> update_inv verify (update_step verify say now c w)"
  by (cases c) (simp_all add: update_step_def begin_check_inv end_check_inv refresh_inv reset_inv set_channel_inv begin_prepare_inv
      begin_download_inv end_download_inv restart_inv)

interpretation updates: invariant_service "\<lambda>w (now, c). update_step verify say now c w" "update_inv verify" for verify say
  by unfold_locales (auto simp: update_step_inv)

lemma run_updates_inv: "update_inv verify w \<Longrightarrow> update_inv verify (run_updates verify say calls w)"
  unfolding run_updates_def by (rule updates.run_inv)

lemma installed_inv: "update_inv verify (installed_panel v ch fs)"
proof -
  have "stored (installed_panel v ch fs) = empty_update (uw_current (installed_panel v ch fs)) (the_channel (installed_panel v ch fs))"
    by (simp add: stored_def installed_panel_def)
  then show ?thesis by (simp add: update_inv_def pending_ok_def) (simp add: installed_panel_def)
qed

section \<open>What is ready\<close>

text \<open>
  C20.  In every reachable state an update that is shown as ready is newer than the panel, and its
  archive and signature lie in the incoming directory under the names of its version, have the
  sizes the official release announced (within the limits), and the signature
  verifies: no interleaving of checks, changes of the channel, failed or repeated downloads
  and deaths of the process shows anything else as ready.
\<close>

theorem ready_update_verified:
  assumes "w = run_updates verify say calls (installed_panel v ch fs)" and "up_ready (shown_update w)"
  shows "\<exists>r a s. up_release (stored w) = Some r \<and> up_latest (shown_update w) = re_version r \<and>
     (\<exists>i. compare_versions (re_version r) (uw_current w) = Ok i \<and> 0 < i) \<and>
     uw_files w (archive_name (re_version r)) = Some a \<and> uw_files w (signature_name (re_version r)) = Some s \<and>
     int (length a) = ra_size (re_archive r) \<and> int (length s) = ra_size (re_signature r) \<and>
     ra_size (re_archive r) \<le> archive_limit \<and> ra_size (re_signature r) \<le> signature_limit \<and> verify a s"
proof -
  have inv: "update_inv verify w" unfolding assms(1) by (rule run_updates_inv [OF installed_inv])
  have shown: "\<not> outdated w" "up_ready (stored w)" "up_latest (shown_update w) = up_latest (stored w)"
    using assms(2) by (auto simp: shown_update_def public_state_def split: if_splits)
  then obtain r where r: "up_release (stored w) = Some r" "cached verify r (uw_files w)" "newer r (uw_current w)"
      "release_ok r" "up_latest (stored w) = re_version r"
    using inv by (auto simp: update_inv_def state_ok_def outdated_def)
  then show ?thesis using shown by (auto simp: cached_def release_ok_def newer_def split: option.splits)
qed

definition sample_release :: json where
  "sample_release = JObj [(''tag_name'', JStr ''v1.1.0''), (''draft'', JBool False), (''prerelease'', JBool False),
     (''body'', JStr ''- [Faster](https://x.y) *start* by @dev in https://x.y/1''),
     (''assets'', JArr [
        JObj [(''name'', JStr ''outpost-1.1.0-linux-amd64.tar.gz''), (''size'', JNum 3),
          (''browser_download_url'', JStr (download_root @ ''/v1.1.0/outpost-1.1.0-linux-amd64.tar.gz''))],
        JObj [(''name'', JStr ''outpost-1.1.0-linux-amd64.tar.gz.minisig''), (''size'', JNum 2),
          (''browser_download_url'', JStr (download_root @ ''/v1.1.0/outpost-1.1.0-linux-amd64.tar.gz.minisig''))]])]"

definition sample_verify :: verifier where
  "sample_verify a s \<longleftrightarrow> s = ''ok''"

definition checked_calls :: "(time \<times> update_call) list" where
  "checked_calls = [(1000, Refresh ''update-checker''), (2000, EndCheck (Inr (JArr [JNull, sample_release]))),
     (3000, BeginPrepare ''owner''), (4000, BeginDownload)]"

definition prepared_calls :: "(time \<times> update_call) list" where
  "prepared_calls = checked_calls @ [(5000, EndDownload (Some [''ab'', ''c''], Some [''ok'']))]"

lemma ready_update_verified_witness:
  "let w = run_updates sample_verify (\<lambda>_. ''error'') prepared_calls (installed_panel ''1.0.0'' None (\<lambda>_. None)) in
   up_ready (shown_update w) \<and> up_notes (shown_update w) = [''Faster start''] \<and>
   (\<exists>r. up_release (stored w) = Some r \<and> re_version r = ''1.1.0'' \<and> uw_files w (archive_name (re_version r)) \<noteq> None)"
proof -
  obtain w where w: "w = run_updates sample_verify (\<lambda>_. ''error'') prepared_calls (installed_panel ''1.0.0'' None (\<lambda>_. None))" by blast
  have shown: "up_ready (shown_update w)" "up_notes (shown_update w) = [''Faster start'']" "up_latest (shown_update w) = ''1.1.0''"
    unfolding w by code_simp+
  from ready_update_verified [OF w shown(1)] shown show ?thesis unfolding Let_def w [symmetric] by force
qed

text \<open>
  A preparation that the death of the process cuts off stops the periodic checks: the stored
  state stays "preparing", and as long as the version and the channel stay the same no
  refresh ever starts a check again; only a request of the owner does.
\<close>

theorem interrupted_preparation_blocks_refresh:
  assumes "w = run_updates verify say calls (installed_panel v ch fs)" and "up_status (shown_update w) = UPreparing"
  shows "let w' = restart_update verify (uw_current w) n answers w in
    run_updates verify say (map (\<lambda>(now, actor). (now, Refresh actor)) refreshes) w' = w' \<and>
    up_status (shown_update w') = UPreparing \<and> uw_checking w' = None \<and> uw_preparing w' = NotPreparing"
proof -
  let ?w = "restart_update verify (uw_current w) n answers w"
  have "uw_channel_v2 w" unfolding assms(1) by (rule inv_channel [OF run_updates_inv [OF installed_inv]])
  then have fields: "uw_stored ?w = uw_stored w" "uw_current ?w = uw_current w" "uw_channel ?w = uw_channel w"
    "uw_checking ?w = None" "uw_preparing ?w = NotPreparing"
    by (simp_all add: restart_update_def initialize_channel_def)
  then have shown: "shown_update ?w = shown_update w"
    by (simp add: shown_update_def outdated_def stored_def the_channel_def)
  then have refresh: "refresh_update actor now ?w = ?w" for actor now
    using assms(2) by (simp add: refresh_update_def Let_def)
  have "run_updates verify say (map (\<lambda>(now, actor). (now, Refresh actor)) refreshes) ?w = ?w"
    unfolding run_updates_def by (induction refreshes) (auto simp: update_step_def refresh)
  then show ?thesis using shown assms(2) fields by (simp add: Let_def)
qed

lemma interrupted_preparation_blocks_refresh_witness:
  "let w = run_updates sample_verify (\<lambda>_. ''error'') checked_calls (installed_panel ''1.0.0'' None (\<lambda>_. None));
       w' = restart_update sample_verify (uw_current w) 0 (None, None) w
   in run_updates sample_verify (\<lambda>_. ''error'') [(100000000, Refresh ''update-checker'')] w' = w'"
proof -
  obtain w where w: "w = run_updates sample_verify (\<lambda>_. ''error'') checked_calls (installed_panel ''1.0.0'' None (\<lambda>_. None))" by blast
  have "up_status (shown_update w) = UPreparing" unfolding w by code_simp
  from interrupted_preparation_blocks_refresh [OF w this, of 0 "(None, None)" "[(100000000, ''update-checker'')]"]
  show ?thesis unfolding Let_def w [symmetric] by simp
qed

end
