(* ===== verification/Subscriptions.thy ===== *)
theory Subscriptions
  imports Methods Connections Ruleset_Safety
begin

text \<open>
  The profiles the clients download (src/src/server/adapters/subscriptions.ts,
  method-outbounds.ts, protocol-credentials.ts, amneziawg.ts): the connection methods a client
  can use become its outbounds, and the routes become the rules of its format.

  A profile is a JSON value: how YAML and JSON are written out is left to their libraries.
  HMAC-SHA-256 and X25519 are parameters.  Only base64 and the percent encoding of texts, which
  the code uses in links and keys, are spelled out.
\<close>

section \<open>Text\<close>

text \<open>The bytes of a text in UTF-8.\<close>

definition utf8_bytes :: "string \<Rightarrow> string" where
  "utf8_bytes s = concat (map (\<lambda>c. if code c < 128 then [c] else [char_of (192 + code c div 64), char_of (128 + code c mod 64)]) s)"

definition upper_hex :: "nat \<Rightarrow> char" where
  "upper_hex n = (if n < 10 then char_of (48 + n) else char_of (55 + n))"

definition encode_uri :: "string \<Rightarrow> string" where
  "encode_uri s =
     concat (map (\<lambda>c. if is_alnum c \<or> c \<in> set ''-_.!~*()'' \<or> code c = 39 then [c]
       else [CHR 0x25, upper_hex (code c div 16), upper_hex (code c mod 16)]) (utf8_bytes s))"

definition base64_char :: "nat \<Rightarrow> char" where
  "base64_char n =
     (if n < 26 then char_of (65 + n) else if n < 52 then char_of (71 + n) else if n < 62 then char_of (n - 4)
      else if n = 62 then CHR ''+'' else CHR 0x2F)"

fun base64 :: "string \<Rightarrow> string" where
  "base64 (a # b # c # rest) =
     (let n = code a * 65536 + code b * 256 + code c
      in map base64_char [n div 262144, n div 4096 mod 64, n div 64 mod 64, n mod 64]) @ base64 rest"
| "base64 [a, b] = (let n = code a * 1024 + code b * 4 in map base64_char [n div 4096, n div 64 mod 64, n mod 64] @ ''='')"
| "base64 [a] = (let n = code a * 16 in map base64_char [n div 64, n mod 64] @ ''=='')"
| "base64 [] = []"

text \<open>\<open>digest("base64url")\<close>: the other two characters, and no padding.\<close>

definition base64url :: "string \<Rightarrow> string" where
  "base64url s =
     map (\<lambda>c. if c = CHR ''+'' then CHR ''-'' else if c = CHR 0x2F then CHR ''_'' else c) (filter (\<lambda>c. c \<noteq> CHR ''='') (base64 s))"

section \<open>Credentials of the protocols\<close>

text \<open>\<open>hmac key text\<close> are the 32 bytes of HMAC-SHA-256; \<open>x25519\<close> maps a private key to its public key.\<close>

record key_functions =
  kf_hmac :: "string \<Rightarrow> string \<Rightarrow> string"
  kf_x25519 :: "string \<Rightarrow> string"

fun secret_fields :: "secret \<Rightarrow> string \<times> string" where
  "secret_fields (HysteriaSecret i password) = (i, password)"
| "secret_fields (XraySecret i email) = (i, email)"

definition hysteria_password :: "credential_set \<Rightarrow> string" where
  "hysteria_password c = snd (secret_fields (cs_hysteria c))"

definition xray_id :: "credential_set \<Rightarrow> string" where
  "xray_id c = fst (secret_fields (cs_xray c))"

definition credential_text :: "string \<Rightarrow> credential_set \<Rightarrow> string" where
  "credential_text label c = label @ [char_of (0 :: nat)] @ cs_connection_id c @ [char_of (0 :: nat)] @ show_nat (cs_generation c)"

text \<open>\<open>protocolCredential\<close>: a user name and a password of its own for each protocol.\<close>

definition protocol_credential :: "key_functions \<Rightarrow> credential_set \<Rightarrow> protocol \<Rightarrow> string \<times> string" where
  "protocol_credential K c p =
     (cs_connection_id c @ ''.'' @ show_nat (cs_generation c),
      base64url (kf_hmac K (hysteria_password c) (credential_text (''outpost:'' @ protocol_key p @ '':v1'') c)))"

section \<open>AmneziaWG\<close>

text \<open>The clamped bytes of a private key.\<close>

definition clamp_key :: "string \<Rightarrow> string" where
  "clamp_key bytes =
     (if length bytes < 32 then bytes
      else (bytes[0 := char_of (code (bytes ! 0) div 8 * 8)])[31 := char_of (64 + code (bytes ! 31) mod 64)])"

record amnezia_server =
  aw_private_key :: string
  aw_header_key :: string

record amnezia_peer =
  ap_private_key :: string
  ap_public_key :: string
  ap_preshared_key :: string
  ap_address :: string

definition amnezia_address :: "nat \<Rightarrow> string" where
  "amnezia_address serial = ''10.78.'' @ show_nat ((serial + 1) div 256) @ ''.'' @ show_nat ((serial + 1) mod 256) @ ''/32''"

definition amnezia_peer :: "key_functions \<Rightarrow> credential_set \<Rightarrow> nat \<Rightarrow> amnezia_peer result" where
  "amnezia_peer K c serial =
     (if serial < 1 \<or> 65532 < serial then Err (Thrown ''capacity'')
      else (let derive = (\<lambda>purpose. kf_hmac K (hysteria_password c) (credential_text (''outpost:awg:'' @ purpose @ '':v1'') c));
                key = base64 (clamp_key (derive ''private''))
            in Ok \<lparr>ap_private_key = key, ap_public_key = kf_x25519 K key, ap_preshared_key = base64 (derive ''preshared''),
                 ap_address = amnezia_address serial\<rparr>))"

definition amnezia_options :: "string \<Rightarrow> (string \<times> json) list" where
  "amnezia_options header_key =
     [(''jc'', JNum 4), (''jmin'', JNum 64), (''jmax'', JNum 1024), (''s1'', JNum 32), (''s2'', JNum 48), (''s3'', JNum 24), (''s4'', JNum 16),
      (''h1'', JStr ''100000-199999''), (''h2'', JStr ''200000-299999''), (''h3'', JStr ''300000-399999''), (''h4'', JStr ''400000-499999''),
      (''header-protection-key'', JStr header_key), (''content-padding-addition'', JStr ''0-256''), (''random-trailers'', JBool True),
      (''disable-cookies'', JBool True)]"

definition upper_first :: "string \<Rightarrow> string" where
  "upper_first s = (case s of [] \<Rightarrow> [] | c # cs \<Rightarrow> (if is_lower c then char_of (code c - 32) else c) # cs)"

definition option_text :: "json \<Rightarrow> string" where
  "option_text j = (case j of JBool b \<Rightarrow> (if b then ''on'' else ''off'') | JNum n \<Rightarrow> show_nat (nat n) | JStr s \<Rightarrow> s | _ \<Rightarrow> [])"

definition obfuscation :: "string \<Rightarrow> string list" where
  "obfuscation header_key =
     map (\<lambda>(k, v). concat (map upper_first (split_on (CHR ''-'') k)) @ '' = '' @ option_text v) (amnezia_options header_key)"

definition amnezia_proxy :: "key_functions \<Rightarrow> credential_set \<Rightarrow> nat \<Rightarrow> string \<Rightarrow> amnezia_server \<Rightarrow> (string \<times> json) list result" where
  "amnezia_proxy K c serial host server =
     bind_result (amnezia_peer K c serial) (\<lambda>peer.
       Ok [(''name'', JStr ''AmneziaWG 3.1''), (''type'', JStr ''wireguard''), (''server'', JStr host), (''port'', JNum 51820),
           (''ip'', JStr (hd (split_on (CHR 0x2F) (ap_address peer)))), (''private-key'', JStr (ap_private_key peer)),
           (''public-key'', JStr (kf_x25519 K (aw_private_key server))), (''pre-shared-key'', JStr (ap_preshared_key peer)),
           (''udp'', JBool True), (''mtu'', JNum 1280), (''persistent-keepalive'', JNum 25),
           (''amnezia-wg-option'', JObj ((''version'', JNum 3) # amnezia_options (aw_header_key server)))])"

definition amnezia_client :: "key_functions \<Rightarrow> credential_set \<Rightarrow> nat \<Rightarrow> string \<Rightarrow> amnezia_server \<Rightarrow> nat \<Rightarrow> string result" where
  "amnezia_client K c serial host server port =
     bind_result (amnezia_peer K c serial) (\<lambda>peer.
       Ok (join_with [CHR 0x0A]
         ([''[Interface]'', ''PrivateKey = '' @ ap_private_key peer, ''Address = '' @ ap_address peer, ''DNS = 1.1.1.1, 9.9.9.9'', ''MTU = 1280''] @
          obfuscation (aw_header_key server) @
          [[], ''[Peer]'', ''PublicKey = '' @ kf_x25519 K (aw_private_key server), ''PresharedKey = '' @ ap_preshared_key peer,
           ''Endpoint = '' @ host @ '':'' @ show_nat port, ''AllowedIPs = 0.0.0.0/0, ::/0'', ''PersistentKeepalive = 25'', []])))"

text \<open>\<open>amneziaSnapshot\<close>: what the root agent gets of the peers.\<close>

definition amnezia_peers :: "key_functions \<Rightarrow> credential_set list \<Rightarrow> (string \<times> string \<times> string) list result" where
  "amnezia_peers K cs =
     map_result (\<lambda>c. bind_result (amnezia_peer K c (cs_serial c)) (\<lambda>p. Ok (ap_public_key p, ap_preshared_key p, ap_address p))) cs"

text \<open>\<open>amneziaNative\<close> refuses a snapshot with an address or a key that is invalid or repeated.\<close>

definition native_octets :: "string \<Rightarrow> nat list" where
  "native_octets a = map number_of (split_on (CHR ''.'') (hd (split_on (CHR 0x2F) a)))"

fun native_peers_ok :: "string list \<Rightarrow> string list \<Rightarrow> (string \<times> string \<times> string) list \<Rightarrow> bool" where
  "native_peers_ok addresses keys [] = True"
| "native_peers_ok addresses keys ((key, psk, a) # ps) =
     (\<not> (list_ex (\<lambda>n. 255 < n) (native_octets a) \<or> native_octets a ! 2 = 0 \<and> native_octets a ! 3 < 2 \<or>
          a \<in> set addresses \<or> key \<in> set keys) \<and>
      native_peers_ok (a # addresses) (key # keys) ps)"

definition amnezia_native :: "string \<Rightarrow> string \<Rightarrow> nat option \<Rightarrow> (string \<times> string \<times> string) list \<Rightarrow> string result" where
  "amnezia_native private_key header_key port peers =
     (if \<not> native_peers_ok [] [] peers then Err (Thrown ''peer'')
      else Ok (join_with [CHR 0x0A]
        ([''[Interface]'', ''PrivateKey = '' @ private_key, ''ListenPort = '' @ show_nat (coalesce port 51820)] @ obfuscation header_key @
         concat (map (\<lambda>(key, psk, a). [[], ''[Peer]'', ''PublicKey = '' @ key, ''PresharedKey = '' @ psk, ''AllowedIPs = '' @ a]) peers) @ [[]])))"

text \<open>\<open>derive\<close> gives the 32 bytes of the panel's token for a purpose.\<close>

definition amnezia_identity :: "(string \<Rightarrow> string) \<Rightarrow> amnezia_server" where
  "amnezia_identity derive = \<lparr>aw_private_key = base64 (clamp_key (derive ''outpost:awg:private:v1'')),
     aw_header_key = base64 (derive ''outpost:awg:header:v1'')\<rparr>"

section \<open>Outbounds\<close>

record panel_site =
  si_domain :: string
  si_public_ip :: string
  si_origin :: string
  si_server :: amnezia_server

definition panel_host :: "panel_site \<Rightarrow> string" where
  "panel_host st = (if si_public_ip st \<noteq> [] then si_public_ip st else si_domain st)"

datatype subscription_format = FMihomo | FSingBox | FXrayJson | FLinks | FNaive | FAmneziaWG

fun profile_format :: "client_profile \<Rightarrow> subscription_format" where
  "profile_format PMihomo = FMihomo"
| "profile_format PMihomoModern = FMihomo"
| "profile_format PSingBox = FSingBox"
| "profile_format PSingBoxModern = FSingBox"
| "profile_format PXrayJson = FXrayJson"
| "profile_format PLinks = FLinks"
| "profile_format PNaive = FNaive"
| "profile_format PAmneziaWG = FAmneziaWG"

fun plain_profile :: "subscription_format \<Rightarrow> client_profile" where
  "plain_profile FMihomo = PMihomo"
| "plain_profile FSingBox = PSingBox"
| "plain_profile FXrayJson = PXrayJson"
| "plain_profile FLinks = PLinks"
| "plain_profile FNaive = PNaive"
| "plain_profile FAmneziaWG = PAmneziaWG"

record network_settings =
  nw_ipv6 :: bool
  nw_block_quic :: bool
  nw_dns_mode :: string
  nw_sniffing :: bool
  nw_http_ports :: "json list"
  nw_tls_ports :: "json list"
  nw_quic_ports :: "json list"

definition network_defaults :: network_settings where
  "network_defaults = \<lparr>nw_ipv6 = False, nw_block_quic = True, nw_dns_mode = ''fake-ip'', nw_sniffing = True,
     nw_http_ports = [JNum 80, JStr ''8080-8880''], nw_tls_ports = [JNum 443, JNum 8080, JNum 8443], nw_quic_ports = [JNum 443, JNum 8443]\<rparr>"

record subscription_context =
  sx_methods :: "conn_method list option"
  sx_profile :: "client_profile option"
  sx_name :: string
  sx_serial :: nat
  sx_credentials :: credential_set
  sx_routes :: "client_rule list"
  sx_token :: string
  sx_engine_order :: "engine list"
  sx_platform :: string
  sx_link_client :: string
  sx_protocols :: "protocol list option"
  sx_engines :: "engine list option"
  sx_network :: "network_settings option"

definition context_network :: "subscription_context \<Rightarrow> network_settings" where
  "context_network cx = coalesce (sx_network cx) network_defaults"

definition context_profile :: "subscription_context \<Rightarrow> subscription_format \<Rightarrow> client_profile" where
  "context_profile cx f =
     (case sx_profile cx of
        Some p \<Rightarrow> p
      | None \<Rightarrow> if sx_protocols cx \<noteq> None \<and> f = FMihomo then PMihomoModern
                else if sx_protocols cx \<noteq> None \<and> f = FSingBox then PSingBoxModern else plain_profile f)"

definition subscription_methods :: "path_config \<Rightarrow> subscription_context \<Rightarrow> subscription_format \<Rightarrow> conn_method list result" where
  "subscription_methods ps cx f =
     (let p = context_profile cx f
      in if profile_format p \<noteq> f then Err (ServiceError 400)
         else (let selected = compatible_methods (coalesce (sx_methods cx) (default_methods (sx_engine_order cx) ps)) p
                     (coalesce (sx_engines cx) [Hysteria, Xray]) (sx_protocols cx)
               in if selected = [] then Err (ServiceError 409) else Ok selected))"

definition is_default_method :: "conn_method \<Rightarrow> bool" where
  "is_default_method m \<longleftrightarrow> m_id m = engine_key (m_engine m) @ ''-'' @ protocol_key (m_protocol m)"

definition method_tag :: "conn_method \<Rightarrow> string" where
  "method_tag m =
     (if is_default_method m then (if m_protocol m = Grpc then ''vless-grpc'' else protocol_key (m_protocol m))
      else ''method-'' @ m_id m)"

definition port_text :: "conn_method \<Rightarrow> string" where
  "port_text m = show_nat (ms_port (m_settings m))"

definition method_path :: "conn_method \<Rightarrow> string" where
  "method_path m = coalesce (ms_path (m_settings m)) ''undefined''"

definition method_fingerprint :: "conn_method \<Rightarrow> string" where
  "method_fingerprint m = coalesce (ms_fingerprint (m_settings m)) ''chrome''"

definition method_link :: "panel_site \<Rightarrow> subscription_context \<Rightarrow> conn_method \<Rightarrow> string" where
  "method_link st cx m =
     (let suffix = (case m_protocol m of Hysteria2 \<Rightarrow> ''Hysteria'' | Xhttp \<Rightarrow> ''XHTTP'' | _ \<Rightarrow> ''gRPC'');
          label = encode_uri (if is_default_method m then sx_name cx @ '' '' @ suffix else sx_name cx @ '' '' @ [char_of (183 :: nat)] @ '' '' @ m_name m)
      in if m_protocol m = Hysteria2
         then ''hysteria2://'' @ encode_uri (hysteria_password (sx_credentials cx)) @ ''@'' @ panel_host st @ '':'' @ port_text m @
              ''/?sni='' @ si_domain st @ ''&insecure=0#'' @ label
         else ''vless://'' @ xray_id (sx_credentials cx) @ ''@'' @ panel_host st @ '':'' @ port_text m @
              ''?encryption=none&security=tls&sni='' @ si_domain st @ ''&fp='' @ method_fingerprint m @ ''&type='' @ protocol_key (m_protocol m) @ ''&'' @
              (if m_protocol m = Xhttp then ''path='' @ encode_uri (method_path m) @ ''&mode=packet-up''
               else ''serviceName='' @ encode_uri (method_path m) @ ''&mode=gun'') @ ''#'' @ label)"

text \<open>A property whose value is \<open>undefined\<close> is not written out.\<close>

definition opt_text :: "string \<Rightarrow> string option \<Rightarrow> (string \<times> json) list" where
  "opt_text k v = (case v of None \<Rightarrow> [] | Some s \<Rightarrow> [(k, JStr s)])"

definition port_json :: "conn_method \<Rightarrow> json" where
  "port_json m = JNum (int (ms_port (m_settings m)))"

definition user_fields :: "string \<times> string \<Rightarrow> (string \<times> json) list" where
  "user_fields u = [(''username'', JStr (fst u)), (''password'', JStr (snd u))]"

definition mihomo_outbound :: "key_functions \<Rightarrow> panel_site \<Rightarrow> subscription_context \<Rightarrow> conn_method \<Rightarrow> json result" where
  "mihomo_outbound K st cx m =
     (let p = m_protocol m; c = sx_credentials cx; host = panel_host st; path = ms_path (m_settings m)
      in if p = Hysteria2
         then Ok (JObj [(''name'', JStr (m_name m)), (''type'', JStr ''hysteria2''), (''server'', JStr host), (''port'', port_json m),
                (''password'', JStr (hysteria_password c)), (''sni'', JStr (si_domain st)), (''skip-cert-verify'', JBool False), (''alpn'', JArr [JStr ''h3''])])
         else if p \<in> {Xhttp, Grpc}
         then Ok (JObj ([(''name'', JStr (m_name m)), (''type'', JStr ''vless''), (''server'', JStr host), (''port'', port_json m),
                (''uuid'', JStr (xray_id c)), (''udp'', JBool True), (''tls'', JBool True), (''servername'', JStr (si_domain st)),
                (''client-fingerprint'', JStr (method_fingerprint m)), (''network'', JStr (protocol_key p))] @
                (if p = Xhttp then [(''xhttp-opts'', JObj (opt_text ''path'' path @ [(''mode'', JStr ''packet-up'')]))]
                 else [(''grpc-opts'', JObj (opt_text ''grpc-service-name'' path))])))
         else if p = AmneziaWGProto
         then bind_result (amnezia_proxy K c (sx_serial cx) host (si_server st)) (\<lambda>kvs.
                Ok (JObj (map_set ''port'' (port_json m) (map_set ''name'' (JStr (m_name m)) kvs))))
         else (let user = protocol_credential K c p
               in Ok (JObj ([(''name'', JStr (m_name m)), (''type'', JStr (protocol_key p)), (''server'', JStr host), (''port'', port_json m)] @
                    (if p = AnyTLS then [(''password'', JStr (snd user))] else user_fields user) @
                    [(''sni'', JStr (si_domain st)), (''skip-cert-verify'', JBool False), (''client-fingerprint'', JStr (method_fingerprint m)), (''udp'', JBool True)] @
                    (if p = TrustTunnel then [(''quic'', JBool False)] else [])))))"

definition sing_box_outbound :: "key_functions \<Rightarrow> panel_site \<Rightarrow> subscription_context \<Rightarrow> conn_method \<Rightarrow> json" where
  "sing_box_outbound K st cx m =
     (let p = m_protocol m; c = sx_credentials cx; fp = method_fingerprint m;
          base = [(''type'', JStr (if p = Grpc then ''vless'' else protocol_key p)), (''tag'', JStr (method_tag m)),
                  (''server'', JStr (panel_host st)), (''server_port'', port_json m)];
          tls = [(''enabled'', JBool True), (''server_name'', JStr (si_domain st))];
          secure = tls @ (if fp \<noteq> ''none'' then [(''utls'', JObj [(''enabled'', JBool True), (''fingerprint'', JStr fp)])] else []);
          user = protocol_credential K c p
      in if p = Hysteria2 then JObj (base @ [(''password'', JStr (hysteria_password c)), (''tls'', JObj tls)])
         else if p = Grpc
         then JObj (base @ [(''uuid'', JStr (xray_id c)), (''tls'', JObj secure),
                (''transport'', JObj ((''type'', JStr ''grpc'') # opt_text ''service_name'' (ms_path (m_settings m))))])
         else JObj (base @ (if p = AnyTLS then [(''password'', JStr (snd user))] else user_fields user) @
                [(''tls'', JObj (if p = AnyTLS then secure else tls))]))"

definition xray_outbound :: "panel_site \<Rightarrow> subscription_context \<Rightarrow> conn_method \<Rightarrow> json" where
  "xray_outbound st cx m =
     (let p = m_protocol m; suffix = (if m_id m = ''xray-'' @ protocol_key p then protocol_key p else m_id m); path = ms_path (m_settings m)
      in JObj [(''protocol'', JStr ''vless''), (''tag'', JStr (''proxy-'' @ suffix)),
           (''settings'', JObj [(''vnext'', JArr [JObj [(''address'', JStr (panel_host st)), (''port'', port_json m),
              (''users'', JArr [JObj [(''id'', JStr (xray_id (sx_credentials cx))), (''encryption'', JStr ''none'')]])]])]),
           (''streamSettings'', JObj ([(''network'', JStr (protocol_key p)), (''security'', JStr ''tls''),
              (''tlsSettings'', JObj ((''serverName'', JStr (si_domain st)) #
                 (if ms_fingerprint (m_settings m) \<noteq> Some ''none'' then [(''fingerprint'', JStr (method_fingerprint m))] else [])))] @
              (if p = Xhttp then [(''xhttpSettings'', JObj (opt_text ''path'' path @ [(''mode'', JStr ''packet-up'')]))]
               else [(''grpcSettings'', JObj (opt_text ''serviceName'' path @ [(''multiMode'', JBool False)]))])))])"

section \<open>Rules\<close>

definition rule_enabled :: "client_rule \<Rightarrow> bool" where
  "rule_enabled k \<longleftrightarrow> r_enabled (k_rule k)"

definition rule_action :: "client_rule \<Rightarrow> route_action" where
  "rule_action k = r_action (k_rule k)"

definition is_catch_all :: "client_rule \<Rightarrow> bool" where
  "is_catch_all k \<longleftrightarrow> k_matcher k = CSuffix \<and> k_value k = ''*''"

fun mihomo_target :: "route_action \<Rightarrow> string" where
  "mihomo_target BLOCK = ''REJECT''"
| "mihomo_target DIRECT = ''DIRECT''"
| "mihomo_target PROXY = ''PROXY''"

fun mihomo_type :: "client_matcher \<Rightarrow> string" where
  "mihomo_type CDomain = ''DOMAIN''"
| "mihomo_type CSuffix = ''DOMAIN-SUFFIX''"
| "mihomo_type CKeyword = ''DOMAIN-KEYWORD''"
| "mihomo_type CRegex = ''DOMAIN-REGEX''"
| "mihomo_type CCidr = ''IP-CIDR''"
| "mihomo_type CGeoip = ''GEOIP''"

definition rule_value :: "client_rule \<Rightarrow> string" where
  "rule_value k = (if k_matcher k = CSuffix then strip_dot (k_value k) else k_value k)"

definition mihomo_rule :: "client_rule \<Rightarrow> string" where
  "mihomo_rule k =
     (let target = mihomo_target (rule_action k); v = rule_value k;
          type = (if k_matcher k = CCidr \<and> CHR '':'' \<in> set v then ''IP-CIDR6'' else mihomo_type (k_matcher k))
      in if is_catch_all k then ''MATCH,'' @ target else type @ '','' @ v @ '','' @ target)"

definition mihomo_quic_reject :: string where
  "mihomo_quic_reject = ''AND,((NETWORK,UDP),(DST-PORT,443)),REJECT''"

definition mihomo_ipv6_reject :: string where
  "mihomo_ipv6_reject = ''IP-CIDR6,::/0,REJECT,no-resolve''"

definition mihomo_rules :: "network_settings \<Rightarrow> client_rule list \<Rightarrow> string list" where
  "mihomo_rules nw rules =
     map mihomo_rule (filter (\<lambda>k. \<not> is_catch_all k) rules) @ (if nw_ipv6 nw then [] else [mihomo_ipv6_reject]) @
     (if nw_block_quic nw then [mihomo_quic_reject] else []) @ map mihomo_rule (filter is_catch_all rules)"

definition xray_target :: "route_action \<Rightarrow> (string \<times> json) list" where
  "xray_target a =
     (if a = PROXY then [(''balancerTag'', JStr ''proxy'')]
      else [(''outboundTag'', JStr (if a = DIRECT then ''direct'' else ''block''))])"

definition xray_rule :: "client_rule \<Rightarrow> json" where
  "xray_rule k =
     (let field = [(''type'', JStr ''field'')]; target = xray_target (rule_action k)
      in if is_catch_all k then JObj (field @ [(''network'', JStr ''tcp,udp'')] @ target)
         else if k_matcher k = CCidr then JObj (field @ [(''ip'', JArr [JStr (k_value k)])] @ target)
         else if k_matcher k = CGeoip then JObj (field @ [(''ip'', JArr [JStr (''geoip:'' @ k_value k)])] @ target)
         else (let domain = (case k_matcher k of
                    CDomain \<Rightarrow> ''full:'' @ k_value k
                  | CKeyword \<Rightarrow> k_value k
                  | CRegex \<Rightarrow> ''regexp:'' @ k_value k
                  | _ \<Rightarrow> ''domain:'' @ strip_dot (k_value k))
               in JObj (field @ [(''domain'', JArr [JStr domain])] @ target)))"

definition xray_quic_reject :: json where
  "xray_quic_reject = JObj [(''type'', JStr ''field''), (''network'', JStr ''udp''), (''port'', JNum 443), (''outboundTag'', JStr ''block'')]"

definition xray_ipv6_reject :: json where
  "xray_ipv6_reject = JObj [(''type'', JStr ''field''), (''ip'', JArr [JStr ''::/0'']), (''outboundTag'', JStr ''block'')]"

definition xray_rules :: "network_settings \<Rightarrow> client_rule list \<Rightarrow> json list" where
  "xray_rules nw rules =
     map xray_rule (filter (\<lambda>k. \<not> is_catch_all k) rules) @ (if nw_ipv6 nw then [] else [xray_ipv6_reject]) @
     (if nw_block_quic nw then [xray_quic_reject] else []) @ map xray_rule (filter is_catch_all rules)"

definition sing_box_match :: "client_rule \<Rightarrow> string \<times> json" where
  "sing_box_match k =
     (case k_matcher k of
        CDomain \<Rightarrow> (''domain'', JArr [JStr (k_value k)])
      | CSuffix \<Rightarrow> (''domain_suffix'', JArr [JStr (strip_dot (k_value k))])
      | CKeyword \<Rightarrow> (''domain_keyword'', JArr [JStr (k_value k)])
      | CRegex \<Rightarrow> (''domain_regex'', JArr [JStr (k_value k)])
      | CCidr \<Rightarrow> (''ip_cidr'', JArr [JStr (k_value k)])
      | CGeoip \<Rightarrow> (''rule_set'', JArr [JStr (''geoip-'' @ to_lower (k_value k))]))"

definition sing_box_rule :: "client_rule \<Rightarrow> json" where
  "sing_box_rule k =
     (if rule_action k = BLOCK then JObj [sing_box_match k, (''action'', JStr ''reject'')]
      else JObj [sing_box_match k, (''action'', JStr ''route''), (''outbound'', JStr (if rule_action k = DIRECT then ''direct'' else ''proxy''))])"

definition sing_box_quic_reject :: json where
  "sing_box_quic_reject = JObj [(''network'', JStr ''udp''), (''port'', JNum 443), (''action'', JStr ''reject'')]"

definition sing_box_ipv6_reject :: json where
  "sing_box_ipv6_reject = JObj [(''ip_version'', JNum 6), (''action'', JStr ''reject'')]"

definition sing_box_rules :: "network_settings \<Rightarrow> client_rule list \<Rightarrow> json list" where
  "sing_box_rules nw rules =
     map sing_box_rule (filter (\<lambda>k. \<not> is_catch_all k) rules) @ (if nw_ipv6 nw then [] else [sing_box_ipv6_reject]) @
     (if nw_block_quic nw then [sing_box_quic_reject] else [])"

text \<open>The outbound of what no rule matches.\<close>

definition catch_all_outbound :: "client_rule list \<Rightarrow> string" where
  "catch_all_outbound rules =
     (case map_option rule_action (find is_catch_all rules) of
        Some DIRECT \<Rightarrow> ''direct'' | Some BLOCK \<Rightarrow> ''block'' | _ \<Rightarrow> ''proxy'')"

definition sing_box_sets :: "panel_site \<Rightarrow> client_rule list \<Rightarrow> json list" where
  "sing_box_sets st rules =
     map (\<lambda>c. JObj [(''type'', JStr ''remote''), (''tag'', JStr (''geoip-'' @ c)), (''format'', JStr ''binary''),
            (''url'', JStr (si_origin st @ ''/rulesets/geoip/'' @ encode_uri c @ ''.srs'')), (''download_detour'', JStr ''direct''),
            (''update_interval'', JStr ''1d'')])
       (js_distinct (map (\<lambda>k. to_lower (k_value k)) (filter (\<lambda>k. k_matcher k = CGeoip) rules)))"

text \<open>INCY and Happ take the routes as lists grouped by action.\<close>

definition incy_entry :: "client_rule \<Rightarrow> bool \<times> string" where
  "incy_entry k =
     (case k_matcher k of
        CCidr \<Rightarrow> (True, k_value k)
      | CGeoip \<Rightarrow> (True, ''geoip:'' @ k_value k)
      | CDomain \<Rightarrow> (False, ''full:'' @ k_value k)
      | CKeyword \<Rightarrow> (False, k_value k)
      | CRegex \<Rightarrow> (False, ''regexp:'' @ k_value k)
      | CSuffix \<Rightarrow> (False, ''domain:'' @ strip_dot (k_value k)))"

definition incy_group :: "route_action \<Rightarrow> bool \<Rightarrow> client_rule list \<Rightarrow> string list" where
  "incy_group a ips rules =
     map (snd \<circ> incy_entry) (filter (\<lambda>k. \<not> is_catch_all k \<and> rule_action k = a \<and> fst (incy_entry k) = ips) rules)"

definition incy_profile :: "network_settings \<Rightarrow> client_rule list \<Rightarrow> json" where
  "incy_profile nw rules =
     (let texts = (\<lambda>xs. JArr (map JStr xs)); doh = JStr ''https://cloudflare-dns.com/dns-query''
      in JObj [(''Name'', JStr ''Outpost''), (''GlobalProxy'', JStr ''true''),
           (''RemoteDNSType'', JStr ''DoH''), (''RemoteDNSDomain'', doh), (''RemoteDNSIP'', JStr ''1.1.1.1''),
           (''DomesticDNSType'', JStr ''DoH''), (''DomesticDNSDomain'', doh), (''DomesticDNSIP'', JStr ''1.1.1.1''),
           (''DirectSites'', texts (incy_group DIRECT False rules)), (''DirectIp'', texts (incy_group DIRECT True rules)),
           (''ProxySites'', texts (incy_group PROXY False rules)), (''ProxyIp'', texts (incy_group PROXY True rules)),
           (''BlockSites'', texts (incy_group BLOCK False rules)),
           (''BlockIp'', texts (incy_group BLOCK True rules @ (if nw_ipv6 nw then [] else [''::/0'']))),
           (''DomainStrategy'', JStr ''IPIfNonMatch''), (''FakeDNS'', JStr ''false''), (''useChunkFiles'', JBool True)])"

definition link_routes :: "network_settings \<Rightarrow> client_rule list \<Rightarrow> json" where
  "link_routes nw rules = incy_profile nw (filter rule_enabled rules)"

section \<open>Profiles\<close>

text \<open>What is served: a text, or a value that the YAML or JSON library writes out.\<close>

datatype body = TextBody string | YamlBody json | JsonBody json

record rendered =
  rn_body :: body
  rn_content_type :: string
  rn_headers :: "(string \<times> string) list"

definition served_as :: "body \<Rightarrow> string \<Rightarrow> (string \<times> string) list \<Rightarrow> rendered" where
  "served_as b ctype headers =
     \<lparr>rn_body = b, rn_content_type = ctype, rn_headers = (''cache-control'', ''private, no-store'') # headers\<rparr>"

definition profile_title :: "subscription_context \<Rightarrow> string" where
  "profile_title cx = ''Outpost '' @ [char_of (183 :: nat)] @ '' '' @ sx_name cx"

definition utf8_header :: "string \<Rightarrow> string" where
  "utf8_header s = ''base64:'' @ base64 (utf8_bytes s)"

definition texts :: "string list \<Rightarrow> json" where
  "texts xs = JArr (map JStr xs)"

definition name_of :: "json \<Rightarrow> string \<Rightarrow> json" where
  "name_of j k = (case j of JObj kvs \<Rightarrow> coalesce (json_get k kvs) JNull | _ \<Rightarrow> JNull)"

definition mihomo_profile :: "path_config \<Rightarrow> key_functions \<Rightarrow> panel_site \<Rightarrow> subscription_context \<Rightarrow> json result" where
  "mihomo_profile ps K st cx =
     (let nw = context_network cx; rules = filter rule_enabled (sx_routes cx)
      in bind_result (subscription_methods ps cx FMihomo) (\<lambda>ms.
         bind_result (map_result (mihomo_outbound K st cx) ms) (\<lambda>proxies.
         Ok (JObj [(''mixed-port'', JNum 7890), (''allow-lan'', JBool False), (''mode'', JStr ''rule''), (''log-level'', JStr ''warning''),
           (''ipv6'', JBool (nw_ipv6 nw)), (''tun'', JObj [(''auto-route'', JBool False), (''auto-detect-interface'', JBool False)]),
           (''dns'', JObj [(''enable'', JBool True), (''ipv6'', JBool (nw_ipv6 nw)), (''enhanced-mode'', JStr (nw_dns_mode nw)),
              (''fake-ip-filter'', texts [''+.lan'', ''+.local'']), (''default-nameserver'', texts [''77.88.8.8'', ''1.1.1.1'']),
              (''proxy-server-nameserver'', texts [''system'', ''77.88.8.8'']),
              (''nameserver'', texts [''https://1.1.1.1/dns-query#PROXY'', ''https://8.8.8.8/dns-query#PROXY'']),
              (''direct-nameserver'', texts [''system'', ''77.88.8.8''])]),
           (''sniffer'', JObj [(''enable'', JBool (nw_sniffing nw)), (''force-dns-mapping'', JBool True), (''parse-pure-ip'', JBool True),
              (''override-destination'', JBool True),
              (''sniff'', JObj [(''HTTP'', JObj [(''ports'', JArr (nw_http_ports nw)), (''override-destination'', JBool True)]),
                 (''TLS'', JObj [(''ports'', JArr (nw_tls_ports nw))]), (''QUIC'', JObj [(''ports'', JArr (nw_quic_ports nw))])])]),
           (''proxies'', JArr proxies),
           (''proxy-groups'', JArr [JObj [(''name'', JStr ''PROXY''), (''type'', JStr ''fallback''), (''url'', JStr ''http://1.1.1.1''),
              (''interval'', JNum 300), (''proxies'', JArr (map (\<lambda>p. name_of p ''name'') proxies))]]),
           (''rules'', texts (mihomo_rules nw rules))]))))"

definition sing_box_profile :: "path_config \<Rightarrow> key_functions \<Rightarrow> panel_site \<Rightarrow> subscription_context \<Rightarrow> json result" where
  "sing_box_profile ps K st cx =
     (let nw = context_network cx; rules = filter rule_enabled (sx_routes cx)
      in bind_result (subscription_methods ps cx FSingBox) (\<lambda>ms.
         (let transports = map (sing_box_outbound K st cx) ms
          in Ok (JObj [(''log'', JObj [(''level'', JStr ''warn''), (''timestamp'', JBool True)]),
           (''dns'', JObj [(''servers'', JArr [JObj [(''type'', JStr ''local''), (''tag'', JStr ''local'')],
              JObj [(''type'', JStr ''https''), (''tag'', JStr ''remote''), (''server'', JStr ''1.1.1.1''), (''server_port'', JNum 443),
                 (''path'', JStr ''/dns-query''), (''detour'', JStr ''proxy'')]]), (''strategy'', JStr ''prefer_ipv4'')]),
           (''inbounds'', JArr [JObj [(''type'', JStr ''tun''), (''tag'', JStr ''tun-in''),
              (''address'', texts (if nw_ipv6 nw then [''172.19.0.1/30'', ''fdfe:dcba:9876::1/126''] else [''172.19.0.1/30''])),
              (''auto_route'', JBool True), (''strict_route'', JBool True)]]),
           (''outbounds'', JArr (transports @
              [JObj [(''type'', JStr ''urltest''), (''tag'', JStr ''proxy''), (''outbounds'', JArr (map (\<lambda>t. name_of t ''tag'') transports)),
                 (''url'', JStr ''https://www.gstatic.com/generate_204''), (''interval'', JStr ''5m''), (''tolerance'', JNum 50)],
               JObj [(''type'', JStr ''direct''), (''tag'', JStr ''direct'')]])),
           (''route'', JObj [(''auto_detect_interface'', JBool True), (''default_domain_resolver'', JStr ''local''),
              (''rule_set'', JArr (sing_box_sets st rules)), (''rules'', JArr (sing_box_rules nw rules)),
              (''final'', JStr (catch_all_outbound rules))])]))))"

definition xray_profile :: "path_config \<Rightarrow> panel_site \<Rightarrow> subscription_context \<Rightarrow> json result" where
  "xray_profile ps st cx =
     (let nw = context_network cx; rules = filter rule_enabled (sx_routes cx)
      in bind_result (subscription_methods ps cx FXrayJson) (\<lambda>ms.
         Ok (JObj [(''log'', JObj [(''loglevel'', JStr ''warning'')]), (''dns'', JObj [(''servers'', texts [''1.1.1.1'', ''8.8.8.8''])]),
           (''inbounds'', JArr [
              JObj [(''listen'', JStr ''127.0.0.1''), (''port'', JNum 10808), (''protocol'', JStr ''socks''), (''settings'', JObj [(''udp'', JBool True)]), (''tag'', JStr ''socks'')],
              JObj [(''listen'', JStr ''127.0.0.1''), (''port'', JNum 10809), (''protocol'', JStr ''http''), (''settings'', JObj []), (''tag'', JStr ''http'')]]),
           (''outbounds'', JArr (map (xray_outbound st cx) ms @
              [JObj [(''protocol'', JStr ''freedom''), (''tag'', JStr ''direct'')], JObj [(''protocol'', JStr ''blackhole''), (''tag'', JStr ''block'')]])),
           (''observatory'', JObj [(''subjectSelector'', texts [''proxy-'']), (''probeUrl'', JStr ''https://www.gstatic.com/generate_204''), (''probeInterval'', JStr ''1m'')]),
           (''routing'', JObj [(''domainStrategy'', JStr ''IPIfNonMatch''),
              (''balancers'', JArr [JObj [(''tag'', JStr ''proxy''), (''selector'', texts [''proxy-'']), (''strategy'', JObj [(''type'', JStr ''leastPing'')])]]),
              (''rules'', JArr (xray_rules nw rules))])])))"

section \<open>Renderers\<close>

text \<open>
  \<open>output\<close>.  Node writes header names without regard to their order, so the headers are listed
  as the code lists them.
\<close>

definition naive_profile :: "path_config \<Rightarrow> key_functions \<Rightarrow> panel_site \<Rightarrow> subscription_context \<Rightarrow> json result" where
  "naive_profile ps K st cx =
     bind_result (subscription_methods ps cx FNaive) (\<lambda>ms.
       (let user = protocol_credential K (sx_credentials cx) Naive
        in Ok (JObj [(''listen'', JStr ''socks://127.0.0.1:1080''),
             (''proxy'', JStr (''https://'' @ encode_uri (fst user) @ '':'' @ encode_uri (snd user) @ ''@'' @ si_domain st @ '':'' @ port_text (hd ms)))])))"

definition json_content :: string where
  "json_content = ''application/json; charset=utf-8''"

definition plain_content :: string where
  "plain_content = ''text/plain; charset=utf-8''"

definition subscription_url :: "panel_site \<Rightarrow> subscription_context \<Rightarrow> string" where
  "subscription_url st cx = si_origin st @ ''/s/'' @ sx_token cx"

text \<open>\<open>write_json\<close> is \<open>JSON.stringify(value, null, 2)\<close>: the links carry the routes as text.\<close>

definition links_rendered :: "(json \<Rightarrow> string) \<Rightarrow> path_config \<Rightarrow> panel_site \<Rightarrow> subscription_context \<Rightarrow> rendered result" where
  "links_rendered write_json ps st cx =
     bind_result (subscription_methods ps cx FLinks) (\<lambda>ms.
       (let links = map (method_link st cx) ms; happ = (sx_link_client cx = ''happ'');
            routes = write_json (link_routes (context_network cx) (sx_routes cx));
            lines = (if happ then [''happ://routing/onadd/'' @ base64 (utf8_bytes routes)] else []) @ links
        in Ok (served_as (TextBody (join_with [CHR 0x0A] lines @ [CHR 0x0A])) plain_content
             ([(''profile-title'', utf8_header (profile_title cx)), (''profile-update-interval'', ''12''),
               (''profile-web-page-url'', subscription_url st cx),
               (''subscription-userinfo'', ''upload=0;download=0;total=0;expire=0'')] @
              (if happ then [] else [(''autorouting'', ''incy://autorouting/onadd/'' @ subscription_url st cx @ ''/routes'')]) @
              [(''fragmentation-enable'', ''1''), (''fragmentation-packets'', ''tlshello''), (''fragmentation-length'', ''10-30''),
               (''fragmentation-interval'', ''10-30'')] @
              (if sx_platform cx = ''ios'' then [(''no-limit-enabled'', ''1'')] else [])))))"

definition legacy_xray_rendered :: "path_config \<Rightarrow> panel_site \<Rightarrow> subscription_context \<Rightarrow> rendered result" where
  "legacy_xray_rendered ps st cx =
     bind_result (subscription_methods ps cx FXrayJson) (\<lambda>ms.
       Ok (served_as (TextBody (base64 (utf8_bytes (join_with [CHR 0x0A] (map (method_link st cx) ms) @ [CHR 0x0A])))) plain_content
            [(''profile-title'', utf8_header (profile_title cx)), (''profile-update-interval'', ''12'')]))"

definition amnezia_rendered :: "path_config \<Rightarrow> key_functions \<Rightarrow> panel_site \<Rightarrow> subscription_context \<Rightarrow> rendered result" where
  "amnezia_rendered ps K st cx =
     bind_result (subscription_methods ps cx FAmneziaWG) (\<lambda>ms.
     bind_result (amnezia_client K (sx_credentials cx) (sx_serial cx) (panel_host st) (si_server st) (ms_port (m_settings (hd ms)))) (\<lambda>conf.
       Ok (served_as (TextBody conf) plain_content [(''content-disposition'', ''attachment; filename=outpost-amneziawg.conf'')])))"

text \<open>\<open>renderers\<close>: \<open>None\<close> is the universal Base64 format of earlier releases, \<open>xray\<close>.\<close>

definition render_subscription ::
  "(json \<Rightarrow> string) \<Rightarrow> path_config \<Rightarrow> key_functions \<Rightarrow> panel_site \<Rightarrow> subscription_context \<Rightarrow> subscription_format option \<Rightarrow> rendered result" where
  "render_subscription write_json ps K st cx f =
     (case f of
        None \<Rightarrow> legacy_xray_rendered ps st cx
      | Some FLinks \<Rightarrow> links_rendered write_json ps st cx
      | Some FAmneziaWG \<Rightarrow> amnezia_rendered ps K st cx
      | Some FMihomo \<Rightarrow> bind_result (mihomo_profile ps K st cx) (\<lambda>p. Ok (served_as (YamlBody p) ''text/yaml; charset=utf-8''
          [(''profile-title'', encode_uri (profile_title cx)), (''profile-update-interval'', ''12'')]))
      | Some FSingBox \<Rightarrow> bind_result (sing_box_profile ps K st cx) (\<lambda>p. Ok (served_as (JsonBody p) json_content []))
      | Some FXrayJson \<Rightarrow> bind_result (xray_profile ps st cx) (\<lambda>p. Ok (served_as (JsonBody p) json_content []))
      | Some FNaive \<Rightarrow> bind_result (naive_profile ps K st cx) (\<lambda>p. Ok (served_as (JsonBody p) json_content [])))"

end
