(* ===== verification/Profiles.thy ===== *)
theory Profiles
  imports Subscriptions
begin

text \<open>
  What the rendered profiles mean: every format says the routes in their order, and names no
  outbound that it does not define.
\<close>

section \<open>The rules a client reads\<close>

text \<open>
  A route as a client takes it: a condition with an action, the refusal of IPv6 and of QUIC, and
  the rule for everything else.
\<close>

datatype client_entry = Entry client_matcher string route_action | NoIpv6 | NoQuic | Anything route_action

definition said :: "client_matcher \<Rightarrow> string \<Rightarrow> route_action \<Rightarrow> client_entry" where
  "said m v a =
     (if m = CCidr \<and> v = ''::/0'' \<and> a = BLOCK then NoIpv6 else Entry m (if m = CGeoip then to_lower v else v) a)"

definition rule_entry :: "client_rule \<Rightarrow> client_entry" where
  "rule_entry k = (if is_catch_all k then Anything (rule_action k) else said (k_matcher k) (rule_value k) (rule_action k))"

text \<open>The decisions of the routes in order: the refusals come just before the catch-all.\<close>

definition decision_list :: "network_settings \<Rightarrow> client_rule list \<Rightarrow> client_entry list" where
  "decision_list nw rules =
     (let ks = filter rule_enabled rules
      in map rule_entry (filter (\<lambda>k. \<not> is_catch_all k) ks) @ (if nw_ipv6 nw then [] else [NoIpv6]) @
         (if nw_block_quic nw then [NoQuic] else []) @ map rule_entry (filter is_catch_all ks))"

text \<open>How Mihomo reads a rule: a type, a value that may hold commas, and a target.\<close>

definition before_comma :: "string \<Rightarrow> string" where
  "before_comma s = takeWhile (\<lambda>c. c \<noteq> CHR '','') s"

definition after_comma :: "string \<Rightarrow> string" where
  "after_comma s = drop 1 (dropWhile (\<lambda>c. c \<noteq> CHR '','') s)"

definition mihomo_action :: "string \<Rightarrow> route_action option" where
  "mihomo_action = map_of [(''REJECT'', BLOCK), (''DIRECT'', DIRECT), (''PROXY'', PROXY)]"

definition mihomo_matcher :: "string \<Rightarrow> client_matcher option" where
  "mihomo_matcher = map_of [(''DOMAIN'', CDomain), (''DOMAIN-SUFFIX'', CSuffix), (''DOMAIN-KEYWORD'', CKeyword),
     (''DOMAIN-REGEX'', CRegex), (''IP-CIDR'', CCidr), (''IP-CIDR6'', CCidr), (''GEOIP'', CGeoip)]"

definition read_mihomo :: "string \<Rightarrow> client_entry option" where
  "read_mihomo s =
     (if s = mihomo_quic_reject then Some NoQuic
      else if s = mihomo_ipv6_reject then Some NoIpv6
      else if before_comma s = ''MATCH'' then map_option Anything (mihomo_action (after_comma s))
      else (case (mihomo_matcher (before_comma s), mihomo_action (rev (before_comma (rev s)))) of
              (Some m, Some a) \<Rightarrow> Some (said m (rev (after_comma (rev (after_comma s)))) a)
            | _ \<Rightarrow> None))"

text \<open>How Xray reads a field rule.\<close>

definition xray_action :: "(string \<times> json) list \<Rightarrow> route_action option" where
  "xray_action kvs =
     (if json_get ''balancerTag'' kvs = Some (JStr ''proxy'') then Some PROXY
      else if json_get ''outboundTag'' kvs = Some (JStr ''direct'') then Some DIRECT
      else if json_get ''outboundTag'' kvs = Some (JStr ''block'') then Some BLOCK
      else None)"

definition xray_domain :: "string \<Rightarrow> client_matcher \<times> string" where
  "xray_domain s =
     (if starts_with s ''full:'' then (CDomain, drop 5 s)
      else if starts_with s ''regexp:'' then (CRegex, drop 7 s)
      else if starts_with s ''domain:'' then (CSuffix, drop 7 s)
      else (CKeyword, s))"

definition xray_ip :: "string \<Rightarrow> client_matcher \<times> string" where
  "xray_ip s = (if starts_with s ''geoip:'' then (CGeoip, drop 6 s) else (CCidr, s))"

definition xray_match :: "(string \<times> json) list \<Rightarrow> (client_matcher \<times> string) option" where
  "xray_match kvs =
     (case (json_get ''ip'' kvs, json_get ''domain'' kvs) of
        (Some (JArr [JStr s]), None) \<Rightarrow> Some (xray_ip s)
      | (None, Some (JArr [JStr s])) \<Rightarrow> Some (xray_domain s)
      | _ \<Rightarrow> None)"

definition read_xray :: "json \<Rightarrow> client_entry option" where
  "read_xray j =
     (if j = xray_quic_reject then Some NoQuic
      else case j of
        JObj kvs \<Rightarrow>
          (case xray_action kvs of
             None \<Rightarrow> None
           | Some a \<Rightarrow>
               if json_get ''network'' kvs = Some (JStr ''tcp,udp'') then Some (Anything a)
               else map_option (\<lambda>(m, v). said m v a) (xray_match kvs))
      | _ \<Rightarrow> None)"

text \<open>How sing-box reads a route rule, and the outbound of everything else.\<close>

definition sing_box_fields :: "(string \<times> client_matcher) list" where
  "sing_box_fields = [(''domain'', CDomain), (''domain_suffix'', CSuffix), (''domain_keyword'', CKeyword),
     (''domain_regex'', CRegex), (''ip_cidr'', CCidr), (''rule_set'', CGeoip)]"

definition tag_action :: "string \<Rightarrow> route_action option" where
  "tag_action = map_of [(''direct'', DIRECT), (''proxy'', PROXY), (''block'', BLOCK)]"

definition sing_box_action :: "(string \<times> json) list \<Rightarrow> route_action option" where
  "sing_box_action kvs =
     (if json_get ''action'' kvs = Some (JStr ''reject'') then Some BLOCK
      else case json_get ''outbound'' kvs of Some (JStr t) \<Rightarrow> tag_action t | _ \<Rightarrow> None)"

definition sing_box_condition :: "(string \<times> json) list \<Rightarrow> (client_matcher \<times> string) option" where
  "sing_box_condition kvs =
     (case filter (\<lambda>(k, m). has_key k kvs) sing_box_fields of
        [(k, m)] \<Rightarrow> (case json_get k kvs of
            Some (JArr [JStr s]) \<Rightarrow> Some (m, if m = CGeoip then drop 6 s else s)
          | _ \<Rightarrow> None)
      | _ \<Rightarrow> None)"

definition read_sing_box :: "json \<Rightarrow> client_entry option" where
  "read_sing_box j =
     (if j = sing_box_quic_reject then Some NoQuic
      else if j = sing_box_ipv6_reject then Some NoIpv6
      else case j of
        JObj kvs \<Rightarrow> (case (sing_box_condition kvs, sing_box_action kvs) of
            (Some (m, v), Some a) \<Rightarrow> Some (said m v a)
          | _ \<Rightarrow> None)
      | _ \<Rightarrow> None)"

definition read_final :: "json \<Rightarrow> client_entry option" where
  "read_final j = (case j of JStr t \<Rightarrow> map_option Anything (tag_action t) | _ \<Rightarrow> None)"

section \<open>Every rule can be read back\<close>

text \<open>Xray tells keywords and addresses from the other values by their prefix.\<close>

definition unprefixed :: "client_rule \<Rightarrow> bool" where
  "unprefixed k \<longleftrightarrow>
     (k_matcher k = CKeyword \<longrightarrow> CHR '':'' \<notin> set (k_value k)) \<and>
     (k_matcher k = CCidr \<longrightarrow> \<not> starts_with (k_value k) ''geoip:'')"

lemma before_comma_append: "CHR '','' \<notin> set t \<Longrightarrow> before_comma (t @ CHR '','' # s) = t"
  by (induction t) (auto simp: before_comma_def)

lemma after_comma_append: "CHR '','' \<notin> set t \<Longrightarrow> after_comma (t @ CHR '','' # s) = s"
  by (induction t) (auto simp: after_comma_def)

lemma last_comma:
  assumes "CHR '','' \<notin> set t"
  shows "rev (before_comma (rev (s @ CHR '','' # t))) = t" "rev (after_comma (rev (s @ CHR '','' # t))) = s"
  using before_comma_append [of "rev t" "rev s"] after_comma_append [of "rev t" "rev s"] assms by simp_all

lemmas comma_simps = before_comma_append after_comma_append last_comma

lemma mihomo_target_read [simp]: "mihomo_action (mihomo_target a) = Some a" "CHR '','' \<notin> set (mihomo_target a)"
  by (cases a; simp add: mihomo_action_def)+

definition mihomo_word :: "client_rule \<Rightarrow> string" where
  "mihomo_word k = (if k_matcher k = CCidr \<and> CHR '':'' \<in> set (rule_value k) then ''IP-CIDR6'' else mihomo_type (k_matcher k))"

lemma mihomo_word_read:
  "mihomo_matcher (mihomo_word k) = Some (k_matcher k)" "CHR '','' \<notin> set (mihomo_word k)"
  "mihomo_word k \<noteq> ''MATCH''" "mihomo_word k \<noteq> ''AND''"
  by (cases "k_matcher k"; simp add: mihomo_word_def mihomo_matcher_def)+

lemma mihomo_rule_text:
  "\<not> is_catch_all k \<Longrightarrow> mihomo_rule k = mihomo_word k @ CHR '','' # rule_value k @ CHR '','' # mihomo_target (rule_action k)"
  by (simp add: mihomo_rule_def mihomo_word_def Let_def)

lemma rejects_read:
  "before_comma mihomo_quic_reject = ''AND''" "rev (before_comma (rev mihomo_ipv6_reject)) = ''no-resolve''"
  by (simp_all add: before_comma_def mihomo_quic_reject_def mihomo_ipv6_reject_def)

lemma mihomo_no_resolve: "mihomo_action ''no-resolve'' = None"
  by (simp add: mihomo_action_def)

lemma read_mihomo_rule: "read_mihomo (mihomo_rule k) = Some (rule_entry k)"
proof (cases "is_catch_all k")
  case True
  then show ?thesis
    by (cases "rule_action k")
       (simp_all add: read_mihomo_def mihomo_rule_def rule_entry_def Let_def mihomo_quic_reject_def mihomo_ipv6_reject_def
          before_comma_def after_comma_def mihomo_action_def)
next
  case False
  let ?t = "mihomo_target (rule_action k)"
  let ?s = "mihomo_word k @ CHR '','' # rule_value k @ CHR '','' # ?t"
  have first: "before_comma ?s = mihomo_word k" "after_comma ?s = rule_value k @ CHR '','' # ?t"
    using mihomo_word_read(2) by (simp_all add: comma_simps)
  have target: "rev (before_comma (rev ?s)) = ?t"
    using last_comma(1) [of ?t "mihomo_word k @ CHR '','' # rule_value k"] by simp
  have v: "rev (after_comma (rev (after_comma ?s))) = rule_value k" using last_comma(2) [of ?t "rule_value k"] first by simp
  have "?s \<noteq> mihomo_quic_reject" using first(1) rejects_read(1) mihomo_word_read(4) by metis
  moreover have "?s \<noteq> mihomo_ipv6_reject"
    using target rejects_read(2) mihomo_target_read(1) [of "rule_action k"] by (metis option.simps(3) mihomo_no_resolve)
  ultimately show ?thesis
    using False first(1) target v mihomo_word_read by (simp add: read_mihomo_def mihomo_rule_text rule_entry_def)
qed

lemma rule_value_cases:
  "rule_value k = (if k_matcher k = CSuffix then strip_dot (k_value k) else k_value k)"
  by (simp add: rule_value_def)

lemma xray_action_target:
  "f \<notin> {''balancerTag'', ''outboundTag''} \<Longrightarrow> xray_action ([(''type'', JStr ''field''), (f, j)] @ xray_target a) = Some a"
  by (cases a) (auto simp: xray_action_def xray_target_def json_get_def)

lemma not_quic: "json_get ''port'' kvs = None \<Longrightarrow> JObj kvs \<noteq> xray_quic_reject"
  by (auto simp: xray_quic_reject_def json_get_def)

lemma read_xray_target:
  assumes "f \<notin> {''type'', ''balancerTag'', ''outboundTag'', ''port''}"
  shows "read_xray (JObj ([(''type'', JStr ''field''), (f, j)] @ xray_target a)) =
     (if f = ''network'' \<and> j = JStr ''tcp,udp'' then Some (Anything a)
      else map_option (\<lambda>(m, v). said m v a) (xray_match ([(''type'', JStr ''field''), (f, j)] @ xray_target a)))"
proof -
  have "json_get ''port'' ([(''type'', JStr ''field''), (f, j)] @ xray_target a) = None"
    using assms by (auto simp: json_get_def xray_target_def)
  then have "JObj ([(''type'', JStr ''field''), (f, j)] @ xray_target a) \<noteq> xray_quic_reject" by (rule not_quic)
  moreover have "xray_action ([(''type'', JStr ''field''), (f, j)] @ xray_target a) = Some a"
    using assms by (intro xray_action_target) simp
  moreover have "json_get ''network'' ([(''type'', JStr ''field''), (f, j)] @ xray_target a) = (if f = ''network'' then Some j else None)"
    by (auto simp: json_get_def xray_target_def)
  ultimately show ?thesis unfolding read_xray_def by simp
qed

lemma xray_match_fields:
  "xray_match ([(''type'', JStr ''field''), (''ip'', JArr [JStr s])] @ xray_target a) = Some (xray_ip s)"
  "xray_match ([(''type'', JStr ''field''), (''domain'', JArr [JStr s])] @ xray_target a) = Some (xray_domain s)"
  by (simp_all add: xray_match_def json_get_def xray_target_def)

lemma starts_with_set: "starts_with s p \<Longrightarrow> set p \<subseteq> set s"
  by (induction s p rule: starts_with.induct) auto

lemma xray_prefixes:
  "xray_domain (''full:'' @ v) = (CDomain, v)" "xray_domain (''regexp:'' @ v) = (CRegex, v)"
  "xray_domain (''domain:'' @ v) = (CSuffix, v)" "xray_ip (''geoip:'' @ v) = (CGeoip, v)"
  "CHR '':'' \<notin> set v \<Longrightarrow> xray_domain v = (CKeyword, v)"
  "\<not> starts_with v ''geoip:'' \<Longrightarrow> xray_ip v = (CCidr, v)"
  using starts_with_set [of v "''full:''"] starts_with_set [of v "''regexp:''"] starts_with_set [of v "''domain:''"]
  by (auto simp: xray_domain_def xray_ip_def)

lemma said_lower: "said CGeoip (to_lower v) a = said CGeoip v a"
  by (simp add: said_def)

lemma read_xray_rule:
  assumes "unprefixed k"
  shows "read_xray (xray_rule k) = Some (rule_entry k)"
proof (cases "is_catch_all k")
  case True
  then show ?thesis
    using read_xray_target [of "''network''" "JStr ''tcp,udp''"] by (simp add: xray_rule_def rule_entry_def Let_def)
next
  case False
  then show ?thesis using assms
    by (cases "k_matcher k")
       (simp_all add: xray_rule_def rule_entry_def Let_def read_xray_target [simplified] xray_match_fields [simplified]
          xray_prefixes [simplified] rule_value_def unprefixed_def)
qed

lemma read_sing_box_rule:
  assumes "\<not> is_catch_all k"
  shows "read_sing_box (sing_box_rule k) = Some (rule_entry k)"
  using assms
  by (cases "k_matcher k"; cases "rule_action k")
     (simp_all add: read_sing_box_def sing_box_rule_def sing_box_match_def rule_entry_def rule_value_def sing_box_quic_reject_def
       sing_box_ipv6_reject_def sing_box_condition_def sing_box_fields_def sing_box_action_def json_get_def has_key_def tag_action_def said_lower)

section \<open>The routes end with their catch-all\<close>

lemma client_matcher_suffix: "client_matcher_of m = CSuffix \<longleftrightarrow> m = SUFFIX"
  by (cases m) (simp_all add: client_matcher_of_def)

lemma sites_no_catch_all:
  assumes "filled sites" "k \<in> set (site_rules r (coalesce (map_get c sites) []))"
  shows "\<not> is_catch_all k"
proof -
  from assms have "dotted (coalesce (map_get c sites) [])" by (cases "map_get c sites") (auto simp: filled_def)
  with assms(2) show ?thesis
    by (auto simp: site_rules_def is_catch_all_def dotted_def in_set_enumerate_eq)
qed

lemma expansion_no_catch_all:
  assumes "filled sites" "rule_key (essence r) \<noteq> rule_key final_essence" "k \<in> set (expansion sites r)"
  shows "\<not> is_catch_all k"
  using assms sites_no_catch_all
  by (auto simp: expansion_def is_catch_all_def client_rule_def client_matcher_suffix rule_key_def essence_def final_essence_def
      split: if_splits)

lemma one_catch_all:
  assumes "rules_ok rs" "filled sites" "ks = concat (map (expansion sites) rs)"
  shows "\<exists>f. filter is_catch_all ks = [f] \<and> rule_enabled f"
proof -
  from assms(1) have wf: "well_formed (map essence rs)" by (simp add: rules_ok_def)
  then obtain ls mid t where "parts_of rs ls mid t" using parts by blast
  note t = parts_ofD(1,4) [OF this]
  let ?f = "client_rule t"
  have "distinct (map rule_key (map essence rs))" using wf by (simp add: well_formed_def)
  then have "rule_key (essence r) \<noteq> rule_key final_essence" if "r \<in> set (ls @ mid)" for r
    using that t by (auto simp: image_iff)
  then have "\<forall>k\<in>set (concat (map (expansion sites) (ls @ mid))). \<not> is_catch_all k"
    using expansion_no_catch_all [OF assms(2)] by auto
  then have "filter is_catch_all (concat (map (expansion sites) (ls @ mid))) = []" by (simp add: filter_empty_conv)
  moreover have "expansion sites t = [?f]" "is_catch_all ?f" "rule_enabled ?f"
    using t(2) by (auto simp: expansion_def essence_def final_essence_def client_rule_def is_catch_all_def rule_enabled_def client_matcher_of_def)
  moreover have "ks = concat (map (expansion sites) (ls @ mid)) @ expansion sites t" using assms(3) t(1) by simp
  ultimately show ?thesis by simp
qed

section \<open>The rules of a profile\<close>

fun items :: "json \<Rightarrow> json list" where
  "items (JArr xs) = xs"
| "items _ = []"

definition mihomo_reads :: "json \<Rightarrow> client_entry option list" where
  "mihomo_reads p = map (\<lambda>j. case j of JStr s \<Rightarrow> read_mihomo s | _ \<Rightarrow> None) (items (name_of p ''rules''))"

definition xray_reads :: "json \<Rightarrow> client_entry option list" where
  "xray_reads p = map read_xray (items (name_of (name_of p ''routing'') ''rules''))"

definition sing_box_reads :: "json \<Rightarrow> client_entry option list" where
  "sing_box_reads p =
     map read_sing_box (items (name_of (name_of p ''route'') ''rules'')) @ [read_final (name_of (name_of p ''route'') ''final'')]"

abbreviation enabled_routes :: "subscription_context \<Rightarrow> client_rule list" where
  "enabled_routes cx \<equiv> filter rule_enabled (sx_routes cx)"

lemma mihomo_profile_rules:
  "mihomo_profile ps K st cx = Ok p \<Longrightarrow> name_of p ''rules'' = texts (mihomo_rules (context_network cx) (enabled_routes cx))"
  by (auto simp: mihomo_profile_def Let_def name_of_def json_get_def)

lemma xray_profile_rules:
  "xray_profile ps st cx = Ok p \<Longrightarrow> name_of (name_of p ''routing'') ''rules'' = JArr (xray_rules (context_network cx) (enabled_routes cx))"
  by (auto simp: xray_profile_def Let_def name_of_def json_get_def)

lemma sing_box_profile_rules:
  "sing_box_profile ps K st cx = Ok p \<Longrightarrow>
     name_of (name_of p ''route'') ''rules'' = JArr (sing_box_rules (context_network cx) (enabled_routes cx)) \<and>
     name_of (name_of p ''route'') ''final'' = JStr (catch_all_outbound (enabled_routes cx))"
  by (auto simp: sing_box_profile_def Let_def name_of_def json_get_def)

lemma mihomo_reads_rules:
  "mihomo_profile ps K st cx = Ok p \<Longrightarrow> mihomo_reads p = map Some (decision_list (context_network cx) (sx_routes cx))"
  using mihomo_no_resolve
  by (simp add: mihomo_reads_def mihomo_profile_rules texts_def mihomo_rules_def decision_list_def Let_def read_mihomo_rule comp_def)
     (simp add: read_mihomo_def mihomo_quic_reject_def mihomo_ipv6_reject_def)

lemma xray_rejects_read: "read_xray xray_ipv6_reject = Some NoIpv6" "read_xray xray_quic_reject = Some NoQuic"
  by (simp_all add: read_xray_def xray_ipv6_reject_def xray_quic_reject_def xray_action_def json_get_def xray_match_def xray_ip_def said_def)

lemma xray_reads_rules:
  assumes "xray_profile ps st cx = Ok p" "\<forall>k\<in>set (sx_routes cx). unprefixed k"
  shows "xray_reads p = map Some (decision_list (context_network cx) (sx_routes cx))"
  using assms(2)
  by (auto simp: xray_reads_def xray_profile_rules [OF assms(1)] xray_rules_def decision_list_def Let_def read_xray_rule xray_rejects_read)

lemma sing_box_rejects_read: "read_sing_box sing_box_ipv6_reject = Some NoIpv6" "read_sing_box sing_box_quic_reject = Some NoQuic"
  by (simp_all add: read_sing_box_def sing_box_ipv6_reject_def sing_box_quic_reject_def)

lemma find_filter: "find P xs = (case filter P xs of [] \<Rightarrow> None | x # _ \<Rightarrow> Some x)"
  by (induction xs) auto

lemma sing_box_reads_rules:
  assumes "sing_box_profile ps K st cx = Ok p" "filter is_catch_all (enabled_routes cx) = [f]"
  shows "sing_box_reads p = map Some (decision_list (context_network cx) (sx_routes cx))"
proof -
  from assms(2) have "f \<in> set (filter is_catch_all (enabled_routes cx))" by simp
  then have f: "is_catch_all f" by simp
  have "find is_catch_all (enabled_routes cx) = Some f" using assms(2) by (simp only: find_filter) simp
  then have "read_final (JStr (catch_all_outbound (enabled_routes cx))) = Some (rule_entry f)"
    using f by (cases "rule_action f") (simp_all add: catch_all_outbound_def read_final_def tag_action_def rule_entry_def)
  with assms(2) show ?thesis
    by (simp add: sing_box_reads_def sing_box_profile_rules [OF assms(1)] sing_box_rules_def decision_list_def Let_def
        read_sing_box_rule sing_box_rejects_read cong: map_cong)
qed

section \<open>The published routes\<close>

lemma client_matcher_keyword: "client_matcher_of m \<noteq> CKeyword"
  by (cases m) (simp_all add: client_matcher_of_def)

text \<open>A condition of Xray can only be misread when it is a keyword that holds a colon.\<close>

lemma cidr_unprefixed: "validate_value IP_CIDR v = Ok v \<Longrightarrow> \<not> starts_with v ''geoip:''"
proof
  assume v: "validate_value IP_CIDR v = Ok v" "starts_with v ''geoip:''"
  then obtain t where "v = CHR ''g'' # t" by (cases v) auto
  with cidr_start [of "CHR ''g''" t] v(1) show False by (simp add: stray_def hex_digit_def is_digit_def)
qed

lemma client_matcher_cidr: "client_matcher_of m = CCidr \<longleftrightarrow> m = IP_CIDR"
  by (cases m) (simp_all add: client_matcher_of_def)

definition plain_keywords :: "client_rule list \<Rightarrow> bool" where
  "plain_keywords ks \<longleftrightarrow> (\<forall>k\<in>set ks. k_matcher k = CKeyword \<longrightarrow> CHR '':'' \<notin> set (k_value k))"

lemma expansion_unprefixed:
  assumes "rules_ok rs" "filled sites" "r \<in> set rs" "k \<in> set (expansion sites r)" "k_matcher k = CKeyword \<longrightarrow> CHR '':'' \<notin> set (k_value k)"
  shows "unprefixed k"
proof -
  from assms(1) have "well_formed (map essence rs)" by (simp add: rules_ok_def)
  from well_formed_valid [OF this assms(3)] have v: "validate_value (r_matcher r) (r_value r) = Ok (r_value r)" .
  have site: "k_matcher k \<noteq> CCidr" if "k \<in> set (site_rules r (coalesce (map_get c sites) []))" for c
  proof -
    from assms(2) have "dotted (coalesce (map_get c sites) [])" by (cases "map_get c sites") (auto simp: filled_def)
    with that show ?thesis by (auto simp: site_rules_def dotted_def in_set_enumerate_eq)
  qed
  have "\<not> starts_with (k_value k) ''geoip:''" if "k_matcher k = CCidr"
    using assms(4) that v site cidr_unprefixed by (auto simp: expansion_def client_rule_def client_matcher_cidr split: if_splits)
  with assms(5) show ?thesis by (simp add: unprefixed_def)
qed

lemma routes_unprefixed:
  assumes "rules_ok rs" "filled sites" "ks = concat (map (expansion sites) rs)" "plain_keywords ks"
  shows "\<forall>k\<in>set ks. unprefixed k"
  using assms expansion_unprefixed [OF assms(1,2)] by (fastforce simp: plain_keywords_def)

lemma plain_expansion: "\<forall>r\<in>set rs. r_matcher r \<noteq> GEOSITE \<Longrightarrow> plain_keywords (concat (map (expansion sites) rs))"
  by (auto simp: plain_keywords_def expansion_def client_rule_def client_matcher_keyword)


definition sample_keys :: key_functions where
  "sample_keys = \<lparr>kf_hmac = (\<lambda>key text. take 32 (key @ text @ replicate 32 (CHR ''k''))), kf_x25519 = rev\<rparr>"

definition sample_paths :: path_config where
  "sample_paths = \<lparr>xhttp_path = ''/x'', grpc_service = ''g''\<rparr>"

definition sample_site :: panel_site where
  "sample_site = \<lparr>si_domain = ''vpn.example'', si_public_ip = ''203.0.113.7'', si_origin = ''https://vpn.example'',
     si_server = \<lparr>aw_private_key = ''server'', aw_header_key = ''header''\<rparr>\<rparr>"

definition sample_credentials :: credential_set where
  "sample_credentials = \<lparr>cs_connection_id = ''a'', cs_serial = 1, cs_generation = 2,
     cs_hysteria = HysteriaSecret ''a.2'' ''secret'', cs_xray = XraySecret ''uuid'' ''a@outpost''\<rparr>"

definition sample_context :: "client_rule list \<Rightarrow> subscription_context" where
  "sample_context ks = \<lparr>sx_methods = Some (default_methods [Hysteria, Xray] sample_paths), sx_profile = None, sx_name = ''Phone'',
     sx_serial = 1, sx_credentials = sample_credentials, sx_routes = ks, sx_token = ''token'', sx_engine_order = [Hysteria, Xray],
     sx_platform = [], sx_link_client = [], sx_protocols = None, sx_engines = None, sx_network = None\<rparr>"

lemma sample_profiles:
  "\<exists>p. mihomo_profile sample_paths sample_keys sample_site (sample_context ks) = Ok p"
  "\<exists>p. xray_profile sample_paths sample_site (sample_context ks) = Ok p"
  "\<exists>p. sing_box_profile sample_paths sample_keys sample_site (sample_context ks) = Ok p"
proof -
  let ?ms = "default_methods [Hysteria, Xray] sample_paths"
  have "subscription_methods sample_paths (sample_context ks) FMihomo = Ok ?ms"
    "subscription_methods sample_paths (sample_context ks) FXrayJson = Ok (tl ?ms)"
    "subscription_methods sample_paths (sample_context ks) FSingBox = Ok [hd ?ms, last ?ms]"
    by (simp_all add: subscription_methods_def sample_context_def context_profile_def compatible_methods_def default_methods_def default_method_def)
  moreover have "\<exists>js. map_result (mihomo_outbound sample_keys sample_site (sample_context ks)) ?ms = Ok js"
    by (simp add: default_methods_def default_method_def mihomo_outbound_def)
  ultimately show "\<exists>p. mihomo_profile sample_paths sample_keys sample_site (sample_context ks) = Ok p"
    "\<exists>p. xray_profile sample_paths sample_site (sample_context ks) = Ok p"
    "\<exists>p. sing_box_profile sample_paths sample_keys sample_site (sample_context ks) = Ok p"
    by (auto simp: mihomo_profile_def xray_profile_def sing_box_profile_def Let_def)
qed


section \<open>The outbounds of a profile\<close>

definition names_of :: "string \<Rightarrow> json list \<Rightarrow> json list" where
  "names_of k xs = map (\<lambda>x. name_of x k) xs"

definition outbounds_of :: "json \<Rightarrow> json list" where
  "outbounds_of p = names_of ''tag'' (items (name_of p ''outbounds''))"

text \<open>The outbounds that the rules name.\<close>

definition named_by :: "string \<Rightarrow> json list \<Rightarrow> json set" where
  "named_by k rules = {t. t \<noteq> JNull \<and> t \<in> set (names_of k rules)}"

definition default_ids :: "conn_method list \<Rightarrow> bool" where
  "default_ids ms \<longleftrightarrow> (\<forall>m\<in>set ms. is_default_method m \<longrightarrow> m_protocol m \<in> set (engine_protocols (m_engine m)))"

lemma method_tag_inj:
  assumes "default_ids ms" "m \<in> set ms" "n \<in> set ms" "method_tag m = method_tag n"
  shows "m_id m = m_id n"
proof -
  have plain: "method_tag m = (if m_protocol m = Grpc then ''vless-grpc'' else protocol_key (m_protocol m))" if "is_default_method m" for m
    using that by (simp add: method_tag_def)
  have custom: "method_tag m = ''method-'' @ m_id m" if "\<not> is_default_method m" for m
    using that by (simp add: method_tag_def)
  have mixed: "(if p = Grpc then ''vless-grpc'' else protocol_key p) \<noteq> ''method-'' @ i" for p i
    by (cases p) simp_all
  have same: "p = q" if "(if p = Grpc then ''vless-grpc'' else protocol_key p) = (if q = Grpc then ''vless-grpc'' else protocol_key q)" for p q
    using that by (cases p; cases q) simp_all
  show ?thesis
  proof (cases "is_default_method m"; cases "is_default_method n")
    assume d: "is_default_method m" "is_default_method n"
    have p: "m_protocol m = m_protocol n" using assms(4) unfolding plain [OF d(1)] plain [OF d(2)] by (rule same)
    have "m_engine m = default_engine (m_protocol m)" "m_engine n = default_engine (m_protocol n)"
      using assms(1) [unfolded default_ids_def, rule_format] protocol_engine_unique assms(2,3) d by blast+
    with d p show ?thesis by (simp add: is_default_method_def)
  next
    assume "is_default_method m" "\<not> is_default_method n"
    with mixed plain custom assms(4) show ?thesis by metis
  next
    assume "\<not> is_default_method m" "is_default_method n"
    with mixed plain custom assms(4) show ?thesis by metis
  next
    assume "\<not> is_default_method m" "\<not> is_default_method n"
    with custom assms(4) show ?thesis by simp
  qed
qed

lemma method_tag_free: "method_tag m \<notin> {''proxy'', ''direct'', ''block''}"
  by (cases "m_protocol m") (simp_all add: method_tag_def)

lemma selected_methods:
  assumes "subscription_methods ps cx f = Ok ms" "sx_methods cx = Some all"
  shows "ms \<noteq> []" "set ms \<subseteq> set all" "distinct (map m_id all) \<Longrightarrow> distinct (map m_id ms)"
proof -
  have ms: "ms \<noteq> []" "ms = compatible_methods all (context_profile cx f) (coalesce (sx_engines cx) [Hysteria, Xray]) (sx_protocols cx)"
    using assms by (auto simp: subscription_methods_def Let_def split: if_splits)
  then show "ms \<noteq> []" "set ms \<subseteq> set all" "distinct (map m_id all) \<Longrightarrow> distinct (map m_id ms)"
    by (auto simp: compatible_methods_def distinct_map_filter)
qed

lemma mihomo_outbound_name: "mihomo_outbound K st cx m = Ok j \<Longrightarrow> name_of j ''name'' = JStr (m_name m)"
  by (auto simp: mihomo_outbound_def Let_def name_of_def json_get_def amnezia_proxy_def map_get_def [symmetric] split: if_splits)

lemma mihomo_outbound_names:
  "map_result (mihomo_outbound K st cx) ms = Ok js \<Longrightarrow> names_of ''name'' js = map (\<lambda>m. JStr (m_name m)) ms"
  by (induction ms arbitrary: js) (auto simp: names_of_def mihomo_outbound_name)

lemma sing_box_outbound_tag: "name_of (sing_box_outbound K st cx m) ''tag'' = JStr (method_tag m)"
  by (auto simp: sing_box_outbound_def Let_def name_of_def json_get_def)

lemma xray_outbound_tag:
  "\<exists>s. name_of (xray_outbound st cx m) ''tag'' = JStr (''proxy-'' @ s)"
  by (simp add: xray_outbound_def Let_def name_of_def json_get_def)

lemma sing_box_rule_outbound:
  "name_of j ''outbound'' \<in> {JNull, JStr ''direct'', JStr ''proxy''}" if "j \<in> set (sing_box_rules nw ks)"
  using that
  by (auto simp: sing_box_rules_def sing_box_rule_def sing_box_match_def name_of_def json_get_def sing_box_ipv6_reject_def
      sing_box_quic_reject_def split: if_splits client_matcher.splits)

lemma xray_rule_target:
  assumes "j \<in> set (xray_rules nw ks)"
  shows "name_of j ''outboundTag'' \<in> {JNull, JStr ''direct'', JStr ''block''}" "name_of j ''balancerTag'' \<in> {JNull, JStr ''proxy''}"
  using assms
  by (auto simp: xray_rules_def xray_rule_def xray_target_def name_of_def json_get_def xray_ipv6_reject_def
      xray_quic_reject_def Let_def split: if_splits)

lemma name_of_simps:
  "name_of (JObj kvs) k = coalesce (json_get k kvs) JNull"
  "json_get k ((k', v) # kvs) = (if k = k' then Some v else json_get k kvs)" "json_get k [] = None"
  by (auto simp: name_of_def json_get_def)

lemma mihomo_profile_shape:
  assumes "mihomo_profile ps K st cx = Ok p"
  shows "\<exists>sel js. subscription_methods ps cx FMihomo = Ok sel \<and> map_result (mihomo_outbound K st cx) sel = Ok js \<and>
     name_of p ''proxies'' = JArr js \<and>
     (\<exists>g. name_of p ''proxy-groups'' = JArr [g] \<and> name_of g ''name'' = JStr ''PROXY'' \<and> name_of g ''proxies'' = JArr (names_of ''name'' js))"
  using assms by (auto simp: mihomo_profile_def Let_def name_of_simps names_of_def)

lemma xray_profile_shape:
  assumes "xray_profile ps st cx = Ok p"
  shows "\<exists>sel. subscription_methods ps cx FXrayJson = Ok sel \<and>
     outbounds_of p = names_of ''tag'' (map (xray_outbound st cx) sel) @ [JStr ''direct'', JStr ''block''] \<and>
     names_of ''tag'' (items (name_of (name_of p ''routing'') ''balancers'')) = [JStr ''proxy'']"
  using assms by (auto simp: xray_profile_def Let_def name_of_simps names_of_def outbounds_of_def)

lemma sing_box_profile_shape:
  assumes "sing_box_profile ps K st cx = Ok p"
  shows "\<exists>sel. subscription_methods ps cx FSingBox = Ok sel \<and>
     outbounds_of p = map (\<lambda>m. JStr (method_tag m)) sel @ [JStr ''proxy'', JStr ''direct'']"
  using assms sing_box_outbound_tag by (auto simp: sing_box_profile_def Let_def name_of_simps names_of_def outbounds_of_def)

lemma distinct_by_id:
  assumes "distinct (map m_id sel)" and same: "\<And>m n. m \<in> set sel \<Longrightarrow> n \<in> set sel \<Longrightarrow> f m = f n \<Longrightarrow> m_id m = m_id n"
  shows "distinct (map f sel)"
proof -
  have "inj_on f (set sel)"
  proof (rule inj_onI)
    fix m n assume "m \<in> set sel" "n \<in> set sel" "f m = f n"
    with same assms(1) show "m = n" by (metis distinct_map inj_on_eq_iff)
  qed
  with assms(1) show ?thesis by (simp add: distinct_map)
qed

lemma mihomo_closed:
  assumes "methods_ok ps ms" "sx_methods cx = Some ms" "mihomo_profile ps K st cx = Ok p"
  shows "distinct (names_of ''name'' (items (name_of p ''proxies'')))"
    "set (names_of ''name'' (items (name_of p ''proxies''))) \<inter> JStr ` {''PROXY'', ''DIRECT'', ''REJECT''} = {}"
    "\<exists>g. items (name_of p ''proxy-groups'') = [g] \<and> name_of g ''name'' = JStr ''PROXY'' \<and>
       items (name_of g ''proxies'') = names_of ''name'' (items (name_of p ''proxies'')) \<and> items (name_of g ''proxies'') \<noteq> []"
proof -
  obtain sel js where sel: "subscription_methods ps cx FMihomo = Ok sel" "map_result (mihomo_outbound K st cx) sel = Ok js"
    and p: "name_of p ''proxies'' = JArr js"
      "\<exists>g. name_of p ''proxy-groups'' = JArr [g] \<and> name_of g ''name'' = JStr ''PROXY'' \<and> name_of g ''proxies'' = JArr (names_of ''name'' js)"
    using mihomo_profile_shape [OF assms(3)] by blast
  note names = mihomo_outbound_names [OF sel(2)] and sub = selected_methods [OF sel(1) assms(2)]
  have pairs: "\<forall>m\<in>set ms. \<forall>n\<in>set ms. m_id m \<noteq> m_id n \<longrightarrow> method_pair_ok m n" and ids: "distinct (map m_id sel)"
    using sub(3) assms(1) by (simp_all add: methods_ok_def)
  have "distinct (map (\<lambda>m. JStr (m_name m)) sel)"
  proof (rule distinct_by_id [OF ids], rule ccontr)
    fix m n assume m: "m \<in> set sel" "n \<in> set sel" "JStr (m_name m) = JStr (m_name n)" "m_id m \<noteq> m_id n"
    with pairs sub(2) have "method_pair_ok m n" by blast
    with m(3) show False by (simp add: method_pair_ok_def)
  qed
  with names p show "distinct (names_of ''name'' (items (name_of p ''proxies'')))" by simp
  have "\<not> reserved_name (m_name m)" if "m \<in> set sel" for m
    using that sub(2) assms(1) by (auto simp: methods_ok_def method_ok_def)
  moreover have "reserved_name ''PROXY''" "reserved_name ''DIRECT''" "reserved_name ''REJECT''" by code_simp+
  ultimately have "m_name m \<notin> {''PROXY'', ''DIRECT'', ''REJECT''}" if "m \<in> set sel" for m
    using that by fastforce
  then show "set (names_of ''name'' (items (name_of p ''proxies''))) \<inter> JStr ` {''PROXY'', ''DIRECT'', ''REJECT''} = {}"
    using names p(1) by fastforce
  show "\<exists>g. items (name_of p ''proxy-groups'') = [g] \<and> name_of g ''name'' = JStr ''PROXY'' \<and>
       items (name_of g ''proxies'') = names_of ''name'' (items (name_of p ''proxies'')) \<and> items (name_of g ''proxies'') \<noteq> []"
    using p names sub(1) by auto
qed

lemma xray_closed:
  assumes "sx_methods cx = Some ms" "xray_profile ps st cx = Ok p"
  shows "\<forall>j\<in>set (items (name_of (name_of p ''routing'') ''rules'')).
     name_of j ''outboundTag'' \<in> insert JNull (set (outbounds_of p)) \<and>
     name_of j ''balancerTag'' \<in> insert JNull (set (names_of ''tag'' (items (name_of (name_of p ''routing'') ''balancers''))))"
    "\<exists>t. JStr (''proxy-'' @ t) \<in> set (outbounds_of p)"
proof -
  obtain sel where sel: "subscription_methods ps cx FXrayJson = Ok sel"
    and p: "outbounds_of p = names_of ''tag'' (map (xray_outbound st cx) sel) @ [JStr ''direct'', JStr ''block'']"
      "names_of ''tag'' (items (name_of (name_of p ''routing'') ''balancers'')) = [JStr ''proxy'']"
    using xray_profile_shape [OF assms(2)] by blast
  show "\<forall>j\<in>set (items (name_of (name_of p ''routing'') ''rules'')).
     name_of j ''outboundTag'' \<in> insert JNull (set (outbounds_of p)) \<and>
     name_of j ''balancerTag'' \<in> insert JNull (set (names_of ''tag'' (items (name_of (name_of p ''routing'') ''balancers''))))"
    using xray_rule_target unfolding xray_profile_rules [OF assms(2)] p items.simps by fastforce
  from selected_methods(1) [OF sel assms(1)] obtain m where "m \<in> set sel" by fastforce
  with xray_outbound_tag [of st cx m] obtain t where "JStr (''proxy-'' @ t) \<in> set (names_of ''tag'' (map (xray_outbound st cx) sel))"
    unfolding names_of_def by force
  with p(1) show "\<exists>t. JStr (''proxy-'' @ t) \<in> set (outbounds_of p)" by auto
qed

lemma sing_box_closed:
  assumes "methods_ok ps ms" "default_ids ms" "sx_methods cx = Some ms" "sing_box_profile ps K st cx = Ok p"
  shows "distinct (outbounds_of p)"
    "\<forall>j\<in>set (items (name_of (name_of p ''route'') ''rules'')). name_of j ''outbound'' \<in> insert JNull (set (outbounds_of p))"
    "name_of (name_of p ''route'') ''final'' \<in> set (outbounds_of p) \<longleftrightarrow>
       map_option rule_action (find is_catch_all (enabled_routes cx)) \<noteq> Some BLOCK"
proof -
  obtain sel where sel: "subscription_methods ps cx FSingBox = Ok sel"
    and p: "outbounds_of p = map (\<lambda>m. JStr (method_tag m)) sel @ [JStr ''proxy'', JStr ''direct'']"
    using sing_box_profile_shape [OF assms(4)] by blast
  note rules = sing_box_profile_rules [OF assms(4)] and sub = selected_methods [OF sel assms(3)]
  have "distinct (map m_id sel)" using sub(3) assms(1) by (simp add: methods_ok_def)
  then have "distinct (map (\<lambda>m. JStr (method_tag m)) sel)"
    by (rule distinct_by_id) (use method_tag_inj [OF assms(2)] sub(2) in blast)
  with method_tag_free show "distinct (outbounds_of p)" unfolding p by fastforce
  show "\<forall>j\<in>set (items (name_of (name_of p ''route'') ''rules'')). name_of j ''outbound'' \<in> insert JNull (set (outbounds_of p))"
    using sing_box_rule_outbound rules p by fastforce
  have "JStr ''block'' \<notin> set (outbounds_of p)" using method_tag_free unfolding p by fastforce
  moreover have "JStr ''proxy'' \<in> set (outbounds_of p)" "JStr ''direct'' \<in> set (outbounds_of p)" unfolding p by simp_all
  ultimately show "name_of (name_of p ''route'') ''final'' \<in> set (outbounds_of p) \<longleftrightarrow>
       map_option rule_action (find is_catch_all (enabled_routes cx)) \<noteq> Some BLOCK"
    unfolding rules [THEN conjunct2] catch_all_outbound_def by (auto split: option.split route_action.split)
qed


definition blocking_route :: client_rule where
  "blocking_route = client_rule (default_rule sample_ids 0 0 (BLOCK, SUFFIX, ''*''))"


section \<open>Addresses of AmneziaWG\<close>

lemma split_on_append: "c \<notin> set a \<Longrightarrow> split_on c (a @ c # b) = a # split_on c b"
  by (induction a) auto

lemma show_nat_plain: "CHR ''.'' \<notin> set (show_nat n)" "CHR ''/'' \<notin> set (show_nat n)"
  using show_nat_digits [of n] by (auto simp: list_all_iff is_digit_def)

lemma amnezia_prefix: "number_of ''10'' = 10" "number_of ''78'' = 78"
  by code_simp+

lemma amnezia_octets: "native_octets (amnezia_address n) = [10, 78, (n + 1) div 256, (n + 1) mod 256]"
proof -
  have host: "hd (split_on (CHR 0x2F) (amnezia_address n)) = ''10.78.'' @ show_nat ((n + 1) div 256) @ CHR ''.'' # show_nat ((n + 1) mod 256)"
    using split_on_append [of "CHR 0x2F" "''10.78.'' @ show_nat ((n + 1) div 256) @ CHR ''.'' # show_nat ((n + 1) mod 256)" "''32''"]
    by (simp add: amnezia_address_def show_nat_plain)
  show ?thesis
    unfolding native_octets_def host
    by (simp add: split_on_append split_on_fresh show_nat_plain amnezia_prefix)
qed

lemma amnezia_address_inj: "amnezia_address m = amnezia_address n \<longleftrightarrow> m = n"
proof
  assume "amnezia_address m = amnezia_address n"
  then have "native_octets (amnezia_address m) = native_octets (amnezia_address n)" by simp
  then have "(m + 1) div 256 * 256 + (m + 1) mod 256 = (n + 1) div 256 * 256 + (n + 1) mod 256" by (simp add: amnezia_octets)
  then have "m + 1 = n + 1" by (simp only: div_mult_mod_eq)
  then show "m = n" by simp
qed simp

lemma amnezia_peer_ok:
  assumes "amnezia_peer K c n = Ok p"
  shows "ap_address p = amnezia_address n" "1 \<le> n" "n \<le> 65532"
  using assms by (auto simp: amnezia_peer_def Let_def split: if_splits)

lemma amnezia_peer_total: "1 \<le> n \<Longrightarrow> n \<le> 65532 \<Longrightarrow> \<exists>p. amnezia_peer K c n = Ok p \<and> ap_address p = amnezia_address n"
  by (simp add: amnezia_peer_def Let_def)

lemma native_step:
  assumes "1 \<le> n" "n \<le> 65532"
  shows "native_peers_ok as ks ((k, psk, amnezia_address n) # ps) \<longleftrightarrow>
     amnezia_address n \<notin> set as \<and> k \<notin> set ks \<and> native_peers_ok (amnezia_address n # as) (k # ks) ps"
proof -
  have "(n + 1) div 256 \<le> 255" "(n + 1) mod 256 \<le> 255" using assms by simp_all
  moreover have "\<not> ((n + 1) div 256 = 0 \<and> (n + 1) mod 256 < 2)" using assms by (simp add: div_eq_0_iff)
  ultimately show ?thesis by (auto simp: amnezia_octets)
qed

lemma native_peers:
  assumes "amnezia_peers K cs = Ok ps" "distinct (map cs_serial cs)" "amnezia_address ` cs_serial ` set cs \<inter> set as = {}"
  shows "native_peers_ok as ks ps \<longleftrightarrow> distinct (map fst ps) \<and> fst ` set ps \<inter> set ks = {}"
  using assms
proof (induction cs arbitrary: ps as ks)
  case (Cons c cs)
  then obtain p qs where p: "amnezia_peer K c (cs_serial c) = Ok p" "amnezia_peers K cs = Ok qs"
    "ps = (ap_public_key p, ap_preshared_key p, ap_address p) # qs" by (auto simp: amnezia_peers_def)
  note peer = amnezia_peer_ok [OF p(1)]
  have fresh: "amnezia_address (cs_serial c) \<notin> set as" "amnezia_address ` cs_serial ` set cs \<inter> set (amnezia_address (cs_serial c) # as) = {}"
    using Cons.prems(2,3) by (auto simp: amnezia_address_inj)
  have "native_peers_ok (amnezia_address (cs_serial c) # as) (ap_public_key p # ks) qs \<longleftrightarrow>
      distinct (map fst qs) \<and> fst ` set qs \<inter> set (ap_public_key p # ks) = {}"
    using Cons.IH [OF p(2) _ fresh(2)] Cons.prems(2) by simp
  then show ?case
    unfolding p(3) peer(1) native_step [OF peer(2,3)] using fresh(1) by auto
qed (simp add: amnezia_peers_def)

lemma amnezia_peers_total: "amnezia_peers K cs = Err e \<Longrightarrow> \<exists>c\<in>set cs. cs_serial c < 1 \<or> 65532 < cs_serial c"
  by (induction cs) (auto simp: amnezia_peers_def amnezia_peer_def Let_def split: if_splits)

text \<open>
  C5.  The snapshot of the AmneziaWG peers is built unless a serial lies outside the 65532
  addresses of the network, and the root agent accepts the snapshot of distinct connections
  exactly when no two peers share a public key: every serial has an address of its own, and none is
  the network's or the server's.
\<close>

theorem amnezia_snapshot_accepted:
  assumes "distinct (map cs_serial cs)"
  shows "case amnezia_peers K cs of
      Inr ps \<Rightarrow> native_peers_ok [] [] ps \<longleftrightarrow> distinct (map fst ps)
    | Inl e \<Rightarrow> \<exists>c\<in>set cs. cs_serial c < 1 \<or> 65532 < cs_serial c"
proof (cases "amnezia_peers K cs")
  case (Inl e)
  with amnezia_peers_total [of K cs e] show ?thesis by simp
next
  case (Inr ps)
  with native_peers [OF Inr assms, of "[]" "[]"] show ?thesis by simp
qed

lemma amnezia_snapshot_accepted_witness:
  "\<exists>ps. amnezia_peers sample_keys [sample_credentials, sample_credentials\<lparr>cs_serial := 65532, cs_generation := 3\<rparr>] = Ok ps \<and>
     map (snd \<circ> snd) ps = [''10.78.0.2/32'', ''10.78.255.253/32''] \<and> (native_peers_ok [] [] ps \<longleftrightarrow> distinct (map fst ps))"
proof -
  let ?cs = "[sample_credentials, sample_credentials\<lparr>cs_serial := 65532, cs_generation := 3\<rparr>]"
  have serials: "cs_serial sample_credentials = 1" by (simp add: sample_credentials_def)
  have a: "amnezia_address 1 = ''10.78.0.2/32''" "amnezia_address 65532 = ''10.78.255.253/32''" by code_simp+
  obtain p where p: "amnezia_peer sample_keys sample_credentials 1 = Ok p" "ap_address p = ''10.78.0.2/32''"
    using amnezia_peer_total [of 1] unfolding a(1) by auto
  obtain q where q: "amnezia_peer sample_keys (sample_credentials\<lparr>cs_serial := 65532, cs_generation := 3\<rparr>) 65532 = Ok q"
      "ap_address q = ''10.78.255.253/32''"
    using amnezia_peer_total [of 65532] unfolding a(2) by auto
  from amnezia_snapshot_accepted [of ?cs sample_keys] p q serials show ?thesis by (simp add: amnezia_peers_def)
qed

end
