(* ===== verification/Presets.thy ===== *)
theory Presets
  imports Engines Js_Map "HOL-Library.List_Lexorder" "HOL-Library.Char_ord"
begin

text \<open>
  The presets of the engines and their three-way merge
  (src/src/server/adapters/engine-presets.ts).

  A template is the JSON value it stands for: the reading and writing of JSON and YAML belongs
  to their libraries and is a parameter of \<open>merge_engine_preset\<close>.  A value of an object is
  found by its first key; the libraries never build an object with a repeated key.  Keys that
  look like numbers are not moved to the front of an object, as JavaScript does.
\<close>

section \<open>Values\<close>

text \<open>
  \<open>stable\<close> writes a value with the keys of its objects sorted.  The text is only compared with
  other texts of its kind, so that the value with sorted keys stands for it; the order of
  the keys does not matter as long as it tells different keys apart.
\<close>

fun stable_value :: "json \<Rightarrow> json" where
  "stable_value (JArr xs) = JArr (map stable_value xs)"
| "stable_value (JObj kvs) = JObj (sort_key fst (map (\<lambda>(k, v). (k, stable_value v)) kvs))"
| "stable_value JNull = JNull"
| "stable_value (JBool b) = JBool b"
| "stable_value (JNum n) = JNum n"
| "stable_value (JStr s) = JStr s"

text \<open>A value or \<open>missing\<close>, which is \<open>None\<close>.\<close>

definition equal :: "json option \<Rightarrow> json option \<Rightarrow> bool" where
  "equal x y \<longleftrightarrow> map_option stable_value x = map_option stable_value y"

fun is_object :: "json \<Rightarrow> bool" where
  "is_object (JObj kvs) = True"
| "is_object _ = False"

fun entries :: "json \<Rightarrow> (string \<times> json) list" where
  "entries (JObj kvs) = kvs"
| "entries _ = []"

fun escape_path :: "string \<Rightarrow> string" where
  "escape_path [] = []"
| "escape_path (c # cs) =
     (if c = CHR ''~'' then ''~0'' else if c = CHR ''/'' then ''~1'' else [c]) @ escape_path cs"

definition child_path :: "string \<Rightarrow> string \<Rightarrow> string" where
  "child_path path key = path @ ''/'' @ escape_path key"

section \<open>Conflicts\<close>

datatype reason = BothChanged | SameArrayKeyAdded

record preset_conflict =
  pc_path :: string
  pc_reason :: reason
  pc_base :: "json option"
  pc_user :: "json option"
  pc_preset :: "json option"

definition the_conflict :: "string \<Rightarrow> json option \<Rightarrow> json option \<Rightarrow> json option \<Rightarrow> reason \<Rightarrow> preset_conflict" where
  "the_conflict path b u p r =
     \<lparr>pc_path = (if path = [] then ''/'' else path), pc_reason = r, pc_base = b, pc_user = u, pc_preset = p\<rparr>"

section \<open>Arrays\<close>

definition key_of :: "string \<Rightarrow> json \<Rightarrow> string option" where
  "key_of k j = (case json_get k (entries j) of Some (JStr s) \<Rightarrow> Some s | _ \<Rightarrow> None)"

definition keyed_by :: "string \<Rightarrow> json list \<Rightarrow> bool" where
  "keyed_by k xs \<longleftrightarrow> (\<forall>x\<in>set xs. key_of k x \<noteq> None) \<and> distinct (map (key_of k) xs)"

definition array_key :: "json list list \<Rightarrow> string option" where
  "array_key groups =
     (let values = concat groups
      in if values = [] \<or> \<not> list_all is_object values then None
         else find (\<lambda>k. \<forall>g\<in>set groups. keyed_by k g) [''tag'', ''name'', ''id''])"

definition keyed :: "string \<Rightarrow> json list \<Rightarrow> (string, json) js_map" where
  "keyed k xs = map (\<lambda>x. (the (key_of k x), x)) xs"

text \<open>Arrays without a key are merged as sets of values, in the order of the user.\<close>

fun add_new :: "json list \<Rightarrow> json list \<Rightarrow> json list" where
  "add_new seen [] = []"
| "add_new seen (x # xs) = (if stable_value x \<in> set seen then add_new seen xs else x # add_new (stable_value x # seen) xs)"

definition merge_values :: "json list \<Rightarrow> json list \<Rightarrow> json list \<Rightarrow> json list" where
  "merge_values b u p =
     (let kept = filter (\<lambda>x. \<not> (stable_value x \<in> set (map stable_value b) \<and> stable_value x \<notin> set (map stable_value p))) u
      in kept @ add_new (map stable_value b @ map stable_value kept) p)"

section \<open>The merge\<close>

fun osize :: "json option \<Rightarrow> nat" where
  "osize None = 0"
| "osize (Some j) = size j"

lemma size_entry: "(k, v) \<in> set kvs \<Longrightarrow> size v < size (JObj kvs)"
  by (induction kvs) auto

lemma size_item: "x \<in> set xs \<Longrightarrow> size x < size (JArr xs)"
  by (induction xs) auto

lemma size_positive: "0 < size (JObj kvs)" "0 < size (JArr xs)"
  by simp_all

lemma osize_get: "osize (map_of kvs k) < size (JObj kvs)"
  using size_entry [of k _ kvs] size_positive by (cases "map_of kvs k") (auto simp del: json.size dest: map_of_SomeD)

lemma osize_base: "coalesce b (JObj []) = JObj bs \<Longrightarrow> osize (map_of bs k) \<le> osize b"
  using osize_get [of bs k] by (cases b) auto

lemma keyed_item: "map_of (keyed k xs) i = Some v \<Longrightarrow> v \<in> set xs"
  by (auto simp: keyed_def dest: map_of_SomeD)

lemma osize_keyed: "osize (map_of (keyed k xs) i) < size (JArr xs)"
  using keyed_item [of k xs i] size_item [of _ xs] size_positive by (cases "map_of (keyed k xs) i") (auto simp del: json.size)

lemma osize_keyed_base: "coalesce b (JArr []) = JArr bs \<Longrightarrow> osize (map_of (keyed k bs) i) \<le> osize b"
  using osize_keyed [of k bs i] by (cases b) (auto simp: keyed_def)

text \<open>The ids of a keyed array: those of the user, then those that only the preset has.\<close>

definition merge_order :: "string \<Rightarrow> json list \<Rightarrow> json list \<Rightarrow> string list" where
  "merge_order k u p =
     (let users = js_distinct (map_keys (keyed k u))
      in users @ filter (\<lambda>i. i \<notin> set users) (js_distinct (map_keys (keyed k p))))"

definition item_path :: "string \<Rightarrow> string \<Rightarrow> string \<Rightarrow> string" where
  "item_path path key i = (if path = [] then ''/'' else path) @ ''['' @ key @ ''='' @ escape_path i @ '']''"

text \<open>The result \<open>None\<close> is \<open>missing\<close>; the conflicts come in the order they are found.\<close>

text \<open>A base that is missing counts as an empty object or array; the other two must be there.\<close>

definition all_objects ::
  "json option \<Rightarrow> json option \<Rightarrow> json option \<Rightarrow> ((string \<times> json) list \<times> (string \<times> json) list \<times> (string \<times> json) list) option" where
  "all_objects b u p =
     (case (coalesce b (JObj []), u, p) of
        (JObj bs, Some (JObj us), Some (JObj ps)) \<Rightarrow> Some (bs, us, ps) | _ \<Rightarrow> None)"

definition all_arrays :: "json option \<Rightarrow> json option \<Rightarrow> json option \<Rightarrow> (json list \<times> json list \<times> json list) option" where
  "all_arrays b u p =
     (case (coalesce b (JArr []), u, p) of
        (JArr bs, Some (JArr us), Some (JArr ps)) \<Rightarrow> Some (bs, us, ps) | _ \<Rightarrow> None)"

lemma all_objects_Some:
  "all_objects b u p = Some (bs, us, ps) \<longleftrightarrow> coalesce b (JObj []) = JObj bs \<and> u = Some (JObj us) \<and> p = Some (JObj ps)"
  by (auto simp: all_objects_def split: json.splits option.splits)

lemma all_arrays_Some:
  "all_arrays b u p = Some (bs, us, ps) \<longleftrightarrow> coalesce b (JArr []) = JArr bs \<and> u = Some (JArr us) \<and> p = Some (JArr ps)"
  by (auto simp: all_arrays_def split: json.splits option.splits)

lemma object_sizes:
  "all_objects b u p = Some (bs, us, ps) \<Longrightarrow>
     osize (map_of bs k) + osize (map_of us k) + osize (map_of ps k) < osize b + osize u + osize p"
  using osize_get [of us k] osize_get [of ps k] osize_base [of b bs k] by (auto simp: all_objects_Some simp del: json.size)

lemma array_sizes:
  "all_arrays b u p = Some (bs, us, ps) \<Longrightarrow>
     osize (map_of (keyed k bs) i) + osize (map_of (keyed k us) i) + osize (map_of (keyed k ps) i) < osize b + osize u + osize p"
  using osize_keyed [of k us i] osize_keyed [of k ps i] osize_keyed_base [of b bs k i] by (auto simp: all_arrays_Some simp del: json.size)

function merge_value :: "json option \<Rightarrow> json option \<Rightarrow> json option \<Rightarrow> string \<Rightarrow> json option \<times> preset_conflict list" where
  "merge_value b u p path =
     (if equal u b then (p, [])
      else if equal p b \<or> equal u p then (u, [])
      else (case all_objects b u p of
              Some (bs, us, ps) \<Rightarrow>
                (let found = map (\<lambda>k. (k, merge_value (map_of bs k) (map_of us k) (map_of ps k) (child_path path k)))
                       (js_distinct (map fst bs @ map fst us @ map fst ps))
                 in (Some (JObj (List.map_filter (\<lambda>(k, v, cs). map_option (Pair k) v) found)), concat (map (snd \<circ> snd) found)))
            | None \<Rightarrow>
              (case all_arrays b u p of
                 Some (bs, us, ps) \<Rightarrow>
                   (case array_key [bs, us, ps] of
                      None \<Rightarrow> (Some (JArr (merge_values bs us ps)), [])
                    | Some key \<Rightarrow>
                        (let found = map (\<lambda>i.
                               (let bv = map_of (keyed key bs) i; uv = map_of (keyed key us) i; pv = map_of (keyed key ps) i
                                in if bv = None \<and> uv \<noteq> None \<and> pv \<noteq> None \<and> \<not> equal uv pv
                                   then (uv, [the_conflict (item_path path key i) bv uv pv SameArrayKeyAdded])
                                   else merge_value bv uv pv (item_path path key i)))
                               (merge_order key us ps)
                         in (Some (JArr (List.map_filter fst found)), concat (map snd found))))
               | None \<Rightarrow> (u, if b = None then [] else [the_conflict path b u p BothChanged]))))"
  by pat_completeness auto

termination
  by (relation "measure (\<lambda>(b, u, p, path). osize b + osize u + osize p)") (simp_all add: object_sizes array_sizes)

declare merge_value.simps [simp del]

section \<open>Writing the merged value over a document\<close>

text \<open>
  \<open>syncYamlDocument\<close> changes the parsed document of the user's template only where the merged
  value differs, so that comments stay.  The document is the value it stands for; at the
  node of a path \<open>before\<close> is the value the node had.
\<close>

definition move_to :: "nat \<Rightarrow> nat \<Rightarrow> 'a list \<Rightarrow> 'a list" where
  "move_to t f xs = (let rest = take f xs @ drop (Suc f) xs in take t rest @ [xs ! f] @ drop t rest)"

definition insert_at :: "nat \<Rightarrow> 'a \<Rightarrow> 'a list \<Rightarrow> 'a list" where
  "insert_at t x xs = take t xs @ [x] @ drop t xs"

fun index_from :: "('a \<Rightarrow> bool) \<Rightarrow> nat \<Rightarrow> 'a list \<Rightarrow> nat option" where
  "index_from P t [] = None"
| "index_from P 0 (x # xs) = (if P x then Some 0 else map_option Suc (index_from P 0 xs))"
| "index_from P (Suc t) (x # xs) = map_option Suc (index_from P t xs)"

text \<open>The item_identity of an item: the text at the key, or the value itself.\<close>

definition item_identity :: "string option \<Rightarrow> json \<Rightarrow> json" where
  "item_identity key x =
     (case key of Some k \<Rightarrow> (case key_of k x of Some s \<Rightarrow> JStr s | None \<Rightarrow> stable_value x) | None \<Rightarrow> stable_value x)"

function sync_value :: "json \<Rightarrow> json \<Rightarrow> json \<Rightarrow> json"
  and sync_fields :: "(string \<times> json) list \<Rightarrow> (string \<times> json) list \<Rightarrow> (string \<times> json) list \<Rightarrow> (string \<times> json) list"
  and sync_items :: "string option \<Rightarrow> nat \<Rightarrow> json list \<Rightarrow> json list \<Rightarrow> json list \<Rightarrow> json list" where
  "sync_value node before after =
     (if equal (Some before) (Some after) then node
      else (case (before, after) of
              (JObj bs, JObj as) \<Rightarrow>
                JObj (sync_fields (filter (\<lambda>(k, v). k \<in> set (map fst bs) \<longrightarrow> k \<in> set (map fst as)) (entries node)) bs as)
            | (JArr bs, JArr as) \<Rightarrow>
                (case node of
                   JArr items \<Rightarrow> JArr (sync_items (array_key [bs, as]) 0 bs items as)
                 | _ \<Rightarrow> after)
            | _ \<Rightarrow> after))"
| "sync_fields node bs [] = node"
| "sync_fields node bs ((k, v) # as) =
     sync_fields
       (map_set k (case (map_of bs k, map_of node k) of (Some b, Some n) \<Rightarrow> sync_value n b v | _ \<Rightarrow> v) node) bs as"
| "sync_items key t current items [] = take t items"
| "sync_items key t current items (a # as) =
     (case index_from (\<lambda>x. item_identity key x = item_identity key a) t current of
        None \<Rightarrow> sync_items key (Suc t) (insert_at t a current) (insert_at t a items) as
      | Some f \<Rightarrow>
          (let current1 = (if f = t then current else move_to t f current); items1 = (if f = t then items else move_to t f items)
           in sync_items key (Suc t) (current1[t := a]) (items1[t := sync_value (items1 ! t) (current1 ! t) a]) as))"
  by pat_completeness auto
termination
  by (relation "measure (\<lambda>x. case x of Inl (n, b, a) \<Rightarrow> 2 * size a + 1 | Inr (Inl (n, b, as)) \<Rightarrow> 2 * size (JObj as)
      | Inr (Inr (k, t, c, i, as)) \<Rightarrow> 2 * size (JArr as))") auto

declare sync_value.simps [simp del]

section \<open>The presets\<close>

text \<open>A placeholder \<open>{{OUTPOST_X}}\<close>: in YAML it is read as the text \<open>__OUTPOST_X__\<close>.\<close>

definition block_text :: "string \<Rightarrow> json" where
  "block_text x = JStr (''{{OUTPOST_'' @ x @ ''}}'')"

definition yaml_text :: "string \<Rightarrow> json" where
  "yaml_text x = JStr (''__OUTPOST_'' @ x @ ''__'')"

definition hysteria_head :: "(string \<times> json) list" where
  "hysteria_head =
     [(''listen'', JStr '':443''), (''tls'', JObj [(''cert'', yaml_text ''TLS_CERT''), (''key'', yaml_text ''TLS_KEY'')]),
      (''auth'', JObj [(''type'', JStr ''http''), (''http'', JObj [(''url'', yaml_text ''AUTH_URL'')])]),
      (''trafficStats'', JObj [(''listen'', yaml_text ''STATS_LISTEN''), (''secret'', yaml_text ''STATS_SECRET'')])]"

definition hysteria_masquerade :: "string \<times> json" where
  "hysteria_masquerade = (''masquerade'', JObj [(''type'', JStr ''proxy''),
     (''proxy'', JObj [(''url'', JStr ''https://news.ycombinator.com/''), (''rewriteHost'', JBool True)])])"

definition hysteria_preset :: "nat \<Rightarrow> json" where
  "hysteria_preset n =
     JObj (hysteria_head @ (if 2 \<le> n then [(''acl'', JObj [(''inline'', JArr [JStr ''reject(all, udp/443)''])])] else []) @
       [hysteria_masquerade] @ (if 3 \<le> n then [(''speedTest'', JBool True)] else []))"

definition xray_inbound :: "string \<Rightarrow> int \<Rightarrow> string \<Rightarrow> (string \<times> json) list \<Rightarrow> json" where
  "xray_inbound tag port users stream =
     JObj [(''tag'', JStr tag), (''listen'', JStr ''127.0.0.1''), (''port'', JNum port), (''protocol'', JStr ''vless''),
       (''settings'', JObj [(''clients'', block_text users), (''decryption'', JStr ''none'')]), (''streamSettings'', JObj stream)]"

definition xray_head :: "(string \<times> json) list" where
  "xray_head =
     [(''log'', JObj [(''loglevel'', JStr ''warning'')]), (''stats'', block_text ''STATS''),
      (''policy'', JObj [
         (''levels'', JObj [(''0'', JObj [(''statsUserUplink'', JBool True), (''statsUserDownlink'', JBool True)])]),
         (''system'', JObj [(''statsInboundUplink'', JBool True), (''statsInboundDownlink'', JBool True)])]),
      (''api'', block_text ''API''),
      (''inbounds'', JArr [
         xray_inbound ''vless-xhttp'' 10000 ''XHTTP_USERS'' [(''network'', JStr ''xhttp''),
           (''xhttpSettings'', JObj [(''path'', block_text ''XHTTP_PATH''), (''mode'', JStr ''auto'')])],
         xray_inbound ''vless-grpc'' 10001 ''GRPC_USERS'' [(''network'', JStr ''grpc''),
           (''grpcSettings'', JObj [(''serviceName'', block_text ''GRPC_SERVICE'')])]])]"

definition xray_preset :: "nat \<Rightarrow> json" where
  "xray_preset n =
     JObj (xray_head @
       [(''outbounds'', JArr (JObj [(''protocol'', JStr ''freedom''), (''tag'', JStr ''direct'')] #
          (if 2 \<le> n then [JObj [(''protocol'', JStr ''blackhole''), (''tag'', JStr ''block'')]] else [])))] @
       (if 2 \<le> n then [(''routing'', JObj [(''domainStrategy'', JStr ''AsIs''),
          (''rules'', JArr [JObj [(''type'', JStr ''field''), (''network'', JStr ''udp''), (''port'', JNum 443), (''outboundTag'', JStr ''block'')]])])]
        else []))"

definition mihomo_preset :: json where
  "mihomo_preset = JObj [(''mode'', JStr ''rule''), (''log-level'', JStr ''warning''), (''ipv6'', JBool False),
     (''external-controller'', JStr ''127.0.0.1:9097''), (''secret'', yaml_text ''CONTROLLER_SECRET''), (''listeners'', yaml_text ''LISTENERS''),
     (''rules'', JArr [JStr ''IP-CIDR,127.0.0.0/8,REJECT,no-resolve'', JStr ''IP-CIDR,10.0.0.0/8,REJECT,no-resolve'',
        JStr ''IP-CIDR,172.16.0.0/12,REJECT,no-resolve'', JStr ''IP-CIDR,192.168.0.0/16,REJECT,no-resolve'',
        JStr ''AND,((NETWORK,UDP),(DST-PORT,443)),REJECT'', JStr ''MATCH,DIRECT''])]"

definition sing_box_preset :: "nat \<Rightarrow> json" where
  "sing_box_preset n = JObj ([(''log'', JObj [(''level'', JStr ''warn''), (''timestamp'', JBool True)]), (''inbounds'', block_text ''INBOUNDS''),
     (''outbounds'', JArr [JObj [(''type'', JStr ''direct''), (''tag'', JStr ''direct'')]]),
     (''route'', JObj [(''rules'', JArr [JObj [(''ip_is_private'', JBool True), (''action'', JStr ''reject'')],
        JObj [(''network'', JStr ''udp''), (''port'', JNum 443), (''action'', JStr ''reject'')]]), (''final'', JStr ''direct'')])] @
     (if 2 \<le> n then [(''services'', block_text ''API'')] else []))"

definition amnezia_preset :: json where
  "amnezia_preset = JObj [(''server'', block_text ''AWG_SERVER''), (''peers'', block_text ''AWG_PEERS'')]"

fun current_preset :: "engine \<Rightarrow> nat" where
  "current_preset Hysteria = 3"
| "current_preset Xray = 2"
| "current_preset Mihomo = 1"
| "current_preset SingBox = 2"
| "current_preset AmneziaWG = 1"

definition engine_preset :: "engine \<Rightarrow> nat \<Rightarrow> json option" where
  "engine_preset e n =
     (if n < 1 \<or> current_preset e < n then None
      else Some (case e of Hysteria \<Rightarrow> hysteria_preset n | Xray \<Rightarrow> xray_preset n | Mihomo \<Rightarrow> mihomo_preset
                 | SingBox \<Rightarrow> sing_box_preset n | AmneziaWG \<Rightarrow> amnezia_preset))"

definition default_template :: "engine \<Rightarrow> json" where
  "default_template e = the (engine_preset e (current_preset e))"

section \<open>Merging a template\<close>

text \<open>
  How a template is read, and how a merged value is written over the template it came from;
  both may throw.
\<close>

record template_io =
  tio_parse :: "engine \<Rightarrow> string \<Rightarrow> json result"
  tio_write :: "engine \<Rightarrow> string \<Rightarrow> json \<Rightarrow> json \<Rightarrow> string result"

record preset_merge =
  pm_from :: nat
  pm_to :: nat
  pm_template :: string
  pm_changed :: bool
  pm_conflicts :: "preset_conflict list"
  pm_errors :: "failure list"

definition merge_failed :: "engine \<Rightarrow> string \<Rightarrow> nat \<Rightarrow> failure list \<Rightarrow> preset_merge" where
  "merge_failed e template from_version errors =
     \<lparr>pm_from = from_version, pm_to = current_preset e, pm_template = template, pm_changed = False, pm_conflicts = [], pm_errors = errors\<rparr>"

definition merge_engine_preset :: "template_io \<Rightarrow> engine \<Rightarrow> string \<Rightarrow> nat \<Rightarrow> preset_merge" where
  "merge_engine_preset T e template from_version =
     (case engine_preset e from_version of
        None \<Rightarrow> merge_failed e template from_version [Thrown ''preset'']
      | Some base \<Rightarrow>
          if from_version = current_preset e then merge_failed e template from_version []
          else
            (case bind_result (tio_parse T e template) (\<lambda>user.
                    (let m = merge_value (Some base) (Some user) (Some (default_template e)) []
                     in bind_result (tio_write T e template user (coalesce (fst m) JNull)) (\<lambda>text. Ok (text, snd m)))) of
               Inl err \<Rightarrow> merge_failed e template from_version [err]
             | Inr (text, conflicts) \<Rightarrow>
                 \<lparr>pm_from = from_version, pm_to = current_preset e, pm_template = text, pm_changed = (text \<noteq> template),
                  pm_conflicts = conflicts, pm_errors = []\<rparr>))"

end
