(* ===== verification/Preset_Merge.thy ===== *)
theory Preset_Merge
  imports Presets
begin

text \<open>
  What the merge of a preset keeps: seen from any path of object keys it is the three-way choice
  between the values at that path, and no collision of two edits goes unreported.
\<close>

section \<open>Equal values\<close>

text \<open>No object repeats a key.\<close>

fun wf_json :: "json \<Rightarrow> bool" where
  "wf_json (JArr xs) = list_all wf_json xs"
| "wf_json (JObj kvs) = (distinct (map fst kvs) \<and> list_all (\<lambda>(k, v). wf_json v) kvs)"
| "wf_json _ = True"

definition wf_value :: "json option \<Rightarrow> bool" where
  "wf_value x = (case x of None \<Rightarrow> True | Some j \<Rightarrow> wf_json j)"

lemma equal_refl [simp]: "equal x x"
  by (simp add: equal_def)

lemma equal_sym: "equal x y \<Longrightarrow> equal y x"
  by (simp add: equal_def)

lemma equal_trans: "equal x y \<Longrightarrow> equal y z \<Longrightarrow> equal x z"
  by (simp add: equal_def)

lemma distinct_sorted_keys: "distinct (map fst (sort_key fst kvs)) = distinct (map fst kvs)" for kvs :: "(string \<times> 'a) list"
  by (simp add: distinct_map)

lemma map_of_sorted:
  assumes "distinct (map fst (kvs :: (string \<times> 'a) list))"
  shows "map_of (sort_key fst kvs) = map_of kvs"
proof -
  have "distinct (map fst (sort_key fst kvs))" using assms by (simp add: distinct_map)
  with map_of_inject_set [OF this assms] show ?thesis by simp
qed

lemma stable_get:
  assumes "distinct (map fst (kvs :: (string \<times> json) list))"
  shows "map_of (sort_key fst (map (\<lambda>(k, v). (k, stable_value v)) kvs)) k = map_option stable_value (map_of kvs k)"
proof -
  have "map fst (map (\<lambda>(k, v). (k, stable_value v)) kvs) = map fst kvs" by (induction kvs) auto
  then have d: "distinct (map fst (map (\<lambda>(k, v). (k, stable_value v)) kvs))" using assms by (simp only:)
  show ?thesis unfolding map_of_sorted [OF d] by (simp add: map_of_map)
qed

lemma equal_fields:
  assumes "equal (Some (JObj xs)) (Some (JObj ys))" "distinct (map fst xs)" "distinct (map fst ys)"
  shows "equal (map_of xs k) (map_of ys k)"
proof -
  from assms(1) have "sort_key fst (map (\<lambda>(k, v). (k, stable_value v)) xs) = sort_key fst (map (\<lambda>(k, v). (k, stable_value v)) ys)"
    by (simp add: equal_def)
  then show ?thesis using stable_get [OF assms(2), of k] stable_get [OF assms(3), of k] by (simp add: equal_def)
qed

section \<open>Values at a path\<close>

definition child :: "string \<Rightarrow> json option \<Rightarrow> json option" where
  "child k x = (case x of Some (JObj kvs) \<Rightarrow> map_of kvs k | _ \<Rightarrow> None)"

fun at_path :: "string list \<Rightarrow> json option \<Rightarrow> json option" where
  "at_path [] x = x"
| "at_path (k # ks) x = at_path ks (child k x)"

lemma wf_child: "wf_value x \<Longrightarrow> wf_value (child k x)"
  by (auto simp: child_def wf_value_def list_all_iff split: option.splits json.splits dest: map_of_SomeD)

lemma equal_child:
  assumes "equal x y" "wf_value x" "wf_value y"
  shows "equal (child k x) (child k y)"
proof (cases "\<exists>xs ys. x = Some (JObj xs) \<and> y = Some (JObj ys)")
  case True
  with assms equal_fields show ?thesis by (auto simp: child_def wf_value_def)
next
  case False
  with assms(1) have "child k x = None" "child k y = None"
    by (cases x; cases y; (cases "the x"; cases "the y")?; simp add: equal_def child_def)+
  then show ?thesis by simp
qed

lemma equal_at:
  "equal x y \<Longrightarrow> wf_value x \<Longrightarrow> wf_value y \<Longrightarrow> equal (at_path q x) (at_path q y)"
  by (induction q arbitrary: x y) (simp_all add: equal_child wf_child)

text \<open>On the way to the path all three are objects; a base that is missing counts as empty.\<close>

fun through_objects :: "string list \<Rightarrow> json option \<Rightarrow> json option \<Rightarrow> json option \<Rightarrow> bool" where
  "through_objects [] b u p = True"
| "through_objects (k # ks) b u p =
     (all_objects b u p \<noteq> None \<and> through_objects ks (child k b) (child k u) (child k p))"

lemma merge_same:
  "equal u b \<Longrightarrow> fst (merge_value b u p path) = p"
  "\<not> equal u b \<Longrightarrow> equal p b \<or> equal u p \<Longrightarrow> fst (merge_value b u p path) = u"
  by (simp_all add: merge_value.simps [of b u p path])

lemma map_filter_get:
  "map_of (List.map_filter (\<lambda>(k, v, cs). map_option (Pair k) v) (map (\<lambda>k. (k, f k)) ks)) k =
     (if k \<in> set ks then fst (f k) else None)"
  by (induction ks) (auto simp: map_filter_simps split: option.splits prod.splits)

lemma merge_objects:
  assumes "all_objects b u p \<noteq> None" "\<not> equal u b" "\<not> equal p b" "\<not> equal u p"
  shows "child k (fst (merge_value b u p path)) = fst (merge_value (child k b) (child k u) (child k p) (child_path path k))"
    "set (snd (merge_value (child k b) (child k u) (child k p) (child_path path k))) \<subseteq> set (snd (merge_value b u p path))"
proof -
  obtain bs us ps where a: "all_objects b u p = Some (bs, us, ps)" using assms(1) by (cases "all_objects b u p") auto
  then have o: "coalesce b (JObj []) = JObj bs" "u = Some (JObj us)" "p = Some (JObj ps)" by (simp_all add: all_objects_Some)
  then have get: "child k b = map_of bs k" "child k u = map_of us k" "child k p = map_of ps k"
    by (cases b; auto simp: child_def)+
  let ?m = "\<lambda>k. merge_value (map_of bs k) (map_of us k) (map_of ps k) (child_path path k)"
  let ?keys = "js_distinct (map fst bs @ map fst us @ map fst ps)"
  have m: "merge_value b u p path =
      (Some (JObj (List.map_filter (\<lambda>(k, v, cs). map_option (Pair k) v) (map (\<lambda>k. (k, ?m k)) ?keys))),
       concat (map (snd \<circ> snd) (map (\<lambda>k. (k, ?m k)) ?keys)))"
    using assms(2-4) a by (simp add: merge_value.simps [of b u p path] Let_def)
  have none: "?m k = (None, [])" if "k \<notin> set ?keys"
  proof -
    from that have "map_of bs k = None" "map_of us k = None" "map_of ps k = None"
      by (simp_all add: map_of_eq_None_iff image_iff)
    then show ?thesis by (simp add: merge_value.simps [of None None None])
  qed
  have "child k (fst (merge_value b u p path)) = (if k \<in> set ?keys then fst (?m k) else None)"
    unfolding m by (simp add: child_def map_filter_get del: set_js_distinct)
  then show "child k (fst (merge_value b u p path)) = fst (merge_value (child k b) (child k u) (child k p) (child_path path k))"
    unfolding get using none by (cases "k \<in> set ?keys") (simp_all del: set_js_distinct)
  show "set (snd (merge_value (child k b) (child k u) (child k p) (child_path path k))) \<subseteq> set (snd (merge_value b u p path))"
    unfolding get m snd_conv using none by (cases "k \<in> set ?keys") auto
qed

lemma child_wf:
  "wf_value b \<and> wf_value u \<and> wf_value p \<Longrightarrow> wf_value (child k b) \<and> wf_value (child k u) \<and> wf_value (child k p)"
  by (simp add: wf_child)

theorem merge_along_path:
  assumes "wf_value b" "wf_value u" "wf_value p" "through_objects q b u p"
  shows "equal (at_path q (fst (merge_value b u p path)))
     (fst (merge_value (at_path q b) (at_path q u) (at_path q p) (foldl child_path path q)))"
  using assms
proof (induction q arbitrary: b u p path)
  case (Cons k ks)
  note w = Cons.prems(1-3)
  let ?b = "at_path (k # ks) b" and ?u = "at_path (k # ks) u" and ?p = "at_path (k # ks) p"
  let ?m = "merge_value ?b ?u ?p (foldl child_path path (k # ks))"
  show ?case
  proof (cases "equal u b")
    case True
    then have "equal ?u ?b" using w equal_at by blast
    with True show ?thesis by (simp only: merge_same equal_refl)
  next
    case ub: False
    show ?thesis
    proof (cases "equal p b \<or> equal u p")
      case True
      then have r: "fst (merge_value b u p path) = u" using ub merge_same(2) by blast
      from True have "equal ?p ?b \<or> equal ?u ?p" using w equal_at by blast
      then have "equal ?u (fst ?m)"
        by (cases "equal ?u ?b") (auto simp: merge_same simp del: at_path.simps foldl.simps intro: equal_trans equal_sym)
      with r show ?thesis by (simp only:)
    next
      case False
      have o: "all_objects b u p \<noteq> None" "through_objects ks (child k b) (child k u) (child k p)" using Cons.prems(4) by simp_all
      from Cons.IH [OF wf_child [OF w(1)] wf_child [OF w(2)] wf_child [OF w(3)] o(2), of "child_path path k"]
      show ?thesis using merge_objects(1) [OF o(1) ub] False by simp
    qed
  qed
qed simp

text \<open>Where the three values are no objects and no arrays, the merge chooses one of them.\<close>

definition three_way :: "json option \<Rightarrow> json option \<Rightarrow> json option \<Rightarrow> json option" where
  "three_way b u p = (if equal u b then p else u)"

definition leaf :: "json option \<Rightarrow> json option \<Rightarrow> json option \<Rightarrow> bool" where
  "leaf b u p \<longleftrightarrow> all_objects b u p = None \<and> all_arrays b u p = None"

definition collision :: "json option \<Rightarrow> json option \<Rightarrow> json option \<Rightarrow> bool" where
  "collision b u p \<longleftrightarrow> b \<noteq> None \<and> \<not> equal u b \<and> \<not> equal p b \<and> \<not> equal u p"

lemma merge_leaf: "leaf b u p \<Longrightarrow> fst (merge_value b u p path) = three_way b u p"
  by (simp add: merge_value.simps [of b u p path] leaf_def three_way_def)

lemma merge_leaf_conflict:
  "leaf b u p \<Longrightarrow> collision b u p \<Longrightarrow> snd (merge_value b u p path) = [the_conflict path b u p BothChanged]"
  by (auto simp: merge_value.simps [of b u p path] leaf_def collision_def)

lemma collision_reported:
  assumes "wf_value b" "wf_value u" "wf_value p" "through_objects q b u p"
    and "leaf (at_path q b) (at_path q u) (at_path q p)" "collision (at_path q b) (at_path q u) (at_path q p)"
  shows "the_conflict (foldl child_path path q) (at_path q b) (at_path q u) (at_path q p) BothChanged \<in> set (snd (merge_value b u p path))"
  using assms
proof (induction q arbitrary: b u p path)
  case Nil
  then show ?case by (simp add: merge_leaf_conflict)
next
  case (Cons k ks)
  note w = Cons.prems(1-3)
  have "\<not> equal u b" "\<not> equal p b" "\<not> equal u p"
    using Cons.prems(6) equal_at [of _ _ "k # ks"] w unfolding collision_def by blast+
  moreover have o: "all_objects b u p \<noteq> None" "through_objects ks (child k b) (child k u) (child k p)" using Cons.prems(4) by simp_all
  ultimately show ?case
    using merge_objects(2) [of b u p k path] Cons.IH [OF wf_child [OF w(1)] wf_child [OF w(2)] wf_child [OF w(3)] o(2), of "child_path path k"]
      Cons.prems(5,6) by auto
qed


definition edited_xray :: json where
  "edited_xray = JObj (map_set ''log'' (JObj [(''loglevel'', JStr ''error'')]) (entries (xray_preset 1)))"


section \<open>Arrays without a key\<close>

lemma set_add_new: "set (map stable_value (add_new seen xs)) = set (map stable_value xs) - set seen"
  by (induction seen xs rule: add_new.induct) auto

lemma distinct_add_new: "distinct (map stable_value (add_new seen xs))"
  by (induction seen xs rule: add_new.induct) (use set_add_new in fastforce)+

lemma add_new_sub: "set (add_new seen xs) \<subseteq> set xs"
  by (induction seen xs rule: add_new.induct) auto

lemma kept_set: "set (map f (filter (\<lambda>x. \<not> (f x \<in> A \<and> f x \<notin> B)) xs)) = set (map f xs) - (A - B)"
  by auto

lemma merge_values_set:
  "set (map stable_value (merge_values b u p)) =
     (set (map stable_value u) - (set (map stable_value b) - set (map stable_value p))) \<union> (set (map stable_value p) - set (map stable_value b))"
  unfolding merge_values_def Let_def map_append set_append set_add_new kept_set by blast

lemma merge_values_order:
  "\<exists>added. merge_values b u p = filter (\<lambda>x. stable_value x \<notin> set (map stable_value b) - set (map stable_value p)) u @ added \<and>
     set added \<subseteq> set p \<and> distinct (map stable_value added)"
  using add_new_sub distinct_add_new unfolding merge_values_def Let_def by (auto simp: Diff_iff)

section \<open>The document is brought up to date\<close>

definition same :: "json \<Rightarrow> json \<Rightarrow> bool" where
  "same x y \<longleftrightarrow> equal (Some x) (Some y) \<and> wf_json x \<and> wf_json y"

lemma same_refl: "wf_json x \<Longrightarrow> same x x"
  by (simp add: same_def)

lemma equal_arrays: "equal (Some (JArr xs)) (Some (JArr ys)) \<longleftrightarrow> map stable_value xs = map stable_value ys"
  by (simp add: equal_def)

lemma same_arrays: "list_all2 same xs ys \<Longrightarrow> same (JArr xs) (JArr ys)"
  by (induction rule: list_all2_induct) (auto simp: same_def equal_def)

lemma same_arraysD:
  assumes "same (JArr xs) (JArr ys)"
  shows "list_all2 same xs ys"
proof -
  from assms have m: "map stable_value xs = map stable_value ys" "list_all wf_json xs" "list_all wf_json ys"
    by (simp_all add: same_def equal_def)
  then have "length xs = length ys" using map_eq_imp_length_eq by blast
  then show ?thesis using m
    by (induction rule: list_induct2) (auto simp: same_def equal_def)
qed

lemma equal_objects:
  assumes "distinct (map fst (xs :: (string \<times> json) list))" "distinct (map fst ys)" "\<And>k. equal (map_of xs k) (map_of ys k)"
  shows "equal (Some (JObj xs)) (Some (JObj ys))"
proof -
  let ?f = "\<lambda>(k, v). (k, stable_value v)"
  let ?xs = "map ?f xs" and ?ys = "map ?f ys"
  have keys: "map fst ?xs = map fst xs" "map fst ?ys = map fst ys" by (induction xs) auto
  have d: "distinct (map fst ?xs)" "distinct (map fst ?ys)" unfolding keys using assms(1,2) by simp_all
  have "map_of ?xs = map_of ?ys"
  proof
    fix k
    from assms(3) [of k] show "map_of ?xs k = map_of ?ys k" by (simp add: map_of_map equal_def)
  qed
  then have set: "set ?xs = set ?ys" using map_of_inject_set [OF d] by simp
  have "sort_key fst ?xs = sort_key fst ?ys"
  proof (rule map_sorted_distinct_set_unique [of fst])
    show "inj_on fst (set (sort_key fst ?xs) \<union> set (sort_key fst ?ys))" using distinct_map [THEN iffD1, OF d(1), THEN conjunct2] unfolding set_sort set Un_absorb .
    show "distinct (map fst (sort_key fst ?xs))" "distinct (map fst (sort_key fst ?ys))" using d by (simp_all only: distinct_sorted_keys)
  qed (use set in simp_all)
  then show ?thesis by (simp add: equal_def)
qed

lemma list_all2_move:
  assumes "list_all2 R xs ys" "f < length xs"
  shows "list_all2 R (move_to t f xs) (move_to t f ys)"
  using assms unfolding move_to_def Let_def
  by (intro list_all2_appendI list_all2_takeI list_all2_dropI) (simp_all add: list_all2_nthD)

lemma move_take: "t \<le> f \<Longrightarrow> f < length xs \<Longrightarrow> take t (move_to t f xs) = take t xs \<and> move_to t f xs ! t = xs ! f \<and> length (move_to t f xs) = length xs"
  by (simp add: move_to_def nth_append)

lemma list_all2_insert: "list_all2 R xs ys \<Longrightarrow> R x y \<Longrightarrow> list_all2 R (insert_at t x xs) (insert_at t y ys)"
  unfolding insert_at_def by (intro list_all2_appendI list_all2_takeI list_all2_dropI) simp_all

lemma index_from_Some: "index_from P t xs = Some f \<Longrightarrow> t \<le> f \<and> f < length xs"
  by (induction P t xs arbitrary: f rule: index_from.induct) (auto split: if_splits)

lemma set_map_set: "set (map fst (map_set k v m)) = insert k (set (map fst m))"
  using set_keys_set [of k v m] by (simp add: map_keys_def)

lemma wf_fields: "wf_json (JObj kvs) \<longleftrightarrow> distinct (map fst kvs) \<and> (\<forall>k v. map_of kvs k = Some v \<longrightarrow> wf_json v)" (is "?l \<longleftrightarrow> ?r")
proof
  assume ?l
  then show ?r by (auto simp: list_all_iff dest: map_of_SomeD)
next
  assume ?r
  then show ?l by (auto simp: list_all_iff)
qed

lemma map_of_set: "map_of (map_set k v m) i = (if i = k then Some v else map_of m i)"
  using map_get_set [of i k v m] by (simp add: map_get_def)

lemma distinct_set: "distinct (map fst m) \<Longrightarrow> distinct (map fst (map_set k v m))"
  using distinct_map_set [of k v m] by (simp add: map_keys_def)

lemma same_get:
  assumes "same (JObj xs) (JObj ys)"
  shows "rel_option same (map_of xs k) (map_of ys k)"
proof -
  have w: "wf_json (JObj xs)" "wf_json (JObj ys)" "equal (Some (JObj xs)) (Some (JObj ys))" using assms by (simp_all add: same_def)
  then have "equal (map_of xs k) (map_of ys k)" using equal_fields by (simp add: wf_fields del: wf_json.simps)
  with w(1,2) show ?thesis
    by (cases "map_of xs k"; cases "map_of ys k") (auto simp: equal_def same_def wf_fields simp del: wf_json.simps)
qed

lemma same_objects:
  assumes "distinct (map fst xs)" "distinct (map fst ys)" "\<And>k. rel_option same (map_of xs k) (map_of ys k)"
  shows "same (JObj xs) (JObj ys)"
proof -
  have "equal (map_of xs k) (map_of ys k) \<and> (\<forall>v. map_of xs k = Some v \<or> map_of ys k = Some v \<longrightarrow> wf_json v)" for k
    using assms(3) [of k] by (cases "map_of xs k"; cases "map_of ys k") (auto simp: equal_def same_def)
  with assms(1,2) equal_objects [of xs ys] show ?thesis unfolding same_def wf_fields by blast
qed

lemma map_of_filter_key: "map_of (filter (\<lambda>(k, v). P k) kvs) k = (if P k then map_of kvs k else None)"
  by (induction kvs) auto

lemma sync_induct:
  "same node before \<Longrightarrow> wf_json after \<Longrightarrow> same (sync_value node before after) after"
  "distinct (map fst nd) \<Longrightarrow> wf_json (JObj bs) \<Longrightarrow> wf_json (JObj as) \<Longrightarrow>
     (\<And>k. k \<in> set (map fst as) \<Longrightarrow> rel_option same (map_of nd k) (map_of bs k)) \<Longrightarrow>
     distinct (map fst (sync_fields nd bs as)) \<and>
     (\<forall>k. if k \<in> set (map fst as) then rel_option same (map_of (sync_fields nd bs as) k) (map_of as k)
          else map_of (sync_fields nd bs as) k = map_of nd k)"
  "list_all2 same items current \<Longrightarrow> t \<le> length items \<Longrightarrow> list_all wf_json as' \<Longrightarrow>
     \<exists>zs. sync_items key t current items as' = take t items @ zs \<and> list_all2 same zs as'"
proof (induction node before after and nd bs as and key t current items as' rule: sync_value_sync_fields_sync_items.induct)
  case (1 node before after)
  show ?case
  proof (cases "equal (Some before) (Some after)")
    case True
    then show ?thesis using "1.prems" by (auto simp: sync_value.simps [of node before after] same_def intro: equal_trans)
  next
    case ne: False
    show ?thesis
    proof (cases "\<exists>bs as. before = JObj bs \<and> after = JObj as")
      case True
      then obtain bs as where ba: "before = JObj bs" "after = JObj as" by blast
      with "1.prems"(1) obtain ns where n: "node = JObj ns" by (cases node) (auto simp: same_def equal_def)
      let ?nd = "filter (\<lambda>(k, v). k \<in> set (map fst bs) \<longrightarrow> k \<in> set (map fst as)) ns"
      note get = map_of_filter_key [of "\<lambda>k. k \<in> set (map fst bs) \<longrightarrow> k \<in> set (map fst as)" ns]
      have rel: "rel_option same (map_of ns k) (map_of bs k)" for k using same_get "1.prems"(1) n ba by blast
      have keep: "rel_option same (map_of ?nd k) (map_of bs k)" if "k \<in> set (map fst as)" for k
        using rel [of k] that unfolding get by simp
      have gone: "map_of ?nd k = None" if "k \<notin> set (map fst as)" for k
      proof (cases "k \<in> set (map fst bs)")
        case True
        with that show ?thesis unfolding get by (simp only: if_False not_True_eq_False simp_thms)
      next
        case False
        then have "map_of bs k = None" by (simp add: map_of_eq_None_iff)
        with rel [of k] show ?thesis unfolding get by simp
      qed
      have wf: "wf_json (JObj bs)" "wf_json (JObj as)" "distinct (map fst ?nd)"
        using "1.prems" n ba by (simp_all add: same_def distinct_map_filter)
      from "1.IH"(2) [OF ne refl ba, unfolded n entries.simps, OF wf(3,1,2) keep]
      have r: "distinct (map fst (sync_fields ?nd bs as))"
        "\<And>k. if k \<in> set (map fst as) then rel_option same (map_of (sync_fields ?nd bs as) k) (map_of as k)
           else map_of (sync_fields ?nd bs as) k = map_of ?nd k" by blast+
      have "rel_option same (map_of (sync_fields ?nd bs as) k) (map_of as k)" for k
      proof (cases "k \<in> set (map fst as)")
        case True
        then show ?thesis using r(2) [of k] by (simp only: if_True)
      next
        case False
        then have "map_of as k = None" by (simp add: map_of_eq_None_iff)
        moreover have "map_of (sync_fields ?nd bs as) k = None" using r(2) [of k] gone [OF False] False by (simp only: if_False)
        ultimately show ?thesis by simp
      qed
      with r(1) wf(2) have "same (JObj (sync_fields ?nd bs as)) (JObj as)" by (intro same_objects) simp_all
      then show ?thesis using ne unfolding sync_value.simps [of node before after] by (simp add: n ba)
    next
      case obj: False
      show ?thesis
      proof (cases "\<exists>bs as. before = JArr bs \<and> after = JArr as")
        case True
        then obtain bs as where ba: "before = JArr bs" "after = JArr as" by blast
        with "1.prems"(1) obtain items where n: "node = JArr items" by (cases node) (auto simp: same_def equal_def)
        have "list_all2 same items bs" using same_arraysD "1.prems"(1) n ba by blast
        from "1.IH"(1) [OF ne refl ba n this] "1.prems"(2) ba obtain zs where
          "sync_items (array_key [bs, as]) 0 bs items as = zs" "list_all2 same zs as" by auto
        then show ?thesis using ne same_arrays unfolding sync_value.simps [of node before after] by (simp add: n ba)
      next
        case False
        with obj ne have "sync_value node before after = after"
          unfolding sync_value.simps [of node before after] by (auto split: json.splits)
        with "1.prems"(2) show ?thesis by (simp add: same_refl)
      qed
    qed
  qed
next
  case (2 nd bs)
  then show ?case by simp
next
  case (3 nd bs k v as)
  let ?v = "case (map_of bs k, map_of nd k) of (Some b, Some n) \<Rightarrow> sync_value n b v | _ \<Rightarrow> v"
  have wf: "wf_json v" "wf_json (JObj as)" "k \<notin> set (map fst as)" using "3.prems"(3) by simp_all
  have v: "same ?v v"
  proof (cases "\<exists>b n. map_of bs k = Some b \<and> map_of nd k = Some n")
    case True
    then obtain b n where bn: "map_of bs k = Some b" "map_of nd k = Some n" by blast
    with "3.prems"(4) [of k] have "same n b" by simp
    from "3.IH"(1) [OF refl bn this wf(1)] bn show ?thesis by simp
  next
    case False
    then have "?v = v" by (auto split: option.splits)
    with wf(1) show ?thesis by (simp add: same_refl)
  qed
  have eq: "(case map_of bs k of None \<Rightarrow> v | Some b \<Rightarrow> case map_of nd k of None \<Rightarrow> v | Some n \<Rightarrow> sync_value n b v) = ?v"
    by (simp split: option.split)
  have "rel_option same (map_of (map_set k ?v nd) i) (map_of bs i)" if "i \<in> set (map fst as)" for i
    using "3.prems"(4) [of i] that wf(3) by (auto simp: map_of_set)
  from "3.IH"(2) [unfolded eq, OF distinct_set [OF "3.prems"(1)] "3.prems"(2) wf(2) this]
  have r: "distinct (map fst (sync_fields (map_set k ?v nd) bs as))"
    "\<And>i. if i \<in> set (map fst as) then rel_option same (map_of (sync_fields (map_set k ?v nd) bs as) i) (map_of as i)
       else map_of (sync_fields (map_set k ?v nd) bs as) i = map_of (map_set k ?v nd) i" by blast+
  show ?case
  proof (intro conjI allI)
    show "distinct (map fst (sync_fields nd bs ((k, v) # as)))" using r(1) by simp
    fix i
    show "if i \<in> set (map fst ((k, v) # as)) then rel_option same (map_of (sync_fields nd bs ((k, v) # as)) i) (map_of ((k, v) # as) i)
          else map_of (sync_fields nd bs ((k, v) # as)) i = map_of nd i"
      using r(2) [of i] v wf(3) by (auto simp: map_of_set split: if_splits)
  qed
next
  case (4 key t current items)
  then show ?case by simp
next
  case (5 key t current items a as)
  have wf: "wf_json a" "list_all wf_json as" using "5.prems"(3) by simp_all
  have len: "length items = length current" using "5.prems"(1) by (rule list_all2_lengthD)
  show ?case
  proof (cases "index_from (\<lambda>x. item_identity key x = item_identity key a) t current")
    case None
    have "list_all2 same (insert_at t a items) (insert_at t a current)" using "5.prems"(1) wf(1) by (intro list_all2_insert same_refl)
    moreover have "Suc t \<le> length (insert_at t a items)" using "5.prems"(2) by (simp add: insert_at_def)
    ultimately obtain zs where "sync_items key (Suc t) (insert_at t a current) (insert_at t a items) as = take (Suc t) (insert_at t a items) @ zs"
      "list_all2 same zs as" using "5.IH"(1) [OF None] wf(2) by blast
    then show ?thesis using None "5.prems"(2) same_refl [OF wf(1)] by (simp add: insert_at_def)
  next
    case (Some f)
    let ?c = "if f = t then current else move_to t f current" and ?i = "if f = t then items else move_to t f items"
    note f = index_from_Some [OF Some]
    have l: "list_all2 same ?i ?c" using "5.prems"(1) f len by (simp add: list_all2_move)
    have it: "length ?i = length items" "take t ?i = take t items" "t < length items"
      using f len "5.prems"(2) move_take [of t f items] by auto
    have "t < length ?i" using it by (simp only:)
    then have "same (?i ! t) (?c ! t)" using l list_all2_nthD by blast
    from "5.IH"(2) [OF Some refl refl this wf(1)] have s: "same (sync_value (?i ! t) (?c ! t) a) a" .
    let ?items = "?i[t := sync_value (?i ! t) (?c ! t) a]"
    have "list_all2 same ?items (?c[t := a])" using l s by (intro list_all2_update_cong)
    moreover have "Suc t \<le> length ?items" using it by (simp only: length_list_update Suc_le_eq)
    ultimately obtain zs where z: "sync_items key (Suc t) (?c[t := a]) ?items as = take (Suc t) ?items @ zs" "list_all2 same zs as"
      using "5.IH"(3) [OF Some refl refl] wf(2) by blast
    have "take (Suc t) ?items = take t items @ [sync_value (?i ! t) (?c ! t) a]"
      using it by (simp only: take_Suc_conv_app_nth length_list_update nth_list_update_eq take_update_cancel order_refl)
    then show ?thesis using Some z s by (simp add: Let_def)
  qed
qed

text \<open>
  The YAML document of the user's template, brought up to date step by step, stands for the
  merged value: items are moved, added, changed and dropped until nothing differs.
\<close>

lemma sync_is_merged:
  assumes "wf_json user" "wf_json merged"
  shows "equal (Some (sync_value user user merged)) (Some merged)"
  using sync_induct(1) [OF same_refl [OF assms(1)] assms(2)] by (simp add: same_def)

end
