(* ===== verification/Engine_Configs.thy ===== *)
theory Engine_Configs
  imports Inventory Subscriptions Presets
begin

text \<open>
  The configurations of the engines (src/src/server/adapters/engines.ts, method-listeners.ts,
  engine-api.ts): the checks of a template, its rendering, and the revisions of each engine.

  The libraries that read and write YAML and JSON, SHA-256, HMAC and the root agent are
  parameters.  What \<open>String.replace\<close> does with \<open>$\<close> in a replacement is left out: no value put
  into a template holds one.
\<close>

section \<open>Placeholders in texts\<close>

text \<open>\<open>text.split(needle).length - 1\<close>: the occurrences that do not overlap.\<close>

function count_text :: "string \<Rightarrow> string \<Rightarrow> nat" where
  "count_text needle s =
     (if s = [] \<or> needle = [] then 0
      else if starts_with s needle then Suc (count_text needle (drop (length needle) s))
      else count_text needle (tl s))"
  by pat_completeness auto
termination
  by (relation "measure (\<lambda>(n, s). length s)") auto

declare count_text.simps [simp del]

fun replace_first :: "string \<Rightarrow> string \<Rightarrow> string \<Rightarrow> string" where
  "replace_first needle new [] = []"
| "replace_first needle new (c # s) =
     (if starts_with (c # s) needle then new @ drop (length needle) (c # s) else c # replace_first needle new s)"

definition placeholder :: "string \<Rightarrow> string" where
  "placeholder x = ''{{OUTPOST_'' @ x @ ''}}''"

definition block_char :: "char \<Rightarrow> bool" where
  "block_char c \<longleftrightarrow> is_upper c \<or> is_digit c \<or> c = CHR ''_''"

text \<open>\<open>{{OUTPOST_X}}\<close> becomes \<open>__OUTPOST_X__\<close> before a template is read as YAML.\<close>

function encode_placeholders :: "string \<Rightarrow> string" where
  "encode_placeholders s =
     (if s = [] then []
      else (let run = takeWhile block_char (drop 10 s); rest = drop (10 + length run) s
            in if starts_with s ''{{OUTPOST_'' \<and> run \<noteq> [] \<and> starts_with rest ''}}''
               then ''__OUTPOST_'' @ run @ ''__'' @ encode_placeholders (drop 2 rest)
               else hd s # encode_placeholders (tl s)))"
  by pat_completeness auto
termination
  by (relation "measure length") auto

declare encode_placeholders.simps [simp del]

section \<open>Parameters\<close>

record engine_io =
  ei_yaml :: "string \<Rightarrow> json result"
  ei_json :: "string \<Rightarrow> json result"
  ei_yaml_text :: "json \<Rightarrow> string"
  ei_json_text :: "json \<Rightarrow> string"
  ei_json_line :: "json \<Rightarrow> string"
  ei_yaml_over :: "string \<Rightarrow> json \<Rightarrow> json \<Rightarrow> string result"
  ei_hash :: "string \<Rightarrow> string"

record engine_site =
  es_site :: panel_site
  es_paths :: path_config
  es_keys :: key_functions
  es_stats_secret :: string

fun is_json_engine :: "engine \<Rightarrow> bool" where
  "is_json_engine Hysteria = False"
| "is_json_engine Mihomo = False"
| "is_json_engine _ = True"

definition parse_template :: "engine_io \<Rightarrow> engine \<Rightarrow> string \<Rightarrow> json result" where
  "parse_template io e template = (if is_json_engine e then ei_json io template else ei_yaml io (encode_placeholders template))"

definition engine_template_io :: "engine_io \<Rightarrow> template_io" where
  "engine_template_io io = \<lparr>tio_parse = parse_template io,
     tio_write = (\<lambda>e template user merged. if is_json_engine e then Ok (ei_json_text io merged) else ei_yaml_over io template user merged)\<rparr>"

fun engine_api :: "engine \<Rightarrow> string" where
  "engine_api Hysteria = ''127.0.0.1:9999''"
| "engine_api Xray = ''127.0.0.1:10085''"
| "engine_api Mihomo = ''127.0.0.1:9097''"
| "engine_api SingBox = ''127.0.0.1:10086''"
| "engine_api AmneziaWG = []"

definition engine_api_secret :: "engine_site \<Rightarrow> engine \<Rightarrow> string" where
  "engine_api_secret S e =
     base64url (kf_hmac (es_keys S) (es_stats_secret S)
       (if e = Mihomo then ''outpost:mihomo-controller:v1'' else ''outpost:sing-box-api:v1''))"

section \<open>The checks of a template\<close>

datatype template_error =
    MissingBlock string | NoQuicRule | NoBlockOutbound | AmneziaParameters | ListenersChanged | ExtraInbounds | InboundsChanged
  | ApiChanged | Unparsed failure

fun protected_blocks :: "engine \<Rightarrow> string list" where
  "protected_blocks Hysteria = [''AUTH_URL'', ''STATS_LISTEN'', ''STATS_SECRET'', ''TLS_CERT'', ''TLS_KEY'']"
| "protected_blocks AmneziaWG = [''AWG_SERVER'', ''AWG_PEERS'']"
| "protected_blocks Mihomo = [''LISTENERS'', ''CONTROLLER_SECRET'']"
| "protected_blocks SingBox = [''INBOUNDS'', ''API'']"
| "protected_blocks Xray = [''XHTTP_USERS'', ''GRPC_USERS'', ''API'', ''STATS'', ''XHTTP_PATH'', ''GRPC_SERVICE'']"

fun nested_array :: "json option \<Rightarrow> string list \<Rightarrow> json list" where
  "nested_array x [] = (case x of Some (JArr xs) \<Rightarrow> xs | _ \<Rightarrow> [])"
| "nested_array x (k # ks) = (case x of Some (JObj kvs) \<Rightarrow> nested_array (json_get k kvs) ks | _ \<Rightarrow> [])"

definition matches_object :: "(string \<times> json) list \<Rightarrow> json \<Rightarrow> bool" where
  "matches_object expected j =
     (case j of JObj kvs \<Rightarrow> list_all (\<lambda>(k, v). json_get k kvs = Some v) expected | _ \<Rightarrow> False)"

definition truthy_value :: "json option \<Rightarrow> bool" where
  "truthy_value x =
     (case x of None \<Rightarrow> False | Some JNull \<Rightarrow> False | Some (JBool b) \<Rightarrow> b | Some (JNum n) \<Rightarrow> n \<noteq> 0 | Some (JStr s) \<Rightarrow> s \<noteq> [] | _ \<Rightarrow> True)"

definition quic_rule :: "engine \<Rightarrow> (string \<times> json) list" where
  "quic_rule e =
     (if e = Xray then [(''type'', JStr ''field''), (''network'', JStr ''udp''), (''port'', JNum 443), (''outboundTag'', JStr ''block'')]
      else [(''network'', JStr ''udp''), (''port'', JNum 443), (''action'', JStr ''reject'')])"

definition error_if :: "bool \<Rightarrow> 'a \<Rightarrow> 'a list" where
  "error_if b x = (if b then [x] else [])"

definition field_of :: "json \<Rightarrow> string \<Rightarrow> json option" where
  "field_of j k = (case j of JObj kvs \<Rightarrow> json_get k kvs | _ \<Rightarrow> None)"

fun engine_errors :: "engine \<Rightarrow> json \<Rightarrow> template_error list" where
  "engine_errors Hysteria j =
     error_if (JStr ''reject(all, udp/443)'' \<notin> set (nested_array (Some j) [''acl'', ''inline''])) NoQuicRule"
| "engine_errors Xray j =
     error_if (\<not> list_ex (matches_object [(''protocol'', JStr ''blackhole''), (''tag'', JStr ''block'')]) (nested_array (Some j) [''outbounds''])) NoBlockOutbound @
     error_if (\<not> list_ex (matches_object (quic_rule Xray)) (nested_array (Some j) [''routing'', ''rules''])) NoQuicRule"
| "engine_errors AmneziaWG j =
     error_if (\<not> matches_object [(''server'', JStr (placeholder ''AWG_SERVER'')), (''peers'', JStr (placeholder ''AWG_PEERS''))] j \<or>
       length (entries j) \<noteq> 2) AmneziaParameters"
| "engine_errors Mihomo j =
     error_if (JStr ''AND,((NETWORK,UDP),(DST-PORT,443)),REJECT'' \<notin> set (nested_array (Some j) [''rules''])) NoQuicRule @
     (if j = JNull then [Unparsed (Thrown ''TypeError'')]
      else error_if (field_of j ''listeners'' \<noteq> Some (yaml_text ''LISTENERS'') \<or>
             field_of j ''external-controller'' \<noteq> Some (JStr (engine_api Mihomo))) ListenersChanged @
           error_if (field_of j ''mode'' \<noteq> Some (JStr ''rule'') \<or> truthy_value (field_of j ''mixed-port'') \<or> truthy_value (field_of j ''port'') \<or>
             truthy_value (field_of j ''socks-port'') \<or> truthy_value (field_of j ''tun'')) ExtraInbounds)"
| "engine_errors SingBox j =
     (if j = JNull then [Unparsed (Thrown ''TypeError'')]
      else error_if (field_of j ''inbounds'' \<noteq> Some (JStr (placeholder ''INBOUNDS''))) InboundsChanged @
           error_if (field_of j ''services'' \<noteq> Some (JStr (placeholder ''API''))) ApiChanged @
           error_if (\<not> list_ex (matches_object (quic_rule SingBox)) (nested_array (Some j) [''route'', ''rules''])) NoQuicRule)"

definition validate_template :: "engine_io \<Rightarrow> engine \<Rightarrow> string \<Rightarrow> template_error list" where
  "validate_template io e template =
     map MissingBlock (filter (\<lambda>b. count_text (placeholder b) template \<noteq> 1) (protected_blocks e)) @
     (case parse_template io e template of Inl err \<Rightarrow> [Unparsed err] | Inr j \<Rightarrow> engine_errors e j)"

definition assert_template :: "engine_io \<Rightarrow> engine \<Rightarrow> string \<Rightarrow> unit result" where
  "assert_template io e template = (if validate_template io e template = [] then Ok () else Err (Thrown ''template''))"

section \<open>Listeners\<close>

text \<open>\<open>Object.fromEntries\<close>: a later entry replaces an earlier one with its key.\<close>

definition from_entries :: "(string \<times> json) list \<Rightarrow> json" where
  "from_entries kvs = JObj (fold (\<lambda>(k, v). map_set k v) kvs [])"

definition vless_users :: "string \<Rightarrow> credential_set list \<Rightarrow> json" where
  "vless_users label cs = JArr (map (\<lambda>c. JObj [(label, JStr (snd (secret_fields (cs_xray c)))), (''uuid'', JStr (xray_id c))]) cs)"

definition mihomo_listener :: "engine_site \<Rightarrow> credential_set list \<Rightarrow> conn_method \<Rightarrow> json" where
  "mihomo_listener S cs m =
     (let p = m_protocol m; live = ''/etc/letsencrypt/live/'' @ si_domain (es_site S);
          listener = [(''name'', JStr (m_id m)), (''type'', JStr (if p \<in> {Xhttp, Grpc} then ''vless'' else protocol_key p)),
            (''listen'', JStr ''0.0.0.0''), (''port'', port_json m), (''certificate'', JStr (live @ ''/fullchain.pem'')),
            (''private-key'', JStr (live @ ''/privkey.pem''))];
          user = (\<lambda>c. protocol_credential (es_keys S) c p)
      in JObj (listener @
           (case p of
              AnyTLS \<Rightarrow> [(''users'', from_entries (map (\<lambda>c. (fst (user c), JStr (snd (user c)))) cs))]
            | TrustTunnel \<Rightarrow> [(''network'', JArr [JStr ''tcp'']), (''users'', JArr (map (\<lambda>c. JObj (user_fields (user c))) cs))]
            | Hysteria2 \<Rightarrow> [(''alpn'', JArr [JStr ''h3'']),
                (''users'', from_entries (map (\<lambda>c. (fst (secret_fields (cs_hysteria c)), JStr (hysteria_password c))) cs))]
            | _ \<Rightarrow> (''users'', vless_users ''username'' cs) #
                (if p = Xhttp then [(''xhttp-config'', JObj (opt_text ''path'' (ms_path (m_settings m)) @ [(''mode'', JStr ''auto'')]))]
                 else opt_text ''grpc-service-name'' (ms_path (m_settings m))))))"

definition sing_box_inbound :: "engine_site \<Rightarrow> credential_set list \<Rightarrow> conn_method \<Rightarrow> json" where
  "sing_box_inbound S cs m =
     (let p = m_protocol m; live = ''/etc/letsencrypt/live/'' @ si_domain (es_site S);
          inbound = [(''type'', JStr (if p = Grpc then ''vless'' else protocol_key p)), (''tag'', JStr (m_id m)), (''listen'', JStr ''0.0.0.0''),
            (''listen_port'', port_json m), (''tls'', JObj [(''enabled'', JBool True), (''certificate_path'', JStr (live @ ''/fullchain.pem'')),
            (''key_path'', JStr (live @ ''/privkey.pem''))])];
          user = (\<lambda>c. protocol_credential (es_keys S) c p)
      in JObj (inbound @
           (if p = Grpc then [(''users'', vless_users ''name'' cs),
                (''transport'', JObj ((''type'', JStr ''grpc'') # opt_text ''service_name'' (ms_path (m_settings m))))]
            else if p = Hysteria2
            then [(''users'', JArr (map (\<lambda>c. JObj [(''name'', JStr (fst (secret_fields (cs_hysteria c)))), (''password'', JStr (hysteria_password c))]) cs))]
            else (if p = Naive then [(''network'', JStr ''tcp'')] else []) @
                 [(''users'', JArr (map (\<lambda>c. JObj (if p = AnyTLS then [(''name'', JStr (fst (user c))), (''password'', JStr (snd (user c)))]
                     else user_fields (user c))) cs))])))"

definition method_listeners :: "engine_site \<Rightarrow> engine \<Rightarrow> conn_method list \<Rightarrow> credential_set list \<Rightarrow> json list" where
  "method_listeners S e ms cs =
     (if cs = [] then []
      else map (if e = Mihomo then mihomo_listener S cs else sing_box_inbound S cs) (filter (\<lambda>m. m_engine m = e \<and> m_enabled m) ms))"

section \<open>Rendering\<close>

definition render_hysteria :: "engine_io \<Rightarrow> engine_site \<Rightarrow> string \<Rightarrow> string result" where
  "render_hysteria io S template =
     bind_result (assert_template io Hysteria template) (\<lambda>_.
       (let live = ''/etc/letsencrypt/live/'' @ si_domain (es_site S);
            rendered = fold (\<lambda>(x, v). replace_first (placeholder x) v)
              [(''TLS_CERT'', live @ ''/fullchain.pem''), (''TLS_KEY'', live @ ''/privkey.pem''),
               (''AUTH_URL'', ''http://127.0.0.1:8181/internal/hysteria/auth''), (''STATS_LISTEN'', engine_api Hysteria),
               (''STATS_SECRET'', es_stats_secret S)] template
        in bind_result (ei_yaml io rendered) (\<lambda>_. Ok rendered)))"

definition quoted :: "string \<Rightarrow> string" where
  "quoted x = ''\"'' @ placeholder x @ ''\"''"

definition render_xray :: "engine_io \<Rightarrow> engine_site \<Rightarrow> string \<Rightarrow> credential_set list \<Rightarrow> string result" where
  "render_xray io S template cs =
     bind_result (assert_template io Xray template) (\<lambda>_.
       (let users = ei_json_line io (JArr (map (\<lambda>c. JObj [(''id'', JStr (xray_id c)), (''email'', JStr (snd (secret_fields (cs_xray c)))), (''flow'', JStr [])]) cs));
            api = ei_json_line io (JObj [(''tag'', JStr ''api''), (''listen'', JStr (engine_api Xray)),
              (''services'', texts [''HandlerService'', ''StatsService'', ''LoggerService''])]);
            rendered = fold (\<lambda>(needle, v). replace_first needle v)
              [(quoted ''STATS'', ei_json_line io (JObj [])), (quoted ''API'', api), (quoted ''XHTTP_USERS'', users), (quoted ''GRPC_USERS'', users),
               (placeholder ''XHTTP_PATH'', xhttp_path (es_paths S)), (placeholder ''GRPC_SERVICE'', grpc_service (es_paths S))] template
        in bind_result (ei_json io rendered) (\<lambda>_. Ok rendered)))"

definition set_property :: "string \<Rightarrow> json \<Rightarrow> json \<Rightarrow> json result" where
  "set_property k v j =
     (case j of JObj kvs \<Rightarrow> Ok (JObj (map_set k v kvs)) | JArr xs \<Rightarrow> Ok j | _ \<Rightarrow> Err (Thrown ''TypeError''))"

text \<open>\<open>profile.inbounds.filter\<close>: the listeners of the edge that no enabled method needs are dropped.\<close>

definition edge_inbound :: "conn_method list \<Rightarrow> json \<Rightarrow> bool" where
  "edge_inbound selected j \<longleftrightarrow>
     field_of j ''tag'' \<notin> {Some (JStr ''vless-xhttp''), Some (JStr ''vless-grpc'')} \<or>
     (\<exists>m\<in>set selected. field_of j ''tag'' = Some (JStr (''vless-'' @ protocol_key (m_protocol m))))"

definition filter_inbounds :: "conn_method list \<Rightarrow> json \<Rightarrow> json result" where
  "filter_inbounds selected j =
     (case field_of j ''inbounds'' of
        Some (JArr xs) \<Rightarrow>
          if JNull \<in> set xs then Err (Thrown ''TypeError'') else set_property ''inbounds'' (JArr (filter (edge_inbound selected) xs)) j
      | _ \<Rightarrow> Err (Thrown ''TypeError''))"

definition amnezia_snapshot_json :: "amnezia_server \<Rightarrow> (string \<times> string \<times> string) list \<Rightarrow> nat \<Rightarrow> json" where
  "amnezia_snapshot_json server peers port =
     JObj [(''server'', JObj [(''privateKey'', JStr (aw_private_key server)), (''headerProtectionKey'', JStr (aw_header_key server))]),
       (''peers'', JArr (map (\<lambda>(key, psk, a). JObj [(''publicKey'', JStr key), (''presharedKey'', JStr psk), (''address'', JStr a)]) peers)),
       (''listenPort'', JNum (int port))]"

definition render_engine ::
  "engine_io \<Rightarrow> engine_site \<Rightarrow> engine \<Rightarrow> string \<Rightarrow> credential_set list \<Rightarrow> conn_method list \<Rightarrow> string result" where
  "render_engine io S e template cs ms =
     (let selected = filter (\<lambda>m. m_engine m = e \<and> m_enabled m) ms
      in case e of
           Hysteria \<Rightarrow>
             bind_result (render_hysteria io S template) (\<lambda>text. bind_result (ei_yaml io text) (\<lambda>profile.
             bind_result (set_property ''listen'' (JStr (case selected of [] \<Rightarrow> ''127.0.0.1:0'' | m # _ \<Rightarrow> '':'' @ port_text m)) profile) (\<lambda>profile.
               Ok (ei_yaml_text io profile))))
         | Xray \<Rightarrow>
             bind_result (render_xray io S template cs) (\<lambda>text. bind_result (ei_json io text) (\<lambda>profile.
             bind_result (filter_inbounds selected profile) (\<lambda>profile. Ok (ei_json_text io profile))))
         | AmneziaWG \<Rightarrow>
             bind_result (assert_template io e template) (\<lambda>_.
             bind_result (amnezia_peers (es_keys S) (if selected = [] then [] else cs)) (\<lambda>peers.
               (let server = si_server (es_site S); port = (case selected of [] \<Rightarrow> 0 | m # _ \<Rightarrow> ms_port (m_settings m))
                in bind_result (amnezia_native (aw_private_key server) (aw_header_key server) (Some port) peers) (\<lambda>_.
                     Ok (ei_json_text io (amnezia_snapshot_json server peers port))))))
         | Mihomo \<Rightarrow>
             bind_result (assert_template io e template) (\<lambda>_. bind_result (parse_template io e template) (\<lambda>profile.
             bind_result (set_property ''secret'' (JStr (engine_api_secret S Mihomo)) profile) (\<lambda>profile.
             bind_result (set_property ''listeners'' (JArr (method_listeners S e ms cs)) profile) (\<lambda>profile. Ok (ei_yaml_text io profile)))))
         | SingBox \<Rightarrow>
             bind_result (assert_template io e template) (\<lambda>_. bind_result (parse_template io e template) (\<lambda>profile.
             bind_result (set_property ''inbounds'' (JArr (method_listeners S e ms cs)) profile) (\<lambda>profile.
             bind_result (set_property ''services'' (JArr [JObj [(''type'', JStr ''api''), (''tag'', JStr ''outpost-telemetry''), (''listen'', JStr ''127.0.0.1''),
                 (''listen_port'', JNum 10086), (''secret'', JStr (engine_api_secret S SingBox))]]) profile) (\<lambda>profile.
               Ok (ei_json_text io profile))))))"

section \<open>What a change does\<close>

text \<open>\<open>lineDiff\<close>: the lines between the common beginning and the common end.\<close>

fun common_prefix :: "'a list \<Rightarrow> 'a list \<Rightarrow> nat" where
  "common_prefix (x # xs) (y # ys) = (if x = y then Suc (common_prefix xs ys) else 0)"
| "common_prefix _ _ = 0"

definition common_suffix :: "'a list \<Rightarrow> 'a list \<Rightarrow> nat" where
  "common_suffix xs ys =
     (let n = common_prefix xs ys in common_prefix (rev (drop n xs)) (rev (drop n ys)))"

datatype diff_line = Removed string | Added string

definition line_diff :: "string option \<Rightarrow> string \<Rightarrow> diff_line list" where
  "line_diff before after =
     (if before = Some after then []
      else (case before of
              None \<Rightarrow> map Added (split_on (CHR 0x0A) after)
            | Some b \<Rightarrow>
                (let left = split_on (CHR 0x0A) b; right = split_on (CHR 0x0A) after;
                     prefix = common_prefix left right; suffix = common_suffix left right
                 in map Removed (drop prefix (take (length left - suffix) left)) @
                    map Added (drop prefix (take (length right - suffix) right)))))"

section \<open>Revisions\<close>

record config_row =
  ec_id :: string
  ec_engine :: engine
  ec_version :: nat
  ec_preset :: nat
  ec_template :: string
  ec_hash :: string
  ec_active :: bool
  ec_created_at :: time

text \<open>The table \<open>engine_configs\<close> beside the other tables.\<close>

record config_db =
  cd_db :: db
  cd_rows :: "config_row list"

definition active_config :: "engine \<Rightarrow> config_db \<Rightarrow> config_row option" where
  "active_config e w = select_one (\<lambda>r. ec_engine r = e \<and> ec_active r) (cd_rows w)"

definition default_text :: "(engine \<Rightarrow> string) \<Rightarrow> engine \<Rightarrow> config_db \<Rightarrow> string" where
  "default_text defaults e w = (case active_config e w of None \<Rightarrow> defaults e | Some r \<Rightarrow> ec_template r)"

text \<open>
  What the service is built on.  \<open>defaults\<close> are the texts of the current presets, \<open>methods\<close> the
  stored connection methods.
\<close>

record config_env =
  ce_io :: engine_io
  ce_site :: engine_site
  ce_defaults :: "engine \<Rightarrow> string"

definition stored_methods :: "config_env \<Rightarrow> config_db \<Rightarrow> conn_method list" where
  "stored_methods E w = method_list (es_paths (ce_site E)) (cd_db w)"

record config_preview =
  cv_errors :: "template_error list"
  cv_rendered :: "string option"
  cv_hash :: "string option"
  cv_diff :: "diff_line list"

definition preview_config :: "config_env \<Rightarrow> engine \<Rightarrow> string \<Rightarrow> credential_set list \<Rightarrow> config_db \<Rightarrow> config_preview" where
  "preview_config E e template cs w =
     (let errors = validate_template (ce_io E) e template; refused = (\<lambda>errors. \<lparr>cv_errors = errors, cv_rendered = None, cv_hash = None, cv_diff = []\<rparr>)
      in if errors \<noteq> [] then refused errors
         else (case render_engine (ce_io E) (ce_site E) e template cs (stored_methods E w) of
                 Inl err \<Rightarrow> refused [Unparsed err]
               | Inr rendered \<Rightarrow>
                   (let previous = render_engine (ce_io E) (ce_site E) e (default_text (ce_defaults E) e w) cs (stored_methods E w)
                    in \<lparr>cv_errors = [], cv_rendered = Some rendered, cv_hash = Some (ei_hash (ce_io E) rendered),
                        cv_diff = line_diff (case previous of Inl _ \<Rightarrow> None | Inr p \<Rightarrow> Some p) rendered\<rparr>)))"

text \<open>
  \<open>apply\<close> up to the request to the root agent.  The lock of the engine snapshots admits one
  configuration at a time, so that no row is added before \<open>finish_apply\<close>; everything else may
  change.
\<close>

record pending_config =
  pg_id :: string
  pg_engine :: engine
  pg_version :: nat
  pg_preset :: nat
  pg_template :: string
  pg_rendered :: string
  pg_hash :: string
  pg_restart :: bool
  pg_actor :: string
  pg_rolled_back :: "nat option"
  pg_now :: time

definition begin_apply ::
  "config_env \<Rightarrow> engine \<Rightarrow> string \<Rightarrow> credential_set list \<Rightarrow> string \<Rightarrow> nat option \<Rightarrow> nat \<Rightarrow> bool \<Rightarrow> string \<Rightarrow> time \<Rightarrow> config_db \<Rightarrow> pending_config result" where
  "begin_apply E e template cs actor target preset restart uuid now w =
     (let v = preview_config E e template cs w
      in case (cv_rendered v, cv_hash v) of
           (Some rendered, Some hash) \<Rightarrow>
             if rendered = [] \<or> hash = [] then Err (ServiceError 400)
             else Ok \<lparr>pg_id = uuid, pg_engine = e, pg_version = Suc (fold max (map ec_version (filter (\<lambda>r. ec_engine r = e) (cd_rows w))) 0),
                    pg_preset = preset, pg_template = template, pg_rendered = rendered, pg_hash = hash,
                    pg_restart = (restart \<and> has_engine e (cd_db w)), pg_actor = actor, pg_rolled_back = target, pg_now = now\<rparr>
         | _ \<Rightarrow> Err (ServiceError 400))"

text \<open>The row is inserted in a transaction; the keys of the table are \<open>id\<close> and \<open>(engine, version)\<close>.\<close>

definition store_config :: "pending_config \<Rightarrow> config_row list \<Rightarrow> config_row list result" where
  "store_config g rows =
     (let off = update_where (\<lambda>r. ec_engine r = pg_engine g) (\<lambda>r. r\<lparr>ec_active := False\<rparr>) rows
      in if \<exists>r\<in>set rows. ec_id r = pg_id g \<or> ec_engine r = pg_engine g \<and> ec_version r = pg_version g then Err (Thrown ''constraint'')
         else Ok (off @ [\<lparr>ec_id = pg_id g, ec_engine = pg_engine g, ec_version = pg_version g, ec_preset = pg_preset g, ec_template = pg_template g,
                ec_hash = pg_hash g, ec_active = True, ec_created_at = pg_now g\<rparr>]))"

definition config_data :: "pending_config \<Rightarrow> (string \<times> json) list" where
  "config_data g = [(''engine'', JStr (engine_key (pg_engine g))), (''version'', JNum (int (pg_version g))), (''presetVersion'', JNum (int (pg_preset g)))] @
     (case pg_rolled_back g of None \<Rightarrow> [] | Some v \<Rightarrow> [(''targetVersion'', JNum (int v))])"

definition finish_apply :: "pending_config \<Rightarrow> unit result \<Rightarrow> time \<Rightarrow> config_db \<Rightarrow> config_db result" where
  "finish_apply g answer now w =
     bind_result answer (\<lambda>_.
     bind_result (store_config g (cd_rows w)) (\<lambda>rows.
       (case audit (pg_actor g) (if pg_rolled_back g = None then ''engines.config.apply'' else ''engines.config.rollback'') ''engine_config''
               (Some (pg_id g)) (Some (JObj (config_data g @ [(''hash'', JStr (pg_hash g))]))) now (cd_db w) of
          (aid, d) \<Rightarrow>
            bind_result (record_event (if pg_rolled_back g = None then ''engine.config_applied'' else ''engine.config_rolled_back'')
                (entry\<lparr>je_actor := Some (pg_actor g), je_audit_id := Some aid, je_source := Some (engine_key (pg_engine g)),
                   je_subject_type := Some ''engine_config'', je_subject_id := Some (pg_id g), je_data := config_data g\<rparr>) now d) (\<lambda>d.
              Ok (w\<lparr>cd_db := d, cd_rows := rows\<rparr>)))))"

definition begin_rollback ::
  "config_env \<Rightarrow> engine \<Rightarrow> nat \<Rightarrow> credential_set list \<Rightarrow> string \<Rightarrow> string \<Rightarrow> time \<Rightarrow> config_db \<Rightarrow> pending_config result" where
  "begin_rollback E e version cs actor uuid now w =
     (case select_one (\<lambda>r. ec_engine r = e \<and> ec_version r = version) (cd_rows w) of
        None \<Rightarrow> Err (ServiceError 404)
      | Some r \<Rightarrow>
          (let upgrade = merge_engine_preset (engine_template_io (ce_io E)) e (ec_template r) (ec_preset r)
           in if pm_errors upgrade \<noteq> [] \<or> pm_conflicts upgrade \<noteq> [] then Err (ServiceError 409)
              else begin_apply E e (pm_template upgrade) cs actor (Some version) (pm_to upgrade) True uuid now w))"

text \<open>\<open>reconcilePresets\<close> for one engine: nothing to do, a refusal, or a configuration to apply.\<close>

datatype reconcile_status = NotInstalled | CurrentPreset nat | Conflicting "preset_conflict list" | InvalidTemplate | Applying pending_config

definition begin_reconcile ::
  "config_env \<Rightarrow> engine \<Rightarrow> credential_set list \<Rightarrow> string \<Rightarrow> bool option \<Rightarrow> string \<Rightarrow> time \<Rightarrow> config_db \<Rightarrow> reconcile_status result" where
  "begin_reconcile E e cs actor restart uuid now w =
     (if engine_optional e \<and> \<not> has_engine e (cd_db w) then Ok NotInstalled
      else case active_config e w of
             Some r \<Rightarrow>
               if current_preset e \<le> ec_preset r then Ok (CurrentPreset (ec_preset r))
               else (let upgrade = merge_engine_preset (engine_template_io (ce_io E)) e (ec_template r) (ec_preset r);
                         template = pm_template upgrade
                     in if pm_conflicts upgrade \<noteq> [] then Ok (Conflicting (pm_conflicts upgrade))
                        else if pm_errors upgrade \<noteq> [] \<or> validate_template (ce_io E) e template \<noteq> [] then Ok InvalidTemplate
                        else map_sum id Applying (begin_apply E e template cs actor None (current_preset e)
                               (coalesce restart (\<not> engine_optional e)) uuid now w))
           | None \<Rightarrow>
               (let template = ce_defaults E e
                in if validate_template (ce_io E) e template \<noteq> [] then Ok InvalidTemplate
                   else map_sum id Applying (begin_apply E e template cs actor None (current_preset e)
                          (coalesce restart (\<not> engine_optional e)) uuid now w)))"

text \<open>What the panel shows of an engine.\<close>

datatype preset_status = PresetCurrent | PresetNewer | PresetConflict | PresetInvalid | PresetAvailable

definition preset_state :: "config_env \<Rightarrow> engine \<Rightarrow> config_db \<Rightarrow> preset_status" where
  "preset_state E e w =
     (case active_config e w of
        None \<Rightarrow> PresetCurrent
      | Some r \<Rightarrow>
          if ec_preset r = current_preset e then PresetCurrent
          else if current_preset e < ec_preset r then PresetNewer
          else (let upgrade = merge_engine_preset (engine_template_io (ce_io E)) e (ec_template r) (ec_preset r)
                in if pm_conflicts upgrade \<noteq> [] then PresetConflict
                   else if pm_errors upgrade \<noteq> [] \<or> validate_template (ce_io E) e (pm_template upgrade) \<noteq> [] then PresetInvalid
                   else PresetAvailable))"

record engine_state_view =
  ev_active_version :: nat
  ev_template :: string
  ev_preset_version :: nat
  ev_preset :: preset_status
  ev_revisions :: "config_row list"

definition latest_revisions :: "config_row list \<Rightarrow> config_row list" where
  "latest_revisions rows = rev (sort_key ec_version rows)"

definition engine_state :: "config_env \<Rightarrow> engine \<Rightarrow> config_db \<Rightarrow> engine_state_view" where
  "engine_state E e w =
     (let active = active_config e w
      in \<lparr>ev_active_version = (case active of None \<Rightarrow> 0 | Some r \<Rightarrow> ec_version r), ev_template = default_text (ce_defaults E) e w,
          ev_preset_version = (case active of None \<Rightarrow> current_preset e | Some r \<Rightarrow> ec_preset r), ev_preset = preset_state E e w,
          ev_revisions = take 20 (latest_revisions (filter (\<lambda>r. ec_engine r = e) (cd_rows w)))\<rparr>)"

end
