(* ===== verification/Config_Properties.thy ===== *)
theory Config_Properties
  imports Engine_Configs
begin

text \<open>
  The revisions of the configurations: the active one is always the newest and valid, whatever
  the agent answers, and what is rendered keeps the rules the panel insists on.
\<close>

section \<open>The revisions of an engine\<close>

definition versions_of :: "engine \<Rightarrow> config_row list \<Rightarrow> nat list" where
  "versions_of e rows = map ec_version (filter (\<lambda>r. ec_engine r = e) rows)"

definition configs_ok :: "config_env \<Rightarrow> config_row list \<Rightarrow> bool" where
  "configs_ok E rows \<longleftrightarrow>
     (\<forall>e. versions_of e rows = [1..<Suc (length (versions_of e rows))]) \<and>
     (\<forall>r\<in>set rows. (ec_active r \<longleftrightarrow> ec_version r = length (versions_of (ec_engine r) rows)) \<and>
        ec_preset r \<le> current_preset (ec_engine r) \<and>
        (ec_preset r = current_preset (ec_engine r) \<longrightarrow> validate_template (ce_io E) (ec_engine r) (ec_template r) = []))"

definition next_version :: "engine \<Rightarrow> config_row list \<Rightarrow> nat" where
  "next_version e rows = Suc (length (versions_of e rows))"

lemma fold_max_upt: "fold max [1..<Suc n] 0 = n"
proof (induction n)
  case (Suc n)
  have "[1..<Suc (Suc n)] = [1..<Suc n] @ [Suc n]" by simp
  then show ?case using Suc by simp
qed simp

lemma begin_apply_facts:
  assumes "begin_apply E e t cs actor target preset restart uuid now w = Ok g" "configs_ok E (cd_rows w)"
  shows "pg_version g = next_version e (cd_rows w)" "validate_template (ce_io E) e t = []" "pg_template g = t" "pg_engine g = e"
    "pg_id g = uuid" "pg_preset g = preset" "render_engine (ce_io E) (ce_site E) e t cs (stored_methods E w) = Ok (pg_rendered g)"
    "pg_hash g = ei_hash (ce_io E) (pg_rendered g)"
proof -
  have "fold max (versions_of e (cd_rows w)) 0 = length (versions_of e (cd_rows w))"
    using assms(2) fold_max_upt unfolding configs_ok_def by metis
  moreover have "cv_rendered (preview_config E e t cs w) \<noteq> None" using assms(1) by (auto simp: begin_apply_def Let_def split: option.splits)
  then have v: "validate_template (ce_io E) e t = []" by (auto simp: preview_config_def Let_def split: if_splits)
  ultimately show "pg_version g = next_version e (cd_rows w)" "validate_template (ce_io E) e t = []" "pg_template g = t" "pg_engine g = e"
    "pg_id g = uuid" "pg_preset g = preset" "render_engine (ce_io E) (ce_site E) e t cs (stored_methods E w) = Ok (pg_rendered g)"
    "pg_hash g = ei_hash (ce_io E) (pg_rendered g)"
    using assms(1)
    by (auto simp: begin_apply_def preview_config_def Let_def next_version_def versions_of_def split: if_splits option.splits sum.splits)
qed

text \<open>A configuration on its way that fits the revisions.\<close>

definition pending_ok :: "config_env \<Rightarrow> pending_config \<Rightarrow> config_row list \<Rightarrow> bool" where
  "pending_ok E g rows \<longleftrightarrow>
     pg_version g = next_version (pg_engine g) rows \<and> validate_template (ce_io E) (pg_engine g) (pg_template g) = [] \<and>
     pg_preset g = current_preset (pg_engine g) \<and> pg_id g \<notin> ec_id ` set rows"

lemma versions_off: "versions_of e (update_where P (\<lambda>r. r\<lparr>ec_active := b\<rparr>) rows) = versions_of e rows"
  by (induction rows) (auto simp: versions_of_def update_where_def)

lemma versions_range: "configs_ok E rows \<Longrightarrow> r \<in> set rows \<Longrightarrow> ec_version r \<in> {1..length (versions_of (ec_engine r) rows)}"
proof -
  assume ok: "configs_ok E rows" and r: "r \<in> set rows"
  then have "ec_version r \<in> set (versions_of (ec_engine r) rows)" by (simp add: versions_of_def)
  also have "\<dots> = set [1..<Suc (length (versions_of (ec_engine r) rows))]" using ok unfolding configs_ok_def by metis
  finally show ?thesis by auto
qed

lemma versions_append: "versions_of e (rows @ [r]) = versions_of e rows @ (if ec_engine r = e then [ec_version r] else [])"
  by (simp add: versions_of_def)

lemma store_config_ok:
  assumes ok: "configs_ok E rows" and g: "pending_ok E g rows"
  shows "\<exists>rows'. store_config g rows = Ok rows' \<and> configs_ok E rows' \<and>
     (\<exists>r. filter (\<lambda>r. ec_engine r = pg_engine g \<and> ec_active r) rows' = [r] \<and> ec_template r = pg_template g \<and> ec_hash r = pg_hash g \<and>
        ec_version r = pg_version g \<and> ec_preset r = pg_preset g)"
proof -
  let ?n = "length (versions_of (pg_engine g) rows)"
  let ?off = "update_where (\<lambda>r. ec_engine r = pg_engine g) (\<lambda>r. r\<lparr>ec_active := False\<rparr>) rows"
  let ?r = "\<lparr>ec_id = pg_id g, ec_engine = pg_engine g, ec_version = pg_version g, ec_preset = pg_preset g, ec_template = pg_template g,
     ec_hash = pg_hash g, ec_active = True, ec_created_at = pg_now g\<rparr>"
  have v: "pg_version g = Suc ?n" using g by (simp add: pending_ok_def next_version_def)
  have low: "ec_version r \<le> ?n" if "r \<in> set rows" "ec_engine r = pg_engine g" for r
    using versions_range [OF ok that(1)] that(2) by simp
  have fresh: "\<not> (\<exists>r\<in>set rows. ec_id r = pg_id g \<or> ec_engine r = pg_engine g \<and> ec_version r = pg_version g)"
  proof
    assume "\<exists>r\<in>set rows. ec_id r = pg_id g \<or> ec_engine r = pg_engine g \<and> ec_version r = pg_version g"
    then obtain r where r: "r \<in> set rows" "ec_id r = pg_id g \<or> ec_engine r = pg_engine g \<and> ec_version r = pg_version g" by blast
    from g r(1) have "ec_id r \<noteq> pg_id g" by (force simp: pending_ok_def)
    with r low [OF r(1)] v show False by simp
  qed
  then have store: "store_config g rows = Ok (?off @ [?r])" by (simp add: store_config_def)
  have versions: "versions_of e (?off @ [?r]) = versions_of e rows @ (if e = pg_engine g then [Suc ?n] else [])" for e
    using v by (auto simp: versions_append versions_off)
  have ups: "versions_of e (?off @ [?r]) = [1..<Suc (length (versions_of e (?off @ [?r])))]" for e
  proof -
    have "[1..<Suc (length (versions_of e rows))] = versions_of e rows" using ok unfolding configs_ok_def by metis
    then show ?thesis
      unfolding versions using upt_Suc_append [of 1 "Suc (length (versions_of e rows))"] by (auto simp del: upt_Suc)
  qed
  have row: "(ec_active x \<longleftrightarrow> ec_version x = length (versions_of (ec_engine x) (?off @ [?r]))) \<and>
      ec_preset x \<le> current_preset (ec_engine x) \<and>
      (ec_preset x = current_preset (ec_engine x) \<longrightarrow> validate_template (ce_io E) (ec_engine x) (ec_template x) = [])"
    if x: "x \<in> set (?off @ [?r])" for x
  proof (cases "x = ?r")
    case True
    with g v show ?thesis unfolding versions by (simp add: pending_ok_def)
  next
    case False
    with x obtain r where r: "r \<in> set rows" "x = (if ec_engine r = pg_engine g then r\<lparr>ec_active := False\<rparr> else r)"
      by (auto simp: update_where_def)
    from ok r(1) have "ec_active r \<longleftrightarrow> ec_version r = length (versions_of (ec_engine r) rows)"
      "ec_preset r \<le> current_preset (ec_engine r)"
      "ec_preset r = current_preset (ec_engine r) \<Longrightarrow> validate_template (ce_io E) (ec_engine r) (ec_template r) = []"
      by (simp_all add: configs_ok_def)
    with r low [OF r(1)] show ?thesis unfolding versions by auto
  qed
  from ups row have "configs_ok E (?off @ [?r])" unfolding configs_ok_def by blast
  moreover have "filter (\<lambda>r. ec_engine r = pg_engine g \<and> ec_active r) (?off @ [?r]) = [?r]"
    by (auto simp: update_where_def filter_empty_conv)
  ultimately show ?thesis using store by (intro exI [of _ "?off @ [?r]"]) auto
qed

section \<open>Any order of events\<close>

text \<open>
  The state is the database and the configuration on its way, if any: the lock admits one.  The
  root agent answers in any way and at any time; the rest of the panel changes the other tables
  as it likes.  A \<open>uuid\<close> is new.
\<close>

type_synonym config_state = "config_db \<times> pending_config option"

definition fresh_id :: "string \<Rightarrow> config_db \<Rightarrow> bool" where
  "fresh_id i w \<longleftrightarrow> i \<notin> ec_id ` set (cd_rows w)"

inductive config_step :: "config_env \<Rightarrow> config_state \<Rightarrow> config_state \<Rightarrow> bool" for E where
  apply_step: "begin_apply E e t cs actor None (current_preset e) restart i now w = Ok g \<Longrightarrow> fresh_id i w \<Longrightarrow>
     config_step E (w, None) (w, Some g)"
| rollback_step: "begin_rollback E e v cs actor i now w = Ok g \<Longrightarrow> fresh_id i w \<Longrightarrow> config_step E (w, None) (w, Some g)"
| reconcile_step: "begin_reconcile E e cs actor restart i now w = Ok (Applying g) \<Longrightarrow> fresh_id i w \<Longrightarrow>
     config_step E (w, None) (w, Some g)"
| answered_step: "finish_apply g answer now w = Ok w' \<Longrightarrow> config_step E (w, Some g) (w', None)"
| failed_step: "finish_apply g answer now w = Err e \<Longrightarrow> config_step E (w, Some g) (w, None)"
| other_step: "config_step E (w, p) (w\<lparr>cd_db := d\<rparr>, p)"

definition config_inv :: "config_env \<Rightarrow> config_state \<Rightarrow> bool" where
  "config_inv E s \<longleftrightarrow>
     configs_ok E (cd_rows (fst s)) \<and> (\<forall>g. snd s = Some g \<longrightarrow> pending_ok E g (cd_rows (fst s)))"

lemma begin_apply_pending:
  assumes "begin_apply E e t cs actor target (current_preset e) restart i now w = Ok g" "fresh_id i w" "configs_ok E (cd_rows w)"
  shows "pending_ok E g (cd_rows w)"
  using begin_apply_facts [OF assms(1,3)] assms(2) by (simp add: pending_ok_def fresh_id_def)

lemma merge_to: "pm_to (merge_engine_preset T e t v) = current_preset e"
  by (simp add: merge_engine_preset_def merge_failed_def Let_def split: option.split sum.split prod.split)

lemma begin_rollback_pending:
  assumes "begin_rollback E e v cs actor i now w = Ok g" "fresh_id i w" "configs_ok E (cd_rows w)"
  shows "pending_ok E g (cd_rows w)"
proof -
  from assms(1) obtain t target where "begin_apply E e t cs actor target (current_preset e) True i now w = Ok g"
    by (auto simp: begin_rollback_def Let_def merge_to split: option.splits if_splits)
  with begin_apply_pending assms(2,3) show ?thesis by blast
qed

lemma map_sum_Ok: "map_sum id f x = Ok y \<longleftrightarrow> (\<exists>z. x = Ok z \<and> y = f z)"
  by (cases x) auto

lemma begin_reconcile_pending:
  assumes "begin_reconcile E e cs actor restart i now w = Ok (Applying g)" "fresh_id i w" "configs_ok E (cd_rows w)"
  shows "pending_ok E g (cd_rows w)"
proof -
  from assms(1) obtain t restart' where "begin_apply E e t cs actor None (current_preset e) restart' i now w = Ok g"
    by (auto simp: begin_reconcile_def Let_def map_sum_Ok split: option.splits if_splits)
  with begin_apply_pending assms(2,3) show ?thesis by blast
qed

lemma config_events_known: "''engine.config_applied'' \<in> fst ` set definitions" "''engine.config_rolled_back'' \<in> fst ` set definitions"
  unfolding definitions_def list.set image_insert fst_conv by ((rule insertI1 | rule insertI2)+)+

lemma finish_apply_answer: "finish_apply g (Err e) now w = Err e"
  by (simp add: finish_apply_def)

lemma find_filter_head: "find P xs = (case filter P xs of [] \<Rightarrow> None | x # _ \<Rightarrow> Some x)"
  by (induction xs) auto

lemma finish_apply_accepted:
  assumes "store_config g (cd_rows w) = Ok rows"
  shows "\<exists>d. finish_apply g (Ok ()) now w = Ok (w\<lparr>cd_db := d, cd_rows := rows\<rparr>)"
proof -
  let ?type = "if pg_rolled_back g = None then ''engine.config_applied'' else ''engine.config_rolled_back''"
  obtain aid d1 where a: "audit (pg_actor g) (if pg_rolled_back g = None then ''engines.config.apply'' else ''engines.config.rollback'') ''engine_config''
      (Some (pg_id g)) (Some (JObj (config_data g @ [(''hash'', JStr (pg_hash g))]))) now (cd_db w) = (aid, d1)" by (rule prod.exhaust)
  have "?type \<in> fst ` set definitions" using config_events_known by simp
  from record_event_known [OF this] obtain d where
    "record_event ?type (entry\<lparr>je_actor := Some (pg_actor g), je_audit_id := Some aid, je_source := Some (engine_key (pg_engine g)),
       je_subject_type := Some ''engine_config'', je_subject_id := Some (pg_id g), je_data := config_data g\<rparr>) now d1 = Ok d" by blast
  then show ?thesis using assms a by (intro exI [of _ d]) (simp add: finish_apply_def)
qed

lemma finish_apply_rows:
  assumes "finish_apply g answer now w = Ok w'"
  shows "store_config g (cd_rows w) = Ok (cd_rows w')"
  using assms by (auto simp: finish_apply_def split_beta)

lemma config_step_inv: "config_step E s s' \<Longrightarrow> config_inv E s \<Longrightarrow> config_inv E s'"
proof (induction rule: config_step.induct)
  case (answered_step g answer now w w')
  then have "configs_ok E (cd_rows w)" "pending_ok E g (cd_rows w)" by (simp_all add: config_inv_def)
  from store_config_ok [OF this] finish_apply_rows [OF answered_step(1)] have "configs_ok E (cd_rows w')" by auto
  then show ?case by (simp add: config_inv_def)
qed (simp_all add: config_inv_def begin_apply_pending begin_rollback_pending begin_reconcile_pending)

lemma config_steps_inv: "(config_step E)\<^sup>*\<^sup>* s s' \<Longrightarrow> config_inv E s \<Longrightarrow> config_inv E s'"
  by (induction rule: rtranclp_induct) (auto intro: config_step_inv)


text \<open>A library that reads every text as the template of AmneziaWG.\<close>

definition sample_env :: config_env where
  "sample_env = \<lparr>ce_io = \<lparr>ei_yaml = (\<lambda>_. Err (Thrown ''yaml'')), ei_json = (\<lambda>_. Ok amnezia_preset), ei_yaml_text = (\<lambda>_. ''yaml''),
     ei_json_text = (\<lambda>_. ''json''), ei_json_line = (\<lambda>_. ''json''), ei_yaml_over = (\<lambda>t u m. Ok t), ei_hash = rev\<rparr>,
     ce_site = \<lparr>es_site = \<lparr>si_domain = ''vpn.example'', si_public_ip = [], si_origin = ''https://vpn.example'',
        si_server = \<lparr>aw_private_key = ''server'', aw_header_key = ''header''\<rparr>\<rparr>, es_paths = \<lparr>xhttp_path = ''/x'', grpc_service = ''g''\<rparr>,
        es_keys = \<lparr>kf_hmac = (\<lambda>k t. k), kf_x25519 = rev\<rparr>, es_stats_secret = ''secret''\<rparr>,
     ce_defaults = (\<lambda>_. [])\<rparr>"

definition sample_template :: string where
  "sample_template = placeholder ''AWG_SERVER'' @ placeholder ''AWG_PEERS''"

definition sample_configs :: config_db where
  "sample_configs = \<lparr>cd_db = empty_db, cd_rows = []\<rparr>"

lemma sample_valid: "validate_template (ce_io sample_env) AmneziaWG sample_template = []"
proof -
  have "count_text (placeholder ''AWG_SERVER'') sample_template = 1" "count_text (placeholder ''AWG_PEERS'') sample_template = 1" by code_simp+
  moreover have "engine_errors AmneziaWG amnezia_preset = []" by code_simp
  ultimately show ?thesis by (simp add: validate_template_def parse_template_def sample_env_def)
qed


section \<open>What is rendered\<close>

text \<open>
  The profile that goes to sing-box and Mihomo still holds the rule against QUIC, has a listener
  for every enabled method of the engine and no other.
\<close>

lemma set_property_field:
  "set_property k v j = Ok j' \<Longrightarrow> i \<noteq> k \<Longrightarrow> field_of j' i = field_of j i"
  "set_property k v (JObj kvs) = Ok j' \<Longrightarrow> field_of j' k = Some v"
  using map_get_set [of i k v] map_get_set [of k k v]
  by (auto simp: set_property_def field_of_def json_get_def map_get_def split: json.splits)

lemma nested_field: "nested_array (Some j) (k # ks) = nested_array (field_of j k) ks"
  by (cases j; cases ks) (auto simp: field_of_def)

lemma listeners_tags:
  "cs \<noteq> [] \<Longrightarrow> map (\<lambda>j. field_of j (if e = Mihomo then ''name'' else ''tag'')) (method_listeners S e ms cs) =
     map (\<lambda>m. Some (JStr (m_id m))) (filter (\<lambda>m. m_engine m = e \<and> m_enabled m) ms)"
  by (auto simp: method_listeners_def mihomo_listener_def sing_box_inbound_def field_of_def json_get_def Let_def)

lemma sing_box_rendered:
  assumes "render_engine io S SingBox t cs ms = Ok text"
  shows "\<exists>profile. text = ei_json_text io profile \<and> list_ex (matches_object (quic_rule SingBox)) (nested_array (Some profile) [''route'', ''rules'']) \<and>
     field_of profile ''inbounds'' = Some (JArr (method_listeners S SingBox ms cs))"
proof -
  from assms obtain j1 j2 j3 api where ok: "assert_template io SingBox t = Ok ()" "parse_template io SingBox t = Ok j1"
    and set: "set_property ''inbounds'' (JArr (method_listeners S SingBox ms cs)) j1 = Ok j2" "set_property ''services'' api j2 = Ok j3"
    and out: "text = ei_json_text io j3"
    by (auto simp: render_engine_def Let_def)
  from ok have e: "engine_errors SingBox j1 = []" by (simp add: assert_template_def validate_template_def split: if_splits)
  then have j1: "list_ex (matches_object (quic_rule SingBox)) (nested_array (Some j1) [''route'', ''rules''])"
    "field_of j1 ''inbounds'' \<noteq> None"
    by (auto simp: error_if_def split: if_splits)
  then obtain kvs where k: "j1 = JObj kvs" by (cases j1) (auto simp: field_of_def)
  have "field_of j3 ''inbounds'' = Some (JArr (method_listeners S SingBox ms cs))"
    using set_property_field(1) [OF set(2)] set_property_field(2) [OF set(1) [unfolded k]] by simp
  moreover have "field_of j3 ''route'' = field_of j1 ''route''"
    using set_property_field(1) [OF set(2), of "''route''"] set_property_field(1) [OF set(1), of "''route''"] by simp
  ultimately show ?thesis using j1(1) out unfolding nested_field by (intro exI [of _ j3]) simp
qed

lemma mihomo_rendered:
  assumes "render_engine io S Mihomo t cs ms = Ok text"
  shows "\<exists>profile. text = ei_yaml_text io profile \<and>
     JStr ''AND,((NETWORK,UDP),(DST-PORT,443)),REJECT'' \<in> set (nested_array (Some profile) [''rules'']) \<and>
     field_of profile ''listeners'' = Some (JArr (method_listeners S Mihomo ms cs)) \<and> field_of profile ''mode'' = Some (JStr ''rule'')"
proof -
  from assms obtain j1 j2 j3 secret where ok: "assert_template io Mihomo t = Ok ()" "parse_template io Mihomo t = Ok j1"
    and set: "set_property ''secret'' secret j1 = Ok j2" "set_property ''listeners'' (JArr (method_listeners S Mihomo ms cs)) j2 = Ok j3"
    and out: "text = ei_yaml_text io j3"
    by (auto simp: render_engine_def Let_def)
  from ok have e: "engine_errors Mihomo j1 = []" by (simp add: assert_template_def validate_template_def split: if_splits)
  then have j1: "JStr ''AND,((NETWORK,UDP),(DST-PORT,443)),REJECT'' \<in> set (nested_array (Some j1) [''rules''])"
    "field_of j1 ''mode'' = Some (JStr ''rule'')"
    by (auto simp: error_if_def split: if_splits)
  then obtain kvs where "j1 = JObj kvs" by (cases j1) (auto simp: field_of_def)
  then obtain kvs2 where k: "j2 = JObj kvs2" using set(1) by (auto simp: set_property_def)
  have "field_of j3 ''rules'' = field_of j1 ''rules''" "field_of j3 ''mode'' = field_of j1 ''mode''"
    using set_property_field(1) [OF set(2), of "''rules''"] set_property_field(1) [OF set(1), of "''rules''"]
      set_property_field(1) [OF set(2), of "''mode''"] set_property_field(1) [OF set(1), of "''mode''"] by simp_all
  moreover have "field_of j3 ''listeners'' = Some (JArr (method_listeners S Mihomo ms cs))"
    by (rule set_property_field(2) [OF set(2) [unfolded k]])
  ultimately show ?thesis using j1 out unfolding nested_field by (intro exI [of _ j3]) simp
qed

section \<open>The diff\<close>

lemma common_prefix_split: "n \<le> common_prefix xs ys \<Longrightarrow> take n xs = take n ys \<and> n \<le> length xs \<and> n \<le> length ys"
  by (induction xs ys arbitrary: n rule: common_prefix.induct) (case_tac n; auto split: if_splits)+

lemma split_three:
  assumes "m \<le> length xs - n" "n \<le> length xs"
  shows "xs = take n xs @ drop n (take (length xs - m) xs) @ drop (length xs - m) xs"
proof -
  have "n \<le> length xs - m" using assms by linarith
  then have "take n xs = take n (take (length xs - m) xs)" by simp
  then show ?thesis by (metis append_assoc append_take_drop_id)
qed

lemma same_end:
  assumes "take m (rev (drop n xs)) = take m (rev (drop n ys))" "m \<le> length xs - n" "m \<le> length ys - n" "n \<le> length xs" "n \<le> length ys"
  shows "drop (length xs - m) xs = drop (length ys - m) ys"
proof -
  have "drop (length zs - m) zs = drop (length (drop n zs) - m) (drop n zs)" if "m \<le> length zs - n" "n \<le> length zs" for zs :: "'a list"
    using that by (simp add: add.commute)
  then show ?thesis using assms by (simp add: take_rev)
qed

lemma line_diff_changes:
  assumes "b \<noteq> after"
  shows "\<exists>pre suf l r. split_on (CHR 0x0A) b = pre @ l @ suf \<and> split_on (CHR 0x0A) after = pre @ r @ suf \<and>
     line_diff (Some b) after = map Removed l @ map Added r"
proof -
  let ?l = "split_on (CHR 0x0A) b" and ?r = "split_on (CHR 0x0A) after"
  let ?n = "common_prefix ?l ?r" and ?m = "common_suffix ?l ?r"
  have n: "take ?n ?l = take ?n ?r" "?n \<le> length ?l" "?n \<le> length ?r" using common_prefix_split [of ?n ?l ?r] by auto
  have m: "take ?m (rev (drop ?n ?l)) = take ?m (rev (drop ?n ?r))" "?m \<le> length ?l - ?n" "?m \<le> length ?r - ?n"
    using common_prefix_split [of ?m "rev (drop ?n ?l)" "rev (drop ?n ?r)"] by (auto simp: common_suffix_def Let_def)
  have "?l = take ?n ?l @ drop ?n (take (length ?l - ?m) ?l) @ drop (length ?l - ?m) ?l" by (rule split_three [OF m(2) n(2)])
  moreover have "?r = take ?n ?l @ drop ?n (take (length ?r - ?m) ?r) @ drop (length ?l - ?m) ?l"
    unfolding n(1) same_end [OF m n(2,3)] by (rule split_three [OF m(3) n(3)])
  moreover have "line_diff (Some b) after = map Removed (drop ?n (take (length ?l - ?m) ?l)) @ map Added (drop ?n (take (length ?r - ?m) ?r))"
    using assms by (simp add: line_diff_def Let_def)
  ultimately show ?thesis by blast
qed

end
