(* ===== verification/Http_Access.thy ===== *)
theory Http_Access
  imports Auth
begin

text \<open>
  Who may call what (src/src/server/http.ts): the registered endpoints in their order, the
  authentication of a request, the scopes an API token needs, and the checks that the handlers
  make before anything else.

  The endpoints of \<open>registerRoutes\<close> carry their method, their path pattern, whether they are
  public, and the check of their handler; what a handler does belongs to the component it calls.
\<close>

section \<open>Requests\<close>

text \<open>The headers have lower-case names; \<open>Headers.get\<close> finds a name in any case.\<close>

record request =
  rq_method :: string
  rq_path :: string
  rq_query :: "(string \<times> string) list"
  rq_headers :: "(string \<times> string) list"

definition header :: "string \<Rightarrow> request \<Rightarrow> string option" where
  "header n r = map_of (rq_headers r) n"

text \<open>
  The address of the panel, whether it is a demonstration or still being set up, and
  \<open>decodeURIComponent\<close>, which throws on a malformed sequence.
\<close>

record site_config =
  sc_host :: string
  sc_origin :: string
  sc_demo :: bool
  sc_setup :: bool
  sc_decode :: "string \<Rightarrow> string option"

fun find_cookie :: "(string \<Rightarrow> string option) \<Rightarrow> string \<Rightarrow> string list \<Rightarrow> string option result" where
  "find_cookie decode n [] = Ok None"
| "find_cookie decode n (part # parts) =
     (case split_on CHR ''='' (trim part) of
        key # rest \<Rightarrow>
          if key = n then (case decode (join_with ''='' rest) of None \<Rightarrow> Err (Thrown ''URIError'') | Some v \<Rightarrow> Ok (Some v))
          else find_cookie decode n parts
      | [] \<Rightarrow> find_cookie decode n parts)"

definition cookie :: "site_config \<Rightarrow> string \<Rightarrow> request \<Rightarrow> string option result" where
  "cookie sc n r = find_cookie (sc_decode sc) n (split_on CHR '';'' (coalesce (header ''cookie'' r) []))"

section \<open>Paths\<close>

text \<open>
  \<open>URLPattern\<close>: a segment \<open>:name\<close> stands for any segment that is not empty, every other
  segment for itself.
\<close>

definition is_param :: "string \<Rightarrow> bool" where
  "is_param p \<longleftrightarrow> starts_with p '':''"

fun match_segments :: "string list \<Rightarrow> string list \<Rightarrow> (string \<times> string) list option" where
  "match_segments [] [] = Some []"
| "match_segments (p # ps) (s # ss) =
     (if is_param p
      then if s = [] then None else map_option (\<lambda>m. (tl p, s) # m) (match_segments ps ss)
      else if p = s then match_segments ps ss else None)"
| "match_segments _ _ = None"

definition match_path :: "string \<Rightarrow> string \<Rightarrow> (string \<times> string) list option" where
  "match_path pattern path = match_segments (split_on CHR ''/'' pattern) (split_on CHR ''/'' path)"

section \<open>Endpoints\<close>

text \<open>
  What a handler checks first: nothing, \<open>ownerOnly\<close>, \<open>requireApiScope\<close> for the credentials, or
  \<open>requireApiScope\<close> for a rotation when the action in the body is one.
\<close>

datatype check = Anyone | OwnerOnly | SecretScope | RotateScope

record endpoint =
  ep_method :: string
  ep_pattern :: string
  ep_public :: bool
  ep_check :: check

definition ep :: "string \<Rightarrow> string \<Rightarrow> bool \<Rightarrow> check \<Rightarrow> endpoint" where
  "ep m p pub c = \<lparr>ep_method = m, ep_pattern = p, ep_public = pub, ep_check = c\<rparr>"

definition access_endpoints :: "endpoint list" where
  "access_endpoints =
     [ep ''GET'' ''/healthz'' True Anyone,
      ep ''GET'' ''/readyz'' True Anyone,
      ep ''GET'' ''/api/v1/auth/state'' True Anyone,
      ep ''GET'' ''/api/v1/setup'' True Anyone,
      ep ''POST'' ''/api/v1/setup/domain'' True Anyone,
      ep ''POST'' ''/api/v1/setup/restore'' True Anyone,
      ep ''POST'' ''/api/v1/auth/register/options'' True Anyone,
      ep ''POST'' ''/api/v1/auth/register/verify'' True Anyone,
      ep ''POST'' ''/api/v1/auth/login/options'' True Anyone,
      ep ''POST'' ''/api/v1/auth/login/verify'' True Anyone,
      ep ''POST'' ''/api/v1/auth/logout'' False Anyone,
      ep ''GET'' ''/api/v1/security'' False OwnerOnly,
      ep ''POST'' ''/api/v1/invitations'' False OwnerOnly,
      ep ''DELETE'' ''/api/v1/invitations/:id'' False OwnerOnly,
      ep ''DELETE'' ''/api/v1/passkeys/:id'' False OwnerOnly,
      ep ''DELETE'' ''/api/v1/sessions'' False OwnerOnly,
      ep ''DELETE'' ''/api/v1/sessions/:id'' False OwnerOnly,
      ep ''GET'' ''/api/v1/me'' False Anyone,
      ep ''PATCH'' ''/api/v1/me'' False Anyone]"

definition panel_endpoints :: "endpoint list" where
  "panel_endpoints =
     [ep ''GET'' ''/api/v1/status'' False Anyone,
      ep ''GET'' ''/api/v1/dashboard'' False OwnerOnly,
      ep ''GET'' ''/api/v1/dashboard/events'' False OwnerOnly,
      ep ''GET'' ''/api/v1/connections'' False Anyone,
      ep ''GET'' ''/api/v1/connections/:id/diagnostics'' False Anyone,
      ep ''POST'' ''/api/v1/connections'' False Anyone,
      ep ''GET'' ''/api/v1/connections/:id'' False Anyone,
      ep ''PATCH'' ''/api/v1/connections/:id'' False Anyone,
      ep ''DELETE'' ''/api/v1/connections/:id'' False OwnerOnly,
      ep ''GET'' ''/api/v1/connections/:id/subscription'' False Anyone,
      ep ''POST'' ''/api/v1/connections/:id/retry'' False Anyone,
      ep ''POST'' ''/api/v1/connections/:id/rotate'' False OwnerOnly,
      ep ''POST'' ''/api/v1/connections/:id/suspend'' False OwnerOnly,
      ep ''POST'' ''/api/v1/connections/:id/resume'' False OwnerOnly]"

definition rule_endpoints :: "endpoint list" where
  "rule_endpoints =
     [ep ''GET'' ''/api/v1/routes'' False Anyone,
      ep ''GET'' ''/api/v1/routes/revisions'' False Anyone,
      ep ''GET'' ''/api/v1/routes/preview'' False Anyone,
      ep ''POST'' ''/api/v1/routes'' False Anyone,
      ep ''PATCH'' ''/api/v1/routes/:id'' False Anyone,
      ep ''DELETE'' ''/api/v1/routes/:id'' False Anyone,
      ep ''POST'' ''/api/v1/routes/reorder'' False Anyone,
      ep ''POST'' ''/api/v1/routes/publish'' False Anyone,
      ep ''POST'' ''/api/v1/routes/discard'' False Anyone,
      ep ''POST'' ''/api/v1/routes/rollback/:version'' False Anyone,
      ep ''GET'' ''/api/v1/rulesets'' False OwnerOnly,
      ep ''POST'' ''/api/v1/rulesets/refresh'' False OwnerOnly]"

definition engine_endpoints :: "endpoint list" where
  "engine_endpoints =
     [ep ''GET'' ''/api/v1/traffic'' False Anyone,
      ep ''GET'' ''/api/v1/system/metrics'' False Anyone,
      ep ''GET'' ''/api/v1/system'' False Anyone,
      ep ''GET'' ''/api/v1/system/events'' False Anyone,
      ep ''GET'' ''/api/v1/engines'' False Anyone,
      ep ''POST'' ''/api/v1/engines/check'' False Anyone,
      ep ''POST'' ''/api/v1/engines/:engine/check'' False Anyone,
      ep ''GET'' ''/api/v1/methods'' False Anyone,
      ep ''POST'' ''/api/v1/methods'' False Anyone,
      ep ''POST'' ''/api/v1/methods/reorder'' False Anyone,
      ep ''PATCH'' ''/api/v1/methods/:id'' False Anyone,
      ep ''DELETE'' ''/api/v1/methods/:id'' False Anyone,
      ep ''GET'' ''/api/v1/settings'' False Anyone,
      ep ''PATCH'' ''/api/v1/settings'' False Anyone,
      ep ''POST'' ''/api/v1/updates/check'' False OwnerOnly,
      ep ''POST'' ''/api/v1/updates/prepare'' False OwnerOnly,
      ep ''GET'' ''/api/v1/engines/configurations'' False Anyone,
      ep ''POST'' ''/api/v1/engines/configurations/preview'' False Anyone,
      ep ''POST'' ''/api/v1/engines/configurations/apply'' False Anyone,
      ep ''POST'' ''/api/v1/engines/configurations/:engine/rollback/:version'' False Anyone]"

definition operation_endpoints :: "endpoint list" where
  "operation_endpoints =
     [ep ''GET'' ''/api/v1/operations'' False Anyone,
      ep ''GET'' ''/api/v1/operations/events'' False Anyone,
      ep ''GET'' ''/api/v1/operations/:id'' False Anyone,
      ep ''POST'' ''/api/v1/diagnostics'' False Anyone,
      ep ''GET'' ''/api/v1/diagnostics/:id'' False Anyone,
      ep ''POST'' ''/api/v1/diagnostics/:id/cancel'' False Anyone,
      ep ''POST'' ''/api/v1/diagnostics/:id/claim'' False SecretScope,
      ep ''POST'' ''/api/v1/diagnostics/:id/report'' False Anyone,
      ep ''GET'' ''/api/v1/backups/:name'' False Anyone,
      ep ''POST'' ''/api/v1/operations/preview'' False RotateScope,
      ep ''POST'' ''/api/v1/operations/confirm'' False RotateScope,
      ep ''POST'' ''/api/v1/tokens'' False Anyone,
      ep ''GET'' ''/api/v1/tokens'' False Anyone,
      ep ''DELETE'' ''/api/v1/tokens/:id'' False Anyone]"

definition client_endpoints :: "endpoint list" where
  "client_endpoints =
     [ep ''POST'' ''/internal/hysteria/auth'' True Anyone,
      ep ''GET'' ''/s/:token/routes'' True Anyone,
      ep ''HEAD'' ''/s/:token/routes'' True Anyone,
      ep ''GET'' ''/s/:token/apps/:appId'' True Anyone,
      ep ''HEAD'' ''/s/:token/apps/:appId'' True Anyone,
      ep ''GET'' ''/s/:token/advanced/:target'' True Anyone,
      ep ''HEAD'' ''/s/:token/advanced/:target'' True Anyone,
      ep ''GET'' ''/s/:token/qr/:target'' True Anyone,
      ep ''HEAD'' ''/s/:token/qr/:target'' True Anyone,
      ep ''GET'' ''/s/:token'' True Anyone,
      ep ''HEAD'' ''/s/:token'' True Anyone,
      ep ''GET'' ''/rulesets/:family/:code'' True Anyone]"

definition registry :: "endpoint list" where
  "registry = access_endpoints @ panel_endpoints @ rule_endpoints @ engine_endpoints @ operation_endpoints @ client_endpoints"

definition matching :: "string \<Rightarrow> string \<Rightarrow> endpoint \<Rightarrow> bool" where
  "matching m path e \<longleftrightarrow> ep_method e = m \<and> match_path (ep_pattern e) path \<noteq> None"

definition find_endpoint :: "string \<Rightarrow> string \<Rightarrow> endpoint option" where
  "find_endpoint m path = find (matching m path) registry"

section \<open>Scopes\<close>

definition read_or :: "string \<Rightarrow> string \<Rightarrow> string \<Rightarrow> string" where
  "read_or m area other = area @ '':'' @ (if m = ''GET'' then ''read'' else other)"

definition required_scope :: "string \<Rightarrow> string \<Rightarrow> string" where
  "required_scope m path =
     (if path = ''/api/v1/status'' then ''status:read''
      else if starts_with path ''/api/v1/diagnostics'' then read_or m ''diagnostics'' ''run''
      else if starts_with path ''/api/v1/dashboard'' then ''owner:session''
      else if path = ''/api/v1/me'' then read_or m ''settings'' ''write''
      else if starts_with path ''/api/v1/connections'' then read_or m ''connections'' ''write''
      else if starts_with path ''/api/v1/routes'' then read_or m ''routes'' ''write''
      else if starts_with path ''/api/v1/rulesets'' then read_or m ''routes'' ''write''
      else if starts_with path ''/api/v1/traffic'' then ''traffic:read''
      else if starts_with path ''/api/v1/backups'' then ''backups:read''
      else if starts_with path ''/api/v1/operations'' then read_or m ''operations'' ''write''
      else if starts_with path ''/api/v1/settings'' then read_or m ''settings'' ''write''
      else if starts_with path ''/api/v1/engines'' \<or> starts_with path ''/api/v1/methods'' then read_or m ''engines'' ''write''
      else if starts_with path ''/api/v1/tokens'' then ''tokens:write''
      else if starts_with path ''/api/v1/system'' then ''system:read''
      else ''api:read'')"

text \<open>The two regular expressions say what the path patterns \<open>link_pattern\<close> and \<open>rotate_pattern\<close> say.\<close>

definition link_pattern :: string where
  "link_pattern = ''/api/v1/connections/:id/subscription''"

definition rotate_pattern :: string where
  "rotate_pattern = ''/api/v1/connections/:id/rotate''"

definition authorized :: "string \<Rightarrow> string \<Rightarrow> string list \<Rightarrow> bool" where
  "authorized m path scopes =
     (if ''*'' \<in> set scopes then True
      else if match_path link_pattern path \<noteq> None then ''connections:secret'' \<in> set scopes
      else if match_path rotate_pattern path \<noteq> None then ''connections:rotate'' \<in> set scopes
      else required_scope m path \<in> set scopes \<or> m = ''GET'' \<and> ''read'' \<in> set scopes \<or> m \<noteq> ''GET'' \<and> ''write'' \<in> set scopes)"

fun lacks_scope :: "principal option \<Rightarrow> string \<Rightarrow> bool" where
  "lacks_scope (Some (TokenPrincipal i scopes)) s \<longleftrightarrow> ''*'' \<notin> set scopes \<and> s \<notin> set scopes"
| "lacks_scope _ s \<longleftrightarrow> False"

fun is_owner :: "principal option \<Rightarrow> bool" where
  "is_owner (Some (OwnerPrincipal i tz l)) \<longleftrightarrow> True"
| "is_owner _ \<longleftrightarrow> False"

definition check_fails :: "check \<Rightarrow> string option \<Rightarrow> principal option \<Rightarrow> bool" where
  "check_fails c action who =
     (case c of Anyone \<Rightarrow> False
      | OwnerOnly \<Rightarrow> \<not> is_owner who
      | SecretScope \<Rightarrow> lacks_scope who ''connections:secret''
      | RotateScope \<Rightarrow> action = Some ''connection.rotate'' \<and> lacks_scope who ''connections:rotate'')"

section \<open>Dispatch\<close>

text \<open>
  A request that no endpoint matches is for a file; one that is refused gets the status; any other
  reaches the handler of its endpoint with the parameters of its path.
\<close>

datatype routed = ForFile | Denied nat | Reached endpoint "(string \<times> string) list"

definition admit :: "string \<Rightarrow> string \<Rightarrow> string option \<Rightarrow> principal option \<Rightarrow> routed" where
  "admit m path action who =
     (case find_endpoint m path of
        None \<Rightarrow> ForFile
      | Some e \<Rightarrow>
          if \<not> ep_public e \<and> who = None then Denied 401
          else if \<not> ep_public e \<and> (case who of Some (TokenPrincipal i scopes) \<Rightarrow> \<not> authorized m path scopes | _ \<Rightarrow> False) then Denied 403
          else if check_fails (ep_check e) action who then Denied 403
          else Reached e (the (match_path (ep_pattern e) path)))"

text \<open>The session is looked up, and its use noted, only for a registered endpoint.\<close>

definition dispatch :: "crypto \<Rightarrow> site_config \<Rightarrow> request \<Rightarrow> string option \<Rightarrow> time \<Rightarrow> db \<Rightarrow> routed \<times> db" where
  "dispatch X sc r action now d =
     (if find_endpoint (rq_method r) (rq_path r) = None then (ForFile, d)
      else (case cookie sc ''outpost_session'' r of
              Inl _ \<Rightarrow> (Denied 500, d)
            | Inr session \<Rightarrow>
                (case authenticate X session (header ''authorization'' r) now d of
                   (who, d1) \<Rightarrow> (admit (rq_method r) (rq_path r) action who, d1))))"

text \<open>What the dashboard is told after a request.\<close>

datatype dashboard_reason = RulesetsChanged | SomethingChanged

definition dashboard_mutation :: "string \<Rightarrow> string \<Rightarrow> bool \<Rightarrow> nat \<Rightarrow> dashboard_reason option" where
  "dashboard_mutation m path public status =
     (if public \<or> m = ''GET'' \<or> 400 \<le> status \<or> path = ''/api/v1/operations/preview'' then None
      else if starts_with path ''/api/v1/rulesets'' then Some RulesetsChanged
      else Some SomethingChanged)"

section \<open>Remote tools\<close>

text \<open>
  The entry of the remote tools (src/src/server/mcp.ts): the host and the origin must be those
  of the panel, and only an API token opens it.  \<open>/^Bearer ([^\s]+)$/i\<close>.
\<close>

definition mcp_bearer :: "string option \<Rightarrow> string option" where
  "mcp_bearer authorization =
     (case authorization of
        None \<Rightarrow> None
      | Some s \<Rightarrow> if to_lower (take 7 s) = ''bearer '' \<and> drop 7 s \<noteq> [] \<and> list_all (\<lambda>c. \<not> is_space c) (drop 7 s) then Some (drop 7 s) else None)"

definition mcp_admit :: "crypto \<Rightarrow> site_config \<Rightarrow> request \<Rightarrow> string \<Rightarrow> time \<Rightarrow> db \<Rightarrow> (string + nat) \<times> db" where
  "mcp_admit X sc r url_host now d =
     (if sc_demo sc \<or> sc_setup sc then (Inr 404, d)
      else if coalesce (header ''host'' r) url_host \<noteq> sc_host sc \<or>
              (case header ''origin'' r of None \<Rightarrow> False | Some w \<Rightarrow> w \<noteq> sc_origin sc) then (Inr 403, d)
      else (case mcp_bearer (header ''authorization'' r) of
              None \<Rightarrow> (Inr 401, d)
            | Some token \<Rightarrow>
                (case authenticate_api_token X token now d of
                   (None, d1) \<Rightarrow> (Inr 401, d1)
                 | (Some p, d1) \<Rightarrow> if rq_method r \<noteq> ''POST'' then (Inr 405, d1) else (Inl token, d1))))"

text \<open>A tool calls the API with the token of its caller and nothing else.\<close>

definition tool_request :: "string \<Rightarrow> string \<Rightarrow> string \<Rightarrow> request" where
  "tool_request token m path = \<lparr>rq_method = m, rq_path = path, rq_query = [], rq_headers = [(''authorization'', ''Bearer '' @ token)]\<rparr>"

section \<open>The access matrix\<close>

text \<open>Who may call an endpoint, written out for every one of them.\<close>

datatype access_grant = AnyCaller | SessionOnly | Scoped "string list" | RotateScoped string

fun granted :: "access_grant \<Rightarrow> string option \<Rightarrow> string list \<Rightarrow> bool" where
  "granted AnyCaller action scopes \<longleftrightarrow> True"
| "granted SessionOnly action scopes \<longleftrightarrow> False"
| "granted (Scoped needed) action scopes \<longleftrightarrow> set needed \<subseteq> set scopes"
| "granted (RotateScoped s) action scopes \<longleftrightarrow>
     s \<in> set scopes \<and> (action = Some ''connection.rotate'' \<longrightarrow> ''connections:rotate'' \<in> set scopes)"

definition access_matrix :: "((string \<times> string) \<times> access_grant) list" where
  "access_matrix =
     [((''GET'', ''/healthz''), AnyCaller),
      ((''GET'', ''/readyz''), AnyCaller),
      ((''GET'', ''/api/v1/auth/state''), AnyCaller),
      ((''GET'', ''/api/v1/setup''), AnyCaller),
      ((''POST'', ''/api/v1/setup/domain''), AnyCaller),
      ((''POST'', ''/api/v1/setup/restore''), AnyCaller),
      ((''POST'', ''/api/v1/auth/register/options''), AnyCaller),
      ((''POST'', ''/api/v1/auth/register/verify''), AnyCaller),
      ((''POST'', ''/api/v1/auth/login/options''), AnyCaller),
      ((''POST'', ''/api/v1/auth/login/verify''), AnyCaller),
      ((''POST'', ''/api/v1/auth/logout''), SessionOnly),
      ((''GET'', ''/api/v1/security''), SessionOnly),
      ((''POST'', ''/api/v1/invitations''), SessionOnly),
      ((''DELETE'', ''/api/v1/invitations/:id''), SessionOnly),
      ((''DELETE'', ''/api/v1/passkeys/:id''), SessionOnly),
      ((''DELETE'', ''/api/v1/sessions''), SessionOnly),
      ((''DELETE'', ''/api/v1/sessions/:id''), SessionOnly),
      ((''GET'', ''/api/v1/me''), Scoped [''settings:read'']),
      ((''PATCH'', ''/api/v1/me''), Scoped [''settings:write'']),
      ((''GET'', ''/api/v1/status''), Scoped [''status:read'']),
      ((''GET'', ''/api/v1/dashboard''), SessionOnly),
      ((''GET'', ''/api/v1/dashboard/events''), SessionOnly),
      ((''GET'', ''/api/v1/connections''), Scoped [''connections:read'']),
      ((''GET'', ''/api/v1/connections/:id/diagnostics''), Scoped [''connections:read'']),
      ((''POST'', ''/api/v1/connections''), Scoped [''connections:write'']),
      ((''GET'', ''/api/v1/connections/:id''), Scoped [''connections:read'']),
      ((''PATCH'', ''/api/v1/connections/:id''), Scoped [''connections:write'']),
      ((''DELETE'', ''/api/v1/connections/:id''), SessionOnly),
      ((''GET'', ''/api/v1/connections/:id/subscription''), Scoped [''connections:secret'']),
      ((''POST'', ''/api/v1/connections/:id/retry''), Scoped [''connections:write'']),
      ((''POST'', ''/api/v1/connections/:id/rotate''), SessionOnly),
      ((''POST'', ''/api/v1/connections/:id/suspend''), SessionOnly),
      ((''POST'', ''/api/v1/connections/:id/resume''), SessionOnly),
      ((''GET'', ''/api/v1/routes''), Scoped [''routes:read'']),
      ((''GET'', ''/api/v1/routes/revisions''), Scoped [''routes:read'']),
      ((''GET'', ''/api/v1/routes/preview''), Scoped [''routes:read'']),
      ((''POST'', ''/api/v1/routes''), Scoped [''routes:write'']),
      ((''PATCH'', ''/api/v1/routes/:id''), Scoped [''routes:write'']),
      ((''DELETE'', ''/api/v1/routes/:id''), Scoped [''routes:write'']),
      ((''POST'', ''/api/v1/routes/reorder''), Scoped [''routes:write'']),
      ((''POST'', ''/api/v1/routes/publish''), Scoped [''routes:write'']),
      ((''POST'', ''/api/v1/routes/discard''), Scoped [''routes:write'']),
      ((''POST'', ''/api/v1/routes/rollback/:version''), Scoped [''routes:write'']),
      ((''GET'', ''/api/v1/rulesets''), SessionOnly),
      ((''POST'', ''/api/v1/rulesets/refresh''), SessionOnly),
      ((''GET'', ''/api/v1/traffic''), Scoped [''traffic:read'']),
      ((''GET'', ''/api/v1/system/metrics''), Scoped [''system:read'']),
      ((''GET'', ''/api/v1/system''), Scoped [''system:read'']),
      ((''GET'', ''/api/v1/system/events''), Scoped [''system:read'']),
      ((''GET'', ''/api/v1/engines''), Scoped [''engines:read'']),
      ((''POST'', ''/api/v1/engines/check''), Scoped [''engines:write'']),
      ((''POST'', ''/api/v1/engines/:engine/check''), Scoped [''engines:write'']),
      ((''GET'', ''/api/v1/methods''), Scoped [''engines:read'']),
      ((''POST'', ''/api/v1/methods''), Scoped [''engines:write'']),
      ((''POST'', ''/api/v1/methods/reorder''), Scoped [''engines:write'']),
      ((''PATCH'', ''/api/v1/methods/:id''), Scoped [''engines:write'']),
      ((''DELETE'', ''/api/v1/methods/:id''), Scoped [''engines:write'']),
      ((''GET'', ''/api/v1/settings''), Scoped [''settings:read'']),
      ((''PATCH'', ''/api/v1/settings''), Scoped [''settings:write'']),
      ((''POST'', ''/api/v1/updates/check''), SessionOnly),
      ((''POST'', ''/api/v1/updates/prepare''), SessionOnly),
      ((''GET'', ''/api/v1/engines/configurations''), Scoped [''engines:read'']),
      ((''POST'', ''/api/v1/engines/configurations/preview''), Scoped [''engines:write'']),
      ((''POST'', ''/api/v1/engines/configurations/apply''), Scoped [''engines:write'']),
      ((''POST'', ''/api/v1/engines/configurations/:engine/rollback/:version''), Scoped [''engines:write'']),
      ((''GET'', ''/api/v1/operations''), Scoped [''operations:read'']),
      ((''GET'', ''/api/v1/operations/events''), Scoped [''operations:read'']),
      ((''GET'', ''/api/v1/operations/:id''), Scoped [''operations:read'']),
      ((''POST'', ''/api/v1/diagnostics''), Scoped [''diagnostics:run'']),
      ((''GET'', ''/api/v1/diagnostics/:id''), Scoped [''diagnostics:read'']),
      ((''POST'', ''/api/v1/diagnostics/:id/cancel''), Scoped [''diagnostics:run'']),
      ((''POST'', ''/api/v1/diagnostics/:id/claim''), Scoped [''diagnostics:run'', ''connections:secret'']),
      ((''POST'', ''/api/v1/diagnostics/:id/report''), Scoped [''diagnostics:run'']),
      ((''GET'', ''/api/v1/backups/:name''), Scoped [''backups:read'']),
      ((''POST'', ''/api/v1/operations/preview''), RotateScoped ''operations:write''),
      ((''POST'', ''/api/v1/operations/confirm''), RotateScoped ''operations:write''),
      ((''POST'', ''/api/v1/tokens''), SessionOnly),
      ((''GET'', ''/api/v1/tokens''), SessionOnly),
      ((''DELETE'', ''/api/v1/tokens/:id''), SessionOnly),
      ((''POST'', ''/internal/hysteria/auth''), AnyCaller),
      ((''GET'', ''/s/:token/routes''), AnyCaller),
      ((''HEAD'', ''/s/:token/routes''), AnyCaller),
      ((''GET'', ''/s/:token/apps/:appId''), AnyCaller),
      ((''HEAD'', ''/s/:token/apps/:appId''), AnyCaller),
      ((''GET'', ''/s/:token/advanced/:target''), AnyCaller),
      ((''HEAD'', ''/s/:token/advanced/:target''), AnyCaller),
      ((''GET'', ''/s/:token/qr/:target''), AnyCaller),
      ((''HEAD'', ''/s/:token/qr/:target''), AnyCaller),
      ((''GET'', ''/s/:token''), AnyCaller),
      ((''HEAD'', ''/s/:token''), AnyCaller),
      ((''GET'', ''/rulesets/:family/:code''), AnyCaller)]"

definition row_of :: "endpoint \<Rightarrow> access_grant option" where
  "row_of e = map_of access_matrix (ep_method e, ep_pattern e)"

end
