(* ===== verification/Http_Properties.thy ===== *)
theory Http_Properties
  imports Http_Access Auth_Properties Connection_Sync
begin

text \<open>
  The access matrix holds: whatever stands in a path, an endpoint is reached by a session of
  the owner or with the scopes its row names, and by nobody else.
\<close>

section \<open>Patterns and paths\<close>

text \<open>What comes before the first parameter of a pattern, and whether there is one.\<close>

definition literal :: "string \<Rightarrow> string" where
  "literal p = takeWhile (\<lambda>c. c \<noteq> CHR '':'') p"

text \<open>Two patterns of different lengths, or with different texts at one place, share no path.\<close>

definition clash :: "string \<Rightarrow> string \<Rightarrow> bool" where
  "clash p q \<longleftrightarrow>
     (let ps = split_on CHR ''/'' p; qs = split_on CHR ''/'' q
      in length ps \<noteq> length qs \<or> list_ex (\<lambda>(a, b). \<not> is_param a \<and> \<not> is_param b \<and> a \<noteq> b) (zip ps qs))"

lemma match_segments_length: "match_segments ps ss = Some m \<Longrightarrow> length ps = length ss"
  by (induction ps ss arbitrary: m rule: match_segments.induct) (auto split: if_splits)

lemma match_segments_text:
  "match_segments ps ss = Some m \<Longrightarrow> (a, b) \<in> set (zip ps ss) \<Longrightarrow> \<not> is_param a \<Longrightarrow> a = b"
  by (induction ps ss arbitrary: m rule: match_segments.induct) (auto split: if_splits)

lemma match_segments_clash:
  "match_segments ps ss = Some m \<Longrightarrow> match_segments qs ss = Some n \<Longrightarrow> (a, b) \<in> set (zip ps qs) \<Longrightarrow>
     \<not> is_param a \<Longrightarrow> \<not> is_param b \<Longrightarrow> a = b"
proof (induction ps ss arbitrary: m n qs rule: match_segments.induct)
  case (2 p ps s ss)
  then show ?case by (cases qs) (auto split: if_splits)
qed auto

lemma clash_apart: "match_path p path = Some m \<Longrightarrow> clash p q \<Longrightarrow> match_path q path = None"
proof (rule ccontr)
  assume m: "match_path p path = Some m" and c: "clash p q" and "match_path q path \<noteq> None"
  then obtain n where n: "match_path q path = Some n" by blast
  have "length (split_on CHR ''/'' p) = length (split_on CHR ''/'' q)"
    using match_segments_length m n unfolding match_path_def by metis
  with c obtain a b where "(a, b) \<in> set (zip (split_on CHR ''/'' p) (split_on CHR ''/'' q))" "\<not> is_param a" "\<not> is_param b" "a \<noteq> b"
    unfolding clash_def Let_def list_ex_iff by auto
  then show False using match_segments_clash m n unfolding match_path_def by blast
qed

text \<open>A path begins with the literal part of its pattern, and is the pattern if that is all.\<close>

lemma literal_append:
  "literal (p @ q) = (if CHR '':'' \<in> set p then literal p else p @ literal q)"
  by (auto simp: literal_def takeWhile_append)

lemma literal_rest: "\<exists>x. p = literal p @ x \<and> (CHR '':'' \<notin> set p \<longrightarrow> x = [])"
  unfolding literal_def by (rule exI [of _ "dropWhile (\<lambda>c. c \<noteq> CHR '':'') p"]) auto

lemma param_colon: "is_param p \<Longrightarrow> CHR '':'' \<in> set p \<and> literal p = []"
  by (auto simp: is_param_def starts_with_iff literal_def)

lemma match_segments_literal:
  assumes "match_segments ps ss = Some m"
  shows "\<exists>x. join_with ''/'' ss = literal (join_with ''/'' ps) @ x \<and> (CHR '':'' \<notin> set (join_with ''/'' ps) \<longrightarrow> x = [])"
  using assms
proof (induction ps ss arbitrary: m rule: match_segments.induct)
  case 1
  show ?case by (simp add: literal_def)
next
  case (2 p ps s ss)
  show ?case
  proof (cases "is_param p")
    case True
    then have "literal (join_with ''/'' (p # ps)) = []" "CHR '':'' \<in> set (join_with ''/'' (p # ps))"
      by (cases ps; simp add: param_colon literal_append)+
    then show ?thesis by simp
  next
    case False
    with 2(3) have "p = s" "match_segments ps ss = Some m" by (auto split: if_splits)
    with 2(2) [OF False] obtain x where
      x: "join_with ''/'' ss = literal (join_with ''/'' ps) @ x" "CHR '':'' \<notin> set (join_with ''/'' ps) \<longrightarrow> x = []" by blast
    have n: "ps = [] \<longleftrightarrow> ss = []" using match_segments_length [OF \<open>match_segments ps ss = Some m\<close>] by auto
    show ?thesis
    proof (cases ps)
      case Nil
      with n \<open>p = s\<close> literal_rest [of p] show ?thesis by simp
    next
      case (Cons q qs)
      with n obtain t ts where "ss = t # ts" by (cases ss) auto
      with Cons x(1) \<open>p = s\<close> have j: "join_with ''/'' (s # ss) = p @ ''/'' @ literal (join_with ''/'' ps) @ x"
        "join_with ''/'' (p # ps) = (p @ ''/'') @ join_with ''/'' ps" by simp_all
      show ?thesis
      proof (cases "CHR '':'' \<in> set p")
        case True
        obtain y where "p = literal p @ y" using literal_rest by blast
        then have "p @ z = literal p @ y @ z" for z by (metis append.assoc)
        with True show ?thesis unfolding j literal_append
          by (intro exI [of _ "y @ ''/'' @ literal (join_with ''/'' ps) @ x"]) simp
      next
        case False
        with x(2) show ?thesis unfolding j literal_append by (intro exI [of _ x]) (simp add: literal_def)
      qed
    qed
  qed
qed auto

lemma path_literal:
  assumes "match_path p path = Some m"
  obtains x where "path = literal p @ x" "CHR '':'' \<notin> set p \<Longrightarrow> path = p"
proof -
  from match_segments_literal [OF assms [unfolded match_path_def]] obtain x where
    "path = literal p @ x" "CHR '':'' \<notin> set p \<longrightarrow> x = []" by auto
  moreover from this literal_rest [of p] have "CHR '':'' \<notin> set p \<Longrightarrow> path = p" by auto
  ultimately show ?thesis using that by blast
qed

text \<open>The literal part settles whether a path begins with a text, and whether it is one.\<close>

definition settles :: "string \<Rightarrow> string \<Rightarrow> bool" where
  "settles p q \<longleftrightarrow> CHR '':'' \<notin> set p \<or> starts_with (literal p) q \<or> \<not> starts_with q (literal p)"

lemma starts_with_append:
  "starts_with (a @ x) q \<longleftrightarrow> starts_with a q \<or> (\<exists>r. q = a @ r \<and> starts_with x r)"
  unfolding starts_with_iff append_eq_append_conv2 by auto

lemma settled_prefix:
  assumes "match_path p path = Some m" "settles p q"
  shows "starts_with path q = starts_with p q"
proof -
  obtain x where x: "path = literal p @ x" "CHR '':'' \<notin> set p \<Longrightarrow> path = p" using path_literal [OF assms(1)] by blast
  from literal_rest [of p] obtain y where y: "p = literal p @ y" by blast
  have "starts_with (literal p @ x) q = starts_with (literal p @ y) q" if "CHR '':'' \<in> set p"
    using assms(2) that unfolding settles_def starts_with_append by (auto simp: starts_with_iff)
  with x y show ?thesis by (cases "CHR '':'' \<in> set p") auto
qed

lemma settled_path:
  assumes "match_path p path = Some m" "CHR '':'' \<notin> set p \<or> \<not> starts_with q (literal p)"
  shows "path = q \<longleftrightarrow> p = q"
proof -
  obtain x where x: "path = literal p @ x" "CHR '':'' \<notin> set p \<Longrightarrow> path = p" using path_literal [OF assms(1)] by blast
  with assms(2) literal_rest [of p] show ?thesis by (auto simp: starts_with_iff)
qed

section \<open>Scopes of the endpoints\<close>

definition scope_prefixes :: "string list" where
  "scope_prefixes = map ((@) ''/api/v1/'') [''diagnostics'', ''dashboard'', ''connections'', ''routes'', ''rulesets'', ''traffic'',
     ''backups'', ''operations'', ''settings'', ''engines'', ''methods'', ''tokens'', ''system'']"

definition settled_scope :: "endpoint \<Rightarrow> bool" where
  "settled_scope e \<longleftrightarrow> list_all (settles (ep_pattern e)) scope_prefixes \<and>
     (CHR '':'' \<in> set (ep_pattern e) \<longrightarrow> \<not> starts_with ''/api/v1/status'' (literal (ep_pattern e)) \<and>
        \<not> starts_with ''/api/v1/me'' (literal (ep_pattern e)))"

lemma required_scope_settled:
  assumes "match_path (ep_pattern e) path = Some m" "settled_scope e"
  shows "required_scope k path = required_scope k (ep_pattern e)"
proof -
  have "starts_with path q = starts_with (ep_pattern e) q" if "q \<in> set scope_prefixes" for q
    using settled_prefix [OF assms(1), of q] assms(2) that by (simp add: settled_scope_def list_all_iff)
  moreover have "path = ''/api/v1/status'' \<longleftrightarrow> ep_pattern e = ''/api/v1/status''"
    "path = ''/api/v1/me'' \<longleftrightarrow> ep_pattern e = ''/api/v1/me''"
    using settled_path [OF assms(1)] assms(2) unfolding settled_scope_def by blast+
  ultimately show ?thesis unfolding required_scope_def scope_prefixes_def by simp
qed

text \<open>The scope an endpoint asks of a token, whatever its parameters are.\<close>

definition endpoint_scope :: "endpoint \<Rightarrow> string" where
  "endpoint_scope e =
     (if ep_pattern e = link_pattern then ''connections:secret''
      else if ep_pattern e = rotate_pattern then ''connections:rotate''
      else required_scope (ep_method e) (ep_pattern e))"

definition apart :: "endpoint \<Rightarrow> bool" where
  "apart e \<longleftrightarrow> (ep_pattern e = link_pattern \<or> clash (ep_pattern e) link_pattern) \<and>
     (ep_pattern e = rotate_pattern \<or> clash (ep_pattern e) rotate_pattern)"

lemma registry_settled: "list_all (\<lambda>e. ep_public e \<or> settled_scope e) registry"
  by code_simp

lemma registry_apart: "list_all apart registry"
  by code_simp

text \<open>Scopes that no token has.\<close>

definition plain_scopes :: "string list \<Rightarrow> bool" where
  "plain_scopes scopes \<longleftrightarrow> set scopes \<subseteq> set allowed_scopes"

lemma special_scopes: "\<not> list_ex (\<lambda>s. s \<in> set allowed_scopes) [''*'', ''read'', ''write'']"
  by code_simp

lemma authorized_endpoint:
  assumes "e \<in> set registry" "\<not> ep_public e" "match_path (ep_pattern e) path = Some ps" "plain_scopes scopes"
  shows "authorized (ep_method e) path scopes \<longleftrightarrow> endpoint_scope e \<in> set scopes"
proof -
  have "settled_scope e" "apart e" using assms(1,2) registry_settled registry_apart by (auto simp: list_all_iff)
  moreover from this have "match_path link_pattern path \<noteq> None \<longleftrightarrow> ep_pattern e = link_pattern"
    "match_path rotate_pattern path \<noteq> None \<longleftrightarrow> ep_pattern e = rotate_pattern"
    using clash_apart [OF assms(3)] assms(3) unfolding apart_def by auto
  moreover have "''*'' \<notin> set scopes" "''read'' \<notin> set scopes" "''write'' \<notin> set scopes"
    using special_scopes assms(4) unfolding plain_scopes_def by auto
  ultimately show ?thesis
    using required_scope_settled [OF assms(3), of "ep_method e"] unfolding authorized_def endpoint_scope_def by simp
qed

text \<open>The row of the matrix follows from the scope and the check.\<close>

definition derived_grant :: "endpoint \<Rightarrow> access_grant" where
  "derived_grant e =
     (if ep_public e then AnyCaller
      else if ep_check e = OwnerOnly \<or> endpoint_scope e \<notin> set allowed_scopes then SessionOnly
      else (case ep_check e of
              SecretScope \<Rightarrow> Scoped [endpoint_scope e, ''connections:secret'']
            | RotateScope \<Rightarrow> RotateScoped (endpoint_scope e)
            | _ \<Rightarrow> Scoped [endpoint_scope e]))"

definition endpoint_key :: "endpoint \<Rightarrow> string \<times> string" where
  "endpoint_key e = (ep_method e, ep_pattern e)"

lemma matrix_derived: "access_matrix = map (\<lambda>e. (endpoint_key e, derived_grant e)) registry"
  by code_simp

lemma registry_distinct: "distinct (map endpoint_key registry)"
  by (simp add: registry_def access_endpoints_def panel_endpoints_def rule_endpoints_def engine_endpoints_def
      operation_endpoints_def client_endpoints_def ep_def endpoint_key_def)

lemma grant_derived: "e \<in> set registry \<Longrightarrow> row_of e = Some (derived_grant e)"
  using registry_distinct unfolding row_of_def matrix_derived endpoint_key_def [symmetric]
  by (intro map_of_is_SomeI) (auto simp: comp_def)

lemma public_unchecked: "list_all (\<lambda>e. ep_public e \<longrightarrow> ep_check e = Anyone) registry"
  by code_simp

lemma find_endpoint_Some:
  assumes "find_endpoint m path = Some e"
  shows "e \<in> set registry" "ep_method e = m" "match_path (ep_pattern e) path \<noteq> None"
  using find_SomeD [OF assms [unfolded find_endpoint_def]] by (auto simp: matching_def)

lemma token_access_matrix_iff:
  assumes "plain_scopes scopes"
  shows "admit m path action (Some (TokenPrincipal i scopes)) = Reached e ps \<longleftrightarrow>
     find_endpoint m path = Some e \<and> match_path (ep_pattern e) path = Some ps \<and>
     (\<exists>g. row_of e = Some g \<and> granted g action scopes)"
proof (cases "find_endpoint m path")
  case None
  then show ?thesis by (simp add: admit_def)
next
  case (Some f)
  note found = find_endpoint_Some [OF Some]
  from found(3) obtain qs where qs: "match_path (ep_pattern f) path = Some qs" by blast
  have star: "''*'' \<notin> set scopes" using special_scopes assms unfolding plain_scopes_def by auto
  have needed: "\<not> ep_public f \<Longrightarrow> authorized m path scopes \<longleftrightarrow> endpoint_scope f \<in> set scopes"
    using authorized_endpoint [OF found(1) _ qs assms] found(2) by simp
  have "ep_public f \<Longrightarrow> ep_check f = Anyone" using public_unchecked found(1) by (simp add: list_all_iff)
  moreover have "endpoint_scope f \<in> set scopes \<Longrightarrow> endpoint_scope f \<in> set allowed_scopes"
    using assms unfolding plain_scopes_def by blast
  ultimately have "admit m path action (Some (TokenPrincipal i scopes)) = Reached f qs \<longleftrightarrow> granted (derived_grant f) action scopes"
    using needed star Some qs by (cases "ep_check f") (auto simp: admit_def derived_grant_def check_fails_def)
  moreover have "admit m path action (Some (TokenPrincipal i scopes)) = Reached e ps \<Longrightarrow> e = f \<and> ps = qs"
    using Some qs by (auto simp: admit_def split: if_splits)
  ultimately show ?thesis using Some qs grant_derived [OF found(1)] by auto
qed

text \<open>
  C37.  For an API token with scopes that the panel gives out, the access matrix is exact: whatever
  the parameters in the path are, the handler of an endpoint is reached if and only if the
  token has the scopes of its row.
\<close>

theorem token_access_matrix:
  assumes "plain_scopes scopes"
  shows "admit m path action (Some (TokenPrincipal i scopes)) = Reached e ps \<longleftrightarrow>
     find_endpoint m path = Some e \<and> match_path (ep_pattern e) path = Some ps \<and>
     (\<exists>g. row_of e = Some g \<and> granted g action scopes)"
  using assms by (rule token_access_matrix_iff)

section \<open>Requests\<close>

text \<open>What a request presents: the session of its cookie, or its bearer token.\<close>

definition presents :: "site_config \<Rightarrow> request \<Rightarrow> string \<Rightarrow> bool" where
  "presents sc r t \<longleftrightarrow> cookie sc ''outpost_session'' r = Ok (Some t) \<or> bearer (header ''authorization'' r) = Some t"

definition owner_session :: "crypto \<Rightarrow> site_config \<Rightarrow> request \<Rightarrow> time \<Rightarrow> db \<Rightarrow> bool" where
  "owner_session X sc r now d \<longleftrightarrow> find_owner d \<noteq> None \<and>
     (\<exists>s\<in>set (t_sessions d). now < se_expires_at s \<and> (\<exists>t. presents sc r t \<and> se_token_hash s = x_hash X t))"

definition live_token :: "crypto \<Rightarrow> site_config \<Rightarrow> request \<Rightarrow> time \<Rightarrow> db \<Rightarrow> api_token \<Rightarrow> bool" where
  "live_token X sc r now d k \<longleftrightarrow> k \<in> set (t_api_tokens d) \<and> at_revoked_at k = None \<and>
     (\<forall>e. at_expires_at k = Some e \<longrightarrow> now < e) \<and> (\<exists>t. presents sc r t \<and> at_token_hash k = x_hash X t)"

lemma authenticate_cases:
  assumes "authenticate X session authorization now d = (Some who, d1)"
  shows "\<exists>t. (session = Some t \<or> bearer authorization = Some t) \<and>
     ((\<exists>k\<in>set (t_api_tokens d). at_revoked_at k = None \<and> (\<forall>e. at_expires_at k = Some e \<longrightarrow> now < e) \<and>
         at_token_hash k = x_hash X t \<and> who = TokenPrincipal (''token:'' @ at_id k) (at_scopes k)) \<or>
      find_owner d \<noteq> None \<and> is_owner (Some who) \<and> (\<exists>s\<in>set (t_sessions d). now < se_expires_at s \<and> se_token_hash s = x_hash X t))"
proof -
  have api: "\<exists>k\<in>set (t_api_tokens d). at_revoked_at k = None \<and> (\<forall>e. at_expires_at k = Some e \<longrightarrow> now < e) \<and>
         at_token_hash k = x_hash X t \<and> who = TokenPrincipal (''token:'' @ at_id k) (at_scopes k)"
    if "authenticate_api_token X t now d = (Some who, d2)" for t d2
    using that by (auto simp: authenticate_api_token_def dest!: select_one_Some split: option.splits if_splits intro!: bexI)
  have ses: "find_owner d \<noteq> None \<and> is_owner (Some who) \<and> (\<exists>s\<in>set (t_sessions d). now < se_expires_at s \<and> se_token_hash s = x_hash X t)"
    if "authenticate_session X t now d2 = (Some who, d1)" "t_sessions d2 = t_sessions d" "find_owner d2 = find_owner d" for t d2
    using that by (force simp: authenticate_session_def not_le dest!: select_one_Some split: option.splits if_splits)
  have same: "t_sessions d2 = t_sessions d \<and> find_owner d2 = find_owner d" if "authenticate_api_token X t now d = (p, d2)" for t p d2
    using that by (auto simp: authenticate_api_token_def find_owner_def split: option.splits if_splits)
  obtain t where t: "given (case given session of None \<Rightarrow> bearer authorization | Some s \<Rightarrow> Some s) = Some t"
    using assms by (auto simp: authenticate_def split: option.splits)
  then have shown: "session = Some t \<or> bearer authorization = Some t" by (auto simp: given_def split: option.splits if_splits)
  have "(\<exists>d2. authenticate_api_token X t now d = (Some who, d2)) \<or>
      (\<exists>d2. authenticate_session X t now d2 = (Some who, d1) \<and> t_sessions d2 = t_sessions d \<and> find_owner d2 = find_owner d)"
    using assms t same [of t] by (auto simp: authenticate_def split: option.splits prod.splits if_splits)
  then have "(\<exists>k\<in>set (t_api_tokens d). at_revoked_at k = None \<and> (\<forall>e. at_expires_at k = Some e \<longrightarrow> now < e) \<and>
         at_token_hash k = x_hash X t \<and> who = TokenPrincipal (''token:'' @ at_id k) (at_scopes k)) \<or>
      find_owner d \<noteq> None \<and> is_owner (Some who) \<and> (\<exists>s\<in>set (t_sessions d). now < se_expires_at s \<and> se_token_hash s = x_hash X t)"
    by (elim disjE exE conjE) (rule disjI1, erule api, rule disjI2, erule ses)
  with shown show ?thesis by blast
qed

text \<open>
  C27.  Whatever the owner did before, a request reaches the handler of an endpoint that is not
  public only with an unexpired session of the owner, or with an API token that is neither
  revoked nor expired and was given the scopes of the endpoint's row; a malformed session
  cookie reaches none.
\<close>

theorem handler_reached_by_right:
  assumes "d = aw_db (run_auth pn X as empty_world)"
    and "fst (dispatch X sc r action now d) = Reached e ps" "\<not> ep_public e"
  shows "find_endpoint (rq_method r) (rq_path r) = Some e \<and>
     (owner_session X sc r now d \<or>
      (\<exists>k g. live_token X sc r now d k \<and> row_of e = Some g \<and> granted g action (at_scopes k)))"
proof -
  obtain session who d1 where c: "cookie sc ''outpost_session'' r = Ok session"
    and a: "authenticate X session (header ''authorization'' r) now d = (who, d1)"
    and h: "admit (rq_method r) (rq_path r) action who = Reached e ps"
    using assms(2) by (auto simp: dispatch_def split: if_splits sum.splits prod.splits)
  from h have e: "find_endpoint (rq_method r) (rq_path r) = Some e" by (auto simp: admit_def split: option.splits if_splits)
  from h e assms(3) obtain p where p: "who = Some p" by (cases who) (auto simp: admit_def)
  have scoped: "tokens_scoped d" unfolding assms(1) by (rule run_auth_scoped)
  from authenticate_cases [OF a [unfolded p]] obtain t where
    t: "session = Some t \<or> bearer (header ''authorization'' r) = Some t" and
    w: "(\<exists>k\<in>set (t_api_tokens d). at_revoked_at k = None \<and> (\<forall>e. at_expires_at k = Some e \<longrightarrow> now < e) \<and>
         at_token_hash k = x_hash X t \<and> p = TokenPrincipal (''token:'' @ at_id k) (at_scopes k)) \<or>
      find_owner d \<noteq> None \<and> is_owner (Some p) \<and> (\<exists>s\<in>set (t_sessions d). now < se_expires_at s \<and> se_token_hash s = x_hash X t)" by blast
  from t c have "presents sc r t" by (auto simp: presents_def)
  from w show ?thesis
  proof
    assume "\<exists>k\<in>set (t_api_tokens d). at_revoked_at k = None \<and> (\<forall>e. at_expires_at k = Some e \<longrightarrow> now < e) \<and>
         at_token_hash k = x_hash X t \<and> p = TokenPrincipal (''token:'' @ at_id k) (at_scopes k)"
    then obtain k where k: "k \<in> set (t_api_tokens d)" "live_token X sc r now d k" "p = TokenPrincipal (''token:'' @ at_id k) (at_scopes k)"
      using \<open>presents sc r t\<close> unfolding live_token_def by blast
    have "plain_scopes (at_scopes k)" using scoped k(1) unfolding tokens_scoped_def plain_scopes_def by blast
    from token_access_matrix_iff [OF this] h show ?thesis using e k by (metis p)
  next
    assume "find_owner d \<noteq> None \<and> is_owner (Some p) \<and> (\<exists>s\<in>set (t_sessions d). now < se_expires_at s \<and> se_token_hash s = x_hash X t)"
    then show ?thesis using e \<open>presents sc r t\<close> unfolding owner_session_def by blast
  qed
qed

lemma routes_endpoint: "find_endpoint ''GET'' ''/api/v1/routes'' = Some (ep ''GET'' ''/api/v1/routes'' False Anyone)"
  by code_simp

lemma token_access_matrix_witness:
  "admit ''GET'' ''/api/v1/routes'' None (Some (TokenPrincipal ''token:t'' [''routes:read''])) =
     Reached (ep ''GET'' ''/api/v1/routes'' False Anyone) [] \<and>
   admit ''GET'' ''/api/v1/routes'' None (Some (TokenPrincipal ''token:t'' [''routes:write''])) \<noteq>
     Reached (ep ''GET'' ''/api/v1/routes'' False Anyone) []"
proof -
  have scopes: "plain_scopes [''routes:read'']" "plain_scopes [''routes:write'']" by code_simp+
  have "match_path ''/api/v1/routes'' ''/api/v1/routes'' = Some []" by code_simp
  moreover have "row_of (ep ''GET'' ''/api/v1/routes'' False Anyone) = Some (Scoped [''routes:read''])" by code_simp
  ultimately show ?thesis
    using token_access_matrix [OF scopes(1), of "''GET''" "''/api/v1/routes''" None] token_access_matrix [OF scopes(2), of "''GET''" "''/api/v1/routes''" None]
    by (simp add: routes_endpoint) (simp add: ep_def)
qed

definition sample_site_config :: site_config where
  "sample_site_config = \<lparr>sc_host = ''vpn.example'', sc_origin = ''https://vpn.example'', sc_demo = False, sc_setup = False, sc_decode = Some\<rparr>"

lemma handler_reached_by_right_witness:
  "\<exists>k g. live_token sample_crypto sample_site_config (tool_request ''t00'' ''GET'' ''/api/v1/routes'') 1500
     (aw_db (run_auth sample_panel sample_crypto token_calls empty_world)) k \<and>
     row_of (ep ''GET'' ''/api/v1/routes'' False Anyone) = Some g \<and> granted g None (at_scopes k)"
proof -
  let ?d = "aw_db (run_auth sample_panel sample_crypto token_calls empty_world)"
  let ?r = "tool_request ''t00'' ''GET'' ''/api/v1/routes''"
  have "fst (dispatch sample_crypto sample_site_config ?r None 1500 ?d) = Reached (ep ''GET'' ''/api/v1/routes'' False Anyone) []"
    by code_simp
  moreover have "\<not> ep_public (ep ''GET'' ''/api/v1/routes'' False Anyone)" by (simp add: ep_def)
  moreover have "t_sessions ?d = []" by code_simp
  then have "\<not> owner_session sample_crypto sample_site_config ?r 1500 ?d" by (simp add: owner_session_def)
  ultimately show ?thesis using handler_reached_by_right [OF refl] by blast
qed

section \<open>Remote tools\<close>

text \<open>What a remote tool asks for runs with the rights of its token, never with those of a session.\<close>

lemma tool_has_token_rights:
  assumes "fst (mcp_admit X sc r host now d) = Inl token" "tokens_scoped d"
    and "fst (dispatch X sc (tool_request token m path) action now (snd (mcp_admit X sc r host now d))) = Reached e ps" "\<not> ep_public e"
  shows "\<exists>k\<in>set (t_api_tokens d). at_token_hash k = x_hash X token \<and> at_revoked_at k = None \<and>
     (\<exists>g. row_of e = Some g \<and> granted g action (at_scopes k))"
proof -
  let ?P = "\<lambda>t. at_token_hash t = x_hash X token \<and> at_revoked_at t = None"
  obtain d1 p where a: "authenticate_api_token X token now d = (Some p, d1)" and d1: "snd (mcp_admit X sc r host now d) = d1"
    and b: "mcp_bearer (header ''authorization'' r) = Some token"
    using assms(1) by (auto simp: mcp_admit_def split: option.splits prod.splits if_splits)
  from b have t: "token \<noteq> []" by (auto simp: mcp_bearer_def split: option.splits if_splits)
  from a obtain k where k: "select_one ?P (t_api_tokens d) = Some k" "\<forall>e. at_expires_at k = Some e \<longrightarrow> now < e"
    and rows: "t_api_tokens d1 = update_where (\<lambda>r. at_id r = at_id k) (\<lambda>r. r\<lparr>at_last_used_at := Some now\<rparr>) (t_api_tokens d)"
    by (auto simp: authenticate_api_token_def not_le split: option.splits if_splits)
  have "select_one ?P (t_api_tokens d1) = Some (k\<lparr>at_last_used_at := Some now\<rparr>)"
    unfolding rows using k(1) by (subst select_one_update_where) auto
  with k(2) have "\<exists>d2. authenticate_api_token X token now d1 = (Some (TokenPrincipal (''token:'' @ at_id k) (at_scopes k)), d2)"
    by (cases "at_expires_at k") (simp_all add: authenticate_api_token_def not_le)
  then obtain d2 where api: "authenticate_api_token X token now d1 = (Some (TokenPrincipal (''token:'' @ at_id k) (at_scopes k)), d2)" ..
  have "cookie sc ''outpost_session'' (tool_request token m path) = Ok None"
    by (simp add: cookie_def tool_request_def header_def trim_def)
  moreover have "authenticate X None (Some (''Bearer '' @ token)) now d1 = (Some (TokenPrincipal (''token:'' @ at_id k) (at_scopes k)), d2)"
    using api t by (simp add: authenticate_def bearer_def given_def starts_with_iff)
  ultimately have "admit m path action (Some (TokenPrincipal (''token:'' @ at_id k) (at_scopes k))) = Reached e ps"
    using assms(3) by (auto simp: dispatch_def d1 tool_request_def header_def split: if_splits)
  moreover have mem: "k \<in> set (t_api_tokens d)" "?P k" using select_one_Some [OF k(1)] by auto
  moreover have "plain_scopes (at_scopes k)" using assms(2) mem(1) unfolding tokens_scoped_def plain_scopes_def by blast
  ultimately show ?thesis using token_access_matrix_iff by blast
qed

section \<open>A link without its scope\<close>

text \<open>
  The link of a connection needs the scope \<open>connections:secret\<close>; but the request that retries a
  job answers with it too, when nothing is left to retry, and needs \<open>connections:write\<close> only.
\<close>

theorem retry_gives_link:
  "(let who = Some (TokenPrincipal ''token:t'' [''connections:write''])
    in admit ''GET'' ''/api/v1/connections/a/subscription'' None who = Denied 403 \<and>
       admit ''POST'' ''/api/v1/connections/a/retry'' None who =
         Reached (ep ''POST'' ''/api/v1/connections/:id/retry'' False Anyone) [(''id'', ''a'')]) \<and>
   start_request sample_crypto rnd now (RetryReq ''a'') sample_conn_db = Ok (None, sample_conn_db) \<and>
   (\<exists>d. sync_view sample_crypto ''a'' True sample_conn_db = Ok ((VReady, Some (connection_token sample_crypto ''a'' 1)), d))"
proof (intro conjI)
  show "let who = Some (TokenPrincipal ''token:t'' [''connections:write''])
    in admit ''GET'' ''/api/v1/connections/a/subscription'' None who = Denied 403 \<and>
       admit ''POST'' ''/api/v1/connections/a/retry'' None who =
         Reached (ep ''POST'' ''/api/v1/connections/:id/retry'' False Anyone) [(''id'', ''a'')]" by code_simp
  have c: "get_connection ''a'' True sample_conn_db = Ok sample_conn" "open_job ''a'' sample_conn_db = None"
    "c_status sample_conn = Active" by code_simp+
  then show "start_request sample_crypto rnd now (RetryReq ''a'') sample_conn_db = Ok (None, sample_conn_db)" by simp
  have "view_of sample_conn (latest_job ''a'' sample_conn_db) = VReady" by code_simp
  moreover have "get_connection ''a'' False sample_conn_db = Ok sample_conn" "c_generation sample_conn = 1" by code_simp+
  moreover have "token_free ''a'' h sample_conn_db" for h by (simp add: token_free_def sample_conn_db_def sample_conn_def new_connection_def)
  ultimately show "\<exists>d. sync_view sample_crypto ''a'' True sample_conn_db = Ok ((VReady, Some (connection_token sample_crypto ''a'' 1)), d)"
    using c by (simp add: sync_view_def subscription_def Let_def)
qed

end
