(* ===== verification/Catalog.thy ===== *)
theory Catalog
  imports Subscriptions Auth
begin

text \<open>
  The catalogue of client applications (src/src/server/adapters/catalog.ts): which applications
  and profiles a connection is offered for the methods that are installed, and in which order.

  The translated texts, the icons and the prices are presentation and left out, and so is the
  page itself.  \<open>localeCompare\<close> is a parameter.
\<close>

section \<open>Applications\<close>

datatype platform = MacOS | IOS | Android | Windows | Linux

definition platforms :: "platform list" where
  "platforms = [MacOS, IOS, Android, Windows, Linux]"

fun platform_id :: "platform \<Rightarrow> string" where
  "platform_id MacOS = ''macos''"
| "platform_id IOS = ''ios''"
| "platform_id Android = ''android''"
| "platform_id Windows = ''windows''"
| "platform_id Linux = ''linux''"

definition is_platform :: "string \<Rightarrow> platform option" where
  "is_platform s = find (\<lambda>p. platform_id p = s) platforms"

text \<open>An application: tested or compatible, updated automatically or by hand, exact or limited routes.\<close>

record app_definition =
  ap_id :: string
  ap_name :: string
  ap_format :: subscription_format
  ap_platforms :: "platform list"
  ap_tested :: bool
  ap_automatic :: bool
  ap_exact :: bool
  ap_modern :: "(client_profile \<times> protocol list) option"
  ap_link :: "(string \<Rightarrow> string) option"
  ap_install :: "(platform \<times> string) list"

definition clash_link :: "string \<Rightarrow> string \<Rightarrow> string" where
  "clash_link scheme url = scheme @ ''://install-config?url='' @ encode_uri url"

definition clash_meta_link :: "string \<Rightarrow> string" where
  "clash_meta_link url = ''clashmeta://install-config?url='' @ encode_uri url"

definition stash_link :: "string \<Rightarrow> string" where
  "stash_link url = ''stash://install-config?url='' @ encode_uri url"

definition incy_link :: "string \<Rightarrow> string" where
  "incy_link url = ''incy://import/'' @ url"

definition sing_box_link :: "string \<Rightarrow> string" where
  "sing_box_link url = ''sing-box://import-remote-profile?url='' @ encode_uri url"

definition applications :: "app_definition list" where
  "applications =
     [\<lparr>ap_id = ''everywhere'', ap_name = ''Everywhere Proxy'', ap_format = FMihomo, ap_platforms = [MacOS, IOS], ap_tested = True,
         ap_automatic = False, ap_exact = True,
         ap_modern = Some (PMihomoModern, [AnyTLS, TrustTunnel]), ap_link = None,
         ap_install = [(MacOS, ''https://apps.apple.com/us/app/everywhere-proxy/id6766003090''),
           (IOS, ''https://apps.apple.com/us/app/everywhere-proxy/id6766003090'')]\<rparr>,
      \<lparr>ap_id = ''incy'', ap_name = ''INCY'', ap_format = FLinks, ap_platforms = [MacOS, IOS], ap_tested = True,
         ap_automatic = True, ap_exact = False,
         ap_modern = None, ap_link = Some incy_link,
         ap_install = [(MacOS, ''https://apps.apple.com/ru/app/incy/id6756943388''),
           (IOS, ''https://apps.apple.com/ru/app/incy/id6756943388'')]\<rparr>,
      \<lparr>ap_id = ''stash'', ap_name = ''Stash'', ap_format = FMihomo, ap_platforms = [MacOS, IOS], ap_tested = True,
         ap_automatic = True, ap_exact = True,
         ap_modern = Some (PMihomoModern, [AnyTLS, TrustTunnel]), ap_link = Some stash_link,
         ap_install = [(MacOS, ''https://apps.apple.com/ru/app/stash-rule-based-proxy/id1596063349''),
           (IOS, ''https://apps.apple.com/ru/app/stash-rule-based-proxy/id1596063349'')]\<rparr>,
      \<lparr>ap_id = ''clash-verge'', ap_name = ''Clash Verge Rev'', ap_format = FMihomo, ap_platforms = [MacOS, Windows, Linux], ap_tested = True,
         ap_automatic = True, ap_exact = True,
         ap_modern = Some (PMihomoModern, [AnyTLS, TrustTunnel, AmneziaWGProto]), ap_link = Some (clash_link ''clash''),
         ap_install = [(MacOS, ''https://github.com/clash-verge-rev/clash-verge-rev/releases/latest''),
           (Windows, ''https://github.com/clash-verge-rev/clash-verge-rev/releases/latest''),
           (Linux, ''https://github.com/clash-verge-rev/clash-verge-rev/releases/latest'')]\<rparr>,
      \<lparr>ap_id = ''clash-party'', ap_name = ''Clash Party'', ap_format = FMihomo, ap_platforms = [MacOS, Windows, Linux], ap_tested = False,
         ap_automatic = True, ap_exact = True,
         ap_modern = Some (PMihomoModern, [AnyTLS, TrustTunnel, AmneziaWGProto]), ap_link = Some (clash_link ''clash''),
         ap_install = [(MacOS, ''https://github.com/mihomo-party-org/clash-party/releases/latest''),
           (Windows, ''https://github.com/mihomo-party-org/clash-party/releases/latest''),
           (Linux, ''https://github.com/mihomo-party-org/clash-party/releases/latest'')]\<rparr>,
      \<lparr>ap_id = ''clash-meta'', ap_name = ''Clash Meta for Android'', ap_format = FMihomo, ap_platforms = [Android], ap_tested = True,
         ap_automatic = True, ap_exact = True,
         ap_modern = Some (PMihomoModern, [AnyTLS, TrustTunnel, AmneziaWGProto]), ap_link = Some clash_meta_link,
         ap_install = [(Android, ''https://github.com/MetaCubeX/ClashMetaForAndroid/releases/latest'')]\<rparr>,
      \<lparr>ap_id = ''clash-mi'', ap_name = ''Clash Mi'', ap_format = FMihomo, ap_platforms = [MacOS, IOS, Android, Windows, Linux], ap_tested = False,
         ap_automatic = True, ap_exact = True,
         ap_modern = Some (PMihomoModern, [AnyTLS, TrustTunnel]), ap_link = Some (clash_link ''clashmi''),
         ap_install = [(IOS, ''https://apps.apple.com/us/app/clash-mi/id6744321968''),
           (MacOS, ''https://github.com/KaringX/clashmi/releases/latest''),
           (Android, ''https://github.com/KaringX/clashmi/releases/latest''),
           (Windows, ''https://github.com/KaringX/clashmi/releases/latest''),
           (Linux, ''https://github.com/KaringX/clashmi/releases/latest'')]\<rparr>,
      \<lparr>ap_id = ''flclash'', ap_name = ''FlClash'', ap_format = FMihomo, ap_platforms = [MacOS, Android, Windows, Linux], ap_tested = False,
         ap_automatic = True, ap_exact = True,
         ap_modern = Some (PMihomoModern, [AnyTLS, TrustTunnel, AmneziaWGProto]), ap_link = Some (clash_link ''clash''),
         ap_install = [(MacOS, ''https://github.com/chen08209/FlClash/releases/latest''),
           (Android, ''https://github.com/chen08209/FlClash/releases/latest''),
           (Windows, ''https://github.com/chen08209/FlClash/releases/latest''),
           (Linux, ''https://github.com/chen08209/FlClash/releases/latest'')]\<rparr>,
      \<lparr>ap_id = ''happ'', ap_name = ''Happ'', ap_format = FLinks, ap_platforms = [MacOS, IOS, Android, Windows, Linux], ap_tested = False,
         ap_automatic = True, ap_exact = False,
         ap_modern = None, ap_link = None,
         ap_install = [(MacOS, ''https://github.com/Happ-proxy/happ-desktop/releases/latest''),
           (IOS, ''https://apps.apple.com/us/app/happ-proxy-utility/id6504287215''),
           (Android, ''https://play.google.com/store/apps/details?id=com.happproxy''),
           (Windows, ''https://github.com/Happ-proxy/happ-desktop/releases/latest''),
           (Linux, ''https://github.com/Happ-proxy/happ-desktop/releases/latest'')]\<rparr>,
      \<lparr>ap_id = ''sing-box-android'', ap_name = ''sing-box'', ap_format = FSingBox, ap_platforms = [Android], ap_tested = True,
         ap_automatic = True, ap_exact = True,
         ap_modern = Some (PSingBoxModern, [AnyTLS, Naive]), ap_link = Some sing_box_link,
         ap_install = [(Android, ''https://sing-box.sagernet.org/clients/android/'')]\<rparr>,
      \<lparr>ap_id = ''sing-box-apple'', ap_name = ''sing-box'', ap_format = FSingBox, ap_platforms = [MacOS, IOS], ap_tested = False,
         ap_automatic = True, ap_exact = True,
         ap_modern = Some (PSingBoxModern, [AnyTLS, Naive]), ap_link = Some sing_box_link,
         ap_install = [(MacOS, ''https://sing-box.sagernet.org/clients/apple/''),
           (IOS, ''https://apps.apple.com/us/app/sing-box-mt/id6785326793'')]\<rparr>,
      \<lparr>ap_id = ''sing-box-desktop'', ap_name = ''sing-box'', ap_format = FSingBox, ap_platforms = [Windows, Linux], ap_tested = False,
         ap_automatic = True, ap_exact = True,
         ap_modern = Some (PSingBoxModern, [AnyTLS, Naive]), ap_link = Some sing_box_link,
         ap_install = [(Windows, ''https://sing-box.sagernet.org/clients/desktop/''),
           (Linux, ''https://sing-box.sagernet.org/clients/desktop/'')]\<rparr>,
      \<lparr>ap_id = ''v2rayn'', ap_name = ''v2rayN'', ap_format = FXrayJson, ap_platforms = [MacOS, Windows, Linux], ap_tested = True,
         ap_automatic = True, ap_exact = True,
         ap_modern = None, ap_link = None,
         ap_install = [(MacOS, ''https://github.com/2dust/v2rayN/releases/latest''),
           (Windows, ''https://github.com/2dust/v2rayN/releases/latest''),
           (Linux, ''https://github.com/2dust/v2rayN/releases/latest'')]\<rparr>,
      \<lparr>ap_id = ''v2rayng'', ap_name = ''v2rayNG'', ap_format = FXrayJson, ap_platforms = [Android], ap_tested = True,
         ap_automatic = True, ap_exact = True,
         ap_modern = None, ap_link = None,
         ap_install = [(Android, ''https://github.com/2dust/v2rayNG/releases/latest'')]\<rparr>]"

definition application :: "string \<Rightarrow> app_definition option" where
  "application i = find (\<lambda>a. ap_id a = i) applications"

fun platform_order :: "platform \<Rightarrow> string list" where
  "platform_order MacOS = [''everywhere'', ''clash-verge'', ''clash-party'', ''happ'', ''incy'', ''stash'', ''v2rayn'', ''sing-box-apple'', ''flclash'', ''clash-mi'']"
| "platform_order IOS = [''everywhere'', ''incy'', ''stash'', ''happ'', ''clash-mi'']"
| "platform_order Android = [''clash-meta'', ''flclash'', ''happ'', ''v2rayng'', ''sing-box-android'', ''clash-mi'']"
| "platform_order Windows = [''clash-verge'', ''clash-party'', ''happ'', ''flclash'', ''v2rayn'', ''sing-box-desktop'', ''clash-mi'']"
| "platform_order Linux = [''clash-verge'', ''clash-party'', ''happ'', ''flclash'', ''v2rayn'', ''sing-box-desktop'', ''clash-mi'']"

definition advanced_definitions :: "(string \<times> subscription_format \<times> client_profile option) list" where
  "advanced_definitions =
     [(''vless-links'', FLinks, None), (''mihomo-yaml'', FMihomo, None), (''sing-box-json'', FSingBox, None),
      (''xray-json'', FXrayJson, None), (''mihomo-modern'', FMihomo, Some PMihomoModern),
      (''sing-box-modern'', FSingBox, Some PSingBoxModern), (''amneziawg-conf'', FAmneziaWG, None), (''naive-json'', FNaive, None)]"

definition advanced_definition :: "string \<Rightarrow> (string \<times> subscription_format \<times> client_profile option) option" where
  "advanced_definition i = find (\<lambda>x. fst x = i) advanced_definitions"

section \<open>The profile of an application\<close>

text \<open>\<open>ApplicationProfile\<close>: the plain one, or with a variant the modern one with its added protocols.\<close>

record app_profile =
  af_app :: app_definition
  af_modern :: bool
  af_profile :: client_profile
  af_protocols :: "protocol list option"

definition application_profile :: "app_definition \<Rightarrow> string option \<Rightarrow> app_profile result" where
  "application_profile a variant =
     (case given variant of
        None \<Rightarrow> Ok \<lparr>af_app = a, af_modern = False, af_profile = plain_profile (ap_format a), af_protocols = None\<rparr>
      | Some v \<Rightarrow>
          (case ap_modern a of
             None \<Rightarrow> Err (ServiceError 400)
           | Some (p, added) \<Rightarrow>
               if v \<noteq> ''modern'' then Err (ServiceError 400)
               else Ok \<lparr>af_app = a, af_modern = True, af_profile = p,
                        af_protocols = Some (js_distinct (profile_protocols (plain_profile (ap_format a)) @ added))\<rparr>))"

definition variant_query :: "app_profile \<Rightarrow> string" where
  "variant_query f = (if af_modern f then ''?profile=modern'' else [])"

definition profile_url :: "app_profile \<Rightarrow> string \<Rightarrow> string" where
  "profile_url f base = base @ ''/apps/'' @ ap_id (af_app f) @ variant_query f"

definition qr_url :: "app_profile \<Rightarrow> string \<Rightarrow> string" where
  "qr_url f base = base @ ''/qr/'' @ ap_id (af_app f) @ ''.svg'' @ variant_query f"

text \<open>The installed methods, and \<open>None\<close> when the catalogue is shown without a server.\<close>

type_synonym availability = "(conn_method list \<times> engine list) option"

definition offered_protocols :: "client_profile \<Rightarrow> availability \<Rightarrow> protocol list option \<Rightarrow> protocol list" where
  "offered_protocols p av selected =
     js_distinct (case av of
        Some (ms, installed) \<Rightarrow> map m_protocol (compatible_methods ms p installed selected)
      | None \<Rightarrow> filter (\<lambda>q. case selected of None \<Rightarrow> True | Some qs \<Rightarrow> q \<in> set qs) (profile_protocols p))"

datatype route_support = FullRoutes | LimitedRoutes | NoRoutes

definition route_support_of :: "client_profile \<Rightarrow> bool \<Rightarrow> route_support" where
  "route_support_of p exact =
     (case profile_routing p of NoRouting \<Rightarrow> NoRoutes
      | ByClient \<Rightarrow> LimitedRoutes
      | Embedded \<Rightarrow> if exact then FullRoutes else LimitedRoutes)"

section \<open>The catalogue\<close>

record offer =
  of_app :: app_definition
  of_transports :: "protocol list"
  of_routes :: route_support
  of_install_url :: "string option"
  of_profile_url :: string
  of_qr_url :: string
  of_open_url :: "string option"

definition offer_with :: "string \<Rightarrow> platform option \<Rightarrow> availability \<Rightarrow> app_profile \<Rightarrow> offer" where
  "offer_with base selected av f =
     (let a = af_app f; url = profile_url f base
      in \<lparr>of_app = a, of_transports = offered_protocols (af_profile f) av (af_protocols f),
          of_routes = route_support_of (af_profile f) (ap_exact a),
          of_install_url = (case selected of None \<Rightarrow> None | Some p \<Rightarrow> map_of (ap_install a) p),
          of_profile_url = url, of_qr_url = qr_url f base, of_open_url = map_option (\<lambda>g. g url) (ap_link a)\<rparr>)"

text \<open>The modern profile is offered when it has more transports.\<close>

definition plain_of :: "app_definition \<Rightarrow> app_profile" where
  "plain_of a = \<lparr>af_app = a, af_modern = False, af_profile = plain_profile (ap_format a), af_protocols = None\<rparr>"

definition app_offer :: "string \<Rightarrow> platform option \<Rightarrow> availability \<Rightarrow> app_definition \<Rightarrow> offer" where
  "app_offer base selected av a =
     (let plain = offer_with base selected av (plain_of a)
      in case application_profile a (Some ''modern'') of
           Inl _ \<Rightarrow> plain
         | Inr f \<Rightarrow>
             (let modern = offer_with base selected av f
              in if length (of_transports plain) < length (of_transports modern) then modern else plain))"

definition rank :: "app_definition \<Rightarrow> platform option \<Rightarrow> nat" where
  "rank a selected =
     (case selected of
        None \<Rightarrow> if ap_tested a then 100 else 200
      | Some p \<Rightarrow> (case find_index (\<lambda>i. i = ap_id a) (platform_order p) of
                     Some n \<Rightarrow> n | None \<Rightarrow> if ap_tested a then 100 else 200))"

definition full_first :: "offer \<Rightarrow> int" where
  "full_first x = (if of_routes x = FullRoutes then 1 else 0)"

definition compare_offers :: "(string \<Rightarrow> string \<Rightarrow> int) \<Rightarrow> platform option \<Rightarrow> offer \<Rightarrow> offer \<Rightarrow> int" where
  "compare_offers locale_compare p l r =
     (if full_first r \<noteq> full_first l then full_first r - full_first l
      else if length (of_transports r) \<noteq> length (of_transports l) then int (length (of_transports r)) - int (length (of_transports l))
      else if rank (of_app l) p \<noteq> rank (of_app r) p then int (rank (of_app l) p) - int (rank (of_app r) p)
      else locale_compare (ap_name (of_app l)) (ap_name (of_app r)))"

definition sort_offers :: "(string \<Rightarrow> string \<Rightarrow> int) \<Rightarrow> platform option \<Rightarrow> offer list \<Rightarrow> offer list" where
  "sort_offers locale_compare p = sort_by (\<lambda>l r. compare_offers locale_compare p l r \<le> 0)"

definition on_platform :: "platform \<Rightarrow> offer \<Rightarrow> bool" where
  "on_platform p x \<longleftrightarrow> p \<in> set (ap_platforms (of_app x))"

definition offers :: "string \<Rightarrow> platform option \<Rightarrow> availability \<Rightarrow> offer list" where
  "offers base selected av = filter (\<lambda>x. of_transports x \<noteq> []) (map (app_offer base selected av) applications)"

text \<open>The place of an application among those of a platform; the first three are its primary ones.\<close>

definition order_for :: "(string \<Rightarrow> string \<Rightarrow> int) \<Rightarrow> offer list \<Rightarrow> offer \<Rightarrow> platform \<Rightarrow> nat option" where
  "order_for locale_compare items x p =
     find_index (\<lambda>y. ap_id (of_app y) = ap_id (of_app x)) (sort_offers locale_compare (Some p) (filter (on_platform p) items))"

record catalog_item =
  ci_offer :: offer
  ci_order :: "(platform \<times> nat) list"
  ci_primary :: "platform list"

definition catalog_item_of :: "(string \<Rightarrow> string \<Rightarrow> int) \<Rightarrow> offer list \<Rightarrow> offer \<Rightarrow> catalog_item" where
  "catalog_item_of locale_compare items x =
     (let order = map (\<lambda>p. (p, the (order_for locale_compare items x p))) (ap_platforms (of_app x))
      in \<lparr>ci_offer = x, ci_order = order, ci_primary = map fst (filter (\<lambda>(p, n). n < 3) order)\<rparr>)"

definition catalog :: "(string \<Rightarrow> string \<Rightarrow> int) \<Rightarrow> string \<Rightarrow> string option \<Rightarrow> availability \<Rightarrow> catalog_item list" where
  "catalog locale_compare base platform av =
     (let selected = (case platform of None \<Rightarrow> None | Some s \<Rightarrow> is_platform s); items = offers base selected av
      in map (catalog_item_of locale_compare items)
           (sort_offers locale_compare selected (filter (\<lambda>x. case selected of None \<Rightarrow> True | Some p \<Rightarrow> on_platform p x) items)))"

text \<open>The profiles offered by hand.\<close>

definition advanced :: "string \<Rightarrow> availability \<Rightarrow> (string \<times> protocol list \<times> string) list" where
  "advanced base av =
     List.map_filter (\<lambda>(i, f, p).
       (let ts = offered_protocols (coalesce p (plain_profile f)) av None
        in if ts = [] then None else Some (i, ts, base @ ''/advanced/'' @ i))) advanced_definitions"

section \<open>Clients\<close>

definition mentions :: "string \<Rightarrow> string list \<Rightarrow> bool" where
  "mentions agent words \<longleftrightarrow> list_ex (contains agent) words"

definition detect_platform :: "string \<Rightarrow> string" where
  "detect_platform agent =
     (let a = to_lower agent
      in if mentions a [''iphone'', ''ipad'', ''ipod''] then ''ios''
         else if mentions a [''android''] then ''android''
         else if mentions a [''macintosh'', ''mac os''] then ''macos''
         else if mentions a [''windows''] then ''windows''
         else if mentions a [''linux'', ''x11''] then ''linux''
         else ''unknown'')"

end
