(* ===== verification/Client_Pages.thy ===== *)
theory Client_Pages
  imports Catalog Http_Access
begin

text \<open>
  What the clients download (src/src/server/http.ts): the subscription and the profiles behind the
  link of a connection, its routes, the address in a QR code, and the files of the rule sets.

  The libraries that write YAML, JSON, HTML and QR codes are parameters, and so is SHA-256.  A
  profile is prepared from one state of the database; the fetch is noted after the digest of the
  body was computed, when the database may have moved on.
\<close>

section \<open>Responses\<close>

record response =
  rs_status :: nat
  rs_headers :: "(string, string) js_map"
  rs_body :: "string option"

text \<open>\<open>pe_digest\<close> is the SHA-256 of a text in base64url; \<open>pe_network\<close> are the stored settings.\<close>

record page_env =
  pe_site :: panel_site
  pe_paths :: path_config
  pe_keys :: key_functions
  pe_decoder :: decoder
  pe_json :: "json \<Rightarrow> string"
  pe_yaml :: "json \<Rightarrow> string"
  pe_digest :: "string \<Rightarrow> string"
  pe_network :: network_settings

definition etag_of :: "page_env \<Rightarrow> string \<Rightarrow> string" where
  "etag_of E text = [CHR 0x22] @ pe_digest E text @ [CHR 0x22]"

text \<open>A client that has the same body already gets 304, a \<open>HEAD\<close> no body.\<close>

definition content_response :: "page_env \<Rightarrow> request \<Rightarrow> string \<Rightarrow> string \<Rightarrow> bool \<Rightarrow> (string \<times> string) list \<Rightarrow> response" where
  "content_response E r text content_type head extra =
     (let etag = etag_of E text;
          headers = map_set ''etag'' etag (map_set ''cache-control'' ''private, no-store'' (map_set ''content-type'' content_type extra))
      in if etag \<in> set (map trim (split_on CHR '','' (coalesce (header ''if-none-match'' r) [])))
         then \<lparr>rs_status = 304, rs_headers = headers, rs_body = None\<rparr>
         else \<lparr>rs_status = 200, rs_headers = map_set ''content-length'' (show_nat (length (utf8_bytes text))) headers,
                rs_body = (if head then None else Some text)\<rparr>)"

section \<open>Profiles\<close>

record client =
  cl_format :: "subscription_format option"
  cl_app :: "string option"
  cl_profile :: "client_profile option"
  cl_protocols :: "protocol list option"

fun body_text :: "page_env \<Rightarrow> body \<Rightarrow> string" where
  "body_text E (TextBody t) = t"
| "body_text E (YamlBody j) = pe_yaml E j"
| "body_text E (JsonBody j) = pe_json E j"

definition user_agent :: "request \<Rightarrow> string" where
  "user_agent r = coalesce (header ''user-agent'' r) []"

definition profile_context ::
  "page_env \<Rightarrow> request \<Rightarrow> string \<Rightarrow> client \<Rightarrow> connection \<Rightarrow> credential_set \<Rightarrow> client_rule list \<Rightarrow> db \<Rightarrow> subscription_context" where
  "profile_context E r token cl c cs ks d =
     \<lparr>sx_methods = Some (method_list (pe_paths E) d), sx_profile = cl_profile cl, sx_name = c_name c, sx_serial = c_serial c,
      sx_credentials = cs, sx_routes = ks, sx_token = token, sx_engine_order = engine_ids,
      sx_platform = detect_platform (user_agent r), sx_link_client = (if cl_app cl = Some ''happ'' then ''happ'' else ''incy''),
      sx_protocols = cl_protocols cl, sx_engines = Some (installed_engines d), sx_network = Some (pe_network E)\<rparr>"

definition profile_text :: "page_env \<Rightarrow> string \<Rightarrow> client \<Rightarrow> rendered \<Rightarrow> string" where
  "profile_text E token cl rn =
     (if cl_app cl = Some ''stash''
      then ''#SUBSCRIBED '' @ si_origin (pe_site E) @ ''/s/'' @ token @ ''/apps/stash'' @ [CHR 0x0A] @ body_text E (rn_body rn)
      else body_text E (rn_body rn))"

text \<open>The response, the connection to note the fetch of, if it is to be noted, and the cache of rule sets.\<close>

definition prepare_profile ::
  "crypto \<Rightarrow> page_env \<Rightarrow> request \<Rightarrow> string \<Rightarrow> client \<Rightarrow> bool \<Rightarrow> db \<times> rules_world \<Rightarrow> ((response \<times> string option) \<times> rules_world) result" where
  "prepare_profile X E r token cl head s =
     (case s of (d, w) \<Rightarrow>
        bind_result (by_subscription_token X token d) (\<lambda>c.
        bind_result (credentials_of X (c_id c) None d) (\<lambda>cs.
        bind_result (published d) (\<lambda>rs.
        bind_result (materialize (pe_decoder E) rs w) (\<lambda>(ks, w').
        bind_result (render_subscription (pe_json E) (pe_paths E) (pe_keys E) (pe_site E) (profile_context E r token cl c cs ks d) (cl_format cl)) (\<lambda>rn.
          (let resp = content_response E r (profile_text E token cl rn) (rn_content_type rn) head (rn_headers rn)
           in Ok ((resp, if \<not> head \<and> rs_status resp = 200 then Some (c_id c) else None), w'))))))))"

definition finish_profile :: "response \<times> string option \<Rightarrow> time \<Rightarrow> db \<Rightarrow> (response \<times> db) result" where
  "finish_profile p now d =
     (case p of
        (resp, None) \<Rightarrow> Ok (resp, d)
      | (resp, Some i) \<Rightarrow> bind_result (mark_fetched now i d) (\<lambda>d'. Ok (resp, d')))"

section \<open>What a link asks for\<close>

definition universal_subscription :: "request \<Rightarrow> subscription_format option option" where
  "universal_subscription r =
     (let agent = to_lower (user_agent r)
      in if mentions agent [''mihomo'', ''clash'', ''everywhere'', ''flclash'', ''stash''] then Some (Some FMihomo)
         else if mentions agent [''sing-box'', ''singbox'', ''sfa'', ''sfi'', ''sfm''] then Some (Some FSingBox)
         else if mentions agent [''incy''] then Some (Some FLinks)
         else if mentions agent [''xray'', ''v2ray'', ''happ'', ''foxray'', ''streisand''] then Some None
         else if contains (coalesce (header ''accept'' r) []) ''text/html'' then None
         else Some None)"

definition format_client :: "subscription_format option \<Rightarrow> client" where
  "format_client f = \<lparr>cl_format = f, cl_app = None, cl_profile = None, cl_protocols = None\<rparr>"

definition query :: "string \<Rightarrow> request \<Rightarrow> string option" where
  "query n r = map_of (rq_query r) n"

text \<open>The link itself: gone for the formats of old, a profile for a client, the page for a browser.\<close>

datatype landing = Gone | Profile client | Page string

definition subscription_landing :: "crypto \<Rightarrow> request \<Rightarrow> string \<Rightarrow> db \<Rightarrow> landing result" where
  "subscription_landing X r token d =
     bind_result (by_subscription_token X token d) (\<lambda>c.
       Ok (if query ''format'' r \<noteq> None then Gone
           else (case given (query ''platform'' r) of
                   None \<Rightarrow>
                     (case universal_subscription r of
                        Some f \<Rightarrow> Profile (format_client f)
                      | None \<Rightarrow> Page (coalesce (query ''platform'' r) (detect_platform (user_agent r))))
                 | Some p \<Rightarrow> Page p)))"

definition app_client :: "app_profile \<Rightarrow> client" where
  "app_client f = \<lparr>cl_format = Some (profile_format (af_profile f)), cl_app = Some (ap_id (af_app f)),
     cl_profile = Some (af_profile f), cl_protocols = af_protocols f\<rparr>"

definition application_client :: "request \<Rightarrow> string \<Rightarrow> client result" where
  "application_client r i =
     (case application i of
        None \<Rightarrow> Err (ServiceError 404)
      | Some a \<Rightarrow> bind_result (application_profile a (query ''profile'' r)) (\<lambda>f. Ok (app_client f)))"

definition advanced_client :: "string \<Rightarrow> client result" where
  "advanced_client i =
     (case advanced_definition i of
        None \<Rightarrow> Err (ServiceError 404)
      | Some (j, f, p) \<Rightarrow> Ok \<lparr>cl_format = Some f, cl_app = None, cl_profile = p, cl_protocols = None\<rparr>)"

text \<open>The address a QR code of a link holds.\<close>

definition qr_value :: "crypto \<Rightarrow> page_env \<Rightarrow> request \<Rightarrow> string \<Rightarrow> string \<Rightarrow> db \<Rightarrow> string result" where
  "qr_value X E r token target d =
     bind_result (by_subscription_token X token d) (\<lambda>c.
       (let base = si_origin (pe_site E) @ ''/s/'' @ token; i = take (length target - 4) target
        in if \<not> ends_with target ''.svg'' then Err (ServiceError 404)
           else if i = ''landing'' then Ok base
           else (case application i of
                   None \<Rightarrow> Err (ServiceError 404)
                 | Some a \<Rightarrow> bind_result (application_profile a (query ''profile'' r)) (\<lambda>f.
                     Ok (case ap_link a of None \<Rightarrow> profile_url f base | Some g \<Rightarrow> g (profile_url f base))))))"

definition link_routes_response ::
  "crypto \<Rightarrow> page_env \<Rightarrow> request \<Rightarrow> string \<Rightarrow> bool \<Rightarrow> db \<times> rules_world \<Rightarrow> (response \<times> rules_world) result" where
  "link_routes_response X E r token head s =
     (case s of (d, w) \<Rightarrow>
        bind_result (by_subscription_token X token d) (\<lambda>c.
        bind_result (published d) (\<lambda>rs.
        bind_result (materialize (pe_decoder E) rs w) (\<lambda>(ks, w').
          Ok (content_response E r (pe_json E (link_routes (pe_network E) ks)) json_content head
                [(''x-routes-version'', show_nat (s_active_route_version d))], w')))))"

text \<open>A file of the rule sets; \<open>digest\<close> is the SHA-256 of its bytes in hexadecimal.\<close>

definition rule_set_response :: "(byte list \<Rightarrow> string) \<Rightarrow> request \<Rightarrow> string \<Rightarrow> string \<Rightarrow> rules_world \<Rightarrow> (nat \<times> byte list option \<times> (string \<times> string) list) result" where
  "rule_set_response digest r family raw w =
     bind_result (rules_file family raw w) (\<lambda>(bytes, version).
       (let tag = [CHR 0x22] @ digest bytes @ [CHR 0x22]; keep = (''cache-control'', ''public, max-age=86400, stale-if-error=604800'')
        in Ok (if header ''if-none-match'' r = Some tag then (304, None, [(''etag'', tag), keep])
               else (200, Some bytes, [(''content-type'', ''application/octet-stream''), keep, (''etag'', tag), (''x-ruleset-version'', version)]))))"

end
