(* ===== verification/Client_Properties.thy ===== *)
theory Client_Properties
  imports Client_Pages Profiles Connection_Safety
begin

text \<open>
  The catalogue and the profiles agree: what a connection is offered can be downloaded, and what it
  is not offered cannot.
\<close>

lemma distinct_from_nil: "distinct_from seen xs = [] \<longleftrightarrow> set xs \<subseteq> set seen"
  by (induction seen xs rule: distinct_from.induct) auto

lemma js_distinct_nil [simp]: "js_distinct xs = [] \<longleftrightarrow> xs = []"
  by (simp add: js_distinct_def distinct_from_nil)

lemma offered_none:
  "offered_protocols p (Some (ms, es)) selected = [] \<longleftrightarrow> compatible_methods ms p es selected = []"
  by (simp add: offered_protocols_def)

text \<open>A profile is rendered exactly when a method fits it.\<close>

definition profile_methods :: "client_profile \<Rightarrow> subscription_context \<Rightarrow> conn_method list" where
  "profile_methods p cx = compatible_methods (the (sx_methods cx)) p (the (sx_engines cx)) (sx_protocols cx)"

lemma subscription_methods_profile:
  assumes "sx_profile cx = Some p" "sx_methods cx = Some ms" "sx_engines cx = Some es"
  shows "subscription_methods ps cx (profile_format p) =
     (if profile_methods p cx = [] then Err (ServiceError 409) else Ok (profile_methods p cx))"
  using assms by (simp add: subscription_methods_def context_profile_def profile_methods_def Let_def)

lemma amnezia_peer_Ok: "1 \<le> n \<Longrightarrow> n \<le> 65532 \<Longrightarrow> \<exists>p. amnezia_peer K c n = Ok p"
  by (simp add: amnezia_peer_def Let_def)

lemma mihomo_outbound_Ok:
  assumes "1 \<le> sx_serial cx" "sx_serial cx \<le> 65532"
  shows "\<exists>j. mihomo_outbound K st cx m = Ok j"
proof -
  obtain p where "amnezia_peer K (sx_credentials cx) (sx_serial cx) = Ok p" using amnezia_peer_Ok [OF assms] by blast
  then show ?thesis by (auto simp: mihomo_outbound_def amnezia_proxy_def Let_def)
qed

lemma render_profile:
  assumes "sx_profile cx = Some p" "sx_methods cx = Some ms" "sx_engines cx = Some es" "1 \<le> sx_serial cx" "sx_serial cx \<le> 65532"
  shows "is_ok (render_subscription wj ps K st cx (Some (profile_format p))) \<longleftrightarrow> profile_methods p cx \<noteq> []"
proof -
  note ms = subscription_methods_profile [OF assms(1-3), of ps]
  obtain q where q: "amnezia_peer K (sx_credentials cx) (sx_serial cx) = Ok q" using amnezia_peer_Ok [OF assms(4,5)] by blast
  have "\<exists>ys. map_result (mihomo_outbound K st cx) xs = Ok ys" for xs
    using map_result_total [of xs "mihomo_outbound K st cx" "\<lambda>_ _. True"] mihomo_outbound_Ok [OF assms(4,5)] by blast
  then obtain ys where ys: "map_result (mihomo_outbound K st cx) (profile_methods p cx) = Ok ys" by blast
  show ?thesis
    using ms ys q by (cases "profile_format p")
      (auto simp: render_subscription_def mihomo_profile_def sing_box_profile_def xray_profile_def naive_profile_def links_rendered_def
        amnezia_rendered_def amnezia_client_def Let_def is_ok_def)
qed

section \<open>Downloads\<close>

lemma by_token_mem:
  assumes "by_subscription_token X token d = Ok c"
  shows "c \<in> set (t_connections d)" "connection_usable c"
  using assms select_one_Some by (auto simp: by_subscription_token_def split: option.splits dest!: select_one_Some)

lemma prepare_profile_iff:
  assumes "crypto_ok X" "conn_inv X d" "world_ok (d, w)" "by_subscription_token X token d = Ok c"
    and "1 \<le> c_serial c" "c_serial c \<le> 65532" "cl_profile cl = Some p" "cl_format cl = Some (profile_format p)"
  shows "is_ok (prepare_profile X E r token cl head (d, w)) \<longleftrightarrow>
     compatible_methods (method_list (pe_paths E) d) p (installed_engines d) (cl_protocols cl) \<noteq> []"
proof -
  note c = by_token_mem [OF assms(4)]
  have "c_status c \<noteq> Archived" using c(2) by (auto simp: connection_usable_def)
  from credentials_of_current [OF assms(1,2) c(1) this] obtain cs where cs: "credentials_of X (c_id c) None d = Ok cs" by blast
  from world_ok_expansion [OF assms(3), of "pe_decoder E"] obtain rs ks w' where
    rs: "published d = Ok rs" "materialize (pe_decoder E) rs w = Ok (ks, w')" by blast
  let ?cx = "profile_context E r token cl c cs ks d"
  have "is_ok (prepare_profile X E r token cl head (d, w)) \<longleftrightarrow>
      is_ok (render_subscription (pe_json E) (pe_paths E) (pe_keys E) (pe_site E) ?cx (Some (profile_format p)))"
    using assms(4,8) cs rs by (auto simp: prepare_profile_def Let_def is_ok_def split: sum.splits)
  also have "\<dots> \<longleftrightarrow> profile_methods p ?cx \<noteq> []"
    by (rule render_profile) (use assms(5-7) in \<open>simp_all add: profile_context_def\<close>)
  also have "profile_methods p ?cx = compatible_methods (method_list (pe_paths E) d) p (installed_engines d) (cl_protocols cl)"
    by (simp add: profile_methods_def profile_context_def)
  finally show ?thesis .
qed

section \<open>Offers\<close>

lemma plain_format [simp]: "profile_format (plain_profile f) = f"
  by (cases f) simp_all

lemma application_profile_plain: "application_profile a None = Ok (plain_of a)"
  by (simp add: application_profile_def plain_of_def given_def)

lemma app_offer_cases:
  "(app_offer base sel av a = offer_with base sel av (plain_of a)) \<or>
   (\<exists>f. application_profile a (Some ''modern'') = Ok f \<and> app_offer base sel av a = offer_with base sel av f)"
  by (auto simp: app_offer_def Let_def split: sum.splits)

lemma application_profile_app: "application_profile a v = Ok f \<Longrightarrow> af_app f = a"
  by (auto simp: application_profile_def split: option.splits if_splits)

text \<open>An application is offered when one of its profiles has a method.\<close>

lemma app_offer_transports:
  "of_transports (app_offer base sel av a) \<noteq> [] \<longleftrightarrow>
     (\<exists>v f. v \<in> {None, Some ''modern''} \<and> application_profile a v = Ok f \<and> offered_protocols (af_profile f) av (af_protocols f) \<noteq> [])"
proof -
  have "of_transports (app_offer base sel av a) \<noteq> [] \<longleftrightarrow>
      offered_protocols (af_profile (plain_of a)) av (af_protocols (plain_of a)) \<noteq> [] \<or>
      (\<exists>f. application_profile a (Some ''modern'') = Ok f \<and> offered_protocols (af_profile f) av (af_protocols f) \<noteq> [])"
    by (auto simp: app_offer_def offer_with_def Let_def split: sum.splits)
  then show ?thesis using application_profile_plain by auto
qed

lemma catalog_offers:
  "ci_offer ` set (catalog lc base None av) = {x \<in> set (map (app_offer base None av) applications). of_transports x \<noteq> []}"
proof -
  have "ci_offer (catalog_item_of lc items x) = x" for items x by (simp add: catalog_item_of_def Let_def)
  then show ?thesis by (simp add: catalog_def Let_def sort_offers_def offers_def image_image)
qed

lemma app_offer_app: "of_app (app_offer base sel av a) = a"
  using app_offer_cases [of base sel av a] application_profile_app by (auto simp: offer_with_def Let_def plain_of_def)

lemma catalog_lists:
  "(\<exists>x\<in>set (catalog lc base None av). of_app (ci_offer x) = a) \<longleftrightarrow> a \<in> set applications \<and> of_transports (app_offer base None av a) \<noteq> []"
proof -
  have "(\<exists>x\<in>set (catalog lc base None av). of_app (ci_offer x) = a) \<longleftrightarrow> (\<exists>y\<in>ci_offer ` set (catalog lc base None av). of_app y = a)" by auto
  also have "\<dots> \<longleftrightarrow> a \<in> set applications \<and> of_transports (app_offer base None av a) \<noteq> []"
    unfolding catalog_offers by (auto simp: app_offer_app)
  finally show ?thesis .
qed


text \<open>A shop of one usable connection, the seeded routes and the methods of Hysteria.\<close>

definition sample_shop :: db where
  "sample_shop = sample_routes\<lparr>t_connections := t_connections sample_conn_db, t_credentials := t_credentials sample_conn_db,
     t_jobs := [], s_methods := Some (default_methods [Hysteria] sample_paths),
     t_engine_versions := [\<lparr>e_engine = Hysteria, e_installed = Some ''2.6.1'', e_desired = ''2.6.1'', e_checksum = []\<rparr>]\<rparr>"

definition sample_pages :: page_env where
  "sample_pages = \<lparr>pe_site = sample_site, pe_paths = sample_paths, pe_keys = sample_keys, pe_decoder = ascii_decode,
     pe_json = (\<lambda>_. ''json''), pe_yaml = (\<lambda>_. ''yaml''), pe_digest = rev, pe_network = network_defaults\<rparr>"


end
