(* ===== verification/Diagnostics.thy ===== *)
theory Diagnostics
  imports Operations Methods Resources Subscriptions
begin

text \<open>
  Network diagnostics (src/src/shared/diagnostics.ts, src/src/server/services/diagnostics.ts):
  the schema of a request and of a client's report, the check of a request against the stored
  connections and methods, and the claim of a client diagnostic by the runner that measures it.

  The parser of a URL, the UUID pattern of zod and the writing of resource samples as JSON are parameters.  Durations and
  counters of a report are whole numbers here; the schema also admits fractions in \<open>elapsedMs\<close> and
  in the metrics.  The profile of one method for the runner uses the outbounds of the client
  profiles.
\<close>

section \<open>Schemas\<close>

datatype diag_kind = Reachability | Latency | Speed | Compare | TransportSpeed
datatype diag_vantage = FromServer | FromClient
datatype diag_family = Ipv4 | Ipv6
datatype diag_direction = Download | Upload | Both

record diag_request =
  dq_kind :: diag_kind
  dq_vantage :: diag_vantage
  dq_target :: string
  dq_upload_target :: string
  dq_family :: diag_family
  dq_direction :: diag_direction
  dq_duration :: int
  dq_byte_limit :: int
  dq_count :: int
  dq_repeat :: int
  dq_connection :: "string option"
  dq_methods :: "string list"

record url_parts =
  up_protocol :: string
  up_username :: string
  up_password :: string
  up_hash :: string

record diag_env =
  dx_url :: "string \<Rightarrow> url_parts option"
  dx_uuid :: "string \<Rightarrow> bool"
  dx_sample :: "resource_sample \<Rightarrow> json"
  dx_summary :: "resource_summary \<Rightarrow> json"

definition default_target :: string where
  "default_target = ''https://speed.cloudflare.com/__down?bytes=8388608''"

definition kind_names :: "(string \<times> diag_kind) list" where
  "kind_names = [(''reachability'', Reachability), (''latency'', Latency), (''speed'', Speed), (''compare'', Compare),
     (''transport-speed'', TransportSpeed)]"

definition vantage_names :: "(string \<times> diag_vantage) list" where
  "vantage_names = [(''server'', FromServer), (''client'', FromClient)]"

definition family_names :: "(string \<times> diag_family) list" where
  "family_names = [(''ipv4'', Ipv4), (''ipv6'', Ipv6)]"

definition direction_names :: "(string \<times> diag_direction) list" where
  "direction_names = [(''download'', Download), (''upload'', Upload), (''both'', Both)]"

definition name_in :: "(string \<times> 'a) list \<Rightarrow> 'a \<Rightarrow> string" where
  "name_in names x = (case find (\<lambda>(_, y). y = x) names of None \<Rightarrow> [] | Some (k, _) \<Rightarrow> k)"

text \<open>\<open>z.enum\<close>, \<open>z.number().int()\<close> within bounds and texts, each with the default of an absent field.\<close>

fun enum_field :: "(string \<times> 'a) list \<Rightarrow> 'a option \<Rightarrow> json option \<Rightarrow> 'a option" where
  "enum_field names d None = d"
| "enum_field names d (Some (JStr s)) = map_of names s"
| "enum_field names d (Some _) = None"

fun int_field :: "int \<Rightarrow> int \<Rightarrow> int \<Rightarrow> json option \<Rightarrow> int option" where
  "int_field lo hi d None = Some d"
| "int_field lo hi d (Some (JNum n)) = (if lo \<le> n \<and> n \<le> hi then Some n else None)"
| "int_field lo hi d (Some _) = None"

fun url_field :: "diag_env \<Rightarrow> string \<Rightarrow> json option \<Rightarrow> string option" where
  "url_field E d None = Some d"
| "url_field E d (Some (JStr s)) = (if dx_url E s \<noteq> None \<and> length s \<le> 2048 then Some s else None)"
| "url_field E d (Some _) = None"

fun uuid_field :: "diag_env \<Rightarrow> json option \<Rightarrow> string option option" where
  "uuid_field E None = Some None"
| "uuid_field E (Some (JStr s)) = (if dx_uuid E s then Some (Some s) else None)"
| "uuid_field E (Some _) = None"

fun method_item :: "json \<Rightarrow> string option" where
  "method_item (JStr s) = (if 1 \<le> length s \<and> length s \<le> 80 then Some s else None)"
| "method_item _ = None"

fun methods_field :: "json option \<Rightarrow> string list option" where
  "methods_field None = Some []"
| "methods_field (Some (JArr xs)) = (if length xs \<le> 8 then all_some (map method_item xs) else None)"
| "methods_field (Some _) = None"

definition request_keys :: "string list" where
  "request_keys = [''kind'', ''vantage'', ''target'', ''uploadTarget'', ''family'', ''direction'', ''durationSeconds'', ''byteLimit'',
     ''count'', ''repeat'', ''connectionId'', ''methodIds'']"

definition directions :: "diag_request \<Rightarrow> int" where
  "directions q = (if dq_direction q = Both then 2 else 1)"

definition transfers :: "diag_request \<Rightarrow> int" where
  "transfers q = dq_repeat q * (max 1 (int (length (dq_methods q))) + (if dq_kind q = Compare then 1 else 0)) * directions q"

text \<open>The issues of \<open>superRefine\<close>.\<close>

definition request_refined :: "diag_request \<Rightarrow> bool" where
  "request_refined q \<longleftrightarrow>
     \<not> (dq_methods q \<noteq> [] \<and> dq_kind q \<notin> {Speed, Compare, TransportSpeed}) \<and>
     \<not> ((dq_kind q = Compare \<or> dq_kind q = TransportSpeed \<or> dq_methods q \<noteq> []) \<and> (dq_vantage q \<noteq> FromClient \<or> dq_connection q = None)) \<and>
     \<not> (dq_kind q = TransportSpeed \<and> dq_direction q = Both \<and> dq_repeat q * dq_duration q * 2 > 90) \<and>
     \<not> (transfers q * dq_byte_limit q > 256 * 1024 * 1024 \<or> transfers q * dq_duration q > 180)"

fun parse_fields :: "diag_env \<Rightarrow> json \<Rightarrow> diag_request option" where
  "parse_fields E (JObj kvs) =
     (if \<not> list_all (\<lambda>(k, _). k \<in> set request_keys) kvs then None
      else (case (enum_field kind_names None (json_get ''kind'' kvs), enum_field vantage_names (Some FromServer) (json_get ''vantage'' kvs),
                  url_field E default_target (json_get ''target'' kvs),
                  url_field E ''https://speed.cloudflare.com/__up'' (json_get ''uploadTarget'' kvs)) of
              (Some k, Some v, Some t, Some u) \<Rightarrow>
                (case (enum_field family_names (Some Ipv4) (json_get ''family'' kvs),
                       enum_field direction_names (Some Download) (json_get ''direction'' kvs),
                       int_field 1 30 5 (json_get ''durationSeconds'' kvs),
                       int_field 65536 (64 * 1024 * 1024) (8 * 1024 * 1024) (json_get ''byteLimit'' kvs)) of
                   (Some f, Some dir, Some dur, Some b) \<Rightarrow>
                     (case (int_field 1 30 10 (json_get ''count'' kvs), int_field 1 3 1 (json_get ''repeat'' kvs),
                            uuid_field E (json_get ''connectionId'' kvs), methods_field (json_get ''methodIds'' kvs)) of
                        (Some c, Some r, Some i, Some ms) \<Rightarrow>
                          (let q = \<lparr>dq_kind = k, dq_vantage = v, dq_target = t, dq_upload_target = u, dq_family = f, dq_direction = dir,
                                    dq_duration = dur, dq_byte_limit = b, dq_count = c, dq_repeat = r, dq_connection = i, dq_methods = ms\<rparr>
                           in if request_refined q then Some q else None)
                      | _ \<Rightarrow> None)
                 | _ \<Rightarrow> None)
            | _ \<Rightarrow> None))"
| "parse_fields E _ = None"

text \<open>The default target answers a small page to a reachability test and the asked bytes to a transfer.\<close>

definition adjust_target :: "diag_request \<Rightarrow> diag_request" where
  "adjust_target q =
     (if dq_target q \<noteq> default_target then q
      else q\<lparr>dq_target := (if dq_kind q \<in> {Reachability, Latency} then ''https://speed.cloudflare.com/cdn-cgi/trace''
                           else ''https://speed.cloudflare.com/__down?bytes='' @ show_int (dq_byte_limit q))\<rparr>)"

definition parse_request :: "diag_env \<Rightarrow> json \<Rightarrow> diag_request result" where
  "parse_request E input = (case parse_fields E input of None \<Rightarrow> Err zod_error | Some q \<Rightarrow> Ok (adjust_target q))"

definition request_json :: "diag_request \<Rightarrow> json" where
  "request_json q = JObj ([(''kind'', JStr (name_in kind_names (dq_kind q))), (''vantage'', JStr (name_in vantage_names (dq_vantage q))),
     (''target'', JStr (dq_target q)), (''uploadTarget'', JStr (dq_upload_target q)), (''family'', JStr (name_in family_names (dq_family q))),
     (''direction'', JStr (name_in direction_names (dq_direction q))), (''durationSeconds'', JNum (dq_duration q)),
     (''byteLimit'', JNum (dq_byte_limit q)), (''count'', JNum (dq_count q)), (''repeat'', JNum (dq_repeat q))] @
     (case dq_connection q of None \<Rightarrow> [] | Some i \<Rightarrow> [(''connectionId'', JStr i)]) @ [(''methodIds'', JArr (map JStr (dq_methods q)))])"

text \<open>A stage of a measurement and the report of a client's runner.\<close>

record diag_stage =
  sg_type :: string
  sg_method :: "string option"
  sg_attempt :: "int option"
  sg_sampled_at :: int
  sg_elapsed :: int
  sg_ok :: bool
  sg_code :: "string option"
  sg_metrics :: "(string \<times> json) list"

record diag_report =
  dp_stages :: "diag_stage list"
  dp_platform :: string
  dp_interface :: string
  dp_started_at :: int
  dp_finished_at :: int

definition stage_types :: "string list" where
  "stage_types = [''dns'', ''tcp'', ''tls'', ''http'', ''icmp'', ''download'', ''upload'', ''transport-speed'', ''client'']"

definition metric_fields :: "string list" where
  "metric_fields = [''address'', ''family'', ''measurementPath'', ''httpStatus'', ''bytes'', ''elapsedMs'', ''mbps'', ''tcpMs'', ''tlsMs'',
     ''firstByteMs'', ''complete'', ''exitCode'', ''sent'', ''received'', ''icmpLossPercent'', ''minMs'', ''maxMs'', ''meanMs'', ''jitterMs'',
     ''downloadMbps'', ''uploadMbps'', ''downloadBytes'', ''uploadBytes'']"

fun metric_ok :: "string \<times> json \<Rightarrow> bool" where
  "metric_ok (k, JStr s) = (k \<in> {''address'', ''family'', ''measurementPath''} \<and> length s \<le> 200)"
| "metric_ok (k, JArr _) = False"
| "metric_ok (k, JObj _) = False"
| "metric_ok (k, _) = (k \<in> set metric_fields)"

fun metrics_field :: "json option \<Rightarrow> (string \<times> json) list option" where
  "metrics_field None = Some []"
| "metrics_field (Some (JObj kvs)) = (if list_all metric_ok kvs then Some kvs else None)"
| "metrics_field (Some _) = None"

fun text_field :: "nat \<Rightarrow> json option \<Rightarrow> string option" where
  "text_field n (Some (JStr s)) = (if length s \<le> n then Some s else None)"
| "text_field n _ = None"

definition optional_value :: "(json option \<Rightarrow> 'a option) \<Rightarrow> json option \<Rightarrow> 'a option option" where
  "optional_value f v = (case v of None \<Rightarrow> Some None | Some _ \<Rightarrow> map_option Some (f v))"

definition code_field :: "json option \<Rightarrow> string option" where
  "code_field v = (case text_field 80 v of
      Some s \<Rightarrow> if s \<noteq> [] \<and> list_all (\<lambda>c. is_alnum c \<or> c = CHR ''_'') s then Some s else None | None \<Rightarrow> None)"

fun count_field :: "json option \<Rightarrow> int option" where
  "count_field (Some (JNum n)) = (if 0 \<le> n then Some n else None)"
| "count_field _ = None"

fun bool_field :: "json option \<Rightarrow> bool option" where
  "bool_field (Some (JBool b)) = Some b"
| "bool_field _ = None"

fun whole_field :: "json option \<Rightarrow> int option" where
  "whole_field (Some (JNum n)) = Some n"
| "whole_field _ = None"

definition attempt_field :: "json option \<Rightarrow> int option" where
  "attempt_field v = (case whole_field v of Some n \<Rightarrow> if 1 \<le> n \<and> n \<le> 3 then Some n else None | None \<Rightarrow> None)"

definition type_field :: "json option \<Rightarrow> string option" where
  "type_field v = enum_field (map (\<lambda>t. (t, t)) stage_types) None v"

fun parse_stage :: "json \<Rightarrow> diag_stage option" where
  "parse_stage (JObj kvs) =
     (if \<not> list_all (\<lambda>(k, _). k \<in> {''type'', ''methodId'', ''attempt'', ''sampledAt'', ''elapsedMs'', ''ok'', ''code'', ''metrics''}) kvs then None
      else (case (type_field (json_get ''type'' kvs), optional_value (text_field 80) (json_get ''methodId'' kvs),
                  optional_value attempt_field (json_get ''attempt'' kvs), count_field (json_get ''sampledAt'' kvs)) of
              (Some t, Some m, Some a, Some sampled) \<Rightarrow>
                (case (count_field (json_get ''elapsedMs'' kvs), bool_field (json_get ''ok'' kvs),
                       optional_value code_field (json_get ''code'' kvs), metrics_field (json_get ''metrics'' kvs)) of
                   (Some e, Some okay, Some c, Some ms) \<Rightarrow>
                     if e \<le> 300000 then Some \<lparr>sg_type = t, sg_method = m, sg_attempt = a, sg_sampled_at = sampled, sg_elapsed = e, sg_ok = okay,
                       sg_code = c, sg_metrics = ms\<rparr> else None
                 | _ \<Rightarrow> None)
            | _ \<Rightarrow> None))"
| "parse_stage _ = None"

fun parse_runner :: "json option \<Rightarrow> (string \<times> string \<times> int \<times> int) option" where
  "parse_runner (Some (JObj kvs)) =
     (if \<not> list_all (\<lambda>(k, _). k \<in> {''platform'', ''interface'', ''startedAt'', ''finishedAt''}) kvs then None
      else (case (text_field 40 (json_get ''platform'' kvs), text_field 80 (json_get ''interface'' kvs),
                  whole_field (json_get ''startedAt'' kvs), whole_field (json_get ''finishedAt'' kvs)) of
              (Some p, Some i, Some s, Some f) \<Rightarrow> Some (p, i, s, f) | _ \<Rightarrow> None))"
| "parse_runner _ = None"

fun parse_report :: "json \<Rightarrow> diag_report result" where
  "parse_report (JObj kvs) =
     (if \<not> list_all (\<lambda>(k, _). k \<in> {''stages'', ''runner''}) kvs then Err zod_error
      else (case (json_get ''stages'' kvs, parse_runner (json_get ''runner'' kvs)) of
              (Some (JArr xs), Some (p, i, s, f)) \<Rightarrow>
                (case all_some (map parse_stage xs) of
                   None \<Rightarrow> Err zod_error
                 | Some stages \<Rightarrow> if length xs \<le> 128
                     then Ok \<lparr>dp_stages = stages, dp_platform = p, dp_interface = i, dp_started_at = s, dp_finished_at = f\<rparr>
                     else Err zod_error)
            | _ \<Rightarrow> Err zod_error))"
| "parse_report _ = Err zod_error"

definition stage_json :: "diag_stage \<Rightarrow> json" where
  "stage_json g = JObj ([(''type'', JStr (sg_type g))] @ (case sg_method g of None \<Rightarrow> [] | Some m \<Rightarrow> [(''methodId'', JStr m)]) @
     (case sg_attempt g of None \<Rightarrow> [] | Some a \<Rightarrow> [(''attempt'', JNum a)]) @
     [(''sampledAt'', JNum (sg_sampled_at g)), (''elapsedMs'', JNum (sg_elapsed g)), (''ok'', JBool (sg_ok g))] @
     (case sg_code g of None \<Rightarrow> [] | Some c \<Rightarrow> [(''code'', JStr c)]) @ [(''metrics'', JObj (sg_metrics g))])"

section \<open>The check of a request\<close>

definition http_target :: "diag_env \<Rightarrow> string \<Rightarrow> bool" where
  "http_target E t = (case dx_url E t of
      None \<Rightarrow> False
    | Some u \<Rightarrow> up_protocol u \<in> {''http:'', ''https:''} \<and> up_username u = [] \<and> up_password u = [] \<and> up_hash u = [])"

definition speed_method :: "conn_method \<Rightarrow> bool" where
  "speed_method m \<longleftrightarrow> m_engine m = Hysteria \<and> m_protocol m = Hysteria2"

definition diagnostic_methods :: "path_config \<Rightarrow> db \<Rightarrow> conn_method list" where
  "diagnostic_methods P d = filter (\<lambda>m. m_enabled m \<and> has_engine (m_engine m) d) (method_list P d)"

definition transport_test :: "diag_request \<Rightarrow> bool" where
  "transport_test q \<longleftrightarrow> dq_kind q = Compare \<or> dq_kind q = TransportSpeed \<or> dq_methods q \<noteq> []"

definition chosen_methods :: "conn_method list \<Rightarrow> diag_request \<Rightarrow> string list" where
  "chosen_methods ms q =
     (if dq_kind q = TransportSpeed \<and> dq_methods q = [] then map m_id (filter speed_method ms)
      else if dq_kind q = Compare \<and> dq_methods q = [] then map m_id ms else dq_methods q)"

definition check_connection :: "diag_request \<Rightarrow> db \<Rightarrow> unit result" where
  "check_connection q d = (case given (dq_connection q) of
      None \<Rightarrow> Ok ()
    | Some i \<Rightarrow> bind_result (get_connection i False d) (\<lambda>c.
        if c_status c \<noteq> Active \<or> c_suspended_at c \<noteq> None then Err (ServiceError 409) else Ok ()))"

definition check_methods :: "diag_env \<Rightarrow> path_config \<Rightarrow> diag_request \<Rightarrow> db \<Rightarrow> diag_request result" where
  "check_methods E P q d =
     (if \<not> transport_test q then Ok q
      else (let ms = diagnostic_methods P d; ids = chosen_methods ms q
            in if ids = [] \<or> (\<exists>i\<in>set ids. \<not> (\<exists>m\<in>set ms. m_id m = i \<and> (dq_kind q = TransportSpeed \<longrightarrow> speed_method m)))
               then Err (ServiceError 400)
               else if length (js_distinct ids) \<noteq> length ids then Err (ServiceError 400)
               else parse_request E (request_json (q\<lparr>dq_methods := ids\<rparr>))))"

definition open_diagnostic :: "db \<Rightarrow> bool" where
  "open_diagnostic d \<longleftrightarrow> (\<exists>r\<in>set (t_operations d). op_kind r = ''diagnostic'' \<and> unfinished r)"

text \<open>The checks of \<open>run\<close>, up to the start of the operation.\<close>

definition admit_diagnostic :: "diag_env \<Rightarrow> path_config \<Rightarrow> json \<Rightarrow> db \<Rightarrow> diag_request result" where
  "admit_diagnostic E P input d =
     (if open_diagnostic d then Err (ServiceError 409)
      else bind_result (parse_request E input) (\<lambda>q.
        if \<not> http_target E (dq_target q) \<or> \<not> http_target E (dq_upload_target q) then Err (ServiceError 400)
        else bind_result (check_connection q d) (\<lambda>_. check_methods E P q d)))"

section \<open>The profiles of a runner\<close>

record diag_profile =
  df_method :: string
  df_protocol :: protocol
  df_family :: string
  df_config :: "(string \<times> json) list"

definition bracketed :: "string \<Rightarrow> string" where
  "bracketed h = (if CHR '':'' \<in> set h then ''['' @ h @ '']'' else h)"

text \<open>\<open>{...outbound, server: host}\<close>: the field keeps its place when it is there.\<close>

definition with_server :: "string \<Rightarrow> json \<Rightarrow> (string \<times> json) list" where
  "with_server h j = (case j of JObj kvs \<Rightarrow>
      if json_get ''server'' kvs \<noteq> None then map (\<lambda>(k, v). (k, if k = ''server'' then JStr h else v)) kvs else kvs @ [(''server'', JStr h)]
    | _ \<Rightarrow> [(''server'', JStr h)])"

definition runner_context :: "connection \<Rightarrow> credential_set \<Rightarrow> subscription_context" where
  "runner_context c cs = \<lparr>sx_methods = None, sx_profile = None, sx_name = c_name c, sx_serial = c_serial c, sx_credentials = cs,
     sx_routes = [], sx_token = [], sx_engine_order = [], sx_platform = [], sx_link_client = [], sx_protocols = None, sx_engines = None,
     sx_network = None\<rparr>"

definition runner_profile ::
  "key_functions \<Rightarrow> panel_site \<Rightarrow> path_config \<Rightarrow> diag_request \<Rightarrow> subscription_context \<Rightarrow> db \<Rightarrow> string \<Rightarrow> diag_profile result" where
  "runner_profile K st P q cx d i =
     (let host = (if dq_family q = Ipv6 then si_domain st else panel_host st)
      in case find (\<lambda>m. m_id m = i) (diagnostic_methods P d) of
           None \<Rightarrow> Err (ServiceError 409)
         | Some m \<Rightarrow>
             if dq_kind q = TransportSpeed
             then Ok \<lparr>df_method = i, df_protocol = m_protocol m, df_family = ''hysteria'', df_config =
               [(''server'', JStr (bracketed host @ '':'' @ port_text m)), (''auth'', JStr (hysteria_password (sx_credentials cx))),
                (''tls'', JObj [(''sni'', JStr (si_domain st)), (''insecure'', JBool False)])]\<rparr>
             else if m_protocol m = Naive
             then Ok \<lparr>df_method = i, df_protocol = Naive, df_family = ''sing-box'', df_config = with_server host (sing_box_outbound K st cx m)\<rparr>
             else bind_result (mihomo_outbound K st cx m) (\<lambda>j.
               Ok \<lparr>df_method = i, df_protocol = m_protocol m, df_family = ''mihomo'', df_config = with_server host j\<rparr>))"

definition runner_profiles ::
  "crypto \<Rightarrow> key_functions \<Rightarrow> panel_site \<Rightarrow> path_config \<Rightarrow> diag_request \<Rightarrow> db \<Rightarrow> diag_profile list result" where
  "runner_profiles X K st P q d =
     (if dq_methods q = [] then Ok []
      else bind_result (get_connection (coalesce (dq_connection q) []) False d) (\<lambda>c.
        if c_status c \<noteq> Active \<or> c_suspended_at c \<noteq> None then Err (ServiceError 409)
        else bind_result (credentials_of X (c_id c) None d) (\<lambda>cs.
          map_result (runner_profile K st P q (runner_context c cs) d) (dq_methods q))))"

section \<open>Claims and reports of a client\<close>

record client_job =
  cj_actor :: string
  cj_request :: diag_request
  cj_claimed :: bool
  cj_expires_at :: time
  cj_token_hash :: "string option"
  cj_report :: "diag_report option"
  cj_complete :: bool

definition get_diagnostic :: "string \<Rightarrow> bool \<Rightarrow> db \<Rightarrow> operation_row result" where
  "get_diagnostic i samples d = bind_result (get_operation i samples d) (\<lambda>r.
     if op_kind r \<noteq> ''diagnostic'' then Err (ServiceError 404) else Ok r)"

definition while_running :: "string \<Rightarrow> db \<Rightarrow> unit result" where
  "while_running i d = bind_result (get_diagnostic i False d) (\<lambda>r.
     if op_status r \<noteq> ''running'' then Err (ServiceError 409) else Ok ())"

text \<open>\<open>claim\<close>; the answer is the profiles and the job with the hash of the new token.\<close>

definition claim_client_job ::
  "crypto \<Rightarrow> key_functions \<Rightarrow> panel_site \<Rightarrow> path_config \<Rightarrow> string \<Rightarrow> time \<Rightarrow> string \<Rightarrow> string \<Rightarrow> client_job option \<Rightarrow> db \<Rightarrow>
   (diag_profile list \<times> client_job) result" where
  "claim_client_job X K st P token now i actor job d =
     (case job of
        None \<Rightarrow> Err (ServiceError 409)
      | Some j \<Rightarrow>
          if cj_actor j \<noteq> actor \<or> cj_claimed j \<or> cj_expires_at j < now then Err (ServiceError 409)
          else bind_result (while_running i d) (\<lambda>_.
               bind_result (runner_profiles X K st P (cj_request j) d) (\<lambda>profiles.
                 Ok (profiles, j\<lparr>cj_claimed := True, cj_token_hash := Some (x_hash X token)\<rparr>))))"

definition expected_methods :: "diag_request \<Rightarrow> string list" where
  "expected_methods q = dq_methods q @ (if dq_kind q = Compare \<or> dq_methods q = [] then [''direct''] else [])"

definition expected_stage :: "diag_request \<Rightarrow> diag_stage \<Rightarrow> bool" where
  "expected_stage q g = (case given (sg_method g) of
      None \<Rightarrow> True
    | Some m \<Rightarrow> m \<in> set (dq_methods q) \<or> m = ''direct'' \<and> (dq_kind q = Compare \<or> dq_methods q = []))"

definition within_bytes :: "diag_request \<Rightarrow> diag_stage \<Rightarrow> bool" where
  "within_bytes q g \<longleftrightarrow> list_all (\<lambda>k. case json_get k (sg_metrics g) of Some (JNum n) \<Rightarrow> n \<le> dq_byte_limit q | _ \<Rightarrow> True)
     [''bytes'', ''downloadBytes'', ''uploadBytes'']"

definition check_report :: "diag_request \<Rightarrow> bool \<Rightarrow> diag_report \<Rightarrow> unit result" where
  "check_report q whole r =
     (if dp_finished_at r < dp_started_at r \<or> dp_finished_at r - dp_started_at r > 300000 then Err (ServiceError 400)
      else if \<not> list_all (expected_stage q) (dp_stages r) then Err (ServiceError 400)
      else if whole \<and> \<not> list_all (\<lambda>i. \<exists>g\<in>set (dp_stages r). sg_method g = Some i) (expected_methods q) then Err (ServiceError 400)
      else if \<not> list_all (within_bytes q) (dp_stages r) then Err (ServiceError 400) else Ok ())"

definition accept_report ::
  "crypto \<Rightarrow> string \<Rightarrow> string \<Rightarrow> string \<Rightarrow> json \<Rightarrow> bool \<Rightarrow> client_job option \<Rightarrow> db \<Rightarrow> (diag_report \<times> client_job) result" where
  "accept_report X i actor token value whole job d =
     (case job of
        None \<Rightarrow> Err (ServiceError 409)
      | Some j \<Rightarrow>
          if cj_actor j \<noteq> actor \<or> given (cj_token_hash j) = None \<or> cj_token_hash j \<noteq> Some (x_hash X token) then Err (ServiceError 409)
          else bind_result (while_running i d) (\<lambda>_.
               bind_result (parse_report value) (\<lambda>r.
               bind_result (check_report (cj_request j) whole r) (\<lambda>_.
                 Ok (r, j\<lparr>cj_report := Some r, cj_complete := whole,
                          cj_token_hash := (if whole then None else cj_token_hash j)\<rparr>)))))"

section \<open>What is stored of a run\<close>

record diag_run =
  dr_request :: diag_request
  dr_started :: time
  dr_samples :: "resource_sample list"
  dr_stages :: "diag_stage list"

definition measurement_path :: "diag_request \<Rightarrow> string" where
  "measurement_path q =
     (if dq_vantage q = FromServer then ''server-to-origin'' else if dq_kind q = TransportSpeed then ''client-to-vpn-server''
      else if dq_methods q \<noteq> [] then ''client-via-vpn-to-origin'' else ''client-to-origin'')"

definition run_fields :: "diag_env \<Rightarrow> client_job option \<Rightarrow> time \<Rightarrow> diag_run \<Rightarrow> (string \<times> json) list" where
  "run_fields E job now run =
     (let q = dr_request run;
          stages = (case Option.bind job cj_report of Some r \<Rightarrow> dp_stages r | None \<Rightarrow> dr_stages run)
      in [(''request'', request_json q), (''startedAt'', JNum (dr_started run)), (''sampledAt'', JNum now),
          (''stages'', JArr (map stage_json stages)), (''resources'', JArr (map (dx_sample E) (dr_samples run))),
          (''resourceSummary'', dx_summary E (summarize_resources (dr_samples run))),
          (''measurementPath'', JStr (measurement_path q)), (''observedFrom'', JStr (name_in vantage_names (dq_vantage q))),
          (''quicLossPercent'', JNull)] @
         (if dq_vantage q = FromClient then [(''clientEvidence'', JStr ''reported-by-authorized-runner'')] else []))"

definition run_json :: "diag_env \<Rightarrow> client_job option \<Rightarrow> time \<Rightarrow> diag_run \<Rightarrow> json" where
  "run_json E job now run = JObj (run_fields E job now run)"

definition runner_json :: "diag_report \<Rightarrow> json" where
  "runner_json r = JObj [(''platform'', JStr (dp_platform r)), (''interface'', JStr (dp_interface r)),
     (''startedAt'', JNum (dp_started_at r)), (''finishedAt'', JNum (dp_finished_at r))]"

text \<open>The result of a run; a client's run names its runner.\<close>

definition run_result :: "diag_env \<Rightarrow> client_job option \<Rightarrow> time \<Rightarrow> diag_run \<Rightarrow> json" where
  "run_result E job now run =
     JObj (run_fields E job now run @
       (case Option.bind job cj_report of Some r \<Rightarrow> [(''runner'', runner_json r)] | None \<Rightarrow> []) @
       [(''finishedAt'', JNum now), (''successful'', JBool (dr_stages run \<noteq> [] \<and> list_all sg_ok (dr_stages run)))])"

definition add_run_sample :: "resource_sample \<Rightarrow> diag_run \<Rightarrow> diag_run" where
  "add_run_sample x run = (if 120 \<le> length (dr_samples run) then run else run\<lparr>dr_samples := dr_samples run @ [x]\<rparr>)"

definition add_stages :: "diag_stage list \<Rightarrow> diag_run \<Rightarrow> diag_run" where
  "add_stages gs run = run\<lparr>dr_stages := dr_stages run @ gs\<rparr>"

end
