(* ===== verification/Diagnostic_Safety.thy ===== *)
theory Diagnostic_Safety
  imports Diagnostics Operation_Safety Profiles
begin

text \<open>
  The diagnostics service over any sequence of requests and events
  (src/src/server/services/diagnostics.ts, \<open>execute\<close>): a run starts, is measured by the
  server or by one authorised client, reports while it runs and ends once; its steps interleave
  with those of other operations.
\<close>

section \<open>The service\<close>

record diag_panel =
  dg_config :: op_config
  dg_crypto :: crypto
  dg_keys :: key_functions
  dg_site :: panel_site
  dg_paths :: path_config
  dg_env :: diag_env
  dg_interrupted :: string

text \<open>
  The jobs of clients, the runs whose \<open>execute\<close> has not returned, and the resource samples
  that will be reported late.  The history holds what was started, claimed and completed by a
  client's report.
\<close>

record diag_state =
  dv_ops :: op_state
  dv_clients :: "(string \<times> client_job) list"
  dv_runs :: "(string \<times> diag_run) list"
  dv_late :: "(string \<times> diag_run) list"
  dv_started :: "(string \<times> string \<times> diag_request) list"
  dv_claims :: "(string \<times> string \<times> string) list"
  dv_results :: "(string \<times> string \<times> string \<times> diag_report) list"

datatype diag_call =
    StartDiagnostic json string
  | ClaimDiagnostic string string string
  | SendReport string string string json bool
  | CancelRun string string
  | BeginRun string
  | SampleRun string resource_sample
  | ReportRun string
  | ServerStage string diag_stage
  | ServerEnds string bool
  | ClientEnds string bool
  | RunFails string bool
  | LateSample string resource_sample
  | OtherOperation op_call

definition diag_timeout :: "diag_request \<Rightarrow> time" where
  "diag_timeout q = (if dq_vantage q = FromClient then 600000 else 240000)"

text \<open>A step of the operations.\<close>

definition with_ops :: "diag_panel \<Rightarrow> time \<Rightarrow> (nat \<Rightarrow> string) \<Rightarrow> op_call \<Rightarrow> diag_state \<Rightarrow> diag_state" where
  "with_ops G now rnd call s = s\<lparr>dv_ops := op_step (dg_config G) (dg_crypto G) (dg_interrupted G) now rnd call (dv_ops s)\<rparr>"

definition end_run :: "string \<Rightarrow> diag_run \<Rightarrow> bool \<Rightarrow> diag_state \<Rightarrow> diag_state" where
  "end_run i run sampling s = s\<lparr>dv_runs := map_delete i (dv_runs s), dv_clients := map_delete i (dv_clients s),
     dv_late := (if sampling then (i, run) # map_delete i (dv_late s) else map_delete i (dv_late s))\<rparr>"

definition start_run :: "diag_panel \<Rightarrow> time \<Rightarrow> (nat \<Rightarrow> string) \<Rightarrow> json \<Rightarrow> string \<Rightarrow> diag_state \<Rightarrow> diag_state" where
  "start_run G now rnd input actor s =
     (case admit_diagnostic (dg_env G) (dg_paths G) input (os_db (dv_ops s)) of
        Inl _ \<Rightarrow> s
      | Inr q \<Rightarrow>
          if rnd 0 \<in> op_id ` set (t_operations (os_db (dv_ops s))) then s
          else (let s1 = with_ops G now rnd (RunDiagnostic actor (request_json q)) s
                in s1\<lparr>dv_started := (rnd 0, actor, q) # dv_started s,
                      dv_clients := (if dq_vantage q = FromClient
                        then (rnd 0, \<lparr>cj_actor = actor, cj_request = q, cj_claimed = False, cj_expires_at = now + 300000,
                                cj_token_hash = None, cj_report = None, cj_complete = False\<rparr>) # dv_clients s
                        else dv_clients s)\<rparr>))"

definition claim_run :: "diag_panel \<Rightarrow> time \<Rightarrow> string \<Rightarrow> string \<Rightarrow> string \<Rightarrow> diag_state \<Rightarrow> diag_state" where
  "claim_run G now token i actor s =
     (case claim_client_job (dg_crypto G) (dg_keys G) (dg_site G) (dg_paths G) token now i actor (map_get i (dv_clients s)) (os_db (dv_ops s)) of
        Inl _ \<Rightarrow> s
      | Inr (profiles, j) \<Rightarrow> s\<lparr>dv_clients := map_set i j (dv_clients s), dv_claims := (i, actor, token) # dv_claims s\<rparr>)"

definition report_run ::
  "diag_panel \<Rightarrow> time \<Rightarrow> (nat \<Rightarrow> string) \<Rightarrow> string \<Rightarrow> string \<Rightarrow> string \<Rightarrow> json \<Rightarrow> bool \<Rightarrow> diag_state \<Rightarrow> diag_state" where
  "report_run G now rnd i actor token value whole s =
     (case accept_report (dg_crypto G) i actor token value whole (map_get i (dv_clients s)) (os_db (dv_ops s)) of
        Inl _ \<Rightarrow> s
      | Inr (r, j) \<Rightarrow>
          (let s1 = s\<lparr>dv_clients := map_set i j (dv_clients s),
                     dv_results := (if whole then (i, actor, token, r) # dv_results s else dv_results s)\<rparr>
           in case map_get i (dv_runs s) of
                None \<Rightarrow> s1
              | Some run \<Rightarrow> with_ops G now rnd (DiagnosticReports i (run_json (dg_env G) (Some j) now run) 0) s1))"

definition diag_step :: "diag_panel \<Rightarrow> time \<Rightarrow> (nat \<Rightarrow> string) \<Rightarrow> diag_call \<Rightarrow> diag_state \<Rightarrow> diag_state" where
  "diag_step G now rnd call s =
     (case call of
        StartDiagnostic input actor \<Rightarrow> start_run G now rnd input actor s
      | ClaimDiagnostic i actor token \<Rightarrow> claim_run G now token i actor s
      | SendReport i actor token value whole \<Rightarrow> report_run G now rnd i actor token value whole s
      | CancelRun i actor \<Rightarrow>
          (case bind_result (get_diagnostic i False (os_db (dv_ops s))) (\<lambda>_. cancel_diagnostic i actor now (os_db (dv_ops s))) of
             Inl _ \<Rightarrow> s
           | Inr _ \<Rightarrow> (with_ops G now rnd (CancelDiagnostic actor i) s)\<lparr>dv_clients := map_delete i (dv_clients s)\<rparr>)
      | BeginRun i \<Rightarrow>
          (case (map_get i (dv_runs s), map_of (dv_started s) i, map_of (os_tasks (dv_ops s)) i) of
             (None, Some (actor, q), Some aborted) \<Rightarrow>
               (let s1 = with_ops G now rnd (DiagnosticBegins i (request_json q)) s
                in if aborted then s1
                   else s1\<lparr>dv_runs := (i, \<lparr>dr_request = q, dr_started = now, dr_samples = [], dr_stages = []\<rparr>) # dv_runs s\<rparr>)
           | _ \<Rightarrow> s)
      | SampleRun i x \<Rightarrow>
          (case map_get i (dv_runs s) of None \<Rightarrow> s | Some run \<Rightarrow> s\<lparr>dv_runs := map_set i (add_run_sample x run) (dv_runs s)\<rparr>)
      | ReportRun i \<Rightarrow>
          (case map_get i (dv_runs s) of
             None \<Rightarrow> s
           | Some run \<Rightarrow> with_ops G now rnd (DiagnosticReports i (run_json (dg_env G) (map_get i (dv_clients s)) now run) 0) s)
      | ServerStage i g \<Rightarrow>
          (case map_get i (dv_runs s) of
             None \<Rightarrow> s
           | Some run \<Rightarrow> if dq_vantage (dr_request run) = FromClient then s
                         else s\<lparr>dv_runs := map_set i (add_stages [g] run) (dv_runs s)\<rparr>)
      | ServerEnds i sampling \<Rightarrow>
          (case map_get i (dv_runs s) of
             None \<Rightarrow> s
           | Some run \<Rightarrow> if dq_vantage (dr_request run) = FromClient then s
               else end_run i run sampling (with_ops G now rnd (DiagnosticEnds i (Ok (run_result (dg_env G) None now run)) sampling) s))
      | ClientEnds i sampling \<Rightarrow>
          (case (map_get i (dv_runs s), map_get i (dv_clients s)) of
             (Some run, Some j) \<Rightarrow>
               (case cj_report j of
                  None \<Rightarrow> s
                | Some r \<Rightarrow>
                    if cj_complete j
                    then (let run' = add_stages (dp_stages r) run
                          in end_run i run' sampling
                               (with_ops G now rnd (DiagnosticEnds i (Ok (run_result (dg_env G) (Some j) now run')) sampling) s))
                    else s)
           | _ \<Rightarrow> s)
      | RunFails i sampling \<Rightarrow>
          (case map_get i (dv_runs s) of
             None \<Rightarrow> s
           | Some run \<Rightarrow>
               if dq_vantage (dr_request run) = FromServer \<or> map_of (os_tasks (dv_ops s)) i = Some True \<or>
                  dr_started run + diag_timeout (dr_request run) \<le> now
               then end_run i run sampling (with_ops G now rnd (DiagnosticEnds i (Err (Thrown ''aborted'')) sampling) s)
               else s)
      | LateSample i x \<Rightarrow>
          (case map_get i (dv_late s) of
             None \<Rightarrow> s
           | Some run \<Rightarrow> (with_ops G now rnd (LateReport i (run_json (dg_env G) None now (add_run_sample x run))) s)
                           \<lparr>dv_late := map_delete i (dv_late s)\<rparr>)
      | OtherOperation c \<Rightarrow>
          (case c of
             Preview _ _ \<Rightarrow> with_ops G now rnd c s
           | Confirm _ _ _ \<Rightarrow> with_ops G now rnd c s
           | Finish _ _ \<Rightarrow> with_ops G now rnd c s
           | ListOperations \<Rightarrow> with_ops G now rnd c s
           | RestartPanel \<Rightarrow> (with_ops G now rnd c s)\<lparr>dv_clients := [], dv_runs := [], dv_late := []\<rparr>
           | _ \<Rightarrow> s))"

definition run_service :: "diag_panel \<Rightarrow> (time \<times> (nat \<Rightarrow> string) \<times> diag_call) list \<Rightarrow> diag_state \<Rightarrow> diag_state" where
  "run_service G calls s = foldl (\<lambda>s (now, rnd, c). diag_step G now rnd c s) s calls"

definition no_diagnostics :: diag_state where
  "no_diagnostics = \<lparr>dv_ops = no_operations, dv_clients = [], dv_runs = [], dv_late = [], dv_started = [], dv_claims = [], dv_results = []\<rparr>"

section \<open>What the history says\<close>

text \<open>A job agrees with the history of its diagnostic.\<close>

definition job_ok ::
  "crypto \<Rightarrow> (string \<times> string \<times> diag_request) list \<Rightarrow> (string \<times> string \<times> string) list \<Rightarrow> (string \<times> string \<times> string \<times> diag_report) list \<Rightarrow>
   string \<Rightarrow> client_job \<Rightarrow> bool" where
  "job_ok X st cl rs i j \<longleftrightarrow>
     (i, cj_actor j, cj_request j) \<in> set st \<and>
     (\<not> cj_claimed j \<longrightarrow> cj_token_hash j = None \<and> i \<notin> fst ` set cl) \<and>
     (\<forall>h. cj_token_hash j = Some h \<longrightarrow> (\<exists>tok. (i, cj_actor j, tok) \<in> set cl \<and> h = x_hash X tok) \<and> i \<notin> fst ` set rs) \<and>
     (cj_complete j \<longrightarrow> i \<in> fst ` set rs)"

definition result_ok ::
  "crypto \<Rightarrow> (string \<times> string \<times> diag_request) list \<Rightarrow> (string \<times> string \<times> string) list \<Rightarrow> string \<times> string \<times> string \<times> diag_report \<Rightarrow> bool" where
  "result_ok X st cl = (\<lambda>(i, a, tok, r). \<exists>q tok'. (i, a, q) \<in> set st \<and> (i, a, tok') \<in> set cl \<and> x_hash X tok = x_hash X tok' \<and>
     check_report q True r = Ok ())"

definition history_ok :: "crypto \<Rightarrow> diag_state \<Rightarrow> bool" where
  "history_ok X s \<longleftrightarrow>
     distinct (map fst (dv_started s)) \<and> distinct (map fst (dv_claims s)) \<and> distinct (map fst (dv_results s)) \<and>
     (\<forall>i\<in>fst ` set (dv_claims s). i \<in> fst ` set (dv_started s)) \<and>
     (\<forall>x\<in>set (dv_results s). result_ok X (dv_started s) (dv_claims s) x) \<and>
     (\<forall>i j. map_get i (dv_clients s) = Some j \<longrightarrow> job_ok X (dv_started s) (dv_claims s) (dv_results s) i j) \<and>
     (\<forall>i run. map_get i (dv_runs s) = Some run \<longrightarrow> (\<exists>a. (i, a, dr_request run) \<in> set (dv_started s)))"

lemma history_okI:
  assumes "distinct (map fst (dv_started s))" "distinct (map fst (dv_claims s))" "distinct (map fst (dv_results s))"
    and "\<And>i. i \<in> fst ` set (dv_claims s) \<Longrightarrow> i \<in> fst ` set (dv_started s)"
    and "\<And>x. x \<in> set (dv_results s) \<Longrightarrow> result_ok X (dv_started s) (dv_claims s) x"
    and "\<And>i j. map_get i (dv_clients s) = Some j \<Longrightarrow> job_ok X (dv_started s) (dv_claims s) (dv_results s) i j"
    and "\<And>i run. map_get i (dv_runs s) = Some run \<Longrightarrow> \<exists>a. (i, a, dr_request run) \<in> set (dv_started s)"
  shows "history_ok X s"
  using assms unfolding history_ok_def by blast

lemma history_okD:
  assumes "history_ok X s"
  shows "distinct (map fst (dv_started s))" "distinct (map fst (dv_claims s))" "distinct (map fst (dv_results s))"
    and "i \<in> fst ` set (dv_claims s) \<Longrightarrow> i \<in> fst ` set (dv_started s)"
    and "x \<in> set (dv_results s) \<Longrightarrow> result_ok X (dv_started s) (dv_claims s) x"
    and "map_get i (dv_clients s) = Some j \<Longrightarrow> job_ok X (dv_started s) (dv_claims s) (dv_results s) i j"
    and "map_get i (dv_runs s) = Some run \<Longrightarrow> \<exists>a. (i, a, dr_request run) \<in> set (dv_started s)"
  using assms unfolding history_ok_def by blast+

lemma result_ok_more: "result_ok X st cl x \<Longrightarrow> set st \<subseteq> set st' \<Longrightarrow> set cl \<subseteq> set cl' \<Longrightarrow> result_ok X st' cl' x"
  by (auto simp: result_ok_def split: prod.splits)

lemma job_ok_more: "job_ok X st cl rs i j \<Longrightarrow> set st \<subseteq> set st' \<Longrightarrow> job_ok X st' cl rs i j"
  unfolding job_ok_def by blast

lemma with_ops_fields [simp]:
  "dv_clients (with_ops G now rnd c s) = dv_clients s" "dv_runs (with_ops G now rnd c s) = dv_runs s"
  "dv_late (with_ops G now rnd c s) = dv_late s" "dv_started (with_ops G now rnd c s) = dv_started s"
  "dv_claims (with_ops G now rnd c s) = dv_claims s" "dv_results (with_ops G now rnd c s) = dv_results s"
  "dv_ops (with_ops G now rnd c s) = op_step (dg_config G) (dg_crypto G) (dg_interrupted G) now rnd c (dv_ops s)"
  by (simp_all add: with_ops_def)

lemma history_with_ops [simp]: "history_ok X (with_ops G now rnd c s) = history_ok X s"
  by (simp add: history_ok_def)

text \<open>Forgetting jobs and runs, and touching runs, keeps the history.\<close>

lemma history_fewer:
  assumes "history_ok X s"
    and "dv_started s' = dv_started s" "dv_claims s' = dv_claims s" "dv_results s' = dv_results s"
    and "\<And>i j. map_get i (dv_clients s') = Some j \<Longrightarrow> map_get i (dv_clients s) = Some j"
    and "\<And>i run. map_get i (dv_runs s') = Some run \<Longrightarrow>
      (\<exists>run0. map_get i (dv_runs s) = Some run0 \<and> dr_request run = dr_request run0) \<or> (\<exists>a. (i, a, dr_request run) \<in> set (dv_started s))"
  shows "history_ok X s'"
proof (rule history_okI)
  fix i run
  assume "map_get i (dv_runs s') = Some run"
  then show "\<exists>a. (i, a, dr_request run) \<in> set (dv_started s')"
    using assms(2,6) history_okD(7) [OF assms(1)] by metis
qed (use assms(2-5) history_okD [OF assms(1)] in simp_all)

lemma run_request_kept [simp]:
  "dr_request (add_run_sample x run) = dr_request run" "dr_request (add_stages gs run) = dr_request run"
  by (simp_all add: add_run_sample_def add_stages_def)

lemma end_run_fields [simp]:
  "dv_started (end_run i run b s) = dv_started s" "dv_claims (end_run i run b s) = dv_claims s"
  "dv_results (end_run i run b s) = dv_results s" "dv_ops (end_run i run b s) = dv_ops s"
  "map_get k (dv_clients (end_run i run b s)) = (if k = i then None else map_get k (dv_clients s))"
  "map_get k (dv_runs (end_run i run b s)) = (if k = i then None else map_get k (dv_runs s))"
  by (simp_all add: end_run_def)

lemma history_end_run: "history_ok X s \<Longrightarrow> history_ok X (end_run i run b s)"
  by (rule history_fewer) (auto split: if_splits)

lemma history_start:
  assumes h: "history_ok X s" and new: "i \<notin> fst ` set (dv_started s)"
    and fields: "dv_started s' = (i, a, q) # dv_started s" "dv_claims s' = dv_claims s" "dv_results s' = dv_results s" "dv_runs s' = dv_runs s"
    and clients: "\<And>k j. map_get k (dv_clients s') = Some j \<Longrightarrow> map_get k (dv_clients s) = Some j \<or>
      k = i \<and> cj_actor j = a \<and> cj_request j = q \<and> \<not> cj_claimed j \<and> cj_token_hash j = None \<and> \<not> cj_complete j"
  shows "history_ok X s'"
proof (rule history_okI)
  fix k j
  assume "map_get k (dv_clients s') = Some j"
  from clients [OF this] show "job_ok X (dv_started s') (dv_claims s') (dv_results s') k j"
  proof
    assume "map_get k (dv_clients s) = Some j"
    from history_okD(6) [OF h this] show ?thesis unfolding fields by (rule job_ok_more) auto
  next
    assume j: "k = i \<and> cj_actor j = a \<and> cj_request j = q \<and> \<not> cj_claimed j \<and> cj_token_hash j = None \<and> \<not> cj_complete j"
    moreover have "i \<notin> fst ` set (dv_claims s)" using new history_okD(4) [OF h] by blast
    ultimately show ?thesis by (simp add: job_ok_def fields)
  qed
next
  fix k run
  assume "map_get k (dv_runs s') = Some run"
  with history_okD(7) [OF h] show "\<exists>a. (k, a, dr_request run) \<in> set (dv_started s')" by (fastforce simp: fields)
next
  fix x
  assume "x \<in> set (dv_results s')"
  then have "x \<in> set (dv_results s)" by (simp add: fields)
  from history_okD(5) [OF h this] show "result_ok X (dv_started s') (dv_claims s') x"
    unfolding fields by (rule result_ok_more) auto
next
  fix k
  assume "k \<in> fst ` set (dv_claims s')"
  with history_okD(4) [OF h, of k] show "k \<in> fst ` set (dv_started s')" by (simp add: fields)
qed (use history_okD(1-3) [OF h] new in \<open>simp_all add: fields\<close>)

lemma claim_client_job_Ok:
  assumes "claim_client_job X K st P token now i actor job d = Ok (profiles, j')"
  shows "\<exists>j. job = Some j \<and> cj_actor j = actor \<and> \<not> cj_claimed j \<and> j' = j\<lparr>cj_claimed := True, cj_token_hash := Some (x_hash X token)\<rparr>"
  using assms by (auto simp: claim_client_job_def split: option.splits if_splits)

lemma accept_report_Ok:
  assumes "accept_report X i actor token value whole job d = Ok (r, j')"
  shows "\<exists>j. job = Some j \<and> cj_actor j = actor \<and> cj_token_hash j = Some (x_hash X token) \<and> check_report (cj_request j) whole r = Ok () \<and>
    j' = j\<lparr>cj_report := Some r, cj_complete := whole, cj_token_hash := (if whole then None else cj_token_hash j)\<rparr>"
  using assms by (auto simp: accept_report_def split: option.splits if_splits)

lemma history_claim:
  assumes h: "history_ok X s" and job: "map_get i (dv_clients s) = Some j" "\<not> cj_claimed j"
    and s': "s' = s\<lparr>dv_clients := map_set i (j\<lparr>cj_claimed := True, cj_token_hash := Some (x_hash X token)\<rparr>) (dv_clients s),
               dv_claims := (i, cj_actor j, token) # dv_claims s\<rparr>"
  shows "history_ok X s'"
proof -
  have ok: "job_ok X (dv_started s) (dv_claims s) (dv_results s) i j" by (rule history_okD(6) [OF h job(1)])
  then have new: "i \<notin> fst ` set (dv_claims s)" and started: "(i, cj_actor j, cj_request j) \<in> set (dv_started s)" using job(2) by (auto simp: job_ok_def)
  have "i \<notin> fst ` set (dv_results s)"
  proof
    assume "i \<in> fst ` set (dv_results s)"
    then obtain a tok r where "(i, a, tok, r) \<in> set (dv_results s)" by auto
    from history_okD(5) [OF h this] new show False by (force simp: result_ok_def)
  qed
  note fresh = this
  show ?thesis
  proof (rule history_okI)
    fix k x
    assume k: "map_get k (dv_clients s') = Some x"
    show "job_ok X (dv_started s') (dv_claims s') (dv_results s') k x"
    proof (cases "k = i")
      case True
      with k ok fresh show ?thesis by (auto simp: s' job_ok_def)
    next
      case False
      with k history_okD(6) [OF h, of k x] show ?thesis by (auto simp: s' job_ok_def)
    qed
  next
    fix x
    assume "x \<in> set (dv_results s')"
    then have "x \<in> set (dv_results s)" by (simp add: s')
    from history_okD(5) [OF h this] show "result_ok X (dv_started s') (dv_claims s') x"
      by (rule result_ok_more) (auto simp: s')
  next
    fix k
    assume "k \<in> fst ` set (dv_claims s')"
    then show "k \<in> fst ` set (dv_started s')" using history_okD(4) [OF h, of k] started by (force simp: s')
  qed (use history_okD(1,2,3,7) [OF h] new in \<open>simp_all add: s'\<close>)
qed

lemma history_report:
  assumes h: "history_ok X s" and job: "map_get i (dv_clients s) = Some j" "cj_token_hash j = Some (x_hash X token)"
    and r: "check_report (cj_request j) whole r = Ok ()"
    and s': "s' = s\<lparr>dv_clients := map_set i (j\<lparr>cj_report := Some r, cj_complete := whole,
                 cj_token_hash := (if whole then None else cj_token_hash j)\<rparr>) (dv_clients s),
               dv_results := (if whole then (i, cj_actor j, token, r) # dv_results s else dv_results s)\<rparr>"
  shows "history_ok X s'"
proof -
  have ok: "job_ok X (dv_started s) (dv_claims s) (dv_results s) i j" by (rule history_okD(6) [OF h job(1)])
  then obtain tok where started: "(i, cj_actor j, cj_request j) \<in> set (dv_started s)" and claimed: "(i, cj_actor j, tok) \<in> set (dv_claims s)"
    "x_hash X token = x_hash X tok" and fresh: "i \<notin> fst ` set (dv_results s)"
    using job(2) by (auto simp: job_ok_def)
  show ?thesis
  proof (rule history_okI)
    fix k x
    assume k: "map_get k (dv_clients s') = Some x"
    show "job_ok X (dv_started s') (dv_claims s') (dv_results s') k x"
    proof (cases "k = i")
      case True
      with k ok fresh job(2) show ?thesis by (cases whole) (auto simp: s' job_ok_def)
    next
      case False
      with k history_okD(6) [OF h, of k x] show ?thesis by (cases whole) (auto simp: s' job_ok_def)
    qed
  next
    fix x
    assume x: "x \<in> set (dv_results s')"
    show "result_ok X (dv_started s') (dv_claims s') x"
    proof (cases "x \<in> set (dv_results s)")
      case True
      with history_okD(5) [OF h] show ?thesis by (simp add: s')
    next
      case False
      with x have "whole" "x = (i, cj_actor j, token, r)" by (auto simp: s' split: if_splits)
      with started claimed r show ?thesis by (auto simp: s' result_ok_def)
    qed
  qed (use history_okD(1,2,3,4,7) [OF h] fresh in \<open>simp_all add: s'\<close>)
qed

section \<open>The rows of operations\<close>

definition row_step :: "op_call \<Rightarrow> (operation_row \<Rightarrow> operation_row) \<Rightarrow> bool" where
  "row_step call f \<longleftrightarrow> (\<forall>r. op_id (f r) = op_id r \<and> op_kind (f r) = op_kind r \<and>
     (op_status (f r) = ''completed'' \<longrightarrow> op_status r = ''completed'' \<or> (\<exists>outcome. call = Finish (op_id r) outcome) \<or>
        (\<exists>result sampling. call = DiagnosticEnds (op_id r) (Ok result) sampling)))"

definition rows_step :: "op_call \<Rightarrow> operation_row list \<Rightarrow> operation_row list \<Rightarrow> bool" where
  "rows_step call ops ops' \<longleftrightarrow> (\<exists>f new. ops' = map f ops @ new \<and> row_step call f \<and> (\<forall>r\<in>set new. op_status r \<noteq> ''completed''))"

lemma rows_step_refl [simp]: "rows_step call ops ops"
  unfolding rows_step_def by (intro exI [of _ "\<lambda>r. r"] exI [of _ "[]"]) (simp add: row_step_def)

lemma rows_step_added: "op_status r \<noteq> ''completed'' \<Longrightarrow> rows_step call ops (ops @ [r])"
  unfolding rows_step_def by (intro exI [of _ "\<lambda>r. r"] exI [of _ "[r]"]) (simp add: row_step_def)

lemma rows_step_touched:
  assumes "\<And>r. q r \<Longrightarrow> op_id (f r) = op_id r \<and> op_kind (f r) = op_kind r"
    and "\<And>r. q r \<Longrightarrow> op_status (f r) = ''completed'' \<Longrightarrow> op_status r = ''completed'' \<or> (\<exists>outcome. call = Finish (op_id r) outcome) \<or>
      (\<exists>result sampling. call = DiagnosticEnds (op_id r) (Ok result) sampling)"
  shows "rows_step call ops (update_where q f ops)"
  unfolding rows_step_def update_where_def
  by (intro exI [of _ "\<lambda>r. if q r then f r else r"] exI [of _ "[]"]) (use assms in \<open>simp add: row_step_def\<close>)

lemma rows_step_running [simp]:
  "st \<noteq> ''completed'' \<Longrightarrow> rows_step call (t_operations d) (t_operations (update_operation i st n m res now d))"
  "rows_step call (t_operations d) (t_operations (fail_operation i x now d))"
  by (simp_all add: update_operation_def fail_operation_def, (rule rows_step_touched; simp)+)

lemma rows_step_reconciled: "reconcile_updates t now d = Ok d' \<Longrightarrow> rows_step call (t_operations d) (t_operations d')"
  by (simp add: reconcile_updates_ops, rule rows_step_touched) simp_all

lemma rows_step_trans:
  assumes "rows_step call a b" "\<And>r. r \<in> set c \<Longrightarrow> op_status r = ''completed'' \<Longrightarrow> r \<in> set b"
    and "c = update_where q f b" "\<And>r. op_id (f r) = op_id r \<and> op_kind (f r) = op_kind r \<and> op_status (f r) \<noteq> ''completed''"
  shows "rows_step call a c"
proof -
  from assms(1) obtain g new where b: "b = map g a @ new" "row_step call g" "\<forall>r\<in>set new. op_status r \<noteq> ''completed''"
    unfolding rows_step_def by blast
  let ?h = "\<lambda>r. if q r then f r else r"
  have "c = map (?h \<circ> g) a @ map ?h new" by (simp add: assms(3) b(1) update_where_def)
  moreover have "row_step call (?h \<circ> g)" using b(2) assms(4) by (simp add: row_step_def)
  moreover have "\<forall>r\<in>set (map ?h new). op_status r \<noteq> ''completed''" using b(3) assms(4) by auto
  ultimately show ?thesis unfolding rows_step_def by blast
qed

lemma op_step_rows: "rows_step call (t_operations (os_db s)) (t_operations (os_db (op_step oc X t now rnd call s)))"
proof (cases call)
  case (Preview a p)
  then show ?thesis by (auto simp: op_step_def dest: preview_Ok(1) split: sum.split prod.split)
next
  case (Confirm c a p)
  show ?thesis
  proof (cases "confirm_operation oc X rnd now c a p ''owner'' (os_db s)")
    case (Inr x)
    obtain i d' where x: "x = (i, d')" by (cases x)
    from confirm_operation_Ok(3) [OF Inr [unfolded x]] show ?thesis
      by (auto simp: op_step_def Confirm Inr x intro!: rows_step_added)
  qed (simp add: op_step_def Confirm)
next
  case (Finish i outcome)
  show ?thesis
  proof (cases "map_of (os_executing s) i")
    case (Some ap)
    obtain a p where ap: "ap = (a, p)" by (cases ap)
    show ?thesis
    proof (cases "finish_operation oc i a p ''owner'' outcome now (os_db s)")
      case (Inr d')
      from finish_operation_Ok(1) [OF Inr] obtain f where f: "t_operations d' = update_where (\<lambda>r. op_id r = i) f (t_operations (os_db s))"
        "\<forall>r. op_id (f r) = op_id r \<and> op_kind (f r) = op_kind r \<and> op_status (f r) \<in> {''completed'', ''failed''}" by blast
      have "rows_step call (t_operations (os_db s)) (t_operations d')"
        unfolding f(1) by (rule rows_step_touched) (use f(2) Finish in auto)
      then show ?thesis by (simp add: op_step_def Finish Some ap Inr)
    qed (simp add: op_step_def Finish Some ap)
  qed (simp add: op_step_def Finish)
next
  case (RunDiagnostic actor input)
  show ?thesis
  proof (cases "queue_diagnostic (rnd 0) input actor now (os_db s)")
    case (Inr d')
    from queue_diagnostic_Ok(1) [OF Inr] show ?thesis by (auto simp: op_step_def RunDiagnostic Inr intro!: rows_step_added)
  qed (simp add: op_step_def RunDiagnostic)
next
  case (DiagnosticEnds i outcome sampling)
  show ?thesis
  proof (cases outcome)
    case (Inr result)
    have "rows_step call (t_operations (os_db s)) (t_operations (update_operation i st n m res now (os_db s)))" for st n m res
      unfolding update_operation_def by (simp, rule rows_step_touched) (use DiagnosticEnds Inr in auto)
    with Inr show ?thesis by (simp add: op_step_def DiagnosticEnds Let_def)
  qed (simp add: op_step_def DiagnosticEnds Let_def)
next
  case (CancelDiagnostic actor i)
  have "rows_step call (t_operations (os_db s)) (t_operations d')" if "cancel_diagnostic i actor now (os_db s) = Ok (b, d')" for b d'
    using that by (auto simp: cancel_diagnostic_def simp del: select_one_None split: option.splits if_splits intro!: rows_step_touched)
  with CancelDiagnostic show ?thesis by (auto simp: op_step_def split: sum.split prod.split)
next
  case ListOperations
  then show ?thesis by (auto simp: op_step_def list_operations_def intro: rows_step_reconciled split: sum.split)
next
  case RestartPanel
  show ?thesis
  proof (cases "start_operations t now (os_db s)")
    case (Inr d')
    then obtain d1 where d1: "reconcile_updates t now (os_db s) = Ok d1" and d': "t_operations d' = update_where (\<lambda>r. op_kind r = ''diagnostic'' \<and> unfinished r)
          (\<lambda>r. r\<lparr>op_status := ''failed'', op_error := Some ''Diagnostic interrupted by application restart'', op_updated_at := now\<rparr>)
          (t_operations d1)" by (auto simp: start_operations_def)
    have "rows_step call (t_operations (os_db s)) (t_operations d')"
      by (rule rows_step_trans [OF rows_step_reconciled [OF d1] _ d']) (auto simp: d' set_update_where split: if_splits)
    then show ?thesis by (simp add: op_step_def RestartPanel Inr)
  qed (simp add: op_step_def RestartPanel)
qed (simp_all add: op_step_def)

section \<open>The invariant of the service\<close>

definition rows_done :: "diag_state \<Rightarrow> bool" where
  "rows_done s \<longleftrightarrow>
     (\<forall>i\<in>fst ` set (dv_started s). \<exists>r\<in>set (t_operations (os_db (dv_ops s))). op_id r = i \<and> op_kind r = ''diagnostic'') \<and>
     (\<forall>r\<in>set (t_operations (os_db (dv_ops s))). op_status r = ''completed'' \<longrightarrow>
        (\<forall>a q. (op_id r, a, q) \<in> set (dv_started s) \<longrightarrow> dq_vantage q = FromClient \<longrightarrow> op_id r \<in> fst ` set (dv_results s)))"

definition service_inv :: "diag_panel \<Rightarrow> diag_state \<Rightarrow> bool" where
  "service_inv G s \<longleftrightarrow> op_inv (dg_config G) (dg_crypto G) (dv_ops s) \<and> history_ok (dg_crypto G) s \<and> rows_done s"

lemma started_not_executing:
  assumes "service_inv G s" "i \<in> fst ` set (dv_started s)"
  shows "i \<notin> fst ` set (os_executing (dv_ops s))"
proof
  let ?ops = "t_operations (os_db (dv_ops s))"
  assume "i \<in> fst ` set (os_executing (dv_ops s))"
  then obtain a p where e: "(i, a, p) \<in> set (os_executing (dv_ops s))" by auto
  from assms(1) have rows: "rows_ok ?ops (os_tasks (dv_ops s)) (os_executing (dv_ops s))" by (simp add: service_inv_def op_inv_def)
  from rows_okD(2) [OF rows e] obtain y where y: "y \<in> set ?ops" "op_id y = i" "op_kind y = action_key a" by blast
  from assms obtain r where r: "r \<in> set ?ops" "op_id r = i" "op_kind r = ''diagnostic''" unfolding service_inv_def rows_done_def by blast
  with y rows_okD(1) [OF rows] have "y = r" by (auto simp: distinct_map inj_on_def)
  with y(3) r(3) show False by (metis action_not_diagnostic)
qed

lemma service_with_ops:
  assumes inv: "service_inv G s"
    and ends: "\<And>i result sampling a q. call = DiagnosticEnds i (Ok result) sampling \<Longrightarrow> (i, a, q) \<in> set (dv_started s) \<Longrightarrow>
      dq_vantage q = FromClient \<Longrightarrow> i \<in> fst ` set (dv_results s)"
  shows "service_inv G (with_ops G now rnd call s)"
proof -
  let ?ops = "t_operations (os_db (dv_ops s))" and ?s = "with_ops G now rnd call s"
  let ?ops' = "t_operations (os_db (dv_ops ?s))"
  obtain f new where f: "?ops' = map f ?ops @ new" and step: "row_step call f" and new: "\<And>r. r \<in> set new \<Longrightarrow> op_status r \<noteq> ''completed''"
    using op_step_rows [of call "dv_ops s" "dg_config G" "dg_crypto G" "dg_interrupted G" now rnd] by (auto simp: rows_step_def)
  have settled: "rows_done s" using inv by (simp add: service_inv_def)
  have "rows_done ?s"
    unfolding rows_done_def
  proof (intro conjI ballI allI impI)
    fix i
    assume "i \<in> fst ` set (dv_started ?s)"
    with settled obtain r where "r \<in> set ?ops" "op_id r = i" "op_kind r = ''diagnostic''" unfolding rows_done_def by auto
    with step show "\<exists>r\<in>set ?ops'. op_id r = i \<and> op_kind r = ''diagnostic''"
      unfolding f by (intro bexI [of _ "f r"]) (auto simp: row_step_def)
  next
    fix r a q
    assume r: "r \<in> set ?ops'" "op_status r = ''completed''" and q: "(op_id r, a, q) \<in> set (dv_started ?s)" "dq_vantage q = FromClient"
    with f new obtain x where x: "x \<in> set ?ops" "r = f x" by auto
    with step have same: "op_id r = op_id x" by (simp add: row_step_def)
    from step r(2) x(2) consider "op_status x = ''completed''" | outcome where "call = Finish (op_id x) outcome"
      | result sampling where "call = DiagnosticEnds (op_id x) (Ok result) sampling"
      unfolding row_step_def by metis
    then show "op_id r \<in> fst ` set (dv_results ?s)"
    proof cases
      case 1
      with settled x(1) q same show ?thesis unfolding rows_done_def by auto
    next
      case (2 outcome)
      have i: "op_id x \<in> fst ` set (dv_started s)" using q(1) same by force
      with started_not_executing [OF inv] have "map_of (os_executing (dv_ops s)) (op_id x) = None" by (auto simp: map_of_eq_None_iff)
      then have "?ops' = ?ops" by (simp add: op_step_def 2)
      with r q settled show ?thesis unfolding rows_done_def by simp
    next
      case (3 result sampling)
      with ends q same show ?thesis by simp
    qed
  qed
  with inv op_step_inv show ?thesis by (simp add: service_inv_def)
qed

lemma service_change:
  assumes "service_inv G s" "dv_ops s' = dv_ops s" "dv_started s' = dv_started s" "set (dv_results s) \<subseteq> set (dv_results s')"
    and "history_ok (dg_crypto G) s'"
  shows "service_inv G s'"
proof -
  from assms(1) have "rows_done s" by (simp add: service_inv_def)
  then have "rows_done s'" using image_mono [OF assms(4), of fst] unfolding rows_done_def assms(2,3) by blast
  with assms show ?thesis by (simp add: service_inv_def)
qed

lemma service_start:
  assumes inv: "service_inv G s"
  shows "service_inv G (start_run G now rnd input actor s)"
proof (cases "admit_diagnostic (dg_env G) (dg_paths G) input (os_db (dv_ops s))")
  case (Inr q)
  let ?d = "os_db (dv_ops s)" and ?c = "RunDiagnostic actor (request_json q)"
  let ?s1 = "with_ops G now rnd ?c s" and ?s' = "start_run G now rnd input actor s"
  show ?thesis
  proof (cases "rnd 0 \<in> op_id ` set (t_operations ?d)")
    case False
    then obtain d' where d': "queue_diagnostic (rnd 0) (request_json q) actor now ?d = Ok d'"
      by (simp add: queue_diagnostic_def enqueue_def)
    from queue_diagnostic_Ok(1) [OF d'] obtain r where r: "t_operations d' = t_operations ?d @ [r]" "op_id r = rnd 0"
      "op_kind r = ''diagnostic''" "op_status r = ''queued''" by blast
    have s': "dv_ops ?s' = dv_ops ?s1" "dv_started ?s' = (rnd 0, actor, q) # dv_started s" "dv_claims ?s' = dv_claims s"
      "dv_results ?s' = dv_results s" "dv_runs ?s' = dv_runs s"
      using Inr False by (simp_all add: start_run_def Let_def)
    have ops: "t_operations (os_db (dv_ops ?s')) = t_operations ?d @ [r]" unfolding s' by (simp add: op_step_def d' r)
    have s1: "service_inv G ?s1" using inv by (rule service_with_ops) simp
    have new: "rnd 0 \<notin> fst ` set (dv_started s)" using inv False unfolding service_inv_def rows_done_def by (metis imageI)
    have "history_ok (dg_crypto G) ?s'"
    proof (rule history_start [OF _ new s'(2-5)])
      show "history_ok (dg_crypto G) s" using inv by (simp add: service_inv_def)
      show "map_get k (dv_clients s) = Some j \<or> k = rnd 0 \<and> cj_actor j = actor \<and> cj_request j = q \<and> \<not> cj_claimed j \<and>
          cj_token_hash j = None \<and> \<not> cj_complete j" if "map_get k (dv_clients ?s') = Some j" for k j
        using that Inr False by (auto simp: start_run_def Let_def map_get_def split: if_splits)
    qed
    moreover have "rows_done ?s'"
      unfolding rows_done_def ops s'(2,4)
    proof (intro conjI ballI allI impI)
      fix i
      assume "i \<in> fst ` set ((rnd 0, actor, q) # dv_started s)"
      then consider "i = rnd 0" | "i \<in> fst ` set (dv_started s)" by auto
      then show "\<exists>r\<in>set (t_operations ?d @ [r]). op_id r = i \<and> op_kind r = ''diagnostic''"
      proof cases
        case 2
        with inv show ?thesis unfolding service_inv_def rows_done_def by auto
      qed (use r in auto)
    next
      fix x a q'
      assume x: "x \<in> set (t_operations ?d @ [r])" "op_status x = ''completed''" "(op_id x, a, q') \<in> set ((rnd 0, actor, q) # dv_started s)"
        "dq_vantage q' = FromClient"
      with r(4) have "x \<in> set (t_operations ?d)" by auto
      moreover from this False have "op_id x \<noteq> rnd 0" by (metis imageI)
      with x(3) have "(op_id x, a, q') \<in> set (dv_started s)" by simp
      ultimately show "op_id x \<in> fst ` set (dv_results s)" using inv x(2,4) unfolding service_inv_def rows_done_def by blast
    qed
    ultimately show ?thesis using s1 by (simp add: service_inv_def s')
  qed (simp add: start_run_def Inr inv)
qed (simp add: start_run_def inv)

lemma service_end:
  assumes inv: "service_inv G s" and run: "map_get i (dv_runs s) = Some run"
    and ends: "\<And>result a q. outcome = Ok result \<Longrightarrow> (i, a, q) \<in> set (dv_started s) \<Longrightarrow> dq_vantage q = FromClient \<Longrightarrow>
      i \<in> fst ` set (dv_results s)"
  shows "service_inv G (end_run i run' b (with_ops G now rnd (DiagnosticEnds i outcome b') s))"
proof -
  have step: "service_inv G (with_ops G now rnd (DiagnosticEnds i outcome b') s)"
    using inv by (rule service_with_ops) (auto dest: ends)
  from inv have "history_ok (dg_crypto G) s" by (simp add: service_inv_def)
  then show ?thesis by (intro service_change [OF step]) (simp_all add: history_end_run)
qed

lemma service_touch_run:
  assumes "service_inv G s" "map_get i (dv_runs s) = Some run" "dr_request run' = dr_request run"
  shows "service_inv G (s\<lparr>dv_runs := map_set i run' (dv_runs s)\<rparr>)"
  using assms(1)
proof (rule service_change)
  show "history_ok (dg_crypto G) (s\<lparr>dv_runs := map_set i run' (dv_runs s)\<rparr>)"
    by (rule history_fewer [of _ s]) (use assms in \<open>auto simp: service_inv_def split: if_splits\<close>)
qed simp_all

lemma service_forget:
  assumes "service_inv G s"
  shows "service_inv G (s\<lparr>dv_clients := map_delete i (dv_clients s)\<rparr>)" "service_inv G (s\<lparr>dv_late := late\<rparr>)"
    "service_inv G (s\<lparr>dv_clients := [], dv_runs := [], dv_late := []\<rparr>)"
proof -
  have h: "history_ok (dg_crypto G) s" using assms by (simp add: service_inv_def)
  have "history_ok (dg_crypto G) (s\<lparr>dv_clients := map_delete i (dv_clients s)\<rparr>)" using h by (rule history_fewer) (simp_all split: if_splits)
  then show "service_inv G (s\<lparr>dv_clients := map_delete i (dv_clients s)\<rparr>)" by (intro service_change [OF assms]) simp_all
  have "history_ok (dg_crypto G) (s\<lparr>dv_late := late\<rparr>)" using h by (rule history_fewer) simp_all
  then show "service_inv G (s\<lparr>dv_late := late\<rparr>)" by (intro service_change [OF assms]) simp_all
  have "history_ok (dg_crypto G) (s\<lparr>dv_clients := [], dv_runs := [], dv_late := []\<rparr>)" using h by (rule history_fewer) (simp_all add: map_get_def)
  then show "service_inv G (s\<lparr>dv_clients := [], dv_runs := [], dv_late := []\<rparr>)" by (intro service_change [OF assms]) simp_all
qed

lemma run_vantage:
  assumes "service_inv G s" "map_get i (dv_runs s) = Some run" "(i, a, q) \<in> set (dv_started s)"
  shows "q = dr_request run"
proof -
  from assms(1) have h: "history_ok (dg_crypto G) s" by (simp add: service_inv_def)
  from history_okD(7) [OF h assms(2)] obtain b where "(i, b, dr_request run) \<in> set (dv_started s)" by blast
  with assms(3) eq_key_imp_eq_value [OF history_okD(1) [OF h]] show ?thesis by fastforce
qed

lemma service_client_calls:
  assumes inv: "service_inv G s"
  shows "service_inv G (claim_run G now token i actor s)" "service_inv G (report_run G now rnd i actor token value whole s)"
proof -
  let ?X = "dg_crypto G"
  from inv have h: "history_ok ?X s" by (simp add: service_inv_def)
  show "service_inv G (claim_run G now token i actor s)"
  proof (cases "claim_client_job ?X (dg_keys G) (dg_site G) (dg_paths G) token now i actor (map_get i (dv_clients s)) (os_db (dv_ops s))")
    case (Inr x)
    obtain profiles j' where x: "x = (profiles, j')" by (cases x)
    from claim_client_job_Ok [OF Inr [unfolded x]] obtain j where j: "map_get i (dv_clients s) = Some j" "cj_actor j = actor" "\<not> cj_claimed j"
      "j' = j\<lparr>cj_claimed := True, cj_token_hash := Some (x_hash ?X token)\<rparr>" by blast
    have "history_ok ?X (claim_run G now token i actor s)"
      by (rule history_claim [OF h j(1,3), of _ token]) (simp add: claim_run_def Inr x j(2,4))
    then show ?thesis by (intro service_change [OF inv]) (simp_all add: claim_run_def Inr x)
  qed (simp add: claim_run_def inv)
  show "service_inv G (report_run G now rnd i actor token value whole s)"
  proof (cases "accept_report ?X i actor token value whole (map_get i (dv_clients s)) (os_db (dv_ops s))")
    case (Inr x)
    obtain r j' where x: "x = (r, j')" by (cases x)
    from accept_report_Ok [OF Inr [unfolded x]] obtain j where j: "map_get i (dv_clients s) = Some j" "cj_actor j = actor"
      "cj_token_hash j = Some (x_hash ?X token)" "check_report (cj_request j) whole r = Ok ()"
      "j' = j\<lparr>cj_report := Some r, cj_complete := whole, cj_token_hash := (if whole then None else cj_token_hash j)\<rparr>" by blast
    let ?s1 = "s\<lparr>dv_clients := map_set i j' (dv_clients s),
       dv_results := (if whole then (i, actor, token, r) # dv_results s else dv_results s)\<rparr>"
    have "history_ok ?X ?s1" by (rule history_report [OF h j(1,3,4)]) (simp add: j(2,5))
    then have "service_inv G ?s1" by (intro service_change [OF inv]) auto
    then show ?thesis
      by (auto simp: report_run_def Inr x Let_def split: option.split intro: service_with_ops)
  qed (simp add: report_run_def inv)
qed

lemma diag_step_inv:
  assumes inv: "service_inv G s"
  shows "service_inv G (diag_step G now rnd call s)"
proof -
  from inv have h: "history_ok (dg_crypto G) s" by (simp add: service_inv_def)
  have ops: "service_inv G (with_ops G now rnd c s)" if "\<And>i result b. c \<noteq> DiagnosticEnds i (Ok result) b" for c
    using inv by (rule service_with_ops) (use that in simp)
  show ?thesis
  proof (cases call)
    case (BeginRun i)
    show ?thesis
    proof (cases "map_get i (dv_runs s) = None \<and> map_of (dv_started s) i \<noteq> None \<and> map_of (os_tasks (dv_ops s)) i \<noteq> None")
      case True
      then obtain a q aborted where q: "map_of (dv_started s) i = Some (a, q)" "map_of (os_tasks (dv_ops s)) i = Some aborted" by auto
      let ?s1 = "with_ops G now rnd (DiagnosticBegins i (request_json q)) s"
      let ?run = "\<lparr>dr_request = q, dr_started = now, dr_samples = [], dr_stages = []\<rparr>"
      have s1: "service_inv G ?s1" by (rule ops) simp
      have "history_ok (dg_crypto G) (?s1\<lparr>dv_runs := (i, ?run) # dv_runs s\<rparr>)"
        by (rule history_fewer [OF h]) (use map_of_SomeD [OF q(1)] in \<open>auto simp: map_get_def split: if_splits\<close>)
      then have "service_inv G (?s1\<lparr>dv_runs := (i, ?run) # dv_runs s\<rparr>)" by (intro service_change [OF s1]) simp_all
      with s1 True q show ?thesis by (simp add: diag_step_def BeginRun Let_def)
    qed (use inv in \<open>auto simp: diag_step_def BeginRun split: option.split prod.split\<close>)
  next
    case (ServerEnds i sampling)
    have "i \<in> fst ` set (dv_results s)"
      if "map_get i (dv_runs s) = Some run" "(i, a, q) \<in> set (dv_started s)" "dq_vantage q = FromClient" "dq_vantage (dr_request run) \<noteq> FromClient"
      for run a q using run_vantage [OF inv that(1,2)] that(3,4) by simp
    with inv show ?thesis by (auto simp: diag_step_def ServerEnds split: option.split intro: service_end)
  next
    case (ClientEnds i sampling)
    have "i \<in> fst ` set (dv_results s)" if "map_get i (dv_clients s) = Some j" "cj_complete j" for j
      using history_okD(6) [OF h that(1)] that(2) by (simp add: job_ok_def)
    with inv show ?thesis by (auto simp: diag_step_def ClientEnds Let_def split: option.split intro: service_end)
  next
    case (RunFails i sampling)
    with inv show ?thesis by (auto simp: diag_step_def split: option.split intro: service_end)
  next
    case (CancelRun i actor)
    with inv ops [of "CancelDiagnostic actor i"] show ?thesis
      using service_forget(1) [of G "with_ops G now rnd (CancelDiagnostic actor i) s" i] by (auto simp: diag_step_def split: sum.split)
  next
    case (LateSample i x)
    show ?thesis
    proof (cases "map_get i (dv_late s)")
      case (Some run)
      from service_forget(2) [OF ops, of "LateReport i (run_json (dg_env G) None now (add_run_sample x run))"] show ?thesis
        by (simp add: diag_step_def LateSample Some)
    qed (simp add: diag_step_def LateSample inv)
  next
    case (OtherOperation c)
    from service_forget(3) [OF ops, of RestartPanel] ops inv show ?thesis
      by (simp add: diag_step_def OtherOperation split: op_call.split)
  qed (use inv ops service_start service_client_calls service_touch_run in
      \<open>auto simp: diag_step_def split: option.split intro: service_touch_run\<close>)
qed

interpretation runs: invariant_service "\<lambda>s (now, rnd, c). diag_step G now rnd c s" "service_inv G" for G
  by unfold_locales (auto simp: diag_step_inv)

lemma run_service_inv: "service_inv G s \<Longrightarrow> service_inv G (run_service G calls s)"
  unfolding run_service_def by (rule runs.run_inv)

lemma no_diagnostics_inv [simp]: "service_inv G no_diagnostics"
  by (simp add: service_inv_def rows_done_def history_ok_def no_diagnostics_def map_get_def)

section \<open>What a client's result is worth\<close>

text \<open>The diagnostics of clients that are shown as completed.\<close>

definition completed_clients :: "diag_state \<Rightarrow> string list" where
  "completed_clients s = map fst (filter (\<lambda>(i, a, q). dq_vantage q = FromClient \<and>
     (\<exists>r\<in>set (t_operations (os_db (dv_ops s))). op_id r = i \<and> op_status r = ''completed'')) (dv_started s))"


section \<open>A completed diagnostic that runs again\<close>

definition sample_panel :: diag_panel where
  "sample_panel = \<lparr>dg_config = sample_ops, dg_crypto = sample_crypto, dg_keys = sample_keys, dg_site = sample_site,
     dg_paths = Profiles.sample_paths,
     dg_env = \<lparr>dx_url = (\<lambda>_. Some \<lparr>up_protocol = ''https:'', up_username = [], up_password = [], up_hash = []\<rparr>),
       dx_uuid = (\<lambda>_. True), dx_sample = (\<lambda>_. JNull), dx_summary = (\<lambda>_. JNull)\<rparr>, dg_interrupted = ''interrupted''\<rparr>"

definition sample_reading :: resource_sample where
  "sample_reading = \<lparr>rs_sampled_at = 4000, rs_interval = None, rs_cpu_percent = None, rs_steal_percent = None, rs_memory = None,
     rs_disk = None, rs_network = None, rs_services = [], rs_errors = []\<rparr>"

definition sample_report :: json where
  "sample_report = JObj [(''stages'', JArr [JObj [(''type'', JStr ''http''), (''methodId'', JStr ''direct''), (''sampledAt'', JNum 2500),
       (''elapsedMs'', JNum 40), (''ok'', JBool True), (''metrics'', JObj [(''bytes'', JNum 512)])]]),
     (''runner'', JObj [(''platform'', JStr ''linux''), (''interface'', JStr ''eth0''), (''startedAt'', JNum 2100), (''finishedAt'', JNum 2600)])]"

definition client_calls :: "(time \<times> (nat \<Rightarrow> string) \<times> diag_call) list" where
  "client_calls = [(1000, draws CHR ''d'', StartDiagnostic (JObj [(''kind'', JStr ''reachability''), (''vantage'', JStr ''client'')]) ''owner''),
     (1001, draws CHR ''x'', BeginRun ''d00''), (2000, draws CHR ''x'', ClaimDiagnostic ''d00'' ''owner'' ''key''),
     (2001, draws CHR ''x'', ClaimDiagnostic ''d00'' ''owner'' ''other''), (3000, draws CHR ''x'', SendReport ''d00'' ''owner'' ''key'' sample_report True),
     (3001, draws CHR ''x'', ReportRun ''d00''), (3500, draws CHR ''x'', ClientEnds ''d00'' True)]"

lemma client_run_completes:
  "let s = run_service sample_panel client_calls no_diagnostics in
   completed_clients s = [''d00''] \<and> map fst (dv_results s) = [''d00''] \<and> map (snd \<circ> snd) (dv_claims s) = [''key'']"
  by code_simp

text \<open>
  The resource sample that the timer was taking when a diagnostic ended reports it as running
  again: its row is open with no run behind it, and every new diagnostic is refused until it is
  cancelled or the panel restarts.
\<close>

theorem late_report_reopens_diagnostic:
  "let s = run_service sample_panel (client_calls @ [(3600, draws CHR ''x'', LateSample ''d00'' sample_reading),
       (9000, draws CHR ''e'', StartDiagnostic (JObj [(''kind'', JStr ''latency'')]) ''owner'')]) no_diagnostics in
   map (\<lambda>r. (op_id r, op_status r)) (t_operations (os_db (dv_ops s))) = [(''d00'', ''running'')] \<and> dv_runs s = [] \<and> os_tasks (dv_ops s) = []"
  by code_simp

end
