(* ===== verification/Setup.thy ===== *)
theory Setup
  imports Auth Subscriptions Services
begin

text \<open>
  The first setup of a server (src/src/server/services/setup.ts): binding the permanent domain,
  which ends in the link that lets the owner register, and restoring a backup onto a fresh
  installation.

  The resolver and the root agent answer asynchronously, so a request is a begin step and the
  steps of their answers; \<open>finalizing\<close> and \<open>restoring\<close> hold in between.  The texts of the errors
  are left out.
\<close>

section \<open>Domains\<close>

definition setup_octet :: "string \<Rightarrow> bool" where
  "setup_octet p \<longleftrightarrow> 1 \<le> length p \<and> length p \<le> 3 \<and> list_all is_digit p \<and> number_of p \<le> 255"

definition valid_ipv4 :: "string \<Rightarrow> bool" where
  "valid_ipv4 s \<longleftrightarrow> (let ps = split_on (CHR ''.'') s in length ps = 4 \<and> list_all setup_octet ps)"

definition label_char :: "char \<Rightarrow> bool" where
  "label_char c \<longleftrightarrow> is_lower c \<or> is_digit c"

text \<open>The pattern of a label: at most 63 characters, no hyphen at either end.\<close>

definition domain_label :: "string \<Rightarrow> bool" where
  "domain_label s \<longleftrightarrow> s \<noteq> [] \<and> length s \<le> 63 \<and> label_char (hd s) \<and> label_char (last s) \<and> list_all (\<lambda>c. label_char c \<or> c = CHR ''-'') s"

definition valid_domain :: "string \<Rightarrow> bool" where
  "valid_domain s \<longleftrightarrow>
     (if CHR ''.'' \<notin> set s \<or> ends_with s ''.'' \<or> valid_ipv4 s then False
      else (let ls = split_on (CHR ''.'') s in list_ex is_lower (last ls) \<and> list_all domain_label ls))"

fun domain_field :: "json option \<Rightarrow> string result" where
  "domain_field (Some (JStr s)) =
     (let t = to_lower (trim s) in if length t \<le> 253 \<and> valid_domain t then Ok t else Err zod_error)"
| "domain_field _ = Err zod_error"

text \<open>Unknown fields of the object are ignored; the language defaults to English.\<close>

fun parse_setup :: "json \<Rightarrow> (string \<times> locale_code) result" where
  "parse_setup (JObj kvs) =
     bind_result (domain_field (json_get ''domain'' kvs)) (\<lambda>d.
     bind_result (parse_locale (json_get ''language'' kvs)) (\<lambda>l. Ok (d, coalesce l EN)))"
| "parse_setup _ = Err zod_error"

section \<open>Input of a restoration\<close>

record restore_input =
  rw_claim :: string
  rw_archive :: string
  rw_id :: string
  rw_passphrase :: "string option"

fun nonempty_field :: "json option \<Rightarrow> string result" where
  "nonempty_field (Some (JStr s)) = (if s \<noteq> [] then Ok s else Err zod_error)"
| "nonempty_field _ = Err zod_error"

definition passphrase_field :: "json option \<Rightarrow> string option result" where
  "passphrase_field v = (case v of
      None \<Rightarrow> Ok None
    | Some (JStr s) \<Rightarrow> if 12 \<le> length s \<and> length s \<le> 200 then Ok (Some s) else Err zod_error
    | Some _ \<Rightarrow> Err zod_error)"

text \<open>\<open>z.string().uuid()\<close> is a parameter of the input, as the pattern of zod belongs to the library.\<close>

fun parse_restore :: "(string \<Rightarrow> bool) \<Rightarrow> json \<Rightarrow> restore_input result" where
  "parse_restore uuid (JObj kvs) =
     (if \<not> list_all (\<lambda>(k, _). k \<in> {''claimToken'', ''archive'', ''restoreId'', ''passphrase''}) kvs then Err zod_error
      else bind_result (nonempty_field (json_get ''claimToken'' kvs)) (\<lambda>c.
           bind_result (nonempty_field (json_get ''archive'' kvs)) (\<lambda>a.
           bind_result (nonempty_field (json_get ''restoreId'' kvs)) (\<lambda>i.
           if \<not> uuid i then Err zod_error
           else bind_result (passphrase_field (json_get ''passphrase'' kvs)) (\<lambda>p.
             Ok \<lparr>rw_claim = c, rw_archive = a, rw_id = i, rw_passphrase = p\<rparr>)))))"
| "parse_restore uuid _ = Err zod_error"

section \<open>The service\<close>

record setup_config =
  zc_setup :: bool
  zc_public_ip :: string
  zc_admin_path :: string

datatype setup_status = Configured | Available string

definition setup_status :: "setup_config \<Rightarrow> setup_status" where
  "setup_status zc = (if \<not> zc_setup zc \<or> \<not> valid_ipv4 (zc_public_ip zc) then Configured else Available (zc_public_ip zc))"

definition require_setup :: "setup_config \<Rightarrow> unit result" where
  "require_setup zc = (if \<not> zc_setup zc \<or> \<not> valid_ipv4 (zc_public_ip zc) then Err (ServiceError 409) else Ok ())"

text \<open>What a finalization waits for: the addresses of the domain, then the root agent.\<close>

datatype finalize_phase =
    Resolving string locale_code
  | Applying string locale_code string

record setup_service =
  zs_finalizing :: "finalize_phase option"
  zs_restoring :: "restore_input option"

definition fresh_setup :: setup_service where
  "fresh_setup = \<lparr>zs_finalizing = None, zs_restoring = None\<rparr>"

definition begin_finalize :: "setup_config \<Rightarrow> json \<Rightarrow> setup_service \<Rightarrow> setup_service result" where
  "begin_finalize zc input z =
     bind_result (require_setup zc) (\<lambda>_.
       if zs_finalizing z \<noteq> None then Err (ServiceError 409)
       else bind_result (parse_setup input) (\<lambda>(d, l). Ok (z\<lparr>zs_finalizing := Some (Resolving d l)\<rparr>)))"

text \<open>
  The answer of the resolver (\<open>None\<close> when it failed).  The result is the request to the root
  agent or the error of the response; the claim is stored before the agent is asked.
\<close>

definition finalize_resolved ::
  "setup_config \<Rightarrow> crypto \<Rightarrow> string \<Rightarrow> time \<Rightarrow> string list option \<Rightarrow> setup_service \<Rightarrow> db \<Rightarrow> (string \<times> string) result \<times> setup_service \<times> db" where
  "finalize_resolved zc X token now addresses z d =
     (case zs_finalizing z of
        Some (Resolving domain l) \<Rightarrow>
          (let stop = z\<lparr>zs_finalizing := None\<rparr>
           in case addresses of
                None \<Rightarrow> (Err (ServiceError 409), stop, d)
              | Some as \<Rightarrow>
                  if zc_public_ip zc \<notin> set as then (Err (ServiceError 409), stop, d)
                  else (case issue_claim X token now d of
                          Inl e \<Rightarrow> (Err e, stop, d)
                        | Inr d' \<Rightarrow> (Ok (domain, zc_public_ip zc), z\<lparr>zs_finalizing := Some (Applying domain l token)\<rparr>, d')))
      | _ \<Rightarrow> (Err (Thrown ''not resolving''), z, d))"

definition locale_text :: "locale_code \<Rightarrow> string" where
  "locale_text l = (case l of RU \<Rightarrow> ''ru'' | EN \<Rightarrow> ''en'' | ZH_CN \<Rightarrow> ''zh-CN'' | FA \<Rightarrow> ''fa'')"

definition onboarding_url :: "setup_config \<Rightarrow> string \<Rightarrow> locale_code \<Rightarrow> string \<Rightarrow> string" where
  "onboarding_url zc domain l token = ''https://'' @ domain @ zc_admin_path zc @ ''/onboarding?claim='' @ encode_uri token @
     ''&lang='' @ encode_uri (locale_text l)"

text \<open>The answer of the root agent to \<open>setup.finalize\<close>: the domain and the link of the owner.\<close>

definition finalize_applied :: "setup_config \<Rightarrow> bool \<Rightarrow> setup_service \<Rightarrow> (string \<times> string) result \<times> setup_service" where
  "finalize_applied zc okay z =
     (case zs_finalizing z of
        Some (Applying domain l token) \<Rightarrow>
          ((if okay then Ok (domain, onboarding_url zc domain l token) else Err (ServiceError 502)), z\<lparr>zs_finalizing := None\<rparr>)
      | _ \<Rightarrow> (Err (Thrown ''not applying''), z))"

definition begin_restore ::
  "setup_config \<Rightarrow> (string \<Rightarrow> bool) \<Rightarrow> crypto \<Rightarrow> time \<Rightarrow> json \<Rightarrow> setup_service \<Rightarrow> db \<Rightarrow> setup_service result" where
  "begin_restore zc uuid X now input z d =
     (if zc_setup zc then Err (ServiceError 409)
      else if zs_restoring z \<noteq> None then Err (ServiceError 409)
      else bind_result (parse_restore uuid input) (\<lambda>r.
           bind_result (authorize_claim X (Some (rw_claim r)) now d) (\<lambda>_.
             Ok (z\<lparr>zs_restoring := Some r\<rparr>))))"

text \<open>The request to the root agent while a restoration waits for it.\<close>

definition restore_payload :: "restore_input \<Rightarrow> (string \<times> json) list" where
  "restore_payload r = [(''archive'', JStr (rw_archive r)), (''restoreId'', JStr (rw_id r))] @
     (case given (rw_passphrase r) of None \<Rightarrow> [] | Some p \<Rightarrow> [(''passphrase'', JStr p)])"

definition end_restore :: "bool \<Rightarrow> setup_service \<Rightarrow> unit result \<times> setup_service" where
  "end_restore okay z = ((if okay then Ok () else Err (ServiceError 400)), z\<lparr>zs_restoring := None\<rparr>)"

section \<open>Runs of the service\<close>

datatype setup_call =
    Finalize json
  | Resolved "string list option" string
  | Applied bool
  | Restore json
  | Restored bool
  | OwnerRegisters owner_row
  | CliReset string

text \<open>
  The history: the claims that were stored, the domains the resolver had confirmed when they were,
  the requests to the agent, the links that were given out, and the restorations that were started.
\<close>

record setup_world =
  zw_service :: setup_service
  zw_db :: db
  zw_asked :: "(string \<times> string) list"
  zw_links :: "(string \<times> string) list"
  zw_confirmed :: "(string \<times> string list) list"
  zw_restores :: "restore_input list"

definition setup_step ::
  "setup_config \<Rightarrow> (string \<Rightarrow> bool) \<Rightarrow> crypto \<Rightarrow> time \<Rightarrow> setup_call \<Rightarrow> setup_world \<Rightarrow> setup_world" where
  "setup_step zc uuid X now call w =
     (case call of
        Finalize input \<Rightarrow>
          (case begin_finalize zc input (zw_service w) of Inl _ \<Rightarrow> w | Inr z \<Rightarrow> w\<lparr>zw_service := z\<rparr>)
      | Resolved addresses token \<Rightarrow>
          (case finalize_resolved zc X token now addresses (zw_service w) (zw_db w) of
             (Inl _, z, d) \<Rightarrow> w\<lparr>zw_service := z, zw_db := d\<rparr>
           | (Inr request, z, d) \<Rightarrow> w\<lparr>zw_service := z, zw_db := d, zw_asked := request # zw_asked w,
               zw_confirmed := (fst request, coalesce addresses []) # zw_confirmed w\<rparr>)
      | Applied okay \<Rightarrow>
          (case finalize_applied zc okay (zw_service w) of
             (Inl _, z) \<Rightarrow> w\<lparr>zw_service := z\<rparr>
           | (Inr link, z) \<Rightarrow> w\<lparr>zw_service := z, zw_links := link # zw_links w\<rparr>)
      | Restore input \<Rightarrow>
          (case begin_restore zc uuid X now input (zw_service w) (zw_db w) of
             Inl _ \<Rightarrow> w
           | Inr z \<Rightarrow> w\<lparr>zw_service := z, zw_restores := (case zs_restoring z of None \<Rightarrow> zw_restores w | Some r \<Rightarrow> r # zw_restores w)\<rparr>)
      | Restored okay \<Rightarrow> w\<lparr>zw_service := snd (end_restore okay (zw_service w))\<rparr>
      | OwnerRegisters r \<Rightarrow> w\<lparr>zw_db := (zw_db w)\<lparr>t_owners := t_owners (zw_db w) @ [r]\<rparr>\<rparr>
      | CliReset token \<Rightarrow>
          (case reset_bootstrap X token now (zw_db w) of Inl _ \<Rightarrow> w | Inr (_, d) \<Rightarrow> w\<lparr>zw_db := d\<rparr>))"

definition run_setup ::
  "setup_config \<Rightarrow> (string \<Rightarrow> bool) \<Rightarrow> crypto \<Rightarrow> (time \<times> setup_call) list \<Rightarrow> setup_world \<Rightarrow> setup_world" where
  "run_setup zc uuid X calls w = foldl (\<lambda>w (now, c). setup_step zc uuid X now c w) w calls"

definition fresh_server :: "db \<Rightarrow> setup_world" where
  "fresh_server d = \<lparr>zw_service = fresh_setup, zw_db = d, zw_asked = [], zw_links = [], zw_confirmed = [], zw_restores = []\<rparr>"

section \<open>Links are given for confirmed domains only\<close>

definition confirmed_domain :: "setup_config \<Rightarrow> (string \<times> string list) list \<Rightarrow> string \<Rightarrow> bool" where
  "confirmed_domain zc confirmed domain \<longleftrightarrow> valid_domain domain \<and> (\<exists>(d, as)\<in>set confirmed. d = domain \<and> zc_public_ip zc \<in> set as)"

fun phase_ok :: "setup_config \<Rightarrow> (string \<times> string list) list \<Rightarrow> finalize_phase option \<Rightarrow> bool" where
  "phase_ok zc confirmed None = True"
| "phase_ok zc confirmed (Some (Resolving domain l)) = (valid_domain domain \<and> require_setup zc = Ok ())"
| "phase_ok zc confirmed (Some (Applying domain l token)) = (confirmed_domain zc confirmed domain \<and> require_setup zc = Ok ())"

definition setup_inv :: "setup_config \<Rightarrow> setup_world \<Rightarrow> bool" where
  "setup_inv zc w \<longleftrightarrow>
     (\<forall>(domain, url)\<in>set (zw_links w). confirmed_domain zc (zw_confirmed w) domain \<and> zc_setup zc) \<and>
     (\<forall>(domain, ip)\<in>set (zw_asked w). confirmed_domain zc (zw_confirmed w) domain \<and> ip = zc_public_ip zc \<and> valid_ipv4 ip) \<and>
     phase_ok zc (zw_confirmed w) (zs_finalizing (zw_service w)) \<and>
     (zw_restores w \<noteq> [] \<longrightarrow> \<not> zc_setup zc)"

lemma parse_setup_domain: "parse_setup input = Ok (d, l) \<Longrightarrow> valid_domain d"
proof (induction input rule: parse_setup.induct)
  case (1 kvs)
  then have "domain_field (json_get ''domain'' kvs) = Ok d" by auto
  then show ?case by (cases "json_get ''domain'' kvs" rule: domain_field.cases) (auto simp: Let_def split: if_splits)
qed simp_all

lemma confirmed_more: "confirmed_domain zc cs d \<Longrightarrow> confirmed_domain zc (c # cs) d"
  by (auto simp: confirmed_domain_def)

lemma require_setup_Ok: "require_setup zc = Ok () \<longleftrightarrow> zc_setup zc \<and> valid_ipv4 (zc_public_ip zc)"
  by (simp add: require_setup_def)

lemma begin_restore_Ok:
  assumes "begin_restore zc uuid X now input z d = Ok z'"
  shows "zs_finalizing z' = zs_finalizing z \<and> \<not> zc_setup zc"
  using assms by (auto simp: begin_restore_def split: if_splits)

lemma setup_step_inv:
  assumes inv: "setup_inv zc w"
  shows "setup_inv zc (setup_step zc uuid X now call w)"
proof (cases call)
  case (Finalize input)
  then show ?thesis using inv parse_setup_domain
    by (auto simp: setup_step_def begin_finalize_def setup_inv_def split: sum.split if_splits)
next
  case (Resolved addresses token)
  show ?thesis
  proof (cases "zs_finalizing (zw_service w)")
    case (Some p)
    show ?thesis
    proof (cases p)
      case (Resolving domain l)
      with Some inv have d: "valid_domain domain" "require_setup zc = Ok ()" by (simp_all add: setup_inv_def)
      from inv Some Resolving show ?thesis using d require_setup_Ok [of zc]
        by (cases addresses) (auto 0 3 simp: setup_step_def Resolved finalize_resolved_def Let_def setup_inv_def
            confirmed_domain_def issue_claim_def split: sum.split if_splits)
    qed (use inv in \<open>simp add: setup_step_def Resolved finalize_resolved_def Some setup_inv_def\<close>)
  qed (use inv in \<open>simp add: setup_step_def Resolved finalize_resolved_def setup_inv_def\<close>)
next
  case (Applied okay)
  show ?thesis
  proof (cases "zs_finalizing (zw_service w)")
    case (Some p)
    then show ?thesis using inv require_setup_Ok [of zc]
      by (cases p; cases okay) (auto simp: setup_step_def Applied finalize_applied_def setup_inv_def)
  qed (use inv in \<open>simp add: setup_step_def Applied finalize_applied_def setup_inv_def\<close>)
next
  case (Restore input)
  show ?thesis
  proof (cases "begin_restore zc uuid X now input (zw_service w) (zw_db w)")
    case (Inr z)
    from begin_restore_Ok [OF this] have "zs_finalizing z = zs_finalizing (zw_service w)" "\<not> zc_setup zc" by simp_all
    then show ?thesis using inv unfolding setup_inv_def
      by (simp add: setup_step_def Restore Inr)
  qed (use inv in \<open>simp add: setup_step_def Restore\<close>)
next
  case (CliReset token)
  then show ?thesis using inv by (auto simp: setup_step_def setup_inv_def split: sum.split prod.split)
qed (use inv in \<open>simp_all add: setup_step_def setup_inv_def end_restore_def\<close>)

interpretation binding: invariant_service "\<lambda>w (now, c). setup_step zc uuid X now c w" "setup_inv zc" for zc uuid X
  by unfold_locales (auto simp: setup_step_inv)

text \<open>
  The root agent is asked to bind, and a registration link is given for, domains only that are
  well formed and that the resolver had mapped to this server; restorations start only after
  the setup ended.
\<close>

theorem links_for_confirmed_domains: "setup_inv zc (run_setup zc uuid X calls (fresh_server d))"
  unfolding run_setup_def by (rule binding.run_inv) (simp add: setup_inv_def fresh_server_def fresh_setup_def)

text \<open>
  No claim is stored, and no restoration is admitted, once there is an owner; while one
  finalization waits, another is refused.
\<close>

lemma owner_closes_setup:
  assumes "find_owner d \<noteq> None"
  shows "snd (snd (finalize_resolved zc X token now addresses z d)) = d" "\<not> is_ok (begin_restore zc uuid X now input z d)"
  using assms by (auto simp: finalize_resolved_def issue_claim_def begin_restore_def authorize_claim_def is_ok_def Let_def
      split: option.split finalize_phase.split sum.split)

lemma one_finalization:
  assumes "begin_finalize zc input z = Ok z'"
  shows "begin_finalize zc input' z' = Err (ServiceError 409)"
  using assms by (auto simp: begin_finalize_def require_setup_def split: if_splits)

end
