(* ===== verification/Engine_Releases.thy ===== *)
theory Engine_Releases
  imports Inventory Auth Subscriptions Rulesets Updates
begin

text \<open>
  Official releases of the engines (src/src/server/adapters/engine-releases.ts) and the checks the
  inventory stores (src/src/server/services/engine-inventory.ts).

  GitHub and \<open>decodeURIComponent\<close> are parameters: \<open>fetch repository path\<close> is the JSON of a
  response, or \<open>None\<close> when the request failed.
\<close>

section \<open>Where an engine is released\<close>

record release_source =
  so_repository :: string
  so_tag :: string
  so_asset :: string
  so_archive :: string
  so_prerelease :: bool

fun source_of :: "engine \<Rightarrow> release_source" where
  "source_of Hysteria = \<lparr>so_repository = ''HyNetworks/hysteria'', so_tag = ''app/v2.13.0'', so_asset = ''hysteria-linux-amd64'',
     so_archive = ''binary'', so_prerelease = False\<rparr>"
| "source_of Xray = \<lparr>so_repository = ''XTLS/Xray-core'', so_tag = ''v26.7.28'', so_asset = ''Xray-linux-64.zip'',
     so_archive = ''zip'', so_prerelease = True\<rparr>"
| "source_of Mihomo = \<lparr>so_repository = ''MetaCubeX/mihomo'', so_tag = ''v1.19.32'', so_asset = ''mihomo-linux-amd64-v1-v1.19.32.gz'',
     so_archive = ''gzip'', so_prerelease = False\<rparr>"
| "source_of SingBox = \<lparr>so_repository = ''SagerNet/sing-box'', so_tag = ''v1.14.3'', so_asset = ''sing-box-1.14.3-linux-amd64.tar.gz'',
     so_archive = ''tar.gz'', so_prerelease = False\<rparr>"
| "source_of AmneziaWG = \<lparr>so_repository = ''amnezia-vpn/amneziawg-go'', so_tag = ''v3.1.20260828'', so_asset = ''bundled'',
     so_archive = ''bundled'', so_prerelease = False\<rparr>"

definition bundle_repository :: string where
  "bundle_repository = ''Outpost-VPN/outpost-vpn-server''"

definition bundled_source :: "engine \<Rightarrow> bool" where
  "bundled_source e \<longleftrightarrow> so_archive (source_of e) = ''bundled''"

text \<open>\<open>replace\<close> and \<open>replaceAll\<close> of a text that is not empty.\<close>

fun replace_one :: "string \<Rightarrow> string \<Rightarrow> string \<Rightarrow> string" where
  "replace_one old new [] = []"
| "replace_one old new (c # s) = (if starts_with (c # s) old then new @ drop (length old) (c # s) else c # replace_one old new s)"

function replace_all :: "string \<Rightarrow> string \<Rightarrow> string \<Rightarrow> string" where
  "replace_all old new s =
     (if s = [] \<or> old = [] then s
      else if starts_with s old then new @ replace_all old new (drop (length old) s) else hd s # replace_all old new (tl s))"
  by pat_completeness auto
termination by (relation "measure (\<lambda>(old, new, s). length s)") (auto simp: neq_Nil_conv)

declare replace_all.simps [simp del]

section \<open>An artifact\<close>

record engine_artifact =
  ea_version :: string
  ea_checksum :: string
  ea_url :: string
  ea_archive :: string
  ea_signature_url :: "string option"

definition release_tag :: "engine \<Rightarrow> string \<Rightarrow> string" where
  "release_tag e v = (if e = AmneziaWG then ''engine-amneziawg-v'' @ v else replace_one (engine_pin e) v (so_tag (source_of e)))"

definition release_repository :: "engine \<Rightarrow> string" where
  "release_repository e = (if e = AmneziaWG then bundle_repository else so_repository (source_of e))"

definition artifact_name :: "engine \<Rightarrow> string \<Rightarrow> string" where
  "artifact_name e v =
     (if e = AmneziaWG then ''outpost-engine-amneziawg-'' @ v @ ''-linux-amd64.tar.gz''
      else replace_all (engine_pin e) v (so_asset (source_of e)))"

definition artifact_url :: "engine \<Rightarrow> string \<Rightarrow> string" where
  "artifact_url e v = ''https://github.com/'' @ release_repository e @ ''/releases/download/'' @ encode_uri (release_tag e v) @ ''/'' @
     artifact_name e v"

text \<open>\<open>assets?.find\<close> and \<open>assets?.some\<close>: a missing list holds nothing, an element \<open>null\<close> throws.\<close>

fun asset_matching :: "((string \<times> json) list \<Rightarrow> bool) \<Rightarrow> json list \<Rightarrow> (string \<times> json) list option result" where
  "asset_matching p [] = Ok None"
| "asset_matching p (JNull # xs) = Err (Thrown ''TypeError'')"
| "asset_matching p (JObj kvs # xs) = (if p kvs then Ok (Some kvs) else asset_matching p xs)"
| "asset_matching p (_ # xs) = asset_matching p xs"

definition assets_of :: "(string \<times> json) list \<Rightarrow> json list result" where
  "assets_of kvs = (case json_get ''assets'' kvs of
      None \<Rightarrow> Ok [] | Some JNull \<Rightarrow> Ok [] | Some (JArr xs) \<Rightarrow> Ok xs | Some _ \<Rightarrow> Err (Thrown ''TypeError''))"

definition sha256_digest :: "json option \<Rightarrow> string option" where
  "sha256_digest d = (case d of
      Some (JStr s) \<Rightarrow> if starts_with s ''sha256:'' \<and> sha256_ok (drop 7 s) then Some (drop 7 s) else None
    | _ \<Rightarrow> None)"

definition same_url :: "(string \<Rightarrow> string option) \<Rightarrow> json option \<Rightarrow> string \<Rightarrow> bool" where
  "same_url decode j url \<longleftrightarrow> (case j of
      Some (JStr s) \<Rightarrow> decode s \<noteq> None \<and> decode url \<noteq> None \<and> decode s = decode url
    | _ \<Rightarrow> False)"

definition release_fits :: "engine \<Rightarrow> string \<Rightarrow> (string \<times> json) list \<Rightarrow> bool" where
  "release_fits e v kvs \<longleftrightarrow> json_get ''tag_name'' kvs = Some (JStr (release_tag e v)) \<and> \<not> truthy (json_get ''draft'' kvs) \<and>
     (\<not> truthy (json_get ''prerelease'' kvs) \<or> so_prerelease (source_of e))"

text \<open>The private \<open>artifact\<close>; the release is the object of a response.\<close>

definition artifact_of ::
  "(string \<Rightarrow> string option) \<Rightarrow> engine \<Rightarrow> string \<Rightarrow> (string \<times> json) list \<Rightarrow> engine_artifact result" where
  "artifact_of decode e v kvs =
     (if \<not> release_fits e v kvs then Err (Thrown ''release'')
      else (let n = artifact_name e v; url = artifact_url e v; named = (\<lambda>n a. json_get ''name'' a = Some (JStr n))
            in bind_result (assets_of kvs) (\<lambda>xs.
               bind_result (asset_matching (named n) xs) (\<lambda>asset.
               (case Option.bind asset (\<lambda>a. sha256_digest (json_get ''digest'' a)) of
                  None \<Rightarrow> Err (Thrown ''digest'')
                | Some checksum \<Rightarrow>
                    if \<not> same_url decode (json_get ''browser_download_url'' (the asset)) url then Err (Thrown ''digest'')
                    else if e \<noteq> AmneziaWG
                    then Ok \<lparr>ea_version = v, ea_checksum = checksum, ea_url = url, ea_archive = so_archive (source_of e),
                             ea_signature_url = None\<rparr>
                    else bind_result (asset_matching (\<lambda>a. named (n @ ''.minisig'') a \<and>
                           json_get ''browser_download_url'' a = Some (JStr (url @ ''.minisig''))) xs) (\<lambda>signature.
                         if signature = None then Err (Thrown ''signature'')
                         else Ok \<lparr>ea_version = v, ea_checksum = checksum, ea_url = url, ea_archive = ''tar.gz'',
                                  ea_signature_url = Some (url @ ''.minisig'')\<rparr>))))))"

text \<open>\<open>resolve\<close>: the pinned version needs no network.\<close>

definition pinned_artifact :: "engine \<Rightarrow> engine_artifact" where
  "pinned_artifact e = \<lparr>ea_version = engine_pin e, ea_checksum = engine_sha256 e,
     ea_url = (if bundled_source e then []
               else ''https://github.com/'' @ so_repository (source_of e) @ ''/releases/download/'' @
                    encode_uri (so_tag (source_of e)) @ ''/'' @ so_asset (source_of e)),
     ea_archive = so_archive (source_of e), ea_signature_url = None\<rparr>"

definition resolve_artifact ::
  "(string \<Rightarrow> string option) \<Rightarrow> (string \<Rightarrow> string \<Rightarrow> json option) \<Rightarrow> engine \<Rightarrow> string \<Rightarrow> engine_artifact result" where
  "resolve_artifact decode fetch e v =
     (if parse_version v = None \<or> \<not> engine_version_text v then Err (Thrown ''version'')
      else if v = engine_pin e then Ok (pinned_artifact e)
      else (case fetch (release_repository e) (''releases/tags/'' @ encode_uri (release_tag e v)) of
              Some (JObj kvs) \<Rightarrow> artifact_of decode e v kvs
            | _ \<Rightarrow> Err (Thrown ''fetch'')))"

section \<open>The latest release\<close>

record candidate =
  ca_release :: "(string \<times> json) list"
  ca_tag :: string
  ca_version :: string
  ca_prerelease :: bool

definition version_of_tag :: "engine \<Rightarrow> string \<Rightarrow> string" where
  "version_of_tag e tg =
     (if e = Hysteria then (if starts_with tg ''app/v'' then drop 5 tg else tg)
      else if starts_with tg ''v'' then tl tg else tg)"

fun candidate_of :: "engine \<Rightarrow> json \<Rightarrow> candidate result" where
  "candidate_of e (JObj kvs) =
     (case json_get (if bundled_source e then ''name'' else ''tag_name'') kvs of
        Some (JStr tg) \<Rightarrow>
          (let v = version_of_tag e tg
           in Ok \<lparr>ca_release = kvs, ca_tag = tg, ca_version = v,
                  ca_prerelease = (if bundled_source e then is_prerelease v else truthy (json_get ''prerelease'' kvs))\<rparr>)
      | _ \<Rightarrow> Err (Thrown ''TypeError''))"
| "candidate_of e _ = Err (Thrown ''TypeError'')"

definition eligible :: "engine \<Rightarrow> candidate \<Rightarrow> bool" where
  "eligible e c \<longleftrightarrow> \<not> truthy (json_get ''draft'' (ca_release c)) \<and> (\<not> ca_prerelease c \<or> so_prerelease (source_of e)) \<and>
     parse_version (ca_version c) \<noteq> None \<and> (e \<noteq> Hysteria \<or> starts_with (ca_tag c) ''app/v'')"

text \<open>The comparator of the sort; the versions it sees are valid.\<close>

definition not_older :: "candidate \<Rightarrow> candidate \<Rightarrow> bool" where
  "not_older a b \<longleftrightarrow> (case compare_versions (ca_version b) (ca_version a) of Inr i \<Rightarrow> i \<le> 0 | Inl _ \<Rightarrow> False)"

datatype pending_artifact = PendingBundle | PendingArtifact

record engine_release =
  el_checked_at :: time
  el_latest :: "string option"
  el_url :: "string option"
  el_artifact :: "engine_artifact option"
  el_unavailable :: bool
  el_pending :: "pending_artifact option"

definition newest_candidate :: "engine \<Rightarrow> json option \<Rightarrow> candidate result" where
  "newest_candidate e response =
     (case response of
        Some (JArr releases) \<Rightarrow>
          bind_result (map_result (candidate_of e) releases) (\<lambda>cs.
            case sort_by not_older (filter (eligible e) cs) of
              [] \<Rightarrow> Err (Thrown ''no version'') | c # _ \<Rightarrow> Ok c)
      | _ \<Rightarrow> Err (Thrown ''fetch''))"

definition latest_release ::
  "(string \<Rightarrow> string option) \<Rightarrow> (string \<Rightarrow> string \<Rightarrow> json option) \<Rightarrow> time \<Rightarrow> engine \<Rightarrow> engine_release" where
  "latest_release decode fetch now e =
     (let so = source_of e; bundled = bundled_source e
      in case newest_candidate e (fetch (so_repository so) ((if bundled then ''tags'' else ''releases'') @ ''?per_page=50'')) of
           Inl _ \<Rightarrow> \<lparr>el_checked_at = now, el_latest = None, el_url = None, el_artifact = None, el_unavailable = True, el_pending = None\<rparr>
         | Inr c \<Rightarrow>
             (let base = \<lparr>el_checked_at = now, el_latest = Some (ca_version c),
                    el_url = Some (''https://github.com/'' @ so_repository so @ ''/'' @ (if bundled then ''tree'' else ''releases/tag'') @ ''/'' @
                               encode_uri (ca_tag c)),
                    el_artifact = None, el_unavailable = False, el_pending = None\<rparr>
              in case (if bundled then resolve_artifact decode fetch e (ca_version c)
                       else artifact_of decode e (ca_version c) (ca_release c)) of
                   Inr a \<Rightarrow> base\<lparr>el_artifact := Some a\<rparr>
                 | Inl _ \<Rightarrow> base\<lparr>el_pending := Some (if bundled then PendingBundle else PendingArtifact)\<rparr>))"

section \<open>The stored checks\<close>

text \<open>
  \<open>checkReleases\<close> once every engine has answered; of a check the tables keep what the inventory
  offers from it.
\<close>

definition stored_check :: "engine_release \<Rightarrow> release_check" where
  "stored_check r = \<lparr>k_latest = el_latest r, k_artifact = map_option (\<lambda>a. (ea_version a, ea_checksum a)) (el_artifact r)\<rparr>"

definition check_releases :: "string \<Rightarrow> engine option \<Rightarrow> (engine \<Rightarrow> engine_release) \<Rightarrow> time \<Rightarrow> db \<Rightarrow> db" where
  "check_releases actor selected latest now d =
     (let checked = (case selected of Some e \<Rightarrow> [e] | None \<Rightarrow> engine_ids);
          d1 = d\<lparr>s_release_checks := foldl (\<lambda>m e. map_set e (stored_check (latest e)) m) (s_release_checks d) checked\<rparr>
      in snd (audit actor ''engines.check'' ''engine_versions'' (map_option engine_key selected) None now d1))"

definition newer_than :: "string option \<Rightarrow> string option \<Rightarrow> bool result" where
  "newer_than v w = (case (given v, given w) of
      (Some a, Some b) \<Rightarrow> bind_result (compare_versions a b) (\<lambda>i. Ok (i > 0)) | _ \<Rightarrow> Ok False)"

text \<open>\<open>releaseChecks\<close>: what is known of each engine, newer than the pin, newer than what is installed.\<close>

definition release_checks :: "db \<Rightarrow> (engine \<times> (release_check \<times> bool \<times> bool) option) list result" where
  "release_checks d =
     bind_result (versions d) (map_result (\<lambda>n.
       case map_of (s_release_checks d) (n_engine n) of
         None \<Rightarrow> Ok (n_engine n, None)
       | Some k \<Rightarrow>
           bind_result (newer_than (k_latest k) (Some (engine_pin (n_engine n)))) (\<lambda>p.
           bind_result (newer_than (k_latest k) (n_installed n)) (\<lambda>i. Ok (n_engine n, Some (k, p, i))))))"

section \<open>Only official files, and the newest version\<close>

lemma artifact_of_official:
  assumes "artifact_of decode e v kvs = Ok a"
  shows "ea_version a = v" "ea_url a = artifact_url e v" "sha256_ok (ea_checksum a)"
    "e = AmneziaWG \<Longrightarrow> ea_signature_url a = Some (ea_url a @ ''.minisig'')"
    "\<exists>xs x. json_get ''assets'' kvs = Some (JArr xs) \<and> JObj x \<in> set xs \<and> json_get ''name'' x = Some (JStr (artifact_name e v)) \<and>
       json_get ''digest'' x = Some (JStr (''sha256:'' @ ea_checksum a))"
proof -
  let ?named = "\<lambda>n a. json_get ''name'' a = Some (JStr n)"
  from assms obtain xs asset checksum where fits: "release_fits e v kvs" and xs: "assets_of kvs = Ok xs"
    and asset: "asset_matching (?named (artifact_name e v)) xs = Ok asset"
    and digest: "Option.bind asset (\<lambda>a. sha256_digest (json_get ''digest'' a)) = Some checksum"
    and a: "ea_version a = v \<and> ea_url a = artifact_url e v \<and> ea_checksum a = checksum \<and>
      (e = AmneziaWG \<longrightarrow> ea_signature_url a = Some (ea_url a @ ''.minisig''))"
    by (auto simp: artifact_of_def Let_def split: if_splits option.splits)
  from digest obtain x where x: "asset = Some x" "sha256_digest (json_get ''digest'' x) = Some checksum" by (cases asset) auto
  then have digest_text: "json_get ''digest'' x = Some (JStr (''sha256:'' @ checksum))" "sha256_ok checksum"
    by (auto simp: sha256_digest_def split: option.splits json.splits if_splits simp: starts_with_iff)
  have found: "asset_matching p ys = Ok (Some x) \<Longrightarrow> JObj x \<in> set ys \<and> p x" for p ys
    by (induction p ys rule: asset_matching.induct) (auto split: if_splits)
  have x_in: "JObj x \<in> set xs" "?named (artifact_name e v) x" using found asset x(1) by auto
  then have "json_get ''assets'' kvs = Some (JArr xs)" using xs by (auto simp: assets_of_def split: option.splits json.splits)
  with a digest_text x_in show "ea_version a = v" "ea_url a = artifact_url e v" "sha256_ok (ea_checksum a)"
    "e = AmneziaWG \<Longrightarrow> ea_signature_url a = Some (ea_url a @ ''.minisig'')"
    "\<exists>xs x. json_get ''assets'' kvs = Some (JArr xs) \<and> JObj x \<in> set xs \<and> json_get ''name'' x = Some (JStr (artifact_name e v)) \<and>
       json_get ''digest'' x = Some (JStr (''sha256:'' @ ea_checksum a))" by auto
qed

lemma not_older_total:
  assumes "parse_version (ca_version a) \<noteq> None" "parse_version (ca_version b) \<noteq> None"
  shows "not_older a b \<or> not_older b a"
proof -
  from assms obtain i where i: "compare_versions (ca_version a) (ca_version b) = Ok i"
    using release.cmp_valid [of "ca_version a" "ca_version b"] by (auto simp: valid_version_def)
  from i release.cmp_flip [OF i] show ?thesis by (auto simp: not_older_def)
qed

lemma compare_semver_ge_trans: "compare_semver b a \<le> 0 \<Longrightarrow> compare_semver c b \<le> 0 \<Longrightarrow> compare_semver c a \<le> 0"
  using compare_semver_range [of b a] compare_semver_range [of c b] compare_semver_range [of c a]
    compare_semver_trans [of a b c] compare_semver_zero [of b a] compare_semver_zero [of c b]
    compare_semver_flip [of a b] compare_semver_flip [of b c] compare_semver_flip [of a c]
  by auto

lemma not_older_trans: "not_older a b \<Longrightarrow> not_older b c \<Longrightarrow> not_older a c"
  using compare_semver_ge_trans
  by (auto simp: not_older_def compare_versions_def split: option.splits sum.splits)

lemma sort_head:
  assumes "sort_by not_older (filter (eligible e) cs) = c # rest"
  shows "c \<in> set cs" "eligible e c" "\<And>x. x \<in> set cs \<Longrightarrow> eligible e x \<Longrightarrow> x = c \<or> not_older c x"
proof -
  have set: "set (c # rest) = {x \<in> set cs. eligible e x}"
    unfolding assms [symmetric] by auto
  then show "c \<in> set cs" "eligible e c" by auto
  have "sorted_wrt not_older (sort_by not_older (filter (eligible e) cs))"
  proof (rule sorted_wrt_sort_by)
    fix a b
    assume "a \<in> set (filter (eligible e) cs)" "b \<in> set (filter (eligible e) cs)"
    then show "not_older a b \<or> not_older b a" by (intro not_older_total) (simp_all add: eligible_def)
  qed (rule not_older_trans)
  then have "\<forall>x\<in>set rest. not_older c x" by (simp add: assms)
  with set show "\<And>x. x \<in> set cs \<Longrightarrow> eligible e x \<Longrightarrow> x = c \<or> not_older c x" by auto
qed

text \<open>
  What the check shows as the latest version is a valid official version of a release that is no
  draft and, unless the engine allows them, no prerelease, and no eligible release of the
  response is newer.
\<close>

theorem latest_is_newest:
  assumes "newest_candidate e (Some (JArr releases)) = Ok c"
  shows "eligible e c" "\<exists>r\<in>set releases. candidate_of e r = Ok c"
    and "\<And>r x. r \<in> set releases \<Longrightarrow> candidate_of e r = Ok x \<Longrightarrow> eligible e x \<Longrightarrow>
      \<exists>i. compare_versions (ca_version x) (ca_version c) = Ok i \<and> i \<le> 0"
proof -
  from assms obtain cs rest where cs: "map_result (candidate_of e) releases = Ok cs"
    and sorted: "sort_by not_older (filter (eligible e) cs) = c # rest"
    by (cases "map_result (candidate_of e) releases") (auto simp: newest_candidate_def split: list.splits)
  note head = sort_head [OF sorted]
  show "eligible e c" by (rule head(2))
  show "\<exists>r\<in>set releases. candidate_of e r = Ok c" using map_result_Ok_set [OF cs head(1)] .
  fix r x
  assume r: "r \<in> set releases" "candidate_of e r = Ok x" "eligible e x"
  have "x \<in> set cs" using cs r(1,2)
  proof (induction releases arbitrary: cs)
    case (Cons y ys)
    then show ?case by auto
  qed simp
  with head(3) r(3) consider "x = c" | "not_older c x" by blast
  then show "\<exists>i. compare_versions (ca_version x) (ca_version c) = Ok i \<and> i \<le> 0"
  proof cases
    case 1
    with head(2) have "compare_versions (ca_version x) (ca_version c) = Ok 0"
      using release.cmp_same [of "ca_version c"] by (simp add: eligible_def valid_version_def)
    then show ?thesis by auto
  next
    case 2
    then show ?thesis by (auto simp: not_older_def split: sum.splits)
  qed
qed

text \<open>
  Whatever GitHub answers, what a check stores to be offered is the pin or a file of the official
  repository with the SHA-256 digest its release lists; its version is valid.
\<close>

theorem stored_artifact_official:
  assumes "k_artifact (stored_check (latest_release decode fetch now e)) = Some (v, checksum)"
  shows "el_latest (latest_release decode fetch now e) = Some v" "parse_version v \<noteq> None"
    "(v, checksum) = (engine_pin e, engine_sha256 e) \<or> sha256_ok checksum"
proof -
  let ?c = "newest_candidate e (fetch (so_repository (source_of e)) ((if bundled_source e then ''tags'' else ''releases'') @ ''?per_page=50''))"
  from assms obtain c where c: "?c = Ok c" by (cases ?c) (auto simp: latest_release_def Let_def stored_check_def)
  let ?a = "if bundled_source e then resolve_artifact decode fetch e (ca_version c) else artifact_of decode e (ca_version c) (ca_release c)"
  from assms c obtain a where a: "?a = Ok a" "v = ea_version a" "checksum = ea_checksum a"
    and latest: "el_latest (latest_release decode fetch now e) = Some (ca_version c)"
    by (cases ?a) (auto simp: latest_release_def Let_def stored_check_def)
  have "eligible e c" using c latest_is_newest(1) by (auto simp: newest_candidate_def split: option.splits json.splits)
  then have valid: "parse_version (ca_version c) \<noteq> None" by (simp add: eligible_def)
  have "ea_version a = ca_version c \<and> ((ea_version a, ea_checksum a) = (engine_pin e, engine_sha256 e) \<or> sha256_ok (ea_checksum a))"
    using a(1) artifact_of_official(1,3) [of decode e "ca_version c"]
    by (auto simp: resolve_artifact_def pinned_artifact_def split: if_splits option.splits json.splits)
  with a latest valid show "el_latest (latest_release decode fetch now e) = Some v" "parse_version v \<noteq> None"
    "(v, checksum) = (engine_pin e, engine_sha256 e) \<or> sha256_ok checksum" by auto
qed

end
