(* ===== verification/Engine_Ports.thy ===== *)
theory Engine_Ports
  imports Engine_Configs Profiles
begin

text \<open>
  The ports of a rendered configuration (src/src/server/adapters/engine-ports.ts): which ports the
  firewall opens for an engine, and which ones its health check probes.

  The libraries that read YAML and JSON are the parameters of the configurations.  A text is a
  number when it is a decimal numeral.
\<close>

section \<open>Numbers and addresses\<close>

definition text_number :: "string \<Rightarrow> int option" where
  "text_number s =
     (let t = trim s; ds = (if t \<noteq> [] \<and> hd t \<in> set ''+-'' then tl t else t)
      in if t = [] then Some 0
         else if ds = [] \<or> \<not> list_all is_digit ds then None
         else Some (if hd t = CHR ''-'' then - int (number_of ds) else int (number_of ds)))"

text \<open>\<open>Number(value)\<close>; an array counts as the text of its elements.\<close>

fun number_value :: "json \<Rightarrow> int option" where
  "number_value JNull = Some 0"
| "number_value (JBool b) = Some (if b then 1 else 0)"
| "number_value (JNum n) = Some n"
| "number_value (JStr s) = text_number s"
| "number_value (JArr []) = Some 0"
| "number_value (JArr [JNull]) = Some 0"
| "number_value (JArr [JBool b]) = None"
| "number_value (JArr [x]) = number_value x"
| "number_value (JArr (x # y # zs)) = None"
| "number_value (JObj kvs) = None"

definition public_listen :: "json option \<Rightarrow> bool" where
  "public_listen l \<longleftrightarrow> l = None \<or> l \<in> {Some (JStr []), Some (JStr ''0.0.0.0''), Some (JStr ''::'')}"

definition port_name :: "int \<Rightarrow> string \<Rightarrow> string" where
  "port_name n net = show_nat (nat n) @ ''/'' @ net"

text \<open>\<open>add\<close>: an absent address listens everywhere.\<close>

definition add_port :: "bool \<Rightarrow> json option \<Rightarrow> string \<Rightarrow> json option \<Rightarrow> string list result" where
  "add_port health port net listen =
     (case Option.bind port number_value of
        None \<Rightarrow> Err (Thrown ''Invalid managed listener port'')
      | Some n \<Rightarrow>
          if n < 0 \<or> 65535 < n then Err (Thrown ''Invalid managed listener port'')
          else Ok (if n \<noteq> 0 \<and> (health \<or> public_listen listen) then [port_name n net] else []))"

definition after_colon :: "string \<Rightarrow> string" where
  "after_colon s = rev (takeWhile (\<lambda>c. c \<noteq> CHR '':'') (rev s))"

definition add_address :: "bool \<Rightarrow> json option \<Rightarrow> string \<Rightarrow> string list result" where
  "add_address health a net =
     (case a of
        Some (JStr s) \<Rightarrow>
          if CHR '':'' \<notin> set s then Err (Thrown ''Invalid managed listen address'')
          else add_port health (Some (JStr (after_colon s))) net (Some (JStr (take (length s - length (after_colon s) - 1) s)))
      | _ \<Rightarrow> Err (Thrown ''TypeError''))"

section \<open>The ports of a profile\<close>

definition listener_ports :: "bool \<Rightarrow> json \<Rightarrow> string list result" where
  "listener_ports health l =
     (let port = (case field_of l ''port'' of None \<Rightarrow> field_of l ''listen_port'' | Some JNull \<Rightarrow> field_of l ''listen_port'' | Some p \<Rightarrow> Some p)
      in if l = JNull then Err (Thrown ''TypeError'')
         else add_port health port (if field_of l ''type'' = Some (JStr ''hysteria2'') then ''udp'' else ''tcp'') (field_of l ''listen''))"

definition all_ports :: "('a \<Rightarrow> string list result) \<Rightarrow> 'a list \<Rightarrow> string list result" where
  "all_ports f xs = bind_result (map_result f xs) (\<lambda>pss. Ok (concat pss))"

definition service_ports :: "json option \<Rightarrow> string list result" where
  "service_ports v =
     (case v of
        None \<Rightarrow> Ok [] | Some JNull \<Rightarrow> Ok [] | Some (JStr []) \<Rightarrow> Ok []
      | Some (JArr xs) \<Rightarrow> all_ports (\<lambda>s. if s = JNull then Err (Thrown ''TypeError'')
          else add_port True (field_of s ''listen_port'') ''tcp'' (field_of s ''listen'')) xs
      | _ \<Rightarrow> Err (Thrown ''TypeError''))"

fun nested_field :: "json \<Rightarrow> string \<Rightarrow> string \<Rightarrow> json option" where
  "nested_field j a b = Option.bind (field_of j a) (\<lambda>x. field_of x b)"

definition health_ports :: "engine \<Rightarrow> json \<Rightarrow> string list result" where
  "health_ports e j =
     (case e of
        Mihomo \<Rightarrow> add_address True (field_of j ''external-controller'') ''tcp''
      | Xray \<Rightarrow> add_address True (nested_field j ''api'' ''listen'') ''tcp''
      | SingBox \<Rightarrow> service_ports (field_of j ''services'')
      | _ \<Rightarrow> Ok [])"

definition profile_ports :: "engine \<Rightarrow> bool \<Rightarrow> json \<Rightarrow> string list result" where
  "profile_ports e health j =
     (if j = JNull then Err (Thrown ''TypeError'')
      else case e of
        AmneziaWG \<Rightarrow> add_port health (Some (case field_of j ''listenPort'' of None \<Rightarrow> JNum 51820 | Some JNull \<Rightarrow> JNum 51820 | Some p \<Rightarrow> p)) ''udp'' None
      | Hysteria \<Rightarrow>
          bind_result (add_address health (field_of j ''listen'') ''udp'') (\<lambda>ps.
            if health then bind_result (add_address health (nested_field j ''trafficStats'' ''listen'') ''tcp'') (\<lambda>qs. Ok (ps @ qs)) else Ok ps)
      | _ \<Rightarrow>
          (case field_of j (if e = Mihomo then ''listeners'' else ''inbounds'') of
             Some (JArr ls) \<Rightarrow>
               bind_result (all_ports (listener_ports health) ls) (\<lambda>ps.
               bind_result (if health then health_ports e j else Ok []) (\<lambda>qs.
                 Ok (ps @ qs @ (if \<not> health \<and> e = Xray \<and> ls \<noteq> [] then [''443/tcp''] else []))))
           | _ \<Rightarrow> Err (Thrown ''Managed listener array is missing'')))"

definition runtime_ports :: "engine_io \<Rightarrow> engine \<Rightarrow> string \<Rightarrow> bool \<Rightarrow> string list result" where
  "runtime_ports io e t health =
     bind_result (if e = Hysteria \<or> e = Mihomo then ei_yaml io t else ei_json io t) (\<lambda>j.
     bind_result (profile_ports e health j) (\<lambda>ps. Ok (js_distinct ps)))"

section \<open>What the firewall opens\<close>

text \<open>The methods a rendered configuration serves, and the public port of one.\<close>

definition served_methods :: "engine \<Rightarrow> credential_set list \<Rightarrow> conn_method list \<Rightarrow> conn_method list" where
  "served_methods e cs ms =
     (let selected = filter (\<lambda>m. m_engine m = e \<and> m_enabled m) ms
      in case e of
           Hysteria \<Rightarrow> take 1 selected
         | AmneziaWG \<Rightarrow> take 1 selected
         | Xray \<Rightarrow> []
         | _ \<Rightarrow> if cs = [] then [] else selected)"

definition method_port :: "conn_method \<Rightarrow> string" where
  "method_port m = show_nat (ms_port (m_settings m)) @ ''/'' @ (if UDP \<in> set (protocol_networks (m_protocol m)) then ''udp'' else ''tcp'')"

definition write_profile :: "engine_io \<Rightarrow> engine \<Rightarrow> json \<Rightarrow> string" where
  "write_profile io e j = (if e = Hysteria \<or> e = Mihomo then ei_yaml_text io j else ei_json_text io j)"

definition port_valid :: "conn_method \<Rightarrow> bool" where
  "port_valid m \<longleftrightarrow> 1 \<le> ms_port (m_settings m) \<and> ms_port (m_settings m) \<le> 65535 \<and> m_protocol m \<in> set (engine_capabilities (m_engine m))"

lemma trim_digits:
  assumes "list_all is_digit s"
  shows "trim s = s"
proof -
  have "dropWhile is_space t = t" if "list_all is_digit t" for t
    using that by (cases t) (auto simp: is_digit_def is_space_def)
  then show ?thesis using assms by (simp add: trim_def)
qed

lemma show_nat_not_empty: "show_nat n \<noteq> []"
  by (subst show_nat.simps) simp

lemma text_number_show [simp]: "text_number (show_nat n) = Some (int n)"
proof -
  have digits: "list_all is_digit (show_nat n)" by (rule show_nat_digits)
  then have "is_digit (hd (show_nat n))" using show_nat_not_empty [of n] by (cases "show_nat n") auto
  then have "hd (show_nat n) \<notin> set ''+-''" by (auto simp: is_digit_def)
  moreover from this have "hd (show_nat n) \<noteq> CHR ''-''" by auto
  ultimately show ?thesis using digits show_nat_not_empty [of n] trim_digits [OF digits] by (simp add: text_number_def Let_def)
qed

lemma add_port_number:
  assumes "p \<le> 65535"
  shows "add_port False (Some (JNum (int p))) net listen = Ok (if p \<noteq> 0 \<and> public_listen listen then [show_nat p @ ''/'' @ net] else [])"
    "add_port False (Some (JStr (show_nat p))) net listen = Ok (if p \<noteq> 0 \<and> public_listen listen then [show_nat p @ ''/'' @ net] else [])"
  using assms by (auto simp: add_port_def port_name_def)

lemma after_colon_digits:
  assumes "list_all is_digit s"
  shows "after_colon (a @ CHR '':'' # s) = s"
proof -
  have "takeWhile (\<lambda>c. c \<noteq> CHR '':'') (rev s @ CHR '':'' # rev a) = rev s"
    using assms by (subst takeWhile_append2) (auto simp: list_all_iff is_digit_def)
  then show ?thesis by (simp add: after_colon_def)
qed

lemma hysteria_ports:
  assumes "p \<le> 65535" "p \<noteq> 0"
  shows "add_address False (Some (JStr ('':'' @ show_nat p))) ''udp'' = Ok [show_nat p @ ''/udp'']"
proof -
  have "after_colon ('':'' @ show_nat p) = show_nat p" using after_colon_digits [OF show_nat_digits, of "[]"] by simp
  then show ?thesis using add_port_number(2) [OF assms(1), of "''udp''" "Some (JStr [])"] assms(2)
    by (simp add: add_address_def public_listen_def)
qed

lemma closed_ports: "add_address False (Some (JStr ''127.0.0.1:0'')) ''udp'' = Ok []"
  by code_simp

lemma all_ports_each:
  assumes "\<And>x. x \<in> set xs \<Longrightarrow> f x = Ok [g x]"
  shows "all_ports f xs = Ok (map g xs)"
proof -
  have "map_result f xs = Ok (map (\<lambda>x. [g x]) xs)" using assms by (induction xs) simp_all
  then show ?thesis by (simp add: all_ports_def)
qed

lemma all_ports_map: "all_ports f (map h xs) = all_ports (f \<circ> h) xs"
proof -
  have "map_result f (map h xs) = map_result (f \<circ> h) xs" by (induction xs) simp_all
  then show ?thesis by (simp add: all_ports_def)
qed

lemma udp_protocols: "UDP \<in> set (protocol_networks p) \<longleftrightarrow> p = Hysteria2 \<or> p = AmneziaWGProto"
  by (cases p) simp_all

lemma vless_not_hysteria: "protocol_key p = ''hysteria2'' \<longleftrightarrow> p = Hysteria2"
  by (cases p) simp_all

lemma listener_port:
  assumes "port_valid m" "m_engine m \<in> {Mihomo, SingBox}"
  shows "listener_ports False (mihomo_listener S cs m) = Ok [method_port m]"
    "listener_ports False (sing_box_inbound S cs m) = Ok [method_port m]"
proof -
  from assms have p: "ms_port (m_settings m) \<le> 65535" "ms_port (m_settings m) \<noteq> 0" and "m_protocol m \<noteq> AmneziaWGProto"
    by (auto simp: port_valid_def)
  then have net: "method_port m = show_nat (ms_port (m_settings m)) @ ''/'' @ (if m_protocol m = Hysteria2 then ''udp'' else ''tcp'')"
    by (simp add: method_port_def udp_protocols)
  have l: "public_listen (Some (JStr ''0.0.0.0''))" by (simp add: public_listen_def)
  show "listener_ports False (mihomo_listener S cs m) = Ok [method_port m]"
    using p l by (auto simp: listener_ports_def mihomo_listener_def Let_def field_of_def json_get_def port_json_def net add_port_number
        vless_not_hysteria)
  show "listener_ports False (sing_box_inbound S cs m) = Ok [method_port m]"
    using p l by (auto simp: listener_ports_def sing_box_inbound_def Let_def field_of_def json_get_def port_json_def net add_port_number
        vless_not_hysteria)
qed

lemma method_listener_ports:
  assumes "list_all port_valid (filter (\<lambda>m. m_engine m = e \<and> m_enabled m) ms)" "e \<in> {Mihomo, SingBox}"
  shows "all_ports (listener_ports False) (method_listeners S e ms cs) = Ok (map method_port (served_methods e cs ms))"
proof (cases "cs = []")
  case True
  with assms(2) show ?thesis by (auto simp: method_listeners_def served_methods_def all_ports_def Let_def)
next
  case False
  let ?ms = "filter (\<lambda>m. m_engine m = e \<and> m_enabled m) ms"
  let ?f = "if e = Mihomo then mihomo_listener S cs else sing_box_inbound S cs"
  have "all_ports (listener_ports False) (map ?f ?ms) = Ok (map method_port ?ms)"
    unfolding all_ports_map by (rule all_ports_each) (use assms listener_port in \<open>auto simp: list_all_iff\<close>)
  with False assms(2) show ?thesis by (auto simp: method_listeners_def served_methods_def Let_def)
qed

text \<open>A checked template of Mihomo or sing-box is an object.\<close>

lemma checked_template:
  assumes "assert_template io e template = Ok ()" "parse_template io e template = Ok j" "e \<in> {Mihomo, SingBox}"
  shows "\<exists>kvs. j = JObj kvs"
proof -
  from assms have "engine_errors e j = []" by (auto simp: assert_template_def validate_template_def split: if_splits)
  with assms(3) have "field_of j (if e = Mihomo then ''listeners'' else ''inbounds'') \<noteq> None"
    by (auto simp: error_if_def split: if_splits)
  then show ?thesis by (cases j) (simp_all add: field_of_def split: if_splits)
qed

lemma field_of_set [simp]: "field_of (JObj (map_set k v kvs)) k' = (if k' = k then Some v else field_of (JObj kvs) k')"
  using map_get_set [of k' k v kvs] by (auto simp: field_of_def json_get_def map_get_def)

lemma hysteria_served_ports:
  assumes "render_engine io S Hysteria template cs ms = Ok t" "list_all port_valid (filter (\<lambda>m. m_engine m = Hysteria \<and> m_enabled m) ms)"
  shows "\<exists>j. t = write_profile io Hysteria j \<and>
    (profile_ports Hysteria False j = Ok (map method_port (served_methods Hysteria cs ms)) \<or> (\<exists>xs. j = JArr xs))"
proof -
  let ?selected = "filter (\<lambda>m. m_engine m = Hysteria \<and> m_enabled m) ms"
  let ?listen = "JStr (case ?selected of [] \<Rightarrow> ''127.0.0.1:0'' | m # _ \<Rightarrow> '':'' @ port_text m)"
  from assms(1) obtain j0 j where j: "set_property ''listen'' ?listen j0 = Ok j" "t = write_profile io Hysteria j"
    by (auto simp: render_engine_def Let_def write_profile_def)
  from j(1) consider kvs where "j = JObj (map_set ''listen'' ?listen kvs)" | xs where "j = JArr xs"
    by (auto simp: set_property_def split: json.splits)
  then show ?thesis
  proof cases
    case (1 kvs)
    have "add_address False (Some ?listen) ''udp'' = Ok (map method_port (take 1 ?selected))"
    proof (cases ?selected)
      case (Cons m rest)
      with assms(2) have p: "port_valid m" "m_engine m = Hysteria" by (auto simp: filter_eq_Cons_iff)
      then have "m_protocol m = Hysteria2" by (auto simp: port_valid_def)
      with p hysteria_ports [of "ms_port (m_settings m)"] Cons show ?thesis
        by (auto simp: port_valid_def method_port_def port_text_def)
    qed (simp add: closed_ports)
    then have "profile_ports Hysteria False j = Ok (map method_port (served_methods Hysteria cs ms))"
      by (simp add: profile_ports_def 1 served_methods_def Let_def)
    with j(2) show ?thesis by blast
  qed (use j(2) in blast)
qed

text \<open>Mihomo and sing-box list their listeners, under different keys.\<close>

lemma listed_served_ports:
  assumes "render_engine io S e template cs ms = Ok t" "e = Mihomo \<or> e = SingBox"
    and "list_all port_valid (filter (\<lambda>m. m_engine m = e \<and> m_enabled m) ms)"
  shows "\<exists>j. t = write_profile io e j \<and> profile_ports e False j = Ok (map method_port (served_methods e cs ms))"
proof -
  from assms(1,2) obtain j0 where j0: "assert_template io e template = Ok ()" "parse_template io e template = Ok j0"
    by (auto simp: render_engine_def Let_def)
  with checked_template assms(2) obtain kvs where kvs: "j0 = JObj kvs" by blast
  from assms(1,2) j0 kvs obtain j where j: "t = write_profile io e j" "j \<noteq> JNull"
    "field_of j (if e = Mihomo then ''listeners'' else ''inbounds'') = Some (JArr (method_listeners S e ms cs))"
    by (auto simp: render_engine_def Let_def set_property_def write_profile_def)
  with method_listener_ports [OF assms(3)] assms(2) show ?thesis by (auto simp: profile_ports_def)
qed

lemma amnezia_served_ports:
  assumes "render_engine io S AmneziaWG template cs ms = Ok t"
    and "list_all port_valid (filter (\<lambda>m. m_engine m = AmneziaWG \<and> m_enabled m) ms)"
  shows "\<exists>j. t = write_profile io AmneziaWG j \<and> profile_ports AmneziaWG False j = Ok (map method_port (served_methods AmneziaWG cs ms))"
proof -
  let ?selected = "filter (\<lambda>m. m_engine m = AmneziaWG \<and> m_enabled m) ms"
  let ?port = "case ?selected of [] \<Rightarrow> 0 | m # _ \<Rightarrow> ms_port (m_settings m)"
  from assms(1) obtain peers where t: "t = write_profile io AmneziaWG (amnezia_snapshot_json (si_server (es_site S)) peers ?port)"
    by (auto simp: render_engine_def Let_def write_profile_def)
  have "add_port False (Some (JNum (int ?port))) ''udp'' None = Ok (map method_port (take 1 ?selected))"
  proof (cases ?selected)
    case Nil
    then show ?thesis by (simp add: add_port_def)
  next
    case (Cons m rest)
    with assms(2) have p: "port_valid m" "m_engine m = AmneziaWG" by (auto simp: filter_eq_Cons_iff)
    then have "m_protocol m = AmneziaWGProto" by (auto simp: port_valid_def)
    with p Cons add_port_number(1) [of "ms_port (m_settings m)" "''udp''" None] show ?thesis
      by (auto simp: port_valid_def method_port_def public_listen_def)
  qed
  then have "profile_ports AmneziaWG False (amnezia_snapshot_json (si_server (es_site S)) peers ?port) = Ok (map method_port (served_methods AmneziaWG cs ms))"
    by (simp add: profile_ports_def amnezia_snapshot_json_def field_of_def json_get_def served_methods_def Let_def)
  with t show ?thesis by blast
qed


definition mihomo_io :: engine_io where
  "mihomo_io = \<lparr>ei_yaml = (\<lambda>_. Ok mihomo_preset), ei_json = (\<lambda>_. Err (Thrown ''json'')), ei_yaml_text = (\<lambda>_. ''yaml''),
     ei_json_text = (\<lambda>_. ''json''), ei_json_line = (\<lambda>_. ''json''), ei_yaml_over = (\<lambda>t u m. Ok t), ei_hash = rev\<rparr>"

definition mihomo_site :: engine_site where
  "mihomo_site = \<lparr>es_site = sample_site, es_paths = Profiles.sample_paths, es_keys = sample_keys, es_stats_secret = ''secret''\<rparr>"

definition mihomo_methods :: "conn_method list" where
  "mihomo_methods = [\<lparr>m_id = ''mihomo-anytls'', m_engine = Mihomo, m_protocol = AnyTLS, m_name = ''AnyTLS'', m_enabled = True,
     m_settings = \<lparr>ms_port = 1443, ms_path = None, ms_fingerprint = None\<rparr>, m_updated_at = 0\<rparr>,
     \<lparr>m_id = ''extra'', m_engine = Mihomo, m_protocol = Hysteria2, m_name = ''Extra'', m_enabled = True,
     m_settings = \<lparr>ms_port = 8443, ms_path = None, ms_fingerprint = None\<rparr>, m_updated_at = 0\<rparr>]"

definition mihomo_template :: string where
  "mihomo_template = placeholder ''LISTENERS'' @ placeholder ''CONTROLLER_SECRET''"

lemma mihomo_template_valid: "validate_template mihomo_io Mihomo mihomo_template = []"
proof -
  have "count_text (placeholder ''LISTENERS'') mihomo_template = 1" "count_text (placeholder ''CONTROLLER_SECRET'') mihomo_template = 1"
    by code_simp+
  moreover have "engine_errors Mihomo mihomo_preset = []" by code_simp
  ultimately show ?thesis by (simp add: validate_template_def parse_template_def mihomo_io_def)
qed


end
