(* ===== verification/Collectors.thy ===== *)
theory Collectors
  imports Engine_Ports Auth Traffic Resources
begin

text \<open>
  The collectors of traffic (src/src/server/adapters/traffic-collectors.ts and
  sing-box-telemetry.ts): what each engine reports becomes the points and the online counts
  that the traffic service records.

  The transports and the decoder of protocol buffers are parameters: a collector is a function of
  what the engine answered.  Counters are whole numbers, or no number at all (\<open>None\<close>).
\<close>

section \<open>Users and sessions\<close>

definition strip_end :: "string \<Rightarrow> string \<Rightarrow> string" where
  "strip_end suffix s = (if ends_with s suffix then take (length s - length suffix) s else s)"

text \<open>\<open>replace(/\.\d+$/, "")\<close>\<close>

definition strip_number :: "string \<Rightarrow> string" where
  "strip_number s =
     (let ds = takeWhile is_digit (rev s); rest = dropWhile is_digit (rev s)
      in if ds \<noteq> [] \<and> rest \<noteq> [] \<and> hd rest = CHR ''.'' then rev (tl rest) else s)"

definition telemetry_connection_id :: "string \<Rightarrow> string" where
  "telemetry_connection_id user = strip_number (strip_end ''@outpost.local'' user)"

record session =
  xs_id :: string
  xs_user :: "string option"
  xs_upload :: int
  xs_download :: int
  xs_closed :: bool

definition session_points :: "session list \<Rightarrow> traffic_point list" where
  "session_points sessions = List.map_filter (\<lambda>x. case given (xs_user x) of
      None \<Rightarrow> None
    | Some u \<Rightarrow> Some \<lparr>tp_connection = telemetry_connection_id u, tp_counter = Some (xs_id x), tp_upload = xs_upload x, tp_download = xs_download x\<rparr>) sessions"

fun count_online :: "session list \<Rightarrow> (string, int) js_map \<Rightarrow> (string, int) js_map" where
  "count_online [] m = m"
| "count_online (x # xs) m =
     count_online xs (case given (xs_user x) of
        None \<Rightarrow> m
      | Some u \<Rightarrow> if xs_closed x then m
          else (let i = telemetry_connection_id u in map_set i (coalesce (map_get i m) 0 + 1) m))"

definition session_snapshot :: "session list \<Rightarrow> telemetry_snapshot" where
  "session_snapshot sessions = \<lparr>sn_traffic = session_points sessions, sn_online = Some (count_online sessions [])\<rparr>"

section \<open>Hysteria and Mihomo\<close>

text \<open>The answers of Hysteria: the counters \<open>tx\<close> and \<open>rx\<close> of each connection, and who is online.\<close>

definition hysteria_snapshot :: "(string \<times> int \<times> int) list \<Rightarrow> (string \<times> int) list \<Rightarrow> telemetry_snapshot" where
  "hysteria_snapshot traffic online =
     \<lparr>sn_traffic = map (\<lambda>(i, tx, rx). \<lparr>tp_connection = i, tp_counter = None, tp_upload = tx, tp_download = rx\<rparr>) traffic,
      sn_online = Some online\<rparr>"

record mihomo_connection =
  mc_id :: string
  mc_inbound_user :: "string option"
  mc_upload :: int
  mc_download :: int

definition mihomo_snapshot :: "mihomo_connection list option \<Rightarrow> telemetry_snapshot" where
  "mihomo_snapshot connections =
     session_snapshot (map (\<lambda>c. \<lparr>xs_id = mc_id c, xs_user = mc_inbound_user c, xs_upload = mc_upload c, xs_download = mc_download c,
       xs_closed = False\<rparr>) (coalesce connections []))"

section \<open>Xray\<close>

text \<open>
  \<open>/name:\s*"([^"]+)"\s+value:\s*(\d+)/\<close> at the start of a text: the name, the digits and the
  rest.
\<close>

definition match_stat :: "string \<Rightarrow> (string \<times> string \<times> string) option" where
  "match_stat s =
     (let quote = char_of (34 :: nat); a = dropWhile is_space (drop 5 s); name = takeWhile (\<lambda>c. c \<noteq> quote) (tl a);
          b = drop (length name) (tl a); c = dropWhile is_space (tl b); d = dropWhile is_space (drop 6 c); n = takeWhile is_digit d
      in if starts_with s ''name:'' \<and> a \<noteq> [] \<and> hd a = quote \<and> name \<noteq> [] \<and> b \<noteq> [] \<and> tl b \<noteq> [] \<and> is_space (hd (tl b)) \<and>
            starts_with c ''value:'' \<and> n \<noteq> []
         then Some (name, n, drop (length n) d) else None)"

lemma match_stat_shorter:
  assumes "match_stat s = Some (name, n, rest)"
  shows "length rest < length s"
proof -
  let ?a = "dropWhile is_space (drop 5 s)"
  let ?b = "drop (length name) (tl ?a)"
  let ?c = "dropWhile is_space (tl ?b)"
  let ?d = "dropWhile is_space (drop 6 ?c)"
  from assms have ne: "s \<noteq> []" and rest: "rest = drop (length n) ?d"
    by (auto simp: match_stat_def Let_def split: if_splits)
  have "length rest \<le> length ?c" unfolding rest using length_dropWhile_le [of is_space "drop 6 ?c"] by simp
  also have "length ?c \<le> length ?a" using length_dropWhile_le [of is_space "tl ?b"] by simp
  also have "length ?a \<le> length (drop 5 s)" by (rule length_dropWhile_le)
  also have "length (drop 5 s) < length s" using ne by (cases s) auto
  finally show ?thesis .
qed

function stat_matches :: "string \<Rightarrow> (string \<times> string) list" where
  "stat_matches s =
     (if s = [] then []
      else (case match_stat s of Some (name, n, rest) \<Rightarrow> (name, n) # stat_matches rest | None \<Rightarrow> stat_matches (tl s)))"
  by pat_completeness auto
termination by (relation "measure length") (auto dest: match_stat_shorter)

declare stat_matches.simps [simp del]

text \<open>
  The counters of a JSON answer; what comes after an element that is no object is read as the
  older text format instead.  A name is a text, as the type of the answer says.
\<close>

fun stat_items :: "json list \<Rightarrow> (string, int option) js_map \<Rightarrow> (string, int option) js_map \<times> bool" where
  "stat_items [] m = (m, True)"
| "stat_items (JNull # xs) m = (m, False)"
| "stat_items (JObj kvs # xs) m =
     (case json_get ''name'' kvs of
        Some (JStr name) \<Rightarrow> stat_items xs (if name = [] then m
          else map_set name (case json_get ''value'' kvs of None \<Rightarrow> Some 0 | Some JNull \<Rightarrow> Some 0 | Some v \<Rightarrow> number_value v) m)
      | _ \<Rightarrow> stat_items xs m)"
| "stat_items (_ # xs) m = stat_items xs m"

definition parse_xray_stats :: "(string \<Rightarrow> json result) \<Rightarrow> string \<Rightarrow> (string, int option) js_map" where
  "parse_xray_stats parse output =
     (let read = (case parse output of
                    Inr (JObj kvs) \<Rightarrow> (case json_get ''stat'' kvs of
                        None \<Rightarrow> ([], True) | Some JNull \<Rightarrow> ([], True) | Some (JArr xs) \<Rightarrow> stat_items xs [] | Some (JStr _) \<Rightarrow> ([], True)
                      | Some _ \<Rightarrow> ([], False))
                  | Inr JNull \<Rightarrow> ([], False) | Inr _ \<Rightarrow> ([], True) | Inl _ \<Rightarrow> ([], False))
      in if snd read then fst read
         else fold (\<lambda>(name, n). map_set name (Some (int (number_of n)))) (stat_matches output) (fst read))"

text \<open>\<open>^user>>>([^>]+)>>>traffic>>>(uplink|downlink)$\<close>: the e-mail, and whether it is an upload.\<close>

definition user_stat :: "string \<Rightarrow> (string \<times> bool) option" where
  "user_stat name =
     (let email = takeWhile (\<lambda>c. c \<noteq> CHR ''>'') (drop 7 name); rest = drop (7 + length email) name
      in if \<not> starts_with name ''user>>>'' \<or> email = [] then None
         else if rest = ''>>>traffic>>>uplink'' then Some (email, True)
         else if rest = ''>>>traffic>>>downlink'' then Some (email, False) else None)"

definition add_count :: "int option \<Rightarrow> int option \<Rightarrow> int option" where
  "add_count a b = Option.bind a (\<lambda>x. map_option (\<lambda>y. x + y) b)"

type_synonym counted = "int option \<times> int option"

definition xray_point :: "string \<times> int option \<Rightarrow> (string, counted) js_map \<Rightarrow> (string, counted) js_map" where
  "xray_point = (\<lambda>(name, value) points.
     case user_stat name of
       None \<Rightarrow> points
     | Some (email, up) \<Rightarrow>
         (let i = telemetry_connection_id email; p = coalesce (map_get i points) (Some 0, Some 0)
          in map_set i (if up then (add_count (fst p) value, snd p) else (fst p, add_count (snd p) value)) points))"

definition xray_points :: "(string, int option) js_map \<Rightarrow> (string, counted) js_map" where
  "xray_points counters = fold xray_point counters []"

section \<open>sing-box\<close>

text \<open>
  The first message of a gRPC-Web stream, from the chunks as they arrive: \<open>None\<close> while more is
  needed.
\<close>

definition read_u32 :: "nat list \<Rightarrow> nat" where
  "read_u32 b = ((b ! 1 * 256 + b ! 2) * 256 + b ! 3) * 256 + b ! 4"

definition max_snapshot :: nat where
  "max_snapshot = 16 * 1024 * 1024"

definition first_message :: "nat list \<Rightarrow> nat list result option" where
  "first_message b =
     (if length b < 5 then None
      else if max_snapshot < read_u32 b then Some (Err (Thrown ''too large''))
      else if length b < read_u32 b + 5 then None
      else if b ! 0 \<noteq> 0 then Some (Err (Thrown ''unavailable''))
      else Some (Ok (take (read_u32 b) (drop 5 b))))"

fun read_snapshot :: "nat list \<Rightarrow> nat list list \<Rightarrow> nat list result" where
  "read_snapshot buffer [] = Err (Thrown ''missing connection snapshot'')"
| "read_snapshot buffer (chunk # chunks) =
     (case first_message (buffer @ chunk) of None \<Rightarrow> read_snapshot (buffer @ chunk) chunks | Some r \<Rightarrow> r)"

record sing_box_connection =
  sb_id :: string
  sb_user :: string
  sb_closed_at :: int
  sb_uplink :: int
  sb_downlink :: int

text \<open>\<open>decode\<close> gives the connection of each event, when it has one.\<close>

definition sing_box_snapshot ::
  "(nat list \<Rightarrow> sing_box_connection option list result) \<Rightarrow> nat list list \<Rightarrow> telemetry_snapshot result" where
  "sing_box_snapshot decode chunks =
     bind_result (read_snapshot [] chunks) (\<lambda>b. bind_result (decode b) (\<lambda>events.
       Ok (session_snapshot (map (\<lambda>c. \<lparr>xs_id = sb_id c, xs_user = Some (sb_user c), xs_upload = sb_uplink c, xs_download = sb_downlink c,
         xs_closed = sb_closed_at c \<noteq> 0\<rparr>) (List.map_filter id events)))))"

section \<open>AmneziaWG\<close>

definition amnezia_users :: "key_functions \<Rightarrow> credential_set list \<Rightarrow> (string, string) js_map result" where
  "amnezia_users K cs = bind_result (map_result (\<lambda>c. bind_result (amnezia_peer K c (cs_serial c)) (\<lambda>p. Ok (ap_public_key p, cs_connection_id c))) cs)
     (\<lambda>pairs. Ok (fold (\<lambda>(k, i). map_set k i) pairs []))"

definition word_number :: "string list \<Rightarrow> nat \<Rightarrow> int option" where
  "word_number ws n = (if n < length ws then text_number (ws ! n) else None)"

definition amnezia_line :: "(string, string) js_map \<Rightarrow> string \<Rightarrow> (string \<times> string \<times> counted) option" where
  "amnezia_line users line =
     (let ws = text_words (trim line); key = hd ws
      in map_option (\<lambda>i. (i, key, word_number ws 1, word_number ws 2)) (Option.bind (map_get key users) (\<lambda>i. given (Some i))))"

definition amnezia_points :: "(string, string) js_map \<Rightarrow> string \<Rightarrow> (string \<times> string \<times> counted) list" where
  "amnezia_points users output = List.map_filter (amnezia_line users) (filter (\<lambda>l. l \<noteq> []) (text_lines (trim output)))"

section \<open>The collectors\<close>

fun collector_interval :: "engine \<Rightarrow> int" where
  "collector_interval Mihomo = 5000"
| "collector_interval SingBox = 5000"
| "collector_interval _ = 30000"

definition configured_collectors :: "bool \<Rightarrow> (engine \<times> int) list" where
  "configured_collectors demo = (if demo then [] else map (\<lambda>e. (e, collector_interval e)) [Hysteria, Xray, Mihomo, SingBox, AmneziaWG])"

section \<open>What is counted\<close>

text \<open>The user that Xray knows a connection by leads back to it, in every generation.\<close>

lemma strip_end_append: "strip_end suffix (s @ suffix) = s"
  by (auto simp: strip_end_def ends_with_def starts_with_iff)

lemma strip_number_append:
  assumes "list_all is_digit n" "n \<noteq> []"
  shows "strip_number (s @ CHR ''.'' # n) = s"
proof -
  have dot: "\<not> is_digit (CHR ''.'')" by (simp add: is_digit_def)
  have "takeWhile is_digit (rev n @ CHR ''.'' # rev s) = rev n" "dropWhile is_digit (rev n @ CHR ''.'' # rev s) = CHR ''.'' # rev s"
    using assms(1) dot by (subst takeWhile_append2 dropWhile_append2; simp add: list_all_iff)+
  then show ?thesis using assms(2) by (simp add: strip_number_def Let_def)
qed

theorem xray_user_identified: "telemetry_connection_id (xray_email i gen) = i"
proof -
  have "xray_email i gen = (i @ CHR ''.'' # show_nat gen) @ ''@outpost.local''" by (simp add: xray_email_def)
  then have "strip_end ''@outpost.local'' (xray_email i gen) = i @ CHR ''.'' # show_nat gen" by (simp only: strip_end_append)
  then show ?thesis
    using strip_number_append [OF show_nat_digits show_nat_not_empty] by (simp add: telemetry_connection_id_def)
qed

text \<open>A name without dots and without \<open>@\<close>, such as a UUID, is the connection itself.\<close>

lemma plain_user_identified:
  assumes "CHR ''.'' \<notin> set i" "CHR ''@'' \<notin> set i"
  shows "telemetry_connection_id i = i"
proof -
  have "\<not> ends_with i ''@outpost.local''"
  proof
    assume "ends_with i ''@outpost.local''"
    then obtain t where "rev i = rev ''@outpost.local'' @ t" by (auto simp: ends_with_def starts_with_iff)
    then have "CHR ''@'' \<in> set (rev i)" by simp
    with assms(2) show False by simp
  qed
  moreover have "strip_number i = i"
  proof -
    have "CHR ''.'' \<notin> set (dropWhile is_digit (rev i))" using assms(1) by (auto dest: set_dropWhileD)
    then show ?thesis by (cases "dropWhile is_digit (rev i)") (auto simp: strip_number_def Let_def)
  qed
  ultimately show ?thesis by (simp add: telemetry_connection_id_def strip_end_def)
qed

text \<open>How the network cuts the stream into chunks does not matter.\<close>

lemma header_stable:
  assumes "5 \<le> length b"
  shows "read_u32 (b @ c) = read_u32 b" "(b @ c) ! 0 = b ! 0"
  using assms by (simp_all add: read_u32_def nth_append) (cases b; simp)

lemma first_message_stable:
  assumes "first_message b = Some r"
  shows "first_message (b @ c) = Some r"
proof -
  from assms have "5 \<le> length b" by (auto simp: first_message_def split: if_splits)
  note h = header_stable [OF this, of c]
  show ?thesis using assms by (auto simp: first_message_def h split: if_splits)
qed

theorem snapshot_chunks: "read_snapshot buffer chunks = read_snapshot buffer [concat chunks]" if "first_message buffer = None"
  using that
proof (induction chunks arbitrary: buffer)
  case (Cons c cs)
  show ?case
  proof (cases "first_message (buffer @ c)")
    case None
    from Cons.IH [OF this] None show ?thesis by (cases "first_message (buffer @ c @ concat cs)") simp_all
  next
    case (Some r)
    from first_message_stable [OF Some, of "concat cs"] Some show ?thesis by simp
  qed
qed simp

text \<open>The points of Xray add up the counters of all generations of a connection.\<close>

definition sum_counts :: "int option list \<Rightarrow> int option" where
  "sum_counts xs = fold (\<lambda>x a. add_count a x) xs (Some 0)"

definition counts_of :: "bool \<Rightarrow> string \<Rightarrow> (string \<times> int option) list \<Rightarrow> int option list" where
  "counts_of up i counters = List.map_filter (\<lambda>(name, v). case user_stat name of
     Some (email, u) \<Rightarrow> if u = up \<and> telemetry_connection_id email = i then Some v else None | None \<Rightarrow> None) counters"

lemma counts_of_Cons:
  "counts_of up i ((name, v) # cs) = (case user_stat name of
     Some (email, u) \<Rightarrow> if u = up \<and> telemetry_connection_id email = i then v # counts_of up i cs else counts_of up i cs
   | None \<Rightarrow> counts_of up i cs)"
  by (auto simp: counts_of_def List.map_filter_def split: option.split)

lemma xray_point_cases:
  "user_stat name = None \<Longrightarrow> xray_point (name, v) points = points"
  "user_stat name = Some (email, up) \<Longrightarrow> xray_point (name, v) points =
     (let i = telemetry_connection_id email; p = coalesce (map_get i points) (Some 0, Some 0)
      in map_set i (if up then (add_count (fst p) v, snd p) else (fst p, add_count (snd p) v)) points)"
  by (simp_all add: xray_point_def)

lemma xray_points_from:
  "coalesce (map_get i (fold xray_point counters points)) (Some 0, Some 0) =
     (fold (\<lambda>x a. add_count a x) (counts_of True i counters) (fst (coalesce (map_get i points) (Some 0, Some 0))),
      fold (\<lambda>x a. add_count a x) (counts_of False i counters) (snd (coalesce (map_get i points) (Some 0, Some 0))))"
proof (induction counters arbitrary: points)
  case Nil
  then show ?case by (simp add: counts_of_def List.map_filter_def)
next
  case (Cons c cs)
  obtain name v where c: "c = (name, v)" by (cases c)
  show ?case
  proof (cases "user_stat name")
    case None
    then show ?thesis by (simp add: Cons.IH c xray_point_cases counts_of_Cons)
  next
    case (Some e)
    then show ?thesis by (cases e) (simp add: Cons.IH c xray_point_cases counts_of_Cons Let_def)
  qed
qed

theorem xray_points_add_up:
  "coalesce (map_get i (xray_points counters)) (Some 0, Some 0) =
     (sum_counts (counts_of True i counters), sum_counts (counts_of False i counters))"
  using xray_points_from [of i counters "[]"] by (simp add: xray_points_def sum_counts_def map_get_def)

text \<open>A connection is online with as many sessions as it has open.\<close>

lemma count_online_from:
  "coalesce (map_get i (count_online xs m)) 0 =
     coalesce (map_get i m) 0 + int (length (filter (\<lambda>x. \<not> xs_closed x \<and> map_option telemetry_connection_id (given (xs_user x)) = Some i) xs))"
  by (induction xs arbitrary: m) (auto simp: Let_def split: option.split)

theorem online_counted:
  "coalesce (map_get i (coalesce (sn_online (session_snapshot xs)) [])) 0 =
     int (length (filter (\<lambda>x. \<not> xs_closed x \<and> map_option telemetry_connection_id (given (xs_user x)) = Some i) xs))"
  using count_online_from [of i xs "[]"] by (simp add: session_snapshot_def map_get_def)

end
