(* ===== verification/Panel_Settings.thy ===== *)
theory Panel_Settings
  imports Updates Subscriptions Services
begin

text \<open>
  The settings of the panel (src/src/shared/settings.ts, src/src/server/services/system.ts): the
  schema of a patch, its merge into the stored settings, and the state the panel shows.

  The settings live in three rows: the interface, the system (its update channel belongs to the
  updates of the panel) and the network.
\<close>

section \<open>Schemas\<close>

text \<open>A port is a number, or a range written with two numerals of at most five digits.\<close>

definition range_end :: "string \<Rightarrow> bool" where
  "range_end s \<longleftrightarrow> 1 \<le> length s \<and> length s \<le> 5 \<and> list_all is_digit s"

definition port_range :: "string \<Rightarrow> bool" where
  "port_range s =
     (case split_on (CHR ''-'') s of
        [a, b] \<Rightarrow> range_end a \<and> range_end b \<and> 1 \<le> number_of a \<and> number_of b \<le> 65535 \<and> number_of a \<le> number_of b
      | _ \<Rightarrow> False)"

fun port_item :: "json \<Rightarrow> bool" where
  "port_item (JNum n) = (1 \<le> n \<and> n \<le> 65535)"
| "port_item (JStr s) = port_range s"
| "port_item _ = False"

definition ports_ok :: "json list \<Rightarrow> bool" where
  "ports_ok ps \<longleftrightarrow> 1 \<le> length ps \<and> length ps \<le> 64 \<and> list_all port_item ps"

definition dns_modes :: "string list" where
  "dns_modes = [''fake-ip'', ''redir-host'']"

text \<open>An optional field: absent, or a value its schema accepts.\<close>

definition optional_key :: "(json \<Rightarrow> 'a option) \<Rightarrow> string \<Rightarrow> (string \<times> json) list \<Rightarrow> 'a option result" where
  "optional_key f k kvs = (case json_get k kvs of
      None \<Rightarrow> Ok None
    | Some j \<Rightarrow> (case f j of None \<Rightarrow> Err zod_error | Some x \<Rightarrow> Ok (Some x)))"

fun bool_value :: "json \<Rightarrow> bool option" where
  "bool_value (JBool b) = Some b"
| "bool_value _ = None"

fun ports_value :: "json \<Rightarrow> json list option" where
  "ports_value (JArr ps) = (if ports_ok ps then Some ps else None)"
| "ports_value _ = None"

fun dns_value :: "json \<Rightarrow> string option" where
  "dns_value (JStr s) = (if s \<in> set dns_modes then Some s else None)"
| "dns_value _ = None"

fun timezone_value :: "json \<Rightarrow> string option" where
  "timezone_value (JStr s) = (if 1 \<le> length s \<and> length s \<le> 100 then Some s else None)"
| "timezone_value _ = None"

fun channel_value :: "json \<Rightarrow> channel option" where
  "channel_value (JStr s) = map_of [(''stable'', Stable), (''candidate'', Candidate)] s"
| "channel_value _ = None"

definition strict_keys :: "string list \<Rightarrow> (string \<times> json) list \<Rightarrow> unit result" where
  "strict_keys ks kvs = (if list_all (\<lambda>(k, _). k \<in> set ks) kvs then Ok () else Err zod_error)"

text \<open>An optional object of a patch.\<close>

definition optional_object :: "((string \<times> json) list \<Rightarrow> 'a result) \<Rightarrow> string \<Rightarrow> (string \<times> json) list \<Rightarrow> 'a option result" where
  "optional_object f k kvs = (case json_get k kvs of
      None \<Rightarrow> Ok None
    | Some (JObj o') \<Rightarrow> bind_result (f o') (\<lambda>x. Ok (Some x))
    | Some _ \<Rightarrow> Err zod_error)"

record mihomo_patch =
  mp_dns_mode :: "string option"
  mp_sniffing :: "bool option"
  mp_http_ports :: "json list option"
  mp_tls_ports :: "json list option"
  mp_quic_ports :: "json list option"

record network_patch =
  np_ipv6 :: "bool option"
  np_block_quic :: "bool option"
  np_mihomo :: "mihomo_patch option"

record settings_patch =
  pa_interface :: "bool option option"
  pa_system :: "(string option \<times> channel option) option"
  pa_network :: "network_patch option"

definition parse_mihomo :: "(string \<times> json) list \<Rightarrow> mihomo_patch result" where
  "parse_mihomo kvs =
     bind_result (strict_keys [''dnsMode'', ''sniffing'', ''httpPorts'', ''tlsPorts'', ''quicPorts''] kvs) (\<lambda>_.
     bind_result (optional_key dns_value ''dnsMode'' kvs) (\<lambda>d.
     bind_result (optional_key bool_value ''sniffing'' kvs) (\<lambda>s.
     bind_result (optional_key ports_value ''httpPorts'' kvs) (\<lambda>h.
     bind_result (optional_key ports_value ''tlsPorts'' kvs) (\<lambda>t.
     bind_result (optional_key ports_value ''quicPorts'' kvs) (\<lambda>q.
       Ok \<lparr>mp_dns_mode = d, mp_sniffing = s, mp_http_ports = h, mp_tls_ports = t, mp_quic_ports = q\<rparr>))))))"

definition parse_network_patch :: "(string \<times> json) list \<Rightarrow> network_patch result" where
  "parse_network_patch kvs =
     bind_result (strict_keys [''ipv6'', ''blockQuic'', ''mihomo''] kvs) (\<lambda>_.
     bind_result (optional_key bool_value ''ipv6'' kvs) (\<lambda>i.
     bind_result (optional_key bool_value ''blockQuic'' kvs) (\<lambda>q.
     bind_result (optional_object parse_mihomo ''mihomo'' kvs) (\<lambda>m.
       Ok \<lparr>np_ipv6 = i, np_block_quic = q, np_mihomo = m\<rparr>))))"

definition parse_system :: "(string \<times> json) list \<Rightarrow> (string option \<times> channel option) result" where
  "parse_system kvs =
     bind_result (strict_keys [''timezone'', ''updateChannel''] kvs) (\<lambda>_.
     bind_result (optional_key timezone_value ''timezone'' kvs) (\<lambda>t.
     bind_result (optional_key channel_value ''updateChannel'' kvs) (\<lambda>c. Ok (t, c))))"

definition parse_interface :: "(string \<times> json) list \<Rightarrow> bool option result" where
  "parse_interface kvs = bind_result (strict_keys [''compact''] kvs) (\<lambda>_. optional_key bool_value ''compact'' kvs)"

fun parse_settings_patch :: "json \<Rightarrow> settings_patch result" where
  "parse_settings_patch (JObj kvs) =
     bind_result (strict_keys [''interface'', ''system'', ''network''] kvs) (\<lambda>_.
     bind_result (optional_object parse_interface ''interface'' kvs) (\<lambda>i.
     bind_result (optional_object parse_system ''system'' kvs) (\<lambda>s.
     bind_result (optional_object parse_network_patch ''network'' kvs) (\<lambda>n.
       Ok \<lparr>pa_interface = i, pa_system = s, pa_network = n\<rparr>))))"
| "parse_settings_patch _ = Err zod_error"

section \<open>The stored settings\<close>

record settings_world =
  gw_compact :: "bool option"
  gw_timezone :: "string option"
  gw_network :: "network_settings option"
  gw_updates :: update_world

record panel_settings =
  pv_compact :: bool
  pv_timezone :: string
  pv_channel :: channel
  pv_network :: network_settings

definition panel_settings :: "settings_world \<Rightarrow> panel_settings" where
  "panel_settings w = \<lparr>pv_compact = coalesce (gw_compact w) False, pv_timezone = coalesce (gw_timezone w) ''UTC'',
     pv_channel = the_channel (gw_updates w), pv_network = coalesce (gw_network w) network_defaults\<rparr>"

definition merge_mihomo :: "mihomo_patch option \<Rightarrow> network_settings \<Rightarrow> network_settings" where
  "merge_mihomo p nw = (case p of
      None \<Rightarrow> nw
    | Some p \<Rightarrow> nw\<lparr>nw_dns_mode := coalesce (mp_dns_mode p) (nw_dns_mode nw), nw_sniffing := coalesce (mp_sniffing p) (nw_sniffing nw),
        nw_http_ports := coalesce (mp_http_ports p) (nw_http_ports nw), nw_tls_ports := coalesce (mp_tls_ports p) (nw_tls_ports nw),
        nw_quic_ports := coalesce (mp_quic_ports p) (nw_quic_ports nw)\<rparr>)"

definition merge_network :: "network_patch \<Rightarrow> network_settings \<Rightarrow> network_settings" where
  "merge_network p nw = merge_mihomo (np_mihomo p)
     (nw\<lparr>nw_ipv6 := coalesce (np_ipv6 p) (nw_ipv6 nw), nw_block_quic := coalesce (np_block_quic p) (nw_block_quic nw)\<rparr>)"

definition settings_json :: "panel_settings \<Rightarrow> json" where
  "settings_json v =
     (let n = pv_network v
      in JObj [(''interface'', JObj [(''compact'', JBool (pv_compact v))]),
        (''system'', JObj [(''timezone'', JStr (pv_timezone v)),
           (''updateChannel'', JStr (if pv_channel v = Candidate then ''candidate'' else ''stable''))]),
        (''network'', JObj [(''ipv6'', JBool (nw_ipv6 n)), (''blockQuic'', JBool (nw_block_quic n)),
           (''mihomo'', JObj [(''dnsMode'', JStr (nw_dns_mode n)), (''sniffing'', JBool (nw_sniffing n)), (''httpPorts'', JArr (nw_http_ports n)),
             (''tlsPorts'', JArr (nw_tls_ports n)), (''quicPorts'', JArr (nw_quic_ports n))])])])"

text \<open>\<open>updateSettings\<close>: a row is written when its part of the patch is there, whatever it holds.\<close>

definition apply_patch :: "settings_patch \<Rightarrow> settings_world \<Rightarrow> settings_world" where
  "apply_patch p w =
     (let before = panel_settings w;
          w1 = (case pa_interface p of None \<Rightarrow> w | Some c \<Rightarrow> w\<lparr>gw_compact := Some (coalesce c (pv_compact before))\<rparr>);
          w2 = (case pa_system p of
                  None \<Rightarrow> w1
                | Some (t, c) \<Rightarrow> w1\<lparr>gw_timezone := Some (coalesce t (pv_timezone before)),
                    gw_updates := set_channel (coalesce c (pv_channel before)) (gw_updates w1)\<rparr>)
      in (case pa_network p of None \<Rightarrow> w2 | Some n \<Rightarrow> w2\<lparr>gw_network := Some (merge_network n (pv_network before))\<rparr>))"

definition update_settings :: "json \<Rightarrow> string \<Rightarrow> time \<Rightarrow> settings_world \<Rightarrow> (panel_settings \<times> settings_world) result" where
  "update_settings input actor now w =
     bind_result (parse_settings_patch input) (\<lambda>p.
       (let w1 = apply_patch p w; after = panel_settings w1; u = gw_updates w1
        in Ok (after, w1\<lparr>gw_updates := u\<lparr>uw_db := snd (audit actor ''settings.update'' ''settings'' None (Some (settings_json after)) now (uw_db u))\<rparr>\<rparr>)))"

definition run_settings :: "(time \<times> string \<times> json) list \<Rightarrow> settings_world \<Rightarrow> settings_world" where
  "run_settings calls w = foldl (\<lambda>w (now, actor, input). case update_settings input actor now w of Inl _ \<Rightarrow> w | Inr (_, w') \<Rightarrow> w') w calls"

section \<open>The settings stay valid\<close>

text \<open>The full schemas, and the schema of the whole settings.\<close>

definition network_valid :: "network_settings \<Rightarrow> bool" where
  "network_valid nw \<longleftrightarrow> nw_dns_mode nw \<in> set dns_modes \<and> ports_ok (nw_http_ports nw) \<and> ports_ok (nw_tls_ports nw) \<and> ports_ok (nw_quic_ports nw)"

definition settings_valid :: "panel_settings \<Rightarrow> bool" where
  "settings_valid v \<longleftrightarrow> 1 \<le> length (pv_timezone v) \<and> length (pv_timezone v) \<le> 100 \<and> network_valid (pv_network v)"

definition fresh_settings :: "update_world \<Rightarrow> settings_world" where
  "fresh_settings u = \<lparr>gw_compact = None, gw_timezone = None, gw_network = None, gw_updates = u\<rparr>"

lemma defaults_valid: "network_valid network_defaults"
  by code_simp

lemma optional_key_value: "optional_key f k kvs = Ok (Some x) \<Longrightarrow> \<exists>j. f j = Some x"
  by (auto simp: optional_key_def split: option.splits)

lemma ports_value_ok: "ports_value j = Some ps \<Longrightarrow> ports_ok ps"
  by (cases j) (auto split: if_splits)

lemma dns_value_ok: "dns_value j = Some s \<Longrightarrow> s \<in> set dns_modes"
  by (cases j) (auto split: if_splits)

definition mihomo_patch_ok :: "mihomo_patch \<Rightarrow> bool" where
  "mihomo_patch_ok p \<longleftrightarrow> (\<forall>s. mp_dns_mode p = Some s \<longrightarrow> s \<in> set dns_modes) \<and> (\<forall>ps. mp_http_ports p = Some ps \<longrightarrow> ports_ok ps) \<and>
     (\<forall>ps. mp_tls_ports p = Some ps \<longrightarrow> ports_ok ps) \<and> (\<forall>ps. mp_quic_ports p = Some ps \<longrightarrow> ports_ok ps)"

lemma parse_mihomo_ok: "parse_mihomo kvs = Ok p \<Longrightarrow> mihomo_patch_ok p"
  unfolding mihomo_patch_ok_def parse_mihomo_def
  by (auto dest!: optional_key_value dest: ports_value_ok dns_value_ok)

lemma optional_object_value: "optional_object f k kvs = Ok (Some x) \<Longrightarrow> \<exists>o'. f o' = Ok x"
  by (auto simp: optional_object_def split: option.splits json.splits)

lemma parse_network_patch_ok: "parse_network_patch kvs = Ok p \<Longrightarrow> np_mihomo p = Some m \<Longrightarrow> mihomo_patch_ok m"
  by (auto simp: parse_network_patch_def dest!: optional_object_value dest: parse_mihomo_ok)

lemma coalesce_ok: "(\<And>x. a = Some x \<Longrightarrow> P x) \<Longrightarrow> P b \<Longrightarrow> P (coalesce a b)"
  by (cases a) simp_all

lemma merge_network_valid:
  assumes "network_valid nw" "\<And>m. np_mihomo p = Some m \<Longrightarrow> mihomo_patch_ok m"
  shows "network_valid (merge_network p nw)"
proof (cases "np_mihomo p")
  case None
  with assms(1) show ?thesis by (simp add: merge_network_def merge_mihomo_def network_valid_def)
next
  case (Some m)
  from assms(2) [OF this] assms(1) show ?thesis
    unfolding merge_network_def merge_mihomo_def Some network_valid_def mihomo_patch_ok_def
    by (auto intro!: coalesce_ok [where P = ports_ok] coalesce_ok [where P = "\<lambda>s. s \<in> set dns_modes"])
qed

lemma parse_patch_parts:
  assumes "parse_settings_patch input = Ok p"
  shows "pa_network p = Some n \<Longrightarrow> \<exists>kvs. parse_network_patch kvs = Ok n"
    "pa_system p = Some (t, c) \<Longrightarrow> \<exists>kvs. parse_system kvs = Ok (t, c)"
  using assms by (cases input; auto dest: optional_object_value)+

lemma parse_system_ok: "parse_system kvs = Ok (Some t, c) \<Longrightarrow> 1 \<le> length t \<and> length t \<le> 100"
proof -
  assume "parse_system kvs = Ok (Some t, c)"
  then obtain j where "timezone_value j = Some t" by (auto simp: parse_system_def dest: optional_key_value)
  then show ?thesis by (cases j) (auto split: if_splits)
qed

lemma apply_patch_fields:
  "pv_timezone (panel_settings (apply_patch p w)) =
     (case pa_system p of Some (Some t, _) \<Rightarrow> t | _ \<Rightarrow> pv_timezone (panel_settings w))"
  "pv_network (panel_settings (apply_patch p w)) =
     (case pa_network p of Some n \<Rightarrow> merge_network n (pv_network (panel_settings w)) | None \<Rightarrow> pv_network (panel_settings w))"
  "pv_compact (panel_settings (apply_patch p w)) =
     (case pa_interface p of Some (Some b) \<Rightarrow> b | _ \<Rightarrow> pv_compact (panel_settings w))"
  by (auto simp: apply_patch_def panel_settings_def Let_def coalesce_def split: option.split prod.split)

lemma the_channel_set [simp]: "the_channel (set_channel c u) = c"
  by (cases c) (auto simp: set_channel_def the_channel_def reset_update_def Let_def)

lemma apply_patch_channel:
  "pv_channel (panel_settings (apply_patch p w)) =
     (case pa_system p of Some (_, Some c) \<Rightarrow> c | _ \<Rightarrow> pv_channel (panel_settings w))"
  by (auto simp: apply_patch_def panel_settings_def Let_def split: option.split prod.split)

lemma audit_shown [simp]: "panel_settings (w\<lparr>gw_updates := (gw_updates w)\<lparr>uw_db := d\<rparr>\<rparr>) = panel_settings w"
  by (simp add: panel_settings_def the_channel_def)

lemma update_settings_Ok:
  assumes "update_settings input actor now w = Ok (v, w')"
  shows "\<exists>p. parse_settings_patch input = Ok p \<and> v = panel_settings (apply_patch p w) \<and> panel_settings w' = v"
  using assms by (auto simp: update_settings_def Let_def)

lemma update_settings_valid:
  assumes "update_settings input actor now w = Ok (v, w')" "settings_valid (panel_settings w)"
  shows "settings_valid (panel_settings w')"
proof -
  from update_settings_Ok [OF assms(1)] obtain p where p: "parse_settings_patch input = Ok p" "panel_settings w' = panel_settings (apply_patch p w)" by auto
  have "network_valid (pv_network (panel_settings (apply_patch p w)))"
    using assms(2) parse_patch_parts(1) [OF p(1)] parse_network_patch_ok
    by (auto simp: apply_patch_fields settings_valid_def split: option.split intro!: merge_network_valid)
  moreover have "1 \<le> length (pv_timezone (panel_settings (apply_patch p w))) \<and> length (pv_timezone (panel_settings (apply_patch p w))) \<le> 100"
    using assms(2) parse_patch_parts(2) [OF p(1)] parse_system_ok
    by (fastforce simp: apply_patch_fields settings_valid_def split: option.split prod.split)
  ultimately show ?thesis by (simp add: p(2) settings_valid_def)
qed

interpretation settings: invariant_service
  "\<lambda>w (now, actor, input). case update_settings input actor now w of Inl _ \<Rightarrow> w | Inr (_, w') \<Rightarrow> w'" "\<lambda>w. settings_valid (panel_settings w)"
proof
  fix w and c :: "time \<times> string \<times> json"
  assume valid: "settings_valid (panel_settings w)"
  obtain now actor input where c: "c = (now, actor, input)" by (cases c)
  show "settings_valid (panel_settings (case c of (now, actor, input) \<Rightarrow>
      case update_settings input actor now w of Inl _ \<Rightarrow> w | Inr (_, w') \<Rightarrow> w'))"
  proof (cases "update_settings input actor now w")
    case (Inr q)
    with valid update_settings_valid [of input actor now w "fst q" "snd q"] show ?thesis by (simp add: c split_beta)
  qed (simp add: c valid)
qed


text \<open>A patch changes what it names and nothing else.\<close>

theorem unnamed_settings_kept:
  assumes "update_settings (JObj []) actor now w = Ok (v, w')"
  shows "v = panel_settings w"
  using assms by (auto simp: update_settings_def strict_keys_def optional_object_def json_get_def apply_patch_def Let_def)

theorem network_patch_keeps_rest:
  assumes "parse_settings_patch input = Ok p" "pa_network p = Some n" "pa_interface p = None" "pa_system p = None" "np_mihomo n = None"
  shows "panel_settings (apply_patch p w) = (panel_settings w)\<lparr>pv_network := (pv_network (panel_settings w))
    \<lparr>nw_ipv6 := coalesce (np_ipv6 n) (nw_ipv6 (pv_network (panel_settings w))),
     nw_block_quic := coalesce (np_block_quic n) (nw_block_quic (pv_network (panel_settings w)))\<rparr>\<rparr>"
  using assms by (simp add: apply_patch_def panel_settings_def merge_network_def merge_mihomo_def Let_def)

end
